(* ===== verification/Prelude.thy ===== *)
theory Prelude
  imports Main "HOL-Library.Word"
begin

text \<open>
  Shared vocabulary of the development: the machine integer types of the C++ code, the
  faults a piece of code can end in, sequencing of fallible code, and the conversion
  between the bytes of a packet buffer and the characters of a \<^verbatim>\<open>std::string\<close>.

  The library was written for platforms where \<^verbatim>\<open>unsigned char\<close>, \<^verbatim>\<open>unsigned short\<close> and
  \<^verbatim>\<open>unsigned int\<close> have 8, 16 and 32 bits; \<^verbatim>\<open>size_t\<close> is wider than any container that
  occurs, so container sizes are natural numbers.
\<close>

unbundle bit_operations_syntax

type_synonym u8 = "8 word"
type_synonym u16 = "16 word"
type_synonym u32 = "32 word"

named_theorems codec_simps \<open>rewrite rules that run a decoder over the bytes an encoder wrote\<close>
named_theorems frame_simps \<open>what an operation leaves unchanged\<close>

section \<open>Faults and sequencing\<close>

text \<open>
  \<open>ParseException\<close> is the exception of \<^verbatim>\<open>libicq2000/exceptions.h\<close> the parsers throw.
  \<open>OutOfRange\<close> marks an access outside a container (undefined behaviour in C++), and
  \<open>OutOfFuel\<close> is the result of a fuelled loop whose fuel was used up. \<open>Uninitialised\<close> is the use of
  a pointer that was never set, \<open>DivisionByZero\<close> a remainder by 0,
  \<open>NullPointer\<close> the use of a null pointer and \<open>BadCast\<close> that of an object through a pointer to
  another class (all undefined behaviour too).
\<close>

datatype fault = ParseException string | OutOfRange | OutOfFuel | Uninitialised | DivisionByZero
  | NullPointer | BadCast

type_synonym 'a result = "fault + 'a"

definition andThen :: "'a result \<Rightarrow> ('a \<Rightarrow> 'b result) \<Rightarrow> 'b result" where
  "andThen m f = (case m of Inl e \<Rightarrow> Inl e | Inr x \<Rightarrow> f x)"

lemma andThen_Inr [simp]: "andThen (Inr x) f = f x"
  by (simp add: andThen_def)

lemma andThen_Inl [simp]: "andThen (Inl e) f = Inl e"
  by (simp add: andThen_def)

lemma andThen_cong [fundef_cong]:
  "m = m' \<Longrightarrow> (\<And>x. m' = Inr x \<Longrightarrow> f x = f' x) \<Longrightarrow> andThen m f = andThen m' f'"
  by (cases m') (auto simp: andThen_def)

lemma andThen_eq_Inr: "andThen m f = Inr y \<longleftrightarrow> (\<exists>x. m = Inr x \<and> f x = Inr y)"
  by (cases m) auto

lemma andThen_InrE:
  assumes "andThen m f = Inr y"
  obtains x where "m = Inr x" and "f x = Inr y"
  using assms by (auto simp: andThen_eq_Inr)

lemma andThen_assoc: "andThen (andThen m f) g = andThen m (\<lambda>x. andThen (f x) g)"
  by (cases m) auto

section \<open>Bytes and characters\<close>

definition char_of_byte :: "u8 \<Rightarrow> char" where
  "char_of_byte b = char_of (unat b)"

definition byte_of_char :: "char \<Rightarrow> u8" where
  "byte_of_char c = word_of_nat (of_char c)"

lemma of_char_less_256: "(of_char c :: nat) < 256"
  using nat_of_char_less_256 by simp

lemma char_of_byte_of_char [simp]: "char_of_byte (byte_of_char c) = c"
  by (simp add: char_of_byte_def byte_of_char_def unat_of_nat of_char_less_256)

lemma byte_of_char_of_byte [simp]: "byte_of_char (char_of_byte b) = b"
proof -
  have "unat b < 256"
    using unsigned_less [of b] by simp
  then show ?thesis
    by (simp add: char_of_byte_def byte_of_char_def)
qed

lemma map_char_of_byte_of_char [simp]: "map char_of_byte (map byte_of_char s) = s"
  by (simp add: comp_def)

definition bytes_of_string :: "string \<Rightarrow> u8 list" where
  "bytes_of_string s = map byte_of_char s"

definition string_of_bytes :: "u8 list \<Rightarrow> string" where
  "string_of_bytes bs = map char_of_byte bs"

lemma string_of_bytes_of_string [simp]: "string_of_bytes (bytes_of_string s) = s"
  by (simp add: string_of_bytes_def bytes_of_string_def comp_def)

lemma bytes_of_string_of_bytes [simp]: "bytes_of_string (string_of_bytes b) = b"
  by (simp add: string_of_bytes_def bytes_of_string_def comp_def)

lemma length_bytes_of_string [simp]: "length (bytes_of_string s) = length s"
  by (simp add: bytes_of_string_def)

lemma length_string_of_bytes [simp]: "length (string_of_bytes b) = length b"
  by (simp add: string_of_bytes_def)

section \<open>Splitting a machine integer into octets\<close>

text \<open>\<open>octet n w\<close> is the C++ expression \<^verbatim>\<open>(w >> n) & 0xFF\<close>, stored in an \<^verbatim>\<open>unsigned char\<close>.\<close>

definition octet :: "nat \<Rightarrow> 'a::len word \<Rightarrow> u8" where
  "octet n w = ucast (drop_bit n w AND 0xFF)"

lemma bit_octet: "bit (octet n w) i \<longleftrightarrow> i < 8 \<and> bit w (n + i)"
proof -
  have m: "(0xFF :: 'a word) = mask 8"
    by (simp add: mask_eq_exp_minus_1)
  show ?thesis
    by (auto simp: octet_def bit_simps m dest: bit_imp_le_length)
qed

definition join16 :: "u8 \<Rightarrow> u8 \<Rightarrow> u16" where
  "join16 hi lo = push_bit 8 (ucast hi) + ucast lo"

definition join32 :: "u8 \<Rightarrow> u8 \<Rightarrow> u8 \<Rightarrow> u8 \<Rightarrow> u32" where
  "join32 b3 b2 b1 b0 =
     push_bit 24 (ucast b3) + push_bit 16 (ucast b2) + push_bit 8 (ucast b1) + ucast b0"

lemma join16_octets [simp]: "join16 (octet 8 w) (octet 0 w) = w"
proof -
  have "join16 (octet 8 w) (octet 0 w) =
      (push_bit 8 (ucast (octet 8 w)) OR ucast (octet 0 w) :: u16)"
    unfolding join16_def
    by (rule disjunctive_add_eq_or) (rule bit_word_eqI, auto simp: bit_simps bit_octet)
  also have "\<dots> = w"
    by (rule bit_word_eqI) (auto simp: bit_simps bit_octet)
  finally show ?thesis .
qed

lemma join32_octets [simp]: "join32 (octet 24 w) (octet 16 w) (octet 8 w) (octet 0 w) = w"
proof -
  let ?b3 = "push_bit 24 (ucast (octet 24 w)) :: u32"
  let ?b2 = "push_bit 16 (ucast (octet 16 w)) :: u32"
  let ?b1 = "push_bit 8 (ucast (octet 8 w)) :: u32"
  let ?b0 = "ucast (octet 0 w) :: u32"
  have 1: "?b3 + ?b2 = ?b3 OR ?b2"
    by (rule disjunctive_add_eq_or) (rule bit_word_eqI, auto simp: bit_simps bit_octet)
  have 2: "(?b3 OR ?b2) + ?b1 = ?b3 OR ?b2 OR ?b1"
    by (subst disjunctive_add_eq_or) (rule bit_word_eqI, auto simp: bit_simps bit_octet or.assoc)
  have 3: "(?b3 OR ?b2 OR ?b1) + ?b0 = ?b3 OR ?b2 OR ?b1 OR ?b0"
    by (subst disjunctive_add_eq_or) (rule bit_word_eqI, auto simp: bit_simps bit_octet or.assoc)
  have "?b3 OR ?b2 OR ?b1 OR ?b0 = w"
  proof (rule bit_word_eqI)
    fix n assume "n < LENGTH(32)"
    then consider "n < 8" | "8 \<le> n" "n < 16" | "16 \<le> n" "n < 24" | "24 \<le> n" "n < 32"
      by fastforce
    then show "bit (?b3 OR ?b2 OR ?b1 OR ?b0) n = bit w n"
      by cases (auto simp: bit_simps bit_octet)
  qed
  then show ?thesis
    by (simp add: join32_def 1 2 3)
qed

lemma octet_join16_low [simp]: "octet 0 (join16 hi lo) = lo"
  and octet_join16_high [simp]: "octet 8 (join16 hi lo) = hi"
proof -
  have j: "join16 hi lo = (push_bit 8 (ucast hi) OR ucast lo :: u16)"
    unfolding join16_def
    by (rule disjunctive_add_eq_or) (rule bit_word_eqI, auto simp: bit_simps dest: bit_imp_le_length)
  show "octet 0 (join16 hi lo) = lo"
    by (rule bit_word_eqI) (auto simp: bit_octet j bit_simps dest: bit_imp_le_length)
  show "octet 8 (join16 hi lo) = hi"
    by (rule bit_word_eqI) (auto simp: bit_octet j bit_simps dest: bit_imp_le_length)
qed

lemma unat_plus_u32: "unat (x :: u32) + unat y < 2 ^ 32 \<Longrightarrow> unat (x + y) = unat x + unat y"
  by (simp add: unat_word_ariths)

lemma unat_of_nat_u32: "n < 2 ^ 32 \<Longrightarrow> unat (word_of_nat n :: u32) = n"
  by (simp add: unat_of_nat)

lemma unat_ucast_up: "LENGTH('a) \<le> LENGTH('b) \<Longrightarrow> unat (ucast (w :: 'a::len word) :: 'b::len word) = unat w"
proof -
  assume le: "LENGTH('a) \<le> LENGTH('b)"
  have "unat w < 2 ^ LENGTH('a)"
    by (rule unsigned_less)
  also have "\<dots> \<le> 2 ^ LENGTH('b)"
    using le by (intro power_increasing) auto
  finally show ?thesis
    by (simp add: unsigned_ucast_eq take_bit_nat_eq_self_iff)
qed

lemma unat_ucast_16_32 [simp]: "unat (ucast (w :: u16) :: u32) = unat w"
  by (rule unat_ucast_up) simp

lemma unat_ucast_8_32 [simp]: "unat (ucast (w :: u8) :: u32) = unat w"
  by (rule unat_ucast_up) simp

lemma unat_ucast_8_16 [simp]: "unat (ucast (w :: u8) :: u16) = unat w"
  by (rule unat_ucast_up) simp

lemma ucast_u16_of_nat: "(ucast (w :: u16) :: u32) = word_of_nat (unat w)"
  by (simp add: word_unat_eq_iff)

lemma unat_u8_le: "unat (w :: u8) \<le> 255"
proof -
  have "unat w < 2 ^ LENGTH(8)" by (rule unsigned_less)
  then show ?thesis by simp
qed

lemma unat_u16_le: "unat (w :: u16) \<le> 65535"
proof -
  have "unat w < 2 ^ LENGTH(16)" by (rule unsigned_less)
  then show ?thesis by simp
qed

section \<open>Streams of frames\<close>

text \<open>A piece of a stream of frames is some frames and a proper part of the next one.\<close>

lemma split_frames:
  assumes "d @ rest = concat (map f ps)"
  obtains qs ps' d' where "ps = qs @ ps'" and "d = concat (map f qs) @ d'"
    and "d' = [] \<or> (\<exists>p t ps''. ps' = p # ps'' \<and> f p = d' @ t \<and> t \<noteq> [])"
  using assms
proof (induction ps arbitrary: d thesis)
  case Nil
  then show ?case by simp
next
  case (Cons p ps)
  from Cons.prems(2) have c: "d @ rest = f p @ concat (map f ps)" by simp
  show ?case
  proof (cases "length (f p) \<le> length d")
    case True
    let ?d1 = "drop (length (f p)) d"
    have "take (length (f p)) (d @ rest) = f p"
      by (simp add: c)
    then have d1: "d = f p @ ?d1"
      using True by (metis append_take_drop_id diff_is_0_eq take_0 append_Nil2 take_append)
    then have d2: "?d1 @ rest = concat (map f ps)"
      using c by (metis append.assoc same_append_eq)
    show ?thesis
    proof (rule Cons.IH [OF _ d2])
      fix qs ps' d'
      assume "ps = qs @ ps'" "?d1 = concat (map f qs) @ d'"
        "d' = [] \<or> (\<exists>p t ps''. ps' = p # ps'' \<and> f p = d' @ t \<and> t \<noteq> [])"
      then show thesis
        using d1 by (intro Cons.prems(1) [of "p # qs" ps' d']) auto
    qed
  next
    case False
    let ?t = "drop (length d) (f p)"
    have "take (length d) (f p @ concat (map f ps)) = d"
      by (simp add: c [symmetric])
    then have "f p = d @ ?t" "?t \<noteq> []"
      using False by (metis append_take_drop_id diff_is_0_eq take_0 append_Nil2 take_append nat_le_linear, simp)
    then have "\<exists>q t ps''. p # ps = q # ps'' \<and> f q = d @ t \<and> t \<noteq> []"
      by blast
    then show ?thesis
      by (intro Cons.prems(1) [of "[]" "p # ps" d]) simp_all
  qed
qed

end
