(* ===== verification/CxxString.thy ===== *)
theory CxxString
  imports Prelude "HOL-Library.Char_ord"
begin

text \<open>
  The operations of \<^verbatim>\<open>std::string\<close>, \<^verbatim>\<open><ctype.h>\<close> and the stream classes that the library uses:
  searching, character classes of the C locale, decimal output and input. A
  \<^verbatim>\<open>std::string\<close> is a list of characters; an iterator into it is the rest of the list.
\<close>

section \<open>Searching\<close>

definition starts_with :: "string \<Rightarrow> string \<Rightarrow> bool" where
  "starts_with p s = (take (length p) s = p)"

fun find_sub :: "string \<Rightarrow> string \<Rightarrow> nat option" where
  "find_sub p [] = (if p = [] then Some 0 else None)"
| "find_sub p (c # cs) =
     (if starts_with p (c # cs) then Some 0 else map_option Suc (find_sub p cs))"

text \<open>\<^verbatim>\<open>s.find(p, pos)\<close>; \<open>None\<close> is \<^verbatim>\<open>npos\<close>.\<close>

definition find_from :: "string \<Rightarrow> string \<Rightarrow> nat \<Rightarrow> nat option" where
  "find_from p s pos =
     (if pos > length s then None else map_option (\<lambda>i. pos + i) (find_sub p (drop pos s)))"

fun find_char :: "char \<Rightarrow> string \<Rightarrow> nat option" where
  "find_char c [] = None"
| "find_char c (d # ds) = (if d = c then Some 0 else map_option Suc (find_char c ds))"

lemma starts_with_append [simp]: "starts_with p (p @ s)"
  by (simp add: starts_with_def)

lemma starts_with_Nil [simp]: "starts_with [] s"
  by (simp add: starts_with_def)

lemma starts_with_iff: "starts_with p s \<longleftrightarrow> (\<exists>r. s = p @ r)"
  by (metis append_eq_conv_conj append_take_drop_id starts_with_def)

lemma starts_with_Cons [simp]: "starts_with (a # p) (b # s) \<longleftrightarrow> a = b \<and> starts_with p s"
  by (auto simp: starts_with_def)

lemma starts_with_Cons_Nil [simp]: "\<not> starts_with (a # p) []"
  by (simp add: starts_with_def)

lemma find_char_None: "find_char c s = None \<longleftrightarrow> c \<notin> set s"
  by (induction s) auto

lemma find_char_append: "c \<notin> set s \<Longrightarrow> find_char c (s @ c # r) = Some (length s)"
  by (induction s) auto

lemma find_char_split:
  "find_char c s = Some i \<Longrightarrow> \<exists>r. s = take i s @ c # r \<and> c \<notin> set (take i s) \<and> i < length s"
proof (induction s arbitrary: i)
  case Nil
  then show ?case by simp
next
  case (Cons d s)
  show ?case
  proof (cases "d = c")
    case True
    then show ?thesis using Cons.prems by simp
  next
    case False
    then obtain j where j: "find_char c s = Some j" "i = Suc j"
      using Cons.prems by auto
    from Cons.IH [OF j(1)] show ?thesis
      using False j(2) by auto
  qed
qed

lemma find_sub_Some:
  "find_sub p s = Some i \<Longrightarrow> starts_with p (drop i s) \<and> i \<le> length s \<and> i + length p \<le> length s"
proof (induction p s arbitrary: i rule: find_sub.induct)
  case (1 p)
  then show ?case by (auto split: if_splits)
next
  case (2 p c cs)
  show ?case
  proof (cases "starts_with p (c # cs)")
    case True
    then show ?thesis
      using "2.prems" by (auto simp: starts_with_iff dest: arg_cong [where f = length])
  next
    case False
    then obtain j where "find_sub p cs = Some j" "i = Suc j"
      using "2.prems" by auto
    then show ?thesis
      using "2.IH" [OF False] by auto
  qed
qed

section \<open>Character classes\<close>

definition isspace :: "char \<Rightarrow> bool" where
  "isspace c = (c \<in> {CHR '' '', CHR 0x09, CHR 0x0A, CHR 0x0B, CHR 0x0C, CHR 0x0D})"

definition isdigit :: "char \<Rightarrow> bool" where
  "isdigit c = (CHR ''0'' \<le> c \<and> c \<le> CHR ''9'')"

definition digit_value :: "char \<Rightarrow> nat" where
  "digit_value c = of_char c - of_char (CHR ''0'')"

definition digit_char :: "nat \<Rightarrow> char" where
  "digit_char d = char_of (of_char (CHR ''0'') + d)"

lemma digit_table:
  "list_all (\<lambda>d. isdigit (digit_char d) \<and> digit_value (digit_char d) = d \<and>
     \<not> isspace (digit_char d) \<and> digit_char d \<noteq> CHR ''-'' \<and> digit_char d \<noteq> CHR ''+'' \<and>
     digit_char d \<noteq> CHR 0xFE) [0..<10]"
  by code_simp

lemma digit_char_props:
  assumes "d < 10"
  shows "isdigit (digit_char d)" and "digit_value (digit_char d) = d"
    and "\<not> isspace (digit_char d)" and "digit_char d \<noteq> CHR ''-''" and "digit_char d \<noteq> CHR ''+''"
    and "digit_char d \<noteq> CHR 0xFE"
  using digit_table assms unfolding list_all_iff set_upt by auto

section \<open>Decimal numbers\<close>

text \<open>\<^verbatim>\<open>ostream << unsigned\<close>.\<close>

fun show_nat :: "nat \<Rightarrow> string" where
  "show_nat n = (if n < 10 then [digit_char n] else show_nat (n div 10) @ [digit_char (n mod 10)])"

declare show_nat.simps [simp del]

definition number_of_digits :: "string \<Rightarrow> nat" where
  "number_of_digits ds = foldl (\<lambda>n c. 10 * n + digit_value c) 0 ds"

lemma show_nat_props:
  "show_nat n \<noteq> [] \<and> (\<forall>c\<in>set (show_nat n). \<exists>d<10. c = digit_char d) \<and>
   number_of_digits (show_nat n) = n"
proof (induction n rule: show_nat.induct)
  case (1 n)
  show ?case
  proof (cases "n < 10")
    case True
    then show ?thesis
      by (auto simp: show_nat.simps [of n] number_of_digits_def digit_char_props)
  next
    case False
    with "1.IH" show ?thesis
      by (subst (1 2 3) show_nat.simps [of n])
        (auto simp: number_of_digits_def digit_char_props intro: exI [of _ "n mod 10"])
  qed
qed

lemma show_nat_nonempty [simp]: "show_nat n \<noteq> []"
  and show_nat_digit: "c \<in> set (show_nat n) \<Longrightarrow> \<exists>d<10. c = digit_char d"
  and number_of_digits_show_nat [simp]: "number_of_digits (show_nat n) = n"
  using show_nat_props [of n] by blast+

lemma isdigit_show_nat: "c \<in> set (show_nat n) \<Longrightarrow> isdigit c"
  using show_nat_digit digit_char_props(1) by blast

text \<open>
  \<^verbatim>\<open>atoi\<close>: white space, an optional sign, digits. The result is exact; the code stores it in
  16-bit or 32-bit integers, so a conversion to words follows. (For a number outside the
  range of \<^verbatim>\<open>int\<close> the C standard leaves the result open.)
\<close>

definition atoi :: "string \<Rightarrow> int" where
  "atoi s =
     (case dropWhile isspace s of
        [] \<Rightarrow> 0
      | c # cs \<Rightarrow>
          if c = CHR ''-'' then - int (number_of_digits (takeWhile isdigit cs))
          else if c = CHR ''+'' then int (number_of_digits (takeWhile isdigit cs))
          else int (number_of_digits (takeWhile isdigit (c # cs))))"

lemma takeWhile_show_nat:
  "r = [] \<or> \<not> isdigit (hd r) \<Longrightarrow> takeWhile isdigit (show_nat n @ r) = show_nat n"
  using isdigit_show_nat [of _ n] by (cases r) (auto simp: takeWhile_append)

lemma show_nat_hd:
  obtains c cs where "show_nat n = c # cs" and "\<not> isspace c" and "c \<noteq> CHR ''-''" and "c \<noteq> CHR ''+''"
proof -
  obtain c cs where c: "show_nat n = c # cs"
    using show_nat_nonempty [of n] by (cases "show_nat n") auto
  then obtain d where "d < 10" "c = digit_char d"
    using show_nat_digit [of c n] by auto
  then show thesis
    using that [OF c] digit_char_props by blast
qed

lemma atoi_show_nat: "r = [] \<or> \<not> isdigit (hd r) \<Longrightarrow> atoi (show_nat n @ r) = int n"
proof (rule show_nat_hd [of n])
  fix c cs
  assume r: "r = [] \<or> \<not> isdigit (hd r)" and c: "show_nat n = c # cs"
    and p: "\<not> isspace c" "c \<noteq> CHR ''-''" "c \<noteq> CHR ''+''"
  have "atoi (show_nat n @ r) = int (number_of_digits (takeWhile isdigit (show_nat n @ r)))"
    using p by (simp add: atoi_def c)
  then show ?thesis
    by (simp only: takeWhile_show_nat [OF r] number_of_digits_show_nat)
qed

text \<open>
  \<^verbatim>\<open>istream >> unsigned\<close>: like \<^verbatim>\<open>atoi\<close>, with 0 when there is no number and the largest value
  when the number does not fit.
\<close>

definition read_unsigned :: "string \<Rightarrow> u32" where
  "read_unsigned s =
     (let sat = (\<lambda>n. if n < 2 ^ 32 then word_of_nat n else - 1) in
      case dropWhile isspace s of
        [] \<Rightarrow> 0
      | c # cs \<Rightarrow>
          if c = CHR ''-'' then
            (let n = number_of_digits (takeWhile isdigit cs) in
             if n < 2 ^ 32 then - word_of_nat n else - 1)
          else if c = CHR ''+'' then sat (number_of_digits (takeWhile isdigit cs))
          else sat (number_of_digits (takeWhile isdigit (c # cs))))"

lemma read_unsigned_show_nat: "n < 2 ^ 32 \<Longrightarrow> read_unsigned (show_nat n) = word_of_nat n"
proof (rule show_nat_hd [of n])
  fix c cs
  assume n: "n < 2 ^ 32" and c: "show_nat n = c # cs"
    and p: "\<not> isspace c" "c \<noteq> CHR ''-''" "c \<noteq> CHR ''+''"
  have "takeWhile isdigit (c # cs) = show_nat n"
    using takeWhile_show_nat [of "[]" n] by (simp add: c)
  then have "number_of_digits (takeWhile isdigit (c # cs)) = n"
    by simp
  then have "read_unsigned (c # cs) = word_of_nat n"
    using p n by (simp add: read_unsigned_def del: takeWhile.simps)
  then show ?thesis
    by (simp add: c)
qed

end
