(* ===== verification/Xml.thy ===== *)
theory Xml
  imports CxxString
begin

text \<open>
  The XML reader and printer of \<^verbatim>\<open>src/Xml.h\<close> and \<^verbatim>\<open>src/Xml.cpp\<close>, used for SMS messages. A
  node is a leaf or a branch with its tag and attributes; the iterator \<^verbatim>\<open>curr\<close> is the rest of
  the string from it to \<^verbatim>\<open>end\<close>; a null pointer is \<open>None\<close>.
\<close>

datatype xml_node =
    XmlLeaf (tag: string) (attributes: "(string \<times> string) list") (leaf_value: string)
  | XmlBranch (tag: string) (attributes: "(string \<times> string) list") (children: "xml_node list")
where
  "leaf_value (XmlBranch t as cs) = []"
| "children (XmlLeaf t as v) = []"

section \<open>Quoting\<close>

text \<open>
  \<open>replace_loop\<close> is the loop of \<^verbatim>\<open>replace_all\<close> over the whole string and the index \<^verbatim>\<open>curr\<close>. The
  pattern is never empty in the code (the loop would not end), so an empty one stops at once.
\<close>

function replace_loop :: "string \<Rightarrow> string \<Rightarrow> string \<Rightarrow> nat \<Rightarrow> string" where
  "replace_loop r1 r2 t cur =
     (if r1 = [] then t
      else case find_from r1 t cur of
        None \<Rightarrow> t
      | Some nxt \<Rightarrow>
          replace_loop r1 r2 (take nxt t @ r2 @ drop (nxt + length r1) t) (nxt + length r2))"
  by pat_completeness auto
termination
proof (relation "measure (\<lambda>(r1, r2, t, cur). length t - cur)", goal_cases)
  case 1
  then show ?case by simp
next
  case (2 r1 r2 t cur nxt)
  then obtain i where i: "find_sub r1 (drop cur t) = Some i" "nxt = cur + i" "cur \<le> length t"
    by (auto simp: find_from_def split: if_splits)
  moreover obtain c r where "r1 = c # r"
    using 2 by (cases r1) auto
  ultimately show ?case
    using find_sub_Some [OF i(1)] by auto
qed

declare replace_loop.simps [simp del]

definition replace_all :: "string \<Rightarrow> string \<Rightarrow> string \<Rightarrow> string" where
  "replace_all s r1 r2 = replace_loop r1 r2 s 0"

definition quote :: "string \<Rightarrow> string" where
  "quote a =
     replace_all
     (replace_all
     (replace_all
     (replace_all
     (replace_all a
       ''&'' ''&amp;'')
       ''<'' ''&lt;'')
       [CHR 0x22] ''&quot;'')
       [CHR 0x60] ''&apos;'')
       ''>'' ''&gt;''"

definition unquote :: "string \<Rightarrow> string" where
  "unquote a =
     replace_all
     (replace_all
     (replace_all
     (replace_all
     (replace_all
     (replace_all
     (replace_all a
       ''&lt;'' ''<'')
       ''&gt;'' ''>'')
       ''&quot;'' [CHR 0x22])
       ''&apos;'' [CHR 0x60])
       ''&nbsp;'' '' '')
       ''&trade;'' ''(tm)'')
       ''&amp;'' ''&''"

section \<open>Lexical level\<close>

definition skipWS :: "string \<Rightarrow> string" where
  "skipWS s = dropWhile isspace s"

definition parseTag :: "string \<Rightarrow> string \<times> string" where
  "parseTag s =
     (case s of
        [] \<Rightarrow> ([], s)
      | c # cs \<Rightarrow>
          if c \<noteq> CHR ''<'' then ([], s)
          else case dropWhile (\<lambda>c. c \<noteq> CHR ''>'') cs of
                 [] \<Rightarrow> ([], [])
               | _ # rest \<Rightarrow> (takeWhile (\<lambda>c. c \<noteq> CHR ''>'') cs, rest))"

lemma length_parseTag: "length (snd (parseTag s)) \<le> length s"
proof (cases s)
  case Nil
  then show ?thesis by (simp add: parseTag_def)
next
  case (Cons c cs)
  then show ?thesis
    using length_dropWhile_le [of "\<lambda>c. c \<noteq> CHR ''>''" cs]
    by (auto simp: parseTag_def split: list.split)
qed

lemma length_parseTag_less:
  assumes "parseTag s = (t, s')" and "t \<noteq> []"
  shows "length s' < length s"
proof (cases s)
  case Nil
  then show ?thesis using assms by (simp add: parseTag_def)
next
  case (Cons c cs)
  then show ?thesis
    using assms length_dropWhile_le [of "\<lambda>c. c \<noteq> CHR ''>''" cs]
    by (auto simp: parseTag_def split: list.splits if_splits)
qed

lemma length_skipWS: "length (skipWS s) \<le> length s"
  unfolding skipWS_def by (rule length_dropWhile_le)

text \<open>The attribute loop of \<open>parseAttr\<close>; it stops at the first malformed attribute.\<close>

function parse_attrs :: "string \<Rightarrow> (string \<times> string) list" where
  "parse_attrs s =
     (if s = [] then []
      else
        let s1 = skipWS s;
            aname = takeWhile (\<lambda>c. \<not> isspace c \<and> c \<noteq> CHR ''='') s1;
            s2 = dropWhile (\<lambda>c. \<not> isspace c \<and> c \<noteq> CHR ''='') s1
        in if s2 = [] then []
           else
             let s3 = skipWS (if hd s2 = CHR ''='' then tl s2 else s2)
             in if s3 = [] then []
                else if hd s3 \<noteq> CHR 0x22 \<and> hd s3 \<noteq> CHR 0x27 then []
                else
                  let aval = takeWhile (\<lambda>c. c \<noteq> hd s3) (tl s3);
                      s4 = dropWhile (\<lambda>c. c \<noteq> hd s3) (tl s3)
                  in if s4 = [] then [] else (aname, aval) # parse_attrs (tl s4))"
  by pat_completeness auto
termination
proof (relation "measure length", goal_cases)
  case 1
  then show ?case by simp
next
  case (2 s s1 aname s2 s3 aval s4)
  have "length s4 \<le> length (tl s3)" "length s3 \<le> length s2" "length s2 \<le> length s1" "length s1 \<le> length s"
    using 2 length_dropWhile_le [of "\<lambda>c. c \<noteq> hd s3" "tl s3"] length_skipWS
      [of "if hd s2 = CHR ''='' then tl s2 else s2"] length_skipWS [of s]
      length_dropWhile_le [of "\<lambda>c. \<not> isspace c \<and> c \<noteq> CHR ''=''" s1]
    by (auto split: if_splits)
  moreover have "s3 \<noteq> []" "s4 \<noteq> []"
    using 2 by auto
  ultimately show ?case
    by (cases s3; cases s4) auto
qed

definition parse_tag_name :: "string \<Rightarrow> string" where
  "parse_tag_name at = takeWhile (\<lambda>c. \<not> isspace c) (skipWS at)"

definition parseAttr :: "string \<Rightarrow> string \<times> (string \<times> string) list" where
  "parseAttr at =
     (let t = skipWS at
      in (takeWhile (\<lambda>c. \<not> isspace c) t, parse_attrs (dropWhile (\<lambda>c. \<not> isspace c) t)))"

definition new_XmlLeaf :: "string \<Rightarrow> string \<Rightarrow> xml_node" where
  "new_XmlLeaf t v = (case parseAttr t of (tg, as) \<Rightarrow> XmlLeaf tg as (unquote v))"

definition new_XmlBranch :: "string \<Rightarrow> xml_node list \<Rightarrow> xml_node" where
  "new_XmlBranch t cs = (case parseAttr t of (tg, as) \<Rightarrow> XmlBranch tg as cs)"

section \<open>Parsing\<close>

text \<open>
  The \<^verbatim>\<open>do .. while\<close> loop that skips processing instructions and declarations: \<open>None\<close> stands
  for the two \<^verbatim>\<open>return NULL\<close> inside it.
\<close>

function opening_tag :: "string \<Rightarrow> string option \<times> string" where
  "opening_tag s =
     (let s1 = skipWS s
      in if s1 = [] \<or> hd s1 \<noteq> CHR ''<'' then (None, s1)
         else let tg = fst (parseTag s1); s2 = snd (parseTag s1)
         in if tg = [] \<or> hd tg = CHR ''/'' then (None, s2)
            else if hd tg = CHR ''?'' \<or> hd tg = CHR ''!'' then opening_tag s2
            else (Some tg, s2))"
  by pat_completeness auto
termination
proof (relation "measure length", goal_cases)
  case 1
  then show ?case by simp
next
  case (2 s s1 tg s2)
  have "length s2 < length s1"
    using 2 length_parseTag_less [of s1 tg s2] by simp
  then show ?case
    using 2 length_skipWS [of s] by simp
qed

declare opening_tag.simps [simp del] parse_attrs.simps [simp del]

text \<open>
  The CDATA loop: the state is the pending end marker and the data collected so far.
\<close>

fun cdata_loop :: "string \<Rightarrow> string \<Rightarrow> string \<Rightarrow> string \<times> string" where
  "cdata_loop endtag cdata [] = (cdata, [])"
| "cdata_loop endtag cdata (c # cs) =
     (if length endtag < 3 then
        if c = CHR '']'' \<or> c = CHR ''>'' then
          (let endtag' = endtag @ [c]
           in if endtag' \<noteq> take (length endtag') '']]>''
              then cdata_loop [] (cdata @ endtag') cs
              else cdata_loop endtag' cdata cs)
        else cdata_loop endtag (cdata @ [c]) cs
      else (cdata, c # cs))"

definition closes :: "string \<Rightarrow> string \<Rightarrow> bool" where
  "closes nexttag tagname =
     (length nexttag = length tagname + 1 \<and> find_from tagname nexttag 1 = Some 1)"

definition is_tag_end :: "char \<Rightarrow> bool" where
  "is_tag_end c = (c = CHR '' '' \<or> c = CHR 0x0D \<or> c = CHR 0x0A \<or> c = CHR 0x09)"

text \<open>A CDATA section at the start of the content, and the content of a leaf up to its closing tag.\<close>

definition cdata_section :: "string \<Rightarrow> string \<times> string" where
  "cdata_section s =
     (if take 9 s = ''<![CDATA['' then cdata_loop [] [] (drop 9 s) else ([], s))"

definition parse_leaf :: "string \<Rightarrow> string \<Rightarrow> string \<Rightarrow> string \<Rightarrow> xml_node option \<times> string" where
  "parse_leaf tg tagname cdata s =
     (let vl = takeWhile (\<lambda>c. c \<noteq> CHR ''<'') s;
          s1 = dropWhile (\<lambda>c. c \<noteq> CHR ''<'') s
      in if s1 = [] then (None, s1)
         else
           let nexttag = fst (parseTag s1); s2 = snd (parseTag s1)
           in if nexttag = [] \<or> hd nexttag \<noteq> CHR ''/'' then (None, s2)
              else
                let vl' = (if vl = [] then cdata else vl)
                in if closes nexttag tagname
                   then (Some (new_XmlLeaf (unquote tg) (unquote vl')), s2)
                   else (None, s2))"

text \<open>
  \<open>parse_node\<close> is \<^verbatim>\<open>XmlNode::parse\<close>, \<open>parse_children\<close> its loop over the content of a branch
  (\<open>p\<close> is the children of the branch under construction, \<open>None\<close> while it does not exist).
  Where the end of a CDATA section is the end of the input the code dereferences the end
  iterator. The recursion of the two is bounded by fuel; \<open>xml_parse\<close> passes enough.
\<close>

fun parse_node :: "nat \<Rightarrow> string \<Rightarrow> (xml_node option \<times> string) result"
  and parse_children :: "nat \<Rightarrow> string \<Rightarrow> string \<Rightarrow> xml_node list option \<Rightarrow> string \<Rightarrow>
    (xml_node option \<times> string) result" where
  "parse_node 0 s = Inl OutOfFuel"
| "parse_node (Suc n) s =
     (case opening_tag s of
        (None, s1) \<Rightarrow> Inr (None, s1)
      | (Some tg, s1) \<Rightarrow>
          if last tg = CHR ''/'' then Inr (Some (new_XmlLeaf (unquote (butlast tg)) []), s1)
          else
            let tagname = takeWhile (\<lambda>c. \<not> is_tag_end c) tg; s2 = skipWS s1
            in if s2 = [] then Inr (None, s2)
               else case cdata_section s2 of
                 (cdata, s3) \<Rightarrow>
                   if s3 = [] then Inl OutOfRange
                   else if hd s3 = CHR ''<'' \<and> cdata = []
                   then parse_children n tg tagname None s3
                   else Inr (parse_leaf tg tagname cdata s3))"
| "parse_children 0 tg tagname p s = Inl OutOfFuel"
| "parse_children (Suc n) tg tagname p s =
     (if s = [] then Inr (None, s)
      else
        let nexttag = fst (parseTag s); s1 = snd (parseTag s)
        in if nexttag = [] then Inr (None, s1)
           else if hd nexttag = CHR ''/'' then
             if closes nexttag tagname
             then Inr (Some (case p of None \<Rightarrow> new_XmlLeaf (unquote tg) []
                                     | Some cs \<Rightarrow> new_XmlBranch (unquote tg) cs), s1)
             else Inr (None, s1)
           else
             andThen (parse_node n s) (\<lambda>(c, s2).
             let cs = (case p of None \<Rightarrow> [] | Some cs \<Rightarrow> cs);
                 cs' = (case c of None \<Rightarrow> cs | Some x \<Rightarrow> cs @ [x]);
                 s3 = skipWS s2
             in if s3 = [] \<or> hd s3 \<noteq> CHR ''<'' then Inr (None, s3)
                else parse_children n tg tagname (Some cs') s3))"

definition xml_parse :: "string \<Rightarrow> (xml_node option \<times> string) result" where
  "xml_parse s = parse_node (2 * length s + 1) s"

section \<open>Access\<close>

definition isBranch :: "xml_node \<Rightarrow> bool" where
  "isBranch x = (case x of XmlLeaf _ _ _ \<Rightarrow> False | XmlBranch _ _ _ \<Rightarrow> True)"

definition isLeaf :: "xml_node \<Rightarrow> bool" where
  "isLeaf x = (\<not> isBranch x)"

definition existsAttrib :: "xml_node \<Rightarrow> string \<Rightarrow> bool" where
  "existsAttrib x a = list_ex (\<lambda>(n, v). n = a) (attributes x)"

definition getAttrib :: "xml_node \<Rightarrow> string \<Rightarrow> string" where
  "getAttrib x a = (case map_of (attributes x) a of None \<Rightarrow> [] | Some v \<Rightarrow> v)"

definition branch_exists :: "xml_node \<Rightarrow> string \<Rightarrow> bool" where
  "branch_exists x t = list_ex (\<lambda>c. tag c = t) (children x)"

fun get_nth :: "string \<Rightarrow> xml_node list \<Rightarrow> int \<Rightarrow> int \<Rightarrow> xml_node option" where
  "get_nth t [] ncount n = None"
| "get_nth t (c # cs) ncount n =
     (if tag c = t then
        if ncount = n then Some c else get_nth t cs (ncount + 1) n
      else get_nth t cs ncount n)"

definition getNode :: "xml_node \<Rightarrow> string \<Rightarrow> int \<Rightarrow> xml_node option" where
  "getNode x t n = get_nth t (children x) 0 n"

definition getBranch :: "xml_node \<Rightarrow> string \<Rightarrow> int \<Rightarrow> xml_node option" where
  "getBranch x t n =
     (case getNode x t n of None \<Rightarrow> None | Some c \<Rightarrow> if isBranch c then Some c else None)"

definition getLeaf :: "xml_node \<Rightarrow> string \<Rightarrow> xml_node option" where
  "getLeaf x t =
     (case getNode x t 0 of None \<Rightarrow> None | Some c \<Rightarrow> if isLeaf c then Some c else None)"

definition pushnode :: "xml_node \<Rightarrow> xml_node \<Rightarrow> xml_node" where
  "pushnode x c =
     (case x of XmlBranch t as cs \<Rightarrow> XmlBranch t as (cs @ [c]) | XmlLeaf t as v \<Rightarrow> x)"

definition getChildren :: "xml_node \<Rightarrow> string list" where
  "getChildren x = map tag (children x)"

section \<open>Printing\<close>

text \<open>
  The attribute loop of \<^verbatim>\<open>XmlLeaf::toString\<close> does not move its iterator: \<open>None\<close> is the result
  of a call that does not return.
\<close>

partial_function (option) attr_loop :: "(string \<times> string) list \<Rightarrow> string \<Rightarrow> string option" where
  "attr_loop ia r =
     (case ia of
        [] \<Rightarrow> Some r
      | (n, v) # _ \<Rightarrow> attr_loop ia (r @ '' '' @ n @ ''='' @ [CHR 0x22] @ v @ [CHR 0x22]))"

definition tabs :: "nat \<Rightarrow> string" where
  "tabs n = replicate n CHR 0x09"

definition newline :: string where
  "newline = [CHR 0x0A]"

fun toString :: "nat \<Rightarrow> xml_node \<Rightarrow> string option"
  and toString_list :: "nat \<Rightarrow> xml_node list \<Rightarrow> string option" where
  "toString n (XmlLeaf t as v) =
     (case attr_loop as (tabs n @ ''<'' @ quote t) of
        None \<Rightarrow> None
      | Some r \<Rightarrow> Some (r @ ''>'' @ quote v @ ''</'' @ quote t @ ''>'' @ newline))"
| "toString n (XmlBranch t as cs) =
     (case toString_list (Suc n) cs of
        None \<Rightarrow> None
      | Some r \<Rightarrow> Some (tabs n @ ''<'' @ quote t @ ''>'' @ newline @ r @
                        tabs n @ ''</'' @ quote t @ ''>'' @ newline))"
| "toString_list n [] = Some []"
| "toString_list n (c # cs) =
     (case toString n c of
        None \<Rightarrow> None
      | Some s \<Rightarrow> (case toString_list n cs of None \<Rightarrow> None | Some r \<Rightarrow> Some (s @ r)))"

section \<open>Quoting is undone by unquoting\<close>

text \<open>The loop of \<open>replace_all\<close> is a left-to-right substitution.\<close>

fun subst :: "string \<Rightarrow> string \<Rightarrow> string \<Rightarrow> string" where
  "subst r1 r2 [] = []"
| "subst r1 r2 (c # cs) =
     (if starts_with r1 (c # cs) then r2 @ subst r1 r2 (drop (length r1 - 1) cs)
      else c # subst r1 r2 cs)"

lemma subst_none: "find_sub r1 s = None \<Longrightarrow> subst r1 r2 s = s"
  by (induction r1 s rule: find_sub.induct) (auto split: if_splits)

lemma subst_some:
  assumes "r1 \<noteq> []"
  shows "find_sub r1 s = Some i \<Longrightarrow> subst r1 r2 s = take i s @ r2 @ subst r1 r2 (drop (i + length r1) s)"
proof (induction s arbitrary: i)
  case Nil
  then show ?case using assms by (simp split: if_splits)
next
  case (Cons c s)
  show ?case
  proof (cases "starts_with r1 (c # s)")
    case True
    then show ?thesis using Cons.prems assms by (cases r1) auto
  next
    case False
    then obtain j where "find_sub r1 s = Some j" "i = Suc j"
      using Cons.prems by auto
    then show ?thesis using Cons.IH False by simp
  qed
qed

lemma replace_loop_subst:
  assumes "r1 \<noteq> []"
  shows "replace_loop r1 r2 (p @ s) (length p) = p @ subst r1 r2 s"
proof (induction s arbitrary: p rule: length_induct)
  case (1 s)
  have f: "find_from r1 (p @ s) (length p) = map_option (\<lambda>i. length p + i) (find_sub r1 s)"
    by (simp add: find_from_def)
  show ?case
  proof (cases "find_sub r1 s")
    case None
    then show ?thesis
      using assms f by (simp add: replace_loop.simps subst_none)
  next
    case (Some i)
    let ?s = "drop (i + length r1) s"
    have l: "length ?s < length s"
      using find_sub_Some [OF Some] assms by (cases r1) auto
    have "replace_loop r1 r2 (p @ s) (length p) =
        replace_loop r1 r2 ((p @ take i s @ r2) @ ?s) (length (p @ take i s @ r2))"
      using assms f Some find_sub_Some [OF Some] by (subst replace_loop.simps) (simp add: add.commute add.left_commute)
    also have "\<dots> = (p @ take i s @ r2) @ subst r1 r2 ?s"
      using 1 l by blast
    finally show ?thesis
      using subst_some [OF assms Some] by simp
  qed
qed

lemma replace_all_subst: "r1 \<noteq> [] \<Longrightarrow> replace_all s r1 r2 = subst r1 r2 s"
  using replace_loop_subst [of r1 r2 "[]" s] by (simp add: replace_all_def)

lemma subst_char_append: "subst [a] r (x @ y) = subst [a] r x @ subst [a] r y"
  by (induction x) auto

definition quote_char :: "char \<Rightarrow> string" where
  "quote_char c =
     (if c = CHR ''&'' then ''&amp;'' else if c = CHR ''<'' then ''&lt;''
      else if c = CHR 0x22 then ''&quot;'' else if c = CHR 0x60 then ''&apos;''
      else if c = CHR ''>'' then ''&gt;'' else [c])"

lemma quote_append: "quote (x @ y) = quote x @ quote y"
  by (simp add: quote_def replace_all_subst subst_char_append)

lemma quote_single: "quote [c] = quote_char c"
  by (auto simp: quote_def replace_all_subst quote_char_def)

lemma quote_concat: "quote s = concat (map quote_char s)"
proof (induction s)
  case Nil
  show ?case by (simp add: quote_def replace_all_subst)
next
  case (Cons c s)
  then show ?case
    using quote_append [of "[c]" s] by (simp add: quote_single)
qed

text \<open>A token is a character other than \<open>&\<close>, or an entity from \<open>&\<close> to \<open>;\<close>.\<close>

definition entity :: "string \<Rightarrow> bool" where
  "entity t = (\<exists>u. t = CHR ''&'' # u @ '';'' \<and> CHR ''&'' \<notin> set u \<and> CHR '';'' \<notin> set u)"

definition token :: "string \<Rightarrow> bool" where
  "token t = (entity t \<or> (\<exists>c. t = [c] \<and> c \<noteq> CHR ''&''))"

lemma entityI:
  "take 1 t = ''&'' \<Longrightarrow> drop (length t - 1) t = '';'' \<Longrightarrow> CHR ''&'' \<notin> set (butlast (tl t)) \<Longrightarrow>
   CHR '';'' \<notin> set (butlast (tl t)) \<Longrightarrow> entity t"
proof -
  assume a: "take 1 t = ''&''" "drop (length t - 1) t = '';''"
    "CHR ''&'' \<notin> set (butlast (tl t))" "CHR '';'' \<notin> set (butlast (tl t))"
  then obtain v where v: "t = CHR ''&'' # v" by (cases t) auto
  with a(2) have "v \<noteq> []" by auto
  then have "v = butlast v @ [last v]" "last t = last v"
    using v by auto
  moreover have "last t = CHR '';''"
    using a(2) v \<open>v \<noteq> []\<close> by (metis append_take_drop_id last_appendR last_ConsL list.simps(3))
  ultimately have "t = CHR ''&'' # butlast v @ '';''"
    using v by metis
  then show ?thesis
    using a(3,4) v by (auto simp: entity_def)
qed

lemma subst_skip: "a \<notin> set v \<Longrightarrow> subst (a # w) r (v @ x) = v @ subst (a # w) r x"
  by (induction v) auto

lemma separator_unique: "c \<notin> set u \<Longrightarrow> c \<notin> set v \<Longrightarrow> v @ c # x = u @ c # y \<Longrightarrow> v = u"
proof (induction u arbitrary: v)
  case Nil
  then show ?case by (cases v) auto
next
  case (Cons a u)
  then show ?case by (cases v) auto
qed

lemma entity_prefix:
  assumes "entity e" and "entity t" and "starts_with e (t @ x)"
  shows "t = e"
proof -
  obtain u v where u: "e = CHR ''&'' # u @ '';''" "CHR '';'' \<notin> set u"
    and v: "t = CHR ''&'' # v @ '';''" "CHR '';'' \<notin> set v"
    using assms(1,2) by (auto simp: entity_def)
  obtain y where "v @ CHR '';'' # x = u @ CHR '';'' # y"
    using assms(3) u v by (auto simp: starts_with_iff)
  then have "v = u"
    by (rule separator_unique [OF u(2) v(2)])
  then show ?thesis
    by (simp add: u v)
qed

lemma subst_tokens:
  assumes "entity e"
  shows "\<forall>t\<in>set ts. token t \<Longrightarrow> subst e r (concat ts) = concat (map (\<lambda>t. if t = e then r else t) ts)"
proof (induction ts)
  case Nil
  show ?case by simp
next
  case (Cons t ts)
  obtain w where w: "e = CHR ''&'' # w"
    using assms by (auto simp: entity_def)
  show ?case
  proof (cases "entity t")
    case False
    then obtain c where "t = [c]" "c \<noteq> CHR ''&''"
      using Cons.prems by (auto simp: token_def)
    then show ?thesis
      using Cons w by auto
  next
    case True
    then obtain u where u: "t = CHR ''&'' # u" "CHR ''&'' \<notin> set u"
      by (auto simp: entity_def)
    show ?thesis
    proof (cases "t = e")
      case True
      then show ?thesis
        using Cons w by simp
    next
      case False
      then have "\<not> starts_with e (t @ concat ts)"
        using entity_prefix [OF assms \<open>entity t\<close>] by blast
      then show ?thesis
        using Cons False u w subst_skip [OF u(2)] by simp
    qed
  qed
qed

lemma entities:
  "entity ''&lt;''" "entity ''&gt;''" "entity ''&quot;''" "entity ''&apos;''" "entity ''&nbsp;''"
  "entity ''&trade;''" "entity ''&amp;''"
  by (rule entityI; simp)+

lemma replace_tokens:
  assumes "entity e" and "\<And>c. token (f c)"
  shows "replace_all (concat (map f s)) e r = concat (map (\<lambda>c. if f c = e then r else f c) s)"
proof -
  have "e \<noteq> []"
    using assms(1) by (auto simp: entity_def)
  moreover have "\<forall>t\<in>set (map f s). token t"
    using assms(2) by simp
  ultimately show ?thesis
    using subst_tokens [OF assms(1), of "map f s" r] by (simp add: replace_all_subst comp_def)
qed

text \<open>\<open>partly D c\<close>: the quoted form of \<open>c\<close> once the entities of the characters \<open>D\<close> are undone.\<close>

definition partly :: "char set \<Rightarrow> char \<Rightarrow> string" where
  "partly D c = (if c \<in> D then [c] else quote_char c)"

lemma token_partly: "CHR ''&'' \<notin> D \<Longrightarrow> token (partly D c)"
  using entities by (auto simp: token_def quote_char_def partly_def)

lemma entity_quote_char: "entity (quote_char c) \<longleftrightarrow> quote_char c \<noteq> [c]"
  using entities by (auto simp: quote_char_def entity_def)

lemma quote_char_inj: "quote_char c = quote_char x \<longleftrightarrow> c = x"
  by (auto simp: quote_char_def split: if_splits)

lemma undo_entity:
  assumes "CHR ''&'' \<notin> D" and "quote_char x \<noteq> [x]" and "q = quote_char x"
  shows "replace_all (concat (map (partly D) s)) q [x] = concat (map (partly (insert x D)) s)"
proof -
  have "(if partly D c = q then [x] else partly D c) = partly (insert x D) c" for c
    using assms quote_char_inj [of c x] entity_quote_char [of x]
    by (auto simp: partly_def entity_def quote_char_inj)
  then show ?thesis
    using replace_tokens [of q "partly D"] assms by (simp add: token_partly entity_quote_char)
qed

lemma skip_entity:
  assumes "CHR ''&'' \<notin> D" and "entity q" and "\<And>c. quote_char c \<noteq> q"
  shows "replace_all (concat (map (partly D) s)) q r = concat (map (partly D) s)"
proof -
  have "partly D c \<noteq> q" for c
    using assms(2,3) by (auto simp: partly_def entity_def)
  then show ?thesis
    using replace_tokens [of q "partly D"] assms by (simp add: token_partly)
qed

lemma unquote_quote [simp]: "unquote (quote s) = s"
proof -
  let ?D = "{CHR 0x60, CHR 0x22, CHR ''>'', CHR ''<''}"
  have "quote s = concat (map (partly {}) s)"
    by (simp add: quote_concat partly_def [abs_def])
  moreover have "quote_char c \<noteq> ''&nbsp;''" "quote_char c \<noteq> ''&trade;''" for c
    by (simp_all add: quote_char_def)
  ultimately have "unquote (quote s) = concat (map (partly (insert (CHR ''&'') ?D)) s)"
    unfolding unquote_def
    by (simp add: undo_entity [of _ "CHR ''<''"] undo_entity [of _ "CHR ''>''"]
        undo_entity [of _ "CHR 0x22"] undo_entity [of _ "CHR 0x60"] undo_entity [of _ "CHR ''&''"]
        skip_entity entities quote_char_def)
  also have "\<dots> = s"
    by (induction s) (auto simp: partly_def quote_char_def)
  finally show ?thesis .
qed

section \<open>The fuel is enough\<close>

lemma length_cdata_loop: "length (snd (cdata_loop e d s)) \<le> length s"
  by (induction e d s rule: cdata_loop.induct) (auto simp: Let_def)

lemma length_cdata_section: "length (snd (cdata_section s)) \<le> length s"
  using length_cdata_loop [of "[]" "[]" "drop 9 s"] by (auto simp: cdata_section_def)

lemma length_parse_leaf: "length (snd (parse_leaf tg tn cd s)) \<le> length s"
proof -
  let ?s = "dropWhile (\<lambda>c. c \<noteq> CHR ''<'') s"
  have "length (snd (parseTag ?s)) \<le> length s"
    using length_parseTag [of ?s] length_dropWhile_le [of "\<lambda>c. c \<noteq> CHR ''<''" s] by simp
  then show ?thesis
    using length_dropWhile_le [of "\<lambda>c. c \<noteq> CHR ''<''" s]
    by (simp add: parse_leaf_def Let_def del: dropWhile_eq_Nil_conv)
qed

lemma opening_tag_length:
  "opening_tag s = (t, s') \<Longrightarrow> length s' \<le> length s \<and>
     (t \<noteq> None \<or> fst (parseTag s) \<noteq> [] \<longrightarrow> length s' < length s)"
proof (induction s rule: opening_tag.induct)
  case (1 s)
  let ?s1 = "skipWS s"
  let ?tg = "fst (parseTag ?s1)" and ?s2 = "snd (parseTag ?s1)"
  have l1: "length ?s1 \<le> length s" and l2: "length ?s2 \<le> length ?s1"
    by (rule length_skipWS, rule length_parseTag)
  have l3: "?tg \<noteq> [] \<Longrightarrow> length ?s2 < length ?s1"
    by (rule length_parseTag_less) auto
  have eq: "?s1 = s" if "fst (parseTag s) \<noteq> []"
    using that by (cases s) (auto simp: parseTag_def skipWS_def isspace_def split: if_splits)
  have hd: "hd ?s1 = CHR ''<'' \<and> ?s1 \<noteq> []" if "fst (parseTag s) \<noteq> []"
    using that eq [OF that] by (cases s) (auto simp: parseTag_def split: if_splits)
  show ?case
  proof (cases "?s1 = [] \<or> hd ?s1 \<noteq> CHR ''<''")
    case True
    then have "t = None" "s' = ?s1"
      using "1.prems" by (auto simp: opening_tag.simps [of s])
    then show ?thesis
      using True l1 hd by auto
  next
    case a: False
    show ?thesis
    proof (cases "?tg \<noteq> [] \<and> (hd ?tg = CHR ''?'' \<or> hd ?tg = CHR ''!'')")
      case True
      then have "opening_tag ?s2 = (t, s')"
        using "1.prems" a by (auto simp: opening_tag.simps [of s] Let_def)
      moreover have "\<not> (?tg = [] \<or> hd ?tg = CHR ''/'')"
        using True by auto
      ultimately have "length s' \<le> length ?s2"
        using "1.IH" [of ?s1 ?tg ?s2] a True by auto
      then show ?thesis
        using l1 l3 True by auto
    next
      case False
      then have s': "s' = ?s2" and t: "t \<noteq> None \<Longrightarrow> ?tg \<noteq> []"
        using "1.prems" a by (auto simp: opening_tag.simps [of s] Let_def split: if_splits)
      have "fst (parseTag s) \<noteq> [] \<Longrightarrow> ?tg \<noteq> []"
        using eq by simp
      then have "t \<noteq> None \<or> fst (parseTag s) \<noteq> [] \<Longrightarrow> length ?s2 < length ?s1"
        using l3 t by blast
      then show ?thesis
        using l1 l2 s' by (meson le_trans less_le_trans)
    qed
  qed
qed

lemma opening_tag_nonempty: "opening_tag s = (Some t, s') \<Longrightarrow> t \<noteq> []"
proof (induction s rule: opening_tag.induct)
  case (1 s)
  then show ?case
    by (subst (asm) (2) opening_tag.simps) (auto simp: Let_def split: if_splits)
qed

lemma parse_length_aux:
  "(\<forall>s c s'. parse_node n s = Inr (c, s') \<longrightarrow>
      length s' \<le> length s \<and> (fst (parseTag s) \<noteq> [] \<longrightarrow> length s' < length s)) \<and>
   (\<forall>tg tn p s c s'. parse_children n tg tn p s = Inr (c, s') \<longrightarrow> length s' \<le> length s)"
proof (induction n)
  case 0
  show ?case by simp
next
  case (Suc n)
  have node: "length s' \<le> length s \<and> (fst (parseTag s) \<noteq> [] \<longrightarrow> length s' < length s)"
    if p: "parse_node (Suc n) s = Inr (c, s')" for s c s'
  proof -
    obtain t s1 where t: "opening_tag s = (t, s1)"
      by (cases "opening_tag s")
    obtain cd s3 where cd: "cdata_section (skipWS s1) = (cd, s3)"
      by (cases "cdata_section (skipWS s1)")
    have l3: "length s3 \<le> length s1"
      using length_cdata_section [of "skipWS s1"] length_skipWS [of s1] cd by simp
    have leaf: "length (snd (parse_leaf tg tn cd s3)) \<le> length s3" for tg tn
      by (rule length_parse_leaf)
    have "length s' \<le> length s1"
    proof (cases t)
      case None
      then show ?thesis using p t by simp
    next
      case (Some tg)
      let ?tn = "takeWhile (\<lambda>c. \<not> is_tag_end c) tg"
      from p Some t cd have "s' = s1 \<or> s' = skipWS s1 \<or> parse_children n tg ?tn None s3 = Inr (c, s') \<or>
          s' = snd (parse_leaf tg ?tn cd s3)"
        by (auto simp: Let_def split: if_splits)
      then show ?thesis
        using Suc.IH l3 leaf length_skipWS [of s1] by (metis le_trans order_refl)
    qed
    then show ?thesis
      using opening_tag_length [OF t] by auto
  qed
  have "length s' \<le> length s" if p: "parse_children (Suc n) tg tn q s = Inr (c, s')" for tg tn q s c s'
  proof (cases "\<exists>c0 s2 q'. parse_node n s = Inr (c0, s2) \<and>
      (s' = skipWS s2 \<or> parse_children n tg tn q' (skipWS s2) = Inr (c, s'))")
    case True
    then obtain c0 s2 q' where s2: "parse_node n s = Inr (c0, s2)"
      "s' = skipWS s2 \<or> parse_children n tg tn q' (skipWS s2) = Inr (c, s')"
      by blast
    then have "length s2 \<le> length s" and "length s' \<le> length (skipWS s2)"
      using Suc.IH by auto
    then show ?thesis
      using length_skipWS [of s2] by simp
  next
    case False
    then have "s' = s \<or> s' = snd (parseTag s)"
      using p by (auto simp: Let_def andThen_eq_Inr split: if_splits)
    then show ?thesis
      using length_parseTag [of s] by auto
  qed
  with node show ?case by blast
qed

lemma parse_node_length: "parse_node n s = Inr (c, s') \<Longrightarrow> length s' \<le> length s"
  and parse_node_length_less:
    "parse_node n s = Inr (c, s') \<Longrightarrow> fst (parseTag s) \<noteq> [] \<Longrightarrow> length s' < length s"
  using parse_length_aux [of n] by blast+

lemma fuel_aux:
  "(\<forall>s. 2 * length s < n \<longrightarrow> parse_node n s \<noteq> Inl OutOfFuel) \<and>
   (\<forall>tg tn p s. 2 * length s + 1 < n \<longrightarrow> parse_children n tg tn p s \<noteq> Inl OutOfFuel)"
proof (induction n)
  case 0
  show ?case by simp
next
  case (Suc n)
  have node: "parse_node (Suc n) s \<noteq> Inl OutOfFuel" if n: "2 * length s < Suc n" for s
  proof -
    obtain t s1 where t: "opening_tag s = (t, s1)"
      by (cases "opening_tag s")
    obtain cd s3 where cd: "cdata_section (skipWS s1) = (cd, s3)"
      by (cases "cdata_section (skipWS s1)")
    have l3: "length s3 \<le> length s1"
      using length_cdata_section [of "skipWS s1"] length_skipWS [of s1] cd by simp
    show ?thesis
    proof (cases t)
      case None
      then show ?thesis using t by simp
    next
      case (Some tg)
      then have "2 * length s3 + 1 < n"
        using opening_tag_length [OF t] l3 n by simp
      then have "parse_children n tg tn None s3 \<noteq> Inl OutOfFuel" for tn
        using Suc.IH by blast
      then show ?thesis
        using t cd Some by (simp add: Let_def)
    qed
  qed
  have "parse_children (Suc n) tg tn p s \<noteq> Inl OutOfFuel" if n: "2 * length s + 1 < Suc n" for tg tn p s
  proof (cases "s = [] \<or> fst (parseTag s) = []")
    case True
    then show ?thesis by (auto simp: Let_def)
  next
    case False
    have "parse_node n s \<noteq> Inl OutOfFuel"
      using Suc.IH n by simp
    moreover have "parse_children n tg tn q (skipWS s2) \<noteq> Inl OutOfFuel"
      if "parse_node n s = Inr (c, s2)" for c s2 q
    proof -
      have "length s2 < length s"
        using parse_node_length_less [OF that] False by blast
      then have "2 * length (skipWS s2) + 1 < n"
        using length_skipWS [of s2] n by linarith
      then show ?thesis using Suc.IH by blast
    qed
    ultimately show ?thesis
      by (cases "parse_node n s") (auto simp: Let_def split: if_splits)
  qed
  with node show ?case by blast
qed

lemma parse_no_throw:
  assumes "e \<noteq> OutOfRange" and "e \<noteq> OutOfFuel"
  shows "(\<forall>s. parse_node n s \<noteq> Inl e) \<and> (\<forall>tg tn p s. parse_children n tg tn p s \<noteq> Inl e)"
proof (induction n)
  case (Suc n)
  have "parse_children (Suc n) tg tn p s \<noteq> Inl e" for tg tn p s
    using Suc.IH assms by (cases "parse_node n s") (auto simp: Let_def split: if_splits)
  moreover have "parse_node (Suc n) s \<noteq> Inl e" for s
    using Suc.IH assms by (auto simp: Let_def split: option.split prod.split)
  ultimately show ?case by blast
qed (use assms in simp)

lemma xml_parse_fuel: "xml_parse s \<noteq> Inl OutOfFuel"
  using fuel_aux [of "2 * length s + 1"] by (simp add: xml_parse_def)

section \<open>The end of the input\<close>

text \<open>What a function leaves is a part of the input up to its end.\<close>

definition rest_of :: "string \<Rightarrow> string \<Rightarrow> bool" where
  "rest_of s' s \<longleftrightarrow> (\<exists>p. s = p @ s')"

lemma rest_refl [simp]: "rest_of s s" "rest_of [] s"
  by (auto simp: rest_of_def)

lemma rest_trans: "rest_of a b \<Longrightarrow> rest_of b c \<Longrightarrow> rest_of a c"
  unfolding rest_of_def by (metis append_assoc)

lemma rest_Cons: "rest_of a cs \<Longrightarrow> rest_of a (c # cs)"
  unfolding rest_of_def by (metis append_Cons)

lemma rest_dropWhile [simp]: "rest_of (dropWhile P s) s"
  unfolding rest_of_def by (metis takeWhile_dropWhile_id)

lemma rest_skipWS [simp]: "rest_of (skipWS s) s"
  by (simp add: skipWS_def)

lemma rest_drop [simp]: "rest_of (drop n s) s"
  unfolding rest_of_def by (metis append_take_drop_id)

lemma rest_tl: "dropWhile P s = c # r \<Longrightarrow> rest_of r s"
  using rest_dropWhile [of P s] unfolding rest_of_def by (metis append.assoc append_Cons append_Nil)

lemma rest_parseTag [simp]: "rest_of (snd (parseTag s)) s"
  by (auto simp: parseTag_def intro!: rest_Cons dest: rest_tl split: list.split)

lemma rest_cdata_loop: "rest_of (snd (cdata_loop e d s)) s"
  by (induction e d s rule: cdata_loop.induct) (auto simp: Let_def intro: rest_Cons)

lemma rest_cdata_section: "rest_of (snd (cdata_section s)) s"
  using rest_trans [OF rest_cdata_loop rest_drop] by (simp add: cdata_section_def)

lemma rest_parse_leaf: "rest_of (snd (parse_leaf tg tn cd s)) s"
  using rest_trans [OF rest_parseTag rest_dropWhile] by (simp add: parse_leaf_def Let_def)

lemma rest_opening_tag: "rest_of (snd (opening_tag s)) s"
proof (induction s rule: opening_tag.induct)
  case (1 s)
  let ?s1 = "skipWS s"
  let ?tg = "fst (parseTag ?s1)" and ?s2 = "snd (parseTag ?s1)"
  have r: "rest_of ?s2 s"
    using rest_trans [OF rest_parseTag rest_skipWS] .
  have "rest_of (snd (opening_tag ?s2)) s"
    if "\<not> (?s1 = [] \<or> hd ?s1 \<noteq> CHR ''<'')" "\<not> (?tg = [] \<or> hd ?tg = CHR ''/'')" "hd ?tg = CHR ''?'' \<or> hd ?tg = CHR ''!''"
    using "1.IH" [OF refl that(1) refl refl that(2,3)] r by (rule rest_trans)
  then show ?case
    using r by (simp add: opening_tag.simps [of s] Let_def)
qed

text \<open>The input holds a CDATA section that takes all of the rest.\<close>

definition open_cdata :: "string \<Rightarrow> bool" where
  "open_cdata s \<longleftrightarrow> (\<exists>r. rest_of (''<![CDATA['' @ r) s \<and> snd (cdata_loop [] [] r) = [])"

lemma open_cdata_rest: "open_cdata s' \<Longrightarrow> rest_of s' s \<Longrightarrow> open_cdata s"
  unfolding open_cdata_def using rest_trans by blast

lemma cdata_to_the_end:
  assumes "snd (cdata_section s) = []" and "s \<noteq> []"
  shows "open_cdata s"
proof -
  have t: "take 9 s = ''<![CDATA[''" "snd (cdata_loop [] [] (drop 9 s)) = []"
    using assms by (auto simp: cdata_section_def split: if_splits)
  then have "s = ''<![CDATA['' @ drop 9 s"
    by (metis append_take_drop_id)
  then have "rest_of (''<![CDATA['' @ drop 9 s) s"
    by (metis rest_refl(1))
  then show ?thesis
    unfolding open_cdata_def using t(2) by blast
qed

definition left_of :: "string \<Rightarrow> (xml_node option \<times> string) result \<Rightarrow> bool" where
  "left_of s res \<longleftrightarrow> (case res of Inl e \<Rightarrow> e = OutOfRange \<longrightarrow> open_cdata s | Inr (c, s') \<Rightarrow> rest_of s' s)"

lemma left_of_rest: "left_of s' res \<Longrightarrow> rest_of s' s \<Longrightarrow> left_of s res"
  by (auto simp: left_of_def intro: open_cdata_rest rest_trans split: sum.splits)

lemma left_simps [simp]:
  "left_of s (Inr (c, s')) \<longleftrightarrow> rest_of s' s" "left_of s (Inr x) \<longleftrightarrow> rest_of (snd x) s"
  "left_of s (Inl OutOfFuel)" "left_of s (Inl OutOfRange) \<longleftrightarrow> open_cdata s"
  by (auto simp: left_of_def split: prod.split)

lemma parse_left:
  "(\<forall>s. left_of s (parse_node n s)) \<and> (\<forall>tg tn p s. left_of s (parse_children n tg tn p s))"
proof (induction n)
  case (Suc n)
  have "left_of s (parse_node (Suc n) s)" for s
  proof -
    obtain t s1 where t: "opening_tag s = (t, s1)"
      by (cases "opening_tag s")
    then have s1: "rest_of s1 s" "rest_of (skipWS s1) s"
      using rest_opening_tag [of s] rest_trans [OF rest_skipWS] by auto
    obtain cd s3 where cd: "cdata_section (skipWS s1) = (cd, s3)"
      by (cases "cdata_section (skipWS s1)")
    then have s3: "rest_of s3 s"
      using rest_cdata_section [of "skipWS s1"] s1(2) rest_trans by auto
    show ?thesis
    proof (cases t)
      case None
      then show ?thesis using t s1 by simp
    next
      case (Some tg)
      have "s3 = [] \<Longrightarrow> skipWS s1 \<noteq> [] \<Longrightarrow> open_cdata s"
        using cdata_to_the_end [of "skipWS s1"] cd open_cdata_rest s1(2) by simp
      moreover have "left_of s (parse_children n tg tn None s3)" for tn
        using Suc.IH s3 left_of_rest by blast
      moreover have "rest_of (snd (parse_leaf tg tn cd s3)) s" for tn
        using rest_parse_leaf s3 by (rule rest_trans)
      ultimately show ?thesis
        using t cd Some s1 by (auto simp: Let_def)
    qed
  qed
  moreover have "left_of s (parse_children (Suc n) tg tn p s)" for tg tn p s
  proof (cases "parse_node n s")
    case (Inl e)
    then have "left_of s (Inl e :: (xml_node option \<times> string) result)"
      using Suc.IH by metis
    then show ?thesis
      using Inl by (auto simp: Let_def)
  next
    case (Inr x)
    obtain c s2 where x: "x = (c, s2)" by (cases x)
    then have "rest_of (skipWS s2) s"
      using Suc.IH Inr rest_trans [OF rest_skipWS] left_simps(1) by metis
    moreover from this have "left_of s (parse_children n tg tn q (skipWS s2))" for q
      using Suc.IH left_of_rest by blast
    ultimately show ?thesis
      using Inr x by (simp add: Let_def)
  qed
  ultimately show ?case by blast
qed simp

section \<open>Printing and parsing\<close>

text \<open>
  Trees the printer and the parser agree on: no attributes (a branch drops them, a leaf does
  not return), tags of plain characters, no empty branch (it is read back as a leaf), and leaf
  values that begin with no white space and contain no entity, because the parser unquotes a
  value twice.
\<close>

definition tag_char :: "char \<Rightarrow> bool" where
  "tag_char c = (\<not> isspace c \<and>
     c \<notin> {CHR ''<'', CHR ''>'', CHR ''&'', CHR 0x22, CHR 0x60, CHR ''/''})"

definition tag_ok :: "string \<Rightarrow> bool" where
  "tag_ok t = (t \<noteq> [] \<and> list_all tag_char t \<and> hd t \<noteq> CHR ''?'' \<and> hd t \<noteq> CHR ''!'')"

definition value_ok :: "string \<Rightarrow> bool" where
  "value_ok v = (unquote v = v \<and> (v = [] \<or> \<not> isspace (hd v)))"

fun printable :: "xml_node \<Rightarrow> bool" where
  "printable (XmlLeaf t as v) = (as = [] \<and> tag_ok t \<and> value_ok v)"
| "printable (XmlBranch t as cs) = (as = [] \<and> tag_ok t \<and> cs \<noteq> [] \<and> list_all printable cs)"

lemma quote_tag: "tag_ok t \<Longrightarrow> quote t = t"
proof -
  assume "tag_ok t"
  then have "list_all tag_char t" by (simp add: tag_ok_def)
  then have "concat (map quote_char t) = t"
    by (induction t) (auto simp: quote_char_def tag_char_def)
  then show ?thesis by (simp add: quote_concat)
qed

lemma unquote_tag: "tag_ok t \<Longrightarrow> unquote t = t"
  using unquote_quote [of t] by (simp add: quote_tag)

lemma tag_chars:
  assumes "tag_ok t" and "c \<in> set t"
  shows "\<not> isspace c" and "c \<noteq> CHR ''>''" and "c \<noteq> CHR ''/''" and "\<not> is_tag_end c"
proof -
  have t: "tag_char c"
    using assms by (auto simp: tag_ok_def list_all_iff)
  then show "\<not> isspace c" and "c \<noteq> CHR ''>''" and "c \<noteq> CHR ''/''"
    by (auto simp: tag_char_def)
  then show "\<not> is_tag_end c"
    by (auto simp: is_tag_end_def isspace_def)
qed

lemma skipWS_Cons: "\<not> isspace c \<Longrightarrow> skipWS (c # s) = c # s"
  by (simp add: skipWS_def)

lemma skipWS_space: "list_all isspace w \<Longrightarrow> skipWS (w @ s) = skipWS s"
  by (induction w) (auto simp: skipWS_def)

lemma space_tabs: "list_all isspace (tabs n)"
  by (auto simp: tabs_def list_all_iff isspace_def)

lemma space_newline: "list_all isspace newline"
  by (simp add: newline_def isspace_def)

lemmas skip_simps = skipWS_space [OF space_tabs] skipWS_space [OF space_newline]

lemma parseAttr_tag: "tag_ok t \<Longrightarrow> parseAttr t = (t, [])"
proof -
  assume t: "tag_ok t"
  have s: "skipWS t = t"
    using t tag_chars(1) [OF t] by (cases t) (auto simp: skipWS_def)
  have "takeWhile (\<lambda>c. \<not> isspace c) t = t" and "dropWhile (\<lambda>c. \<not> isspace c) t = []"
    using tag_chars(1) [OF t] by auto
  then show ?thesis
    by (simp add: parseAttr_def s parse_attrs.simps del: takeWhile_eq_all_conv)
qed

lemma parseTag_tag: "CHR ''>'' \<notin> set t \<Longrightarrow> parseTag (CHR ''<'' # t @ CHR ''>'' # r) = (t, r)"
proof -
  assume "CHR ''>'' \<notin> set t"
  then have "takeWhile (\<lambda>c. c \<noteq> CHR ''>'') (t @ CHR ''>'' # r) = t"
    and "dropWhile (\<lambda>c. c \<noteq> CHR ''>'') (t @ CHR ''>'' # r) = CHR ''>'' # r"
    by (induction t) auto
  then show ?thesis by (simp add: parseTag_def)
qed

lemma not_space_lt: "\<not> isspace CHR ''<''"
  by (simp add: isspace_def)

lemma opening_tag_tag:
  assumes "tag_ok t"
  shows "opening_tag (CHR ''<'' # t @ CHR ''>'' # r) = (Some t, r)"
proof -
  have "CHR ''>'' \<notin> set t" and "t \<noteq> []" and "hd t \<noteq> CHR ''/''"
    using assms tag_chars [OF assms] by (auto simp: tag_ok_def)
  then show ?thesis
    using assms by (simp add: opening_tag.simps skipWS_Cons not_space_lt parseTag_tag tag_ok_def)
qed

lemma opening_tag_space: "list_all isspace w \<Longrightarrow> opening_tag (w @ s) = opening_tag s"
  by (subst (1 2) opening_tag.simps) (simp add: skipWS_space)

lemma parse_node_space: "list_all isspace w \<Longrightarrow> parse_node n (w @ s) = parse_node n s"
  by (cases n) (simp_all add: opening_tag_space)

lemma closes_tag: "closes (CHR ''/'' # t) t"
proof -
  have "find_sub t t = Some 0"
    by (cases t) (auto simp: starts_with_def)
  then show ?thesis by (simp add: closes_def find_from_def)
qed

lemma parseTag_closing:
  "tag_ok t \<Longrightarrow> parseTag (CHR ''<'' # CHR ''/'' # t @ CHR ''>'' # r) = (CHR ''/'' # t, r)"
  using parseTag_tag [of "CHR ''/'' # t" r] tag_chars(2) [of t] by auto

lemma tag_takeWhile: "tag_ok t \<Longrightarrow> takeWhile (\<lambda>c. \<not> is_tag_end c) t = t"
  using tag_chars(4) by simp

lemma last_tag: "tag_ok t \<Longrightarrow> last t \<noteq> CHR ''/''"
  using tag_chars(3) [of t "last t"] by (auto simp: tag_ok_def)

lemma toString_shape:
  "printable x \<Longrightarrow> toString n x = Some s \<Longrightarrow>
     tag_ok (tag x) \<and> (\<exists>b. s = tabs n @ CHR ''<'' # tag x @ CHR ''>'' # b)"
  by (cases x) (auto simp: attr_loop.simps quote_tag split: option.splits)

lemma quote_no_lt: "CHR ''<'' \<notin> set (quote v)"
  by (auto simp: quote_concat quote_char_def split: if_splits)

lemma quote_hd:
  assumes "v \<noteq> []" and "\<not> isspace (hd v)"
  obtains c w where "quote v = c # w" and "\<not> isspace c" and "c \<noteq> CHR ''<''"
proof -
  obtain a u where v: "v = a # u" using assms(1) by (cases v) auto
  have "quote_char a \<noteq> []" by (simp add: quote_char_def)
  then obtain c w where q: "quote v = c # w"
    by (cases "quote v") (auto simp: v quote_concat)
  moreover have "\<not> isspace c"
    using q assms(2) by (auto simp: v quote_concat quote_char_def isspace_def split: if_splits)
  moreover have "c \<noteq> CHR ''<''"
    using q quote_no_lt [of v] by auto
  ultimately show thesis by (rule that)
qed

lemma parse_leaf_value:
  assumes "tag_ok t" and "value_ok v" and "v \<noteq> []"
  shows "parse_leaf t t [] (quote v @ CHR ''<'' # CHR ''/'' # t @ CHR ''>'' # r) =
    (Some (XmlLeaf t [] v), r)"
proof -
  let ?s = "CHR ''<'' # CHR ''/'' # t @ CHR ''>'' # r"
  have t: "takeWhile (\<lambda>c. c \<noteq> CHR ''<'') (quote v @ ?s) = quote v"
    and d: "dropWhile (\<lambda>c. c \<noteq> CHR ''<'') (quote v @ ?s) = ?s"
    using quote_no_lt [of v] by (induction "quote v") (auto simp: takeWhile_append dropWhile_append)
  have "quote v \<noteq> []"
    using assms(2,3) quote_hd [of v] by (metis list.distinct(1) value_ok_def)
  then show ?thesis
    using assms(2) unfolding parse_leaf_def t d
    by (simp add: parseTag_closing [OF assms(1)] closes_tag new_XmlLeaf_def unquote_tag [OF assms(1)]
        parseAttr_tag [OF assms(1)] value_ok_def)
qed

lemma parse_printed_leaf:
  assumes "tag_ok t" and "value_ok v"
  shows "parse_node (Suc (Suc n))
      (CHR ''<'' # t @ CHR ''>'' # quote v @ CHR ''<'' # CHR ''/'' # t @ CHR ''>'' # r) =
    Inr (Some (XmlLeaf t [] v), r)"
proof (cases "v = []")
  case True
  then show ?thesis
    using assms by (simp add: opening_tag_tag last_tag tag_takeWhile skipWS_Cons not_space_lt
        cdata_section_def parseTag_closing closes_tag new_XmlLeaf_def unquote_tag parseAttr_tag
        quote_concat) (simp add: unquote_def replace_all_subst)
next
  case False
  then obtain c w where q: "quote v = c # w" "\<not> isspace c" "c \<noteq> CHR ''<''"
    using assms(2) quote_hd [of v] by (auto simp: value_ok_def)
  then show ?thesis
    using assms parse_leaf_value [OF assms False, of r]
    by (simp add: opening_tag_tag last_tag tag_takeWhile skipWS_Cons cdata_section_def)
qed

lemma parse_printed_children:
  assumes "tag_ok t"
    and "\<And>c m s f r. c \<in> set cs \<Longrightarrow> toString m c = Some s \<Longrightarrow> 2 * length (s @ r) < f \<Longrightarrow>
      parse_node f (s @ r) = Inr (Some c, newline @ r)"
    and "list_all printable cs"
    and "cs = [] \<Longrightarrow> p \<noteq> None"
    and "toString_list m cs = Some s"
    and "w = tabs n @ CHR ''<'' # CHR ''/'' # t @ CHR ''>'' # r"
    and "2 * length (s @ w) + 1 < f"
  shows "parse_children f t t p (skipWS (s @ w)) =
    Inr (Some (XmlBranch t [] ((case p of None \<Rightarrow> [] | Some ps \<Rightarrow> ps) @ cs)), r)"
  using assms(2-5,7)
proof (induction cs arbitrary: p s f)
  case Nil
  then obtain g ps where "f = Suc g" "p = Some ps"
    by (cases f; cases p) auto
  then show ?case
    using Nil.prems assms(1,6)
    by (simp add: skip_simps skipWS_Cons not_space_lt parseTag_closing closes_tag new_XmlBranch_def
        unquote_tag parseAttr_tag)
next
  case (Cons c cs)
  obtain g where g: "f = Suc g"
    using Cons.prems(5) by (cases f) auto
  obtain sc s' where s: "toString m c = Some sc" "toString_list m cs = Some s'" "s = sc @ s'"
    using Cons.prems(4) by (auto split: option.splits)
  obtain b where tc: "tag_ok (tag c)" and b: "sc = tabs m @ CHR ''<'' # tag c @ CHR ''>'' # b"
    using toString_shape [OF _ s(1)] Cons.prems(2) by auto
  let ?in = "CHR ''<'' # tag c @ CHR ''>'' # b @ s' @ w"
  have i: "skipWS (s @ w) = ?in"
    by (simp add: s(3) b skip_simps skipWS_Cons not_space_lt)
  have nt: "parseTag ?in = (tag c, b @ s' @ w)" and "tag c \<noteq> []" and "hd (tag c) \<noteq> CHR ''/''"
    using tc tag_chars [OF tc] parseTag_tag [of "tag c" "b @ s' @ w"] by (auto simp: tag_ok_def)
  moreover have "parse_node g ?in = Inr (Some c, newline @ s' @ w)"
    using Cons.prems(1) [of c m sc "s' @ w" g] Cons.prems(5) s b g parse_node_space [OF space_tabs]
    by simp
  moreover have "skipWS (newline @ s' @ w) = skipWS (s' @ w)"
    by (simp add: skip_simps)
  moreover have "\<exists>v. skipWS (s' @ w) = CHR ''<'' # v"
  proof (cases cs)
    case Nil
    then show ?thesis using s(2) assms(6) by (simp add: skip_simps skipWS_Cons not_space_lt)
  next
    case (Cons d ds)
    then obtain sd sr where "toString m d = Some sd" "s' = sd @ sr" "printable d"
      using s(2) Cons.prems(2) by (auto split: option.splits)
    then show ?thesis
      using toString_shape [of d m sd] by (auto simp: skip_simps skipWS_Cons not_space_lt)
  qed
  moreover have "parse_children g t t (Some ((case p of None \<Rightarrow> [] | Some ps \<Rightarrow> ps) @ [c])) (skipWS (s' @ w)) =
      Inr (Some (XmlBranch t [] (((case p of None \<Rightarrow> [] | Some ps \<Rightarrow> ps) @ [c]) @ cs)), r)"
    using Cons.IH [of "Some ((case p of None \<Rightarrow> [] | Some ps \<Rightarrow> ps) @ [c])" s' g] Cons.prems s b g
    by simp
  ultimately show ?case
    by (auto simp: i g Let_def)
qed

lemma parse_printed:
  "printable x \<Longrightarrow> toString n x = Some s \<Longrightarrow> 2 * length (s @ r) < f \<Longrightarrow>
   parse_node f (s @ r) = Inr (Some x, newline @ r)"
proof (induction x arbitrary: n s r f)
  case (XmlLeaf t as v)
  let ?b = "quote v @ CHR ''<'' # CHR ''/'' # t @ CHR ''>'' # newline @ r"
  have t: "tag_ok t" and v: "value_ok v" and a: "as = []"
    using XmlLeaf.prems(1) by auto
  then have s: "s @ r = tabs n @ CHR ''<'' # t @ CHR ''>'' # ?b"
    using XmlLeaf.prems(2) by (auto simp: attr_loop.simps quote_tag)
  obtain g where g: "f = Suc (Suc g)"
    using XmlLeaf.prems(3) unfolding s by (cases f; cases "f - 1") auto
  show ?case
    unfolding s g parse_node_space [OF space_tabs] a by (rule parse_printed_leaf [OF t v])
next
  case (XmlBranch t as cs)
  have t: "tag_ok t" and cs: "cs \<noteq> []" "list_all printable cs" and a: "as = []"
    using XmlBranch.prems(1) by auto
  obtain sc where sc: "toString_list (Suc n) cs = Some sc"
    and s: "s = tabs n @ CHR ''<'' # t @ CHR ''>'' # newline @ sc @
      tabs n @ CHR ''<'' # CHR ''/'' # t @ CHR ''>'' # newline"
    using XmlBranch.prems(2) t by (auto simp: quote_tag split: option.splits)
  let ?w = "tabs n @ CHR ''<'' # CHR ''/'' # t @ CHR ''>'' # newline @ r"
  obtain g where g: "f = Suc g"
    using XmlBranch.prems(3) by (cases f) auto
  obtain c cs' where c: "cs = c # cs'"
    using cs(1) by (cases cs) auto
  then obtain b where b: "skipWS (sc @ ?w) = CHR ''<'' # b" and nb: "take 9 (CHR ''<'' # b) \<noteq> ''<![CDATA[''"
  proof -
    obtain sd sr where d: "toString (Suc n) c = Some sd" "sc = sd @ sr"
      using sc c by (auto split: option.splits)
    have tc: "tag_ok (tag c)" and "\<exists>e. sd = tabs (Suc n) @ CHR ''<'' # tag c @ CHR ''>'' # e"
      using toString_shape [OF _ d(1)] cs c by auto
    then obtain e where "skipWS (sc @ ?w) = CHR ''<'' # tag c @ CHR ''>'' # e @ sr @ ?w"
      using d(2) by (auto simp: skip_simps skipWS_Cons not_space_lt)
    moreover have "take 9 (CHR ''<'' # tag c @ u) \<noteq> ''<![CDATA[''" for u
      using tc by (cases "tag c") (auto simp: tag_ok_def)
    ultimately show thesis using that by blast
  qed
  have "parse_children g t t None (skipWS (sc @ ?w)) =
      Inr (Some (XmlBranch t [] ((case None of None \<Rightarrow> [] | Some ps \<Rightarrow> ps) @ cs)), newline @ r)"
  proof (rule parse_printed_children [OF t])
    fix c m s r f
    assume "c \<in> set cs" "toString m c = Some s" "2 * length (s @ r) < f"
    then show "parse_node f (s @ r) = Inr (Some c, newline @ r)"
      using XmlBranch.IH [of c m s r f] cs(2) by (auto simp: list_all_iff)
  qed (use cs sc XmlBranch.prems(3) s g in auto)
  moreover have "skipWS (newline @ sc @ ?w) = skipWS (sc @ ?w)"
    by (simp add: skip_simps)
  moreover have "s @ r = tabs n @ CHR ''<'' # t @ CHR ''>'' # newline @ sc @ ?w"
    by (simp add: s)
  ultimately show ?case
    using nb unfolding g
    by (simp add: parse_node_space [OF space_tabs] opening_tag_tag [OF t] last_tag [OF t]
        tag_takeWhile [OF t] cdata_section_def b a)
qed

lemma toString_printable: "printable x \<Longrightarrow> \<exists>s. toString n x = Some s"
proof (induction x arbitrary: n)
  case (XmlLeaf t as v)
  then show ?case by (simp add: attr_loop.simps)
next
  case (XmlBranch t as cs)
  have "\<exists>r. toString_list m cs = Some r" if "\<forall>c\<in>set cs. \<forall>m. \<exists>s. toString m c = Some s" for m
    using that
  proof (induction cs)
    case (Cons c cs)
    then obtain s where "toString m c = Some s"
      by (meson list.set_intros(1))
    then show ?case using Cons by auto
  qed simp
  moreover have "\<forall>c\<in>set cs. \<forall>m. \<exists>s. toString m c = Some s"
    using XmlBranch by (auto simp: list_all_iff)
  ultimately obtain r where "toString_list (Suc n) cs = Some r"
    by blast
  then show ?case by simp
qed

lemma attr_loop_diverges: "attr_loop (a # ia) r = None"
proof (rule ccontr)
  assume "attr_loop (a # ia) r \<noteq> None"
  then obtain s where s: "attr_loop (a # ia) r = Some s" by blast
  have "ia' \<noteq> [] \<Longrightarrow> attr_loop ia' r' = Some s' \<Longrightarrow> False" for ia' r' s'
  proof -
    assume "ia' \<noteq> []" and ret: "attr_loop ia' r' = Some s'"
    have "ia' = []"
    proof (rule attr_loop.raw_induct [where P = "\<lambda>ia r s. ia = []", OF _ ret])
      fix f :: "(string \<times> string) list \<Rightarrow> string \<Rightarrow> string option" and ia r s
      assume IH: "\<And>ia r s. f ia r = Some s \<Longrightarrow> ia = []"
        and eq: "(case ia of [] \<Rightarrow> Some r
          | (n, v) # _ \<Rightarrow> f ia (r @ '' '' @ n @ ''='' @ [CHR 0x22] @ v @ [CHR 0x22])) = Some s"
      show "ia = []"
      proof (cases ia)
        case (Cons x xs)
        then show ?thesis using eq IH by (cases x) auto
      qed simp
    qed
    with \<open>ia' \<noteq> []\<close> show False by simp
  qed
  then show False using s by blast
qed

section \<open>Properties\<close>

text \<open>Unquoting undoes quoting, for every string: the five sequential replacements of quote and
  the seven of unquote do not interfere.\<close>

theorem quote_roundtrip: "unquote (quote s) = s"
  by (rule unquote_quote)

text \<open>C34: The parser ends on every input: the mutual recursion of XmlNode::parse and its child loop needs no more
  than 2 * length + 1 nested calls, whose results are of two kinds. Either the parser returns, with a part of
  its input up to the end as the rest; or it dereferences the end iterator. That happens only where the input
  holds a CDATA section that takes all of the rest of it, as in the example; no other exception is possible.\<close>

theorem xml_parse_total:
  "((\<exists>x p rest. xml_parse s = Inr (x, rest) \<and> s = p @ rest) \<or>
    xml_parse s = Inl OutOfRange \<and>
      (\<exists>p r. s = p @ ''<![CDATA['' @ r \<and> snd (cdata_loop [] [] r) = [])) \<and>
   xml_parse ''<a><![CDATA[b'' = Inl OutOfRange"
proof (rule conjI)
  show "(\<exists>x p rest. xml_parse s = Inr (x, rest) \<and> s = p @ rest) \<or>
    xml_parse s = Inl OutOfRange \<and> (\<exists>p r. s = p @ ''<![CDATA['' @ r \<and> snd (cdata_loop [] [] r) = [])"
  proof (cases "xml_parse s")
    case (Inl e)
    then have "e = OutOfRange"
      using xml_parse_fuel [of s] parse_no_throw [of e "2 * length s + 1"]
      by (cases "e = OutOfRange") (auto simp: xml_parse_def simp del: parse_node.simps)
    then show ?thesis
      using Inl spec [OF conjunct1 [OF parse_left [of "2 * length s + 1"]], of s]
      by (auto simp: xml_parse_def open_cdata_def rest_of_def simp del: parse_node.simps)
  next
    case (Inr y)
    then show ?thesis
      using spec [OF conjunct1 [OF parse_left [of "2 * length s + 1"]], of s]
      by (cases y) (auto simp: xml_parse_def rest_of_def simp del: parse_node.simps)
  qed
qed code_simp

text \<open>C33: A tree of leaves and non-empty branches that is printed at any indentation and parsed
  again is the same tree; what is left of the input is the newline after it.\<close>

theorem xml_roundtrip:
  assumes "printable x"
  shows "\<exists>s. toString n x = Some s \<and> xml_parse s = Inr (Some x, newline)"
proof -
  obtain s where s: "toString n x = Some s"
    using toString_printable [OF assms] by blast
  then have "parse_node (2 * length s + 1) (s @ []) = Inr (Some x, newline @ [])"
    using assms by (intro parse_printed) auto
  with s show ?thesis by (simp add: xml_parse_def)
qed

theorem xml_roundtrip_witness:
  "\<exists>s. toString 1 (XmlBranch ''sms'' [] [XmlLeaf ''text'' [] ''a < b'', XmlLeaf ''id'' [] []]) = Some s \<and>
    xml_parse s = Inr (Some (XmlBranch ''sms'' [] [XmlLeaf ''text'' [] ''a < b'', XmlLeaf ''id'' [] []]), newline)"
proof (rule xml_roundtrip)
  show "printable (XmlBranch ''sms'' [] [XmlLeaf ''text'' [] ''a < b'', XmlLeaf ''id'' [] []])"
    by code_simp
qed

text \<open>Two behaviours of the code that break the round trip: a leaf that has an attribute is never
  printed (the loop over the attributes does not advance), and a quoted entity in the text of a
  leaf is decoded twice.\<close>

theorem xml_defects:
  "toString n (XmlLeaf t (a # as) v) = None \<and>
   xml_parse ''<a>&amp;lt;</a>'' = Inr (Some (XmlLeaf ''a'' [] ''<''), []) \<and>
   unquote ''&amp;lt;'' = ''&lt;''"
proof (intro conjI)
  show "toString n (XmlLeaf t (a # as) v) = None"
    by (simp add: attr_loop_diverges)
qed (code_simp+)

end
