(* ===== verification/Buffer.thy ===== *)
theory Buffer
  imports Prelude
begin

text \<open>
  The packet buffer of \<^verbatim>\<open>src/buffer.h\<close> and \<^verbatim>\<open>src/buffer.cpp\<close>: a byte vector, a byte order and
  a 32-bit read position. Writing appends to the vector; reading moves the position. Every
  read position computation is done in 32-bit arithmetic as in the code, and every vector
  access that could fall outside the vector ends in \<^const>\<open>OutOfRange\<close>.

  In \<open>operator>>\<close> the code increments the position twice (or four times) in one unsequenced
  expression; the model reads the octets from left to right.
\<close>

section \<open>The buffer and its operations\<close>

datatype endian = BIG | LITTLE

record buffer =
  m_data :: "u8 list"
  m_endn :: endian
  m_out_pos :: u32

record marker =
  mk_position :: u32
  mk_endianness :: endian
  mk_size :: int

definition new_buffer :: buffer where
  "new_buffer = \<lparr>m_data = [], m_endn = BIG, m_out_pos = 0\<rparr>"

definition buffer_of_bytes :: "u8 list \<Rightarrow> buffer" where
  "buffer_of_bytes d = \<lparr>m_data = d, m_endn = BIG, m_out_pos = 0\<rparr>"

definition sub_buffer :: "buffer \<Rightarrow> u32 \<Rightarrow> u32 \<Rightarrow> buffer result" where
  "sub_buffer b start len =
     (if unat start + unat len > length (m_data b) then Inl OutOfRange
      else Inr (buffer_of_bytes (take (unat len) (drop (unat start) (m_data b)))))"

definition buf_size :: "buffer \<Rightarrow> u32" where
  "buf_size b = word_of_nat (length (m_data b))"

definition remains :: "buffer \<Rightarrow> u32" where
  "remains b = word_of_nat (length (m_data b)) - m_out_pos b"

definition buf_clear :: "buffer \<Rightarrow> buffer" where
  "buf_clear b = b\<lparr>m_data := [], m_out_pos := 0\<rparr>"

definition buf_empty :: "buffer \<Rightarrow> bool" where
  "buf_empty b = (m_data b = [])"

definition advance :: "u32 \<Rightarrow> buffer \<Rightarrow> buffer" where
  "advance ad b = b\<lparr>m_out_pos := m_out_pos b + ad\<rparr>"

definition beforeEnd :: "buffer \<Rightarrow> bool" where
  "beforeEnd b = (unat (m_out_pos b) < length (m_data b))"

definition setPos :: "u32 \<Rightarrow> buffer \<Rightarrow> buffer" where
  "setPos p b = b\<lparr>m_out_pos := p\<rparr>"

definition setEndianness :: "endian \<Rightarrow> buffer \<Rightarrow> buffer" where
  "setEndianness e b = b\<lparr>m_endn := e\<rparr>"

definition setBigEndian :: "buffer \<Rightarrow> buffer" where
  "setBigEndian b = b\<lparr>m_endn := BIG\<rparr>"

definition setLittleEndian :: "buffer \<Rightarrow> buffer" where
  "setLittleEndian b = b\<lparr>m_endn := LITTLE\<rparr>"

text \<open>\<open>chopOffBuffer src dst sz\<close> returns the two buffers, the source first.\<close>

definition chopOffBuffer :: "buffer \<Rightarrow> buffer \<Rightarrow> u32 \<Rightarrow> (buffer \<times> buffer) result" where
  "chopOffBuffer b dst sz =
     (if unat sz > length (m_data b) then Inl OutOfRange
      else Inr (b\<lparr>m_data := drop (unat sz) (m_data b), m_out_pos := 0\<rparr>,
                dst\<lparr>m_data := m_data dst @ take (unat sz) (m_data b)\<rparr>))"

subsection \<open>Writing\<close>

definition push_back :: "u8 \<Rightarrow> buffer \<Rightarrow> buffer" where
  "push_back x b = b\<lparr>m_data := m_data b @ [x]\<rparr>"

definition put_u8 :: "u8 \<Rightarrow> buffer \<Rightarrow> buffer" where
  "put_u8 l b = push_back l b"

definition put_u16 :: "u16 \<Rightarrow> buffer \<Rightarrow> buffer" where
  "put_u16 l b =
     (case m_endn b of
        BIG \<Rightarrow> push_back (octet 0 l) (push_back (octet 8 l) b)
      | LITTLE \<Rightarrow> push_back (octet 8 l) (push_back (octet 0 l) b))"

definition put_u32 :: "u32 \<Rightarrow> buffer \<Rightarrow> buffer" where
  "put_u32 l b =
     (case m_endn b of
        BIG \<Rightarrow> push_back (octet 0 l) (push_back (octet 8 l)
                 (push_back (octet 16 l) (push_back (octet 24 l) b)))
      | LITTLE \<Rightarrow> push_back (octet 24 l) (push_back (octet 16 l)
                 (push_back (octet 8 l) (push_back (octet 0 l) b))))"

definition pack_bytes :: "u8 list \<Rightarrow> buffer \<Rightarrow> buffer" where
  "pack_bytes d b = b\<lparr>m_data := m_data b @ d\<rparr>"

definition pack_string :: "string \<Rightarrow> buffer \<Rightarrow> buffer" where
  "pack_string s b = b\<lparr>m_data := m_data b @ bytes_of_string s\<rparr>"

definition put_string :: "string \<Rightarrow> buffer \<Rightarrow> buffer" where
  "put_string s b = pack_string s (put_u16 (word_of_nat (length s)) b)"

definition PackUint16StringNull :: "string \<Rightarrow> buffer \<Rightarrow> buffer" where
  "PackUint16StringNull s b =
     put_u8 0 (pack_string s (put_u16 (word_of_nat (length s + 1)) b))"

definition PackByteString :: "string \<Rightarrow> buffer \<Rightarrow> buffer" where
  "PackByteString s b = pack_string s (put_u8 (word_of_nat (length s)) b)"

subsection \<open>Length fields filled in later\<close>

definition getAutoSizeShortMarker :: "buffer \<Rightarrow> marker \<times> buffer" where
  "getAutoSizeShortMarker b =
     (let b' = put_u16 0 b
      in (\<lparr>mk_position = buf_size b', mk_endianness = m_endn b', mk_size = 2\<rparr>, b'))"

definition getAutoSizeIntMarker :: "buffer \<Rightarrow> marker \<times> buffer" where
  "getAutoSizeIntMarker b =
     (let b' = put_u32 0 b
      in (\<lparr>mk_position = buf_size b', mk_endianness = m_endn b', mk_size = 4\<rparr>, b'))"

definition store_byte :: "u32 \<Rightarrow> u8 \<Rightarrow> buffer \<Rightarrow> buffer result" where
  "store_byte i x b =
     (if unat i < length (m_data b) then Inr (b\<lparr>m_data := (m_data b)[unat i := x]\<rparr>)
      else Inl OutOfRange)"

definition setAutoSizeMarker :: "marker \<Rightarrow> buffer \<Rightarrow> buffer result" where
  "setAutoSizeMarker m b =
     (let autosize = buf_size b - mk_position m; p = mk_position m in
      if mk_size m = 2 then
        (if mk_endianness m = BIG then
           andThen (store_byte (p - 2) (octet 8 autosize) b) (store_byte (p - 1) (octet 0 autosize))
         else
           andThen (store_byte (p - 2) (octet 0 autosize) b) (store_byte (p - 1) (octet 8 autosize)))
      else if mk_size m = 4 then
        (if mk_endianness m = BIG then
           andThen (store_byte (p - 4) (octet 24 autosize) b) (\<lambda>b.
           andThen (store_byte (p - 3) (octet 16 autosize) b) (\<lambda>b.
           andThen (store_byte (p - 2) (octet 8 autosize) b)
             (store_byte (p - 1) (octet 0 autosize))))
         else
           andThen (store_byte (p - 4) (octet 0 autosize) b) (\<lambda>b.
           andThen (store_byte (p - 3) (octet 8 autosize) b) (\<lambda>b.
           andThen (store_byte (p - 2) (octet 16 autosize) b)
             (store_byte (p - 1) (octet 24 autosize)))))
      else Inr b)"

subsection \<open>Reading\<close>

definition byte_at :: "buffer \<Rightarrow> u32 \<Rightarrow> u8 result" where
  "byte_at b i = (if unat i < length (m_data b) then Inr (m_data b ! unat i) else Inl OutOfRange)"

definition get_u8 :: "buffer \<Rightarrow> (u8 \<times> buffer) result" where
  "get_u8 b =
     (if unat (m_out_pos b + 1) > length (m_data b) then Inr (0, b)
      else andThen (byte_at b (m_out_pos b)) (\<lambda>x. Inr (x, advance 1 b)))"

definition UnpackChar :: "buffer \<Rightarrow> (u8 \<times> buffer) result" where
  "UnpackChar b =
     (if unat (m_out_pos b + 1) > length (m_data b) then Inr (0, b)
      else andThen (byte_at b (m_out_pos b)) (\<lambda>x. Inr (x, advance 1 b)))"

definition get_u16 :: "buffer \<Rightarrow> (u16 \<times> buffer) result" where
  "get_u16 b =
     (if unat (m_out_pos b + 2) > length (m_data b) then Inr (0, advance 2 b)
      else
        andThen (byte_at b (m_out_pos b)) (\<lambda>x0.
        andThen (byte_at b (m_out_pos b + 1)) (\<lambda>x1.
        Inr (case m_endn b of BIG \<Rightarrow> join16 x0 x1 | LITTLE \<Rightarrow> join16 x1 x0, advance 2 b))))"

definition get_u32 :: "buffer \<Rightarrow> (u32 \<times> buffer) result" where
  "get_u32 b =
     (if unat (m_out_pos b + 4) > length (m_data b) then Inr (0, advance 4 b)
      else
        andThen (byte_at b (m_out_pos b)) (\<lambda>x0.
        andThen (byte_at b (m_out_pos b + 1)) (\<lambda>x1.
        andThen (byte_at b (m_out_pos b + 2)) (\<lambda>x2.
        andThen (byte_at b (m_out_pos b + 3)) (\<lambda>x3.
        Inr (case m_endn b of BIG \<Rightarrow> join32 x0 x1 x2 x3 | LITTLE \<Rightarrow> join32 x3 x2 x1 x0,
             advance 4 b))))))"

text \<open>
  \<open>Unpack s n\<close> appends up to \<open>n\<close> bytes to the string \<open>s\<close>; the loop runs over the iterators
  from the position to the position plus the (clamped) size.
\<close>

definition Unpack :: "string \<Rightarrow> u32 \<Rightarrow> buffer \<Rightarrow> (string \<times> buffer) result" where
  "Unpack s n b =
     (if unat (m_out_pos b) \<ge> length (m_data b) then Inr (s, b)
      else
        let n' = (if unat (m_out_pos b + n) > length (m_data b)
                  then word_of_nat (length (m_data b)) - m_out_pos b else n)
        in if unat (m_out_pos b) + unat n' > length (m_data b) then Inl OutOfRange
           else Inr (s @ string_of_bytes (take (unat n') (drop (unat (m_out_pos b)) (m_data b))),
                     advance n' b))"

text \<open>\<open>Unpack_bytes n\<close> is the overload that copies into an array; the result is what was copied.\<close>

definition Unpack_bytes :: "u32 \<Rightarrow> buffer \<Rightarrow> (u8 list \<times> buffer) result" where
  "Unpack_bytes n b =
     (let n' = (if unat (m_out_pos b + n) > length (m_data b)
                then word_of_nat (length (m_data b)) - m_out_pos b else n)
      in if unat (m_out_pos b) + unat n' > length (m_data b) then Inl OutOfRange
         else Inr (take (unat n') (drop (unat (m_out_pos b)) (m_data b)), advance n' b))"

definition get_string :: "string \<Rightarrow> buffer \<Rightarrow> (string \<times> buffer) result" where
  "get_string s b =
     (if unat (m_out_pos b + 2) > length (m_data b) then Inr ([], advance 2 b)
      else andThen (get_u16 b) (\<lambda>(sz, b). Unpack s (ucast sz) b))"

definition UnpackUint32String :: "string \<Rightarrow> buffer \<Rightarrow> (string \<times> buffer) result" where
  "UnpackUint32String s b = andThen (get_u32 b) (\<lambda>(l, b). Unpack s l b)"

definition UnpackUint16StringNull :: "string \<Rightarrow> buffer \<Rightarrow> (string \<times> buffer) result" where
  "UnpackUint16StringNull s b =
     andThen (get_u16 b) (\<lambda>(sh, b).
     if sh > 0 then
       andThen (Unpack s (ucast sh - 1) b) (\<lambda>(s, b). Inr (s, advance 1 b))
     else Inr (s, b))"

definition UnpackByteString :: "string \<Rightarrow> buffer \<Rightarrow> (string \<times> buffer) result" where
  "UnpackByteString s b = andThen (get_u8 b) (\<lambda>(c, b). Unpack s (ucast c) b)"

fun find_byte :: "u8 \<Rightarrow> u8 list \<Rightarrow> nat option" where
  "find_byte x [] = None"
| "find_byte x (y # ys) = (if y = x then Some 0 else map_option Suc (find_byte x ys))"

definition UnpackCRLFString :: "string \<Rightarrow> buffer \<Rightarrow> (string \<times> buffer) result" where
  "UnpackCRLFString s b =
     (if unat (m_out_pos b) > length (m_data b) then Inl OutOfRange
      else case find_byte 10 (drop (unat (m_out_pos b)) (m_data b)) of
             None \<Rightarrow> Inr (s, b)
           | Some i \<Rightarrow> Unpack s (word_of_nat (i + 1)) b)"

section \<open>What was written and what is left to read\<close>

text \<open>
  \<open>unread b\<close> is the abstract content of a buffer for a reader, \<open>wfb\<close> the states in which
  the position lies inside the data and additions of 16-bit sizes to it cannot wrap.
\<close>

definition unread :: "buffer \<Rightarrow> u8 list" where
  "unread b = drop (unat (m_out_pos b)) (m_data b)"

definition wfb :: "buffer \<Rightarrow> bool" where
  "wfb b \<longleftrightarrow> length (m_data b) < 2 ^ 31 \<and> unat (m_out_pos b) \<le> length (m_data b)"

fun enc16 :: "endian \<Rightarrow> u16 \<Rightarrow> u8 list" where
  "enc16 BIG w = [octet 8 w, octet 0 w]"
| "enc16 LITTLE w = [octet 0 w, octet 8 w]"

fun enc32 :: "endian \<Rightarrow> u32 \<Rightarrow> u8 list" where
  "enc32 BIG w = [octet 24 w, octet 16 w, octet 8 w, octet 0 w]"
| "enc32 LITTLE w = [octet 0 w, octet 8 w, octet 16 w, octet 24 w]"

abbreviation emit :: "u8 list \<Rightarrow> buffer \<Rightarrow> buffer" where
  "emit bs b \<equiv> b\<lparr>m_data := m_data b @ bs\<rparr>"

lemma length_enc16 [simp]: "length (enc16 e w) = 2"
  by (cases e) auto

lemma length_enc32 [simp]: "length (enc32 e w) = 4"
  by (cases e) auto

lemma put_u8_emit [codec_simps]: "put_u8 x b = emit [x] b"
  by (simp add: put_u8_def push_back_def)

lemma put_u16_emit [codec_simps]: "put_u16 w b = emit (enc16 (m_endn b) w) b"
  by (cases "m_endn b") (simp_all add: put_u16_def push_back_def)

lemma put_u32_emit [codec_simps]: "put_u32 w b = emit (enc32 (m_endn b) w) b"
  by (cases "m_endn b") (simp_all add: put_u32_def push_back_def)

lemma pack_bytes_emit [codec_simps]: "pack_bytes d b = emit d b"
  by (simp add: pack_bytes_def)

lemma pack_string_emit [codec_simps]: "pack_string s b = emit (bytes_of_string s) b"
  by (simp add: pack_string_def)

lemma put_string_emit [codec_simps]:
  "put_string s b = emit (enc16 (m_endn b) (word_of_nat (length s)) @ bytes_of_string s) b"
  by (simp add: put_string_def codec_simps)

lemma PackUint16StringNull_emit [codec_simps]:
  "PackUint16StringNull s b =
     emit (enc16 (m_endn b) (word_of_nat (length s + 1)) @ bytes_of_string s @ [0]) b"
  by (simp add: PackUint16StringNull_def codec_simps)

lemma PackByteString_emit [codec_simps]:
  "PackByteString s b = emit (word_of_nat (length s) # bytes_of_string s) b"
  by (simp add: PackByteString_def codec_simps)

lemma emit_emit [codec_simps]: "emit ys (emit xs b) = emit (xs @ ys) b"
  by simp

subsection \<open>Moving the position\<close>

lemma unat_pos_add:
  "wfb b \<Longrightarrow> unat n \<le> length (unread b) \<Longrightarrow> unat (m_out_pos b + n) = unat (m_out_pos b) + unat n"
  unfolding wfb_def unread_def by (rule unat_plus_u32) auto

lemma unread_advance [codec_simps]:
  "wfb b \<Longrightarrow> unat n \<le> length (unread b) \<Longrightarrow> unread (advance n b) = drop (unat n) (unread b)"
  using unat_pos_add [of b n] by (simp add: unread_def advance_def add.commute)

lemma wfb_advance [codec_simps]:
  "wfb b \<Longrightarrow> unat n \<le> length (unread b) \<Longrightarrow> wfb (advance n b)"
  using unat_pos_add [of b n] by (auto simp: wfb_def unread_def advance_def)

lemma m_endn_advance [simp]: "m_endn (advance n b) = m_endn b"
  and m_data_advance [simp]: "m_data (advance n b) = m_data b"
  and m_out_pos_advance [simp]: "m_out_pos (advance n b) = m_out_pos b + n"
  by (simp_all add: advance_def)

lemma advance_advance [codec_simps]: "advance m (advance n b) = advance (n + m) b"
  by (simp add: advance_def add.assoc)

lemma advance_0 [simp]: "advance 0 b = b"
  by (simp add: advance_def)

lemma beforeEnd_unread: "wfb b \<Longrightarrow> beforeEnd b \<longleftrightarrow> unread b \<noteq> []"
  by (auto simp: wfb_def beforeEnd_def unread_def)

lemma byte_at_unread:
  "wfb b \<Longrightarrow> unat n < length (unread b) \<Longrightarrow> byte_at b (m_out_pos b + n) = Inr (unread b ! unat n)"
  using unat_pos_add [of b n] by (simp add: byte_at_def unread_def)

lemma wfb_room:
  "wfb b \<Longrightarrow> unat n \<le> length (unread b) \<Longrightarrow> \<not> length (m_data b) < unat (m_out_pos b + n)"
  using unat_pos_add [of b n] by (auto simp: wfb_def unread_def)

subsection \<open>Reading inside the data\<close>

lemma get_u8_unread [codec_simps]:
  assumes "wfb b" and "unread b = x # r"
  shows "get_u8 b = Inr (x, advance 1 b)"
  using assms byte_at_unread [of b 0] wfb_room [of b 1] by (simp add: get_u8_def)

lemma get_u16_unread [codec_simps]:
  assumes "wfb b" and "unread b = x # y # r"
  shows "get_u16 b =
    Inr (case m_endn b of BIG \<Rightarrow> join16 x y | LITTLE \<Rightarrow> join16 y x, advance 2 b)"
  using assms byte_at_unread [of b 0] byte_at_unread [of b 1] wfb_room [of b 2]
  by (simp add: get_u16_def)

lemma get_u32_unread [codec_simps]:
  assumes "wfb b" and "unread b = x # y # z # u # r"
  shows "get_u32 b =
    Inr (case m_endn b of BIG \<Rightarrow> join32 x y z u | LITTLE \<Rightarrow> join32 u z y x, advance 4 b)"
  using assms byte_at_unread [of b 0] byte_at_unread [of b 1] byte_at_unread [of b 2]
    byte_at_unread [of b 3] wfb_room [of b 4]
  by (simp add: get_u32_def)

lemma get_u16_enc [codec_simps]:
  "wfb b \<Longrightarrow> unread b = enc16 (m_endn b) w @ r \<Longrightarrow> get_u16 b = Inr (w, advance 2 b)"
  by (cases "m_endn b") (simp_all add: get_u16_unread)

lemma get_u32_enc [codec_simps]:
  "wfb b \<Longrightarrow> unread b = enc32 (m_endn b) w @ r \<Longrightarrow> get_u32 b = Inr (w, advance 4 b)"
  by (cases "m_endn b") (simp_all add: get_u32_unread)

text \<open>Reading a string whose length fits into what is left.\<close>

lemma Unpack_unread [codec_simps]:
  assumes "wfb b" and "unat n \<le> length (unread b)"
  shows "Unpack s n b = Inr (s @ string_of_bytes (take (unat n) (unread b)), advance n b)"
proof (cases "unread b = []")
  case True
  then have "n = 0"
    using assms by (simp add: unat_eq_0)
  then show ?thesis
    using True assms by (simp add: Unpack_def unread_def string_of_bytes_def)
next
  case False
  then have "\<not> length (m_data b) \<le> unat (m_out_pos b)"
    by (simp add: unread_def)
  moreover have "unat (m_out_pos b) + unat n \<le> length (m_data b)"
    using assms False by (simp add: unread_def)
  ultimately show ?thesis
    using unat_pos_add [of b n] assms by (simp add: Unpack_def unread_def)
qed

lemma Unpack_bytes_unread [codec_simps]:
  assumes "wfb b" and "unat n \<le> length (unread b)"
  shows "Unpack_bytes n b = Inr (take (unat n) (unread b), advance n b)"
proof -
  have "unat (m_out_pos b) + unat n \<le> length (m_data b)"
    using assms by (auto simp: unread_def wfb_def)
  then show ?thesis
    using unat_pos_add [of b n] assms by (simp add: Unpack_bytes_def unread_def)
qed

text \<open>The clamped case: fewer bytes left than asked for.\<close>

lemma Unpack_short:
  assumes "wfb b" and "length (unread b) \<le> unat n" and "unat n < 2 ^ 31"
  shows "Unpack s n b =
    Inr (s @ string_of_bytes (unread b), advance (word_of_nat (length (unread b))) b)"
proof (cases "unread b = []")
  case True
  then show ?thesis
    using assms by (simp add: Unpack_def unread_def string_of_bytes_def)
next
  case False
  let ?p = "unat (m_out_pos b)" and ?l = "length (m_data b)"
  have pl: "?p < ?l" and l: "?l < 2 ^ 31"
    using False assms(1) by (auto simp: unread_def wfb_def)
  have w: "(word_of_nat (?l - ?p) :: u32) = word_of_nat ?l - m_out_pos b"
    using pl by (simp add: of_nat_diff)
  have u: "unat (word_of_nat ?l - m_out_pos b) = ?l - ?p"
    using l unat_of_nat_u32 [of "?l - ?p"] by (simp add: w [symmetric] del: of_nat_diff)
  have s: "unat (m_out_pos b + n) = ?p + unat n"
    using pl l assms(3) by (intro unat_plus_u32) simp
  have len: "length (unread b) = ?l - ?p"
    by (simp add: unread_def)
  show ?thesis
  proof (cases "?p + unat n = ?l")
    case True
    then have "n = word_of_nat ?l - m_out_pos b"
      using u by (simp add: word_unat_eq_iff)
    then show ?thesis
      using True pl u s len by (simp add: Unpack_def unread_def Let_def)
  next
    case False
    then have "?l < unat (m_out_pos b + n)"
      using assms(2) len pl s by simp
    then show ?thesis
      using pl u w by (simp add: Unpack_def unread_def Let_def)
  qed
qed

section \<open>Readers never leave the data\<close>

text \<open>
  \<open>bounded k r\<close>: from any state whose position is at least \<open>k\<close> away from the end of the 32-bit
  range, even one behind the end of the data, the reader \<open>r\<close> either throws a parse exception or
  returns, leaves the data alone and moves the position forward by at most \<open>k\<close>. In
  particular it never accesses the vector out of range.
\<close>

definition step_within :: "nat \<Rightarrow> buffer \<Rightarrow> buffer \<Rightarrow> bool" where
  "step_within k b b' \<longleftrightarrow>
     m_data b' = m_data b \<and> unat (m_out_pos b) \<le> unat (m_out_pos b') \<and>
     unat (m_out_pos b') \<le> unat (m_out_pos b) + k"

definition bounded :: "nat \<Rightarrow> (buffer \<Rightarrow> ('a \<times> buffer) result) \<Rightarrow> bool" where
  "bounded k r \<longleftrightarrow>
     (\<forall>b. unat (m_out_pos b) + k < 2 ^ 32 \<longrightarrow> length (m_data b) < 2 ^ 32 \<longrightarrow>
       (case r b of
          Inl e \<Rightarrow> (\<exists>msg. e = ParseException msg)
        | Inr (x, b') \<Rightarrow> step_within k b b'))"

lemma boundedI:
  assumes "\<And>b. unat (m_out_pos b) + k < 2 ^ 32 \<Longrightarrow> length (m_data b) < 2 ^ 32 \<Longrightarrow>
    (\<exists>x b'. r b = Inr (x, b') \<and> step_within k b b') \<or> (\<exists>msg. r b = Inl (ParseException msg))"
  shows "bounded k r"
  unfolding bounded_def using assms by (fastforce split: sum.split)

lemma boundedD:
  assumes "bounded k r" and "unat (m_out_pos b) + k < 2 ^ 32" and "length (m_data b) < 2 ^ 32"
  shows "(\<exists>x b'. r b = Inr (x, b') \<and> step_within k b b') \<or> (\<exists>msg. r b = Inl (ParseException msg))"
proof (cases "r b")
  case (Inl e)
  then show ?thesis using assms by (auto simp: bounded_def split: sum.splits)
next
  case (Inr xb)
  then show ?thesis using assms by (cases xb) (auto simp: bounded_def split: sum.splits)
qed

lemma step_within_mono: "step_within k b b' \<Longrightarrow> k \<le> k' \<Longrightarrow> step_within k' b b'"
  by (auto simp: step_within_def)

lemma bounded_mono:
  assumes "bounded k r" and "k \<le> k'"
  shows "bounded k' r"
proof (rule boundedI)
  fix b :: buffer assume "unat (m_out_pos b) + k' < 2 ^ 32" "length (m_data b) < 2 ^ 32"
  with boundedD [OF assms(1), of b] assms(2)
  show "(\<exists>x b'. r b = Inr (x, b') \<and> step_within k' b b') \<or> (\<exists>msg. r b = Inl (ParseException msg))"
    by (auto intro: step_within_mono)
qed

lemma step_within_trans: "step_within k b b' \<Longrightarrow> step_within j b' b'' \<Longrightarrow> step_within (k + j) b b''"
  by (auto simp: step_within_def)

lemma bounded_return [intro!]: "bounded k (\<lambda>b. Inr (x, b))"
  by (rule boundedI) (simp add: step_within_def)

lemma bounded_throw [intro!]: "bounded k (\<lambda>b. Inl (ParseException m))"
  by (rule boundedI) simp

lemma bounded_bind:
  assumes "bounded k r" and "\<And>x. bounded j (f x)"
  shows "bounded (k + j) (\<lambda>b. andThen (r b) (\<lambda>(x, b). f x b))"
proof (rule boundedI)
  fix b :: buffer assume b: "unat (m_out_pos b) + (k + j) < 2 ^ 32" "length (m_data b) < 2 ^ 32"
  show "(\<exists>y b'. andThen (r b) (\<lambda>(x, b). f x b) = Inr (y, b') \<and> step_within (k + j) b b') \<or>
    (\<exists>msg. andThen (r b) (\<lambda>(x, b). f x b) = Inl (ParseException msg))"
  proof (cases "r b")
    case (Inl e)
    with boundedD [OF assms(1), of b] b show ?thesis by auto
  next
    case (Inr xb)
    obtain x b' where xb: "xb = (x, b')" by (cases xb)
    with boundedD [OF assms(1), of b] b Inr have s: "step_within k b b'" by auto
    then have "unat (m_out_pos b') + j < 2 ^ 32" "length (m_data b') < 2 ^ 32"
      using b by (auto simp: step_within_def)
    from boundedD [OF assms(2) this, of x] show ?thesis
      using Inr xb step_within_trans [OF s] by auto
  qed
qed

lemma bounded_advance: "bounded (unat n + k) (\<lambda>b. r (advance n b))" if "bounded k r"
proof (rule boundedI)
  fix b :: buffer assume b: "unat (m_out_pos b) + (unat n + k) < 2 ^ 32" "length (m_data b) < 2 ^ 32"
  have s: "step_within (unat n) b (advance n b)"
    using b unat_plus_u32 [of "m_out_pos b" n] by (simp add: step_within_def)
  moreover have "unat (m_out_pos (advance n b)) + k < 2 ^ 32"
    using b s by (auto simp: step_within_def)
  ultimately show "(\<exists>y b'. r (advance n b) = Inr (y, b') \<and> step_within (unat n + k) b b') \<or>
    (\<exists>msg. r (advance n b) = Inl (ParseException msg))"
    using boundedD [OF that, of "advance n b"] b step_within_trans [OF s] by auto
qed

lemma bounded_skip: "bounded k r \<Longrightarrow> unat n = j \<Longrightarrow> bounded (j + k) (\<lambda>b. r (advance n b))"
  using bounded_advance [of k r n] by simp

lemma bounded_endian: "bounded k (\<lambda>b. r (b\<lparr>m_endn := e\<rparr>))" if "bounded k r"
proof (rule boundedI)
  fix b :: buffer assume "unat (m_out_pos b) + k < 2 ^ 32" "length (m_data b) < 2 ^ 32"
  then show "(\<exists>y b'. r (b\<lparr>m_endn := e\<rparr>) = Inr (y, b') \<and> step_within k b b') \<or>
    (\<exists>msg. r (b\<lparr>m_endn := e\<rparr>) = Inl (ParseException msg))"
    using boundedD [OF that, of "b\<lparr>m_endn := e\<rparr>"] by (auto simp: step_within_def)
qed

lemma bounded_if: "bounded k r \<Longrightarrow> bounded k s \<Longrightarrow> bounded k (\<lambda>b. if c then r b else s b)"
  by (cases c) simp_all

lemma step_advance: "unat (m_out_pos b) + k < 2 ^ 32 \<Longrightarrow> unat n \<le> k \<Longrightarrow> step_within k b (advance n b)"
  using unat_plus_u32 [of "m_out_pos b" n] by (simp add: step_within_def)

lemma byte_at_within:
  assumes "unat (m_out_pos b) + unat k < 2 ^ 32" and "\<not> length (m_data b) < unat (m_out_pos b + k)"
    and "unat n < unat k"
  shows "\<exists>x. byte_at b (m_out_pos b + n) = Inr x"
  using assms unat_plus_u32 [of "m_out_pos b" k] unat_plus_u32 [of "m_out_pos b" n]
  by (simp add: byte_at_def)

lemma bounded_get_u8 [intro!]: "bounded 1 get_u8"
proof (rule boundedI)
  fix b :: buffer assume b: "unat (m_out_pos b) + 1 < 2 ^ 32" "length (m_data b) < 2 ^ 32"
  then show "(\<exists>x b'. get_u8 b = Inr (x, b') \<and> step_within 1 b b') \<or>
    (\<exists>msg. get_u8 b = Inl (ParseException msg))"
    using byte_at_within [of b 1 0] step_advance [of b 1 1]
    by (auto simp: get_u8_def step_within_def)
qed

lemma bounded_get_u16 [intro!]: "bounded 2 get_u16"
proof (rule boundedI)
  fix b :: buffer assume b: "unat (m_out_pos b) + 2 < 2 ^ 32" "length (m_data b) < 2 ^ 32"
  then show "(\<exists>x b'. get_u16 b = Inr (x, b') \<and> step_within 2 b b') \<or>
    (\<exists>msg. get_u16 b = Inl (ParseException msg))"
    using byte_at_within [of b 2 0] byte_at_within [of b 2 1] step_advance [of b 2 2]
    by (auto simp: get_u16_def)
qed

lemma bounded_get_u32 [intro!]: "bounded 4 get_u32"
proof (rule boundedI)
  fix b :: buffer assume b: "unat (m_out_pos b) + 4 < 2 ^ 32" "length (m_data b) < 2 ^ 32"
  then show "(\<exists>x b'. get_u32 b = Inr (x, b') \<and> step_within 4 b b') \<or>
    (\<exists>msg. get_u32 b = Inl (ParseException msg))"
    using byte_at_within [of b 4 0] byte_at_within [of b 4 1] byte_at_within [of b 4 2]
      byte_at_within [of b 4 3] step_advance [of b 4 4]
    by (auto simp: get_u32_def)
qed

lemma bounded_Unpack: "unat n \<le> k \<Longrightarrow> bounded k (Unpack s n)"
proof (rule boundedI)
  fix b :: buffer assume n: "unat n \<le> k"
    and b: "unat (m_out_pos b) + k < 2 ^ 32" "length (m_data b) < 2 ^ 32"
  let ?p = "unat (m_out_pos b)" and ?l = "length (m_data b)"
  show "(\<exists>x b'. Unpack s n b = Inr (x, b') \<and> step_within k b b') \<or>
    (\<exists>msg. Unpack s n b = Inl (ParseException msg))"
  proof (cases "?p \<ge> ?l")
    case True
    then show ?thesis by (simp add: Unpack_def step_within_def)
  next
    case False
    have s: "unat (m_out_pos b + n) = ?p + unat n"
      using b n by (intro unat_plus_u32) simp
    have w: "unat (word_of_nat ?l - m_out_pos b) = ?l - ?p"
      using False b(2) unat_of_nat_u32 [of ?l] by (simp add: unat_sub word_le_nat_alt)
    show ?thesis
      using False s w n b(1) step_advance [of b k n]
        step_advance [of b k "word_of_nat ?l - m_out_pos b"]
      by (auto simp: Unpack_def Let_def)
  qed
qed

lemma bounded_get_string [intro!]: "bounded (2 + 65535) (get_string s)"
proof -
  have 1: "bounded (2 + 65535) (\<lambda>b. andThen (get_u16 b) (\<lambda>(sz, b). Unpack s (ucast sz) b))"
    by (rule bounded_bind) (auto intro: bounded_Unpack simp: unat_u16_le)
  show ?thesis
  proof (rule boundedI)
    fix b :: buffer assume b: "unat (m_out_pos b) + (2 + 65535) < 2 ^ 32" "length (m_data b) < 2 ^ 32"
    then show "(\<exists>x b'. get_string s b = Inr (x, b') \<and> step_within (2 + 65535) b b') \<or>
      (\<exists>msg. get_string s b = Inl (ParseException msg))"
      using boundedD [OF 1 b] step_advance [of b "2 + 65535" 2]
      by (auto simp: get_string_def)
  qed
qed

section \<open>Encoder and decoder pairs\<close>

text \<open>
  The interface every wire format of the library has: an output routine that appends to a
  buffer, and an input routine. \<open>enc\<close> is the byte sequence of a value, \<open>ok\<close> the values the
  format can carry.
\<close>

definition at :: "buffer \<Rightarrow> endian \<Rightarrow> u8 list \<Rightarrow> bool" where
  "at b e r \<longleftrightarrow> wfb b \<and> m_endn b = e \<and> unread b = r"

definition yields :: "'v \<Rightarrow> endian \<Rightarrow> u8 list \<Rightarrow> ('v \<times> buffer) result \<Rightarrow> bool" where
  "yields v e r res \<longleftrightarrow> (\<exists>b. res = Inr (v, b) \<and> at b e r)"

lemma yields_return [intro]: "at b e r \<Longrightarrow> yields v e r (Inr (v, b))"
  by (simp add: yields_def)

lemma yieldsE:
  assumes "yields v e r res"
  obtains b where "res = Inr (v, b)" and "at b e r"
  using assms by (auto simp: yields_def)

lemma yields_bind:
  "yields x e r m \<Longrightarrow> (\<And>b. at b e r \<Longrightarrow> yields v e' r' (f (x, b))) \<Longrightarrow> yields v e' r' (andThen m f)"
  by (auto simp: yields_def)

lemma at_advance: "at b e (xs @ r) \<Longrightarrow> unat n = length xs \<Longrightarrow> at (advance n b) e r"
  by (auto simp: at_def codec_simps)

lemma at_endian: "at b e r \<Longrightarrow> at (b\<lparr>m_endn := e'\<rparr>) e' r"
  by (simp add: at_def wfb_def unread_def)

fun inp_n :: "(buffer \<Rightarrow> ('a \<times> buffer) result) \<Rightarrow> nat \<Rightarrow> buffer \<Rightarrow> ('a list \<times> buffer) result" where
  "inp_n inp 0 b = Inr ([], b)"
| "inp_n inp (Suc n) b =
     andThen (inp b) (\<lambda>(x, b). andThen (inp_n inp n b) (\<lambda>(xs, b). Inr (x # xs, b)))"

locale codec =
  fixes out :: "'a \<Rightarrow> buffer \<Rightarrow> buffer"
    and inp :: "buffer \<Rightarrow> ('a \<times> buffer) result"
    and enc :: "endian \<Rightarrow> 'a \<Rightarrow> u8 list"
    and ok :: "'a \<Rightarrow> bool"
  assumes out_enc: "ok x \<Longrightarrow> out x b = emit (enc (m_endn b) x) b"
    and inp_enc: "ok x \<Longrightarrow> wfb b \<Longrightarrow> unread b = enc (m_endn b) x @ r \<Longrightarrow>
      inp b = Inr (x, advance (word_of_nat (length (enc (m_endn b) x))) b)"
begin

lemma length_enc_unat:
  assumes "wfb b" and "unread b = enc e x @ r"
  shows "unat (word_of_nat (length (enc e x)) :: u32) = length (enc e x)"
proof (rule unat_of_nat_u32)
  have "length (enc e x) \<le> length (unread b)"
    using assms(2) by simp
  also have "\<dots> \<le> length (m_data b)"
    by (simp add: unread_def)
  also have "\<dots> < 2 ^ 32"
    using assms(1) by (simp add: wfb_def)
  finally show "length (enc e x) < 2 ^ 32" .
qed

lemma inp_rest:
  assumes "ok x" and "wfb b" and "unread b = enc (m_endn b) x @ r"
  shows "\<exists>b'. inp b = Inr (x, b') \<and> wfb b' \<and> unread b' = r \<and> m_endn b' = m_endn b \<and>
    m_data b' = m_data b"
  using inp_enc [OF assms] length_enc_unat [OF assms(2,3)] assms(2,3)
  by (auto simp: codec_simps)

lemma inp_yields: "ok x \<Longrightarrow> at b e (enc e x @ r) \<Longrightarrow> yields x e r (inp b)"
  using inp_rest [of x b r] by (auto simp: at_def yields_def)

lemma inp_bind:
  "ok x \<Longrightarrow> at b e (enc e x @ r) \<Longrightarrow> (\<And>b. at b e r \<Longrightarrow> yields v e' r' (f x b)) \<Longrightarrow>
   yields v e' r' (andThen (inp b) (case_prod f))"
  using inp_yields [of x b e r] by (auto simp: yields_def)

lemma out_fold:
  "\<forall>x\<in>set xs. ok x \<Longrightarrow> fold out xs b = emit (concat (map (enc (m_endn b)) xs)) b"
  by (induction xs arbitrary: b) (auto simp: out_enc)

lemma inp_n_rest:
  "\<forall>x\<in>set xs. ok x \<Longrightarrow> wfb b \<Longrightarrow> unread b = concat (map (enc (m_endn b)) xs) @ r \<Longrightarrow>
   \<exists>b'. inp_n inp (length xs) b = Inr (xs, b') \<and> wfb b' \<and> unread b' = r \<and> m_endn b' = m_endn b"
proof (induction xs arbitrary: b)
  case Nil
  then show ?case by simp
next
  case (Cons x xs)
  then obtain b' where b': "inp b = Inr (x, b')" "wfb b'"
      "unread b' = concat (map (enc (m_endn b')) xs) @ r" "m_endn b' = m_endn b"
    using inp_rest [of x b "concat (map (enc (m_endn b)) xs) @ r"] by auto
  then show ?case
    using Cons.IH [of b'] Cons.prems by auto
qed

text \<open>Writing values to the end of a buffer and reading them back from there.\<close>

lemma write_read:
  assumes "\<forall>x\<in>set xs. ok x" and "length (m_data (fold out xs b)) < 2 ^ 31"
  shows "\<exists>b'. inp_n inp (length xs) (setPos (buf_size b) (fold out xs b)) = Inr (xs, b') \<and>
    unread b' = []"
proof -
  let ?c = "setPos (buf_size b) (fold out xs b)"
  have f: "fold out xs b = emit (concat (map (enc (m_endn b)) xs)) b"
    using assms(1) by (rule out_fold)
  have u: "unat (buf_size b) = length (m_data b)"
    using assms(2) by (simp add: f buf_size_def unat_of_nat_u32)
  have "wfb ?c" and "unread ?c = concat (map (enc (m_endn ?c)) xs) @ []"
    using assms(2) by (simp_all add: f u wfb_def unread_def setPos_def)
  then show ?thesis
    using inp_n_rest [OF assms(1), of ?c "[]"] by auto
qed

end

lemma drop_enc16 [simp]: "drop 2 (enc16 e w @ r) = r"
  by simp

lemma drop_enc32 [simp]: "drop 4 (enc32 e w @ r) = r"
  by simp

interpretation u8_codec: codec put_u8 get_u8 "\<lambda>_ x. [x]" "\<lambda>_. True"
  by unfold_locales (auto simp: codec_simps)

interpretation u16_codec: codec put_u16 get_u16 enc16 "\<lambda>_. True"
  by unfold_locales (auto simp: codec_simps)

interpretation u32_codec: codec put_u32 get_u32 enc32 "\<lambda>_. True"
  by unfold_locales (auto simp: codec_simps)

text \<open>A counted string: 16-bit length, then the bytes.\<close>

definition enc_string :: "endian \<Rightarrow> string \<Rightarrow> u8 list" where
  "enc_string e s = enc16 e (word_of_nat (length s)) @ bytes_of_string s"

definition enc_stringnull :: "endian \<Rightarrow> string \<Rightarrow> u8 list" where
  "enc_stringnull e s = enc16 e (word_of_nat (length s + 1)) @ bytes_of_string s @ [0]"

lemma length_enc_string [simp]: "length (enc_string e s) = length s + 2"
  by (simp add: enc_string_def)

lemma length_enc_stringnull [simp]: "length (enc_stringnull e s) = length s + 3"
  by (simp add: enc_stringnull_def)

lemma unat_of_nat_u16: "n < 65536 \<Longrightarrow> unat (word_of_nat n :: u16) = n"
  by (simp add: unat_of_nat)

lemma ucast_of_nat_16_32: "n < 65536 \<Longrightarrow> (ucast (word_of_nat n :: u16) :: u32) = word_of_nat n"
  by (simp add: word_unat_eq_iff unat_of_nat)

lemma get_string_enc:
  assumes "length s < 65536" and "wfb b" and "unread b = enc_string (m_endn b) s @ r"
  shows "get_string t b = Inr (t @ s, advance (word_of_nat (length s + 2)) b)"
proof -
  have g: "get_u16 b = Inr (word_of_nat (length s), advance 2 b)"
    using assms by (intro get_u16_enc) (auto simp: enc_string_def)
  have room: "\<not> length (m_data b) < unat (m_out_pos b + 2)"
    using assms by (intro wfb_room) auto
  have w: "wfb (advance 2 b)" and u: "unread (advance 2 b) = bytes_of_string s @ r"
    using assms by (auto simp: codec_simps enc_string_def)
  have "Unpack t (word_of_nat (length s)) (advance 2 b) =
      Inr (t @ s, advance (word_of_nat (length s)) (advance 2 b))"
    using Unpack_unread [OF w, of "word_of_nat (length s)" t] u assms(1)
    by (simp add: unat_of_nat_u32)
  then show ?thesis
    using assms(1) room g
    by (simp add: get_string_def ucast_of_nat_16_32 codec_simps add.commute)
qed

lemma UnpackUint16StringNull_enc:
  assumes "length s < 65535" and "wfb b" and "unread b = enc_stringnull (m_endn b) s @ r"
  shows "UnpackUint16StringNull t b = Inr (t @ s, advance (word_of_nat (length s + 3)) b)"
proof -
  have g: "get_u16 b = Inr (word_of_nat (length s + 1), advance 2 b)"
    using assms by (intro get_u16_enc) (auto simp: enc_stringnull_def)
  have w: "wfb (advance 2 b)" and u: "unread (advance 2 b) = bytes_of_string s @ 0 # r"
    using assms by (auto simp: codec_simps enc_stringnull_def)
  have p: "(word_of_nat (length s + 1) :: u16) > 0"
    using assms(1) by (simp add: word_less_nat_alt unat_of_nat_u16 del: of_nat_add of_nat_Suc)
  have "(ucast (word_of_nat (length s + 1) :: u16) :: u32) - 1 = word_of_nat (length s)"
    using assms(1) by (subst ucast_of_nat_16_32) simp_all
  then have c: "(ucast (1 + word_of_nat (length s) :: u16) :: u32) - 1 = word_of_nat (length s)"
    by simp
  have "Unpack t (word_of_nat (length s)) (advance 2 b) =
      Inr (t @ s, advance (word_of_nat (length s)) (advance 2 b))"
    using Unpack_unread [OF w, of "word_of_nat (length s)" t] u assms(1)
    by (simp add: unat_of_nat_u32)
  then show ?thesis
    using g p unfolding UnpackUint16StringNull_def
    by (simp add: c codec_simps algebra_simps)
qed

interpretation string_codec:
  codec put_string "get_string []" enc_string "\<lambda>s. length s < 65536"
  by unfold_locales (auto simp: codec_simps enc_string_def [symmetric] get_string_enc)

interpretation stringnull_codec:
  codec PackUint16StringNull "UnpackUint16StringNull []" enc_stringnull "\<lambda>s. length s < 65535"
  by unfold_locales (auto simp: PackUint16StringNull_emit enc_stringnull_def UnpackUint16StringNull_enc)

lemma bounded_UnpackUint16StringNull [intro!]: "bounded 65538 (UnpackUint16StringNull s)"
proof -
  have len: "unat (ucast sh - 1 :: u32) \<le> 65535" if "sh > 0" for sh :: u16
  proof -
    have "(ucast sh :: u32) \<noteq> 0"
      using that by (metis unat_eq_0 unat_ucast_16_32 word_gt_0)
    then show ?thesis
      using unat_u16_le [of sh] by (simp add: unat_minus_one)
  qed
  have b1: "bounded (1 + 0) (\<lambda>b. Inr (t, advance 1 b))" for t :: string
    using bounded_advance [of 0 "\<lambda>b. Inr (t, b)" 1] by (simp add: bounded_return)
  have b2: "bounded (65535 + 1) (\<lambda>b. andThen (Unpack s (ucast sh - 1) b) (\<lambda>(s, b). Inr (s, advance 1 b)))"
    if "sh > 0" for sh :: u16
    using len [OF that] b1 by (intro bounded_bind) (auto intro: bounded_Unpack)
  have b3: "bounded 65536 (\<lambda>b. if sh > 0
      then andThen (Unpack s (ucast sh - 1) b) (\<lambda>(s, b). Inr (s, advance 1 b)) else Inr (s, b))"
    for sh :: u16
    using b2 [of sh] by (cases "sh > 0") auto
  have "bounded (2 + 65536) (\<lambda>b. andThen (get_u16 b) (\<lambda>(sh, b).
      if sh > 0 then andThen (Unpack s (ucast sh - 1) b) (\<lambda>(s, b). Inr (s, advance 1 b)) else Inr (s, b)))"
    by (rule bounded_bind) (auto intro: b3)
  then show ?thesis
    by (simp add: UnpackUint16StringNull_def [abs_def])
qed

lemma bounded_UnpackByteString: "bounded 256 (UnpackByteString s)"
proof -
  have "bounded (1 + 255) (\<lambda>b. andThen (get_u8 b) (\<lambda>(c, b). Unpack s (ucast c) b))"
    by (intro bounded_bind bounded_get_u8 bounded_Unpack) (simp add: unat_u8_le)
  then show ?thesis
    by (simp add: UnpackByteString_def [abs_def])
qed

lemma Unpack_out_of_range_iff:
  assumes "wfb b"
  shows "Unpack s n b = Inl OutOfRange \<longleftrightarrow> unread b \<noteq> [] \<and> 2 ^ 32 \<le> unat (m_out_pos b) + unat n"
proof (cases "2 ^ 32 \<le> unat (m_out_pos b) + unat n")
  case False
  then have "bounded (unat n) (Unpack s n)" "unat (m_out_pos b) + unat n < 2 ^ 32"
    by (simp_all add: bounded_Unpack)
  from boundedD [OF this] show ?thesis
    using assms False by (auto simp: wfb_def)
next
  case True
  have n: "unat n < 2 ^ LENGTH(32)" and p: "unat (m_out_pos b) < 2 ^ LENGTH(32)"
    by (rule unsigned_less)+
  have "unat (m_out_pos b + n) = (unat (m_out_pos b) + unat n) mod 2 ^ 32"
    by (simp add: unat_word_ariths)
  also have "\<dots> = unat (m_out_pos b) + unat n - 2 ^ 32"
    using True n p by (subst mod_if) simp
  finally have s: "unat (m_out_pos b + n) = unat (m_out_pos b) + unat n - 2 ^ 32" .
  show ?thesis
    using True assms s n by (auto simp: Unpack_def unread_def wfb_def Let_def)
qed

lemma octet_of_nat: "i + 8 \<le> 16 \<Longrightarrow> octet i (word_of_nat n :: u32) = octet i (word_of_nat n :: u16)"
  by (rule bit_word_eqI) (auto simp: bit_octet bit_simps)

lemma no_throw_get_u8: "get_u8 b \<noteq> Inl (ParseException m)"
  by (simp add: get_u8_def byte_at_def)

lemma no_throw_get_u16: "get_u16 b \<noteq> Inl (ParseException m)"
  by (simp add: get_u16_def byte_at_def)

lemma no_throw_Unpack: "Unpack s n b \<noteq> Inl (ParseException m)"
  by (simp add: Unpack_def Let_def)

lemmas no_throw = no_throw_get_u8 no_throw_get_u16 no_throw_Unpack

lemma no_throw_strings:
  "get_string s b \<noteq> Inl (ParseException m)"
  "UnpackUint16StringNull s b \<noteq> Inl (ParseException m)"
  "UnpackByteString s b \<noteq> Inl (ParseException m)"
  using no_throw
  by (auto simp: get_string_def UnpackUint16StringNull_def UnpackByteString_def andThen_def
      split: sum.splits prod.splits if_splits)

text \<open>A sequence of counted strings written by PackUint16StringNull in any byte order is read
  back unchanged, with nothing left over.\<close>

theorem string_sequence_roundtrip:
  assumes "\<forall>s\<in>set ss. length s < 65535"
    and "length (m_data (fold PackUint16StringNull ss b)) < 2 ^ 31"
  shows "\<exists>b'. inp_n (UnpackUint16StringNull []) (length ss)
      (setPos (buf_size b) (fold PackUint16StringNull ss b)) = Inr (ss, b') \<and> unread b' = []"
  using assms by (rule stringnull_codec.write_read)

theorem string_sequence_roundtrip_witness:
  "\<exists>b'. inp_n (UnpackUint16StringNull []) (Suc (Suc 0))
      (setPos 0 (fold PackUint16StringNull [''hi'', []] (setLittleEndian new_buffer))) =
    Inr ([''hi'', []], b') \<and> unread b' = []"
  using string_sequence_roundtrip [of "[''hi'', []]" "setLittleEndian new_buffer"]
  by (simp add: new_buffer_def setLittleEndian_def codec_simps buf_size_def)

text \<open>Every string read whose length field has at most 16 bits stays inside the data, from any
  position (even one past the end of the data) that is not within 65538 bytes of the 32-bit
  limit: it returns normally, with the data unchanged and the position moved forward by at most
  65538.\<close>

theorem short_reads_in_range:
  assumes "unat (m_out_pos b) + 65538 < 2 ^ 32" and "length (m_data b) < 2 ^ 32"
    and "r \<in> {get_string s, UnpackUint16StringNull s, Unpack s (ucast (n :: u16)), UnpackByteString s}"
  shows "\<exists>t b'. r b = Inr (t, b') \<and> step_within 65538 b b'"
proof -
  have "bounded 65538 (Unpack s (ucast n))"
    using unat_u16_le [of n] by (intro bounded_Unpack) simp
  moreover have "bounded 65538 (UnpackByteString s)"
    by (rule bounded_mono [OF bounded_UnpackByteString]) simp
  moreover have "bounded 65538 (get_string s)"
    by (rule bounded_mono [OF bounded_get_string]) simp
  ultimately have "bounded 65538 r"
    using assms(3) by auto
  moreover have "r b \<noteq> Inl (ParseException m)" for m
    using assms(3) no_throw no_throw_strings by auto
  ultimately show ?thesis
    using boundedD [OF _ assms(1,2), of r] by blast
qed

theorem short_reads_in_range_witness:
  "\<exists>t b'. get_string [] (buffer_of_bytes [0, 9, 65]) = Inr (t, b') \<and>
    step_within 65538 (buffer_of_bytes [0, 9, 65]) b'"
  using short_reads_in_range [of "buffer_of_bytes [0, 9, 65]" "get_string []" "[]" 0]
  by (simp add: buffer_of_bytes_def)

text \<open>A string read with a 32-bit length field leaves the data (undefined behaviour) exactly
  when the length, added to the position behind the field, passes the 32-bit range while data is
  left to read; every other length is clamped to the data.\<close>

theorem uint32_string_out_of_range_iff:
  assumes "at b e (enc32 e l @ r)"
  shows "UnpackUint32String s b = Inl OutOfRange \<longleftrightarrow>
    r \<noteq> [] \<and> 2 ^ 32 \<le> unat (m_out_pos b) + 4 + unat l"
proof -
  have g: "get_u32 b = Inr (l, advance 4 b)" and a: "at (advance 4 b) e r"
    using assms at_advance [of b e "enc32 e l" r 4] by (auto simp: at_def get_u32_enc)
  have "unat (m_out_pos b + 4) = unat (m_out_pos b) + 4"
    using assms unat_pos_add [of b 4] by (auto simp: at_def)
  then show ?thesis
    using Unpack_out_of_range_iff [of "advance 4 b" s l] a
    by (simp add: UnpackUint32String_def g at_def)
qed

theorem uint32_string_out_of_range_iff_witness:
  "UnpackUint32String [] (buffer_of_bytes [255, 255, 255, 255, 65]) = Inl OutOfRange"
  using uint32_string_out_of_range_iff [of "buffer_of_bytes [255, 255, 255, 255, 65]" BIG
      "0xFFFFFFFF" "[65]" "[]"]
  by (simp add: buffer_of_bytes_def at_def wfb_def unread_def octet_def)

text \<open>A length field reserved with getAutoSizeShortMarker and filled in by setAutoSizeMarker
  after a payload was appended holds the payload's length in the byte order in force when it was
  reserved; nothing else in the buffer changes and no store leaves the vector.\<close>

theorem autosize_short_marker:
  assumes "getAutoSizeShortMarker b = (m, b1)"
    and "m_data b2 = m_data b1 @ p" and "length (m_data b2) < 2 ^ 32"
  shows "setAutoSizeMarker m b2 =
    Inr (b2\<lparr>m_data := m_data b @ enc16 (m_endn b) (word_of_nat (length p)) @ p\<rparr>)"
proof -
  let ?n = "length (m_data b)"
  have b1: "b1 = emit (enc16 (m_endn b) 0) b"
    and m: "m = \<lparr>mk_position = buf_size b1, mk_endianness = m_endn b, mk_size = 2\<rparr>"
    using assms(1) by (auto simp: getAutoSizeShortMarker_def put_u16_emit Let_def)
  have l: "?n + 2 + length p < 2 ^ 32"
    using assms(2,3) by (simp add: b1)
  have pos: "mk_position m = word_of_nat (?n + 2)"
    by (simp add: m buf_size_def b1)
  have "mk_position m - 2 = word_of_nat ?n" and "mk_position m - 1 = word_of_nat (?n + 1)"
    by (simp_all add: pos)
  then have i: "unat (mk_position m - 2) = ?n" "unat (mk_position m - 1) = Suc ?n"
    using l unat_of_nat_u32 [of ?n] unat_of_nat_u32 [of "?n + 1"] by simp_all
  have "buf_size b2 - mk_position m = word_of_nat (length p)"
    by (simp add: buf_size_def pos assms(2) b1)
  then have a: "octet i (buf_size b2 - mk_position m) = octet i (word_of_nat (length p) :: u16)"
    if "i + 8 \<le> 16" for i
    using that by (simp add: octet_of_nat)
  have d2: "m_data b2 = m_data b @ enc16 (m_endn b) 0 @ p"
    and e: "mk_endianness m = m_endn b" and s: "mk_size m = 2"
    by (simp_all add: assms(2) b1 m)
  show ?thesis
    by (cases "m_endn b")
      (simp_all add: setAutoSizeMarker_def store_byte_def i a Let_def d2 e s list_update_append)
qed

theorem autosize_short_marker_witness:
  "setAutoSizeMarker \<lparr>mk_position = 2, mk_endianness = BIG, mk_size = 2\<rparr>
     (buffer_of_bytes [0, 0, 7, 8, 9]) = Inr (buffer_of_bytes [0, 3, 7, 8, 9])"
  using autosize_short_marker [of new_buffer "\<lparr>mk_position = 2, mk_endianness = BIG, mk_size = 2\<rparr>"
      "buffer_of_bytes [0, 0]" "buffer_of_bytes [0, 0, 7, 8, 9]" "[7, 8, 9]"]
  by (simp add: new_buffer_def buffer_of_bytes_def getAutoSizeShortMarker_def put_u16_def
      push_back_def buf_size_def octet_def Let_def)

end
