(* ===== verification/Capabilities.thy ===== *)
theory Capabilities
  imports Buffer
begin

text \<open>
  The capability blocks a client advertises: \<^verbatim>\<open>src/Capabilities.h\<close> and
  \<^verbatim>\<open>src/Capabilities.cpp\<close>. A capability is a 16-byte identifier; the library keeps the set of
  known flags. The enumeration and the table are in the order of the code.
\<close>

datatype cap_flag =
    Cap_Chat
  | Cap_Voice
  | Cap_SendFile
  | Cap_ICQ
  | Cap_IMImage
  | Cap_BuddyIcon
  | Cap_SaveStocks
  | Cap_GetFile
  | Cap_ICQServerRelay
  | Cap_Games
  | Cap_Games2
  | Cap_SendBuddyList
  | Cap_ICQRTF
  | Cap_ICQUnknown
  | Cap_Empty
  | Cap_TrillianCrypt
  | Cap_APInfo
  | Cap_ICQUnknown2

text \<open>The members of the enumeration in increasing order, the iteration order of \<^verbatim>\<open>set<Flag>\<close>.\<close>

definition all_flags :: "cap_flag list" where
  "all_flags =
    [Cap_Chat,
     Cap_Voice,
     Cap_SendFile,
     Cap_ICQ,
     Cap_IMImage,
     Cap_BuddyIcon,
     Cap_SaveStocks,
     Cap_GetFile,
     Cap_ICQServerRelay,
     Cap_Games,
     Cap_Games2,
     Cap_SendBuddyList,
     Cap_ICQRTF,
     Cap_ICQUnknown,
     Cap_Empty,
     Cap_TrillianCrypt,
     Cap_APInfo,
     Cap_ICQUnknown2]"

definition sizeof_cap :: nat where
  "sizeof_cap = 16"

definition caps :: "(cap_flag \<times> u8 list) list" where
  "caps =
   [(Cap_Chat, [0x74, 0x8f, 0x24, 0x20, 0x62, 0x87, 0x11, 0xd1,
      0x82, 0x22, 0x44, 0x45, 0x53, 0x54, 0x00, 0x00]),
    (Cap_Voice, [0x09, 0x46, 0x13, 0x41, 0x4c, 0x7f, 0x11, 0xd1,
      0x82, 0x22, 0x44, 0x45, 0x53, 0x54, 0x00, 0x00]),
    (Cap_SendFile, [0x09, 0x46, 0x13, 0x43, 0x4c, 0x7f, 0x11, 0xd1,
      0x82, 0x22, 0x44, 0x45, 0x53, 0x54, 0x00, 0x00]),
    (Cap_ICQ, [0x09, 0x46, 0x13, 0x44, 0x4c, 0x7f, 0x11, 0xd1,
      0x82, 0x22, 0x44, 0x45, 0x53, 0x54, 0x00, 0x00]),
    (Cap_IMImage, [0x09, 0x46, 0x13, 0x45, 0x4c, 0x7f, 0x11, 0xd1,
      0x82, 0x22, 0x44, 0x45, 0x53, 0x54, 0x00, 0x00]),
    (Cap_BuddyIcon, [0x09, 0x46, 0x13, 0x46, 0x4c, 0x7f, 0x11, 0xd1,
      0x82, 0x22, 0x44, 0x45, 0x53, 0x54, 0x00, 0x00]),
    (Cap_SaveStocks, [0x09, 0x46, 0x13, 0x47, 0x4c, 0x7f, 0x11, 0xd1,
      0x82, 0x22, 0x44, 0x45, 0x53, 0x54, 0x00, 0x00]),
    (Cap_GetFile, [0x09, 0x46, 0x13, 0x48, 0x4c, 0x7f, 0x11, 0xd1,
      0x82, 0x22, 0x44, 0x45, 0x53, 0x54, 0x00, 0x00]),
    (Cap_ICQServerRelay, [0x09, 0x46, 0x13, 0x49, 0x4c, 0x7f, 0x11, 0xd1,
      0x82, 0x22, 0x44, 0x45, 0x53, 0x54, 0x00, 0x00]),
    (Cap_Games, [0x09, 0x46, 0x13, 0x4a, 0x4c, 0x7f, 0x11, 0xd1,
      0x82, 0x22, 0x44, 0x45, 0x53, 0x54, 0x00, 0x00]),
    (Cap_Games2, [0x09, 0x46, 0x13, 0x4a, 0x4c, 0x7f, 0x11, 0xd1,
      0x22, 0x82, 0x44, 0x45, 0x53, 0x54, 0x00, 0x00]),
    (Cap_SendBuddyList, [0x09, 0x46, 0x13, 0x4b, 0x4c, 0x7f, 0x11, 0xd1,
      0x82, 0x22, 0x44, 0x45, 0x53, 0x54, 0x00, 0x00]),
    (Cap_ICQUnknown2, [0x09, 0x46, 0x13, 0x4e, 0x4c, 0x7f, 0x11, 0xd1,
      0x82, 0x22, 0x44, 0x45, 0x53, 0x54, 0x00, 0x00]),
    (Cap_ICQRTF, [0x97, 0xb1, 0x27, 0x51, 0x24, 0x3c, 0x43, 0x34,
      0xad, 0x22, 0xd6, 0xab, 0xf7, 0x3f, 0x14, 0x92]),
    (Cap_ICQUnknown, [0x2e, 0x7a, 0x64, 0x75, 0xfa, 0xdf, 0x4d, 0xc8,
      0x88, 0x6f, 0xea, 0x35, 0x95, 0xfd, 0xb6, 0xdf]),
    (Cap_Empty, [0x00, 0x00, 0x00, 0x00, 0x00, 0x00, 0x00, 0x00,
      0x00, 0x00, 0x00, 0x00, 0x00, 0x00, 0x00, 0x00]),
    (Cap_TrillianCrypt, [0xf2, 0xe7, 0xc7, 0xf4, 0xfe, 0xad, 0x4d, 0xfb,
      0xb2, 0x35, 0x36, 0x79, 0x8b, 0xdf, 0x00, 0x00]),
    (Cap_APInfo, [0xaa, 0x4a, 0x32, 0xb5, 0xf8, 0x84, 0x48, 0xc6,
      0xa3, 0xd7, 0x8c, 0x50, 0x97, 0x19, 0xfd, 0x5b])]"

record capabilities =
  m_flags :: "cap_flag set"

definition caps_clear :: "capabilities \<Rightarrow> capabilities" where
  "caps_clear c = c\<lparr>m_flags := {}\<rparr>"

definition set_capability_flag :: "cap_flag \<Rightarrow> capabilities \<Rightarrow> capabilities" where
  "set_capability_flag f c = c\<lparr>m_flags := insert f (m_flags c)\<rparr>"

definition clear_capability_flag :: "cap_flag \<Rightarrow> capabilities \<Rightarrow> capabilities" where
  "clear_capability_flag f c = c\<lparr>m_flags := m_flags c - {f}\<rparr>"

definition has_capability_flag :: "cap_flag \<Rightarrow> capabilities \<Rightarrow> bool" where
  "has_capability_flag f c = (f \<in> m_flags c)"

definition new_capabilities :: capabilities where
  "new_capabilities = \<lparr>m_flags = {}\<rparr>"

definition default_icq2000_capabilities :: "capabilities \<Rightarrow> capabilities" where
  "default_icq2000_capabilities c =
     set_capability_flag Cap_ICQServerRelay (set_capability_flag Cap_ICQ (caps_clear c))"

definition default_icq2002_capabilities :: "capabilities \<Rightarrow> capabilities" where
  "default_icq2002_capabilities c =
     set_capability_flag Cap_ICQUnknown2 (set_capability_flag Cap_ICQRTF
       (set_capability_flag Cap_ICQServerRelay (set_capability_flag Cap_ICQ (caps_clear c))))"

definition get_accept_adv_msgs :: "capabilities \<Rightarrow> bool" where
  "get_accept_adv_msgs c = (has_capability_flag Cap_ICQ c \<and> has_capability_flag Cap_ICQServerRelay c)"

text \<open>The first block with the given data (the \<^verbatim>\<open>memcmp\<close> loop), the first with the given flag.\<close>

definition flag_of_data :: "u8 list \<Rightarrow> cap_flag option" where
  "flag_of_data d = map_option fst (find (\<lambda>(f, e). e = d) caps)"

definition data_of_flag :: "cap_flag \<Rightarrow> u8 list option" where
  "data_of_flag f = map_option snd (find (\<lambda>(g, e). g = f) caps)"

definition caps_get_length :: "capabilities \<Rightarrow> u16" where
  "caps_get_length c = word_of_nat (sizeof_cap * card (m_flags c))"

definition caps_output :: "capabilities \<Rightarrow> buffer \<Rightarrow> buffer" where
  "caps_output c b =
     fold (\<lambda>f b. case data_of_flag f of None \<Rightarrow> b | Some d \<Rightarrow> pack_bytes d b)
       (filter (\<lambda>f. f \<in> m_flags c) all_flags) b"

text \<open>
  The parse loop. \<open>cap\<close> is the content of the local array \<^verbatim>\<open>cap[16]\<close>, which keeps its old
  bytes where a short read does not fill it (and is not initialised at first).
\<close>

fun caps_parse_loop ::
  "nat \<Rightarrow> u8 list \<Rightarrow> capabilities \<Rightarrow> buffer \<Rightarrow> (capabilities \<times> buffer) result" where
  "caps_parse_loop 0 cap c b = Inr (c, b)"
| "caps_parse_loop (Suc i) cap c b =
     andThen (Unpack_bytes 16 b) (\<lambda>(d, b).
     let cap' = d @ drop (length d) cap;
         c' = (case flag_of_data cap' of None \<Rightarrow> c | Some f \<Rightarrow> set_capability_flag f c)
     in caps_parse_loop i cap' c' b)"

definition caps_parse ::
  "u8 list \<Rightarrow> capabilities \<Rightarrow> u16 \<Rightarrow> buffer \<Rightarrow> (capabilities \<times> buffer) result" where
  "caps_parse cap0 c len b =
     (let i = unat len div sizeof_cap
      in andThen (caps_parse_loop i cap0 c b) (\<lambda>(c, b).
         Inr (c, advance (ucast len - word_of_nat (i * sizeof_cap)) b)))"

section \<open>The table\<close>

lemma all_flags_complete: "f \<in> set all_flags"
  by (cases f) (simp_all add: all_flags_def)

lemma distinct_all_flags: "distinct all_flags"
  by (simp add: all_flags_def)

lemma finite_flags [simp]: "finite (A :: cap_flag set)"
  using all_flags_complete by (intro finite_subset [of A "set all_flags"]) auto

lemma caps_table:
  "list_all (\<lambda>f. case data_of_flag f of None \<Rightarrow> False
     | Some d \<Rightarrow> length d = 16 \<and> flag_of_data d = Some f) all_flags"
  by code_simp

lemma caps_data:
  obtains d where "data_of_flag f = Some d" and "length d = 16" and "flag_of_data d = Some f"
  using caps_table all_flags_complete [of f] by (auto simp: list_all_iff split: option.splits)

section \<open>Writing and reading\<close>

definition cap_data :: "cap_flag \<Rightarrow> u8 list" where
  "cap_data f = (case data_of_flag f of None \<Rightarrow> [] | Some d \<Rightarrow> d)"

lemma length_cap_data [simp]: "length (cap_data f) = 16"
  by (rule caps_data [of f]) (simp add: cap_data_def)

lemma flag_of_cap_data [simp]: "flag_of_data (cap_data f) = Some f"
  by (rule caps_data [of f]) (simp add: cap_data_def)

definition flag_list :: "capabilities \<Rightarrow> cap_flag list" where
  "flag_list c = filter (\<lambda>f. f \<in> m_flags c) all_flags"

lemma set_flag_list [simp]: "set (flag_list c) = m_flags c"
  using all_flags_complete by (auto simp: flag_list_def)

lemma length_flag_list: "length (flag_list c) = card (m_flags c)"
proof -
  have "distinct (flag_list c)"
    by (simp add: flag_list_def distinct_all_flags)
  from distinct_card [OF this] show ?thesis by simp
qed

lemma card_flags: "card (m_flags (c :: capabilities)) \<le> 18"
proof -
  have "length (flag_list c) \<le> length all_flags"
    by (simp add: flag_list_def)
  then show ?thesis
    by (simp add: length_flag_list) (simp add: all_flags_def)
qed

lemma unat_caps_get_length: "unat (caps_get_length c) = 16 * card (m_flags (c :: capabilities))"
  using card_flags [of c]
  by (simp add: caps_get_length_def sizeof_cap_def unat_of_nat_u16 del: of_nat_mult)

lemma caps_output_emit: "caps_output c b = emit (concat (map cap_data (flag_list c))) b"
proof -
  have "fold (\<lambda>f b. case data_of_flag f of None \<Rightarrow> b | Some d \<Rightarrow> pack_bytes d b) fs b =
      emit (concat (map cap_data fs)) b" for fs
    by (induction fs arbitrary: b)
      (auto simp: cap_data_def pack_bytes_emit split: option.split)
  then show ?thesis
    by (simp add: caps_output_def flag_list_def)
qed

lemma Unpack_bytes_clamp:
  assumes "wfb b" and "unat n < 2 ^ 31"
  shows "\<exists>k. unat k = min (unat n) (length (unread b)) \<and>
    Unpack_bytes n b = Inr (take (unat n) (unread b), advance k b)"
proof (cases "unat n \<le> length (unread b)")
  case True
  then show ?thesis
    using Unpack_bytes_unread [OF assms(1)] by auto
next
  case False
  let ?p = "unat (m_out_pos b)" and ?l = "length (m_data b)"
  have pl: "?p \<le> ?l" and l: "?l < 2 ^ 31"
    using assms(1) by (auto simp: wfb_def)
  have s: "unat (m_out_pos b + n) = ?p + unat n"
    using pl l assms(2) by (intro unat_plus_u32) simp
  have u: "unat (word_of_nat ?l - m_out_pos b) = ?l - ?p"
    using pl l unat_of_nat_u32 [of ?l] by (simp add: unat_sub word_le_nat_alt)
  show ?thesis
    using False pl s u by (auto simp: Unpack_bytes_def unread_def Let_def)
qed

lemma caps_parse_loop_fits:
  "length cap = 16 \<Longrightarrow> at b e (concat (map cap_data fs) @ r) \<Longrightarrow>
   yields (c\<lparr>m_flags := m_flags c \<union> set fs\<rparr>) e r (caps_parse_loop (length fs) cap c b)"
proof (induction fs arbitrary: cap c b)
  case Nil
  then show ?case by (auto simp: yields_def)
next
  case (Cons f fs)
  have "Unpack_bytes 16 b = Inr (cap_data f, advance 16 b)"
    using Cons.prems(2) Unpack_bytes_unread [of b 16] by (simp add: at_def)
  moreover have "at (advance 16 b) e (concat (map cap_data fs) @ r)"
    using Cons.prems(2) by (intro at_advance [of b e "cap_data f"]) simp_all
  ultimately show ?case
    using Cons.IH [of "cap_data f" "advance 16 b" "set_capability_flag f c"] Cons.prems(1)
    by (simp add: set_capability_flag_def insert_is_Un [symmetric] Un_assoc Un_insert_left)
qed

lemma caps_parse_loop_safe:
  "wfb b \<Longrightarrow> \<exists>c' b'. caps_parse_loop i cap c b = Inr (c', b') \<and> wfb b' \<and> m_data b' = m_data b"
proof (induction i arbitrary: cap c b)
  case 0
  then show ?case by simp
next
  case (Suc i)
  obtain k where k: "unat k = min 16 (length (unread b))"
    "Unpack_bytes 16 b = Inr (take 16 (unread b), advance k b)"
    using Unpack_bytes_clamp [OF Suc.prems, of 16] by auto
  then have "wfb (advance k b)"
    using Suc.prems by (intro wfb_advance) simp_all
  then show ?case
    using Suc.IH [of "advance k b"] k by (simp add: Let_def)
qed

lemma mod_16_rest: "(ucast len :: u32) - word_of_nat (unat len div 16 * 16) = word_of_nat (unat (len :: u16) mod 16)"
proof -
  have "unat len = unat len div 16 * 16 + unat len mod 16"
    by simp
  then have "(ucast len :: u32) = word_of_nat (unat len div 16 * 16) + word_of_nat (unat len mod 16)"
    unfolding ucast_u16_of_nat by (metis of_nat_add)
  then show ?thesis by simp
qed

section \<open>Properties\<close>

text \<open>Capabilities written by Output and read by Parse with the length that get_length announces
  are added to the reader's set exactly, and everything behind them is left to read: every known
  flag has its own 16-byte block and no block is taken for another.\<close>

theorem capabilities_roundtrip:
  assumes "length cap0 = 16" and "at b e (m_data (caps_output c new_buffer) @ r)"
  shows "yields (d\<lparr>m_flags := m_flags d \<union> m_flags c\<rparr>) e r
    (caps_parse cap0 d (caps_get_length c) b)"
proof -
  have "at b e (concat (map cap_data (flag_list c)) @ r)"
    using assms(2) by (simp add: caps_output_emit new_buffer_def)
  from caps_parse_loop_fits [OF assms(1) this, of d]
  have "yields (d\<lparr>m_flags := m_flags d \<union> m_flags c\<rparr>) e r
      (caps_parse_loop (card (m_flags c)) cap0 d b)"
    by (simp add: length_flag_list)
  then show ?thesis
    using mod_16_rest [of "caps_get_length c"]
    by (auto simp: caps_parse_def Let_def sizeof_cap_def unat_caps_get_length yields_def)
qed

theorem capabilities_roundtrip_witness:
  "yields (default_icq2000_capabilities new_capabilities) LITTLE [7]
     (caps_parse (replicate 16 0) new_capabilities 32
        (setLittleEndian (put_u8 7 (caps_output (default_icq2000_capabilities new_capabilities) new_buffer))))"
proof -
  let ?c = "default_icq2000_capabilities new_capabilities"
  let ?b = "setLittleEndian (put_u8 7 (caps_output ?c new_buffer))"
  have f: "m_flags ?c = {Cap_ICQ, Cap_ICQServerRelay}"
    by (auto simp: default_icq2000_capabilities_def set_capability_flag_def caps_clear_def)
  have l: "flag_list ?c = [Cap_ICQ, Cap_ICQServerRelay]"
    unfolding flag_list_def f by (simp add: all_flags_def)
  have "at ?b LITTLE (m_data (caps_output ?c new_buffer) @ [7])"
    by (simp add: at_def wfb_def unread_def setLittleEndian_def put_u8_emit caps_output_emit l
        new_buffer_def)
  from capabilities_roundtrip [OF _ this, of "replicate 16 0" new_capabilities] show ?thesis
    by (simp add: new_capabilities_def f caps_get_length_def sizeof_cap_def)
      (simp add: default_icq2000_capabilities_def set_capability_flag_def caps_clear_def insert_commute)
qed

text \<open>Reading capabilities never leaves the packet: for every announced length, also one larger
  than what is left, Parse returns normally and leaves the data alone.\<close>

theorem capabilities_parse_in_range:
  assumes "wfb b"
  shows "\<exists>c' b'. caps_parse cap0 c len b = Inr (c', b') \<and> m_data b' = m_data b"
  using caps_parse_loop_safe [OF assms, of "unat len div 16" cap0 c]
  by (auto simp: caps_parse_def Let_def sizeof_cap_def)

theorem capabilities_parse_in_range_witness:
  "\<exists>c' b'. caps_parse (replicate 16 0) new_capabilities 64 (buffer_of_bytes [1, 2, 3]) = Inr (c', b') \<and>
    m_data b' = [1, 2, 3]"
  using capabilities_parse_in_range [of "buffer_of_bytes [1, 2, 3]" "replicate 16 0" new_capabilities 64]
  by (simp add: buffer_of_bytes_def wfb_def)

end
