(* ===== verification/Translator.thy ===== *)
theory Translator
  imports CxxString
begin

text \<open>
  The character translation between client and server: \<^verbatim>\<open>libicq2000/Translator.h\<close> and
  \<^verbatim>\<open>src/Translator.cpp\<close>. The abstract class is the locale \<open>translator\<close>; its two
  implementations, the null translator and the LF / CRLF translator, are interpretations. The
  contact argument is a parameter no implementation looks at.
\<close>

datatype encoding = ENCODING_CONTACT_LOCALE | ENCODING_UTF8 | ENCODING_ISO_8859_1

definition null_client_to_server :: "encoding \<Rightarrow> 'c \<Rightarrow> string \<Rightarrow> string" where
  "null_client_to_server en c str = str"

definition null_server_to_client :: "encoding \<Rightarrow> 'c \<Rightarrow> string \<Rightarrow> string" where
  "null_server_to_client en c str = str"

abbreviation LF :: char where "LF \<equiv> CHR 0x0A"
abbreviation CR :: char where "CR \<equiv> CHR 0x0D"

fun lf_to_crlf :: "string \<Rightarrow> string" where
  "lf_to_crlf [] = []"
| "lf_to_crlf (c # cs) = (if c = LF then CR # LF # lf_to_crlf cs else c # lf_to_crlf cs)"

fun crlf_to_lf :: "string \<Rightarrow> string" where
  "crlf_to_lf [] = []"
| "crlf_to_lf [c] = [c]"
| "crlf_to_lf (c # d # cs) =
     (if c = CR \<and> d = LF then LF # crlf_to_lf cs else c # crlf_to_lf (d # cs))"

definition crlf_client_to_server :: "encoding \<Rightarrow> 'c \<Rightarrow> string \<Rightarrow> string" where
  "crlf_client_to_server en c str = lf_to_crlf str"

definition crlf_server_to_client :: "encoding \<Rightarrow> 'c \<Rightarrow> string \<Rightarrow> string" where
  "crlf_server_to_client en c str = crlf_to_lf str"

text \<open>The in-place variants of the base class assign the translated string.\<close>

definition client_to_server_inplace ::
  "(encoding \<Rightarrow> 'c \<Rightarrow> string \<Rightarrow> string) \<Rightarrow> string \<Rightarrow> encoding \<Rightarrow> 'c \<Rightarrow> string" where
  "client_to_server_inplace c2s str en c = (let tstr = c2s en c str in tstr)"

definition server_to_client_inplace ::
  "(encoding \<Rightarrow> 'c \<Rightarrow> string \<Rightarrow> string) \<Rightarrow> string \<Rightarrow> encoding \<Rightarrow> 'c \<Rightarrow> string" where
  "server_to_client_inplace s2c str en c = (let tstr = s2c en c str in tstr)"

section \<open>The interface\<close>

locale translator =
  fixes client_to_server :: "encoding \<Rightarrow> 'c \<Rightarrow> string \<Rightarrow> string"
    and server_to_client :: "encoding \<Rightarrow> 'c \<Rightarrow> string \<Rightarrow> string"
  assumes lossless: "server_to_client en c (client_to_server en c s) = s"
begin

lemma inplace_lossless:
  "server_to_client_inplace server_to_client
     (client_to_server_inplace client_to_server s en c) en c = s"
  by (simp add: server_to_client_inplace_def client_to_server_inplace_def lossless)

lemma injective: "client_to_server en c s = client_to_server en c t \<longleftrightarrow> s = t"
  by (metis lossless)

end

interpretation null_tr: translator null_client_to_server null_server_to_client
  by unfold_locales (simp add: null_client_to_server_def null_server_to_client_def)

lemma crlf_to_lf_Cons: "c \<noteq> CR \<Longrightarrow> crlf_to_lf (c # s) = c # crlf_to_lf s"
  by (cases s) auto

lemma crlf_to_lf_to_crlf [simp]: "crlf_to_lf (lf_to_crlf s) = s"
proof (induction s)
  case (Cons c s)
  then show ?case
    by (cases "c = CR"; cases s) (auto simp: crlf_to_lf_Cons)
qed simp

interpretation crlf_tr: translator crlf_client_to_server crlf_server_to_client
  by unfold_locales (simp add: crlf_client_to_server_def crlf_server_to_client_def)

text \<open>A line feed that does not follow a carriage return.\<close>

fun no_bare_lf :: "string \<Rightarrow> bool" where
  "no_bare_lf [] = True"
| "no_bare_lf [c] = (c \<noteq> LF)"
| "no_bare_lf (c # d # cs) =
     (if c = CR \<and> d = LF then no_bare_lf cs else c \<noteq> LF \<and> no_bare_lf (d # cs))"

lemma lf_to_crlf_to_lf: "lf_to_crlf (crlf_to_lf w) = w \<longleftrightarrow> no_bare_lf w"
  by (induction w rule: crlf_to_lf.induct) auto

section \<open>Properties\<close>

text \<open>The CRLF translator loses nothing on the way to the server and back, also when the text
  already holds carriage returns; in the other direction it reproduces exactly the texts in which
  every line feed follows a carriage return.\<close>

theorem crlf_translation:
  "server_to_client_inplace crlf_server_to_client
     (client_to_server_inplace crlf_client_to_server s en c) en c = s \<and>
   (crlf_client_to_server en c (crlf_server_to_client en c w) = w \<longleftrightarrow> no_bare_lf w)"
  using crlf_tr.inplace_lossless [of s en c] lf_to_crlf_to_lf [of w]
  by (simp add: crlf_client_to_server_def crlf_server_to_client_def)

end
