(* ===== verification/ICBMCookie.thy ===== *)
theory ICBMCookie
  imports Buffer
begin

text \<open>
  The 8-byte cookie that identifies a message on the way through the server:
  \<^verbatim>\<open>src/ICBMCookie.h\<close> and \<^verbatim>\<open>src/ICBMCookie.cpp\<close>. The two random numbers of \<^verbatim>\<open>generate\<close> come
  from the environment.
\<close>

record icbm_cookie =
  m_c1 :: u32
  m_c2 :: u32

definition new_cookie :: icbm_cookie where
  "new_cookie = \<lparr>m_c1 = 0, m_c2 = 0\<rparr>"

text \<open>\<open>generate (r1, r2)\<close>: \<open>r1\<close> and \<open>r2\<close> are the scaled results of \<^verbatim>\<open>rand()\<close>.\<close>

definition cookie_generate :: "u32 \<times> u32 \<Rightarrow> icbm_cookie" where
  "cookie_generate r = \<lparr>m_c1 = fst r, m_c2 = snd r\<rparr>"

definition cookie_parse :: "buffer \<Rightarrow> (icbm_cookie \<times> buffer) result" where
  "cookie_parse b =
     (let b = setBigEndian b in
      andThen (get_u32 b) (\<lambda>(c1, b).
      andThen (get_u32 b) (\<lambda>(c2, b).
      Inr (\<lparr>m_c1 = c1, m_c2 = c2\<rparr>, b))))"

definition cookie_output :: "icbm_cookie \<Rightarrow> buffer \<Rightarrow> buffer" where
  "cookie_output c b = put_u32 (m_c2 c) (put_u32 (m_c1 c) (setBigEndian b))"

definition cookie_eq :: "icbm_cookie \<Rightarrow> icbm_cookie \<Rightarrow> bool" where
  "cookie_eq a c = (m_c1 a = m_c1 c \<and> m_c2 a = m_c2 c)"

lemma cookie_eq_iff: "cookie_eq a (c :: icbm_cookie) \<longleftrightarrow> a = c"
  by (cases a; cases c) (simp add: cookie_eq_def)

definition enc_cookie :: "icbm_cookie \<Rightarrow> u8 list" where
  "enc_cookie c = enc32 BIG (m_c1 c) @ enc32 BIG (m_c2 c)"

lemma cookie_output_emit:
  "cookie_output c b = b\<lparr>m_data := m_data b @ enc_cookie c, m_endn := BIG\<rparr>"
  by (simp add: cookie_output_def setBigEndian_def enc_cookie_def put_u32_emit)

text \<open>Reading a cookie also switches the buffer to big endian.\<close>

lemma cookie_parse_enc:
  assumes "at b e (enc_cookie c @ r)"
  shows "yields c BIG r (cookie_parse b)"
proof -
  have "at (setBigEndian b) BIG (enc32 BIG (m_c1 c) @ enc32 BIG (m_c2 c) @ r)"
    using at_endian [OF assms, of BIG] by (simp add: setBigEndian_def enc_cookie_def)
  then show ?thesis
    unfolding cookie_parse_def Let_def
    by (cases c, simp only: icbm_cookie.select_convs) (rule u32_codec.inp_bind, simp, assumption, rule u32_codec.inp_bind, simp, assumption,
        rule yields_return, assumption)
qed

text \<open>A cookie written by Output is recovered by Parse whatever the byte order the reader's buffer
  was in, and the buffer is big endian afterwards.\<close>

theorem cookie_roundtrip:
  assumes "at b e (drop (length (m_data d)) (m_data (cookie_output c d)) @ r)"
  shows "yields c BIG r (cookie_parse b)"
  using assms by (intro cookie_parse_enc) (simp add: cookie_output_emit)

theorem cookie_roundtrip_witness:
  "yields \<lparr>m_c1 = 1, m_c2 = 2\<rparr> BIG [9] (cookie_parse
     \<lparr>m_data = [0, 0, 0, 1, 0, 0, 0, 2, 9], m_endn = LITTLE, m_out_pos = 0\<rparr>)"
  by (rule cookie_roundtrip [where d = new_buffer and e = LITTLE])
    (simp add: at_def wfb_def unread_def cookie_output_emit enc_cookie_def new_buffer_def octet_def)

end
