(* ===== verification/KeyedStore.thy ===== *)
theory KeyedStore
  imports Prelude
begin

text \<open>
  The interface the caches and the contact containers share: a store that is looked up by key,
  in which entries with a new key are inserted and entries are removed by key. What an
  insertion under a key already present does differs between them and is not part of the
  contract.
\<close>

locale keyed_store =
  fixes lookup :: "'s \<Rightarrow> 'k \<Rightarrow> 'v option"
    and ins :: "'k \<Rightarrow> 'v \<Rightarrow> 's \<Rightarrow> 's"
    and rem :: "'k \<Rightarrow> 's \<Rightarrow> 's"
    and inv :: "'s \<Rightarrow> bool"
  assumes lookup_ins: "inv s \<Longrightarrow> lookup s k = None \<Longrightarrow> lookup (ins k v s) = (lookup s)(k \<mapsto> v)"
    and lookup_rem: "inv s \<Longrightarrow> lookup (rem k s) = (lookup s)(k := None)"
    and inv_ins: "inv s \<Longrightarrow> lookup s k = None \<Longrightarrow> inv (ins k v s)"
    and inv_rem: "inv s \<Longrightarrow> inv (rem k s)"
begin

lemma rem_ins: "inv s \<Longrightarrow> lookup s k = None \<Longrightarrow> lookup (rem k (ins k v s)) = lookup s"
  by (auto simp: lookup_ins lookup_rem inv_ins)

lemma ins_commute:
  "inv s \<Longrightarrow> lookup s j = None \<Longrightarrow> lookup s k = None \<Longrightarrow> j \<noteq> k \<Longrightarrow>
   lookup (ins j v (ins k w s)) = lookup (ins k w (ins j v s))"
  by (simp add: lookup_ins inv_ins fun_upd_twist)

lemma ins_all:
  "inv s \<Longrightarrow> distinct (map fst kvs) \<Longrightarrow> \<forall>k\<in>set (map fst kvs). lookup s k = None \<Longrightarrow>
   inv (fold (\<lambda>(k, v). ins k v) kvs s) \<and>
   lookup (fold (\<lambda>(k, v). ins k v) kvs s) = lookup s ++ map_of kvs"
proof (induction kvs arbitrary: s)
  case Nil
  then show ?case by simp
next
  case (Cons kv kvs)
  obtain k v where kv: "kv = (k, v)" by (cases kv)
  have "inv (ins k v s)" and l: "lookup (ins k v s) = (lookup s)(k \<mapsto> v)"
    using Cons.prems kv by (auto intro: inv_ins lookup_ins)
  then have "inv (fold (\<lambda>(k, v). ins k v) kvs (ins k v s)) \<and>
      lookup (fold (\<lambda>(k, v). ins k v) kvs (ins k v s)) = lookup (ins k v s) ++ map_of kvs"
    using Cons.prems kv by (intro Cons.IH) auto
  moreover have eq: "lookup s ++ map_of ((k, v) # kvs) = (lookup s)(k \<mapsto> v) ++ map_of kvs"
  proof -
    have "map_of kvs k = None"
      using Cons.prems(2) kv by (simp add: map_of_eq_None_iff)
    then show ?thesis
      by (auto simp: map_add_def fun_eq_iff split: option.split)
  qed
  ultimately show ?case
    by (simp only: kv l eq fold_simps split)
qed

lemma rem_all:
  "inv s \<Longrightarrow> inv (fold rem ks s) \<and> lookup (fold rem ks s) = lookup s |` (- set ks)"
proof (induction ks arbitrary: s)
  case Nil
  then show ?case by simp
next
  case (Cons k ks)
  then have "lookup (rem k s) = (lookup s)(k := None)" "inv (rem k s)"
    by (auto simp: lookup_rem inv_rem)
  then show ?case
    using Cons.IH [of "rem k s"] by (auto simp: restrict_map_def fun_eq_iff)
qed

end

end
