(* ===== verification/Cache.thy ===== *)
theory Cache
  imports ICBMCookie KeyedStore "HOL-Library.Multiset"
begin

text \<open>
  The expiring caches: the template \<^verbatim>\<open>src/Cache.h\<close> and the five caches derived from it
  (\<^verbatim>\<open>ICBMCookieCache.h\<close>, \<^verbatim>\<open>SeqNumCache.h\<close>, \<^verbatim>\<open>RequestIDCache.h\<close>, \<^verbatim>\<open>DCCache.h\<close>, \<^verbatim>\<open>FTCache.h\<close>). The
  list is in the order of expiry. What a derived class does in the virtual \<^verbatim>\<open>removeItem\<close> and
  \<^verbatim>\<open>expireItem\<close> is a \<open>policy\<close>; signals emitted and values deleted are a list of events. The
  time of \<^verbatim>\<open>time(NULL)\<close> is an argument. Signal handlers that call back into the same cache
  are not modelled.
\<close>

record ('k, 'v) cache_item =
  m_timeout :: u32
  m_timestamp :: int
  m_key :: 'k
  m_value :: 'v

record ('k, 'v) cache =
  m_default_timeout :: u32
  m_list :: "('k, 'v) cache_item list"

section \<open>Items\<close>

definition new_item :: "'k \<Rightarrow> 'v \<Rightarrow> u32 \<Rightarrow> int \<Rightarrow> ('k, 'v) cache_item" where
  "new_item k v timeout now =
     \<lparr>m_timeout = timeout, m_timestamp = now, m_key = k, m_value = v\<rparr>"

definition getExpiryTime :: "('k, 'v) cache_item \<Rightarrow> int" where
  "getExpiryTime i = m_timestamp i + uint (m_timeout i)"

definition item_setTimestamp :: "int \<Rightarrow> ('k, 'v) cache_item \<Rightarrow> ('k, 'v) cache_item" where
  "item_setTimestamp t i = i\<lparr>m_timestamp := t\<rparr>"

definition item_setTimeout :: "int \<Rightarrow> ('k, 'v) cache_item \<Rightarrow> ('k, 'v) cache_item" where
  "item_setTimeout t i = i\<lparr>m_timeout := word_of_int t\<rparr>"

definition item_refresh :: "int \<Rightarrow> ('k, 'v) cache_item \<Rightarrow> ('k, 'v) cache_item" where
  "item_refresh now i = i\<lparr>m_timestamp := now\<rparr>"

section \<open>The cache\<close>

definition new_cache :: "('k, 'v) cache" where
  "new_cache = \<lparr>m_default_timeout = 60, m_list = []\<rparr>"

text \<open>\<open>lookup\<close> returns the iterator as an index; \<open>None\<close> is \<^verbatim>\<open>end()\<close>.\<close>

fun lookup_index :: "'k \<Rightarrow> ('k, 'v) cache_item list \<Rightarrow> nat option" where
  "lookup_index k [] = None"
| "lookup_index k (i # is) =
     (if m_key i = k then Some 0 else map_option Suc (lookup_index k is))"

definition cache_lookup :: "'k \<Rightarrow> ('k, 'v) cache \<Rightarrow> nat option" where
  "cache_lookup k c = lookup_index k (m_list c)"

definition cache_exists :: "'k \<Rightarrow> ('k, 'v) cache \<Rightarrow> bool" where
  "cache_exists k c = (cache_lookup k c \<noteq> None)"

definition erase_at :: "nat \<Rightarrow> 'a list \<Rightarrow> 'a list" where
  "erase_at n xs = take n xs @ drop (Suc n) xs"

text \<open>The insertion loop walks from the end to the front; on the reversed list that is a recursion.\<close>

fun insert_back :: "('k, 'v) cache_item \<Rightarrow> ('k, 'v) cache_item list \<Rightarrow> ('k, 'v) cache_item list" where
  "insert_back t [] = [t]"
| "insert_back t (l # ls) =
     (if getExpiryTime l < getExpiryTime t then t # l # ls else l # insert_back t ls)"

definition insert_item :: "('k, 'v) cache_item \<Rightarrow> ('k, 'v) cache \<Rightarrow> ('k, 'v) cache" where
  "insert_item t c = c\<lparr>m_list := rev (insert_back t (rev (m_list c)))\<rparr>"

definition cache_insert :: "'k \<Rightarrow> 'v \<Rightarrow> int \<Rightarrow> ('k, 'v) cache \<Rightarrow> ('k, 'v) cache" where
  "cache_insert k v now c = insert_item (new_item k v (m_default_timeout c) now) c"

text \<open>\<open>operator[]\<close>: the value, inserting \<^verbatim>\<open>Value()\<close> where the key is missing.\<close>

definition cache_index :: "'v \<Rightarrow> 'k \<Rightarrow> int \<Rightarrow> ('k, 'v) cache \<Rightarrow> 'v \<times> ('k, 'v) cache" where
  "cache_index dflt k now c =
     (case cache_lookup k c of
        None \<Rightarrow> (dflt, cache_insert k dflt now c)
      | Some i \<Rightarrow> (m_value (m_list c ! i), c))"

definition cache_empty :: "('k, 'v) cache \<Rightarrow> bool" where
  "cache_empty c = (m_list c = [])"

definition cache_front :: "('k, 'v) cache \<Rightarrow> 'k result" where
  "cache_front c = (case m_list c of [] \<Rightarrow> Inl OutOfRange | i # _ \<Rightarrow> Inr (m_key i))"

definition setDefaultTimeout :: "u32 \<Rightarrow> ('k, 'v) cache \<Rightarrow> ('k, 'v) cache" where
  "setDefaultTimeout s c = c\<lparr>m_default_timeout := s\<rparr>"

definition cache_refresh :: "'k \<Rightarrow> ('k, 'v) cache \<Rightarrow> ('k, 'v) cache" where
  "cache_refresh k c =
     (case cache_lookup k c of
        None \<Rightarrow> c
      | Some i \<Rightarrow> (let t = m_list c ! i in insert_item t (c\<lparr>m_list := erase_at i (m_list c)\<rparr>)))"

definition cache_setTimeout :: "'k \<Rightarrow> u32 \<Rightarrow> ('k, 'v) cache \<Rightarrow> ('k, 'v) cache" where
  "cache_setTimeout k s c =
     (case cache_lookup k c of
        None \<Rightarrow> c
      | Some i \<Rightarrow>
          (let t = item_setTimeout (uint s) (m_list c ! i)
           in insert_item t (c\<lparr>m_list := erase_at i (m_list c)\<rparr>)))"

section \<open>Removal and expiry\<close>

datatype 'v event = Expired 'v | Deleted 'v

text \<open>
  A policy: what \<open>removeItem\<close> deletes, whether \<open>expireItem\<close> emits the signal and whether it goes
  on to \<open>removeItem\<close>.
\<close>

record 'v policy =
  deletes :: "'v \<Rightarrow> bool"
  emits :: bool
  expire_removes :: bool

definition base_policy :: "'v policy" where
  "base_policy = \<lparr>deletes = (\<lambda>_. False), emits = False, expire_removes = True\<rparr>"

definition icbm_cookie_policy :: "('v \<Rightarrow> bool) \<Rightarrow> 'v policy" where
  "icbm_cookie_policy is_file_transfer =
     \<lparr>deletes = (\<lambda>v. \<not> is_file_transfer v), emits = True, expire_removes = True\<rparr>"

definition seqnum_policy :: "'v policy" where
  "seqnum_policy = \<lparr>deletes = (\<lambda>_. False), emits = True, expire_removes = True\<rparr>"

definition requestid_policy :: "'v policy" where
  "requestid_policy = \<lparr>deletes = (\<lambda>_. True), emits = True, expire_removes = True\<rparr>"

definition dc_policy :: "'v policy" where
  "dc_policy = \<lparr>deletes = (\<lambda>_. True), emits = True, expire_removes = True\<rparr>"

definition ft_policy :: "'v policy" where
  "ft_policy = \<lparr>deletes = (\<lambda>_. True), emits = True, expire_removes = False\<rparr>"

definition removeItem :: "'v policy \<Rightarrow> nat \<Rightarrow> ('k, 'v) cache \<Rightarrow> 'v event list \<times> ('k, 'v) cache" where
  "removeItem p i c =
     (let v = m_value (m_list c ! i)
      in (if deletes p v then [Deleted v] else [], c\<lparr>m_list := erase_at i (m_list c)\<rparr>))"

definition expireItem :: "'v policy \<Rightarrow> nat \<Rightarrow> ('k, 'v) cache \<Rightarrow> 'v event list \<times> ('k, 'v) cache" where
  "expireItem p i c =
     (let v = m_value (m_list c ! i);
          sig = (if emits p then [Expired v] else []);
          (evs, c') = (if expire_removes p then removeItem p i c else ([], c))
      in (sig @ evs, c'))"

definition cache_remove :: "'v policy \<Rightarrow> 'k \<Rightarrow> ('k, 'v) cache \<Rightarrow> 'v event list \<times> ('k, 'v) cache" where
  "cache_remove p k c =
     (case cache_lookup k c of None \<Rightarrow> ([], c) | Some i \<Rightarrow> removeItem p i c)"

text \<open>The three loops that empty the cache from the front; \<open>None\<close> is a loop that does not end.\<close>

partial_function (option) expireAll ::
  "'v policy \<Rightarrow> ('k, 'v) cache \<Rightarrow> 'v event list \<Rightarrow> ('v event list \<times> ('k, 'v) cache) option" where
  "expireAll p c evs =
     (if m_list c = [] then Some (evs, c)
      else expireAll p (snd (expireItem p 0 c)) (evs @ fst (expireItem p 0 c)))"

partial_function (option) removeAll ::
  "'v policy \<Rightarrow> ('k, 'v) cache \<Rightarrow> 'v event list \<Rightarrow> ('v event list \<times> ('k, 'v) cache) option" where
  "removeAll p c evs =
     (if m_list c = [] then Some (evs, c)
      else removeAll p (snd (removeItem p 0 c)) (evs @ fst (removeItem p 0 c)))"

partial_function (option) clearoutPoll ::
  "'v policy \<Rightarrow> int \<Rightarrow> ('k, 'v) cache \<Rightarrow> 'v event list \<Rightarrow> ('v event list \<times> ('k, 'v) cache) option" where
  "clearoutPoll p n c evs =
     (if m_list c \<noteq> [] \<and> getExpiryTime (hd (m_list c)) < n
      then clearoutPoll p n (snd (expireItem p 0 c)) (evs @ fst (expireItem p 0 c))
      else Some (evs, c))"

section \<open>Operations of the derived caches\<close>

text \<open>
  \<open>generateUnique\<close> of the cookie cache, over the sequence of random draws; \<open>None\<close> is a loop that
  does not end.
\<close>

partial_function (option) generateUnique ::
  "(icbm_cookie, 'v) cache \<Rightarrow> (nat \<Rightarrow> u32 \<times> u32) \<Rightarrow> nat \<Rightarrow> (icbm_cookie \<times> nat) option" where
  "generateUnique c draws n =
     (if cache_exists (cookie_generate (draws n)) c then generateUnique c draws (Suc n)
      else Some (cookie_generate (draws n), Suc n))"

text \<open>
  The direct connection and file transfer caches look connections up by the UIN of their contact;
  \<open>uin_of v\<close> is \<open>None\<close> for a connection without a contact.
\<close>

definition getByContact :: "('v \<Rightarrow> u32 option) \<Rightarrow> u32 \<Rightarrow> ('k, 'v) cache \<Rightarrow> 'v option" where
  "getByContact uin_of u c = map_option m_value (find (\<lambda>i. uin_of (m_value i) = Some u) (m_list c))"

fun remove_contact_loop ::
  "'v policy \<Rightarrow> ('v \<Rightarrow> u32 option) \<Rightarrow> u32 \<Rightarrow> ('k, 'v) cache_item list \<Rightarrow>
    'v event list \<times> ('k, 'v) cache_item list" where
  "remove_contact_loop p uin_of u [] = ([], [])"
| "remove_contact_loop p uin_of u (i # is) =
     (case remove_contact_loop p uin_of u is of (evs, is') \<Rightarrow>
      if uin_of (m_value i) = Some u
      then ((if deletes p (m_value i) then [Deleted (m_value i)] else []) @ evs, is')
      else (evs, i # is'))"

definition removeContact ::
  "'v policy \<Rightarrow> ('v \<Rightarrow> u32 option) \<Rightarrow> u32 \<Rightarrow> ('k, 'v) cache \<Rightarrow> 'v event list \<times> ('k, 'v) cache" where
  "removeContact p uin_of u c =
     (case remove_contact_loop p uin_of u (m_list c) of (evs, is) \<Rightarrow> (evs, c\<lparr>m_list := is\<rparr>))"

definition ft_getByEvent :: "('v \<Rightarrow> 'e) \<Rightarrow> 'e \<Rightarrow> ('k, 'v) cache \<Rightarrow> 'v option" where
  "ft_getByEvent event_of ev c = map_option m_value (find (\<lambda>i. event_of (m_value i) = ev) (m_list c))"

definition ft_exists_listenfd :: "('v \<Rightarrow> int) \<Rightarrow> int \<Rightarrow> ('k, 'v) cache \<Rightarrow> bool" where
  "ft_exists_listenfd listenfd_of fd c = list_ex (\<lambda>i. listenfd_of (m_value i) = fd) (m_list c)"

definition ft_remove_and_not_delete :: "'k \<Rightarrow> ('k, 'v) cache \<Rightarrow> ('k, 'v) cache" where
  "ft_remove_and_not_delete k c =
     (case cache_lookup k c of None \<Rightarrow> c | Some i \<Rightarrow> c\<lparr>m_list := erase_at i (m_list c)\<rparr>)"

section \<open>The order of expiry\<close>

definition by_expiry :: "('k, 'v) cache_item list \<Rightarrow> bool" where
  "by_expiry is = sorted (map getExpiryTime is)"

definition cache_inv :: "('k, 'v) cache \<Rightarrow> bool" where
  "cache_inv c = (by_expiry (m_list c) \<and> distinct (map m_key (m_list c)))"

lemma insert_back_split:
  "insert_back t ls =
     takeWhile (\<lambda>l. \<not> getExpiryTime l < getExpiryTime t) ls @ t #
     dropWhile (\<lambda>l. \<not> getExpiryTime l < getExpiryTime t) ls"
  by (induction ls) auto

lemma mset_insert_item [simp]: "mset (m_list (insert_item t c)) = add_mset t (mset (m_list c))"
proof -
  have "mset (insert_back t ls) = add_mset t (mset ls)" for ls
    by (induction ls) auto
  then show ?thesis by (simp add: insert_item_def)
qed

lemma insert_back_sorted:
  "sorted_wrt (\<lambda>a b. getExpiryTime b \<le> getExpiryTime a) ls \<Longrightarrow>
   sorted_wrt (\<lambda>a b. getExpiryTime b \<le> getExpiryTime a) (insert_back t ls)"
proof (induction ls)
  case (Cons l ls)
  have "set (insert_back t ls) = insert t (set ls)"
    by (induction ls) auto
  then show ?case
    using Cons by auto
qed simp

lemma by_expiry_insert_item:
  "by_expiry (m_list c) \<Longrightarrow> by_expiry (m_list (insert_item t c))"
  using insert_back_sorted [of "rev (m_list c)" t]
  by (simp add: by_expiry_def insert_item_def sorted_map sorted_wrt_rev)

lemma erase_at_split:
  "i < length xs \<Longrightarrow> \<exists>ys zs. xs = ys @ xs ! i # zs \<and> erase_at i xs = ys @ zs"
  by (metis erase_at_def id_take_nth_drop)

lemma lookup_index_Some:
  "lookup_index k is = Some i \<Longrightarrow> i < length is \<and> m_key (is ! i) = k"
  by (induction "is" arbitrary: i) (auto split: if_splits)

lemma lookup_index_None: "lookup_index k is = None \<longleftrightarrow> k \<notin> m_key ` set is"
  by (induction "is") auto

lemma lookupE:
  assumes "cache_lookup k c = Some i"
  obtains ys zs where "m_list c = ys @ m_list c ! i # zs" and "m_key (m_list c ! i) = k"
    and "erase_at i (m_list c) = ys @ zs"
  using assms lookup_index_Some [of k "m_list c" i] erase_at_split [of i "m_list c"]
  by (auto simp: cache_lookup_def)

section \<open>The cache as a map\<close>

definition cache_map :: "('k, 'v) cache \<Rightarrow> 'k \<Rightarrow> 'v option" where
  "cache_map c k = map_option (\<lambda>i. m_value (m_list c ! i)) (cache_lookup k c)"

definition entries :: "('k, 'v) cache_item list \<Rightarrow> ('k \<times> 'v) list" where
  "entries is = map (\<lambda>i. (m_key i, m_value i)) is"

lemma cache_map_entries: "cache_map (c :: ('k, 'v) cache) = map_of (entries (m_list c))"
proof
  fix k :: 'k
  have "map_option (\<lambda>i. m_value (is ! i)) (lookup_index k is) = map_of (entries is) k"
    for "is" :: "('k, 'v) cache_item list"
    by (induction "is") (auto simp: entries_def option.map_comp comp_def)
  then show "cache_map c k = map_of (entries (m_list c)) k"
    by (simp add: cache_map_def cache_lookup_def)
qed

lemma cache_map_None: "cache_map c k = None \<longleftrightarrow> cache_lookup k c = None"
  by (simp add: cache_map_def)

lemma keys_entries: "map fst (entries is) = map m_key is"
  by (simp add: entries_def)

lemma map_of_same_mset:
  fixes "is" js :: "('k, 'v) cache_item list"
  assumes "distinct (map m_key is)" and "mset is = mset js"
  shows "map_of (entries is) = map_of (entries js)"
proof -
  have "mset (map m_key is) = mset (map m_key js)"
    using assms(2) by (metis mset_map)
  then have "distinct (map m_key js)"
    using assms(1) mset_eq_imp_distinct_iff by blast
  moreover have "set (entries is) = set (entries js)"
    using assms(2) by (metis entries_def list.set_map mset_eq_setD)
  ultimately show ?thesis
    using assms(1) by (subst map_of_inject_set) (simp_all add: keys_entries)
qed

lemma distinct_insert_item:
  "distinct (map m_key (m_list (insert_item t c))) \<longleftrightarrow> distinct (map m_key (t # m_list c))"
proof -
  have "mset (map m_key (m_list (insert_item t c))) = mset (map m_key (t # m_list c))"
    by (metis mset_insert_item mset.simps(2) mset_map)
  then show ?thesis
    by (rule mset_eq_imp_distinct_iff)
qed

lemma cache_map_insert_item:
  assumes "cache_inv c" and "cache_map c (m_key t) = None"
  shows "cache_map (insert_item t c) = (cache_map c)(m_key t \<mapsto> m_value t)"
    and "cache_inv (insert_item t c)"
proof -
  have d: "distinct (map m_key (t # m_list c))"
    using assms lookup_index_None [of "m_key t" "m_list c"]
    by (simp add: cache_inv_def cache_map_None cache_lookup_def)
  then have "map_of (entries (t # m_list c)) = map_of (entries (m_list (insert_item t c)))"
    by (rule map_of_same_mset) simp
  then show "cache_map (insert_item t c) = (cache_map c)(m_key t \<mapsto> m_value t)"
    by (simp add: cache_map_entries) (simp add: entries_def)
  show "cache_inv (insert_item t c)"
    using d assms(1) by (auto simp: cache_inv_def distinct_insert_item by_expiry_insert_item)
qed

lemma by_expiry_append: "by_expiry (ys @ x # zs) \<Longrightarrow> by_expiry (ys @ zs)"
  by (auto simp: by_expiry_def sorted_append)

lemma cache_erase:
  assumes "cache_inv c" and "cache_lookup k c = Some i"
  shows "cache_map (c\<lparr>m_list := erase_at i (m_list c)\<rparr>) = (cache_map c)(k := None)"
    and "cache_inv (c\<lparr>m_list := erase_at i (m_list c)\<rparr>)"
proof -
  obtain ys zs where s: "m_list c = ys @ m_list c ! i # zs" "m_key (m_list c ! i) = k"
    "erase_at i (m_list c) = ys @ zs"
    using assms(2) by (rule lookupE)
  have d: "distinct (map m_key (ys @ m_list c ! i # zs))"
    using assms(1) s(1) by (simp add: cache_inv_def)
  have "map_of (entries (ys @ zs)) = (map_of (entries (ys @ m_list c ! i # zs)))(k := None)"
  proof -
    have "map_of (entries ys) k = None" "map_of (entries zs) k = None"
      using d s(2) by (auto simp: map_of_eq_None_iff entries_def)
    then show ?thesis
      using s(2) by (auto simp: entries_def map_add_def fun_eq_iff split: option.split)
  qed
  then show "cache_map (c\<lparr>m_list := erase_at i (m_list c)\<rparr>) = (cache_map c)(k := None)"
    using s by (simp add: cache_map_entries)
  show "cache_inv (c\<lparr>m_list := erase_at i (m_list c)\<rparr>)"
  proof -
    have "distinct (map m_key (ys @ zs))"
      using d by auto
    moreover have "by_expiry (ys @ zs)"
      using assms(1) s(1) by (metis by_expiry_append cache_inv_def)
    ultimately show ?thesis
      by (simp add: cache_inv_def s(3))
  qed
qed

lemma cache_remove_spec:
  assumes "cache_inv c"
  shows "cache_map (snd (cache_remove p k c)) = (cache_map c)(k := None)"
    and "cache_inv (snd (cache_remove p k c))"
proof -
  show "cache_map (snd (cache_remove p k c)) = (cache_map c)(k := None)"
    using cache_erase(1) [OF assms] cache_map_None [of c k]
    by (auto simp: cache_remove_def removeItem_def Let_def fun_eq_iff split: option.split)
  show "cache_inv (snd (cache_remove p k c))"
    using cache_erase(2) [OF assms] assms
    by (simp add: cache_remove_def removeItem_def Let_def split: option.split)
qed

interpretation cache_store: keyed_store
  cache_map "\<lambda>k v. cache_insert k v now" "\<lambda>k c. snd (cache_remove p k c)" cache_inv
  for now :: int and p :: "'v policy"
proof unfold_locales
  fix c :: "('k, 'v) cache" and k :: 'k and v :: 'v
  assume c: "cache_inv c"
  show "cache_map (snd (cache_remove p k c)) = (cache_map c)(k := None)"
    and "cache_inv (snd (cache_remove p k c))"
    by (rule cache_remove_spec [OF c])+
  assume "cache_map c k = None"
  then show "cache_map (cache_insert k v now c) = (cache_map c)(k \<mapsto> v)"
    and "cache_inv (cache_insert k v now c)"
    using cache_map_insert_item [OF c, of "new_item k v (m_default_timeout c) now"]
    by (simp_all add: cache_insert_def new_item_def)
qed

section \<open>Emptying loops\<close>

definition removal_events :: "'v policy \<Rightarrow> 'v \<Rightarrow> 'v event list" where
  "removal_events p v = (if deletes p v then [Deleted v] else [])"

definition expiry_events :: "'v policy \<Rightarrow> 'v \<Rightarrow> 'v event list" where
  "expiry_events p v = (if emits p then [Expired v] else []) @ removal_events p v"

lemma expireItem_front:
  "expire_removes p \<Longrightarrow> m_list c = i # is \<Longrightarrow>
   expireItem p 0 c = (expiry_events p (m_value i), c\<lparr>m_list := is\<rparr>)"
  by (simp add: expireItem_def removeItem_def expiry_events_def removal_events_def erase_at_def Let_def)

lemma removeItem_front:
  "m_list c = i # is \<Longrightarrow> removeItem p 0 c = (removal_events p (m_value i), c\<lparr>m_list := is\<rparr>)"
  by (simp add: removeItem_def removal_events_def erase_at_def Let_def)

lemma clearoutPoll_spec:
  assumes "expire_removes p"
  shows "m_list c = is \<Longrightarrow> clearoutPoll p n c evs =
    Some (evs @ concat (map (\<lambda>i. expiry_events p (m_value i)) (takeWhile (\<lambda>i. getExpiryTime i < n) is)),
          c\<lparr>m_list := dropWhile (\<lambda>i. getExpiryTime i < n) is\<rparr>)"
proof (induction "is" arbitrary: c evs)
  case Nil
  then show ?case by (simp add: clearoutPoll.simps)
next
  case (Cons i "is")
  show ?case
    using Cons.IH [of "c\<lparr>m_list := is\<rparr>" "evs @ expiry_events p (m_value i)"]
      expireItem_front [OF assms Cons.prems] Cons.prems
    by (subst clearoutPoll.simps) auto
qed

lemma expireAll_spec:
  assumes "expire_removes p"
  shows "m_list c = is \<Longrightarrow>
    expireAll p c evs = Some (evs @ concat (map (\<lambda>i. expiry_events p (m_value i)) is), c\<lparr>m_list := []\<rparr>)"
proof (induction "is" arbitrary: c evs)
  case Nil
  then show ?case by (simp add: expireAll.simps)
next
  case (Cons i "is")
  show ?case
    using Cons.IH [of "c\<lparr>m_list := is\<rparr>" "evs @ expiry_events p (m_value i)"]
      expireItem_front [OF assms Cons.prems] Cons.prems
    by (subst expireAll.simps) simp
qed

lemma removeAll_spec:
  "m_list c = is \<Longrightarrow>
   removeAll p c evs = Some (evs @ concat (map (\<lambda>i. removal_events p (m_value i)) is), c\<lparr>m_list := []\<rparr>)"
proof (induction "is" arbitrary: c evs)
  case Nil
  then show ?case by (simp add: removeAll.simps)
next
  case (Cons i "is")
  show ?case
    using Cons.IH [of "c\<lparr>m_list := is\<rparr>" "evs @ removal_events p (m_value i)"]
      removeItem_front [OF Cons.prems] Cons.prems
    by (subst removeAll.simps) simp
qed

lemma sorted_takeWhile_filter:
  "by_expiry is \<Longrightarrow> takeWhile (\<lambda>i. getExpiryTime i < n) is = filter (\<lambda>i. getExpiryTime i < n) is \<and>
     dropWhile (\<lambda>i. getExpiryTime i < n) is = filter (\<lambda>i. n \<le> getExpiryTime i) is"
proof (induction "is")
  case (Cons i "is")
  show ?case
  proof (cases "getExpiryTime i < n")
    case True
    then show ?thesis using Cons by (simp add: by_expiry_def)
  next
    case False
    then have "\<forall>j\<in>set is. n \<le> getExpiryTime j"
      using Cons.prems by (force simp: by_expiry_def)
    then have "filter (\<lambda>i. getExpiryTime i < n) is = []" "filter (\<lambda>i. n \<le> getExpiryTime i) is = is"
      by (auto simp: filter_empty_conv filter_id_conv)
    then show ?thesis using False by simp
  qed
qed simp

lemma clearoutPoll_diverges:
  assumes "\<not> expire_removes p" and "m_list c \<noteq> []" and "getExpiryTime (hd (m_list c)) < n"
  shows "clearoutPoll p n c evs = None"
proof (rule ccontr)
  assume "clearoutPoll p n c evs \<noteq> None"
  then obtain r where ret: "clearoutPoll p n c evs = Some r" by blast
  have same: "snd (expireItem q 0 d) = d" if "\<not> expire_removes q" for q :: "'v policy" and d :: "('k, 'v) cache"
    using that by (simp add: expireItem_def Let_def)
  let ?P = "\<lambda>p n c _ _. \<not> expire_removes p \<longrightarrow>
      \<not> (m_list c \<noteq> [] \<and> getExpiryTime (hd (m_list c)) < n)"
  have "?P p n c evs r"
  proof (rule clearoutPoll.raw_induct [where P = ?P, OF _ ret])
    fix loop :: "'v policy \<Rightarrow> int \<Rightarrow> ('k, 'v) cache \<Rightarrow> 'v event list \<Rightarrow>
        ('v event list \<times> ('k, 'v) cache) option"
      and q :: "'v policy" and m d es r
    assume "\<And>q m d es r. loop q m d es = Some r \<Longrightarrow> ?P q m d es r"
      and "(if m_list d \<noteq> [] \<and> getExpiryTime (hd (m_list d)) < m
            then loop q m (snd (expireItem q 0 d)) (es @ fst (expireItem q 0 d))
            else Some (es, d)) = Some r"
    then show "?P q m d es r"
      using same [of q d] by (metis option.discI)
  qed
  with assms show False by blast
qed

lemma cache_reinsert:
  assumes "cache_inv c" and "cache_lookup k c = Some i" and "m_key t = k"
  shows "cache_inv (insert_item t (c\<lparr>m_list := erase_at i (m_list c)\<rparr>))"
  using cache_erase [OF assms(1,2)] assms(3) by (intro cache_map_insert_item) simp_all

lemma cache_key_at: "cache_lookup k c = Some i \<Longrightarrow> m_key (m_list c ! i) = k"
  by (erule lookupE) simp

lemma cache_inv_filter: "cache_inv c \<Longrightarrow> cache_inv (c\<lparr>m_list := filter P (m_list c)\<rparr>)"
  by (simp add: cache_inv_def by_expiry_def sorted_filter distinct_map_filter)

lemma erase_at_inv: "cache_inv c \<Longrightarrow> i < length (m_list c) \<Longrightarrow> cache_inv (c\<lparr>m_list := erase_at i (m_list c)\<rparr>)"
proof -
  assume c: "cache_inv c" and "i < length (m_list c)"
  then obtain ys zs where s: "m_list c = ys @ m_list c ! i # zs" "erase_at i (m_list c) = ys @ zs"
    using erase_at_split by metis
  have "by_expiry (ys @ m_list c ! i # zs)" "distinct (map m_key (ys @ m_list c ! i # zs))"
    using c s(1) by (simp_all add: cache_inv_def)
  then show ?thesis
    using by_expiry_append by (auto simp: cache_inv_def s(2))
qed

lemma removeContact_filter:
  "snd (removeContact p uin_of u c) = c\<lparr>m_list := filter (\<lambda>i. uin_of (m_value i) \<noteq> Some u) (m_list c)\<rparr>"
proof -
  have "snd (remove_contact_loop p uin_of u is) = filter (\<lambda>i. uin_of (m_value i) \<noteq> Some u) is" for "is"
    by (induction "is") (auto split: prod.split)
  from this [of "m_list c"] show ?thesis
    by (cases "remove_contact_loop p uin_of u (m_list c)") (simp add: removeContact_def)
qed

section \<open>Properties\<close>

text \<open>C29: Every operation that changes a cache, of the template and of the derived classes, keeps its list in the
  order of expiry and its keys distinct: insertion under a new key, access by \<^verbatim>\<open>operator[]\<close>, removal with and
  without deletion, removal of all entries of a contact, expiry of one item, refresh, a new timeout, a new default
  timeout; so do the loops, polling for expired items, expiring all and removing all, which end and of which the
  last two leave the cache empty (the first two for the caches whose \<^verbatim>\<open>expireItem\<close> removes the item).\<close>

theorem cache_invariant:
  assumes "cache_inv c"
  shows "(cache_map c k = None \<longrightarrow> cache_inv (cache_insert k v now c)) \<and>
    cache_inv (snd (cache_index v k now c)) \<and> cache_inv (snd (cache_remove p k c)) \<and>
    cache_inv (ft_remove_and_not_delete k c) \<and> cache_inv (snd (removeContact p uin_of u c)) \<and>
    (i < length (m_list c) \<longrightarrow> cache_inv (snd (removeItem p i c)) \<and> cache_inv (snd (expireItem p i c))) \<and>
    cache_inv (cache_refresh k c) \<and> cache_inv (cache_setTimeout k s c) \<and> cache_inv (setDefaultTimeout s c) \<and>
    (\<exists>evs c'. removeAll p c [] = Some (evs, c') \<and> cache_inv c' \<and> m_list c' = []) \<and>
    (expire_removes p \<longrightarrow>
      (\<exists>evs c'. expireAll p c [] = Some (evs, c') \<and> cache_inv c' \<and> m_list c' = []) \<and>
      (\<exists>evs c'. clearoutPoll p now c [] = Some (evs, c') \<and> cache_inv c'))"
proof (intro conjI impI)
  show ins: "cache_inv (cache_insert k v now c)" if "cache_map c k = None"
    using assms that by (rule cache_store.inv_ins)
  show "cache_inv (snd (cache_index v k now c))"
    using ins assms cache_map_None [of c k] by (simp add: cache_index_def split: option.split)
  show "cache_inv (snd (cache_remove p k c))"
    by (rule cache_store.inv_rem [OF assms])
  show "cache_inv (ft_remove_and_not_delete k c)"
    using cache_erase(2) [OF assms] assms by (simp add: ft_remove_and_not_delete_def split: option.split)
  show "cache_inv (snd (removeContact p uin_of u c))"
    using assms by (simp add: removeContact_filter cache_inv_filter)
  show "cache_inv (snd (removeItem p i c))" and "cache_inv (snd (expireItem p i c))" if "i < length (m_list c)"
    using assms erase_at_inv [OF assms that] by (simp_all add: removeItem_def expireItem_def Let_def)
  show "cache_inv (cache_refresh k c)"
    using cache_reinsert [OF assms] cache_key_at [of k c] assms
    by (auto simp: cache_refresh_def Let_def split: option.split)
  show "cache_inv (cache_setTimeout k s c)"
    using cache_reinsert [OF assms] cache_key_at [of k c] assms
    by (auto simp: cache_setTimeout_def item_setTimeout_def Let_def split: option.split)
  show "cache_inv (setDefaultTimeout s c)"
    using assms by (simp add: setDefaultTimeout_def cache_inv_def)
  have none: "cache_inv (c\<lparr>m_list := []\<rparr>)"
    by (simp add: cache_inv_def by_expiry_def)
  then show "\<exists>evs c'. removeAll p c [] = Some (evs, c') \<and> cache_inv c' \<and> m_list c' = []"
    by (simp add: removeAll_spec [OF refl])
  assume p: "expire_removes p"
  show "\<exists>evs c'. expireAll p c [] = Some (evs, c') \<and> cache_inv c' \<and> m_list c' = []"
    using none by (simp add: expireAll_spec [OF p refl])
  have "by_expiry (m_list c)"
    using assms by (simp add: cache_inv_def)
  then show "\<exists>evs c'. clearoutPoll p now c [] = Some (evs, c') \<and> cache_inv c'"
    using clearoutPoll_spec [OF p refl, of now c "[]"] sorted_takeWhile_filter [of "m_list c" now] assms
    by (simp add: cache_inv_filter)
qed

lemma two_items_inv:
  "cache_inv (cache_insert (2 :: nat) ''b'' 10 (cache_insert 1 ''a'' 0 new_cache))"
  by (simp add: cache_inv_def by_expiry_def cache_insert_def insert_item_def new_cache_def
      new_item_def getExpiryTime_def)

theorem cache_invariant_witness:
  "cache_inv (cache_setTimeout (1 :: nat) 5 (cache_insert 2 ''b'' 10 (cache_insert 1 ''a'' 0 new_cache)))"
  using cache_invariant [OF two_items_inv] by blast

text \<open>C30: A poll of a cache in order expires exactly the items whose time is over, in the order of
  their expiry, with the signal before the deletion, keeps all the others and ends.\<close>

theorem cache_poll:
  assumes "cache_inv c" and "expire_removes p"
  shows "clearoutPoll p now c [] =
    Some (concat (map (\<lambda>i. (if emits p then [Expired (m_value i)] else []) @
                          (if deletes p (m_value i) then [Deleted (m_value i)] else []))
            (filter (\<lambda>i. getExpiryTime i < now) (m_list c))),
          c\<lparr>m_list := filter (\<lambda>i. now \<le> getExpiryTime i) (m_list c)\<rparr>)"
  using clearoutPoll_spec [OF assms(2) refl, of now c "[]"] sorted_takeWhile_filter [of "m_list c" now]
    assms(1)
  by (simp add: cache_inv_def expiry_events_def removal_events_def)

theorem cache_poll_witness:
  "clearoutPoll dc_policy 65 (cache_insert (2 :: nat) ''b'' 10 (cache_insert 1 ''a'' 0 new_cache)) [] =
    Some ([Expired ''a'', Deleted ''a''], cache_insert 2 ''b'' 10 new_cache)"
  by (subst cache_poll [OF two_items_inv])
    (simp_all add: dc_policy_def cache_insert_def insert_item_def new_cache_def new_item_def
      getExpiryTime_def)

text \<open>The file transfer cache does not remove an item when it expires, so polling it (or expiring
  all) never returns once an item is due; the other four derived caches do remove it.\<close>

theorem ft_cache_poll_diverges:
  "(m_list c \<noteq> [] \<and> getExpiryTime (hd (m_list c)) < now \<longrightarrow> clearoutPoll ft_policy now c evs = None) \<and>
   (\<forall>q \<in> {base_policy, icbm_cookie_policy ft, seqnum_policy, requestid_policy, dc_policy}.
      clearoutPoll q now c evs \<noteq> None)"
proof
  show "m_list c \<noteq> [] \<and> getExpiryTime (hd (m_list c)) < now \<longrightarrow> clearoutPoll ft_policy now c evs = None"
    using clearoutPoll_diverges [of ft_policy c now evs] by (simp add: ft_policy_def)
  show "\<forall>q \<in> {base_policy, icbm_cookie_policy ft, seqnum_policy, requestid_policy, dc_policy}.
      clearoutPoll q now c evs \<noteq> None"
    using clearoutPoll_spec [OF _ refl, of _ now c evs]
    by (auto simp: base_policy_def icbm_cookie_policy_def seqnum_policy_def requestid_policy_def
        dc_policy_def)
qed

theorem ft_cache_poll_diverges_witness:
  "clearoutPoll ft_policy 100 (cache_insert (1 :: nat) ''t'' 0 new_cache) [] = None"
proof -
  have "m_list (cache_insert (1 :: nat) ''t'' 0 new_cache) \<noteq> [] \<and>
      getExpiryTime (hd (m_list (cache_insert (1 :: nat) ''t'' 0 new_cache))) < 100"
    by (simp add: cache_insert_def insert_item_def new_cache_def new_item_def getExpiryTime_def)
  then show ?thesis
    using ft_cache_poll_diverges by blast
qed

text \<open>Cache::refresh does not renew anything: the items of the cache, with their keys, values and
  times of expiry, are the same afterwards, so an item that is due stays due. (It re-inserts a
  copy of the item without calling CacheItem::refresh on it.)\<close>

theorem cache_refresh_renews_nothing:
  "mset (m_list (cache_refresh k c)) = mset (m_list c)"
proof (cases "cache_lookup k c")
  case None
  then show ?thesis by (simp add: cache_refresh_def)
next
  case (Some i)
  obtain ys zs where "m_list c = ys @ m_list c ! i # zs" "erase_at i (m_list c) = ys @ zs"
    using Some by (rule lookupE)
  then have "add_mset (m_list c ! i) (mset (erase_at i (m_list c))) = mset (m_list c)"
    by (metis add_mset_commute mset.simps(2) mset_append union_mset_add_mset_right)
  then show ?thesis
    by (simp add: cache_refresh_def Some Let_def)
qed

text \<open>generateUnique returns a cookie that is not in the cache whenever one of the random draws
  is new, and does not return when none is.\<close>

theorem generateUnique_fresh:
  "(\<exists>c' m. generateUnique c draws n = Some (c', m) \<and> \<not> cache_exists c' c) \<longleftrightarrow>
   (\<exists>k. \<not> cache_exists (cookie_generate (draws (n + k))) c)"
proof
  assume "\<exists>c' m. generateUnique c draws n = Some (c', m) \<and> \<not> cache_exists c' c"
  then obtain r where ret: "generateUnique c draws n = Some r" by blast
  show "\<exists>k. \<not> cache_exists (cookie_generate (draws (n + k))) c"
  proof (rule generateUnique.raw_induct [where
        P = "\<lambda>c draws n _. \<exists>k. \<not> cache_exists (cookie_generate (draws (n + k))) c", OF _ ret])
    fix loop :: "(icbm_cookie, 'a) cache \<Rightarrow> (nat \<Rightarrow> u32 \<times> u32) \<Rightarrow> nat \<Rightarrow> (icbm_cookie \<times> nat) option"
      and c draws n r
    assume IH: "\<And>c draws n r. loop c draws n = Some r \<Longrightarrow>
        \<exists>k. \<not> cache_exists (cookie_generate (draws (n + k))) c"
      and body: "(if cache_exists (cookie_generate (draws n)) c then loop c draws (Suc n)
            else Some (cookie_generate (draws n), Suc n)) = Some r"
    show "\<exists>k. \<not> cache_exists (cookie_generate (draws (n + k))) c"
    proof (cases "cache_exists (cookie_generate (draws n)) c")
      case True
      then obtain k where "\<not> cache_exists (cookie_generate (draws (Suc n + k))) c"
        using IH body by (metis (full_types))
      then show ?thesis
        by (intro exI [of _ "Suc k"]) simp
    next
      case False
      then show ?thesis by (intro exI [of _ 0]) simp
    qed
  qed
next
  assume "\<exists>k. \<not> cache_exists (cookie_generate (draws (n + k))) c"
  then obtain k where "\<not> cache_exists (cookie_generate (draws (n + k))) c" ..
  then show "\<exists>c' m. generateUnique c draws n = Some (c', m) \<and> \<not> cache_exists c' c"
  proof (induction k arbitrary: n)
    case 0
    then show ?case by (simp add: generateUnique.simps)
  next
    case (Suc k)
    then show ?case
      by (cases "cache_exists (cookie_generate (draws n)) c")
        (simp_all add: generateUnique.simps [of c draws n])
  qed
qed

end
