(* ===== verification/Contact.thy ===== *)
theory Contact
  imports CxxString Capabilities
begin

unbundle bit_operations_syntax

text \<open>
  A contact and what is known of it: \<^verbatim>\<open>libicq2000/Contact.h\<close>, \<^verbatim>\<open>src/Contact.cpp\<close> and the status
  enumeration of \<^verbatim>\<open>libicq2000/constants.h\<close>. A setter returns the contact together with the signals
  it emits; the time of \<^verbatim>\<open>time(NULL)\<close>, random numbers and the formatting of a date by the C
  library are arguments. The enumerations of countries, languages and the like are the integers
  C++ stores them in. The pointer to the capabilities is \<open>None\<close> while it was never set.
\<close>

datatype status =
    STATUS_ONLINE
  | STATUS_AWAY
  | STATUS_NA
  | STATUS_OCCUPIED
  | STATUS_DND
  | STATUS_FREEFORCHAT
  | STATUS_OFFLINE

definition STATUS_FLAG_AWAY :: u16 where "STATUS_FLAG_AWAY = 0x0001"
definition STATUS_FLAG_DND :: u16 where "STATUS_FLAG_DND = 0x0002"
definition STATUS_FLAG_NA :: u16 where "STATUS_FLAG_NA = 0x0004"
definition STATUS_FLAG_OCCUPIED :: u16 where "STATUS_FLAG_OCCUPIED = 0x0010"
definition STATUS_FLAG_FREEFORCHAT :: u16 where "STATUS_FLAG_FREEFORCHAT = 0x0020"
definition STATUS_FLAG_INVISIBLE :: u16 where "STATUS_FLAG_INVISIBLE = 0x0100"

section \<open>Detailed information\<close>

record main_home_info =
  cellular :: string
  normalised_cellular :: string
  home_alias :: string
  firstname :: string
  lastname :: string
  email :: string
  home_city :: string
  home_state :: string
  phone :: string
  fax :: string
  home_street :: string
  home_zip :: string
  home_country :: int
  timezone :: int

record homepage_info =
  age :: u8
  sex :: int
  lang1 :: int
  lang2 :: int
  lang3 :: int
  homepage :: string
  birth_year :: u16
  birth_month :: u8
  birth_day :: u8

record email_info =
  emails :: "string list"

record work_info =
  work_city :: string
  work_state :: string
  work_street :: string
  work_zip :: string
  work_country :: u16
  company_name :: string
  company_dept :: string
  company_position :: string
  company_web :: string

record background_info =
  schools :: "(u16 \<times> string) list"

record personal_interest_info =
  interests :: "(u16 \<times> string) list"

definition new_MainHomeInfo :: main_home_info where
  "new_MainHomeInfo =
     \<lparr>cellular = '''', normalised_cellular = '''', home_alias = '''', firstname = '''', lastname = '''',
      email = '''', home_city = '''', home_state = '''', phone = '''', fax = '''', home_street = '''',
      home_zip = '''', home_country = 0, timezone = - 100\<rparr>"

definition normaliseMobileNo :: "main_home_info \<Rightarrow> main_home_info" where
  "normaliseMobileNo i = i\<lparr>normalised_cellular := filter isdigit (cellular i)\<rparr>"

definition info_setMobileNo :: "string \<Rightarrow> main_home_info \<Rightarrow> main_home_info" where
  "info_setMobileNo s i = normaliseMobileNo (i\<lparr>cellular := s\<rparr>)"

definition new_HomepageInfo :: homepage_info where
  "new_HomepageInfo =
     \<lparr>age = 0, sex = 0, lang1 = 0, lang2 = 0, lang3 = 0, homepage = '''', birth_year = 0,
      birth_month = 0, birth_day = 0\<rparr>"

definition getBirthDate :: "(u16 \<Rightarrow> u8 \<Rightarrow> u8 \<Rightarrow> string) \<Rightarrow> homepage_info \<Rightarrow> string" where
  "getBirthDate format_date i =
     (if birth_day i = 0 \<or> birth_year i = 0 then ''Unspecified''
      else format_date (birth_year i) (birth_month i) (birth_day i))"

definition getLanguage :: "int \<Rightarrow> homepage_info \<Rightarrow> int" where
  "getLanguage l i =
     (if l = 1 then lang1 i else if l = 2 then lang2 i else if l = 3 then lang3 i else 0)"

definition new_EmailInfo :: email_info where
  "new_EmailInfo = \<lparr>emails = []\<rparr>"

definition addEmailAddress :: "string \<Rightarrow> email_info \<Rightarrow> email_info" where
  "addEmailAddress e i = i\<lparr>emails := emails i @ [e]\<rparr>"

definition new_WorkInfo :: work_info where
  "new_WorkInfo =
     \<lparr>work_city = '''', work_state = '''', work_street = '''', work_zip = '''', work_country = 0,
      company_name = '''', company_dept = '''', company_position = '''', company_web = ''''\<rparr>"

definition new_BackgroundInfo :: background_info where
  "new_BackgroundInfo = \<lparr>schools = []\<rparr>"

definition addSchool :: "u16 \<Rightarrow> string \<Rightarrow> background_info \<Rightarrow> background_info" where
  "addSchool cat s i = i\<lparr>schools := schools i @ [(cat, s)]\<rparr>"

definition new_PersonalInterestInfo :: personal_interest_info where
  "new_PersonalInterestInfo = \<lparr>interests = []\<rparr>"

definition addInterest :: "u16 \<Rightarrow> string \<Rightarrow> personal_interest_info \<Rightarrow> personal_interest_info" where
  "addInterest cat s i = i\<lparr>interests := interests i @ [(cat, s)]\<rparr>"

section \<open>The contact\<close>

record contact =
  m_virtualcontact :: bool
  m_uin :: u32
  m_tcp_version :: u8
  m_dc_cookie :: u32
  m_status :: status
  m_invisible :: bool
  m_authreq :: bool
  m_authawait :: bool
  m_direct :: bool
  m_bday :: bool
  m_server_based :: bool
  m_ext_ip :: u32
  m_lan_ip :: u32
  m_ext_port :: u16
  m_lan_port :: u16
  m_group_id :: u16
  m_tag_id :: u16
  m_capabilities :: "capabilities option"
  m_signon_time :: u32
  m_last_online_time :: u32
  m_last_status_change_time :: u32
  m_last_message_time :: u32
  m_last_away_msg_check_time :: u32
  m_seqnum :: u16
  m_main_home_info :: main_home_info
  m_homepage_info :: homepage_info
  m_email_info :: email_info
  m_work_info :: work_info
  m_personal_interest_info :: personal_interest_info
  m_background_info :: background_info
  m_about :: string

text \<open>\<^verbatim>\<open>StatusChangeEvent\<close> with the new and the old status, \<^verbatim>\<open>UserInfoChangeEvent\<close> with its flag.\<close>

datatype contact_signal = StatusChange status status | UserInfoChange bool

definition UINtoString :: "u32 \<Rightarrow> string" where
  "UINtoString uin = show_nat (unat uin)"

definition StringtoUIN :: "string \<Rightarrow> u32" where
  "StringtoUIN s = read_unsigned s"

text \<open>The counter \<^verbatim>\<open>imag_uin\<close> is a static member.\<close>

definition nextImaginaryUIN :: "u32 \<Rightarrow> u32 \<times> u32" where
  "nextImaginaryUIN imag_uin = (imag_uin - 1, imag_uin - 1)"

text \<open>
  What the three constructors share (the member initialisers and \<open>Init\<close>). \<open>m_authawait\<close> is set by
  none of them: its first value \<open>indet\<close> is whatever the memory held.
\<close>

definition Init :: "bool \<Rightarrow> bool \<Rightarrow> u32 \<Rightarrow> capabilities option \<Rightarrow> string \<Rightarrow> contact" where
  "Init indet virt uin cs al =
     \<lparr>m_virtualcontact = virt, m_uin = uin, m_tcp_version = 0, m_dc_cookie = 0,
      m_status = STATUS_OFFLINE, m_invisible = False, m_authreq = False, m_authawait = indet,
      m_direct = True, m_bday = False, m_server_based = False, m_ext_ip = 0, m_lan_ip = 0,
      m_ext_port = 0, m_lan_port = 0, m_group_id = 0, m_tag_id = 0, m_capabilities = cs,
      m_signon_time = 0, m_last_online_time = 0, m_last_status_change_time = 0,
      m_last_message_time = 0, m_last_away_msg_check_time = 0, m_seqnum = 0xffff,
      m_main_home_info = new_MainHomeInfo\<lparr>home_alias := al\<rparr>, m_homepage_info = new_HomepageInfo,
      m_email_info = new_EmailInfo, m_work_info = new_WorkInfo,
      m_personal_interest_info = new_PersonalInterestInfo,
      m_background_info = new_BackgroundInfo, m_about = ''''\<rparr>"

definition default_contact :: "bool \<Rightarrow> u32 \<Rightarrow> contact \<times> u32" where
  "default_contact indet imag_uin =
     (case nextImaginaryUIN imag_uin of (u, imag_uin) \<Rightarrow> (Init indet True u None '''', imag_uin))"

definition uin_contact :: "bool \<Rightarrow> u32 \<Rightarrow> contact" where
  "uin_contact indet uin = Init indet False uin (Some new_capabilities) (UINtoString uin)"

definition alias_contact :: "bool \<Rightarrow> string \<Rightarrow> u32 \<Rightarrow> contact \<times> u32" where
  "alias_contact indet a imag_uin =
     (case nextImaginaryUIN imag_uin of (u, imag_uin) \<Rightarrow>
        (Init indet True u (Some new_capabilities) a, imag_uin))"

section \<open>Access\<close>

definition getStringUIN :: "contact \<Rightarrow> string" where
  "getStringUIN c = UINtoString (m_uin c)"

definition getAlias :: "contact \<Rightarrow> string" where
  "getAlias c = home_alias (m_main_home_info c)"

definition getMobileNo :: "contact \<Rightarrow> string" where
  "getMobileNo c = cellular (m_main_home_info c)"

definition getNormalisedMobileNo :: "contact \<Rightarrow> string" where
  "getNormalisedMobileNo c = normalised_cellular (m_main_home_info c)"

definition getFirstName :: "contact \<Rightarrow> string" where
  "getFirstName c = firstname (m_main_home_info c)"

definition getLastName :: "contact \<Rightarrow> string" where
  "getLastName c = lastname (m_main_home_info c)"

definition getEmail :: "contact \<Rightarrow> string" where
  "getEmail c = email (m_main_home_info c)"

definition isICQContact :: "contact \<Rightarrow> bool" where
  "isICQContact c = (\<not> m_virtualcontact c)"

definition isVirtualContact :: "contact \<Rightarrow> bool" where
  "isVirtualContact c = m_virtualcontact c"

definition isSMSable :: "contact \<Rightarrow> bool" where
  "isSMSable c = (getNormalisedMobileNo c \<noteq> '''')"

definition getNameAlias :: "contact \<Rightarrow> string" where
  "getNameAlias c =
     (let ret = getAlias c;
          ret = (if ret = '''' then
                   (let ret = getFirstName c;
                        ret = (if ret \<noteq> '''' \<and> getLastName c \<noteq> '''' then ret @ '' '' else ret)
                    in ret @ getLastName c)
                 else ret)
      in if ret = '''' then (if isICQContact c then getStringUIN c else getMobileNo c) else ret)"

definition getDirect :: "contact \<Rightarrow> bool" where
  "getDirect c = (m_direct c \<and> m_status c \<noteq> STATUS_OFFLINE)"

definition contact_capabilities :: "contact \<Rightarrow> capabilities result" where
  "contact_capabilities c =
     (case m_capabilities c of None \<Rightarrow> Inl Uninitialised | Some cs \<Rightarrow> Inr cs)"

definition contact_accept_adv_msgs :: "contact \<Rightarrow> bool result" where
  "contact_accept_adv_msgs c =
     (if m_status c \<noteq> STATUS_OFFLINE
      then andThen (contact_capabilities c) (\<lambda>cs. Inr (get_accept_adv_msgs cs)) else Inr False)"

definition get_last_online_time :: "u32 \<Rightarrow> contact \<Rightarrow> u32" where
  "get_last_online_time now c =
     (if m_status c = STATUS_ONLINE then now else m_last_online_time c)"

text \<open>\<open>rnd\<close> is the result of \<^verbatim>\<open>rand()\<close>; the local \<^verbatim>\<open>r\<close> has 16 bits.\<close>

definition getServerSideID :: "nat \<Rightarrow> contact \<Rightarrow> u16" where
  "getServerSideID rnd c =
     (let r = m_tag_id c in
      if r = 0 then
        (let r = ucast (m_uin c) in
         if 50000 < (r :: u16)
         then (let r = r - (r - 1000) in r + of_nat (rnd mod 1000))
         else r)
      else r)"

section \<open>Change\<close>

type_synonym changed = "contact \<times> contact_signal list"

definition userinfo_change_emit :: "bool \<Rightarrow> contact \<Rightarrow> changed" where
  "userinfo_change_emit transient c = (c, [UserInfoChange transient])"

definition setUIN :: "u32 \<Rightarrow> contact \<Rightarrow> changed" where
  "setUIN uin c = userinfo_change_emit False (c\<lparr>m_uin := uin, m_virtualcontact := False\<rparr>)"

definition setDirect :: "bool \<Rightarrow> contact \<Rightarrow> changed" where
  "setDirect b c = userinfo_change_emit True (c\<lparr>m_direct := b\<rparr>)"

definition upd_info :: "(main_home_info \<Rightarrow> main_home_info) \<Rightarrow> contact \<Rightarrow> contact" where
  "upd_info f c = c\<lparr>m_main_home_info := f (m_main_home_info c)\<rparr>"

definition setMobileNo :: "string \<Rightarrow> contact \<Rightarrow> changed" where
  "setMobileNo mn c = userinfo_change_emit False (upd_info (info_setMobileNo mn) c)"

definition setAlias :: "string \<Rightarrow> contact \<Rightarrow> changed" where
  "setAlias al c = userinfo_change_emit False (upd_info (home_alias_update (\<lambda>_. al)) c)"

definition setFirstName :: "string \<Rightarrow> contact \<Rightarrow> changed" where
  "setFirstName fn c = userinfo_change_emit False (upd_info (firstname_update (\<lambda>_. fn)) c)"

definition setLastName :: "string \<Rightarrow> contact \<Rightarrow> changed" where
  "setLastName ln c = userinfo_change_emit False (upd_info (lastname_update (\<lambda>_. ln)) c)"

definition setEmail :: "string \<Rightarrow> contact \<Rightarrow> changed" where
  "setEmail em c = userinfo_change_emit False (upd_info (email_update (\<lambda>_. em)) c)"

definition setStatus :: "u32 \<Rightarrow> status \<Rightarrow> bool \<Rightarrow> contact \<Rightarrow> changed result" where
  "setStatus now st i c =
     (if m_status c = st \<and> m_invisible c = i then Inr (c, [])
      else
        (let sev = StatusChange st (m_status c);
             c = c\<lparr>m_status := st, m_invisible := i, m_last_status_change_time := now\<rparr>
         in if m_status c = STATUS_OFFLINE then
              (let c = c\<lparr>m_ext_ip := 0, m_lan_ip := 0, m_ext_port := 0, m_lan_port := 0,
                        m_tcp_version := 0\<rparr>
               in andThen (contact_capabilities c) (\<lambda>cs.
                  Inr (c\<lparr>m_capabilities := Some (caps_clear cs), m_last_online_time := now\<rparr>, [sev])))
            else Inr (c, [sev])))"

definition setStatus_same_invisible :: "u32 \<Rightarrow> status \<Rightarrow> contact \<Rightarrow> changed result" where
  "setStatus_same_invisible now st c = setStatus now st (m_invisible c) c"

definition setInvisible :: "u32 \<Rightarrow> bool \<Rightarrow> contact \<Rightarrow> changed result" where
  "setInvisible now i c = setStatus now (m_status c) i c"

definition setAuthReq :: "bool \<Rightarrow> contact \<Rightarrow> changed" where
  "setAuthReq b c = userinfo_change_emit True (c\<lparr>m_authreq := b\<rparr>)"

definition setAuthAwait :: "bool \<Rightarrow> contact \<Rightarrow> changed" where
  "setAuthAwait b c = userinfo_change_emit True (c\<lparr>m_authawait := b\<rparr>)"

definition setServerBased :: "bool \<Rightarrow> contact \<Rightarrow> changed" where
  "setServerBased b c = userinfo_change_emit True (c\<lparr>m_server_based := b\<rparr>)"

definition setExtIP :: "u32 \<Rightarrow> contact \<Rightarrow> changed" where
  "setExtIP ip c = userinfo_change_emit True (c\<lparr>m_ext_ip := ip\<rparr>)"

definition setLanIP :: "u32 \<Rightarrow> contact \<Rightarrow> changed" where
  "setLanIP ip c = userinfo_change_emit True (c\<lparr>m_lan_ip := ip\<rparr>)"

definition setExtPort :: "u16 \<Rightarrow> contact \<Rightarrow> changed" where
  "setExtPort port c = userinfo_change_emit True (c\<lparr>m_ext_port := port\<rparr>)"

definition setLanPort :: "u16 \<Rightarrow> contact \<Rightarrow> changed" where
  "setLanPort port c = userinfo_change_emit True (c\<lparr>m_lan_port := port\<rparr>)"

definition setTCPVersion :: "u8 \<Rightarrow> contact \<Rightarrow> changed" where
  "setTCPVersion v c = userinfo_change_emit True (c\<lparr>m_tcp_version := v\<rparr>)"

definition setDCCookie :: "u32 \<Rightarrow> contact \<Rightarrow> changed" where
  "setDCCookie cookie c = userinfo_change_emit True (c\<lparr>m_dc_cookie := cookie\<rparr>)"

definition setServerSideInfo :: "u16 \<Rightarrow> u16 \<Rightarrow> contact \<Rightarrow> changed" where
  "setServerSideInfo group_id tag_id c =
     userinfo_change_emit True (c\<lparr>m_group_id := group_id, m_tag_id := tag_id\<rparr>)"

definition set_contact_capabilities :: "capabilities \<Rightarrow> contact \<Rightarrow> contact result" where
  "set_contact_capabilities cs c =
     andThen (contact_capabilities c) (\<lambda>_. Inr (c\<lparr>m_capabilities := Some cs\<rparr>))"

definition set_signon_time :: "u32 \<Rightarrow> contact \<Rightarrow> changed" where
  "set_signon_time t c = userinfo_change_emit True (c\<lparr>m_signon_time := t\<rparr>)"

definition set_last_online_time :: "u32 \<Rightarrow> contact \<Rightarrow> changed" where
  "set_last_online_time t c = userinfo_change_emit True (c\<lparr>m_last_online_time := t\<rparr>)"

definition set_last_status_change_time :: "u32 \<Rightarrow> contact \<Rightarrow> changed" where
  "set_last_status_change_time t c =
     userinfo_change_emit True (c\<lparr>m_last_status_change_time := t\<rparr>)"

definition set_last_message_time :: "u32 \<Rightarrow> contact \<Rightarrow> changed" where
  "set_last_message_time t c = userinfo_change_emit True (c\<lparr>m_last_message_time := t\<rparr>)"

definition set_last_away_msg_check_time :: "u32 \<Rightarrow> contact \<Rightarrow> changed" where
  "set_last_away_msg_check_time t c =
     userinfo_change_emit True (c\<lparr>m_last_away_msg_check_time := t\<rparr>)"

definition setMainHomeInfo :: "main_home_info \<Rightarrow> contact \<Rightarrow> changed" where
  "setMainHomeInfo s c = userinfo_change_emit False (c\<lparr>m_main_home_info := s\<rparr>)"

definition setHomepageInfo :: "homepage_info \<Rightarrow> contact \<Rightarrow> changed" where
  "setHomepageInfo s c = userinfo_change_emit False (c\<lparr>m_homepage_info := s\<rparr>)"

definition setEmailInfo :: "email_info \<Rightarrow> contact \<Rightarrow> changed" where
  "setEmailInfo s c = userinfo_change_emit False (c\<lparr>m_email_info := s\<rparr>)"

definition setWorkInfo :: "work_info \<Rightarrow> contact \<Rightarrow> changed" where
  "setWorkInfo s c = userinfo_change_emit False (c\<lparr>m_work_info := s\<rparr>)"

definition setInterestInfo :: "personal_interest_info \<Rightarrow> contact \<Rightarrow> changed" where
  "setInterestInfo s c = userinfo_change_emit False (c\<lparr>m_personal_interest_info := s\<rparr>)"

definition setBackgroundInfo :: "background_info \<Rightarrow> contact \<Rightarrow> changed" where
  "setBackgroundInfo s c = userinfo_change_emit False (c\<lparr>m_background_info := s\<rparr>)"

definition setAboutInfo :: "string \<Rightarrow> contact \<Rightarrow> changed" where
  "setAboutInfo about c = userinfo_change_emit False (c\<lparr>m_about := about\<rparr>)"

definition setBirthday :: "bool \<Rightarrow> contact \<Rightarrow> changed" where
  "setBirthday b c = userinfo_change_emit True (c\<lparr>m_bday := b\<rparr>)"

definition nextSeqNum :: "contact \<Rightarrow> u16 \<times> contact" where
  "nextSeqNum c = (m_seqnum c - 1, c\<lparr>m_seqnum := m_seqnum c - 1\<rparr>)"

section \<open>Status codes of the protocol\<close>

definition MapStatusToICQStatus :: "status \<Rightarrow> bool \<Rightarrow> u16" where
  "MapStatusToICQStatus st i =
     (let s = (case st of
                 STATUS_ONLINE \<Rightarrow> 0x0000
               | STATUS_AWAY \<Rightarrow> 0x0001
               | STATUS_NA \<Rightarrow> 0x0005
               | STATUS_OCCUPIED \<Rightarrow> 0x0011
               | STATUS_DND \<Rightarrow> 0x0013
               | STATUS_FREEFORCHAT \<Rightarrow> 0x0020
               | STATUS_OFFLINE \<Rightarrow> 0x0000)
      in if i then s OR STATUS_FLAG_INVISIBLE else s)"

definition MapICQStatusToStatus :: "u16 \<Rightarrow> status" where
  "MapICQStatusToStatus st =
     (if st AND STATUS_FLAG_DND \<noteq> 0 then STATUS_DND
      else if st AND STATUS_FLAG_NA \<noteq> 0 then STATUS_NA
      else if st AND STATUS_FLAG_OCCUPIED \<noteq> 0 then STATUS_OCCUPIED
      else if st AND STATUS_FLAG_FREEFORCHAT \<noteq> 0 then STATUS_FREEFORCHAT
      else if st AND STATUS_FLAG_AWAY \<noteq> 0 then STATUS_AWAY
      else STATUS_ONLINE)"

definition MapICQStatusToInvisible :: "u16 \<Rightarrow> bool" where
  "MapICQStatusToInvisible st = (st AND STATUS_FLAG_INVISIBLE \<noteq> 0)"

section \<open>The contacts a program can come by\<close>

text \<open>
  \<open>info_reach\<close>: the values of \<^verbatim>\<open>MainHomeInfo\<close> obtained through its interface; the two numbers are
  private. \<open>contact_reach\<close>: contacts from the constructors with a UIN or an alias under the
  operations of the class.
\<close>

inductive info_reach :: "main_home_info \<Rightarrow> bool" where
  info_new: "info_reach new_MainHomeInfo"
| info_mobile: "info_reach i \<Longrightarrow> info_reach (info_setMobileNo s i)"
| info_public: "info_reach i \<Longrightarrow> cellular j = cellular i \<Longrightarrow>
    normalised_cellular j = normalised_cellular i \<Longrightarrow> info_reach j"

inductive contact_reach :: "contact \<Rightarrow> bool" where
  reach_uin: "contact_reach (uin_contact indet u)"
| reach_alias: "contact_reach (fst (alias_contact indet a imag))"
| reach_status: "contact_reach c \<Longrightarrow> setStatus now st i c = Inr (c', sigs) \<Longrightarrow> contact_reach c'"
| reach_caps: "contact_reach c \<Longrightarrow> set_contact_capabilities cs c = Inr c' \<Longrightarrow> contact_reach c'"
| reach_setUIN: "contact_reach c \<Longrightarrow> contact_reach (fst (setUIN u c))"
| reach_setMobileNo: "contact_reach c \<Longrightarrow> contact_reach (fst (setMobileNo s c))"
| reach_setAlias: "contact_reach c \<Longrightarrow> contact_reach (fst (setAlias s c))"
| reach_setFirstName: "contact_reach c \<Longrightarrow> contact_reach (fst (setFirstName s c))"
| reach_setLastName: "contact_reach c \<Longrightarrow> contact_reach (fst (setLastName s c))"
| reach_setEmail: "contact_reach c \<Longrightarrow> contact_reach (fst (setEmail s c))"
| reach_setMainHomeInfo: "contact_reach c \<Longrightarrow> info_reach h \<Longrightarrow> contact_reach (fst (setMainHomeInfo h c))"
| reach_seq: "contact_reach c \<Longrightarrow> contact_reach (snd (nextSeqNum c))"
| reach_info: "contact_reach c \<Longrightarrow> c' \<in> fst ` {setHomepageInfo hp c, setEmailInfo ei c, setWorkInfo wi c,
    setInterestInfo ii c, setBackgroundInfo bi c, setAboutInfo s c} \<Longrightarrow> contact_reach c'"
| reach_flag: "contact_reach c \<Longrightarrow> c' \<in> fst ` {setDirect b c, setAuthReq b c, setAuthAwait b c,
    setServerBased b c, setBirthday b c} \<Longrightarrow> contact_reach c'"
| reach_net: "contact_reach c \<Longrightarrow> c' \<in> fst ` {setExtIP w c, setLanIP w c, setExtPort p c, setLanPort p c,
    setTCPVersion v c, setDCCookie w c, setServerSideInfo p q c} \<Longrightarrow> contact_reach c'"
| reach_time: "contact_reach c \<Longrightarrow> c' \<in> fst ` {set_signon_time w c, set_last_online_time w c,
    set_last_status_change_time w c, set_last_message_time w c, set_last_away_msg_check_time w c} \<Longrightarrow>
    contact_reach c'"

definition digits_inv :: "main_home_info \<Rightarrow> bool" where
  "digits_inv i = (normalised_cellular i = filter isdigit (cellular i))"

definition contact_inv :: "contact \<Rightarrow> bool" where
  "contact_inv c = (digits_inv (m_main_home_info c) \<and> m_capabilities c \<noteq> None)"

lemmas emit_defs = userinfo_change_emit_def upd_info_def

lemmas setter_defs = setUIN_def setDirect_def setMobileNo_def setAlias_def setFirstName_def
  setLastName_def setEmail_def setAuthReq_def setAuthAwait_def setServerBased_def setExtIP_def
  setLanIP_def setExtPort_def setLanPort_def setTCPVersion_def setDCCookie_def
  setServerSideInfo_def set_signon_time_def set_last_online_time_def
  set_last_status_change_time_def set_last_message_time_def set_last_away_msg_check_time_def
  setMainHomeInfo_def setHomepageInfo_def setEmailInfo_def setWorkInfo_def setInterestInfo_def
  setBackgroundInfo_def setAboutInfo_def setBirthday_def

lemma digits_inv_setMobileNo [simp]: "digits_inv (info_setMobileNo s i)"
  by (simp add: digits_inv_def info_setMobileNo_def normaliseMobileNo_def)

lemma info_reach_digits: "info_reach i \<Longrightarrow> digits_inv i"
proof (induction rule: info_reach.induct)
  case info_new
  then show ?case by (simp add: digits_inv_def new_MainHomeInfo_def)
next
  case (info_public i j)
  then show ?case by (simp add: digits_inv_def)
qed simp

lemma setStatus_inv:
  "contact_inv c \<Longrightarrow> setStatus now st i c = Inr (c', sigs) \<Longrightarrow> contact_inv c'"
  by (auto simp: setStatus_def contact_inv_def contact_capabilities_def andThen_def Let_def
      split: if_splits option.splits)

lemma reach_contact_inv: "contact_reach c \<Longrightarrow> contact_inv c"
proof (induction rule: contact_reach.induct)
  case (reach_uin indet u)
  then show ?case
    by (simp add: contact_inv_def uin_contact_def Init_def digits_inv_def new_MainHomeInfo_def)
next
  case (reach_alias indet a imag)
  then show ?case
    by (simp add: contact_inv_def alias_contact_def Init_def digits_inv_def new_MainHomeInfo_def
        nextImaginaryUIN_def)
next
  case (reach_status c now st i c' sigs)
  then show ?case by (blast intro: setStatus_inv)
next
  case (reach_caps c cs c')
  then show ?case
    by (auto simp: contact_inv_def set_contact_capabilities_def andThen_def split: sum.splits)
next
  case (reach_setMainHomeInfo c h)
  then show ?case by (simp add: contact_inv_def setMainHomeInfo_def emit_defs info_reach_digits)
qed (auto simp: contact_inv_def digits_inv_def setter_defs emit_defs nextSeqNum_def
    info_setMobileNo_def normaliseMobileNo_def)

lemma status_of_code:
  "MapICQStatusToStatus (MapStatusToICQStatus st i) = (if st = STATUS_OFFLINE then STATUS_ONLINE else st) \<and>
   MapICQStatusToInvisible (MapStatusToICQStatus st i) = i"
  by (cases st; cases i)
    (simp_all add: MapICQStatusToStatus_def MapStatusToICQStatus_def MapICQStatusToInvisible_def Let_def
      STATUS_FLAG_AWAY_def STATUS_FLAG_DND_def STATUS_FLAG_NA_def STATUS_FLAG_OCCUPIED_def
      STATUS_FLAG_FREEFORCHAT_def STATUS_FLAG_INVISIBLE_def)

section \<open>Properties\<close>

text \<open>The status codes of the protocol carry every status a contact can have on line and the
  invisibility flag: decoding an encoded status gives both back. (Offline has no code; it is
  sent as on line.)\<close>

theorem status_code_roundtrip:
  "MapICQStatusToStatus (MapStatusToICQStatus st i) = (if st = STATUS_OFFLINE then STATUS_ONLINE else st) \<and>
   MapICQStatusToInvisible (MapStatusToICQStatus st i) = i"
  by (rule status_of_code)

text \<open>A UIN printed in decimal is read back unchanged.\<close>

theorem uin_string_roundtrip: "StringtoUIN (UINtoString u) = u"
  using unsigned_less [of u, where ?'a = nat]
  by (simp add: StringtoUIN_def UINtoString_def read_unsigned_show_nat)

text \<open>In every contact built with a UIN or an alias and changed by the operations of the class,
  the normalised mobile number is the digits of the mobile number and no status change touches
  an uninitialised pointer.\<close>

theorem contact_class_invariant:
  assumes "contact_reach c"
  shows "getNormalisedMobileNo c = filter isdigit (getMobileNo c) \<and>
    (\<exists>c' sigs. setStatus now st i c = Inr (c', sigs))"
proof -
  have inv: "contact_inv c"
    using assms by (rule reach_contact_inv)
  then have "\<exists>c' sigs. setStatus now st i c = Inr (c', sigs)"
    by (auto simp: contact_inv_def setStatus_def contact_capabilities_def Let_def)
  then show ?thesis
    using inv by (simp add: contact_inv_def digits_inv_def getNormalisedMobileNo_def getMobileNo_def)
qed

theorem contact_class_invariant_witness:
  "getNormalisedMobileNo (fst (setMobileNo ''+44 7'' (uin_contact False 5))) = ''447''"
  using contact_class_invariant [OF reach_setMobileNo [OF reach_uin [of False 5]], of "''+44 7''"]
  by (simp add: getMobileNo_def setMobileNo_def emit_defs info_setMobileNo_def normaliseMobileNo_def
      isdigit_def)

text \<open>A change of status is announced with the old and the new status exactly when status or
  invisibility change, and going off line clears the addresses, ports, protocol version and
  capabilities.\<close>

theorem setStatus_effect:
  assumes "m_capabilities c = Some cs" and "(m_status c, m_invisible c) \<noteq> (st, i)"
  shows "\<exists>c'. setStatus now st i c = Inr (c', [StatusChange st (m_status c)]) \<and>
    m_status c' = st \<and> m_invisible c' = i \<and> m_uin c' = m_uin c \<and> m_last_status_change_time c' = now \<and>
    (if st = STATUS_OFFLINE
     then m_ext_ip c' = 0 \<and> m_lan_ip c' = 0 \<and> m_ext_port c' = 0 \<and> m_lan_port c' = 0 \<and> m_tcp_version c' = 0 \<and>
       m_capabilities c' = Some new_capabilities \<and> m_last_online_time c' = now
     else m_capabilities c' = Some cs \<and> m_ext_ip c' = m_ext_ip c \<and> m_last_online_time c' = m_last_online_time c)"
  using assms
  by (auto simp: setStatus_def contact_capabilities_def Let_def caps_clear_def new_capabilities_def)

theorem setStatus_effect_witness:
  "\<exists>c'. setStatus 9 STATUS_AWAY True (uin_contact False 5) = Inr (c', [StatusChange STATUS_AWAY STATUS_OFFLINE])"
  using setStatus_effect [of "uin_contact False 5" new_capabilities STATUS_AWAY True 9]
  by (auto simp: uin_contact_def Init_def)

text \<open>A contact made by the default constructor cannot go on line and off line again: its
  capabilities pointer is never set, and the change to off line dereferences it.\<close>

theorem default_contact_fault:
  "andThen (setStatus t STATUS_ONLINE False (fst (default_contact indet imag)))
     (\<lambda>(c, _). setStatus t' STATUS_OFFLINE False c) = Inl Uninitialised"
  by (simp add: default_contact_def nextImaginaryUIN_def Init_def setStatus_def Let_def
      contact_capabilities_def)

fun imaginary_uins :: "nat \<Rightarrow> u32 \<Rightarrow> u32 list" where
  "imaginary_uins 0 imag = []"
| "imaginary_uins (Suc n) imag = (case nextImaginaryUIN imag of (u, imag) \<Rightarrow> u # imaginary_uins n imag)"

lemma imaginary_uins_map:
  "imaginary_uins n imag = map (\<lambda>k. imag - of_nat (Suc k)) [0..<n]"
proof (induction n arbitrary: imag)
  case (Suc n)
  show ?case
    unfolding imaginary_uins.simps nextImaginaryUIN_def split Suc.IH
    by (simp add: upt_rec [of 0 "Suc n"] map_Suc_upt [symmetric] o_def algebra_simps del: upt_Suc)
qed simp

text \<open>The imaginary UINs handed out to contacts without one, up to 2^32 of them, are distinct
  from each other.\<close>

theorem imaginary_uins_distinct:
  "distinct (imaginary_uins n imag) \<longleftrightarrow> n \<le> 2 ^ 32"
proof
  assume d: "distinct (imaginary_uins n imag)"
  have "card (set (imaginary_uins n imag)) \<le> card (UNIV :: u32 set)"
    by (rule card_mono) simp_all
  then show "n \<le> 2 ^ 32"
    using distinct_card [OF d] by (simp add: imaginary_uins_map card_word)
next
  assume "n \<le> 2 ^ 32"
  then have "inj_on (\<lambda>k. imag - of_nat (Suc k) :: u32) {0..<n}"
    by (intro inj_onI) (simp add: word_of_nat_eq_iff take_bit_nat_eq_self)
  then show "distinct (imaginary_uins n imag)"
    by (simp add: imaginary_uins_map distinct_map)
qed

text \<open>The server-side id of a contact without a stored tag is the low 16 bits of its UIN up to
  50000 and a number from 1000 to 1999 above.\<close>

theorem getServerSideID_range:
  "m_tag_id c = 0 \<longrightarrow>
     (if 50000 < unat (m_uin c) mod 65536
      then unat (getServerSideID rnd c) = 1000 + rnd mod 1000
      else unat (getServerSideID rnd c) = unat (m_uin c) mod 65536)"
proof -
  have u: "unat (ucast (m_uin c) :: u16) = unat (m_uin c) mod 65536"
    by (simp add: unsigned_ucast_eq take_bit_eq_mod)
  have "unat (1000 + of_nat (rnd mod 1000) :: u16) = 1000 + rnd mod 1000"
  proof -
    have "rnd mod 1000 < 1000" by simp
    moreover have "(1000 + of_nat (rnd mod 1000) :: u16) = of_nat (1000 + rnd mod 1000)" by simp
    ultimately show ?thesis
      by (simp only: unat_of_nat) simp
  qed
  then show ?thesis
    by (simp add: getServerSideID_def Let_def word_less_nat_alt u)
qed

theorem getServerSideID_range_witness:
  "unat (getServerSideID 12345 (uin_contact False 65000)) = 1345"
  using getServerSideID_range [of "uin_contact False 65000" 12345]
  by (simp add: uin_contact_def Init_def)

end
