(* ===== verification/OrdMap.thy ===== *)
theory OrdMap
  imports KeyedStore "HOL-Library.Multiset"
begin

text \<open>
  \<^verbatim>\<open>std::map\<close> as the code uses it: an association list in the order of the keys. \<^verbatim>\<open>insert\<close> leaves an
  entry that is already there as it is; iteration is in the order of the keys.
\<close>

type_synonym ('k, 'v) ord_map = "('k \<times> 'v) list"

fun map_insert :: "'k :: linorder \<Rightarrow> 'v \<Rightarrow> ('k, 'v) ord_map \<Rightarrow> ('k, 'v) ord_map" where
  "map_insert k v [] = [(k, v)]"
| "map_insert k v ((j, w) # m) =
     (if k < j then (k, v) # (j, w) # m
      else if k = j then (j, w) # m
      else (j, w) # map_insert k v m)"

fun map_erase :: "'k \<Rightarrow> ('k, 'v) ord_map \<Rightarrow> ('k, 'v) ord_map" where
  "map_erase k [] = []"
| "map_erase k ((j, w) # m) = (if k = j then m else (j, w) # map_erase k m)"

definition map_ok :: "('k :: linorder, 'v) ord_map \<Rightarrow> bool" where
  "map_ok m = sorted_wrt (<) (map fst m)"

lemma map_ok_Nil [simp]: "map_ok []"
  by (simp add: map_ok_def)

lemma map_ok_Cons [simp]: "map_ok ((k, v) # m) \<longleftrightarrow> (\<forall>j\<in>fst ` set m. k < j) \<and> map_ok m"
  by (auto simp: map_ok_def)

lemma map_ok_distinct: "map_ok m \<Longrightarrow> distinct (map fst m)"
  by (simp add: map_ok_def strict_sorted_iff)

lemma fst_set_map_insert: "fst ` set (map_insert k v m) = insert k (fst ` set m)"
  by (induction k v m rule: map_insert.induct) auto

lemma map_ok_insert [simp]: "map_ok m \<Longrightarrow> map_ok (map_insert k v m)"
  by (induction k v m rule: map_insert.induct) (auto simp: fst_set_map_insert)

lemma fst_set_map_erase: "fst ` set (map_erase k m) \<subseteq> fst ` set m"
  by (induction k m rule: map_erase.induct) auto

lemma map_ok_erase [simp]: "map_ok m \<Longrightarrow> map_ok (map_erase k m)"
  using fst_set_map_erase by (induction k m rule: map_erase.induct) (auto, fastforce)

lemma map_of_map_insert:
  "map_ok m \<Longrightarrow> map_of (map_insert k v m) =
     (if map_of m k = None then (map_of m)(k \<mapsto> v) else map_of m)"
proof (induction k v m rule: map_insert.induct)
  case (2 k v j w m)
  then show ?case
  proof (cases "k < j")
    case True
    then have "k \<notin> fst ` set m" using 2 by force
    then have "map_of m k = None" by (simp add: map_of_eq_None_iff)
    then show ?thesis using True by auto
  qed auto
qed auto

lemma map_of_map_erase: "map_ok m \<Longrightarrow> map_of (map_erase k m) = (map_of m)(k := None)"
proof (induction k m rule: map_erase.induct)
  case (2 k j w m)
  then show ?case
  proof (cases "k = j")
    case True
    then have "k \<notin> fst ` set m" using 2 by force
    then have "map_of m k = None" by (simp add: map_of_eq_None_iff)
    then show ?thesis using True by (auto simp: fun_eq_iff)
  qed auto
qed simp

lemma length_map_insert:
  "map_ok m \<Longrightarrow> length (map_insert k v m) = (if map_of m k = None then Suc (length m) else length m)"
proof (induction k v m rule: map_insert.induct)
  case (2 k v j w m)
  then show ?case
  proof (cases "k < j")
    case True
    then have "k \<notin> fst ` set m" using 2 by force
    then have "map_of m k = None" by (simp add: map_of_eq_None_iff)
    then show ?thesis using True by auto
  qed auto
qed simp

lemma length_map_erase:
  "length (map_erase k m) = (if map_of m k = None then length m else length m - 1)"
  by (induction k m rule: map_erase.induct) (auto dest!: map_of_SomeD length_pos_if_in_set)

lemma map_erase_absent: "map_of m k = None \<Longrightarrow> map_erase k m = m"
  by (induction k m rule: map_erase.induct) (auto split: if_splits)

lemma mset_map_insert:
  "map_ok m \<Longrightarrow> map_of m k = None \<Longrightarrow> mset (map_insert k v m) = add_mset (k, v) (mset m)"
  by (induction k v m rule: map_insert.induct) (auto split: if_splits)

lemma mset_map_erase: "map_of m k = Some v \<Longrightarrow> add_mset (k, v) (mset (map_erase k m)) = mset m"
  by (induction k m rule: map_erase.induct) (auto split: if_splits)

lemma map_of_cong_mset:
  assumes "mset xs = mset ys" and "distinct (map fst xs)"
  shows "map_of xs = map_of ys"
proof -
  have "mset (map fst xs) = mset (map fst ys)"
    using assms(1) by (metis mset_map)
  then have "distinct (map fst ys)"
    using assms(2) mset_eq_imp_distinct_iff by blast
  moreover have "set xs = set ys"
    using assms(1) by (rule mset_eq_setD)
  ultimately show ?thesis
    using assms(2) by (simp add: map_of_inject_set)
qed

interpretation ordered_map: keyed_store map_of map_insert map_erase map_ok
  by unfold_locales (simp_all add: map_of_map_insert map_of_map_erase)

text \<open>The first entry in the order of the keys whose value satisfies a condition.\<close>

definition find_value :: "('v \<Rightarrow> bool) \<Rightarrow> ('k, 'v) ord_map \<Rightarrow> 'v option" where
  "find_value p m = find p (map snd m)"

lemma find_value_Some_iff: "find_value p m \<noteq> None \<longleftrightarrow> (\<exists>v\<in>snd ` set m. p v)"
  by (auto simp: find_value_def find_None_iff)

lemma find_value_sound:
  assumes "map_ok m" and "find_value p m = Some v"
  obtains k where "map_of m k = Some v" and "p v"
proof -
  have "v \<in> set (map snd m)" "p v"
    using assms(2) by (auto simp: find_value_def find_Some_iff)
  then obtain k where "(k, v) \<in> set m"
    by auto
  then show ?thesis
    using \<open>p v\<close>
    that map_ok_distinct [OF assms(1)] by simp
qed

end
