(* ===== verification/ContactTree.thy ===== *)
theory ContactTree
  imports Contact OrdMap
begin

text \<open>
  The two containers of contacts: the flat \<^verbatim>\<open>ContactList\<close> (\<^verbatim>\<open>libicq2000/ContactList.h\<close>,
  \<^verbatim>\<open>src/ContactList.cpp\<close>) and the \<^verbatim>\<open>ContactTree\<close> of groups (\<^verbatim>\<open>libicq2000/ContactTree.h\<close>,
  \<^verbatim>\<open>src/ContactTree.cpp\<close>). Both hold references to shared contacts, keyed by the UIN a contact had
  when it was added; the contacts themselves are in a store that is read when they are looked at.
  A group is referred to by its position. Events are listed in the order in which they are
  emitted; their way through the connected signals is not modelled. Random numbers come from a
  sequence that is read from a position on.
\<close>

type_synonym contact_ref = nat
type_synonym contact_store = "contact_ref \<Rightarrow> contact"
type_synonym ref_map = "(u32, contact_ref) ord_map"

section \<open>ContactList\<close>

record contact_list =
  m_cmap :: ref_map

definition new_contact_list :: contact_list where
  "new_contact_list = \<lparr>m_cmap = []\<rparr>"

definition cl_insert :: "u32 \<Rightarrow> contact_ref \<Rightarrow> contact_list \<Rightarrow> contact_list" where
  "cl_insert u r cl = cl\<lparr>m_cmap := map_insert u r (m_cmap cl)\<rparr>"

definition cl_add :: "contact_store \<Rightarrow> contact_ref \<Rightarrow> contact_list \<Rightarrow> contact_ref \<times> contact_list" where
  "cl_add h r cl = (r, cl_insert (m_uin (h r)) r cl)"

definition singleton_contact_list :: "contact_store \<Rightarrow> contact_ref \<Rightarrow> contact_list" where
  "singleton_contact_list h r = snd (cl_add h r new_contact_list)"

definition cl_exists :: "u32 \<Rightarrow> contact_list \<Rightarrow> bool" where
  "cl_exists u cl = (map_of (m_cmap cl) u \<noteq> None)"

definition cl_lookup_uin :: "contact_list \<Rightarrow> u32 \<Rightarrow> contact_ref option" where
  "cl_lookup_uin cl u = map_of (m_cmap cl) u"

definition cl_lookup_mobile :: "contact_store \<Rightarrow> string \<Rightarrow> contact_list \<Rightarrow> contact_ref option" where
  "cl_lookup_mobile h m cl = find_value (\<lambda>r. getNormalisedMobileNo (h r) = m) (m_cmap cl)"

definition cl_lookup_email :: "contact_store \<Rightarrow> string \<Rightarrow> contact_list \<Rightarrow> contact_ref option" where
  "cl_lookup_email h em cl = find_value (\<lambda>r. getEmail (h r) = em) (m_cmap cl)"

definition cl_mobile_exists :: "contact_store \<Rightarrow> string \<Rightarrow> contact_list \<Rightarrow> bool" where
  "cl_mobile_exists h m cl = list_ex (\<lambda>(u, r). getNormalisedMobileNo (h r) = m) (m_cmap cl)"

definition cl_email_exists :: "contact_store \<Rightarrow> string \<Rightarrow> contact_list \<Rightarrow> bool" where
  "cl_email_exists h em cl = list_ex (\<lambda>(u, r). getEmail (h r) = em) (m_cmap cl)"

definition cl_remove :: "u32 \<Rightarrow> contact_list \<Rightarrow> contact_list" where
  "cl_remove u cl = (if cl_exists u cl then cl\<lparr>m_cmap := map_erase u (m_cmap cl)\<rparr> else cl)"

definition cl_empty :: "contact_list \<Rightarrow> bool" where
  "cl_empty cl = (m_cmap cl = [])"

definition cl_size :: "contact_list \<Rightarrow> u32" where
  "cl_size cl = of_nat (length (m_cmap cl))"

definition cl_ok :: "contact_list \<Rightarrow> bool" where
  "cl_ok cl = map_ok (m_cmap cl)"

section \<open>Groups\<close>

record group =
  m_crefs :: ref_map
  m_id :: u16
  m_label :: string

datatype contactlist_event =
    UserAdded contact_ref u16
  | UserRemoved contact_ref u16
  | UserRelocated contact_ref u16 u16
  | GroupAdded u16 string
  | GroupRemoved u16 string
  | GroupChange u16 string

definition new_group :: "string \<Rightarrow> u16 \<Rightarrow> group" where
  "new_group l i = \<lparr>m_crefs = [], m_id = i, m_label = l\<rparr>"

definition set_label :: "string \<Rightarrow> group \<Rightarrow> group \<times> contactlist_event list" where
  "set_label l g =
     (if m_label g = l then (g, [])
      else (let g = g\<lparr>m_label := l\<rparr> in (g, [GroupChange (m_id g) (m_label g)])))"

definition gp_exists :: "u32 \<Rightarrow> group \<Rightarrow> bool" where
  "gp_exists u g = (map_of (m_crefs g) u \<noteq> None)"

definition gp_lookup_uin :: "u32 \<Rightarrow> group \<Rightarrow> contact_ref option" where
  "gp_lookup_uin u g = map_of (m_crefs g) u"

definition gp_lookup_mobile :: "contact_store \<Rightarrow> string \<Rightarrow> group \<Rightarrow> contact_ref option" where
  "gp_lookup_mobile h m g = find_value (\<lambda>r. getNormalisedMobileNo (h r) = m) (m_crefs g)"

definition gp_lookup_email :: "contact_store \<Rightarrow> string \<Rightarrow> group \<Rightarrow> contact_ref option" where
  "gp_lookup_email h em g = find_value (\<lambda>r. getEmail (h r) = em) (m_crefs g)"

definition gp_mobile_exists :: "contact_store \<Rightarrow> string \<Rightarrow> group \<Rightarrow> bool" where
  "gp_mobile_exists h m g = list_ex (\<lambda>(u, r). getNormalisedMobileNo (h r) = m) (m_crefs g)"

definition gp_email_exists :: "contact_store \<Rightarrow> string \<Rightarrow> group \<Rightarrow> bool" where
  "gp_email_exists h em g = list_ex (\<lambda>(u, r). getEmail (h r) = em) (m_crefs g)"

definition gp_add :: "contact_store \<Rightarrow> contact_ref \<Rightarrow> group \<Rightarrow> group \<times> contactlist_event list" where
  "gp_add h r g =
     (g\<lparr>m_crefs := map_insert (m_uin (h r)) r (m_crefs g)\<rparr>, [UserAdded r (m_id g)])"

definition relocate_from :: "contact_store \<Rightarrow> contact_ref \<Rightarrow> group \<Rightarrow> group" where
  "relocate_from h r g =
     (if gp_exists (m_uin (h r)) g then g\<lparr>m_crefs := map_erase (m_uin (h r)) (m_crefs g)\<rparr> else g)"

definition relocate_to :: "contact_store \<Rightarrow> contact_ref \<Rightarrow> group \<Rightarrow> group" where
  "relocate_to h r g = g\<lparr>m_crefs := map_insert (m_uin (h r)) r (m_crefs g)\<rparr>"

definition gp_remove :: "u32 \<Rightarrow> group \<Rightarrow> group \<times> contactlist_event list" where
  "gp_remove u g =
     (case map_of (m_crefs g) u of
        None \<Rightarrow> (g, [])
      | Some r \<Rightarrow> (g\<lparr>m_crefs := map_erase u (m_crefs g)\<rparr>, [UserRemoved r (m_id g)]))"

definition gp_empty :: "group \<Rightarrow> bool" where
  "gp_empty g = (m_crefs g = [])"

definition gp_size :: "group \<Rightarrow> u32" where
  "gp_size g = of_nat (length (m_crefs g))"

section \<open>ContactTree\<close>

record contact_tree =
  m_groups :: "group list"

definition new_contact_tree :: contact_tree where
  "new_contact_tree = \<lparr>m_groups = []\<rparr>"

definition tree_lookup_uin :: "u32 \<Rightarrow> contact_tree \<Rightarrow> contact_ref option" where
  "tree_lookup_uin u t =
     (case find (gp_exists u) (m_groups t) of None \<Rightarrow> None | Some g \<Rightarrow> gp_lookup_uin u g)"

definition tree_lookup_mobile :: "contact_store \<Rightarrow> string \<Rightarrow> contact_tree \<Rightarrow> contact_ref option" where
  "tree_lookup_mobile h m t =
     (case find (gp_mobile_exists h m) (m_groups t) of None \<Rightarrow> None | Some g \<Rightarrow> gp_lookup_mobile h m g)"

definition tree_lookup_email :: "contact_store \<Rightarrow> string \<Rightarrow> contact_tree \<Rightarrow> contact_ref option" where
  "tree_lookup_email h em t =
     (case find (gp_email_exists h em) (m_groups t) of None \<Rightarrow> None | Some g \<Rightarrow> gp_lookup_email h em g)"

definition tree_exists :: "u32 \<Rightarrow> contact_tree \<Rightarrow> bool" where
  "tree_exists u t = list_ex (gp_exists u) (m_groups t)"

definition tree_mobile_exists :: "contact_store \<Rightarrow> string \<Rightarrow> contact_tree \<Rightarrow> bool" where
  "tree_mobile_exists h m t = list_ex (gp_mobile_exists h m) (m_groups t)"

definition tree_email_exists :: "contact_store \<Rightarrow> string \<Rightarrow> contact_tree \<Rightarrow> bool" where
  "tree_email_exists h em t = list_ex (gp_email_exists h em) (m_groups t)"

definition exists_group :: "u16 \<Rightarrow> contact_tree \<Rightarrow> bool" where
  "exists_group i t = list_ex (\<lambda>g. m_id g = i) (m_groups t)"

text \<open>The ids are drawn at random until one is free; \<open>None\<close> is a loop that does not end.\<close>

partial_function (option) get_unique_group_id ::
  "contact_tree \<Rightarrow> (nat \<Rightarrow> u16) \<Rightarrow> nat \<Rightarrow> (u16 \<times> nat) option" where
  "get_unique_group_id t rnd n =
     (if exists_group (rnd n) t then get_unique_group_id t rnd (Suc n) else Some (rnd n, Suc n))"

definition push_group ::
  "string \<Rightarrow> u16 \<Rightarrow> contact_tree \<Rightarrow> nat \<times> contact_tree \<times> contactlist_event list" where
  "push_group l i t =
     (length (m_groups t), t\<lparr>m_groups := m_groups t @ [new_group l i]\<rparr>, [GroupAdded i l])"

text \<open>\<open>add_group\<close> with an id; the result starts with the position of the new group.\<close>

definition add_group_id :: "string \<Rightarrow> u16 \<Rightarrow> (nat \<Rightarrow> u16) \<Rightarrow> nat \<Rightarrow> contact_tree \<Rightarrow>
    ((nat \<times> contact_tree \<times> contactlist_event list) \<times> nat) option" where
  "add_group_id l i rnd n t =
     (if exists_group i t
      then map_option (\<lambda>(i, n). (push_group l i t, n)) (get_unique_group_id t rnd n)
      else Some (push_group l i t, n))"

definition add_group :: "string \<Rightarrow> (nat \<Rightarrow> u16) \<Rightarrow> nat \<Rightarrow> contact_tree \<Rightarrow>
    ((nat \<times> contact_tree \<times> contactlist_event list) \<times> nat) option" where
  "add_group l rnd n t =
     (case get_unique_group_id t rnd n of
        None \<Rightarrow> None
      | Some (i, n) \<Rightarrow> add_group_id l i rnd n t)"

fun remove_group_loop :: "u16 \<Rightarrow> group list \<Rightarrow> group list \<times> contactlist_event list" where
  "remove_group_loop i [] = ([], [])"
| "remove_group_loop i (g # gs) =
     (if m_id g = i then (gs, [GroupRemoved (m_id g) (m_label g)])
      else (case remove_group_loop i gs of (gs', evs) \<Rightarrow> (g # gs', evs)))"

definition remove_group :: "u16 \<Rightarrow> contact_tree \<Rightarrow> contact_tree \<times> contactlist_event list" where
  "remove_group i t =
     (case remove_group_loop i (m_groups t) of (gs, evs) \<Rightarrow> (t\<lparr>m_groups := gs\<rparr>, evs))"

fun group_pos :: "(group \<Rightarrow> bool) \<Rightarrow> group list \<Rightarrow> nat option" where
  "group_pos p [] = None"
| "group_pos p (g # gs) = (if p g then Some 0 else map_option Suc (group_pos p gs))"

definition lookup_group_by :: "(group \<Rightarrow> bool) \<Rightarrow> (nat \<Rightarrow> u16) \<Rightarrow> nat \<Rightarrow> contact_tree \<Rightarrow>
    ((nat \<times> contact_tree \<times> contactlist_event list) \<times> nat) option" where
  "lookup_group_by p rnd n t =
     (case group_pos p (m_groups t) of
        Some i \<Rightarrow> Some ((i, t, []), n)
      | None \<Rightarrow> add_group '''' rnd n t)"

definition lookup_group :: "u16 \<Rightarrow> (nat \<Rightarrow> u16) \<Rightarrow> nat \<Rightarrow> contact_tree \<Rightarrow>
    ((nat \<times> contact_tree \<times> contactlist_event list) \<times> nat) option" where
  "lookup_group i = lookup_group_by (\<lambda>g. m_id g = i)"

definition lookup_group_containing_contact :: "contact_store \<Rightarrow> contact_ref \<Rightarrow> (nat \<Rightarrow> u16) \<Rightarrow> nat \<Rightarrow>
    contact_tree \<Rightarrow> ((nat \<times> contact_tree \<times> contactlist_event list) \<times> nat) option" where
  "lookup_group_containing_contact h r = lookup_group_by (gp_exists (m_uin (h r)))"

text \<open>An operation on the group at position \<open>i\<close>.\<close>

definition upd_group :: "nat \<Rightarrow> (group \<Rightarrow> group) \<Rightarrow> contact_tree \<Rightarrow> contact_tree" where
  "upd_group i f t = t\<lparr>m_groups := (m_groups t)[i := f (m_groups t ! i)]\<rparr>"

definition relocate_contact :: "contact_store \<Rightarrow> contact_ref \<Rightarrow> nat \<Rightarrow> nat \<Rightarrow> contact_tree \<Rightarrow>
    contact_tree \<times> contactlist_event list" where
  "relocate_contact h r from to t =
     (let t = upd_group from (relocate_from h r) t;
          t = upd_group to (relocate_to h r) t
      in (t, [UserRelocated r (m_id (m_groups t ! to)) (m_id (m_groups t ! from))]))"

fun remove_loop :: "u32 \<Rightarrow> group list \<Rightarrow> group list \<times> contactlist_event list" where
  "remove_loop u [] = ([], [])"
| "remove_loop u (g # gs) =
     (if gp_exists u g then (case gp_remove u g of (g', evs) \<Rightarrow> (g' # gs, evs))
      else (case remove_loop u gs of (gs', evs) \<Rightarrow> (g # gs', evs)))"

definition tree_remove :: "u32 \<Rightarrow> contact_tree \<Rightarrow> contact_tree \<times> contactlist_event list" where
  "tree_remove u t = (case remove_loop u (m_groups t) of (gs, evs) \<Rightarrow> (t\<lparr>m_groups := gs\<rparr>, evs))"

definition tree_size :: "contact_tree \<Rightarrow> u32" where
  "tree_size t = fold (\<lambda>g ret. ret + gp_size g) (m_groups t) 0"

definition group_size :: "contact_tree \<Rightarrow> u32" where
  "group_size t = of_nat (length (m_groups t))"

definition tree_empty :: "contact_tree \<Rightarrow> bool" where
  "tree_empty t = (m_groups t = [])"

section \<open>The contact list as a store\<close>

lemma cl_lookup_insert:
  "cl_ok cl \<Longrightarrow> cl_lookup_uin (cl_insert u r cl) =
     (if cl_lookup_uin cl u = None then (cl_lookup_uin cl)(u \<mapsto> r) else cl_lookup_uin cl)"
  by (auto simp: cl_lookup_uin_def cl_insert_def cl_ok_def map_of_map_insert fun_eq_iff)

interpretation contact_list: keyed_store cl_lookup_uin cl_insert cl_remove cl_ok
proof unfold_locales
  fix cl :: contact_list and u :: u32 and r :: contact_ref
  assume ok: "cl_ok cl"
  show "cl_lookup_uin (cl_remove u cl) = (cl_lookup_uin cl)(u := None)"
    using ok by (auto simp: cl_lookup_uin_def cl_remove_def cl_exists_def cl_ok_def map_of_map_erase fun_eq_iff)
  show "cl_ok (cl_remove u cl)"
    using ok by (simp add: cl_ok_def cl_remove_def)
  assume "cl_lookup_uin cl u = None"
  then show "cl_lookup_uin (cl_insert u r cl) = (cl_lookup_uin cl)(u \<mapsto> r)"
    by (simp add: cl_lookup_insert [OF ok])
  show "cl_ok (cl_insert u r cl)"
    using ok by (simp add: cl_ok_def cl_insert_def)
qed

interpretation group_store: keyed_store
  "\<lambda>g u. gp_lookup_uin u g" "\<lambda>u r g. g\<lparr>m_crefs := map_insert u r (m_crefs g)\<rparr>"
  "\<lambda>u g. fst (gp_remove u g)" "\<lambda>g. map_ok (m_crefs g)"
proof unfold_locales
  fix g :: group and u :: u32 and r :: contact_ref
  assume ok: "map_ok (m_crefs g)"
  show "(\<lambda>v. gp_lookup_uin v (fst (gp_remove u g))) = (\<lambda>v. gp_lookup_uin v g)(u := None)"
    using ok by (auto simp: gp_lookup_uin_def gp_remove_def map_of_map_erase fun_eq_iff split: option.split)
  show "map_ok (m_crefs (fst (gp_remove u g)))"
    using ok by (simp add: gp_remove_def split: option.split)
  assume "gp_lookup_uin u g = None"
  then show "(\<lambda>v. gp_lookup_uin v (g\<lparr>m_crefs := map_insert u r (m_crefs g)\<rparr>)) =
      (\<lambda>v. gp_lookup_uin v g)(u \<mapsto> r)"
    using ok by (auto simp: gp_lookup_uin_def map_of_map_insert fun_eq_iff)
  show "map_ok (m_crefs (g\<lparr>m_crefs := map_insert u r (m_crefs g)\<rparr>))"
    using ok by simp
qed

section \<open>The entries of a tree\<close>

definition entries_of :: "group list \<Rightarrow> ref_map" where
  "entries_of gs = concat (map m_crefs gs)"

lemma entries_of_simps [simp]:
  "entries_of [] = []" "entries_of (g # gs) = m_crefs g @ entries_of gs"
  "entries_of (gs @ hs) = entries_of gs @ entries_of hs"
  by (simp_all add: entries_of_def)

definition exclusive :: "contact_tree \<Rightarrow> bool" where
  "exclusive t = distinct (map fst (entries_of (m_groups t)))"

definition tree_ok :: "contact_tree \<Rightarrow> bool" where
  "tree_ok t = (distinct (map m_id (m_groups t)) \<and> list_all (\<lambda>g. map_ok (m_crefs g)) (m_groups t))"

lemma tree_lookup_entries: "tree_lookup_uin u t = map_of (entries_of (m_groups t)) u"
proof -
  have "(case find (gp_exists u) gs of None \<Rightarrow> None | Some g \<Rightarrow> gp_lookup_uin u g) =
      map_of (entries_of gs) u" for gs
    by (induction gs) (auto simp: gp_exists_def gp_lookup_uin_def map_add_def split: option.splits)
  then show ?thesis by (simp add: tree_lookup_uin_def)
qed

lemma tree_exists_lookup: "tree_exists u t \<longleftrightarrow> tree_lookup_uin u t \<noteq> None"
proof -
  have "list_ex (gp_exists u) gs \<longleftrightarrow> map_of (entries_of gs) u \<noteq> None" for gs
    by (induction gs) (auto simp: gp_exists_def map_add_def split: option.splits)
  then show ?thesis by (simp add: tree_exists_def tree_lookup_entries)
qed

lemma tree_size_entries: "tree_size t = of_nat (length (entries_of (m_groups t)))"
proof -
  have "fold (\<lambda>g ret. ret + gp_size g) gs s = s + of_nat (length (entries_of gs))" for gs s
    by (induction gs arbitrary: s) (simp_all add: gp_size_def)
  then show ?thesis by (simp add: tree_size_def)
qed

lemma upd_group_split:
  assumes "i < length (m_groups t)"
  obtains gs hs where "m_groups t = gs @ (m_groups t ! i) # hs" and "length gs = i"
    and "m_groups (upd_group i f t) = gs @ f (m_groups t ! i) # hs"
proof
  show "m_groups t = take i (m_groups t) @ (m_groups t ! i) # drop (Suc i) (m_groups t)"
    using assms by (rule id_take_nth_drop)
  show "length (take i (m_groups t)) = i"
    using assms by simp
  show "m_groups (upd_group i f t) = take i (m_groups t) @ f (m_groups t ! i) # drop (Suc i) (m_groups t)"
    using assms by (simp add: upd_group_def upd_conv_take_nth_drop)
qed

lemma tree_ok_upd_group:
  assumes "tree_ok t" and "i < length (m_groups t)"
    and "m_id (f (m_groups t ! i)) = m_id (m_groups t ! i)"
    and "map_ok (m_crefs (m_groups t ! i)) \<Longrightarrow> map_ok (m_crefs (f (m_groups t ! i)))"
  shows "tree_ok (upd_group i f t)"
proof -
  obtain gs hs where s: "m_groups t = gs @ (m_groups t ! i) # hs"
    "m_groups (upd_group i f t) = gs @ f (m_groups t ! i) # hs"
    using assms(2) upd_group_split [of i t f] by metis
  have "tree_ok \<lparr>m_groups = gs @ (m_groups t ! i) # hs\<rparr>"
    using assms(1) s(1) by (simp add: tree_ok_def)
  then show ?thesis
    using assms(3,4) by (simp add: tree_ok_def s(2))
qed

lemma mset_entries_upd_group:
  assumes "i < length (m_groups t)"
  shows "mset (entries_of (m_groups (upd_group i f t))) + mset (m_crefs (m_groups t ! i)) =
    mset (entries_of (m_groups t)) + mset (m_crefs (f (m_groups t ! i)))"
proof -
  obtain gs hs where s: "m_groups t = gs @ (m_groups t ! i) # hs"
    "m_groups (upd_group i f t) = gs @ f (m_groups t ! i) # hs"
    using assms upd_group_split [of i t f] by metis
  have "mset (entries_of (m_groups t)) = mset (entries_of (gs @ (m_groups t ! i) # hs))"
    using s(1) by simp
  then show ?thesis
    by (simp add: s(2))
qed

lemma length_upd_group [simp]: "length (m_groups (upd_group i f t)) = length (m_groups t)"
  by (simp add: upd_group_def)

section \<open>Group ids\<close>

lemma unique_group_id_fresh:
  assumes "get_unique_group_id t rnd n = Some r"
  shows "\<not> exists_group (fst r) t"
proof (rule get_unique_group_id.raw_induct [where P = "\<lambda>t _ _ r. \<not> exists_group (fst r) t", OF _ assms])
  fix loop :: "contact_tree \<Rightarrow> (nat \<Rightarrow> u16) \<Rightarrow> nat \<Rightarrow> (u16 \<times> nat) option" and t rnd n r
  assume "\<And>t rnd n r. loop t rnd n = Some r \<Longrightarrow> \<not> exists_group (fst r) t"
    and "(if exists_group (rnd n) t then loop t rnd (Suc n) else Some (rnd n, Suc n)) = Some r"
  then show "\<not> exists_group (fst r) t"
    by (metis fst_conv option.inject)
qed

lemma unique_group_id_returns:
  "\<not> exists_group (rnd (n + k)) t \<Longrightarrow> get_unique_group_id t rnd n \<noteq> None"
proof (induction k arbitrary: n)
  case 0
  then show ?case by (simp add: get_unique_group_id.simps)
next
  case (Suc k)
  then show ?case
    by (cases "exists_group (rnd n) t") (simp_all add: get_unique_group_id.simps [of t rnd n])
qed

lemma unique_group_id_draw:
  assumes "get_unique_group_id t rnd n = Some r"
  shows "\<exists>k. fst r = rnd (n + k)"
proof (rule get_unique_group_id.raw_induct [where P = "\<lambda>t rnd n r. \<exists>k. fst r = rnd (n + k)", OF _ assms])
  fix loop :: "contact_tree \<Rightarrow> (nat \<Rightarrow> u16) \<Rightarrow> nat \<Rightarrow> (u16 \<times> nat) option" and t rnd n r
  assume IH: "\<And>t rnd n r. loop t rnd n = Some r \<Longrightarrow> \<exists>k. fst r = rnd (n + k)"
    and body: "(if exists_group (rnd n) t then loop t rnd (Suc n) else Some (rnd n, Suc n)) = Some r"
  show "\<exists>k. fst r = rnd (n + k)"
  proof (cases "exists_group (rnd n) t")
    case True
    then have "\<exists>k. fst r = rnd (Suc n + k)"
      using IH [of t rnd "Suc n" r] body by simp
    then show ?thesis by (metis add_Suc add_Suc_right)
  next
    case False
    then have "fst r = rnd (n + 0)" using body by auto
    then show ?thesis by blast
  qed
qed

lemma exists_group_iff: "exists_group i t \<longleftrightarrow> i \<in> m_id ` set (m_groups t)"
  by (auto simp: exists_group_def list_ex_iff)

lemma push_group_ok:
  "tree_ok t \<Longrightarrow> \<not> exists_group i t \<Longrightarrow> push_group l i t = (j, t', evs) \<Longrightarrow>
   tree_ok t' \<and> entries_of (m_groups t') = entries_of (m_groups t)"
  by (auto simp: push_group_def tree_ok_def new_group_def exists_group_iff)

lemma add_group_id_ok:
  "tree_ok t \<Longrightarrow> add_group_id l i rnd n t = Some ((j, t', evs), n') \<Longrightarrow>
   tree_ok t' \<and> entries_of (m_groups t') = entries_of (m_groups t)"
  using push_group_ok unique_group_id_fresh
  by (auto simp: add_group_id_def split: if_splits) (metis fst_conv)+

lemma add_group_ok:
  "tree_ok t \<Longrightarrow> add_group l rnd n t = Some ((j, t', evs), n') \<Longrightarrow>
   tree_ok t' \<and> entries_of (m_groups t') = entries_of (m_groups t)"
  using add_group_id_ok by (auto simp: add_group_def split: option.splits)

section \<open>Changes of a tree\<close>

lemma fst_remove_group_loop [simp]:
  "fst (remove_group_loop i []) = []"
  "fst (remove_group_loop i (g # gs)) = (if m_id g = i then gs else g # fst (remove_group_loop i gs))"
  by (simp_all split: prod.split)

lemma set_remove_group_loop: "set (fst (remove_group_loop i gs)) \<subseteq> set gs"
  by (induction gs) (auto simp del: remove_group_loop.simps split: if_splits)

lemma remove_group_ok:
  assumes "tree_ok t"
  shows "tree_ok (fst (remove_group i t))"
proof -
  have "distinct (map m_id gs) \<Longrightarrow> distinct (map m_id (fst (remove_group_loop i gs)))" for gs
    using set_remove_group_loop [of i]
    by (induction gs) (simp_all del: remove_group_loop.simps, blast)
  moreover have "fst (remove_group i t) = t\<lparr>m_groups := fst (remove_group_loop i (m_groups t))\<rparr>"
    by (simp add: remove_group_def split: prod.split)
  ultimately show ?thesis
    using assms set_remove_group_loop [of i "m_groups t"] by (auto simp: tree_ok_def list_all_iff)
qed

lemma gp_remove_props:
  "m_id (fst (gp_remove u g)) = m_id g"
  "map_ok (m_crefs g) \<Longrightarrow> map_ok (m_crefs (fst (gp_remove u g)))"
  by (simp_all add: gp_remove_def split: option.split)

lemma fst_remove_loop [simp]:
  "fst (remove_loop u []) = []"
  "fst (remove_loop u (g # gs)) =
     (if gp_exists u g then fst (gp_remove u g) # gs else g # fst (remove_loop u gs))"
  by (simp_all split: prod.split)

lemma remove_loop_props:
  "map m_id (fst (remove_loop u gs)) = map m_id gs \<and>
   (list_all (\<lambda>g. map_ok (m_crefs g)) gs \<longrightarrow> list_all (\<lambda>g. map_ok (m_crefs g)) (fst (remove_loop u gs)))"
  by (induction gs) (simp_all add: gp_remove_props del: remove_loop.simps)

lemma tree_remove_ok: "tree_ok t \<Longrightarrow> tree_ok (fst (tree_remove u t))"
  using remove_loop_props [of u "m_groups t"]
  by (cases "remove_loop u (m_groups t)") (simp add: tree_ok_def tree_remove_def)

lemma relocate_from_props:
  "m_id (relocate_from h r g) = m_id g"
  "map_ok (m_crefs g) \<Longrightarrow> map_ok (m_crefs (relocate_from h r g))"
  by (simp_all add: relocate_from_def)

lemma relocate_to_props:
  "m_id (relocate_to h r g) = m_id g"
  "map_ok (m_crefs g) \<Longrightarrow> map_ok (m_crefs (relocate_to h r g))"
  by (simp_all add: relocate_to_def)

lemma relocate_ok:
  assumes "tree_ok t" and "from < length (m_groups t)" and "to < length (m_groups t)"
  shows "tree_ok (fst (relocate_contact h r from to t))"
proof -
  have "tree_ok (upd_group from (relocate_from h r) t)"
    by (rule tree_ok_upd_group) (use assms(1,2) relocate_from_props in auto)
  then have "tree_ok (upd_group to (relocate_to h r) (upd_group from (relocate_from h r) t))"
    by (rule tree_ok_upd_group) (use assms(3) relocate_to_props in auto)
  then show ?thesis
    by (simp add: relocate_contact_def Let_def)
qed

text \<open>The trees a program can build; the contacts may change between the steps.\<close>

inductive tree_step :: "contact_store \<Rightarrow> contact_tree \<Rightarrow> contact_tree \<Rightarrow> bool" where
  step_add_group: "add_group l rnd n t = Some ((j, t', evs), n') \<Longrightarrow> tree_step h t t'"
| step_add_group_id: "add_group_id l i rnd n t = Some ((j, t', evs), n') \<Longrightarrow> tree_step h t t'"
| step_remove_group: "tree_step h t (fst (remove_group i t))"
| step_set_label: "i < length (m_groups t) \<Longrightarrow> tree_step h t (upd_group i (\<lambda>g. fst (set_label l g)) t)"
| step_add: "i < length (m_groups t) \<Longrightarrow> tree_step h t (upd_group i (\<lambda>g. fst (gp_add h r g)) t)"
| step_group_remove: "i < length (m_groups t) \<Longrightarrow> tree_step h t (upd_group i (\<lambda>g. fst (gp_remove u g)) t)"
| step_remove: "tree_step h t (fst (tree_remove u t))"
| step_relocate: "i < length (m_groups t) \<Longrightarrow> j < length (m_groups t) \<Longrightarrow>
    tree_step h t (fst (relocate_contact h r i j t))"
| step_lookup_group: "lookup_group i rnd n t = Some ((j, t', evs), n') \<Longrightarrow> tree_step h t t'"
| step_lookup_containing: "lookup_group_containing_contact h r rnd n t = Some ((j, t', evs), n') \<Longrightarrow>
    tree_step h t t'"

inductive tree_reach :: "contact_tree \<Rightarrow> bool" where
  reach_new: "tree_reach new_contact_tree"
| reach_step: "tree_reach t \<Longrightarrow> tree_step h t t' \<Longrightarrow> tree_reach t'"

lemma lookup_group_by_ok:
  "tree_ok t \<Longrightarrow> lookup_group_by p rnd n t = Some ((j, t', evs), n') \<Longrightarrow> tree_ok t'"
  using add_group_ok by (auto simp: lookup_group_by_def split: option.splits)

lemma tree_step_ok: "tree_step h t t' \<Longrightarrow> tree_ok t \<Longrightarrow> tree_ok t'"
proof (induction rule: tree_step.induct)
  case (step_set_label i t h l)
  then show ?case
    by (intro tree_ok_upd_group) (simp_all add: set_label_def Let_def)
next
  case (step_add i t h r)
  then show ?case
    by (intro tree_ok_upd_group) (simp_all add: gp_add_def)
next
  case (step_group_remove i t h u)
  then show ?case
    by (intro tree_ok_upd_group) (simp_all add: gp_remove_props)
qed (auto intro: remove_group_ok tree_remove_ok relocate_ok lookup_group_by_ok
      simp: lookup_group_def lookup_group_containing_contact_def
      dest: add_group_ok add_group_id_ok)

section \<open>Properties\<close>

text \<open>C27: In every tree that can be built the group ids are distinct and every group is a well-formed
  map from UINs to contacts.\<close>

theorem tree_invariant:
  assumes "tree_reach t"
  shows "distinct (map m_id (m_groups t)) \<and> (\<forall>g\<in>set (m_groups t). map_ok (m_crefs g))"
proof -
  have "tree_ok t"
    using assms by (induction rule: tree_reach.induct) (simp_all add: tree_step_ok, simp add: tree_ok_def new_contact_tree_def)
  then show ?thesis
    by (simp add: tree_ok_def list_all_iff)
qed

theorem tree_invariant_witness:
  "distinct (map m_id (m_groups (fst (relocate_contact (\<lambda>_. uin_contact False 5) 0 1 0
     \<lparr>m_groups = [new_group ''a'' 7, new_group ''b'' 8]\<rparr>))))"
proof -
  have "add_group_id ''a'' 7 (\<lambda>_. 0) 0 new_contact_tree =
      Some ((0, \<lparr>m_groups = [new_group ''a'' 7]\<rparr>, [GroupAdded 7 ''a'']), 0)"
    by (simp add: add_group_id_def exists_group_def new_contact_tree_def push_group_def)
  then have a: "tree_reach \<lparr>m_groups = [new_group ''a'' 7]\<rparr>"
    by (rule reach_step [OF reach_new step_add_group_id])
  have "add_group_id ''b'' 8 (\<lambda>_. 0) 0 \<lparr>m_groups = [new_group ''a'' 7]\<rparr> =
      Some ((1, \<lparr>m_groups = [new_group ''a'' 7, new_group ''b'' 8]\<rparr>, [GroupAdded 8 ''b'']), 0)"
    by (simp add: add_group_id_def exists_group_def push_group_def new_group_def)
  then have "tree_reach \<lparr>m_groups = [new_group ''a'' 7, new_group ''b'' 8]\<rparr>"
    by (rule reach_step [OF a step_add_group_id])
  then have "tree_reach (fst (relocate_contact (\<lambda>_. uin_contact False 5) 0 1 0
      \<lparr>m_groups = [new_group ''a'' 7, new_group ''b'' 8]\<rparr>))"
    by (rule reach_step) (rule step_relocate, simp_all)
  then show ?thesis
    by (rule tree_invariant [THEN conjunct1])
qed

lemma lookup_member:
  assumes "i < length (m_groups t)" and "map_of (m_crefs (m_groups t ! i)) u = Some r"
  shows "(u, r) \<in> set (entries_of (m_groups t))"
  using assms map_of_SomeD nth_mem by (fastforce simp: entries_of_def)

lemma relocate_entries:
  assumes ok: "tree_ok t" "exclusive t" and i: "from < length (m_groups t)" and j: "to < length (m_groups t)"
    and r: "gp_lookup_uin (m_uin (h r)) (m_groups t ! from) = Some r"
  shows "mset (entries_of (m_groups (fst (relocate_contact h r from to t)))) = mset (entries_of (m_groups t))"
    and "gp_lookup_uin (m_uin (h r)) (m_groups (fst (relocate_contact h r from to t)) ! to) = Some r"
proof -
  let ?u = "m_uin (h r)" and ?t1 = "upd_group from (relocate_from h r) t"
  let ?gi = "m_groups t ! from" and ?gj = "m_groups ?t1 ! to"
  have ri: "map_of (m_crefs ?gi) ?u = Some r"
    using r by (simp add: gp_lookup_uin_def)
  then have "m_crefs (relocate_from h r ?gi) = map_erase ?u (m_crefs ?gi)"
    by (simp add: relocate_from_def gp_exists_def)
  then have m1: "add_mset (?u, r) (mset (entries_of (m_groups ?t1))) = mset (entries_of (m_groups t))"
  proof -
    let ?er = "mset (map_erase ?u (m_crefs ?gi))"
    assume c: "m_crefs (relocate_from h r ?gi) = map_erase ?u (m_crefs ?gi)"
    have "mset (entries_of (m_groups ?t1)) + add_mset (?u, r) ?er = mset (entries_of (m_groups t)) + ?er"
      using mset_entries_upd_group [OF i, of "relocate_from h r"]
      by (simp only: c mset_map_erase [OF ri])
    then have "add_mset (?u, r) (mset (entries_of (m_groups ?t1))) + ?er = mset (entries_of (m_groups t)) + ?er"
      by simp
    then show ?thesis
      by (simp only: add_right_cancel)
  qed
  have "distinct (map fst (entries_of (m_groups t)))"
    using ok(2) by (simp add: exclusive_def)
  moreover have "mset (map fst (entries_of (m_groups t))) = mset (?u # map fst (entries_of (m_groups ?t1)))"
    by (metis m1 fst_conv list.simps(9) mset.simps(2) mset_map)
  ultimately have "distinct (?u # map fst (entries_of (m_groups ?t1)))"
    using mset_eq_imp_distinct_iff by blast
  then have fresh: "map_of (m_crefs ?gj) ?u = None"
    using lookup_member [of to ?t1 ?u] j by (cases "map_of (m_crefs ?gj) ?u") force+
  have ok1: "tree_ok ?t1"
    by (rule tree_ok_upd_group) (use ok(1) i relocate_from_props in auto)
  then have okj: "map_ok (m_crefs ?gj)"
    using j by (auto simp: tree_ok_def list_all_iff)
  have cj: "m_crefs (relocate_to h r ?gj) = map_insert ?u r (m_crefs ?gj)"
    by (simp add: relocate_to_def)
  let ?t2 = "upd_group to (relocate_to h r) ?t1"
  have "mset (entries_of (m_groups ?t2)) + mset (m_crefs ?gj) =
      mset (entries_of (m_groups ?t1)) + add_mset (?u, r) (mset (m_crefs ?gj))"
    using mset_entries_upd_group [of to ?t1 "relocate_to h r"] j
    by (simp add: cj mset_map_insert [OF okj fresh])
  then show "mset (entries_of (m_groups (fst (relocate_contact h r from to t)))) = mset (entries_of (m_groups t))"
    using m1 by (simp add: relocate_contact_def Let_def)
  have "m_crefs (m_groups ?t2 ! to) = map_insert ?u r (m_crefs ?gj)"
    using j by (simp add: upd_group_def [of to] cj)
  then show "gp_lookup_uin ?u (m_groups (fst (relocate_contact h r from to t)) ! to) = Some r"
    by (simp add: relocate_contact_def Let_def gp_lookup_uin_def map_of_map_insert [OF okj] fresh)
qed

lemma remove_loop_lookup:
  assumes "distinct (map fst (entries_of gs))" and "list_all (\<lambda>g. map_ok (m_crefs g)) gs"
  shows "map_of (entries_of (fst (remove_loop u gs))) = (map_of (entries_of gs))(u := None)"
  using assms
proof (induction gs)
  case (Cons g gs)
  have keys: "map_of (entries_of gs) u = None" if "gp_exists u g"
    using that Cons.prems(1) by (force simp: gp_exists_def map_of_eq_None_iff)
  have rem: "map_of (m_crefs (fst (gp_remove u g))) = (map_of (m_crefs g))(u := None)"
    using Cons.prems(2) by (auto simp: gp_remove_def map_of_map_erase fun_eq_iff split: option.split)
  show ?case
  proof (cases "gp_exists u g")
    case True
    then show ?thesis
      using keys rem by (auto simp del: remove_loop.simps simp: map_add_def fun_eq_iff split: option.split)
  next
    case False
    then show ?thesis
      using Cons by (auto simp del: remove_loop.simps simp: gp_exists_def map_add_def fun_eq_iff split: option.split)
  qed
qed simp

lemma find_value_list_ex: "list_ex (\<lambda>(u, r). p r) m \<longleftrightarrow> find_value p m \<noteq> None"
  unfolding find_value_Some_iff by (force simp: list_ex_iff)

text \<open>C28: Moving a contact from one group to another neither loses nor duplicates a contact: the
  well-formedness of the tree, the contact found for each UIN and the size stay the same, the
  contact is found in the new group and the event names the new group first.\<close>

theorem relocate_keeps_contacts:
  assumes "tree_ok t" and "exclusive t" and "from < length (m_groups t)" and "to < length (m_groups t)"
    and "gp_lookup_uin (m_uin (h r)) (m_groups t ! from) = Some r"
    and "relocate_contact h r from to t = (t', evs)"
  shows "tree_ok t' \<and> exclusive t' \<and> tree_size t' = tree_size t \<and>
    tree_lookup_uin u t' = tree_lookup_uin u t \<and>
    gp_lookup_uin (m_uin (h r)) (m_groups t' ! to) = Some r \<and>
    evs = [UserRelocated r (m_id (m_groups t ! to)) (m_id (m_groups t ! from))]"
proof -
  have t': "t' = fst (relocate_contact h r from to t)"
    by (simp add: assms(6))
  have m: "mset (entries_of (m_groups t')) = mset (entries_of (m_groups t))"
    unfolding t' by (rule relocate_entries(1) [where h = h and r = r, OF assms(1-5)])
  have d: "distinct (map fst (entries_of (m_groups t)))"
    using assms(2) by (simp add: exclusive_def)
  have "tree_ok t'"
    unfolding t' by (rule relocate_ok [OF assms(1,3,4)])
  moreover have "exclusive t'"
    using d m by (metis exclusive_def mset_eq_imp_distinct_iff mset_map)
  moreover have "tree_size t' = tree_size t"
    using m by (metis tree_size_entries size_mset)
  moreover have "tree_lookup_uin u t' = tree_lookup_uin u t"
    using map_of_cong_mset [OF m [symmetric] d] by (simp add: tree_lookup_entries)
  moreover have "gp_lookup_uin (m_uin (h r)) (m_groups t' ! to) = Some r"
    unfolding t' by (rule relocate_entries(2) [where h = h and r = r, OF assms(1-5)])
  moreover have "evs = [UserRelocated r (m_id (m_groups t ! to)) (m_id (m_groups t ! from))]"
  proof -
    have "map m_id (m_groups (upd_group i f s)) = map m_id (m_groups s)"
      if "i < length (m_groups s)" and "\<And>g. m_id (f g) = m_id g" for i f s
      using that by (simp add: upd_group_def map_update) (metis list_update_id nth_map)
    then have "map m_id (m_groups t') = map m_id (m_groups t)"
      using assms(3,4) relocate_from_props(1) relocate_to_props(1)
      by (simp add: t' relocate_contact_def Let_def)
    moreover have "evs = [UserRelocated r (m_id (m_groups t' ! to)) (m_id (m_groups t' ! from))]"
      using assms(6) by (auto simp: relocate_contact_def Let_def)
    ultimately show ?thesis
      using assms(3,4) by (metis length_map nth_map)
  qed
  ultimately show ?thesis by blast
qed

theorem relocate_keeps_contacts_witness:
  "\<exists>t'. relocate_contact (\<lambda>_. uin_contact False 5) 0 0 1
      \<lparr>m_groups = [\<lparr>m_crefs = [(5, 0)], m_id = 7, m_label = ''a''\<rparr>, new_group ''b'' 8]\<rparr> =
      (t', [UserRelocated 0 8 7]) \<and> tree_lookup_uin 5 t' = Some 0 \<and> tree_size t' = 1"
proof -
  let ?t = "\<lparr>m_groups = [\<lparr>m_crefs = [(5, 0)], m_id = 7, m_label = ''a''\<rparr>, new_group ''b'' 8]\<rparr>"
  obtain t' evs where r: "relocate_contact (\<lambda>_. uin_contact False 5) 0 0 1 ?t = (t', evs)"
    by fastforce
  have "tree_size t' = tree_size ?t \<and> tree_lookup_uin 5 t' = tree_lookup_uin 5 ?t \<and>
      evs = [UserRelocated 0 (m_id (m_groups ?t ! 1)) (m_id (m_groups ?t ! 0))]"
    using relocate_keeps_contacts [OF _ _ _ _ _ r, of 5]
    by (simp add: tree_ok_def exclusive_def new_group_def gp_lookup_uin_def uin_contact_def Init_def)
  then show ?thesis
    using r by (simp add: tree_size_entries tree_lookup_entries new_group_def)
qed

text \<open>Removing a UIN from a tree that holds each UIN at most once removes exactly that UIN.\<close>

theorem tree_remove_exact:
  assumes "tree_ok t" and "exclusive t"
  shows "tree_lookup_uin v (fst (tree_remove u t)) = (if v = u then None else tree_lookup_uin v t)"
proof -
  have "m_groups (fst (tree_remove u t)) = fst (remove_loop u (m_groups t))"
    by (simp add: tree_remove_def split: prod.split)
  then show ?thesis
    using remove_loop_lookup [of "m_groups t" u] assms
    by (simp add: tree_lookup_entries exclusive_def tree_ok_def)
qed

theorem tree_remove_exact_witness:
  "tree_lookup_uin 5 (fst (tree_remove 5
     \<lparr>m_groups = [\<lparr>m_crefs = [(5, 0)], m_id = 7, m_label = ''a''\<rparr>]\<rparr>)) = None"
  using tree_remove_exact [of "\<lparr>m_groups = [\<lparr>m_crefs = [(5, 0)], m_id = 7, m_label = ''a''\<rparr>]\<rparr>" 5 5]
  by (simp add: tree_ok_def exclusive_def)

text \<open>add_group returns exactly when some random draw is a free id, and then the new group is
  the last one and its id is free; with all 65536 ids in use it never returns.\<close>

theorem add_group_ids:
  "(add_group l rnd n t \<noteq> None \<longleftrightarrow> (\<exists>k. \<not> exists_group (rnd (n + k)) t)) \<and>
   (add_group l rnd n t = Some ((j, t', evs), n') \<longrightarrow>
     (\<exists>i. \<not> exists_group i t \<and> m_groups t' = m_groups t @ [new_group l i] \<and>
       j = length (m_groups t) \<and> evs = [GroupAdded i l])) \<and>
   (set (map m_id (m_groups t)) = UNIV \<longrightarrow> add_group l rnd n t = None)"
proof -
  have ret: "add_group l rnd n t = (case get_unique_group_id t rnd n of None \<Rightarrow> None
      | Some (i, n) \<Rightarrow> Some (push_group l i t, n))"
    using unique_group_id_fresh by (fastforce simp: add_group_def add_group_id_def split: option.splits)
  have iff: "get_unique_group_id t rnd n \<noteq> None \<longleftrightarrow> (\<exists>k. \<not> exists_group (rnd (n + k)) t)"
    using unique_group_id_returns unique_group_id_fresh unique_group_id_draw
    by (metis option.exhaust_sel option.distinct(1))
  have "add_group l rnd n t \<noteq> None \<longleftrightarrow> get_unique_group_id t rnd n \<noteq> None"
    by (auto simp: ret push_group_def split: option.splits)
  moreover have "\<exists>i. \<not> exists_group i t \<and> m_groups t' = m_groups t @ [new_group l i] \<and>
       j = length (m_groups t) \<and> evs = [GroupAdded i l]"
    if "add_group l rnd n t = Some ((j, t', evs), n')"
    using that unique_group_id_fresh
    by (fastforce simp: ret push_group_def split: option.splits)
  moreover have "add_group l rnd n t = None" if "set (map m_id (m_groups t)) = UNIV"
  proof -
    have "exists_group i t" for i
      using that by (simp add: exists_group_iff)
    then show ?thesis
      using calculation(1) iff by blast
  qed
  ultimately show ?thesis
    using iff by blast
qed

theorem add_group_ids_witness:
  "\<exists>r. add_group ''x'' (\<lambda>k. of_nat k) 0 \<lparr>m_groups = [new_group ''a'' 0]\<rparr> = Some r"
  using add_group_ids [of "''x''" "\<lambda>k. of_nat k" 0 "\<lparr>m_groups = [new_group ''a'' 0]\<rparr>"]
  by (force simp: exists_group_def new_group_def intro: exI [of _ 1])

text \<open>A search by mobile number succeeds exactly when some contact of the tree has that number
  now, and finds one that does.\<close>

theorem tree_mobile_lookup:
  "(tree_lookup_mobile h m t \<noteq> None \<longleftrightarrow> tree_mobile_exists h m t) \<and>
   (tree_mobile_exists h m t \<longleftrightarrow>
     (\<exists>g u r. g \<in> set (m_groups t) \<and> (u, r) \<in> set (m_crefs g) \<and> getNormalisedMobileNo (h r) = m)) \<and>
   (tree_lookup_mobile h m t = Some r \<longrightarrow> getNormalisedMobileNo (h r) = m)"
proof -
  have g: "gp_mobile_exists h m g \<longleftrightarrow> gp_lookup_mobile h m g \<noteq> None" for g
    by (simp add: gp_mobile_exists_def gp_lookup_mobile_def find_value_list_ex)
  have s: "getNormalisedMobileNo (h r) = m" if "gp_lookup_mobile h m g = Some r" for g
    using that by (auto simp: gp_lookup_mobile_def find_value_def find_Some_iff)
  have "tree_lookup_mobile h m t \<noteq> None \<longleftrightarrow> tree_mobile_exists h m t"
    using g by (auto simp: tree_lookup_mobile_def tree_mobile_exists_def list_ex_iff find_None_iff
        find_Some_iff split: option.splits)
  moreover have "tree_mobile_exists h m t \<longleftrightarrow>
     (\<exists>g u r. g \<in> set (m_groups t) \<and> (u, r) \<in> set (m_crefs g) \<and> getNormalisedMobileNo (h r) = m)"
    by (auto simp: tree_mobile_exists_def list_ex_iff gp_mobile_exists_def)
  moreover have "tree_lookup_mobile h m t = Some r \<longrightarrow> getNormalisedMobileNo (h r) = m"
    using s by (auto simp: tree_lookup_mobile_def split: option.splits)
  ultimately show ?thesis by blast
qed

theorem tree_mobile_lookup_witness:
  "getNormalisedMobileNo ((\<lambda>_. fst (setMobileNo ''0 1'' (uin_contact False 5))) (0 :: nat)) = ''01''"
proof -
  let ?h = "\<lambda>_ :: nat. fst (setMobileNo ''0 1'' (uin_contact False 5))"
  have "tree_lookup_mobile ?h ''01'' \<lparr>m_groups = [\<lparr>m_crefs = [(5, 0)], m_id = 7, m_label = ''a''\<rparr>]\<rparr> = Some 0"
    by (simp add: tree_lookup_mobile_def gp_mobile_exists_def gp_lookup_mobile_def find_value_def
        getNormalisedMobileNo_def setMobileNo_def emit_defs info_setMobileNo_def normaliseMobileNo_def
        isdigit_def)
  then show ?thesis
    using tree_mobile_lookup by blast
qed

end
