(* ===== verification/ICQSubType.thy ===== *)
theory ICQSubType
  imports Contact Xml
begin

unbundle bit_operations_syntax

text \<open>
  The messages inside the messages: \<^verbatim>\<open>src/ICQ.h\<close> and \<^verbatim>\<open>src/ICQ.cpp\<close>. The class hierarchy under
  \<^verbatim>\<open>ICQSubType\<close> is a datatype; what \<^verbatim>\<open>UINICQSubType\<close> adds to its derived classes is the record
  \<open>uin_part\<close>, and a virtual function is a case analysis on the class. The sequence number of a
  subtype is set and read by the layers above only and is left out, and a list of contacts is
  kept as their UINs and aliases. A boolean the default constructor leaves uninitialised
  (\<^verbatim>\<open>m_auth\<close>, \<^verbatim>\<open>m_delivered\<close>) starts as false here; the code never reads it before it is set.
\<close>

section \<open>Constants\<close>

definition MSG_Type_Normal :: u8 where "MSG_Type_Normal = 0x01"
definition MSG_Type_FT :: u8 where "MSG_Type_FT = 0x03"
definition MSG_Type_URL :: u8 where "MSG_Type_URL = 0x04"
definition MSG_Type_AuthReq :: u8 where "MSG_Type_AuthReq = 0x06"
definition MSG_Type_AuthRej :: u8 where "MSG_Type_AuthRej = 0x07"
definition MSG_Type_AuthAcc :: u8 where "MSG_Type_AuthAcc = 0x08"
definition MSG_Type_UserAdd :: u8 where "MSG_Type_UserAdd = 0x0c"
definition MSG_Type_WebPager :: u8 where "MSG_Type_WebPager = 0x0d"
definition MSG_Type_EmailEx :: u8 where "MSG_Type_EmailEx = 0x0e"
definition MSG_Type_SMS :: u8 where "MSG_Type_SMS = 0x1a"
definition MSG_Type_Contact :: u8 where "MSG_Type_Contact = 0x13"
definition MSG_Type_AutoReq_Away :: u8 where "MSG_Type_AutoReq_Away = 0xe8"
definition MSG_Type_AutoReq_Occ :: u8 where "MSG_Type_AutoReq_Occ = 0xe9"
definition MSG_Type_AutoReq_NA :: u8 where "MSG_Type_AutoReq_NA = 0xea"
definition MSG_Type_AutoReq_DND :: u8 where "MSG_Type_AutoReq_DND = 0xeb"
definition MSG_Type_AutoReq_FFC :: u8 where "MSG_Type_AutoReq_FFC = 0xec"
definition MSG_Flag_Multi :: u8 where "MSG_Flag_Multi = 0x80"
definition Priority_Normal :: u16 where "Priority_Normal = 0x0001"
definition Priority_Urgent :: u16 where "Priority_Urgent = 0x0002"
definition Priority_ToContactList :: u16 where "Priority_ToContactList = 0x0004"

lemmas msg_types = MSG_Type_Normal_def MSG_Type_FT_def MSG_Type_URL_def MSG_Type_AuthReq_def
  MSG_Type_AuthRej_def MSG_Type_AuthAcc_def MSG_Type_UserAdd_def MSG_Type_WebPager_def
  MSG_Type_EmailEx_def MSG_Type_SMS_def MSG_Type_Contact_def MSG_Type_AutoReq_Away_def
  MSG_Type_AutoReq_Occ_def MSG_Type_AutoReq_NA_def MSG_Type_AutoReq_DND_def
  MSG_Type_AutoReq_FFC_def

section \<open>The classes\<close>

record uin_part =
  u_source :: u32
  u_destination :: u32
  u_advanced :: bool
  u_ack :: bool
  u_urgent :: bool
  u_tocontactlist :: bool
  u_status :: u16
  u_away_message :: string

record person =
  p_alias :: string
  p_firstname :: string
  p_lastname :: string
  p_email :: string
  p_auth :: bool

record ft_part =
  ft_message :: string
  ft_description :: string
  ft_size :: u32
  ft_port :: u16
  ft_revport :: u16

datatype uin_body =
    NormalBody string bool u32 u32
  | URLBody string string
  | AwayMsgBody u8
  | AuthReqBody person string
  | AuthAccBody
  | AuthRejBody string
  | UserAddBody person
  | FTBody ft_part
  | ContactBody "(u32 \<times> string) list"

datatype sms_type = SMS | SMS_Receipt

record sms_part =
  sms_source :: string
  sms_sender :: string
  sms_senders_network :: string
  sms_time :: string
  sms_message_id :: string
  sms_destination :: string
  sms_submission_time :: string
  sms_delivery_time :: string
  sms_delivered :: bool
  sms_message :: string
  sms_typ :: sms_type

record pager_part =
  pg_message :: string
  pg_email :: string
  pg_sender :: string

datatype subtype_body =
    UINSubType uin_part uin_body
  | SMSSubType sms_part
  | EmailExSubType pager_part
  | WebPagerSubType pager_part

record icq_subtype =
  m_flags8 :: u8
  body :: subtype_body

definition new_uin_part :: uin_part where
  "new_uin_part =
     \<lparr>u_source = 0, u_destination = 0, u_advanced = False, u_ack = False, u_urgent = False,
      u_tocontactlist = False, u_status = 0, u_away_message = ''''\<rparr>"

definition new_NormalICQSubType :: "bool \<Rightarrow> uin_body" where
  "new_NormalICQSubType multi = NormalBody '''' multi 0x00000000 0x00ffffff"

definition new_person :: person where
  "new_person = \<lparr>p_alias = '''', p_firstname = '''', p_lastname = '''', p_email = '''', p_auth = False\<rparr>"

definition new_FTICQSubType :: ft_part where
  "new_FTICQSubType = \<lparr>ft_message = '''', ft_description = '''', ft_size = 0, ft_port = 0, ft_revport = 0\<rparr>"

definition AwayMsgSubType_of_status :: "status \<Rightarrow> uin_body" where
  "AwayMsgSubType_of_status s =
     AwayMsgBody (case s of
         STATUS_AWAY \<Rightarrow> MSG_Type_AutoReq_Away
       | STATUS_OCCUPIED \<Rightarrow> MSG_Type_AutoReq_Occ
       | STATUS_NA \<Rightarrow> MSG_Type_AutoReq_NA
       | STATUS_DND \<Rightarrow> MSG_Type_AutoReq_DND
       | STATUS_FREEFORCHAT \<Rightarrow> MSG_Type_AutoReq_FFC
       | _ \<Rightarrow> MSG_Type_AutoReq_Away)"

definition new_sms_part :: sms_part where
  "new_sms_part =
     \<lparr>sms_source = '''', sms_sender = '''', sms_senders_network = '''', sms_time = '''',
      sms_message_id = '''', sms_destination = '''', sms_submission_time = '''',
      sms_delivery_time = '''', sms_delivered = False, sms_message = '''', sms_typ = SMS\<rparr>"

definition new_pager_part :: pager_part where
  "new_pager_part = \<lparr>pg_message = '''', pg_email = '''', pg_sender = ''''\<rparr>"

text \<open>The type byte and the flags of each class.\<close>

definition getType :: "subtype_body \<Rightarrow> u8" where
  "getType s =
     (case s of
        UINSubType u ub \<Rightarrow>
          (case ub of
             NormalBody _ _ _ _ \<Rightarrow> MSG_Type_Normal
           | URLBody _ _ \<Rightarrow> MSG_Type_URL
           | AwayMsgBody t \<Rightarrow> t
           | AuthReqBody _ _ \<Rightarrow> MSG_Type_AuthReq
           | AuthAccBody \<Rightarrow> MSG_Type_AuthAcc
           | AuthRejBody _ \<Rightarrow> MSG_Type_AuthRej
           | UserAddBody _ \<Rightarrow> MSG_Type_UserAdd
           | FTBody _ \<Rightarrow> MSG_Type_FT
           | ContactBody _ \<Rightarrow> MSG_Type_Contact)
      | SMSSubType _ \<Rightarrow> MSG_Type_SMS
      | EmailExSubType _ \<Rightarrow> MSG_Type_EmailEx
      | WebPagerSubType _ \<Rightarrow> MSG_Type_WebPager)"

definition getFlags :: "icq_subtype \<Rightarrow> u8" where
  "getFlags s = (case body s of UINSubType u (AwayMsgBody t) \<Rightarrow> 0x03 | _ \<Rightarrow> m_flags8 s)"

section \<open>Fields separated by 0xfe\<close>

definition sep :: char where
  "sep = char_of_byte 0xfe"

text \<open>The loop of \<open>string_split\<close> on what is left of the string from \<^verbatim>\<open>lpos\<close> on.\<close>

function split_loop :: "char \<Rightarrow> string \<Rightarrow> string list" where
  "split_loop c s =
     (if s = [] then []
      else case find_char c s of
             None \<Rightarrow> [s]
           | Some p \<Rightarrow> take p s # split_loop c (drop (p + 1) s))"
  by auto
termination
  by (relation "measure (\<lambda>(c, s). length s)") auto

declare split_loop.simps [simp del]

text \<open>Every call has a separator of one character.\<close>

definition string_split :: "string \<Rightarrow> char \<Rightarrow> int \<Rightarrow> string list" where
  "string_split s c count =
     (let fields = split_loop c s
      in fields @ replicate (nat (count - int (length fields))) [])"

section \<open>Parsing and output of the bodies\<close>

text \<open>
  The fields are read through an iterator that is advanced without a check; running off the
  end of the list is \<open>OutOfRange\<close>.
\<close>

definition Normal_ParseBodyUIN ::
  "uin_part \<Rightarrow> string \<Rightarrow> bool \<Rightarrow> buffer \<Rightarrow> (uin_body \<times> buffer) result" where
  "Normal_ParseBodyUIN u msg multi b =
     andThen (UnpackUint16StringNull msg b) (\<lambda>(msg, b).
     if u_advanced u then
       andThen (get_u32 b) (\<lambda>(fg, b).
       andThen (get_u32 b) (\<lambda>(bg, b).
       Inr (NormalBody msg multi fg bg, b)))
     else Inr (NormalBody msg multi 0x00000000 0x00ffffff, b))"

definition Normal_OutputBodyUIN :: "uin_part \<Rightarrow> string \<Rightarrow> u32 \<Rightarrow> u32 \<Rightarrow> buffer \<Rightarrow> buffer" where
  "Normal_OutputBodyUIN u msg fg bg b =
     (let b = PackUint16StringNull msg b
      in if u_advanced u then put_u32 bg (put_u32 fg b) else b)"

definition URL_ParseBodyUIN :: "buffer \<Rightarrow> (uin_body \<times> buffer) result" where
  "URL_ParseBodyUIN b =
     andThen (UnpackUint16StringNull [] b) (\<lambda>(text, b).
     Inr (case find_char sep text of
            Some l \<Rightarrow> URLBody (take l text) (drop (l + 1) text)
          | None \<Rightarrow> URLBody text [], b))"

definition URL_OutputBodyUIN :: "uin_part \<Rightarrow> string \<Rightarrow> string \<Rightarrow> buffer \<Rightarrow> buffer" where
  "URL_OutputBodyUIN u msg url b =
     (if u_ack u then PackUint16StringNull [] b
      else PackUint16StringNull (msg @ [sep] @ url) b)"

definition AwayMsg_ParseBodyUIN :: "u8 \<Rightarrow> buffer \<Rightarrow> (uin_body \<times> buffer) result" where
  "AwayMsg_ParseBodyUIN t b =
     andThen (UnpackUint16StringNull [] b) (\<lambda>(dummy, b). Inr (AwayMsgBody t, b))"

definition AwayMsg_OutputBodyUIN :: "buffer \<Rightarrow> buffer" where
  "AwayMsg_OutputBodyUIN b = PackUint16StringNull [] b"

fun person_of_fields :: "string list \<Rightarrow> (person \<times> string list) result" where
  "person_of_fields (al # fn # ln # em # au # rest) =
     Inr (\<lparr>p_alias = al, p_firstname = fn, p_lastname = ln, p_email = em, p_auth = (au = ''1'')\<rparr>, rest)"
| "person_of_fields _ = Inl OutOfRange"

definition AuthReq_ParseBodyUIN :: "buffer \<Rightarrow> (uin_body \<times> buffer) result" where
  "AuthReq_ParseBodyUIN b =
     andThen (UnpackUint16StringNull [] b) (\<lambda>(text, b).
     andThen (person_of_fields (string_split text sep 6)) (\<lambda>(p, rest).
     case rest of
       [] \<Rightarrow> Inl OutOfRange
     | msg # _ \<Rightarrow> Inr (AuthReqBody p msg, b)))"

definition show_auth :: "bool \<Rightarrow> string" where
  "show_auth a = (if a then ''1'' else ''0'')"

definition AuthReq_OutputBodyUIN :: "person \<Rightarrow> string \<Rightarrow> buffer \<Rightarrow> buffer" where
  "AuthReq_OutputBodyUIN p msg b =
     PackUint16StringNull
       (p_alias p @ [sep] @ p_firstname p @ [sep] @ p_lastname p @ [sep] @ p_email p @ [sep] @
        show_auth (p_auth p) @ [sep] @ msg) b"

definition AuthRej_ParseBodyUIN :: "string \<Rightarrow> buffer \<Rightarrow> (uin_body \<times> buffer) result" where
  "AuthRej_ParseBodyUIN msg b =
     andThen (UnpackUint16StringNull msg b) (\<lambda>(msg, b). Inr (AuthRejBody msg, b))"

definition AuthRej_OutputBodyUIN :: "string \<Rightarrow> buffer \<Rightarrow> buffer" where
  "AuthRej_OutputBodyUIN msg b = PackUint16StringNull msg b"

definition AuthAcc_ParseBodyUIN :: "buffer \<Rightarrow> (uin_body \<times> buffer) result" where
  "AuthAcc_ParseBodyUIN b =
     andThen (UnpackUint16StringNull [] b) (\<lambda>(nothing_much, b). Inr (AuthAccBody, b))"

definition AuthAcc_OutputBodyUIN :: "buffer \<Rightarrow> buffer" where
  "AuthAcc_OutputBodyUIN b = PackUint16StringNull [] b"

definition UserAdd_ParseBodyUIN :: "buffer \<Rightarrow> (uin_body \<times> buffer) result" where
  "UserAdd_ParseBodyUIN b =
     andThen (UnpackUint16StringNull [] b) (\<lambda>(text, b).
     andThen (person_of_fields (string_split text sep 5)) (\<lambda>(p, rest).
     Inr (UserAddBody p, b)))"

definition UserAdd_OutputBodyUIN :: "person \<Rightarrow> buffer \<Rightarrow> buffer" where
  "UserAdd_OutputBodyUIN p b =
     PackUint16StringNull
       (p_alias p @ [sep] @ p_firstname p @ [sep] @ p_lastname p @ [sep] @ p_email p @ [sep] @
        show_auth (p_auth p) @ [sep]) b"

text \<open>The file transfer request has the same body in a message and in its acknowledgement.\<close>

definition FT_ParseBodyUIN :: "ft_part \<Rightarrow> buffer \<Rightarrow> (uin_body \<times> buffer) result" where
  "FT_ParseBodyUIN f b =
     andThen (UnpackUint16StringNull (ft_message f) b) (\<lambda>(msg, b).
     andThen (get_u16 b) (\<lambda>(revport, b).
     let b = advance 2 b in
     andThen (UnpackUint16StringNull (ft_description f) b) (\<lambda>(desc, b).
     andThen (get_u32 b) (\<lambda>(sz, b).
     andThen (get_u16 b) (\<lambda>(port, b).
     Inr (FTBody \<lparr>ft_message = msg, ft_description = desc, ft_size = sz, ft_port = port,
                  ft_revport = revport\<rparr>, advance 2 b))))))"

definition FT_OutputBodyUIN :: "ft_part \<Rightarrow> buffer \<Rightarrow> buffer" where
  "FT_OutputBodyUIN f b =
     put_u16 0 (put_u16 (ft_port f) (put_u32 (ft_size f)
       (PackUint16StringNull (ft_description f)
         (put_u16 0 (put_u16 (ft_revport f) (PackUint16StringNull (ft_message f) b))))))"

definition getRevPort :: "ft_part \<Rightarrow> u16" where
  "getRevPort f = push_bit 8 (ft_revport f AND 0xFF) + (drop_bit 8 (ft_revport f) AND 0xFF)"

definition setRevPort :: "u16 \<Rightarrow> ft_part \<Rightarrow> ft_part" where
  "setRevPort port f = f\<lparr>ft_revport := (drop_bit 8 port AND 0xFF) + push_bit 8 (port AND 0xFF)\<rparr>"

text \<open>\<^verbatim>\<open>atoi\<close> gives an \<^verbatim>\<open>int\<close>; a UIN is that converted to 32 bits.\<close>

fun contacts_of_fields :: "string list \<Rightarrow> (u32 \<times> string) list result" where
  "contacts_of_fields [] = Inr []"
| "contacts_of_fields [u] = Inl OutOfRange"
| "contacts_of_fields (u # al # rest) =
     andThen (contacts_of_fields rest) (\<lambda>cs. Inr ((word_of_int (atoi u), al) # cs))"

definition Contact_ParseBodyUIN :: "(u32 \<times> string) list \<Rightarrow> buffer \<Rightarrow> (uin_body \<times> buffer) result" where
  "Contact_ParseBodyUIN content b =
     andThen (UnpackUint16StringNull [] b) (\<lambda>(text, b).
     case find_char sep text of
       None \<Rightarrow> Inr (ContactBody content, b)
     | Some pos \<Rightarrow>
         (let n = signed_take_bit 31 (atoi (take pos text));
              text = drop (pos + 1) text;
              fields = string_split text sep n;
              fields = (if length fields mod 2 \<noteq> 0 then butlast fields else fields)
          in andThen (contacts_of_fields fields) (\<lambda>cs. Inr (ContactBody (content @ cs), b))))"

definition Contact_OutputBodyUIN :: "(u32 \<times> string) list \<Rightarrow> buffer \<Rightarrow> buffer" where
  "Contact_OutputBodyUIN content b =
     PackUint16StringNull
       (show_nat (length content) @ [sep] @
        concat (map (\<lambda>(u, al). show_nat (unat u) @ [sep] @ al @ [sep]) content)) b"

section \<open>The messages with UINs\<close>

definition ParseBodyUIN :: "uin_part \<Rightarrow> uin_body \<Rightarrow> buffer \<Rightarrow> (uin_body \<times> buffer) result" where
  "ParseBodyUIN u ub b =
     (case ub of
        NormalBody msg multi fg bg \<Rightarrow> Normal_ParseBodyUIN u msg multi b
      | URLBody msg url \<Rightarrow> URL_ParseBodyUIN b
      | AwayMsgBody t \<Rightarrow> AwayMsg_ParseBodyUIN t b
      | AuthReqBody p msg \<Rightarrow> AuthReq_ParseBodyUIN b
      | AuthAccBody \<Rightarrow> AuthAcc_ParseBodyUIN b
      | AuthRejBody msg \<Rightarrow> AuthRej_ParseBodyUIN msg b
      | UserAddBody p \<Rightarrow> UserAdd_ParseBodyUIN b
      | FTBody f \<Rightarrow> FT_ParseBodyUIN f b
      | ContactBody content \<Rightarrow> Contact_ParseBodyUIN content b)"

definition OutputBodyUIN :: "uin_part \<Rightarrow> uin_body \<Rightarrow> buffer \<Rightarrow> buffer" where
  "OutputBodyUIN u ub b =
     (case ub of
        NormalBody msg multi fg bg \<Rightarrow> Normal_OutputBodyUIN u msg fg bg b
      | URLBody msg url \<Rightarrow> URL_OutputBodyUIN u msg url b
      | AwayMsgBody t \<Rightarrow> AwayMsg_OutputBodyUIN b
      | AuthReqBody p msg \<Rightarrow> AuthReq_OutputBodyUIN p msg b
      | AuthAccBody \<Rightarrow> AuthAcc_OutputBodyUIN b
      | AuthRejBody msg \<Rightarrow> AuthRej_OutputBodyUIN msg b
      | UserAddBody p \<Rightarrow> UserAdd_OutputBodyUIN p b
      | FTBody f \<Rightarrow> FT_OutputBodyUIN f b
      | ContactBody content \<Rightarrow> Contact_OutputBodyUIN content b)"

definition ParseBodyUINACK ::
  "uin_part \<Rightarrow> uin_body \<Rightarrow> buffer \<Rightarrow> ((uin_part \<times> uin_body) \<times> buffer) result" where
  "ParseBodyUINACK u ub b =
     (case ub of
        NormalBody _ _ _ _ \<Rightarrow>
          andThen (UnpackUint16StringNull (u_away_message u) b) (\<lambda>(m, b).
          Inr ((u\<lparr>u_away_message := m\<rparr>, ub), advance 8 b))
      | FTBody f \<Rightarrow> andThen (FT_ParseBodyUIN f b) (\<lambda>(ub, b). Inr ((u, ub), b))
      | _ \<Rightarrow>
          andThen (UnpackUint16StringNull (u_away_message u) b) (\<lambda>(m, b).
          Inr ((u\<lparr>u_away_message := m\<rparr>, ub), b)))"

definition OutputBodyUINACK :: "uin_part \<Rightarrow> uin_body \<Rightarrow> buffer \<Rightarrow> buffer" where
  "OutputBodyUINACK u ub b =
     (case ub of
        NormalBody _ _ _ _ \<Rightarrow>
          (let b = PackUint16StringNull (u_away_message u) b
           in if u_advanced u then put_u32 0xffffffff (put_u32 0x00000000 b) else b)
      | FTBody f \<Rightarrow> FT_OutputBodyUIN f b
      | _ \<Rightarrow> PackUint16StringNull (u_away_message u) b)"

definition set_priority :: "u16 \<Rightarrow> u16 \<Rightarrow> uin_part \<Rightarrow> uin_part" where
  "set_priority st priority u =
     (let u = u\<lparr>u_status := st, u_urgent := (priority AND Priority_Urgent \<noteq> 0),
                u_tocontactlist := (priority AND Priority_ToContactList \<noteq> 0)\<rparr>
      in if \<not> u_urgent u \<and> priority \<noteq> Priority_Normal \<and> priority \<noteq> 0
         then u\<lparr>u_tocontactlist := True\<rparr> else u)"

definition UIN_ParseBody ::
  "uin_part \<Rightarrow> uin_body \<Rightarrow> buffer \<Rightarrow> ((uin_part \<times> uin_body) \<times> buffer) result" where
  "UIN_ParseBody u ub b =
     andThen (if u_advanced u then
                andThen (get_u16 b) (\<lambda>(st, b).
                andThen (get_u16 b) (\<lambda>(priority, b). Inr (set_priority st priority u, b)))
              else Inr (u, b)) (\<lambda>(u, b).
     if \<not> u_ack u then andThen (ParseBodyUIN u ub b) (\<lambda>(ub, b). Inr ((u, ub), b))
     else ParseBodyUINACK u ub b)"

definition priority_of :: "uin_part \<Rightarrow> u16" where
  "priority_of u =
     (if \<not> u_ack u then
        (let priority = Priority_Normal;
             priority = (if u_urgent u then Priority_Urgent else priority)
         in if u_tocontactlist u then Priority_ToContactList else priority)
      else 0x0000)"

definition UIN_OutputBody :: "uin_part \<Rightarrow> uin_body \<Rightarrow> buffer \<Rightarrow> buffer" where
  "UIN_OutputBody u ub b =
     (let b = (if u_advanced u then put_u16 (priority_of u) (put_u16 (u_status u) b) else b)
      in if \<not> u_ack u then OutputBodyUIN u ub b else OutputBodyUINACK u ub b)"

section \<open>SMS, e-mail express and web pager\<close>

text \<open>The text of a leaf that is there replaces the field.\<close>

definition leaf_or :: "xml_node \<Rightarrow> string \<Rightarrow> string \<Rightarrow> string" where
  "leaf_or x t old = (case getLeaf x t of None \<Rightarrow> old | Some l \<Rightarrow> leaf_value l)"

definition sms_of_xml :: "sms_type \<Rightarrow> xml_node \<Rightarrow> sms_part \<Rightarrow> sms_part result" where
  "sms_of_xml typ root s =
     (case typ of
        SMS \<Rightarrow>
          (if tag root \<noteq> ''sms_message''
           then Inl (ParseException ''No <sms_message> tag found in xml data'')
           else if \<not> isBranch root \<or> \<not> branch_exists root ''text''
           then Inl (ParseException ''No <text> tag found in xml data'')
           else case getLeaf root ''text'' of
                  None \<Rightarrow> Inl (ParseException ''<text> tag is not a leaf in xml data'')
                | Some text \<Rightarrow>
                    Inr (s\<lparr>sms_message := leaf_value text,
                           sms_source := leaf_or root ''source'' (sms_source s),
                           sms_sender := leaf_or root ''sender'' (sms_sender s),
                           sms_senders_network := leaf_or root ''senders_network'' (sms_senders_network s),
                           sms_time := leaf_or root ''time'' (sms_time s)\<rparr>))
      | SMS_Receipt \<Rightarrow>
          (if tag root \<noteq> ''sms_delivery_receipt''
           then Inl (ParseException ''No <sms_delivery_receipt> tag found in xml data'')
           else if \<not> isBranch root
           then Inl (ParseException ''No tags found in <sms_delivery_receipt>'')
           else
             Inr (s\<lparr>sms_message_id := leaf_or root ''message_id'' (sms_message_id s),
                    sms_destination := leaf_or root ''destination'' (sms_destination s),
                    sms_delivered := (case getLeaf root ''delivered'' of
                                        None \<Rightarrow> False | Some l \<Rightarrow> leaf_value l = ''Yes''),
                    sms_message := leaf_or root ''text'' (sms_message s),
                    sms_submission_time := leaf_or root ''submition_time'' (sms_submission_time s),
                    sms_delivery_time := leaf_or root ''delivery_time'' (sms_delivery_time s)\<rparr>)))"

definition SMS_ParseBody :: "sms_part \<Rightarrow> buffer \<Rightarrow> (sms_part \<times> buffer) result" where
  "SMS_ParseBody s b =
     (let b = advance 21 b in
      andThen (get_u16 b) (\<lambda>(del_stat, b).
      andThen (if del_stat = 0x0000 then Inr SMS
               else if del_stat = 0x0002 \<or> del_stat = 0x0003 then Inr SMS_Receipt
               else Inl (ParseException ''Unknown Type for SMS ICQ Subtype'')) (\<lambda>typ.
      let s = s\<lparr>sms_typ := typ\<rparr> in
      andThen (UnpackUint32String [] b) (\<lambda>(tagstr, b).
      if tagstr \<noteq> ''ICQSMS'' @ [CHR 0x00]
      then Inl (ParseException (''Unknown SNAC 0x0004 0x0007 ICQ SubType 0x001a tag string: '' @ tagstr))
      else
        let b = advance 3 b in
        andThen (get_u32 b) (\<lambda>(msglen, b).
        andThen (UnpackUint32String [] b) (\<lambda>(xmlstr, b).
        andThen (xml_parse xmlstr) (\<lambda>(root, _).
        case root of
          None \<Rightarrow> Inl (ParseException ''Couldn't parse xml data in Message SNAC'')
        | Some root \<Rightarrow> andThen (sms_of_xml typ root s) (\<lambda>s. Inr (s, b)))))))))"

fun pager_of_fields :: "string list \<Rightarrow> pager_part result" where
  "pager_of_fields (sender # _ # _ # em # _ # msg # _) =
     Inr \<lparr>pg_message = msg, pg_email = em, pg_sender = sender\<rparr>"
| "pager_of_fields _ = Inl OutOfRange"

definition EmailEx_ParseBody :: "buffer \<Rightarrow> (pager_part \<times> buffer) result" where
  "EmailEx_ParseBody b =
     andThen (UnpackUint16StringNull [] b) (\<lambda>(text, b).
     andThen (pager_of_fields (string_split text sep 6)) (\<lambda>p. Inr (p, b)))"

definition WebPager_ParseBody :: "buffer \<Rightarrow> (pager_part \<times> buffer) result" where
  "WebPager_ParseBody b =
     andThen (UnpackUint16StringNull [] b) (\<lambda>(text, b).
     andThen (pager_of_fields (string_split text sep 6)) (\<lambda>p. Inr (p, b)))"

section \<open>The subtypes\<close>

definition show_hex :: "u8 \<Rightarrow> string" where
  "show_hex w =
     (let d = (\<lambda>n. ''0123456789abcdef'' ! n); n = unat w
      in if n < 16 then [d n] else [d (n div 16), d (n mod 16)])"

text \<open>The object \<open>ParseICQSubType\<close> creates for a type byte.\<close>

definition subtype_of_type :: "u8 \<Rightarrow> bool \<Rightarrow> subtype_body result" where
  "subtype_of_type typ multi =
     (let uin = (\<lambda>ub. Inr (UINSubType new_uin_part ub)) in
      if typ = MSG_Type_Normal then uin (new_NormalICQSubType multi)
      else if typ = MSG_Type_URL then uin (URLBody [] [])
      else if typ = MSG_Type_SMS then Inr (SMSSubType new_sms_part)
      else if typ = MSG_Type_AuthReq then uin (AuthReqBody new_person [])
      else if typ = MSG_Type_AuthRej then uin (AuthRejBody [])
      else if typ = MSG_Type_AuthAcc then uin AuthAccBody
      else if typ = MSG_Type_EmailEx then Inr (EmailExSubType new_pager_part)
      else if typ = MSG_Type_WebPager then Inr (WebPagerSubType new_pager_part)
      else if typ = MSG_Type_UserAdd then uin (UserAddBody new_person)
      else if typ = MSG_Type_Contact then uin (ContactBody [])
      else if typ = MSG_Type_AutoReq_Away \<or> typ = MSG_Type_AutoReq_Occ \<or> typ = MSG_Type_AutoReq_NA \<or>
        typ = MSG_Type_AutoReq_DND \<or> typ = MSG_Type_AutoReq_FFC then uin (AwayMsgBody typ)
      else if typ = MSG_Type_FT then uin (FTBody new_FTICQSubType)
      else Inl (ParseException (''Unknown ICQ Subtype: 0x'' @ show_hex typ)))"

definition ParseBody :: "subtype_body \<Rightarrow> buffer \<Rightarrow> (subtype_body \<times> buffer) result" where
  "ParseBody s b =
     (case s of
        UINSubType u ub \<Rightarrow> andThen (UIN_ParseBody u ub b) (\<lambda>((u, ub), b). Inr (UINSubType u ub, b))
      | SMSSubType p \<Rightarrow> andThen (SMS_ParseBody p b) (\<lambda>(p, b). Inr (SMSSubType p, b))
      | EmailExSubType p \<Rightarrow> andThen (EmailEx_ParseBody b) (\<lambda>(p, b). Inr (EmailExSubType p, b))
      | WebPagerSubType p \<Rightarrow> andThen (WebPager_ParseBody b) (\<lambda>(p, b). Inr (WebPagerSubType p, b)))"

definition set_adv_ack :: "bool \<Rightarrow> bool \<Rightarrow> subtype_body \<Rightarrow> subtype_body" where
  "set_adv_ack adv ack s =
     (case s of
        UINSubType u ub \<Rightarrow> UINSubType (u\<lparr>u_advanced := adv, u_ack := ack\<rparr>) ub
      | _ \<Rightarrow> s)"

definition ParseICQSubType :: "bool \<Rightarrow> bool \<Rightarrow> buffer \<Rightarrow> (icq_subtype \<times> buffer) result" where
  "ParseICQSubType adv ack b =
     andThen (get_u8 b) (\<lambda>(typ, b).
     andThen (get_u8 b) (\<lambda>(flags, b).
     let multi = (flags AND MSG_Flag_Multi \<noteq> 0) in
     andThen (subtype_of_type typ multi) (\<lambda>ist.
     andThen (ParseBody (set_adv_ack adv ack ist) b) (\<lambda>(ist, b).
     Inr (\<lparr>m_flags8 = flags, body = ist\<rparr>, b)))))"

definition OutputBody :: "subtype_body \<Rightarrow> buffer \<Rightarrow> buffer" where
  "OutputBody s b =
     (case s of
        UINSubType u ub \<Rightarrow> UIN_OutputBody u ub b
      | SMSSubType _ \<Rightarrow> b
      | EmailExSubType _ \<Rightarrow> b
      | WebPagerSubType _ \<Rightarrow> b)"

definition ICQSubType_Output :: "icq_subtype \<Rightarrow> buffer \<Rightarrow> buffer" where
  "ICQSubType_Output s b = OutputBody (body s) (put_u8 (getFlags s) (put_u8 (getType (body s)) b))"

definition Length :: "subtype_body \<Rightarrow> u16" where
  "Length s =
     (case s of
        UINSubType u ub \<Rightarrow>
          (case ub of
             NormalBody msg _ _ _ \<Rightarrow> word_of_nat (length msg + (if u_advanced u then 13 else 5))
           | URLBody msg _ \<Rightarrow> word_of_nat (length msg + 6)
           | AwayMsgBody _ \<Rightarrow> 9
           | AuthRejBody msg \<Rightarrow> word_of_nat (length msg + 3)
           | _ \<Rightarrow> 0)
      | _ \<Rightarrow> 0)"

section \<open>Splitting\<close>

lemma split_loop_Nil [simp]: "split_loop c [] = []"
  by (simp add: split_loop.simps)

lemma split_loop_field: "c \<notin> set f \<Longrightarrow> split_loop c (f @ c # s) = f # split_loop c s"
  by (subst split_loop.simps) (simp add: find_char_append)

lemma split_loop_last: "c \<notin> set f \<Longrightarrow> split_loop c f = (if f = [] then [] else [f])"
  using find_char_None [of c f] by (subst split_loop.simps) simp

lemma split_loop_fields:
  "\<forall>f\<in>set fs. c \<notin> set f \<Longrightarrow> c \<notin> set l \<Longrightarrow>
   split_loop c (concat (map (\<lambda>f. f @ [c]) fs) @ l) = fs @ (if l = [] then [] else [l])"
  by (induction fs) (simp_all add: split_loop_field split_loop_last)

lemma length_string_split: "nat count \<le> length (string_split s c count)"
  by (simp add: string_split_def Let_def)

text \<open>Fields joined by the separator are recovered, whether or not the last one is empty.\<close>

lemma string_split_join:
  assumes "\<forall>f\<in>set fs. c \<notin> set f" and "c \<notin> set l"
  shows "string_split (concat (map (\<lambda>f. f @ [c]) fs) @ l) c (int (length fs + 1)) = fs @ [l]"
    and "string_split (concat (map (\<lambda>f. f @ [c]) fs)) c (int (length fs)) = fs"
  using split_loop_fields [OF assms] split_loop_fields [OF assms(1), of "[]"]
  by (simp_all add: string_split_def)

section \<open>What is sent and what is received\<close>

definition person_fields :: "person \<Rightarrow> string list" where
  "person_fields p = [p_alias p, p_firstname p, p_lastname p, p_email p, show_auth (p_auth p)]"

definition join_fields :: "string list \<Rightarrow> string" where
  "join_fields fs = concat (map (\<lambda>f. f @ [sep]) fs)"

definition contact_fields :: "(u32 \<times> string) list \<Rightarrow> string list" where
  "contact_fields cs = concat (map (\<lambda>(u, al). [show_nat (unat u), al]) cs)"

text \<open>The string a body sends first.\<close>

fun text_of :: "uin_body \<Rightarrow> string" where
  "text_of (NormalBody msg _ _ _) = msg"
| "text_of (URLBody msg url) = msg @ sep # url"
| "text_of (AwayMsgBody _) = []"
| "text_of (AuthReqBody p msg) = join_fields (person_fields p) @ msg"
| "text_of AuthAccBody = []"
| "text_of (AuthRejBody msg) = msg"
| "text_of (UserAddBody p) = join_fields (person_fields p)"
| "text_of (FTBody f) = ft_message f"
| "text_of (ContactBody cs) = show_nat (length cs) @ sep # join_fields (contact_fields cs)"

definition person_ok :: "person \<Rightarrow> bool" where
  "person_ok p = (sep \<notin> set (p_alias p) \<and> sep \<notin> set (p_firstname p) \<and> sep \<notin> set (p_lastname p) \<and>
     sep \<notin> set (p_email p))"

text \<open>The bodies the format can carry: no separator in a field, strings that fit their length.\<close>

fun body_ok :: "uin_body \<Rightarrow> bool" where
  "body_ok (URLBody msg url) = (sep \<notin> set msg \<and> length (text_of (URLBody msg url)) < 65535)"
| "body_ok (AwayMsgBody t) = (t = MSG_Type_AutoReq_Away \<or> t = MSG_Type_AutoReq_Occ \<or>
     t = MSG_Type_AutoReq_NA \<or> t = MSG_Type_AutoReq_DND \<or> t = MSG_Type_AutoReq_FFC)"
| "body_ok (AuthReqBody p msg) =
     (person_ok p \<and> sep \<notin> set msg \<and> length (text_of (AuthReqBody p msg)) < 65535)"
| "body_ok (UserAddBody p) = (person_ok p \<and> length (text_of (UserAddBody p)) < 65535)"
| "body_ok (FTBody f) = (length (ft_message f) < 65535 \<and> length (ft_description f) < 65535)"
| "body_ok (ContactBody cs) =
     ((\<forall>(u, al)\<in>set cs. sep \<notin> set al) \<and> length (text_of (ContactBody cs)) < 65535)"
| "body_ok ub = (length (text_of ub) < 65535)"

definition enc_ft :: "endian \<Rightarrow> ft_part \<Rightarrow> u8 list" where
  "enc_ft e f = enc_stringnull e (ft_message f) @ enc16 e (ft_revport f) @ enc16 e 0 @
     enc_stringnull e (ft_description f) @ enc32 e (ft_size f) @ enc16 e (ft_port f) @ enc16 e 0"

fun enc_body :: "uin_part \<Rightarrow> endian \<Rightarrow> uin_body \<Rightarrow> u8 list" where
  "enc_body u e (NormalBody msg multi fg bg) =
     enc_stringnull e msg @ (if u_advanced u then enc32 e fg @ enc32 e bg else [])"
| "enc_body u e (FTBody f) = enc_ft e f"
| "enc_body u e ub = enc_stringnull e (text_of ub)"

fun enc_ack :: "uin_part \<Rightarrow> endian \<Rightarrow> uin_body \<Rightarrow> u8 list" where
  "enc_ack u e (NormalBody msg multi fg bg) =
     enc_stringnull e (u_away_message u) @
     (if u_advanced u then enc32 e 0 @ enc32 e 0xffffffff else [])"
| "enc_ack u e (FTBody f) = enc_ft e f"
| "enc_ack u e ub = enc_stringnull e (u_away_message u)"

fun fresh_body :: "uin_body \<Rightarrow> uin_body" where
  "fresh_body (NormalBody msg multi fg bg) = new_NormalICQSubType multi"
| "fresh_body (URLBody msg url) = URLBody [] []"
| "fresh_body (AwayMsgBody t) = AwayMsgBody t"
| "fresh_body (AuthReqBody p msg) = AuthReqBody new_person []"
| "fresh_body AuthAccBody = AuthAccBody"
| "fresh_body (AuthRejBody msg) = AuthRejBody []"
| "fresh_body (UserAddBody p) = UserAddBody new_person"
| "fresh_body (FTBody f) = FTBody new_FTICQSubType"
| "fresh_body (ContactBody cs) = ContactBody []"

text \<open>The colours of a message are not sent in its plain form.\<close>

fun received_body :: "uin_part \<Rightarrow> uin_body \<Rightarrow> uin_body" where
  "received_body u (NormalBody msg multi fg bg) =
     (if u_advanced u then NormalBody msg multi fg bg
      else NormalBody msg multi 0x00000000 0x00ffffff)"
| "received_body u ub = ub"

lemma emit_stringnull [codec_simps]: "PackUint16StringNull s b = emit (enc_stringnull (m_endn b) s) b"
  by (simp add: PackUint16StringNull_emit enc_stringnull_def)

lemma FT_OutputBodyUIN_emit: "FT_OutputBodyUIN f b = emit (enc_ft (m_endn b) f) b"
  by (simp add: FT_OutputBodyUIN_def enc_ft_def put_u16_emit put_u32_emit emit_stringnull)

lemma join_fields_simps [simp]:
  "join_fields [] = []" "join_fields (f # fs) = f @ sep # join_fields fs"
  "join_fields (fs @ gs) = join_fields fs @ join_fields gs"
  by (simp_all add: join_fields_def)

lemma join_contact_fields:
  "concat (map (\<lambda>(u, al). show_nat (unat u) @ [sep] @ al @ [sep]) cs) = join_fields (contact_fields cs)"
  by (induction cs) (auto simp: contact_fields_def)

lemma OutputBodyUIN_emit:
  "\<not> u_ack u \<Longrightarrow> OutputBodyUIN u ub b = emit (enc_body u (m_endn b) ub) b"
  by (cases ub) (simp_all add: OutputBodyUIN_def Normal_OutputBodyUIN_def URL_OutputBodyUIN_def
      AwayMsg_OutputBodyUIN_def AuthReq_OutputBodyUIN_def AuthAcc_OutputBodyUIN_def
      AuthRej_OutputBodyUIN_def UserAdd_OutputBodyUIN_def Contact_OutputBodyUIN_def
      FT_OutputBodyUIN_emit emit_stringnull put_u32_emit Let_def person_fields_def
      join_contact_fields [simplified])

lemma OutputBodyUINACK_emit: "OutputBodyUINACK u ub b = emit (enc_ack u (m_endn b) ub) b"
  by (cases ub) (simp_all add: OutputBodyUINACK_def FT_OutputBodyUIN_emit emit_stringnull
      put_u32_emit Let_def)

section \<open>Reading a body back\<close>

lemma sep_code: "sep = CHR 0xFE"
  by code_simp

lemma sep_digits: "sep \<notin> set (show_nat n)"
  using show_nat_digit [of sep n] digit_char_props unfolding sep_code by metis

lemma sep_show_auth: "sep \<notin> set (show_auth a)"
  by (simp add: show_auth_def sep_code)

lemma person_fields_ok: "person_ok p \<Longrightarrow> \<forall>f\<in>set (person_fields p). sep \<notin> set f"
  by (simp add: person_ok_def person_fields_def sep_show_auth)

lemma person_of_person_fields: "person_of_fields (person_fields p @ rest) = Inr (p, rest)"
  by (cases p) (simp add: person_fields_def show_auth_def)

lemma FT_ParseBodyUIN_enc:
  assumes "length (ft_message f) < 65535" and "length (ft_description f) < 65535"
    and "at b e (enc_ft e f @ r)"
  shows "yields (FTBody f) e r (FT_ParseBodyUIN new_FTICQSubType b)"
proof -
  let ?f = "\<lparr>ft_message = ft_message f, ft_description = ft_description f, ft_size = ft_size f,
      ft_port = ft_port f, ft_revport = ft_revport f\<rparr>"
  have "yields (FTBody ?f) e r (FT_ParseBodyUIN new_FTICQSubType b)"
  unfolding FT_ParseBodyUIN_def Let_def new_FTICQSubType_def ft_part.select_convs
proof (rule stringnull_codec.inp_bind [OF assms(1)])
  show "at b e (enc_stringnull e (ft_message f) @ (enc16 e (ft_revport f) @ enc16 e 0 @
      enc_stringnull e (ft_description f) @ enc32 e (ft_size f) @ enc16 e (ft_port f) @ enc16 e 0 @ r))"
    using assms(3) by (simp add: enc_ft_def)
next
  fix b assume "at b e (enc16 e (ft_revport f) @ enc16 e 0 @
      enc_stringnull e (ft_description f) @ enc32 e (ft_size f) @ enc16 e (ft_port f) @ enc16 e 0 @ r)"
  then show "yields (FTBody ?f) e r (andThen (get_u16 b) (\<lambda>(revport, b).
      andThen (UnpackUint16StringNull [] (advance 2 b)) (\<lambda>(desc, b).
      andThen (get_u32 b) (\<lambda>(sz, b). andThen (get_u16 b) (\<lambda>(port, b).
      Inr (FTBody \<lparr>ft_message = ft_message f, ft_description = desc, ft_size = sz, ft_port = port,
                  ft_revport = revport\<rparr>, advance 2 b))))))"
    by (rule u16_codec.inp_bind [OF TrueI]) (rule stringnull_codec.inp_bind [OF assms(2)],
        erule at_advance, simp, rule u32_codec.inp_bind, simp, assumption,
        rule u16_codec.inp_bind, simp, assumption, rule yields_return, erule at_advance, simp)
qed
  then show ?thesis by (cases f) simp
qed

text \<open>A body that consists of one string.\<close>

lemma text_bind:
  assumes "length s < 65535" and "at b e (enc_stringnull e s @ r)"
    and "\<And>b. at b e r \<Longrightarrow> f s b = Inr (v, b)"
  shows "yields v e r (andThen (UnpackUint16StringNull [] b) (case_prod f))"
  using assms by (intro stringnull_codec.inp_bind [OF assms(1,2)]) (auto intro: yields_return)

lemma find_sep: "sep \<notin> set s \<Longrightarrow> find_char sep (s @ sep # r) = Some (length s)"
  by (rule find_char_append)

lemma string_split_person:
  assumes "person_ok p"
  shows "string_split (join_fields (person_fields p)) sep 5 = person_fields p"
    and "sep \<notin> set msg \<Longrightarrow> string_split (join_fields (person_fields p) @ msg) sep 6 = person_fields p @ [msg]"
  using string_split_join(1) [OF person_fields_ok [OF assms], of msg]
    string_split_join(2) [OF person_fields_ok [OF assms], of "[]"]
  by (simp_all add: join_fields_def person_fields_def)

lemma length_contact_fields: "length (contact_fields cs) = 2 * length cs"
  by (induction cs) (auto simp: contact_fields_def)

lemma contacts_of_contact_fields: "contacts_of_fields (contact_fields cs) = Inr cs"
proof (induction cs)
  case Nil
  then show ?case by (simp add: contact_fields_def)
next
  case (Cons c cs)
  obtain u al where c: "c = (u, al)" by (cases c)
  have "contact_fields ((u, al) # cs) = show_nat (unat u) # al # contact_fields cs"
    by (simp add: contact_fields_def)
  then show ?case
    using Cons atoi_show_nat [of "[]" "unat u"] by (simp add: c)
qed

lemma length_join_contacts: "4 * length cs \<le> 2 * length (join_fields (contact_fields cs))"
  by (induction cs) (auto simp: contact_fields_def)

lemma Contact_ParseBodyUIN_enc:
  assumes ok: "body_ok (ContactBody cs)" and b: "at b e (enc_stringnull e (text_of (ContactBody cs)) @ r)"
  shows "yields (ContactBody cs) e r (Contact_ParseBodyUIN [] b)"
proof -
  let ?t = "join_fields (contact_fields cs)"
  have len: "length (text_of (ContactBody cs)) < 65535"
    using ok by simp
  then have n: "length cs < 2 ^ 31"
    using length_join_contacts [of cs] by simp
  have a: "signed_take_bit 31 (atoi (show_nat (length cs))) = int (length cs)"
    using atoi_show_nat [of "[]" "length cs"] n by (simp add: signed_take_bit_int_eq_self)
  have "\<forall>f\<in>set (contact_fields cs). sep \<notin> set f"
    using ok by (auto simp: contact_fields_def sep_digits)
  then have "split_loop sep ?t = contact_fields cs"
    using split_loop_fields [of "contact_fields cs" sep "[]"] by (simp add: join_fields_def)
  then have s: "string_split ?t sep (int (length cs)) = contact_fields cs"
    by (simp add: string_split_def length_contact_fields)
  show ?thesis
    unfolding Contact_ParseBodyUIN_def
    by (rule text_bind [OF len b])
      (simp add: find_sep sep_digits a s length_contact_fields contacts_of_contact_fields Let_def)
qed

lemma ParseBodyUIN_enc:
  assumes ok: "body_ok ub" and ack: "\<not> u_ack u" and b: "at b e (enc_body u e ub @ r)"
  shows "yields (received_body u ub) e r (ParseBodyUIN u (fresh_body ub) b)"
proof (cases ub)
  case (NormalBody msg multi fg bg)
  show ?thesis
  proof (cases "u_advanced u")
    case True
    then show ?thesis
      using ok b unfolding NormalBody
      by (simp add: ParseBodyUIN_def Normal_ParseBodyUIN_def new_NormalICQSubType_def)
        (rule stringnull_codec.inp_bind, assumption, assumption, rule u32_codec.inp_bind, simp,
          assumption, rule u32_codec.inp_bind, simp, assumption, rule yields_return)
  next
    case False
    then show ?thesis
      using ok b unfolding NormalBody
      by (simp add: ParseBodyUIN_def Normal_ParseBodyUIN_def new_NormalICQSubType_def)
        (erule (1) text_bind, simp)
  qed
next
  case (URLBody msg url)
  then show ?thesis
    using ok b by (auto simp: ParseBodyUIN_def URL_ParseBodyUIN_def find_sep intro!: text_bind)
next
  case (AuthReqBody p msg)
  then show ?thesis
    using ok b by (auto simp: ParseBodyUIN_def AuthReq_ParseBodyUIN_def string_split_person
        person_of_person_fields intro!: text_bind)
next
  case (UserAddBody p)
  then show ?thesis
    using ok b person_of_person_fields [of p "[]"]
    by (auto simp: ParseBodyUIN_def UserAdd_ParseBodyUIN_def string_split_person intro!: text_bind)
next
  case (FTBody f)
  then show ?thesis
    using ok b by (simp add: ParseBodyUIN_def FT_ParseBodyUIN_enc)
next
  case (ContactBody cs)
  then show ?thesis
    using ok b by (simp add: ParseBodyUIN_def Contact_ParseBodyUIN_enc del: body_ok.simps text_of.simps)
next
  case (AwayMsgBody t)
  then show ?thesis
    using b by (auto simp: ParseBodyUIN_def AwayMsg_ParseBodyUIN_def intro!: text_bind)
next
  case AuthAccBody
  then show ?thesis
    using b by (auto simp: ParseBodyUIN_def AuthAcc_ParseBodyUIN_def intro!: text_bind)
next
  case (AuthRejBody msg)
  then show ?thesis
    using ok b by (auto simp: ParseBodyUIN_def AuthRej_ParseBodyUIN_def intro!: text_bind)
qed

text \<open>
  What an acknowledgement carries: the away message, except for a file transfer. The eight bytes
  a message acknowledgement ends with are sent in its advanced form only.
\<close>

fun ack_ok :: "uin_part \<Rightarrow> uin_body \<Rightarrow> bool" where
  "ack_ok u (FTBody f) = body_ok (FTBody f)"
| "ack_ok u (NormalBody _ _ _ _) = (length (u_away_message u) < 65535 \<and> u_advanced u)"
| "ack_ok u _ = (length (u_away_message u) < 65535)"

definition received_ack :: "uin_part \<Rightarrow> uin_body \<Rightarrow> string \<times> uin_body" where
  "received_ack u ub = (case ub of FTBody f \<Rightarrow> ([], ub) | _ \<Rightarrow> (u_away_message u, fresh_body ub))"

lemma ParseBodyUINACK_enc:
  assumes "ack_ok u ub" and "at b e (enc_ack u e ub @ r)" and "u_away_message v = []"
  shows "yields (v\<lparr>u_away_message := fst (received_ack u ub)\<rparr>, snd (received_ack u ub)) e r
    (ParseBodyUINACK v (fresh_body ub) b)"
proof (cases ub)
  case (NormalBody msg multi fg bg)
  have at: "at b e (enc_stringnull e (u_away_message u) @ enc32 e 0 @ enc32 e 0xffffffff @ r)"
    and len: "length (u_away_message u) < 65535"
    using assms(1,2) unfolding NormalBody by simp_all
  show ?thesis
    unfolding NormalBody ParseBodyUINACK_def fresh_body.simps new_NormalICQSubType_def uin_body.case assms(3)
    by (rule stringnull_codec.inp_bind [OF len at])
      (auto simp: received_ack_def new_NormalICQSubType_def intro!: yields_return
        at_advance [where xs = "enc32 e 0 @ enc32 e 0xffffffff"])
next
  case (FTBody f)
  then show ?thesis
    using assms FT_ParseBodyUIN_enc [of f b e r]
    by (auto simp: ParseBodyUINACK_def received_ack_def yields_def)
qed (use assms in \<open>auto simp: ParseBodyUINACK_def received_ack_def intro!: text_bind\<close>)

section \<open>Whole messages\<close>

definition enc_uin :: "uin_part \<Rightarrow> endian \<Rightarrow> uin_body \<Rightarrow> u8 list" where
  "enc_uin u e ub =
     (if u_advanced u then enc16 e (u_status u) @ enc16 e (priority_of u) else []) @
     (if \<not> u_ack u then enc_body u e ub else enc_ack u e ub)"

text \<open>
  The receiver gets: no UINs, the status of an advanced message, one of the two priority marks
  (the mark for the contact list wins), and the body or, in an acknowledgement, the away message.
\<close>

definition received_uin :: "uin_part \<Rightarrow> uin_body \<Rightarrow> uin_part \<times> uin_body" where
  "received_uin u ub =
     (let a = (u_advanced u \<and> \<not> u_ack u);
          v = u\<lparr>u_source := 0, u_destination := 0, u_urgent := a \<and> u_urgent u \<and> \<not> u_tocontactlist u,
               u_tocontactlist := a \<and> u_tocontactlist u,
               u_status := (if u_advanced u then u_status u else 0)\<rparr>
      in if \<not> u_ack u then (v\<lparr>u_away_message := []\<rparr>, received_body u ub)
         else (v\<lparr>u_away_message := fst (received_ack u ub)\<rparr>, snd (received_ack u ub)))"

lemma UIN_OutputBody_emit: "UIN_OutputBody u ub b = emit (enc_uin u (m_endn b) ub) b"
  by (simp add: UIN_OutputBody_def Let_def put_u16_emit enc_uin_def OutputBodyUIN_emit OutputBodyUINACK_emit)

lemma set_priority_of:
  "set_priority st (priority_of u) v =
     v\<lparr>u_status := st, u_urgent := \<not> u_ack u \<and> u_urgent u \<and> \<not> u_tocontactlist u,
       u_tocontactlist := \<not> u_ack u \<and> u_tocontactlist u\<rparr>"
  by (simp add: set_priority_def priority_of_def Let_def Priority_Urgent_def Priority_ToContactList_def
      Priority_Normal_def)

definition uin_ok :: "uin_part \<Rightarrow> uin_body \<Rightarrow> bool" where
  "uin_ok u ub = (if \<not> u_ack u then body_ok ub else ack_ok u ub)"

lemma UIN_ParseBody_enc:
  assumes ok: "uin_ok u ub" and b: "at b e (enc_uin u e ub @ r)"
  shows "yields (received_uin u ub) e r
    (UIN_ParseBody (new_uin_part\<lparr>u_advanced := u_advanced u, u_ack := u_ack u\<rparr>) (fresh_body ub) b)"
proof -
  let ?start = "new_uin_part\<lparr>u_advanced := u_advanced u, u_ack := u_ack u\<rparr>"
  let ?v = "(fst (received_uin u ub))\<lparr>u_away_message := []\<rparr>"
  let ?rest = "(if \<not> u_ack u then enc_body u e ub else enc_ack u e ub) @ r"
  have prio: "yields ?v e ?rest (if u_advanced ?start then
      andThen (get_u16 b) (\<lambda>(st, b). andThen (get_u16 b) (\<lambda>(priority, b). Inr (set_priority st priority ?start, b)))
      else Inr (?start, b))"
  proof (cases "u_advanced u")
    case True
    then have at: "at b e (enc16 e (u_status u) @ enc16 e (priority_of u) @ ?rest)"
      using b by (simp add: enc_uin_def)
    have v: "set_priority (u_status u) (priority_of u) ?start = ?v"
      using True by (cases u) (simp add: set_priority_of received_uin_def Let_def new_uin_part_def)
    have "yields (set_priority (u_status u) (priority_of u) ?start) e ?rest
      (andThen (get_u16 b) (\<lambda>(st, b). andThen (get_u16 b) (\<lambda>(priority, b). Inr (set_priority st priority ?start, b))))"
      by (rule u16_codec.inp_bind [OF TrueI at]) (rule u16_codec.inp_bind, simp, assumption, rule yields_return)
    then have "yields ?v e ?rest
      (andThen (get_u16 b) (\<lambda>(st, b). andThen (get_u16 b) (\<lambda>(priority, b). Inr (set_priority st priority ?start, b))))"
      unfolding v .
    moreover have "u_advanced ?start"
      using True by simp
    ultimately show ?thesis
      by (subst if_P)
  next
    case False
    then have "?v = ?start"
      by (cases u) (simp add: received_uin_def Let_def new_uin_part_def)
    then show ?thesis
      using b False by (auto simp: enc_uin_def intro!: yields_return)
  qed
  have flags: "u_ack ?v = u_ack u" "u_advanced ?v = u_advanced u" "u_away_message ?v = []"
    by (simp_all add: received_uin_def Let_def)
  show ?thesis
    unfolding UIN_ParseBody_def
  proof (rule yields_bind [OF prio], unfold split flags(1))
    fix b' assume b': "at b' e ?rest"
    show "yields (received_uin u ub) e r
        (if \<not> u_ack u then andThen (ParseBodyUIN ?v (fresh_body ub) b') (\<lambda>(ub, b). Inr ((?v, ub), b))
         else ParseBodyUINACK ?v (fresh_body ub) b')"
    proof (cases "u_ack u")
      case False
      have "enc_body u e ub = enc_body ?v e ub" "received_body u ub = received_body ?v ub"
        using flags by (cases ub; simp)+
      then have "yields (received_body u ub) e r (ParseBodyUIN ?v (fresh_body ub) b')"
        using ParseBodyUIN_enc [of ub ?v b' e r] ok b' False flags by (simp add: uin_ok_def)
      moreover have "received_uin u ub = (?v, received_body u ub)"
        using False by (simp add: received_uin_def Let_def)
      ultimately show ?thesis
        using False by (auto simp: yields_def)
    next
      case True
      have "received_uin u ub = (?v\<lparr>u_away_message := fst (received_ack u ub)\<rparr>, snd (received_ack u ub))"
        using True by (simp add: received_uin_def Let_def)
      then show ?thesis
        using ParseBodyUINACK_enc [of u ub b' e r ?v] ok b' True flags by (simp add: uin_ok_def)
    qed
  qed
qed

definition type_ok :: "uin_body \<Rightarrow> bool" where
  "type_ok ub = (case ub of AwayMsgBody t \<Rightarrow> body_ok ub | _ \<Rightarrow> True)"

fun multi_of :: "uin_body \<Rightarrow> bool \<Rightarrow> bool" where
  "multi_of (NormalBody _ multi _ _) m = (multi = m)"
| "multi_of _ m = True"

lemma subtype_of_getType:
  "type_ok ub \<Longrightarrow> multi_of ub multi \<Longrightarrow>
   subtype_of_type (getType (UINSubType u ub)) multi = Inr (UINSubType new_uin_part (fresh_body ub))"
  by (cases ub) (auto simp: subtype_of_type_def getType_def Let_def msg_types type_ok_def)

text \<open>The messages the library can send, and what the receiver makes of them.\<close>

definition sendable :: "icq_subtype \<Rightarrow> bool" where
  "sendable s =
     (case body s of
        UINSubType u ub \<Rightarrow>
          uin_ok u ub \<and> type_ok ub \<and> multi_of ub (m_flags8 s AND MSG_Flag_Multi \<noteq> 0)
      | _ \<Rightarrow> False)"

definition received :: "icq_subtype \<Rightarrow> icq_subtype" where
  "received s =
     (case body s of
        UINSubType u ub \<Rightarrow>
          \<lparr>m_flags8 = getFlags s, body = case_prod UINSubType (received_uin u ub)\<rparr>
      | _ \<Rightarrow> s)"

definition is_advanced :: "icq_subtype \<Rightarrow> bool" where
  "is_advanced s = (case body s of UINSubType u _ \<Rightarrow> u_advanced u | _ \<Rightarrow> False)"

definition is_ack :: "icq_subtype \<Rightarrow> bool" where
  "is_ack s = (case body s of UINSubType u _ \<Rightarrow> u_ack u | _ \<Rightarrow> False)"

lemma ICQSubType_Output_emit:
  "body s = UINSubType u ub \<Longrightarrow>
   ICQSubType_Output s b = emit ([getType (body s), getFlags s] @ enc_uin u (m_endn b) ub) b"
  by (simp add: ICQSubType_Output_def OutputBody_def UIN_OutputBody_emit put_u8_emit)

lemma ParseICQSubType_enc:
  assumes "body s = UINSubType u ub" and "uin_ok u ub" and "type_ok ub"
    and "multi_of ub (getFlags s AND MSG_Flag_Multi \<noteq> 0)"
    and b: "at b e ([getType (body s)] @ [getFlags s] @ enc_uin u e ub @ r)"
  shows "yields (received s) e r (ParseICQSubType (u_advanced u) (u_ack u) b)"
  unfolding ParseICQSubType_def
proof (rule u8_codec.inp_bind [OF TrueI b], rule u8_codec.inp_bind [OF TrueI], assumption)
  fix b assume b: "at b e (enc_uin u e ub @ r)"
  obtain v vb where v: "received_uin u ub = (v, vb)" by fastforce
  from UIN_ParseBody_enc [OF assms(2) b]
  obtain b' where p: "UIN_ParseBody (new_uin_part\<lparr>u_advanced := u_advanced u, u_ack := u_ack u\<rparr>)
      (fresh_body ub) b = Inr ((v, vb), b')" and "at b' e r"
    unfolding v by (rule yieldsE)
  have "subtype_of_type (getType (body s)) (getFlags s AND MSG_Flag_Multi \<noteq> 0) =
      Inr (UINSubType new_uin_part (fresh_body ub))"
    unfolding assms(1) by (rule subtype_of_getType [OF assms(3,4)])
  then show "yields (received s) e r
      (let multi = getFlags s AND MSG_Flag_Multi \<noteq> 0
       in andThen (subtype_of_type (getType (body s)) multi) (\<lambda>ist.
          andThen (ParseBody (set_adv_ack (u_advanced u) (u_ack u) ist) b) (\<lambda>(ist, b).
          Inr (\<lparr>m_flags8 = getFlags s, body = ist\<rparr>, b))))"
    using p \<open>at b' e r\<close>
    by (simp add: Let_def set_adv_ack_def ParseBody_def received_def assms(1) v yields_def)
qed

section \<open>Reading stays in range\<close>

lemma bounded_result:
  assumes "\<And>x. (\<exists>y. f x = Inr y) \<or> (\<exists>m. f x = Inl (ParseException m))"
  shows "bounded k (\<lambda>b. andThen (f x) (\<lambda>y. Inr (g y, b)))"
  using assms [of x] by (auto intro: bounded_return bounded_throw)

lemma bounded_text:
  assumes "\<And>s. bounded k (f s)"
  shows "bounded (65538 + k) (\<lambda>b. andThen (UnpackUint16StringNull t b) (\<lambda>(s, b). f s b))"
  by (rule bounded_bind [OF bounded_UnpackUint16StringNull assms])

lemma five_fields: "5 \<le> length fs \<Longrightarrow> \<exists>p. person_of_fields fs = Inr (p, drop 5 fs)"
  by (cases fs rule: person_of_fields.cases) auto

lemma six_fields: "6 \<le> length fs \<Longrightarrow> \<exists>p. pager_of_fields fs = Inr p"
  by (cases fs rule: pager_of_fields.cases) auto

lemma even_contacts: "even (length fs) \<Longrightarrow> \<exists>cs. contacts_of_fields fs = Inr cs"
  by (induction fs rule: contacts_of_fields.induct) auto

lemma bounded_Contact: "bounded 65538 (Contact_ParseBodyUIN content)"
proof -
  have "bounded 0 (\<lambda>b. case find_char sep s of
      None \<Rightarrow> Inr (ContactBody content, b)
    | Some pos \<Rightarrow>
       (let n = signed_take_bit 31 (atoi (take pos s));
            text = drop (pos + 1) s;
            fields = string_split text sep n;
            fields = (if length fields mod 2 \<noteq> 0 then butlast fields else fields)
        in andThen (contacts_of_fields fields) (\<lambda>cs. Inr (ContactBody (content @ cs), b))))" for s
  proof (cases "find_char sep s")
    case (Some pos)
    let ?f = "string_split (drop (pos + 1) s) sep (signed_take_bit 31 (atoi (take pos s)))"
    have "even (length (if length ?f mod 2 \<noteq> 0 then butlast ?f else ?f))"
      by auto
    then obtain cs where "contacts_of_fields (if length ?f mod 2 \<noteq> 0 then butlast ?f else ?f) = Inr cs"
      using even_contacts by blast
    then show ?thesis
      unfolding Some option.case Let_def by (simp only: andThen_Inr bounded_return)
  qed (simp add: bounded_return)
  from bounded_text [OF this, of "[]"] show ?thesis
    by (simp add: Contact_ParseBodyUIN_def [abs_def])
qed

lemma bounded_FT: "bounded 131088 (FT_ParseBodyUIN f)"
proof -
  have 1: "bounded 2 (\<lambda>b. Inr (x, advance 2 b))" for x :: uin_body
    using bounded_skip [of 0 "\<lambda>b. Inr (x, b)" 2 2] by (simp add: bounded_return)
  have 2: "bounded (2 + (65538 + (4 + (2 + 2)))) (\<lambda>b. andThen (UnpackUint16StringNull (ft_description f) (advance 2 b)) (\<lambda>(desc, b).
     andThen (get_u32 b) (\<lambda>(sz, b).
     andThen (get_u16 b) (\<lambda>(port, b).
     Inr (FTBody \<lparr>ft_message = msg, ft_description = desc, ft_size = sz, ft_port = port,
                  ft_revport = revport\<rparr>, advance 2 b)))))" for msg revport
    by (rule bounded_skip [of _ "\<lambda>b. andThen (UnpackUint16StringNull (ft_description f) b) _"])
      (intro bounded_bind bounded_UnpackUint16StringNull bounded_get_u32 bounded_get_u16 1, simp)
  have "bounded (65538 + (2 + (2 + (65538 + (4 + (2 + 2)))))) (FT_ParseBodyUIN f)"
    unfolding FT_ParseBodyUIN_def [abs_def] Let_def
    by (intro bounded_text bounded_bind bounded_get_u16 2)
  then show ?thesis
    by (rule bounded_mono) simp
qed

lemma bounded_text_only:
  "bounded 65538 (\<lambda>b. andThen (UnpackUint16StringNull t b) (\<lambda>(s, b). Inr (f s, b)))"
  using bounded_text [of 0 "\<lambda>s b. Inr (f s, b)" t] by (simp add: bounded_return)

lemma bounded_AuthReq: "bounded 65538 AuthReq_ParseBodyUIN"
proof -
  have "bounded 0 (\<lambda>b. andThen (person_of_fields (string_split s sep 6)) (\<lambda>(p, rest).
     case rest of [] \<Rightarrow> Inl OutOfRange | msg # _ \<Rightarrow> Inr (AuthReqBody p msg, b)))" for s
  proof -
    have len: "6 \<le> length (string_split s sep 6)"
      using length_string_split [of 6 s sep] by simp
    then obtain p where "person_of_fields (string_split s sep 6) = Inr (p, drop 5 (string_split s sep 6))"
      using five_fields [of "string_split s sep 6"] by auto
    moreover obtain msg ms where "drop 5 (string_split s sep 6) = msg # ms"
      using len by (cases "drop 5 (string_split s sep 6)") auto
    ultimately show ?thesis
      by (simp add: bounded_return)
  qed
  from bounded_text [OF this, of "[]"] show ?thesis
    by (simp add: AuthReq_ParseBodyUIN_def [abs_def])
qed

lemma bounded_UserAdd: "bounded 65538 UserAdd_ParseBodyUIN"
proof -
  have "bounded 0 (\<lambda>b. andThen (person_of_fields (string_split s sep 5)) (\<lambda>(p, rest).
     Inr (UserAddBody p, b)))" for s
  proof -
    obtain p where "person_of_fields (string_split s sep 5) = Inr (p, drop 5 (string_split s sep 5))"
      using five_fields [of "string_split s sep 5"] length_string_split [of 5 s sep] by auto
    then show ?thesis
      by (simp add: bounded_return)
  qed
  from bounded_text [OF this, of "[]"] show ?thesis
    by (simp add: UserAdd_ParseBodyUIN_def [abs_def])
qed

lemma bounded_pager:
  "bounded 65538 EmailEx_ParseBody" "bounded 65538 WebPager_ParseBody"
proof -
  have 1: "bounded 0 (\<lambda>b. andThen (pager_of_fields (string_split s sep 6)) (\<lambda>p. Inr (p, b)))" for s
    using six_fields [of "string_split s sep 6"] length_string_split [of 6 s sep]
    by (auto simp: bounded_return)
  from bounded_text [OF 1, of "[]"]
  show "bounded 65538 EmailEx_ParseBody" "bounded 65538 WebPager_ParseBody"
    by (simp_all add: EmailEx_ParseBody_def [abs_def] WebPager_ParseBody_def [abs_def])
qed

lemma bounded_Normal: "bounded 65546 (Normal_ParseBodyUIN u msg multi)"
proof (cases "u_advanced u")
  case True
  have "bounded (65538 + (4 + (4 + 0))) (\<lambda>b. andThen (UnpackUint16StringNull msg b) (\<lambda>(msg, b).
      andThen (get_u32 b) (\<lambda>(fg, b). andThen (get_u32 b) (\<lambda>(bg, b). Inr (NormalBody msg multi fg bg, b)))))"
    by (intro bounded_text bounded_bind bounded_get_u32 bounded_return)
  then show ?thesis
    using True by (simp add: Normal_ParseBodyUIN_def [abs_def])
next
  case False
  then show ?thesis
    using bounded_text_only [of msg "\<lambda>msg. NormalBody msg multi 0 0xffffff"]
    by (auto simp: Normal_ParseBodyUIN_def [abs_def] intro: bounded_mono)
qed

lemma bounded_ParseBodyUIN: "bounded 131088 (ParseBodyUIN u ub)"
  using bounded_text_only
  by (cases ub) (auto simp: ParseBodyUIN_def [abs_def] URL_ParseBodyUIN_def [abs_def]
      AwayMsg_ParseBodyUIN_def [abs_def] AuthAcc_ParseBodyUIN_def [abs_def]
      AuthRej_ParseBodyUIN_def [abs_def] bounded_FT
      intro: bounded_mono [OF bounded_Normal] bounded_mono [OF bounded_AuthReq]
        bounded_mono [OF bounded_UserAdd] bounded_mono [OF bounded_Contact]
        bounded_mono [OF bounded_text_only])

lemma bounded_ParseBodyUINACK: "bounded 131088 (ParseBodyUINACK u ub)"
proof (cases ub)
  case (NormalBody msg multi fg bg)
  have "bounded 8 (\<lambda>b. Inr (x, advance 8 b))" for x :: "uin_part \<times> uin_body"
    using bounded_skip [of 0 "\<lambda>b. Inr (x, b)" 8 8] by (simp add: bounded_return)
  then have "bounded (65538 + 8) (\<lambda>b. andThen (UnpackUint16StringNull (u_away_message u) b) (\<lambda>(m, b).
      Inr ((u\<lparr>u_away_message := m\<rparr>, ub), advance 8 b)))"
    by (intro bounded_text)
  then show ?thesis
    by (simp add: NormalBody ParseBodyUINACK_def [abs_def] bounded_mono)
next
  case (FTBody f)
  have "bounded (131088 + 0) (\<lambda>b. andThen (FT_ParseBodyUIN f b) (\<lambda>(ub, b). Inr ((u, ub), b)))"
    by (intro bounded_bind bounded_FT bounded_return)
  then show ?thesis
    by (simp add: FTBody ParseBodyUINACK_def [abs_def])
qed (auto simp: ParseBodyUINACK_def [abs_def] intro: bounded_mono [OF bounded_text_only])

lemma bounded_UIN_ParseBody: "bounded 131092 (UIN_ParseBody u ub)"
proof -
  have p: "bounded (2 + (2 + 0)) (\<lambda>b. if u_advanced u then
      andThen (get_u16 b) (\<lambda>(st, b). andThen (get_u16 b) (\<lambda>(priority, b). Inr (set_priority st priority u, b)))
      else Inr (u, b))"
    by (intro bounded_if bounded_bind bounded_get_u16 bounded_return)
  have n: "bounded (131088 + 0) (\<lambda>b. andThen (ParseBodyUIN u ub b) (\<lambda>(ub, b). Inr ((u, ub), b)))" for u
    by (intro bounded_bind bounded_ParseBodyUIN bounded_return)
  have "bounded (2 + (2 + 0) + 131088) (UIN_ParseBody u ub)"
    unfolding UIN_ParseBody_def [abs_def]
    by (intro bounded_bind [OF p] bounded_if bounded_ParseBodyUINACK) (use n in simp)
  then show ?thesis by simp
qed

lemma bounded_ParseBody:
  assumes "\<And>p. s \<noteq> SMSSubType p"
  shows "bounded 131092 (ParseBody s)"
proof (cases s)
  case (UINSubType u ub)
  have "bounded (131092 + 0) (\<lambda>b. andThen (UIN_ParseBody u ub b) (\<lambda>(x, b). case_prod (\<lambda>u ub b. Inr (UINSubType u ub, b)) x b))"
    by (rule bounded_bind [OF bounded_UIN_ParseBody]) (auto intro: bounded_return)
  then show ?thesis
    by (simp add: UINSubType ParseBody_def [abs_def] split_def)
next
  case (EmailExSubType p)
  have "bounded (65538 + 0) (\<lambda>b. andThen (EmailEx_ParseBody b) (\<lambda>(p, b). Inr (EmailExSubType p, b)))"
    by (intro bounded_bind bounded_pager bounded_return)
  then show ?thesis
    by (auto simp: EmailExSubType ParseBody_def [abs_def] intro: bounded_mono)
next
  case (WebPagerSubType p)
  have "bounded (65538 + 0) (\<lambda>b. andThen (WebPager_ParseBody b) (\<lambda>(p, b). Inr (WebPagerSubType p, b)))"
    by (intro bounded_bind bounded_pager bounded_return)
  then show ?thesis
    by (auto simp: WebPagerSubType ParseBody_def [abs_def] intro: bounded_mono)
qed (use assms in simp)

lemma subtype_of_type_cases:
  "(\<exists>m. subtype_of_type typ multi = Inl (ParseException m)) \<or>
   (\<exists>s. subtype_of_type typ multi = Inr s \<and> (typ \<noteq> MSG_Type_SMS \<longrightarrow> (\<forall>p. s \<noteq> SMSSubType p)))"
  by (simp add: subtype_of_type_def Let_def)

lemma bounded_after_type:
  assumes "tb \<noteq> MSG_Type_SMS"
  shows "bounded (1 + 131092) (\<lambda>b. andThen (get_u8 b) (\<lambda>(flags, b).
     let multi = (flags AND MSG_Flag_Multi \<noteq> 0) in
     andThen (subtype_of_type tb multi) (\<lambda>ist.
     andThen (ParseBody (set_adv_ack adv ack ist) b) (\<lambda>(ist, b).
     Inr (\<lparr>m_flags8 = flags, body = ist\<rparr>, b)))))"
proof (rule bounded_bind [OF bounded_get_u8])
  fix flags
  let ?m = "flags AND MSG_Flag_Multi \<noteq> 0"
  show "bounded 131092 (\<lambda>b. let multi = (flags AND MSG_Flag_Multi \<noteq> 0) in
     andThen (subtype_of_type tb multi) (\<lambda>ist.
     andThen (ParseBody (set_adv_ack adv ack ist) b) (\<lambda>(ist, b).
     Inr (\<lparr>m_flags8 = flags, body = ist\<rparr>, b))))"
  proof (cases "subtype_of_type tb ?m")
    case (Inl e)
    then show ?thesis
      using subtype_of_type_cases [of tb ?m] by (auto simp: Let_def)
  next
    case (Inr s)
    then have "\<And>p. set_adv_ack adv ack s \<noteq> SMSSubType p"
      using subtype_of_type_cases [of tb ?m] assms
      by (auto simp: set_adv_ack_def split: subtype_body.splits)
    then have "bounded (131092 + 0) (\<lambda>b. andThen (ParseBody (set_adv_ack adv ack s) b) (\<lambda>(ist, b).
        Inr (\<lparr>m_flags8 = flags, body = ist\<rparr>, b)))"
      by (intro bounded_bind bounded_ParseBody bounded_return)
    then show ?thesis
      by (simp add: Inr Let_def)
  qed
qed

lemma ParseICQSubType_Output:
  assumes "sendable s"
    and "at b (m_endn d) (drop (length (m_data d)) (m_data (ICQSubType_Output s d)) @ r)"
  shows "yields (received s) (m_endn d) r (ParseICQSubType (is_advanced s) (is_ack s) b)"
proof -
  obtain u ub where s: "body s = UINSubType u ub"
    using assms(1) by (cases "body s") (auto simp: sendable_def)
  have ok: "uin_ok u ub" "type_ok ub" "multi_of ub (m_flags8 s AND MSG_Flag_Multi \<noteq> 0)"
    using assms(1) by (auto simp: sendable_def s)
  have m: "multi_of ub (getFlags s AND MSG_Flag_Multi \<noteq> 0)"
    using ok(3) by (cases ub) (simp_all add: getFlags_def s)
  have "at b (m_endn d) ([getType (body s)] @ [getFlags s] @ enc_uin u (m_endn d) ub @ r)"
    using assms(2) by (simp add: ICQSubType_Output_emit [OF s])
  from ParseICQSubType_enc [OF s ok(1,2) m this] show ?thesis
    by (simp add: is_advanced_def is_ack_def s)
qed

section \<open>Properties\<close>

text \<open>C21: Every message of the nine classes the library sends is read back by ParseICQSubType, in
  either byte order, plain or advanced, as a request or as an acknowledgement: type, flags,
  status, priority and all the fields (for an acknowledgement the away message) are those sent,
  and nothing that follows in the packet is consumed.\<close>

theorem icq_subtype_roundtrip:
  assumes "sendable s"
    and "at b (m_endn d) (drop (length (m_data d)) (m_data (ICQSubType_Output s d)) @ r)"
  shows "yields (received s) (m_endn d) r (ParseICQSubType (is_advanced s) (is_ack s) b)"
  using assms by (rule ParseICQSubType_Output)

definition sample_contacts :: icq_subtype where
  "sample_contacts =
     \<lparr>m_flags8 = 0, body = UINSubType (new_uin_part\<lparr>u_advanced := True, u_urgent := True\<rparr>)
        (ContactBody [(12345, ''ann''), (7, '''')])\<rparr>"

lemma sample_contacts_sendable: "sendable sample_contacts"
  by (simp add: sample_contacts_def sendable_def uin_ok_def type_ok_def new_uin_part_def sep_code
      contact_fields_def show_nat.simps)

theorem icq_subtype_roundtrip_witness:
  "yields (received sample_contacts) LITTLE [9] (ParseICQSubType True False
     (buffer_of_bytes (m_data (ICQSubType_Output sample_contacts (setLittleEndian new_buffer)) @ [9])
        \<lparr>m_endn := LITTLE\<rparr>))"
proof -
  have "length (m_data (ICQSubType_Output sample_contacts (setLittleEndian new_buffer))) < 100"
    by (simp add: sample_contacts_def ICQSubType_Output_emit enc_uin_def new_uin_part_def
        setLittleEndian_def new_buffer_def contact_fields_def show_nat.simps)
  then show ?thesis
    using icq_subtype_roundtrip [OF sample_contacts_sendable, of _ "setLittleEndian new_buffer" "[9]"]
    by (simp add: at_def wfb_def unread_def buffer_of_bytes_def setLittleEndian_def new_buffer_def
        is_advanced_def is_ack_def sample_contacts_def new_uin_part_def)
qed

text \<open>Whatever bytes arrive, parsing a message of any type but SMS either yields a message or
  throws a parse exception: it reads no byte outside the packet and runs no list iterator off
  its end.\<close>

theorem icq_subtype_in_range:
  assumes "wfb b" and "hd (unread b @ [0]) \<noteq> MSG_Type_SMS"
  shows "(\<exists>s b'. ParseICQSubType adv ack b = Inr (s, b')) \<or>
    (\<exists>m. ParseICQSubType adv ack b = Inl (ParseException m))"
proof -
  have pos: "unat (m_out_pos b) + 131093 + 1 < 2 ^ 32" "length (m_data b) < 2 ^ 32"
    using assms(1) by (auto simp: wfb_def)
  obtain tb b' where g: "get_u8 b = Inr (tb, b')" "step_within 1 b b'"
    using boundedD [OF bounded_get_u8, of b] pos no_throw_get_u8 [of b] by fastforce
  have "tb = hd (unread b @ [0])"
  proof (cases "unread b")
    case Nil
    then have "m_out_pos b + 1 > m_out_pos b \<and> length (m_data b) \<le> unat (m_out_pos b)"
      using assms(1) unat_plus_u32 [of "m_out_pos b" 1] by (auto simp: unread_def wfb_def word_less_nat_alt)
    then show ?thesis
      using g(1) Nil by (auto simp: get_u8_def word_less_nat_alt split: if_splits)
  next
    case (Cons x r)
    then show ?thesis
      using g(1) get_u8_unread [OF assms(1) Cons] by simp
  qed
  then have t: "tb \<noteq> MSG_Type_SMS"
    using assms(2) by simp
  have b': "unat (m_out_pos b') + (1 + 131092) < 2 ^ 32" "length (m_data b') < 2 ^ 32"
    using g(2) pos by (auto simp: step_within_def)
  from boundedD [OF bounded_after_type [OF t, of adv ack] b'] show ?thesis
    using g(1) by (auto simp: ParseICQSubType_def)
qed

theorem icq_subtype_in_range_witness:
  "\<exists>m. ParseICQSubType False False (buffer_of_bytes [0x55]) = Inl (ParseException m)"
proof -
  have "\<not> (\<exists>s b'. ParseICQSubType False False (buffer_of_bytes [0x55]) = Inr (s, b'))"
    by (simp add: ParseICQSubType_def get_u8_def byte_at_def buffer_of_bytes_def subtype_of_type_def
        Let_def msg_types)
  then show ?thesis
    using icq_subtype_in_range [of "buffer_of_bytes [0x55]" False False]
    by (simp add: wfb_def buffer_of_bytes_def unread_def msg_types)
qed

definition sms_overflow_packet :: "u8 list" where
  "sms_overflow_packet =
     [0x1a, 0, 0, 0, 0, 0, 0, 0, 0, 0, 0, 0, 0, 0, 0, 0, 0, 0, 0, 0, 0, 0, 0, 0, 0,
      0xff, 0xff, 0xff, 0xff, 0]"

text \<open>An SMS message of 30 bytes makes the parser read outside the packet: its 32-bit string
  length wraps the position around and passes the check in Buffer::Unpack.\<close>

theorem sms_out_of_range:
  "ParseICQSubType adv ack (buffer_of_bytes sms_overflow_packet) = Inl OutOfRange"
proof -
  let ?p = "\<lambda>n. \<lparr>m_data = sms_overflow_packet, m_endn = BIG, m_out_pos = n\<rparr>"
  have l: "length sms_overflow_packet = 30"
    by (simp add: sms_overflow_packet_def)
  have w: "wfb (?p n)" if "unat n \<le> 30" for n
    using that by (simp add: wfb_def l)
  have u: "unread (?p n) = drop (unat n) sms_overflow_packet" for n
    by (simp add: unread_def)
  have a: "advance k (?p n) = ?p (n + k)" for k n
    by (simp add: advance_def)
  have t: "subtype_of_type 0x1a m = Inr (SMSSubType new_sms_part)" for m
    by (simp add: subtype_of_type_def msg_types)
  have 1: "get_u8 (?p 0) = Inr (0x1a, ?p 1)"
    using get_u8_unread [OF w, of "0" "0x1a" "drop 1 sms_overflow_packet"]
    by (simp add: u a) (simp add: sms_overflow_packet_def)
  have 2: "get_u8 (?p 1) = Inr (0, ?p 2)"
    using get_u8_unread [OF w, of "1" "0" "drop 2 sms_overflow_packet"]
    by (simp add: u a) (simp add: sms_overflow_packet_def)
  have 3: "get_u16 (?p 23) = Inr (0, ?p 25)"
    using get_u16_unread [OF w, of "23" 0 0 "drop 25 sms_overflow_packet"]
    by (simp add: u a join16_def) (simp add: sms_overflow_packet_def)
  have 4: "get_u32 (?p 25) = Inr (0xffffffff, ?p 29)"
    using get_u32_unread [OF w, of 25 255 255 255 255 "[0]"]
    by (simp add: u a join32_def) (simp add: sms_overflow_packet_def)
  have 5: "Unpack [] 0xffffffff (?p 29) = Inl OutOfRange"
    by (subst Unpack_out_of_range_iff [OF w]) (simp_all add: u, simp add: sms_overflow_packet_def)
  have "buffer_of_bytes sms_overflow_packet = ?p 0"
    by (simp add: buffer_of_bytes_def)
  then show ?thesis
    by (simp only: ParseICQSubType_def 1 2 t andThen_Inr split Let_def set_adv_ack_def ParseBody_def
        subtype_body.case SMS_ParseBody_def a)
      (simp add: 3 4 5 UnpackUint32String_def)
qed

text \<open>The port of a reverse file transfer connection is stored with its bytes swapped and read
  back unchanged.\<close>

theorem rev_port_roundtrip: "getRevPort (setRevPort port f) = port"
proof -
  have m: "(0xFF :: u16) = mask 8"
    by (simp add: mask_eq_exp_minus_1)
  have add: "(drop_bit 8 v AND mask 8) + push_bit 8 (v AND mask 8) =
      (drop_bit 8 v AND mask 8) OR push_bit 8 (v AND mask 8)" for v :: u16
    by (rule disjunctive_add) (auto simp: bit_simps)
  have swap: "push_bit 8 (v AND mask 8) + (drop_bit 8 v AND mask 8) =
      (drop_bit 8 v AND mask 8) OR push_bit 8 (v AND mask 8)" for v :: u16
    using add [of v] by (simp add: add.commute)
  show ?thesis
    unfolding getRevPort_def setRevPort_def ft_part.simps m
    by (simp only: add swap) (auto simp: bit_eq_iff bit_simps, metis le_add_diff_inverse not_less)
qed

text \<open>A contact message of a few bytes makes the receiver build any number of contacts up to
  2^30: the count the sender writes decides how many blank fields string_split adds.\<close>

theorem contact_message_amplification:
  assumes "n < 2 ^ 31" and "at b e (enc_stringnull e (show_nat n @ [sep]) @ r)"
    and "length (show_nat n) < 100"
  shows "yields (ContactBody (replicate (n div 2) (0, []))) e r (Contact_ParseBodyUIN [] b)"
proof -
  have a: "signed_take_bit 31 (atoi (show_nat n)) = int n"
    using atoi_show_nat [of "[]" n] assms(1) by (simp add: signed_take_bit_int_eq_self)
  have z: "word_of_int (atoi []) = (0 :: u32)"
    by (simp add: atoi_def)
  have c: "contacts_of_fields (replicate (2 * k) []) = Inr (replicate k (0, []))" for k
    by (induction k) (simp_all add: z)
  have f: "(if length (replicate n []) mod 2 \<noteq> 0 then butlast (replicate n []) else replicate n []) =
      (replicate (2 * (n div 2)) [] :: string list)"
  proof (cases "even n")
    case True
    then show ?thesis by simp
  next
    case False
    then have "n = Suc (2 * (n div 2))"
      by presburger
    then have "replicate n [] = replicate (2 * (n div 2)) [] @ [[] :: string]"
      by (metis replicate_Suc replicate_append_same)
    then show ?thesis
      using False by (simp add: odd_iff_mod_2_eq_one)
  qed
  have s: "string_split [] sep (int n) = replicate n []"
    by (simp add: string_split_def)
  have tk: "take (length (show_nat n)) (show_nat n @ [sep]) = show_nat n"
    "drop (length (show_nat n) + 1) (show_nat n @ [sep]) = []"
    by simp_all
  show ?thesis
    unfolding Contact_ParseBodyUIN_def
  proof (rule text_bind [OF _ assms(2)])
    show "length (show_nat n @ [sep]) < 65535"
      using assms(3) by simp
  next
    fix b
    show "(case find_char sep (show_nat n @ [sep]) of
        None \<Rightarrow> Inr (ContactBody [], b)
      | Some pos \<Rightarrow>
         (let m = signed_take_bit 31 (atoi (take pos (show_nat n @ [sep])));
              text = drop (pos + 1) (show_nat n @ [sep]);
              fields = string_split text sep m;
              fields = (if length fields mod 2 \<noteq> 0 then butlast fields else fields)
          in andThen (contacts_of_fields fields) (\<lambda>cs. Inr (ContactBody ([] @ cs), b)))) =
        Inr (ContactBody (replicate (n div 2) (0, [])), b)"
      using find_sep [OF sep_digits, of n "[]"]
      by (simp only: option.case tk a s Let_def f c andThen_Inr append_Nil)
  qed
qed

theorem contact_message_amplification_witness:
  "yields (ContactBody (replicate 1000000000 (0, []))) LITTLE [] (Contact_ParseBodyUIN []
     (buffer_of_bytes (enc_stringnull LITTLE (show_nat 2000000000 @ [sep]))\<lparr>m_endn := LITTLE\<rparr>))"
proof -
  have l: "length (show_nat 2000000000) = 10"
    by (simp add: show_nat.simps)
  show ?thesis
    using contact_message_amplification [of 2000000000
        "buffer_of_bytes (enc_stringnull LITTLE (show_nat 2000000000 @ [sep]))\<lparr>m_endn := LITTLE\<rparr>" LITTLE "[]"]
    by (simp add: l at_def wfb_def buffer_of_bytes_def unread_def)
qed

text \<open>The plain acknowledgement of a text message is not what the parser expects: the library
  writes the eight trailing bytes in the advanced form only and always skips them when reading,
  so eight bytes of whatever follows are lost.\<close>

theorem plain_ack_skips_following:
  assumes "u_ack u" and "\<not> u_advanced u" and "length (u_away_message u) < 65535"
    and "at b e (enc_uin u e (NormalBody msg multi fg bg) @ next8 @ r)" and "length next8 = 8"
  shows "\<exists>v. yields v e r
    (UIN_ParseBody (new_uin_part\<lparr>u_ack := True\<rparr>) (new_NormalICQSubType multi) b) \<and>
    u_away_message (fst v) = u_away_message u"
proof -
  have at: "at b e (enc_stringnull e (u_away_message u) @ next8 @ r)"
    using assms(1,2,4) by (simp add: enc_uin_def)
  have "yields (new_uin_part\<lparr>u_ack := True, u_away_message := u_away_message u\<rparr>,
      new_NormalICQSubType multi) e r
    (andThen (UnpackUint16StringNull [] b) (\<lambda>(m, b).
     Inr ((new_uin_part\<lparr>u_ack := True, u_away_message := m\<rparr>, new_NormalICQSubType multi), advance 8 b)))"
    by (rule stringnull_codec.inp_bind [OF assms(3) at])
      (use assms(5) in \<open>auto intro!: yields_return at_advance [where xs = next8]\<close>)
  then show ?thesis
    by (intro exI conjI) (assumption | simp add: UIN_ParseBody_def ParseBodyUINACK_def
        new_NormalICQSubType_def new_uin_part_def)+
qed

theorem plain_ack_skips_following_witness:
  "\<exists>v. yields v LITTLE [9] (UIN_ParseBody (new_uin_part\<lparr>u_ack := True\<rparr>) (new_NormalICQSubType False)
     (buffer_of_bytes (enc_stringnull LITTLE ''x'' @ [1, 2, 3, 4, 5, 6, 7, 8] @ [9])\<lparr>m_endn := LITTLE\<rparr>)) \<and>
     u_away_message (fst v) = ''x''"
  using plain_ack_skips_following [of "new_uin_part\<lparr>u_ack := True, u_away_message := ''x''\<rparr>"
      "buffer_of_bytes (enc_stringnull LITTLE ''x'' @ [1, 2, 3, 4, 5, 6, 7, 8] @ [9])\<lparr>m_endn := LITTLE\<rparr>"
      LITTLE "[]" False 0 0 "[1, 2, 3, 4, 5, 6, 7, 8]" "[9]"]
  by (simp add: new_uin_part_def enc_uin_def at_def wfb_def buffer_of_bytes_def unread_def)

end
