(* ===== verification/TLV.thy ===== *)
theory TLV
  imports ICQSubType
begin

text \<open>
  Type-length-value blocks: \<^verbatim>\<open>src/TLV.h\<close> and \<^verbatim>\<open>src/TLV.cpp\<close>. The classes a client can receive
  (\<^verbatim>\<open>InTLV\<close>) and those it sends (\<^verbatim>\<open>OutTLV\<close>) are two datatypes. The meaning of a type number
  depends on the block the TLV stands in, the parse mode. \<open>cap0\<close> is what the uninitialised array
  in \<^verbatim>\<open>Capabilities::Parse\<close> held.
\<close>

section \<open>Constants\<close>

datatype TLV_ParseMode =
    TLV_ParseMode_Channel01
  | TLV_ParseMode_Channel02
  | TLV_ParseMode_Channel04
  | TLV_ParseMode_MessageBlock
  | TLV_ParseMode_AdvMsgBlock
  | TLV_ParseMode_InMessageData
  | TLV_ParseMode_InAdvMsgData
  | TLV_ParseMode_SBL
  | TLV_ParseMode_SBL_Rights

definition TLV_Screenname :: u16 where "TLV_Screenname = 0x0001"
definition TLV_Password :: u16 where "TLV_Password = 0x0002"
definition TLV_ClientProfile :: u16 where "TLV_ClientProfile = 0x0003"
definition TLV_UserInfo :: u16 where "TLV_UserInfo = 0x0005"
definition TLV_Cookie :: u16 where "TLV_Cookie = 0x0006"
definition TLV_CountryCode :: u16 where "TLV_CountryCode = 0x000e"
definition TLV_Language :: u16 where "TLV_Language = 0x000f"
definition TLV_ClientBuildMinor :: u16 where "TLV_ClientBuildMinor = 0x0014"
definition TLV_ClientType :: u16 where "TLV_ClientType = 0x0016"
definition TLV_ClientVersionMajor :: u16 where "TLV_ClientVersionMajor = 0x0017"
definition TLV_ClientVersionMinor :: u16 where "TLV_ClientVersionMinor = 0x0018"
definition TLV_ClientICQNumber :: u16 where "TLV_ClientICQNumber = 0x0019"
definition TLV_ClientBuildMajor :: u16 where "TLV_ClientBuildMajor = 0x001a"
definition TLV_UserClass :: u16 where "TLV_UserClass = 0x0001"
definition TLV_SignupDate :: u16 where "TLV_SignupDate = 0x0002"
definition TLV_SignonDate :: u16 where "TLV_SignonDate = 0x0003"
definition TLV_Port :: u16 where "TLV_Port = 0x0004"
definition TLV_UserInfoCapabilities :: u16 where "TLV_UserInfoCapabilities = 0x0005"
definition TLV_Status :: u16 where "TLV_Status = 0x0006"
definition TLV_Unknown :: u16 where "TLV_Unknown = 0x0008"
definition TLV_IPAddress :: u16 where "TLV_IPAddress = 0x000a"
definition TLV_WebAddress :: u16 where "TLV_WebAddress = 0x000b"
definition TLV_LANDetails :: u16 where "TLV_LANDetails = 0x000c"
definition TLV_Capabilities :: u16 where "TLV_Capabilities = 0x000d"
definition TLV_TimeOnline :: u16 where "TLV_TimeOnline = 0x000f"
definition TLV_ContactNickname :: u16 where "TLV_ContactNickname = 0x0131"
definition TLV_AuthAwaited :: u16 where "TLV_AuthAwaited = 0x0066"
definition TLV_ErrorURL :: u16 where "TLV_ErrorURL = 0x0004"
definition TLV_Redirect :: u16 where "TLV_Redirect = 0x0005"
definition TLV_ErrorCode :: u16 where "TLV_ErrorCode = 0x0008"
definition TLV_DisconnectReason :: u16 where "TLV_DisconnectReason = 0x0009"
definition TLV_DisconnectMessage :: u16 where "TLV_DisconnectMessage = 0x000b"
definition TLV_Unknown3 :: u16 where "TLV_Unknown3 = 0x000c"
definition TLV_EmailAddress :: u16 where "TLV_EmailAddress = 0x0011"
definition TLV_RegStatus :: u16 where "TLV_RegStatus = 0x0013"
definition TLV_MessageData :: u16 where "TLV_MessageData = 0x0002"
definition TLV_ServerAckRequested :: u16 where "TLV_ServerAckRequested = 0x0003"
definition TLV_MessageIsAutoResponse :: u16 where "TLV_MessageIsAutoResponse = 0x0004"
definition TLV_ICQData :: u16 where "TLV_ICQData = 0x0005"
definition TLV_AdvMsgData :: u16 where "TLV_AdvMsgData = 0x0005"
definition TLV_Unknown0501 :: u16 where "TLV_Unknown0501 = 0x0501"
definition TLV_MessageText :: u16 where "TLV_MessageText = 0x0101"
definition TLV_AdvMsgBody :: u16 where "TLV_AdvMsgBody = 0x2711"
definition TLV_SBL_Await_Auth :: u16 where "TLV_SBL_Await_Auth = 0x0066"
definition TLV_SBL_Ids :: u16 where "TLV_SBL_Ids = 0x00c8"
definition TLV_SBL_Visibility :: u16 where "TLV_SBL_Visibility = 0x00ca"
definition TLV_SBL_ICQTIC :: u16 where "TLV_SBL_ICQTIC = 0x00cd"
definition TLV_SBL_ImportTime :: u16 where "TLV_SBL_ImportTime = 0x00d4"
definition TLV_SBL_Nick :: u16 where "TLV_SBL_Nick = 0x0131"
definition TLV_SBL_SMS_No :: u16 where "TLV_SBL_SMS_No = 0x013a"

lemmas tlv_types = TLV_Screenname_def TLV_Password_def TLV_ClientProfile_def TLV_UserInfo_def
  TLV_Cookie_def TLV_CountryCode_def TLV_Language_def TLV_ClientBuildMinor_def TLV_ClientType_def
  TLV_ClientVersionMajor_def TLV_ClientVersionMinor_def TLV_ClientICQNumber_def
  TLV_ClientBuildMajor_def TLV_UserClass_def TLV_SignupDate_def TLV_SignonDate_def TLV_Port_def
  TLV_UserInfoCapabilities_def TLV_Status_def TLV_Unknown_def TLV_IPAddress_def TLV_WebAddress_def
  TLV_LANDetails_def TLV_Capabilities_def TLV_TimeOnline_def TLV_ContactNickname_def
  TLV_AuthAwaited_def TLV_ErrorURL_def TLV_Redirect_def TLV_ErrorCode_def TLV_DisconnectReason_def
  TLV_DisconnectMessage_def TLV_Unknown3_def TLV_EmailAddress_def TLV_RegStatus_def
  TLV_MessageData_def TLV_ServerAckRequested_def TLV_MessageIsAutoResponse_def TLV_ICQData_def
  TLV_AdvMsgData_def TLV_Unknown0501_def TLV_MessageText_def TLV_AdvMsgBody_def
  TLV_SBL_Await_Auth_def TLV_SBL_Ids_def TLV_SBL_Visibility_def TLV_SBL_ICQTIC_def
  TLV_SBL_ImportTime_def TLV_SBL_Nick_def TLV_SBL_SMS_No_def

section \<open>The classes\<close>

text \<open>
  The details of a LAN connection: address and port are uninitialised (\<open>None\<close>) in a TLV that was
  received in its short form.
\<close>

record lan_details =
  m_lan_ip :: "u32 option"
  m_lan_port :: "u16 option"
  m_firewall :: u16
  lan_tcp_version :: u8
  m_dc_cookie :: u32

record status_part =
  m_allowDirect :: u8
  m_webAware :: u8
  st_status :: u16

record message_text =
  mt_message :: string
  m_flag1 :: u16
  m_flag2 :: u16

datatype in_tlv =
    ScreenNameTLV string
  | CookieTLV u16 "u8 list"
  | UserClassTLV u16
  | SignupDateTLV u32
  | SignonDateTLV u32
  | StatusTLV status_part
  | WebAddressTLV string
  | TimeOnlineTLV u32
  | LANDetailsTLV lan_details
  | IPAddressTLV u32
  | PortTLV u16
  | CapabilitiesTLV capabilities
  | UnknownTLV u16
  | RedirectTLV string u16
  | ErrorURLTLV string
  | ErrorCodeTLV u16
  | DisconnectReasonTLV u16
  | DisconnectMessageTLV string
  | MessageDataTLV message_text
  | ICQDataTLV "icq_subtype option"
  | AdvMsgDataTLV "(icq_subtype \<times> u16) option"
  | MessageTextTLV message_text
  | AdvMsgBodyTLV "(icq_subtype \<times> u16) option"
  | SBLAwaitAuthTLV
  | SBLIdsTLV
  | SBLVisibilityTLV u8
  | SBLICQTICTLV string
  | SBLImportTimeTLV u32
  | SBLNickTLV string
  | SBLSMSNoTLV string
  | RawTLV u16 u16

definition Type :: "in_tlv \<Rightarrow> u16" where
  "Type t =
     (case t of
        ScreenNameTLV _ \<Rightarrow> TLV_Screenname
      | CookieTLV _ _ \<Rightarrow> TLV_Cookie
      | UserClassTLV _ \<Rightarrow> TLV_UserClass
      | SignupDateTLV _ \<Rightarrow> TLV_SignupDate
      | SignonDateTLV _ \<Rightarrow> TLV_SignonDate
      | StatusTLV _ \<Rightarrow> TLV_Status
      | WebAddressTLV _ \<Rightarrow> TLV_WebAddress
      | TimeOnlineTLV _ \<Rightarrow> TLV_TimeOnline
      | LANDetailsTLV _ \<Rightarrow> TLV_LANDetails
      | IPAddressTLV _ \<Rightarrow> TLV_IPAddress
      | PortTLV _ \<Rightarrow> TLV_Port
      | CapabilitiesTLV _ \<Rightarrow> TLV_Capabilities
      | UnknownTLV _ \<Rightarrow> TLV_Unknown
      | RedirectTLV _ _ \<Rightarrow> TLV_Redirect
      | ErrorURLTLV _ \<Rightarrow> TLV_ErrorURL
      | ErrorCodeTLV _ \<Rightarrow> TLV_ErrorCode
      | DisconnectReasonTLV _ \<Rightarrow> TLV_DisconnectReason
      | DisconnectMessageTLV _ \<Rightarrow> TLV_DisconnectMessage
      | MessageDataTLV _ \<Rightarrow> TLV_MessageData
      | ICQDataTLV _ \<Rightarrow> TLV_ICQData
      | AdvMsgDataTLV _ \<Rightarrow> TLV_AdvMsgData
      | MessageTextTLV _ \<Rightarrow> TLV_MessageText
      | AdvMsgBodyTLV _ \<Rightarrow> TLV_AdvMsgBody
      | SBLAwaitAuthTLV \<Rightarrow> TLV_SBL_Await_Auth
      | SBLIdsTLV \<Rightarrow> TLV_SBL_Ids
      | SBLVisibilityTLV _ \<Rightarrow> TLV_SBL_Visibility
      | SBLICQTICTLV _ \<Rightarrow> TLV_SBL_ICQTIC
      | SBLImportTimeTLV _ \<Rightarrow> TLV_SBL_ImportTime
      | SBLNickTLV _ \<Rightarrow> TLV_SBL_Nick
      | SBLSMSNoTLV _ \<Rightarrow> TLV_SBL_SMS_No
      | RawTLV ty _ \<Rightarrow> ty)"

definition new_lan_details :: lan_details where
  "new_lan_details =
     \<lparr>m_lan_ip = None, m_lan_port = None, m_firewall = 0x0400, lan_tcp_version = 7, m_dc_cookie = 0\<rparr>"

definition new_message_text :: message_text where
  "new_message_text = \<lparr>mt_message = [], m_flag1 = 0, m_flag2 = 0\<rparr>"

text \<open>
  The object the switch of \<open>ParseTLV\<close> creates; a value that the constructor leaves
  uninitialised is 0 here, it is always assigned by \<open>ParseValue\<close>.
\<close>

definition new_tlv :: "TLV_ParseMode \<Rightarrow> u16 \<Rightarrow> in_tlv" where
  "new_tlv pm ty =
     (case pm of
        TLV_ParseMode_Channel01 \<Rightarrow>
          if ty = TLV_Screenname then ScreenNameTLV []
          else if ty = TLV_Cookie then CookieTLV 0 []
          else RawTLV ty 0
      | TLV_ParseMode_Channel02 \<Rightarrow>
          if ty = TLV_UserClass then UserClassTLV 0
          else if ty = TLV_SignupDate then SignupDateTLV 0
          else if ty = TLV_SignonDate then SignonDateTLV 0
          else if ty = TLV_Status then StatusTLV \<lparr>m_allowDirect = 0, m_webAware = 0, st_status = 0\<rparr>
          else if ty = TLV_WebAddress then WebAddressTLV []
          else if ty = TLV_TimeOnline then TimeOnlineTLV 0
          else if ty = TLV_LANDetails then LANDetailsTLV new_lan_details
          else if ty = TLV_IPAddress then IPAddressTLV 0
          else if ty = TLV_Port then PortTLV 0
          else if ty = TLV_Capabilities then CapabilitiesTLV new_capabilities
          else if ty = TLV_Unknown then UnknownTLV 0
          else RawTLV ty 0
      | TLV_ParseMode_Channel04 \<Rightarrow>
          if ty = TLV_Screenname then ScreenNameTLV []
          else if ty = TLV_Redirect then RedirectTLV [] 0
          else if ty = TLV_Cookie then CookieTLV 0 []
          else if ty = TLV_ErrorURL then ErrorURLTLV []
          else if ty = TLV_ErrorCode then ErrorCodeTLV 0
          else if ty = TLV_DisconnectReason then DisconnectReasonTLV 0
          else if ty = TLV_DisconnectMessage then DisconnectMessageTLV []
          else RawTLV ty 0
      | TLV_ParseMode_MessageBlock \<Rightarrow>
          if ty = TLV_MessageData then MessageDataTLV new_message_text
          else if ty = TLV_ICQData then ICQDataTLV None
          else RawTLV ty 0
      | TLV_ParseMode_AdvMsgBlock \<Rightarrow>
          if ty = TLV_AdvMsgData then AdvMsgDataTLV None else RawTLV ty 0
      | TLV_ParseMode_InMessageData \<Rightarrow>
          if ty = TLV_MessageText then MessageTextTLV new_message_text else RawTLV ty 0
      | TLV_ParseMode_InAdvMsgData \<Rightarrow>
          if ty = TLV_AdvMsgBody then AdvMsgBodyTLV None else RawTLV ty 0
      | TLV_ParseMode_SBL \<Rightarrow>
          if ty = TLV_SBL_Await_Auth then SBLAwaitAuthTLV
          else if ty = TLV_SBL_Ids then SBLIdsTLV
          else if ty = TLV_SBL_Visibility then SBLVisibilityTLV 0
          else if ty = TLV_SBL_ICQTIC then SBLICQTICTLV []
          else if ty = TLV_SBL_ImportTime then SBLImportTimeTLV 0
          else if ty = TLV_SBL_Nick then SBLNickTLV []
          else if ty = TLV_SBL_SMS_No then SBLSMSNoTLV []
          else RawTLV ty 0
      | TLV_ParseMode_SBL_Rights \<Rightarrow> RawTLV ty 0)"

section \<open>Parsing the values\<close>

definition CharTLV_ParseValue :: "buffer \<Rightarrow> (u8 \<times> buffer) result" where
  "CharTLV_ParseValue b = andThen (get_u16 b) (\<lambda>(l, b). get_u8 b)"

definition ShortTLV_ParseValue :: "buffer \<Rightarrow> (u16 \<times> buffer) result" where
  "ShortTLV_ParseValue b = andThen (get_u16 b) (\<lambda>(l, b). get_u16 b)"

definition LongTLV_ParseValue :: "buffer \<Rightarrow> (u32 \<times> buffer) result" where
  "LongTLV_ParseValue b = andThen (get_u16 b) (\<lambda>(l, b). get_u32 b)"

definition StringTLV_ParseValue :: "string \<Rightarrow> buffer \<Rightarrow> (string \<times> buffer) result" where
  "StringTLV_ParseValue s b = get_string s b"

definition StatusTLV_ParseValue :: "buffer \<Rightarrow> (status_part \<times> buffer) result" where
  "StatusTLV_ParseValue b =
     andThen (get_u16 b) (\<lambda>(l, b).
     andThen (get_u8 b) (\<lambda>(ad, b).
     andThen (get_u8 b) (\<lambda>(wa, b).
     andThen (get_u16 b) (\<lambda>(st, b).
     Inr (\<lparr>m_allowDirect = ad, m_webAware = wa, st_status = st\<rparr>, b)))))"

definition RedirectTLV_ParseValue :: "buffer \<Rightarrow> (in_tlv \<times> buffer) result" where
  "RedirectTLV_ParseValue b =
     andThen (get_string [] b) (\<lambda>(hp, b).
     Inr (case find_char (CHR '':'') hp of
            Some d \<Rightarrow> RedirectTLV (take d hp) (word_of_int (atoi (drop (d + 1) hp)))
          | None \<Rightarrow> RedirectTLV hp 0, b))"

text \<open>The loop of the cookie reads byte by byte.\<close>

fun get_bytes :: "nat \<Rightarrow> buffer \<Rightarrow> (u8 list \<times> buffer) result" where
  "get_bytes 0 b = Inr ([], b)"
| "get_bytes (Suc n) b =
     andThen (get_u8 b) (\<lambda>(c, b). andThen (get_bytes n b) (\<lambda>(cs, b). Inr (c # cs, b)))"

definition CookieTLV_ParseValue :: "buffer \<Rightarrow> (in_tlv \<times> buffer) result" where
  "CookieTLV_ParseValue b =
     andThen (get_u16 b) (\<lambda>(len, b).
     andThen (get_bytes (unat len) b) (\<lambda>(v, b). Inr (CookieTLV len v, b)))"

definition CapabilitiesTLV_ParseValue ::
  "u8 list \<Rightarrow> capabilities \<Rightarrow> buffer \<Rightarrow> (capabilities \<times> buffer) result" where
  "CapabilitiesTLV_ParseValue cap0 c b = andThen (get_u16 b) (\<lambda>(l, b). caps_parse cap0 c l b)"

fun skip_timestamps :: "nat \<Rightarrow> buffer \<Rightarrow> buffer" where
  "skip_timestamps 0 b = b"
| "skip_timestamps (Suc n) b = skip_timestamps n (advance 4 b)"

definition no_timestamps :: "u32 \<Rightarrow> u16 \<Rightarrow> u16" where
  "no_timestamps unknown n =
     (let n = (if unknown = 0x00000000 then 3 else n) in if n > 100 then 100 else n)"

definition LANDetailsTLV_ParseValue :: "lan_details \<Rightarrow> buffer \<Rightarrow> (lan_details \<times> buffer) result" where
  "LANDetailsTLV_ParseValue d b =
     andThen (get_u16 b) (\<lambda>(len, b).
     andThen (if len = 0x0025 then
                andThen (get_u32 b) (\<lambda>(ip, b).
                let b = advance 2 b in
                andThen (get_u16 b) (\<lambda>(port, b).
                Inr (d\<lparr>m_lan_ip := Some ip, m_lan_port := Some port\<rparr>, b)))
              else Inr (d, b)) (\<lambda>(d, b).
     andThen (get_u16 b) (\<lambda>(fw, b).
     andThen (get_u8 b) (\<lambda>(tv, b).
     andThen (get_u32 b) (\<lambda>(ck, b).
     andThen (get_u32 b) (\<lambda>(unknown, b).
     let b = advance 2 b in
     andThen (get_u16 b) (\<lambda>(n, b).
     let b = skip_timestamps (unat (no_timestamps unknown n)) b in
     Inr (d\<lparr>m_firewall := fw, lan_tcp_version := tv, m_dc_cookie := ck\<rparr>, advance 2 b))))))))"

definition RawTLV_ParseValue :: "buffer \<Rightarrow> (u16 \<times> buffer) result" where
  "RawTLV_ParseValue b = andThen (get_u16 b) (\<lambda>(len, b). Inr (len, advance (ucast len) b))"

text \<open>\<^verbatim>\<open>length-4\<close> is computed as a signed integer and handed over as an unsigned one.\<close>

definition MessageTextTLV_ParseValue :: "string \<Rightarrow> buffer \<Rightarrow> (message_text \<times> buffer) result" where
  "MessageTextTLV_ParseValue msg b =
     andThen (get_u16 b) (\<lambda>(len, b).
     andThen (get_u16 b) (\<lambda>(f1, b).
     andThen (get_u16 b) (\<lambda>(f2, b).
     andThen (Unpack msg (ucast len - 4) b) (\<lambda>(msg, b).
     Inr (\<lparr>mt_message = msg, m_flag1 = f1, m_flag2 = f2\<rparr>, b)))))"

definition getFlag1 :: "message_text \<Rightarrow> u16" where
  "getFlag1 m = m_flag1 m"

definition getFlag2 :: "message_text \<Rightarrow> u16" where
  "getFlag2 m = m_flag1 m"

text \<open>The sub-type comes with the sequence number that \<^verbatim>\<open>setSeqNum\<close> gives it.\<close>

definition AdvMsgBodyTLV_ParseValue :: "buffer \<Rightarrow> ((icq_subtype \<times> u16) option \<times> buffer) result" where
  "AdvMsgBodyTLV_ParseValue b =
     andThen (get_u16 b) (\<lambda>(len, b).
     let b = advance 27 b; b = setLittleEndian b in
     andThen (get_u16 b) (\<lambda>(seqnum, b).
     andThen (get_u16 b) (\<lambda>(unknown, b).
     andThen (get_u16 b) (\<lambda>(seqnum, b).
     if unknown \<noteq> 0x000e \<and> unknown \<noteq> 0x0012
     then Inl (ParseException ''Received unknown Server-Message type'')
     else
       let b = advance 12 b in
       andThen (ParseICQSubType True False b) (\<lambda>(ist, b).
       Inr (if unknown = 0x0012 then None else Some (ist, seqnum), b))))))"

definition SBLAwaitAuthTLV_ParseValue :: "buffer \<Rightarrow> (in_tlv \<times> buffer) result" where
  "SBLAwaitAuthTLV_ParseValue b =
     andThen (get_u16 b) (\<lambda>(l, b). Inr (SBLAwaitAuthTLV, advance (ucast l) b))"

definition SBLIdsTLV_ParseValue :: "buffer \<Rightarrow> (in_tlv \<times> buffer) result" where
  "SBLIdsTLV_ParseValue b =
     andThen (get_u16 b) (\<lambda>(l, b). Inr (SBLIdsTLV, advance (ucast l) b))"

definition ICQDataTLV_ParseValue :: "buffer \<Rightarrow> (icq_subtype option \<times> buffer) result" where
  "ICQDataTLV_ParseValue b =
     andThen (get_u16 b) (\<lambda>(len, b).
     let b = setLittleEndian b in
     andThen (get_u32 b) (\<lambda>(uin, b).
     andThen (ParseICQSubType False False b) (\<lambda>(ist, b).
     Inr (Some ist, b))))"

definition map_value :: "('a \<Rightarrow> 'b) \<Rightarrow> ('a \<times> buffer) result \<Rightarrow> ('b \<times> buffer) result" where
  "map_value f m = andThen m (\<lambda>(x, b). Inr (f x, b))"

text \<open>
  \<open>ParseValue\<close> of all classes but the two that hold a list of TLVs themselves; those are given by
  \<open>nested\<close>.
\<close>

definition ParseValue_with ::
  "(in_tlv \<Rightarrow> buffer \<Rightarrow> (in_tlv \<times> buffer) result) \<Rightarrow> u8 list \<Rightarrow> in_tlv \<Rightarrow> buffer \<Rightarrow> (in_tlv \<times> buffer) result" where
  "ParseValue_with nested cap0 t b =
     (case t of
        ScreenNameTLV s \<Rightarrow> map_value ScreenNameTLV (StringTLV_ParseValue s b)
      | CookieTLV _ _ \<Rightarrow> CookieTLV_ParseValue b
      | UserClassTLV _ \<Rightarrow> map_value UserClassTLV (ShortTLV_ParseValue b)
      | SignupDateTLV _ \<Rightarrow> map_value SignupDateTLV (LongTLV_ParseValue b)
      | SignonDateTLV _ \<Rightarrow> map_value SignonDateTLV (LongTLV_ParseValue b)
      | StatusTLV _ \<Rightarrow> map_value StatusTLV (StatusTLV_ParseValue b)
      | WebAddressTLV s \<Rightarrow> map_value WebAddressTLV (StringTLV_ParseValue s b)
      | TimeOnlineTLV _ \<Rightarrow> map_value TimeOnlineTLV (LongTLV_ParseValue b)
      | LANDetailsTLV d \<Rightarrow> map_value LANDetailsTLV (LANDetailsTLV_ParseValue d b)
      | IPAddressTLV _ \<Rightarrow> map_value IPAddressTLV (LongTLV_ParseValue b)
      | PortTLV _ \<Rightarrow> map_value PortTLV (ShortTLV_ParseValue b)
      | CapabilitiesTLV c \<Rightarrow> map_value CapabilitiesTLV (CapabilitiesTLV_ParseValue cap0 c b)
      | UnknownTLV _ \<Rightarrow> map_value UnknownTLV (ShortTLV_ParseValue b)
      | RedirectTLV _ _ \<Rightarrow> RedirectTLV_ParseValue b
      | ErrorURLTLV s \<Rightarrow> map_value ErrorURLTLV (StringTLV_ParseValue s b)
      | ErrorCodeTLV _ \<Rightarrow> map_value ErrorCodeTLV (ShortTLV_ParseValue b)
      | DisconnectReasonTLV _ \<Rightarrow> map_value DisconnectReasonTLV (ShortTLV_ParseValue b)
      | DisconnectMessageTLV s \<Rightarrow> map_value DisconnectMessageTLV (StringTLV_ParseValue s b)
      | MessageDataTLV _ \<Rightarrow> nested t b
      | ICQDataTLV _ \<Rightarrow> map_value ICQDataTLV (ICQDataTLV_ParseValue b)
      | AdvMsgDataTLV _ \<Rightarrow> nested t b
      | MessageTextTLV m \<Rightarrow> map_value MessageTextTLV (MessageTextTLV_ParseValue (mt_message m) b)
      | AdvMsgBodyTLV _ \<Rightarrow> map_value AdvMsgBodyTLV (AdvMsgBodyTLV_ParseValue b)
      | SBLAwaitAuthTLV \<Rightarrow> SBLAwaitAuthTLV_ParseValue b
      | SBLIdsTLV \<Rightarrow> SBLIdsTLV_ParseValue b
      | SBLVisibilityTLV _ \<Rightarrow> map_value SBLVisibilityTLV (CharTLV_ParseValue b)
      | SBLICQTICTLV s \<Rightarrow> map_value SBLICQTICTLV (StringTLV_ParseValue s b)
      | SBLImportTimeTLV _ \<Rightarrow> map_value SBLImportTimeTLV (LongTLV_ParseValue b)
      | SBLNickTLV s \<Rightarrow> map_value SBLNickTLV (StringTLV_ParseValue s b)
      | SBLSMSNoTLV s \<Rightarrow> map_value SBLSMSNoTLV (StringTLV_ParseValue s b)
      | RawTLV ty _ \<Rightarrow> map_value (RawTLV ty) (RawTLV_ParseValue b))"

definition ParseTLV_with ::
  "(in_tlv \<Rightarrow> buffer \<Rightarrow> (in_tlv \<times> buffer) result) \<Rightarrow> TLV_ParseMode \<Rightarrow> buffer \<Rightarrow> (in_tlv \<times> buffer) result" where
  "ParseTLV_with pv pm b = andThen (get_u16 b) (\<lambda>(ty, b). pv (new_tlv pm ty) b)"

section \<open>Lists of TLVs\<close>

text \<open>The map from types to TLVs; a null pointer, inserted by \<^verbatim>\<open>operator[]\<close>, is \<open>Some None\<close>.\<close>

type_synonym tlv_list = "u16 \<rightharpoonup> in_tlv option"

definition tlv_exists :: "u16 \<Rightarrow> tlv_list \<Rightarrow> bool" where
  "tlv_exists ty m = (m ty \<noteq> None)"

definition tlv_index :: "u16 \<Rightarrow> tlv_list \<Rightarrow> in_tlv option \<times> tlv_list" where
  "tlv_index ty m = (case m ty of None \<Rightarrow> (None, m(ty \<mapsto> None)) | Some t \<Rightarrow> (t, m))"

text \<open>\<open>n\<close> is the number of TLVs still allowed, \<^verbatim>\<open>no_tlvs - ntlv\<close>.\<close>

fun TLVList_Parse_with ::
  "(in_tlv \<Rightarrow> buffer \<Rightarrow> (in_tlv \<times> buffer) result) \<Rightarrow> TLV_ParseMode \<Rightarrow> nat \<Rightarrow> tlv_list \<Rightarrow> buffer \<Rightarrow>
    (tlv_list \<times> buffer) result" where
  "TLVList_Parse_with pv pm 0 m b = Inr (m, b)"
| "TLVList_Parse_with pv pm (Suc n) m b =
     (if beforeEnd b then
        andThen (ParseTLV_with pv pm b) (\<lambda>(t, b).
        TLVList_Parse_with pv pm n (m(Type t \<mapsto> Some t)) b)
      else Inr (m, b))"

text \<open>
  The lists inside a TLV: the blocks allowed there hold no further lists, so \<open>no_nested\<close> is
  never reached (lemma \<open>nested_leaf\<close>).
\<close>

definition no_nested :: "in_tlv \<Rightarrow> buffer \<Rightarrow> (in_tlv \<times> buffer) result" where
  "no_nested t b = Inl OutOfFuel"

definition MessageDataTLV_ParseValue_with ::
  "(in_tlv \<Rightarrow> buffer \<Rightarrow> (in_tlv \<times> buffer) result) \<Rightarrow> message_text \<Rightarrow> buffer \<Rightarrow> (in_tlv \<times> buffer) result" where
  "MessageDataTLV_ParseValue_with pv mttlv b =
     andThen (get_u16 b) (\<lambda>(len, b).
     andThen (TLVList_Parse_with pv TLV_ParseMode_InMessageData 0xffff (\<lambda>_. None) b) (\<lambda>(m, b).
     Inr (MessageDataTLV (if tlv_exists TLV_MessageText m then
                            (case fst (tlv_index TLV_MessageText m) of
                               Some (MessageTextTLV t) \<Rightarrow> t | _ \<Rightarrow> mttlv)
                          else mttlv), b)))"

definition AdvMsgDataTLV_ParseValue_with ::
  "(in_tlv \<Rightarrow> buffer \<Rightarrow> (in_tlv \<times> buffer) result) \<Rightarrow> buffer \<Rightarrow> (in_tlv \<times> buffer) result" where
  "AdvMsgDataTLV_ParseValue_with pv b =
     andThen (get_u16 b) (\<lambda>(len, b).
     andThen (get_u16 b) (\<lambda>(ty, b).
     let b = advance 8 b; b = advance 16 b in
     andThen (TLVList_Parse_with pv TLV_ParseMode_InAdvMsgData 0xffff (\<lambda>_. None) b) (\<lambda>(m, b).
     if \<not> tlv_exists TLV_AdvMsgBody m
     then Inl (ParseException ''No Advanced Message Body TLV in SNAC 0x0004 0x0007 on channel 2'')
     else Inr (AdvMsgDataTLV (case fst (tlv_index TLV_AdvMsgBody m) of
                                Some (AdvMsgBodyTLV s) \<Rightarrow> s | _ \<Rightarrow> None), b))))"

definition nested_ParseValue :: "u8 list \<Rightarrow> in_tlv \<Rightarrow> buffer \<Rightarrow> (in_tlv \<times> buffer) result" where
  "nested_ParseValue cap0 t b =
     (case t of
        MessageDataTLV mttlv \<Rightarrow>
          MessageDataTLV_ParseValue_with (ParseValue_with no_nested cap0) mttlv b
      | AdvMsgDataTLV _ \<Rightarrow> AdvMsgDataTLV_ParseValue_with (ParseValue_with no_nested cap0) b
      | _ \<Rightarrow> Inl OutOfFuel)"

definition ParseValue :: "u8 list \<Rightarrow> in_tlv \<Rightarrow> buffer \<Rightarrow> (in_tlv \<times> buffer) result" where
  "ParseValue cap0 = ParseValue_with (nested_ParseValue cap0) cap0"

definition ParseTLV :: "u8 list \<Rightarrow> TLV_ParseMode \<Rightarrow> buffer \<Rightarrow> (in_tlv \<times> buffer) result" where
  "ParseTLV cap0 = ParseTLV_with (ParseValue cap0)"

definition TLVList_Parse :: "u8 list \<Rightarrow> TLV_ParseMode \<Rightarrow> u16 \<Rightarrow> tlv_list \<Rightarrow> buffer \<Rightarrow>
    (tlv_list \<times> buffer) result" where
  "TLVList_Parse cap0 pm no_tlvs = TLVList_Parse_with (ParseValue cap0) pm (unat no_tlvs)"

text \<open>The loop up to a position; \<open>None\<close> is a loop that does not end.\<close>

partial_function (option) parse_until :: "u8 list \<Rightarrow> TLV_ParseMode \<Rightarrow> u32 \<Rightarrow> tlv_list \<Rightarrow> buffer \<Rightarrow>
    (tlv_list \<times> buffer) result option" where
  "parse_until cap0 pm end m b =
     (if m_out_pos b < end then
        (case ParseTLV cap0 pm b of
           Inl e \<Rightarrow> Some (Inl e)
         | Inr (t, b) \<Rightarrow> parse_until cap0 pm end (m(Type t \<mapsto> Some t)) b)
      else Some (Inr (m, b)))"

definition ParseByLength :: "u8 list \<Rightarrow> TLV_ParseMode \<Rightarrow> u32 \<Rightarrow> tlv_list \<Rightarrow> buffer \<Rightarrow>
    (tlv_list \<times> buffer) result option" where
  "ParseByLength cap0 pm len m b = parse_until cap0 pm (m_out_pos b + len) m b"

section \<open>TLVs that are sent\<close>

datatype out_tlv =
    OutScreenName string
  | OutPassword string
  | OutStatus status_part
  | OutClientProfile string
  | OutClientType u16
  | OutClientVersionMajor u16
  | OutClientVersionMinor u16
  | OutClientICQNumber u16
  | OutClientBuildMajor u16
  | OutClientBuildMinor u32
  | OutCountryCode string
  | OutLanguage string
  | OutUserInfoCapabilities capabilities
  | OutCookie "u8 list"
  | OutLANDetails lan_details
  | OutUnknown u16

definition out_Type :: "out_tlv \<Rightarrow> u16" where
  "out_Type t =
     (case t of
        OutScreenName _ \<Rightarrow> TLV_Screenname
      | OutPassword _ \<Rightarrow> TLV_Password
      | OutStatus _ \<Rightarrow> TLV_Status
      | OutClientProfile _ \<Rightarrow> TLV_ClientProfile
      | OutClientType _ \<Rightarrow> TLV_ClientType
      | OutClientVersionMajor _ \<Rightarrow> TLV_ClientVersionMajor
      | OutClientVersionMinor _ \<Rightarrow> TLV_ClientVersionMinor
      | OutClientICQNumber _ \<Rightarrow> TLV_ClientICQNumber
      | OutClientBuildMajor _ \<Rightarrow> TLV_ClientBuildMajor
      | OutClientBuildMinor _ \<Rightarrow> TLV_ClientBuildMinor
      | OutCountryCode _ \<Rightarrow> TLV_CountryCode
      | OutLanguage _ \<Rightarrow> TLV_Language
      | OutUserInfoCapabilities _ \<Rightarrow> TLV_UserInfoCapabilities
      | OutCookie _ \<Rightarrow> TLV_Cookie
      | OutLANDetails _ \<Rightarrow> TLV_LANDetails
      | OutUnknown _ \<Rightarrow> TLV_Unknown)"

definition new_UserInfoCapabilitiesTLV :: out_tlv where
  "new_UserInfoCapabilitiesTLV = OutUserInfoCapabilities (default_icq2000_capabilities new_capabilities)"

definition lan_details_of :: "u32 \<Rightarrow> u16 \<Rightarrow> lan_details" where
  "lan_details_of ip port = new_lan_details\<lparr>m_lan_ip := Some ip, m_lan_port := Some port\<rparr>"

definition XORtable :: "u8 list" where
  "XORtable = [0xf3, 0x26, 0x81, 0xc4, 0x39, 0x86, 0xdb, 0x92,
               0x71, 0xa3, 0xb9, 0xe6, 0x53, 0x7a, 0x95, 0x7c]"

text \<open>The loop of \<open>PasswordTLV::OutputValue\<close> from the index \<open>i\<close> on.\<close>

fun put_password :: "nat \<Rightarrow> string \<Rightarrow> buffer \<Rightarrow> buffer" where
  "put_password i [] b = b"
| "put_password i (c # cs) b =
     put_password (i + 1) cs (put_u8 (byte_of_char c XOR XORtable ! (i mod 16)) b)"

definition PasswordTLV_OutputValue :: "string \<Rightarrow> buffer \<Rightarrow> buffer" where
  "PasswordTLV_OutputValue pw b = put_password 0 pw (put_u16 (word_of_nat (length pw)) b)"

definition ShortTLV_OutputValue :: "u16 \<Rightarrow> buffer \<Rightarrow> buffer" where
  "ShortTLV_OutputValue v b = put_u16 v (put_u16 2 b)"

definition LongTLV_OutputValue :: "u32 \<Rightarrow> buffer \<Rightarrow> buffer" where
  "LongTLV_OutputValue v b = put_u32 v (put_u16 4 b)"

definition StringTLV_OutputValue :: "string \<Rightarrow> buffer \<Rightarrow> buffer" where
  "StringTLV_OutputValue s b = put_string s b"

definition StatusTLV_OutputValue :: "status_part \<Rightarrow> buffer \<Rightarrow> buffer" where
  "StatusTLV_OutputValue s b =
     put_u16 (st_status s) (put_u8 (m_webAware s) (put_u8 (m_allowDirect s) (put_u16 4 b)))"

definition getBirthday :: "status_part \<Rightarrow> bool" where
  "getBirthday s = (m_webAware s AND 0x08 = 0x08)"

definition CookieTLV_OutputValue :: "u8 list \<Rightarrow> buffer \<Rightarrow> buffer" where
  "CookieTLV_OutputValue v b = fold put_u8 v (put_u16 (word_of_nat (length v)) b)"

definition UserInfoCapabilitiesTLV_OutputValue :: "capabilities \<Rightarrow> buffer \<Rightarrow> buffer" where
  "UserInfoCapabilitiesTLV_OutputValue c b = caps_output c (put_u16 (caps_get_length c) b)"

text \<open>An address or port that was never set is sent as whatever the memory held; 0 here.\<close>

definition LANDetailsTLV_OutputValue :: "lan_details \<Rightarrow> buffer \<Rightarrow> buffer" where
  "LANDetailsTLV_OutputValue d b =
     put_u16 0 (put_u32 0x3A877A42 (put_u32 0x3AA66380 (put_u32 0x3AA773EE
       (put_u16 0x0003 (put_u16 0x0000 (put_u32 0x00000050 (put_u32 0x00000000
       (put_u8 (lan_tcp_version d) (put_u16 (m_firewall d)
       (put_u32 (case m_lan_port d of None \<Rightarrow> 0 | Some p \<Rightarrow> ucast p)
       (put_u32 (case m_lan_ip d of None \<Rightarrow> 0 | Some ip \<Rightarrow> ip) (put_u16 0x0025 b))))))))))))"

definition OutputValue :: "out_tlv \<Rightarrow> buffer \<Rightarrow> buffer" where
  "OutputValue t b =
     (case t of
        OutScreenName s \<Rightarrow> StringTLV_OutputValue s b
      | OutPassword s \<Rightarrow> PasswordTLV_OutputValue s b
      | OutStatus s \<Rightarrow> StatusTLV_OutputValue s b
      | OutClientProfile s \<Rightarrow> StringTLV_OutputValue s b
      | OutClientType v \<Rightarrow> ShortTLV_OutputValue v b
      | OutClientVersionMajor v \<Rightarrow> ShortTLV_OutputValue v b
      | OutClientVersionMinor v \<Rightarrow> ShortTLV_OutputValue v b
      | OutClientICQNumber v \<Rightarrow> ShortTLV_OutputValue v b
      | OutClientBuildMajor v \<Rightarrow> ShortTLV_OutputValue v b
      | OutClientBuildMinor v \<Rightarrow> LongTLV_OutputValue v b
      | OutCountryCode s \<Rightarrow> StringTLV_OutputValue s b
      | OutLanguage s \<Rightarrow> StringTLV_OutputValue s b
      | OutUserInfoCapabilities c \<Rightarrow> UserInfoCapabilitiesTLV_OutputValue c b
      | OutCookie v \<Rightarrow> CookieTLV_OutputValue v b
      | OutLANDetails d \<Rightarrow> LANDetailsTLV_OutputValue d b
      | OutUnknown v \<Rightarrow> ShortTLV_OutputValue v b)"

definition TLV_Output :: "out_tlv \<Rightarrow> buffer \<Rightarrow> buffer" where
  "TLV_Output t b = OutputValue t (put_u16 (out_Type t) b)"

section \<open>What the nested lists hold\<close>

definition leaf_tlv :: "in_tlv \<Rightarrow> bool" where
  "leaf_tlv t = (case t of MessageDataTLV _ \<Rightarrow> False | AdvMsgDataTLV _ \<Rightarrow> False | _ \<Rightarrow> True)"

lemma leaf_modes:
  "leaf_tlv (new_tlv TLV_ParseMode_InMessageData ty)"
  "leaf_tlv (new_tlv TLV_ParseMode_InAdvMsgData ty)"
  by (simp_all add: new_tlv_def leaf_tlv_def)

lemma ParseValue_with_leaf: "leaf_tlv t \<Longrightarrow> ParseValue_with f cap0 t = ParseValue_with g cap0 t"
  by (cases t) (simp_all add: ParseValue_with_def [abs_def] leaf_tlv_def)

text \<open>So the inner lists are parsed with the same \<open>ParseValue\<close> as the outer ones.\<close>

lemma nested_leaf:
  assumes "pm = TLV_ParseMode_InMessageData \<or> pm = TLV_ParseMode_InAdvMsgData"
  shows "TLVList_Parse_with (ParseValue_with no_nested cap0) pm n m b =
    TLVList_Parse_with (ParseValue cap0) pm n m b"
proof (induction n arbitrary: m b)
  case 0
  then show ?case by simp
next
  case (Suc n)
  have "leaf_tlv (new_tlv pm ty)" for ty
    using assms leaf_modes by auto
  then have "ParseValue_with no_nested cap0 (new_tlv pm ty) = ParseValue cap0 (new_tlv pm ty)" for ty
    unfolding ParseValue_def by (rule ParseValue_with_leaf)
  then have "ParseTLV_with (ParseValue_with no_nested cap0) pm = ParseTLV_with (ParseValue cap0) pm"
    by (simp only: ParseTLV_with_def [abs_def])
  then show ?case
    using Suc by (simp add: split_def fun_upd_def)
qed

section \<open>Reading stays in range\<close>

lemma bounded_map_value: "bounded k r \<Longrightarrow> bounded k (\<lambda>b. map_value f (r b))"
  using bounded_bind [of k r 0 "\<lambda>x b. Inr (f x, b)"] by (simp add: map_value_def bounded_return)

lemma bounded_skip_return: "unat n \<le> k \<Longrightarrow> bounded k (\<lambda>b. Inr (x, advance n b))"
  using bounded_skip [of 0 "\<lambda>b. Inr (x, b)" n "unat n"] by (auto intro: bounded_mono bounded_return)

lemma bounded_get_bytes: "bounded n (get_bytes n)"
proof (induction n)
  case 0
  then show ?case by (simp add: bounded_return)
next
  case (Suc n)
  have "bounded (1 + (n + 0)) (\<lambda>b. andThen (get_u8 b) (\<lambda>(c, b). andThen (get_bytes n b) (\<lambda>(cs, b). Inr (c # cs, b))))"
    by (intro bounded_bind bounded_get_u8 Suc bounded_return)
  then show ?case by simp
qed

lemma bounded_Char: "bounded 3 CharTLV_ParseValue"
  using bounded_bind [OF bounded_get_u16 bounded_get_u8] by (simp add: CharTLV_ParseValue_def [abs_def])

lemma bounded_Short: "bounded 4 ShortTLV_ParseValue"
  using bounded_bind [OF bounded_get_u16 bounded_get_u16] by (simp add: ShortTLV_ParseValue_def [abs_def])

lemma bounded_Long: "bounded 6 LongTLV_ParseValue"
  using bounded_bind [OF bounded_get_u16 bounded_get_u32] by (simp add: LongTLV_ParseValue_def [abs_def])

lemma bounded_String: "bounded 65537 (StringTLV_ParseValue s)"
  using bounded_get_string [of s] by (simp add: StringTLV_ParseValue_def [abs_def])

lemma bounded_Status: "bounded 6 StatusTLV_ParseValue"
proof -
  have "bounded (2 + (1 + (1 + (2 + 0)))) StatusTLV_ParseValue"
    unfolding StatusTLV_ParseValue_def [abs_def]
    by (intro bounded_bind bounded_get_u16 bounded_get_u8 bounded_return)
  then show ?thesis by simp
qed

lemma bounded_Redirect: "bounded 65537 RedirectTLV_ParseValue"
proof -
  have "bounded (2 + 65535 + 0) RedirectTLV_ParseValue"
    unfolding RedirectTLV_ParseValue_def [abs_def]
    by (intro bounded_bind bounded_get_string bounded_return)
  then show ?thesis by simp
qed

lemma bounded_Cookie: "bounded 65537 CookieTLV_ParseValue"
proof -
  have "bounded 65535 (\<lambda>b. andThen (get_bytes (unat len) b) (\<lambda>(v, b). Inr (CookieTLV len v, b)))" for len
    using bounded_bind [OF bounded_get_bytes, of 0 "\<lambda>v b. Inr (CookieTLV len v, b)" "unat len"]
      unat_u16_le [of len]
    by (auto intro: bounded_mono bounded_return)
  from bounded_bind [OF bounded_get_u16 this] show ?thesis
    by (simp add: CookieTLV_ParseValue_def [abs_def])
qed

lemma bounded_Raw: "bounded 65537 RawTLV_ParseValue"
proof -
  have "bounded 65535 (\<lambda>b. Inr (len, advance (ucast len) b))" for len :: u16
    by (rule bounded_skip_return) (simp add: unat_u16_le)
  from bounded_bind [OF bounded_get_u16 this] show ?thesis
    by (simp add: RawTLV_ParseValue_def [abs_def])
qed

lemma bounded_SBL: "bounded 65537 SBLAwaitAuthTLV_ParseValue" "bounded 65537 SBLIdsTLV_ParseValue"
proof -
  have 1: "bounded 65535 (\<lambda>b. Inr (t :: in_tlv, advance (ucast len) b))" for len :: u16 and t
    by (rule bounded_skip_return) (simp add: unat_u16_le)
  from bounded_bind [OF bounded_get_u16 1 [where t = SBLAwaitAuthTLV]]
    bounded_bind [OF bounded_get_u16 1 [where t = SBLIdsTLV]]
  show "bounded 65537 SBLAwaitAuthTLV_ParseValue" "bounded 65537 SBLIdsTLV_ParseValue"
    by (simp_all add: SBLAwaitAuthTLV_ParseValue_def [abs_def] SBLIdsTLV_ParseValue_def [abs_def])
qed

lemma skip_timestamps_advance: "skip_timestamps n b = advance (4 * word_of_nat n) b"
  by (induction n arbitrary: b) (simp_all add: advance_advance algebra_simps)

lemma no_timestamps_le: "unat (no_timestamps unknown n) \<le> 100"
  by (simp add: no_timestamps_def Let_def word_less_nat_alt)

lemma bounded_LANDetails: "bounded 427 (LANDetailsTLV_ParseValue d)"
proof -
  have tail: "bounded 402 (\<lambda>b. Inr (x, advance 2 (skip_timestamps (unat (no_timestamps u n)) b)))"
    for x :: lan_details and u n
  proof -
    have "unat (4 * word_of_nat (unat (no_timestamps u n)) + 2 :: u32) = 4 * unat (no_timestamps u n) + 2"
      using no_timestamps_le [of u n] unat_of_nat_u32 [of "4 * unat (no_timestamps u n) + 2"] by (simp add: add.commute)
    then show ?thesis
      using no_timestamps_le [of u n]
      by (simp add: skip_timestamps_advance advance_advance) (rule bounded_skip_return, simp)
  qed
  have skip: "bounded (2 + (2 + 402)) (\<lambda>b. andThen (get_u16 (advance 2 b)) (\<lambda>(n, b).
      Inr (x, advance 2 (skip_timestamps (unat (no_timestamps u n)) b))))" for x :: lan_details and u
    by (rule bounded_skip [of _ "\<lambda>b. andThen (get_u16 b) _"]) (intro bounded_bind bounded_get_u16 tail, simp)
  have port: "bounded (2 + (2 + 0)) (\<lambda>b. andThen (get_u16 (advance 2 b)) (\<lambda>(port, b).
      Inr (f port, b)))" for f :: "u16 \<Rightarrow> lan_details"
    by (rule bounded_skip [of _ "\<lambda>b. andThen (get_u16 b) _"]) (intro bounded_bind bounded_get_u16 bounded_return, simp)
  have "bounded (2 + ((4 + (2 + (2 + 0))) + (2 + (1 + (4 + (4 + (2 + (2 + 402)))))))) (LANDetailsTLV_ParseValue d)"
    unfolding LANDetailsTLV_ParseValue_def [abs_def] Let_def
    by (intro bounded_bind bounded_if bounded_get_u16 bounded_get_u8 bounded_get_u32 bounded_return skip port)
  then show ?thesis by simp
qed

lemma Unpack_bytes_step:
  assumes "unat (m_out_pos b) \<le> length (m_data b)" and "length (m_data b) < 2 ^ 32"
    and "unat (m_out_pos b) + unat n < 2 ^ 32"
  shows "\<exists>d k. Unpack_bytes n b = Inr (d, advance k b) \<and> unat k \<le> unat n \<and>
    unat (m_out_pos b) + unat k \<le> length (m_data b)"
proof -
  have s: "unat (m_out_pos b + n) = unat (m_out_pos b) + unat n"
    using assms(3) by (rule unat_plus_u32)
  have u: "unat (word_of_nat (length (m_data b)) - m_out_pos b) = length (m_data b) - unat (m_out_pos b)"
    using assms(1,2) unat_of_nat_u32 [of "length (m_data b)"] by (simp add: unat_sub word_le_nat_alt)
  show ?thesis
    using assms s u by (auto simp: Unpack_bytes_def Let_def)
qed

lemma caps_parse_loop_step:
  "unat (m_out_pos b) \<le> length (m_data b) \<Longrightarrow> length (m_data b) < 2 ^ 32 \<Longrightarrow>
   unat (m_out_pos b) + 16 * i < 2 ^ 32 \<Longrightarrow>
   \<exists>c' b'. caps_parse_loop i cap c b = Inr (c', b') \<and> step_within (16 * i) b b'"
proof (induction i arbitrary: cap c b)
  case 0
  then show ?case by (simp add: step_within_def)
next
  case (Suc i)
  obtain d k where k: "Unpack_bytes 16 b = Inr (d, advance k b)" "unat k \<le> 16"
    "unat (m_out_pos b) + unat k \<le> length (m_data b)"
    using Unpack_bytes_step [of b 16] Suc.prems by auto
  have s: "unat (m_out_pos b + k) = unat (m_out_pos b) + unat k"
    using k Suc.prems by (intro unat_plus_u32) simp
  have st: "step_within 16 b (advance k b)"
    using k s by (simp add: step_within_def)
  have IH: "\<exists>c' b'. caps_parse_loop i cap2 c2 (advance k b) = Inr (c', b') \<and>
      step_within (16 * i) (advance k b) b'" for cap2 c2
    using k s Suc.prems by (intro Suc.IH) auto
  obtain c' b' where "caps_parse_loop i (d @ drop (length d) cap)
      (case flag_of_data (d @ drop (length d) cap) of None \<Rightarrow> c | Some f \<Rightarrow> set_capability_flag f c)
      (advance k b) = Inr (c', b')" "step_within (16 * i) (advance k b) b'"
    using IH by blast
  then show ?case
    using k(1) step_within_trans [OF st] by (simp add: Let_def)
qed

lemma bounded_Caps: "bounded 65537 (CapabilitiesTLV_ParseValue cap0 c)"
proof (rule boundedI)
  fix b :: buffer
  assume b: "unat (m_out_pos b) + 65537 < 2 ^ 32" "length (m_data b) < 2 ^ 32"
  obtain l b1 where g: "get_u16 b = Inr (l, b1)" "step_within 2 b b1"
    using boundedD [OF bounded_get_u16, of b] b no_throw_get_u16 [of b] by fastforce
  have pos: "l = 0 \<or> unat (m_out_pos b1) \<le> length (m_data b1)"
    using g(1) by (auto simp: get_u16_def andThen_eq_Inr split: if_splits)
  let ?i = "unat l div 16"
  have i: "16 * ?i \<le> unat l" "unat l < 65536"
    using unat_u16_le [of l] by auto
  have "\<exists>c' b'. caps_parse_loop ?i cap0 c b1 = Inr (c', b') \<and> step_within (16 * ?i) b1 b'"
  proof (cases "l = 0")
    case True
    then show ?thesis by (simp add: step_within_def)
  next
    case False
    then show ?thesis
      using pos g(2) b i by (intro caps_parse_loop_step) (auto simp: step_within_def)
  qed
  then obtain c' b2 where c: "caps_parse_loop ?i cap0 c b1 = Inr (c', b2)" "step_within (16 * ?i) b1 b2"
    by blast
  let ?r = "(ucast l :: u32) - word_of_nat (?i * 16)"
  have r: "?r = word_of_nat (unat l mod 16)"
    by (rule mod_16_rest)
  have ur: "unat ?r = unat l mod 16"
    unfolding r by (rule unat_of_nat_u32) simp
  have bnd: "16 * ?i + unat l mod 16 < 65536"
    using i(2) by (metis mult_div_mod_eq)
  have "unat (m_out_pos b1) \<le> unat (m_out_pos b) + 2" "unat (m_out_pos b2) \<le> unat (m_out_pos b1) + 16 * ?i"
    using g(2) c(2) by (simp_all add: step_within_def)
  then have "unat (m_out_pos b2) + unat l mod 16 < 2 ^ 32"
    using bnd b(1) by linarith
  then have "step_within (unat l mod 16) b2 (advance ?r b2)"
    using ur by (intro step_advance) simp_all
  from step_within_trans [OF step_within_trans [OF g(2) c(2)] this]
  have "step_within 65537 b (advance ?r b2)"
    by (rule step_within_mono) (use bnd in linarith)
  then show "(\<exists>x b'. CapabilitiesTLV_ParseValue cap0 c b = Inr (x, b') \<and> step_within 65537 b b') \<or>
      (\<exists>msg. CapabilitiesTLV_ParseValue cap0 c b = Inl (ParseException msg))"
    using g(1) c(1) by (auto simp: CapabilitiesTLV_ParseValue_def caps_parse_def Let_def sizeof_cap_def)
qed

fun plain_tlv :: "in_tlv \<Rightarrow> bool" where
  "plain_tlv (MessageDataTLV _) = False"
| "plain_tlv (ICQDataTLV _) = False"
| "plain_tlv (AdvMsgDataTLV _) = False"
| "plain_tlv (MessageTextTLV _) = False"
| "plain_tlv (AdvMsgBodyTLV _) = False"
| "plain_tlv _ = True"

definition plain_mode :: "TLV_ParseMode \<Rightarrow> bool" where
  "plain_mode pm = (pm \<in> {TLV_ParseMode_Channel01, TLV_ParseMode_Channel02, TLV_ParseMode_Channel04,
     TLV_ParseMode_SBL, TLV_ParseMode_SBL_Rights})"

lemma plain_new_tlv: "plain_mode pm \<Longrightarrow> plain_tlv (new_tlv pm ty)"
  by (cases pm) (simp_all add: plain_mode_def new_tlv_def if_distrib [of plain_tlv])

lemma bounded_value:
  assumes "bounded k r" and "k \<le> 65537"
  shows "bounded 65537 (\<lambda>b. map_value f (r b))"
  by (rule bounded_mono [OF bounded_map_value [OF assms(1)] assms(2)])

lemmas bounded_values =
  bounded_value [OF bounded_Char] bounded_value [OF bounded_Short] bounded_value [OF bounded_Long]
  bounded_value [OF bounded_String] bounded_value [OF bounded_Status]
  bounded_value [OF bounded_LANDetails] bounded_value [OF bounded_Caps] bounded_value [OF bounded_Raw]
  bounded_Redirect bounded_Cookie bounded_SBL

lemma bounded_ParseValue: "plain_tlv t \<Longrightarrow> bounded 65537 (ParseValue cap0 t)"
  by (cases t) (simp_all add: ParseValue_def ParseValue_with_def [abs_def] bounded_values)

lemma bounded_ParseTLV: "plain_mode pm \<Longrightarrow> bounded 65539 (ParseTLV cap0 pm)"
  using bounded_bind [OF bounded_get_u16 bounded_ParseValue [OF plain_new_tlv]]
  by (simp add: ParseTLV_def ParseTLV_with_def [abs_def])

text \<open>A TLV moves the position by at least the two bytes of its type.\<close>

lemma ParseTLV_progress:
  assumes "plain_mode pm" and "unat (m_out_pos b) + 65539 < 2 ^ 32" and "length (m_data b) < 2 ^ 32"
    and "ParseTLV cap0 pm b = Inr (t, b')"
  shows "unat (m_out_pos b) < unat (m_out_pos b')"
proof -
  obtain ty b1 where g: "get_u16 b = Inr (ty, b1)" and v: "ParseValue cap0 (new_tlv pm ty) b1 = Inr (t, b')"
    using assms(4) by (auto simp: ParseTLV_def ParseTLV_with_def andThen_eq_Inr)
  have "b1 = advance 2 b"
    using g by (auto simp: get_u16_def andThen_eq_Inr split: if_splits)
  then have p: "unat (m_out_pos b1) = unat (m_out_pos b) + 2" "length (m_data b1) = length (m_data b)"
    using assms(2) unat_plus_u32 [of "m_out_pos b" 2] by simp_all
  then have "step_within 65537 b1 b'"
    using boundedD [OF bounded_ParseValue [OF plain_new_tlv [OF assms(1)]], of b1 cap0 ty] v assms(2,3)
    by simp
  then show ?thesis
    using p(1) by (simp add: step_within_def)
qed

definition safe_result :: "buffer \<Rightarrow> (tlv_list \<times> buffer) result \<Rightarrow> bool" where
  "safe_result b r =
     (case r of Inl e \<Rightarrow> (\<exists>msg. e = ParseException msg) | Inr (m, b') \<Rightarrow> m_data b' = m_data b)"

lemma TLVList_Parse_with_range:
  assumes "plain_mode pm"
  shows "length (m_data b) < 2 ^ 31 \<Longrightarrow> safe_result b (TLVList_Parse_with (ParseValue cap0) pm n m b)"
proof (induction n arbitrary: m b)
  case 0
  then show ?case by (simp add: safe_result_def)
next
  case (Suc n)
  show ?case
  proof (cases "beforeEnd b")
    case True
    then have "unat (m_out_pos b) < length (m_data b)"
      by (simp add: beforeEnd_def)
    then have "unat (m_out_pos b) + 65539 < 2 ^ 32" "length (m_data b) < 2 ^ 32"
      using Suc.prems by simp_all
    from boundedD [OF bounded_ParseTLV [OF assms, of cap0] this]
    consider (ok) t b' where "ParseTLV cap0 pm b = Inr (t, b')" "m_data b' = m_data b"
      | (error) msg where "ParseTLV cap0 pm b = Inl (ParseException msg)"
      by (auto simp: step_within_def)
    then show ?thesis
    proof cases
      case ok
      then have "TLVList_Parse_with (ParseValue cap0) pm (Suc n) m b =
          TLVList_Parse_with (ParseValue cap0) pm n (m(Type t \<mapsto> Some t)) b'"
        using True by (simp add: ParseTLV_def fun_upd_def)
      moreover have "safe_result b' (TLVList_Parse_with (ParseValue cap0) pm n (m(Type t \<mapsto> Some t)) b')"
        using Suc.IH ok(2) Suc.prems by simp
      ultimately show ?thesis
        using ok(2) by (simp only: safe_result_def)
    qed (use True in \<open>simp add: ParseTLV_def safe_result_def\<close>)
  qed (simp add: safe_result_def)
qed

lemma parse_until_step:
  "m_out_pos b < end \<Longrightarrow> ParseTLV cap0 pm b = Inr (t, b') \<Longrightarrow>
   parse_until cap0 pm end m b = parse_until cap0 pm end (m(Type t \<mapsto> Some t)) b'"
  by (subst parse_until.simps) simp

lemma parse_until_returns:
  assumes pm: "plain_mode pm" and e: "unat end + 65539 < 2 ^ 32"
  shows "length (m_data b) < 2 ^ 32 \<Longrightarrow>
    \<exists>r. parse_until cap0 pm end m b = Some r \<and> safe_result b r"
proof (induction "unat end - unat (m_out_pos b)" arbitrary: m b rule: less_induct)
  case less
  show ?case
  proof (cases "m_out_pos b < end")
    case True
    then have lt: "unat (m_out_pos b) < unat end"
      by (simp add: word_less_nat_alt)
    then have pos: "unat (m_out_pos b) + 65539 < 2 ^ 32"
      using e by simp
    from boundedD [OF bounded_ParseTLV [OF pm, of cap0] pos less.prems]
    consider (ok) t b' where "ParseTLV cap0 pm b = Inr (t, b')" "m_data b' = m_data b"
      | (error) msg where "ParseTLV cap0 pm b = Inl (ParseException msg)"
      by (auto simp: step_within_def)
    then show ?thesis
    proof cases
      case ok
      have "unat end - unat (m_out_pos b') < unat end - unat (m_out_pos b)"
        using ParseTLV_progress [OF pm pos less.prems ok(1)] lt by linarith
      then obtain r where "parse_until cap0 pm end (m(Type t \<mapsto> Some t)) b' = Some r" "safe_result b' r"
        using less.hyps less.prems ok(2) by metis
      then show ?thesis
        using parse_until_step [OF True ok(1)] ok(2) by (simp only: safe_result_def) blast
    qed (use True in \<open>simp add: parse_until.simps safe_result_def\<close>)
  next
    case False
    then show ?thesis by (simp add: parse_until.simps safe_result_def)
  qed
qed

section \<open>What is sent can be read\<close>

fun xor_from :: "nat \<Rightarrow> string \<Rightarrow> u8 list" where
  "xor_from i [] = []"
| "xor_from i (c # cs) = (byte_of_char c XOR XORtable ! (i mod 16)) # xor_from (i + 1) cs"

lemma put_password_emit: "put_password i s b = emit (xor_from i s) b"
  by (induction s arbitrary: i b) (simp_all add: put_u8_emit)

lemma length_xor_from [simp]: "length (xor_from i s) = length s"
  by (induction s arbitrary: i) simp_all

lemma xor_from_nth:
  "k < length s \<Longrightarrow> xor_from i s ! k XOR XORtable ! ((i + k) mod 16) = byte_of_char (s ! k)"
proof (induction s arbitrary: i k)
  case (Cons c s)
  then show ?case
    using Cons.IH [of "k - 1" "i + 1"] by (cases k) (simp_all add: xor.assoc)
qed simp

lemma fold_put_u8: "fold put_u8 v b = emit v b"
  by (induction v arbitrary: b) (simp_all add: put_u8_emit)

text \<open>The bytes of a value with its length before it.\<close>

fun enc_value :: "out_tlv \<Rightarrow> u8 list" where
  "enc_value (OutScreenName s) = enc_string BIG s"
| "enc_value (OutPassword s) = enc16 BIG (word_of_nat (length s)) @ xor_from 0 s"
| "enc_value (OutClientProfile s) = enc_string BIG s"
| "enc_value (OutClientType v) = enc16 BIG 2 @ enc16 BIG v"
| "enc_value (OutClientVersionMajor v) = enc16 BIG 2 @ enc16 BIG v"
| "enc_value (OutClientVersionMinor v) = enc16 BIG 2 @ enc16 BIG v"
| "enc_value (OutClientICQNumber v) = enc16 BIG 2 @ enc16 BIG v"
| "enc_value (OutClientBuildMajor v) = enc16 BIG 2 @ enc16 BIG v"
| "enc_value (OutClientBuildMinor v) = enc16 BIG 4 @ enc32 BIG v"
| "enc_value (OutCountryCode s) = enc_string BIG s"
| "enc_value (OutLanguage s) = enc_string BIG s"
| "enc_value (OutUserInfoCapabilities c) = enc16 BIG (caps_get_length c) @ concat (map cap_data (flag_list c))"
| "enc_value (OutCookie v) = enc16 BIG (word_of_nat (length v)) @ v"
| "enc_value (OutStatus s) = enc16 BIG 4 @ [m_allowDirect s] @ [m_webAware s] @ enc16 BIG (st_status s)"
| "enc_value (OutLANDetails d) =
     enc16 BIG 0x25 @ enc32 BIG (case m_lan_ip d of None \<Rightarrow> 0 | Some ip \<Rightarrow> ip) @
     enc16 BIG 0 @ enc16 BIG (case m_lan_port d of None \<Rightarrow> 0 | Some p \<Rightarrow> p) @
     enc16 BIG (m_firewall d) @ [lan_tcp_version d] @ enc32 BIG 0 @ enc32 BIG 0x50 @ enc16 BIG 0 @
     enc16 BIG 3 @ (enc32 BIG 0x3AA773EE @ enc32 BIG 0x3AA66380 @ enc32 BIG 0x3A877A42) @ enc16 BIG 0"
| "enc_value (OutUnknown v) = enc16 BIG 2 @ enc16 BIG v"

text \<open>The TLVs that are received as the class they were sent as.\<close>

fun known_tlv :: "TLV_ParseMode \<Rightarrow> out_tlv \<Rightarrow> in_tlv option" where
  "known_tlv pm (OutScreenName s) =
     (if (pm = TLV_ParseMode_Channel01 \<or> pm = TLV_ParseMode_Channel04) \<and> length s < 65536
      then Some (ScreenNameTLV s) else None)"
| "known_tlv pm (OutCookie v) =
     (if (pm = TLV_ParseMode_Channel01 \<or> pm = TLV_ParseMode_Channel04) \<and> length v < 65536
      then Some (CookieTLV (word_of_nat (length v)) v) else None)"
| "known_tlv pm (OutStatus s) = (if pm = TLV_ParseMode_Channel02 then Some (StatusTLV s) else None)"
| "known_tlv pm (OutLANDetails d) =
     (if pm = TLV_ParseMode_Channel02 \<and> m_lan_ip d \<noteq> None \<and> m_lan_port d \<noteq> None
      then Some (LANDetailsTLV (d\<lparr>m_dc_cookie := 0\<rparr>)) else None)"
| "known_tlv pm (OutUnknown v) = (if pm = TLV_ParseMode_Channel02 then Some (UnknownTLV v) else None)"
| "known_tlv pm _ = None"

text \<open>
  What is received: where the block has no class for the type, a \<open>RawTLV\<close> of that type and the length of
  the value. \<open>None\<close> is a value that is too long, or one the block reads as another class.
\<close>

definition received_tlv :: "TLV_ParseMode \<Rightarrow> out_tlv \<Rightarrow> in_tlv option" where
  "received_tlv pm t =
     (case new_tlv pm (out_Type t) of
        RawTLV ty _ \<Rightarrow>
          if length (enc_value t) < 65538 then Some (RawTLV ty (word_of_nat (length (enc_value t) - 2))) else None
      | _ \<Rightarrow> known_tlv pm t)"

lemma received_cases:
  assumes "received_tlv pm t = Some t'"
  obtains (raw) ty l where "new_tlv pm (out_Type t) = RawTLV ty l" and "length (enc_value t) < 65538"
      and "t' = RawTLV ty (word_of_nat (length (enc_value t) - 2))"
    | (known) "known_tlv pm t = Some t'"
proof (cases "\<exists>ty l. new_tlv pm (out_Type t) = RawTLV ty l")
  case True
  then show thesis
    using assms raw by (auto simp: received_tlv_def split: if_splits)
next
  case False
  then have "received_tlv pm t = known_tlv pm t"
    by (cases "new_tlv pm (out_Type t)") (auto simp: received_tlv_def)
  then show thesis
    using assms known by simp
qed

definition enc_tlv :: "out_tlv \<Rightarrow> u8 list" where
  "enc_tlv t = enc16 BIG (out_Type t) @ enc_value t"

lemma enc32_of_u16: "enc32 BIG (ucast (w :: u16)) = enc16 BIG 0 @ enc16 BIG w"
proof -
  have "octet n (ucast w :: u32) = octet n w" if "n + 8 \<le> 16" for n
    using that by (auto simp: bit_eq_iff bit_octet bit_simps)
  moreover have "octet n (ucast w :: u32) = 0" if "16 \<le> n" for n
    using that bit_imp_le_length [of w] by (auto simp: bit_eq_iff bit_octet bit_simps) fastforce
  moreover have "octet n (0 :: u16) = 0" for n
    by (auto simp: bit_eq_iff bit_octet)
  ultimately show ?thesis by simp
qed

lemma enc32_zero: "enc32 BIG 0 = enc16 BIG 0 @ enc16 BIG 0"
  using enc32_of_u16 [of 0] by simp

lemma TLV_Output_emit:
  assumes "m_endn b = BIG"
  shows "TLV_Output t b = emit (enc_tlv t) b"
proof -
  have "OutputValue t c = emit (enc_value t) c" if "m_endn c = BIG" for c
  proof (cases t)
    case (OutLANDetails d)
    then show ?thesis
      using that unfolding OutLANDetails
      by (cases "m_lan_port d") (simp_all add: OutputValue_def LANDetailsTLV_OutputValue_def put_u32_emit put_u16_emit
          put_u8_emit emit_emit enc32_of_u16 enc32_zero del: enc32.simps enc16.simps)
  qed (use that in \<open>simp_all add: OutputValue_def StringTLV_OutputValue_def PasswordTLV_OutputValue_def
      CookieTLV_OutputValue_def StatusTLV_OutputValue_def ShortTLV_OutputValue_def LongTLV_OutputValue_def
      UserInfoCapabilitiesTLV_OutputValue_def put_password_emit caps_output_emit put_string_emit put_u32_emit put_u16_emit
      put_u8_emit fold_put_u8 enc_string_def\<close>)
  then show ?thesis
    using assms by (simp add: TLV_Output_def put_u16_emit enc_tlv_def)
qed


lemma new_tlv_raw: "new_tlv pm ty = RawTLV ty' l \<Longrightarrow> ty' = ty"
  by (auto simp: new_tlv_def split: TLV_ParseMode.splits if_splits)

lemma received_Type: "received_tlv pm t = Some t' \<Longrightarrow> Type t' = out_Type t"
proof (erule received_cases)
  show "known_tlv pm t = Some t' \<Longrightarrow> Type t' = out_Type t"
    by (cases t) (auto simp: Type_def out_Type_def split: if_splits)
qed (auto simp: Type_def dest: new_tlv_raw)

lemma yields_bytes: "at b e (v @ r) \<Longrightarrow> yields v e r (get_bytes (length v) b)"
proof (induction v arbitrary: b)
  case (Cons c v)
  show ?case
    unfolding list.size get_bytes.simps add_0_right add_Suc_right
    by (rule u8_codec.inp_bind [where x = c and r = "v @ r"])
      (use Cons in \<open>auto intro!: yields_bind [OF Cons.IH]\<close>)
qed auto

lemmas reads = u8_codec.inp_bind [OF TrueI] u16_codec.inp_bind [OF TrueI] u32_codec.inp_bind [OF TrueI]

lemma yields_map_value: "yields x e r m \<Longrightarrow> yields (f x) e r (map_value f m)"
  by (auto simp: map_value_def yields_def)

lemma yields_Cookie:
  "length v < 65536 \<Longrightarrow> at b BIG (enc_value (OutCookie v) @ r) \<Longrightarrow>
   yields (CookieTLV (word_of_nat (length v)) v) BIG r (CookieTLV_ParseValue b)"
  unfolding CookieTLV_ParseValue_def
  by (rule u16_codec.inp_bind [where e = BIG and x = "word_of_nat (length v)" and r = "v @ r"])
    (auto simp: unat_of_nat_u16 intro!: yields_bind [OF yields_bytes])

lemma yields_Status:
  assumes "at b BIG (enc_value (OutStatus s) @ r)"
  shows "yields s BIG r (StatusTLV_ParseValue b)"
proof -
  have "yields \<lparr>m_allowDirect = m_allowDirect s, m_webAware = m_webAware s, st_status = st_status s\<rparr>
      BIG r (StatusTLV_ParseValue b)"
    using assms unfolding StatusTLV_ParseValue_def enc_value.simps append_assoc
    by - ((rule reads, assumption)+, rule yields_return)
  then show ?thesis by (cases s) simp
qed

lemma yields_LANDetails:
  assumes "m_lan_ip d = Some ip" and "m_lan_port d = Some port"
    and "at b BIG (enc_value (OutLANDetails d) @ r)"
  shows "yields (d\<lparr>m_dc_cookie := 0\<rparr>) BIG r (LANDetailsTLV_ParseValue new_lan_details b)"
proof -
  let ?ts = "enc32 BIG 0x3AA773EE @ enc32 BIG 0x3AA66380 @ enc32 BIG 0x3A877A42"
  have ts: "at b BIG (?ts @ enc16 BIG 0 @ r) \<Longrightarrow>
      at (advance 2 (skip_timestamps (unat (no_timestamps 0x50 3)) b)) BIG r" for b
    by (simp add: skip_timestamps_advance no_timestamps_def advance_advance)
      (rule at_advance [of _ _ "?ts @ enc16 BIG 0"], simp_all)
  have skip: "at b BIG (enc16 BIG 0 @ s) \<Longrightarrow> at (advance 2 b) BIG s" for b s
    by (erule at_advance) simp
  have first: "yields (new_lan_details\<lparr>m_lan_ip := Some ip, m_lan_port := Some port\<rparr>) BIG s
      (andThen (get_u32 b) (\<lambda>(ip, b). andThen (get_u16 (advance 2 b)) (\<lambda>(port, b).
        Inr (new_lan_details\<lparr>m_lan_ip := Some ip, m_lan_port := Some port\<rparr>, b))))"
    if "at b BIG (enc32 BIG ip @ enc16 BIG 0 @ enc16 BIG port @ s)" for b s
    using that by - (rule reads, assumption, drule skip, rule reads, assumption, rule yields_return)
  have "yields (new_lan_details\<lparr>m_lan_ip := Some ip, m_lan_port := Some port, m_firewall := m_firewall d,
      lan_tcp_version := lan_tcp_version d, m_dc_cookie := 0\<rparr>) BIG r (LANDetailsTLV_ParseValue new_lan_details b)"
    using assms(3) unfolding LANDetailsTLV_ParseValue_def Let_def enc_value.simps append_assoc assms(1,2) option.case
    by - (rule reads, assumption, simp only: simp_thms if_True, rule yields_bind, erule first, unfold split,
        (rule reads, assumption)+, drule skip, rule reads, assumption, rule yields_return, rule ts [unfolded append_assoc], assumption)
  then show ?thesis
    using assms(1,2) by (cases d) (simp add: new_lan_details_def)
qed


lemma new_tlv_sent:
  "new_tlv TLV_ParseMode_Channel01 TLV_Screenname = ScreenNameTLV []"
  "new_tlv TLV_ParseMode_Channel04 TLV_Screenname = ScreenNameTLV []"
  "new_tlv TLV_ParseMode_Channel01 TLV_Cookie = CookieTLV 0 []"
  "new_tlv TLV_ParseMode_Channel04 TLV_Cookie = CookieTLV 0 []"
  "new_tlv TLV_ParseMode_Channel02 TLV_Status = StatusTLV \<lparr>m_allowDirect = 0, m_webAware = 0, st_status = 0\<rparr>"
  "new_tlv TLV_ParseMode_Channel02 TLV_LANDetails = LANDetailsTLV new_lan_details"
  "new_tlv TLV_ParseMode_Channel02 TLV_Unknown = UnknownTLV 0"
  by (simp_all add: new_tlv_def tlv_types)

lemma ParseValue_sent:
  "ParseValue cap0 (ScreenNameTLV s) b = map_value ScreenNameTLV (get_string s b)"
  "ParseValue cap0 (CookieTLV n v) b = CookieTLV_ParseValue b"
  "ParseValue cap0 (StatusTLV st) b = map_value StatusTLV (StatusTLV_ParseValue b)"
  "ParseValue cap0 (LANDetailsTLV d) b = map_value LANDetailsTLV (LANDetailsTLV_ParseValue d b)"
  "ParseValue cap0 (UnknownTLV u) b = map_value UnknownTLV (ShortTLV_ParseValue b)"
  by (simp_all add: ParseValue_def ParseValue_with_def StringTLV_ParseValue_def)

text \<open>A value begins with its length.\<close>

lemma enc_value_length:
  assumes "length (enc_value t) < 65538"
  shows "enc_value t = enc16 BIG (word_of_nat (length (enc_value t) - 2)) @ drop 2 (enc_value t)"
proof (cases t)
  case (OutUserInfoCapabilities c)
  have "length (concat (map cap_data fs)) = 16 * length fs" for fs
    by (induction fs) simp_all
  then have "length (concat (map cap_data (flag_list c))) = unat (caps_get_length c)"
    by (simp add: unat_caps_get_length length_flag_list)
  then show ?thesis
    using OutUserInfoCapabilities by simp
qed (simp_all add: enc_string_def)

lemma ParseValue_raw:
  assumes "at b BIG (enc_value t @ r)" and "length (enc_value t) < 65538"
  shows "yields (RawTLV ty (word_of_nat (length (enc_value t) - 2))) BIG r (ParseValue cap0 (RawTLV ty l) b)"
proof -
  let ?n = "word_of_nat (length (enc_value t) - 2) :: u16" and ?v = "drop 2 (enc_value t)"
  have e: "enc_value t = enc16 BIG ?n @ ?v"
    using assms(2) by (rule enc_value_length)
  have n: "unat (ucast ?n :: u32) = length ?v"
    using assms(2) by (simp add: unat_of_nat_u16)
  have "at b BIG (enc16 BIG ?n @ ?v @ r)"
    using assms(1) e by (metis append_assoc)
  then have "yields ?n BIG r (RawTLV_ParseValue b)"
    unfolding RawTLV_ParseValue_def by (rule reads) (rule yields_return, erule at_advance, rule n)
  moreover have "ParseValue cap0 (RawTLV ty l) b = map_value (RawTLV ty) (RawTLV_ParseValue b)"
    by (simp add: ParseValue_def ParseValue_with_def)
  ultimately show ?thesis
    using yields_map_value by metis
qed

lemma ParseValue_known:
  assumes r: "known_tlv pm t = Some t'" and b: "at b BIG (enc_value t @ r)"
  shows "yields t' BIG r (ParseValue cap0 (new_tlv pm (out_Type t)) b)"
proof (cases t)
  case (OutScreenName s)
  then have t: "t' = ScreenNameTLV s" "length s < 65536"
    and n: "new_tlv pm (out_Type t) = ScreenNameTLV []"
    using r new_tlv_sent by (auto simp: out_Type_def split: if_splits)
  show ?thesis
    unfolding n t(1) ParseValue_sent
    by (rule yields_map_value, rule string_codec.inp_yields) (use b OutScreenName t(2) in simp_all)
next
  case (OutCookie v)
  then have t: "t' = CookieTLV (word_of_nat (length v)) v" "length v < 65536"
    and n: "new_tlv pm (out_Type t) = CookieTLV 0 []"
    using r new_tlv_sent by (auto simp: out_Type_def split: if_splits)
  show ?thesis
    unfolding n t(1) ParseValue_sent
    by (rule yields_Cookie [OF t(2)]) (use b OutCookie in simp)
next
  case (OutStatus s)
  then have t: "t' = StatusTLV s"
    and n: "new_tlv pm (out_Type t) = StatusTLV \<lparr>m_allowDirect = 0, m_webAware = 0, st_status = 0\<rparr>"
    using r new_tlv_sent by (auto simp: out_Type_def split: if_splits)
  show ?thesis
    unfolding n t ParseValue_sent
    by (rule yields_map_value, rule yields_Status) (use b OutStatus in simp)
next
  case (OutLANDetails d)
  then obtain ip port where d: "m_lan_ip d = Some ip" "m_lan_port d = Some port"
    and t: "t' = LANDetailsTLV (d\<lparr>m_dc_cookie := 0\<rparr>)"
    and n: "new_tlv pm (out_Type t) = LANDetailsTLV new_lan_details"
    using r new_tlv_sent by (auto simp: out_Type_def split: if_splits)
  show ?thesis
    unfolding n t ParseValue_sent
    by (rule yields_map_value, rule yields_LANDetails [OF d]) (use b OutLANDetails in simp)
next
  case (OutUnknown v)
  then have t: "t' = UnknownTLV v" and n: "new_tlv pm (out_Type t) = UnknownTLV 0"
    using r new_tlv_sent by (auto simp: out_Type_def split: if_splits)
  show ?thesis
    using b [unfolded OutUnknown enc_value.simps append_assoc] unfolding n t ParseValue_sent ShortTLV_ParseValue_def
    by (intro yields_map_value) (rule reads, assumption, rule u16_codec.inp_yields [OF TrueI], assumption)
qed (use r in simp_all)

lemma ParseValue_enc:
  assumes "received_tlv pm t = Some t'" and "at b BIG (enc_value t @ r)"
  shows "yields t' BIG r (ParseValue cap0 (new_tlv pm (out_Type t)) b)"
  using assms(1)
proof (cases rule: received_cases)
  case raw
  then show ?thesis
    using ParseValue_raw [OF assms(2)] by simp
next
  case known
  then show ?thesis
    using assms(2) by (rule ParseValue_known)
qed

lemma ParseTLV_enc:
  assumes "received_tlv pm t = Some t'" and "at b BIG (enc_tlv t @ r)"
  shows "yields t' BIG r (ParseTLV cap0 pm b)"
  unfolding ParseTLV_def ParseTLV_with_def
  by (rule u16_codec.inp_bind [OF TrueI assms(2) [unfolded enc_tlv_def append_assoc]])
    (rule ParseValue_enc [OF assms(1)])

definition received_list :: "TLV_ParseMode \<Rightarrow> out_tlv list \<Rightarrow> tlv_list" where
  "received_list pm ts = map_of (rev (map (\<lambda>t. (out_Type t, received_tlv pm t)) ts))"

lemma TLVList_Parse_enc:
  "\<forall>t\<in>set ts. received_tlv pm t \<noteq> None \<Longrightarrow> length ts \<le> n \<Longrightarrow>
   at b BIG (concat (map enc_tlv ts)) \<Longrightarrow>
   yields (m ++ received_list pm ts) BIG [] (TLVList_Parse_with (ParseValue cap0) pm n m b)"
proof (induction ts arbitrary: n m b)
  case Nil
  then have "\<not> beforeEnd b"
    by (auto simp: at_def beforeEnd_unread)
  then have "TLVList_Parse_with (ParseValue cap0) pm n m b = Inr (m, b)"
    by (cases n) simp_all
  then show ?case
    using Nil by (simp add: received_list_def yields_return)
next
  case (Cons t ts)
  obtain k where n: "n = Suc k"
    using Cons.prems(2) by (cases n) simp_all
  obtain t' where t': "received_tlv pm t = Some t'"
    using Cons.prems(1) by auto
  have "unread b \<noteq> []" "wfb b"
    using Cons.prems(3) by (simp_all add: at_def enc_tlv_def)
  then have be: "beforeEnd b"
    by (simp add: beforeEnd_unread)
  obtain b' where b': "ParseTLV cap0 pm b = Inr (t', b')" "at b' BIG (concat (map enc_tlv ts))"
    using ParseTLV_enc [OF t', of b "concat (map enc_tlv ts)" cap0] Cons.prems(3) by (auto elim: yieldsE)
  have "yields ((m(Type t' \<mapsto> Some t')) ++ received_list pm ts) BIG []
      (TLVList_Parse_with (ParseValue cap0) pm k (m(Type t' \<mapsto> Some t')) b')"
    using Cons.IH Cons.prems(1,2) b'(2) n by simp
  moreover have "TLVList_Parse_with (ParseValue cap0) pm n m b =
      TLVList_Parse_with (ParseValue cap0) pm k (m(Type t' \<mapsto> Some t')) b'"
    using n be b'(1) by (simp add: ParseTLV_def fun_upd_def)
  moreover have "m ++ received_list pm (t # ts) = (m(Type t' \<mapsto> Some t')) ++ received_list pm ts"
    using t' received_Type [OF t'] by (simp add: received_list_def map_add_upd_left map_of_append)
  ultimately show ?case by simp
qed

lemma TLV_Output_fold: "m_endn b = BIG \<Longrightarrow> fold TLV_Output ts b = emit (concat (map enc_tlv ts)) b"
  by (induction ts arbitrary: b) (simp_all add: TLV_Output_emit)


section \<open>Properties\<close>

text \<open>C24: What a list of TLVs is written as is read back, for each of the sixteen classes that are sent: each type
  is mapped to the TLV the receiver should see (the last one, if a type occurs twice) and the whole list is
  consumed. A type the block has a class for gives that class with the value that was sent; of any other
  type, such as most of those of a login, the receiver keeps type and length and steps over the value.
  Left out are values of more than 65535 bytes and types that stand for another class in the block.\<close>

theorem tlv_list_roundtrip:
  assumes "\<forall>t\<in>set ts. received_tlv pm t \<noteq> None" and "length ts \<le> unat n" and "m_endn b = BIG"
    and "length (m_data (fold TLV_Output ts b)) < 2 ^ 31"
  shows "\<exists>b'. TLVList_Parse cap0 pm n (\<lambda>_. None) (setPos (buf_size b) (fold TLV_Output ts b)) =
      Inr (map_of (rev (map (\<lambda>t. (out_Type t, received_tlv pm t)) ts)), b') \<and> unread b' = []"
proof -
  let ?c = "setPos (buf_size b) (fold TLV_Output ts b)"
  have f: "fold TLV_Output ts b = emit (concat (map enc_tlv ts)) b"
    using assms(3) by (rule TLV_Output_fold)
  have u: "unat (buf_size b) = length (m_data b)"
    using assms(4) by (simp add: f buf_size_def unat_of_nat_u32)
  have "at ?c BIG (concat (map enc_tlv ts))"
    using assms(3,4) by (simp add: f u at_def wfb_def unread_def setPos_def)
  from TLVList_Parse_enc [OF assms(1,2) this, of "\<lambda>_. None" cap0] show ?thesis
    by (auto simp: TLVList_Parse_def received_list_def at_def elim!: yieldsE)
qed

definition login_tlvs :: "out_tlv list" where
  "login_tlvs = [OutScreenName ''12'', OutPassword ''abc'', OutClientType 266, OutClientBuildMinor 85, OutCookie [7]]"

theorem tlv_list_roundtrip_witness:
  "\<exists>b'. TLVList_Parse [] TLV_ParseMode_Channel01 0xffff (\<lambda>_. None)
      (setPos (buf_size new_buffer) (fold TLV_Output login_tlvs new_buffer)) =
    Inr (map_of [(TLV_Cookie, Some (CookieTLV 1 [7])), (TLV_ClientBuildMinor, Some (RawTLV TLV_ClientBuildMinor 4)),
      (TLV_ClientType, Some (RawTLV TLV_ClientType 2)), (TLV_Password, Some (RawTLV TLV_Password 3)),
      (TLV_Screenname, Some (ScreenNameTLV ''12''))], b')"
proof -
  have e: "m_endn new_buffer = BIG" "m_data new_buffer = []"
    by (simp_all add: new_buffer_def)
  have "length (m_data (fold TLV_Output login_tlvs new_buffer)) < 2 ^ 31"
    using TLV_Output_fold [OF e(1), of login_tlvs] e(2) by (simp add: login_tlvs_def enc_tlv_def)
  moreover have "map (\<lambda>t. (out_Type t, received_tlv TLV_ParseMode_Channel01 t)) login_tlvs =
      [(TLV_Screenname, Some (ScreenNameTLV ''12'')), (TLV_Password, Some (RawTLV TLV_Password 3)),
       (TLV_ClientType, Some (RawTLV TLV_ClientType 2)), (TLV_ClientBuildMinor, Some (RawTLV TLV_ClientBuildMinor 4)),
       (TLV_Cookie, Some (CookieTLV 1 [7]))]"
    by (simp add: login_tlvs_def received_tlv_def new_tlv_def out_Type_def) (simp add: tlv_types)
  ultimately show ?thesis
    using tlv_list_roundtrip [of login_tlvs TLV_ParseMode_Channel01 "0xffff" new_buffer "[]"] e(1)
    by (auto simp: login_tlvs_def)
qed

text \<open>In the blocks without messages, parsing a list of TLVs never accesses the packet out of
  range, whatever its bytes are and however many TLVs it holds; it returns or throws a parse
  exception, and leaves the bytes alone.\<close>

theorem tlv_list_parse_in_range:
  assumes "pm \<in> {TLV_ParseMode_Channel01, TLV_ParseMode_Channel02, TLV_ParseMode_Channel04,
      TLV_ParseMode_SBL, TLV_ParseMode_SBL_Rights}" and "length (m_data b) < 2 ^ 31"
  shows "case TLVList_Parse cap0 pm n m b of
      Inl e \<Rightarrow> (\<exists>msg. e = ParseException msg) | Inr (m', b') \<Rightarrow> m_data b' = m_data b"
  using TLVList_Parse_with_range [of pm b cap0 "unat n" m] assms
  by (simp add: plain_mode_def safe_result_def TLVList_Parse_def)

theorem tlv_list_parse_in_range_witness:
  "TLVList_Parse [] TLV_ParseMode_Channel02 9 (\<lambda>_. None) (buffer_of_bytes [0, 13, 255, 255, 1]) \<noteq> Inl OutOfRange"
  using tlv_list_parse_in_range [of TLV_ParseMode_Channel02 "buffer_of_bytes [0, 13, 255, 255, 1]" "[]" 9
      "\<lambda>_. None"]
  by (auto simp: buffer_of_bytes_def split: sum.splits)

text \<open>Parsing TLVs up to a given length always comes to an end (each TLV moves the position, even
  behind the end of the packet), provided the end lies a packet's size below the 32-bit range.\<close>

theorem parse_by_length_returns:
  assumes "pm \<in> {TLV_ParseMode_Channel01, TLV_ParseMode_Channel02, TLV_ParseMode_Channel04,
      TLV_ParseMode_SBL, TLV_ParseMode_SBL_Rights}"
    and "unat (m_out_pos b + len) + 65539 < 2 ^ 32" and "length (m_data b) < 2 ^ 32"
  shows "\<exists>r. ParseByLength cap0 pm len m b = Some r \<and>
    (case r of Inl e \<Rightarrow> (\<exists>msg. e = ParseException msg) | Inr (m', b') \<Rightarrow> m_data b' = m_data b)"
  using parse_until_returns [of pm "m_out_pos b + len" b cap0 m] assms
  by (simp add: plain_mode_def safe_result_def ParseByLength_def)

theorem parse_by_length_returns_witness:
  "ParseByLength [] TLV_ParseMode_SBL 60000 (\<lambda>_. None) (buffer_of_bytes [0, 1]) \<noteq> None"
  using parse_by_length_returns [of TLV_ParseMode_SBL "buffer_of_bytes [0, 1]" 60000 "[]" "\<lambda>_. None"]
  by (auto simp: buffer_of_bytes_def)

text \<open>The password of the log-in packet is sent with its length, and each of its bytes is
  recovered by the exclusive or with the table entry of its index modulo 16.\<close>

theorem password_roasting:
  "\<exists>bs. PasswordTLV_OutputValue pw b = emit (enc16 (m_endn b) (word_of_nat (length pw)) @ bs) b \<and>
     map (\<lambda>k. bs ! k XOR XORtable ! (k mod 16)) [0..<length bs] = bytes_of_string pw"
proof -
  have "map (\<lambda>k. xor_from 0 pw ! k XOR XORtable ! (k mod 16)) [0..<length (xor_from 0 pw)] = bytes_of_string pw"
    using xor_from_nth [of _ pw 0] by (intro nth_equalityI) (simp_all add: bytes_of_string_def)
  then show ?thesis
    by (auto simp: PasswordTLV_OutputValue_def put_u16_emit put_password_emit)
qed


text \<open>The text of a received message has \<^verbatim>\<open>length-4\<close> bytes when the length field is at least 4
  and the bytes are there; the read leaves the packet (undefined behaviour) exactly when the field
  is below 4, so that the subtraction wraps, and any byte follows.\<close>

theorem message_text_length:
  assumes b: "at b e (enc16 e len @ enc16 e f1 @ enc16 e f2 @ r)"
  shows "(MessageTextTLV_ParseValue [] b = Inl OutOfRange \<longleftrightarrow> unat len < 4 \<and> r \<noteq> []) \<and>
    (4 \<le> unat len \<longrightarrow> unat len - 4 \<le> length r \<longrightarrow>
      yields \<lparr>mt_message = string_of_bytes (take (unat len - 4) r), m_flag1 = f1, m_flag2 = f2\<rparr> e
        (drop (unat len - 4) r) (MessageTextTLV_ParseValue [] b))"
proof -
  let ?n = "ucast len - 4 :: u32"
  obtain b1 where g1: "get_u16 b = Inr (len, b1)" and b1: "at b1 e (enc16 e f1 @ enc16 e f2 @ r)"
    using u16_codec.inp_yields [OF TrueI b] by (auto elim: yieldsE)
  obtain b2 where g2: "get_u16 b1 = Inr (f1, b2)" and b2: "at b2 e (enc16 e f2 @ r)"
    using u16_codec.inp_yields [OF TrueI b1] by (auto elim: yieldsE)
  obtain b3 where g3: "get_u16 b2 = Inr (f2, b3)" and b3: "at b3 e r"
    using u16_codec.inp_yields [OF TrueI b2] by (auto elim: yieldsE)
  have "b3 = advance 6 b"
    using g1 g2 g3 by (auto simp: get_u16_def andThen_eq_Inr advance_advance split: if_splits)
  moreover have "unat (m_out_pos b + 6) = unat (m_out_pos b) + 6"
    using b unat_pos_add [of b 6] by (auto simp: at_def)
  ultimately have p: "unat (m_out_pos b3) \<ge> 6"
    by simp
  have l: "unat (ucast len :: u32) = unat len" "unat len < 65536"
    using unat_u16_le [of len] by (simp_all add: unat_ucast_up)
  have pv: "MessageTextTLV_ParseValue [] b = andThen (Unpack [] ?n b3) (\<lambda>(msg, b).
      Inr (\<lparr>mt_message = msg, m_flag1 = f1, m_flag2 = f2\<rparr>, b))"
    by (simp add: MessageTextTLV_ParseValue_def g1 g2 g3)
  then have iff: "MessageTextTLV_ParseValue [] b = Inl OutOfRange \<longleftrightarrow>
      r \<noteq> [] \<and> 2 ^ 32 \<le> unat (m_out_pos b3) + unat ?n"
    using Unpack_out_of_range_iff [of b3 "[]" ?n] b3
    by (cases "Unpack [] ?n b3") (auto simp: at_def)
  show ?thesis
  proof (cases "4 \<le> unat len")
    case True
    then have n: "unat ?n = unat len - 4"
      using l by (simp add: unat_sub word_le_nat_alt)
    have "unat (m_out_pos b3) \<le> length (m_data b3)" "length (m_data b3) < 2 ^ 31"
      using b3 by (simp_all add: at_def wfb_def)
    then have "\<not> 2 ^ 32 \<le> unat (m_out_pos b3) + unat ?n"
      using n l(2) by simp
    moreover have "yields \<lparr>mt_message = string_of_bytes (take (unat len - 4) r), m_flag1 = f1, m_flag2 = f2\<rparr> e
        (drop (unat len - 4) r) (MessageTextTLV_ParseValue [] b)" if "unat len - 4 \<le> length r"
      using pv that b3 n Unpack_unread [of b3 ?n "[]"] at_advance [of b3 e "take (unat len - 4) r" "drop (unat len - 4) r" ?n]
      by (auto simp: at_def intro!: yields_return)
    ultimately show ?thesis
      using iff True by simp
  next
    case False
    have m1: "unat (- 1 :: u32) = 2 ^ 32 - 1"
      by (simp add: unsigned_minus_1_eq_mask mask_eq_exp_minus_1)
    have "len = 0 \<or> len = 1 \<or> len = 2 \<or> len = 3"
      using False by (simp add: word_unat_eq_iff) arith
    then have "2 ^ 32 \<le> 4 + unat ?n"
      using m1 by auto
    then show ?thesis
      using iff False p by simp
  qed
qed

theorem message_text_length_witness:
  "MessageTextTLV_ParseValue [] (buffer_of_bytes [0, 1, 0, 0, 0, 0, 65]) = Inl OutOfRange"
  using message_text_length [of "buffer_of_bytes [0, 1, 0, 0, 0, 0, 65]" BIG 1 0 0 "[65]"]
  by (simp add: buffer_of_bytes_def at_def wfb_def unread_def octet_def)

end
