(* ===== verification/DirectCrypt.thy ===== *)
theory DirectCrypt
  imports Buffer
begin

text \<open>
  The scrambling of packets between two clients: \<^verbatim>\<open>Encrypt\<close> and \<^verbatim>\<open>Decrypt\<close> of
  \<^verbatim>\<open>src/DirectClient.cpp\<close>. A function that may not end returns an option, \<open>None\<close> is divergence.
  \<^verbatim>\<open>unsigned long\<close> values are kept at 32 bits: of the key, only the low 32 bits are used.
\<close>

section \<open>The code\<close>

definition client_check_data :: "u8 list" where
  \<open>client_check_data = bytes_of_string
     (''As part of this software beta version Mirabilis is '' @
      ''granting a limited access to the ICQ network, '' @
      ''servers, directories, listings, information and databases ("'' @
      ''ICQ Services and Information"). The '' @
      ''ICQ Service and Information may databases ("'' @
      ''ICQ Services and Information"). The '' @
      ''ICQ Service and Information may'') @ [0, 0]\<close>

definition check_byte :: "nat \<Rightarrow> u8 result" where
  "check_byte i = (if i < length client_check_data then Inr (client_check_data ! i) else Inl OutOfRange)"

text \<open>One character of the stream, combined with a byte of the key.\<close>

definition crypt_char :: "u8 \<Rightarrow> buffer \<times> buffer \<Rightarrow> (buffer \<times> buffer) result" where
  "crypt_char k = (\<lambda>(inb, out). andThen (UnpackChar inb) (\<lambda>(c, inb). Inr (inb, put_u8 (c XOR k) out)))"

text \<open>The loop over words; \<open>lim\<close> is \<^verbatim>\<open>(size+3)/4\<close>.\<close>

function crypt_loop :: "u32 \<Rightarrow> nat \<Rightarrow> nat \<Rightarrow> buffer \<times> buffer \<Rightarrow> (buffer \<times> buffer) result" where
  "crypt_loop key lim i s =
     (if i < lim then
        andThen (check_byte (i mod 256)) (\<lambda>d.
        let hex = key + ucast d in
        andThen (crypt_char (octet 0 hex) s) (\<lambda>s.
        andThen (crypt_char (octet 8 hex) s) (\<lambda>s.
        andThen (crypt_char (octet 16 hex) s) (\<lambda>s.
        andThen (crypt_char (octet 24 hex) s) (\<lambda>s.
        crypt_loop key lim (i + 4) s)))))
      else Inr s)"
  by pat_completeness auto
termination by (relation "measure (\<lambda>(key, lim, i, s). lim - i)") auto

declare crypt_loop.simps [simp del]

text \<open>\<^verbatim>\<open>while (in.remains()) { in >> c; out << c; }\<close>\<close>

partial_function (option) copy_rest :: "buffer \<Rightarrow> buffer \<Rightarrow> (buffer \<times> buffer) result option" where
  "copy_rest inb out =
     (if remains inb \<noteq> 0 then
        (case get_u8 inb of
           Inl e \<Rightarrow> Some (Inl e)
         | Inr (c, inb) \<Rightarrow> copy_rest inb (put_u8 c out))
      else Some (Inr (inb, out)))"

definition xor_key :: "u32 \<Rightarrow> u32 \<Rightarrow> u32" where
  "xor_key sz check = 0x67657268 * sz + check"

definition correction :: "u16 \<Rightarrow> u32" where
  "correction eff = (if eff = 7 then 3 else 2)"

text \<open>The start of \<^verbatim>\<open>Decrypt\<close>: length, start byte and check code are copied.\<close>

definition decrypt_header :: "u16 \<Rightarrow> buffer \<Rightarrow> buffer \<Rightarrow> (u32 \<times> buffer \<times> buffer) result" where
  "decrypt_header eff inb out =
     (let inb = setLittleEndian inb; out = setLittleEndian out in
      andThen (get_u16 inb) (\<lambda>(len, inb).
      let out = put_u16 len out in
      andThen (if eff = 7 then andThen (get_u8 inb) (\<lambda>(c, inb). Inr (inb, put_u8 c out))
               else Inr (inb, out)) (\<lambda>(inb, out).
      andThen (get_u32 inb) (\<lambda>(check, inb).
      Inr (check, inb, put_u32 check out)))))"

text \<open>Its end: the check code is compared with the decrypted data.\<close>

definition validate :: "u32 \<Rightarrow> u32 \<Rightarrow> u32 \<Rightarrow> buffer \<Rightarrow> bool result" where
  "validate sz cor check out =
     andThen (byte_at out (4 + cor)) (\<lambda>a.
     andThen (byte_at out (6 + cor)) (\<lambda>b.
     let B1 = join32 a b a b XOR check; M1 = octet 24 B1 in
     if M1 < 10 \<or> ucast M1 \<ge> sz then Inr False
     else
       andThen (byte_at out (ucast M1 + cor)) (\<lambda>x.
       if octet 16 B1 \<noteq> x XOR 0xFF then Inr False
       else
         let X2 = octet 8 B1 in
         if X2 < 220 then
           andThen (check_byte (unat X2)) (\<lambda>x3. Inr (octet 0 B1 = x3 XOR 0xFF))
         else Inr True)))"

definition Decrypt :: "u16 \<Rightarrow> buffer \<Rightarrow> buffer \<Rightarrow> (bool \<times> buffer \<times> buffer) result option" where
  "Decrypt eff inb out =
     (if eff \<ge> 6 then
        let cor = correction eff; sz = buf_size inb - cor in
        case decrypt_header eff inb out of
          Inl e \<Rightarrow> Some (Inl e)
        | Inr (check, inb, out) \<Rightarrow>
            (case crypt_loop (xor_key sz check) (unat (sz + 3) div 4) 4 (inb, out) of
               Inl e \<Rightarrow> Some (Inl e)
             | Inr (inb, out) \<Rightarrow>
                 (case copy_rest inb out of
                    None \<Rightarrow> None
                  | Some (Inl e) \<Rightarrow> Some (Inl e)
                  | Some (Inr (inb, out)) \<Rightarrow>
                      Some (andThen (validate sz cor check out) (\<lambda>ok. Inr (ok, inb, out)))))
      else Some (Inr (True, inb, out)))"

text \<open>The position whose byte is checked: \<open>r\<close> is what the first \<^verbatim>\<open>rand()\<close> returned.\<close>

definition check_position :: "u32 \<Rightarrow> u32 \<Rightarrow> u32" where
  "check_position r sz = r mod ((if sz < 255 then sz else 255) - 10) + 10"

text \<open>\<open>r\<close> and \<open>q\<close> are what the two calls of \<^verbatim>\<open>rand()\<close> return.\<close>

definition check_code :: "u32 \<Rightarrow> u32 \<Rightarrow> buffer \<Rightarrow> u32 result" where
  "check_code r q inb =
     (let sz = buf_size inb in
      if (if sz < 255 then sz else 255) = 10 then Inl DivisionByZero
      else
        let M1 = check_position r sz in
        andThen (byte_at inb M1) (\<lambda>x.
        let X1 = x XOR 0xFF; X2 = ucast (q mod 220) :: u8 in
        andThen (check_byte (unat X2)) (\<lambda>y.
        let X3 = y XOR 0xFF in
        andThen (byte_at inb 4) (\<lambda>a.
        andThen (byte_at inb 6) (\<lambda>b.
        Inr ((push_bit 24 M1 OR push_bit 16 (ucast X1) OR push_bit 8 (ucast X2) OR ucast X3) XOR
             join32 a b a b))))))"

definition Encrypt :: "u32 \<Rightarrow> u32 \<Rightarrow> u16 \<Rightarrow> buffer \<Rightarrow> buffer \<Rightarrow> (buffer \<times> buffer) result option" where
  "Encrypt r q eff inb out =
     (if eff = 6 \<or> eff = 7 then
        let sz = buf_size inb; inb = setLittleEndian inb; out = setLittleEndian out;
            out = (if eff = 7 then put_u8 2 (put_u16 (ucast (sz + 1)) out) else put_u16 (ucast sz) out)
        in case check_code r q inb of
             Inl e \<Rightarrow> Some (Inl e)
           | Inr check \<Rightarrow>
               (case crypt_loop (xor_key sz check) (unat (sz + 3) div 4) 4
                       (advance 4 inb, put_u32 check out) of
                  Inl e \<Rightarrow> Some (Inl e)
                | Inr (inb, out) \<Rightarrow> copy_rest inb out)
      else Some (Inr (inb, out)))"

section \<open>The loops over the bytes that are left\<close>

text \<open>What the word loop and the copy loop together do to the bytes.\<close>

fun mask_bytes :: "u32 \<Rightarrow> nat \<Rightarrow> nat \<Rightarrow> u8 list \<Rightarrow> u8 list" where
  "mask_bytes key lim i (a # b # c # d # xs) =
     (if i < lim then
        let hex = key + ucast (client_check_data ! (i mod 256))
        in (a XOR octet 0 hex) # (b XOR octet 8 hex) # (c XOR octet 16 hex) # (d XOR octet 24 hex) #
           mask_bytes key lim (i + 4) xs
      else a # b # c # d # xs)"
| "mask_bytes key lim i xs = xs"

lemma mask_bytes_invol [simp]: "mask_bytes key lim i (mask_bytes key lim i xs) = xs"
  by (induction key lim i xs rule: mask_bytes.induct) (simp_all add: Let_def xor.assoc)

lemma length_mask_bytes [simp]: "length (mask_bytes key lim i xs) = length xs"
  by (induction key lim i xs rule: mask_bytes.induct) (simp_all add: Let_def)

lemma mask_bytes_done: "lim \<le> i \<Longrightarrow> mask_bytes key lim i xs = xs"
  by (induction key lim i xs rule: mask_bytes.induct) simp_all

lemma length_check_data: "length client_check_data = 306"
  by (simp add: client_check_data_def)

lemma check_byte_ok: "i < 306 \<Longrightarrow> check_byte i = Inr (client_check_data ! i)"
  by (simp add: check_byte_def length_check_data)

lemma get_u8_at: "at b e (x # r) \<Longrightarrow> get_u8 b = Inr (x, advance 1 b) \<and> at (advance 1 b) e r"
  using at_advance [of b e "[x]" r 1] by (auto simp: at_def get_u8_unread)

lemma crypt_char_at:
  "at b e (x # r) \<Longrightarrow> crypt_char k (b, out) = Inr (advance 1 b, emit [x XOR k] out) \<and> at (advance 1 b) e r"
  using get_u8_at [of b e x r]
  by (simp add: crypt_char_def UnpackChar_def get_u8_def put_u8_emit)

lemma remains_at: "at b e zs \<Longrightarrow> remains b = 0 \<longleftrightarrow> zs = []"
proof -
  assume b: "at b e zs"
  then have l: "unat (word_of_nat (length (m_data b)) :: u32) = length (m_data b)"
    by (auto simp: at_def wfb_def unat_of_nat_u32)
  have "remains b = 0 \<longleftrightarrow> word_of_nat (length (m_data b)) = m_out_pos b"
    by (simp add: remains_def)
  also have "\<dots> \<longleftrightarrow> length (m_data b) = unat (m_out_pos b)"
    using l by (metis word_unat_eq_iff)
  also have "\<dots> \<longleftrightarrow> zs = []"
    using b by (auto simp: at_def wfb_def unread_def)
  finally show ?thesis .
qed

lemma copy_rest_at: "at b e zs \<Longrightarrow> \<exists>b'. copy_rest b out = Some (Inr (b', emit zs out)) \<and> at b' e []"
proof (induction zs arbitrary: b out)
  case Nil
  then show ?case
    by (simp add: copy_rest.simps remains_at)
next
  case (Cons z zs)
  then have "remains b \<noteq> 0"
    by (simp add: remains_at)
  then show ?case
    using get_u8_at [OF Cons.prems] Cons.IH [of "advance 1 b" "emit [z] out"]
    by (subst copy_rest.simps) (simp add: put_u8_emit)
qed

lemma crypt_loop_stop:
  assumes "lim \<le> i" and "at b e xs"
  shows "\<exists>b' ys zs. crypt_loop key lim i (b, out) = Inr (b', emit ys out) \<and> at b' e zs \<and>
    ys @ zs = mask_bytes key lim i xs"
proof -
  have "crypt_loop key lim i (b, out) = Inr (b, emit [] out)"
    "[] @ xs = mask_bytes key lim i xs"
    using assms(1) by (simp_all add: crypt_loop.simps mask_bytes_done)
  then show ?thesis
    using assms(2) by blast
qed

lemma crypt_loop_mask:
  "at b e xs \<Longrightarrow> lim \<le> i \<or> lim + 3 \<le> i + length xs \<Longrightarrow>
   \<exists>b' ys zs. crypt_loop key lim i (b, out) = Inr (b', emit ys out) \<and> at b' e zs \<and>
     ys @ zs = mask_bytes key lim i xs"
proof (induction key lim i xs arbitrary: b out rule: mask_bytes.induct)
  case (1 key lim i x0 x1 x2 x3 xs)
  show ?case
  proof (cases "i < lim")
    case True
    let ?h = "key + ucast (client_check_data ! (i mod 256))"
    have c: "check_byte (i mod 256) = Inr (client_check_data ! (i mod 256))"
      by (rule check_byte_ok) (use mod_less_divisor [of 256 i] in linarith)
    let ?b4 = "advance 1 (advance 1 (advance 1 (advance 1 b)))"
    note c0 = crypt_char_at [OF "1.prems"(1)]
    note c1 = crypt_char_at [OF conjunct2 [OF c0]]
    note c2 = crypt_char_at [OF conjunct2 [OF c1]]
    note c3 = crypt_char_at [OF conjunct2 [OF c2]]
    have b4: "at ?b4 e xs"
      by (rule conjunct2 [OF c3])
    have run: "crypt_loop key lim i (b, out) = crypt_loop key lim (i + 4)
        (?b4, emit [x0 XOR octet 0 ?h, x1 XOR octet 8 ?h, x2 XOR octet 16 ?h, x3 XOR octet 24 ?h] out)"
      by (subst crypt_loop.simps) (simp add: Let_def True c conjunct1 [OF c0] conjunct1 [OF c1]
          conjunct1 [OF c2] conjunct1 [OF c3] add_ac)
    have "lim \<le> i + 4 \<or> lim + 3 \<le> i + 4 + length xs"
      using "1.prems"(2) True by auto
    from "1.IH" [OF True refl b4 this]
    obtain b' ys zs where "crypt_loop key lim (i + 4)
        (?b4, emit [x0 XOR octet 0 ?h, x1 XOR octet 8 ?h, x2 XOR octet 16 ?h, x3 XOR octet 24 ?h] out) =
        Inr (b', emit ys (emit [x0 XOR octet 0 ?h, x1 XOR octet 8 ?h, x2 XOR octet 16 ?h, x3 XOR octet 24 ?h] out))"
      "at b' e zs" "ys @ zs = mask_bytes key lim (i + 4) xs"
      by blast
    then show ?thesis
      using run True by (intro exI conjI) (assumption | simp add: emit_emit Let_def)+
  next
    case False
    then show ?thesis
      using "1.prems"(1) by (intro crypt_loop_stop) simp_all
  qed
qed ((rule crypt_loop_stop; auto)+)

text \<open>Both loops together.\<close>

definition transfer :: "u32 \<Rightarrow> nat \<Rightarrow> buffer \<times> buffer \<Rightarrow> (buffer \<times> buffer) result option" where
  "transfer key lim s =
     (case crypt_loop key lim 4 s of Inl e \<Rightarrow> Some (Inl e) | Inr (inb, out) \<Rightarrow> copy_rest inb out)"

lemma transfer_mask:
  assumes "at b e xs" and "lim \<le> 4 \<or> lim \<le> 1 + length xs"
  shows "\<exists>b'. transfer key lim (b, out) = Some (Inr (b', emit (mask_bytes key lim 4 xs) out)) \<and> at b' e []"
proof -
  from crypt_loop_mask [OF assms(1), of lim 4 key out] assms(2)
  obtain b' ys zs where "crypt_loop key lim 4 (b, out) = Inr (b', emit ys out)" "at b' e zs"
    "ys @ zs = mask_bytes key lim 4 xs"
    by auto
  then show ?thesis
    using copy_rest_at [of b' e zs "emit ys out"] by (auto simp: transfer_def emit_emit)
qed

text \<open>Behind the end of the data the copy loop gets nowhere.\<close>

lemma copy_rest_stuck:
  assumes "length (m_data b) < unat (m_out_pos b)" and "unat (m_out_pos b) + 1 < 2 ^ 32"
  shows "copy_rest b out = None"
proof (rule ccontr)
  assume "copy_rest b out \<noteq> None"
  then obtain r where "copy_rest b out = Some r" by blast
  then have "\<not> (length (m_data b) < unat (m_out_pos b) \<and> unat (m_out_pos b) + 1 < 2 ^ 32)"
  proof (rule copy_rest.raw_induct [where P =
        "\<lambda>b _ _. \<not> (length (m_data b) < unat (m_out_pos b) \<and> unat (m_out_pos b) + 1 < 2 ^ 32)", rotated])
    fix f :: "buffer \<Rightarrow> buffer \<Rightarrow> (buffer \<times> buffer) result option" and b out r
    assume IH: "\<And>b out r. f b out = Some r \<Longrightarrow>
        \<not> (length (m_data b) < unat (m_out_pos b) \<and> unat (m_out_pos b) + 1 < 2 ^ 32)"
      and ret: "(if remains b \<noteq> 0 then (case get_u8 b of Inl e \<Rightarrow> Some (Inl e)
          | Inr (c, inb) \<Rightarrow> f inb (put_u8 c out)) else Some (Inr (b, out))) = Some r"
    show "\<not> (length (m_data b) < unat (m_out_pos b) \<and> unat (m_out_pos b) + 1 < 2 ^ 32)"
    proof
      assume s: "length (m_data b) < unat (m_out_pos b) \<and> unat (m_out_pos b) + 1 < 2 ^ 32"
      then have "unat (m_out_pos b + 1) = unat (m_out_pos b) + 1"
        using unat_plus_u32 [of "m_out_pos b" 1] by simp
      then have "get_u8 b = Inr (0, b)"
        using s by (simp add: get_u8_def)
      moreover have "remains b \<noteq> 0"
        using s unat_of_nat_u32 [of "length (m_data b)"] by (auto simp: remains_def)
      ultimately show False
        using IH [of b "put_u8 0 out"] ret s by auto
    qed
  qed
  then show False using assms by blast
qed

lemma Encrypt_transfer:
  "eff = 6 \<or> eff = 7 \<Longrightarrow> Encrypt r q eff b out =
     (let sz = buf_size b; b = setLittleEndian b; out = setLittleEndian out;
          out = (if eff = 7 then put_u8 2 (put_u16 (ucast (sz + 1)) out) else put_u16 (ucast sz) out)
      in case check_code r q b of
           Inl e \<Rightarrow> Some (Inl e)
         | Inr check \<Rightarrow> transfer (xor_key sz check) (unat (sz + 3) div 4) (advance 4 b, put_u32 check out))"
  by (auto simp: Encrypt_def transfer_def Let_def split: sum.split)

lemma Decrypt_transfer:
  "6 \<le> eff \<Longrightarrow> Decrypt eff b out =
     (let cor = correction eff; sz = buf_size b - cor in
      case decrypt_header eff b out of
        Inl e \<Rightarrow> Some (Inl e)
      | Inr (check, b, out) \<Rightarrow>
          (case transfer (xor_key sz check) (unat (sz + 3) div 4) (b, out) of
             None \<Rightarrow> None
           | Some (Inl e) \<Rightarrow> Some (Inl e)
           | Some (Inr (b, out)) \<Rightarrow> Some (andThen (validate sz cor check out) (\<lambda>ok. Inr (ok, b, out)))))"
  by (auto simp: Decrypt_def transfer_def Let_def split: sum.split)

text \<open>The header that the two sides agree on.\<close>

definition crypt_header :: "u16 \<Rightarrow> u16 \<Rightarrow> u8 list" where
  "crypt_header eff len = enc16 LITTLE len @ (if eff = 7 then [2] else [])"

lemma decrypt_header_at:
  assumes "at b e (enc16 LITTLE len @ st @ enc32 LITTLE check @ xs)"
    and "length st = (if eff = 7 then 1 else 0)"
  shows "\<exists>b'. decrypt_header eff b out = Inr (check, b',
      emit (enc16 LITTLE len @ st @ enc32 LITTLE check) (setLittleEndian out)) \<and> at b' LITTLE xs"
proof -
  have b0: "at (setLittleEndian b) LITTLE (enc16 LITTLE len @ st @ enc32 LITTLE check @ xs)"
    using assms(1) at_endian by (simp add: setLittleEndian_def)
  obtain b1 where g1: "get_u16 (setLittleEndian b) = Inr (len, b1)"
    and b1: "at b1 LITTLE (st @ enc32 LITTLE check @ xs)"
    using u16_codec.inp_yields [OF TrueI b0] by (auto elim: yieldsE)
  show ?thesis
  proof (cases "eff = 7")
    case True
    then obtain s where s: "st = [s]"
      using assms(2) by (auto simp: length_Suc_conv)
    have b2: "get_u8 b1 = Inr (s, advance 1 b1)" "at (advance 1 b1) LITTLE (enc32 LITTLE check @ xs)"
      using get_u8_at b1 s by auto
    obtain b3 where "get_u32 (advance 1 b1) = Inr (check, b3)" "at b3 LITTLE xs"
      using u32_codec.inp_yields [OF TrueI b2(2)] by (auto elim: yieldsE)
    then show ?thesis
      using g1 b2 True s by (simp add: decrypt_header_def put_u16_emit put_u8_emit put_u32_emit emit_emit
          setLittleEndian_def)
  next
    case False
    then obtain b3 where "get_u32 b1 = Inr (check, b3)" "at b3 LITTLE xs"
      using u32_codec.inp_yields [OF TrueI, of b1 LITTLE check xs] b1 assms(2) by (auto elim: yieldsE)
    then show ?thesis
      using g1 False assms(2) by (simp add: decrypt_header_def put_u16_emit put_u32_emit emit_emit
          setLittleEndian_def)
  qed
qed

section \<open>The check code\<close>

lemma check_position_range:
  assumes "11 \<le> unat sz"
  shows "10 \<le> unat (check_position r sz)" and "unat (check_position r sz) < unat sz"
    and "unat (check_position r sz) < 255"
proof -
  let ?m = "if sz < 255 then sz else 255 :: u32"
  have m: "11 \<le> unat ?m" "unat ?m \<le> 255" "unat ?m \<le> unat sz"
    using assms by (auto simp: word_less_nat_alt)
  then have d: "unat (?m - 10) = unat ?m - 10"
    by (simp add: unat_sub word_le_nat_alt)
  then have "unat (r mod (?m - 10)) < unat ?m - 10"
    using m by (simp add: unat_mod)
  then have "unat (r mod (?m - 10) + 10) = unat (r mod (?m - 10)) + 10" "unat (r mod (?m - 10)) + 10 < unat ?m"
    using m by (simp_all add: unat_plus_u32)
  then show "10 \<le> unat (check_position r sz)" and "unat (check_position r sz) < unat sz"
    and "unat (check_position r sz) < 255"
    using m by (simp_all add: check_position_def)
qed

lemma octets_of_code:
  fixes m :: u32 and x y z :: u8
  defines "c \<equiv> push_bit 24 m OR push_bit 16 (ucast x) OR push_bit 8 (ucast y) OR ucast z"
  shows "octet 24 c = ucast m" and "octet 16 c = x" and "octet 8 c = y" and "octet 0 c = z"
  unfolding c_def
  by (rule bit_word_eqI, auto simp: bit_octet bit_simps dest: bit_imp_le_length)+

lemma check_code_endian [simp]: "check_code r q (setLittleEndian b) = check_code r q b"
proof -
  have "byte_at (setLittleEndian b) = byte_at b" "buf_size (setLittleEndian b) = buf_size b"
    by (simp_all add: byte_at_def fun_eq_iff setLittleEndian_def buf_size_def)
  then show ?thesis
    by (simp only: check_code_def)
qed

lemma check_code_ok:
  assumes "11 \<le> unat (buf_size b)" and "length (m_data b) < 2 ^ 32"
  shows "\<exists>x1 x2 c.
    check_code r q b = Inr (c XOR join32 (m_data b ! 4) (m_data b ! 6) (m_data b ! 4) (m_data b ! 6)) \<and>
    octet 24 c = ucast (check_position r (buf_size b)) \<and>
    octet 16 c = m_data b ! unat (check_position r (buf_size b)) XOR 0xFF \<and>
    octet 8 c = x2 \<and> x2 < 220 \<and> check_byte (unat x2) = Inr x1 \<and> octet 0 c = x1 XOR 0xFF"
proof -
  let ?m = "check_position r (buf_size b)" and ?x2 = "ucast (q mod 220) :: u8"
  have l: "unat (buf_size b) = length (m_data b)"
    using assms(2) by (simp add: buf_size_def unat_of_nat_u32)
  have n10: "(if buf_size b < 255 then buf_size b else 255) \<noteq> 10"
    using assms(1) by (auto simp: word_unat_eq_iff)
  have q: "unat (q mod 220) < 220"
    using unat_mod [of q 220] mod_less_divisor [of 220 "unat q"] by simp
  have "unat (ucast (q mod 220) :: u8) = unat (q mod 220) mod 256"
    by (simp add: unsigned_ucast_eq take_bit_eq_mod)
  then have x2: "unat ?x2 < 220"
    using q by simp
  then have "check_byte (unat ?x2) = Inr (client_check_data ! unat ?x2)"
    by (intro check_byte_ok) simp
  then show ?thesis
    using check_position_range [OF assms(1), of r] assms(1) n10 x2 l
    by (intro exI) (auto simp: check_code_def Let_def byte_at_def octets_of_code word_less_nat_alt)
qed


lemma ucast_of_nat_32_16: "(ucast (word_of_nat n :: u32) :: u16) = word_of_nat n"
  by (simp add: word_unat_eq_iff unat_of_nat unsigned_ucast_eq take_bit_eq_mod mod_mod_cancel)

lemma validate_own_code:
  fixes m :: u32
  assumes d: "m_data out = hs @ ys" "length hs = 4 + unat cor" and len: "length ys + 4 = unat sz"
    and cor: "cor = 2 \<or> cor = 3" and sz: "11 \<le> unat sz" "unat sz + 4 < 2 ^ 32"
    and c: "octet 24 c = ucast m" "octet 16 c = ys ! (unat m - 4) XOR 0xFF" "octet 8 c = x2" "x2 < 220"
      "check_byte (unat x2) = Inr x1" "octet 0 c = x1 XOR 0xFF"
    and m: "10 \<le> unat m" "unat m < unat sz" "unat m < 255"
  shows "validate sz cor (c XOR join32 (ys ! 0) (ys ! 2) (ys ! 0) (ys ! 2)) out = Inr True"
proof -
  have m8: "unat (ucast m :: u8) = unat m"
    using m(3) by (simp add: unsigned_ucast_eq take_bit_eq_mod)
  then have m32: "ucast (ucast m :: u8) = m"
    by (simp only: word_unat_eq_iff unat_ucast_8_32)
  have n: "unat (4 + cor) = 4 + unat cor" "unat (6 + cor) = 6 + unat cor" "unat (m + cor) = unat m + unat cor"
    using cor m by (auto simp: unat_plus_u32)
  have at: "m_data out ! (k + unat cor) = ys ! (k - 4)" if "4 \<le> k" for k
    using that d by (simp add: nth_append)
  have l: "length (m_data out) = unat sz + unat cor"
    using d len by simp
  have "byte_at out (4 + cor) = Inr (ys ! 0)" "byte_at out (6 + cor) = Inr (ys ! 2)"
    "byte_at out (m + cor) = Inr (ys ! (unat m - 4))"
    using at [of 4] at [of 6] at [of "unat m"] n l sz(1) m(1,2) by (simp_all add: byte_at_def add.commute)
  moreover have "join32 a b a b XOR (c XOR join32 a b a b) = c" for a b
    by (metis xor.assoc xor.commute xor_self_eq xor.right_neutral)
  moreover have "\<not> ucast m < (10 :: u8)" "\<not> sz \<le> m"
    using m m8 by (simp_all add: word_less_nat_alt word_le_nat_alt)
  ultimately show ?thesis
    using c by (simp add: validate_def Let_def m32)
qed

lemma Encrypt_Decrypt:
  assumes eff: "eff = 6 \<or> eff = 7" and pos: "m_out_pos b = 0"
    and len: "11 \<le> length (m_data b)" "length (m_data b) < 2 ^ 30"
  shows "\<exists>b' c check b'' p. Encrypt r q eff b new_buffer = Some (Inr (b', c)) \<and>
    Decrypt eff (buffer_of_bytes (m_data c)) new_buffer = Some (Inr (True, b'', p)) \<and>
    m_data p = enc16 LITTLE (word_of_nat (length (m_data b) + (if eff = 7 then 1 else 0))) @
      (if eff = 7 then [2] else []) @ enc32 LITTLE check @ drop 4 (m_data b) \<and> m_out_pos p = 0 \<and>
    (\<exists>pl. m_data c = enc16 LITTLE (word_of_nat (length pl)) @ pl \<and>
      length pl = length (m_data b) + (if eff = 7 then 1 else 0))"
proof -
  let ?d = "m_data b" and ?sz = "buf_size b" and ?st = "if eff = 7 then [2] else [] :: u8 list"
  let ?len = "word_of_nat (length ?d + (if eff = 7 then 1 else 0)) :: u16"
  let ?lim = "unat (?sz + 3) div 4"
  have sz: "unat ?sz = length ?d"
    using len by (simp add: buf_size_def unat_of_nat_u32)
  then have sz3: "unat (?sz + 3) = length ?d + 3"
    using len by (simp add: unat_plus_u32)
  have lim: "?lim \<le> 1 + length (drop 4 ?d)"
    using len(1) sz3 by simp
  have at4: "at (advance 4 (setLittleEndian b)) LITTLE (drop 4 ?d)"
    using pos len by (simp add: at_def wfb_def unread_def setLittleEndian_def)
  obtain x1 x2 c where code: "check_code r q b = Inr (c XOR join32 (?d ! 4) (?d ! 6) (?d ! 4) (?d ! 6))"
    and c: "octet 24 c = ucast (check_position r ?sz)"
      "octet 16 c = ?d ! unat (check_position r ?sz) XOR 0xFF"
      "octet 8 c = x2" "x2 < 220" "check_byte (unat x2) = Inr x1" "octet 0 c = x1 XOR 0xFF"
    using check_code_ok [of b r q] sz len by auto
  define check where "check = c XOR join32 (?d ! 4) (?d ! 6) (?d ! 4) (?d ! 6)"
  define ys where "ys = mask_bytes (xor_key ?sz check) ?lim 4 (drop 4 ?d)"
  define bytes where "bytes = enc16 LITTLE ?len @ ?st @ enc32 LITTLE check @ ys"
  have code': "check_code r q b = Inr check"
    using code by (simp add: check_def)
  have hdr: "(if eff = 7 then put_u8 2 (put_u16 (ucast (?sz + 1)) (setLittleEndian new_buffer))
      else put_u16 (ucast ?sz) (setLittleEndian new_buffer)) =
      emit (enc16 LITTLE ?len @ ?st) (setLittleEndian new_buffer)"
    using ucast_of_nat_32_16 [of "length ?d"] ucast_of_nat_32_16 [of "length ?d + 1"] eff
    by (auto simp: put_u16_emit put_u8_emit buf_size_def setLittleEndian_def add.commute)
  define out where "out = emit (enc16 LITTLE ?len @ ?st @ enc32 LITTLE check) (setLittleEndian new_buffer)"
  have put: "put_u32 check (emit (enc16 LITTLE ?len @ ?st) (setLittleEndian new_buffer)) = out"
    by (simp add: out_def put_u32_emit setLittleEndian_def)
  have md: "m_data out = enc16 LITTLE ?len @ ?st @ enc32 LITTLE check"
    by (simp add: out_def new_buffer_def setLittleEndian_def)
  obtain b' where "transfer (xor_key ?sz check) ?lim (advance 4 (setLittleEndian b), out) =
      Some (Inr (b', emit ys out))"
    using transfer_mask [OF at4 disjI2 [OF lim], of "xor_key ?sz check" out] by (auto simp: ys_def)
  then have E: "Encrypt r q eff b new_buffer = Some (Inr (b', emit ys out))"
    by (simp only: Encrypt_transfer [OF eff] Let_def check_code_endian code' sum.case hdr put)
  let ?e = "buffer_of_bytes bytes"
  have st_len: "length ?st = (if eff = 7 then 1 else 0)"
    by simp
  have lb: "length bytes = length ?d + unat (correction eff)"
    using eff len(1) by (auto simp: bytes_def ys_def correction_def)
  then have "at ?e BIG (enc16 LITTLE ?len @ ?st @ enc32 LITTLE check @ ys)"
    using len(2) eff by (auto simp: at_def wfb_def unread_def buffer_of_bytes_def bytes_def correction_def)
  then obtain b2 where H: "decrypt_header eff ?e new_buffer = Inr (check, b2, out)" "at b2 LITTLE ys"
    using decrypt_header_at [of ?e BIG ?len ?st check ys eff new_buffer, OF _ st_len] unfolding out_def by blast
  have S: "buf_size ?e - correction eff = ?sz"
    using lb by (simp add: buf_size_def buffer_of_bytes_def)
  obtain b3 where T: "transfer (xor_key ?sz check) ?lim (b2, out) =
      Some (Inr (b3, emit (drop 4 ?d) out))"
    using transfer_mask [OF H(2), of ?lim "xor_key ?sz check"] lim by (auto simp: ys_def)
  let ?p = "emit (drop 4 ?d) out"
  let ?m = "check_position r ?sz"
  note m = check_position_range [of ?sz r, unfolded sz, OF len(1)]
  have nth: "?d ! 4 = drop 4 ?d ! 0" "?d ! 6 = drop 4 ?d ! 2" "?d ! unat ?m = drop 4 ?d ! (unat ?m - 4)"
    using len(1) m(1,2) by simp_all
  have V: "validate ?sz (correction eff) check ?p = Inr True"
    unfolding check_def nth(1,2)
    by (rule validate_own_code [of ?p "enc16 LITTLE ?len @ ?st @ enc32 LITTLE check" "drop 4 ?d",
          OF _ _ _ _ _ _ c(1) c(2) [unfolded nth(3)] c(3-6)])
      (use eff len sz m in \<open>auto simp: md correction_def nth(1,2) [symmetric] check_def [symmetric]\<close>)
  have "Decrypt eff ?e new_buffer = Some (Inr (True, b3, ?p))"
    using eff H(1) T V S by (subst Decrypt_transfer) (auto simp: Let_def)
  moreover have "m_out_pos ?p = 0"
    by (simp add: out_def new_buffer_def setLittleEndian_def)
  moreover have "m_data (emit ys out) = enc16 LITTLE (word_of_nat (length (?st @ enc32 LITTLE check @ ys))) @
      (?st @ enc32 LITTLE check @ ys)" "length (?st @ enc32 LITTLE check @ ys) = length ?d + (if eff = 7 then 1 else 0)"
    using len(1) eff by (auto simp: md ys_def of_nat_diff add.commute)
  ultimately show ?thesis
    using E unfolding bytes_def by (intro exI [of _ b'] exI conjI)
      (assumption | simp add: md)+
qed

text \<open>C22: What one side encrypts, the other side decrypts and accepts: the packet the receiver sees is
  the sender's with the length (and the start byte of version 7) in front and the check code in place
  of the first four bytes; whatever the random numbers are.\<close>

theorem decrypt_encrypt:
  assumes eff: "eff = 6 \<or> eff = 7" and pos: "m_out_pos b = 0"
    and len: "11 \<le> length (m_data b)" "length (m_data b) < 2 ^ 30"
  shows "\<exists>b' c check b'' p. Encrypt r q eff b new_buffer = Some (Inr (b', c)) \<and>
    Decrypt eff (buffer_of_bytes (m_data c)) new_buffer = Some (Inr (True, b'', p)) \<and>
    m_data p = enc16 LITTLE (word_of_nat (length (m_data b) + (if eff = 7 then 1 else 0))) @
      (if eff = 7 then [2] else []) @ enc32 LITTLE check @ drop 4 (m_data b)"
  using Encrypt_Decrypt [OF assms] by metis


theorem decrypt_encrypt_witness:
  "\<exists>b' c b'' p. Encrypt 5 9 7 (buffer_of_bytes [0, 0, 0, 0, 1, 2, 3, 4, 5, 6, 7]) new_buffer = Some (Inr (b', c)) \<and>
    Decrypt 7 (buffer_of_bytes (m_data c)) new_buffer = Some (Inr (True, b'', p)) \<and>
    drop 7 (m_data p) = [1, 2, 3, 4, 5, 6, 7]"
  using decrypt_encrypt [of 7 "buffer_of_bytes [0, 0, 0, 0, 1, 2, 3, 4, 5, 6, 7]" 5 9]
  by (auto simp: buffer_of_bytes_def)

section \<open>Packets that are too short\<close>

lemma decrypt_header_short:
  assumes eff: "eff = 6 \<or> eff = 7" and pos: "m_out_pos b = 0"
    and len: "2 \<le> length (m_data b)" "length (m_data b) < 4 + unat (correction eff)"
  shows "\<exists>b' out'. decrypt_header eff b out = Inr (0, b', out') \<and> m_data b' = m_data b \<and>
    length (m_data b) < unat (m_out_pos b') \<and> unat (m_out_pos b') < 8"
proof -
  let ?b = "setLittleEndian b"
  have c: "unat (correction eff) = (if eff = 7 then 3 else 2)"
    using eff by (auto simp: correction_def)
  obtain x0 x1 r where d: "m_data b = x0 # x1 # r"
    using len(1) by (cases "m_data b" rule: remdups_adj.cases) auto
  have u: "unread ?b = x0 # x1 # r" "wfb ?b"
    using d pos len(2) c by (auto simp: unread_def setLittleEndian_def wfb_def split: if_splits)
  then obtain l where g: "get_u16 ?b = Inr (l, advance 2 ?b)"
    by (auto simp: get_u16_unread)
  let ?b1 = "advance 2 ?b"
  have p: "m_out_pos ?b1 = 2" "m_data ?b1 = m_data b"
    using pos by (simp_all add: setLittleEndian_def)
  show ?thesis
  proof (cases "eff = 7")
    case True
    have g8: "\<exists>x b2. get_u8 ?b1 = Inr (x, b2) \<and> m_data b2 = m_data b \<and>
        m_out_pos b2 = (if length (m_data b) = 2 then 2 else 3)"
      using p len(1) by (auto simp: get_u8_def byte_at_def)
    then obtain x b2 where b2: "get_u8 ?b1 = Inr (x, b2)" "m_data b2 = m_data b"
        "m_out_pos b2 = (if length (m_data b) = 2 then 2 else 3)"
      by blast
    then have "get_u32 b2 = Inr (0, advance 4 b2)"
      using len True c by (auto simp: get_u32_def)
    then show ?thesis
      using g b2 True len c by (auto simp: decrypt_header_def split: if_splits)
  next
    case False
    then have "get_u32 ?b1 = Inr (0, advance 4 ?b1)"
      using len c p by (auto simp: get_u32_def)
    then show ?thesis
      using g False len c p by (auto simp: decrypt_header_def)
  qed
qed

lemma Decrypt_short:
  assumes eff: "eff = 6 \<or> eff = 7" and pos: "m_out_pos b = 0"
    and len: "2 \<le> length (m_data b)" "length (m_data b) < 4 + unat (correction eff)"
  shows "Decrypt eff b out = None"
proof -
  obtain b' out' where h: "decrypt_header eff b out = Inr (0, b', out')" "m_data b' = m_data b"
    "length (m_data b) < unat (m_out_pos b')" "unat (m_out_pos b') < 8"
    using decrypt_header_short [OF assms] by blast
  have s: "buf_size b - correction eff + 3 = word_of_nat (length (m_data b) + 3 - unat (correction eff))"
    using eff len by (auto simp: buf_size_def correction_def of_nat_diff)
  have "unat (buf_size b - correction eff + 3) div 4 \<le> 4"
    unfolding s using len(2) eff unat_of_nat_u32 [of "length (m_data b) + 3 - unat (correction eff)"]
    by (auto simp: correction_def)
  then have "crypt_loop key (unat (buf_size b - correction eff + 3) div 4) 4 (b', out') = Inr (b', out')" for key
    by (simp add: crypt_loop.simps)
  moreover have "copy_rest b' out' = None"
    using h by (intro copy_rest_stuck) auto
  ultimately have "transfer key (unat (buf_size b - correction eff + 3) div 4) (b', out') = None" for key
    by (simp add: transfer_def)
  then show ?thesis
    using eff h(1) by (subst Decrypt_transfer) (auto simp: Let_def)
qed


lemma join32_or:
  "join32 a b c d = push_bit 24 (ucast a) OR push_bit 16 (ucast b) OR push_bit 8 (ucast c) OR ucast d"
proof -
  have 1: "push_bit 24 (ucast a) + push_bit 16 (ucast b) = (push_bit 24 (ucast a) OR push_bit 16 (ucast b) :: u32)"
    by (rule disjunctive_add_eq_or) (rule bit_word_eqI, auto simp: bit_simps dest: bit_imp_le_length)
  have 2: "(push_bit 24 (ucast a) OR push_bit 16 (ucast b)) + push_bit 8 (ucast c) =
      (push_bit 24 (ucast a) OR push_bit 16 (ucast b) OR push_bit 8 (ucast c) :: u32)"
    by (subst disjunctive_add_eq_or)
      (rule bit_word_eqI, auto simp: bit_simps or.assoc dest: bit_imp_le_length)
  have 3: "(push_bit 24 (ucast a) OR push_bit 16 (ucast b) OR push_bit 8 (ucast c)) + ucast d =
      (push_bit 24 (ucast a) OR push_bit 16 (ucast b) OR push_bit 8 (ucast c) OR ucast d :: u32)"
    by (subst disjunctive_add_eq_or)
      (rule bit_word_eqI, auto simp: bit_simps or.assoc dest: bit_imp_le_length)
  show ?thesis
    by (simp add: join32_def 1 2 3)
qed

lemma enc32_join32: "enc32 LITTLE (join32 a b c d) = [d, c, b, a]"
proof -
  have "(ucast (ucast a :: u32) :: u8) = a"
    by (rule bit_word_eqI) (auto simp: bit_simps dest: bit_imp_le_length)
  then show ?thesis
    by (simp add: join32_or octets_of_code)
qed

lemma four_elements: "4 \<le> length l \<Longrightarrow> \<exists>a b c d m. l = a # b # c # d # m"
  by (auto simp: numeral_eq_Suc Suc_le_length_iff)

text \<open>Any packet that is long enough has the parts of the header.\<close>

lemma header_parts:
  assumes "4 + unat (correction eff) \<le> length d" and "eff = 6 \<or> eff = 7"
  shows "\<exists>len st check xs. d = enc16 LITTLE len @ st @ enc32 LITTLE check @ xs \<and>
    length st = (if eff = 7 then 1 else 0)"
proof -
  let ?k = "unat (correction eff) - 2"
  obtain x0 x1 r where d: "d = x0 # x1 # r" and r: "2 + unat (correction eff) \<le> length r"
    using assms by (cases d rule: remdups_adj.cases) (auto simp: correction_def)
  have "4 \<le> length (drop ?k r)"
    using r assms(2) by (auto simp: correction_def)
  then obtain y0 y1 y2 y3 xs where y: "drop ?k r = y0 # y1 # y2 # y3 # xs"
    using four_elements by blast
  have "d = enc16 LITTLE (join16 x1 x0) @ take ?k r @ enc32 LITTLE (join32 y3 y2 y1 y0) @ xs"
    unfolding enc32_join32 using d y append_take_drop_id [of ?k r] by simp
  moreover have "length (take ?k r) = (if eff = 7 then 1 else 0)"
    using assms(2) r by (auto simp: correction_def)
  ultimately show ?thesis by blast
qed

lemma Decrypt_long:
  assumes eff: "eff = 6 \<or> eff = 7" and pos: "m_out_pos b = 0"
    and len: "4 + unat (correction eff) \<le> length (m_data b)" "length (m_data b) < 2 ^ 30"
  shows "\<exists>b' p check. length (m_data p) = length (m_data b) \<and>
    Decrypt eff b new_buffer =
      Some (andThen (validate (buf_size b - correction eff) (correction eff) check p) (\<lambda>ok. Inr (ok, b', p)))"
proof -
  let ?sz = "buf_size b - correction eff"
  obtain l st check xs where d: "m_data b = enc16 LITTLE l @ st @ enc32 LITTLE check @ xs"
    and st: "length st = (if eff = 7 then 1 else 0)"
    using header_parts [OF len(1) eff] by blast
  have "at b (m_endn b) (enc16 LITTLE l @ st @ enc32 LITTLE check @ xs)"
    using d pos len(2) by (simp add: at_def wfb_def unread_def)
  from decrypt_header_at [OF this st] obtain b' where h: "decrypt_header eff b new_buffer = Inr (check, b',
      emit (enc16 LITTLE l @ st @ enc32 LITTLE check) (setLittleEndian new_buffer))" "at b' LITTLE xs"
    by blast
  define out where "out = emit (enc16 LITTLE l @ st @ enc32 LITTLE check) (setLittleEndian new_buffer)"
  have s: "?sz + 3 = word_of_nat (length xs + 7)"
    using d st eff by (auto simp: buf_size_def correction_def)
  have "unat (?sz + 3) div 4 \<le> 4 \<or> unat (?sz + 3) div 4 \<le> 1 + length xs"
  proof -
    have "unat (?sz + 3) = length xs + 7"
      unfolding s using len(2) d by (intro unat_of_nat_u32) simp
    then show ?thesis by linarith
  qed
  from transfer_mask [OF h(2) this, of "xor_key ?sz check" out]
  obtain b2 where t: "transfer (xor_key ?sz check) (unat (?sz + 3) div 4) (b', out) =
      Some (Inr (b2, emit (mask_bytes (xor_key ?sz check) (unat (?sz + 3) div 4) 4 xs) out))"
    by blast
  let ?p = "emit (mask_bytes (xor_key ?sz check) (unat (?sz + 3) div 4) 4 xs) out"
  have "Decrypt eff b new_buffer =
      Some (andThen (validate ?sz (correction eff) check ?p) (\<lambda>ok. Inr (ok, b2, ?p)))"
    using eff h(1) [folded out_def] t by (subst Decrypt_transfer) (auto simp: Let_def)
  moreover have "length (m_data ?p) = length (m_data b)"
    using d by (simp add: out_def new_buffer_def setLittleEndian_def)
  ultimately show ?thesis by blast
qed

lemma validate_range:
  assumes "cor = 2 \<or> cor = 3" and "unat sz + unat cor = length (m_data p)" and "length (m_data p) < 2 ^ 30"
  shows "validate sz cor check p = Inl OutOfRange \<longleftrightarrow> length (m_data p) < 7 + unat cor"
    and "7 + unat cor \<le> length (m_data p) \<Longrightarrow> \<exists>ok. validate sz cor check p = Inr ok"
proof -
  have n: "unat (4 + cor) = 4 + unat cor" "unat (6 + cor) = 6 + unat cor"
    using assms(1) by (auto simp: unat_plus_u32)
  have m: "unat (ucast w + cor) = unat w + unat cor" for w :: u8
    using assms(1) unat_u8_le [of w] by (auto simp: unat_plus_u32)
  have c: "\<exists>y. check_byte (unat w) = Inr y" if "w < 220" for w :: u8
    using that check_byte_ok [of "unat w"] by (simp add: word_less_nat_alt)
  show ok: "\<exists>ok. validate sz cor check p = Inr ok" if "7 + unat cor \<le> length (m_data p)"
  proof -
    have "\<exists>x. byte_at p (ucast w + cor) = Inr x" if "ucast w < sz" for w :: u8
      using that assms(2) m [of w] by (auto simp: byte_at_def word_less_nat_alt)
    moreover have "\<exists>x. byte_at p (4 + cor) = Inr x" "\<exists>x. byte_at p (6 + cor) = Inr x"
      using that n by (auto simp: byte_at_def)
    ultimately show ?thesis
      using c by (fastforce simp: validate_def Let_def not_le)
  qed
  show "validate sz cor check p = Inl OutOfRange \<longleftrightarrow> length (m_data p) < 7 + unat cor"
  proof (cases "7 + unat cor \<le> length (m_data p)")
    case True
    then show ?thesis using ok by auto
  next
    case False
    then have "byte_at p (6 + cor) = Inl OutOfRange"
      using n by (simp add: byte_at_def)
    moreover have "byte_at p (4 + cor) = Inl OutOfRange \<or> (\<exists>x. byte_at p (4 + cor) = Inr x)"
      by (simp add: byte_at_def)
    ultimately show ?thesis
      using False by (auto simp: validate_def)
  qed
qed

text \<open>C26: Which packets of a connected peer break the decryption (the receiver always hands over at
  least the two bytes of the length field): with fewer than four bytes behind the header the copy loop
  never ends; with four to six it reads behind the end of the data; from seven bytes on it returns.\<close>

theorem decrypt_short_packets:
  assumes "eff = 6 \<or> eff = 7" and "m_out_pos b = 0" and "2 \<le> length (m_data b)"
    and "length (m_data b) < 2 ^ 30"
  defines "h \<equiv> if eff = 7 then 3 else 2"
  shows "(Decrypt eff b new_buffer = None \<longleftrightarrow> length (m_data b) < h + 4) \<and>
    (Decrypt eff b new_buffer = Some (Inl OutOfRange) \<longleftrightarrow>
      h + 4 \<le> length (m_data b) \<and> length (m_data b) < h + 7) \<and>
    (h + 7 \<le> length (m_data b) \<longrightarrow>
      (\<exists>ok b' p. Decrypt eff b new_buffer = Some (Inr (ok, b', p)) \<and>
        length (m_data p) = length (m_data b)))"
proof -
  have h: "unat (correction eff) = h"
    using assms(1) by (auto simp: correction_def h_def)
  show ?thesis
  proof (cases "h + 4 \<le> length (m_data b)")
    case False
    then show ?thesis
      using Decrypt_short [of eff b new_buffer] assms(1-3) h by simp
  next
    case True
    then obtain b' p check where D: "length (m_data p) = length (m_data b)" "Decrypt eff b new_buffer =
        Some (andThen (validate (buf_size b - correction eff) (correction eff) check p) (\<lambda>ok. Inr (ok, b', p)))"
      using Decrypt_long [of eff b] assms(1,2,4) h by auto
    have c: "correction eff = 2 \<or> correction eff = 3"
      by (simp add: correction_def)
    have "unat (buf_size b - correction eff) = length (m_data b) - h"
    proof -
      have "buf_size b - correction eff = word_of_nat (length (m_data b) - h)"
        using True assms(1) by (auto simp: buf_size_def of_nat_diff correction_def h_def)
      then show ?thesis
        using assms(4) by (simp add: unat_of_nat_u32)
    qed
    then have s: "unat (buf_size b - correction eff) + unat (correction eff) = length (m_data p)"
      using D(1) True h by simp
    note v = validate_range [OF c s, of check]
    show ?thesis
    proof (cases "h + 7 \<le> length (m_data b)")
      case True
      then obtain ok where "validate (buf_size b - correction eff) (correction eff) check p = Inr ok"
        using v(2) D(1) assms(4) h by auto
      then show ?thesis
        using D True by simp
    next
      case False
      then have "validate (buf_size b - correction eff) (correction eff) check p = Inl OutOfRange"
        using v(1) D(1) assms(4) h by simp
      then show ?thesis
        using D True False by simp
    qed
  qed
qed

theorem decrypt_short_packets_witness:
  "Decrypt 7 (buffer_of_bytes [0, 0]) new_buffer = None"
  using decrypt_short_packets [of 7 "buffer_of_bytes [0, 0]"] by (simp add: buffer_of_bytes_def)

end
