(* ===== verification/Events.thy ===== *)
theory Events
  imports ContactTree
begin

text \<open>
  The message events the library and its client exchange: \<^verbatim>\<open>libicq2000/events.h\<close> and
  \<^verbatim>\<open>src/events.cpp\<close>. The base classes \<^verbatim>\<open>Event\<close> and \<^verbatim>\<open>MessageEvent\<close> are the record \<open>message_event\<close>, the
  part an \<^verbatim>\<open>ICQMessageEvent\<close> adds is \<open>icq_part\<close> (\<open>None\<close> for the other classes), and each class is a
  constructor of \<open>event_body\<close>. A member no constructor sets is \<open>None\<close> until it is assigned.
\<close>

datatype delivery_failure =
    Failed
  | Failed_NotConnected
  | Failed_ClientNotCapable
  | Failed_Denied
  | Failed_Ignored
  | Failed_Occupied
  | Failed_DND
  | Failed_SMTP

datatype message_type =
    Normal | URL | SMS_Type | SMS_Receipt_Type | AuthReq | AuthAck | AwayMessage | EmailEx | UserAdd
  | Email | WebPager | FileTransfer | Contacts

record icq_part =
  m_urgent :: bool
  m_tocontactlist :: bool
  m_offline :: bool
  m_away_message :: string

record sms_event =
  se_message :: string
  se_source :: string
  se_senders_network :: string
  se_smtp_from :: string
  se_smtp_to :: string
  se_smtp_subject :: string
  se_rcpt :: "bool option"

record receipt_event =
  re_message :: string
  re_message_id :: string
  re_submission_time :: string
  re_delivery_time :: string
  re_delivered :: bool

datatype ft_state =
    FT_NOT_CONNECTED | FT_SEND | FT_RECEIVE | FT_WAIT_RESPONS | FT_ACCEPTED | FT_REJECTED | FT_ERROR
  | FT_COMPLETE | FT_CANCELLED | FT_TIMEOUT | FT_CLOSE

record ft_event =
  fe_state :: ft_state
  fe_error :: string
  fe_message :: string
  fe_description :: string
  fe_refusal_message :: string
  fe_save_path :: string
  fe_files :: "string list"
  fe_size :: "u32 option"
  fe_speed :: u32
  fe_totsize :: u32
  fe_totpos :: u32
  fe_pos :: u32
  fe_totfiles :: "u32 option"
  fe_currfile :: "u32 option"
  fe_port :: "u16 option"
  fe_seqnum :: u16

datatype event_body =
    NormalMessageEvent string bool u32 u32
  | URLMessageEvent string string
  | SMSMessageEvent sms_event
  | SMSReceiptEvent receipt_event
  | AwayMessageEvent
  | AuthReqEvent string
  | AuthAckEvent string bool
  | EmailExEvent string string string
  | WebPagerEvent string string string
  | UserAddEvent
  | EmailMessageEvent string
  | FileTransferEvent ft_event
  | ContactMessageEvent "(u32 \<times> string) list"

record message_event =
  ev_contact :: contact_ref
  ev_time :: u32
  m_finished :: "bool option"
  m_delivered :: "bool option"
  m_isdirect :: "bool option"
  m_failure_reason :: "delivery_failure option"
  icq :: "icq_part option"
  ev_body :: event_body

definition ev_type :: "event_body \<Rightarrow> message_type" where
  "ev_type e =
     (case e of
        NormalMessageEvent _ _ _ _ \<Rightarrow> Normal
      | URLMessageEvent _ _ \<Rightarrow> URL
      | SMSMessageEvent _ \<Rightarrow> SMS_Type
      | SMSReceiptEvent _ \<Rightarrow> SMS_Receipt_Type
      | AwayMessageEvent \<Rightarrow> AwayMessage
      | AuthReqEvent _ \<Rightarrow> AuthReq
      | AuthAckEvent _ _ \<Rightarrow> AuthAck
      | EmailExEvent _ _ _ \<Rightarrow> EmailEx
      | WebPagerEvent _ _ _ \<Rightarrow> WebPager
      | UserAddEvent \<Rightarrow> UserAdd
      | EmailMessageEvent _ \<Rightarrow> Email
      | FileTransferEvent _ \<Rightarrow> FileTransfer
      | ContactMessageEvent _ \<Rightarrow> Contacts)"

text \<open>The classes that derive from \<^verbatim>\<open>ICQMessageEvent\<close>.\<close>

definition is_icq :: "event_body \<Rightarrow> bool" where
  "is_icq e =
     (case e of
        SMSMessageEvent _ \<Rightarrow> False
      | SMSReceiptEvent _ \<Rightarrow> False
      | EmailExEvent _ _ _ \<Rightarrow> False
      | WebPagerEvent _ _ _ \<Rightarrow> False
      | EmailMessageEvent _ \<Rightarrow> False
      | _ \<Rightarrow> True)"

definition new_icq_part :: icq_part where
  "new_icq_part = \<lparr>m_urgent = False, m_tocontactlist = False, m_offline = False, m_away_message = ''''\<rparr>"

text \<open>The constructors; \<open>now\<close> is \<^verbatim>\<open>time(NULL)\<close>.\<close>

definition new_event :: "u32 \<Rightarrow> contact_ref \<Rightarrow> event_body \<Rightarrow> message_event" where
  "new_event now c e =
     \<lparr>ev_contact = c, ev_time = now, m_finished = None, m_delivered = None, m_isdirect = None,
      m_failure_reason = None, icq = (if is_icq e then Some new_icq_part else None), ev_body = e\<rparr>"

definition new_normal_event :: "u32 \<Rightarrow> contact_ref \<Rightarrow> string \<Rightarrow> bool \<Rightarrow> message_event" where
  "new_normal_event now c msg multi =
     (new_event now c (NormalMessageEvent msg multi 0x00000000 0x00ffffff))\<lparr>m_isdirect := Some False\<rparr>"

definition new_coloured_event :: "u32 \<Rightarrow> contact_ref \<Rightarrow> string \<Rightarrow> u32 \<Rightarrow> u32 \<Rightarrow> message_event" where
  "new_coloured_event now c msg fg bg =
     (new_event now c (NormalMessageEvent msg False fg bg))\<lparr>m_isdirect := Some True\<rparr>"

definition upd_icq :: "(icq_part \<Rightarrow> icq_part) \<Rightarrow> message_event \<Rightarrow> message_event" where
  "upd_icq f ev = ev\<lparr>icq := map_option f (icq ev)\<rparr>"

text \<open>The constructors with a time are used for messages that were kept by the server.\<close>

definition offline_event :: "u32 \<Rightarrow> message_event \<Rightarrow> message_event" where
  "offline_event t ev = (upd_icq (\<lambda>i. i\<lparr>m_offline := True\<rparr>) ev)\<lparr>ev_time := t\<rparr>"

definition new_ft_event :: "string \<Rightarrow> string \<Rightarrow> u32 \<Rightarrow> u16 \<Rightarrow> ft_event" where
  "new_ft_event msg desc sz seqnum =
     \<lparr>fe_state = FT_NOT_CONNECTED, fe_error = '''', fe_message = msg, fe_description = desc,
      fe_refusal_message = '''', fe_save_path = '''', fe_files = [], fe_size = None, fe_speed = 100,
      fe_totsize = sz, fe_totpos = 0, fe_pos = 0, fe_totfiles = None, fe_currfile = None,
      fe_port = None, fe_seqnum = seqnum\<rparr>"

definition addFile :: "string \<Rightarrow> ft_event \<Rightarrow> ft_event" where
  "addFile f fe = fe\<lparr>fe_files := fe_files fe @ [f]\<rparr>"

definition getFile :: "ft_event \<Rightarrow> string \<times> ft_event" where
  "getFile fe =
     (case fe_files fe of [] \<Rightarrow> ('''', fe) | f # fs \<Rightarrow> (f, fe\<lparr>fe_files := fs\<rparr>))"

definition getFilesInQueue :: "ft_event \<Rightarrow> u32" where
  "getFilesInQueue fe = word_of_nat (length (fe_files fe))"

text \<open>Reading a member that was never set.\<close>

definition the_set :: "'a option \<Rightarrow> 'a result" where
  "the_set x = (case x of None \<Rightarrow> Inl Uninitialised | Some y \<Rightarrow> Inr y)"

lemma the_set_simps [simp]: "the_set (Some x) = Inr x" "the_set None = Inl Uninitialised"
  by (simp_all add: the_set_def)

definition isDelivered :: "message_event \<Rightarrow> bool result" where
  "isDelivered ev = the_set (m_delivered ev)"

definition getDeliveryFailureReason :: "message_event \<Rightarrow> delivery_failure result" where
  "getDeliveryFailureReason ev = the_set (m_failure_reason ev)"

text \<open>The files of a transfer leave in the order in which they were queued.\<close>

lemma getFile_addFile: "fe_files fe = [] \<Longrightarrow> getFile (addFile f fe) = (f, fe)"
  by (cases fe) (simp add: getFile_def addFile_def)

lemma addFile_queue:
  "fe_files fe = g # gs \<Longrightarrow> getFile (addFile f fe) = (g, addFile f (snd (getFile fe)))"
  by (simp add: getFile_def addFile_def)

lemma icq_new_event [simp]: "(icq (new_event now c e) \<noteq> None) = is_icq e"
  by (simp add: new_event_def)

end
