(* ===== verification/MessageHandler.thy ===== *)
theory MessageHandler
  imports Events ICQSubType Translator
begin

text \<open>
  The conversion between messages on the wire and events, and the handling of both:
  \<^verbatim>\<open>src/MessageHandler.h\<close> and \<^verbatim>\<open>src/MessageHandler.cpp\<close>. The handler's state holds the contacts and the
  references to the user's own contact and to the contact list. What the client's callbacks do to an
  event is a parameter, as are the two functions of the translator (its contact argument is \<open>None\<close>
  while the reference is null) and the time. Signals are listed in the order they are emitted; log
  messages are left out.
\<close>

definition AcceptStatus_Online :: u16 where "AcceptStatus_Online = 0x0000"
definition AcceptStatus_Denied :: u16 where "AcceptStatus_Denied = 0x0001"
definition AcceptStatus_Away :: u16 where "AcceptStatus_Away = 0x0004"
definition AcceptStatus_Occupied :: u16 where "AcceptStatus_Occupied = 0x0009"
definition AcceptStatus_DND :: u16 where "AcceptStatus_DND = 0x000a"
definition AcceptStatus_Occ_Accept :: u16 where "AcceptStatus_Occ_Accept = 0x000c"
definition AcceptStatus_NA :: u16 where "AcceptStatus_NA = 0x000e"

lemmas accept_statuses = AcceptStatus_Online_def AcceptStatus_Denied_def AcceptStatus_Away_def
  AcceptStatus_Occupied_def AcceptStatus_DND_def AcceptStatus_Occ_Accept_def AcceptStatus_NA_def

record handler =
  mh_store :: contact_store
  mh_next :: contact_ref
  mh_imag :: u32
  mh_self :: contact_ref
  mh_tree :: contact_tree

datatype handler_signal =
    Messaged message_event
  | WantAutoResp message_event
  | MessageAck message_event
  | FiletransferIncoming message_event
  | FiletransferUpdate message_event
  | ContactSignal contact_ref contact_signal

type_synonym translation = "encoding \<Rightarrow> contact_ref option \<Rightarrow> string \<Rightarrow> string"

section \<open>Looking contacts up\<close>

definition alloc :: "contact \<Rightarrow> handler \<Rightarrow> contact_ref \<times> handler" where
  "alloc c s =
     (mh_next s, s\<lparr>mh_store := (mh_store s)(mh_next s := c), mh_next := Suc (mh_next s)\<rparr>)"

definition lookupUIN :: "bool \<Rightarrow> u32 \<Rightarrow> handler \<Rightarrow> contact_ref \<times> handler" where
  "lookupUIN indet uin s =
     (case (if tree_exists uin (mh_tree s) then tree_lookup_uin uin (mh_tree s) else None) of
        Some r \<Rightarrow> (r, s)
      | None \<Rightarrow> alloc (uin_contact indet uin) s)"

definition lookupMobile :: "bool \<Rightarrow> string \<Rightarrow> handler \<Rightarrow> contact_ref \<times> handler" where
  "lookupMobile indet m s =
     (case (if tree_mobile_exists (mh_store s) m (mh_tree s)
            then tree_lookup_mobile (mh_store s) m (mh_tree s) else None) of
        Some r \<Rightarrow> (r, s)
      | None \<Rightarrow>
          (case alias_contact indet m (mh_imag s) of
             (c, imag) \<Rightarrow> alloc (fst (setMobileNo m c)) (s\<lparr>mh_imag := imag\<rparr>)))"

definition lookupEmail :: "bool \<Rightarrow> string \<Rightarrow> string \<Rightarrow> handler \<Rightarrow> contact_ref \<times> handler" where
  "lookupEmail indet em al s =
     (case (if tree_email_exists (mh_store s) em (mh_tree s)
            then tree_lookup_email (mh_store s) em (mh_tree s) else None) of
        Some r \<Rightarrow> (r, s)
      | None \<Rightarrow>
          (case alias_contact indet al (mh_imag s) of
             (c, imag) \<Rightarrow> alloc (fst (setEmail em c)) (s\<lparr>mh_imag := imag\<rparr>)))"

text \<open>A setter called through a reference.\<close>

definition upd_contact ::
  "contact_ref \<Rightarrow> changed \<Rightarrow> handler \<Rightarrow> handler \<times> handler_signal list" where
  "upd_contact r ch s =
     (s\<lparr>mh_store := (mh_store s)(r := fst ch)\<rparr>, map (ContactSignal r) (snd ch))"

section \<open>From the wire to an event\<close>

definition UINICQSubTypeToEvent ::
  "translation \<Rightarrow> u32 \<Rightarrow> uin_part \<Rightarrow> uin_body \<Rightarrow> contact_ref \<Rightarrow> handler \<Rightarrow>
    message_event option \<times> handler \<times> handler_signal list" where
  "UINICQSubTypeToEvent s2c now u ub r s =
     (let tr = s2c ENCODING_CONTACT_LOCALE (Some r);
          (e, s, sigs) =
            (case ub of
               NormalBody msg multi fg bg \<Rightarrow> (Some (new_normal_event now r (tr msg) multi), s, [])
             | URLBody msg url \<Rightarrow> (Some (new_event now r (URLMessageEvent (tr msg) (tr url))), s, [])
             | AuthReqBody p msg \<Rightarrow> (Some (new_event now r (AuthReqEvent (tr msg))), s, [])
             | AuthRejBody msg \<Rightarrow> (Some (new_event now r (AuthAckEvent (tr msg) False)), s, [])
             | AuthAccBody \<Rightarrow>
                 (case upd_contact r (setAuthAwait False (mh_store s r)) s of
                    (s, sigs) \<Rightarrow> (Some (new_event now r (AuthAckEvent '''' True)), s, sigs))
             | AwayMsgBody t \<Rightarrow> (Some (new_event now r AwayMessageEvent), s, [])
             | UserAddBody p \<Rightarrow> (Some (new_event now r UserAddEvent), s, [])
             | ContactBody cs \<Rightarrow> (Some (new_event now r (ContactMessageEvent cs)), s, [])
             | FTBody f \<Rightarrow> (None, s, []))
      in (map_option (upd_icq (\<lambda>i. i\<lparr>m_urgent := u_urgent u, m_tocontactlist := u_tocontactlist u\<rparr>)) e,
          s, sigs))"

text \<open>
  The result is the event (\<open>None\<close> for the null pointer), whether the message was an advanced one,
  and what became of the state. The contact is that of the event.
\<close>

definition ICQSubTypeToEvent ::
  "translation \<Rightarrow> bool \<Rightarrow> u32 \<Rightarrow> subtype_body \<Rightarrow> handler \<Rightarrow>
    message_event option \<times> bool \<times> handler \<times> handler_signal list" where
  "ICQSubTypeToEvent s2c indet now st s =
     (case st of
        UINSubType u ub \<Rightarrow>
          (case lookupUIN indet (u_source u) s of (r, s) \<Rightarrow>
          (case UINICQSubTypeToEvent s2c now u ub r s of (e, s, sigs) \<Rightarrow> (e, u_advanced u, s, sigs)))
      | EmailExSubType p \<Rightarrow>
          (let em = s2c ENCODING_ISO_8859_1 None (pg_email p) in
          (case lookupEmail indet em (pg_sender p) s of (r, s) \<Rightarrow>
           (Some (new_event now r (EmailExEvent em
              (s2c ENCODING_ISO_8859_1 (Some r) (pg_sender p))
              (s2c ENCODING_ISO_8859_1 (Some r) (pg_message p)))), False, s, [])))
      | WebPagerSubType p \<Rightarrow>
          (let em = s2c ENCODING_ISO_8859_1 None (pg_email p) in
          (case lookupEmail indet em (pg_sender p) s of (r, s) \<Rightarrow>
           (Some (new_event now r (WebPagerEvent em
              (s2c ENCODING_ISO_8859_1 (Some r) (pg_email p))
              (s2c ENCODING_ISO_8859_1 (Some r) (pg_message p)))), False, s, [])))
      | SMSSubType m \<Rightarrow>
          (case sms_typ m of
             SMS \<Rightarrow>
               (case lookupMobile indet (sms_sender m) s of (r, s) \<Rightarrow>
                (Some (new_event now r (SMSMessageEvent
                   \<lparr>se_message = sms_message m, se_source = sms_source m,
                    se_senders_network = sms_senders_network m, se_smtp_from = '''',
                    se_smtp_to = '''', se_smtp_subject = '''', se_rcpt = None\<rparr>)), False, s, []))
           | SMS_Receipt \<Rightarrow>
               (case lookupMobile indet (sms_destination m) s of (r, s) \<Rightarrow>
                (Some (new_event now r (SMSReceiptEvent
                   \<lparr>re_message = sms_message m, re_message_id = sms_message_id m,
                    re_submission_time = sms_submission_time m,
                    re_delivery_time = sms_delivery_time m, re_delivered = sms_delivered m\<rparr>)),
                 False, s, []))))"

section \<open>From an event to the wire\<close>

definition person_of_contact :: "(string \<Rightarrow> string) \<Rightarrow> contact \<Rightarrow> person" where
  "person_of_contact tr c =
     \<lparr>p_alias = tr (getAlias c), p_firstname = tr (getFirstName c), p_lastname = tr (getLastName c),
      p_email = tr (getEmail c), p_auth = m_authreq c\<rparr>"

text \<open>\<open>indet\<close> is the value \<^verbatim>\<open>m_multi\<close> happens to have, which the constructor used here does not set.\<close>

definition EventToUINICQSubType ::
  "translation \<Rightarrow> bool \<Rightarrow> message_event \<Rightarrow> handler \<Rightarrow> (uin_part \<times> uin_body) option" where
  "EventToUINICQSubType c2s indet ev s =
     (let c = ev_contact ev; tr = c2s ENCODING_CONTACT_LOCALE (Some c); self = mh_store s (mh_self s);
          ub =
            (case ev_body ev of
               NormalMessageEvent msg multi fg bg \<Rightarrow>
                 Some (NormalBody (tr msg) indet 0x00000000 0x00ffffff)
             | URLMessageEvent msg url \<Rightarrow> Some (URLBody (tr msg) (tr url))
             | FileTransferEvent f \<Rightarrow>
                 Some (FTBody \<lparr>ft_message = tr (fe_message f), ft_description = tr (fe_description f),
                               ft_size = fe_totsize f, ft_port = 0, ft_revport = 0\<rparr>)
             | AwayMessageEvent \<Rightarrow> Some (AwayMsgSubType_of_status (m_status (mh_store s c)))
             | AuthReqEvent msg \<Rightarrow> Some (AuthReqBody (person_of_contact tr self) (tr msg))
             | AuthAckEvent msg granted \<Rightarrow>
                 Some (if granted then AuthAccBody else AuthRejBody (tr msg))
             | UserAddEvent \<Rightarrow> Some (UserAddBody (person_of_contact tr self))
             | ContactMessageEvent cs \<Rightarrow> Some (ContactBody cs)
             | _ \<Rightarrow> None)
      in map_option (\<lambda>ub.
           (case icq ev of
              None \<Rightarrow> new_uin_part
            | Some i \<Rightarrow> new_uin_part\<lparr>u_urgent := m_urgent i, u_tocontactlist := m_tocontactlist i\<rparr>, ub)) ub)"

definition handleOutgoing ::
  "translation \<Rightarrow> bool \<Rightarrow> message_event \<Rightarrow> handler \<Rightarrow> (uin_part \<times> uin_body) result" where
  "handleOutgoing c2s indet ev s =
     (case EventToUINICQSubType c2s indet ev s of
        None \<Rightarrow> Inl NullPointer
      | Some (u, ub) \<Rightarrow>
          (let self = mh_store s (mh_self s) in
           Inr (u\<lparr>u_status := MapStatusToICQStatus (m_status self) (m_invisible self),
                  u_destination := m_uin (mh_store s (ev_contact ev)), u_source := m_uin self\<rparr>, ub)))"

section \<open>Incoming messages\<close>

text \<open>The accept-status of an acknowledgement.\<close>

definition accept_status :: "status \<Rightarrow> u16" where
  "accept_status st =
     (case st of
        STATUS_ONLINE \<Rightarrow> AcceptStatus_Online
      | STATUS_AWAY \<Rightarrow> AcceptStatus_Away
      | STATUS_NA \<Rightarrow> AcceptStatus_NA
      | STATUS_OCCUPIED \<Rightarrow> AcceptStatus_Occ_Accept
      | _ \<Rightarrow> AcceptStatus_Online)"

definition refuse_status :: "delivery_failure \<Rightarrow> u16 option" where
  "refuse_status r =
     (case r of
        Failed_Denied \<Rightarrow> Some AcceptStatus_Denied
      | Failed_Occupied \<Rightarrow> Some AcceptStatus_Occupied
      | Failed_DND \<Rightarrow> Some AcceptStatus_DND
      | Failed_Ignored \<Rightarrow> None
      | _ \<Rightarrow> Some AcceptStatus_Denied)"

text \<open>
  What the client's callbacks do with an event they are shown: \<open>on_message\<close> for the signal
  \<^verbatim>\<open>messaged\<close>, \<open>on_auto\<close> for \<^verbatim>\<open>want_auto_resp\<close>.
\<close>

definition ack_of_event :: "status \<Rightarrow> message_event \<Rightarrow> uin_part \<Rightarrow> (bool \<times> uin_part) result" where
  "ack_of_event st ev u =
     andThen (isDelivered ev) (\<lambda>d.
     if d then Inr (True, u\<lparr>u_status := accept_status st\<rparr>)
     else
       andThen (getDeliveryFailureReason ev) (\<lambda>r.
       Inr (case refuse_status r of
              None \<Rightarrow> (False, u)
            | Some a \<Rightarrow> (True, u\<lparr>u_status := a\<rparr>))))"

definition auto_response ::
  "translation \<Rightarrow> (message_event \<Rightarrow> message_event) \<Rightarrow> status \<Rightarrow> contact_ref \<Rightarrow> message_event \<Rightarrow> uin_part \<Rightarrow>
    (message_event \<times> uin_part \<times> handler_signal list) result" where
  "auto_response c2s on_auto st c ev u =
     (if st \<noteq> STATUS_ONLINE then
        (let ev' = on_auto ev in
         case icq ev' of
           None \<Rightarrow> Inl NullPointer
         | Some i \<Rightarrow>
             Inr (ev', u\<lparr>u_away_message := c2s ENCODING_CONTACT_LOCALE (Some c) (m_away_message i)\<rparr>,
                  [WantAutoResp ev]))
      else Inr (ev, u\<lparr>u_away_message := ''''\<rparr>, []))"

definition handleIncoming ::
  "translation \<Rightarrow> translation \<Rightarrow> (message_event \<Rightarrow> message_event) \<Rightarrow> (message_event \<Rightarrow> message_event) \<Rightarrow>
    bool \<Rightarrow> u32 \<Rightarrow> u32 \<Rightarrow> subtype_body \<Rightarrow> handler \<Rightarrow>
    (bool \<times> subtype_body \<times> handler \<times> handler_signal list) result" where
  "handleIncoming c2s s2c on_message on_auto indet now t ist s =
     (if getType ist = MSG_Type_FT then Inr (False, ist, s, [])
      else
        (let st = m_status (mh_store s (mh_self s)) in
         case ICQSubTypeToEvent s2c indet now ist s of
           (None, _, _, _) \<Rightarrow> Inl NullPointer
         | (Some ev, advanced, s, sigs1) \<Rightarrow>
             andThen (case ist of
                 UINSubType u ub \<Rightarrow>
                   if advanced then
                     andThen (setStatus now (MapICQStatusToStatus (u_status u))
                       (MapICQStatusToInvisible (u_status u)) (mh_store s (ev_contact ev))) (\<lambda>ch.
                     Inr (ev, upd_contact (ev_contact ev) ch s))
                   else
                     Inr (if st = STATUS_OCCUPIED \<or> st = STATUS_DND
                          then upd_icq (\<lambda>i. i\<lparr>m_tocontactlist := True\<rparr>) ev else ev, s, [])
               | _ \<Rightarrow> Inr (ev, s, [])) (\<lambda>(ev, s, sigs2).
             let t = (if t = 0 then ev_time ev else t);
                 ev = ev\<lparr>ev_time := t, m_delivered := Some True\<rparr>;
                 c = ev_contact ev;
                 (ev, s, sigs3) =
                   (if ev_body ev \<noteq> AwayMessageEvent then
                      (case upd_contact c (set_last_message_time t (mh_store s c)) s of
                         (s, sigs) \<Rightarrow> (on_message ev, s, Messaged ev # sigs))
                    else
                      (case upd_contact c (set_last_away_msg_check_time t (mh_store s c)) s of
                         (s, sigs) \<Rightarrow> (ev, s, sigs)))
             in case ist of
                  UINSubType u ub \<Rightarrow>
                    if advanced then
                      andThen (auto_response c2s on_auto st c ev u) (\<lambda>(ev, u, sigs4).
                      andThen (ack_of_event st ev (u\<lparr>u_ack := True\<rparr>)) (\<lambda>(ack, u).
                      Inr (ack, UINSubType u ub, s, sigs1 @ sigs2 @ sigs3 @ sigs4)))
                    else Inr (False, ist, s, sigs1 @ sigs2 @ sigs3)
                | _ \<Rightarrow> Inr (False, ist, s, sigs1 @ sigs2 @ sigs3))))"

definition handleIncomingFT ::
  "bool \<Rightarrow> u32 \<Rightarrow> uin_part \<Rightarrow> ft_part \<Rightarrow> u16 \<Rightarrow> bool \<Rightarrow> handler \<Rightarrow>
    message_event \<times> handler \<times> handler_signal list" where
  "handleIncomingFT indet now u f seqnum direct s =
     (case lookupUIN indet (u_source u) s of (r, s) \<Rightarrow>
      (let ev = (new_event now r (FileTransferEvent
                   (new_ft_event (ft_message f) (ft_description f) (ft_size f) seqnum)))
                  \<lparr>m_delivered := Some True, m_isdirect := Some direct, m_finished := Some True\<rparr>
       in (ev, s, [FiletransferIncoming ev])))"

section \<open>Acknowledgements\<close>

definition handleIncomingFTACK ::
  "message_event \<Rightarrow> uin_part \<Rightarrow> ft_part \<Rightarrow> message_event \<times> handler_signal list" where
  "handleIncomingFTACK ev u f =
     (case ev_body ev of
        FileTransferEvent fe \<Rightarrow>
          (let fe = fe\<lparr>fe_state := (if u_status u = AcceptStatus_Online \<and> (ft_port f \<noteq> 0 \<or> getRevPort f \<noteq> 0)
                                    then FT_ACCEPTED else FT_REJECTED),
                       fe_refusal_message := ft_message f, fe_port := Some (ft_port f)\<rparr>;
               fe = (if ft_port f = 0 then fe\<lparr>fe_port := Some (getRevPort f)\<rparr> else fe);
               ev = ev\<lparr>ev_body := FileTransferEvent fe\<rparr>
           in (ev, [FiletransferUpdate ev]))
      | _ \<Rightarrow> (ev, []))"

definition set_delivery :: "bool \<Rightarrow> delivery_failure option \<Rightarrow> message_event \<Rightarrow> message_event" where
  "set_delivery d r ev =
     (case r of
        None \<Rightarrow> ev\<lparr>m_delivered := Some d\<rparr>
      | Some r \<Rightarrow> ev\<lparr>m_delivered := Some d, m_failure_reason := Some r\<rparr>)"

definition delivery_of_status :: "u16 \<Rightarrow> message_event \<Rightarrow> message_event" where
  "delivery_of_status a ev =
     (if a = AcceptStatus_Online then set_delivery True None ev
      else if a = AcceptStatus_Denied then set_delivery False (Some Failed_Denied) ev
      else if a = AcceptStatus_Away then set_delivery True None ev
      else if a = AcceptStatus_Occupied then set_delivery False (Some Failed_Occupied) ev
      else if a = AcceptStatus_DND then set_delivery False (Some Failed_DND) ev
      else if a = AcceptStatus_Occ_Accept then set_delivery True None ev
      else if a = AcceptStatus_NA then set_delivery True None ev
      else ev)"

text \<open>A file transfer is acknowledged through a cast of the message to \<^verbatim>\<open>FTICQSubType\<close>.\<close>

definition handleIncomingACK ::
  "translation \<Rightarrow> message_event \<Rightarrow> uin_part \<Rightarrow> uin_body \<Rightarrow> (message_event \<times> handler_signal list) result" where
  "handleIncomingACK s2c ev u ub =
     (case icq ev of
        None \<Rightarrow> Inr (ev, [])
      | Some i \<Rightarrow>
          (let ev = ev\<lparr>icq := Some (i\<lparr>m_away_message :=
                         s2c ENCODING_CONTACT_LOCALE (Some (ev_contact ev)) (u_away_message u)\<rparr>),
                       m_finished := Some True\<rparr>;
               ev = delivery_of_status (u_status u) ev
           in if ev_type (ev_body ev) = AwayMessage then
                (let ev = ev\<lparr>m_delivered := Some True\<rparr> in Inr (ev, [MessageAck ev]))
              else if ev_type (ev_body ev) = FileTransfer then
                (case ub of
                   FTBody f \<Rightarrow>
                     (case handleIncomingFTACK ev u f of (ev, sigs) \<Rightarrow>
                      (let ev = ev\<lparr>m_delivered := Some True\<rparr> in Inr (ev, sigs @ [MessageAck ev])))
                 | _ \<Rightarrow> Inl BadCast)
              else Inr (ev, [MessageAck ev])))"

definition handleUpdateFT :: "message_event \<Rightarrow> handler_signal list" where
  "handleUpdateFT ev = [FiletransferUpdate ev]"

definition handleIncomingFTCancel :: "message_event \<Rightarrow> message_event \<times> handler_signal list" where
  "handleIncomingFTCancel ev =
     (case ev_body ev of
        FileTransferEvent fe \<Rightarrow>
          (let ev = ev\<lparr>ev_body := FileTransferEvent (fe\<lparr>fe_state := FT_CANCELLED\<rparr>)\<rparr>
           in (ev, [FiletransferUpdate ev]))
      | _ \<Rightarrow> (ev, []))"

section \<open>Delivery of a message\<close>

text \<open>The event the receiver is shown for an event that was sent.\<close>

fun delivered_body :: "event_body \<Rightarrow> event_body" where
  "delivered_body (NormalMessageEvent msg multi fg bg) = NormalMessageEvent msg False 0x00000000 0x00ffffff"
| "delivered_body (AuthAckEvent msg granted) = AuthAckEvent (if granted then '''' else msg) granted"
| "delivered_body e = e"

definition wire_message :: "uin_part \<Rightarrow> uin_body \<Rightarrow> icq_subtype" where
  "wire_message u ub = \<lparr>m_flags8 = 0, body = UINSubType (u\<lparr>u_advanced := True\<rparr>) ub\<rparr>"

fun single_party :: "uin_body \<Rightarrow> uin_body" where
  "single_party (NormalBody msg multi fg bg) = NormalBody msg False fg bg"
| "single_party ub = ub"

text \<open>Whether a message is marked as one to many is not sent.\<close>

lemma Output_single_party: "ICQSubType_Output (wire_message u (single_party ub)) b = ICQSubType_Output (wire_message u ub) b"
  by (cases ub) (simp_all add: wire_message_def ICQSubType_Output_emit getType_def getFlags_def enc_uin_def)

lemma sendable_single_party:
  "body_ok ub \<Longrightarrow> \<not> u_ack u \<Longrightarrow> sendable (wire_message u (single_party ub))"
  by (cases ub) (simp_all add: sendable_def wire_message_def uin_ok_def type_ok_def)

lemma handleOutgoing_parts:
  assumes "handleOutgoing c2s indet ev s = Inr (u, ub)" and "icq ev = Some i"
  shows "u_urgent u = m_urgent i" and "u_tocontactlist u = m_tocontactlist i" and "\<not> u_ack u"
    and "u_status u = MapStatusToICQStatus (m_status (mh_store s (mh_self s))) (m_invisible (mh_store s (mh_self s)))"
  using assms by (auto simp: handleOutgoing_def EventToUINICQSubType_def Let_def new_uin_part_def
      split: option.splits)

lemma event_of_outgoing:
  assumes out: "handleOutgoing crlf_client_to_server indet ev s = Inr (u, ub)"
    and ev: "is_icq (ev_body ev)" "ev_type (ev_body ev) \<noteq> FileTransfer"
  shows "\<exists>e t' sigs. UINICQSubTypeToEvent crlf_server_to_client now v (single_party ub) r t = (Some e, t', sigs) \<and>
    ev_body e = delivered_body (ev_body ev) \<and> ev_contact e = r \<and>
    icq e = Some (new_icq_part\<lparr>m_urgent := u_urgent v, m_tocontactlist := u_tocontactlist v\<rparr>)"
  using out ev
  by (cases "ev_body ev")
    (auto simp: handleOutgoing_def EventToUINICQSubType_def UINICQSubTypeToEvent_def Let_def is_icq_def
      ev_type_def new_normal_event_def new_event_def upd_icq_def new_icq_part_def crlf_client_to_server_def
      crlf_server_to_client_def AwayMsgSubType_of_status_def upd_contact_def split: option.splits if_splits)

text \<open>What the receiver's parser makes of it.\<close>

lemma outgoing_parsed:
  assumes out: "handleOutgoing c2s indet ev s = Inr (u, ub)" and ok: "body_ok ub"
    and icq: "icq ev = Some i" and nf: "\<forall>f. ub \<noteq> FTBody f"
  shows "\<exists>fl v. (\<forall>b rest. at b (m_endn d) (drop (length (m_data d)) (m_data (ICQSubType_Output (wire_message u ub) d)) @ rest) \<longrightarrow>
      (\<exists>b'. ParseICQSubType True False b = Inr (\<lparr>m_flags8 = fl, body = UINSubType v (single_party ub)\<rparr>, b') \<and>
        at b' (m_endn d) rest)) \<and>
    u_advanced v \<and> u_urgent v = (m_urgent i \<and> \<not> m_tocontactlist i) \<and>
    u_tocontactlist v = m_tocontactlist i \<and> u_status v = u_status u \<and>
    type_ok (single_party ub) \<and> multi_of (single_party ub) (fl AND MSG_Flag_Multi \<noteq> 0)"
proof -
  note parts = handleOutgoing_parts [OF out icq]
  let ?w = "wire_message u (single_party ub)"
  have s: "sendable ?w"
    using ok parts(3) by (rule sendable_single_party)
  obtain v where v: "received_uin (u\<lparr>u_advanced := True\<rparr>) (single_party ub) = (v, single_party ub)"
    and flags: "u_advanced v" "u_urgent v = (m_urgent i \<and> \<not> m_tocontactlist i)"
      "u_tocontactlist v = m_tocontactlist i" "u_status v = u_status u"
    using parts nf by (cases ub) (auto simp: received_uin_def Let_def)
  have p: "\<exists>b'. ParseICQSubType True False b =
      Inr (\<lparr>m_flags8 = getFlags ?w, body = UINSubType v (single_party ub)\<rparr>, b') \<and> at b' (m_endn d) rest"
    if "at b (m_endn d) (drop (length (m_data d)) (m_data (ICQSubType_Output (wire_message u ub) d)) @ rest)" for b rest
  proof -
    have "at b (m_endn d) (drop (length (m_data d)) (m_data (ICQSubType_Output ?w d)) @ rest)"
      using that by (simp only: Output_single_party)
    from ParseICQSubType_Output [OF s this] show ?thesis
      using v parts(3) by (auto simp: received_def wire_message_def is_advanced_def is_ack_def elim!: yieldsE)
  qed
  have "type_ok (single_party ub)" "multi_of (single_party ub) (getFlags ?w AND MSG_Flag_Multi \<noteq> 0)"
    using s by (auto simp: sendable_def wire_message_def getFlags_def split: uin_body.splits; cases ub; auto)+
  then show ?thesis
    using p flags by (intro exI [of _ "getFlags ?w"] exI [of _ v]) simp
qed

lemma message_arrives:
  assumes out: "handleOutgoing crlf_client_to_server indet ev s = Inr (u, ub)" and ok: "body_ok ub"
    and icq: "icq ev = Some i" "is_icq (ev_body ev)" "ev_type (ev_body ev) \<noteq> FileTransfer"
    and b: "at b (m_endn d) (drop (length (m_data d)) (m_data (ICQSubType_Output (wire_message u ub) d)) @ rest)"
  shows "\<exists>fl v vb b' e t' sigs. ParseICQSubType True False b = Inr (\<lparr>m_flags8 = fl, body = UINSubType v vb\<rparr>, b') \<and>
    at b' (m_endn d) rest \<and>
    UINICQSubTypeToEvent crlf_server_to_client now v vb r t = (Some e, t', sigs) \<and>
    ev_body e = delivered_body (ev_body ev) \<and> ev_contact e = r \<and>
    icq e = Some (new_icq_part\<lparr>m_urgent := m_urgent i \<and> \<not> m_tocontactlist i, m_tocontactlist := m_tocontactlist i\<rparr>) \<and>
    MapICQStatusToStatus (u_status v) =
      (if m_status (mh_store s (mh_self s)) = STATUS_OFFLINE then STATUS_ONLINE else m_status (mh_store s (mh_self s)))"
proof -
  have nf: "\<forall>f. ub \<noteq> FTBody f"
    using out icq(2,3) by (cases "ev_body ev") (auto simp: handleOutgoing_def EventToUINICQSubType_def Let_def
        is_icq_def ev_type_def AwayMsgSubType_of_status_def split: option.splits if_splits)
  obtain fl v b' where p: "ParseICQSubType True False b = Inr (\<lparr>m_flags8 = fl, body = UINSubType v (single_party ub)\<rparr>, b')"
      "at b' (m_endn d) rest" "u_urgent v = (m_urgent i \<and> \<not> m_tocontactlist i)"
      "u_tocontactlist v = m_tocontactlist i" "u_status v = u_status u"
    using outgoing_parsed [OF out ok icq(1) nf, of d] b by blast
  obtain e t' sigs where e: "UINICQSubTypeToEvent crlf_server_to_client now v (single_party ub) r t = (Some e, t', sigs)"
      "ev_body e = delivered_body (ev_body ev)" "ev_contact e = r"
      "icq e = Some (new_icq_part\<lparr>m_urgent := u_urgent v, m_tocontactlist := u_tocontactlist v\<rparr>)"
    using event_of_outgoing [OF out icq(2,3), of now v r t] by blast
  show ?thesis
    using p e handleOutgoing_parts(4) [OF out icq(1)] status_of_code [of "m_status (mh_store s (mh_self s))"]
    by (intro exI conjI) (assumption | simp)+
qed

text \<open>C2: A message event that one client hands to the library is what the other client is shown: the
  event is turned into a message, written, parsed and turned back into an event with the same text and
  fields, whatever line ends the text has; of the two priority marks, the one for the contact list
  wins. What is lost are the colours and the mark for several receivers.\<close>

theorem message_delivery:
  assumes out: "handleOutgoing crlf_client_to_server indet ev s = Inr (u, ub)" and ok: "body_ok ub"
    and icq: "icq ev = Some i" "is_icq (ev_body ev)" "ev_type (ev_body ev) \<noteq> FileTransfer"
    and b: "at b (m_endn d) (drop (length (m_data d)) (m_data (ICQSubType_Output (wire_message u ub) d)) @ rest)"
  shows "\<exists>fl v vb b' e t' sigs. ParseICQSubType True False b = Inr (\<lparr>m_flags8 = fl, body = UINSubType v vb\<rparr>, b') \<and>
    at b' (m_endn d) rest \<and>
    UINICQSubTypeToEvent crlf_server_to_client now v vb r t = (Some e, t', sigs) \<and>
    ev_body e = delivered_body (ev_body ev) \<and> ev_contact e = r \<and>
    icq e = Some (new_icq_part\<lparr>m_urgent := m_urgent i \<and> \<not> m_tocontactlist i, m_tocontactlist := m_tocontactlist i\<rparr>) \<and>
    MapICQStatusToStatus (u_status v) =
      (if m_status (mh_store s (mh_self s)) = STATUS_OFFLINE then STATUS_ONLINE else m_status (mh_store s (mh_self s)))"
  using assms by (rule message_arrives)

definition sample_handler :: handler where
  "sample_handler =
     \<lparr>mh_store = (\<lambda>r. uin_contact False (word_of_nat r)), mh_next = 9, mh_imag = 0, mh_self = 1,
      mh_tree = new_contact_tree\<rparr>"

theorem message_delivery_witness:
  "\<exists>fl v vb b' e t' sigs. ParseICQSubType True False
      (buffer_of_bytes (m_data (ICQSubType_Output (wire_message
         (new_uin_part\<lparr>u_source := 1, u_destination := 7\<rparr>) (NormalBody ''hi'' True 0 0x00ffffff)) new_buffer))) =
      Inr (\<lparr>m_flags8 = fl, body = UINSubType v vb\<rparr>, b') \<and>
    UINICQSubTypeToEvent crlf_server_to_client 5 v vb 3 sample_handler = (Some e, t', sigs) \<and>
    ev_body e = NormalMessageEvent ''hi'' False 0x00000000 0x00ffffff"
proof -
  have out: "handleOutgoing crlf_client_to_server True (new_normal_event 0 7 ''hi'' True) sample_handler =
      Inr (new_uin_part\<lparr>u_source := 1, u_destination := 7\<rparr>, NormalBody ''hi'' True 0 0x00ffffff)"
    by (simp add: handleOutgoing_def EventToUINICQSubType_def new_normal_event_def new_event_def is_icq_def
        new_icq_part_def sample_handler_def uin_contact_def Init_def MapStatusToICQStatus_def Let_def
        crlf_client_to_server_def new_uin_part_def)
  let ?b = "buffer_of_bytes (m_data (ICQSubType_Output (wire_message
         (new_uin_part\<lparr>u_source := 1, u_destination := 7\<rparr>) (NormalBody ''hi'' True 0 0x00ffffff)) new_buffer))"
  have "length (m_data ?b) < 2 ^ 31"
    by (simp add: wire_message_def ICQSubType_Output_emit enc_uin_def new_uin_part_def new_buffer_def
        buffer_of_bytes_def)
  then have "at ?b (m_endn new_buffer) (drop (length (m_data new_buffer)) (m_data ?b) @ [])"
    by (simp add: at_def wfb_def unread_def buffer_of_bytes_def new_buffer_def)
  then show ?thesis
    using message_delivery [OF out, of new_icq_part ?b new_buffer "[]" 5 3 sample_handler]
    by (fastforce simp: new_normal_event_def new_event_def is_icq_def ev_type_def buffer_of_bytes_def)
qed

section \<open>Acknowledgement\<close>

lemma ack_of_event_cases:
  assumes "ack_of_event st ev u = Inr (True, u')"
  obtains (ok) "m_delivered ev = Some True" "u' = u\<lparr>u_status := accept_status st\<rparr>"
    | (refused) r a where "m_delivered ev = Some False" "m_failure_reason ev = Some r"
        "refuse_status r = Some a" "u' = u\<lparr>u_status := a\<rparr>"
  using assms
  by (auto simp: ack_of_event_def isDelivered_def getDeliveryFailureReason_def the_set_def andThen_eq_Inr
      split: option.splits if_splits)

lemma delivery_of_accept: "delivery_of_status (accept_status st) ev = set_delivery True None ev"
  by (cases st) (simp_all add: accept_status_def delivery_of_status_def accept_statuses)

definition told_reason :: "delivery_failure \<Rightarrow> delivery_failure" where
  "told_reason r = (if r = Failed_Occupied \<or> r = Failed_DND then r else Failed_Denied)"

lemma delivery_of_refuse:
  "refuse_status r = Some a \<Longrightarrow> delivery_of_status a ev = set_delivery False (Some (told_reason r)) ev"
  by (cases r) (auto simp: refuse_status_def delivery_of_status_def accept_statuses told_reason_def)

lemma set_delivery_simps [simp]:
  "m_delivered (set_delivery d r ev) = Some d"
  "m_finished (set_delivery d r ev) = m_finished ev"
  "ev_body (set_delivery d r ev) = ev_body ev"
  "icq (set_delivery d r ev) = icq ev"
  "ev_contact (set_delivery d r ev) = ev_contact ev"
  by (cases r; simp add: set_delivery_def)+

lemma ack_parsed:
  assumes u': "u_ack u'" "u_advanced u'" "length (u_away_message u') < 65535"
    and ub: "type_ok ub" "multi_of ub (fl AND MSG_Flag_Multi \<noteq> 0)" "\<forall>f. ub \<noteq> FTBody f"
  shows "\<exists>fl' v vb. (\<forall>b rest. at b (m_endn d) (drop (length (m_data d))
        (m_data (ICQSubType_Output \<lparr>m_flags8 = fl, body = UINSubType u' ub\<rparr> d)) @ rest) \<longrightarrow>
      (\<exists>b'. ParseICQSubType True True b = Inr (\<lparr>m_flags8 = fl', body = UINSubType v vb\<rparr>, b') \<and> at b' (m_endn d) rest)) \<and>
    u_status v = u_status u' \<and> u_away_message v = u_away_message u' \<and> (\<forall>f. vb \<noteq> FTBody f)"
proof -
  obtain v vb where v: "received_uin u' ub = (v, vb)"
    by fastforce
  then have vs: "u_status v = u_status u'" "u_away_message v = u_away_message u'"
    using u'(1,2) ub(3) by (auto simp: received_uin_def Let_def received_ack_def split: uin_body.splits)
  have "vb = fresh_body ub"
    using v u'(1) ub(3) by (auto simp: received_uin_def Let_def received_ack_def split: uin_body.splits)
  then have nf: "\<forall>f. vb \<noteq> FTBody f"
    using ub(3) by (cases ub) (auto simp: new_NormalICQSubType_def)
  let ?w = "\<lparr>m_flags8 = fl, body = UINSubType u' ub\<rparr>"
  have "ack_ok u' ub"
    using u' ub(3) by (cases ub) auto
  then have s: "sendable ?w"
    using ub(1,2) u'(1) by (simp add: sendable_def uin_ok_def)
  have "\<exists>b'. ParseICQSubType True True b = Inr (\<lparr>m_flags8 = getFlags ?w, body = UINSubType v vb\<rparr>, b') \<and> at b' (m_endn d) rest"
    if "at b (m_endn d) (drop (length (m_data d)) (m_data (ICQSubType_Output ?w d)) @ rest)" for b rest
    using ParseICQSubType_Output [OF s that] v u'
    by (auto simp: received_def is_advanced_def is_ack_def elim!: yieldsE)
  then show ?thesis
    using vs nf by (intro exI [of _ "getFlags ?w"] exI [of _ v] exI [of _ vb]) simp
qed

text \<open>What the sender makes of the decision.\<close>

lemma ack_handled:
  assumes ack: "ack_of_event st ev (u\<lparr>u_ack := True\<rparr>) = Inr (True, u')"
    and v: "u_status v = u_status u'"
    and mine: "icq mine = Some i" "ev_type (ev_body mine) \<notin> {AwayMessage, FileTransfer}"
  shows "\<exists>e. handleIncomingACK s2c mine v vb = Inr (e, [MessageAck e]) \<and>
    m_finished e = Some True \<and> m_delivered e = m_delivered ev \<and> ev_body e = ev_body mine \<and>
    map_option m_away_message (icq e) =
      Some (s2c ENCODING_CONTACT_LOCALE (Some (ev_contact mine)) (u_away_message v)) \<and>
    (m_delivered ev = Some False \<longrightarrow> m_failure_reason e = map_option told_reason (m_failure_reason ev))"
proof -
  let ?m = "mine\<lparr>icq := Some (i\<lparr>m_away_message := s2c ENCODING_CONTACT_LOCALE (Some (ev_contact mine)) (u_away_message v)\<rparr>),
      m_finished := Some True\<rparr>"
  have "\<exists>dl r. delivery_of_status (u_status u') ?m = set_delivery dl r ?m \<and> m_delivered ev = Some dl \<and>
      (dl = False \<longrightarrow> r = map_option told_reason (m_failure_reason ev) \<and> r \<noteq> None)"
    using ack
  proof (cases rule: ack_of_event_cases)
    case ok
    then show ?thesis
      by (intro exI [of _ True] exI [of _ None]) (simp add: delivery_of_accept)
  next
    case (refused r a)
    then show ?thesis
      by (intro exI [of _ False] exI [of _ "Some (told_reason r)"]) (simp add: delivery_of_refuse)
  qed
  then obtain dl r where dl: "delivery_of_status (u_status u') ?m = set_delivery dl r ?m" "m_delivered ev = Some dl"
      "dl = False \<longrightarrow> r = map_option told_reason (m_failure_reason ev) \<and> r \<noteq> None"
    by blast
  have "handleIncomingACK s2c mine v vb = Inr (set_delivery dl r ?m, [MessageAck (set_delivery dl r ?m)])"
    using mine dl(1) by (simp add: handleIncomingACK_def v Let_def)
  moreover have "dl = False \<longrightarrow> m_failure_reason (set_delivery dl r ?m) = map_option told_reason (m_failure_reason ev)"
    using dl(3) by (auto simp: set_delivery_def)
  ultimately show ?thesis
    using dl(2) by (intro exI conjI) (assumption | simp)+
qed


text \<open>C23: The acknowledgement tells the sender what the receiver decided: after it was written, parsed
  and handled, the sender's event is finished, carries the receiver's away message, counts as delivered
  exactly if the receiver took it, and otherwise has the receiver's reason, where \<^verbatim>\<open>occupied\<close> and
  \<^verbatim>\<open>do not disturb\<close> are told apart and every other reason becomes \<^verbatim>\<open>denied\<close>.\<close>

theorem ack_delivery:
  assumes ack: "ack_of_event st ev (u\<lparr>u_ack := True\<rparr>) = Inr (True, u')" and adv: "u_advanced u"
    and len: "length (u_away_message u) < 65535"
    and ub: "type_ok ub" "multi_of ub (fl AND MSG_Flag_Multi \<noteq> 0)" "\<forall>f. ub \<noteq> FTBody f"
    and b: "at b (m_endn d) (drop (length (m_data d))
      (m_data (ICQSubType_Output \<lparr>m_flags8 = fl, body = UINSubType u' ub\<rparr> d)) @ rest)"
    and mine: "icq mine = Some i" "ev_type (ev_body mine) \<notin> {AwayMessage, FileTransfer}"
  shows "\<exists>fl' v vb b' e. ParseICQSubType True True b = Inr (\<lparr>m_flags8 = fl', body = UINSubType v vb\<rparr>, b') \<and>
    at b' (m_endn d) rest \<and> handleIncomingACK s2c mine v vb = Inr (e, [MessageAck e]) \<and>
    m_finished e = Some True \<and> m_delivered e = m_delivered ev \<and>
    map_option m_away_message (icq e) =
      Some (s2c ENCODING_CONTACT_LOCALE (Some (ev_contact mine)) (u_away_message u)) \<and>
    (m_delivered ev = Some False \<longrightarrow> m_failure_reason e = map_option told_reason (m_failure_reason ev))"
proof -
  have u': "u_ack u'" "u_advanced u'" "u_away_message u' = u_away_message u"
    using ack adv by (cases rule: ack_of_event_cases; simp)+
  from ack_parsed [OF u'(1,2) _ ub, of d] len u'(3) b obtain fl' v vb b' where
    p: "ParseICQSubType True True b = Inr (\<lparr>m_flags8 = fl', body = UINSubType v vb\<rparr>, b')" "at b' (m_endn d) rest"
      "u_status v = u_status u'" "u_away_message v = u_away_message u"
    by metis
  show ?thesis
    using ack_handled [OF ack p(3) mine, of s2c vb] p(1,2,4) by metis
qed


theorem ack_delivery_witness:
  "\<exists>v vb b' e. ParseICQSubType True True (buffer_of_bytes (m_data (ICQSubType_Output
        \<lparr>m_flags8 = 0, body = UINSubType (new_uin_part\<lparr>u_advanced := True, u_ack := True,
           u_status := AcceptStatus_Occupied\<rparr>) (URLBody ''u'' ''v'')\<rparr> new_buffer))) =
      Inr (\<lparr>m_flags8 = 0, body = UINSubType v vb\<rparr>, b') \<and>
    handleIncomingACK null_server_to_client (new_event 0 1 (URLMessageEvent ''u'' ''v'')) v vb = Inr (e, [MessageAck e]) \<and>
    m_delivered e = Some False \<and> m_failure_reason e = Some Failed_Occupied"
proof -
  let ?ev = "(new_event 0 1 AwayMessageEvent)\<lparr>m_delivered := Some False, m_failure_reason := Some Failed_Occupied\<rparr>"
  let ?u = "new_uin_part\<lparr>u_advanced := True\<rparr>"
  have a: "ack_of_event STATUS_AWAY ?ev (?u\<lparr>u_ack := True\<rparr>) =
      Inr (True, new_uin_part\<lparr>u_advanced := True, u_ack := True, u_status := AcceptStatus_Occupied\<rparr>)"
    by (simp add: ack_of_event_def isDelivered_def getDeliveryFailureReason_def refuse_status_def new_uin_part_def)
  let ?w = "\<lparr>m_flags8 = 0, body = UINSubType (new_uin_part\<lparr>u_advanced := True, u_ack := True,
           u_status := AcceptStatus_Occupied\<rparr>) (URLBody ''u'' ''v'')\<rparr>"
  let ?b = "buffer_of_bytes (m_data (ICQSubType_Output ?w new_buffer))"
  have "length (m_data ?b) < 2 ^ 31"
    by (simp add: ICQSubType_Output_emit enc_uin_def new_uin_part_def new_buffer_def buffer_of_bytes_def)
  then have b: "at ?b (m_endn new_buffer) (drop (length (m_data new_buffer)) (m_data (ICQSubType_Output ?w new_buffer)) @ [])"
    by (simp add: at_def wfb_def unread_def buffer_of_bytes_def new_buffer_def)
  have p: "getFlags ?w = 0"
    by (simp add: getFlags_def)
  have "\<exists>fl' v vb b' e. ParseICQSubType True True ?b = Inr (\<lparr>m_flags8 = fl', body = UINSubType v vb\<rparr>, b') \<and>
      at b' (m_endn new_buffer) [] \<and>
      handleIncomingACK null_server_to_client (new_event 0 1 (URLMessageEvent ''u'' ''v'')) v vb = Inr (e, [MessageAck e]) \<and>
      m_finished e = Some True \<and> m_delivered e = m_delivered ?ev \<and>
      map_option m_away_message (icq e) = Some (null_server_to_client ENCODING_CONTACT_LOCALE
        (Some (ev_contact (new_event 0 1 (URLMessageEvent ''u'' ''v'')))) (u_away_message ?u)) \<and>
      (m_delivered ?ev = Some False \<longrightarrow> m_failure_reason e = map_option told_reason (m_failure_reason ?ev))"
    by (rule ack_delivery [OF a _ _ _ _ _ b])
      (simp_all add: new_uin_part_def type_ok_def new_event_def is_icq_def ev_type_def)
  moreover have "fl' = 0" if "ParseICQSubType True True ?b = Inr (\<lparr>m_flags8 = fl', body = x\<rparr>, b')" for fl' x b'
    using that
    by (auto simp: ParseICQSubType_def ICQSubType_Output_emit getType_def getFlags_def enc_uin_def new_buffer_def
        buffer_of_bytes_def get_u8_def byte_at_def andThen_eq_Inr)
  ultimately show ?thesis
    by (auto simp: told_reason_def)
qed

section \<open>What handling an advanced message does\<close>

lemma upd_contact_prod: "(case upd_contact r ch s of (s', sigs) \<Rightarrow> f s' sigs) =
    f (fst (upd_contact r ch s)) (snd (upd_contact r ch s))"
  by (simp add: case_prod_beta)

lemma auto_response_Inr:
  assumes "auto_response c2s on_auto st c ev u = Inr (ev', u', sigs)"
  shows "\<exists>msg. u' = u\<lparr>u_away_message := msg\<rparr> \<and>
        (msg = [] \<or> (\<exists>e c i. icq (on_auto e) = Some i \<and> msg = c2s ENCODING_CONTACT_LOCALE c (m_away_message i)))"
  using assms by (force simp: auto_response_def Let_def split: if_splits option.splits)

lemma handleIncoming_advanced:
  assumes ev: "ICQSubTypeToEvent s2c indet now (UINSubType u ub) s = (Some ev, True, s1, sigs1)"
    and ft: "getType (UINSubType u ub) \<noteq> MSG_Type_FT"
    and h: "handleIncoming c2s s2c on_message on_auto indet now t (UINSubType u ub) s = Inr (ack, ist', s', sigs)"
  shows "\<exists>e3 u3 u4. ist' = UINSubType u4 ub \<and>
      ack_of_event (m_status (mh_store s (mh_self s))) e3 (u3\<lparr>u_ack := True\<rparr>) = Inr (ack, u4) \<and>
      (\<exists>msg. u3 = u\<lparr>u_away_message := msg\<rparr> \<and>
        (msg = [] \<or> (\<exists>e c i. icq (on_auto e) = Some i \<and> msg = c2s ENCODING_CONTACT_LOCALE c (m_away_message i))))"
    and "ev_body ev \<noteq> AwayMessageEvent \<Longrightarrow>
      \<exists>e. Messaged e \<in> set sigs \<and> ev_body e = ev_body ev \<and> ev_contact e = ev_contact ev"
proof -
  have *: "\<exists>e2 c e3 u3 u4 sigs4. ist' = UINSubType u4 ub \<and>
      auto_response c2s on_auto (m_status (mh_store s (mh_self s))) c e2 u = Inr (e3, u3, sigs4) \<and>
      ack_of_event (m_status (mh_store s (mh_self s))) e3 (u3\<lparr>u_ack := True\<rparr>) = Inr (ack, u4) \<and>
      (ev_body ev \<noteq> AwayMessageEvent \<longrightarrow> 
        (\<exists>e. Messaged e \<in> set sigs \<and> ev_body e = ev_body ev \<and> ev_contact e = ev_contact ev))"
  proof (cases "setStatus now (MapICQStatusToStatus (u_status u)) (MapICQStatusToInvisible (u_status u))
      (mh_store s1 (ev_contact ev))")
    case (Inl x)
    then show ?thesis
      using h ft by (simp add: handleIncoming_def ev Let_def)
  next
    case (Inr ch)
    obtain s2 sigs2 where s2: "upd_contact (ev_contact ev) ch s1 = (s2, sigs2)"
      by fastforce
    define tt where "tt = (if t = 0 then ev_time ev else t)"
    define e1 where "e1 = ev\<lparr>ev_time := tt, m_delivered := Some True\<rparr>"
    have e1: "ev_body e1 = ev_body ev" "ev_contact e1 = ev_contact ev"
      by (simp_all add: e1_def)
    obtain e2 s3 sigs3 where k: "(if ev_body e1 \<noteq> AwayMessageEvent then
          (case upd_contact (ev_contact e1) (set_last_message_time tt (mh_store s2 (ev_contact e1))) s2 of
             (s, sigs) \<Rightarrow> (on_message e1, s, Messaged e1 # sigs))
        else
          (case upd_contact (ev_contact e1) (set_last_away_msg_check_time tt (mh_store s2 (ev_contact e1))) s2 of
             (s, sigs) \<Rightarrow> (e1, s, sigs))) = (e2, s3, sigs3)"
      by (metis surj_pair)
    have m: "ev_body ev \<noteq> AwayMessageEvent \<longrightarrow>
        (\<exists>e. Messaged e \<in> set sigs3 \<and> ev_body e = ev_body ev \<and> ev_contact e = ev_contact ev)"
      using k e1 by (auto simp: upd_contact_prod intro!: exI [of _ e1])
    have "andThen (auto_response c2s on_auto (m_status (mh_store s (mh_self s))) (ev_contact e1) e2 u) (\<lambda>(ev, u, sigs4).
        andThen (ack_of_event (m_status (mh_store s (mh_self s))) ev (u\<lparr>u_ack := True\<rparr>)) (\<lambda>(ack, u).
        Inr (ack, UINSubType u ub, s3, sigs1 @ sigs2 @ sigs3 @ sigs4))) = Inr (ack, ist', s', sigs)"
      using h ft unfolding handleIncoming_def
      by (simp only: if_False refl ev prod.case option.case if_True subtype_body.case Inr s2 andThen_Inr
          tt_def [symmetric] e1_def [symmetric] k Let_def)
    then obtain e3 u3 sigs4 u4 where
      "auto_response c2s on_auto (m_status (mh_store s (mh_self s))) (ev_contact e1) e2 u = Inr (e3, u3, sigs4)"
      "ack_of_event (m_status (mh_store s (mh_self s))) e3 (u3\<lparr>u_ack := True\<rparr>) = Inr (ack, u4)"
      "ist' = UINSubType u4 ub" "sigs = sigs1 @ sigs2 @ sigs3 @ sigs4"
      by (auto simp: andThen_eq_Inr)
    then show ?thesis
      using m by (metis (no_types, lifting) Un_iff set_append)
  qed
  then show "\<exists>e3 u3 u4. ist' = UINSubType u4 ub \<and>
      ack_of_event (m_status (mh_store s (mh_self s))) e3 (u3\<lparr>u_ack := True\<rparr>) = Inr (ack, u4) \<and>
      (\<exists>msg. u3 = u\<lparr>u_away_message := msg\<rparr> \<and>
        (msg = [] \<or> (\<exists>e c i. icq (on_auto e) = Some i \<and> msg = c2s ENCODING_CONTACT_LOCALE c (m_away_message i))))"
    using auto_response_Inr by metis
  show "ev_body ev \<noteq> AwayMessageEvent \<Longrightarrow>
      \<exists>e. Messaged e \<in> set sigs \<and> ev_body e = ev_body ev \<and> ev_contact e = ev_contact ev"
    using * by auto
qed

section \<open>Handling never fails\<close>

definition settled :: "message_event \<Rightarrow> bool" where
  "settled ev = (m_delivered ev \<noteq> None \<and> (m_delivered ev = Some False \<longrightarrow> m_failure_reason ev \<noteq> None))"

text \<open>What a client's callback has to keep to: whoever marks an event as not delivered gives a reason.\<close>

definition client_ok :: "(message_event \<Rightarrow> message_event) \<Rightarrow> bool" where
  "client_ok f = (\<forall>ev. settled ev \<longrightarrow> settled (f ev) \<and> (icq (f ev) = None \<longleftrightarrow> icq ev = None))"

text \<open>The contacts of the list come from a constructor that allocates the capabilities.\<close>

definition handler_ok :: "handler \<Rightarrow> bool" where
  "handler_ok s = (\<forall>u r. tree_lookup_uin u (mh_tree s) = Some r \<longrightarrow> m_capabilities (mh_store s r) \<noteq> None)"

lemma lookupUIN_caps:
  assumes "handler_ok s" and "lookupUIN indet uin s = (r, s')"
  shows "m_capabilities (mh_store s' r) \<noteq> None"
  using assms by (auto simp: lookupUIN_def handler_ok_def alloc_def uin_contact_def Init_def
      split: option.splits if_splits)

lemma setStatus_caps:
  assumes "m_capabilities c \<noteq> None"
  shows "\<exists>ch. setStatus now st i c = Inr ch"
  using assms by (auto simp: setStatus_def Let_def contact_capabilities_def split: option.split)

lemma UINICQSubTypeToEvent_Some:
  assumes "\<forall>f. ub \<noteq> FTBody f"
  shows "\<exists>e s' sigs. UINICQSubTypeToEvent s2c now u ub r s = (Some e, s', sigs) \<and> icq e \<noteq> None \<and>
    ev_contact e = r \<and> (m_capabilities (mh_store s r) \<noteq> None \<longrightarrow> m_capabilities (mh_store s' r) \<noteq> None)"
  using assms
  by (cases ub) (auto simp: UINICQSubTypeToEvent_def Let_def new_normal_event_def new_event_def upd_icq_def is_icq_def
      upd_contact_def setAuthAwait_def userinfo_change_emit_def)

lemma ICQSubTypeToEvent_Some:
  "\<forall>u ub. st \<noteq> UINSubType u ub \<Longrightarrow> \<exists>e s' sigs. ICQSubTypeToEvent s2c indet now st s = (Some e, False, s', sigs)"
  by (cases st) (auto simp: ICQSubTypeToEvent_def Let_def split: prod.split sms_type.split)

lemma ack_of_event_settled: "settled ev \<Longrightarrow> \<exists>x. ack_of_event st ev u = Inr x"
  by (auto simp: settled_def ack_of_event_def isDelivered_def getDeliveryFailureReason_def split: option.split)


lemma handleIncoming_Inr:
  assumes s: "handler_ok s" and cb: "client_ok on_message" "client_ok on_auto"
  shows "\<exists>ack ist' s' sigs. handleIncoming c2s s2c on_message on_auto indet now t ist s = Inr (ack, ist', s', sigs) \<and>
    (ack \<longrightarrow> (\<exists>u u' ub. ist = UINSubType u ub \<and> u_advanced u \<and> ist' = UINSubType u' ub \<and> u_ack u'))"
proof (cases "getType ist = MSG_Type_FT")
  case True
  then show ?thesis by (auto simp: handleIncoming_def)
next
  case notft: False
  show ?thesis
  proof (cases "\<exists>u ub. ist = UINSubType u ub")
    case False
    then obtain e s' sigs where "ICQSubTypeToEvent s2c indet now ist s = (Some e, False, s', sigs)"
      using ICQSubTypeToEvent_Some [of ist s2c indet now s] by auto
    then show ?thesis
      using False notft by (cases ist) (auto simp: handleIncoming_def Let_def split: prod.split)
  next
    case True
    then obtain u ub where ist: "ist = UINSubType u ub" by blast
    then have nf: "\<forall>f. ub \<noteq> FTBody f"
      using notft by (auto simp: getType_def)
    obtain r s1 where l: "lookupUIN indet (u_source u) s = (r, s1)" by fastforce
    have caps: "m_capabilities (mh_store s1 r) \<noteq> None"
      using lookupUIN_caps [OF s l] .
    obtain e s2 sigs where e: "UINICQSubTypeToEvent s2c now u ub r s1 = (Some e, s2, sigs)" "icq e \<noteq> None"
      "ev_contact e = r" "m_capabilities (mh_store s2 r) \<noteq> None"
      using UINICQSubTypeToEvent_Some [OF nf, of s2c now u r s1] caps by blast
    have ev: "ICQSubTypeToEvent s2c indet now ist s = (Some e, u_advanced u, s2, sigs)"
      by (simp add: ICQSubTypeToEvent_def ist l e(1))
    show ?thesis
    proof (cases "u_advanced u")
      case False
      then show ?thesis
        using ev notft by (auto simp: handleIncoming_def ist Let_def split: prod.split)
    next
      case adv: True
      obtain ch where ch: "setStatus now (MapICQStatusToStatus (u_status u)) (MapICQStatusToInvisible (u_status u))
          (mh_store s2 r) = Inr ch"
        using setStatus_caps [OF e(4)] by blast
      define tt where "tt = (if t = 0 then ev_time e else t)"
      define e1 where "e1 = e\<lparr>ev_time := tt, m_delivered := Some True\<rparr>"
      have e1: "settled e1" "icq e1 \<noteq> None"
        using e(2) by (simp_all add: e1_def settled_def)
      define e2 where "e2 = (if ev_body e1 \<noteq> AwayMessageEvent then on_message e1 else e1)"
      have e2: "settled e2" "icq e2 \<noteq> None"
        using e1 cb(1) by (auto simp: e2_def client_ok_def)
      let ?st = "m_status (mh_store s (mh_self s))"
      obtain e3 u3 sg where a: "auto_response c2s on_auto ?st r e2 u = Inr (e3, u3, sg)" "settled e3"
      proof (cases "?st = STATUS_ONLINE")
        case True
        then show ?thesis
          using that e2(1) by (simp add: auto_response_def)
      next
        case False
        have "settled (on_auto e2)" "icq (on_auto e2) \<noteq> None"
          using e2 cb(2) by (auto simp: client_ok_def)
        then show ?thesis
          using that False by (auto simp: auto_response_def Let_def)
      qed
      obtain ack u4 where k: "ack_of_event ?st e3 (u3\<lparr>u_ack := True\<rparr>) = Inr (ack, u4)"
        using ack_of_event_settled [OF a(2)] by (metis surj_pair)
      then have u4: "u_ack u4" if ack
        using that by (auto simp: elim!: ack_of_event_cases)
      show ?thesis
        using ev notft adv ch a(1) k u4 e(3)
        by (auto simp: handleIncoming_def ist Let_def e1_def e2_def tt_def split: prod.splits)
    qed
  qed
qed


text \<open>C25: Handling an incoming message always succeeds: no null pointer, no member that was never set,
  whatever the message is and whatever the client's callbacks decide (as long as a refused event has a
  reason). Only an advanced message between two users is acknowledged, with the same body, and what is
  sent back is marked as an acknowledgement.\<close>

theorem handle_incoming_total:
  assumes s: "handler_ok s" and cb: "client_ok on_message" "client_ok on_auto"
  shows "\<exists>ack ist' s' sigs. handleIncoming c2s s2c on_message on_auto indet now t ist s = Inr (ack, ist', s', sigs) \<and>
    (ack \<longrightarrow> (\<exists>u u' ub. ist = UINSubType u ub \<and> u_advanced u \<and> ist' = UINSubType u' ub \<and> u_ack u'))"
  using assms by (rule handleIncoming_Inr)

theorem handle_incoming_total_witness:
  "\<exists>ack ist' s' sigs. handleIncoming crlf_client_to_server crlf_server_to_client id id False 5 0
      (UINSubType (new_uin_part\<lparr>u_advanced := True\<rparr>) (URLBody ''u'' ''v'')) sample_handler = Inr (ack, ist', s', sigs)"
proof -
  have "handler_ok sample_handler"
    by (simp add: handler_ok_def sample_handler_def uin_contact_def Init_def)
  moreover have "client_ok id"
    by (simp add: client_ok_def)
  ultimately show ?thesis
    using handle_incoming_total [of sample_handler id id] by metis
qed

text \<open>An acknowledgement is handled without a fault exactly unless it is for a file transfer the user
  sent and carries another kind of message: then a message object is used as an \<^verbatim>\<open>FTICQSubType\<close> it is
  not, on the word of the peer.\<close>

theorem ack_type_confusion:
  "(handleIncomingACK s2c ev u ub = Inl BadCast \<longleftrightarrow>
      icq ev \<noteq> None \<and> ev_type (ev_body ev) = FileTransfer \<and> (\<nexists>f. ub = FTBody f)) \<and>
   (isl (handleIncomingACK s2c ev u ub) \<longleftrightarrow>
      icq ev \<noteq> None \<and> ev_type (ev_body ev) = FileTransfer \<and> (\<nexists>f. ub = FTBody f))"
proof -
  have b: "ev_body (delivery_of_status a e) = ev_body e" for a e
    by (simp add: delivery_of_status_def)
  have "handleIncomingACK s2c ev u ub = Inl BadCast \<longleftrightarrow>
      icq ev \<noteq> None \<and> ev_type (ev_body ev) = FileTransfer \<and> (\<nexists>f. ub = FTBody f)"
    by (auto simp: handleIncomingACK_def Let_def b split: option.split uin_body.split prod.split)
  moreover have "isl (handleIncomingACK s2c ev u ub) \<longleftrightarrow>
      icq ev \<noteq> None \<and> ev_type (ev_body ev) = FileTransfer \<and> (\<nexists>f. ub = FTBody f)"
    by (auto simp: handleIncomingACK_def Let_def b split: option.split uin_body.split prod.split)
  ultimately show ?thesis
    by blast
qed

end
