(* ===== verification/Effects.thy ===== *)
theory Effects
  imports Prelude
begin

text \<open>
  Operations on the state of an object that can end in an exception. What an operation did to the state
  before it ended stays done. The state is a parameter; the direct connection and the client instantiate
  it with the records of their members.
\<close>

text \<open>
  \<open>UnsetMember\<close> is the use of a member that was never set, \<open>NullContact\<close> that of a null
  \<^verbatim>\<open>ContactRef\<close>, \<open>Disconnected\<close> and \<open>SocketError\<close> are the exceptions \<^verbatim>\<open>DisconnectedException\<close> and
  \<^verbatim>\<open>SocketException\<close>, \<open>Diverges\<close> is a loop that
  does not end, and \<open>UseAfterFree\<close> is the use of an object that was destroyed.
\<close>

datatype exn = Fault fault | UnsetMember | NullContact | Disconnected string | SocketError | Diverges
  | UseAfterFree

type_synonym ('s, 'a) effect = "'s \<Rightarrow> (exn + 'a) \<times> 's"

definition ret :: "'a \<Rightarrow> ('s, 'a) effect" where
  "ret x = (\<lambda>s. (Inr x, s))"

definition raise :: "exn \<Rightarrow> ('s, 'a) effect" where
  "raise e = (\<lambda>s. (Inl e, s))"

definition thenM :: "('s, 'a) effect \<Rightarrow> ('a \<Rightarrow> ('s, 'b) effect) \<Rightarrow> ('s, 'b) effect" where
  "thenM m f = (\<lambda>s. case m s of (Inl e, s) \<Rightarrow> (Inl e, s) | (Inr x, s) \<Rightarrow> f x s)"

definition gets :: "('s \<Rightarrow> 'a) \<Rightarrow> ('s, 'a) effect" where
  "gets f = (\<lambda>s. (Inr (f s), s))"

definition modify :: "('s \<Rightarrow> 's) \<Rightarrow> ('s, unit) effect" where
  "modify f = (\<lambda>s. (Inr (), f s))"

definition liftR :: "'a result \<Rightarrow> ('s, 'a) effect" where
  "liftR r = (case r of Inl e \<Rightarrow> raise (Fault e) | Inr x \<Rightarrow> ret x)"

definition liftO :: "'a result option \<Rightarrow> ('s, 'a) effect" where
  "liftO r = (case r of None \<Rightarrow> raise Diverges | Some r \<Rightarrow> liftR r)"

text \<open>Reading a member, a fault if it was never set.\<close>

definition read :: "('s \<Rightarrow> 'a option) \<Rightarrow> ('s, 'a) effect" where
  "read f = (\<lambda>s. case f s of None \<Rightarrow> (Inl UnsetMember, s) | Some x \<Rightarrow> (Inr x, s))"

definition unless :: "bool \<Rightarrow> string \<Rightarrow> ('s, unit) effect" where
  "unless ok msg = (if ok then ret () else raise (Fault (ParseException msg)))"

text \<open>\<^verbatim>\<open>try ... catch\<close>: the handler gets the exception and may raise it again.\<close>

definition catchM :: "('s, 'a) effect \<Rightarrow> (exn \<Rightarrow> ('s, 'a) effect) \<Rightarrow> ('s, 'a) effect" where
  "catchM m h = (\<lambda>s. case m s of (Inl e, s) \<Rightarrow> h e s | (Inr x, s) \<Rightarrow> (Inr x, s))"

fun eachM :: "('a \<Rightarrow> ('s, unit) effect) \<Rightarrow> 'a list \<Rightarrow> ('s, unit) effect" where
  "eachM f [] = ret ()"
| "eachM f (x # xs) = thenM (f x) (\<lambda>_. eachM f xs)"

section \<open>Running an operation\<close>

lemma thenM_Inr [simp]: "m s = (Inr x, s') \<Longrightarrow> thenM m f s = f x s'"
  by (simp add: thenM_def)

lemma thenM_Inl [simp]: "m s = (Inl e, s') \<Longrightarrow> thenM m f s = (Inl e, s')"
  by (simp add: thenM_def)

lemma effect_simps [simp]:
  "ret x s = (Inr x, s)"
  "raise e s = (Inl e, s)"
  "gets g s = (Inr (g s), s)"
  "modify h s = (Inr (), h s)"
  by (simp_all add: ret_def raise_def gets_def modify_def)

lemma liftR_simps [simp]: "liftR (Inr x) = ret x" "liftR (Inl e) = raise (Fault e)"
  by (simp_all add: liftR_def)

lemma liftO_simps [simp]: "liftO (Some r) = liftR r" "liftO None = raise Diverges"
  by (simp_all add: liftO_def)

lemma unless_simps [simp]: "unless True m = ret ()" "unless False m = raise (Fault (ParseException m))"
  by (simp_all add: unless_def)

lemma read_simps [simp]:
  "f s = Some x \<Longrightarrow> read f s = (Inr x, s)" "f s = None \<Longrightarrow> read f s = (Inl UnsetMember, s)"
  by (simp_all add: read_def)

lemma catchM_simps [simp]:
  "m s = (Inr x, s') \<Longrightarrow> catchM m h s = (Inr x, s')"
  "m s = (Inl e, s') \<Longrightarrow> catchM m h s = h e s'"
  by (simp_all add: catchM_def)

lemma thenM_ret [simp]: "thenM (ret x) f = f x" and thenM_raise [simp]: "thenM (raise e) f = raise e"
  by (simp_all add: thenM_def ret_def raise_def)

lemma thenM_assoc: "thenM (thenM m f) g = thenM m (\<lambda>x. thenM (f x) g)"
  by (auto simp: thenM_def split: prod.splits sum.splits)

lemma thenM_eq_Inr:
  "thenM m f s = (Inr y, s') \<longleftrightarrow> (\<exists>x t. m s = (Inr x, t) \<and> f x t = (Inr y, s'))"
  by (auto simp: thenM_def split: prod.splits sum.splits)

lemma eachM_append: "eachM f (xs @ ys) = thenM (eachM f xs) (\<lambda>_. eachM f ys)"
  by (induction xs) (simp_all add: thenM_assoc)

section \<open>Invariants\<close>

text \<open>
  \<open>stable I m\<close>: the operation keeps \<open>I\<close>, however it ends. The rules follow the way operations are put
  together, so that \<open>intro\<close> takes an operation apart down to its assignments.
\<close>

definition stable :: "('s \<Rightarrow> bool) \<Rightarrow> ('s, 'a) effect \<Rightarrow> bool" where
  "stable I m \<longleftrightarrow> (\<forall>s. I s \<longrightarrow> I (snd (m s)))"

named_theorems stable_rules \<open>introduction rules for invariants of operations\<close>

lemma stableD: "stable I m \<Longrightarrow> I s \<Longrightarrow> m s = (r, s') \<Longrightarrow> I s'"
  by (metis stable_def snd_conv)

lemma stable_thenM [stable_rules]: "stable I m \<Longrightarrow> (\<And>x. stable I (f x)) \<Longrightarrow> stable I (thenM m f)"
  unfolding stable_def thenM_def by (auto split: prod.splits sum.splits)

lemma stable_catchM [stable_rules]: "stable I m \<Longrightarrow> (\<And>e. stable I (h e)) \<Longrightarrow> stable I (catchM m h)"
  unfolding stable_def catchM_def by (auto split: prod.splits sum.splits)

lemma stable_pure [stable_rules]:
  "stable I (ret x)" "stable I (raise e)" "stable I (gets f)" "stable I (liftR r)" "stable I (liftO q)"
  "stable I (read g)" "stable I (unless c msg)"
  by (auto simp: stable_def liftR_def liftO_def read_def unless_def split: sum.splits option.splits)

lemma stable_modify [stable_rules]: "(\<And>s. I s \<Longrightarrow> I (f s)) \<Longrightarrow> stable I (modify f)"
  by (simp add: stable_def)

lemma stable_eachM [stable_rules]: "(\<And>x. stable I (f x)) \<Longrightarrow> stable I (eachM f xs)"
  by (induction xs) (auto intro: stable_rules)

lemma stable_if [stable_rules]:
  "(b \<Longrightarrow> stable I m) \<Longrightarrow> (\<not> b \<Longrightarrow> stable I n) \<Longrightarrow> stable I (if b then m else n)"
  by simp

lemma stable_case [stable_rules]:
  "stable I m \<Longrightarrow> (\<And>x. stable I (f x)) \<Longrightarrow> stable I (case q of None \<Rightarrow> m | Some x \<Rightarrow> f x)"
  "(\<And>x y. stable I (g x y)) \<Longrightarrow> stable I (case p of (x, y) \<Rightarrow> g x y)"
  "(\<And>e. stable I (h e)) \<Longrightarrow> (\<And>x. stable I (f x)) \<Longrightarrow> stable I (case r of Inl e \<Rightarrow> h e | Inr x \<Rightarrow> f x)"
  by (cases q, simp, simp) (cases p, simp, cases r, simp, simp)

lemma stable_Let [stable_rules]: "(\<And>x. stable I (f x)) \<Longrightarrow> stable I (Let v f)"
  unfolding Let_def .

text \<open>The invariant holds at the start, and is needed for the rest.\<close>

lemma stable_imp: "(\<And>s. I s \<Longrightarrow> J s) \<Longrightarrow> (\<And>s. J s \<Longrightarrow> I s) \<Longrightarrow> stable I m \<Longrightarrow> stable J m"
  by (auto simp: stable_def)

end
