(* ===== verification/DirectClient.thy ===== *)
theory DirectClient
  imports DirectCrypt MessageHandler Cache Effects
begin

text \<open>
  A connection between two clients: \<^verbatim>\<open>src/DirectClient.h\<close> and \<^verbatim>\<open>src/DirectClient.cpp\<close>. The members are the
  record \<open>dc\<close>, without the receive buffer \<^verbatim>\<open>m_recv\<close>, which only \<open>Parse\<close> and \<open>Recv\<close> touch and which is
  their second argument. A member that a constructor does not set is \<open>None\<close>. The message handler the
  connection points to is part of the state; its contact tree is the contact list of the connection
  (\<^verbatim>\<open>Client\<close> passes the same object to both), and \<open>dc_has_list\<close> tells whether the pointer to it was set.

  What the connection sends, the signals it emits and the sockets it registers are appended to
  \<open>dc_out\<close>, in their order; log messages are left out. The environment supplies the socket, the
  translator, the client's callbacks, the time and the results of \<^verbatim>\<open>rand()\<close>.
\<close>

section \<open>State\<close>

datatype dc_phase = NOT_CONNECTED | WAITING_FOR_INIT | WAITING_FOR_INIT_ACK | WAITING_FOR_INIT2 | CONNECTED

datatype dc_output =
    Sent "u8 list"
  | HandlerSignal handler_signal
  | ExpiredAck message_event
  | ConnectedSignal
  | AddSocket
  | RemoveSocket

record dc =
  dc_state :: dc_phase
  dc_contact :: "contact_ref option"
  dc_has_list :: bool
  dc_incoming :: bool
  dc_remote_tcp_version :: "u16 option"
  dc_remote_uin :: "u32 option"
  dc_tcp_flags :: "u8 option"
  dc_eff_tcp_version :: "u16 option"
  dc_session_id :: "u32 option"
  dc_local_ext_ip :: u32
  dc_local_server_port :: u16
  dc_remote_ip :: u32
  dc_local_ip :: u32
  dc_msgcache :: "(u16, message_event) cache"
  dc_msgqueue :: "message_event list"
  dc_seqnum :: u16
  dc_mh :: handler
  dc_drawn :: nat
  dc_out :: "dc_output list"

text \<open>
  \<open>send_ok n\<close> is whether the socket takes a packet sent when \<open>n\<close> outputs were made before. \<open>draws n\<close> is
  the result of the \<open>n\<close>-th call of \<^verbatim>\<open>rand()\<close> (scaled to 32 bits where the code scales it).
\<close>

record dc_env =
  send_ok :: "nat \<Rightarrow> bool"
  connect_ok :: bool
  draws :: "nat \<Rightarrow> u32"
  c2s :: translation
  s2c :: translation
  on_message :: "message_event \<Rightarrow> message_event"
  on_auto :: "message_event \<Rightarrow> message_event"
  indet :: bool
  now :: u32

section \<open>Operations on the state\<close>

type_synonym 'a dcm = "(dc, 'a) effect"

definition put_out :: "dc_output list \<Rightarrow> unit dcm" where
  "put_out os = modify (\<lambda>s. s\<lparr>dc_out := dc_out s @ os\<rparr>)"

definition draw :: "dc_env \<Rightarrow> u32 dcm" where
  "draw E = (\<lambda>s. (Inr (draws E (dc_drawn s)), s\<lparr>dc_drawn := Suc (dc_drawn s)\<rparr>))"

definition self_contact :: "dc \<Rightarrow> contact" where
  "self_contact s = mh_store (dc_mh s) (mh_self (dc_mh s))"

text \<open>\<^verbatim>\<open>m_contact->\<close>\<close>

definition contact_of :: "contact_ref dcm" where
  "contact_of = (\<lambda>s. case dc_contact s of None \<Rightarrow> (Inl NullContact, s) | Some r \<Rightarrow> (Inr r, s))"

section \<open>Construction and connecting\<close>

definition new_dc :: "handler \<Rightarrow> u32 \<Rightarrow> u16 \<Rightarrow> u32 \<Rightarrow> u32 \<Rightarrow> dc" where
  "new_dc mh ext_ip port remote_ip local_ip =
     \<lparr>dc_state = WAITING_FOR_INIT, dc_contact = None, dc_has_list = True, dc_incoming = True,
      dc_remote_tcp_version = None, dc_remote_uin = None, dc_tcp_flags = None, dc_eff_tcp_version = None,
      dc_session_id = None, dc_local_ext_ip = ext_ip, dc_local_server_port = port,
      dc_remote_ip = remote_ip, dc_local_ip = local_ip,
      dc_msgcache = setDefaultTimeout 30 new_cache, dc_msgqueue = [], dc_seqnum = 0xFFFF, dc_mh = mh,
      dc_drawn = 0, dc_out = []\<rparr>"

text \<open>The constructor for an outgoing connection does not set the contact list.\<close>

definition new_dc_to :: "handler \<Rightarrow> contact_ref \<Rightarrow> u32 \<Rightarrow> u16 \<Rightarrow> u32 \<Rightarrow> dc" where
  "new_dc_to mh c ext_ip port local_ip =
     (new_dc mh ext_ip port 0 local_ip)
       \<lparr>dc_state := NOT_CONNECTED, dc_contact := Some c, dc_has_list := False, dc_incoming := False,
        dc_remote_uin := Some (m_uin (mh_store mh c))\<rparr>"

definition dc_Connect :: "dc_env \<Rightarrow> unit dcm" where
  "dc_Connect E =
     thenM contact_of (\<lambda>r.
     thenM (gets (\<lambda>s. mh_store (dc_mh s) r)) (\<lambda>c.
     thenM (modify (\<lambda>s. s\<lparr>dc_remote_tcp_version := Some (ucast (m_tcp_version c))\<rparr>)) (\<lambda>_.
     thenM (if m_tcp_version c \<ge> 7 then modify (\<lambda>s. s\<lparr>dc_eff_tcp_version := Some 7\<rparr>)
            else if m_tcp_version c = 6 then modify (\<lambda>s. s\<lparr>dc_eff_tcp_version := Some 6\<rparr>)
            else raise (Disconnected ''Cannot direct connect to client with too old TCP version'')) (\<lambda>_.
     thenM (modify (\<lambda>s. s\<lparr>dc_remote_ip := m_lan_ip c\<rparr>)) (\<lambda>_.
     thenM (if connect_ok E then ret () else raise SocketError) (\<lambda>_.
     thenM (put_out [AddSocket]) (\<lambda>_.
     thenM (if m_dc_cookie c \<noteq> 0 then ret (m_dc_cookie c) else draw E) (\<lambda>sid.
     modify (\<lambda>s. s\<lparr>dc_session_id := Some sid, dc_state := WAITING_FOR_INIT_ACK\<rparr>)))))))))"

section \<open>Sending\<close>

definition dc_Send :: "dc_env \<Rightarrow> buffer \<Rightarrow> unit dcm" where
  "dc_Send E b = (\<lambda>s.
     if send_ok E (length (dc_out s)) then (Inr (), s\<lparr>dc_out := dc_out s @ [Sent (m_data b)]\<rparr>)
     else (Inl (Disconnected ''Failed to send: ''), s))"

definition init_packet :: "u16 \<Rightarrow> u32 \<Rightarrow> u32 \<Rightarrow> u16 \<Rightarrow> u32 \<Rightarrow> u32 \<Rightarrow> u32 \<Rightarrow> buffer result" where
  "init_packet eff remote_uin self_uin port ext_ip local_ip session =
     (let b = setLittleEndian new_buffer;
          (m1, b) = getAutoSizeShortMarker b;
          b = put_u8 0xff b;
          b = put_u16 0x0007 b;
          (m2, b) = getAutoSizeShortMarker b;
          b = put_u32 remote_uin b;
          b = put_u16 0x0000 b;
          b = put_u32 (ucast port) b;
          b = put_u32 self_uin b;
          b = setBigEndian b;
          b = put_u32 ext_ip b;
          b = put_u32 local_ip b;
          b = put_u8 0x04 b;
          b = setLittleEndian b;
          b = put_u32 (ucast port) b;
          b = put_u32 session b;
          b = put_u32 0x00000050 b;
          b = put_u32 0x00000003 b;
          b = (if eff = 7 then put_u32 0x00000000 b else b)
      in andThen (setAutoSizeMarker m1 b) (setAutoSizeMarker m2))"

definition SendInitPacket :: "dc_env \<Rightarrow> unit dcm" where
  "SendInitPacket E =
     thenM (read dc_remote_uin) (\<lambda>remote_uin.
     thenM (read dc_session_id) (\<lambda>session.
     thenM (read dc_eff_tcp_version) (\<lambda>eff.
     thenM (gets id) (\<lambda>s.
     thenM (liftR (init_packet eff remote_uin (m_uin (self_contact s)) (dc_local_server_port s)
       (dc_local_ext_ip s) (dc_local_ip s) session)) (dc_Send E)))))"

definition FinishNonBlockingConnect :: "dc_env \<Rightarrow> unit dcm" where
  "FinishNonBlockingConnect E = SendInitPacket E"

definition init_ack_packet :: "buffer result" where
  "init_ack_packet =
     (let (m1, b) = getAutoSizeShortMarker (setLittleEndian new_buffer)
      in setAutoSizeMarker m1 (put_u32 0x00000001 b))"

definition SendInitAck :: "dc_env \<Rightarrow> unit dcm" where
  "SendInitAck E = thenM (liftR init_ack_packet) (dc_Send E)"

definition init2_packet :: "bool \<Rightarrow> buffer result" where
  "init2_packet incoming =
     (let (m1, b) = getAutoSizeShortMarker (setLittleEndian new_buffer);
          b = put_u8 0x03 b;
          b = put_u32 0x0000000a b;
          b = put_u32 0x00000001 b;
          b = put_u32 (if incoming then 0x00000001 else 0x00000000) b;
          b = put_u32 0x00000000 b;
          b = put_u32 0x00000000 b;
          b = (if incoming then put_u32 0x00000000 (put_u32 0x00000000 (put_u32 0x00040001 b))
               else put_u32 0x00040001 (put_u32 0x00000000 (put_u32 0x00000000 b)))
      in setAutoSizeMarker m1 b)"

definition SendInit2 :: "dc_env \<Rightarrow> unit dcm" where
  "SendInit2 E =
     thenM (gets dc_incoming) (\<lambda>incoming. thenM (liftR (init2_packet incoming)) (dc_Send E))"

definition NextSeqNum :: "u16 dcm" where
  "NextSeqNum = (\<lambda>s. (Inr (dc_seqnum s), s\<lparr>dc_seqnum := dc_seqnum s - 1\<rparr>))"

text \<open>The common head of the three kinds of packets of a connected client.\<close>

definition packet_head :: "u16 \<Rightarrow> u16 \<Rightarrow> buffer" where
  "packet_head command seqnum =
     put_u32 0x00000000 (put_u32 0x00000000 (put_u32 0x00000000 (put_u16 seqnum (put_u16 0x000e
       (put_u16 command (put_u32 0x00000000 (setLittleEndian new_buffer)))))))"

definition V6_TCP_START :: u16 where "V6_TCP_START = 0x07ee"
definition V6_TCP_ACK :: u16 where "V6_TCP_ACK = 0x07da"
definition V6_TCP_CANCEL :: u16 where "V6_TCP_CANCEL = 0x07d0"

lemmas tcp_commands = V6_TCP_START_def V6_TCP_ACK_def V6_TCP_CANCEL_def

text \<open>Encrypting reads \<^verbatim>\<open>rand()\<close> twice, if it does anything at all.\<close>

definition dc_Encrypt :: "dc_env \<Rightarrow> buffer \<Rightarrow> buffer dcm" where
  "dc_Encrypt E b =
     thenM (read dc_eff_tcp_version) (\<lambda>eff.
     thenM (if eff = 6 \<or> eff = 7 then thenM (draw E) (\<lambda>r. thenM (draw E) (\<lambda>q. ret (r, q))) else ret (0, 0)) (\<lambda>(r, q).
     thenM (liftO (Encrypt r q eff b new_buffer)) (\<lambda>(_, c). ret c)))"

definition SendPacketAck :: "dc_env \<Rightarrow> u16 \<Rightarrow> icq_subtype \<Rightarrow> unit dcm" where
  "SendPacketAck E seqnum st =
     thenM (dc_Encrypt E (ICQSubType_Output st (packet_head V6_TCP_ACK seqnum))) (dc_Send E)"

definition set_ft_seqnum :: "u16 \<Rightarrow> message_event \<Rightarrow> message_event" where
  "set_ft_seqnum seqnum ev =
     (case ev_body ev of
        FileTransferEvent fe \<Rightarrow> ev\<lparr>ev_body := FileTransferEvent (fe\<lparr>fe_seqnum := seqnum\<rparr>)\<rparr>
      | _ \<Rightarrow> ev)"

definition cache_msg :: "dc_env \<Rightarrow> u16 \<Rightarrow> message_event \<Rightarrow> unit dcm" where
  "cache_msg E seqnum ev =
     modify (\<lambda>s. s\<lparr>dc_msgcache := cache_insert seqnum ev (uint (now E)) (dc_msgcache s)\<rparr>)"

definition uncache_msg :: "u16 \<Rightarrow> unit dcm" where
  "uncache_msg seqnum =
     modify (\<lambda>s. s\<lparr>dc_msgcache := snd (cache_remove seqnum_policy seqnum (dc_msgcache s))\<rparr>)"

definition SendPacketEvent :: "dc_env \<Rightarrow> message_event \<Rightarrow> unit dcm" where
  "SendPacketEvent E ev =
     thenM NextSeqNum (\<lambda>seqnum.
     thenM (gets dc_mh) (\<lambda>mh.
     thenM (liftR (handleOutgoing (c2s E) (indet E) ev mh)) (\<lambda>(u, ub).
     let st = wire_message u ub in
     thenM (dc_Encrypt E (ICQSubType_Output st (packet_head V6_TCP_START seqnum))) (\<lambda>c.
     thenM (dc_Send E c) (\<lambda>_.
     cache_msg E seqnum (if getType (body st) = MSG_Type_FT then set_ft_seqnum seqnum ev else ev))))))"

fun flush_loop :: "dc_env \<Rightarrow> message_event list \<Rightarrow> unit dcm" where
  "flush_loop E [] = ret ()"
| "flush_loop E (ev # q) =
     thenM (SendPacketEvent E ev) (\<lambda>_.
     thenM (modify (\<lambda>s. s\<lparr>dc_msgqueue := q\<rparr>)) (\<lambda>_. flush_loop E q))"

text \<open>Sending does not change the queue.\<close>

definition flush_queue :: "dc_env \<Rightarrow> unit dcm" where
  "flush_queue E = thenM (gets dc_msgqueue) (flush_loop E)"

definition SendEvent :: "dc_env \<Rightarrow> message_event \<Rightarrow> unit dcm" where
  "SendEvent E ev =
     thenM (gets dc_state) (\<lambda>st.
     if st = CONNECTED then SendPacketEvent E ev
     else modify (\<lambda>s. s\<lparr>dc_msgqueue := dc_msgqueue s @ [ev]\<rparr>))"

text \<open>Removing all entries with a key: \<^verbatim>\<open>while (m_msgcache.exists(k)) m_msgcache.remove(k)\<close>.\<close>

function remove_all :: "'k \<Rightarrow> ('k, 'v) cache \<Rightarrow> ('k, 'v) cache" where
  "remove_all k c =
     (if cache_exists k c then remove_all k (snd (cache_remove seqnum_policy k c)) else c)"
  by pat_completeness auto


termination
proof (relation "measure (\<lambda>(k, c). length (m_list c))")
  fix k :: 'k and c :: "('k, 'v) cache"
  assume "cache_exists k c"
  then obtain i where "cache_lookup k c = Some i" "i < length (m_list c)"
    by (auto simp: cache_exists_def cache_lookup_def dest: lookup_index_Some)
  then show "((k, snd (cache_remove seqnum_policy k c)), k, c) \<in> measure (\<lambda>(k, c). length (m_list c))"
    by (simp add: cache_remove_def removeItem_def Let_def erase_at_def)
qed simp

declare remove_all.simps [simp del]

definition SendFTACK :: "dc_env \<Rightarrow> ft_event \<Rightarrow> unit dcm" where
  "SendFTACK E fe =
     thenM (if fe_state fe = FT_ACCEPTED then
              thenM (liftR (the_set (fe_port fe))) (\<lambda>port.
              ret (new_uin_part\<lparr>u_advanced := True, u_ack := True\<rparr>,
                   (setRevPort port (new_FTICQSubType\<lparr>ft_port := port\<rparr>))\<lparr>ft_size := 0, ft_message := ''''\<rparr>))
            else
              ret (new_uin_part\<lparr>u_advanced := True, u_ack := True, u_status := AcceptStatus_Denied\<rparr>,
                   new_FTICQSubType\<lparr>ft_port := 0, ft_size := 0, ft_message := fe_refusal_message fe\<rparr>)) (\<lambda>(u, f).
     thenM (SendPacketAck E (fe_seqnum fe) \<lparr>m_flags8 = 0, body = UINSubType u (FTBody f)\<rparr>) (\<lambda>_.
     modify (\<lambda>s. s\<lparr>dc_msgcache := remove_all (fe_seqnum fe) (dc_msgcache s)\<rparr>)))"

definition SendFTCancel :: "dc_env \<Rightarrow> ft_event \<Rightarrow> unit dcm" where
  "SendFTCancel E fe =
     thenM (dc_Encrypt E (ICQSubType_Output
       \<lparr>m_flags8 = 0, body = UINSubType (new_uin_part\<lparr>u_advanced := True\<rparr>)
         (FTBody (new_FTICQSubType\<lparr>ft_port := 0, ft_size := 0, ft_message := ''''\<rparr>))\<rparr>
       (packet_head V6_TCP_CANCEL (fe_seqnum fe)))) (\<lambda>c.
     thenM (dc_Send E c) (\<lambda>_. uncache_msg (fe_seqnum fe)))"

section \<open>Receiving\<close>

definition ParseInitPacket :: "buffer \<Rightarrow> buffer dcm" where
  "ParseInitPacket b =
     thenM (liftR (get_u16 (setLittleEndian b))) (\<lambda>(len, b).
     thenM (liftR (get_u8 b)) (\<lambda>(start_byte, b).
     thenM (unless (start_byte = 0xff) ''Init Packet didn't start with 0xff'') (\<lambda>_.
     thenM (liftR (get_u16 b)) (\<lambda>(tcp_version, b).
     let b = advance 2 b in
     thenM (gets dc_incoming) (\<lambda>incoming.
     thenM (if incoming then
              thenM (modify (\<lambda>s. s\<lparr>dc_remote_tcp_version := Some tcp_version\<rparr>)) (\<lambda>_.
              thenM (unless (tcp_version > 5) ''Too old client < ICQ99'') (\<lambda>_.
              modify (\<lambda>s. s\<lparr>dc_eff_tcp_version := Some (if tcp_version = 6 then 6 else 7)\<rparr>)))
            else
              thenM (read dc_remote_tcp_version) (\<lambda>v.
              unless (tcp_version = v) ''Client claiming different TCP versions'')) (\<lambda>_.
     thenM (liftR (get_u32 b)) (\<lambda>(our_uin, b).
     thenM (gets (\<lambda>s. m_uin (self_contact s))) (\<lambda>uin.
     thenM (unless (our_uin = uin) ''Local UIN in Init Packet not same as our Local UIN'') (\<lambda>_.
     thenM (liftR (get_u32 (advance 6 b))) (\<lambda>(remote_uin, b).
     thenM (if incoming then modify (\<lambda>s. s\<lparr>dc_remote_uin := Some remote_uin\<rparr>)
            else
              thenM (read dc_remote_uin) (\<lambda>v.
              unless (v = remote_uin) ''Remote UIN in Init Packet for Remote Client not what was expected'')) (\<lambda>_.
     thenM (liftR (get_u8 (advance 8 b))) (\<lambda>(flags, b).
     thenM (modify (\<lambda>s. s\<lparr>dc_tcp_flags := Some flags\<rparr>)) (\<lambda>_.
     thenM (liftR (get_u32 (advance 4 b))) (\<lambda>(session_id, b).
     thenM (if incoming then modify (\<lambda>s. s\<lparr>dc_session_id := Some session_id\<rparr>)
            else
              thenM (read dc_session_id) (\<lambda>v.
              unless (v = session_id) ''Session ID from Remote Client doesn't match the one we sent'')) (\<lambda>_.
     thenM (read dc_eff_tcp_version) (\<lambda>eff.
     ret (if eff = 7 then advance 4 (advance 8 b) else advance 8 b)))))))))))))))))"

definition ParseInitAck :: "buffer \<Rightarrow> buffer dcm" where
  "ParseInitAck b =
     thenM (liftR (get_u16 (setLittleEndian b))) (\<lambda>(len, b).
     thenM (unless (len = 4) ''Init Ack not as expected'') (\<lambda>_.
     thenM (liftR (get_u32 b)) (\<lambda>(a, b). ret b)))"

definition ParseInit2 :: "buffer \<Rightarrow> buffer dcm" where
  "ParseInit2 b =
     thenM (liftR (get_u16 (setLittleEndian b))) (\<lambda>(len, b).
     thenM (unless (len = 0x0021) ''V7 final handshake packet incorrect length'') (\<lambda>_.
     thenM (liftR (get_u8 b)) (\<lambda>(t, b).
     thenM (unless (t = 0x03) ''Expecting V7 final handshake packet, received something else'') (\<lambda>_.
     thenM (liftR (get_u32 b)) (\<lambda>(unknown, b).
     thenM (liftR (get_u32 b)) (\<lambda>(unknown, b).
     ret (advance 24 b)))))))"

text \<open>A message received from a connected client, after \<^verbatim>\<open>command\<close> was checked.\<close>

definition handle_start :: "dc_env \<Rightarrow> u16 \<Rightarrow> u8 \<Rightarrow> uin_part \<Rightarrow> uin_body \<Rightarrow> unit dcm" where
  "handle_start E seqnum fl u ub =
     (case ub of
        FTBody f \<Rightarrow>
          thenM (gets (\<lambda>s. handleIncomingFT (indet E) (now E) u f seqnum True (dc_mh s))) (\<lambda>(ev, mh, sigs).
          thenM (modify (\<lambda>s. s\<lparr>dc_mh := mh\<rparr>)) (\<lambda>_.
          thenM (put_out (map HandlerSignal sigs)) (\<lambda>_.
          cache_msg E seqnum ev)))
      | _ \<Rightarrow>
          thenM (gets dc_mh) (\<lambda>mh.
          thenM (liftR (handleIncoming (c2s E) (s2c E) (on_message E) (on_auto E) (indet E) (now E) 0
            (UINSubType u ub) mh)) (\<lambda>(ack, ist, mh, sigs).
          thenM (modify (\<lambda>s. s\<lparr>dc_mh := mh\<rparr>)) (\<lambda>_.
          thenM (put_out (map HandlerSignal sigs)) (\<lambda>_.
          if ack then SendPacketAck E seqnum \<lparr>m_flags8 = fl, body = ist\<rparr> else ret ())))))"

text \<open>The value of an entry that exists.\<close>

definition cached_msg :: "u16 \<Rightarrow> dc \<Rightarrow> message_event option" where
  "cached_msg seqnum s = cache_map (dc_msgcache s) seqnum"

definition handle_ack :: "dc_env \<Rightarrow> u16 \<Rightarrow> uin_part \<Rightarrow> uin_body \<Rightarrow> unit dcm" where
  "handle_ack E seqnum u ub =
     thenM (gets (cached_msg seqnum)) (\<lambda>found.
     case found of
       None \<Rightarrow> ret ()
     | Some ev \<Rightarrow>
         thenM (liftR (handleIncomingACK (s2c E) (ev\<lparr>m_isdirect := Some True\<rparr>) u ub)) (\<lambda>(ev, sigs).
         thenM (put_out (map HandlerSignal sigs)) (\<lambda>_. uncache_msg seqnum)))"

definition handle_cancel :: "u16 \<Rightarrow> uin_body \<Rightarrow> unit dcm" where
  "handle_cancel seqnum ub =
     thenM (gets (cached_msg seqnum)) (\<lambda>found.
     case (ub, found) of
       (FTBody f, Some ev) \<Rightarrow>
         if ev_type (ev_body ev) = FileTransfer then
           thenM (put_out (map HandlerSignal (snd (handleIncomingFTCancel ev)))) (\<lambda>_. uncache_msg seqnum)
         else ret ()
     | _ \<Rightarrow> ret ())"

definition ParsePacketInt :: "dc_env \<Rightarrow> buffer \<Rightarrow> unit dcm" where
  "ParsePacketInt E b =
     thenM (liftR (get_u16 (setLittleEndian b))) (\<lambda>(len, b).
     thenM (read dc_eff_tcp_version) (\<lambda>eff.
     thenM (if eff = 7 then
              thenM (liftR (get_u8 b)) (\<lambda>(start_byte, b).
              thenM (unless (start_byte = 0x02) ''Message Packet didn't start with 0x02'') (\<lambda>_. ret b))
            else ret b) (\<lambda>b.
     thenM (liftR (get_u32 b)) (\<lambda>(checksum, b).
     thenM (liftR (get_u16 b)) (\<lambda>(command, b).
     thenM (liftR (get_u16 b)) (\<lambda>(unknown, b).
     thenM (liftR (get_u16 b)) (\<lambda>(seqnum, b).
     thenM (unless (unknown = 0x000e) ''Ignoring weird packet'') (\<lambda>_.
     thenM (liftR (ParseICQSubType True (command = V6_TCP_ACK) (advance 12 b))) (\<lambda>(st, b).
     case body st of
       UINSubType u ub \<Rightarrow>
         thenM contact_of (\<lambda>r.
         thenM (gets (\<lambda>s. u\<lparr>u_source := m_uin (mh_store (dc_mh s) r)\<rparr>)) (\<lambda>u.
         thenM (unless (command \<noteq> 0) ''Invalid TCP Packet'') (\<lambda>_.
         thenM (if command = V6_TCP_START then handle_start E seqnum (m_flags8 st) u ub
                else if command = V6_TCP_ACK then handle_ack E seqnum u ub
                else if command = V6_TCP_CANCEL then handle_cancel seqnum ub
                else raise (Fault (ParseException ''Unknown TCP Command received 0x''))) (\<lambda>_.
         thenM (liftR (get_u8 b)) (\<lambda>(junk, b).
         thenM (liftR (get_u16 b)) (\<lambda>(version, b). ret ()))))))
     | _ \<Rightarrow> raise (Fault (ParseException ''Unknown ICQ subtype'')))))))))))"

definition ParsePacket :: "dc_env \<Rightarrow> buffer \<Rightarrow> unit dcm" where
  "ParsePacket E b =
     thenM (read dc_eff_tcp_version) (\<lambda>eff.
     thenM (liftO (Decrypt eff b new_buffer)) (\<lambda>(ok, b, c).
     thenM (unless ok ''Decrypting failed'') (\<lambda>_. ParsePacketInt E c)))"

definition ConfirmUIN :: "unit dcm" where
  "ConfirmUIN =
     thenM (read dc_remote_uin) (\<lambda>uin.
     thenM (gets id) (\<lambda>s.
     if \<not> dc_has_list s then raise UnsetMember
     else if tree_exists uin (mh_tree (dc_mh s)) then
       (case tree_lookup_uin uin (mh_tree (dc_mh s)) of
          None \<Rightarrow> raise NullContact
        | Some r \<Rightarrow>
            (let c = mh_store (dc_mh s) r in
             if (m_ext_ip c = dc_local_ext_ip s \<and> m_lan_ip c = dc_remote_ip s) \<or> m_ext_ip c = dc_remote_ip s
             then modify (\<lambda>s. s\<lparr>dc_contact := Some r\<rparr>)
             else raise (Disconnected ''Refusing direct connection from someone that claims to be UIN '')))
     else raise (Disconnected ''Refusing direct connection to contact not on contact list'')))"

definition to_phase :: "dc_phase \<Rightarrow> unit dcm" where
  "to_phase p = modify (\<lambda>s. s\<lparr>dc_state := p\<rparr>)"

text \<open>\<^verbatim>\<open>m_state = CONNECTED; flush_queue(); connected.emit(this);\<close>\<close>

definition enter_connected :: "dc_env \<Rightarrow> unit dcm" where
  "enter_connected E =
     thenM (to_phase CONNECTED) (\<lambda>_. thenM (flush_queue E) (\<lambda>_. put_out [ConnectedSignal]))"

text \<open>The body of the loop of \<open>Parse\<close>: what is done with one packet.\<close>

definition handle_packet :: "dc_env \<Rightarrow> buffer \<Rightarrow> unit dcm" where
  "handle_packet E sb =
     thenM (gets id) (\<lambda>s.
     case dc_state s of
       WAITING_FOR_INIT \<Rightarrow>
         thenM (ParseInitPacket sb) (\<lambda>_.
         thenM (SendInitAck E) (\<lambda>_.
         if dc_incoming s then
           thenM (SendInitPacket E) (\<lambda>_. to_phase WAITING_FOR_INIT_ACK)
         else
           thenM (read dc_eff_tcp_version) (\<lambda>eff.
           if eff = 7 then thenM (SendInit2 E) (\<lambda>_. to_phase WAITING_FOR_INIT2)
           else enter_connected E)))
     | WAITING_FOR_INIT_ACK \<Rightarrow>
         thenM (ParseInitAck sb) (\<lambda>_.
         if dc_incoming s then
           thenM (read dc_eff_tcp_version) (\<lambda>eff.
           if eff = 7 then to_phase WAITING_FOR_INIT2
           else thenM ConfirmUIN (\<lambda>_. enter_connected E))
         else to_phase WAITING_FOR_INIT)
     | WAITING_FOR_INIT2 \<Rightarrow>
         thenM (ParseInit2 sb) (\<lambda>_.
         thenM (if dc_incoming s then thenM (SendInit2 E) (\<lambda>_. ConfirmUIN) else ret ()) (\<lambda>_.
         enter_connected E))
     | CONNECTED \<Rightarrow> ParsePacket E sb
     | NOT_CONNECTED \<Rightarrow> ret ())"

text \<open>The limit of the length of a packet is that of its length field.\<close>

definition Incoming_Packet_Limit :: nat where
  "Incoming_Packet_Limit = 65535"

text \<open>
  One turn of the loop: the next packet is taken from the receive buffer, \<open>None\<close> if it is not complete.
\<close>

definition next_packet :: "buffer \<Rightarrow> (buffer option \<times> buffer) result" where
  "next_packet recv =
     andThen (get_u16 (setLittleEndian (setPos 0 recv))) (\<lambda>(len, recv).
     if unat len > Incoming_Packet_Limit then Inl (ParseException ''Received too long incoming packet'')
     else if remains recv < ucast len then Inr (None, recv)
     else andThen (chopOffBuffer recv new_buffer (ucast len + 2)) (\<lambda>(recv, sb). Inr (Some sb, recv)))"

lemma next_packet_shorter:
  "next_packet recv = Inr (Some sb, recv') \<Longrightarrow> length (m_data recv') < length (m_data recv)"
proof -
  assume n: "next_packet recv = Inr (Some sb, recv')"
  then obtain len r where "get_u16 (setLittleEndian (setPos 0 recv)) = Inr (len, r)"
      "chopOffBuffer r new_buffer (ucast len + 2) = Inr (recv', sb)"
    by (auto simp: next_packet_def andThen_eq_Inr split: if_splits)
  moreover from this(1) have "m_data r = m_data recv"
    by (auto simp: get_u16_def setPos_def setLittleEndian_def andThen_eq_Inr split: if_splits)
  moreover have "unat (ucast len + 2 :: u32) = unat len + 2"
    using unat_u16_le [of len] by (subst unat_plus_u32) auto
  ultimately show ?thesis
    by (auto simp: chopOffBuffer_def split: if_splits)
qed

function dc_Parse :: "dc_env \<Rightarrow> buffer \<Rightarrow> dc \<Rightarrow> (exn + buffer) \<times> dc" where
  "dc_Parse E recv s =
     (if buf_empty recv then (Inr recv, s)
      else case next_packet recv of
             Inl e \<Rightarrow> (Inl (Fault e), s)
           | Inr (None, recv) \<Rightarrow> (Inr recv, s)
           | Inr (Some sb, recv) \<Rightarrow>
               (case handle_packet E sb s of
                  (Inl e, s) \<Rightarrow> (Inl e, s)
                | (Inr _, s) \<Rightarrow> dc_Parse E recv s))"
  by pat_completeness auto
termination
  by (relation "measure (\<lambda>(E, recv, s). length (m_data recv))") (auto dest: next_packet_shorter)

declare dc_Parse.simps [simp del]

text \<open>
  \<open>Recv\<close> over what the socket delivers, until there is no more for now (\<open>None\<close> at the end of the list)
  or the socket fails. A socket or parse exception becomes a \<^verbatim>\<open>DisconnectedException\<close>.
\<close>

definition as_disconnected :: "exn \<Rightarrow> exn" where
  "as_disconnected e =
     (case e of
        SocketError \<Rightarrow> Disconnected ''Failed on recv: ''
      | Fault (ParseException msg) \<Rightarrow> Disconnected (''Failed parsing: '' @ msg)
      | _ \<Rightarrow> e)"

fun dc_Recv :: "dc_env \<Rightarrow> u8 list option list \<Rightarrow> buffer \<Rightarrow> dc \<Rightarrow> (exn + buffer) \<times> dc" where
  "dc_Recv E [] recv s = (Inr recv, s)"
| "dc_Recv E (None # cs) recv s = (Inl (as_disconnected SocketError), s)"
| "dc_Recv E (Some c # cs) recv s =
     (case dc_Parse E (pack_bytes c recv) s of
        (Inl e, s) \<Rightarrow> (Inl (as_disconnected e), s)
      | (Inr recv, s) \<Rightarrow> dc_Recv E cs recv s)"

section \<open>Expiry and destruction\<close>

definition expired_cb :: "message_event \<Rightarrow> dc_output" where
  "expired_cb ev =
     ExpiredAck (ev\<lparr>m_finished := Some False, m_delivered := Some False, m_isdirect := Some True\<rparr>)"

definition expiry_signals :: "message_event event list \<Rightarrow> dc_output list" where
  "expiry_signals evs = concat (map (\<lambda>e. case e of Expired ev \<Rightarrow> [expired_cb ev] | Deleted _ \<Rightarrow> []) evs)"

definition dc_clearoutMessagesPoll :: "dc_env \<Rightarrow> unit dcm" where
  "dc_clearoutMessagesPoll E = (\<lambda>s.
     case clearoutPoll seqnum_policy (uint (now E)) (dc_msgcache s) [] of
       None \<Rightarrow> (Inl Diverges, s)
     | Some (evs, c) \<Rightarrow> (Inr (), s\<lparr>dc_msgcache := c, dc_out := dc_out s @ expiry_signals evs\<rparr>))"

text \<open>The destructor; \<open>valid\<close> is whether the socket has a handle.\<close>

definition delete_dc :: "bool \<Rightarrow> unit dcm" where
  "delete_dc valid = (\<lambda>s.
     case expireAll seqnum_policy (dc_msgcache s) [] of
       None \<Rightarrow> (Inl Diverges, s)
     | Some (evs, c) \<Rightarrow>
         (Inr (), s\<lparr>dc_msgcache := c, dc_msgqueue := [],
            dc_out := dc_out s @ expiry_signals evs @ map expired_cb (dc_msgqueue s) @
              (if valid then [RemoveSocket] else [])\<rparr>))"

definition dc_setContact :: "contact_ref \<Rightarrow> unit dcm" where
  "dc_setContact r = modify (\<lambda>s. s\<lparr>dc_contact := Some r\<rparr>)"

end
