(* ===== verification/DirectConnection.thy ===== *)
theory DirectConnection
  imports DirectClient
begin

text \<open>
  Proofs about the connection between two clients (\<open>DirectClient\<close>): what any sequence of bytes
  received can and cannot do to an incoming connection, the independence of the handling from the way
  the bytes arrive, and the handshake and the exchange of messages between two clients.
\<close>

section \<open>Rules for the operations\<close>

lemma dcm_simps [simp]:
  "put_out os s = (Inr (), s\<lparr>dc_out := dc_out s @ os\<rparr>)"
  "to_phase p s = (Inr (), s\<lparr>dc_state := p\<rparr>)"
  "draw E s = (Inr (draws E (dc_drawn s)), s\<lparr>dc_drawn := Suc (dc_drawn s)\<rparr>)"
  by (simp_all add: put_out_def to_phase_def draw_def modify_def)

section \<open>What an operation leaves alone\<close>

text \<open>
  \<open>tame v q ok m\<close>: the operation does not change the part \<open>v\<close> of the state, makes only outputs with \<open>q\<close>, and
  does not use what was never set where \<open>ok\<close> holds.
\<close>

definition unset_fault :: "exn \<Rightarrow> bool" where
  "unset_fault e \<longleftrightarrow> e = UnsetMember \<or> e = NullContact"

definition tame :: "(dc \<Rightarrow> dc) \<Rightarrow> (dc_output \<Rightarrow> bool) \<Rightarrow> (dc \<Rightarrow> bool) \<Rightarrow> 'a dcm \<Rightarrow> bool" where
  "tame v q ok m \<longleftrightarrow> (\<forall>s r s'. m s = (r, s') \<longrightarrow> v s' = v s \<and>
     (\<exists>os. dc_out s' = dc_out s @ os \<and> (\<forall>x\<in>set os. q x)) \<and>
     (ok s \<longrightarrow> (\<forall>e. r = Inl e \<longrightarrow> \<not> unset_fault e)))"

lemma tameI:
  assumes "\<And>s r s'. m s = (r, s') \<Longrightarrow> v s' = v s \<and>
     (\<exists>os. dc_out s' = dc_out s @ os \<and> (\<forall>x\<in>set os. q x)) \<and>
     (ok s \<longrightarrow> (\<forall>e. r = Inl e \<longrightarrow> \<not> unset_fault e))"
  shows "tame v q ok m"
  unfolding tame_def
proof (rule allI, rule allI, rule allI, rule impI)
  fix s r s'
  assume "m s = (r, s')"
  then show "v s' = v s \<and> (\<exists>os. dc_out s' = dc_out s @ os \<and> (\<forall>x\<in>set os. q x)) \<and>
     (ok s \<longrightarrow> (\<forall>e. r = Inl e \<longrightarrow> \<not> unset_fault e))"
    by (rule assms)
qed

lemma tameD:
  assumes "tame v q ok m" and "m s = (r, s')"
  obtains os where "v s' = v s" "dc_out s' = dc_out s @ os" "\<forall>x\<in>set os. q x"
    "ok s \<longrightarrow> (\<forall>e. r = Inl e \<longrightarrow> \<not> unset_fault e)"
  using assms(1) [unfolded tame_def, THEN spec, THEN spec, THEN spec, THEN mp, OF assms(2)] that
  by (elim conjE exE) simp

text \<open>What holds for any part of the state that decides about \<open>ok\<close>.\<close>

locale state_view =
  fixes v :: "dc \<Rightarrow> dc" and q :: "dc_output \<Rightarrow> bool" and ok :: "dc \<Rightarrow> bool"
  assumes ok_view: "v s' = v s \<Longrightarrow> ok s' = ok s"
    and view_updates [simp]: "v (s\<lparr>dc_out := os\<rparr>) = v s" "v (s\<lparr>dc_drawn := n\<rparr>) = v s"
      "v (s\<lparr>dc_seqnum := k\<rparr>) = v s" "v (s\<lparr>dc_msgcache := c\<rparr>) = v s"
    and sent_ok: "q (Sent bs)"
begin

lemma tame_thenM:
  assumes m: "tame v q ok m" and f: "\<And>x. tame v q ok (f x)"
  shows "tame v q ok (thenM m f)"
proof (rule tameI)
  fix s r s'' assume t: "thenM m f s = (r, s'')"
  obtain r1 s' where m1: "m s = (r1, s')" by fastforce
  from tameD [OF m m1] obtain os where 1: "v s' = v s" "dc_out s' = dc_out s @ os"
    "\<forall>x\<in>set os. q x" "ok s \<longrightarrow> (\<forall>e. r1 = Inl e \<longrightarrow> \<not> unset_fault e)" .
  show "v s'' = v s \<and> (\<exists>os. dc_out s'' = dc_out s @ os \<and> (\<forall>x\<in>set os. q x)) \<and>
     (ok s \<longrightarrow> (\<forall>e. r = Inl e \<longrightarrow> \<not> unset_fault e))"
  proof (cases r1)
    case (Inl e)
    then show ?thesis
      using t m1 1 by (auto simp: thenM_def)
  next
    case (Inr x)
    then have "f x s' = (r, s'')"
      using t m1 by (simp add: thenM_def)
    from tameD [OF f this] obtain os' where "v s'' = v s'" "dc_out s'' = dc_out s' @ os'"
      "\<forall>x\<in>set os'. q x" "ok s' \<longrightarrow> (\<forall>e. r = Inl e \<longrightarrow> \<not> unset_fault e)" .
    then show ?thesis
      using 1 ok_view [OF 1(1)] by (auto simp: ball_Un)
  qed
qed

lemma tame_ret: "tame v q ok (ret x)" and tame_gets: "tame v q ok (gets f)"
  by (simp_all add: tame_def)

lemma tame_raise: "\<not> unset_fault e \<Longrightarrow> tame v q ok (raise e)"
  by (simp add: tame_def)

lemma tame_liftR: "tame v q ok (liftR r)"
  by (cases r) (auto simp: tame_def unset_fault_def)

lemma tame_liftO: "tame v q ok (liftO r)"
proof (cases r)
  case None
  then show ?thesis
    by (auto simp: tame_def unset_fault_def)
qed (simp add: tame_liftR)

lemma tame_unless: "tame v q ok (unless c msg)"
  by (cases c) (auto simp: tame_def unset_fault_def)

lemma tame_read:
  assumes "\<And>s. ok s \<Longrightarrow> f s \<noteq> None"
  shows "tame v q ok (read f)"
proof (rule tameI)
  fix s r s'
  assume "read f s = (r, s')"
  then show "v s' = v s \<and> (\<exists>os. dc_out s' = dc_out s @ os \<and> (\<forall>x\<in>set os. q x)) \<and>
     (ok s \<longrightarrow> (\<forall>e. r = Inl e \<longrightarrow> \<not> unset_fault e))"
    using assms [of s] by (auto simp: read_def split: option.splits)
qed

lemma tame_modify: "(\<And>s. v (f s) = v s \<and> dc_out (f s) = dc_out s) \<Longrightarrow> tame v q ok (modify f)"
  by (simp add: tame_def)

lemma tame_if: "tame v q ok m \<Longrightarrow> tame v q ok m' \<Longrightarrow> tame v q ok (if c then m else m')"
  by simp

lemma tame_prod: "(\<And>x y. tame v q ok (f x y)) \<Longrightarrow> tame v q ok (case p of (x, y) \<Rightarrow> f x y)"
  by (cases p) simp



lemma tame_put_out: "(\<And>x. x \<in> set os \<Longrightarrow> q x) \<Longrightarrow> tame v q ok (put_out os)"
  by (auto simp: tame_def)

lemma tame_draw: "tame v q ok (draw E)"
  by (auto simp: tame_def)

lemma tame_NextSeqNum: "tame v q ok NextSeqNum"
  by (auto simp: tame_def NextSeqNum_def)

lemma tame_Send: "tame v q ok (dc_Send E b)"
  using sent_ok by (auto simp: tame_def dc_Send_def unset_fault_def split: if_splits)

lemma tame_cache_msg: "tame v q ok (cache_msg E k ev)" and tame_uncache_msg: "tame v q ok (uncache_msg k)"
  unfolding cache_msg_def uncache_msg_def by (rule tame_modify, simp)+

lemmas tame_rules = tame_thenM tame_ret tame_gets tame_liftR tame_liftO tame_unless tame_if tame_prod
  tame_draw tame_NextSeqNum tame_Send tame_cache_msg tame_uncache_msg

end

section \<open>Sending\<close>

text \<open>
  \<open>ident\<close> is who the connection is with and how far the handshake got.
\<close>

definition ident :: "dc \<Rightarrow> dc" where
  "ident s = s\<lparr>dc_msgcache := new_cache, dc_msgqueue := [], dc_seqnum := 0, dc_drawn := 0, dc_out := []\<rparr>"

text \<open>The outputs that are not made before the connection is up.\<close>

definition quiet_out :: "dc_output \<Rightarrow> bool" where
  "quiet_out out \<longleftrightarrow> out \<noteq> ConnectedSignal \<and> (\<forall>h. out \<noteq> HandlerSignal h)"

definition versions_set :: "dc \<Rightarrow> bool" where
  "versions_set s \<longleftrightarrow>
     (dc_eff_tcp_version s = Some 6 \<or> dc_eff_tcp_version s = Some 7) \<and> dc_remote_uin s \<noteq> None \<and>
     dc_session_id s \<noteq> None"

lemma ident_fields:
  assumes "ident s' = ident s"
  shows "dc_incoming s' = dc_incoming s" "dc_has_list s' = dc_has_list s" "dc_state s' = dc_state s"
    "dc_eff_tcp_version s' = dc_eff_tcp_version s" "dc_remote_uin s' = dc_remote_uin s"
    "dc_remote_tcp_version s' = dc_remote_tcp_version s"
    "dc_session_id s' = dc_session_id s" "dc_contact s' = dc_contact s" "dc_remote_ip s' = dc_remote_ip s"
    "dc_local_ext_ip s' = dc_local_ext_ip s" "dc_mh s' = dc_mh s" "versions_set s' = versions_set s"
  using assms by (cases s; cases s'; simp add: ident_def versions_set_def)+

interpretation sending: state_view ident quiet_out versions_set
proof
  fix s s' :: dc
  assume "ident s' = ident s"
  then show "versions_set s' = versions_set s" by (rule ident_fields)
qed (simp_all add: ident_def quiet_out_def)

abbreviation keeps :: "'a dcm \<Rightarrow> bool" where
  "keeps \<equiv> tame ident quiet_out versions_set"

text \<open>What a message from a connected peer can change: anything but the connection itself.\<close>

definition peer_view :: "dc \<Rightarrow> dc" where
  "peer_view s = (ident s)\<lparr>dc_mh := undefined\<rparr>"

definition peer_ok :: "dc \<Rightarrow> bool" where
  "peer_ok s \<longleftrightarrow> versions_set s \<and> dc_contact s \<noteq> None"

lemma peer_fields:
  assumes "peer_view s' = peer_view s"
  shows "dc_incoming s' = dc_incoming s" "dc_has_list s' = dc_has_list s" "dc_state s' = dc_state s"
    "dc_remote_uin s' = dc_remote_uin s" "dc_contact s' = dc_contact s" "dc_remote_ip s' = dc_remote_ip s"
    "dc_local_ext_ip s' = dc_local_ext_ip s" "versions_set s' = versions_set s" "peer_ok s' = peer_ok s"
  using assms by (cases s; cases s'; simp add: peer_view_def ident_def versions_set_def peer_ok_def)+

interpretation peer: state_view peer_view "\<lambda>_. True" peer_ok
proof
  fix s s' :: dc
  assume "peer_view s' = peer_view s"
  then show "peer_ok s' = peer_ok s" by (rule peer_fields)
qed (simp_all add: peer_view_def ident_def)

lemma peer_tame: "keeps m \<Longrightarrow> tame peer_view (\<lambda>_. True) peer_ok m"
  unfolding tame_def peer_view_def peer_ok_def by metis

lemma keeps_read:
  "keeps (read dc_eff_tcp_version)" "keeps (read dc_remote_uin)" "keeps (read dc_session_id)"
  by (rule sending.tame_read, auto simp: versions_set_def)+

lemma keeps_Encrypt: "keeps (dc_Encrypt E b)"
  unfolding dc_Encrypt_def by (intro sending.tame_rules keeps_read)

lemma keeps_SendPacketEvent: "keeps (SendPacketEvent E ev)"
  unfolding SendPacketEvent_def Let_def by (intro sending.tame_rules keeps_Encrypt)

lemma keeps_flush_loop: "keeps (flush_loop E q)"
proof (induction q)
  case Nil
  show ?case
    unfolding flush_loop.simps by (rule sending.tame_ret)
next
  case (Cons ev q)
  show ?case
    unfolding flush_loop.simps
    by (intro sending.tame_rules keeps_SendPacketEvent sending.tame_modify Cons.IH) (simp add: ident_def)
qed

lemma keeps_flush_queue: "keeps (flush_queue E)"
  unfolding flush_queue_def by (intro sending.tame_rules keeps_flush_loop)

lemma keeps_SendEvent: "keeps (SendEvent E ev)"
  unfolding SendEvent_def
  by (intro sending.tame_rules keeps_SendPacketEvent sending.tame_modify) (simp add: ident_def)

lemma keeps_SendPacketAck: "keeps (SendPacketAck E k st)"
  unfolding SendPacketAck_def by (intro sending.tame_rules keeps_Encrypt)

lemma keeps_SendFTACK: "keeps (SendFTACK E fe)"
  unfolding SendFTACK_def
  by (intro sending.tame_rules keeps_SendPacketAck sending.tame_modify) (simp add: ident_def)

lemma keeps_SendFTCancel: "keeps (SendFTCancel E fe)"
  unfolding SendFTCancel_def by (intro sending.tame_rules keeps_Encrypt)

lemma keeps_init_packets:
  "keeps (SendInitPacket E)" "keeps (SendInitAck E)" "keeps (SendInit2 E)" "keeps (ParseInitAck b)"
  "keeps (ParseInit2 b)"
  unfolding SendInitPacket_def SendInitAck_def SendInit2_def ParseInitAck_def ParseInit2_def
  by (intro sending.tame_rules keeps_read)+

lemma peer_start: "tame peer_view (\<lambda>_. True) peer_ok (handle_start E k fl u ub)"
  unfolding handle_start_def
  by (cases ub; simp only: uin_body.case;
      intro peer.tame_rules peer.tame_modify peer.tame_put_out peer_tame [OF keeps_SendPacketAck])
    (simp_all add: peer_view_def ident_def)

lemma peer_ack: "tame peer_view (\<lambda>_. True) peer_ok (handle_ack E k u ub)"
  unfolding handle_ack_def
proof (rule peer.tame_thenM [OF peer.tame_gets])
  fix found
  show "tame peer_view (\<lambda>_. True) peer_ok (case found of None \<Rightarrow> ret ()
      | Some ev \<Rightarrow>
          thenM (liftR (handleIncomingACK (s2c E) (ev\<lparr>m_isdirect := Some True\<rparr>) u ub)) (\<lambda>(ev, sigs).
          thenM (put_out (map HandlerSignal sigs)) (\<lambda>_. uncache_msg k)))"
    by (cases found; simp only: option.case; intro peer.tame_rules peer.tame_put_out TrueI)
qed

lemma peer_cancel: "tame peer_view (\<lambda>_. True) peer_ok (handle_cancel k ub)"
  unfolding handle_cancel_def
proof (rule peer.tame_thenM [OF peer.tame_gets])
  fix found
  show "tame peer_view (\<lambda>_. True) peer_ok (case (ub, found) of (FTBody f, Some ev) \<Rightarrow>
         if ev_type (ev_body ev) = FileTransfer then
           thenM (put_out (map HandlerSignal (snd (handleIncomingFTCancel ev)))) (\<lambda>_. uncache_msg k)
         else ret ()
     | _ \<Rightarrow> ret ())"
    by (cases ub; cases found; simp only: prod.case option.case uin_body.case;
        intro peer.tame_rules peer.tame_put_out TrueI)
qed

lemma peer_read: "tame peer_view (\<lambda>_. True) peer_ok (read dc_eff_tcp_version)"
  by (rule peer.tame_read) (auto simp: peer_ok_def versions_set_def)

lemma peer_contact_of: "tame peer_view (\<lambda>_. True) peer_ok contact_of"
  by (rule tameI) (auto simp: contact_of_def peer_ok_def split: option.splits)

lemma peer_ParsePacketInt: "tame peer_view (\<lambda>_. True) peer_ok (ParsePacketInt E b)"
proof -
  have body: "tame peer_view (\<lambda>_. True) peer_ok (case body st of
       UINSubType u ub \<Rightarrow>
         thenM contact_of (\<lambda>r.
         thenM (gets (\<lambda>s. u\<lparr>u_source := m_uin (mh_store (dc_mh s) r)\<rparr>)) (\<lambda>u.
         thenM (unless (command \<noteq> 0) ''Invalid TCP Packet'') (\<lambda>_.
         thenM (if command = V6_TCP_START then handle_start E seqnum (m_flags8 st) u ub
                else if command = V6_TCP_ACK then handle_ack E seqnum u ub
                else if command = V6_TCP_CANCEL then handle_cancel seqnum ub
                else raise (Fault (ParseException ''Unknown TCP Command received 0x''))) (\<lambda>_.
         thenM (liftR (get_u8 b)) (\<lambda>(junk, b).
         thenM (liftR (get_u16 b)) (\<lambda>(version, b). ret ()))))))
     | _ \<Rightarrow> raise (Fault (ParseException ''Unknown ICQ subtype'')))" for st command seqnum b
    by (cases "body st"; simp only: subtype_body.case;
        intro peer.tame_rules peer_start peer_ack peer_cancel peer_contact_of peer.tame_raise)
      (simp_all add: unset_fault_def)
  show ?thesis
    unfolding ParsePacketInt_def
    by (intro peer.tame_rules peer_read body)
qed

lemma peer_ParsePacket: "tame peer_view (\<lambda>_. True) peer_ok (ParsePacket E b)"
  unfolding ParsePacket_def by (intro peer.tame_rules peer_read peer_ParsePacketInt)

section \<open>Only known peers are accepted\<close>

text \<open>
  The peer of an incoming connection is accepted under a UIN of the contact list if its address is that
  of the contact, or the address in the contact's network if both are behind the same router.
\<close>

definition accepted :: "handler \<Rightarrow> dc \<Rightarrow> bool" where
  "accepted mh s \<longleftrightarrow>
     (\<exists>uin r. dc_remote_uin s = Some uin \<and> dc_contact s = Some r \<and>
        tree_lookup_uin uin (mh_tree mh) = Some r \<and>
        (m_ext_ip (mh_store mh r) = dc_remote_ip s \<or>
         m_ext_ip (mh_store mh r) = dc_local_ext_ip s \<and> m_lan_ip (mh_store mh r) = dc_remote_ip s))"

text \<open>The invariant of an incoming connection that was made with the handler \<open>mh\<close>.\<close>

definition incoming_inv :: "handler \<Rightarrow> dc \<Rightarrow> bool" where
  "incoming_inv mh s \<longleftrightarrow>
     dc_incoming s \<and> dc_has_list s \<and> dc_state s \<noteq> NOT_CONNECTED \<and>
     (dc_state s \<noteq> WAITING_FOR_INIT \<longrightarrow> versions_set s) \<and>
     (if dc_state s = CONNECTED then accepted mh s
      else dc_mh s = mh \<and> (\<forall>out\<in>set (dc_out s). quiet_out out))"

lemma incoming_inv_ident:
  assumes "ident s' = ident s" and "dc_out s' = dc_out s @ os" and "\<forall>x\<in>set os. quiet_out x"
    and "incoming_inv mh s"
  shows "incoming_inv mh s'"
  using ident_fields [OF assms(1)] assms(2-4) by (auto simp: incoming_inv_def accepted_def)

lemma incoming_inv_peer:
  assumes "peer_view s' = peer_view s" and "dc_state s = CONNECTED" and "incoming_inv mh s"
  shows "incoming_inv mh s'"
  using peer_fields [OF assms(1)] assms(2,3) by (auto simp: incoming_inv_def accepted_def)

text \<open>An operation keeps the invariant, in whatever way it ends, and never uses what was never set.\<close>

definition secure :: "handler \<Rightarrow> (dc \<Rightarrow> bool) \<Rightarrow> 'a dcm \<Rightarrow> ('a \<Rightarrow> dc \<Rightarrow> bool) \<Rightarrow> bool" where
  "secure mh P m Q \<longleftrightarrow> (\<forall>s r s'. incoming_inv mh s \<longrightarrow> P s \<longrightarrow> m s = (r, s') \<longrightarrow>
     incoming_inv mh s' \<and> (case r of Inl e \<Rightarrow> \<not> unset_fault e | Inr x \<Rightarrow> Q x s'))"

lemma secureI:
  assumes "\<And>s r s'. incoming_inv mh s \<Longrightarrow> P s \<Longrightarrow> m s = (r, s') \<Longrightarrow>
     incoming_inv mh s' \<and> (case r of Inl e \<Rightarrow> \<not> unset_fault e | Inr x \<Rightarrow> Q x s')"
  shows "secure mh P m Q"
  unfolding secure_def using assms by blast

lemma secureD:
  assumes "secure mh P m Q" and "incoming_inv mh s" and "P s" and "m s = (r, s')"
  shows "incoming_inv mh s'" and "\<And>e. r = Inl e \<Longrightarrow> \<not> unset_fault e" and "\<And>x. r = Inr x \<Longrightarrow> Q x s'"
proof -
  have "incoming_inv mh s' \<and> (case r of Inl e \<Rightarrow> \<not> unset_fault e | Inr x \<Rightarrow> Q x s')"
    using assms(1) [unfolded secure_def, THEN spec, THEN spec, THEN spec, THEN mp, THEN mp, THEN mp,
        OF assms(2-4)] .
  then show "incoming_inv mh s'" "\<And>e. r = Inl e \<Longrightarrow> \<not> unset_fault e" "\<And>x. r = Inr x \<Longrightarrow> Q x s'"
    by simp_all
qed

lemma secure_thenM:
  assumes m: "secure mh P m R" and f: "\<And>x. secure mh (R x) (f x) Q"
  shows "secure mh P (thenM m f) Q"
proof (rule secureI)
  fix s r s''
  assume s: "incoming_inv mh s" "P s" "thenM m f s = (r, s'')"
  obtain r1 s' where m1: "m s = (r1, s')" by fastforce
  note 1 = secureD [OF m s(1,2) m1]
  show "incoming_inv mh s'' \<and> (case r of Inl e \<Rightarrow> \<not> unset_fault e | Inr x \<Rightarrow> Q x s'')"
  proof (cases r1)
    case (Inl e)
    then show ?thesis
      using s(3) m1 1 by (auto simp: thenM_def)
  next
    case (Inr x)
    then have "f x s' = (r, s'')"
      using s(3) m1 by (simp add: thenM_def)
    from secureD [OF f 1(1) 1(3) [OF Inr] this] show ?thesis
      by (auto split: sum.split)
  qed
qed

lemma secure_weaken:
  assumes m: "secure mh P' m Q'" and P: "\<And>s. P s \<Longrightarrow> P' s" and Q: "\<And>x s. Q' x s \<Longrightarrow> Q x s"
  shows "secure mh P m Q"
proof (rule secureI)
  fix s r s'
  assume "incoming_inv mh s" "P s" "m s = (r, s')"
  note 1 = secureD [OF m this(1) P [OF this(2)] this(3)]
  show "incoming_inv mh s' \<and> (case r of Inl e \<Rightarrow> \<not> unset_fault e | Inr x \<Rightarrow> Q x s')"
    using 1(1,2) Q [OF 1(3)] by (auto split: sum.split)
qed

text \<open>What depends on the view only survives sending.\<close>

lemma secure_keeps:
  assumes m: "keeps m" and P: "\<And>s s'. ident s' = ident s \<Longrightarrow> P s \<Longrightarrow> P s'" and v: "\<And>s. P s \<Longrightarrow> versions_set s"
  shows "secure mh P m (\<lambda>_. P)"
proof (rule secureI)
  fix s r s'
  assume s: "incoming_inv mh s" "P s" "m s = (r, s')"
  from tameD [OF m s(3)] obtain os where "ident s' = ident s" "dc_out s' = dc_out s @ os"
    "\<forall>x\<in>set os. quiet_out x" "versions_set s \<longrightarrow> (\<forall>e. r = Inl e \<longrightarrow> \<not> unset_fault e)" .
  then show "incoming_inv mh s' \<and> (case r of Inl e \<Rightarrow> \<not> unset_fault e | Inr x \<Rightarrow> P s')"
    using s incoming_inv_ident v [OF s(2)] P by (auto split: sum.split)
qed

lemma secure_liftR: "secure mh P (liftR x) (\<lambda>_. P)"
  by (rule secureI) (cases x; auto simp: unset_fault_def)

lemma secure_unless: "secure mh P (unless c msg) (\<lambda>_. P)"
  by (rule secureI) (cases c; auto simp: unset_fault_def)

lemma secure_ret: "secure mh P (ret x) (\<lambda>_. P)" and secure_gets: "secure mh P (gets g) (\<lambda>_. P)"
  by (rule secureI, auto)+

lemma secure_incoming: "secure mh P (gets dc_incoming) (\<lambda>x s. x \<and> P s)"
  by (rule secureI) (auto simp: incoming_inv_def)

lemma secure_pre: "(x \<Longrightarrow> secure mh P m Q) \<Longrightarrow> secure mh (\<lambda>s. x \<and> P s) m Q"
  by (cases x) (simp_all add: secure_def)

lemma secure_prod: "(\<And>x y. secure mh P (f x y) Q) \<Longrightarrow> secure mh P (case p of (x, y) \<Rightarrow> f x y) Q"
  by (cases p) simp

text \<open>A member set before the connection is up.\<close>

lemma secure_modify:
  assumes "\<And>s. incoming_inv mh s \<Longrightarrow> P s \<Longrightarrow> incoming_inv mh (f s) \<and> P' (f s)"
  shows "secure mh P (modify f) (\<lambda>_. P')"
  using assms by (intro secureI) auto

lemma secure_ParseInitPacket:
  "secure mh (\<lambda>s. dc_state s = WAITING_FOR_INIT) (ParseInitPacket b) (\<lambda>_ s. dc_state s \<noteq> CONNECTED \<and> versions_set s)"
proof -
  let ?P0 = "\<lambda>s. dc_state s = WAITING_FOR_INIT"
  let ?P1 = "\<lambda>s. dc_state s = WAITING_FOR_INIT \<and> (dc_eff_tcp_version s = Some 6 \<or> dc_eff_tcp_version s = Some 7)"
  let ?P2 = "\<lambda>s. dc_state s = WAITING_FOR_INIT \<and> (dc_eff_tcp_version s = Some 6 \<or> dc_eff_tcp_version s = Some 7) \<and>
    dc_remote_uin s \<noteq> None"
  let ?P3 = "\<lambda>s. dc_state s \<noteq> CONNECTED \<and> versions_set s"
  note pure = secure_liftR secure_unless secure_ret secure_gets
  have v: "secure mh ?P0 (if x then
        thenM (modify (\<lambda>s. s\<lparr>dc_remote_tcp_version := Some tv\<rparr>)) (\<lambda>_.
        thenM (unless (tv > 5) ''Too old client < ICQ99'') (\<lambda>_.
        modify (\<lambda>s. s\<lparr>dc_eff_tcp_version := Some (if tv = 6 then 6 else 7)\<rparr>))) else m') (\<lambda>_ s. ?P1 s)" if x for x tv m'
    unfolding if_P [OF that]
    by (rule secure_thenM [where R = "\<lambda>_. ?P0"], rule secure_modify,
        simp add: incoming_inv_def, rule secure_thenM [OF secure_unless], rule secure_modify)
      (simp add: incoming_inv_def)
  have u: "secure mh ?P1 (if x then modify (\<lambda>s. s\<lparr>dc_remote_uin := Some ru\<rparr>) else m') (\<lambda>_ s. ?P2 s)"
    if x for x ru m'
    using that by (auto intro!: secure_modify simp: incoming_inv_def)
  have f: "secure mh ?P2 (modify (\<lambda>s. s\<lparr>dc_tcp_flags := Some fl\<rparr>)) (\<lambda>_ s. ?P2 s)" for fl
    by (rule secure_modify) (simp add: incoming_inv_def)
  have sid: "secure mh ?P2 (if x then modify (\<lambda>s. s\<lparr>dc_session_id := Some i\<rparr>) else m') (\<lambda>_ s. ?P3 s)"
    if x for x i m'
    using that by (auto intro!: secure_modify simp: incoming_inv_def versions_set_def)
  have e: "secure mh ?P3 (read dc_eff_tcp_version) (\<lambda>_ s. ?P3 s)"
    by (rule secureI) (auto simp: read_def versions_set_def)
  show ?thesis
    unfolding ParseInitPacket_def Let_def
    by (rule secure_thenM [OF secure_incoming] secure_pre secure_thenM [OF v] secure_thenM [OF u]
        secure_thenM [OF f] secure_thenM [OF sid] secure_thenM [OF e] secure_ret
        secure_thenM [OF secure_liftR] secure_thenM [OF secure_unless] secure_thenM [OF secure_gets]
        secure_prod | assumption)+
qed

lemma secure_to_phase:
  "p \<noteq> CONNECTED \<Longrightarrow> p \<noteq> NOT_CONNECTED \<Longrightarrow>
   secure mh (\<lambda>s. dc_state s \<noteq> CONNECTED \<and> versions_set s) (to_phase p) (\<lambda>_ _. True)"
  by (rule secureI) (auto simp: incoming_inv_def versions_set_def)

lemma secure_ConfirmUIN:
  "secure mh (\<lambda>s. dc_state s \<noteq> CONNECTED \<and> versions_set s) ConfirmUIN
     (\<lambda>_ s. dc_state s \<noteq> CONNECTED \<and> versions_set s \<and> accepted mh s)"
proof (rule secureI)
  fix s r s'
  assume s: "incoming_inv mh s" "dc_state s \<noteq> CONNECTED \<and> versions_set s" "ConfirmUIN s = (r, s')"
  from s(2) obtain uin where uin: "dc_remote_uin s = Some uin"
    by (auto simp: versions_set_def)
  have l: "tree_lookup_uin uin t \<noteq> None" if "tree_exists uin t" for t
    using that by (simp add: tree_exists_lookup)
  show "incoming_inv mh s' \<and> (case r of Inl e \<Rightarrow> \<not> unset_fault e
      | Inr x \<Rightarrow> dc_state s' \<noteq> CONNECTED \<and> versions_set s' \<and> accepted mh s')"
    using s uin l [of "mh_tree (dc_mh s)"]
    by (auto simp: ConfirmUIN_def thenM_def read_def incoming_inv_def accepted_def versions_set_def
        unset_fault_def Let_def split: if_splits option.splits)
qed

lemma secure_enter_connected:
  "secure mh (\<lambda>s. dc_state s \<noteq> CONNECTED \<and> versions_set s \<and> accepted mh s) (enter_connected E) (\<lambda>_ _. True)"
  unfolding enter_connected_def
proof (rule secure_thenM [where R = "\<lambda>_ s. dc_state s = CONNECTED \<and> versions_set s"])
  show "secure mh (\<lambda>s. dc_state s \<noteq> CONNECTED \<and> versions_set s \<and> accepted mh s) (to_phase CONNECTED)
      (\<lambda>_ s. dc_state s = CONNECTED \<and> versions_set s)"
    by (rule secureI) (auto simp: incoming_inv_def versions_set_def accepted_def)
  show "secure mh (\<lambda>s. dc_state s = CONNECTED \<and> versions_set s)
      (thenM (flush_queue E) (\<lambda>_. put_out [ConnectedSignal])) (\<lambda>_ _. True)"
  proof (rule secure_thenM [OF secure_keeps [OF keeps_flush_queue]])
    show "secure mh (\<lambda>s. dc_state s = CONNECTED \<and> versions_set s) (put_out [ConnectedSignal]) (\<lambda>_ _. True)"
      by (rule secureI) (auto simp: incoming_inv_def versions_set_def accepted_def)
  qed (auto dest: ident_fields(3,12))
qed

text \<open>The state during the handshake, after the initial packet.\<close>

abbreviation shaking :: "dc \<Rightarrow> bool" where
  "shaking \<equiv> \<lambda>s. dc_state s \<noteq> CONNECTED \<and> versions_set s"

lemma secure_shaking: "keeps m \<Longrightarrow> secure mh shaking m (\<lambda>_. shaking)"
  by (rule secure_keeps) (auto dest: ident_fields(3,12))

lemma secure_confirm: "secure mh shaking (thenM ConfirmUIN (\<lambda>_. enter_connected E)) (\<lambda>_ _. True)"
  by (rule secure_thenM [OF secure_ConfirmUIN secure_enter_connected])

lemma secure_init:
  "secure mh (\<lambda>s. dc_state s = WAITING_FOR_INIT)
     (thenM (ParseInitPacket b) (\<lambda>_. thenM (SendInitAck E) (\<lambda>_.
      thenM (SendInitPacket E) (\<lambda>_. to_phase WAITING_FOR_INIT_ACK)))) (\<lambda>_ _. True)"
proof (rule secure_thenM [where R = "\<lambda>_. shaking"])
  show "secure mh (\<lambda>s. dc_state s = WAITING_FOR_INIT) (ParseInitPacket b) (\<lambda>_. shaking)"
    by (rule secure_weaken [OF secure_ParseInitPacket]) auto
  show "secure mh shaking (thenM (SendInitAck E) (\<lambda>_.
      thenM (SendInitPacket E) (\<lambda>_. to_phase WAITING_FOR_INIT_ACK))) (\<lambda>_ _. True)"
    by (rule secure_thenM [OF secure_shaking [OF keeps_init_packets(2)]],
        rule secure_thenM [OF secure_shaking [OF keeps_init_packets(1)]], rule secure_to_phase) simp_all
qed

lemma secure_init_ack:
  "secure mh shaking (thenM (ParseInitAck b) (\<lambda>_. thenM (read dc_eff_tcp_version) (\<lambda>eff.
     if eff = 7 then to_phase WAITING_FOR_INIT2 else thenM ConfirmUIN (\<lambda>_. enter_connected E)))) (\<lambda>_ _. True)"
proof (rule secure_thenM [OF secure_shaking [OF keeps_init_packets(4)]],
    rule secure_thenM [OF secure_shaking [OF keeps_read(1)]])
  fix eff :: u16
  show "secure mh shaking (if eff = 7 then to_phase WAITING_FOR_INIT2
      else thenM ConfirmUIN (\<lambda>_. enter_connected E)) (\<lambda>_ _. True)"
    using secure_to_phase [of WAITING_FOR_INIT2 mh] secure_confirm by simp
qed

lemma secure_init2:
  "secure mh shaking (thenM (ParseInit2 b) (\<lambda>_. thenM (thenM (SendInit2 E) (\<lambda>_. ConfirmUIN)) (\<lambda>_.
     enter_connected E))) (\<lambda>_ _. True)"
proof (rule secure_thenM [OF secure_shaking [OF keeps_init_packets(5)]], rule secure_thenM)
  show "secure mh shaking (thenM (SendInit2 E) (\<lambda>_. ConfirmUIN))
      (\<lambda>_ s. dc_state s \<noteq> CONNECTED \<and> versions_set s \<and> accepted mh s)"
    by (rule secure_thenM [OF secure_shaking [OF keeps_init_packets(3)] secure_ConfirmUIN])
qed (rule secure_enter_connected)

lemma secure_handle_packet: "secure mh (\<lambda>_. True) (handle_packet E sb) (\<lambda>_ _. True)"
proof (rule secureI)
  fix s r s'
  assume s: "incoming_inv mh s" "True" "handle_packet E sb s = (r, s')"
  have inc: "dc_incoming s"
    using s(1) by (simp add: incoming_inv_def)
  have branch: "incoming_inv mh s' \<and> (case r of Inl e \<Rightarrow> \<not> unset_fault e | Inr x \<Rightarrow> True)"
    if "secure mh P m (\<lambda>_ _. True)" and "P s" and "handle_packet E sb s = m s" for P and m :: "unit dcm"
    using secureD [OF that(1) s(1) that(2), of r s'] s(3) that(3) by (auto split: sum.split)
  show "incoming_inv mh s' \<and> (case r of Inl e \<Rightarrow> \<not> unset_fault e | Inr x \<Rightarrow> True)"
  proof (cases "dc_state s")
    case NOT_CONNECTED
    then show ?thesis
      using s(1) by (simp add: incoming_inv_def)
  next
    case WAITING_FOR_INIT
    then show ?thesis
      using branch [OF secure_init] inc by (simp add: handle_packet_def)
  next
    case WAITING_FOR_INIT_ACK
    then show ?thesis
      using branch [OF secure_init_ack] inc s(1) by (simp add: handle_packet_def incoming_inv_def)
  next
    case WAITING_FOR_INIT2
    then show ?thesis
      using branch [OF secure_init2] inc s(1) by (simp add: handle_packet_def incoming_inv_def)
  next
    case CONNECTED
    then have "ParsePacket E sb s = (r, s')"
      using s(3) by (simp add: handle_packet_def)
    from tameD [OF peer_ParsePacket this] obtain os where v: "peer_view s' = peer_view s"
      "peer_ok s \<longrightarrow> (\<forall>e. r = Inl e \<longrightarrow> \<not> unset_fault e)" .
    moreover have "peer_ok s"
      using s(1) CONNECTED by (auto simp: incoming_inv_def peer_ok_def accepted_def)
    ultimately show ?thesis
      using incoming_inv_peer [OF v(1) CONNECTED s(1)] by (auto split: sum.split)
  qed
qed

lemma incoming_Parse:
  assumes "incoming_inv mh s" and "dc_Parse E recv s = (r, s')"
  shows "incoming_inv mh s' \<and> (\<forall>e. r = Inl e \<longrightarrow> \<not> unset_fault e)"
  using assms
proof (induction E recv s arbitrary: r s' rule: dc_Parse.induct)
  case (1 E recv s)
  show ?case
  proof (cases "buf_empty recv \<or> (\<forall>sb recv'. next_packet recv \<noteq> Inr (Some sb, recv'))")
    case True
    then show ?thesis
      using "1.prems" by (auto simp: dc_Parse.simps [of E recv s] unset_fault_def split: if_splits sum.splits option.splits)
  next
    case False
    then obtain sb recv' where n: "\<not> buf_empty recv" "next_packet recv = Inr (Some sb, recv')"
      by blast
    obtain r1 s1 where h: "handle_packet E sb s = (r1, s1)" by fastforce
    note h1 = secureD [OF secure_handle_packet "1.prems"(1) TrueI h]
    show ?thesis
    proof (cases r1)
      case (Inl e)
      then show ?thesis
        using "1.prems"(2) n h h1 by (auto simp: dc_Parse.simps [of E recv s])
    next
      case (Inr x)
      then have "dc_Parse E recv' s1 = (r, s')"
        using "1.prems"(2) n h by (simp add: dc_Parse.simps [of E recv s])
      then show ?thesis
        using "1.IH" [OF n(1,2) refl refl h [symmetric] Inr h1(1)] by simp
    qed
  qed
qed

lemma unset_fault_as_disconnected [simp]: "unset_fault (as_disconnected e) \<longleftrightarrow> unset_fault e"
  by (auto simp: as_disconnected_def unset_fault_def split: exn.splits fault.splits)

lemma incoming_Recv:
  assumes "incoming_inv mh s" and "dc_Recv E cs recv s = (r, s')"
  shows "incoming_inv mh s' \<and> (\<forall>e. r = Inl e \<longrightarrow> \<not> unset_fault e)"
  using assms
proof (induction E cs recv s arbitrary: r s' rule: dc_Recv.induct)
  case (3 E c cs recv s)
  obtain r1 s1 where p: "dc_Parse E (pack_bytes c recv) s = (r1, s1)" by fastforce
  note p1 = incoming_Parse [OF "3.prems"(1) p]
  show ?case
    using "3.IH" [OF p [symmetric]] "3.prems" p p1 by (cases r1) auto
qed (auto simp: unset_fault_def as_disconnected_def)

text \<open>
  The life of a connection: what its owner can do with it as long as no exception ends it, in any order,
  with an environment of its own at every step.
\<close>

inductive life :: "dc \<Rightarrow> buffer \<Rightarrow> dc \<Rightarrow> bool" for s0 where
  start: "life s0 new_buffer s0"
| received: "life s0 recv s \<Longrightarrow> dc_Recv E cs recv s = (Inr recv', s') \<Longrightarrow> life s0 recv' s'"
| sent: "life s0 recv s \<Longrightarrow> SendEvent E ev s = (Inr (), s') \<Longrightarrow> life s0 recv s'"
| ft_answered: "life s0 recv s \<Longrightarrow> SendFTACK E fe s = (Inr (), s') \<Longrightarrow> life s0 recv s'"
| ft_cancelled: "life s0 recv s \<Longrightarrow> SendFTCancel E fe s = (Inr (), s') \<Longrightarrow> life s0 recv s'"
| polled: "life s0 recv s \<Longrightarrow> dc_clearoutMessagesPoll E s = (Inr (), s') \<Longrightarrow> life s0 recv s'"

lemma incoming_inv_keeps:
  assumes "keeps m" and "m s = (r, s')" and "incoming_inv mh s"
  shows "incoming_inv mh s'"
  using tameD [OF assms(1,2)] incoming_inv_ident assms(3) by metis

lemma poll_ident:
  assumes "dc_clearoutMessagesPoll E s = (Inr (), s')"
  shows "ident s' = ident s" "\<exists>os. dc_out s' = dc_out s @ os \<and> (\<forall>x\<in>set os. quiet_out x)"
  using assms
  by (auto simp: dc_clearoutMessagesPoll_def ident_def expiry_signals_def quiet_out_def expired_cb_def
      split: option.splits event.splits)

lemma incoming_life: "life (new_dc mh ext_ip port remote_ip local_ip) recv s \<Longrightarrow> incoming_inv mh s"
proof (induction rule: life.induct)
  case start
  show ?case
    by (simp add: incoming_inv_def new_dc_def)
next
  case (received recv s E cs recv' s')
  then show ?case
    using incoming_Recv by blast
next
  case (polled recv s E s')
  then show ?case
    using poll_ident [OF polled.hyps(2)] incoming_inv_ident by metis
qed (blast intro: incoming_inv_keeps keeps_SendEvent keeps_SendFTACK keeps_SendFTCancel)+

text \<open>C18: An incoming connection is only ever connected with a known peer: whatever bytes arrive, in
  whatever pieces and between whatever the user sends, the connection is up, and a message reaches the
  user or changes a contact, only if the peer's UIN is on the contact list and its address is that of the
  contact (or the contact's address in the network both share). And nothing that arrives makes the
  connection use a member or contact that was never set.\<close>

theorem incoming_authenticated:
  assumes "life (new_dc mh ext_ip port remote_ip local_ip) recv s" and "dc_Recv E cs recv s = (r, s')"
  shows "(dc_state s' = CONNECTED \<or> dc_mh s' \<noteq> mh \<or> (\<exists>out\<in>set (dc_out s'). \<not> quiet_out out) \<longrightarrow>
       (\<exists>uin c. dc_remote_uin s' = Some uin \<and> dc_contact s' = Some c \<and>
          tree_lookup_uin uin (mh_tree mh) = Some c \<and>
          (m_ext_ip (mh_store mh c) = dc_remote_ip s' \<or>
           m_ext_ip (mh_store mh c) = dc_local_ext_ip s' \<and> m_lan_ip (mh_store mh c) = dc_remote_ip s'))) \<and>
    r \<noteq> Inl UnsetMember \<and> r \<noteq> Inl NullContact"
proof -
  note i = incoming_Recv [OF incoming_life [OF assms(1)] assms(2)]
  have "accepted mh s'" if "dc_state s' = CONNECTED \<or> dc_mh s' \<noteq> mh \<or> (\<exists>out\<in>set (dc_out s'). \<not> quiet_out out)"
    using i that by (auto simp: incoming_inv_def split: if_splits)
  moreover have "r \<noteq> Inl UnsetMember" "r \<noteq> Inl NullContact"
    using i by (auto simp: unset_fault_def)
  ultimately show ?thesis
    unfolding accepted_def by blast
qed

definition sample_env :: dc_env where
  "sample_env = \<lparr>send_ok = (\<lambda>_. True), connect_ok = True, draws = (\<lambda>n. of_nat n), c2s = crlf_client_to_server,
     s2c = crlf_server_to_client, on_message = id, on_auto = id, indet = False, now = 5\<rparr>"

text \<open>A connection at which a packet arrives in two pieces.\<close>

theorem incoming_authenticated_witness:
  "\<exists>r s'. dc_Recv sample_env [Some [4, 0, 1, 2], Some [3, 4]] new_buffer (new_dc sample_handler 1 2 3 4) = (r, s') \<and>
    (dc_state s' = CONNECTED \<or> dc_mh s' \<noteq> sample_handler \<or> (\<exists>out\<in>set (dc_out s'). \<not> quiet_out out) \<longrightarrow>
       (\<exists>uin c. dc_remote_uin s' = Some uin \<and> dc_contact s' = Some c \<and>
          tree_lookup_uin uin (mh_tree sample_handler) = Some c)) \<and> r \<noteq> Inl UnsetMember"
proof -
  obtain r s' where "dc_Recv sample_env [Some [4, 0, 1, 2], Some [3, 4]] new_buffer (new_dc sample_handler 1 2 3 4) = (r, s')"
    by fastforce
  with incoming_authenticated [OF life.start this] show ?thesis
    by blast
qed

section \<open>Packets out of a stream\<close>

text \<open>A packet with the payload \<open>p\<close> on the wire.\<close>

definition frame :: "u8 list \<Rightarrow> u8 list" where
  "frame p = enc16 LITTLE (word_of_nat (length p)) @ p"

lemma length_frame [simp]: "length (frame p) = length p + 2"
  by (simp add: frame_def)

definition frame_ok :: "u8 list \<Rightarrow> bool" where
  "frame_ok p \<longleftrightarrow> length p < 2 ^ 16"

lemma next_packet_len:
  assumes "m_data recv = enc16 LITTLE w @ d" and "length (m_data recv) < 2 ^ 31"
  shows "next_packet recv =
    (let r = recv\<lparr>m_endn := LITTLE, m_out_pos := 2\<rparr> in
     if length d < unat w then Inr (None, r)
     else Inr (Some (buffer_of_bytes (enc16 LITTLE w @ take (unat w) d)),
               r\<lparr>m_data := drop (unat w) d, m_out_pos := 0\<rparr>))"
proof -
  let ?r = "setLittleEndian (setPos 0 recv)"
  have g: "get_u16 ?r = Inr (w, advance 2 ?r)"
    using assms by (intro get_u16_enc [of _ _ d]) (simp_all add: wfb_def unread_def setPos_def setLittleEndian_def)
  have rem: "remains (advance 2 ?r) < ucast w \<longleftrightarrow> length d < unat w"
  proof -
    have "remains (advance 2 ?r) = word_of_nat (length d)"
      using assms(1) by (simp add: remains_def setPos_def setLittleEndian_def)
    moreover have "unat (word_of_nat (length d) :: u32) = length d"
      using assms by (intro unat_of_nat_u32) simp
    ultimately show ?thesis
      by (simp add: word_less_nat_alt)
  qed
  have lim: "\<not> unat w > Incoming_Packet_Limit"
    using unat_u16_le [of w] by (simp add: Incoming_Packet_Limit_def)
  have sz: "unat (ucast w + 2 :: u32) = unat w + 2"
    using unat_u16_le [of w] by (subst unat_plus_u32) auto
  show ?thesis
    using g rem lim assms(1)
    by (auto simp: next_packet_def Let_def chopOffBuffer_def sz setPos_def setLittleEndian_def new_buffer_def
        buffer_of_bytes_def advance_def)
qed

lemma next_packet_frame:
  assumes "m_data recv = frame p @ rest" and "length (m_data recv) < 2 ^ 31" and "frame_ok p"
  shows "next_packet recv = Inr (Some (buffer_of_bytes (frame p)), \<lparr>m_data = rest, m_endn = LITTLE, m_out_pos = 0\<rparr>)"
proof -
  have "unat (word_of_nat (length p) :: u16) = length p"
    using assms(3) by (simp add: frame_ok_def unat_of_nat)
  then show ?thesis
    using next_packet_len [of recv "word_of_nat (length p)" "p @ rest"] assms(1,2) by (simp add: frame_def Let_def)
qed

lemma next_packet_partial:
  assumes "frame p = m_data recv @ t" and "t \<noteq> []" and "2 \<le> length (m_data recv)" and "frame_ok p"
  shows "next_packet recv = Inr (None, recv\<lparr>m_endn := LITTLE, m_out_pos := 2\<rparr>)"
proof -
  obtain d where d: "m_data recv = enc16 LITTLE (word_of_nat (length p)) @ d"
  proof -
    have "take 2 (m_data recv) = take 2 (frame p)"
      using assms(1,3) by simp
    then have "m_data recv = enc16 LITTLE (word_of_nat (length p)) @ drop 2 (m_data recv)"
      by (metis append_take_drop_id append_eq_conv_conj frame_def length_enc16)
    then show ?thesis by (rule that)
  qed
  have len: "length (m_data recv) < length p + 2" "length (m_data recv) = length d + 2"
    using assms(1,2) d length_frame [of p] by (metis length_append length_greater_0_conv less_add_same_cancel1, simp)
  moreover have "unat (word_of_nat (length p) :: u16) = length p"
    using assms(4) by (simp add: frame_ok_def unat_of_nat)
  ultimately show ?thesis
    using next_packet_len [OF d] assms(4) by (simp add: frame_ok_def Let_def)
qed

text \<open>A single byte: the length read is 0, and what remains is taken to be nearly \<open>2 ^ 32\<close> bytes.\<close>

lemma next_packet_one: "m_data recv = [x] \<Longrightarrow> next_packet recv = Inl OutOfRange"
  by (simp add: next_packet_def get_u16_def setPos_def setLittleEndian_def Incoming_Packet_Limit_def remains_def
      chopOffBuffer_def)

text \<open>The reference: packet after packet.\<close>

fun handle_all :: "dc_env \<Rightarrow> u8 list list \<Rightarrow> unit dcm" where
  "handle_all E [] = ret ()"
| "handle_all E (p # ps) = thenM (handle_packet E (buffer_of_bytes (frame p))) (\<lambda>_. handle_all E ps)"

lemma handle_all_append: "handle_all E (ps @ qs) = thenM (handle_all E ps) (\<lambda>_. handle_all E qs)"
proof (induction ps)
  case Nil
  show ?case by (simp add: thenM_def ret_def)
next
  case (Cons p ps)
  then show ?case by (simp add: thenM_def fun_eq_iff split: prod.split sum.split)
qed

text \<open>The bytes of an incomplete packet.\<close>

definition partial :: "u8 list \<Rightarrow> bool" where
  "partial d \<longleftrightarrow> d = [] \<or> 2 \<le> length d \<and> (\<exists>p t. frame_ok p \<and> frame p = d @ t \<and> t \<noteq> [])"

lemma Parse_frames:
  assumes "m_data recv = concat (map frame ps) @ d" and "partial d" and "\<forall>p\<in>set ps. frame_ok p"
    and "length (m_data recv) < 2 ^ 31"
  shows "\<exists>recv'. m_data recv' = d \<and> dc_Parse E recv s =
    (case handle_all E ps s of (Inl e, s') \<Rightarrow> (Inl e, s') | (Inr _, s') \<Rightarrow> (Inr recv', s'))"
  using assms(1,3,4)
proof (induction ps arbitrary: recv s)
  case Nil
  show ?case
  proof (cases "d = []")
    case True
    then show ?thesis
      using Nil by (simp add: dc_Parse.simps [of E recv s] buf_empty_def)
  next
    case False
    then have "next_packet recv = Inr (None, recv\<lparr>m_endn := LITTLE, m_out_pos := 2\<rparr>)"
      using assms(2) Nil(1) next_packet_partial [of _ recv] by (auto simp: partial_def)
    then show ?thesis
      using Nil False by (auto simp: dc_Parse.simps [of E recv s] buf_empty_def)
  qed
next
  case (Cons p ps)
  let ?r = "\<lparr>m_data = concat (map frame ps) @ d, m_endn = LITTLE, m_out_pos = 0\<rparr>"
  have n: "next_packet recv = Inr (Some (buffer_of_bytes (frame p)), ?r)"
    using Cons.prems by (intro next_packet_frame) auto
  have ne: "\<not> buf_empty recv"
    using Cons.prems(1) length_frame [of p] by (auto simp: buf_empty_def frame_def)
  obtain r1 s1 where h: "handle_packet E (buffer_of_bytes (frame p)) s = (r1, s1)" by fastforce
  have "\<exists>recv'. m_data recv' = d \<and> dc_Parse E ?r s1 =
    (case handle_all E ps s1 of (Inl e, s') \<Rightarrow> (Inl e, s') | (Inr _, s') \<Rightarrow> (Inr recv', s'))"
    using Cons.prems by (intro Cons.IH) auto
  then show ?case
    using n ne h by (cases r1) (auto simp: dc_Parse.simps [of E recv s] intro: exI [of _ "buffer_of_bytes d"]
        simp: buffer_of_bytes_def)
qed

lemma frame_first: "frame p' = frame p @ x \<Longrightarrow> frame_ok p \<Longrightarrow> frame_ok p' \<Longrightarrow> x = []"
proof -
  assume f: "frame p' = frame p @ x" and ok: "frame_ok p" "frame_ok p'"
  then have "enc16 LITTLE (word_of_nat (length p') :: u16) = enc16 LITTLE (word_of_nat (length p))"
    using arg_cong [OF f, of "take 2"] by (simp add: frame_def)
  then have "octet 8 (word_of_nat (length p') :: u16) = octet 8 (word_of_nat (length p) :: u16)"
    "octet 0 (word_of_nat (length p') :: u16) = octet 0 (word_of_nat (length p) :: u16)"
    by simp_all
  then have "(word_of_nat (length p') :: u16) = word_of_nat (length p)"
    by (metis join16_octets)
  then have "length p' = length p"
    using ok by (simp add: frame_ok_def word_unat_eq_iff unat_of_nat)
  then show ?thesis
    using arg_cong [OF f, of length] by simp
qed

text \<open>No piece of the stream ends after the first byte of a packet.\<close>

definition cuts_ok :: "nat \<Rightarrow> u8 list list \<Rightarrow> u8 list list \<Rightarrow> bool" where
  "cuts_ok n ps cs \<longleftrightarrow> (\<forall>i qs p rs. i \<le> length cs \<longrightarrow> ps = qs @ p # rs \<longrightarrow>
     n + length (concat (take i cs)) \<noteq> length (concat (map frame qs)) + 1)"

lemma Recv_frames:
  assumes "m_data recv = d" and "partial d" and "d @ concat cs = concat (map frame ps)"
    and "\<forall>p\<in>set ps. frame_ok p" and "length (d @ concat cs) < 2 ^ 31" and "cuts_ok (length d) ps cs"
  shows "\<exists>recv'. m_data recv' = [] \<and> dc_Recv E (map Some cs) recv s =
    (case handle_all E ps s of (Inl e, s') \<Rightarrow> (Inl (as_disconnected e), s') | (Inr _, s') \<Rightarrow> (Inr recv', s'))"
  using assms
proof (induction cs arbitrary: recv d ps s)
  case Nil
  have "ps = []"
  proof (cases ps)
    case (Cons p ps')
    then obtain x where x: "d = frame p @ x"
      using Nil.prems(3) by simp
    moreover from this have "d \<noteq> []"
      by (simp add: frame_def)
    ultimately obtain p' t where "frame_ok p'" "frame p' = frame p @ x @ t" "t \<noteq> []"
      using Nil.prems(2) by (auto simp: partial_def)
    then show ?thesis
      using frame_first [of p' p "x @ t"] Nil.prems(4) Cons by simp
  qed
  then show ?case
    using Nil.prems by (intro exI [of _ recv]) simp
next
  case (Cons c cs)
  from Cons.prems(3) have "(d @ c) @ concat cs = concat (map frame ps)" by simp
  then obtain qs ps' d' where s: "ps = qs @ ps'" "d @ c = concat (map frame qs) @ d'"
    "d' = [] \<or> (\<exists>p t ps''. ps' = p # ps'' \<and> frame p = d' @ t \<and> t \<noteq> [])"
    by (rule split_frames)
  have lens: "length d + length c = length (concat (map frame qs)) + length d'"
    using arg_cong [OF s(2), of length] by simp
  note cuts = Cons.prems(6) [unfolded cuts_ok_def, THEN spec, THEN spec, THEN spec, THEN spec, THEN mp, THEN mp]
  have part: "partial d'"
  proof (cases "d' = []")
    case False
    then obtain p t ps'' where p: "ps' = p # ps''" "frame p = d' @ t" "t \<noteq> []" using s(3) by auto
    then have "length d' \<noteq> 1"
      using cuts [of 1 qs p ps''] s(1) lens by simp
    moreover have "0 < length d'"
      using False by simp
    ultimately have "2 \<le> length d'"
      by linarith
    then show ?thesis
      using p s(1) Cons.prems(4) unfolding partial_def by auto
  qed (simp add: partial_def)
  have m: "m_data (pack_bytes c recv) = concat (map frame qs) @ d'"
    using Cons.prems(1) s(2) by (simp add: pack_bytes_def)
  obtain recv1 where P: "m_data recv1 = d'" "dc_Parse E (pack_bytes c recv) s =
      (case handle_all E qs s of (Inl e, s') \<Rightarrow> (Inl e, s') | (Inr _, s') \<Rightarrow> (Inr recv1, s'))"
    using Parse_frames [OF m part, of E s] Cons.prems(1,4,5) s(1) by (auto simp: pack_bytes_def)
  obtain r1 s1 where h: "handle_all E qs s = (r1, s1)" by fastforce
  have "cuts_ok (length d') ps' cs"
    unfolding cuts_ok_def
  proof (intro allI impI)
    fix i us p rs
    assume i: "i \<le> length cs" "ps' = us @ p # rs"
    have "length d + length (concat (take (Suc i) (c # cs))) \<noteq> length (concat (map frame (qs @ us))) + 1"
      using cuts [of "Suc i" "qs @ us" p rs] i s(1) by simp
    then show "length d' + length (concat (take i cs)) \<noteq> length (concat (map frame us)) + 1"
      using lens by simp
  qed
  moreover have "d' @ concat cs = concat (map frame ps')"
  proof -
    have "concat (map frame qs) @ d' @ concat cs = concat (map frame qs) @ concat (map frame ps')"
      using Cons.prems(3) s(1) arg_cong [OF s(2), of "\<lambda>x. x @ concat cs"] by simp
    then show ?thesis by simp
  qed
  moreover have "length (d' @ concat cs) < 2 ^ 31"
    using Cons.prems(5) lens by simp
  ultimately obtain recv' where "m_data recv' = []" "dc_Recv E (map Some cs) recv1 s1 =
      (case handle_all E ps' s1 of (Inl e, s') \<Rightarrow> (Inl (as_disconnected e), s') | (Inr _, s') \<Rightarrow> (Inr recv', s'))"
    using Cons.IH [OF P(1) part, of ps' s1] Cons.prems(4) s(1) by auto
  then show ?case
    using P(2) h s(1) by (cases r1) (auto simp: handle_all_append intro: exI [of _ recv'])
qed

text \<open>C20: How the bytes of a stream of packets arrive does not matter: in whatever pieces the socket
  delivers them, the connection does what handling packet after packet does, and nothing is left over;
  except where a piece ends after the first byte of a packet.\<close>

theorem stream_as_packets:
  assumes "concat cs = concat (map frame ps)" and "\<forall>p\<in>set ps. length p < 2 ^ 16"
    and "length (concat cs) < 2 ^ 31" and "cuts_ok 0 ps cs"
  shows "\<exists>recv. m_data recv = [] \<and> dc_Recv E (map Some cs) new_buffer s =
    (case handle_all E ps s of (Inl e, s') \<Rightarrow> (Inl (as_disconnected e), s') | (Inr _, s') \<Rightarrow> (Inr recv, s'))"
  using Recv_frames [of new_buffer "[]" cs ps E s] assms by (auto simp: new_buffer_def partial_def frame_ok_def)

theorem stream_as_packets_witness:
  "\<exists>recv. m_data recv = [] \<and> dc_Recv sample_env [Some [2, 0], Some [1, 2]] new_buffer (new_dc sample_handler 1 2 3 4) =
    (case handle_all sample_env [[1, 2]] (new_dc sample_handler 1 2 3 4) of
       (Inl e, s') \<Rightarrow> (Inl (as_disconnected e), s') | (Inr _, s') \<Rightarrow> (Inr recv, s'))"
proof -
  have f: "concat [[2, 0], [1, 2 :: u8]] = concat (map frame [[1, 2]])"
    by (simp add: frame_def octet_def)
  have "cuts_ok 0 [[1, 2]] [[2, 0], [1, 2 :: u8]]"
    unfolding cuts_ok_def
  proof (intro allI impI)
    fix i qs p rs
    assume i: "i \<le> length [[2, 0], [1, 2 :: u8]]" and "[[1, 2 :: u8]] = qs @ p # rs"
    then have "qs = []"
      by (cases qs) auto
    moreover have "i = 0 \<or> i = 1 \<or> i = 2"
      using i by auto
    ultimately show "0 + length (concat (take i [[2, 0], [1, 2 :: u8]])) \<noteq> length (concat (map frame qs)) + 1"
      by auto
  qed
  then show ?thesis
    using stream_as_packets [OF f, of sample_env "new_dc sample_handler 1 2 3 4"] by simp
qed

text \<open>A packet whose first byte arrives alone makes the connection read behind the end of its
  receive buffer, whoever sent it and in whatever state the connection is.\<close>

theorem lone_byte_out_of_range:
  "dc_Recv E [Some [x]] new_buffer s = (Inl (Fault OutOfRange), s)"
proof -
  have "next_packet (pack_bytes [x] new_buffer) = Inl OutOfRange"
    by (rule next_packet_one) (simp add: pack_bytes_def new_buffer_def)
  then show ?thesis
    by (simp add: dc_Parse.simps [of E "pack_bytes [x] new_buffer"] buf_empty_def as_disconnected_def)
      (simp add: pack_bytes_def)
qed

end
