(* ===== verification/Packet.thy ===== *)
theory Packet
  imports Buffer
begin

text \<open>
  Calculating with packets: what a sequence of output operations appends, what a length field filled
  in afterwards does to it, and reading a packet step by step.
\<close>

declare enc16.simps [simp del] enc32.simps [simp del]

lemma enc_not_Nil [simp]: "enc16 e w \<noteq> []" "enc32 e v \<noteq> []"
  by (cases e; simp add: enc16.simps enc32.simps)+

section \<open>Reading step by step\<close>

lemma rd_u8: "at b e (x # r) \<Longrightarrow> get_u8 b = Inr (x, advance 1 b)" "at b e (x # r) \<Longrightarrow> at (advance 1 b) e r"
  using get_u8_unread [of b x r] at_advance [of b e "[x]" r 1] by (auto simp: at_def)

lemma rd_u16: "at b e (enc16 e w @ r) \<Longrightarrow> get_u16 b = Inr (w, advance 2 b)"
  "at b e (enc16 e w @ r) \<Longrightarrow> at (advance 2 b) e r"
  using get_u16_enc [of b w r] at_advance [of b e "enc16 e w" r 2] by (auto simp: at_def)

lemma rd_u32: "at b e (enc32 e w @ r) \<Longrightarrow> get_u32 b = Inr (w, advance 4 b)"
  "at b e (enc32 e w @ r) \<Longrightarrow> at (advance 4 b) e r"
  using get_u32_enc [of b w r] at_advance [of b e "enc32 e w" r 4] by (auto simp: at_def)

lemma at_little: "length bs < 2 ^ 31 \<Longrightarrow> at (setLittleEndian (buffer_of_bytes bs)) LITTLE bs"
  by (simp add: at_def wfb_def unread_def setLittleEndian_def buffer_of_bytes_def)

lemma at_big: "length bs < 2 ^ 31 \<Longrightarrow> at (buffer_of_bytes bs) BIG bs"
  by (simp add: at_def wfb_def unread_def buffer_of_bytes_def)

lemma at_setLittle: "at b e r \<Longrightarrow> at (setLittleEndian b) LITTLE r"
  and at_setBig: "at b e r \<Longrightarrow> at (setBigEndian b) BIG r"
  using at_endian by (simp_all add: setLittleEndian_def setBigEndian_def)

lemma at_skip: "at b e (xs @ r) \<Longrightarrow> length xs = unat n \<Longrightarrow> at (advance n b) e r"
  by (rule at_advance) (assumption, simp)

section \<open>Appending\<close>

text \<open>Appending, without the record it updates.\<close>

definition app :: "u8 list \<Rightarrow> buffer \<Rightarrow> buffer" where
  "app xs b = emit xs b"

lemma put_app:
  "put_u8 x b = app [x] b" "put_u16 w b = app (enc16 (m_endn b) w) b" "put_u32 v b = app (enc32 (m_endn b) v) b"
  by (simp_all only: app_def put_u8_emit put_u16_emit put_u32_emit)

lemma put_string_app:
  "pack_string s b = app (bytes_of_string s) b" "put_string s b = app (enc_string (m_endn b) s) b"
  "PackUint16StringNull s b = app (enc_stringnull (m_endn b) s) b"
  "PackByteString s b = app (word_of_nat (length s) # bytes_of_string s) b"
  "pack_bytes bs b = app bs b"
  by (simp_all only: app_def pack_string_emit put_string_emit PackUint16StringNull_emit PackByteString_emit
      pack_bytes_emit enc_string_def enc_stringnull_def)

lemma app_simps [simp]:
  "m_endn (app xs b) = m_endn b" "m_data (app xs b) = m_data b @ xs" "app ys (app xs b) = app (xs @ ys) b"
  "setLittleEndian (app xs b) = app xs (setLittleEndian b)" "setBigEndian (app xs b) = app xs (setBigEndian b)"
  "setLittleEndian (setLittleEndian b) = setLittleEndian b" "setLittleEndian (setBigEndian b) = setLittleEndian b"
  "setBigEndian (setLittleEndian b) = setBigEndian b" "m_endn (setLittleEndian b) = LITTLE"
  "setBigEndian (setBigEndian b) = setBigEndian b"
  "m_endn (setBigEndian b) = BIG" "m_data (setLittleEndian b) = m_data b" "m_data (setBigEndian b) = m_data b"
  "m_data new_buffer = []" "m_endn new_buffer = BIG"
  by (simp_all add: app_def setLittleEndian_def setBigEndian_def new_buffer_def)

lemma fold_put_app:
  "fold put_u16 ws b = app (concat (map (enc16 (m_endn b)) ws)) b"
  "fold put_u32 vs b = app (concat (map (enc32 (m_endn b)) vs)) b"
  "fold put_u8 bs b = app bs b"
proof -
  show "fold put_u16 ws b = app (concat (map (enc16 (m_endn b)) ws)) b"
    by (induction ws arbitrary: b) (simp_all add: put_app, simp add: app_def)
  show "fold put_u32 vs b = app (concat (map (enc32 (m_endn b)) vs)) b"
    by (induction vs arbitrary: b) (simp_all add: put_app, simp add: app_def)
  show "fold put_u8 bs b = app bs b"
    by (induction bs arbitrary: b) (simp_all add: put_app, simp add: app_def)
qed

section \<open>Length fields\<close>

definition marker_at :: "nat \<Rightarrow> endian \<Rightarrow> marker" where
  "marker_at n e = \<lparr>mk_position = word_of_nat (n + 2), mk_endianness = e, mk_size = 2\<rparr>"

lemma short_marker_app:
  "getAutoSizeShortMarker b = (marker_at (length (m_data b)) (m_endn b), app (enc16 (m_endn b) 0) b)"
  by (simp add: getAutoSizeShortMarker_def put_app Let_def marker_at_def buf_size_def)

text \<open>Filling in a length field: everything behind the field counts.\<close>

lemma fill_marker:
  assumes "n + 2 \<le> length (m_data b)" and "length (m_data b) < 2 ^ 32"
  shows "setAutoSizeMarker (marker_at n e) b =
    Inr (b\<lparr>m_data := take n (m_data b) @ enc16 e (word_of_nat (length (m_data b) - (n + 2))) @ drop (n + 2) (m_data b)\<rparr>)"
proof -
  let ?d = "m_data b" and ?l = "length (m_data b) - (n + 2)"
  have pos: "(word_of_nat (n + 2) :: u32) - 2 = word_of_nat n" "(word_of_nat (n + 2) :: u32) - 1 = word_of_nat (n + 1)"
    by simp_all
  have i: "unat ((word_of_nat (n + 2) :: u32) - 2) = n" "unat ((word_of_nat (n + 2) :: u32) - 1) = Suc n"
    unfolding pos using assms unat_of_nat_u32 [of n] unat_of_nat_u32 [of "n + 1"] by simp_all
  have "buf_size b - word_of_nat (n + 2) = word_of_nat ?l"
    using assms(1) by (simp add: buf_size_def of_nat_diff)
  then have a: "octet j (buf_size b - word_of_nat (n + 2)) = octet j (word_of_nat ?l :: u16)" if "j + 8 \<le> 16" for j
    using that by (simp add: octet_of_nat)
  have u: "?d[n := x, Suc n := y] = take n ?d @ [x, y] @ drop (n + 2) ?d" for x y
  proof -
    have "?d = take n ?d @ take 2 (drop n ?d) @ drop 2 (drop n ?d)"
      by (simp only: append_take_drop_id)
    then obtain p q r where d: "?d = p @ q @ r" "length p = n" "length q = 2"
      using assms(1) by (intro that [of "take n ?d" "take 2 (drop n ?d)" "drop 2 (drop n ?d)"]) simp_all
    then obtain y0 y1 where "q = [y0, y1]"
      by (auto simp: numeral_2_eq_2 length_Suc_conv)
    then show ?thesis
      using d by (simp add: list_update_append)
  qed
  have s: "m_data (b\<lparr>m_data := ?d[n := x]\<rparr>) = ?d[n := x]" for x by simp
  show ?thesis
    using assms(1) i a u
    by (cases e) (simp_all add: setAutoSizeMarker_def marker_at_def store_byte_def Let_def enc16.simps)
qed

text \<open>The form the calculations need: a field behind \<open>xs\<close>, filled in when \<open>p\<close> stands behind it.\<close>

lemma fill_app:
  assumes "n = length (m_data b) + length xs" and "length (m_data b) + length xs + 2 + length p < 2 ^ 32"
  shows "setAutoSizeMarker (marker_at n e) (app (xs @ enc16 e' w @ p) b) =
    Inr (app (xs @ enc16 e (word_of_nat (length p)) @ p) b)"
  using assms by (subst fill_marker) (simp_all add: app_def)

lemma fill_app0:
  assumes "n = length (m_data b)" and "length (m_data b) + 2 + length p < 2 ^ 32"
  shows "setAutoSizeMarker (marker_at n e) (app (enc16 e' w @ p) b) =
    Inr (app (enc16 e (word_of_nat (length p)) @ p) b)"
  using fill_app [of n b "[]" p e e' w] assms by simp

text \<open>A field that covers another.\<close>

lemma fill_two:
  assumes "n1 = length (m_data b) + length xs" and "n2 = length (m_data b) + length xs + 2 + length ys"
    and "length (m_data b) + length xs + length ys + length p + 4 < 2 ^ 32"
  shows "andThen (setAutoSizeMarker (marker_at n1 e) (app (xs @ enc16 e1 w1 @ ys @ enc16 e2 w2 @ p) b))
      (setAutoSizeMarker (marker_at n2 e)) =
    Inr (app (xs @ enc16 e (word_of_nat (length ys + 2 + length p)) @ ys @ enc16 e (word_of_nat (length p)) @ p) b)"
  using assms fill_app [of n1 b xs "ys @ enc16 e2 w2 @ p" e e1 w1]
    fill_app [of n2 b "xs @ enc16 e (word_of_nat (length ys + 2 + length p)) @ ys" p e e2 w2]
  by (simp add: ac_simps)

end
