(* ===== verification/DirectExchange.thy ===== *)
theory DirectExchange
  imports DirectConnection Packet
begin

text \<open>
  Two clients of this library at the two ends of a direct connection: the handshake, and the exchange of
  a message and its acknowledgement (\<open>DirectClient\<close>).
\<close>

declare enc16.simps [simp del] enc32.simps [simp del]

section \<open>The packets of the handshake\<close>

definition init_body :: "u16 \<Rightarrow> u32 \<Rightarrow> u32 \<Rightarrow> u16 \<Rightarrow> u32 \<Rightarrow> u32 \<Rightarrow> u32 \<Rightarrow> u8 list" where
  "init_body eff remote_uin self_uin port ext_ip local_ip session =
     [0xff] @ enc16 LITTLE 7 @ enc16 LITTLE (if eff = 7 then 43 else 39) @ enc32 LITTLE remote_uin @
     (enc16 LITTLE 0 @ enc32 LITTLE (ucast port)) @ enc32 LITTLE self_uin @
     (enc32 BIG ext_ip @ enc32 BIG local_ip) @ [4] @ enc32 LITTLE (ucast port) @ enc32 LITTLE session @
     enc32 LITTLE 0x50 @ enc32 LITTLE 3 @ (if eff = 7 then enc32 LITTLE 0 else [])"

lemma length_init_body: "length (init_body eff ru su port ext lip sid) = (if eff = 7 then 48 else 44)"
  by (simp add: init_body_def)

lemma init_packet_frame:
  "\<exists>b. init_packet eff ru su port ext lip sid = Inr b \<and> m_data b = frame (init_body eff ru su port ext lip sid)"
proof -
  let ?b0 = "setLittleEndian new_buffer"
  let ?X = "[0xff] @ enc16 LITTLE 7 :: u8 list" and ?z = "enc16 LITTLE 0 :: u8 list"
  define Y where "Y = enc32 LITTLE ru @ (enc16 LITTLE 0 @ enc32 LITTLE (ucast port)) @ enc32 LITTLE su @
     (enc32 BIG ext @ enc32 BIG lip) @ [4] @ enc32 LITTLE (ucast port) @ enc32 LITTLE sid @
     enc32 LITTLE 0x50 @ enc32 LITTLE 3 @ (if eff = 7 then enc32 LITTLE 0 else [])"
  have len: "length Y < 60" "word_of_nat (length Y) = (if eff = 7 then 43 else 39 :: u16)"
    by (simp_all add: Y_def)
  have five: "(5 :: nat) = Suc (Suc (Suc (Suc (Suc 0))))"
    by simp
  have "init_packet eff ru su port ext lip sid =
      andThen (setAutoSizeMarker (marker_at 0 LITTLE) (app (?z @ ?X @ ?z @ Y) ?b0)) (setAutoSizeMarker (marker_at (length (?z @ ?X)) LITTLE))"
    by (simp add: init_packet_def Let_def put_app short_marker_app Y_def five)
  also have "\<dots> = Inr (app (enc16 LITTLE (word_of_nat (length (?X @ ?z @ Y))) @ ?X @ enc16 LITTLE (word_of_nat (length Y)) @ Y) ?b0)"
    using len(1) fill_app0 [of 0 ?b0 "?X @ ?z @ Y" LITTLE LITTLE 0]
      fill_app [of "length (?z @ ?X)" ?b0 "enc16 LITTLE (word_of_nat (length (?X @ ?z @ Y))) @ ?X" Y LITTLE LITTLE 0]
    by simp
  also have "?X @ enc16 LITTLE (word_of_nat (length Y)) @ Y = init_body eff ru su port ext lip sid"
    by (simp add: init_body_def Y_def)
  finally show ?thesis
    using len(2) by (simp add: frame_def length_init_body Y_def)
qed

lemma init_ack_packet_frame: "\<exists>b. init_ack_packet = Inr b \<and> m_data b = frame (enc32 LITTLE 1)"
  using fill_app0 [of 0 "setLittleEndian new_buffer" "enc32 LITTLE 1" LITTLE LITTLE 0]
  by (simp add: init_ack_packet_def put_app short_marker_app frame_def)

definition init2_body :: "bool \<Rightarrow> u8 list" where
  "init2_body incoming =
     [3] @ enc32 LITTLE 10 @ enc32 LITTLE 1 @ enc32 LITTLE (if incoming then 1 else 0) @ enc32 LITTLE 0 @ enc32 LITTLE 0 @
     (if incoming then enc32 LITTLE 0x00040001 @ enc32 LITTLE 0 @ enc32 LITTLE 0
      else enc32 LITTLE 0 @ enc32 LITTLE 0 @ enc32 LITTLE 0x00040001)"

lemma length_init2_body [simp]: "length (init2_body incoming) = 33"
  by (simp add: init2_body_def)

lemma init2_packet_frame: "\<exists>b. init2_packet incoming = Inr b \<and> m_data b = frame (init2_body incoming)"
  using fill_app0 [of 0 "setLittleEndian new_buffer" "init2_body incoming" LITTLE LITTLE 0]
  by (cases incoming) (simp_all add: init2_packet_def put_app short_marker_app frame_def Let_def,
      simp_all add: init2_body_def)

section \<open>Reading the packets of the handshake\<close>

lemma skip_at: "at b e ((enc16 e w @ enc32 e v) @ r) \<Longrightarrow> at (advance 6 b) e r"
  "at b e ((enc32 e' w' @ enc32 e' v') @ r) \<Longrightarrow> at (advance 8 b) e r"
  by (erule at_advance, simp)+

lemma at_frame:
  assumes "length p < 2 ^ 16"
  shows "at (setLittleEndian (buffer_of_bytes (frame p))) LITTLE (enc16 LITTLE (word_of_nat (length p)) @ p)"
  using at_little [of "frame p"] assms by (simp add: frame_def)

lemma ParseInitAck_ok: "\<exists>b'. ParseInitAck (buffer_of_bytes (frame (enc32 LITTLE 1))) s = (Inr b', s)"
proof -
  let ?p = "enc32 LITTLE 1 :: u8 list"
  have "at (setLittleEndian (buffer_of_bytes (frame ?p))) LITTLE (enc16 LITTLE 4 @ ?p @ [])"
    using at_frame [of ?p] by simp
  note 1 = rd_u16 [OF this]
  note 2 = rd_u32 [OF 1(2)]
  show ?thesis
    by (simp add: ParseInitAck_def 1(1) 2(1))
qed

lemma ParseInit2_ok: "\<exists>b'. ParseInit2 (buffer_of_bytes (frame (init2_body inc))) s = (Inr b', s)"
proof -
  obtain t where t: "init2_body inc = 3 # enc32 LITTLE 10 @ enc32 LITTLE 1 @ t"
    by (simp add: init2_body_def)
  define B where "B = setLittleEndian (buffer_of_bytes (frame (init2_body inc)))"
  have "at B LITTLE (enc16 LITTLE 33 @ init2_body inc)"
    using at_frame [of "init2_body inc"] by (simp add: B_def)
  note 1 = rd_u16 [OF this]
  note 2 = rd_u8 [OF 1(2) [unfolded t]]
  note 3 = rd_u32 [OF 2(2)]
  note 4 = rd_u32 [OF 3(2)]
  show ?thesis
    by (simp add: ParseInit2_def 1(1) 2(1) 3(1) 4(1) flip: B_def)
qed

lemma ParseInitPacket_ok:
  assumes "m_uin (self_contact s) = ru"
  shows "dc_incoming s \<Longrightarrow> \<exists>b'. ParseInitPacket (buffer_of_bytes (frame (init_body eff ru su port ext lip sid))) s =
      (Inr b', s\<lparr>dc_remote_tcp_version := Some 7, dc_eff_tcp_version := Some 7, dc_remote_uin := Some su,
         dc_tcp_flags := Some 4, dc_session_id := Some sid\<rparr>)" (is "?i \<Longrightarrow> ?incoming")
    and "\<not> dc_incoming s \<Longrightarrow> dc_remote_tcp_version s = Some 7 \<Longrightarrow> dc_remote_uin s = Some su \<Longrightarrow>
      dc_session_id s = Some sid \<Longrightarrow> dc_eff_tcp_version s = Some x \<Longrightarrow>
      \<exists>b'. ParseInitPacket (buffer_of_bytes (frame (init_body eff ru su port ext lip sid))) s =
        (Inr b', s\<lparr>dc_tcp_flags := Some 4\<rparr>)"
proof -
  let ?p = "init_body eff ru su port ext lip sid"
  obtain v t where t: "?p = 0xff # enc16 LITTLE 7 @ enc16 LITTLE v @ enc32 LITTLE ru @
     (enc16 LITTLE 0 @ enc32 LITTLE (ucast port)) @ enc32 LITTLE su @
     (enc32 BIG ext @ enc32 BIG lip) @ 4 # enc32 LITTLE (ucast port) @ enc32 LITTLE sid @ t"
    by (simp add: init_body_def)
  define B where "B = setLittleEndian (buffer_of_bytes (frame ?p))"
  have "at B LITTLE (enc16 LITTLE (word_of_nat (length ?p)) @ ?p)"
    unfolding B_def by (rule at_frame) (simp add: length_init_body)
  note 1 = rd_u16 [OF this]
  note 2 = rd_u8 [OF 1(2) [unfolded t]]
  note 3 = rd_u16 [OF 2(2)]
  note 4 = rd_u32 [OF rd_u16(2) [OF 3(2)]]
  note 5 = rd_u32 [OF skip_at(1) [OF 4(2)]]
  note 6 = rd_u8 [OF skip_at(2) [OF 5(2)]]
  note 7 = rd_u32 [OF rd_u32(2) [OF 6(2)]]
  show ?incoming if ?i
    using that assms
    by (simp add: ParseInitPacket_def 1(1) 2(1) 3(1) 4(1) 5(1) 6(1) 7(1) read_def self_contact_def flip: B_def)
  show "\<exists>b'. ParseInitPacket (buffer_of_bytes (frame ?p)) s = (Inr b', s\<lparr>dc_tcp_flags := Some 4\<rparr>)"
    if "\<not> dc_incoming s" "dc_remote_tcp_version s = Some 7" "dc_remote_uin s = Some su"
      "dc_session_id s = Some sid" "dc_eff_tcp_version s = Some x"
    using that assms
    by (simp add: ParseInitPacket_def 1(1) 2(1) 3(1) 4(1) 5(1) 6(1) 7(1) read_def self_contact_def flip: B_def)
qed

section \<open>Sending over a working socket\<close>

definition reliable :: "dc_env \<Rightarrow> bool" where
  "reliable E \<longleftrightarrow> (\<forall>n. send_ok E n)"

lemma Send_ok: "reliable E \<Longrightarrow> dc_Send E b s = (Inr (), s\<lparr>dc_out := dc_out s @ [Sent (m_data b)]\<rparr>)"
  by (simp add: dc_Send_def reliable_def)

lemma SendInitAck_ok:
  "reliable E \<Longrightarrow> SendInitAck E s = (Inr (), s\<lparr>dc_out := dc_out s @ [Sent (frame (enc32 LITTLE 1))]\<rparr>)"
proof -
  assume E: "reliable E"
  obtain b where b: "init_ack_packet = Inr b" "m_data b = frame (enc32 LITTLE 1)"
    using init_ack_packet_frame by blast
  show ?thesis
    unfolding SendInitAck_def b(1) by (simp add: Send_ok [OF E] b(2))
qed

lemma SendInit2_ok:
  "reliable E \<Longrightarrow> SendInit2 E s = (Inr (), s\<lparr>dc_out := dc_out s @ [Sent (frame (init2_body (dc_incoming s)))]\<rparr>)"
  using init2_packet_frame [of "dc_incoming s"] by (auto simp: SendInit2_def Send_ok)

definition own_init :: "dc \<Rightarrow> u32 \<Rightarrow> u32 \<Rightarrow> u8 list" where
  "own_init s remote_uin sid =
     init_body 7 remote_uin (m_uin (self_contact s)) (dc_local_server_port s) (dc_local_ext_ip s) (dc_local_ip s) sid"

lemma SendInitPacket_ok:
  assumes "reliable E" and "dc_remote_uin s = Some ru" and "dc_session_id s = Some sid"
    and "dc_eff_tcp_version s = Some 7"
  shows "SendInitPacket E s = (Inr (), s\<lparr>dc_out := dc_out s @ [Sent (frame (own_init s ru sid))]\<rparr>)"
proof -
  obtain b where "init_packet 7 ru (m_uin (self_contact s)) (dc_local_server_port s) (dc_local_ext_ip s)
      (dc_local_ip s) sid = Inr b" "m_data b = frame (own_init s ru sid)"
    using init_packet_frame unfolding own_init_def by blast
  then show ?thesis
    using assms by (simp add: SendInitPacket_def read_def Send_ok)
qed

lemma enter_connected_empty:
  "dc_msgqueue s = [] \<Longrightarrow> enter_connected E s =
     (Inr (), s\<lparr>dc_state := CONNECTED, dc_out := dc_out s @ [ConnectedSignal]\<rparr>)"
  by (simp add: enter_connected_def flush_queue_def)

section \<open>Two ends of a connection\<close>

text \<open>
  A connection with its two ends and the packets that are on their way, in order. A step delivers the
  next packet to either end; what that end sends is then on its way back.
\<close>

record net =
  caller :: dc
  callee :: dc
  to_callee :: "u8 list list"
  to_caller :: "u8 list list"

definition sent_of :: "dc_output list \<Rightarrow> u8 list list" where
  "sent_of os = concat (map (\<lambda>x. case x of Sent p \<Rightarrow> [p] | _ \<Rightarrow> []) os)"

definition new_sent :: "dc \<Rightarrow> dc \<Rightarrow> u8 list list" where
  "new_sent s s' = sent_of (drop (length (dc_out s)) (dc_out s'))"

inductive net_step :: "dc_env \<Rightarrow> dc_env \<Rightarrow> net \<Rightarrow> net \<Rightarrow> bool" for Ea Eb where
  deliver_callee: "to_callee n = p # ps \<Longrightarrow> handle_packet Eb (buffer_of_bytes p) (callee n) = (Inr (), s) \<Longrightarrow>
    net_step Ea Eb n (n\<lparr>callee := s, to_callee := ps, to_caller := to_caller n @ new_sent (callee n) s\<rparr>)"
| deliver_caller: "to_caller n = p # ps \<Longrightarrow> handle_packet Ea (buffer_of_bytes p) (caller n) = (Inr (), s) \<Longrightarrow>
    net_step Ea Eb n (n\<lparr>caller := s, to_caller := ps, to_callee := to_callee n @ new_sent (caller n) s\<rparr>)"

inductive_cases net_step_cases: "net_step Ea Eb n n'"

lemma only_callee:
  assumes "handle_packet Eb (buffer_of_bytes p) b = (Inr (), s)"
  shows "net_step Ea Eb \<lparr>caller = a, callee = b, to_callee = p # ps, to_caller = []\<rparr> n' \<longleftrightarrow>
    n' = \<lparr>caller = a, callee = s, to_callee = ps, to_caller = new_sent b s\<rparr>" (is "net_step _ _ ?n _ \<longleftrightarrow> n' = ?m")
proof
  assume "net_step Ea Eb ?n n'"
  then show "n' = ?m"
    using assms by (cases rule: net_step_cases) auto
qed (use assms net_step.deliver_callee [of ?n p ps Eb s Ea] in simp)

lemma only_caller:
  assumes "handle_packet Ea (buffer_of_bytes p) a = (Inr (), s)"
  shows "net_step Ea Eb \<lparr>caller = a, callee = b, to_callee = [], to_caller = p # ps\<rparr> n' \<longleftrightarrow>
    n' = \<lparr>caller = s, callee = b, to_callee = new_sent a s, to_caller = ps\<rparr>" (is "net_step _ _ ?n _ \<longleftrightarrow> n' = ?m")
proof
  assume "net_step Ea Eb ?n n'"
  then show "n' = ?m"
    using assms by (cases rule: net_step_cases) auto
qed (use assms net_step.deliver_caller [of ?n p ps Ea s Eb] in simp)

lemma no_step: "to_callee n = [] \<Longrightarrow> to_caller n = [] \<Longrightarrow> \<not> net_step Ea Eb n n'"
  by (auto elim: net_step_cases)

text \<open>A run along a chain of states with one step each cannot leave the chain.\<close>

lemma chain_run:
  assumes "\<And>i n'. i < k \<Longrightarrow> R (c i) n' \<longleftrightarrow> n' = c (Suc i)" and "R\<^sup>*\<^sup>* (c 0) n" and "\<And>n'. \<not> R (c k) n'"
  shows "\<exists>i\<le>k. n = c i" and "R\<^sup>*\<^sup>* n (c k)"
proof -
  show i: "\<exists>i\<le>k. n = c i"
    using assms(2)
  proof (induction rule: rtranclp_induct)
    case (step y z)
    then obtain i where i: "i \<le> k" "y = c i" by blast
    then have "i < k"
      using step.hyps(2) assms(3) by (metis le_neq_implies_less)
    then show ?case
      using assms(1) i step.hyps(2) by (metis Suc_leI)
  qed blast
  have "R\<^sup>*\<^sup>* (c j) (c k)" if "j \<le> k" for j
    using that
  proof (induction j rule: inc_induct)
    case (step m)
    then show ?case
      using assms(1) [of m] by (metis converse_rtranclp_into_rtranclp)
  qed simp
  then show "R\<^sup>*\<^sup>* n (c k)"
    using i by blast
qed

section \<open>The handshake\<close>

text \<open>The five packets the two ends handle before both are connected, one lemma each.\<close>

lemma sent_of_simps [simp]:
  "sent_of [] = []" "sent_of (Sent p # os) = p # sent_of os" "sent_of (AddSocket # os) = sent_of os"
  "sent_of (ConnectedSignal # os) = sent_of os" "sent_of (HandlerSignal h # os) = sent_of os"
  "sent_of (os @ os') = sent_of os @ sent_of os'"
  by (simp_all add: sent_of_def)

lemma callee_init:
  assumes "reliable E" and "dc_incoming s" and "dc_state s = WAITING_FOR_INIT" and "m_uin (self_contact s) = ru"
  shows "handle_packet E (buffer_of_bytes (frame (init_body 7 ru su port ext lip sid))) s =
    (Inr (), s\<lparr>dc_state := WAITING_FOR_INIT_ACK, dc_remote_tcp_version := Some 7, dc_eff_tcp_version := Some 7,
       dc_remote_uin := Some su, dc_tcp_flags := Some 4, dc_session_id := Some sid,
       dc_out := dc_out s @ [Sent (frame (enc32 LITTLE 1)), Sent (frame (own_init s su sid))]\<rparr>)"
proof -
  obtain b' where p: "ParseInitPacket (buffer_of_bytes (frame (init_body 7 ru su port ext lip sid))) s =
      (Inr b', s\<lparr>dc_remote_tcp_version := Some 7, dc_eff_tcp_version := Some 7, dc_remote_uin := Some su,
         dc_tcp_flags := Some 4, dc_session_id := Some sid\<rparr>)"
    using ParseInitPacket_ok(1) [OF assms(4,2)] by blast
  show ?thesis
    using assms p
    by (simp add: handle_packet_def SendInitAck_ok SendInitPacket_ok [where ru = su and sid = sid] own_init_def
        self_contact_def)
qed

lemma caller_ack:
  assumes "\<not> dc_incoming s" and "dc_state s = WAITING_FOR_INIT_ACK"
  shows "handle_packet E (buffer_of_bytes (frame (enc32 LITTLE 1))) s = (Inr (), s\<lparr>dc_state := WAITING_FOR_INIT\<rparr>)"
proof -
  obtain b' where "ParseInitAck (buffer_of_bytes (frame (enc32 LITTLE 1))) s = (Inr b', s)"
    using ParseInitAck_ok by blast
  then show ?thesis
    using assms by (simp add: handle_packet_def)
qed

lemma caller_init:
  assumes "reliable E" and "\<not> dc_incoming s" and "dc_state s = WAITING_FOR_INIT" and "m_uin (self_contact s) = ru"
    and "dc_remote_tcp_version s = Some 7" and "dc_remote_uin s = Some su" and "dc_session_id s = Some sid"
    and "dc_eff_tcp_version s = Some 7"
  shows "handle_packet E (buffer_of_bytes (frame (init_body 7 ru su port ext lip sid))) s =
    (Inr (), s\<lparr>dc_state := WAITING_FOR_INIT2, dc_tcp_flags := Some 4,
       dc_out := dc_out s @ [Sent (frame (enc32 LITTLE 1)), Sent (frame (init2_body False))]\<rparr>)"
proof -
  obtain b' where p: "ParseInitPacket (buffer_of_bytes (frame (init_body 7 ru su port ext lip sid))) s =
      (Inr b', s\<lparr>dc_tcp_flags := Some 4\<rparr>)"
    using ParseInitPacket_ok(2) [OF assms(4,2,5-8)] by blast
  show ?thesis
    using assms p by (simp add: handle_packet_def SendInitAck_ok SendInit2_ok read_def)
qed

lemma callee_ack:
  assumes "dc_incoming s" and "dc_state s = WAITING_FOR_INIT_ACK" and "dc_eff_tcp_version s = Some 7"
  shows "handle_packet E (buffer_of_bytes (frame (enc32 LITTLE 1))) s = (Inr (), s\<lparr>dc_state := WAITING_FOR_INIT2\<rparr>)"
proof -
  obtain b' where "ParseInitAck (buffer_of_bytes (frame (enc32 LITTLE 1))) s = (Inr b', s)"
    using ParseInitAck_ok by blast
  then show ?thesis
    using assms by (simp add: handle_packet_def read_def)
qed

text \<open>Whom the contact list and the addresses let in.\<close>

definition known_peer :: "dc \<Rightarrow> u32 \<Rightarrow> contact_ref \<Rightarrow> bool" where
  "known_peer s uin r \<longleftrightarrow> dc_has_list s \<and> tree_lookup_uin uin (mh_tree (dc_mh s)) = Some r \<and>
     (let c = mh_store (dc_mh s) r in
      (m_ext_ip c = dc_local_ext_ip s \<and> m_lan_ip c = dc_remote_ip s) \<or> m_ext_ip c = dc_remote_ip s)"

lemma callee_init2:
  assumes "reliable E" and "dc_incoming s" and "dc_state s = WAITING_FOR_INIT2" and "dc_remote_uin s = Some uin"
    and "known_peer s uin r" and "dc_msgqueue s = []"
  shows "handle_packet E (buffer_of_bytes (frame (init2_body inc))) s =
    (Inr (), s\<lparr>dc_state := CONNECTED, dc_contact := Some r,
       dc_out := dc_out s @ [Sent (frame (init2_body True)), ConnectedSignal]\<rparr>)"
proof -
  obtain b' where "ParseInit2 (buffer_of_bytes (frame (init2_body inc))) s = (Inr b', s)"
    using ParseInit2_ok by blast
  moreover have "tree_exists uin (mh_tree (dc_mh s))"
    using assms(5) by (auto simp: known_peer_def tree_exists_lookup)
  ultimately show ?thesis
    using assms
    by (simp add: handle_packet_def SendInit2_ok ConfirmUIN_def read_def known_peer_def Let_def enter_connected_empty)
qed

lemma caller_init2:
  assumes "\<not> dc_incoming s" and "dc_state s = WAITING_FOR_INIT2" and "dc_msgqueue s = []"
  shows "handle_packet E (buffer_of_bytes (frame (init2_body inc))) s =
    (Inr (), s\<lparr>dc_state := CONNECTED, dc_out := dc_out s @ [ConnectedSignal]\<rparr>)"
proof -
  obtain b' where "ParseInit2 (buffer_of_bytes (frame (init2_body inc))) s = (Inr b', s)"
    using ParseInit2_ok by blast
  then show ?thesis
    using assms by (simp add: handle_packet_def enter_connected_empty)
qed

text \<open>The caller after connecting: it has sent its initial packet.\<close>

definition call :: "dc_env \<Rightarrow> unit dcm" where
  "call E = thenM (dc_Connect E) (\<lambda>_. FinishNonBlockingConnect E)"

lemma call_ok:
  assumes "reliable E" and "connect_ok E" and "m_tcp_version (mh_store mh r) = 7"
    and "s0 = new_dc_to mh r ext_ip port local_ip"
  shows "\<exists>sid n. call E s0 = (Inr (), s0\<lparr>dc_state := WAITING_FOR_INIT_ACK, dc_remote_tcp_version := Some 7,
     dc_eff_tcp_version := Some 7, dc_session_id := Some sid, dc_remote_ip := m_lan_ip (mh_store mh r),
     dc_drawn := n,
     dc_out := [AddSocket, Sent (frame (own_init s0 (m_uin (mh_store mh r)) sid))]\<rparr>)"
  using assms(1-3) unfolding assms(4)
  by (cases "m_dc_cookie (mh_store mh r) = 0")
    (auto simp: call_def dc_Connect_def contact_of_def FinishNonBlockingConnect_def
      SendInitPacket_ok [where ru = "m_uin (mh_store mh r)"] new_dc_to_def new_dc_def own_init_def self_contact_def)

text \<open>C19: The handshake of the current protocol version cannot get stuck: if the caller is on the contact
  list of the callee with a matching address, then wherever a run has got to, it can go on until both
  ends are connected, and it can only end there; both ends then agree on the session, know each
  other's UIN, and the callee has the caller's contact.\<close>

theorem handshake_completes:
  assumes env: "reliable Ea" "connect_ok Ea" "reliable Eb"
    and a: "a0 = new_dc_to mha r exta porta lipa" "m_tcp_version (mh_store mha r) = 7" "call Ea a0 = (Inr (), a1)"
    and b: "b0 = new_dc mhb extb portb ripb lipb" "m_uin (self_contact b0) = m_uin (mh_store mha r)"
    and known: "known_peer b0 (m_uin (self_contact a0)) rb"
    and run: "(net_step Ea Eb)\<^sup>*\<^sup>*
      \<lparr>caller = a1, callee = b0, to_callee = sent_of (dc_out a1), to_caller = []\<rparr> n"
  shows "\<exists>n'. (net_step Ea Eb)\<^sup>*\<^sup>* n n' \<and> dc_state (caller n') = CONNECTED \<and> dc_state (callee n') = CONNECTED \<and>
      dc_session_id (caller n') = dc_session_id (callee n') \<and> dc_contact (callee n') = Some rb \<and>
      dc_remote_uin (callee n') = Some (m_uin (self_contact a0)) \<and> to_callee n' = [] \<and> to_caller n' = [] \<and>
      ((\<forall>n''. \<not> net_step Ea Eb n n'') \<longrightarrow> n' = n)"
proof -
  let ?ub = "m_uin (mh_store mha r)" and ?ua = "m_uin (self_contact a0)"
  obtain sid k where a1: "a1 = a0\<lparr>dc_state := WAITING_FOR_INIT_ACK, dc_remote_tcp_version := Some 7,
     dc_eff_tcp_version := Some 7, dc_session_id := Some sid, dc_remote_ip := m_lan_ip (mh_store mha r),
     dc_drawn := k, dc_out := [AddSocket, Sent (frame (own_init a0 ?ub sid))]\<rparr>"
    using call_ok [OF env(1,2) a(2,1)] a(3) by auto
  let ?ack = "frame (enc32 LITTLE 1)"
  define b1 where "b1 = b0\<lparr>dc_state := WAITING_FOR_INIT_ACK, dc_remote_tcp_version := Some 7,
     dc_eff_tcp_version := Some 7, dc_remote_uin := Some ?ua, dc_tcp_flags := Some 4, dc_session_id := Some sid,
     dc_out := dc_out b0 @ [Sent ?ack, Sent (frame (own_init b0 ?ua sid))]\<rparr>"
  define a2 where "a2 = a1\<lparr>dc_state := WAITING_FOR_INIT\<rparr>"
  define a3 where "a3 = a2\<lparr>dc_state := WAITING_FOR_INIT2, dc_tcp_flags := Some 4,
     dc_out := dc_out a2 @ [Sent ?ack, Sent (frame (init2_body False))]\<rparr>"
  define b2 where "b2 = b1\<lparr>dc_state := WAITING_FOR_INIT2\<rparr>"
  define b3 where "b3 = b2\<lparr>dc_state := CONNECTED, dc_contact := Some rb,
     dc_out := dc_out b2 @ [Sent (frame (init2_body True)), ConnectedSignal]\<rparr>"
  define a4 where "a4 = a3\<lparr>dc_state := CONNECTED, dc_out := dc_out a3 @ [ConnectedSignal]\<rparr>"
  have A0: "\<not> dc_incoming a0" "dc_remote_uin a0 = Some ?ub" "dc_msgqueue a0 = []"
    by (simp_all add: a(1) new_dc_to_def new_dc_def)
  have B0: "dc_incoming b0" "dc_state b0 = WAITING_FOR_INIT" "dc_msgqueue b0 = []" "dc_out b0 = []"
    by (simp_all add: b(1) new_dc_def)
  have s: "self_contact a2 = self_contact a0"
    by (simp add: self_contact_def a2_def a1)
  have kp: "known_peer b2 ?ua rb"
    using known by (simp add: known_peer_def b2_def b1_def Let_def)
  have h1: "handle_packet Eb (buffer_of_bytes (frame (own_init a0 ?ub sid))) b0 = (Inr (), b1)"
    unfolding own_init_def [of a0] b1_def by (rule callee_init [OF env(3) B0(1,2) b(2)])
  have h2: "handle_packet Ea (buffer_of_bytes ?ack) a1 = (Inr (), a2)"
    unfolding a2_def by (rule caller_ack) (simp_all add: a1 A0)
  have h3: "handle_packet Ea (buffer_of_bytes (frame (own_init b0 ?ua sid))) a2 = (Inr (), a3)"
    unfolding own_init_def [of b0] a3_def b(2)
    by (rule caller_init [OF env(1)]) (simp_all add: s, simp_all add: a2_def a1 A0)
  have h4: "handle_packet Eb (buffer_of_bytes ?ack) b1 = (Inr (), b2)"
    unfolding b2_def by (rule callee_ack) (simp_all add: b1_def B0)
  have h5: "handle_packet Eb (buffer_of_bytes (frame (init2_body False))) b2 = (Inr (), b3)"
    unfolding b3_def by (rule callee_init2 [OF env(3) _ _ _ kp]) (simp_all add: b2_def b1_def B0)
  have h6: "handle_packet Ea (buffer_of_bytes (frame (init2_body True))) a3 = (Inr (), a4)"
    unfolding a4_def by (rule caller_init2) (simp_all add: a3_def a2_def a1 A0)
  define c where "c = (!) [
     \<lparr>caller = a1, callee = b0, to_callee = [frame (own_init a0 ?ub sid)], to_caller = []\<rparr>,
     \<lparr>caller = a1, callee = b1, to_callee = [], to_caller = [?ack, frame (own_init b0 ?ua sid)]\<rparr>,
     \<lparr>caller = a2, callee = b1, to_callee = [], to_caller = [frame (own_init b0 ?ua sid)]\<rparr>,
     \<lparr>caller = a3, callee = b1, to_callee = [?ack, frame (init2_body False)], to_caller = []\<rparr>,
     \<lparr>caller = a3, callee = b2, to_callee = [frame (init2_body False)], to_caller = []\<rparr>,
     \<lparr>caller = a3, callee = b3, to_callee = [], to_caller = [frame (init2_body True)]\<rparr>,
     \<lparr>caller = a4, callee = b3, to_callee = [], to_caller = []\<rparr>]"
  have ns: "new_sent b0 b1 = [?ack, frame (own_init b0 ?ua sid)]" "new_sent a1 a2 = []"
    "new_sent a2 a3 = [?ack, frame (init2_body False)]" "new_sent b1 b2 = []"
    "new_sent b2 b3 = [frame (init2_body True)]" "new_sent a3 a4 = []"
    by (simp_all add: new_sent_def b1_def a2_def a3_def b2_def b3_def a4_def B0(4))
  have chain: "net_step Ea Eb (c i) n' \<longleftrightarrow> n' = c (Suc i)" if "i < 6" for i n'
  proof -
    have "i = 0 \<or> i = 1 \<or> i = 2 \<or> i = 3 \<or> i = 4 \<or> i = 5"
      using that by auto
    then show ?thesis
      by (elim disjE)
        (simp_all add: c_def only_callee [OF h1] only_caller [OF h2] only_caller [OF h3]
          only_callee [OF h4] only_callee [OF h5] only_caller [OF h6] ns)
  qed
  have last: "\<not> net_step Ea Eb (c 6) n'" for n'
    by (rule no_step) (simp_all add: c_def)
  have "(net_step Ea Eb)\<^sup>*\<^sup>* (c 0) n"
    using run by (simp add: c_def a1)
  note r = chain_run [where k = 6, OF chain this last]
  have "n = c 6" if "\<forall>n''. \<not> net_step Ea Eb n n''"
    using r(2) that by (metis converse_rtranclpE)
  then show ?thesis
    using r(2)
    by (intro exI [of _ "c 6"])
      (auto simp: c_def a4_def a3_def a2_def a1 b3_def b2_def b1_def)
qed

text \<open>Two clients that have just met: the caller \<open>1\<close> knows \<open>7\<close>'s version, and \<open>7\<close> has \<open>1\<close> on its list.\<close>

definition sample_caller :: handler where
  "sample_caller = sample_handler\<lparr>mh_store := (mh_store sample_handler)(7 := (uin_contact False 7)\<lparr>m_tcp_version := 7\<rparr>)\<rparr>"

definition sample_callee :: handler where
  "sample_callee = sample_handler\<lparr>mh_self := 7, mh_tree := \<lparr>m_groups = [(new_group ''friends'' 1)\<lparr>m_crefs := [(1, 1)]\<rparr>]\<rparr>\<rparr>"

theorem handshake_completes_witness:
  "\<exists>a1 n'. call sample_env (new_dc_to sample_caller 7 0 1000 0) = (Inr (), a1) \<and>
     (net_step sample_env sample_env)\<^sup>*\<^sup>*
       \<lparr>caller = a1, callee = new_dc sample_callee 0 2000 0 0, to_callee = sent_of (dc_out a1), to_caller = []\<rparr> n' \<and>
     dc_state (caller n') = CONNECTED \<and> dc_state (callee n') = CONNECTED \<and> dc_contact (callee n') = Some 1"
proof -
  let ?a0 = "new_dc_to sample_caller 7 0 1000 0" and ?b0 = "new_dc sample_callee 0 2000 0 0"
  have E: "reliable sample_env" "connect_ok sample_env"
    by (simp_all add: reliable_def sample_env_def)
  have v: "m_tcp_version (mh_store sample_caller 7) = 7"
    by (simp add: sample_caller_def)
  obtain a1 where a1: "call sample_env ?a0 = (Inr (), a1)"
    using call_ok [OF E v refl] by blast
  have u: "m_uin (self_contact ?b0) = m_uin (mh_store sample_caller 7)"
    by (simp add: self_contact_def new_dc_def sample_callee_def sample_caller_def sample_handler_def uin_contact_def Init_def)
  have "known_peer ?b0 (m_uin (self_contact ?a0)) 1"
    by (simp add: known_peer_def self_contact_def new_dc_def new_dc_to_def sample_callee_def sample_caller_def
        sample_handler_def uin_contact_def Init_def tree_lookup_uin_def gp_exists_def gp_lookup_uin_def
        new_group_def Let_def)
  from handshake_completes [OF E E(1) refl v a1 refl u this rtranclp.rtrancl_refl] a1 show ?thesis
    by blast
qed

section \<open>A packet between two connected clients\<close>

lemma at_pos0:
  "m_out_pos b = 0 \<Longrightarrow> m_data b = bs \<Longrightarrow> length bs < 2 ^ 31 \<Longrightarrow> at (setLittleEndian b) LITTLE bs"
  by (simp add: at_def wfb_def unread_def setLittleEndian_def)

definition start_bytes :: "u16 \<Rightarrow> u8 list" where
  "start_bytes v = (if v = 7 then [2] else [])"

text \<open>What encrypting yields and the other end decrypts.\<close>

lemma dc_Encrypt_ok:
  assumes "dc_eff_tcp_version s = Some v" and "v = 6 \<or> v = 7" and "m_out_pos b = 0"
    and "11 \<le> length (m_data b)" and "length (m_data b) < 2 ^ 30"
  shows "\<exists>c pl b'' p len check. dc_Encrypt E b s = (Inr c, s\<lparr>dc_drawn := Suc (Suc (dc_drawn s))\<rparr>) \<and>
    m_data c = frame pl \<and> length pl \<le> Suc (length (m_data b)) \<and>
    Decrypt v (buffer_of_bytes (m_data c)) new_buffer = Some (Inr (True, b'', p)) \<and>
    at (setLittleEndian p) LITTLE (enc16 LITTLE len @ start_bytes v @ enc32 LITTLE check @ drop 4 (m_data b))"
proof -
  let ?r = "draws E (dc_drawn s)" and ?q = "draws E (Suc (dc_drawn s))"
  obtain b' c check b'' p pl where E: "Encrypt ?r ?q v b new_buffer = Some (Inr (b', c))"
    and D: "Decrypt v (buffer_of_bytes (m_data c)) new_buffer = Some (Inr (True, b'', p))"
    and p: "m_data p = enc16 LITTLE (word_of_nat (length (m_data b) + (if v = 7 then 1 else 0))) @
      (if v = 7 then [2] else []) @ enc32 LITTLE check @ drop 4 (m_data b)" "m_out_pos p = 0"
    and c: "m_data c = enc16 LITTLE (word_of_nat (length pl)) @ pl"
      "length pl = length (m_data b) + (if v = 7 then 1 else 0)"
    using Encrypt_Decrypt [OF assms(2,3,4,5), of ?r ?q] by metis
  have "dc_Encrypt E b s = (Inr c, s\<lparr>dc_drawn := Suc (Suc (dc_drawn s))\<rparr>)"
    using E assms(1,2) by (auto simp: dc_Encrypt_def read_def)
  moreover have "at (setLittleEndian p) LITTLE (enc16 LITTLE (word_of_nat (length (m_data b) + (if v = 7 then 1 else 0))) @
      start_bytes v @ enc32 LITTLE check @ drop 4 (m_data b))"
    unfolding start_bytes_def by (rule at_pos0 [OF p(2,1)]) (use assms(4,5) in auto)
  moreover have "m_data c = frame pl" "length pl \<le> Suc (length (m_data b))"
    using c by (simp_all add: frame_def)
  ultimately show ?thesis
    using D by blast
qed

definition head_bytes :: "u16 \<Rightarrow> u16 \<Rightarrow> u8 list" where
  "head_bytes command seqnum = enc16 LITTLE command @ enc16 LITTLE 0x000e @ enc16 LITTLE seqnum @
     (enc32 LITTLE 0 @ enc32 LITTLE 0 @ enc32 LITTLE 0)"

lemma packet_head_app:
  "packet_head command seqnum = app (enc32 LITTLE 0 @ head_bytes command seqnum) (setLittleEndian new_buffer)"
  by (simp add: packet_head_def put_app head_bytes_def)

lemma packet_head_simps [simp]:
  "m_endn (packet_head command seqnum) = LITTLE" "m_out_pos (packet_head command seqnum) = 0"
  "m_data (packet_head command seqnum) = enc32 LITTLE 0 @ head_bytes command seqnum"
  "length (head_bytes command seqnum) = 18"
  by (simp_all add: packet_head_app head_bytes_def) (simp add: app_def setLittleEndian_def new_buffer_def)

lemma read_end: "at b LITTLE [] \<Longrightarrow> \<exists>x b'. get_u8 b = Inr (x, b') \<and> (\<exists>y b''. get_u16 b' = Inr (y, b''))"
proof -
  assume b: "at b LITTLE []"
  then have l: "length (m_data b) = unat (m_out_pos b)" "unat (m_out_pos b) < 2 ^ 31"
    by (auto simp: at_def wfb_def unread_def)
  then have "unat (m_out_pos b + 1) = unat (m_out_pos b) + 1" "unat (m_out_pos b + 2) = unat (m_out_pos b) + 2"
    by (subst unat_plus_u32; simp)+
  then show ?thesis
    using l by (simp add: get_u8_def get_u16_def)
qed

lemma thenM_step: "m s = (Inr x, s') \<Longrightarrow> f x s' = r \<Longrightarrow> thenM m f s = r"
  by simp

text \<open>Reading it, up to what is done with the message.\<close>

lemma ParsePacketInt_ok:
  assumes p: "at (setLittleEndian p) LITTLE (enc16 LITTLE len @ start_bytes v @ enc32 LITTLE check @
      head_bytes command seqnum @ msg)"
    and v: "dc_eff_tcp_version s = Some v" and r: "dc_contact s = Some r" and cmd: "command = V6_TCP_START \<or> command = V6_TCP_ACK"
    and msg: "\<And>b. at b LITTLE msg \<Longrightarrow> \<exists>b'. ParseICQSubType True (command = V6_TCP_ACK) b =
      Inr (\<lparr>m_flags8 = fl, body = UINSubType u ub\<rparr>, b') \<and> at b' LITTLE []"
    and h: "(if command = V6_TCP_START then handle_start E seqnum fl (u\<lparr>u_source := m_uin (mh_store (dc_mh s) r)\<rparr>) ub
       else handle_ack E seqnum (u\<lparr>u_source := m_uin (mh_store (dc_mh s) r)\<rparr>) ub) s = (Inr (), s')"
  shows "ParsePacketInt E p s = (Inr (), s')"
proof -
  note 1 = rd_u16 [OF p]
  let ?p1 = "advance 2 (setLittleEndian p)"
  obtain p2 where 2: "(if v = 7 then thenM (liftR (get_u8 ?p1)) (\<lambda>(start_byte, b).
      thenM (unless (start_byte = 0x02) ''Message Packet didn't start with 0x02'') (\<lambda>_. ret b)) else ret ?p1) s = (Inr p2, s)"
    "at p2 LITTLE (enc32 LITTLE check @ head_bytes command seqnum @ msg)"
  proof (cases "v = 7")
    case True
    have "at ?p1 LITTLE (2 # enc32 LITTLE check @ head_bytes command seqnum @ msg)"
      using 1(2) True by (simp add: start_bytes_def)
    then show ?thesis
      using rd_u8 [of ?p1] True by (intro that [of "advance 1 ?p1"]) simp_all
  next
    case False
    then show ?thesis
      using 1(2) by (intro that [of ?p1]) (simp_all add: start_bytes_def)
  qed
  obtain p3 where 3: "get_u32 p2 = Inr (check, p3)" "at p3 LITTLE (enc16 LITTLE command @ enc16 LITTLE 0x000e @
      enc16 LITTLE seqnum @ (enc32 LITTLE 0 @ enc32 LITTLE 0 @ enc32 LITTLE 0) @ msg)"
    using rd_u32 [OF 2(2)] by (simp add: head_bytes_def)
  obtain p4 where 4: "get_u16 p3 = Inr (command, p4)" "at p4 LITTLE (enc16 LITTLE 0x000e @
      enc16 LITTLE seqnum @ (enc32 LITTLE 0 @ enc32 LITTLE 0 @ enc32 LITTLE 0) @ msg)"
    using rd_u16 [OF 3(2)] by blast
  obtain p5 where 5: "get_u16 p4 = Inr (0x000e, p5)" "at p5 LITTLE (
      enc16 LITTLE seqnum @ (enc32 LITTLE 0 @ enc32 LITTLE 0 @ enc32 LITTLE 0) @ msg)"
    using rd_u16 [OF 4(2)] by blast
  obtain p6 where 6: "get_u16 p5 = Inr (seqnum, p6)" "at p6 LITTLE ((enc32 LITTLE 0 @ enc32 LITTLE 0 @ enc32 LITTLE 0) @ msg)"
    using rd_u16 [OF 5(2)] by blast
  have 8: "at (advance 12 p6) LITTLE msg"
    using at_advance [OF 6(2), of 12] by simp
  obtain b' where b': "ParseICQSubType True (command = V6_TCP_ACK) (advance 12 p6) =
      Inr (\<lparr>m_flags8 = fl, body = UINSubType u ub\<rparr>, b')" "at b' LITTLE []"
    using msg [OF 8] by blast
  obtain x b1 y b2 where e: "get_u8 b' = Inr (x, b1)" "get_u16 b1 = Inr (y, b2)"
    using read_end [OF b'(2)] by blast
  have v': "read dc_eff_tcp_version s = (Inr v, s)"
    using v by (simp add: read_def)
  have r': "contact_of s = (Inr r, s)"
    using r by (simp add: contact_of_def)
  have c: "command \<noteq> 0"
    using cmd by (auto simp: tcp_commands)
  let ?u = "u\<lparr>u_source := m_uin (mh_store (dc_mh s) r)\<rparr>"
  have h': "(if command = V6_TCP_START then handle_start E seqnum fl ?u ub
       else if command = V6_TCP_ACK then handle_ack E seqnum ?u ub
       else if command = V6_TCP_CANCEL then handle_cancel seqnum ub
       else raise (Fault (ParseException ''Unknown TCP Command received 0x''))) s = (Inr (), s')"
  proof (cases "command = V6_TCP_START")
    case False
    then have "command = V6_TCP_ACK" using cmd by blast
    then show ?thesis using h False by (simp only: if_False refl if_True)
  qed (use h in \<open>simp only: if_True refl\<close>)
  have fs: "liftR (get_u16 (setLittleEndian p)) s = (Inr (len, ?p1), s)" "liftR (get_u32 p2) s = (Inr (check, p3), s)"
    "liftR (get_u16 p3) s = (Inr (command, p4), s)" "liftR (get_u16 p4) s = (Inr (0x000e, p5), s)"
    "liftR (get_u16 p5) s = (Inr (seqnum, p6), s)" "unless ((0x000e :: u16) = 0x000e) m s = (Inr (), s)"
    "liftR (ParseICQSubType True (command = V6_TCP_ACK) (advance 12 p6)) s =
      (Inr (\<lparr>m_flags8 = fl, body = UINSubType u ub\<rparr>, b'), s)"
    "gets (\<lambda>s. u\<lparr>u_source := m_uin (mh_store (dc_mh s) r)\<rparr>) s = (Inr ?u, s)"
    "unless (command \<noteq> 0) m s = (Inr (), s)"
    "liftR (get_u8 b') s' = (Inr (x, b1), s')" "liftR (get_u16 b1) s' = (Inr (y, b2), s')" for m
    using 1(1) 3(1) 4(1) 5(1) 6(1) b'(1) e c by simp_all
  show ?thesis
    unfolding ParsePacketInt_def
    by (rule thenM_step, rule fs(1), simp only: prod.case, rule thenM_step, rule v', rule thenM_step, rule 2(1),
        rule thenM_step, rule fs(2), simp only: prod.case, rule thenM_step, rule fs(3), simp only: prod.case,
        rule thenM_step, rule fs(4), simp only: prod.case, rule thenM_step, rule fs(5), simp only: prod.case,
        rule thenM_step, rule fs(6), rule thenM_step, rule fs(7),
        simp only: prod.case icq_subtype.select_convs subtype_body.case,
        rule thenM_step, rule r', rule thenM_step, rule fs(8), rule thenM_step, rule fs(9), rule thenM_step, rule h',
        rule thenM_step, rule fs(10), simp only: prod.case, rule thenM_step, rule fs(11), simp only: prod.case effect_simps)
qed

section \<open>A message and its acknowledgement\<close>

lemma Output_parts:
  assumes "body st = UINSubType u ub"
  shows "m_out_pos (ICQSubType_Output st (packet_head command k)) = 0"
    and "\<exists>msg. m_data (ICQSubType_Output st (packet_head command k)) = enc32 LITTLE 0 @ head_bytes command k @ msg \<and>
      drop (length (m_data (packet_head command k))) (m_data (ICQSubType_Output st (packet_head command k))) = msg"
  by (simp_all add: ICQSubType_Output_emit [OF assms])

lemma body_wire [simp]: "body (wire_message u ub) = UINSubType (u\<lparr>u_advanced := True\<rparr>) ub"
  by (simp add: wire_message_def)

text \<open>Sending over an established connection.\<close>

lemma SendEvent_ok:
  assumes E: "reliable E" and st: "dc_state s = CONNECTED" "dc_eff_tcp_version s = Some v" "v = 6 \<or> v = 7"
    and out: "handleOutgoing (c2s E) (indet E) ev (dc_mh s) = Inr (u, ub)"
    and nf: "getType (UINSubType (u\<lparr>u_advanced := True\<rparr>) ub) \<noteq> MSG_Type_FT"
    and len: "length (m_data (ICQSubType_Output (wire_message u ub) (packet_head V6_TCP_START (dc_seqnum s)))) < 65535"
  shows "\<exists>pl b'' p len check s'. SendEvent E ev s = (Inr (), s') \<and>
     s' = s\<lparr>dc_seqnum := dc_seqnum s - 1, dc_drawn := Suc (Suc (dc_drawn s)), dc_out := dc_out s @ [Sent (frame pl)],
        dc_msgcache := cache_insert (dc_seqnum s) ev (uint (now E)) (dc_msgcache s)\<rparr> \<and> length pl < 2 ^ 16 \<and>
     Decrypt v (buffer_of_bytes (frame pl)) new_buffer = Some (Inr (True, b'', p)) \<and>
     at (setLittleEndian p) LITTLE (enc16 LITTLE len @ start_bytes v @ enc32 LITTLE check @
       head_bytes V6_TCP_START (dc_seqnum s) @ drop 22 (m_data (ICQSubType_Output (wire_message u ub)
         (packet_head V6_TCP_START (dc_seqnum s)))))"
proof -
  let ?k = "dc_seqnum s"
  let ?b = "ICQSubType_Output (wire_message u ub) (packet_head V6_TCP_START ?k)"
  note parts = Output_parts [OF body_wire [of u ub], of V6_TCP_START ?k]
  obtain msg where msg: "m_data ?b = enc32 LITTLE 0 @ head_bytes V6_TCP_START ?k @ msg"
    using parts(2) by blast
  then have d4: "drop 4 (m_data ?b) = head_bytes V6_TCP_START ?k @ drop 22 (m_data ?b)"
    by simp
  let ?s1 = "s\<lparr>dc_seqnum := ?k - 1\<rparr>"
  have l: "11 \<le> length (m_data ?b)" "length (m_data ?b) < 2 ^ 30"
    using msg len by simp_all
  obtain c pl b'' p len' check where e: "dc_Encrypt E ?b ?s1 = (Inr c, ?s1\<lparr>dc_drawn := Suc (Suc (dc_drawn ?s1))\<rparr>)"
    "m_data c = frame pl" "length pl \<le> Suc (length (m_data ?b))"
    "Decrypt v (buffer_of_bytes (m_data c)) new_buffer = Some (Inr (True, b'', p))"
    "at (setLittleEndian p) LITTLE (enc16 LITTLE len' @ start_bytes v @ enc32 LITTLE check @ drop 4 (m_data ?b))"
    using dc_Encrypt_ok [OF _ st(3) parts(1) l, of ?s1 E] st(2) by auto
  have "SendEvent E ev s = (Inr (), s\<lparr>dc_seqnum := ?k - 1, dc_drawn := Suc (Suc (dc_drawn s)),
      dc_out := dc_out s @ [Sent (frame pl)], dc_msgcache := cache_insert ?k ev (uint (now E)) (dc_msgcache s)\<rparr>)"
    using st(1) out e(1) nf
    by (simp add: SendEvent_def SendPacketEvent_def NextSeqNum_def Let_def Send_ok [OF E] e(2) cache_msg_def)
  moreover have "length pl < 2 ^ 16"
    using e(3) len by simp
  ultimately show ?thesis
    using e(2,4,5) unfolding d4 by (intro exI conjI) (assumption | simp)+
qed

end
