(* ===== verification/SnacBase.thy ===== *)
theory SnacBase
  imports TLV ICBMCookie ContactTree Packet
begin

text \<open>
  The packets of the server connection are SNACs: \<^verbatim>\<open>src/SNAC-base.h\<close> and \<^verbatim>\<open>src/SNAC-base.cpp\<close>. This
  theory holds what they share, the header and the user information block
  (\<^verbatim>\<open>src/UserInfoBlock.cpp\<close>), and the bodies of the small families: the generic services
  (\<^verbatim>\<open>src/SNAC-GEN.cpp\<close>), the buddy list (\<^verbatim>\<open>src/SNAC-BUD.cpp\<close>), the visibility lists
  (\<^verbatim>\<open>src/SNAC-BOS.cpp\<close>), the location service (\<^verbatim>\<open>src/SNAC-LOC.cpp\<close>) and the registration of UINs
  (\<^verbatim>\<open>src/SNAC-UIN.cpp\<close>). A body is a function from what the object holds to the bytes it appends, or
  from the buffer to what it reads. Members a constructor leaves unset are \<open>None\<close> until they are set.
\<close>

section \<open>Families\<close>

definition SNAC_FAM_GEN :: u16 where "SNAC_FAM_GEN = 0x0001"
definition SNAC_FAM_LOC :: u16 where "SNAC_FAM_LOC = 0x0002"
definition SNAC_FAM_BUD :: u16 where "SNAC_FAM_BUD = 0x0003"
definition SNAC_FAM_MSG :: u16 where "SNAC_FAM_MSG = 0x0004"
definition SNAC_FAM_INV :: u16 where "SNAC_FAM_INV = 0x0006"
definition SNAC_FAM_BOS :: u16 where "SNAC_FAM_BOS = 0x0009"
definition SNAC_FAM_LUP :: u16 where "SNAC_FAM_LUP = 0x000a"
definition SNAC_FAM_SBL :: u16 where "SNAC_FAM_SBL = 0x0013"
definition SNAC_FAM_SRV :: u16 where "SNAC_FAM_SRV = 0x0015"
definition SNAC_FAM_UIN :: u16 where "SNAC_FAM_UIN = 0x0017"

lemmas snac_families = SNAC_FAM_GEN_def SNAC_FAM_LOC_def SNAC_FAM_BUD_def SNAC_FAM_MSG_def
  SNAC_FAM_INV_def SNAC_FAM_BOS_def SNAC_FAM_LUP_def SNAC_FAM_SBL_def SNAC_FAM_SRV_def SNAC_FAM_UIN_def

section \<open>Casts of the TLVs in a list\<close>

text \<open>\<^verbatim>\<open>(XTLV*)tlvlist[TLV_X]\<close>: the pointer may be null, and the object of another class.\<close>

definition tlv_cast :: "(in_tlv \<Rightarrow> 'a option) \<Rightarrow> u16 \<Rightarrow> tlv_list \<Rightarrow> 'a result" where
  "tlv_cast sel ty m =
     (case fst (tlv_index ty m) of
        None \<Rightarrow> Inl NullPointer
      | Some t \<Rightarrow> (case sel t of None \<Rightarrow> Inl BadCast | Some v \<Rightarrow> Inr v))"

text \<open>\<^verbatim>\<open>if (tlvlist.exists(TLV_X)) v = ((XTLV*)tlvlist[TLV_X])->Value()\<close>\<close>

definition tlv_value :: "(in_tlv \<Rightarrow> 'a option) \<Rightarrow> u16 \<Rightarrow> tlv_list \<Rightarrow> 'a option result" where
  "tlv_value sel ty m =
     (if tlv_exists ty m then andThen (tlv_cast sel ty m) (\<lambda>v. Inr (Some v)) else Inr None)"

definition as_UserClass :: "in_tlv \<Rightarrow> u16 option" where
  "as_UserClass t = (case t of UserClassTLV v \<Rightarrow> Some v | _ \<Rightarrow> None)"

definition as_Status :: "in_tlv \<Rightarrow> status_part option" where
  "as_Status t = (case t of StatusTLV v \<Rightarrow> Some v | _ \<Rightarrow> None)"

definition as_TimeOnline :: "in_tlv \<Rightarrow> u32 option" where
  "as_TimeOnline t = (case t of TimeOnlineTLV v \<Rightarrow> Some v | _ \<Rightarrow> None)"

definition as_SignupDate :: "in_tlv \<Rightarrow> u32 option" where
  "as_SignupDate t = (case t of SignupDateTLV v \<Rightarrow> Some v | _ \<Rightarrow> None)"

definition as_SignonDate :: "in_tlv \<Rightarrow> u32 option" where
  "as_SignonDate t = (case t of SignonDateTLV v \<Rightarrow> Some v | _ \<Rightarrow> None)"

definition as_LANDetails :: "in_tlv \<Rightarrow> lan_details option" where
  "as_LANDetails t = (case t of LANDetailsTLV v \<Rightarrow> Some v | _ \<Rightarrow> None)"

definition as_IPAddress :: "in_tlv \<Rightarrow> u32 option" where
  "as_IPAddress t = (case t of IPAddressTLV v \<Rightarrow> Some v | _ \<Rightarrow> None)"

definition as_Port :: "in_tlv \<Rightarrow> u16 option" where
  "as_Port t = (case t of PortTLV v \<Rightarrow> Some v | _ \<Rightarrow> None)"

definition as_Capabilities :: "in_tlv \<Rightarrow> capabilities option" where
  "as_Capabilities t = (case t of CapabilitiesTLV v \<Rightarrow> Some v | _ \<Rightarrow> None)"

definition as_WebAddress :: "in_tlv \<Rightarrow> string option" where
  "as_WebAddress t = (case t of WebAddressTLV v \<Rightarrow> Some v | _ \<Rightarrow> None)"

lemmas as_defs = as_UserClass_def as_Status_def as_TimeOnline_def as_SignupDate_def as_SignonDate_def
  as_LANDetails_def as_IPAddress_def as_Port_def as_Capabilities_def as_WebAddress_def

section \<open>The user information block\<close>

record user_info_block =
  ui_screenname :: string
  ui_warninglevel :: u16
  ui_userClass :: u16
  ui_allowDirect :: u8
  ui_webAware :: u8
  ui_status :: u16
  ui_birthday :: "bool option"
  ui_timeOnline :: u32
  ui_signupDate :: u32
  ui_signonDate :: u32
  ui_lan_ip :: "u32 option"
  ui_ext_ip :: u32
  ui_dc_cookie :: "u32 option"
  ui_lan_port :: "u16 option"
  ui_ext_port :: u16
  ui_firewall :: u16
  ui_tcp_version :: u8
  ui_contains_capabilities :: bool
  ui_capabilities :: capabilities

text \<open>
  The constructor leaves the numbers unset; \<open>Parse\<close> always sets them, except for the birthday and the
  cookie, so they are 0 here.
\<close>

definition new_user_info_block :: user_info_block where
  "new_user_info_block =
     \<lparr>ui_screenname = [], ui_warninglevel = 0, ui_userClass = 0, ui_allowDirect = 0, ui_webAware = 0,
      ui_status = 0, ui_birthday = None, ui_timeOnline = 0, ui_signupDate = 0, ui_signonDate = 0,
      ui_lan_ip = None, ui_ext_ip = 0, ui_dc_cookie = None, ui_lan_port = None, ui_ext_port = 0,
      ui_firewall = 0, ui_tcp_version = 0, ui_contains_capabilities = False,
      ui_capabilities = new_capabilities\<rparr>"

definition ui_getUIN :: "user_info_block \<Rightarrow> u32" where
  "ui_getUIN u = StringtoUIN (ui_screenname u)"

definition value_or :: "'a \<Rightarrow> 'a option \<Rightarrow> 'a" where
  "value_or d v = (case v of None \<Rightarrow> d | Some x \<Rightarrow> x)"

text \<open>What \<open>Parse\<close> does with the list of TLVs.\<close>

definition ui_of_tlvs :: "tlv_list \<Rightarrow> user_info_block \<Rightarrow> user_info_block result" where
  "ui_of_tlvs m u =
     andThen (tlv_value as_UserClass TLV_UserClass m) (\<lambda>uc.
     andThen (tlv_value as_Status TLV_Status m) (\<lambda>st.
     andThen (tlv_value as_TimeOnline TLV_TimeOnline m) (\<lambda>online.
     andThen (tlv_value as_SignupDate TLV_SignupDate m) (\<lambda>signup.
     andThen (tlv_value as_SignonDate TLV_SignonDate m) (\<lambda>signon.
     andThen (tlv_value as_LANDetails TLV_LANDetails m) (\<lambda>lan.
     andThen (tlv_value as_IPAddress TLV_IPAddress m) (\<lambda>ip.
     andThen (tlv_value as_Port TLV_Port m) (\<lambda>port.
     andThen (tlv_value as_Capabilities TLV_Capabilities m) (\<lambda>caps.
     let u = u\<lparr>ui_userClass := value_or 0 uc, ui_timeOnline := value_or 0 online,
               ui_signupDate := value_or 0 signup, ui_signonDate := value_or 0 signon,
               ui_ext_ip := value_or 0 ip, ui_ext_port := value_or 0 port\<rparr>;
         u = (case st of
                None \<Rightarrow> u\<lparr>ui_status := 0, ui_allowDirect := 0, ui_webAware := 0\<rparr>
              | Some s \<Rightarrow> u\<lparr>ui_status := st_status s, ui_allowDirect := m_allowDirect s,
                            ui_webAware := m_webAware s, ui_birthday := Some (getBirthday s)\<rparr>);
         u = (case lan of
                None \<Rightarrow> u\<lparr>ui_lan_ip := Some 0, ui_lan_port := Some 0, ui_firewall := 0, ui_tcp_version := 0\<rparr>
              | Some d \<Rightarrow> u\<lparr>ui_lan_ip := m_lan_ip d, ui_lan_port := m_lan_port d, ui_firewall := m_firewall d,
                            ui_tcp_version := lan_tcp_version d, ui_dc_cookie := Some (m_dc_cookie d)\<rparr>)
     in Inr (case caps of
               None \<Rightarrow> u
             | Some c \<Rightarrow> u\<lparr>ui_contains_capabilities := True, ui_capabilities := c\<rparr>))))))))))"

definition UserInfoBlock_Parse :: "u8 list \<Rightarrow> user_info_block \<Rightarrow> buffer \<Rightarrow> (user_info_block \<times> buffer) result" where
  "UserInfoBlock_Parse cap0 u b =
     andThen (UnpackByteString (ui_screenname u) b) (\<lambda>(sn, b).
     andThen (get_u16 b) (\<lambda>(wl, b).
     andThen (get_u16 b) (\<lambda>(n, b).
     andThen (TLVList_Parse cap0 TLV_ParseMode_Channel02 n (\<lambda>_. None) b) (\<lambda>(m, b).
     andThen (ui_of_tlvs m (u\<lparr>ui_screenname := sn, ui_warninglevel := wl\<rparr>)) (\<lambda>u. Inr (u, b))))))"

section \<open>Generic services\<close>

text \<open>
  The loops that skip the families the server lists, up to the end of the packet; \<open>None\<close> is a loop
  that does not end.
\<close>

partial_function (option) skip_families :: "buffer \<Rightarrow> buffer result option" where
  "skip_families b =
     (if beforeEnd b then
        (case get_u16 b of Inl e \<Rightarrow> Some (Inl e) | Inr (cap, b) \<Rightarrow> skip_families b)
      else Some (Inr b))"

definition ServerReadySNAC_ParseBody :: "buffer \<Rightarrow> buffer result option" where
  "ServerReadySNAC_ParseBody b = skip_families b"

partial_function (option) skip_versions :: "buffer \<Rightarrow> buffer result option" where
  "skip_versions b =
     (if beforeEnd b then
        (case get_u16 b of
           Inl e \<Rightarrow> Some (Inl e)
         | Inr (cap, b) \<Rightarrow>
             (case get_u16 b of Inl e \<Rightarrow> Some (Inl e) | Inr (ver, b) \<Rightarrow> skip_versions b))
      else Some (Inr b))"

definition CapAckSNAC_ParseBody :: "buffer \<Rightarrow> buffer result option" where
  "CapAckSNAC_ParseBody b = skip_versions b"

fun skip_rates :: "nat \<Rightarrow> buffer \<Rightarrow> buffer result" where
  "skip_rates 0 b = Inr b"
| "skip_rates (Suc n) b =
     andThen (get_u16 b) (\<lambda>(major, b). andThen (get_u16 b) (\<lambda>(minor, b). skip_rates n b))"

definition RateInfoSNAC_ParseBody :: "buffer \<Rightarrow> buffer result" where
  "RateInfoSNAC_ParseBody b =
     andThen (get_u16 (advance 179 b)) (\<lambda>(n, b).
     andThen (skip_rates (unat n) b) (\<lambda>b. Inr (advance 68 b)))"

record rate_info_change =
  ri_code :: u16
  ri_rateclass :: u16
  ri_windowsize :: u32
  ri_clear :: u32
  ri_alert :: u32
  ri_limit :: u32
  ri_disconnect :: u32
  ri_currentavg :: u32
  ri_maxavg :: u32

definition RateInfoChangeSNAC_ParseBody :: "buffer \<Rightarrow> (rate_info_change \<times> buffer) result" where
  "RateInfoChangeSNAC_ParseBody b =
     andThen (get_u16 b) (\<lambda>(code, b).
     andThen (get_u16 b) (\<lambda>(rateclass, b).
     andThen (get_u32 b) (\<lambda>(windowsize, b).
     andThen (get_u32 b) (\<lambda>(clear, b).
     andThen (get_u32 b) (\<lambda>(alert, b).
     andThen (get_u32 b) (\<lambda>(limit, b).
     andThen (get_u32 b) (\<lambda>(disconnect, b).
     andThen (get_u32 b) (\<lambda>(currentavg, b).
     andThen (get_u32 b) (\<lambda>(maxavg, b).
     Inr (\<lparr>ri_code = code, ri_rateclass = rateclass, ri_windowsize = windowsize, ri_clear = clear,
           ri_alert = alert, ri_limit = limit, ri_disconnect = disconnect, ri_currentavg = currentavg,
           ri_maxavg = maxavg\<rparr>, advance 5 b))))))))))"

definition UserInfoSNAC_ParseBody :: "u8 list \<Rightarrow> buffer \<Rightarrow> (user_info_block \<times> buffer) result" where
  "UserInfoSNAC_ParseBody cap0 b = UserInfoBlock_Parse cap0 new_user_info_block b"

definition MOTDSNAC_ParseBody :: "u8 list \<Rightarrow> buffer \<Rightarrow> ((u8 \<times> string) \<times> buffer) result" where
  "MOTDSNAC_ParseBody cap0 b =
     andThen (get_u8 b) (\<lambda>(status, b).
     andThen (TLVList_Parse cap0 TLV_ParseMode_Channel02 0xffff (\<lambda>_. None) b) (\<lambda>(m, b).
     andThen (tlv_value as_WebAddress TLV_WebAddress m) (\<lambda>url.
     Inr ((status, value_or [] url), b))))"

definition RateInfoAckSNAC_OutputBody :: "buffer \<Rightarrow> buffer" where
  "RateInfoAckSNAC_OutputBody b = fold put_u16 [0x0001, 0x0002, 0x0003, 0x0004, 0x0005] b"

definition CapabilitiesSNAC_OutputBody :: "buffer \<Rightarrow> buffer" where
  "CapabilitiesSNAC_OutputBody b =
     (let v1 = 0x0001; v3 = 0x0003
      in fold put_u16 [SNAC_FAM_GEN, v3, SNAC_FAM_LOC, v1, SNAC_FAM_BUD, v1, SNAC_FAM_SRV, v1,
           SNAC_FAM_MSG, v1, SNAC_FAM_INV, v1, SNAC_FAM_BOS, v1, SNAC_FAM_LUP, v1] b)"

record set_status =
  ss_status :: u16
  ss_port :: "u16 option"
  ss_ip :: "u32 option"
  ss_sendextra :: bool
  ss_web_aware :: bool

definition new_set_status :: "u16 \<Rightarrow> bool \<Rightarrow> set_status" where
  "new_set_status status web_aware =
     \<lparr>ss_status = status, ss_port = None, ss_ip = None, ss_sendextra = False, ss_web_aware = web_aware\<rparr>"

definition ALLOWDIRECT_EVERYONE :: u8 where "ALLOWDIRECT_EVERYONE = 0x00"
definition WEBAWARE_NORMAL :: u8 where "WEBAWARE_NORMAL = 0x02"
definition WEBAWARE_WEBAWARE :: u8 where "WEBAWARE_WEBAWARE = 0x03"

text \<open>Sending the extra details before address and port were set reads unset members.\<close>

definition SetStatusSNAC_tlvs :: "set_status \<Rightarrow> out_tlv list result" where
  "SetStatusSNAC_tlvs s =
     (let st = OutStatus \<lparr>m_allowDirect = ALLOWDIRECT_EVERYONE,
                 m_webAware = (if ss_web_aware s then WEBAWARE_WEBAWARE else WEBAWARE_NORMAL),
                 st_status = ss_status s\<rparr>
      in if ss_sendextra s then
           (case (ss_ip s, ss_port s) of
              (Some ip, Some port) \<Rightarrow> Inr [st, OutUnknown 0, OutLANDetails (lan_details_of ip port)]
            | _ \<Rightarrow> Inl Uninitialised)
         else Inr [st])"

definition SetStatusSNAC_OutputBody :: "set_status \<Rightarrow> buffer \<Rightarrow> buffer result" where
  "SetStatusSNAC_OutputBody s b = andThen (SetStatusSNAC_tlvs s) (\<lambda>ts. Inr (fold TLV_Output ts b))"

definition SetIdleSNAC_OutputBody :: "buffer \<Rightarrow> buffer" where
  "SetIdleSNAC_OutputBody b = put_u32 0x00000000 b"

definition ClientReadySNAC_OutputBody :: "buffer \<Rightarrow> buffer" where
  "ClientReadySNAC_OutputBody b =
     fold put_u32 [0x00010003, 0x0110028a, 0x00020001, 0x0101028a, 0x00030001, 0x0110028a, 0x00150001, 0x0110028a,
       0x00040001, 0x0110028a, 0x00060001, 0x0110028a, 0x00090001, 0x0110028a, 0x000a0001, 0x0110028a] b"

section \<open>Lists of screen names\<close>

text \<open>
  The buddy list and the visibility lists hold UINs as strings. They are filled from the contacts of
  a tree or list, in the order of its iterators, or from one contact, or one by one; the families
  differ only in their subtypes.
\<close>

definition icq_uins :: "contact_store \<Rightarrow> contact_ref list \<Rightarrow> string list" where
  "icq_uins h rs = map (\<lambda>r. getStringUIN (h r)) (filter (\<lambda>r. isICQContact (h r)) rs)"

definition buddies_of_tree :: "contact_store \<Rightarrow> contact_tree \<Rightarrow> string list" where
  "buddies_of_tree h t = icq_uins h (concat (map (\<lambda>g. map snd (m_crefs g)) (m_groups t)))"

definition buddies_of_list :: "contact_store \<Rightarrow> contact_list \<Rightarrow> string list" where
  "buddies_of_list h l = icq_uins h (map snd (m_cmap l))"

definition buddies_of_contact :: "contact_store \<Rightarrow> contact_ref \<Rightarrow> string list" where
  "buddies_of_contact h r = [getStringUIN (h r)]"

definition add_buddy :: "contact_store \<Rightarrow> contact_ref \<Rightarrow> string list \<Rightarrow> string list" where
  "add_buddy h r bs = bs @ [getStringUIN (h r)]"

definition put_buddy :: "string \<Rightarrow> buffer \<Rightarrow> buffer" where
  "put_buddy s b = pack_string s (put_u8 (word_of_nat (length s)) b)"

definition BuddyList_OutputBody :: "string list \<Rightarrow> buffer \<Rightarrow> buffer" where
  "BuddyList_OutputBody bs b = fold put_buddy bs b"

definition BuddySNAC_ParseBody :: "u8 list \<Rightarrow> buffer \<Rightarrow> (user_info_block \<times> buffer) result" where
  "BuddySNAC_ParseBody cap0 b = UserInfoBlock_Parse cap0 new_user_info_block b"

section \<open>Location and registration\<close>

definition SetUserInfoSNAC_OutputBody :: "buffer \<Rightarrow> buffer" where
  "SetUserInfoSNAC_OutputBody b = TLV_Output new_UserInfoCapabilitiesTLV b"

definition UINRequestSNAC_OutputBody :: "string \<Rightarrow> buffer \<Rightarrow> buffer" where
  "UINRequestSNAC_OutputBody password b =
     (let b = fold put_u32 [0x00010039, 0x0, 0x28000300, 0x0, 0x0, 0x624e0000, 0x624e0000, 0x0, 0x0, 0x0, 0x0] b;
          b = setLittleEndian b;
          b = PackUint16StringNull password b;
          b = setBigEndian b
      in fold put_u32 [0x624e0000, 0x0000d601] b)"

definition UINResponseSNAC_ParseBody :: "buffer \<Rightarrow> (u32 \<times> buffer) result" where
  "UINResponseSNAC_ParseBody b =
     (let b = advance 46 b; b = setLittleEndian b
      in andThen (get_u32 b) (\<lambda>(uin, b). Inr (uin, advance 10 b)))"

definition UINRequestErrorSNAC_ParseBody :: "buffer \<Rightarrow> buffer" where
  "UINRequestErrorSNAC_ParseBody b = advance 32 b"

declare enc16.simps [simp del] enc32.simps [simp del]

section \<open>The classes of the TLVs in a list\<close>

text \<open>A TLV without what it holds: its class, and for an unknown type the type.\<close>

definition tlv_class :: "in_tlv \<Rightarrow> in_tlv" where
  "tlv_class t =
     (case t of
        ScreenNameTLV _ \<Rightarrow> ScreenNameTLV [] | CookieTLV _ _ \<Rightarrow> CookieTLV 0 [] | UserClassTLV _ \<Rightarrow> UserClassTLV 0
      | SignupDateTLV _ \<Rightarrow> SignupDateTLV 0 | SignonDateTLV _ \<Rightarrow> SignonDateTLV 0
      | StatusTLV _ \<Rightarrow> StatusTLV \<lparr>m_allowDirect = 0, m_webAware = 0, st_status = 0\<rparr>
      | WebAddressTLV _ \<Rightarrow> WebAddressTLV [] | TimeOnlineTLV _ \<Rightarrow> TimeOnlineTLV 0
      | LANDetailsTLV _ \<Rightarrow> LANDetailsTLV new_lan_details | IPAddressTLV _ \<Rightarrow> IPAddressTLV 0 | PortTLV _ \<Rightarrow> PortTLV 0
      | CapabilitiesTLV _ \<Rightarrow> CapabilitiesTLV new_capabilities | UnknownTLV _ \<Rightarrow> UnknownTLV 0
      | RedirectTLV _ _ \<Rightarrow> RedirectTLV [] 0 | ErrorURLTLV _ \<Rightarrow> ErrorURLTLV [] | ErrorCodeTLV _ \<Rightarrow> ErrorCodeTLV 0
      | DisconnectReasonTLV _ \<Rightarrow> DisconnectReasonTLV 0 | DisconnectMessageTLV _ \<Rightarrow> DisconnectMessageTLV []
      | MessageDataTLV _ \<Rightarrow> MessageDataTLV new_message_text | ICQDataTLV _ \<Rightarrow> ICQDataTLV None
      | AdvMsgDataTLV _ \<Rightarrow> AdvMsgDataTLV None | MessageTextTLV _ \<Rightarrow> MessageTextTLV new_message_text
      | AdvMsgBodyTLV _ \<Rightarrow> AdvMsgBodyTLV None | SBLAwaitAuthTLV \<Rightarrow> SBLAwaitAuthTLV | SBLIdsTLV \<Rightarrow> SBLIdsTLV
      | SBLVisibilityTLV _ \<Rightarrow> SBLVisibilityTLV 0 | SBLICQTICTLV _ \<Rightarrow> SBLICQTICTLV []
      | SBLImportTimeTLV _ \<Rightarrow> SBLImportTimeTLV 0 | SBLNickTLV _ \<Rightarrow> SBLNickTLV [] | SBLSMSNoTLV _ \<Rightarrow> SBLSMSNoTLV []
      | RawTLV ty _ \<Rightarrow> RawTLV ty 0)"

lemma Type_class: "Type (tlv_class t) = Type t"
  by (cases t) (simp_all add: tlv_class_def Type_def)

lemma class_new_tlv [simp]: "tlv_class (new_tlv pm ty) = new_tlv pm ty"
  by (cases pm) (simp_all add: tlv_class_def new_tlv_def)

lemma Type_new_tlv [simp]: "Type (new_tlv pm ty) = ty"
  by (cases pm) (simp_all add: Type_def new_tlv_def)

lemma map_value_Inr: "map_value f m = Inr (y, b) \<longleftrightarrow> (\<exists>x. m = Inr (x, b) \<and> y = f x)"
  by (auto simp: map_value_def andThen_eq_Inr)

text \<open>Parsing fills an object and never changes its class.\<close>

lemma class_MessageData: "MessageDataTLV_ParseValue_with pv mt b = Inr (t, b') \<Longrightarrow> tlv_class t = MessageDataTLV new_message_text"
  by (auto simp: MessageDataTLV_ParseValue_with_def andThen_eq_Inr tlv_class_def)

lemma class_AdvMsgData: "AdvMsgDataTLV_ParseValue_with pv b = Inr (t, b') \<Longrightarrow> tlv_class t = AdvMsgDataTLV None"
  by (auto simp: AdvMsgDataTLV_ParseValue_with_def andThen_eq_Inr tlv_class_def Let_def split: if_splits)

lemma class_plain:
  "CookieTLV_ParseValue b = Inr (t, b') \<Longrightarrow> tlv_class t = CookieTLV 0 []"
  "RedirectTLV_ParseValue b = Inr (t, b') \<Longrightarrow> tlv_class t = RedirectTLV [] 0"
  "SBLAwaitAuthTLV_ParseValue b = Inr (t, b') \<Longrightarrow> tlv_class t = SBLAwaitAuthTLV"
  "SBLIdsTLV_ParseValue b = Inr (t, b') \<Longrightarrow> tlv_class t = SBLIdsTLV"
  by (auto simp: CookieTLV_ParseValue_def RedirectTLV_ParseValue_def SBLAwaitAuthTLV_ParseValue_def
      SBLIdsTLV_ParseValue_def andThen_eq_Inr tlv_class_def split: option.splits)

lemma ParseValue_class: "ParseValue cap0 t b = Inr (t', b') \<Longrightarrow> tlv_class t' = tlv_class t"
  by (cases t)
    (auto simp: ParseValue_def ParseValue_with_def map_value_Inr nested_ParseValue_def class_MessageData class_AdvMsgData
      class_plain, auto simp: tlv_class_def)

text \<open>A list parsed in a mode holds under every type an object of the class the mode gives that type.\<close>

definition well_typed :: "TLV_ParseMode \<Rightarrow> tlv_list \<Rightarrow> bool" where
  "well_typed pm m \<longleftrightarrow> (\<forall>ty t. m ty = Some t \<longrightarrow> (\<exists>x. t = Some x \<and> tlv_class x = new_tlv pm ty))"

lemma well_typed_upd:
  assumes "well_typed pm m" and "ParseTLV cap0 pm b = Inr (t, b')"
  shows "well_typed pm (m(Type t \<mapsto> Some t))"
proof -
  obtain ty where "tlv_class t = new_tlv pm ty"
    using assms(2) by (auto simp: ParseTLV_def ParseTLV_with_def andThen_eq_Inr dest!: ParseValue_class)
  moreover from this have "Type t = ty"
    by (metis Type_class Type_new_tlv)
  ultimately show ?thesis
    using assms(1) by (auto simp: well_typed_def)
qed

lemma TLVList_well_typed:
  "well_typed pm m \<Longrightarrow> TLVList_Parse_with (ParseValue cap0) pm n m b = Inr (m', b') \<Longrightarrow> well_typed pm m'"
  using well_typed_upd
  by (induction n arbitrary: m b) (fastforce simp: andThen_eq_Inr ParseTLV_def fun_upd_def split: if_splits)+

lemma well_typed_empty [simp]: "well_typed pm (\<lambda>_. None)"
  by (simp add: well_typed_def)

lemma Parse_well_typed: "TLVList_Parse cap0 pm n (\<lambda>_. None) b = Inr (m, b') \<Longrightarrow> well_typed pm m"
  by (auto simp: TLVList_Parse_def intro: TLVList_well_typed [OF well_typed_empty])

lemma tlv_value_typed:
  assumes "well_typed pm m" and "\<And>t. tlv_class t = new_tlv pm ty \<Longrightarrow> sel t \<noteq> None"
  shows "\<exists>v. tlv_value sel ty m = Inr v"
proof (cases "m ty")
  case (Some t)
  then obtain x where "t = Some x" "tlv_class x = new_tlv pm ty"
    using assms(1) by (auto simp: well_typed_def)
  then show ?thesis
    using Some assms(2) by (fastforce simp: tlv_value_def tlv_exists_def tlv_cast_def tlv_index_def)
qed (simp add: tlv_value_def tlv_exists_def)

lemma channel02_casts:
  assumes "well_typed TLV_ParseMode_Channel02 m"
  shows "\<exists>v. tlv_value as_UserClass TLV_UserClass m = Inr v" "\<exists>v. tlv_value as_Status TLV_Status m = Inr v"
    "\<exists>v. tlv_value as_TimeOnline TLV_TimeOnline m = Inr v" "\<exists>v. tlv_value as_SignupDate TLV_SignupDate m = Inr v"
    "\<exists>v. tlv_value as_SignonDate TLV_SignonDate m = Inr v" "\<exists>v. tlv_value as_LANDetails TLV_LANDetails m = Inr v"
    "\<exists>v. tlv_value as_IPAddress TLV_IPAddress m = Inr v" "\<exists>v. tlv_value as_Port TLV_Port m = Inr v"
    "\<exists>v. tlv_value as_Capabilities TLV_Capabilities m = Inr v" "\<exists>v. tlv_value as_WebAddress TLV_WebAddress m = Inr v"
  by (rule tlv_value_typed [OF assms], simp add: new_tlv_def tlv_types tlv_class_def as_defs split: in_tlv.splits)+

lemma ui_of_tlvs_typed:
  assumes "well_typed TLV_ParseMode_Channel02 m"
  shows "\<exists>u'. ui_of_tlvs m u = Inr u'"
proof -
  note c = channel02_casts [OF assms]
  obtain v1 v2 v3 v4 v5 v6 v7 v8 v9 where
    "tlv_value as_UserClass TLV_UserClass m = Inr v1" "tlv_value as_Status TLV_Status m = Inr v2"
    "tlv_value as_TimeOnline TLV_TimeOnline m = Inr v3" "tlv_value as_SignupDate TLV_SignupDate m = Inr v4"
    "tlv_value as_SignonDate TLV_SignonDate m = Inr v5" "tlv_value as_LANDetails TLV_LANDetails m = Inr v6"
    "tlv_value as_IPAddress TLV_IPAddress m = Inr v7" "tlv_value as_Port TLV_Port m = Inr v8"
    "tlv_value as_Capabilities TLV_Capabilities m = Inr v9"
    using c by blast
  then show ?thesis
    by (simp add: ui_of_tlvs_def Let_def)
qed


section \<open>Parsing a user information block\<close>

text \<open>C35: Whatever bytes a user information block consists of, parsing it reads nothing outside the
  packet, and every object found in its list of TLVs is of the class it is cast to: it fills the block,
  leaving the bytes alone, or throws a parse exception.\<close>

theorem user_info_block_typed:
  assumes "length (m_data b) < 2 ^ 31" and "unat (m_out_pos b) \<le> length (m_data b)"
  shows "(\<exists>u' b'. UserInfoBlock_Parse cap0 u b = Inr (u', b') \<and> m_data b' = m_data b) \<or>
    (\<exists>msg. UserInfoBlock_Parse cap0 u b = Inl (ParseException msg))"
proof -
  obtain sn b1 where 1: "UnpackByteString (ui_screenname u) b = Inr (sn, b1)" "step_within 256 b b1"
    using boundedD [OF bounded_UnpackByteString, of b "ui_screenname u"] no_throw_strings assms by fastforce
  obtain wl b2 where 2: "get_u16 b1 = Inr (wl, b2)" "step_within 2 b1 b2"
    using boundedD [OF bounded_get_u16, of b1] no_throw_get_u16 assms 1(2) by (fastforce simp: step_within_def)
  obtain n b3 where 3: "get_u16 b2 = Inr (n, b3)" "step_within 2 b2 b3"
    using boundedD [OF bounded_get_u16, of b2] no_throw_get_u16 assms 1(2) 2(2) by (fastforce simp: step_within_def)
  have d: "m_data b3 = m_data b"
    using 1(2) 2(2) 3(2) by (simp add: step_within_def)
  have "safe_result b3 (TLVList_Parse cap0 TLV_ParseMode_Channel02 n (\<lambda>_. None) b3)"
    unfolding TLVList_Parse_def by (rule TLVList_Parse_with_range) (use d assms(1) in \<open>simp_all add: plain_mode_def\<close>)
  then consider (ok) m b4 where "TLVList_Parse cap0 TLV_ParseMode_Channel02 n (\<lambda>_. None) b3 = Inr (m, b4)" "m_data b4 = m_data b3"
    | (error) msg where "TLVList_Parse cap0 TLV_ParseMode_Channel02 n (\<lambda>_. None) b3 = Inl (ParseException msg)"
    by (auto simp: safe_result_def split: sum.splits)
  then show ?thesis
  proof cases
    case ok
    obtain u' where "ui_of_tlvs m (u\<lparr>ui_screenname := sn, ui_warninglevel := wl\<rparr>) = Inr u'"
      using ui_of_tlvs_typed [OF Parse_well_typed [OF ok(1)]] by blast
    then show ?thesis
      using 1(1) 2(1) 3(1) ok d by (simp add: UserInfoBlock_Parse_def)
  qed (use 1(1) 2(1) 3(1) in \<open>simp add: UserInfoBlock_Parse_def\<close>)
qed

theorem user_info_block_typed_witness:
  "(\<exists>u' b'. UserInfoBlock_Parse [] new_user_info_block (buffer_of_bytes [1, 49, 0, 0, 0, 1, 0, 6]) = Inr (u', b')) \<or>
   (\<exists>msg. UserInfoBlock_Parse [] new_user_info_block (buffer_of_bytes [1, 49, 0, 0, 0, 1, 0, 6]) = Inl (ParseException msg))"
  using user_info_block_typed [of "buffer_of_bytes [1, 49, 0, 0, 0, 1, 0, 6]" "[]" new_user_info_block]
  by (auto simp: buffer_of_bytes_def)

text \<open>A block as the server writes it, with TLVs of the kinds this library can write too.\<close>

definition enc_user_info :: "string \<Rightarrow> u16 \<Rightarrow> out_tlv list \<Rightarrow> u8 list" where
  "enc_user_info sn wl ts = word_of_nat (length sn) # bytes_of_string sn @ enc16 BIG wl @
     enc16 BIG (word_of_nat (length ts)) @ concat (map enc_tlv ts)"

lemma TLVList_Parse_prefix:
  "\<forall>t\<in>set ts. received_tlv pm t \<noteq> None \<Longrightarrow> at b BIG (concat (map enc_tlv ts) @ r) \<Longrightarrow>
   \<exists>b'. at b' BIG r \<and> TLVList_Parse_with (ParseValue cap0) pm (length ts + k) m b =
     TLVList_Parse_with (ParseValue cap0) pm k (m ++ received_list pm ts) b'"
proof (induction ts arbitrary: m b)
  case Nil
  then show ?case by (auto simp: received_list_def)
next
  case (Cons t ts)
  obtain t' where t': "received_tlv pm t = Some t'"
    using Cons.prems(1) by auto
  have "unread b \<noteq> []" "wfb b"
    using Cons.prems(2) by (simp_all add: at_def enc_tlv_def)
  then have be: "beforeEnd b"
    by (simp add: beforeEnd_unread)
  obtain b' where b': "ParseTLV cap0 pm b = Inr (t', b')" "at b' BIG (concat (map enc_tlv ts) @ r)"
    using ParseTLV_enc [OF t', of b "concat (map enc_tlv ts) @ r" cap0] Cons.prems(2) by (auto elim: yieldsE)
  have "m ++ received_list pm (t # ts) = (m(Type t' \<mapsto> Some t')) ++ received_list pm ts"
    using t' received_Type [OF t'] by (simp add: received_list_def map_add_upd_left map_of_append)
  then show ?case
    using Cons.IH [OF _ b'(2), of "m(Type t' \<mapsto> Some t')"] Cons.prems(1) be b'(1) by (simp add: ParseTLV_def fun_upd_def)
qed

lemma UnpackByteString_enc:
  assumes "length s < 256" and "at b e (word_of_nat (length s) # bytes_of_string s @ r)"
  shows "yields (t @ s) e r (UnpackByteString t b)"
proof -
  note 1 = rd_u8 [OF assms(2)]
  have n: "unat (ucast (word_of_nat (length s) :: u8) :: u32) = length s"
    using assms(1) by (simp add: unat_of_nat)
  have "Unpack t (ucast (word_of_nat (length s) :: u8)) (advance 1 b) =
      Inr (t @ s, advance (ucast (word_of_nat (length s) :: u8)) (advance 1 b))"
    using 1(2) n Unpack_unread [of "advance 1 b" "ucast (word_of_nat (length s) :: u8)" t] by (simp add: at_def)
  then show ?thesis
    using at_skip [OF 1(2)] n by (simp add: UnpackByteString_def 1(1) yields_def)
qed

lemma received_typed: "received_tlv pm t = Some t' \<Longrightarrow> tlv_class t' = new_tlv pm (out_Type t)"
proof (erule received_cases)
  show "known_tlv pm t = Some t' \<Longrightarrow> tlv_class t' = new_tlv pm (out_Type t)"
    by (cases t) (auto simp: tlv_class_def new_tlv_def out_Type_def tlv_types split: if_splits)
  have "new_tlv pm ty = RawTLV ty' l \<Longrightarrow> l = 0" for ty ty' l
    by (auto simp: new_tlv_def split: TLV_ParseMode.splits if_splits)
  then show "tlv_class t' = new_tlv pm (out_Type t)"
    if "new_tlv pm (out_Type t) = RawTLV ty l" and "t' = RawTLV ty (word_of_nat (length (enc_value t) - 2))" for ty l
    using that by (auto simp: tlv_class_def)
qed

lemma received_list_typed:
  assumes "\<forall>t\<in>set ts. received_tlv pm t \<noteq> None"
  shows "well_typed pm (received_list pm ts)"
  unfolding well_typed_def
proof (intro allI impI)
  fix ty t
  assume "received_list pm ts ty = Some t"
  then obtain o' where "o' \<in> set ts" "ty = out_Type o'" "t = received_tlv pm o'"
    by (auto simp: received_list_def dest!: map_of_SomeD)
  moreover from this obtain x where "received_tlv pm o' = Some x"
    using assms by auto
  ultimately show "\<exists>x. t = Some x \<and> tlv_class x = new_tlv pm ty"
    using received_typed by auto
qed

text \<open>What is read from such a block is the sender's name, in front of whatever follows.\<close>

lemma UserInfoBlock_enc:
  assumes "length sn < 256" and "length ts < 65536" and "\<forall>t\<in>set ts. received_tlv TLV_ParseMode_Channel02 t \<noteq> None"
    and "at b BIG (enc_user_info sn wl ts @ r)"
  shows "\<exists>u b'. UserInfoBlock_Parse cap0 new_user_info_block b = Inr (u, b') \<and> at b' BIG r \<and> ui_screenname u = sn"
proof -
  obtain b1 where 1: "UnpackByteString [] b = Inr (sn, b1)"
    "at b1 BIG (enc16 BIG wl @ enc16 BIG (word_of_nat (length ts)) @ concat (map enc_tlv ts) @ r)"
    using UnpackByteString_enc [OF assms(1), of b BIG "enc16 BIG wl @ enc16 BIG (word_of_nat (length ts)) @
      concat (map enc_tlv ts) @ r" "[]"] assms(4) by (auto simp: enc_user_info_def elim: yieldsE)
  note 2 = rd_u16 [OF 1(2)]
  note 3 = rd_u16 [OF 2(2)]
  let ?m = "received_list TLV_ParseMode_Channel02 ts"
  obtain b4 where 4: "at b4 BIG r" "TLVList_Parse_with (ParseValue cap0) TLV_ParseMode_Channel02 (length ts) (\<lambda>_. None)
      (advance 2 (advance 2 b1)) = Inr (?m, b4)"
    using TLVList_Parse_prefix [OF assms(3) 3(2), of cap0 0 "\<lambda>_. None"] by (auto simp: map_add_def)
  obtain u' where u': "ui_of_tlvs ?m (new_user_info_block\<lparr>ui_screenname := sn, ui_warninglevel := wl\<rparr>) = Inr u'"
    using ui_of_tlvs_typed [OF received_list_typed [OF assms(3)]] by blast
  have "ui_screenname u' = sn"
    using u' by (auto simp: ui_of_tlvs_def andThen_eq_Inr Let_def split: option.splits)
  moreover have "ui_screenname new_user_info_block = []"
    by (simp add: new_user_info_block_def)
  ultimately show ?thesis
    using 1(1) 2(1) 3(1) 4 u' assms(2)
    by (simp add: UserInfoBlock_Parse_def TLVList_Parse_def unat_of_nat_u16)
qed

end
