(* ===== verification/SnacMsg.thy ===== *)
theory SnacMsg
  imports SnacBase
begin

text \<open>
  The message family of SNACs, through which messages go by way of the server: \<^verbatim>\<open>src/SNAC-MSG.h\<close>
  and \<^verbatim>\<open>src/SNAC-MSG.cpp\<close>. A message goes on one of three channels: plain text on channel 1,
  advanced messages on channel 2, and what ICQ added on channel 4. The sequence number of a subtype,
  which only these layers read, stands beside it.
\<close>

section \<open>Parameters\<close>

definition MESSAGEFLAG_ALLOWED :: u16 where "MESSAGEFLAG_ALLOWED = 0x00000001"
definition MESSAGEFLAG_MISSEDCALLS :: u16 where "MESSAGEFLAG_MISSEDCALLS = 0x00000002"
definition MESSAGEFLAG_TYPING :: u16 where "MESSAGEFLAG_TYPING = 0x00000008"

definition MsgAddICBMParameterSNAC_OutputBody :: "bool \<Rightarrow> buffer \<Rightarrow> buffer" where
  "MsgAddICBMParameterSNAC_OutputBody typing_notif b =
     (let b = put_u16 0x0000 b;
          b = put_u32 (ucast (MESSAGEFLAG_ALLOWED OR MESSAGEFLAG_MISSEDCALLS OR
                (if typing_notif then MESSAGEFLAG_TYPING else 0))) b
      in fold put_u16 [0x1f40, 0x03e7, 0x03e7, 0x0000, 0x0000] b)"

section \<open>Sending a message\<close>

record msg_send =
  ms_icqsubtype :: icq_subtype
  ms_advanced :: bool
  ms_seqnum :: "u16 option"
  ms_cookie :: icbm_cookie
  ms_dest_capabilities :: capabilities

text \<open>The two sections in front of an advanced message and of its acknowledgement.\<close>

definition put_section1 :: "u16 \<Rightarrow> buffer \<Rightarrow> buffer result" where
  "put_section1 seqnum b =
     (let (m3, b) = getAutoSizeShortMarker b;
          b = put_u16 0x0007 b;
          b = fold put_u32 [0x00000000, 0x00000000, 0x00000000, 0x00000000] b;
          b = put_u16 0x0000 b;
          b = put_u32 0x00000003 b;
          b = put_u8 0x00 b;
          b = put_u16 seqnum b
      in setAutoSizeMarker m3 b)"

definition put_section2 :: "u16 \<Rightarrow> buffer \<Rightarrow> buffer result" where
  "put_section2 seqnum b =
     (let (m4, b) = getAutoSizeShortMarker b;
          b = put_u16 seqnum b;
          b = fold put_u32 [0x00000000, 0x00000000, 0x00000000] b
      in setAutoSizeMarker m4 b)"

text \<open>
  \<^verbatim>\<open>m_dest_capabilities\<close> is never read. Sending an advanced message before \<^verbatim>\<open>setSeqNum\<close> reads an unset
  member.
\<close>

definition MsgSend_advanced :: "msg_send \<Rightarrow> uin_part \<Rightarrow> uin_body \<Rightarrow> buffer \<Rightarrow> buffer result" where
  "MsgSend_advanced s u ub b =
     (case ms_seqnum s of
        None \<Rightarrow> Inl Uninitialised
      | Some seqnum \<Rightarrow>
          (let b = PackByteString (UINtoString (u_destination u)) b;
               b = put_u16 0x0005 b;
               (m1, b) = getAutoSizeShortMarker b;
               b = put_u16 0x0000 b;
               b = cookie_output (ms_cookie s) b;
               b = caps_output (set_capability_flag Cap_ICQServerRelay new_capabilities) b;
               b = fold put_u16 [0x000a, 0x0002, 0x0001] b;
               b = fold put_u16 [0x000f, 0x0000] b;
               b = put_u16 0x2711 b;
               (m2, b) = getAutoSizeShortMarker b;
               b = setLittleEndian b
           in andThen (put_section1 seqnum b) (\<lambda>b.
              andThen (put_section2 seqnum b) (\<lambda>b.
              let b = ICQSubType_Output (ms_icqsubtype s) b in
              andThen (setAutoSizeMarker m1 b) (\<lambda>b.
              andThen (setAutoSizeMarker m2 b) (\<lambda>b.
              Inr (put_u16 0x0000 (put_u16 0x0003 (setBigEndian b)))))))))"

definition MsgSend_normal :: "uin_part \<Rightarrow> string \<Rightarrow> buffer \<Rightarrow> buffer result" where
  "MsgSend_normal u text b =
     (let b = put_u16 0x0001 b;
          b = PackByteString (UINtoString (u_destination u)) b;
          b = put_u16 0x0002 b;
          (m1, b) = getAutoSizeShortMarker b;
          b = put_u8 0x01 (put_u16 0x0001 (put_u16 0x0501 b));
          b = put_u16 0x0101 b;
          (m2, b) = getAutoSizeShortMarker b;
          b = put_u16 0x0000 (put_u16 0x0000 b);
          b = pack_string text b
      in andThen (setAutoSizeMarker m1 b) (setAutoSizeMarker m2))"

definition MsgSend_icq :: "icq_subtype \<Rightarrow> uin_part \<Rightarrow> buffer \<Rightarrow> buffer result" where
  "MsgSend_icq st u b =
     (let b = put_u16 0x0004 b;
          b = PackByteString (UINtoString (u_destination u)) b;
          b = put_u16 0x0005 b;
          (m1, b) = getAutoSizeShortMarker b;
          b = setLittleEndian b;
          b = put_u32 (u_source u) b;
          b = ICQSubType_Output st b
      in setAutoSizeMarker m1 b)"

definition icq_channel_types :: "u8 list" where
  "icq_channel_types = [MSG_Type_URL, MSG_Type_AuthReq, MSG_Type_AuthAcc, MSG_Type_AuthRej, MSG_Type_UserAdd]"

definition MsgSend_end :: "buffer \<Rightarrow> buffer" where
  "MsgSend_end b = put_u16 0x0000 (put_u16 0x0006 (setBigEndian b))"

definition MsgSendSNAC_OutputBody :: "msg_send \<Rightarrow> buffer \<Rightarrow> buffer result" where
  "MsgSendSNAC_OutputBody s b =
     (let b = cookie_output (ms_cookie s) b; bd = body (ms_icqsubtype s) in
      if ms_advanced s then
        (let b = put_u16 0x0002 b in
         case bd of UINSubType u ub \<Rightarrow> MsgSend_advanced s u ub b | _ \<Rightarrow> Inr b)
      else if getType bd = MSG_Type_Normal then
        (case bd of
           UINSubType u (NormalBody text multi fg bg) \<Rightarrow> andThen (MsgSend_normal u text b) (\<lambda>b. Inr (MsgSend_end b))
         | _ \<Rightarrow> Inl BadCast)
      else if getType bd \<in> set icq_channel_types then
        (case bd of
           UINSubType u ub \<Rightarrow> andThen (MsgSend_icq (ms_icqsubtype s) u b) (\<lambda>b. Inr (MsgSend_end b))
         | _ \<Rightarrow> Inr b)
      else Inr (MsgSend_end b))"

section \<open>Receiving a message\<close>

record message_snac =
  mg_cookie :: icbm_cookie
  mg_userinfo :: user_info_block
  mg_icqsubtype :: "icq_subtype option"
  mg_seqnum :: "u16 option"

definition as_MessageData :: "in_tlv \<Rightarrow> message_text option" where
  "as_MessageData t = (case t of MessageDataTLV v \<Rightarrow> Some v | _ \<Rightarrow> None)"

definition as_AdvMsgData :: "in_tlv \<Rightarrow> (icq_subtype \<times> u16) option option" where
  "as_AdvMsgData t = (case t of AdvMsgDataTLV v \<Rightarrow> Some v | _ \<Rightarrow> None)"

definition as_ICQData :: "in_tlv \<Rightarrow> icq_subtype option option" where
  "as_ICQData t = (case t of ICQDataTLV v \<Rightarrow> Some v | _ \<Rightarrow> None)"

definition set_source :: "u32 \<Rightarrow> icq_subtype \<Rightarrow> icq_subtype" where
  "set_source uin st =
     (case body st of UINSubType u ub \<Rightarrow> st\<lparr>body := UINSubType (u\<lparr>u_source := uin\<rparr>) ub\<rparr> | _ \<Rightarrow> st)"

text \<open>The message of a SNAC on a channel, with its sequence number where it has one.\<close>

definition message_of_channel ::
  "u8 list \<Rightarrow> u16 \<Rightarrow> buffer \<Rightarrow> ((icq_subtype option \<times> u16 option) \<times> buffer) result" where
  "message_of_channel cap0 channel b =
     (if channel = 0x0001 then
        andThen (TLVList_Parse cap0 TLV_ParseMode_MessageBlock 0xffff (\<lambda>_. None) b) (\<lambda>(m, b).
        if \<not> tlv_exists TLV_MessageData m then Inl (ParseException ''No message data in SNAC'')
        else
          andThen (tlv_cast as_MessageData TLV_MessageData m) (\<lambda>t.
          Inr ((Some \<lparr>m_flags8 = 0, body = UINSubType new_uin_part
                  (NormalBody (mt_message t) False 0x00000000 0x00ffffff)\<rparr>, None), b)))
      else if channel = 0x0002 then
        andThen (TLVList_Parse cap0 TLV_ParseMode_AdvMsgBlock 0xffff (\<lambda>_. None) b) (\<lambda>(m, b).
        if \<not> tlv_exists TLV_AdvMsgData m
        then Inl (ParseException ''No Advanced Message TLV in SNAC 0x0004 0x0007 on channel 2'')
        else
          andThen (tlv_cast as_AdvMsgData TLV_AdvMsgData m) (\<lambda>t.
          Inr ((map_option fst t, map_option snd t), b)))
      else
        andThen (TLVList_Parse cap0 TLV_ParseMode_MessageBlock 0xffff (\<lambda>_. None) b) (\<lambda>(m, b).
        if \<not> tlv_exists TLV_ICQData m
        then Inl (ParseException ''No ICQ data TLV in SNAC 0x0004 0x0007 on channel 4'')
        else
          andThen (tlv_cast as_ICQData TLV_ICQData m) (\<lambda>t. Inr ((t, None), b))))"

definition MessageSNAC_ParseBody :: "u8 list \<Rightarrow> buffer \<Rightarrow> (message_snac \<times> buffer) result" where
  "MessageSNAC_ParseBody cap0 b =
     andThen (cookie_parse b) (\<lambda>(c, b).
     andThen (get_u16 b) (\<lambda>(channel, b).
     if channel \<noteq> 0x0001 \<and> channel \<noteq> 0x0002 \<and> channel \<noteq> 0x0004
     then Inl (ParseException ''Message SNAC 0x0004 0x0007 received on unknown channel'')
     else
       andThen (UserInfoBlock_Parse cap0 new_user_info_block b) (\<lambda>(ui, b).
       andThen (message_of_channel cap0 channel b) (\<lambda>((st, seqnum), b).
       Inr (\<lparr>mg_cookie = c, mg_userinfo = ui, mg_icqsubtype = map_option (set_source (ui_getUIN ui)) st,
             mg_seqnum = seqnum\<rparr>, b)))))"

section \<open>Acknowledgements\<close>

record message_ack =
  ma_cookie :: icbm_cookie
  ma_icqsubtype :: "(icq_subtype \<times> u16) option"

definition MessageACKSNAC_OutputBody :: "icbm_cookie \<Rightarrow> icq_subtype \<Rightarrow> u16 \<Rightarrow> buffer \<Rightarrow> buffer result" where
  "MessageACKSNAC_OutputBody c st seqnum b =
     (case body st of
        UINSubType u ub \<Rightarrow>
          (let b = cookie_output c b;
               b = put_u16 0x0002 b;
               b = PackByteString (UINtoString (u_source u)) b;
               b = put_u16 0x0003 b;
               b = setLittleEndian b
           in andThen (put_section1 seqnum b) (\<lambda>b.
              andThen (put_section2 seqnum b) (\<lambda>b.
              Inr (ICQSubType_Output st b))))
      | _ \<Rightarrow> Inl BadCast)"

definition MessageACKSNAC_ParseBody :: "buffer \<Rightarrow> (message_ack \<times> buffer) result" where
  "MessageACKSNAC_ParseBody b =
     andThen (cookie_parse b) (\<lambda>(c, b).
     andThen (get_u16 b) (\<lambda>(channel, b).
     andThen (UnpackByteString [] b) (\<lambda>(sn, b).
     let uin = StringtoUIN sn; b = setLittleEndian (advance 2 b) in
     andThen (get_u16 b) (\<lambda>(len, b).
     let b = advance (ucast len) b in
     andThen (get_u16 b) (\<lambda>(len, b).
     andThen (get_u16 b) (\<lambda>(seqnum, b).
     let b = advance (ucast len - 2) b in
     andThen (ParseICQSubType True True b) (\<lambda>(t, b).
     let st = (case body t of UINSubType u ub \<Rightarrow> Some (set_source uin t, seqnum) | _ \<Rightarrow> None) in
     andThen (if remains b > 0 then andThen (get_u32 b) (\<lambda>(len, b). Inr (advance len b)) else Inr b) (\<lambda>b.
     Inr (\<lparr>ma_cookie = c, ma_icqsubtype = st\<rparr>, b)))))))))"

record message_offline_user =
  mo_cookie :: icbm_cookie
  mo_channel :: u16
  mo_uin :: u32

definition MessageOfflineUserSNAC_ParseBody :: "buffer \<Rightarrow> (message_offline_user \<times> buffer) result" where
  "MessageOfflineUserSNAC_ParseBody b =
     andThen (cookie_parse b) (\<lambda>(c, b).
     andThen (get_u16 b) (\<lambda>(channel, b).
     andThen (get_u8 b) (\<lambda>(len, b).
     andThen (Unpack [] (ucast len) b) (\<lambda>(sn, b).
     Inr (\<lparr>mo_cookie = c, mo_channel = channel, mo_uin = StringtoUIN sn\<rparr>, b)))))"

section \<open>What is written\<close>

lemma cookie_output_app: "cookie_output c b = app (enc_cookie c) (setBigEndian b)"
  by (simp add: cookie_output_emit app_def setBigEndian_def)

definition enc_subtype :: "endian \<Rightarrow> icq_subtype \<Rightarrow> u8 list" where
  "enc_subtype e s =
     (case body s of UINSubType u ub \<Rightarrow> [getType (body s), getFlags s] @ enc_uin u e ub | _ \<Rightarrow> [])"

lemma ICQSubType_Output_app:
  "body s = UINSubType u ub \<Longrightarrow> ICQSubType_Output s b = app (enc_subtype (m_endn b) s) b"
  by (simp add: ICQSubType_Output_emit enc_subtype_def app_def)

definition enc_name :: "u32 \<Rightarrow> u8 list" where
  "enc_name u = word_of_nat (length (UINtoString u)) # bytes_of_string (UINtoString u)"

lemma put_name_app: "PackByteString (UINtoString u) b = app (enc_name u) b"
  by (simp add: put_string_app enc_name_def)

definition payload1 :: "u16 \<Rightarrow> u8 list" where
  "payload1 seqnum = enc16 LITTLE 7 @ concat (map (enc32 LITTLE) [0, 0, 0, 0]) @ enc16 LITTLE 0 @
     enc32 LITTLE 3 @ [0] @ enc16 LITTLE seqnum"

definition payload2 :: "u16 \<Rightarrow> u8 list" where
  "payload2 seqnum = enc16 LITTLE seqnum @ concat (map (enc32 LITTLE) [0, 0, 0])"

lemma length_payload1: "length (payload1 seqnum) = 27"
  by (simp add: payload1_def)

lemma length_payload2: "length (payload2 seqnum) = 14"
  by (simp add: payload2_def)

definition enc_sections :: "u16 \<Rightarrow> u8 list" where
  "enc_sections seqnum = enc16 LITTLE 27 @ payload1 seqnum @ enc16 LITTLE 14 @ payload2 seqnum"

lemma put_section1_app:
  assumes "m_endn b = LITTLE" and "length (m_data b) < 2 ^ 31"
  shows "put_section1 seqnum b = Inr (app (enc16 LITTLE 27 @ payload1 seqnum) b)"
proof -
  have "put_section1 seqnum b = setAutoSizeMarker (marker_at (length (m_data b)) LITTLE)
      (app (enc16 LITTLE 0 @ payload1 seqnum) b)"
    using assms(1) by (simp add: put_section1_def short_marker_app put_app payload1_def)
  also have "\<dots> = Inr (app (enc16 LITTLE (word_of_nat (length (payload1 seqnum))) @ payload1 seqnum) b)"
    using assms(2) by (intro fill_app0) (simp_all add: length_payload1)
  finally show ?thesis
    by (simp add: length_payload1)
qed

lemma put_section2_app:
  assumes "m_endn b = LITTLE" and "length (m_data b) < 2 ^ 31"
  shows "put_section2 seqnum b = Inr (app (enc16 LITTLE 14 @ payload2 seqnum) b)"
proof -
  have "put_section2 seqnum b = setAutoSizeMarker (marker_at (length (m_data b)) LITTLE)
      (app (enc16 LITTLE 0 @ payload2 seqnum) b)"
    using assms(1) by (simp add: put_section2_def short_marker_app put_app payload2_def)
  also have "\<dots> = Inr (app (enc16 LITTLE (word_of_nat (length (payload2 seqnum))) @ payload2 seqnum) b)"
    using assms(2) by (intro fill_app0) (simp_all add: length_payload2)
  finally show ?thesis
    by (simp add: length_payload2)
qed

lemma put_sections_app:
  assumes "m_endn b = LITTLE" and "length (m_data b) < 2 ^ 30"
  shows "andThen (put_section1 seqnum b) (put_section2 seqnum) = Inr (app (enc_sections seqnum) b)"
  using assms by (simp add: put_section1_app put_section2_app length_payload1 enc_sections_def)

lemma length_show_nat: "n < 10 ^ k \<Longrightarrow> 0 < k \<Longrightarrow> length (show_nat n) \<le> k"
proof (induction n arbitrary: k rule: show_nat.induct)
  case (1 n)
  show ?case
  proof (cases "n < 10")
    case True
    then show ?thesis using 1(3) by (subst show_nat.simps) simp
  next
    case False
    then obtain j where j: "k = Suc j" "0 < j"
      using 1(2) by (cases k; cases "k - 1") auto
    then have "n div 10 < 10 ^ j"
      using 1(2) by (simp add: less_mult_imp_div_less mult.commute)
    then show ?thesis
      using 1(1) [OF False _ j(2)] False j(1) by (subst show_nat.simps) simp
  qed
qed

lemma length_UINtoString: "length (UINtoString u) \<le> 10"
proof -
  have "unat u < 2 ^ 32"
    using unsigned_less [of u, where ?'a = nat] by simp
  also have "(2::nat) ^ 32 < 10 ^ 10"
    by simp
  finally show ?thesis
    unfolding UINtoString_def by (rule length_show_nat) simp
qed

lemma length_enc_name: "length (enc_name u) \<le> 11"
  using length_UINtoString [of u] by (simp add: enc_name_def)

definition enc_ack_body :: "icbm_cookie \<Rightarrow> icq_subtype \<Rightarrow> u32 \<Rightarrow> u16 \<Rightarrow> u8 list" where
  "enc_ack_body c st uin seqnum = enc_cookie c @ enc16 BIG 2 @ enc_name uin @ enc16 BIG 3 @
     enc_sections seqnum @ enc_subtype LITTLE st"

lemma length_enc_cookie: "length (enc_cookie c) = 8"
  by (simp add: enc_cookie_def)

lemma MessageACK_app:
  assumes "body st = UINSubType u ub" and "length (m_data b) < 2 ^ 29"
  shows "MessageACKSNAC_OutputBody c st seqnum b =
    Inr (app (enc_ack_body c st (u_source u) seqnum) (setLittleEndian b))"
  using assms put_sections_app [of "app (enc_cookie c @ enc16 BIG 2 @ enc_name (u_source u) @ enc16 BIG 3) (setLittleEndian b)" seqnum]
    length_enc_name [of "u_source u"] 
  by (simp add: MessageACKSNAC_OutputBody_def cookie_output_app put_name_app put_app enc_ack_body_def
      ICQSubType_Output_app length_enc_cookie andThen_assoc [symmetric])

section \<open>What is read\<close>

lemma skip_payload:
  assumes "at b LITTLE (enc_sections seqnum @ r)"
  shows "get_u16 b = Inr (27, advance 2 b)" and "at (advance 27 (advance 2 b)) LITTLE (enc16 LITTLE 14 @ enc16 LITTLE seqnum @
     concat (map (enc32 LITTLE) [0, 0, 0]) @ r)"
  using rd_u16 [of b LITTLE 27] at_skip [of "advance 2 b" LITTLE "payload1 seqnum" _ 27] assms
  by (simp_all add: enc_sections_def payload2_def length_payload1)

lemma enc_subtype_read:
  assumes "sendable s" and "at b e (enc_subtype e s @ r)"
  shows "yields (received s) e r (ParseICQSubType (is_advanced s) (is_ack s) b)"
proof -
  obtain u ub where s: "body s = UINSubType u ub"
    using assms(1) by (cases "body s") (auto simp: sendable_def)
  show ?thesis
    using ParseICQSubType_Output [of s b "\<lparr>m_data = [], m_endn = e, m_out_pos = 0\<rparr>"] assms
    by (simp add: ICQSubType_Output_emit [OF s] enc_subtype_def s)
qed

lemma name_read:
  assumes "at b e (enc_name u @ r)"
  shows "yields (UINtoString u) e r (UnpackByteString [] b)"
  using UnpackByteString_enc [of "UINtoString u" b e r "[]"] assms length_UINtoString [of u]
  by (simp add: enc_name_def)

lemma remains_nil:
  assumes "at b e []"
  shows "remains b = 0"
proof -
  have "length (m_data b) = unat (m_out_pos b)"
    using assms by (auto simp: at_def wfb_def unread_def)
  then show ?thesis
    by (simp add: remains_def)
qed

lemma ack_body_read:
  assumes "sendable st" and "is_advanced st" and "is_ack st" and "at b BIG (enc_ack_body c st uin seqnum)"
  shows "\<exists>b'. MessageACKSNAC_ParseBody b =
    Inr (\<lparr>ma_cookie = c, ma_icqsubtype = Some (set_source uin (received st), seqnum)\<rparr>, b')"
proof -
  obtain u ub where s: "body st = UINSubType u ub"
    using assms(1) by (cases "body st") (auto simp: sendable_def)
  obtain v vb where r: "body (received st) = UINSubType v vb"
    by (cases "received_uin u ub") (simp add: received_def s)
  obtain b1 where 1: "cookie_parse b = Inr (c, b1)" "at b1 BIG (enc16 BIG 2 @ enc_name uin @ enc16 BIG 3 @
      enc_sections seqnum @ enc_subtype LITTLE st)"
    using cookie_parse_enc [of b BIG c] assms(4) by (auto simp: enc_ack_body_def elim: yieldsE)
  note 2 = rd_u16 [OF 1(2)]
  obtain b3 where 3: "UnpackByteString [] (advance 2 b1) = Inr (UINtoString uin, b3)"
    "at b3 BIG (enc16 BIG 3 @ enc_sections seqnum @ enc_subtype LITTLE st)"
    using name_read [OF 2(2)] by (auto elim: yieldsE)
  define b4 where "b4 = setLittleEndian (advance 2 b3)"
  have 4: "at b4 LITTLE (enc_sections seqnum @ enc_subtype LITTLE st)"
    using at_setLittle [OF rd_u16(2) [OF 3(2)]] by (simp add: b4_def)
  note 5 = skip_payload [OF 4]
  note 6 = rd_u16 [OF 5(2)]
  note 7 = rd_u16 [OF 6(2)]
  define b8 where "b8 = advance 12 (advance 2 (advance 2 (advance 27 (advance 2 b4))))"
  have 8: "at b8 LITTLE (enc_subtype LITTLE st @ [])"
    using at_skip [OF 7(2), of 12] by (simp add: b8_def)
  obtain b9 where 9: "ParseICQSubType True True b8 = Inr (received st, b9)" "at b9 LITTLE []"
    using enc_subtype_read [OF assms(1) 8] assms(2,3) by (auto elim: yieldsE)
  note e = remains_nil [OF 9(2)]
  then show ?thesis
    unfolding MessageACKSNAC_ParseBody_def
    by (simp add: 1(1) 2(1) 3(1) b4_def [symmetric] 5(1) 6(1) 7(1) Let_def b8_def [symmetric] 9(1) r e uin_string_roundtrip)
qed

section \<open>Blocks of TLVs\<close>

lemma block_step:
  assumes "at b e (enc16 e ty @ v)" and "yields t e' r (pv (new_tlv pm ty) (advance 2 b))" and "Type t = ty" and "0 < n"
  shows "\<exists>b'. at b' e' r \<and>
    TLVList_Parse_with pv pm n m b = TLVList_Parse_with pv pm (n - 1) (m(ty \<mapsto> Some t)) b'"
proof -
  have "beforeEnd b"
    using assms(1) beforeEnd_unread [of b] by (auto simp: at_def)
  then show ?thesis
    using assms(2-4) rd_u16(1) [OF assms(1)]
    by (cases n) (auto simp: ParseTLV_with_def fun_upd_def elim!: yieldsE)
qed

lemma raw_value:
  assumes "at b e (enc16 e (word_of_nat (length v)) @ v @ r)" and "length v < 65536"
  shows "yields (RawTLV ty (word_of_nat (length v))) e r (ParseValue_with pv cap0 (RawTLV ty 0) b)"
  using rd_u16 [OF assms(1)] at_skip [of "advance 2 b" e v r "ucast (word_of_nat (length v) :: u16)"] assms(2)
  by (simp add: ParseValue_with_def map_value_def RawTLV_ParseValue_def yields_def unat_of_nat_u16 unat_ucast_up)

lemma raw_step:
  assumes "at b e (enc16 e ty @ enc16 e (word_of_nat (length v)) @ v @ r)" and "length v < 65536"
    and "new_tlv pm ty = RawTLV ty 0" and "0 < n"
  shows "\<exists>b'. at b' e r \<and> TLVList_Parse_with (ParseValue_with pv cap0) pm n m b =
    TLVList_Parse_with (ParseValue_with pv cap0) pm (n - 1) (m(ty \<mapsto> Some (RawTLV ty (word_of_nat (length v))))) b'"
  using block_step [OF assms(1), of "RawTLV ty (word_of_nat (length v))" e r "ParseValue_with pv cap0" pm n]
    raw_value [OF rd_u16(2) [OF assms(1)] assms(2)] assms(3,4)
  by (simp add: Type_def)

lemma block_end: "at b e [] \<Longrightarrow> TLVList_Parse_with pv pm n m b = Inr (m, b)"
  by (cases n) (auto simp: at_def beforeEnd_unread)

text \<open>An empty TLV at the end of a block, whatever the byte order is by then.\<close>

lemma last_raw:
  assumes "at b e (enc16 e ty @ enc16 e 0)" and "new_tlv pm ty = RawTLV ty 0" and "0 < n"
  shows "\<exists>b'. at b' e [] \<and> TLVList_Parse_with (ParseValue_with pv cap0) pm n m b = Inr (m(ty \<mapsto> Some (RawTLV ty 0)), b')"
  using raw_step [of b e ty "[]" "[]" pm n pv cap0 m] assms block_end by fastforce

lemma enc16_swap: "enc16 BIG 0x0006 = enc16 LITTLE 0x0600" "enc16 BIG 0x0003 = enc16 LITTLE 0x0300"
    "enc16 BIG 0 = enc16 LITTLE 0"
  by (simp_all add: enc16.simps octet_def)

section \<open>The frame of a message\<close>

lemma message_frame:
  assumes "length sn < 256" and "length ts < 65536" and "\<forall>t\<in>set ts. received_tlv TLV_ParseMode_Channel02 t \<noteq> None"
    and "at b BIG (enc_cookie c @ enc16 BIG ch @ enc_user_info sn wl ts @ blk)" and "ch \<in> {1, 2, 4}"
    and "\<And>b. at b BIG blk \<Longrightarrow> \<exists>b'. message_of_channel cap0 ch b = Inr ((Some st, sq), b')"
  shows "\<exists>ui b'. MessageSNAC_ParseBody cap0 b = Inr (\<lparr>mg_cookie = c, mg_userinfo = ui,
      mg_icqsubtype = Some (set_source (StringtoUIN sn) st), mg_seqnum = sq\<rparr>, b') \<and> ui_screenname ui = sn"
proof -
  obtain b1 where 1: "cookie_parse b = Inr (c, b1)" "at b1 BIG (enc16 BIG ch @ enc_user_info sn wl ts @ blk)"
    using cookie_parse_enc [OF assms(4)] by (auto elim: yieldsE)
  note 2 = rd_u16 [OF 1(2)]
  obtain u b3 where 3: "UserInfoBlock_Parse cap0 new_user_info_block (advance 2 b1) = Inr (u, b3)" "at b3 BIG blk"
    "ui_screenname u = sn"
    using UserInfoBlock_enc [OF assms(1-3) 2(2)] by blast
  obtain b4 where "message_of_channel cap0 ch b3 = Inr ((Some st, sq), b4)"
    using assms(6) [OF 3(2)] by blast
  then show ?thesis
    using 1(1) 2(1) 3(1,3) assms(5) by (auto simp: MessageSNAC_ParseBody_def ui_getUIN_def)
qed

section \<open>Plain messages\<close>

definition enc_normal_text :: "string \<Rightarrow> u8 list" where
  "enc_normal_text text = enc16 BIG 0x0501 @ enc16 BIG 1 @ [1] @ enc16 BIG 0x0101 @
     enc16 BIG (word_of_nat (length text + 4)) @ enc16 BIG 0 @ enc16 BIG 0 @ bytes_of_string text"

definition enc_normal_block :: "string \<Rightarrow> u8 list" where
  "enc_normal_block text = enc16 BIG 2 @ enc16 BIG (word_of_nat (length (enc_normal_text text))) @
     enc_normal_text text @ enc16 BIG 6 @ enc16 BIG 0"

lemma MsgSend_normal_app:
  assumes "m_endn b = BIG" and "length (m_data b) + length text < 2 ^ 31"
  shows "andThen (MsgSend_normal u text b) (\<lambda>b. Inr (MsgSend_end b)) =
    Inr (app (enc16 BIG 1 @ enc_name (u_destination u) @ enc_normal_block text) (setBigEndian b))"
proof -
  let ?pre = "enc16 BIG 1 @ enc_name (u_destination u) @ enc16 BIG 2"
  let ?mid = "enc16 BIG 0x0501 @ enc16 BIG 1 @ [1] @ enc16 BIG 0x0101"
  let ?txt = "enc16 BIG 0 @ enc16 BIG 0 @ bytes_of_string text"
  let ?b = "length (m_data b)"
  have n: "length (enc_name (u_destination u)) \<le> 11"
    by (rule length_enc_name)
  have "MsgSend_normal u text b =
     andThen (setAutoSizeMarker (marker_at (?b + length ?pre) BIG) (app (?pre @ enc16 BIG 0 @ ?mid @ enc16 BIG 0 @ ?txt) b))
       (setAutoSizeMarker (marker_at (?b + length (?pre @ enc16 BIG 0 @ ?mid)) BIG))"
    using assms(1) by (simp add: MsgSend_normal_def put_app put_name_app short_marker_app put_string_app(1) ac_simps)
  also have "\<dots> = Inr (app (?pre @ enc16 BIG (word_of_nat (length ?mid + 2 + length ?txt)) @ ?mid @
      enc16 BIG (word_of_nat (length ?txt)) @ ?txt) b)"
    using assms(2) n by (intro fill_two) simp_all
  finally show ?thesis
    using assms(1) by (simp add: MsgSend_end_def put_app enc_normal_block_def enc_normal_text_def ac_simps)
qed

lemma normal_text_value:
  assumes "at b BIG (enc16 BIG (word_of_nat (length text + 4)) @ enc16 BIG 0 @ enc16 BIG 0 @ bytes_of_string text @ r)"
    and "length text < 65000"
  shows "yields (MessageTextTLV \<lparr>mt_message = text, m_flag1 = 0, m_flag2 = 0\<rparr>) BIG r
    (ParseValue_with pv cap0 (MessageTextTLV new_message_text) b)"
proof -
  note 1 = rd_u16 [OF assms(1)]
  note 2 = rd_u16 [OF 1(2)]
  note 3 = rd_u16 [OF 2(2)]
  let ?w = "word_of_nat (length text + 4) :: u16"
  have "unat ?w = length text + 4"
    using assms(2) unat_of_nat_u16 [of "length text + 4"] by simp
  then have n: "unat (ucast ?w - 4 :: u32) = length text"
    by (simp add: unat_sub word_le_nat_alt unat_ucast_up)
  then show ?thesis
    using Unpack_unread [of "advance 2 (advance 2 (advance 2 b))" "ucast ?w - 4" "[]"] 3(2) at_skip [OF 3(2), of "ucast ?w - 4"]
    by (simp add: ParseValue_with_def map_value_def MessageTextTLV_ParseValue_def 1(1) 2(1) 3(1) new_message_text_def
        at_def yields_def)
qed

lemma normal_text_read:
  assumes "at b BIG (enc_normal_text text @ enc16 BIG 6 @ enc16 BIG 0)" and "length text < 65000"
  shows "\<exists>m b'. TLVList_Parse_with (ParseValue_with pv cap0) TLV_ParseMode_InMessageData 0xffff (\<lambda>_. None) b = Inr (m, b') \<and>
    m TLV_MessageText = Some (Some (MessageTextTLV \<lparr>mt_message = text, m_flag1 = 0, m_flag2 = 0\<rparr>)) \<and> at b' BIG []"
proof -
  let ?P = "TLVList_Parse_with (ParseValue_with pv cap0) TLV_ParseMode_InMessageData"
  let ?m1 = "[0x0501 \<mapsto> Some (RawTLV 0x0501 1)]"
  let ?m2 = "?m1(0x0101 \<mapsto> Some (MessageTextTLV \<lparr>mt_message = text, m_flag1 = 0, m_flag2 = 0\<rparr>))"
  obtain b1 where 1: "at b1 BIG (enc16 BIG 0x0101 @ enc16 BIG (word_of_nat (length text + 4)) @ enc16 BIG 0 @ enc16 BIG 0 @
      bytes_of_string text @ enc16 BIG 6 @ enc16 BIG 0)" "?P 0xffff (\<lambda>_. None) b = ?P (0xffff - 1) ?m1 b1"
    using raw_step [of b BIG "0x0501" "[1]" _ TLV_ParseMode_InMessageData "0xffff" pv cap0 "\<lambda>_. None"] assms(1)
    by (force simp: enc_normal_text_def new_tlv_def tlv_types)
  obtain b2 where 2: "at b2 BIG (enc16 BIG 6 @ enc16 BIG 0)" "?P (0xffff - 1) ?m1 b1 = ?P (0xffff - 1 - 1) ?m2 b2"
    using block_step [OF 1(1), of _ BIG "enc16 BIG 6 @ enc16 BIG 0" "ParseValue_with pv cap0" TLV_ParseMode_InMessageData "0xffff - 1" ?m1]
      normal_text_value [OF rd_u16(2) [OF 1(1)] assms(2)]
    by (force simp: new_tlv_def tlv_types Type_def)
  obtain b3 where 3: "at b3 BIG []" "?P (0xffff - 1 - 1) ?m2 b2 = Inr (?m2(6 \<mapsto> Some (RawTLV 6 0)), b3)"
    using last_raw [OF 2(1), of TLV_ParseMode_InMessageData "0xffff - 1 - 1"] by (force simp: new_tlv_def tlv_types)
  show ?thesis
    unfolding 1(2) 2(2) 3(2) using 3(1) by (simp add: tlv_types)
qed

lemma normal_block_read:
  assumes "at b BIG (enc_normal_block text)" and "length text < 65000"
  shows "\<exists>b'. message_of_channel cap0 1 b = Inr ((Some \<lparr>m_flags8 = 0, body = UINSubType new_uin_part
      (NormalBody text False 0 0x00ffffff)\<rparr>, None), b')"
proof -
  let ?t = "\<lparr>mt_message = text, m_flag1 = 0, m_flag2 = 0\<rparr>"
  note b = assms(1) [unfolded enc_normal_block_def]
  note 1 = rd_u16 [OF rd_u16(2) [OF b]]
  obtain m b2 where 2: "TLVList_Parse_with (ParseValue_with no_nested cap0) TLV_ParseMode_InMessageData 0xffff (\<lambda>_. None)
      (advance 2 (advance 2 b)) = Inr (m, b2)" "m TLV_MessageText = Some (Some (MessageTextTLV ?t))" "at b2 BIG []"
    using normal_text_read [OF 1(2) assms(2)] by blast
  have "yields (MessageDataTLV ?t) BIG [] (ParseValue cap0 (new_tlv TLV_ParseMode_MessageBlock 2) (advance 2 b))"
    using 1(1) 2 by (simp add: new_tlv_def tlv_types ParseValue_def ParseValue_with_def nested_ParseValue_def
        MessageDataTLV_ParseValue_with_def tlv_exists_def tlv_index_def yields_def)
  note s = block_step [of b BIG 2 _ _ BIG "[]" "ParseValue cap0" TLV_ParseMode_MessageBlock, OF b this, of 65535 "\<lambda>_. None"]
  obtain b3 where
    3: "at b3 BIG []" "TLVList_Parse cap0 TLV_ParseMode_MessageBlock 0xffff (\<lambda>_. None) b = Inr ([2 \<mapsto> Some (MessageDataTLV ?t)], b3)"
    using s block_end by (fastforce simp: TLVList_Parse_def Type_def tlv_types)
  then show ?thesis
    by (simp add: message_of_channel_def tlv_exists_def tlv_cast_def tlv_index_def tlv_types as_MessageData_def)
qed

section \<open>ICQ data\<close>

definition enc_icq_block :: "u32 \<Rightarrow> icq_subtype \<Rightarrow> u8 list" where
  "enc_icq_block uin st = enc16 BIG 5 @ enc16 BIG (word_of_nat (4 + length (enc_subtype LITTLE st))) @
     enc32 LITTLE uin @ enc_subtype LITTLE st @ enc16 BIG 6 @ enc16 BIG 0"

lemma MsgSend_icq_app:
  assumes "m_endn b = BIG" and "length (m_data b) + length (enc_subtype LITTLE st) < 2 ^ 31" and "body st = UINSubType u ub"
  shows "andThen (MsgSend_icq st u b) (\<lambda>b. Inr (MsgSend_end b)) =
    Inr (app (enc16 BIG 4 @ enc_name (u_destination u) @ enc_icq_block (u_source u) st) (setBigEndian b))"
proof -
  let ?pre = "enc16 BIG 4 @ enc_name (u_destination u) @ enc16 BIG 5"
  let ?p = "enc32 LITTLE (u_source u) @ enc_subtype LITTLE st"
  have n: "length (enc_name (u_destination u)) \<le> 11"
    by (rule length_enc_name)
  have "MsgSend_icq st u b = setAutoSizeMarker (marker_at (length (m_data b) + length ?pre) BIG)
      (app (?pre @ enc16 BIG 0 @ ?p) (setLittleEndian b))"
    using assms(1) by (simp add: MsgSend_icq_def put_app put_name_app short_marker_app ICQSubType_Output_app [OF assms(3)] ac_simps)
  also have "\<dots> = Inr (app (?pre @ enc16 BIG (word_of_nat (length ?p)) @ ?p) (setLittleEndian b))"
    using assms(2) n by (intro fill_app) simp_all
  finally show ?thesis
    using assms(1) by (simp add: MsgSend_end_def put_app enc_icq_block_def)
qed

lemma icq_block_read:
  assumes "at b BIG (enc_icq_block uin st)" and "sendable st" and "\<not> is_advanced st" and "\<not> is_ack st"
  shows "\<exists>b'. message_of_channel cap0 4 b = Inr ((Some (received st), None), b')"
proof -
  note b = assms(1) [unfolded enc_icq_block_def]
  note 1 = rd_u16 [OF rd_u16(2) [OF b]]
  define b2 where "b2 = setLittleEndian (advance 2 (advance 2 b))"
  have 2: "at b2 LITTLE (enc32 LITTLE uin @ enc_subtype LITTLE st @ enc16 BIG 6 @ enc16 BIG 0)"
    unfolding b2_def by (rule at_setLittle [OF 1(2)])
  note 3 = rd_u32 [OF 2]
  obtain b4 where 4: "ParseICQSubType False False (advance 4 b2) = Inr (received st, b4)" "at b4 LITTLE (enc16 BIG 6 @ enc16 BIG 0)"
    using enc_subtype_read [OF assms(2) 3(2)] assms(3,4) by (auto elim: yieldsE)
  have "yields (ICQDataTLV (Some (received st))) LITTLE (enc16 BIG 6 @ enc16 BIG 0)
      (ParseValue cap0 (new_tlv TLV_ParseMode_MessageBlock 5) (advance 2 b))"
    using 1(1) 3(1) 4 by (simp add: new_tlv_def tlv_types ParseValue_def ParseValue_with_def map_value_def
        ICQDataTLV_ParseValue_def b2_def [symmetric] yields_def)
  note s = block_step [of b BIG 5 _ _ LITTLE _ "ParseValue cap0" TLV_ParseMode_MessageBlock, OF b this, of "0xffff" "\<lambda>_. None"]
  obtain b5 where 5: "at b5 LITTLE (enc16 BIG 6 @ enc16 BIG 0)" "TLVList_Parse cap0 TLV_ParseMode_MessageBlock 0xffff (\<lambda>_. None) b =
      TLVList_Parse_with (ParseValue cap0) TLV_ParseMode_MessageBlock 0xfffe [5 \<mapsto> Some (ICQDataTLV (Some (received st)))] b5"
    using s by (auto simp: TLVList_Parse_def Type_def tlv_types)
  obtain b6 where "TLVList_Parse cap0 TLV_ParseMode_MessageBlock 0xffff (\<lambda>_. None) b =
      Inr ([5 \<mapsto> Some (ICQDataTLV (Some (received st))), 0x0600 \<mapsto> Some (RawTLV 0x0600 0)], b6)"
    using last_raw [OF 5(1) [unfolded enc16_swap], of TLV_ParseMode_MessageBlock "0xfffe" "nested_ParseValue cap0" cap0]
    unfolding ParseValue_def [symmetric] 5(2) by (fastforce simp: new_tlv_def tlv_types)
  then show ?thesis
    by (simp add: message_of_channel_def tlv_exists_def tlv_cast_def tlv_index_def tlv_types as_ICQData_def)
qed

section \<open>Advanced messages\<close>

definition enc_relay_caps :: "u8 list" where
  "enc_relay_caps = m_data (caps_output (set_capability_flag Cap_ICQServerRelay new_capabilities) new_buffer)"

definition enc_adv_head :: "icbm_cookie \<Rightarrow> u8 list" where
  "enc_adv_head c = enc16 BIG 0 @ enc_cookie c @ enc_relay_caps"

definition enc_adv_tlvs :: "u8 list" where
  "enc_adv_tlvs = enc16 BIG 0x000a @ enc16 BIG 2 @ enc16 BIG 1 @ enc16 BIG 0x000f @ enc16 BIG 0"

definition enc_adv_block :: "icbm_cookie \<Rightarrow> u16 \<Rightarrow> icq_subtype \<Rightarrow> u8 list" where
  "enc_adv_block c seqnum st =
     (let p = enc_sections seqnum @ enc_subtype LITTLE st
      in enc16 BIG 5 @ enc16 BIG (word_of_nat (40 + length p)) @ enc_adv_head c @ enc_adv_tlvs @
         enc16 BIG 0x2711 @ enc16 BIG (word_of_nat (length p)) @ p @ enc16 BIG 3 @ enc16 BIG 0)"

lemma relay_caps_app:
  "caps_output (set_capability_flag Cap_ICQServerRelay new_capabilities) b = app enc_relay_caps b"
  by (simp add: caps_output_emit app_def new_buffer_def enc_relay_caps_def)

lemma length_adv_head: "length (enc_adv_head c) = 26"
proof -
  have "flag_list (set_capability_flag Cap_ICQServerRelay new_capabilities) = [Cap_ICQServerRelay]"
    by (simp add: flag_list_def set_capability_flag_def new_capabilities_def all_flags_def)
  then show ?thesis
    by (simp add: enc_adv_head_def enc_relay_caps_def length_enc_cookie caps_output_emit new_buffer_def)
qed

lemma length_adv_tlvs: "length enc_adv_tlvs = 10"
  by (simp add: enc_adv_tlvs_def)

lemma length_enc_sections: "length (enc_sections seqnum) = 45"
  by (simp add: enc_sections_def length_payload1 length_payload2)

lemma MsgSend_advanced_app:
  assumes "m_endn b = BIG" and "length (m_data b) + length (enc_subtype LITTLE (ms_icqsubtype s)) < 2 ^ 29"
    and "body (ms_icqsubtype s) = UINSubType u ub" and "ms_seqnum s = Some seqnum"
  shows "MsgSend_advanced s u ub b =
    Inr (app (enc_name (u_destination u) @ enc_adv_block (ms_cookie s) seqnum (ms_icqsubtype s)) (setBigEndian b))"
proof -
  let ?pre = "enc_name (u_destination u) @ enc16 BIG 5" and ?st = "enc_subtype LITTLE (ms_icqsubtype s)"
  let ?mid = "enc_adv_head (ms_cookie s) @ enc_adv_tlvs @ enc16 BIG 0x2711"
  let ?p = "enc_sections seqnum @ ?st" and ?n = "length (m_data b)"
  define b1 where "b1 = app (?pre @ enc16 BIG 0 @ ?mid @ enc16 BIG 0) (setLittleEndian b)"
  have n: "length (enc_name (u_destination u)) \<le> 11"
    by (rule length_enc_name)
  have two: "andThen (setAutoSizeMarker (marker_at (?n + length ?pre) BIG) (app (?pre @ enc16 BIG 0 @ ?mid @ enc16 BIG 0 @ ?p) (setLittleEndian b)))
      (setAutoSizeMarker (marker_at (?n + length (?pre @ enc16 BIG 0 @ ?mid)) BIG)) =
    Inr (app (?pre @ enc16 BIG (word_of_nat (length ?mid + 2 + length ?p)) @ ?mid @ enc16 BIG (word_of_nat (length ?p)) @ ?p) (setLittleEndian b))"
    using assms(2) n by (intro fill_two) (simp_all add: length_adv_head length_adv_tlvs length_enc_sections)
  have b1: "m_endn b1 = LITTLE" "length (m_data b1) < 2 ^ 30"
    using n assms(2) by (simp_all add: b1_def length_adv_head length_adv_tlvs)
  have "MsgSend_advanced s u ub b = andThen (andThen (put_section1 seqnum b1) (put_section2 seqnum)) (\<lambda>b2.
      andThen (setAutoSizeMarker (marker_at (?n + length ?pre) BIG) (ICQSubType_Output (ms_icqsubtype s) b2)) (\<lambda>b.
      andThen (setAutoSizeMarker (marker_at (?n + length (?pre @ enc16 BIG 0 @ ?mid)) BIG) b) (\<lambda>b.
      Inr (put_u16 0x0000 (put_u16 0x0003 (setBigEndian b))))))"
    using assms(1,4) by (simp add: MsgSend_advanced_def put_app put_name_app short_marker_app cookie_output_app
        relay_caps_app b1_def enc_adv_head_def enc_adv_tlvs_def andThen_assoc ac_simps)
  also have "\<dots> = andThen (andThen (setAutoSizeMarker (marker_at (?n + length ?pre) BIG) (app (?pre @ enc16 BIG 0 @ ?mid @ enc16 BIG 0 @ ?p) (setLittleEndian b)))
      (setAutoSizeMarker (marker_at (?n + length (?pre @ enc16 BIG 0 @ ?mid)) BIG))) (\<lambda>b.
      Inr (put_u16 0x0000 (put_u16 0x0003 (setBigEndian b))))"
    using b1 put_sections_app [OF b1] by (simp add: ICQSubType_Output_app [OF assms(3)], simp add: b1_def andThen_assoc)
  also have "\<dots> = Inr (app (?pre @ enc16 BIG (word_of_nat (length ?mid + 2 + length ?p)) @ ?mid @
      enc16 BIG (word_of_nat (length ?p)) @ ?p @ enc16 BIG 3 @ enc16 BIG 0) (setBigEndian b))"
    unfolding two by (simp add: put_app)
  finally show ?thesis
    by (simp add: enc_adv_block_def Let_def length_adv_head length_adv_tlvs ac_simps)
qed

text \<open>The body of an advanced message: the two sections end in its sequence number.\<close>

lemma adv_body_read:
  assumes "at b BIG (enc16 BIG n @ enc_sections seqnum @ enc_subtype LITTLE st @ r)"
    and "sendable st" and "is_advanced st" and "\<not> is_ack st"
  shows "yields (AdvMsgBodyTLV (Some (received st, seqnum))) LITTLE r (ParseValue_with pv cap0 (AdvMsgBodyTLV None) b)"
proof -
  note 1 = rd_u16 [OF assms(1)]
  let ?front = "enc16 LITTLE 27 @ enc16 LITTLE 7 @ concat (map (enc32 LITTLE) [0, 0, 0, 0]) @ enc16 LITTLE 0 @ enc32 LITTLE 3 @ [0]"
  have "at (advance 2 b) BIG (?front @ enc16 LITTLE seqnum @ enc16 LITTLE 14 @ enc16 LITTLE seqnum @
      concat (map (enc32 LITTLE) [0, 0, 0]) @ enc_subtype LITTLE st @ r)"
    using 1(2) by (simp add: enc_sections_def payload1_def payload2_def)
  from at_skip [OF this, of 27] have "at (advance 27 (advance 2 b)) BIG (enc16 LITTLE seqnum @ enc16 LITTLE 14 @ enc16 LITTLE seqnum @
      concat (map (enc32 LITTLE) [0, 0, 0]) @ enc_subtype LITTLE st @ r)"
    by simp
  note 2 = at_setLittle [OF this]
  define b2 where "b2 = setLittleEndian (advance 27 (advance 2 b))"
  note 3 = rd_u16 [OF 2, folded b2_def]
  note 4 = rd_u16 [OF 3(2)]
  note 5 = rd_u16 [OF 4(2)]
  have "at (advance 12 (advance 2 (advance 2 (advance 2 b2)))) LITTLE (enc_subtype LITTLE st @ r)"
    using at_skip [OF 5(2), of 12] by simp
  then have "yields (received st) LITTLE r (ParseICQSubType True False (advance 12 (advance 2 (advance 2 (advance 2 b2)))))"
    using enc_subtype_read [OF assms(2)] assms(3,4) by fastforce
  then show ?thesis
    by (auto simp: ParseValue_with_def map_value_def AdvMsgBodyTLV_ParseValue_def 1(1) b2_def [symmetric] 3(1) 4(1) 5(1)
        elim!: yieldsE intro!: yields_return)
qed

lemma adv_tlvs_read:
  assumes "at b BIG (enc_adv_tlvs @ enc16 BIG 0x2711 @ enc16 BIG n @ enc_sections seqnum @ enc_subtype LITTLE st @ enc16 BIG 3 @ enc16 BIG 0)"
    and "sendable st" and "is_advanced st" and "\<not> is_ack st"
  shows "\<exists>m b'. TLVList_Parse_with (ParseValue_with pv cap0) TLV_ParseMode_InAdvMsgData 0xffff (\<lambda>_. None) b = Inr (m, b') \<and>
    m TLV_AdvMsgBody = Some (Some (AdvMsgBodyTLV (Some (received st, seqnum)))) \<and> at b' LITTLE []"
proof -
  let ?P = "TLVList_Parse_with (ParseValue_with pv cap0) TLV_ParseMode_InAdvMsgData"
  let ?m1 = "[0x000a \<mapsto> Some (RawTLV 0x000a 2)]"
  let ?m2 = "?m1(0x000f \<mapsto> Some (RawTLV 0x000f 0))"
  let ?m3 = "?m2(0x2711 \<mapsto> Some (AdvMsgBodyTLV (Some (received st, seqnum))))"
  let ?last = "enc16 BIG 3 @ enc16 BIG 0"
  let ?body = "enc16 BIG 0x2711 @ enc16 BIG n @ enc_sections seqnum @ enc_subtype LITTLE st @ ?last"
  have b: "at b BIG (enc16 BIG 0x000a @ enc16 BIG (word_of_nat (length (enc16 BIG 1))) @ enc16 BIG 1 @ enc16 BIG 0x000f @ enc16 BIG 0 @ ?body)"
    using assms(1) by (simp add: enc_adv_tlvs_def)
  obtain b1 where 1: "at b1 BIG (enc16 BIG 0x000f @ enc16 BIG 0 @ ?body)"
    "?P 0xffff (\<lambda>_. None) b = ?P (0xffff - 1) ?m1 b1"
    using raw_step [OF b, of TLV_ParseMode_InAdvMsgData "0xffff" pv cap0 "\<lambda>_. None"] by (auto simp: new_tlv_def tlv_types)
  obtain b2 where 2: "at b2 BIG ?body" "?P (0xffff - 1) ?m1 b1 = ?P (0xffff - 1 - 1) ?m2 b2"
    using raw_step [of b1 BIG "0x000f" "[]" ?body TLV_ParseMode_InAdvMsgData "0xffff - 1" pv cap0 ?m1] 1(1) by (auto simp: new_tlv_def tlv_types)
  note v = adv_body_read [OF rd_u16(2) [OF 2(1)] assms(2-4), of pv cap0]
  obtain b3 where 3: "at b3 LITTLE ?last" "?P (0xffff - 1 - 1) ?m2 b2 = ?P (0xffff - 1 - 1 - 1) ?m3 b3"
    using block_step [of b2 BIG "0x2711" _ _ LITTLE ?last "ParseValue_with pv cap0" TLV_ParseMode_InAdvMsgData, OF 2(1), of _ "0xffff - 1 - 1" ?m2] v
    by (force simp: new_tlv_def tlv_types Type_def)
  obtain b4 where 4: "at b4 LITTLE []" "?P (0xffff - 1 - 1 - 1) ?m3 b3 = Inr (?m3(0x0300 \<mapsto> Some (RawTLV 0x0300 0)), b4)"
    using last_raw [OF 3(1) [unfolded enc16_swap], of TLV_ParseMode_InAdvMsgData "0xffff - 1 - 1 - 1"] by (force simp: new_tlv_def tlv_types)
  show ?thesis
    unfolding 1(2) 2(2) 3(2) 4(2) using 4(1) by (simp add: tlv_types)
qed

lemma adv_block_read:
  assumes "at b BIG (enc_adv_block c seqnum st)" and "sendable st" and "is_advanced st" and "\<not> is_ack st"
  shows "\<exists>b'. message_of_channel cap0 2 b = Inr ((Some (received st), Some seqnum), b')"
proof -
  let ?t = "AdvMsgDataTLV (Some (received st, seqnum))"
  note b = assms(1) [unfolded enc_adv_block_def Let_def]
  note 1 = rd_u16 [OF rd_u16(2) [OF b]]
  note 2 = rd_u16 [OF 1(2) [unfolded enc_adv_head_def append_assoc]]
  have "length enc_relay_caps = 16"
    using length_adv_head [of c] by (simp add: enc_adv_head_def length_enc_cookie)
  then obtain m b3 where 3: "TLVList_Parse_with (ParseValue_with no_nested cap0) TLV_ParseMode_InAdvMsgData 0xffff (\<lambda>_. None)
      (advance 16 (advance 8 (advance 2 (advance 2 (advance 2 b))))) = Inr (m, b3)"
    "m TLV_AdvMsgBody = Some (Some (AdvMsgBodyTLV (Some (received st, seqnum))))" "at b3 LITTLE []"
    using adv_tlvs_read [OF at_skip [OF at_skip [OF 2(2), of 8], of 16] assms(2-4), of no_nested cap0]
    by (simp add: length_enc_cookie) blast
  have "yields ?t LITTLE [] (ParseValue cap0 (new_tlv TLV_ParseMode_AdvMsgBlock 5) (advance 2 b))"
    using 1(1) 2(1) 3 by (simp add: new_tlv_def tlv_types ParseValue_def ParseValue_with_def nested_ParseValue_def
        AdvMsgDataTLV_ParseValue_with_def tlv_exists_def tlv_index_def yields_def Let_def)
  note s = block_step [of b BIG 5 _ _ LITTLE "[]" "ParseValue cap0" TLV_ParseMode_AdvMsgBlock, OF b this, of 65535 "\<lambda>_. None"]
  obtain b4 where 4: "TLVList_Parse cap0 TLV_ParseMode_AdvMsgBlock 0xffff (\<lambda>_. None) b = Inr ([5 \<mapsto> Some ?t], b4)"
    using s block_end by (fastforce simp: TLVList_Parse_def Type_def tlv_types)
  then show ?thesis
    by (simp add: message_of_channel_def tlv_exists_def tlv_cast_def tlv_index_def tlv_types as_AdvMsgData_def)
qed

section \<open>From sender to receiver\<close>

text \<open>
  The server passes a message on with the sender's user information in the place of the receiver's
  name; \<open>blk\<close> is what follows.
\<close>

definition passed_on :: "icbm_cookie \<Rightarrow> u16 \<Rightarrow> string \<Rightarrow> u16 \<Rightarrow> out_tlv list \<Rightarrow> u8 list \<Rightarrow> buffer" where
  "passed_on c ch sn wl ts blk = buffer_of_bytes (enc_cookie c @ enc16 BIG ch @ enc_user_info sn wl ts @ blk)"

definition info_ok :: "string \<Rightarrow> out_tlv list \<Rightarrow> bool" where
  "info_ok sn ts \<longleftrightarrow> length sn < 256 \<and> length ts < 65536 \<and> length (concat (map enc_tlv ts)) < 2 ^ 29 \<and>
     (\<forall>t\<in>set ts. received_tlv TLV_ParseMode_Channel02 t \<noteq> None)"

lemma passed_on_read:
  assumes "info_ok sn ts" and "ch \<in> {1, 2, 4}" and "length blk < 2 ^ 30"
    and "\<And>b. at b BIG blk \<Longrightarrow> \<exists>b'. message_of_channel cap0 ch b = Inr ((Some st, sq), b')"
  shows "\<exists>ui b'. MessageSNAC_ParseBody cap0 (passed_on c ch sn wl ts blk) =
      Inr (\<lparr>mg_cookie = c, mg_userinfo = ui, mg_icqsubtype = Some (set_source (StringtoUIN sn) st), mg_seqnum = sq\<rparr>, b') \<and>
    ui_screenname ui = sn"
proof -
  have "length (enc_cookie c @ enc16 BIG ch @ enc_user_info sn wl ts @ blk) < 2 ^ 31"
    using assms(1,3) by (simp add: length_enc_cookie enc_user_info_def info_ok_def)
  from at_big [OF this] show ?thesis
    using assms(1,2,4) unfolding passed_on_def info_ok_def by (intro message_frame) auto
qed

lemma cookie_output_new: "cookie_output c new_buffer = app (enc_cookie c) new_buffer"
  by (simp add: cookie_output_app) (simp add: new_buffer_def setBigEndian_def)

lemma setBig_new: "setBigEndian new_buffer = new_buffer"
  by (simp add: new_buffer_def setBigEndian_def)

lemma length_normal_block: "length (enc_normal_block text) = length text + 21"
  by (simp add: enc_normal_block_def enc_normal_text_def)

section \<open>Properties\<close>

text \<open>The acknowledgement of an advanced message that goes through the server is read back by
  MessageACKSNAC: with the cookie and the sequence number it was written with, and the subtype the
  receiver should see, from the UIN the message came from.\<close>

theorem message_ack_roundtrip:
  assumes "sendable st" and "is_advanced st" and "is_ack st" and "body st = UINSubType u ub"
    and "length (enc_subtype LITTLE st) < 2 ^ 30"
  shows "\<exists>b b'. MessageACKSNAC_OutputBody c st seqnum new_buffer = Inr b \<and>
    MessageACKSNAC_ParseBody (buffer_of_bytes (m_data b)) =
      Inr (\<lparr>ma_cookie = c, ma_icqsubtype = Some (set_source (u_source u) (received st), seqnum)\<rparr>, b')"
proof -
  have "length (enc_ack_body c st (u_source u) seqnum) < 2 ^ 31"
    using assms(5) length_enc_name [of "u_source u"]
    by (simp add: enc_ack_body_def length_enc_cookie enc_sections_def length_payload1 length_payload2)
  from ack_body_read [OF assms(1-3) at_big [OF this]] show ?thesis
    using MessageACK_app [OF assms(4), of new_buffer c seqnum] by auto
qed

definition sample_ack :: icq_subtype where
  "sample_ack = \<lparr>m_flags8 = 0, body = UINSubType (new_uin_part\<lparr>u_source := 4711, u_advanced := True, u_ack := True\<rparr>)
     (NormalBody [] False 0 0)\<rparr>"

lemma sample_ack_sendable: "sendable sample_ack"
  by (simp add: sample_ack_def sendable_def uin_ok_def type_ok_def new_uin_part_def)

theorem message_ack_roundtrip_witness:
  "\<exists>b b' st. MessageACKSNAC_OutputBody \<lparr>m_c1 = 1, m_c2 = 2\<rparr> sample_ack 9 new_buffer = Inr b \<and>
    MessageACKSNAC_ParseBody (buffer_of_bytes (m_data b)) = Inr (\<lparr>ma_cookie = \<lparr>m_c1 = 1, m_c2 = 2\<rparr>, ma_icqsubtype = Some (st, 9)\<rparr>, b')"
  using message_ack_roundtrip [OF sample_ack_sendable, of _ _ "\<lparr>m_c1 = 1, m_c2 = 2\<rparr>" 9]
  by (simp add: sample_ack_def is_advanced_def is_ack_def enc_subtype_def enc_uin_def enc_stringnull_def new_uin_part_def) blast

text \<open>A plain message sent through the server reaches the receiver: the packet is addressed to the
  destination, and whatever user information the server puts in the place of its name, MessageSNAC
  reads the same cookie and text, in a message from the UIN of that information. The flag for
  several recipients and the colours are lost on this channel.\<close>

theorem plain_message_through_server:
  assumes "body (ms_icqsubtype s) = UINSubType u (NormalBody text multi fg bg)" and "\<not> ms_advanced s"
    and "length text < 65000" and "info_ok sn ts"
  shows "\<exists>b blk ui b'. MsgSendSNAC_OutputBody s new_buffer = Inr b \<and>
    m_data b = enc_cookie (ms_cookie s) @ enc16 BIG 1 @ enc_name (u_destination u) @ blk \<and>
    MessageSNAC_ParseBody cap0 (passed_on (ms_cookie s) 1 sn wl ts blk) =
      Inr (\<lparr>mg_cookie = ms_cookie s, mg_userinfo = ui, mg_icqsubtype = Some \<lparr>m_flags8 = 0,
             body = UINSubType (new_uin_part\<lparr>u_source := StringtoUIN sn\<rparr>) (NormalBody text False 0 0x00ffffff)\<rparr>,
             mg_seqnum = None\<rparr>, b') \<and> ui_screenname ui = sn"
proof -
  let ?b = "app (enc_cookie (ms_cookie s)) new_buffer" and ?blk = "enc_normal_block text"
  have "MsgSendSNAC_OutputBody s new_buffer =
      Inr (app (enc_cookie (ms_cookie s) @ enc16 BIG 1 @ enc_name (u_destination u) @ ?blk) new_buffer)"
    using assms(1-3) MsgSend_normal_app [of ?b "text" u]
    by (simp add: MsgSendSNAC_OutputBody_def cookie_output_new getType_def setBig_new length_enc_cookie)
  moreover have "\<exists>ui b'. MessageSNAC_ParseBody cap0 (passed_on (ms_cookie s) 1 sn wl ts ?blk) =
      Inr (\<lparr>mg_cookie = ms_cookie s, mg_userinfo = ui, mg_icqsubtype = Some (set_source (StringtoUIN sn)
        \<lparr>m_flags8 = 0, body = UINSubType new_uin_part (NormalBody text False 0 0x00ffffff)\<rparr>), mg_seqnum = None\<rparr>, b') \<and>
      ui_screenname ui = sn"
    by (rule passed_on_read [OF assms(4)]) (use assms(3) normal_block_read [of _ "text"] in \<open>simp_all add: length_normal_block\<close>)
  ultimately show ?thesis
    by (auto simp: set_source_def)
qed

text \<open>The same for URLs, authorisation requests and replies and "you were added" on the ICQ channel:
  the receiver gets the subtype it should see, from the sender's UIN.\<close>

theorem icq_message_through_server:
  assumes "body (ms_icqsubtype s) = UINSubType u ub" and "getType (UINSubType u ub) \<in> set icq_channel_types"
    and "sendable (ms_icqsubtype s)" and "\<not> is_advanced (ms_icqsubtype s)" and "\<not> is_ack (ms_icqsubtype s)"
    and "\<not> ms_advanced s" and "length (enc_subtype LITTLE (ms_icqsubtype s)) < 2 ^ 29" and "info_ok sn ts"
  shows "\<exists>b blk ui b'. MsgSendSNAC_OutputBody s new_buffer = Inr b \<and>
    m_data b = enc_cookie (ms_cookie s) @ enc16 BIG 4 @ enc_name (u_destination u) @ blk \<and>
    MessageSNAC_ParseBody cap0 (passed_on (ms_cookie s) 4 sn wl ts blk) =
      Inr (\<lparr>mg_cookie = ms_cookie s, mg_userinfo = ui,
             mg_icqsubtype = Some (set_source (StringtoUIN sn) (received (ms_icqsubtype s))), mg_seqnum = None\<rparr>, b') \<and>
    ui_screenname ui = sn"
proof -
  let ?b = "app (enc_cookie (ms_cookie s)) new_buffer" and ?blk = "enc_icq_block (u_source u) (ms_icqsubtype s)"
  have "getType (UINSubType u ub) \<noteq> MSG_Type_Normal"
    using assms(2) by (auto simp: icq_channel_types_def msg_types)
  then have "MsgSendSNAC_OutputBody s new_buffer =
      Inr (app (enc_cookie (ms_cookie s) @ enc16 BIG 4 @ enc_name (u_destination u) @ ?blk) new_buffer)"
    using assms MsgSend_icq_app [of ?b "ms_icqsubtype s" u ub]
    by (simp add: MsgSendSNAC_OutputBody_def cookie_output_new setBig_new length_enc_cookie)
  moreover have "\<exists>ui b'. MessageSNAC_ParseBody cap0 (passed_on (ms_cookie s) 4 sn wl ts ?blk) =
      Inr (\<lparr>mg_cookie = ms_cookie s, mg_userinfo = ui,
             mg_icqsubtype = Some (set_source (StringtoUIN sn) (received (ms_icqsubtype s))), mg_seqnum = None\<rparr>, b') \<and>
      ui_screenname ui = sn"
    by (rule passed_on_read [OF assms(8)])
      (use assms(7) icq_block_read [OF _ assms(3-5)] in \<open>simp_all add: enc_icq_block_def\<close>)
  ultimately show ?thesis by auto
qed

text \<open>C3: The same for advanced messages, whose sequence number comes across too. Both nested blocks are
  read to their ends although the byte order has changed by then.\<close>

theorem advanced_message_through_server:
  assumes "body (ms_icqsubtype s) = UINSubType u ub" and "ms_seqnum s = Some seqnum"
    and "sendable (ms_icqsubtype s)" and "is_advanced (ms_icqsubtype s)" and "\<not> is_ack (ms_icqsubtype s)"
    and "ms_advanced s" and "length (enc_subtype LITTLE (ms_icqsubtype s)) < 2 ^ 28" and "info_ok sn ts"
  shows "\<exists>b blk ui b'. MsgSendSNAC_OutputBody s new_buffer = Inr b \<and>
    m_data b = enc_cookie (ms_cookie s) @ enc16 BIG 2 @ enc_name (u_destination u) @ blk \<and>
    MessageSNAC_ParseBody cap0 (passed_on (ms_cookie s) 2 sn wl ts blk) =
      Inr (\<lparr>mg_cookie = ms_cookie s, mg_userinfo = ui,
             mg_icqsubtype = Some (set_source (StringtoUIN sn) (received (ms_icqsubtype s))), mg_seqnum = Some seqnum\<rparr>, b') \<and>
    ui_screenname ui = sn"
proof -
  let ?b = "app (enc_cookie (ms_cookie s) @ enc16 BIG 2) new_buffer"
  let ?blk = "enc_adv_block (ms_cookie s) seqnum (ms_icqsubtype s)"
  have "MsgSendSNAC_OutputBody s new_buffer =
      Inr (app (enc_cookie (ms_cookie s) @ enc16 BIG 2 @ enc_name (u_destination u) @ ?blk) new_buffer)"
    using assms MsgSend_advanced_app [of ?b s u ub seqnum]
    by (simp add: MsgSendSNAC_OutputBody_def cookie_output_new setBig_new length_enc_cookie put_app)
  moreover have "\<exists>ui b'. MessageSNAC_ParseBody cap0 (passed_on (ms_cookie s) 2 sn wl ts ?blk) =
      Inr (\<lparr>mg_cookie = ms_cookie s, mg_userinfo = ui,
             mg_icqsubtype = Some (set_source (StringtoUIN sn) (received (ms_icqsubtype s))), mg_seqnum = Some seqnum\<rparr>, b') \<and>
      ui_screenname ui = sn"
    by (rule passed_on_read [OF assms(8)]) (use assms(7) adv_block_read [OF _ assms(3-5)] in
      \<open>simp_all add: enc_adv_block_def Let_def length_adv_head length_adv_tlvs length_enc_sections\<close>)
  ultimately show ?thesis by auto
qed

definition sample_send :: "bool \<Rightarrow> uin_body \<Rightarrow> msg_send" where
  "sample_send adv ub =
     \<lparr>ms_icqsubtype = \<lparr>m_flags8 = 0, body = UINSubType (new_uin_part\<lparr>u_destination := 12, u_source := 7, u_advanced := adv\<rparr>) ub\<rparr>,
      ms_advanced = adv, ms_seqnum = Some 3, ms_cookie = \<lparr>m_c1 = 1, m_c2 = 2\<rparr>, ms_dest_capabilities = new_capabilities\<rparr>"

lemmas sample_send_simps = sample_send_def is_advanced_def is_ack_def sendable_def uin_ok_def type_ok_def
  new_uin_part_def info_ok_def

theorem plain_message_through_server_witness:
  "\<exists>b blk ui m b'. MsgSendSNAC_OutputBody (sample_send False (NormalBody ''hi'' False 0 0)) new_buffer = Inr b \<and>
    m_data b = enc_cookie \<lparr>m_c1 = 1, m_c2 = 2\<rparr> @ enc16 BIG 1 @ enc_name 12 @ blk \<and>
    MessageSNAC_ParseBody [] (passed_on \<lparr>m_c1 = 1, m_c2 = 2\<rparr> 1 ''7'' 0 [] blk) = Inr (m, b') \<and>
    ui_screenname (mg_userinfo m) = ''7''"
  using plain_message_through_server [of "sample_send False (NormalBody ''hi'' False 0 0)" _ "''hi''" False 0 0 "''7''" "[]" "[]" 0]
  by (simp add: sample_send_simps) fastforce

theorem icq_message_through_server_witness:
  "\<exists>b blk ui m b'. MsgSendSNAC_OutputBody (sample_send False (URLBody ''see'' ''x'')) new_buffer = Inr b \<and>
    m_data b = enc_cookie \<lparr>m_c1 = 1, m_c2 = 2\<rparr> @ enc16 BIG 4 @ enc_name 12 @ blk \<and>
    MessageSNAC_ParseBody [] (passed_on \<lparr>m_c1 = 1, m_c2 = 2\<rparr> 4 ''7'' 0 [] blk) = Inr (m, b') \<and>
    ui_screenname (mg_userinfo m) = ''7''"
  using icq_message_through_server [of "sample_send False (URLBody ''see'' ''x'')" _ "URLBody ''see'' ''x''" "''7''" "[]" "[]" 0]
  by (simp add: sample_send_simps icq_channel_types_def msg_types getType_def enc_subtype_def enc_uin_def sep_code) fastforce

theorem advanced_message_through_server_witness:
  "\<exists>b blk ui m b'. MsgSendSNAC_OutputBody (sample_send True (URLBody ''see'' ''x'')) new_buffer = Inr b \<and>
    m_data b = enc_cookie \<lparr>m_c1 = 1, m_c2 = 2\<rparr> @ enc16 BIG 2 @ enc_name 12 @ blk \<and>
    MessageSNAC_ParseBody [] (passed_on \<lparr>m_c1 = 1, m_c2 = 2\<rparr> 2 ''7'' 0 [] blk) = Inr (m, b') \<and>
    ui_screenname (mg_userinfo m) = ''7''"
  using advanced_message_through_server [of "sample_send True (URLBody ''see'' ''x'')" _ "URLBody ''see'' ''x''" 3 "''7''" "[]" "[]" 0]
  by (simp add: sample_send_simps enc_subtype_def enc_uin_def sep_code) fastforce

end
