(* ===== verification/SnacSbl.thy ===== *)
theory SnacSbl
  imports SnacMsg
begin

text \<open>
  The family of SNACs for the contact list that the server keeps: \<^verbatim>\<open>src/SNAC-SBL.h\<close> and
  \<^verbatim>\<open>src/SNAC-SBL.cpp\<close>. The list is a sequence of entries, each with a name, two ids, a type and a
  block of TLVs; groups and contacts are entries. Parsing builds a \<open>ContactTree\<close> with new contacts,
  so it works on the store of contacts and the stream of random ids; nothing listens yet to the
  signals of the new tree and contacts.
\<close>

section \<open>Loops that may not end\<close>

definition andThenO :: "'a result option \<Rightarrow> ('a \<Rightarrow> 'b result option) \<Rightarrow> 'b result option" where
  "andThenO m f =
     (case m of None \<Rightarrow> None | Some (Inl e) \<Rightarrow> Some (Inl e) | Some (Inr x) \<Rightarrow> f x)"

lemma andThenO_simps [simp]:
  "andThenO None f = None" "andThenO (Some (Inl e)) f = Some (Inl e)" "andThenO (Some (Inr x)) f = f x"
  by (simp_all add: andThenO_def)

section \<open>Rights\<close>

definition SBLRightsReplySNAC_ParseBody :: "u8 list \<Rightarrow> buffer \<Rightarrow> buffer result" where
  "SBLRightsReplySNAC_ParseBody cap0 b =
     andThen (TLVList_Parse cap0 TLV_ParseMode_SBL_Rights 0xffff (\<lambda>_. None) b) (\<lambda>(m, b). Inr b)"

section \<open>The list from the server\<close>

definition Entry_UIN :: u16 where "Entry_UIN = 0x0000"
definition Entry_Group :: u16 where "Entry_Group = 0x0001"
definition Entry_VisSetting :: u16 where "Entry_VisSetting = 0x0004"
definition Entry_ICQTIC :: u16 where "Entry_ICQTIC = 0x0009"
definition Entry_Invisible :: u16 where "Entry_Invisible = 0x000e"
definition Entry_ImportTime :: u16 where "Entry_ImportTime = 0x0013"

definition as_SBLNick :: "in_tlv \<Rightarrow> string option" where
  "as_SBLNick t = (case t of SBLNickTLV v \<Rightarrow> Some v | _ \<Rightarrow> None)"

definition as_SBLSMSNo :: "in_tlv \<Rightarrow> string option" where
  "as_SBLSMSNo t = (case t of SBLSMSNoTLV v \<Rightarrow> Some v | _ \<Rightarrow> None)"

text \<open>
  The contacts built so far are those of \<open>sl_store\<close> below \<open>sl_next\<close>; \<open>sl_draws\<close> counts the random
  group ids drawn. The member \<^verbatim>\<open>m_authawait\<close> of a new contact is unset: \<open>indet\<close> gives what the memory
  held.
\<close>

record sbl_list =
  sl_tree :: contact_tree
  sl_store :: contact_store
  sl_next :: contact_ref
  sl_draws :: nat

definition sbl_contact :: "bool \<Rightarrow> string \<Rightarrow> tlv_list \<Rightarrow> contact result" where
  "sbl_contact indet name m =
     (let c = uin_contact indet (StringtoUIN name) in
      andThen (tlv_value as_SBLNick TLV_SBL_Nick m) (\<lambda>nick.
      let c = fst (setAlias (value_or name nick) c) in
      andThen (tlv_value as_SBLSMSNo TLV_SBL_SMS_No m) (\<lambda>sms.
      Inr (case sms of None \<Rightarrow> c | Some mn \<Rightarrow> fst (setMobileNo mn c)))))"

definition sbl_add_contact :: "(nat \<Rightarrow> u16) \<Rightarrow> u16 \<Rightarrow> contact \<Rightarrow> sbl_list \<Rightarrow> sbl_list result option" where
  "sbl_add_contact rnd group_id c s =
     (if \<not> exists_group group_id (sl_tree s)
      then Some (Inl (ParseException ''Contact group_id doesn't match any group''))
      else
        (case lookup_group group_id rnd (sl_draws s) (sl_tree s) of
           None \<Rightarrow> None
         | Some ((i, t, evs), n) \<Rightarrow>
             (let r = sl_next s; h = (sl_store s)(r := c)
              in Some (Inr (s\<lparr>sl_tree := upd_group i (\<lambda>g. fst (gp_add h r g)) t, sl_store := h,
                     sl_next := Suc r, sl_draws := n\<rparr>)))))"

definition sbl_add_group :: "(nat \<Rightarrow> u16) \<Rightarrow> u16 \<Rightarrow> string \<Rightarrow> sbl_list \<Rightarrow> sbl_list result option" where
  "sbl_add_group rnd group_id name s =
     (if 0 < group_id then
        (case add_group_id name group_id rnd (sl_draws s) (sl_tree s) of
           None \<Rightarrow> None
         | Some ((i, t, evs), n) \<Rightarrow> Some (Inr (s\<lparr>sl_tree := t, sl_draws := n\<rparr>)))
      else Some (Inr s))"

definition sbl_entry ::
  "(nat \<Rightarrow> u16) \<Rightarrow> (contact_ref \<Rightarrow> bool) \<Rightarrow> string \<Rightarrow> u16 \<Rightarrow> u16 \<Rightarrow> tlv_list \<Rightarrow> sbl_list \<Rightarrow> sbl_list result option" where
  "sbl_entry rnd indet name group_id type m s =
     (if type = Entry_UIN then
        (case sbl_contact (indet (sl_next s)) name m of
           Inl e \<Rightarrow> Some (Inl e)
         | Inr c \<Rightarrow> sbl_add_contact rnd group_id c s)
      else if type = Entry_Group then sbl_add_group rnd group_id name s
      else Some (Inr s))"

definition parse_sbl_entry ::
  "u8 list \<Rightarrow> (nat \<Rightarrow> u16) \<Rightarrow> (contact_ref \<Rightarrow> bool) \<Rightarrow> sbl_list \<Rightarrow> buffer \<Rightarrow> (sbl_list \<times> buffer) result option" where
  "parse_sbl_entry cap0 rnd indet s b =
     andThenO (Some (
         andThen (get_string [] b) (\<lambda>(name, b).
         andThen (get_u16 b) (\<lambda>(group_id, b).
         andThen (get_u16 b) (\<lambda>(tag_id, b).
         andThen (get_u16 b) (\<lambda>(type, b).
         andThen (get_u16 b) (\<lambda>(len, b). Inr (name, group_id, type, len, b)))))))) (\<lambda>(name, group_id, type, len, b).
     andThenO (ParseByLength cap0 TLV_ParseMode_SBL (ucast len) (\<lambda>_. None) b) (\<lambda>(m, b).
     andThenO (sbl_entry rnd indet name group_id type m s) (\<lambda>s. Some (Inr (s, b)))))"

fun parse_sbl_entries ::
  "u8 list \<Rightarrow> (nat \<Rightarrow> u16) \<Rightarrow> (contact_ref \<Rightarrow> bool) \<Rightarrow> nat \<Rightarrow> sbl_list \<Rightarrow> buffer \<Rightarrow> (sbl_list \<times> buffer) result option" where
  "parse_sbl_entries cap0 rnd indet 0 s b = Some (Inr (s, b))"
| "parse_sbl_entries cap0 rnd indet (Suc l) s b =
     andThenO (parse_sbl_entry cap0 rnd indet s b) (\<lambda>(s, b). parse_sbl_entries cap0 rnd indet l s b)"

text \<open>The result starts with \<^verbatim>\<open>m_size\<close>.\<close>

definition SBLListSNAC_ParseBody ::
  "u8 list \<Rightarrow> (nat \<Rightarrow> u16) \<Rightarrow> (contact_ref \<Rightarrow> bool) \<Rightarrow> sbl_list \<Rightarrow> buffer \<Rightarrow>
    ((u16 \<times> sbl_list) \<times> buffer) result option" where
  "SBLListSNAC_ParseBody cap0 rnd indet s b =
     andThenO (Some (get_u16 (advance 1 b))) (\<lambda>(size, b).
     andThenO (parse_sbl_entries cap0 rnd indet (unat size) (s\<lparr>sl_tree := new_contact_tree\<rparr>) b) (\<lambda>(s, b).
     Some (Inr ((size, s), advance 4 b))))"

section \<open>Changing the list\<close>

text \<open>What an entry to be added or removed holds: a group, when the id is not 0, or contacts.\<close>

record sbl_change =
  sc_group_name :: string
  sc_buddy_list :: "contact_ref list"
  sc_group_id :: u16

definition sbl_add_list :: "contact_store \<Rightarrow> contact_list \<Rightarrow> sbl_change" where
  "sbl_add_list h l = \<lparr>sc_group_name = [],
     sc_buddy_list = filter (\<lambda>r. isICQContact (h r) \<and> \<not> m_server_based (h r)) (map snd (m_cmap l)), sc_group_id = 0\<rparr>"

definition sbl_remove_list :: "contact_store \<Rightarrow> contact_list \<Rightarrow> sbl_change" where
  "sbl_remove_list h l = \<lparr>sc_group_name = [],
     sc_buddy_list = filter (\<lambda>r. isICQContact (h r)) (map snd (m_cmap l)), sc_group_id = 0\<rparr>"

definition sbl_change_contact :: "contact_ref \<Rightarrow> sbl_change" where
  "sbl_change_contact r = \<lparr>sc_group_name = [], sc_buddy_list = [r], sc_group_id = 0\<rparr>"

definition sbl_change_group :: "string \<Rightarrow> u16 \<Rightarrow> sbl_change" where
  "sbl_change_group name gid = \<lparr>sc_group_name = name, sc_buddy_list = [], sc_group_id = gid\<rparr>"

definition sbl_add_buddy :: "contact_ref \<Rightarrow> sbl_change \<Rightarrow> sbl_change" where
  "sbl_add_buddy r s = s\<lparr>sc_buddy_list := sc_buddy_list s @ [r]\<rparr>"

definition put_sbl_group :: "string \<Rightarrow> u16 \<Rightarrow> buffer \<Rightarrow> buffer" where
  "put_sbl_group name gid b = fold put_u16 [gid, 0x0000, 0x0001, 0x0000] (put_string name b)"

definition put_sbl_contact :: "nat \<Rightarrow> contact \<Rightarrow> buffer \<Rightarrow> buffer result" where
  "put_sbl_contact rnd c b =
     (let suin = getStringUIN c; alias = getAlias c;
          b = put_string suin b;
          b = put_u16 (m_group_id c) b;
          b = put_u16 (getServerSideID rnd c) b;
          b = put_u16 0x0000 b;
          (m, b) = getAutoSizeShortMarker b;
          b = put_u16 TLV_ContactNickname b;
          b = put_string alias b;
          b = (if m_authawait c then put_u16 0x0000 (put_u16 TLV_AuthAwaited b) else b)
      in setAutoSizeMarker m b)"

text \<open>\<open>rnd k\<close> is what \<^verbatim>\<open>rand()\<close> gives for the \<open>k\<close>-th contact of the list.\<close>

fun put_sbl_contacts :: "contact_store \<Rightarrow> (nat \<Rightarrow> nat) \<Rightarrow> nat \<Rightarrow> contact_ref list \<Rightarrow> buffer \<Rightarrow> buffer result" where
  "put_sbl_contacts h rnd k [] b = Inr b"
| "put_sbl_contacts h rnd k (r # rs) b =
     andThen (put_sbl_contact (rnd k) (h r) b) (put_sbl_contacts h rnd (Suc k) rs)"

definition SBLAddEntrySNAC_OutputBody ::
  "contact_store \<Rightarrow> (nat \<Rightarrow> nat) \<Rightarrow> sbl_change \<Rightarrow> buffer \<Rightarrow> buffer result" where
  "SBLAddEntrySNAC_OutputBody h rnd s b =
     (if sc_group_id s \<noteq> 0 then Inr (put_sbl_group (sc_group_name s) (sc_group_id s) b)
      else put_sbl_contacts h rnd 0 (sc_buddy_list s) b)"

definition SBLUpdateEntrySNAC_OutputBody :: "string \<Rightarrow> u16 \<Rightarrow> u16 list \<Rightarrow> buffer \<Rightarrow> buffer" where
  "SBLUpdateEntrySNAC_OutputBody name gid ids b =
     (let b = put_u16 (word_of_nat (length name)) b;
          b = pack_string name b;
          b = fold put_u16 [gid, 0x0000, 0x0001] b
      in if ids = [] then put_u16 0x0000 b
         else
           (let b = put_u16 (word_of_nat (4 + length ids * 2)) b;
                b = put_u16 0x00c8 b;
                b = put_u16 (word_of_nat (length ids * 2)) b
            in fold put_u16 ids b))"

definition remove_sbl_group :: "string \<Rightarrow> u16 \<Rightarrow> buffer \<Rightarrow> buffer" where
  "remove_sbl_group name gid b =
     fold put_u16 [gid, 0x0000, 0x0001, 0x0000] (pack_string name (put_u16 (word_of_nat (length name)) b))"

definition remove_sbl_contact :: "nat \<Rightarrow> contact \<Rightarrow> buffer \<Rightarrow> buffer" where
  "remove_sbl_contact rnd c b =
     (let suin = getStringUIN c; alias = getAlias c;
          b = put_u16 (word_of_nat (length suin)) b;
          b = pack_string suin b;
          b = put_u16 (m_group_id c) b;
          b = put_u16 (getServerSideID rnd c) b;
          b = put_u16 0x0000 b;
          tlvlen = 4 + length alias;
          tlvlen = (if m_authawait c then tlvlen + 4 else tlvlen);
          b = put_u16 (word_of_nat tlvlen) b;
          b = put_u16 TLV_ContactNickname b;
          b = put_u16 (word_of_nat (length alias)) b;
          b = pack_string alias b
      in if m_authawait c then put_u16 0x0000 (put_u16 TLV_AuthAwaited b) else b)"

fun remove_sbl_contacts :: "contact_store \<Rightarrow> (nat \<Rightarrow> nat) \<Rightarrow> nat \<Rightarrow> contact_ref list \<Rightarrow> buffer \<Rightarrow> buffer" where
  "remove_sbl_contacts h rnd k [] b = b"
| "remove_sbl_contacts h rnd k (r # rs) b =
     remove_sbl_contacts h rnd (Suc k) rs (remove_sbl_contact (rnd k) (h r) b)"

definition SBLRemoveEntrySNAC_OutputBody ::
  "contact_store \<Rightarrow> (nat \<Rightarrow> nat) \<Rightarrow> sbl_change \<Rightarrow> buffer \<Rightarrow> buffer" where
  "SBLRemoveEntrySNAC_OutputBody h rnd s b =
     (if sc_group_id s \<noteq> 0 then remove_sbl_group (sc_group_name s) (sc_group_id s) b
      else remove_sbl_contacts h rnd 0 (sc_buddy_list s) b)"

section \<open>The result of a change\<close>

datatype edit_result = Success | Failed | AuthRequired | AlreadyExists

definition result_of_code :: "u16 \<Rightarrow> edit_result list" where
  "result_of_code errcode =
     (if errcode = 0x0000 then [Success]
      else if errcode = 0x0003 then [AlreadyExists]
      else if errcode = 0x000a then [Failed]
      else if errcode = 0x000e then [AuthRequired]
      else [])"

partial_function (option) edit_results :: "edit_result list \<Rightarrow> buffer \<Rightarrow> (edit_result list \<times> buffer) result option" where
  "edit_results rs b =
     (if 2 \<le> remains b then
        (case get_u16 b of
           Inl e \<Rightarrow> Some (Inl e)
         | Inr (errcode, b) \<Rightarrow> edit_results (rs @ result_of_code errcode) b)
      else Some (Inr (rs, b)))"

definition SBLEditACKSNAC_ParseBody :: "buffer \<Rightarrow> (edit_result list \<times> buffer) result option" where
  "SBLEditACKSNAC_ParseBody b = edit_results [] b"

section \<open>What is written\<close>

definition enc_sbl_group :: "string \<Rightarrow> u16 \<Rightarrow> endian \<Rightarrow> u8 list" where
  "enc_sbl_group name gid e = enc_string e name @ concat (map (enc16 e) [gid, 0, 1, 0])"

definition enc_sbl_tlvs :: "contact \<Rightarrow> endian \<Rightarrow> u8 list" where
  "enc_sbl_tlvs c e = enc16 e TLV_ContactNickname @ enc_string e (getAlias c) @
     (if m_authawait c then enc16 e TLV_AuthAwaited @ enc16 e 0 else [])"

definition enc_sbl_contact :: "nat \<Rightarrow> contact \<Rightarrow> endian \<Rightarrow> u8 list" where
  "enc_sbl_contact rnd c e = enc_string e (getStringUIN c) @ enc16 e (m_group_id c) @ enc16 e (getServerSideID rnd c) @
     enc16 e 0 @ enc16 e (word_of_nat (length (enc_sbl_tlvs c e))) @ enc_sbl_tlvs c e"

fun enc_sbl_contacts :: "contact_store \<Rightarrow> (nat \<Rightarrow> nat) \<Rightarrow> nat \<Rightarrow> contact_ref list \<Rightarrow> endian \<Rightarrow> u8 list" where
  "enc_sbl_contacts h rnd k [] e = []"
| "enc_sbl_contacts h rnd k (r # rs) e = enc_sbl_contact (rnd k) (h r) e @ enc_sbl_contacts h rnd (Suc k) rs e"

lemma put_sbl_group_app: "put_sbl_group name gid b = app (enc_sbl_group name gid (m_endn b)) b"
  by (simp add: put_sbl_group_def put_app put_string_app enc_sbl_group_def)

lemma remove_sbl_group_app: "remove_sbl_group name gid b = app (enc_sbl_group name gid (m_endn b)) b"
  by (simp add: remove_sbl_group_def put_app put_string_app enc_sbl_group_def enc_string_def)

lemma remove_sbl_contact_app: "remove_sbl_contact rnd c b = app (enc_sbl_contact rnd c (m_endn b)) b"
  by (simp add: remove_sbl_contact_def put_app put_string_app Let_def enc_sbl_contact_def enc_sbl_tlvs_def
      enc_string_def ac_simps)

lemma remove_sbl_contacts_app: "remove_sbl_contacts h rnd k rs b = app (enc_sbl_contacts h rnd k rs (m_endn b)) b"
  by (induction rs arbitrary: k b) (simp_all add: remove_sbl_contact_app, simp add: app_def)

lemma put_sbl_contact_app:
  assumes "length (m_data b) + length (enc_sbl_contact rnd c (m_endn b)) < 2 ^ 32"
  shows "put_sbl_contact rnd c b = Inr (app (enc_sbl_contact rnd c (m_endn b)) b)"
proof -
  let ?e = "m_endn b"
  let ?pre = "enc_string ?e (getStringUIN c) @ enc16 ?e (m_group_id c) @ enc16 ?e (getServerSideID rnd c) @ enc16 ?e 0"
  have "put_sbl_contact rnd c b = setAutoSizeMarker (marker_at (length (m_data b) + length ?pre) ?e)
      (app (?pre @ enc16 ?e 0 @ enc_sbl_tlvs c ?e) b)"
    by (simp add: put_sbl_contact_def put_app put_string_app short_marker_app Let_def enc_sbl_tlvs_def eval_nat_numeral)
  also have "\<dots> = Inr (app (?pre @ enc16 ?e (word_of_nat (length (enc_sbl_tlvs c ?e))) @ enc_sbl_tlvs c ?e) b)"
    using assms by (intro fill_app) (simp_all add: enc_sbl_contact_def)
  finally show ?thesis
    by (simp add: enc_sbl_contact_def)
qed

lemma put_sbl_contacts_app:
  "length (m_data b) + length (enc_sbl_contacts h rnd k rs (m_endn b)) < 2 ^ 32 \<Longrightarrow>
   put_sbl_contacts h rnd k rs b = Inr (app (enc_sbl_contacts h rnd k rs (m_endn b)) b)"
proof (induction rs arbitrary: k b)
  case Nil
  then show ?case by (simp add: app_def)
next
  case (Cons r rs)
  then show ?case
    using put_sbl_contact_app [of b "rnd k" "h r"] Cons.IH [of "app (enc_sbl_contact (rnd k) (h r) (m_endn b)) b" "Suc k"]
    by simp
qed

text \<open>The entries of SBLRemoveEntrySNAC are byte for byte those SBLAddEntrySNAC writes for the same
  group or contacts, although one computes the lengths beforehand and the other fills them in.\<close>

theorem remove_names_added:
  assumes "length (m_data (SBLRemoveEntrySNAC_OutputBody h rnd s b)) < 2 ^ 32"
  shows "SBLAddEntrySNAC_OutputBody h rnd s b = Inr (SBLRemoveEntrySNAC_OutputBody h rnd s b)"
  using assms by (simp add: SBLAddEntrySNAC_OutputBody_def SBLRemoveEntrySNAC_OutputBody_def put_sbl_group_app
      remove_sbl_group_app remove_sbl_contacts_app put_sbl_contacts_app split: if_splits)

definition sample_buddy :: "u16 \<Rightarrow> u32 \<Rightarrow> string \<Rightarrow> contact" where
  "sample_buddy gid uin a = (fst (setAlias a (uin_contact True uin)))\<lparr>m_group_id := gid\<rparr>"

theorem remove_names_added_witness:
  "SBLAddEntrySNAC_OutputBody (\<lambda>_. sample_buddy 3 12 ''ann'') (\<lambda>_. 0) (sbl_change_contact 7) new_buffer =
   Inr (SBLRemoveEntrySNAC_OutputBody (\<lambda>_. sample_buddy 3 12 ''ann'') (\<lambda>_. 0) (sbl_change_contact 7) new_buffer)"
proof (rule remove_names_added)
  have "length (getStringUIN (sample_buddy 3 12 ''ann'')) \<le> 10"
    using length_UINtoString by (simp add: getStringUIN_def)
  then show "length (m_data (SBLRemoveEntrySNAC_OutputBody (\<lambda>_. sample_buddy 3 12 ''ann'') (\<lambda>_. 0) (sbl_change_contact 7) new_buffer)) < 2 ^ 32"
    by (simp add: SBLRemoveEntrySNAC_OutputBody_def sbl_change_contact_def remove_sbl_contact_app enc_sbl_contact_def
        enc_sbl_tlvs_def sample_buddy_def setAlias_def userinfo_change_emit_def upd_info_def getAlias_def enc_string_def)
qed

section \<open>Results\<close>

lemma edit_results_step: "2 \<le> remains b \<Longrightarrow> get_u16 b = Inr (c, b') \<Longrightarrow> edit_results rs b = edit_results (rs @ result_of_code c) b'"
  by (subst edit_results.simps) simp

lemma remains_word_at:
  assumes "at b e r"
  shows "unat (remains b) = length r"
proof -
  have "length (m_data b) < 2 ^ 31" "unat (m_out_pos b) \<le> length (m_data b)" "r = unread b"
    using assms by (auto simp: at_def wfb_def)
  then show ?thesis
    by (simp add: remains_def unat_sub word_le_nat_alt unat_of_nat_u32 unread_def)
qed

text \<open>The acknowledgement of a change yields one result for every known code, in their order,
  and ignores a byte left over.\<close>

theorem edit_results_complete:
  assumes "at b e (concat (map (enc16 e) codes) @ r)" and "length r < 2"
  shows "\<exists>b'. SBLEditACKSNAC_ParseBody b = Some (Inr (concat (map result_of_code codes), b')) \<and> at b' e r"
proof -
  have "\<exists>b'. edit_results rs b = Some (Inr (rs @ concat (map result_of_code codes), b')) \<and> at b' e r"
    if "at b e (concat (map (enc16 e) codes) @ r)" for rs b
    using that
  proof (induction codes arbitrary: rs b)
    case Nil
    then have "\<not> 2 \<le> remains b"
      using remains_word_at [of b e r] assms(2) by (simp add: word_le_nat_alt)
    then show ?case
      using Nil by (simp add: edit_results.simps)
  next
    case (Cons c codes)
    then have a: "at b e (enc16 e c @ concat (map (enc16 e) codes) @ r)" by simp
    then have "2 \<le> remains b"
      using remains_word_at [OF a] by (simp add: word_le_nat_alt)
    then show ?case
      using edit_results_step rd_u16 [OF a] Cons.IH [of "advance 2 b" "rs @ result_of_code c"] by simp
  qed
  from this [OF assms(1), of "[]"] show ?thesis
    by (simp add: SBLEditACKSNAC_ParseBody_def)
qed

theorem edit_results_complete_witness:
  "\<exists>b'. SBLEditACKSNAC_ParseBody (buffer_of_bytes [0, 0, 0, 3, 9]) = Some (Inr ([Success, AlreadyExists], b'))"
  using edit_results_complete [of "buffer_of_bytes [0, 0, 0, 3, 9]" BIG "[0, 3]" "[9]"]
  by (auto simp: at_big enc16.simps octet_def result_of_code_def at_def wfb_def unread_def buffer_of_bytes_def)

lemma get_u16_behind:
  assumes "0 < length (m_data b)" and "length (m_data b) < 2 ^ 31" and "length (m_data b) < unat (m_out_pos b)"
  shows "get_u16 b = (if unat (m_out_pos b) + 2 < 2 ^ 32 then Inr (0, advance 2 b) else Inl OutOfRange)"
proof (cases "unat (m_out_pos b) + 2 < 2 ^ 32")
  case True
  then have "unat (m_out_pos b + 2) = unat (m_out_pos b) + 2"
    by (simp add: unat_plus_u32)
  then show ?thesis
    using True assms(3) by (simp add: get_u16_def)
next
  case False
  have "unat (m_out_pos b + 2) = (unat (m_out_pos b) + 2) mod 2 ^ 32"
    by (simp add: unat_word_ariths)
  also have "\<dots> \<le> 1"
    using False unsigned_less [of "m_out_pos b", where ?'a = nat] by (simp add: le_mod_geq)
  finally have w: "unat (m_out_pos b + 2) \<le> 1" .
  obtain k where "length (m_data b) = Suc k"
    using assms(1) by (cases "m_data b") auto
  then have "\<not> length (m_data b) < unat (m_out_pos b + 2)" "\<not> unat (m_out_pos b) < length (m_data b)"
    using w assms(3) by linarith+
  then show ?thesis
    using False by (simp add: get_u16_def byte_at_def)
qed

text \<open>When the packet was cut within the header of the SNAC, the position is behind its end,
  \<^verbatim>\<open>remains()\<close> wraps around, and the loop over the results only ends by reading outside the packet
  (after about 2 to the power of 31 results).\<close>

theorem edit_results_cut_header:
  assumes "0 < length (m_data b)" and "length (m_data b) < 2 ^ 31" and "length (m_data b) < unat (m_out_pos b)"
  shows "SBLEditACKSNAC_ParseBody b = Some (Inl OutOfRange)"
proof -
  have "edit_results rs b = Some (Inl OutOfRange)"
    if "0 < length (m_data b)" "length (m_data b) < 2 ^ 31" "length (m_data b) < unat (m_out_pos b)" for rs b
    using that
  proof (induction "2 ^ 32 - unat (m_out_pos b)" arbitrary: rs b rule: less_induct)
    case less
    have "unat (m_out_pos b) < 2 ^ 32"
      using unsigned_less [of "m_out_pos b", where ?'a = nat] by simp
    then have "unat (remains b) = 2 ^ 32 + length (m_data b) - unat (m_out_pos b)"
      using less.prems by (simp add: remains_def unat_sub_if_size word_size unat_of_nat_u32)
    moreover obtain k where "length (m_data b) = Suc k"
      using less.prems(1) by (cases "m_data b") auto
    ultimately have "2 \<le> unat (remains b)"
      using \<open>unat (m_out_pos b) < 2 ^ 32\<close> by linarith
    then have r: "2 \<le> remains b"
      by (simp add: word_le_nat_alt)
    show ?case
    proof (cases "unat (m_out_pos b) + 2 < 2 ^ 32")
      case True
      then have "unat (m_out_pos (advance 2 b)) = unat (m_out_pos b) + 2"
        by (simp add: unat_plus_u32)
      then have "edit_results (rs @ result_of_code 0) (advance 2 b) = Some (Inl OutOfRange)"
        using less.prems True by (intro less.hyps) simp_all
      then show ?thesis
        using edit_results_step [OF r] get_u16_behind [OF less.prems] True by simp
    next
      case False
      then show ?thesis
        using r get_u16_behind [OF less.prems] by (simp add: edit_results.simps)
    qed
  qed
  then show ?thesis
    using assms by (simp add: SBLEditACKSNAC_ParseBody_def)
qed

theorem edit_results_cut_header_witness:
  "SBLEditACKSNAC_ParseBody (advance 10 (buffer_of_bytes [0, 0x13, 0, 0x0e])) = Some (Inl OutOfRange)"
  by (rule edit_results_cut_header) (simp_all add: buffer_of_bytes_def)

section \<open>Reading an entry\<close>

lemma at_pos: "at b e r \<Longrightarrow> unat (m_out_pos b) + length r = length (m_data b)" "at b e r \<Longrightarrow> length (m_data b) < 2 ^ 31"
  by (auto simp: at_def wfb_def unread_def)

text \<open>A TLV read inside a block that ends at a given position.\<close>

lemma block_tlv:
  assumes "at b e (enc16 e ty @ v @ r)" and "yields t e r (ParseValue cap0 (new_tlv TLV_ParseMode_SBL ty) (advance 2 b))"
    and "Type t = ty" and "unat stop = length (m_data b) - k" and "k \<le> length r"
  shows "\<exists>b'. at b' e r \<and> m_data b' = m_data b \<and>
    parse_until cap0 TLV_ParseMode_SBL stop m b = parse_until cap0 TLV_ParseMode_SBL stop (m(ty \<mapsto> Some t)) b'"
proof -
  note p = at_pos [OF assms(1)]
  have "length (enc16 e ty @ v @ r) = 2 + length v + length r" by simp
  then have "unat (m_out_pos b) < unat stop"
    using p(1) assms(4,5) by linarith
  then have "m_out_pos b < stop"
    by (simp add: word_less_nat_alt)
  obtain b' where b': "ParseTLV cap0 TLV_ParseMode_SBL b = Inr (t, b')" "at b' e r"
    using assms(2) rd_u16(1) [OF assms(1)] by (auto simp: ParseTLV_def ParseTLV_with_def elim!: yieldsE)
  moreover have "m_data b' = m_data b"
    using boundedD [OF bounded_ParseTLV [of TLV_ParseMode_SBL cap0], of b] b'(1) p
    by (auto simp: plain_mode_def step_within_def)
  ultimately show ?thesis
    using parse_until_step [OF \<open>m_out_pos b < stop\<close> b'(1)] assms(3) by blast
qed

lemma block_done:
  assumes "at b e r" and "unat stop = length (m_data b) - length r"
  shows "parse_until cap0 pm stop m b = Some (Inr (m, b))"
proof -
  have "unat stop = unat (m_out_pos b)"
    using at_pos(1) [OF assms(1)] assms(2) by linarith
  then show ?thesis
    by (simp add: parse_until.simps word_less_nat_alt)
qed

lemma nick_value:
  assumes "at b BIG (enc_string BIG s @ r)" and "length s < 65536"
  shows "yields (SBLNickTLV s) BIG r (ParseValue cap0 (SBLNickTLV []) b)"
  using string_codec.inp_yields [of s b BIG r] assms
  by (simp add: ParseValue_def ParseValue_with_def StringTLV_ParseValue_def yields_map_value)

lemma await_value:
  assumes "at b BIG (enc16 BIG 0 @ r)"
  shows "yields SBLAwaitAuthTLV BIG r (ParseValue cap0 SBLAwaitAuthTLV b)"
  using rd_u16 [OF assms] by (simp add: ParseValue_def ParseValue_with_def SBLAwaitAuthTLV_ParseValue_def yields_def)

lemma sbl_block_read:
  assumes "at b BIG (enc_sbl_tlvs c BIG @ r)" and "length (getAlias c) < 65000"
  shows "\<exists>m b'. ParseByLength cap0 TLV_ParseMode_SBL (ucast (word_of_nat (length (enc_sbl_tlvs c BIG)) :: u16)) (\<lambda>_. None) b =
      Some (Inr (m, b')) \<and> at b' BIG r \<and> m TLV_SBL_Nick = Some (Some (SBLNickTLV (getAlias c))) \<and> m TLV_SBL_SMS_No = None"
proof -
  let ?w = "ucast (word_of_nat (length (enc_sbl_tlvs c BIG)) :: u16) :: u32" and ?P = "parse_until cap0 TLV_ParseMode_SBL"
  define stop where "stop = m_out_pos b + ?w"
  let ?await = "if m_authawait c then enc16 BIG TLV_AuthAwaited @ enc16 BIG 0 else []"
  let ?m1 = "[TLV_SBL_Nick \<mapsto> Some (SBLNickTLV (getAlias c))]"
  note p = at_pos [OF assms(1)]
  have "length (enc_sbl_tlvs c BIG) < 65536"
    using assms(2) by (simp add: enc_sbl_tlvs_def)
  then have w: "unat ?w = length (enc_sbl_tlvs c BIG)"
    by (simp add: unat_ucast_up unat_of_nat_u16)
  have l: "unat (m_out_pos b) + length (enc_sbl_tlvs c BIG) + length r = length (m_data b)"
    using p(1) by simp
  have "(2::nat) ^ 31 < 2 ^ 32" by simp
  then have "unat stop = unat (m_out_pos b) + unat ?w"
    unfolding stop_def by (intro unat_plus_u32) (use w l p(2) in linarith)
  then have stop: "unat stop = length (m_data b) - length r"
    using w l by linarith
  have 1: "at b BIG (enc16 BIG TLV_SBL_Nick @ enc_string BIG (getAlias c) @ ?await @ r)"
    using assms(1) by (simp add: enc_sbl_tlvs_def tlv_types)
  obtain b1 where b1: "at b1 BIG (?await @ r)" "m_data b1 = m_data b" "?P stop (\<lambda>_. None) b = ?P stop ?m1 b1"
    using block_tlv [OF 1 _ _ stop] nick_value [OF rd_u16(2) [OF 1]] assms(2)
    by (fastforce simp: new_tlv_def tlv_types Type_def)
  show ?thesis
  proof (cases "m_authawait c")
    case True
    then have 2: "at b1 BIG (enc16 BIG TLV_AuthAwaited @ enc16 BIG 0 @ r)"
      using b1(1) by simp
    obtain b2 where "at b2 BIG r" "m_data b2 = m_data b" "?P stop ?m1 b1 = ?P stop (?m1(TLV_AuthAwaited \<mapsto> Some SBLAwaitAuthTLV)) b2"
      using block_tlv [OF 2, of SBLAwaitAuthTLV cap0 stop "length r" ?m1] await_value [OF rd_u16(2) [OF 2]] stop b1(2)
      by (auto simp: new_tlv_def tlv_types Type_def)
    then show ?thesis
      using b1(3) block_done [of b2 BIG r stop] stop by (simp add: ParseByLength_def stop_def tlv_types)
  next
    case False
    then show ?thesis
      using b1 block_done [of b1 BIG r stop] stop by (simp add: ParseByLength_def stop_def tlv_types)
  qed
qed

lemma entry_head:
  assumes "at b BIG (enc_string BIG name @ enc16 BIG gid @ enc16 BIG tg @ enc16 BIG ty @ enc16 BIG len @ r)"
    and "length name < 65536"
  shows "\<exists>b'. at b' BIG r \<and> parse_sbl_entry cap0 rnd indet s b =
    andThenO (ParseByLength cap0 TLV_ParseMode_SBL (ucast len) (\<lambda>_. None) b') (\<lambda>(m, b).
    andThenO (sbl_entry rnd indet name gid ty m s) (\<lambda>s. Some (Inr (s, b))))"
proof -
  obtain b1 where 1: "get_string [] b = Inr (name, b1)"
    "at b1 BIG (enc16 BIG gid @ enc16 BIG tg @ enc16 BIG ty @ enc16 BIG len @ r)"
    using string_codec.inp_yields [of name b BIG] assms by (auto elim: yieldsE)
  note 2 = rd_u16 [OF 1(2)]
  note 3 = rd_u16 [OF 2(2)]
  note 4 = rd_u16 [OF 3(2)]
  note 5 = rd_u16 [OF 4(2)]
  show ?thesis
    using 5(2) by (auto simp: parse_sbl_entry_def 1(1) 2(1) 3(1) 4(1) 5(1))
qed

section \<open>The tree behind a list\<close>

text \<open>The groups of the tree with their labels, and under each the aliases of its contacts by UIN.\<close>

definition sbl_view :: "sbl_list \<Rightarrow> (u16 \<times> string \<times> (u32 \<rightharpoonup> string)) list" where
  "sbl_view s = map (\<lambda>g. (m_id g, m_label g, \<lambda>u. map_option (\<lambda>r. getAlias (sl_store s r)) (map_of (m_crefs g) u)))
     (m_groups (sl_tree s))"

definition refs_below :: "contact_ref \<Rightarrow> group \<Rightarrow> bool" where
  "refs_below n g \<longleftrightarrow> map_ok (m_crefs g) \<and> (\<forall>r\<in>snd ` set (m_crefs g). r < n)"

definition sbl_ok :: "sbl_list \<Rightarrow> bool" where
  "sbl_ok s \<longleftrightarrow> distinct (map m_id (m_groups (sl_tree s))) \<and> (\<forall>g\<in>set (m_groups (sl_tree s)). refs_below (sl_next s) g)"

lemma map_fst_view: "map fst (sbl_view s) = map m_id (m_groups (sl_tree s))"
  by (simp add: sbl_view_def)

lemma exists_group_view: "exists_group gid (sl_tree s) \<longleftrightarrow> gid \<in> fst ` set (sbl_view s)"
  by (auto simp: exists_group_def list_ex_iff sbl_view_def image_image image_iff)

lemma add_group_view:
  assumes "sbl_ok s" and "gid \<notin> fst ` set (sbl_view s)" and "gid \<noteq> 0"
  shows "\<exists>s'. sbl_add_group rnd gid name s = Some (Inr s') \<and> sbl_ok s' \<and> sbl_view s' = sbl_view s @ [(gid, name, \<lambda>_. None)]"
  using assms exists_group_view [of gid s]
  by (auto simp: sbl_add_group_def add_group_id_def push_group_def sbl_ok_def sbl_view_def new_group_def refs_below_def
      exists_group_def list_ex_iff word_gt_0)

lemma group_pos_nth:
  "list_ex (\<lambda>g. m_id g = gid) gs \<Longrightarrow> distinct (map m_id gs) \<Longrightarrow>
   \<exists>i<length gs. group_pos (\<lambda>g. m_id g = gid) gs = Some i \<and> gs[i := f (gs ! i)] = map (\<lambda>g. if m_id g = gid then f g else g) gs"
proof (induction gs)
  case (Cons g gs)
  show ?case
  proof (cases "m_id g = gid")
    case True
    then have "gid \<notin> m_id ` set gs"
      using Cons.prems(2) by auto
    then have "map (\<lambda>g. if m_id g = gid then f g else g) gs = gs"
      by (intro map_idI) (metis imageI)
    then show ?thesis
      using True by simp
  next
    case False
    then show ?thesis
      using Cons by fastforce
  qed
qed simp

definition view_add :: "u16 \<Rightarrow> u32 \<Rightarrow> string \<Rightarrow> (u32 \<rightharpoonup> string) \<Rightarrow> (u32 \<rightharpoonup> string)" where
  "view_add gid u a m = (if m u = None then m(u \<mapsto> a) else m)"

lemma snd_map_insert: "snd ` set (map_insert k v m) \<subseteq> insert v (snd ` set m)"
  by (induction k v m rule: map_insert.induct) auto

lemma alias_old_ref:
  assumes "\<forall>r\<in>snd ` set (m :: ref_map). r < n"
  shows "map_option (\<lambda>r. getAlias ((h(n := c)) r)) (map_of m u) = map_option (\<lambda>r. getAlias (h r)) (map_of m u)"
proof (cases "map_of m u")
  case (Some r)
  then have "r < n"
    using assms map_of_SomeD [OF Some] by force
  then show ?thesis
    using Some by auto
qed simp

lemma alias_new_ref:
  assumes "map_ok (m :: ref_map)" and "\<forall>r\<in>snd ` set m. r < n"
  shows "(\<lambda>u. map_option (\<lambda>r. getAlias ((h(n := c)) r)) (map_of (map_insert (m_uin c) n m) u)) =
    view_add gid (m_uin c) (getAlias c) (\<lambda>u. map_option (\<lambda>r. getAlias (h r)) (map_of m u))"
  using alias_old_ref [OF assms(2)] by (auto simp: map_of_map_insert [OF assms(1)] view_add_def fun_eq_iff)

lemma add_contact_view:
  assumes "sbl_ok s" and "gid \<in> fst ` set (sbl_view s)"
  shows "\<exists>s'. sbl_add_contact rnd gid c s = Some (Inr s') \<and> sbl_ok s' \<and>
    sbl_view s' = map (\<lambda>(i, n, m). (i, n, if i = gid then view_add gid (m_uin c) (getAlias c) m else m)) (sbl_view s)"
proof -
  let ?gs = "m_groups (sl_tree s)" and ?r = "sl_next s" and ?h = "(sl_store s)(sl_next s := c)"
  let ?f = "\<lambda>g. fst (gp_add ?h ?r g)"
  obtain i where i: "i < length ?gs" "group_pos (\<lambda>g. m_id g = gid) ?gs = Some i"
    "?gs[i := ?f (?gs ! i)] = map (\<lambda>g. if m_id g = gid then ?f g else g) ?gs"
    using group_pos_nth [of gid ?gs ?f] assms exists_group_view [of gid s] by (auto simp: sbl_ok_def exists_group_def)
  define s' where "s' = s\<lparr>sl_tree := (sl_tree s)\<lparr>m_groups := map (\<lambda>g. if m_id g = gid then ?f g else g) ?gs\<rparr>,
    sl_store := ?h, sl_next := Suc ?r\<rparr>"
  have "sbl_add_contact rnd gid c s = Some (Inr s')"
    using i assms(2) exists_group_view [of gid s]
    by (simp add: sbl_add_contact_def lookup_group_def lookup_group_by_def upd_group_def s'_def Let_def)
  moreover have "sbl_ok s'"
  proof -
    have "map m_id (map (\<lambda>g. if m_id g = gid then ?f g else g) ?gs) = map m_id ?gs"
      by (simp add: gp_add_def)
    moreover have "refs_below (Suc ?r) (?f g)" "refs_below (Suc ?r) g" if "g \<in> set ?gs" for g
      using that assms(1) snd_map_insert [of "m_uin c" ?r "m_crefs g"]
      by (fastforce simp: sbl_ok_def gp_add_def refs_below_def)+
    moreover have "distinct (map m_id ?gs)"
      using assms(1) by (simp add: sbl_ok_def)
    ultimately show ?thesis
      by (auto simp: sbl_ok_def s'_def simp del: map_map)
  qed
  moreover have "sbl_view s' = map (\<lambda>(i, n, m). (i, n, if i = gid then view_add gid (m_uin c) (getAlias c) m else m)) (sbl_view s)"
    unfolding sbl_view_def s'_def using assms(1)
    by (auto simp: sbl_ok_def gp_add_def refs_below_def alias_old_ref alias_new_ref fun_upd_same simp del: fun_upd_apply)
  ultimately show ?thesis by blast
qed

section \<open>Reading a list\<close>

lemma group_entry_read:
  assumes "at b BIG (enc_sbl_group name gid BIG @ r)" and "length name < 65536"
    and "sbl_ok s" and "gid \<notin> fst ` set (sbl_view s)" and "gid \<noteq> 0"
  shows "\<exists>s' b'. parse_sbl_entry cap0 rnd indet s b = Some (Inr (s', b')) \<and> at b' BIG r \<and> sbl_ok s' \<and>
    sbl_view s' = sbl_view s @ [(gid, name, \<lambda>_. None)]"
proof -
  have "at b BIG (enc_string BIG name @ enc16 BIG gid @ enc16 BIG 0 @ enc16 BIG 1 @ enc16 BIG 0 @ r)"
    using assms(1) by (simp add: enc_sbl_group_def)
  from entry_head [OF this assms(2)] obtain b1 where b1: "at b1 BIG r" "parse_sbl_entry cap0 rnd indet s b =
    andThenO (ParseByLength cap0 TLV_ParseMode_SBL (ucast (0 :: u16)) (\<lambda>_. None) b1) (\<lambda>(m, b).
    andThenO (sbl_entry rnd indet name gid 1 m s) (\<lambda>s. Some (Inr (s, b))))"
    by blast
  moreover have "ParseByLength cap0 TLV_ParseMode_SBL (ucast (0 :: u16)) (\<lambda>_. None) b1 = Some (Inr (\<lambda>_. None, b1))"
    by (simp add: ParseByLength_def parse_until.simps)
  ultimately show ?thesis
    using add_group_view [OF assms(3-5), of rnd name]
    by (auto simp: sbl_entry_def Entry_UIN_def Entry_Group_def)
qed

lemma contact_entry_read:
  assumes "at b BIG (enc_sbl_contact k c BIG @ r)" and "length (getAlias c) < 65000"
    and "sbl_ok s" and "m_group_id c \<in> fst ` set (sbl_view s)"
  shows "\<exists>s' b'. parse_sbl_entry cap0 rnd indet s b = Some (Inr (s', b')) \<and> at b' BIG r \<and> sbl_ok s' \<and>
    sbl_view s' = map (\<lambda>(i, n, m). (i, n, if i = m_group_id c then view_add i (m_uin c) (getAlias c) m else m)) (sbl_view s)"
proof -
  have "at b BIG (enc_string BIG (getStringUIN c) @ enc16 BIG (m_group_id c) @ enc16 BIG (getServerSideID k c) @ enc16 BIG 0 @
      enc16 BIG (word_of_nat (length (enc_sbl_tlvs c BIG))) @ enc_sbl_tlvs c BIG @ r)"
    using assms(1) by (simp add: enc_sbl_contact_def)
  moreover have "length (getStringUIN c) < 65536"
    using length_UINtoString [of "m_uin c"] by (simp add: getStringUIN_def)
  ultimately obtain b1 where b1: "at b1 BIG (enc_sbl_tlvs c BIG @ r)" "parse_sbl_entry cap0 rnd indet s b =
    andThenO (ParseByLength cap0 TLV_ParseMode_SBL (ucast (word_of_nat (length (enc_sbl_tlvs c BIG)) :: u16)) (\<lambda>_. None) b1) (\<lambda>(m, b).
    andThenO (sbl_entry rnd indet (getStringUIN c) (m_group_id c) 0 m s) (\<lambda>s. Some (Inr (s, b))))"
    using entry_head by blast
  obtain m b2 where m: "ParseByLength cap0 TLV_ParseMode_SBL (ucast (word_of_nat (length (enc_sbl_tlvs c BIG)) :: u16)) (\<lambda>_. None) b1 =
      Some (Inr (m, b2))" "at b2 BIG r" "m TLV_SBL_Nick = Some (Some (SBLNickTLV (getAlias c)))" "m TLV_SBL_SMS_No = None"
    using sbl_block_read [OF b1(1) assms(2)] by blast
  let ?c = "fst (setAlias (getAlias c) (uin_contact (indet (sl_next s)) (m_uin c)))"
  have "sbl_contact (indet (sl_next s)) (getStringUIN c) m = Inr ?c"
    using m(3,4) by (simp add: sbl_contact_def tlv_value_def tlv_exists_def tlv_cast_def tlv_index_def as_SBLNick_def
        value_or_def getStringUIN_def uin_string_roundtrip Let_def)
  moreover have "m_uin ?c = m_uin c" "getAlias ?c = getAlias c"
    by (simp_all add: setAlias_def userinfo_change_emit_def upd_info_def getAlias_def uin_contact_def Init_def)
  ultimately show ?thesis
    using add_contact_view [OF assms(3,4), of rnd ?c] b1(2) m(1,2) by (auto simp: sbl_entry_def Entry_UIN_def cong: if_cong)
qed

text \<open>What the server was told to hold: for each group, the contacts that name it, the first entry of a UIN counting.\<close>

definition told :: "contact_store \<Rightarrow> contact_ref list \<Rightarrow> u16 \<Rightarrow> (u32 \<rightharpoonup> string)" where
  "told h rs i = map_of (map (\<lambda>r. (m_uin (h r), getAlias (h r))) (filter (\<lambda>r. m_group_id (h r) = i) rs))"

lemma told_add: "told h (rs @ [r]) i =
    (if i = m_group_id (h r) then view_add i (m_uin (h r)) (getAlias (h r)) (told h rs i) else told h rs i)"
  by (auto simp: told_def view_add_def map_add_def fun_eq_iff split: option.splits)

definition told_view :: "contact_store \<Rightarrow> (string \<times> u16) list \<Rightarrow> contact_ref list \<Rightarrow> (u16 \<times> string \<times> (u32 \<rightharpoonup> string)) list" where
  "told_view h gs rs = map (\<lambda>(n, i). (i, n, told h rs i)) gs"

lemma groups_read:
  assumes "distinct (map snd (ps @ gs))" and "\<forall>(n, i)\<in>set gs. length n < 65536 \<and> i \<noteq> 0"
    and "at b BIG (concat (map (\<lambda>(n, i). enc_sbl_group n i BIG) gs) @ r)" and "sbl_ok s" and "sbl_view s = told_view h ps []"
  shows "\<exists>s' b'. parse_sbl_entries cap0 rnd indet (length gs + k) s b = parse_sbl_entries cap0 rnd indet k s' b' \<and>
    at b' BIG r \<and> sbl_ok s' \<and> sbl_view s' = told_view h (ps @ gs) []"
  using assms
proof (induction gs arbitrary: ps b s)
  case Nil
  then show ?case by auto
next
  case (Cons g gs)
  obtain n i where g: "g = (n, i)" by (cases g)
  have "i \<notin> fst ` set (sbl_view s)"
    using Cons.prems(1,5) g by (force simp: told_view_def)
  then obtain s1 b1 where 1: "parse_sbl_entry cap0 rnd indet s b = Some (Inr (s1, b1))"
    "at b1 BIG (concat (map (\<lambda>(n, i). enc_sbl_group n i BIG) gs) @ r)" "sbl_ok s1" "sbl_view s1 = sbl_view s @ [(i, n, \<lambda>_. None)]"
    using group_entry_read [of b n i "concat (map (\<lambda>(n, i). enc_sbl_group n i BIG) gs) @ r" s cap0 rnd indet] Cons.prems g by auto
  have "sbl_view s1 = told_view h (ps @ [g]) []"
    using 1(4) Cons.prems(5) g by (simp add: told_view_def told_def)
  then show ?case
    using Cons.IH [of "ps @ [g]" b1 s1] Cons.prems 1 by auto
qed

lemma contacts_read:
  assumes "\<forall>r\<in>set rs. length (getAlias (h r)) < 65000 \<and> m_group_id (h r) \<in> snd ` set gs"
    and "at b BIG (enc_sbl_contacts h rnd' k rs BIG @ x)" and "sbl_ok s" and "sbl_view s = told_view h gs ps"
  shows "\<exists>s' b'. parse_sbl_entries cap0 rnd indet (length rs) s b = Some (Inr (s', b')) \<and>
    at b' BIG x \<and> sbl_view s' = told_view h gs (ps @ rs)"
  using assms
proof (induction rs arbitrary: k ps b s)
  case Nil
  then show ?case by auto
next
  case (Cons r rs)
  have "m_group_id (h r) \<in> fst ` set (sbl_view s)"
    using Cons.prems(1,4) by (force simp: told_view_def)
  then obtain s1 b1 where 1: "parse_sbl_entry cap0 rnd indet s b = Some (Inr (s1, b1))"
    "at b1 BIG (enc_sbl_contacts h rnd' (Suc k) rs BIG @ x)" "sbl_ok s1"
    "sbl_view s1 = map (\<lambda>(i, n, m). (i, n, if i = m_group_id (h r) then view_add i (m_uin (h r)) (getAlias (h r)) m else m)) (sbl_view s)"
    using contact_entry_read [of b "rnd' k" "h r" "enc_sbl_contacts h rnd' (Suc k) rs BIG @ x" s cap0 rnd indet] Cons.prems
    by (auto simp del: split_paired_Ex)
  have "sbl_view s1 = told_view h gs (ps @ [r])"
    using 1(4) Cons.prems(4) by (auto simp: told_view_def told_add)
  then show ?case
    using Cons.IH [of b1 "Suc k" s1 "ps @ [r]"] Cons.prems 1 by auto
qed

text \<open>C31: The list the server keeps round-trips: when the server sends back the groups and the contacts
  that were added by SBLAddEntrySNAC, the tree built by SBLListSNAC has these groups with their ids
  and labels, in this order, and under each group its contacts with their UINs and aliases.\<close>

theorem server_list_roundtrip:
  assumes "distinct (map snd gs)" and "\<forall>(n, i)\<in>set gs. length n < 65536 \<and> i \<noteq> 0"
    and "\<forall>r\<in>set rs. length (getAlias (h r)) < 65000 \<and> m_group_id (h r) \<in> snd ` set gs"
    and "length gs + length rs < 65536" and "length ts = 4"
    and "SBLAddEntrySNAC_OutputBody h rnd \<lparr>sc_group_name = [], sc_buddy_list = rs, sc_group_id = 0\<rparr> new_buffer = Inr cs"
    and "gb = concat (map (\<lambda>(n, i). m_data (put_sbl_group n i new_buffer)) gs)"
    and "length gb < 2 ^ 29" and "length (enc_sbl_contacts h rnd 0 rs BIG) < 2 ^ 29"
  shows "\<exists>s' b'. SBLListSNAC_ParseBody cap0 rnd' indet s
      (buffer_of_bytes (0 # enc16 BIG (word_of_nat (length gs + length rs)) @ gb @ m_data cs @ ts)) =
      Some (Inr ((word_of_nat (length gs + length rs), s'), b')) \<and>
    sbl_view s' = map (\<lambda>(n, i). (i, n, told h rs i)) gs"
proof -
  let ?w = "word_of_nat (length gs + length rs) :: u16" and ?g = "concat (map (\<lambda>(n, i). enc_sbl_group n i BIG) gs)"
  let ?c = "enc_sbl_contacts h rnd 0 rs BIG" and ?s = "s\<lparr>sl_tree := new_contact_tree\<rparr>"
  have gb: "gb = ?g"
    unfolding assms(7) by (intro arg_cong [where f = concat] map_cong) (auto simp: put_sbl_group_app)
  have cs: "m_data cs = ?c"
    using assms(6,9) put_sbl_contacts_app [of new_buffer h rnd 0 rs] by (auto simp: SBLAddEntrySNAC_OutputBody_def)
  let ?b = "buffer_of_bytes (0 # enc16 BIG ?w @ ?g @ ?c @ ts)"
  have "length (0 # enc16 BIG ?w @ ?g @ ?c @ ts) < 2 ^ 31"
    using assms(5,8,9) gb by simp
  from rd_u8(2) [OF at_big [OF this]] have 1: "at (advance 1 ?b) BIG (enc16 BIG ?w @ ?g @ ?c @ ts)"
    by simp
  note 2 = rd_u16 [OF 1]
  obtain s1 b1 where 3: "parse_sbl_entries cap0 rnd' indet (length gs + length rs) ?s (advance 2 (advance 1 ?b)) =
      parse_sbl_entries cap0 rnd' indet (length rs) s1 b1" "at b1 BIG (?c @ ts)" "sbl_ok s1" "sbl_view s1 = told_view h gs []"
    using groups_read [of "[]" gs _ _ ?s h cap0 rnd' indet "length rs"] assms(1,2) 2(2)
    by (fastforce simp: sbl_ok_def new_contact_tree_def sbl_view_def told_view_def)
  obtain s2 b2 where "parse_sbl_entries cap0 rnd' indet (length rs) s1 b1 = Some (Inr (s2, b2))" "sbl_view s2 = told_view h gs rs"
    using contacts_read [OF assms(3) 3(2-4), of cap0 rnd' indet] by auto
  moreover have "unat ?w = length gs + length rs"
    using assms(4) unat_of_nat_u16 [of "length gs + length rs"] by simp
  ultimately show ?thesis
    unfolding gb cs using 2(1) 3(1) by (simp add: SBLListSNAC_ParseBody_def told_view_def del: of_nat_add)
qed

definition no_list :: sbl_list where
  "no_list = \<lparr>sl_tree = new_contact_tree, sl_store = \<lambda>_. uin_contact True 0, sl_next = 0, sl_draws = 0\<rparr>"

theorem server_list_roundtrip_witness:
  "\<exists>cs s' b'. SBLAddEntrySNAC_OutputBody (\<lambda>_. sample_buddy 3 12 ''ann'') (\<lambda>_. 0)
      \<lparr>sc_group_name = [], sc_buddy_list = [7], sc_group_id = 0\<rparr> new_buffer = Inr cs \<and>
    SBLListSNAC_ParseBody [] (\<lambda>_. 0) (\<lambda>_. True) no_list
      (buffer_of_bytes (0 # enc16 BIG 2 @ m_data (put_sbl_group ''friends'' 3 new_buffer) @ m_data cs @ [0, 0, 0, 0])) =
      Some (Inr ((2, s'), b')) \<and>
    sbl_view s' = [(3, ''friends'', [12 \<mapsto> ''ann''])]"
proof -
  let ?h = "\<lambda>_ :: contact_ref. sample_buddy 3 12 ''ann''" and ?s = "\<lparr>sc_group_name = [], sc_buddy_list = [7], sc_group_id = 0\<rparr>"
  have a: "getAlias (sample_buddy 3 12 ''ann'') = ''ann''" "m_group_id (sample_buddy 3 12 ''ann'') = 3"
    "m_uin (sample_buddy 3 12 ''ann'') = 12"
    by (simp_all add: sample_buddy_def setAlias_def userinfo_change_emit_def upd_info_def getAlias_def uin_contact_def Init_def)
  have n: "length (getStringUIN (sample_buddy 3 12 ''ann'')) \<le> 10"
    using length_UINtoString by (simp add: getStringUIN_def)
  then have l: "length (enc_sbl_contacts ?h (\<lambda>_. 0) 0 [7] BIG) < 2 ^ 29"
    by (simp add: enc_sbl_contact_def enc_sbl_tlvs_def a enc_string_def)
  define cs where "cs = app (enc_sbl_contacts ?h (\<lambda>_. 0) 0 [7] BIG) new_buffer"
  have cs: "SBLAddEntrySNAC_OutputBody ?h (\<lambda>_. 0) ?s new_buffer = Inr cs"
    using l put_sbl_contacts_app [of new_buffer ?h "\<lambda>_. 0" 0 "[7]"] by (simp add: SBLAddEntrySNAC_OutputBody_def cs_def)
  show ?thesis
    using server_list_roundtrip [of "[(''friends'', 3)]" "[7]" ?h "[0, 0, 0, 0]" "\<lambda>_. 0" cs _ "[]" "\<lambda>_. 0" "\<lambda>_. True" no_list] cs l
    by (simp add: a put_sbl_group_app enc_sbl_group_def told_def)
qed

section \<open>Every list is read to its end\<close>

lemma parse_until_where:
  assumes pm: "plain_mode pm" and e: "unat stop + 65539 < 2 ^ 32"
  shows "length (m_data b) < 2 ^ 32 \<Longrightarrow> well_typed pm m \<Longrightarrow>
    (\<exists>m' b'. parse_until cap0 pm stop m b = Some (Inr (m', b')) \<and> m_data b' = m_data b \<and>
       unat (m_out_pos b') \<le> max (unat (m_out_pos b)) (unat stop + 65539) \<and> well_typed pm m') \<or>
    (\<exists>msg. parse_until cap0 pm stop m b = Some (Inl (ParseException msg)))"
proof (induction "unat stop - unat (m_out_pos b)" arbitrary: m b rule: less_induct)
  case less
  show ?case
  proof (cases "m_out_pos b < stop")
    case True
    then have lt: "unat (m_out_pos b) < unat stop"
      by (simp add: word_less_nat_alt)
    then have pos: "unat (m_out_pos b) + 65539 < 2 ^ 32"
      using e by simp
    from boundedD [OF bounded_ParseTLV [OF pm, of cap0] pos less.prems(1)]
    consider (ok) t b' where "ParseTLV cap0 pm b = Inr (t, b')" "step_within 65539 b b'"
      | (error) msg where "ParseTLV cap0 pm b = Inl (ParseException msg)"
      by auto
    then show ?thesis
    proof cases
      case ok
      have d: "unat stop - unat (m_out_pos b') < unat stop - unat (m_out_pos b)"
        using ParseTLV_progress [OF pm pos less.prems(1) ok(1)] lt by linarith
      have b': "length (m_data b') < 2 ^ 32" "m_data b' = m_data b" "unat (m_out_pos b') \<le> unat stop + 65539"
        using ok(2) less.prems(1) lt by (simp_all add: step_within_def)
      have "max (unat (m_out_pos b')) (unat stop + 65539) \<le> max (unat (m_out_pos b)) (unat stop + 65539)"
        using b'(3) by simp
      then show ?thesis
        using less.hyps [OF d b'(1) well_typed_upd [OF less.prems(2) ok(1)]] b'(2)
        unfolding parse_until_step [OF True ok(1)] by force
    qed (use True in \<open>simp add: parse_until.simps\<close>)
  next
    case False
    then show ?thesis
      using less.prems by (simp add: parse_until.simps)
  qed
qed

lemma sbl_contact_total: "well_typed TLV_ParseMode_SBL m \<Longrightarrow> \<exists>c. sbl_contact indet name m = Inr c"
proof -
  assume w: "well_typed TLV_ParseMode_SBL m"
  obtain v1 v2 where "tlv_value as_SBLNick TLV_SBL_Nick m = Inr v1" "tlv_value as_SBLSMSNo TLV_SBL_SMS_No m = Inr v2"
    using tlv_value_typed [OF w, of TLV_SBL_Nick as_SBLNick] tlv_value_typed [OF w, of TLV_SBL_SMS_No as_SBLSMSNo]
    by (force simp: new_tlv_def tlv_types tlv_class_def as_SBLNick_def as_SBLSMSNo_def split: in_tlv.splits)
  then show ?thesis
    by (simp add: sbl_contact_def Let_def)
qed

text \<open>Drawing random ids, each id comes up again and again.\<close>

definition fair :: "(nat \<Rightarrow> u16) \<Rightarrow> bool" where
  "fair rnd \<longleftrightarrow> (\<forall>i n. \<exists>k. rnd (n + k) = i)"

lemma add_group_total:
  assumes "fair rnd" and "length (m_groups t) < 65536"
  shows "\<exists>i t' evs n'. add_group_id l gid rnd n t = Some ((i, t', evs), n') \<and> length (m_groups t') = Suc (length (m_groups t))"
proof -
  have "card (set (map m_id (m_groups t))) < card (UNIV :: u16 set)"
    using assms(2) card_length [of "map m_id (m_groups t)"] by (simp add: card_word)
  then have "set (map m_id (m_groups t)) \<noteq> (UNIV :: u16 set)"
    by auto
  then obtain i where "i \<notin> set (map m_id (m_groups t))"
    by blast
  then have "\<not> exists_group i t"
    by (auto simp: exists_group_def list_ex_iff)
  moreover obtain k where "rnd (n + k) = i"
    using assms(1) by (auto simp: fair_def)
  ultimately have "get_unique_group_id t rnd n \<noteq> None"
    using unique_group_id_returns by blast
  then show ?thesis
    by (auto simp: add_group_id_def push_group_def)
qed

lemma sbl_entry_total:
  assumes "fair rnd" and "length (m_groups (sl_tree s)) < 65536" and "well_typed TLV_ParseMode_SBL m"
  shows "(\<exists>s'. sbl_entry rnd indet name gid ty m s = Some (Inr s') \<and>
      length (m_groups (sl_tree s')) \<le> Suc (length (m_groups (sl_tree s)))) \<or>
    (\<exists>msg. sbl_entry rnd indet name gid ty m s = Some (Inl (ParseException msg)))"
proof -
  obtain c where c: "sbl_contact (indet (sl_next s)) name m = Inr c"
    using sbl_contact_total [OF assms(3)] by blast
  have "group_pos p gs = None \<longleftrightarrow> \<not> list_ex p gs" for p and gs :: "group list"
    by (induction gs) auto
  then have "exists_group gid (sl_tree s) \<Longrightarrow> \<exists>i. group_pos (\<lambda>g. m_id g = gid) (m_groups (sl_tree s)) = Some i"
    by (auto simp: exists_group_def)
  then show ?thesis
    using c add_group_total [OF assms(1,2), of name gid "sl_draws s"]
    by (auto simp: sbl_entry_def sbl_add_contact_def sbl_add_group_def lookup_group_def lookup_group_by_def Let_def
        upd_group_def)
qed

text \<open>Behind the end of the packet an entry is ten bytes of zeros.\<close>

lemma entry_behind:
  assumes "length (m_data b) \<le> unat (m_out_pos b)" and "unat (m_out_pos b) + 10 < 2 ^ 32"
  shows "parse_sbl_entry cap0 rnd indet s b = andThenO (sbl_entry rnd indet [] 0 0 (\<lambda>_. None) s) (\<lambda>s. Some (Inr (s, advance 10 b)))"
proof -
  have z: "get_u16 c = Inr (0, advance 2 c)" if "length (m_data c) \<le> unat (m_out_pos c)" "unat (m_out_pos c) + 2 < 2 ^ 32" for c
    using that unat_plus_u32 [of "m_out_pos c" 2] by (simp add: get_u16_def)
  have "get_string [] b = Inr ([], advance 2 b)"
    using assms unat_plus_u32 [of "m_out_pos b" 2] by (simp add: get_string_def)
  moreover have "unat (m_out_pos b + 2) = unat (m_out_pos b) + 2" "unat (m_out_pos b + 4) = unat (m_out_pos b) + 4"
    "unat (m_out_pos b + 6) = unat (m_out_pos b) + 6" "unat (m_out_pos b + 8) = unat (m_out_pos b) + 8"
    using assms(2) by (simp_all add: unat_plus_u32)
  ultimately show ?thesis
    using assms by (simp add: parse_sbl_entry_def z advance_advance ParseByLength_def parse_until.simps)
qed

lemma entry_head_bounded:
  "bounded 65545 (\<lambda>b. andThen (get_string [] b) (\<lambda>(name, b). andThen (get_u16 b) (\<lambda>(group_id, b).
     andThen (get_u16 b) (\<lambda>(tag_id, b). andThen (get_u16 b) (\<lambda>(type, b).
     andThen (get_u16 b) (\<lambda>(len, b). Inr ((name, group_id, type, len), b)))))))"
proof -
  have "bounded (65537 + (2 + (2 + (2 + (2 + 0))))) (\<lambda>b. andThen (get_string [] b) (\<lambda>(name, b). andThen (get_u16 b) (\<lambda>(group_id, b).
     andThen (get_u16 b) (\<lambda>(tag_id, b). andThen (get_u16 b) (\<lambda>(type, b).
     andThen (get_u16 b) (\<lambda>(len, b). Inr ((name, group_id, type, len), b)))))))"
    by (intro bounded_bind bounded_get_u16 bounded_mono [OF bounded_get_string] bounded_return) simp_all
  then show ?thesis by simp
qed

lemma parse_sbl_entry_total:
  assumes "fair rnd" and "length (m_groups (sl_tree s)) < 65536" and "length (m_data b) < 2 ^ 31"
    and "unat (m_out_pos b) \<le> length (m_data b) + 200000 + 10 * j" and "j < 65536"
  shows "(\<exists>s' b'. parse_sbl_entry cap0 rnd indet s b = Some (Inr (s', b')) \<and> m_data b' = m_data b \<and>
      length (m_groups (sl_tree s')) \<le> Suc (length (m_groups (sl_tree s))) \<and>
      unat (m_out_pos b') \<le> length (m_data b) + 200000 + 10 * Suc j) \<or>
    (\<exists>msg. parse_sbl_entry cap0 rnd indet s b = Some (Inl (ParseException msg)))"
proof (cases "length (m_data b) \<le> unat (m_out_pos b)")
  case True
  have "unat (m_out_pos b) + 10 < 2 ^ 32"
    using assms(3-5) by simp
  then show ?thesis
    using entry_behind [OF True] sbl_entry_total [OF assms(1,2) well_typed_empty, of indet "[]" 0 0] assms(4)
      unat_plus_u32 [of "m_out_pos b" 10] by auto
next
  case False
  then have "unat (m_out_pos b) + 65545 < 2 ^ 32" "length (m_data b) < 2 ^ 32"
    using assms(3) by simp_all
  from boundedD [OF entry_head_bounded this]
  consider (ok) name gid ty len b1 where "andThen (get_string [] b) (\<lambda>(name, b). andThen (get_u16 b) (\<lambda>(group_id, b).
     andThen (get_u16 b) (\<lambda>(tag_id, b). andThen (get_u16 b) (\<lambda>(type, b).
     andThen (get_u16 b) (\<lambda>(len, b). Inr ((name, group_id, type, len), b)))))) = Inr ((name, gid, ty, len), b1)" "step_within 65545 b b1"
    | (error) msg where "andThen (get_string [] b) (\<lambda>(name, b). andThen (get_u16 b) (\<lambda>(group_id, b).
     andThen (get_u16 b) (\<lambda>(tag_id, b). andThen (get_u16 b) (\<lambda>(type, b).
     andThen (get_u16 b) (\<lambda>(len, b). Inr ((name, group_id, type, len), b)))))) = Inl (ParseException msg)"
    by auto
  then show ?thesis
  proof cases
    case ok
    have h: "parse_sbl_entry cap0 rnd indet s b = andThenO (ParseByLength cap0 TLV_ParseMode_SBL (ucast len) (\<lambda>_. None) b1) (\<lambda>(m, b).
      andThenO (sbl_entry rnd indet name gid ty m s) (\<lambda>s. Some (Inr (s, b))))"
      using ok(1) by (auto simp: parse_sbl_entry_def andThen_eq_Inr)
    have p: "unat (m_out_pos b1) \<le> unat (m_out_pos b) + 65545" "m_data b1 = m_data b"
      using ok(2) by (simp_all add: step_within_def)
    moreover have "unat (ucast len :: u32) \<le> 65535"
      using unat_u16_le [of len] by (simp add: unat_ucast_up)
    ultimately have "unat (m_out_pos b1 + ucast len) \<le> unat (m_out_pos b) + 131080"
      using False assms(3) unat_plus_u32 [of "m_out_pos b1" "ucast len"] by simp
    then have stop: "unat (m_out_pos b1 + ucast len) + 65539 \<le> length (m_data b) + 200000"
      using False by simp
    have "unat (m_out_pos b1 + ucast len) + 65539 < 2 ^ 32" "length (m_data b1) < 2 ^ 32"
      using stop assms(3) p(2) by simp_all
    from parse_until_where [OF _ this well_typed_empty, of TLV_ParseMode_SBL cap0] p stop False
    show ?thesis
      unfolding h ParseByLength_def
      using sbl_entry_total [OF assms(1,2), of _ indet name gid ty]
      by (fastforce simp: plain_mode_def)
  next
    case error
    then show ?thesis
      by (auto simp: parse_sbl_entry_def andThen_def split: sum.splits prod.splits)
  qed
qed

lemma server_list_total:
  assumes "fair rnd" and "length (m_data b) < 2 ^ 31 - 1" and "unat (m_out_pos b) \<le> length (m_data b)"
  shows "\<exists>r. SBLListSNAC_ParseBody cap0 rnd indet s b = Some r \<and>
    (isl r \<longrightarrow> (\<exists>msg. r = Inl (ParseException msg)))"
proof -
  have loop: "(\<exists>s' b'. parse_sbl_entries cap0 rnd indet k s b = Some (Inr (s', b'))) \<or>
      (\<exists>msg. parse_sbl_entries cap0 rnd indet k s b = Some (Inl (ParseException msg)))"
    if "j + k \<le> 65535" "length (m_groups (sl_tree s)) \<le> j" "length (m_data b) < 2 ^ 31"
      "unat (m_out_pos b) \<le> length (m_data b) + 200000 + 10 * j" for k j s b
    using that
  proof (induction k arbitrary: j s b)
    case (Suc k)
    have "length (m_groups (sl_tree s)) < 65536" "j < 65536"
      using Suc.prems by simp_all
    from parse_sbl_entry_total [OF assms(1) this(1) Suc.prems(3,4) this(2), of cap0 indet]
    consider (ok) s' b' where "parse_sbl_entry cap0 rnd indet s b = Some (Inr (s', b'))" "m_data b' = m_data b"
        "length (m_groups (sl_tree s')) \<le> Suc (length (m_groups (sl_tree s)))"
        "unat (m_out_pos b') \<le> length (m_data b) + 200000 + 10 * Suc j"
      | (error) msg where "parse_sbl_entry cap0 rnd indet s b = Some (Inl (ParseException msg))"
      by blast
    then show ?case
    proof cases
      case ok
      then show ?thesis
        using Suc.IH [of "Suc j" s' b'] Suc.prems by simp
    qed simp
  qed simp
  obtain size b1 where 1: "get_u16 (advance 1 b) = Inr (size, b1)" "step_within 2 (advance 1 b) b1"
  proof -
    have "unat (m_out_pos (advance 1 b)) + 2 < 2 ^ 32" "length (m_data (advance 1 b)) < 2 ^ 32"
      using assms(2,3) unat_plus_u32 [of "m_out_pos b" 1] by simp_all
    then show thesis
      using boundedD [OF bounded_get_u16] no_throw_get_u16 that by fastforce
  qed
  have "unat (m_out_pos b1) \<le> length (m_data b1) + 200000 + 10 * 0" "length (m_data b1) < 2 ^ 31"
    using 1(2) assms(2,3) unat_plus_u32 [of "m_out_pos b" 1] by (simp_all add: step_within_def)
  moreover have "unat size \<le> 65535"
    using unat_u16_le [of size] by simp
  ultimately show ?thesis
    using loop [of 0 "unat size" "s\<lparr>sl_tree := new_contact_tree\<rparr>" b1] 1(1)
    by (auto simp: SBLListSNAC_ParseBody_def new_contact_tree_def)
qed

text \<open>Whatever bytes the server sends as the list, SBLListSNAC reads it to its end: with random ids
  that come up again and again, parsing terminates, within the packet, with a list or a parse
  exception, even when the number of entries is far beyond what the packet holds.\<close>

theorem server_list_terminates:
  assumes "fair rnd" and "length (m_data b) < 2 ^ 31 - 1" and "unat (m_out_pos b) \<le> length (m_data b)"
  shows "\<exists>r. SBLListSNAC_ParseBody cap0 rnd indet s b = Some r \<and>
    (isl r \<longrightarrow> (\<exists>msg. r = Inl (ParseException msg)))"
  using server_list_total [OF assms] .

lemma fair_mod: "fair (\<lambda>n. word_of_nat n)"
  unfolding fair_def
proof (intro allI)
  fix i :: u16 and n
  have "word_of_nat (n + (unat (i - word_of_nat n))) = i"
    by (simp add: ac_simps)
  then show "\<exists>k. word_of_nat (n + k) = i" ..
qed

theorem server_list_terminates_witness:
  "SBLListSNAC_ParseBody [] (\<lambda>n. word_of_nat n) (\<lambda>_. True) no_list (buffer_of_bytes [0, 255, 255, 0, 1, 65]) \<noteq> None"
  using server_list_terminates [OF fair_mod, of "buffer_of_bytes [0, 255, 255, 0, 1, 65]" "[]" "\<lambda>_. True" no_list]
  by (auto simp: buffer_of_bytes_def)

end
