(* ===== verification/SnacSrv.thy ===== *)
theory SnacSrv
  imports SnacMsg Xml "HOL-Library.Signed_Division"
begin

text \<open>
  The family of SNACs of messages to and from the ICQ server itself: \<^verbatim>\<open>src/SNAC-SRV.h\<close>,
  \<^verbatim>\<open>src/SNAC-SRV.cpp\<close> and the conversion of times in \<^verbatim>\<open>src/time_extra.cpp\<close>. A request is a block
  with two length fields, the first in the byte order of the packet, the second little endian; the
  response SNAC carries everything the server answers, from offline messages to search results. What
  \<^verbatim>\<open>strftime\<close> makes of the current time is an argument.
\<close>

section \<open>Times\<close>

record tm =
  tm_sec :: int
  tm_min :: int
  tm_hour :: int
  tm_mday :: int
  tm_mon :: int
  tm_year :: int

definition month_days :: "int list" where
  "month_days = [0, 31, 59, 90, 120, 151, 181, 212, 243, 273, 304, 334]"

definition epoch :: int where
  "epoch = 1970"

definition gmt_mktime :: "tm \<Rightarrow> int result" where
  "gmt_mktime t =
     (let year = tm_year t + 1900 in
      if tm_mon t < 0 \<or> tm_mon t \<ge> 12 then Inl OutOfRange
      else
        (let day = month_days ! nat (tm_mon t) + tm_mday t - 1;
             day = day + (year - (epoch - epoch mod 4) - 1) sdiv 4;
             day = day - (year - (epoch - epoch mod 100)) sdiv 100;
             day = day + (year - (epoch - epoch mod 400)) sdiv 400;
             time = ((year - epoch) * 365 + day) * 24 + tm_hour t
         in Inr ((time * 60 + tm_min t) * 60 + tm_sec t)))"

section \<open>Requests\<close>

text \<open>
  The frame of a request: a type, the two length fields, the UIN of the user, the command, the low word of the
  request id and the subtype, then what \<open>fill\<close> writes.
\<close>

definition srv_frame :: "u32 \<Rightarrow> u32 \<Rightarrow> u16 \<Rightarrow> (buffer \<Rightarrow> buffer result) \<Rightarrow> buffer \<Rightarrow> buffer result" where
  "srv_frame uin request_id sub fill b =
     (let b = put_u16 0x0001 b;
          (m1, b) = getAutoSizeShortMarker b;
          b = setLittleEndian b;
          (m2, b) = getAutoSizeShortMarker b;
          b = put_u32 uin b;
          b = put_u16 sub (put_u16 (ucast request_id) (put_u16 2000 b))
      in andThen (fill b) (\<lambda>b. andThen (setAutoSizeMarker m1 b) (setAutoSizeMarker m2)))"

subsection \<open>Messages to mobile phones\<close>

definition srv_send_xml :: "string \<Rightarrow> string \<Rightarrow> u32 \<Rightarrow> string \<Rightarrow> bool \<Rightarrow> string \<Rightarrow> xml_node" where
  "srv_send_xml txt destination senders_UIN senders_name delivery_receipt timestr =
     fold (\<lambda>(t, v) x. pushnode x (new_XmlLeaf t v))
       [(''destination'', destination), (''text'', txt), (''codepage'', ''1252''),
        (''senders_UIN'', UINtoString senders_UIN), (''senders_name'', senders_name),
        (''delivery_receipt'', if delivery_receipt then ''Yes'' else ''No''), (''time'', timestr)]
       (new_XmlBranch ''icq_sms_message'' [])"

definition SrvSendSNAC_OutputBody ::
  "string \<Rightarrow> string \<Rightarrow> u32 \<Rightarrow> string \<Rightarrow> bool \<Rightarrow> string \<Rightarrow> u32 \<Rightarrow> buffer \<Rightarrow> buffer option" where
  "SrvSendSNAC_OutputBody txt destination senders_UIN senders_name delivery_receipt timestr request_id b =
     (case toString 0 (srv_send_xml txt destination senders_UIN senders_name delivery_receipt timestr) of
        None \<Rightarrow> None
      | Some xmlstr \<Rightarrow>
          (let b = put_u16 0x0001 b;
               b = put_u16 (word_of_nat (length xmlstr + 37)) b;
               b = setLittleEndian b;
               b = put_u16 (word_of_nat (length xmlstr + 35)) b;
               b = put_u32 senders_UIN b;
               b = put_u16 2000 b;
               b = put_u16 (ucast request_id) b;
               b = setBigEndian b;
               b = put_u16 0x8214 b;
               b = put_u16 0x0016 (put_u16 0x0001 b);
               b = fold put_u8 (replicate 16 0x00) b;
               b = put_u16 0x0000 b
           in Some (PackUint16StringNull xmlstr b)))"

subsection \<open>Offline messages\<close>

definition SrvOffline_OutputBody :: "u16 \<Rightarrow> u32 \<Rightarrow> u32 \<Rightarrow> buffer \<Rightarrow> buffer" where
  "SrvOffline_OutputBody command uin request_id b =
     (let b = put_u16 0x000a (put_u16 0x0001 b);
          b = setLittleEndian b;
          b = put_u16 0x0008 b;
          b = put_u32 uin b;
          b = put_u16 command b
      in put_u16 (ucast request_id) b)"

definition SrvRequestOfflineSNAC_OutputBody :: "u32 \<Rightarrow> u32 \<Rightarrow> buffer \<Rightarrow> buffer" where
  "SrvRequestOfflineSNAC_OutputBody = SrvOffline_OutputBody 60"

definition SrvAckOfflineSNAC_OutputBody :: "u32 \<Rightarrow> u32 \<Rightarrow> buffer \<Rightarrow> buffer" where
  "SrvAckOfflineSNAC_OutputBody = SrvOffline_OutputBody 62"

subsection \<open>User information and searches\<close>

definition SrvRequestUserInfo_OutputBody :: "u16 \<Rightarrow> u32 \<Rightarrow> u32 \<Rightarrow> u32 \<Rightarrow> buffer \<Rightarrow> buffer" where
  "SrvRequestUserInfo_OutputBody sub my_uin user_uin request_id b =
     (let b = put_u16 0x0010 (put_u16 0x0001 b);
          b = setLittleEndian b;
          b = put_u16 0x000e b;
          b = put_u32 my_uin b
      in put_u32 user_uin (put_u16 sub (put_u16 (ucast request_id) (put_u16 2000 b))))"

definition SrvRequestSimpleUserInfo_OutputBody :: "u32 \<Rightarrow> u32 \<Rightarrow> u32 \<Rightarrow> buffer \<Rightarrow> buffer" where
  "SrvRequestSimpleUserInfo_OutputBody = SrvRequestUserInfo_OutputBody 1311"

definition SrvRequestDetailUserInfo_OutputBody :: "u32 \<Rightarrow> u32 \<Rightarrow> u32 \<Rightarrow> buffer \<Rightarrow> buffer" where
  "SrvRequestDetailUserInfo_OutputBody = SrvRequestUserInfo_OutputBody 0x04b2"

definition SrvRequestShortWP_OutputBody ::
  "u32 \<Rightarrow> string \<Rightarrow> string \<Rightarrow> string \<Rightarrow> u32 \<Rightarrow> buffer \<Rightarrow> buffer result" where
  "SrvRequestShortWP_OutputBody my_uin nickname first last_name request_id =
     srv_frame my_uin request_id 0x0515 (\<lambda>b.
       Inr (fold PackUint16StringNull [first, last_name, nickname] b))"

record white_pages =
  wp_nickname :: string
  wp_firstname :: string
  wp_lastname :: string
  wp_email :: string
  wp_min_age :: u16
  wp_max_age :: u16
  wp_sex :: u8
  wp_language :: u8
  wp_city :: string
  wp_state :: string
  wp_company_name :: string
  wp_department :: string
  wp_position :: string
  wp_country :: u16
  wp_only_online :: bool

definition SrvRequestFullWP_OutputBody :: "u32 \<Rightarrow> white_pages \<Rightarrow> u32 \<Rightarrow> buffer \<Rightarrow> buffer result" where
  "SrvRequestFullWP_OutputBody my_uin w request_id =
     srv_frame my_uin request_id 0x0533 (\<lambda>b.
       let b = fold PackUint16StringNull [wp_firstname w, wp_lastname w, wp_nickname w, wp_email w] b;
           b = put_u16 (wp_max_age w) (put_u16 (wp_min_age w) b);
           b = put_u8 (wp_language w) (put_u8 (wp_sex w) b);
           b = fold PackUint16StringNull [wp_city w, wp_state w] b;
           b = put_u16 (wp_country w) b;
           b = fold PackUint16StringNull [wp_company_name w, wp_department w, wp_position w] b;
           b = put_u8 0x00 b;
           b = PackUint16StringNull '''' (put_u16 0x0000 b);
           b = PackUint16StringNull '''' (put_u16 0x0000 b);
           b = PackUint16StringNull '''' (put_u16 0x0000 b);
           b = PackUint16StringNull '''' (put_u16 0x0000 b)
       in Inr (put_u8 (if wp_only_online w then 0x01 else 0x00) b))"

definition SrvRequestKeywordSearch_OutputBody :: "u32 \<Rightarrow> string \<Rightarrow> u32 \<Rightarrow> buffer \<Rightarrow> buffer result" where
  "SrvRequestKeywordSearch_OutputBody my_uin keyword request_id =
     srv_frame my_uin request_id 0x055F (\<lambda>b.
       let b = put_u16 0x0226 b;
           (m3, b) = getAutoSizeShortMarker b;
           b = PackUint16StringNull keyword b
       in setAutoSizeMarker m3 b)"

subsection \<open>Changing one's own information\<close>

text \<open>
  An enumeration and a \<^verbatim>\<open>char\<close> promote to \<^verbatim>\<open>int\<close>, so \<^verbatim>\<open>operator<<\<close> writes four bytes for them.
\<close>

definition put_int :: "int \<Rightarrow> buffer \<Rightarrow> buffer" where
  "put_int i b = put_u32 (word_of_int i) b"

definition SrvUpdateMainHomeInfo_OutputBody :: "u32 \<Rightarrow> main_home_info \<Rightarrow> u32 \<Rightarrow> buffer \<Rightarrow> buffer result" where
  "SrvUpdateMainHomeInfo_OutputBody my_uin i request_id =
     srv_frame my_uin request_id 0x03ea (\<lambda>b.
       let b = fold PackUint16StringNull [home_alias i, firstname i, lastname i, email i, home_city i,
                 home_state i, phone i, fax i, home_street i, cellular i, home_zip i] b;
           b = put_int (home_country i) b;
           b = put_int (timezone i) b
       in Inr (put_u8 0 b))"

definition SrvUpdateWorkInfo_OutputBody :: "u32 \<Rightarrow> work_info \<Rightarrow> u32 \<Rightarrow> buffer \<Rightarrow> buffer result" where
  "SrvUpdateWorkInfo_OutputBody my_uin i request_id =
     srv_frame my_uin request_id 0x03f3 (\<lambda>b.
       let b = fold PackUint16StringNull [work_city i, work_state i] b;
           b = put_u16 0x0000 (put_u16 0x0000 b);
           b = fold PackUint16StringNull [work_street i, work_zip i] b;
           b = put_u16 (work_country i) b;
           b = fold PackUint16StringNull [company_name i, company_dept i, company_position i] b;
           b = put_u16 0x0000 b
       in Inr (PackUint16StringNull (company_web i) b))"

definition SrvUpdateHomepageInfo_OutputBody :: "u32 \<Rightarrow> homepage_info \<Rightarrow> u32 \<Rightarrow> buffer \<Rightarrow> buffer result" where
  "SrvUpdateHomepageInfo_OutputBody my_uin i request_id =
     srv_frame my_uin request_id 0x03fd (\<lambda>b.
       let b = put_u8 (word_of_int (sex i)) (put_u8 0x00 (put_u8 (age i) b));
           b = PackUint16StringNull (homepage i) b;
           b = put_u16 (birth_year i) b;
           b = put_u8 (birth_day i) (put_u8 (birth_month i) b)
       in Inr (fold put_u8 [word_of_int (lang1 i), word_of_int (lang2 i), word_of_int (lang3 i)] b))"

definition SrvUpdateAboutInfo_OutputBody :: "u32 \<Rightarrow> string \<Rightarrow> u32 \<Rightarrow> buffer \<Rightarrow> buffer result" where
  "SrvUpdateAboutInfo_OutputBody my_uin about request_id =
     srv_frame my_uin request_id 0x0406 (\<lambda>b. Inr (PackUint16StringNull about b))"

subsection \<open>Random chat\<close>

definition SrvRequestRandomChat_OutputBody :: "u32 \<Rightarrow> u16 \<Rightarrow> u32 \<Rightarrow> buffer \<Rightarrow> buffer result" where
  "SrvRequestRandomChat_OutputBody my_uin random_group request_id =
     srv_frame my_uin request_id 0x074E (\<lambda>b. Inr (put_u16 random_group b))"

definition SrvSetRandomChatGroup_OutputBody :: "u32 \<Rightarrow> u16 \<Rightarrow> u32 \<Rightarrow> buffer \<Rightarrow> buffer result" where
  "SrvSetRandomChatGroup_OutputBody my_uin random_group request_id =
     srv_frame my_uin request_id 0x0758 (\<lambda>b.
       let b = put_u16 random_group b;
           b = put_u16 0x0220 (put_u16 0x0000 b);
           b = fold put_u16 (replicate 6 0x0000) b;
           b = put_int 0x0 b;
           b = fold put_u16 (replicate 3 0x0000) b;
           b = put_int 0x50 b;
           b = fold put_int (replicate 3 0x0) b;
           b = put_int 0x03 b
       in Inr (fold put_int (replicate 3 0x0) b))"

section \<open>Responses\<close>

datatype response_type =
    OfflineMessage | OfflineMessagesComplete | SMS_Error | SMS_Response | SimpleUserInfo
  | SearchSimpleUserInfo | RMainHomeInfo | RHomepageInfo | REmailInfo | RUnknown | RWorkInfo
  | RAboutInfo | RInterestInfo | RBackgroundInfo | AckMainHomeInfoChange | AckHomepageInfoChange
  | AckWorkInfoChange | AckAboutInfoChange | RandomChatFound | RandomGroupSet

definition SrvResponse_Error :: u16 where "SrvResponse_Error = 0x0001"
definition SrvResponse_AckMainHomeInfoChange :: u16 where "SrvResponse_AckMainHomeInfoChange = 0x0064"
definition SrvResponse_AckWorkInfoChange :: u16 where "SrvResponse_AckWorkInfoChange = 0x006E"
definition SrvResponse_AckHomepageInfoChange :: u16 where "SrvResponse_AckHomepageInfoChange = 0x0078"
definition SrvResponse_AckAboutInfoChange :: u16 where "SrvResponse_AckAboutInfoChange = 0x0082"
definition SrvResponse_AckRandomGroupSet :: u16 where "SrvResponse_AckRandomGroupSet = 0x0370"
definition SrvResponse_SMS_Done :: u16 where "SrvResponse_SMS_Done = 0x0096"
definition SrvResponse_SimpleUI :: u16 where "SrvResponse_SimpleUI = 0x0190"
definition SrvResponse_SimpleUI_Done :: u16 where "SrvResponse_SimpleUI_Done = 0x019a"
definition SrvResponse_SearchUI :: u16 where "SrvResponse_SearchUI = 0x01a4"
definition SrvResponse_SearchUI_Done :: u16 where "SrvResponse_SearchUI_Done = 0x01ae"
definition SrvResponse_MainHomeInfo :: u16 where "SrvResponse_MainHomeInfo = 0x00c8"
definition SrvResponse_WorkInfo :: u16 where "SrvResponse_WorkInfo = 0x00d2"
definition SrvResponse_HomePageInfo :: u16 where "SrvResponse_HomePageInfo = 0x00dc"
definition SrvResponse_AboutInfo :: u16 where "SrvResponse_AboutInfo = 0x00e6"
definition SrvResponse_EmailInfo :: u16 where "SrvResponse_EmailInfo = 0x00eb"
definition SrvResponse_InterestInfo :: u16 where "SrvResponse_InterestInfo = 0x00f0"
definition SrvResponse_BackgroundInfo :: u16 where "SrvResponse_BackgroundInfo = 0x00fa"
definition SrvResponse_RandomChatFound :: u16 where "SrvResponse_RandomChatFound = 0x0366"
definition SrvResponse_Unknown :: u16 where "SrvResponse_Unknown = 0x010e"

lemmas SrvResponse_defs = SrvResponse_Error_def SrvResponse_AckMainHomeInfoChange_def
  SrvResponse_AckWorkInfoChange_def SrvResponse_AckHomepageInfoChange_def
  SrvResponse_AckAboutInfoChange_def SrvResponse_AckRandomGroupSet_def SrvResponse_SMS_Done_def
  SrvResponse_SimpleUI_def SrvResponse_SimpleUI_Done_def SrvResponse_SearchUI_def
  SrvResponse_SearchUI_Done_def SrvResponse_MainHomeInfo_def SrvResponse_WorkInfo_def
  SrvResponse_HomePageInfo_def SrvResponse_AboutInfo_def SrvResponse_EmailInfo_def
  SrvResponse_InterestInfo_def SrvResponse_BackgroundInfo_def SrvResponse_RandomChatFound_def
  SrvResponse_Unknown_def

text \<open>A member that the constructor leaves unset is \<open>None\<close>.\<close>

record srv_response =
  sr_type :: "response_type option"
  sr_source :: string
  sr_network :: string
  sr_message_id :: string
  sr_messages_left :: string
  sr_deliverable :: "bool option"
  sr_smtp_deliverable :: "bool option"
  sr_error_id :: "int option"
  sr_error_param :: string
  sr_smtp_from :: string
  sr_smtp_to :: string
  sr_smtp_subject :: string
  sr_time :: "int option"
  sr_sender_UIN :: "u32 option"
  sr_icqsubtype :: "icq_subtype option"
  sr_empty_contact :: "bool option"
  sr_uin :: "u32 option"
  sr_alias :: string
  sr_firstname :: string
  sr_lastname :: string
  sr_email :: string
  sr_last_in_search :: "bool option"
  sr_main_home_info :: main_home_info
  sr_homepage_info :: homepage_info
  sr_email_info :: email_info
  sr_work_info :: work_info
  sr_background_info :: background_info
  sr_personal_interest_info :: personal_interest_info
  sr_about :: string
  sr_sex :: "u8 option"
  sr_age :: "u8 option"
  sr_authreq :: "bool option"
  sr_status :: "status option"
  sr_more_results :: "u32 option"

definition new_srv_response :: srv_response where
  "new_srv_response =
     \<lparr>sr_type = None, sr_source = [], sr_network = [], sr_message_id = [], sr_messages_left = [],
      sr_deliverable = None, sr_smtp_deliverable = None, sr_error_id = None, sr_error_param = [],
      sr_smtp_from = [], sr_smtp_to = [], sr_smtp_subject = [], sr_time = None, sr_sender_UIN = None,
      sr_icqsubtype = None, sr_empty_contact = None, sr_uin = None, sr_alias = [], sr_firstname = [],
      sr_lastname = [], sr_email = [], sr_last_in_search = None, sr_main_home_info = new_MainHomeInfo,
      sr_homepage_info = new_HomepageInfo, sr_email_info = new_EmailInfo, sr_work_info = new_WorkInfo,
      sr_background_info = new_BackgroundInfo, sr_personal_interest_info = new_PersonalInterestInfo,
      sr_about = [], sr_sex = None, sr_age = None, sr_authreq = None, sr_status = None,
      sr_more_results = None\<rparr>"

subsection \<open>Offline messages\<close>

definition message_tm :: "u16 \<Rightarrow> u8 \<Rightarrow> u8 \<Rightarrow> u8 \<Rightarrow> u8 \<Rightarrow> tm" where
  "message_tm year month day hour minute =
     \<lparr>tm_sec = 0, tm_min = uint minute, tm_hour = uint hour, tm_mday = uint day,
      tm_mon = uint month - 1, tm_year = uint year - 1900\<rparr>"

definition ParseOfflineMessage :: "srv_response \<Rightarrow> buffer \<Rightarrow> (srv_response \<times> buffer) result" where
  "ParseOfflineMessage s b =
     andThen (get_u32 b) (\<lambda>(sender, b).
     andThen (get_u16 b) (\<lambda>(year, b).
     andThen (get_u8 b) (\<lambda>(month, b).
     andThen (get_u8 b) (\<lambda>(day, b).
     andThen (get_u8 b) (\<lambda>(hour, b).
     andThen (get_u8 b) (\<lambda>(minute, b).
     andThen (gmt_mktime (message_tm year month day hour minute)) (\<lambda>time.
     andThen (ParseICQSubType False False b) (\<lambda>(st, b).
     Inr (s\<lparr>sr_sender_UIN := Some sender, sr_time := Some time, sr_type := Some OfflineMessage,
            sr_icqsubtype := Some (set_source sender st)\<rparr>, advance 2 b)))))))))"

subsection \<open>Acknowledgements\<close>

definition info_change_ack :: "u16 \<Rightarrow> response_type option" where
  "info_change_ack sub =
     (if sub = SrvResponse_AckMainHomeInfoChange then Some AckMainHomeInfoChange
      else if sub = SrvResponse_AckWorkInfoChange then Some AckWorkInfoChange
      else if sub = SrvResponse_AckHomepageInfoChange then Some AckHomepageInfoChange
      else if sub = SrvResponse_AckAboutInfoChange then Some AckAboutInfoChange
      else None)"

definition ParseInfoChangeAck :: "u16 \<Rightarrow> srv_response \<Rightarrow> buffer \<Rightarrow> (srv_response \<times> buffer) result" where
  "ParseInfoChangeAck sub s b =
     (case info_change_ack sub of
        None \<Rightarrow> Inl (ParseException ''Unknown info change acknowledgment'')
      | Some t \<Rightarrow>
          (let b = advance 1 b in
           if beforeEnd b
           then Inl (ParseException ''Extra data at info change acknowledgment (could be an SMS response)'')
           else Inr (s\<lparr>sr_type := Some t\<rparr>, b)))"

definition ParseSMSError :: "srv_response \<Rightarrow> buffer \<Rightarrow> (srv_response \<times> buffer) result" where
  "ParseSMSError s b = Inr (s\<lparr>sr_type := Some SMS_Error\<rparr>, b)"

subsection \<open>Responses to messages for mobile phones\<close>

text \<open>\<^verbatim>\<open>istream >> int\<close>: like \<open>atoi\<close>, with the nearest value when the number does not fit.\<close>

definition read_int :: "string \<Rightarrow> int" where
  "read_int s = max (- (2 ^ 31)) (min (2 ^ 31 - 1) (atoi s))"

definition leaf_value :: "xml_node \<Rightarrow> string \<Rightarrow> string \<Rightarrow> string" where
  "leaf_value x t old = (case getLeaf x t of Some (XmlLeaf _ _ v) \<Rightarrow> v | _ \<Rightarrow> old)"

definition sms_error :: "xml_node \<Rightarrow> srv_response \<Rightarrow> srv_response" where
  "sms_error x s =
     (case getBranch x ''error'' 0 of
        None \<Rightarrow> s
      | Some e \<Rightarrow>
          (let s = (case getLeaf e ''id'' of
                      Some (XmlLeaf _ _ v) \<Rightarrow> s\<lparr>sr_error_id := Some (read_int v)\<rparr>
                    | _ \<Rightarrow> s)
           in case getBranch e ''params'' 0 of
                None \<Rightarrow> s
              | Some p \<Rightarrow> s\<lparr>sr_error_param := leaf_value p ''param'' (sr_error_param s)\<rparr>))"

definition sms_response :: "xml_node \<Rightarrow> srv_response \<Rightarrow> srv_response" where
  "sms_response x s =
     (let s = s\<lparr>sr_source := leaf_value x ''source'' (sr_source s)\<rparr>;
          d = leaf_value x ''deliverable'' '''';
          s = s\<lparr>sr_deliverable := Some (d = ''Yes''), sr_smtp_deliverable := Some (d = ''SMTP'')\<rparr>
      in if d = ''Yes'' then
           s\<lparr>sr_network := leaf_value x ''network'' (sr_network s),
             sr_message_id := leaf_value x ''message_id'' (sr_message_id s),
             sr_messages_left := leaf_value x ''messages_left'' (sr_messages_left s)\<rparr>
         else if d = ''SMTP'' then
           s\<lparr>sr_smtp_from := leaf_value x ''from'' (sr_smtp_from s),
             sr_smtp_to := leaf_value x ''to'' (sr_smtp_to s),
             sr_smtp_subject := leaf_value x ''subject'' (sr_smtp_subject s)\<rparr>
         else sms_error x s)"

definition ParseSMSResponse :: "srv_response \<Rightarrow> buffer \<Rightarrow> (srv_response \<times> buffer) result" where
  "ParseSMSResponse s b =
     andThen (inp_n get_u8 7 b) (\<lambda>(waste, b).
     let b = setBigEndian b in
     andThen (get_string [] b) (\<lambda>(tg, b).
     andThen (get_string [] b) (\<lambda>(xmlstr, b).
     andThen (xml_parse xmlstr) (\<lambda>(x, rest).
     case x of
       None \<Rightarrow> Inl (ParseException ''Couldn't parse xml data in Server Response SNAC'')
     | Some x \<Rightarrow>
         if Xml.tag x \<noteq> ''sms_response'' then Inl (ParseException ''No <sms_response> tag found in xml data'')
         else if \<not> isBranch x then Inl (ParseException ''No tags found in xml data'')
         else Inr (sms_response x (s\<lparr>sr_type := Some SMS_Response\<rparr>), b)))))"

subsection \<open>User information\<close>

fun get_fields :: "string list \<Rightarrow> buffer \<Rightarrow> (string list \<times> buffer) result" where
  "get_fields [] b = Inr ([], b)"
| "get_fields (s # ss) b =
     andThen (UnpackUint16StringNull s b) (\<lambda>(x, b).
     andThen (get_fields ss b) (\<lambda>(xs, b). Inr (x # xs, b)))"

definition parse_main_home_info :: "main_home_info \<Rightarrow> buffer \<Rightarrow> (main_home_info \<times> buffer) result" where
  "parse_main_home_info i b =
     andThen (get_fields [home_alias i, firstname i, lastname i, email i, home_city i, home_state i,
                phone i, fax i, home_street i, [], home_zip i] b) (\<lambda>(fs, b).
     andThen (get_u16 b) (\<lambda>(country, b).
     andThen (get_u8 b) (\<lambda>(zone, b).
     andThen (get_u16 (advance 1 b)) (\<lambda>(wi, b).
     Inr ((info_setMobileNo (fs ! 9) i)
          \<lparr>home_alias := fs ! 0, firstname := fs ! 1, lastname := fs ! 2, email := fs ! 3,
           home_city := fs ! 4, home_state := fs ! 5, phone := fs ! 6, fax := fs ! 7,
           home_street := fs ! 8, home_zip := fs ! 10, home_country := uint country,
           timezone := sint zone\<rparr>, b)))))"

definition parse_homepage_info :: "homepage_info \<Rightarrow> buffer \<Rightarrow> (homepage_info \<times> buffer) result" where
  "parse_homepage_info i b =
     andThen (inp_n get_u8 3 b) (\<lambda>(h, b).
     andThen (UnpackUint16StringNull (homepage i) b) (\<lambda>(page, b).
     andThen (get_u16 b) (\<lambda>(year, b).
     andThen (inp_n get_u8 7 b) (\<lambda>(t, b).
     Inr (i\<lparr>age := h ! 0, sex := uint (h ! 2), homepage := page, birth_year := year,
            birth_month := t ! 0, birth_day := t ! 1, lang1 := uint (t ! 2), lang2 := uint (t ! 3),
            lang3 := uint (t ! 4)\<rparr>, b)))))"

definition parse_work_info :: "work_info \<Rightarrow> buffer \<Rightarrow> (work_info \<times> buffer) result" where
  "parse_work_info i b =
     andThen (UnpackUint16StringNull (work_city i) b) (\<lambda>(city, b).
     andThen (UnpackUint16StringNull (work_state i) b) (\<lambda>(state, b).
     andThen (UnpackUint16StringNull [] b) (\<lambda>(s, b).
     andThen (UnpackUint16StringNull s b) (\<lambda>(s, b).
     andThen (UnpackUint16StringNull (work_street i) b) (\<lambda>(street, b).
     andThen (UnpackUint16StringNull (work_zip i) b) (\<lambda>(zip, b).
     andThen (get_u16 b) (\<lambda>(country, b).
     andThen (UnpackUint16StringNull (company_name i) b) (\<lambda>(name, b).
     andThen (UnpackUint16StringNull (company_dept i) b) (\<lambda>(dept, b).
     andThen (UnpackUint16StringNull (company_position i) b) (\<lambda>(position, b).
     andThen (UnpackUint16StringNull (company_web i) (advance 2 b)) (\<lambda>(web, b).
     Inr (i\<lparr>work_city := city, work_state := state, work_street := street, work_zip := zip,
            work_country := country, company_name := name, company_dept := dept,
            company_position := position, company_web := web\<rparr>, b))))))))))))"

fun parse_emails :: "nat \<Rightarrow> email_info \<Rightarrow> buffer \<Rightarrow> (email_info \<times> buffer) result" where
  "parse_emails 0 i b = Inr (i, b)"
| "parse_emails (Suc n) i b =
     andThen (UnpackUint16StringNull [] b) (\<lambda>(s, b). parse_emails n (addEmailAddress s i) b)"

definition get_category :: "buffer \<Rightarrow> ((u16 \<times> string) \<times> buffer) result" where
  "get_category b =
     andThen (get_u16 b) (\<lambda>(cat, b).
     andThen (UnpackUint16StringNull [] b) (\<lambda>(s, b). Inr ((cat, s), b)))"

fun parse_interests ::
  "nat \<Rightarrow> personal_interest_info \<Rightarrow> buffer \<Rightarrow> (personal_interest_info \<times> buffer) result" where
  "parse_interests 0 i b = Inr (i, b)"
| "parse_interests (Suc n) i b =
     andThen (get_category b) (\<lambda>((cat, s), b). parse_interests n (addInterest cat s i) b)"

fun parse_schools :: "nat \<Rightarrow> background_info \<Rightarrow> buffer \<Rightarrow> (background_info \<times> buffer) result" where
  "parse_schools 0 i b = Inr (i, b)"
| "parse_schools (Suc n) i b =
     andThen (get_category b) (\<lambda>((cat, s), b). parse_schools n (addSchool cat s i) b)"

definition ParseDetailedUserInfo :: "u16 \<Rightarrow> srv_response \<Rightarrow> buffer \<Rightarrow> (srv_response \<times> buffer) result" where
  "ParseDetailedUserInfo sub s b =
     andThen (get_u8 b) (\<lambda>(wb, b).
     if sub = SrvResponse_MainHomeInfo then
       andThen (parse_main_home_info (sr_main_home_info s) b) (\<lambda>(i, b).
       Inr (s\<lparr>sr_main_home_info := i, sr_type := Some RMainHomeInfo\<rparr>, b))
     else if sub = SrvResponse_HomePageInfo then
       andThen (parse_homepage_info (sr_homepage_info s) b) (\<lambda>(i, b).
       Inr (s\<lparr>sr_homepage_info := i, sr_type := Some RHomepageInfo\<rparr>, b))
     else if sub = SrvResponse_EmailInfo then
       andThen (get_u8 b) (\<lambda>(n, b).
       andThen (parse_emails (unat n) (sr_email_info s) b) (\<lambda>(i, b).
       Inr (s\<lparr>sr_email_info := i, sr_type := Some REmailInfo\<rparr>, b)))
     else if sub = SrvResponse_WorkInfo then
       andThen (parse_work_info (sr_work_info s) b) (\<lambda>(i, b).
       Inr (s\<lparr>sr_work_info := i, sr_type := Some RWorkInfo\<rparr>, b))
     else if sub = SrvResponse_AboutInfo then
       andThen (UnpackUint16StringNull (sr_about s) b) (\<lambda>(about, b).
       Inr (s\<lparr>sr_about := about, sr_type := Some RAboutInfo\<rparr>, b))
     else if sub = SrvResponse_InterestInfo then
       andThen (get_u8 b) (\<lambda>(n, b).
       andThen (parse_interests (unat n) (sr_personal_interest_info s) b) (\<lambda>(i, b).
       Inr (s\<lparr>sr_personal_interest_info := i, sr_type := Some RInterestInfo\<rparr>, b)))
     else if sub = SrvResponse_BackgroundInfo then
       andThen (get_u8 b) (\<lambda>(n, b).
       andThen (parse_schools (unat n) (sr_background_info s) b) (\<lambda>(i, b).
       andThen (get_u8 b) (\<lambda>(junk, b).
       Inr (s\<lparr>sr_background_info := i, sr_type := Some RBackgroundInfo\<rparr>, b))))
     else if sub = SrvResponse_Unknown then
       andThen (get_u16 b) (\<lambda>(ws, b). Inr (s\<lparr>sr_type := Some RUnknown\<rparr>, b))
     else Inl (ParseException ''Unknown mode for Detailed user info parsing''))"

definition simple_type :: "u16 \<Rightarrow> srv_response \<Rightarrow> srv_response" where
  "simple_type sub s =
     (let s = (if sub = SrvResponse_SimpleUI \<or> sub = SrvResponse_SimpleUI_Done
               then s\<lparr>sr_type := Some SimpleUserInfo\<rparr> else s);
          s = (if sub = SrvResponse_SearchUI \<or> sub = SrvResponse_SearchUI_Done
               then s\<lparr>sr_type := Some SearchSimpleUserInfo\<rparr> else s)
      in s\<lparr>sr_last_in_search := Some (sub = SrvResponse_SimpleUI_Done \<or> sub = SrvResponse_SearchUI_Done)\<rparr>)"

definition parse_sex_age :: "srv_response \<Rightarrow> buffer \<Rightarrow> (srv_response \<times> buffer) result" where
  "parse_sex_age s b =
     (if remains b = 3 \<or> remains b = 7 then
        andThen (get_u8 b) (\<lambda>(sx, b).
        andThen (get_u8 b) (\<lambda>(ag, b).
        andThen (get_u8 b) (\<lambda>(wb, b). Inr (s\<lparr>sr_sex := Some sx, sr_age := Some ag\<rparr>, b))))
      else Inr (s, b))"

definition parse_found_contact :: "srv_response \<Rightarrow> buffer \<Rightarrow> (srv_response \<times> buffer) result" where
  "parse_found_contact s b =
     andThen (get_u16 b) (\<lambda>(ws, b).
     andThen (get_u32 b) (\<lambda>(uin, b).
     andThen (UnpackUint16StringNull (sr_alias s) b) (\<lambda>(nick, b).
     andThen (UnpackUint16StringNull (sr_firstname s) b) (\<lambda>(first, b).
     andThen (UnpackUint16StringNull (sr_lastname s) b) (\<lambda>(last_name, b).
     andThen (UnpackUint16StringNull (sr_email s) b) (\<lambda>(mail, b).
     andThen (get_u8 b) (\<lambda>(auth, b).
     andThen (get_u8 b) (\<lambda>(st, b).
     andThen (get_u8 b) (\<lambda>(wb, b).
     Inr (s\<lparr>sr_empty_contact := Some False, sr_uin := Some uin, sr_alias := nick, sr_firstname := first,
            sr_lastname := last_name, sr_email := mail, sr_authreq := Some (auth = 0),
            sr_status := Some (if st = 1 then STATUS_ONLINE else STATUS_OFFLINE)\<rparr>, b))))))))))"

definition ParseSimpleUserInfo :: "u16 \<Rightarrow> srv_response \<Rightarrow> buffer \<Rightarrow> (srv_response \<times> buffer) result" where
  "ParseSimpleUserInfo sub s b =
     (let s = simple_type sub s in
      andThen (get_u8 b) (\<lambda>(wb, b).
      if wb = 0x32 \<or> wb = 0x14 then Inr (s\<lparr>sr_empty_contact := Some True\<rparr>, b)
      else
        andThen (parse_found_contact s b) (\<lambda>(s, b).
        andThen (parse_sex_age s b) (\<lambda>(s, b).
        if sub = SrvResponse_SimpleUI_Done \<or> sub = SrvResponse_SearchUI_Done then
          andThen (get_u32 b) (\<lambda>(n, b). Inr (s\<lparr>sr_more_results := Some n\<rparr>, b))
        else Inr (s, b)))))"

subsection \<open>Random chat\<close>

definition ParseRandomChatFound :: "srv_response \<Rightarrow> buffer \<Rightarrow> (srv_response \<times> buffer) result" where
  "ParseRandomChatFound s b =
     andThen (get_u8 b) (\<lambda>(wb, b).
     andThen (get_u32 b) (\<lambda>(uin, b).
     andThen (get_u8 b) (\<lambda>(wb, b).
     Inr (s\<lparr>sr_empty_contact := Some False, sr_type := Some RandomChatFound, sr_uin := Some uin\<rparr>, b))))"

definition ParseRandomGroupSetAck :: "srv_response \<Rightarrow> buffer \<Rightarrow> (srv_response \<times> buffer) result" where
  "ParseRandomGroupSetAck s b = Inr (s\<lparr>sr_type := Some RandomGroupSet\<rparr>, b)"

subsection \<open>The response\<close>

definition ParseICQResponse :: "srv_response \<Rightarrow> buffer \<Rightarrow> (srv_response \<times> buffer) result" where
  "ParseICQResponse s b =
     andThen (get_u16 b) (\<lambda>(sub, b).
     if sub = SrvResponse_Error then ParseSMSError s b
     else if sub = SrvResponse_SMS_Done then ParseSMSResponse s b
     else if sub \<in> {SrvResponse_SimpleUI, SrvResponse_SimpleUI_Done, SrvResponse_SearchUI,
        SrvResponse_SearchUI_Done} then ParseSimpleUserInfo sub s b
     else if sub \<in> {SrvResponse_MainHomeInfo, SrvResponse_WorkInfo, SrvResponse_HomePageInfo,
        SrvResponse_AboutInfo, SrvResponse_EmailInfo, SrvResponse_InterestInfo,
        SrvResponse_BackgroundInfo, SrvResponse_Unknown} then ParseDetailedUserInfo sub s b
     else if sub \<in> {SrvResponse_AckMainHomeInfoChange, SrvResponse_AckWorkInfoChange,
        SrvResponse_AckHomepageInfoChange, SrvResponse_AckAboutInfoChange} then ParseInfoChangeAck sub s b
     else if sub = SrvResponse_RandomChatFound then ParseRandomChatFound s b
     else if sub = SrvResponse_AckRandomGroupSet then ParseRandomGroupSetAck s b
     else Inl (ParseException ''Unknown ICQ subtype for Server response SNAC''))"

definition SrvResponseSNAC_ParseBody :: "buffer \<Rightarrow> (srv_response \<times> buffer) result" where
  "SrvResponseSNAC_ParseBody b =
     andThen (get_u16 b) (\<lambda>(type, b).
     andThen (get_u16 b) (\<lambda>(len, b).
     let b = setLittleEndian b in
     andThen (get_u16 b) (\<lambda>(len, b).
     andThen (get_u32 b) (\<lambda>(uin, b).
     andThen (get_u16 b) (\<lambda>(command_type, b).
     andThen (get_u16 b) (\<lambda>(request_id, b).
     let s = new_srv_response in
     if command_type = 65 then ParseOfflineMessage s b
     else if command_type = 66 then
       andThen (get_u8 b) (\<lambda>(waste, b). Inr (s\<lparr>sr_type := Some OfflineMessagesComplete\<rparr>, b))
     else if command_type = 2010 then ParseICQResponse s b
     else Inl (ParseException ''Unknown command type for Server Response SNAC'')))))))"

section \<open>The frame of a request\<close>

text \<open>All the classes of requests, and the virtual \<^verbatim>\<open>OutputBody\<close>.\<close>

datatype srv_request =
    SrvSend string string u32 string bool
  | SrvRequestOffline u32
  | SrvAckOffline u32
  | SrvRequestSimpleUserInfo u32 u32
  | SrvRequestDetailUserInfo u32 u32
  | SrvRequestShortWP u32 string string string
  | SrvRequestFullWP u32 white_pages
  | SrvRequestKeywordSearch u32 string
  | SrvUpdateMainHomeInfo u32 main_home_info
  | SrvUpdateWorkInfo u32 work_info
  | SrvUpdateHomepageInfo u32 homepage_info
  | SrvUpdateAboutInfo u32 string
  | SrvRequestRandomChat u32 u16
  | SrvSetRandomChatGroup u32 u16

fun SrvRequest_OutputBody :: "srv_request \<Rightarrow> string \<Rightarrow> u32 \<Rightarrow> buffer \<Rightarrow> buffer result option" where
  "SrvRequest_OutputBody (SrvSend txt dest uin name rcpt) timestr rid b =
     map_option Inr (SrvSendSNAC_OutputBody txt dest uin name rcpt timestr rid b)"
| "SrvRequest_OutputBody (SrvRequestOffline uin) timestr rid b =
     Some (Inr (SrvRequestOfflineSNAC_OutputBody uin rid b))"
| "SrvRequest_OutputBody (SrvAckOffline uin) timestr rid b =
     Some (Inr (SrvAckOfflineSNAC_OutputBody uin rid b))"
| "SrvRequest_OutputBody (SrvRequestSimpleUserInfo my_uin uin) timestr rid b =
     Some (Inr (SrvRequestSimpleUserInfo_OutputBody my_uin uin rid b))"
| "SrvRequest_OutputBody (SrvRequestDetailUserInfo my_uin uin) timestr rid b =
     Some (Inr (SrvRequestDetailUserInfo_OutputBody my_uin uin rid b))"
| "SrvRequest_OutputBody (SrvRequestShortWP my_uin nick first last_name) timestr rid b =
     Some (SrvRequestShortWP_OutputBody my_uin nick first last_name rid b)"
| "SrvRequest_OutputBody (SrvRequestFullWP my_uin w) timestr rid b =
     Some (SrvRequestFullWP_OutputBody my_uin w rid b)"
| "SrvRequest_OutputBody (SrvRequestKeywordSearch my_uin keyword) timestr rid b =
     Some (SrvRequestKeywordSearch_OutputBody my_uin keyword rid b)"
| "SrvRequest_OutputBody (SrvUpdateMainHomeInfo my_uin i) timestr rid b =
     Some (SrvUpdateMainHomeInfo_OutputBody my_uin i rid b)"
| "SrvRequest_OutputBody (SrvUpdateWorkInfo my_uin i) timestr rid b =
     Some (SrvUpdateWorkInfo_OutputBody my_uin i rid b)"
| "SrvRequest_OutputBody (SrvUpdateHomepageInfo my_uin i) timestr rid b =
     Some (SrvUpdateHomepageInfo_OutputBody my_uin i rid b)"
| "SrvRequest_OutputBody (SrvUpdateAboutInfo my_uin about) timestr rid b =
     Some (SrvUpdateAboutInfo_OutputBody my_uin about rid b)"
| "SrvRequest_OutputBody (SrvRequestRandomChat my_uin g) timestr rid b =
     Some (SrvRequestRandomChat_OutputBody my_uin g rid b)"
| "SrvRequest_OutputBody (SrvSetRandomChatGroup my_uin g) timestr rid b =
     Some (SrvSetRandomChatGroup_OutputBody my_uin g rid b)"

definition srv_block :: "u32 \<Rightarrow> u16 \<Rightarrow> u32 \<Rightarrow> u8 list \<Rightarrow> u8 list" where
  "srv_block uin cmd rid rest =
     enc32 LITTLE uin @ enc16 LITTLE cmd @ enc16 LITTLE (ucast rid) @ rest"

definition srv_framed :: "endian \<Rightarrow> u8 list \<Rightarrow> u8 list" where
  "srv_framed e block =
     enc16 e 1 @ enc16 e (word_of_nat (length block + 2)) @ enc16 LITTLE (word_of_nat (length block)) @ block"

lemma fold_stringnull_app:
  "fold PackUint16StringNull ss b = app (concat (map (enc_stringnull (m_endn b)) ss)) b"
  by (induction ss arbitrary: b) (simp_all add: put_string_app, simp add: app_def)

lemmas srv_app = put_app put_string_app fold_stringnull_app fold_put_app short_marker_app

lemma srv_frame_app:
  assumes "\<And>d. m_endn d = LITTLE \<Longrightarrow> length (m_data d) = length (m_data b) + 16 \<Longrightarrow> fill d = Inr (app info d)"
    and "length (m_data b) + length info < 2 ^ 31"
  shows "srv_frame uin rid sub fill b =
    Inr (app (srv_framed (m_endn b) (srv_block uin 2000 rid (enc16 LITTLE sub @ info))) (setLittleEndian b))"
proof -
  let ?p = "srv_block uin 2000 rid (enc16 LITTLE sub @ info)" and ?e = "m_endn b"
  let ?n = "length (m_data b)" and ?b = "setLittleEndian b"
  have p: "length ?p = length info + 10"
    by (simp add: srv_block_def)
  have f: "fill (app (enc16 ?e 1 @ enc16 ?e 0 @ enc16 LITTLE 0 @ enc32 LITTLE uin @ enc16 LITTLE 2000 @
      enc16 LITTLE (ucast rid) @ enc16 LITTLE sub) ?b) =
    Inr (app (enc16 ?e 1 @ enc16 ?e 0 @ enc16 LITTLE 0 @ ?p) ?b)"
    by (subst assms(1)) (simp_all add: srv_block_def)
  have 1: "setAutoSizeMarker (marker_at (?n + 2) ?e) (app (enc16 ?e 1 @ enc16 ?e 0 @ enc16 LITTLE 0 @ ?p) ?b) =
    Inr (app (enc16 ?e 1 @ enc16 ?e (word_of_nat (length (enc16 LITTLE 0 @ ?p))) @ enc16 LITTLE 0 @ ?p) ?b)"
    using assms(2) p by (intro fill_app) simp_all
  have 2: "setAutoSizeMarker (marker_at (?n + 2 + 2) LITTLE)
      (app ((enc16 ?e 1 @ enc16 ?e (word_of_nat (length ?p + 2))) @ enc16 LITTLE 0 @ ?p) ?b) =
    Inr (app ((enc16 ?e 1 @ enc16 ?e (word_of_nat (length ?p + 2))) @ enc16 LITTLE (word_of_nat (length ?p)) @ ?p) ?b)"
    using assms(2) p by (intro fill_app) simp_all
  show ?thesis
    using f 1 2 by (simp add: srv_frame_def srv_app srv_framed_def Let_def)
qed

fun request_strings :: "srv_request \<Rightarrow> string list" where
  "request_strings (SrvRequestShortWP my_uin nick first last_name) = [first, last_name, nick]"
| "request_strings (SrvRequestFullWP my_uin w) = [wp_firstname w, wp_lastname w, wp_nickname w, wp_email w,
     wp_city w, wp_state w, wp_company_name w, wp_department w, wp_position w]"
| "request_strings (SrvRequestKeywordSearch my_uin keyword) = [keyword]"
| "request_strings (SrvUpdateMainHomeInfo my_uin i) = [home_alias i, firstname i, lastname i, email i,
     home_city i, home_state i, phone i, fax i, home_street i, cellular i, home_zip i]"
| "request_strings (SrvUpdateWorkInfo my_uin i) = [work_city i, work_state i, work_street i, work_zip i,
     company_name i, company_dept i, company_position i, company_web i]"
| "request_strings (SrvUpdateHomepageInfo my_uin i) = [homepage i]"
| "request_strings (SrvUpdateAboutInfo my_uin about) = [about]"
| "request_strings q = []"

fun request_uin :: "srv_request \<Rightarrow> u32" where
  "request_uin (SrvSend txt dest uin name rcpt) = uin"
| "request_uin (SrvRequestOffline uin) = uin"
| "request_uin (SrvAckOffline uin) = uin"
| "request_uin (SrvRequestSimpleUserInfo my_uin uin) = my_uin"
| "request_uin (SrvRequestDetailUserInfo my_uin uin) = my_uin"
| "request_uin (SrvRequestShortWP my_uin nick first last_name) = my_uin"
| "request_uin (SrvRequestFullWP my_uin w) = my_uin"
| "request_uin (SrvRequestKeywordSearch my_uin keyword) = my_uin"
| "request_uin (SrvUpdateMainHomeInfo my_uin i) = my_uin"
| "request_uin (SrvUpdateWorkInfo my_uin i) = my_uin"
| "request_uin (SrvUpdateHomepageInfo my_uin i) = my_uin"
| "request_uin (SrvUpdateAboutInfo my_uin about) = my_uin"
| "request_uin (SrvRequestRandomChat my_uin g) = my_uin"
| "request_uin (SrvSetRandomChatGroup my_uin g) = my_uin"

lemma length_stringnull [simp]: "length (enc_stringnull e s) = length s + 3"
  by (simp add: enc_stringnull_def)

text \<open>The request is a block in its frame; \<open>info\<close> is what the class writes behind the subtype.\<close>

definition framed_request :: "u32 \<Rightarrow> u32 \<Rightarrow> buffer \<Rightarrow> buffer result option \<Rightarrow> bool" where
  "framed_request uin rid b res \<longleftrightarrow>
     (\<exists>cmd rest b'. res = Some (Inr b') \<and>
        m_data b' = m_data b @ srv_framed (m_endn b) (srv_block uin cmd rid rest))"

lemma framed_frame:
  assumes "\<And>d. m_endn d = LITTLE \<Longrightarrow> length (m_data d) = length (m_data b) + 16 \<Longrightarrow> fill d = Inr (app info d)"
    and "length (m_data b) + length info < 2 ^ 31"
  shows "framed_request uin rid b (Some (srv_frame uin rid sub fill b))"
  using srv_frame_app [OF assms, of uin rid sub] unfolding framed_request_def by fastforce

lemma framed_words:
  assumes "m_data b' = m_data b @ enc16 (m_endn b) 1 @ enc16 (m_endn b) (word_of_nat (length rest + 10)) @
    enc16 LITTLE (word_of_nat (length rest + 8)) @ enc32 LITTLE uin @ enc16 LITTLE cmd @
    enc16 LITTLE (ucast rid) @ rest"
  shows "framed_request uin rid b (Some (Inr b'))"
proof -
  have "m_data b' = m_data b @ srv_framed (m_endn b) (srv_block uin cmd rid rest)"
    using assms by (simp add: srv_framed_def srv_block_def eval_nat_numeral)
  then show ?thesis
    unfolding framed_request_def by blast
qed

lemma parseAttr_plain: "list_all (\<lambda>c. \<not> isspace c) t \<Longrightarrow> parseAttr t = (t, [])"
  by (cases t) (simp_all add: parseAttr_def skipWS_def Let_def parse_attrs.simps [of "[]"] list_all_iff
      takeWhile_eq_all_conv [THEN iffD2] dropWhile_eq_Nil_conv [THEN iffD2])

text \<open>The message in XML; the constructor of a leaf unquotes the value it is given.\<close>

lemma srv_send_xml_tree:
  "srv_send_xml txt dest uin name rcpt timestr = XmlBranch ''icq_sms_message'' []
     [XmlLeaf ''destination'' [] (unquote dest), XmlLeaf ''text'' [] (unquote txt),
      XmlLeaf ''codepage'' [] (unquote ''1252''), XmlLeaf ''senders_UIN'' [] (unquote (UINtoString uin)),
      XmlLeaf ''senders_name'' [] (unquote name),
      XmlLeaf ''delivery_receipt'' [] (unquote (if rcpt then ''Yes'' else ''No'')),
      XmlLeaf ''time'' [] (unquote timestr)]"
  by (simp add: srv_send_xml_def pushnode_def new_XmlBranch_def new_XmlLeaf_def parseAttr_plain isspace_def
      del: if_distrib)

lemma sms_printed: "\<exists>s. toString 0 (srv_send_xml txt dest uin name rcpt timestr) = Some s"
  by (simp add: srv_send_xml_tree attr_loop.simps)

lemma fold_put_int_app: "fold put_int ns b = app (concat (map (\<lambda>n. enc32 (m_endn b) (word_of_int n)) ns)) b"
  by (induction ns arbitrary: b) (simp_all add: put_int_def put_app, simp add: app_def)

lemma keyword_fill:
  assumes "m_endn d = LITTLE" and "length (m_data d) + length keyword + 7 < 2 ^ 32"
  shows "(let b = put_u16 0x0226 d; (m3, b) = getAutoSizeShortMarker b; b = PackUint16StringNull keyword b
      in setAutoSizeMarker m3 b) =
    Inr (app (enc16 LITTLE 0x0226 @ enc16 LITTLE (word_of_nat (length keyword + 3)) @ enc_stringnull LITTLE keyword) d)"
  using fill_app [of "length (m_data d) + 2" d "enc16 LITTLE 0x0226" "enc_stringnull LITTLE keyword" LITTLE LITTLE 0] assms
  by (simp add: srv_app Let_def)

lemma request_framed_aux:
  assumes "\<forall>s\<in>set (request_strings q). length s < 65535" and "length (m_data b) < 2 ^ 30"
  shows "framed_request (request_uin q) rid b (SrvRequest_OutputBody q timestr rid b)"
proof (cases q)
  case (SrvSend msg dest uin name rcpt)
  obtain x where x: "toString 0 (srv_send_xml msg dest uin name rcpt timestr) = Some x"
    using sms_printed by blast
  let ?rest = "enc16 BIG 0x8214 @ enc16 BIG 1 @ enc16 BIG 0x16 @ replicate 16 0 @ enc16 BIG 0 @ enc_stringnull BIG x"
  have "length ?rest = length x + 27"
    by simp
  then show ?thesis
    unfolding SrvSend SrvRequest_OutputBody.simps SrvSendSNAC_OutputBody_def x option.case Let_def fold_put_app
      option.map request_uin.simps
    by (intro framed_words [where cmd = "2000" and rest = ?rest]) (simp add: srv_app add.commute)
next
  case SrvRequestOffline
  then show ?thesis
    by (simp add: SrvRequestOfflineSNAC_OutputBody_def SrvOffline_OutputBody_def srv_app Let_def,
        intro framed_words [where cmd = "60" and rest = "[]"], simp)
next
  case SrvAckOffline
  then show ?thesis
    by (simp add: SrvAckOfflineSNAC_OutputBody_def SrvOffline_OutputBody_def srv_app Let_def,
        intro framed_words [where cmd = "62" and rest = "[]"], simp)
next
  case (SrvRequestSimpleUserInfo my_uin uin)
  then show ?thesis
    by (simp add: SrvRequestSimpleUserInfo_OutputBody_def SrvRequestUserInfo_OutputBody_def srv_app Let_def,
        intro framed_words [where cmd = "2000" and rest = "enc16 LITTLE 1311 @ enc32 LITTLE uin"], simp)
next
  case (SrvRequestDetailUserInfo my_uin uin)
  then show ?thesis
    by (simp add: SrvRequestDetailUserInfo_OutputBody_def SrvRequestUserInfo_OutputBody_def srv_app Let_def,
        intro framed_words [where cmd = "2000" and rest = "enc16 LITTLE 0x04b2 @ enc32 LITTLE uin"], simp)
next
  case (SrvRequestKeywordSearch my_uin keyword)
  then have "length keyword < 65535"
    using assms(1) by simp
  then show ?thesis
    unfolding SrvRequestKeywordSearch SrvRequest_OutputBody.simps SrvRequestKeywordSearch_OutputBody_def request_uin.simps
    using assms by (intro framed_frame, subst keyword_fill) (simp_all, simp)
next
  case (SrvRequestShortWP my_uin nick first last_name)
  with assms show ?thesis
    unfolding SrvRequestShortWP SrvRequest_OutputBody.simps request_uin.simps request_strings.simps SrvRequestShortWP_OutputBody_def
    by (intro framed_frame) (simp_all add: srv_app put_int_def Let_def split del: if_split, simp)
next
  case (SrvRequestFullWP my_uin w)
  with assms show ?thesis
    unfolding SrvRequestFullWP SrvRequest_OutputBody.simps request_uin.simps request_strings.simps SrvRequestFullWP_OutputBody_def
    by (intro framed_frame) (simp_all add: srv_app put_int_def Let_def split del: if_split, simp)
next
  case (SrvUpdateMainHomeInfo my_uin i)
  with assms show ?thesis
    unfolding SrvUpdateMainHomeInfo SrvRequest_OutputBody.simps request_uin.simps request_strings.simps SrvUpdateMainHomeInfo_OutputBody_def
    by (intro framed_frame) (simp_all add: srv_app put_int_def Let_def split del: if_split, simp)
next
  case (SrvUpdateWorkInfo my_uin i)
  with assms show ?thesis
    unfolding SrvUpdateWorkInfo SrvRequest_OutputBody.simps request_uin.simps request_strings.simps SrvUpdateWorkInfo_OutputBody_def
    by (intro framed_frame) (simp_all add: srv_app put_int_def Let_def split del: if_split, simp)
next
  case (SrvUpdateHomepageInfo my_uin i)
  with assms show ?thesis
    unfolding SrvUpdateHomepageInfo SrvRequest_OutputBody.simps request_uin.simps request_strings.simps SrvUpdateHomepageInfo_OutputBody_def
    by (intro framed_frame) (simp_all add: srv_app put_int_def Let_def split del: if_split, simp)
next
  case (SrvUpdateAboutInfo my_uin about)
  with assms show ?thesis
    unfolding SrvUpdateAboutInfo SrvRequest_OutputBody.simps request_uin.simps request_strings.simps SrvUpdateAboutInfo_OutputBody_def
    by (intro framed_frame) (simp_all add: srv_app put_int_def Let_def split del: if_split, simp)
next
  case (SrvRequestRandomChat my_uin g)
  with assms show ?thesis
    unfolding SrvRequestRandomChat SrvRequest_OutputBody.simps request_uin.simps request_strings.simps SrvRequestRandomChat_OutputBody_def
    by (intro framed_frame) (simp_all add: srv_app put_int_def Let_def split del: if_split, simp)
next
  case (SrvSetRandomChatGroup my_uin g)
  with assms show ?thesis
    unfolding SrvSetRandomChatGroup SrvRequest_OutputBody.simps request_uin.simps request_strings.simps SrvSetRandomChatGroup_OutputBody_def
    by (intro framed_frame) (simp_all add: srv_app put_int_def Let_def fold_put_int_app length_concat sum_list_replicate del: fold_replicate, simp add: length_concat sum_list_replicate)
qed

section \<open>One's own information, read back\<close>

text \<open>The information behind the subtype of an update.\<close>

definition enc_fields :: "string list \<Rightarrow> u8 list" where
  "enc_fields ss = concat (map (enc_stringnull LITTLE) ss)"

definition enc_work_info :: "work_info \<Rightarrow> u8 list" where
  "enc_work_info i = enc_fields [work_city i, work_state i] @ enc16 LITTLE 0 @ enc16 LITTLE 0 @
     enc_fields [work_street i, work_zip i] @ enc16 LITTLE (work_country i) @
     enc_fields [company_name i, company_dept i, company_position i] @ enc16 LITTLE 0 @
     enc_stringnull LITTLE (company_web i)"

definition enc_homepage_info :: "homepage_info \<Rightarrow> u8 list" where
  "enc_homepage_info i = [age i, 0, word_of_int (sex i)] @ enc_stringnull LITTLE (homepage i) @
     enc16 LITTLE (birth_year i) @
     [birth_month i, birth_day i, word_of_int (lang1 i), word_of_int (lang2 i), word_of_int (lang3 i)]"

definition home_fields :: "main_home_info \<Rightarrow> string list" where
  "home_fields i = [home_alias i, firstname i, lastname i, email i, home_city i, home_state i, phone i, fax i,
     home_street i, cellular i, home_zip i]"

definition enc_main_home_info :: "main_home_info \<Rightarrow> u8 list" where
  "enc_main_home_info i = enc_fields (home_fields i) @ enc32 LITTLE (word_of_int (home_country i)) @
     enc32 LITTLE (word_of_int (timezone i)) @ [0]"

lemma length_enc_fields: "length (enc_fields ss) = sum_list (map length ss) + 3 * length ss"
  by (induction ss) (simp_all add: enc_fields_def)

definition updated :: "u32 \<Rightarrow> u32 \<Rightarrow> u16 \<Rightarrow> u8 list \<Rightarrow> buffer \<Rightarrow> buffer" where
  "updated uin rid sub info b =
     app (srv_framed (m_endn b) (srv_block uin 2000 rid (enc16 LITTLE sub @ info))) (setLittleEndian b)"

lemma updates_app:
  "length (m_data b) + length (enc_work_info w) < 2 ^ 31 \<Longrightarrow>
    SrvUpdateWorkInfo_OutputBody uin w rid b = Inr (updated uin rid 0x03f3 (enc_work_info w) b)"
  "length (m_data b) + length (enc_homepage_info h) < 2 ^ 31 \<Longrightarrow>
    SrvUpdateHomepageInfo_OutputBody uin h rid b = Inr (updated uin rid 0x03fd (enc_homepage_info h) b)"
  "length (m_data b) + length (enc_stringnull LITTLE about) < 2 ^ 31 \<Longrightarrow>
    SrvUpdateAboutInfo_OutputBody uin about rid b = Inr (updated uin rid 0x0406 (enc_stringnull LITTLE about) b)"
  "length (m_data b) + length (enc_main_home_info i) < 2 ^ 31 \<Longrightarrow>
    SrvUpdateMainHomeInfo_OutputBody uin i rid b = Inr (updated uin rid 0x03ea (enc_main_home_info i) b)"
  unfolding updated_def SrvUpdateWorkInfo_OutputBody_def SrvUpdateHomepageInfo_OutputBody_def
    SrvUpdateAboutInfo_OutputBody_def SrvUpdateMainHomeInfo_OutputBody_def
  by (rule srv_frame_app, simp_all add: srv_app put_int_def Let_def enc_work_info_def enc_homepage_info_def
      enc_main_home_info_def enc_fields_def home_fields_def)+

text \<open>A reply of the server with the same information.\<close>

definition info_reply :: "u32 \<Rightarrow> u32 \<Rightarrow> u16 \<Rightarrow> u8 \<Rightarrow> u8 list \<Rightarrow> buffer" where
  "info_reply uin rid sub st info =
     buffer_of_bytes (srv_framed BIG (srv_block uin 2010 rid (enc16 LITTLE sub @ st # info)))"

lemma detailed_reply:
  assumes "length info < 2 ^ 30"
    and "sub \<in> {SrvResponse_MainHomeInfo, SrvResponse_WorkInfo, SrvResponse_HomePageInfo, SrvResponse_AboutInfo}"
  obtains b d where "at d LITTLE info" and "get_u8 b = Inr (st, d)"
    and "SrvResponseSNAC_ParseBody (info_reply uin rid sub st info) = ParseDetailedUserInfo sub new_srv_response b"
proof -
  let ?B = "srv_framed BIG (srv_block uin 2010 rid (enc16 LITTLE sub @ st # info))"
  have "at (info_reply uin rid sub st info) BIG ?B"
    using assms(1) unfolding info_reply_def by (intro at_big) (simp add: srv_framed_def srv_block_def)
  note 0 = this [unfolded srv_framed_def]
  note 1 = rd_u16 [OF 0]
  note 2 = rd_u16 [OF 1(2)]
  note 3 = rd_u16 [OF at_setLittle [OF 2(2)]]
  note 4 = rd_u32 [OF 3(2) [unfolded srv_block_def]]
  note 5 = rd_u16 [OF 4(2)]
  note 6 = rd_u16 [OF 5(2)]
  note 7 = rd_u16 [OF 6(2)]
  note 8 = rd_u8 [OF 7(2)]
  show ?thesis
    using assms(2) by (intro that [OF 8(2,1)])
      (auto simp: SrvResponseSNAC_ParseBody_def ParseICQResponse_def 1(1) 2(1) 3(1) 4(1) 5(1) 6(1) 7(1) SrvResponse_defs)
qed

definition past_string :: "string \<Rightarrow> buffer \<Rightarrow> buffer" where
  "past_string s b = advance (word_of_nat (length s + 3)) b"

lemma rd_null:
  assumes "at b e (enc_stringnull e s @ r)" and "length s < 65535"
  shows "UnpackUint16StringNull t b = Inr (t @ s, past_string s b)"
    and "at (past_string s b) e r"
proof -
  show "UnpackUint16StringNull t b = Inr (t @ s, past_string s b)"
    using assms unfolding past_string_def by (intro UnpackUint16StringNull_enc) (auto simp: at_def)
  have "unat (word_of_nat (length s + 3) :: u32) = length s + 3"
    using assms(2) by (intro unat_of_nat_u32) simp
  then show "at (past_string s b) e r"
    unfolding past_string_def by (intro at_advance [OF assms(1)]) simp
qed

lemma rd_no_string:
  assumes "at b e (enc16 e 0 @ r)"
  shows "UnpackUint16StringNull s b = Inr (s, advance 2 b)" and "at (advance 2 b) e r"
  using rd_u16 [OF assms] by (simp_all add: UnpackUint16StringNull_def)

lemma get_u8_end: "at b e [] \<Longrightarrow> get_u8 b = Inr (0, b)"
  by (auto simp: at_def unread_def wfb_def get_u8_def unat_plus_u32)

lemma get_fields_enc:
  "\<forall>s\<in>set ss. length s < 65535 \<Longrightarrow> at b LITTLE (enc_fields ss @ r) \<Longrightarrow>
   \<exists>b'. get_fields (replicate (length ss) []) b = Inr (ss, b') \<and> at b' LITTLE r"
proof (induction ss arbitrary: b)
  case (Cons s ss)
  then have "at b LITTLE (enc_stringnull LITTLE s @ enc_fields ss @ r)" "length s < 65535"
    by (simp_all add: enc_fields_def)
  note 1 = rd_null [OF this]
  then show ?case
    using Cons.IH [OF _ 1(2)] Cons.prems(1) by auto
qed (simp add: enc_fields_def)

lemma parse_work_info_enc:
  assumes "at b LITTLE (enc_work_info i)" and "\<forall>s\<in>set (request_strings (SrvUpdateWorkInfo uin i)). length s < 65535"
  shows "\<exists>b'. parse_work_info new_WorkInfo b = Inr (i, b')"
proof -
  note b = assms(1) [unfolded enc_work_info_def enc_fields_def, simplified]
  note l = assms(2) [simplified]
  note 1 = rd_null [OF b l [THEN conjunct1]]
  note 2 = rd_null [OF 1(2)]
  note 3 = rd_no_string [OF 2(2)]
  note 4 = rd_no_string [OF 3(2)]
  note 5 = rd_null [OF 4(2)]
  note 6 = rd_null [OF 5(2)]
  note 7 = rd_u16 [OF 6(2)]
  note 8 = rd_null [OF 7(2)]
  note 9 = rd_null [OF 8(2)]
  note 10 = rd_null [OF 9(2)]
  note 11 = rd_u16 [OF 10(2)]
  have "at (advance 2 b') LITTLE (enc_stringnull LITTLE (company_web i) @ [])"
    if "at b' LITTLE (enc16 LITTLE 0 @ enc_stringnull LITTLE (company_web i))" for b'
    using rd_u16(2) [OF that] by simp
  note 12 = rd_null [OF this [OF 10(2)]]
  show ?thesis
    using l by (simp add: parse_work_info_def new_WorkInfo_def 1(1) 2(1) 3(1) 4(1) 5(1) 6(1) 7(1) 8(1) 9(1) 10(1) 12(1))
qed

lemma parse_homepage_info_enc:
  assumes "at b LITTLE (enc_homepage_info i)" and "length (homepage i) < 65535"
    and "{sex i, lang1 i, lang2 i, lang3 i} \<subseteq> {0..<256}"
  shows "\<exists>b'. parse_homepage_info new_HomepageInfo b = Inr (i, b')"
proof -
  note b = assms(1) [unfolded enc_homepage_info_def, simplified]
  note 1 = rd_u8 [OF b]
  note 2 = rd_u8 [OF 1(2)]
  note 3 = rd_u8 [OF 2(2)]
  note 4 = rd_null [OF 3(2) assms(2)]
  note 5 = rd_u16 [OF 4(2)]
  note 6 = rd_u8 [OF 5(2)]
  note 7 = rd_u8 [OF 6(2)]
  note 8 = rd_u8 [OF 7(2)]
  note 9 = rd_u8 [OF 8(2)]
  note 10 = rd_u8 [OF 9(2)]
  note 11 = get_u8_end [OF 10(2)]
  have u: "uint (word_of_int k :: u8) = k" if "0 \<le> k" "k < 256" for k
    using that by (simp add: uint_word_of_int)
  show ?thesis
    using assms(3) by (simp add: parse_homepage_info_def new_HomepageInfo_def eval_nat_numeral
        1(1) 2(1) 3(1) 4(1) 5(1) 6(1) 7(1) 8(1) 9(1) 10(1) 11 u)
qed

declare get_fields.simps [simp del]

lemma enc32_low: "enc32 LITTLE w = enc16 LITTLE (ucast w) @ [octet 16 w, octet 24 w]"
proof -
  have "octet n w = octet n (ucast w :: u16)" if "n + 8 \<le> 16" for n
    using that by (intro bit_word_eqI) (auto simp: bit_octet bit_simps)
  then show ?thesis
    by (simp add: enc32.simps enc16.simps)
qed

lemma enc32_small:
  assumes "c \<in> {0..<65536}"
  shows "enc32 LITTLE (word_of_int c) = enc16 LITTLE (word_of_int c) @ [0, 0]"
proof -
  have "word_of_int c = (ucast (word_of_int c :: u16) :: u32)"
    using assms by (simp add: word_uint_eq_iff uint_word_of_int unsigned_ucast_eq take_bit_eq_mod)
  moreover have "octet n (ucast (v :: u16) :: u32) = 0" if "16 \<le> n" for n v
    using that by (intro bit_word_eqI) (auto simp: bit_octet bit_simps dest: bit_imp_le_length)
  moreover have "ucast (ucast v :: u32) = (v :: u16)" for v
    by (rule bit_word_eqI) (simp add: bit_simps)
  ultimately show ?thesis
    by (subst enc32_low) simp
qed

lemma parse_main_home_info_enc:
  assumes "at b LITTLE (enc_main_home_info i)" and "\<forall>s\<in>set (home_fields i). length s < 65535"
    and "home_country i \<in> {0..<65536}" and "digits_inv i"
  shows "\<exists>b'. parse_main_home_info new_MainHomeInfo b = Inr (i\<lparr>timezone := 0\<rparr>, b')"
proof -
  have n: "replicate (length (home_fields i)) [] = [[], [], [], [], [], [], [], [], [], [], []]"
    by (simp add: home_fields_def)
  obtain b1 where 1: "get_fields [[], [], [], [], [], [], [], [], [], [], []] b = Inr (home_fields i, b1)"
    "at b1 LITTLE (enc16 LITTLE (word_of_int (home_country i)) @ [0] @ [0] @ enc16 LITTLE (ucast (word_of_int (timezone i) :: u32)) @
       [octet 16 (word_of_int (timezone i) :: u32), octet 24 (word_of_int (timezone i) :: u32), 0])"
    using get_fields_enc [OF assms(2) assms(1) [unfolded enc_main_home_info_def]]
    unfolding n enc32_small [OF assms(3)] enc32_low [of "word_of_int (timezone i)"] by auto
  note 2 = rd_u16 [OF 1(2)]
  have "at (advance 2 b1) LITTLE (0 # 0 # enc16 LITTLE (ucast (word_of_int (timezone i) :: u32)) @
       [octet 16 (word_of_int (timezone i) :: u32), octet 24 (word_of_int (timezone i) :: u32), 0])"
    using 2(2) by simp
  note 3 = rd_u8 [OF this]
  note 4 = rd_u16 [OF rd_u8(2) [OF 3(2)]]
  have u: "uint (word_of_int (home_country i) :: u16) = home_country i"
    using assms(3) by (simp add: uint_word_of_int)
  have "home_fields i ! 9 = cellular i" "home_fields i ! 10 = home_zip i"
    by (simp_all add: home_fields_def)
  then show ?thesis
    using assms(4) 1(1) 2(1) 3(1) 4(1) u
    by (simp add: parse_main_home_info_def new_MainHomeInfo_def home_fields_def info_setMobileNo_def
        normaliseMobileNo_def digits_inv_def)
qed

lemma new_infos:
  "sr_work_info new_srv_response = new_WorkInfo" "sr_homepage_info new_srv_response = new_HomepageInfo"
  "sr_main_home_info new_srv_response = new_MainHomeInfo" "sr_about new_srv_response = []"
  by (simp_all add: new_srv_response_def)

lemma work_reply:
  assumes "\<forall>s\<in>set (request_strings (SrvUpdateWorkInfo uin w)). length s < 65535"
  shows "\<exists>s b. SrvResponseSNAC_ParseBody (info_reply uin rid SrvResponse_WorkInfo st (enc_work_info w)) = Inr (s, b) \<and>
    sr_work_info s = w"
proof -
  have "length (enc_work_info w) < 2 ^ 30"
    using assms by (simp add: enc_work_info_def length_enc_fields)
  then obtain b d where 1: "at d LITTLE (enc_work_info w)" "get_u8 b = Inr (st, d)"
    "SrvResponseSNAC_ParseBody (info_reply uin rid SrvResponse_WorkInfo st (enc_work_info w)) =
      ParseDetailedUserInfo SrvResponse_WorkInfo new_srv_response b"
    by (rule detailed_reply [where sub = SrvResponse_WorkInfo]) auto
  obtain b' where "parse_work_info new_WorkInfo d = Inr (w, b')"
    using parse_work_info_enc [OF 1(1) assms] by blast
  then show ?thesis
    using 1(2,3) by (simp add: ParseDetailedUserInfo_def new_infos SrvResponse_defs)
qed

lemma page_reply:
  assumes "length (homepage h) < 65535" and "{sex h, lang1 h, lang2 h, lang3 h} \<subseteq> {0..<256}"
  shows "\<exists>s b. SrvResponseSNAC_ParseBody (info_reply uin rid SrvResponse_HomePageInfo st (enc_homepage_info h)) = Inr (s, b) \<and>
    sr_homepage_info s = h"
proof -
  have "length (enc_homepage_info h) < 2 ^ 30"
    using assms(1) by (simp add: enc_homepage_info_def)
  then obtain b d where 1: "at d LITTLE (enc_homepage_info h)" "get_u8 b = Inr (st, d)"
    "SrvResponseSNAC_ParseBody (info_reply uin rid SrvResponse_HomePageInfo st (enc_homepage_info h)) =
      ParseDetailedUserInfo SrvResponse_HomePageInfo new_srv_response b"
    by (rule detailed_reply [where sub = SrvResponse_HomePageInfo]) auto
  obtain b' where "parse_homepage_info new_HomepageInfo d = Inr (h, b')"
    using parse_homepage_info_enc [OF 1(1) assms] by blast
  then show ?thesis
    using 1(2,3) by (simp add: ParseDetailedUserInfo_def new_infos SrvResponse_defs)
qed

lemma about_reply:
  assumes "length about < 65535"
  shows "\<exists>s b. SrvResponseSNAC_ParseBody (info_reply uin rid SrvResponse_AboutInfo st (enc_stringnull LITTLE about)) = Inr (s, b) \<and>
    sr_about s = about"
proof -
  have "length (enc_stringnull LITTLE about) < 2 ^ 30"
    using assms by simp
  then obtain b d where 1: "at d LITTLE (enc_stringnull LITTLE about)" "get_u8 b = Inr (st, d)"
    "SrvResponseSNAC_ParseBody (info_reply uin rid SrvResponse_AboutInfo st (enc_stringnull LITTLE about)) =
      ParseDetailedUserInfo SrvResponse_AboutInfo new_srv_response b"
    by (rule detailed_reply [where sub = SrvResponse_AboutInfo]) auto
  show ?thesis
    using 1(2,3) rd_null(1) [of d LITTLE about "[]" "[]"] 1(1) assms
    by (simp add: ParseDetailedUserInfo_def new_infos SrvResponse_defs)
qed

lemma home_reply:
  assumes "\<forall>s\<in>set (home_fields i). length s < 65535" and "home_country i \<in> {0..<65536}" and "digits_inv i"
  shows "\<exists>s b. SrvResponseSNAC_ParseBody (info_reply uin rid SrvResponse_MainHomeInfo st (enc_main_home_info i)) = Inr (s, b) \<and>
    sr_main_home_info s = i\<lparr>timezone := 0\<rparr>"
proof -
  have "length (enc_main_home_info i) < 2 ^ 30"
    using assms(1) by (simp add: enc_main_home_info_def length_enc_fields home_fields_def)
  then obtain b d where 1: "at d LITTLE (enc_main_home_info i)" "get_u8 b = Inr (st, d)"
    "SrvResponseSNAC_ParseBody (info_reply uin rid SrvResponse_MainHomeInfo st (enc_main_home_info i)) =
      ParseDetailedUserInfo SrvResponse_MainHomeInfo new_srv_response b"
    by (rule detailed_reply [where sub = SrvResponse_MainHomeInfo]) auto
  obtain b' where "parse_main_home_info new_MainHomeInfo d = Inr (i\<lparr>timezone := 0\<rparr>, b')"
    using parse_main_home_info_enc [OF 1(1) assms] by blast
  then show ?thesis
    using 1(2,3) by (simp add: ParseDetailedUserInfo_def new_infos SrvResponse_defs)
qed

text \<open>What a user stores as work information, home page information or text about himself is
  what the library reads when the server sends the same bytes back in its reply: the requests to
  change them and ParseDetailedUserInfo agree on every field.\<close>

theorem own_info_roundtrip:
  assumes "length (m_data b) < 2 ^ 29" and "length about < 65535"
    and "\<forall>s\<in>set (request_strings (SrvUpdateWorkInfo uin w)). length s < 65535"
    and "length (homepage h) < 65535" and "{sex h, lang1 h, lang2 h, lang3 h} \<subseteq> {0..<256}"
  shows "\<exists>work page info s1 s2 s3 b1 b2 b3.
    SrvUpdateWorkInfo_OutputBody uin w rid b = Inr (updated uin rid 0x03f3 work b) \<and>
    SrvResponseSNAC_ParseBody (info_reply uin rid SrvResponse_WorkInfo st work) = Inr (s1, b1) \<and> sr_work_info s1 = w \<and>
    SrvUpdateHomepageInfo_OutputBody uin h rid b = Inr (updated uin rid 0x03fd page b) \<and>
    SrvResponseSNAC_ParseBody (info_reply uin rid SrvResponse_HomePageInfo st page) = Inr (s2, b2) \<and> sr_homepage_info s2 = h \<and>
    SrvUpdateAboutInfo_OutputBody uin about rid b = Inr (updated uin rid 0x0406 info b) \<and>
    SrvResponseSNAC_ParseBody (info_reply uin rid SrvResponse_AboutInfo st info) = Inr (s3, b3) \<and> sr_about s3 = about"
proof -
  have l: "length (m_data b) + length (enc_work_info w) < 2 ^ 31" "length (m_data b) + length (enc_homepage_info h) < 2 ^ 31"
    "length (m_data b) + length (enc_stringnull LITTLE about) < 2 ^ 31"
    using assms(1-4) by (simp_all add: enc_work_info_def enc_homepage_info_def length_enc_fields)
  show ?thesis
    using work_reply [OF assms(3), of rid st] page_reply [OF assms(4,5), of uin rid st] about_reply [OF assms(2), of uin rid st]
      updates_app(1) [OF l(1), of uin rid] updates_app(2) [OF l(2), of uin rid] updates_app(3) [OF l(3), of uin rid]
    by blast
qed

theorem own_info_roundtrip_witness:
  "\<exists>work page info s1 s2 s3 b1 b2 b3.
    SrvUpdateWorkInfo_OutputBody 7 (new_WorkInfo\<lparr>work_city := ''Rome''\<rparr>) 9 new_buffer = Inr (updated 7 9 0x03f3 work new_buffer) \<and>
    SrvResponseSNAC_ParseBody (info_reply 7 9 SrvResponse_WorkInfo 0x0a work) = Inr (s1, b1) \<and>
      sr_work_info s1 = new_WorkInfo\<lparr>work_city := ''Rome''\<rparr> \<and>
    SrvUpdateHomepageInfo_OutputBody 7 (new_HomepageInfo\<lparr>lang1 := 6\<rparr>) 9 new_buffer = Inr (updated 7 9 0x03fd page new_buffer) \<and>
    SrvResponseSNAC_ParseBody (info_reply 7 9 SrvResponse_HomePageInfo 0x0a page) = Inr (s2, b2) \<and>
      sr_homepage_info s2 = new_HomepageInfo\<lparr>lang1 := 6\<rparr> \<and>
    SrvUpdateAboutInfo_OutputBody 7 ''me'' 9 new_buffer = Inr (updated 7 9 0x0406 info new_buffer) \<and>
    SrvResponseSNAC_ParseBody (info_reply 7 9 SrvResponse_AboutInfo 0x0a info) = Inr (s3, b3) \<and> sr_about s3 = ''me''"
  using own_info_roundtrip [of new_buffer "''me''" 7 "new_WorkInfo\<lparr>work_city := ''Rome''\<rparr>" "new_HomepageInfo\<lparr>lang1 := 6\<rparr>" 9 "0x0a"]
  by (simp add: new_WorkInfo_def new_HomepageInfo_def)

text \<open>The main home information does not survive: the country and the time zone are written as four
  bytes each, but two and one are read, so every time zone comes back as 0; the other fields
  survive.\<close>

theorem home_info_loses_timezone:
  assumes "length (m_data b) < 2 ^ 29" and "\<forall>s\<in>set (home_fields i). length s < 65535"
    and "home_country i \<in> {0..<65536}" and "digits_inv i"
  shows "\<exists>info s d. SrvUpdateMainHomeInfo_OutputBody uin i rid b = Inr (updated uin rid 0x03ea info b) \<and>
    SrvResponseSNAC_ParseBody (info_reply uin rid SrvResponse_MainHomeInfo st info) = Inr (s, d) \<and>
    sr_main_home_info s = i\<lparr>timezone := 0\<rparr>"
proof -
  have "length (m_data b) + length (enc_main_home_info i) < 2 ^ 31"
    using assms(1,2) by (simp add: enc_main_home_info_def length_enc_fields home_fields_def)
  from updates_app(4) [OF this, of uin rid] show ?thesis
    using home_reply [OF assms(2-4), of uin rid st] by blast
qed

theorem home_info_loses_timezone_witness:
  "\<exists>info s d. SrvUpdateMainHomeInfo_OutputBody 7 (new_MainHomeInfo\<lparr>home_country := 39\<rparr>) 9 new_buffer =
      Inr (updated 7 9 0x03ea info new_buffer) \<and>
    SrvResponseSNAC_ParseBody (info_reply 7 9 SrvResponse_MainHomeInfo 0x0a info) = Inr (s, d) \<and>
    sr_main_home_info s = new_MainHomeInfo\<lparr>home_country := 39, timezone := 0\<rparr> \<and> timezone new_MainHomeInfo = - 100"
  using home_info_loses_timezone [of new_buffer "new_MainHomeInfo\<lparr>home_country := 39\<rparr>" 7 9 "0x0a"]
  by (simp add: new_MainHomeInfo_def home_fields_def digits_inv_def)

section \<open>The calendar\<close>

fun leap_year :: "int \<Rightarrow> bool" where
  "leap_year y \<longleftrightarrow> y mod 4 = 0 \<and> (y mod 100 \<noteq> 0 \<or> y mod 400 = 0)"

declare leap_year.simps [simp del]

fun days_before_year :: "nat \<Rightarrow> int" where
  "days_before_year 0 = 0"
| "days_before_year (Suc n) = days_before_year n + (if leap_year (epoch + int n) then 366 else 365)"

definition month_length :: "bool \<Rightarrow> int list" where
  "month_length leap = [31, if leap then 29 else 28, 31, 30, 31, 30, 31, 31, 30, 31, 30, 31]"

definition days_before_month :: "int \<Rightarrow> nat \<Rightarrow> int" where
  "days_before_month y m = sum_list (take m (month_length (leap_year y)))"

definition seconds_from_epoch :: "nat \<Rightarrow> nat \<Rightarrow> tm \<Rightarrow> int" where
  "seconds_from_epoch n m t =
     (let days = days_before_year n + days_before_month (epoch + int n) m + (tm_mday t - 1)
      in ((days * 24 + tm_hour t) * 60 + tm_min t) * 60 + tm_sec t)"

lemma sdiv_nonneg: "0 \<le> a \<Longrightarrow> 0 < b \<Longrightarrow> a sdiv b = a div (b :: int)"
  by (cases "a = 0") (simp_all add: signed_divide_int_def)

text \<open>Years and months as tables.\<close>

lemma calendar_tables:
  "list_all (\<lambda>n. leap_year (1970 + n) = ((n + 2) mod 4 = 0) \<and> (n + 70) div 100 = (n + 370) div 400)
     [0..129]"
  "list_all (\<lambda>m. sum_list (take m (month_length True)) = month_days ! m + (if 2 \<le> m then 1 else 0))
     [0..<12]"
  "list_all (\<lambda>m. sum_list (take m (month_length False)) = month_days ! m) [0..<12]"
  by code_simp+

lemma year_table:
  assumes "n < 130"
  shows "leap_year (epoch + int n) \<longleftrightarrow> (int n + 2) mod 4 = 0"
    and "(int n + 70) div 100 = (int n + 370) div 400"
  using calendar_tables(1) assms unfolding list_all_iff by (auto simp: epoch_def)

lemma days_before_year_closed: "n < 131 \<Longrightarrow> days_before_year n = 365 * int n + (int n + 1) div 4"
proof (induction n)
  case (Suc n)
  have "(int n + 2) div 4 = (int n + 1) div 4 + (if (int n + 2) mod 4 = 0 then 1 else 0)"
    by presburger
  with Suc show ?case
    by (simp add: year_table(1) algebra_simps)
qed simp

lemma days_before_month_table:
  assumes "m < 12"
  shows "days_before_month y m = month_days ! m + (if leap_year y \<and> 2 \<le> m then 1 else 0)"
  using calendar_tables(2,3) assms
  by (cases "leap_year y") (auto simp: list_all_iff days_before_month_def)

section \<open>Responses stay inside the packet\<close>

lemma bounded_fields: "bounded (65538 * length ss) (get_fields ss)"
proof (induction ss)
  case (Cons s ss)
  have "bounded (65538 + (65538 * length ss + 0)) (get_fields (s # ss))"
    unfolding get_fields.simps [abs_def]
    by (intro bounded_bind Cons.IH bounded_UnpackUint16StringNull bounded_return)
  then show ?case
    by (rule bounded_mono) simp
qed (simp add: get_fields.simps [abs_def] bounded_return)

lemma bounded_bytes: "bounded n (inp_n get_u8 n)"
proof (induction n)
  case (Suc n)
  have "bounded (1 + (n + 0)) (inp_n get_u8 (Suc n))"
    unfolding inp_n.simps [abs_def]
    by (intro bounded_bind Suc.IH bounded_get_u8 bounded_return)
  then show ?case by (rule bounded_mono) simp
qed (simp add: bounded_return)

lemmas bounded_reads = bounded_bind bounded_fields bounded_bytes bounded_get_u8 bounded_get_u16 bounded_get_u32
  bounded_UnpackUint16StringNull bounded_return bounded_skip

lemma bounded_category: "bounded 65540 get_category"
proof -
  have "bounded (2 + (65538 + 0)) get_category"
    unfolding get_category_def [abs_def] by (intro bounded_reads)
  then show ?thesis by simp
qed

lemma bounded_emails: "bounded (65538 * n) (parse_emails n i)"
proof (induction n arbitrary: i)
  case (Suc n)
  have "bounded (65538 + 65538 * n) (parse_emails (Suc n) i)"
    unfolding parse_emails.simps [abs_def] by (intro bounded_reads Suc.IH)
  then show ?case by (rule bounded_mono) simp
qed (simp add: parse_emails.simps(1) [abs_def] bounded_return)

lemma bounded_interests: "bounded (65540 * n) (parse_interests n i)"
proof (induction n arbitrary: i)
  case (Suc n)
  have "bounded (65540 + 65540 * n) (parse_interests (Suc n) i)"
    unfolding parse_interests.simps [abs_def]
    by (intro bounded_bind bounded_category) (simp add: Suc.IH split: prod.split)
  then show ?case by (rule bounded_mono) simp
qed (simp add: parse_interests.simps(1) [abs_def] bounded_return)

lemma bounded_schools: "bounded (65540 * n) (parse_schools n i)"
proof (induction n arbitrary: i)
  case (Suc n)
  have "bounded (65540 + 65540 * n) (parse_schools (Suc n) i)"
    unfolding parse_schools.simps [abs_def]
    by (intro bounded_bind bounded_category) (simp add: Suc.IH split: prod.split)
  then show ?case by (rule bounded_mono) simp
qed (simp add: parse_schools.simps(1) [abs_def] bounded_return)

lemma bounded_main_home_info: "bounded 720927 (parse_main_home_info i)"
proof -
  have s: "bounded (1 + (2 + 0)) (\<lambda>b. andThen (get_u16 (advance 1 b)) (\<lambda>(wi, b). Inr (f wi, b)))"
    for f :: "u16 \<Rightarrow> main_home_info"
    by (rule bounded_skip [of _ "\<lambda>b. andThen (get_u16 b) _"]) (intro bounded_reads, simp)
  have "bounded (65538 * length [home_alias i, firstname i, lastname i, email i, home_city i, home_state i,
                phone i, fax i, home_street i, [], home_zip i] + (2 + (1 + (1 + (2 + 0))))) (parse_main_home_info i)"
    unfolding parse_main_home_info_def [abs_def] by (intro bounded_bind bounded_reads s)
  then show ?thesis by (rule bounded_mono) simp
qed

lemma bounded_homepage_info: "bounded 65550 (parse_homepage_info i)"
proof -
  have "bounded (3 + (65538 + (2 + (7 + 0)))) (parse_homepage_info i)"
    unfolding parse_homepage_info_def [abs_def] by (intro bounded_reads)
  then show ?thesis by simp
qed

lemma bounded_work_info: "bounded 655384 (parse_work_info i)"
proof -
  have s: "bounded (2 + (65538 + 0)) (\<lambda>b. andThen (UnpackUint16StringNull t (advance 2 b)) (\<lambda>(web, b). Inr (f web, b)))"
    for t and f :: "string \<Rightarrow> work_info"
    by (rule bounded_skip [of _ "\<lambda>b. andThen (UnpackUint16StringNull t b) _"]) (intro bounded_reads, simp)
  have "bounded (65538 + (65538 + (65538 + (65538 + (65538 + (65538 + (2 + (65538 + (65538 + (65538 + (2 + (65538 + 0))))))))))))
     (parse_work_info i)"
    unfolding parse_work_info_def [abs_def] by (intro bounded_bind bounded_UnpackUint16StringNull bounded_get_u16 s)
  then show ?thesis by simp
qed

abbreviation response_limit :: nat where "response_limit \<equiv> 16777216"

lemma bounded_detailed: "bounded response_limit (ParseDetailedUserInfo sub s)"
proof -
  have emails: "bounded 16712191 (\<lambda>b. andThen (get_u8 b) (\<lambda>(n, b). andThen (parse_emails (unat n) i b) (\<lambda>(i, b). Inr (f i, b))))"
    for i and f :: "email_info \<Rightarrow> srv_response"
  proof -
    have "bounded 16712190 (parse_emails (unat n) i)" for n :: u8
      using unat_u8_le [of n] by (intro bounded_mono [OF bounded_emails]) simp
    then have "bounded (1 + (16712190 + 0)) (\<lambda>b. andThen (get_u8 b) (\<lambda>(n, b). andThen (parse_emails (unat n) i b) (\<lambda>(i, b). Inr (f i, b))))"
      by (intro bounded_reads)
    then show ?thesis by simp
  qed
  have interests: "bounded 16712701 (\<lambda>b. andThen (get_u8 b) (\<lambda>(n, b). andThen (parse_interests (unat n) i b) (\<lambda>(i, b). Inr (f i, b))))"
    for i and f :: "personal_interest_info \<Rightarrow> srv_response"
  proof -
    have "bounded 16712700 (parse_interests (unat n) i)" for n :: u8
      using unat_u8_le [of n] by (intro bounded_mono [OF bounded_interests]) simp
    then have "bounded (1 + (16712700 + 0)) (\<lambda>b. andThen (get_u8 b) (\<lambda>(n, b). andThen (parse_interests (unat n) i b) (\<lambda>(i, b). Inr (f i, b))))"
      by (intro bounded_reads)
    then show ?thesis by simp
  qed
  have schools: "bounded 16712702 (\<lambda>b. andThen (get_u8 b) (\<lambda>(n, b). andThen (parse_schools (unat n) i b) (\<lambda>(i, b).
      andThen (get_u8 b) (\<lambda>(junk, b). Inr (f i, b)))))" for i and f :: "background_info \<Rightarrow> srv_response"
  proof -
    have "bounded 16712700 (parse_schools (unat n) i)" for n :: u8
      using unat_u8_le [of n] by (intro bounded_mono [OF bounded_schools]) simp
    then have "bounded (1 + (16712700 + (1 + 0))) (\<lambda>b. andThen (get_u8 b) (\<lambda>(n, b). andThen (parse_schools (unat n) i b) (\<lambda>(i, b).
      andThen (get_u8 b) (\<lambda>(junk, b). Inr (f i, b)))))"
      by (intro bounded_reads)
    then show ?thesis by simp
  qed
  have rest: "bounded (720927 + 0) (\<lambda>b. andThen (parse_main_home_info i1 b) (\<lambda>(i, b). Inr (f1 i, b)))"
    "bounded (65550 + 0) (\<lambda>b. andThen (parse_homepage_info i2 b) (\<lambda>(i, b). Inr (f2 i, b)))"
    "bounded (655384 + 0) (\<lambda>b. andThen (parse_work_info i3 b) (\<lambda>(i, b). Inr (f3 i, b)))"
    "bounded (65538 + 0) (\<lambda>b. andThen (UnpackUint16StringNull t b) (\<lambda>(i, b). Inr (f4 i, b)))"
    "bounded (2 + 0) (\<lambda>b. andThen (get_u16 b) (\<lambda>(i, b). Inr (f5 i, b)))" for i1 i2 i3 t
      and f1 f2 f3 f4 f5 :: "_ \<Rightarrow> srv_response"
    by (intro bounded_reads bounded_main_home_info bounded_homepage_info bounded_work_info)+
  have "bounded (1 + 16712702) (ParseDetailedUserInfo sub s)"
    unfolding ParseDetailedUserInfo_def [abs_def]
    by (intro bounded_bind bounded_get_u8 bounded_if bounded_throw emails [THEN bounded_mono]
        interests [THEN bounded_mono] schools [THEN bounded_mono] rest [THEN bounded_mono]) simp_all
  then show ?thesis
    by (rule bounded_mono) simp
qed

lemma bounded_sex_age: "bounded 3 (parse_sex_age s)"
proof -
  have 1: "bounded (1 + (1 + (1 + 0))) (\<lambda>b. andThen (get_u8 b) (\<lambda>(sx, b). andThen (get_u8 b) (\<lambda>(ag, b).
        andThen (get_u8 b) (\<lambda>(wb, b). Inr (s\<lparr>sr_sex := Some sx, sr_age := Some ag\<rparr>, b)))))"
    by (intro bounded_reads)
  show ?thesis
  proof (rule boundedI)
    fix b :: buffer assume b: "unat (m_out_pos b) + 3 < 2 ^ 32" "length (m_data b) < 2 ^ 32"
    show "(\<exists>x b'. parse_sex_age s b = Inr (x, b') \<and> step_within 3 b b') \<or> (\<exists>msg. parse_sex_age s b = Inl (ParseException msg))"
      using boundedD [OF 1, of b] b by (auto simp: parse_sex_age_def step_within_def)
  qed
qed

lemma bounded_simple: "bounded response_limit (ParseSimpleUserInfo sub s)"
proof -
  have found: "bounded (2 + (4 + (65538 + (65538 + (65538 + (65538 + (1 + (1 + (1 + 0))))))))) (parse_found_contact s)" for s
    unfolding parse_found_contact_def [abs_def] by (intro bounded_reads)
  have tail: "bounded (4 + 0) (\<lambda>b. if c then andThen (get_u32 b) (\<lambda>(n, b). Inr (f n, b)) else Inr (s', b))"
    for c s' and f :: "u32 \<Rightarrow> srv_response"
    by (intro bounded_if bounded_reads)
  have "bounded (1 + ((2 + (4 + (65538 + (65538 + (65538 + (65538 + (1 + (1 + (1 + 0))))))))) + (3 + (4 + 0)))) (ParseSimpleUserInfo sub s)"
    unfolding ParseSimpleUserInfo_def [abs_def] Let_def
    by (intro bounded_bind bounded_get_u8 bounded_if bounded_return found bounded_sex_age tail)
  then show ?thesis
    by (rule bounded_mono) simp
qed

lemma bounded_random: "bounded response_limit (ParseRandomChatFound s)"
proof -
  have "bounded (1 + (4 + (1 + 0))) (ParseRandomChatFound s)"
    unfolding ParseRandomChatFound_def [abs_def] by (intro bounded_reads)
  then show ?thesis
    by (rule bounded_mono) simp
qed

lemma bounded_change_ack: "bounded response_limit (ParseInfoChangeAck sub s)"
proof (cases "info_change_ack sub")
  case (Some t)
  have "bounded 1 (ParseInfoChangeAck sub s)"
    by (rule boundedI) (auto simp: ParseInfoChangeAck_def Some Let_def intro!: step_advance)
  then show ?thesis
    by (rule bounded_mono) simp
qed (simp add: ParseInfoChangeAck_def [abs_def] bounded_throw)

text \<open>Whatever the server sends as user information, search result, chat partner or
  acknowledgement, reading it ends within the packet: a value, or a parse exception, with the data
  unchanged and the position moved by at most 2 to the 24.\<close>

theorem user_info_in_range:
  assumes "unat (m_out_pos b) + response_limit < 2 ^ 32" and "length (m_data b) < 2 ^ 32"
    and "parse \<in> {ParseSimpleUserInfo sub s, ParseDetailedUserInfo sub s, ParseRandomChatFound s, ParseInfoChangeAck sub s}"
  shows "(\<exists>s' b'. parse b = Inr (s', b') \<and> step_within response_limit b b') \<or> (\<exists>msg. parse b = Inl (ParseException msg))"
proof -
  have "bounded response_limit parse"
    using assms(3) bounded_simple bounded_detailed bounded_random bounded_change_ack by auto
  from boundedD [OF this assms(1,2)] show ?thesis .
qed

theorem user_info_in_range_witness:
  "(\<exists>s' b'. ParseDetailedUserInfo SrvResponse_EmailInfo new_srv_response (buffer_of_bytes [10, 255]) = Inr (s', b') \<and>
      step_within response_limit (buffer_of_bytes [10, 255]) b') \<or>
    (\<exists>msg. ParseDetailedUserInfo SrvResponse_EmailInfo new_srv_response (buffer_of_bytes [10, 255]) = Inl (ParseException msg))"
  using user_info_in_range [of "buffer_of_bytes [10, 255]" "ParseDetailedUserInfo SrvResponse_EmailInfo new_srv_response"
      SrvResponse_EmailInfo new_srv_response]
  by (simp add: buffer_of_bytes_def)

section \<open>Requests and times\<close>

text \<open>Every request is a block in a frame whose two length fields are exact (modulo 2 to the 16, their
  width): behind the type 1 the number of bytes that follow, in the byte order of the packet, then
  the length of the block in little endian; the block starts with the UIN of the user, a command and
  the low word of the request id.\<close>

theorem requests_framed:
  assumes "\<forall>s\<in>set (request_strings q). length s < 65535" and "length (m_data b) < 2 ^ 30"
  shows "\<exists>command rest b'. SrvRequest_OutputBody q timestr rid b = Some (Inr b') \<and>
    m_data b' = m_data b @ srv_framed (m_endn b) (srv_block (request_uin q) command rid rest)"
  using request_framed_aux [OF assms, of rid timestr] by (simp add: framed_request_def)

theorem requests_framed_witness:
  "\<exists>command rest b'. SrvRequest_OutputBody (SrvRequestKeywordSearch 5 ''chess'') [] 3 new_buffer = Some (Inr b') \<and>
    m_data b' = m_data new_buffer @ srv_framed (m_endn new_buffer) (srv_block 5 command 3 rest)"
  using requests_framed [of "SrvRequestKeywordSearch 5 ''chess''" new_buffer "[]" 3] by simp

text \<open>From 1970 to 2099 the time of a date is the number of seconds from 1970, counted through years and
  months, except that from March on in a leap year it is a day short: the correction for leap years
  looks at the years before only.\<close>

theorem gmt_mktime_days:
  assumes "n < 130" and "m < 12" and "tm_year t = int n + 70" and "tm_mon t = int m"
  shows "gmt_mktime t = Inr (seconds_from_epoch n m t -
    (if leap_year (epoch + int n) \<and> 2 \<le> m then 24 * 60 * 60 else 0))"
  using assms days_before_year_closed [of n] days_before_month_table [of m "epoch + int n"]
    year_table(2) [of n]
  by (simp add: gmt_mktime_def seconds_from_epoch_def Let_def epoch_def sdiv_nonneg algebra_simps)

theorem gmt_mktime_days_witness:
  "gmt_mktime (message_tm 2000 3 1 0 0) = Inr (seconds_from_epoch 30 2 (message_tm 2000 3 1 0 0) - 86400) \<and>
   gmt_mktime (message_tm 2000 3 1 0 0) = gmt_mktime (message_tm 2000 2 29 0 0)"
proof
  show "gmt_mktime (message_tm 2000 3 1 0 0) = Inr (seconds_from_epoch 30 2 (message_tm 2000 3 1 0 0) - 86400)"
    using gmt_mktime_days [of 30 2 "message_tm 2000 3 1 0 0"]
    by (simp add: message_tm_def leap_year.simps epoch_def)
qed code_simp

text \<open>An offline message whose month is not between 1 and 12 is read with an index outside the table of
  the months, whatever the rest of the packet holds.\<close>

theorem offline_month_out_of_range:
  assumes "at b LITTLE (enc32 LITTLE sender @ enc16 LITTLE year @ [month, day, hour, minute] @ rest)"
    and "month = 0 \<or> 12 < month"
  shows "ParseOfflineMessage s b = Inl OutOfRange"
proof -
  note 1 = rd_u32 [OF assms(1)]
  note 2 = rd_u16 [OF 1(2), simplified]
  note 3 = rd_u8 [OF 2(2)]
  note 4 = rd_u8 [OF 3(2)]
  note 5 = rd_u8 [OF 4(2)]
  note 6 = rd_u8 [OF 5(2)]
  have "uint month - 1 < 0 \<or> 12 \<le> uint month - 1"
    using assms(2) by (auto simp: word_less_def)
  then have "gmt_mktime (message_tm year month day hour minute) = Inl OutOfRange"
    by (auto simp: gmt_mktime_def message_tm_def Let_def)
  then show ?thesis
    by (simp add: ParseOfflineMessage_def 1(1) 2(1) 3(1) 4(1) 5(1) 6(1))
qed

theorem offline_month_out_of_range_witness:
  "ParseOfflineMessage new_srv_response (setLittleEndian (buffer_of_bytes [1, 0, 0, 0, 210, 7, 13, 1, 12, 30])) = Inl OutOfRange"
  using offline_month_out_of_range [of "setLittleEndian (buffer_of_bytes [1, 0, 0, 0, 210, 7, 13, 1, 12, 30])" 1 2002 13 1 12 30 "[]"]
    at_little [of "[1, 0, 0, 0, 210, 7, 13, 1, 12, 30]"]
  by (simp add: enc32.simps enc16.simps octet_def)

end
