(* ===== verification/SnacParse.thy ===== *)
theory SnacParse
  imports SnacSbl SnacSrv
begin

text \<open>
  SNACs as a whole: the header and the classes of \<^verbatim>\<open>src/SNAC-base.h\<close> and \<^verbatim>\<open>src/SNAC-base.cpp\<close>, and
  \<^verbatim>\<open>ParseSNAC\<close> of \<^verbatim>\<open>src/SNAC.cpp\<close>, which makes an object for the family and the subtype of a packet and
  lets it read the rest. The class of an object and what it has read are one datatype each.
\<close>

section \<open>Subtypes\<close>

definition SNAC_GEN_ServerReady :: u16 where "SNAC_GEN_ServerReady = 0x0003"
definition SNAC_GEN_RateInfo :: u16 where "SNAC_GEN_RateInfo = 0x0007"
definition SNAC_GEN_RateInfoChange :: u16 where "SNAC_GEN_RateInfoChange = 0x000a"
definition SNAC_GEN_UserInfo :: u16 where "SNAC_GEN_UserInfo = 0x000f"
definition SNAC_GEN_MOTD :: u16 where "SNAC_GEN_MOTD = 0x0013"
definition SNAC_GEN_CapAck :: u16 where "SNAC_GEN_CapAck = 0x0018"
definition SNAC_BUD_Online :: u16 where "SNAC_BUD_Online = 0x000b"
definition SNAC_BUD_Offline :: u16 where "SNAC_BUD_Offline = 0x000c"
definition SNAC_MSG_Message :: u16 where "SNAC_MSG_Message = 0x0007"
definition SNAC_MSG_MessageACK :: u16 where "SNAC_MSG_MessageACK = 0x000b"
definition SNAC_MSG_OfflineUser :: u16 where "SNAC_MSG_OfflineUser = 0x000c"
definition SNAC_SRV_Response :: u16 where "SNAC_SRV_Response = 0x0003"
definition SNAC_UIN_RequestError :: u16 where "SNAC_UIN_RequestError = 0x0001"
definition SNAC_UIN_Response :: u16 where "SNAC_UIN_Response = 0x0005"
definition SNAC_SBL_Rights_Reply :: u16 where "SNAC_SBL_Rights_Reply = 0x0003"
definition SNAC_SBL_List_From_Server :: u16 where "SNAC_SBL_List_From_Server = 0x0006"
definition SNAC_SBL_Edit_ACK :: u16 where "SNAC_SBL_Edit_ACK = 0x000e"
definition SNAC_SBL_List_Unchanged :: u16 where "SNAC_SBL_List_Unchanged = 0x000f"

lemmas snac_subtypes = SNAC_GEN_ServerReady_def SNAC_GEN_RateInfo_def SNAC_GEN_RateInfoChange_def
  SNAC_GEN_UserInfo_def SNAC_GEN_MOTD_def SNAC_GEN_CapAck_def SNAC_BUD_Online_def SNAC_BUD_Offline_def
  SNAC_MSG_Message_def SNAC_MSG_MessageACK_def SNAC_MSG_OfflineUser_def SNAC_SRV_Response_def
  SNAC_UIN_RequestError_def SNAC_UIN_Response_def SNAC_SBL_Rights_Reply_def SNAC_SBL_List_From_Server_def
  SNAC_SBL_Edit_ACK_def SNAC_SBL_List_Unchanged_def

section \<open>Output\<close>

record snac_header =
  h_family :: u16
  h_subtype :: u16
  h_flags :: u16
  h_requestID :: u32

definition OutSNAC_OutputHeader :: "snac_header \<Rightarrow> buffer \<Rightarrow> buffer" where
  "OutSNAC_OutputHeader h b =
     (let b = put_u16 (h_family h) b;
          b = put_u16 (h_subtype h) b;
          b = put_u16 (h_flags h) b
      in put_u32 (h_requestID h) b)"

definition OutSNAC_Output :: "snac_header \<Rightarrow> (buffer \<Rightarrow> 'r) \<Rightarrow> buffer \<Rightarrow> 'r" where
  "OutSNAC_Output h out_body b = out_body (OutSNAC_OutputHeader h b)"

section \<open>Input\<close>

datatype snac_class =
    ServerReadySNAC | RateInfoSNAC | CapAckSNAC | UserInfoSNAC | MOTDSNAC | RateInfoChangeSNAC
  | BuddyOnlineSNAC | BuddyOfflineSNAC | MessageSNAC | MessageACKSNAC | MessageOfflineUserSNAC
  | SrvResponseSNAC | UINRequestErrorSNAC | UINResponseSNAC | SBLRightsReplySNAC | SBLListSNAC
  | SBLListUnchangedSNAC | SBLEditACKSNAC | RawSNAC u16 u16

datatype snac_body =
    ServerReady | RateInfo | CapAck | UserInfo user_info_block | MOTD "u8 \<times> string"
  | RateInfoChange rate_info_change | BuddyOnline user_info_block | BuddyOffline user_info_block
  | Message message_snac | MessageACK message_ack | MessageOfflineUser message_offline_user
  | SrvResponse srv_response | UINRequestError | UINResponse u32 | SBLRightsReply
  | SBLList "u16 \<times> sbl_list" | SBLListUnchanged | SBLEditACK "edit_result list" | Raw u16 u16

record in_snac =
  sn_flags :: u16
  sn_requestID :: u32
  sn_body :: snac_body

text \<open>
  The switch over the subtypes of server-based lists; it comes after that of the UIN family, which
  has no \<^verbatim>\<open>break\<close> at its end, so an object made there can be replaced.
\<close>

definition sbl_class :: "u16 \<Rightarrow> snac_class option \<Rightarrow> snac_class option" where
  "sbl_class subtype snac =
     (if subtype = SNAC_SBL_Rights_Reply then Some SBLRightsReplySNAC
      else if subtype = SNAC_SBL_List_From_Server then Some SBLListSNAC
      else if subtype = SNAC_SBL_List_Unchanged then Some SBLListUnchangedSNAC
      else if subtype = SNAC_SBL_Edit_ACK then Some SBLEditACKSNAC
      else snac)"

definition known_snac_class :: "u16 \<Rightarrow> u16 \<Rightarrow> snac_class option" where
  "known_snac_class family subtype =
     (if family = SNAC_FAM_GEN then
        (if subtype = SNAC_GEN_ServerReady then Some ServerReadySNAC
         else if subtype = SNAC_GEN_RateInfo then Some RateInfoSNAC
         else if subtype = SNAC_GEN_CapAck then Some CapAckSNAC
         else if subtype = SNAC_GEN_UserInfo then Some UserInfoSNAC
         else if subtype = SNAC_GEN_MOTD then Some MOTDSNAC
         else if subtype = SNAC_GEN_RateInfoChange then Some RateInfoChangeSNAC
         else None)
      else if family = SNAC_FAM_BUD then
        (if subtype = SNAC_BUD_Online then Some BuddyOnlineSNAC
         else if subtype = SNAC_BUD_Offline then Some BuddyOfflineSNAC
         else None)
      else if family = SNAC_FAM_MSG then
        (if subtype = SNAC_MSG_Message then Some MessageSNAC
         else if subtype = SNAC_MSG_MessageACK then Some MessageACKSNAC
         else if subtype = SNAC_MSG_OfflineUser then Some MessageOfflineUserSNAC
         else None)
      else if family = SNAC_FAM_SRV then
        (if subtype = SNAC_SRV_Response then Some SrvResponseSNAC else None)
      else if family = SNAC_FAM_UIN then
        (let snac = (if subtype = SNAC_UIN_RequestError then Some UINRequestErrorSNAC
                     else if subtype = SNAC_UIN_Response then Some UINResponseSNAC
                     else None)
         in sbl_class subtype snac)
      else if family = SNAC_FAM_SBL then sbl_class subtype None
      else None)"

definition snac_class :: "u16 \<Rightarrow> u16 \<Rightarrow> snac_class" where
  "snac_class family subtype =
     (case known_snac_class family subtype of None \<Rightarrow> RawSNAC family subtype | Some c \<Rightarrow> c)"

definition RawSNAC_ParseBody :: "buffer \<Rightarrow> buffer" where
  "RawSNAC_ParseBody b = advance (buf_size b) b"

text \<open>
  What the surroundings give to the parsers: the memory behind an unset capability, random numbers,
  the unset member of a new contact, and the store of contacts that a list adds to.
\<close>

record snac_env =
  env_cap0 :: "u8 list"
  env_rnd :: "nat \<Rightarrow> u16"
  env_indet :: "contact_ref \<Rightarrow> bool"
  env_list :: sbl_list

definition reads :: "('a \<Rightarrow> snac_body) \<Rightarrow> ('a \<times> buffer) result \<Rightarrow> (snac_body \<times> buffer) result option" where
  "reads f m = Some (andThen m (\<lambda>(x, b). Inr (f x, b)))"

definition skips :: "snac_body \<Rightarrow> buffer result option \<Rightarrow> (snac_body \<times> buffer) result option" where
  "skips x m = andThenO m (\<lambda>b. Some (Inr (x, b)))"

text \<open>The virtual \<^verbatim>\<open>ParseBody\<close>.\<close>

fun ParseSnacBody :: "snac_env \<Rightarrow> snac_class \<Rightarrow> buffer \<Rightarrow> (snac_body \<times> buffer) result option" where
  "ParseSnacBody env ServerReadySNAC b = skips ServerReady (ServerReadySNAC_ParseBody b)"
| "ParseSnacBody env RateInfoSNAC b = skips RateInfo (Some (RateInfoSNAC_ParseBody b))"
| "ParseSnacBody env CapAckSNAC b = skips CapAck (CapAckSNAC_ParseBody b)"
| "ParseSnacBody env UserInfoSNAC b = reads UserInfo (UserInfoSNAC_ParseBody (env_cap0 env) b)"
| "ParseSnacBody env MOTDSNAC b = reads MOTD (MOTDSNAC_ParseBody (env_cap0 env) b)"
| "ParseSnacBody env RateInfoChangeSNAC b = reads RateInfoChange (RateInfoChangeSNAC_ParseBody b)"
| "ParseSnacBody env BuddyOnlineSNAC b = reads BuddyOnline (BuddySNAC_ParseBody (env_cap0 env) b)"
| "ParseSnacBody env BuddyOfflineSNAC b = reads BuddyOffline (BuddySNAC_ParseBody (env_cap0 env) b)"
| "ParseSnacBody env MessageSNAC b = reads Message (MessageSNAC_ParseBody (env_cap0 env) b)"
| "ParseSnacBody env MessageACKSNAC b = reads MessageACK (MessageACKSNAC_ParseBody b)"
| "ParseSnacBody env MessageOfflineUserSNAC b = reads MessageOfflineUser (MessageOfflineUserSNAC_ParseBody b)"
| "ParseSnacBody env SrvResponseSNAC b = reads SrvResponse (SrvResponseSNAC_ParseBody b)"
| "ParseSnacBody env UINRequestErrorSNAC b = skips UINRequestError (Some (Inr (UINRequestErrorSNAC_ParseBody b)))"
| "ParseSnacBody env UINResponseSNAC b = reads UINResponse (UINResponseSNAC_ParseBody b)"
| "ParseSnacBody env SBLRightsReplySNAC b =
     skips SBLRightsReply (Some (SBLRightsReplySNAC_ParseBody (env_cap0 env) b))"
| "ParseSnacBody env SBLListSNAC b =
     andThenO (SBLListSNAC_ParseBody (env_cap0 env) (env_rnd env) (env_indet env) (env_list env) b)
       (\<lambda>(l, b). Some (Inr (SBLList l, b)))"
| "ParseSnacBody env SBLListUnchangedSNAC b = Some (Inr (SBLListUnchanged, b))"
| "ParseSnacBody env SBLEditACKSNAC b =
     andThenO (SBLEditACKSNAC_ParseBody b) (\<lambda>(rs, b). Some (Inr (SBLEditACK rs, b)))"
| "ParseSnacBody env (RawSNAC f t) b = Some (Inr (Raw f t, RawSNAC_ParseBody b))"

definition InSNAC_Parse :: "snac_env \<Rightarrow> snac_class \<Rightarrow> buffer \<Rightarrow> (in_snac \<times> buffer) result option" where
  "InSNAC_Parse env c b =
     andThenO (Some (get_u16 b)) (\<lambda>(flags, b).
     andThenO (Some (get_u32 b)) (\<lambda>(requestID, b).
     andThenO (ParseSnacBody env c b) (\<lambda>(x, b).
     Some (Inr (\<lparr>sn_flags = flags, sn_requestID = requestID, sn_body = x\<rparr>, b)))))"

definition ParseSNAC :: "snac_env \<Rightarrow> buffer \<Rightarrow> (in_snac \<times> buffer) result option" where
  "ParseSNAC env b =
     andThenO (Some (get_u16 b)) (\<lambda>(family, b).
     andThenO (Some (get_u16 b)) (\<lambda>(subtype, b).
     InSNAC_Parse env (snac_class family subtype) b))"

section \<open>The header\<close>

definition enc_header :: "snac_header \<Rightarrow> u8 list" where
  "enc_header h = enc16 BIG (h_family h) @ enc16 BIG (h_subtype h) @ enc16 BIG (h_flags h) @ enc32 BIG (h_requestID h)"

lemma OutputHeader_app: "m_endn b = BIG \<Longrightarrow> OutSNAC_OutputHeader h b = app (enc_header h) b"
  by (simp add: OutSNAC_OutputHeader_def enc_header_def put_app)

lemma ParseSNAC_header:
  assumes "at b BIG (enc_header h @ r)"
  obtains d where "at d BIG r" and "ParseSNAC env b =
    andThenO (ParseSnacBody env (snac_class (h_family h) (h_subtype h)) d) (\<lambda>(x, b).
      Some (Inr (\<lparr>sn_flags = h_flags h, sn_requestID = h_requestID h, sn_body = x\<rparr>, b)))" and "m_data d = m_data b"
proof -
  note 1 = rd_u16 [OF assms [unfolded enc_header_def append_assoc]]
  note 2 = rd_u16 [OF 1(2)]
  note 3 = rd_u16 [OF 2(2)]
  note 4 = rd_u32 [OF 3(2)]
  show ?thesis
    by (rule that [OF 4(2)]) (simp add: ParseSNAC_def InSNAC_Parse_def 1(1) 2(1) 3(1) 4(1), simp add: advance_def)
qed

text \<open>A SNAC that is written with any header and body is dispatched by its family and subtype to the
  parser of its class, which starts at the first byte of the body; flags and request id are those
  that were written.\<close>

theorem snac_header_roundtrip:
  assumes "m_endn b = BIG" and "m_data b = []" and "m_out_pos b = 0" and "length r < 2 ^ 30"
  shows "\<exists>d. at d BIG r \<and> ParseSNAC env (OutSNAC_Output h (app r) b) =
    andThenO (ParseSnacBody env (snac_class (h_family h) (h_subtype h)) d) (\<lambda>(x, b).
      Some (Inr (\<lparr>sn_flags = h_flags h, sn_requestID = h_requestID h, sn_body = x\<rparr>, b)))"
proof -
  have "at (OutSNAC_Output h (app r) b) BIG (enc_header h @ r)"
    using assms by (simp add: OutSNAC_Output_def OutputHeader_app)
      (simp add: app_def at_def wfb_def unread_def enc_header_def)
  then show ?thesis
    by (rule ParseSNAC_header [of _ h r env]) blast
qed

theorem snac_header_roundtrip_witness:
  "\<forall>env. \<exists>d. at d BIG [0, 3] \<and> ParseSNAC env (OutSNAC_Output \<lparr>h_family = 0x13, h_subtype = 0x0e, h_flags = 0, h_requestID = 7\<rparr>
      (app [0, 3]) new_buffer) =
    andThenO (ParseSnacBody env SBLEditACKSNAC d) (\<lambda>(x, b).
      Some (Inr (\<lparr>sn_flags = 0, sn_requestID = 7, sn_body = x\<rparr>, b)))"
proof
  fix env
  show "\<exists>d. at d BIG [0, 3] \<and> ParseSNAC env (OutSNAC_Output \<lparr>h_family = 0x13, h_subtype = 0x0e, h_flags = 0, h_requestID = 7\<rparr>
      (app [0, 3]) new_buffer) =
    andThenO (ParseSnacBody env SBLEditACKSNAC d) (\<lambda>(x, b).
      Some (Inr (\<lparr>sn_flags = 0, sn_requestID = 7, sn_body = x\<rparr>, b)))"
    using snac_header_roundtrip [of new_buffer "[0, 3]" env "\<lparr>h_family = 0x13, h_subtype = 0x0e, h_flags = 0, h_requestID = 7\<rparr>"]
    by (simp add: new_buffer_def snac_class_def known_snac_class_def sbl_class_def snac_families snac_subtypes)
qed

text \<open>The switch over the families falls through from UIN registration to server-based lists: a
  packet of the registration family that is neither of its two kinds is read as one of the contact
  list family with the same subtype.\<close>

theorem uin_family_falls_through:
  assumes "subtype \<notin> {SNAC_UIN_RequestError, SNAC_UIN_Response}"
  shows "known_snac_class SNAC_FAM_UIN subtype = known_snac_class SNAC_FAM_SBL subtype"
  using assms by (simp add: known_snac_class_def snac_families Let_def)

theorem uin_family_falls_through_witness:
  "known_snac_class SNAC_FAM_UIN 0x0006 = known_snac_class SNAC_FAM_SBL 0x0006 \<and>
   known_snac_class SNAC_FAM_UIN 0x0006 = Some SBLListSNAC"
  using uin_family_falls_through [of "0x0006"]
  by (simp add: known_snac_class_def sbl_class_def snac_families snac_subtypes Let_def)

section \<open>Termination\<close>

lemma get_u16_inside:
  assumes "unat (m_out_pos b) \<le> length (m_data b) + 2" and "length (m_data b) < 2 ^ 31"
  obtains x where "get_u16 b = Inr (x, advance 2 b)" and "unat (m_out_pos (advance 2 b)) = unat (m_out_pos b) + 2"
proof -
  have b: "unat (m_out_pos b) + 2 < 2 ^ 32" "length (m_data b) < 2 ^ 32"
    using assms by simp_all
  then obtain x where x: "get_u16 b = Inr (x, advance 2 b)"
    using boundedD [OF bounded_get_u16 b] no_throw_get_u16 [of b]
    by (auto simp: get_u16_def andThen_def split: sum.splits if_splits)
  then show thesis
    using that b unat_plus_u32 [of "m_out_pos b" 2] by simp
qed

lemma skip_families_total: "length (m_data b) < 2 ^ 31 \<Longrightarrow> \<exists>r. skip_families b = Some r"
proof (induction "length (m_data b) - unat (m_out_pos b)" arbitrary: b rule: less_induct)
  case less
  show ?case
  proof (cases "beforeEnd b")
    case True
    then have p: "unat (m_out_pos b) < length (m_data b)"
      by (simp add: beforeEnd_def)
    then obtain x where x: "get_u16 b = Inr (x, advance 2 b)" "unat (m_out_pos (advance 2 b)) = unat (m_out_pos b) + 2"
      using get_u16_inside [of b] less.prems by auto
    then have "length (m_data (advance 2 b)) - unat (m_out_pos (advance 2 b)) < length (m_data b) - unat (m_out_pos b)"
      using p by simp
    from less.hyps [OF this] show ?thesis
      using less.prems True x by (subst skip_families.simps) simp
  qed (simp add: skip_families.simps)
qed

lemma skip_versions_total: "length (m_data b) < 2 ^ 31 \<Longrightarrow> \<exists>r. skip_versions b = Some r"
proof (induction "length (m_data b) - unat (m_out_pos b)" arbitrary: b rule: less_induct)
  case less
  show ?case
  proof (cases "beforeEnd b")
    case True
    then have p: "unat (m_out_pos b) < length (m_data b)"
      by (simp add: beforeEnd_def)
    then obtain x where x: "get_u16 b = Inr (x, advance 2 b)" "unat (m_out_pos (advance 2 b)) = unat (m_out_pos b) + 2"
      using get_u16_inside [of b] less.prems by auto
    obtain y where y: "get_u16 (advance 2 b) = Inr (y, advance 2 (advance 2 b))"
      "unat (m_out_pos (advance 2 (advance 2 b))) = unat (m_out_pos (advance 2 b)) + 2"
      using get_u16_inside [of "advance 2 b"] p x(2) less.prems by auto
    have "length (m_data (advance 2 (advance 2 b))) - unat (m_out_pos (advance 2 (advance 2 b))) <
        length (m_data b) - unat (m_out_pos b)"
      using p x(2) y(2) by simp
    from less.hyps [OF this] show ?thesis
      using less.prems True x(1) y(1) by (subst skip_versions.simps) simp
  qed (simp add: skip_versions.simps)
qed

lemma edit_results_total:
  "length (m_data b) < 2 ^ 31 \<Longrightarrow> unat (m_out_pos b) \<le> length (m_data b) \<Longrightarrow> \<exists>r. edit_results rs b = Some r"
proof (induction "length (m_data b) - unat (m_out_pos b)" arbitrary: b rs rule: less_induct)
  case less
  show ?case
  proof (cases "2 \<le> remains b")
    case True
    have "unat (remains b) = length (m_data b) - unat (m_out_pos b)"
      using remains_word_at [of b "m_endn b" "unread b"] less.prems by (simp add: at_def wfb_def unread_def)
    then have p: "unat (m_out_pos b) + 2 \<le> length (m_data b)"
      using True less.prems(2) by (simp add: word_le_nat_alt)
    then obtain x where x: "get_u16 b = Inr (x, advance 2 b)" "unat (m_out_pos (advance 2 b)) = unat (m_out_pos b) + 2"
      using get_u16_inside [of b] less.prems by auto
    then have "length (m_data (advance 2 b)) - unat (m_out_pos (advance 2 b)) < length (m_data b) - unat (m_out_pos b)"
      using p by simp
    from less.hyps [OF this] show ?thesis
      using less.prems(1) p True x by (subst edit_results.simps) simp
  qed (simp add: edit_results.simps)
qed

lemma ParseSnacBody_total:
  assumes "fair (env_rnd env)" and "at d BIG r" and "length (m_data d) < 2 ^ 31 - 1"
  shows "\<exists>res. ParseSnacBody env c d = Some res"
proof -
  have p: "unat (m_out_pos d) \<le> length (m_data d)" "length (m_data d) < 2 ^ 31"
    using assms(2,3) by (simp_all add: at_def wfb_def)
  show ?thesis
  proof (cases c)
    case ServerReadySNAC
    then show ?thesis
      using skip_families_total [OF p(2)] by (auto simp: skips_def ServerReadySNAC_ParseBody_def andThenO_def split: sum.split)
  next
    case CapAckSNAC
    then show ?thesis
      using skip_versions_total [OF p(2)] by (auto simp: skips_def CapAckSNAC_ParseBody_def andThenO_def split: sum.split)
  next
    case SBLEditACKSNAC
    then show ?thesis
      using edit_results_total [OF p(2,1), of "[]"]
      by (auto simp: SBLEditACKSNAC_ParseBody_def andThenO_def split: sum.split)
  next
    case SBLListSNAC
    then show ?thesis
      using server_list_total [OF assms(1,3) p(1), of "env_cap0 env" "env_indet env" "env_list env"]
      by (auto simp: andThenO_def split: sum.split)
  qed (auto simp: skips_def reads_def andThenO_def split: sum.split)
qed

end
