(* ===== verification/ParserReturns.thy ===== *)
theory ParserReturns
  imports SnacParse
begin

text \<open>
  Reading a SNAC comes to an end: the loops over a packet end (\<open>SnacParse\<close>), and no parser reports that the fuel
  of the XML parser, or the nesting of TLVs the model allows for, was used up. So what comes back is a packet or
  an exception of the program.
\<close>

section \<open>Results that are not the end of the fuel\<close>

definition fed :: "'a result \<Rightarrow> bool" where
  "fed r \<longleftrightarrow> r \<noteq> Inl OutOfFuel"

definition fedO :: "'a result option \<Rightarrow> bool" where
  "fedO q \<longleftrightarrow> q \<noteq> Some (Inl OutOfFuel)"

named_theorems fed_rules \<open>parsers that do not run out of fuel\<close>

lemma fed_pure [fed_rules]:
  "fed (Inr x)" "fed (Inl (ParseException m))" "fed (Inl OutOfRange)" "fed (Inl Uninitialised)" "fed (Inl DivisionByZero)"
  "fed (Inl NullPointer)" "fed (Inl BadCast)"
  by (simp_all add: fed_def)

lemma fed_andThen [fed_rules]: "fed m \<Longrightarrow> (\<And>x. fed (f x)) \<Longrightarrow> fed (andThen m f)"
  by (cases m) (simp_all add: fed_def)

lemma fed_if [fed_rules]: "(c \<Longrightarrow> fed m) \<Longrightarrow> (\<not> c \<Longrightarrow> fed n) \<Longrightarrow> fed (if c then m else n)"
  by simp

lemma fed_Let [fed_rules]: "(\<And>x. fed (f x)) \<Longrightarrow> fed (Let v f)"
  unfolding Let_def .

lemma fed_case [fed_rules]:
  "fed m \<Longrightarrow> (\<And>x. fed (f x)) \<Longrightarrow> fed (case q of None \<Rightarrow> m | Some x \<Rightarrow> f x)"
  "(\<And>x y. fed (g x y)) \<Longrightarrow> fed (case p of (x, y) \<Rightarrow> g x y)"
  "(\<And>x y. fed (k x y z)) \<Longrightarrow> fed ((case p of (x, y) \<Rightarrow> k x y) z)"
  "fed n \<Longrightarrow> (\<And>x xs. fed (h x xs)) \<Longrightarrow> fed (case l of [] \<Rightarrow> n | x # xs \<Rightarrow> h x xs)"
  by (cases q; simp) ((cases p; simp)+, (cases l; simp))

lemma fedO_pure [fed_rules]: "fed r \<Longrightarrow> fedO (Some r)" "fedO None"
  by (simp_all add: fed_def fedO_def)

lemma fedO_andThenO [fed_rules]: "fedO m \<Longrightarrow> (\<And>x. fedO (f x)) \<Longrightarrow> fedO (andThenO m f)"
  by (auto simp: fedO_def andThenO_def split: option.split sum.split)

lemma fedO_case [fed_rules]:
  "fedO m \<Longrightarrow> (\<And>x. fedO (f x)) \<Longrightarrow> fedO (case q of None \<Rightarrow> m | Some x \<Rightarrow> f x)"
  "(\<And>x y. fedO (g x y)) \<Longrightarrow> fedO (case p of (x, y) \<Rightarrow> g x y)"
  "(c \<Longrightarrow> fedO m) \<Longrightarrow> (\<not> c \<Longrightarrow> fedO n) \<Longrightarrow> fedO (if c then m else n)"
  "(\<And>x. fedO (k x)) \<Longrightarrow> fedO (Let v k)"
  by (cases q, simp, simp) (cases p, simp, simp, simp add: Let_def)

lemma fed_case_result [fed_rules]:
  "fed r \<Longrightarrow> (\<And>x. fedO (f x)) \<Longrightarrow> fedO (case r of Inl e \<Rightarrow> Some (Inl e) | Inr x \<Rightarrow> f x)"
  by (cases r) (simp_all add: fed_def fedO_def)

section \<open>Buffers\<close>

lemma fed_bytes [fed_rules]: "fed (byte_at b i)" "fed (get_u8 b)" "fed (get_u16 b)" "fed (get_u32 b)"
proof -
  show *: "fed (byte_at b i)" for b i
    unfolding byte_at_def by (intro fed_rules)
  show "fed (get_u8 b)" "fed (get_u16 b)" "fed (get_u32 b)"
    unfolding get_u8_def get_u16_def get_u32_def by (intro fed_rules *)+
qed

lemma fed_strings [fed_rules]:
  "fed (Unpack s n b)" "fed (Unpack_bytes n b)" "fed (get_string s b)" "fed (UnpackUint32String s b)"
  "fed (UnpackUint16StringNull s b)" "fed (UnpackByteString s b)"
proof -
  show *: "fed (Unpack s n b)" for s n b
    unfolding Unpack_def by (intro fed_rules)
  show "fed (Unpack_bytes n b)" "fed (get_string s b)" "fed (UnpackUint32String s b)"
    "fed (UnpackUint16StringNull s b)" "fed (UnpackByteString s b)"
    unfolding Unpack_bytes_def get_string_def UnpackUint32String_def UnpackUint16StringNull_def UnpackByteString_def
    by (intro fed_rules *)+
qed

lemma fed_inp_n [fed_rules]: "(\<And>b. fed (f b)) \<Longrightarrow> fed (inp_n f n b)"
  by (induction n arbitrary: b) (auto intro!: fed_rules)

lemma fed_cookie [fed_rules]: "fed (cookie_parse b)"
  unfolding cookie_parse_def by (intro fed_rules)

lemma fed_caps [fed_rules]: "fed (caps_parse cap0 c len b)"
proof -
  have "fed (caps_parse_loop i cap c b)" for i cap c b
    by (induction i arbitrary: cap c b) (auto intro!: fed_rules)
  then show ?thesis
    unfolding caps_parse_def by (intro fed_rules)
qed

section \<open>Messages\<close>

lemma fed_xml [fed_rules]: "fed (xml_parse s)"
  by (simp add: fed_def xml_parse_fuel)

lemma fed_fields [fed_rules]:
  "fed (person_of_fields fs)" "fed (contacts_of_fields fs)" "fed (pager_of_fields fs)"
proof -
  show "fed (person_of_fields fs)"
    by (induction fs rule: person_of_fields.induct) (simp_all add: fed_rules)
  show "fed (contacts_of_fields fs)"
    by (induction fs rule: contacts_of_fields.induct) (auto intro!: fed_rules)
  show "fed (pager_of_fields fs)"
    by (induction fs rule: pager_of_fields.induct) (simp_all add: fed_rules)
qed

lemma fed_bodies [fed_rules]:
  "fed (Normal_ParseBodyUIN u msg multi b)" "fed (URL_ParseBodyUIN b)" "fed (AwayMsg_ParseBodyUIN t b)"
  "fed (AuthReq_ParseBodyUIN b)" "fed (AuthRej_ParseBodyUIN msg b)" "fed (AuthAcc_ParseBodyUIN b)"
  "fed (UserAdd_ParseBodyUIN b)" "fed (FT_ParseBodyUIN f b)" "fed (Contact_ParseBodyUIN content b)"
  unfolding Normal_ParseBodyUIN_def URL_ParseBodyUIN_def AwayMsg_ParseBodyUIN_def AuthReq_ParseBodyUIN_def
    AuthRej_ParseBodyUIN_def AuthAcc_ParseBodyUIN_def UserAdd_ParseBodyUIN_def FT_ParseBodyUIN_def Contact_ParseBodyUIN_def
  by (intro fed_rules)+

lemma fed_ParseBodyUIN [fed_rules]: "fed (ParseBodyUIN u ub b)" "fed (ParseBodyUINACK u ub b)"
  unfolding ParseBodyUIN_def ParseBodyUINACK_def by (cases ub; simp add: fed_rules; intro fed_rules)+

lemma fed_UIN_ParseBody [fed_rules]: "fed (UIN_ParseBody u ub b)"
  unfolding UIN_ParseBody_def by (intro fed_rules)

lemma fed_sms [fed_rules]: "fed (SMS_ParseBody s b)"
proof -
  have *: "fed (sms_of_xml ty root s)" for ty root s
    unfolding sms_of_xml_def by (cases ty) (auto intro!: fed_rules split: option.split)
  show ?thesis
    unfolding SMS_ParseBody_def by (intro fed_rules *)
qed

lemma fed_pagers [fed_rules]: "fed (EmailEx_ParseBody b)" "fed (WebPager_ParseBody b)"
  unfolding EmailEx_ParseBody_def WebPager_ParseBody_def by (intro fed_rules)+

lemma fed_ParseICQSubType [fed_rules]: "fed (ParseICQSubType adv ack b)"
proof -
  have 1: "fed (ParseBody s b)" for s b
    unfolding ParseBody_def by (cases s) (auto intro!: fed_rules split: prod.split)
  have 2: "fed (subtype_of_type ty multi)" for ty multi
    unfolding subtype_of_type_def Let_def by (intro fed_rules)
  show ?thesis
    unfolding ParseICQSubType_def by (intro fed_rules 1 2)
qed

section \<open>TLVs\<close>

lemma fed_map_value [fed_rules]: "fed m \<Longrightarrow> fed (map_value f m)"
  unfolding map_value_def by (intro fed_rules)

lemma fed_get_bytes [fed_rules]: "fed (get_bytes n b)"
  by (induction n arbitrary: b) (auto intro!: fed_rules)

lemma fed_values [fed_rules]:
  "fed (CharTLV_ParseValue b)" "fed (ShortTLV_ParseValue b)" "fed (LongTLV_ParseValue b)" "fed (StringTLV_ParseValue s b)"
  "fed (StatusTLV_ParseValue b)" "fed (RedirectTLV_ParseValue b)" "fed (CookieTLV_ParseValue b)"
  "fed (CapabilitiesTLV_ParseValue cap0 c b)" "fed (LANDetailsTLV_ParseValue d b)" "fed (RawTLV_ParseValue b)"
  "fed (MessageTextTLV_ParseValue msg b)" "fed (AdvMsgBodyTLV_ParseValue b)" "fed (SBLAwaitAuthTLV_ParseValue b)"
  "fed (SBLIdsTLV_ParseValue b)" "fed (ICQDataTLV_ParseValue b)"
  unfolding CharTLV_ParseValue_def ShortTLV_ParseValue_def LongTLV_ParseValue_def StringTLV_ParseValue_def
    StatusTLV_ParseValue_def RedirectTLV_ParseValue_def CookieTLV_ParseValue_def CapabilitiesTLV_ParseValue_def
    LANDetailsTLV_ParseValue_def RawTLV_ParseValue_def MessageTextTLV_ParseValue_def AdvMsgBodyTLV_ParseValue_def
    SBLAwaitAuthTLV_ParseValue_def SBLIdsTLV_ParseValue_def ICQDataTLV_ParseValue_def
  by (intro fed_rules)+

lemma fed_ParseValue_with:
  assumes "\<not> leaf_tlv t \<Longrightarrow> fed (nested t b)"
  shows "fed (ParseValue_with nested cap0 t b)"
  using assms unfolding ParseValue_with_def by (cases t; simp add: leaf_tlv_def; intro fed_rules)

lemma fed_TLVList_Parse_with:
  assumes "\<And>ty b. fed (pv (new_tlv pm ty) b)"
  shows "fed (TLVList_Parse_with pv pm n m b)"
  by (induction n arbitrary: m b) (auto intro!: fed_rules assms simp: ParseTLV_with_def)

text \<open>The lists inside a TLV hold no further lists, so the nesting the model allows for is enough.\<close>

lemma fed_inner:
  assumes "pm = TLV_ParseMode_InMessageData \<or> pm = TLV_ParseMode_InAdvMsgData"
  shows "fed (TLVList_Parse_with (ParseValue_with no_nested cap0) pm n m b)"
proof (rule fed_TLVList_Parse_with)
  have "leaf_tlv (new_tlv pm ty)" for ty
    using assms leaf_modes by auto
  then show "fed (ParseValue_with no_nested cap0 (new_tlv pm ty) b)" for ty b
    by (intro fed_ParseValue_with) simp
qed

lemma fed_ParseValue [fed_rules]: "fed (ParseValue cap0 t b)"
  unfolding ParseValue_def
proof (rule fed_ParseValue_with)
  assume "\<not> leaf_tlv t"
  then show "fed (nested_ParseValue cap0 t b)"
    unfolding nested_ParseValue_def leaf_tlv_def
    by (cases t) (auto intro!: fed_rules fed_inner simp: MessageDataTLV_ParseValue_with_def AdvMsgDataTLV_ParseValue_with_def)
qed

lemma fed_TLVs [fed_rules]: "fed (ParseTLV cap0 pm b)" "fed (TLVList_Parse cap0 pm n m b)"
  unfolding ParseTLV_def ParseTLV_with_def TLVList_Parse_def
  by (intro fed_rules fed_TLVList_Parse_with)+

lemma fed_ParseByLength [fed_rules]: "fedO (ParseByLength cap0 pm len m b)"
proof -
  have "fed r" if "parse_until cap0 pm e m b = Some r" for e m b r
  proof (rule parse_until.raw_induct [where P = "\<lambda>cap0 pm e m b r. fed r", OF _ that])
    show "fed r'" if rec: "\<And>cap0 pm e m b r. f cap0 pm e m b = Some r \<Longrightarrow> fed r" and
      step: "(if m_out_pos b < e then
          (case ParseTLV cap0 pm b of Inl x \<Rightarrow> Some (Inl x) | Inr (t, b) \<Rightarrow> f cap0 pm e (m(Type t \<mapsto> Some t)) b)
         else Some (Inr (m, b))) = Some r'" for f cap0 pm e m b r'
      using step fed_TLVs(1) [of cap0 pm b] by (auto simp: fed_def dest: rec [unfolded fed_def] split: if_splits sum.splits)
  qed
  then show ?thesis
    by (auto simp: ParseByLength_def fedO_def fed_def)
qed

lemma fed_casts [fed_rules]: "fed (tlv_cast sel ty m)" "fed (tlv_value sel ty m)"
proof -
  show *: "fed (tlv_cast sel ty m)"
    unfolding tlv_cast_def by (intro fed_rules)
  show "fed (tlv_value sel ty m)"
    unfolding tlv_value_def by (intro fed_rules *)
qed

section \<open>SNACs\<close>

lemma fed_UserInfoBlock [fed_rules]: "fed (UserInfoBlock_Parse cap0 u b)"
  unfolding UserInfoBlock_Parse_def ui_of_tlvs_def by (intro fed_rules)

lemma fed_skips [fed_rules]: "fedO (skip_families b)" "fedO (skip_versions b)" "fedO (edit_results rs b)"
proof -
  have g: "get_u16 b \<noteq> Inl OutOfFuel" for b
    using fed_bytes(3) [of b] by (simp add: fed_def)
  have "fed r" if "skip_families b = Some r" for b r
    by (rule skip_families.raw_induct [where P = "\<lambda>b r. fed r", OF _ that])
      (use g in \<open>force simp: fed_def split: if_splits sum.splits\<close>)
  then show "fedO (skip_families b)"
    by (auto simp: fedO_def fed_def)
  have "fed r" if "skip_versions b = Some r" for b r
    by (rule skip_versions.raw_induct [where P = "\<lambda>b r. fed r", OF _ that])
      (use g in \<open>force simp: fed_def split: if_splits sum.splits\<close>)
  then show "fedO (skip_versions b)"
    by (auto simp: fedO_def fed_def)
  have "fed r" if "edit_results rs b = Some r" for rs b r
    by (rule edit_results.raw_induct [where P = "\<lambda>rs b r. fed r", OF _ that])
      (use g in \<open>force simp: fed_def split: if_splits sum.splits\<close>)
  then show "fedO (edit_results rs b)"
    by (auto simp: fedO_def fed_def)
qed

lemma fed_generic [fed_rules]:
  "fedO (ServerReadySNAC_ParseBody b)" "fedO (CapAckSNAC_ParseBody b)" "fed (RateInfoSNAC_ParseBody b)"
  "fed (RateInfoChangeSNAC_ParseBody b)" "fed (UserInfoSNAC_ParseBody cap0 b)" "fed (MOTDSNAC_ParseBody cap0 b)"
  "fed (BuddySNAC_ParseBody cap0 b)" "fed (UINResponseSNAC_ParseBody b)"
proof -
  have *: "fed (skip_rates n b)" for n b
    by (induction n arbitrary: b) (auto intro!: fed_rules)
  show "fedO (ServerReadySNAC_ParseBody b)" "fedO (CapAckSNAC_ParseBody b)" "fed (RateInfoSNAC_ParseBody b)"
    "fed (RateInfoChangeSNAC_ParseBody b)" "fed (UserInfoSNAC_ParseBody cap0 b)" "fed (MOTDSNAC_ParseBody cap0 b)"
    "fed (BuddySNAC_ParseBody cap0 b)" "fed (UINResponseSNAC_ParseBody b)"
    unfolding ServerReadySNAC_ParseBody_def CapAckSNAC_ParseBody_def RateInfoSNAC_ParseBody_def
      RateInfoChangeSNAC_ParseBody_def UserInfoSNAC_ParseBody_def MOTDSNAC_ParseBody_def BuddySNAC_ParseBody_def
      UINResponseSNAC_ParseBody_def
    by (intro fed_rules *)+
qed

lemma fed_messages [fed_rules]:
  "fed (MessageSNAC_ParseBody cap0 b)" "fed (MessageACKSNAC_ParseBody b)" "fed (MessageOfflineUserSNAC_ParseBody b)"
  unfolding MessageSNAC_ParseBody_def message_of_channel_def MessageACKSNAC_ParseBody_def MessageOfflineUserSNAC_ParseBody_def
  by (intro fed_rules)+

lemma fed_sbl_entry [fed_rules]: "fedO (sbl_entry rnd indet name gid ty m s)"
  unfolding sbl_entry_def sbl_contact_def sbl_add_contact_def sbl_add_group_def by (intro fed_rules)

lemma fed_sbl [fed_rules]:
  "fed (SBLRightsReplySNAC_ParseBody cap0 b)" "fedO (SBLListSNAC_ParseBody cap0 rnd indet s b)"
  "fedO (SBLEditACKSNAC_ParseBody b)"
proof -
  have *: "fedO (parse_sbl_entries cap0 rnd indet n s b)" for n s b
    by (induction n arbitrary: s b) (auto intro!: fed_rules simp: parse_sbl_entry_def)
  show "fed (SBLRightsReplySNAC_ParseBody cap0 b)" "fedO (SBLListSNAC_ParseBody cap0 rnd indet s b)"
    "fedO (SBLEditACKSNAC_ParseBody b)"
    unfolding SBLRightsReplySNAC_ParseBody_def SBLListSNAC_ParseBody_def SBLEditACKSNAC_ParseBody_def
    by (intro fed_rules *)+
qed

section \<open>Responses of the ICQ server\<close>

lemma fed_user_info [fed_rules]:
  "fed (get_fields ss b)" "fed (parse_emails n e b)" "fed (parse_interests n i b)" "fed (parse_schools n g b)"
proof -
  have *: "fed (get_category b)" for b
    unfolding get_category_def by (intro fed_rules)
  show "fed (get_fields ss b)"
    by (induction ss arbitrary: b) (auto intro!: fed_rules simp: get_fields.simps)
  show "fed (parse_emails n e b)" "fed (parse_interests n i b)" "fed (parse_schools n g b)"
    by (induction n arbitrary: e i g b) (auto intro!: fed_rules *)
qed

lemma fed_detailed [fed_rules]: "fed (ParseDetailedUserInfo sub s b)"
  unfolding ParseDetailedUserInfo_def parse_main_home_info_def parse_homepage_info_def parse_work_info_def
  by (intro fed_rules)

lemma fed_simple [fed_rules]: "fed (ParseSimpleUserInfo sub s b)"
  unfolding ParseSimpleUserInfo_def parse_found_contact_def parse_sex_age_def by (intro fed_rules)

lemma fed_offline [fed_rules]: "fed (ParseOfflineMessage s b)"
  unfolding ParseOfflineMessage_def gmt_mktime_def by (intro fed_rules)

lemma fed_sms_response [fed_rules]: "fed (ParseSMSResponse s b)"
  unfolding ParseSMSResponse_def by (intro fed_rules)

lemma fed_SrvResponse [fed_rules]: "fed (SrvResponseSNAC_ParseBody b)"
  unfolding SrvResponseSNAC_ParseBody_def ParseICQResponse_def ParseInfoChangeAck_def ParseSMSError_def
    ParseRandomChatFound_def ParseRandomGroupSetAck_def
  by (intro fed_rules)

section \<open>All of them\<close>

lemma fed_reads [fed_rules]: "fed m \<Longrightarrow> fedO (reads f m)" "fedO q \<Longrightarrow> fedO (skips x q)"
  unfolding reads_def skips_def by (intro fed_rules; assumption)+

lemma fed_ParseSNAC: "fedO (ParseSNAC env b)"
proof -
  have *: "fedO (ParseSnacBody env c b)" for c b
    by (cases c) (auto intro!: fed_rules)
  show ?thesis
    unfolding ParseSNAC_def InSNAC_Parse_def by (intro fed_rules *)
qed

text \<open>C32: Reading a SNAC terminates: for every family, subtype and content ParseSNAC comes back once the header has
  arrived, with the packet or an exception of the program, and never because the fuel of the model was used up.
  The server's contact list draws ids for its groups until one is free, so the random numbers have to take every
  value again and again.\<close>

theorem parse_snac_terminates:
  assumes "fair (env_rnd env)" and "length (enc_header h @ r) < 2 ^ 31 - 1"
  shows "\<exists>res. ParseSNAC env (buffer_of_bytes (enc_header h @ r)) = Some res \<and> res \<noteq> Inl OutOfFuel"
proof -
  have "at (buffer_of_bytes (enc_header h @ r)) BIG (enc_header h @ r)"
    using assms(2) by (intro at_big) simp
  then obtain d where d: "at d BIG r" "ParseSNAC env (buffer_of_bytes (enc_header h @ r)) =
    andThenO (ParseSnacBody env (snac_class (h_family h) (h_subtype h)) d) (\<lambda>(x, b).
      Some (Inr (\<lparr>sn_flags = h_flags h, sn_requestID = h_requestID h, sn_body = x\<rparr>, b)))"
    "m_data d = enc_header h @ r"
    by (rule ParseSNAC_header [of _ h r env]) (auto simp: buffer_of_bytes_def)
  then obtain body where "ParseSnacBody env (snac_class (h_family h) (h_subtype h)) d = Some body"
    using ParseSnacBody_total [OF assms(1) d(1)] assms(2) by auto
  then have "ParseSNAC env (buffer_of_bytes (enc_header h @ r)) \<noteq> None"
    using d(2) by (auto simp: andThenO_def split: sum.split)
  then show ?thesis
    using fed_ParseSNAC [of env "buffer_of_bytes (enc_header h @ r)"] by (auto simp: fedO_def)
qed

theorem parse_snac_terminates_witness:
  "\<exists>res. ParseSNAC \<lparr>env_cap0 = [], env_rnd = \<lambda>n. word_of_nat n, env_indet = \<lambda>_. False, env_list = no_list\<rparr>
    (buffer_of_bytes (enc_header \<lparr>h_family = 0x13, h_subtype = 0x06, h_flags = 0, h_requestID = 1\<rparr> @ [0, 9, 9])) = Some res \<and>
    res \<noteq> Inl OutOfFuel"
  by (rule parse_snac_terminates) (simp_all add: fair_mod enc_header_def)

end
