(* ===== verification/ServerConn.thy ===== *)
theory ServerConn
  imports SnacParse DirectClient
begin

text \<open>
  The client and its connection to the server, first part: \<^verbatim>\<open>libicq2000/Client.h\<close> and \<^verbatim>\<open>src/Client.cpp\<close>.
  The members are the record \<open>client\<close>; a member no constructor sets is \<open>None\<close>. The contact of the
  user, the contact tree and the message handler, which share their contacts, are the record
  \<open>handler\<close>. The events held by the caches are values. This theory holds the state, the FLAP frame,
  connecting and disconnecting, and sending through the server; a failed send disconnects, which
  destroys the direct connections, whose unsent messages are then handed to \<open>SendViaServer\<close>.

  Everything that leaves the library (bytes for the sockets, system calls of the sockets, events for
  the application) is appended to \<open>cl_out\<close> in its order; log messages are left out. What comes from
  outside (results of system calls, random numbers, the time, what the callbacks of the application
  do) is the record \<open>client_env\<close>. Successive results are numbered by \<open>cl_tick\<close>.
\<close>

section \<open>State\<close>

datatype client_state =
    CL_NOT_CONNECTED | AUTH_AWAITING_CONN_ACK | AUTH_AWAITING_AUTH_REPLY | BOS_AWAITING_CONN_ACK
  | BOS_AWAITING_LOGIN_REPLY | BOS_LOGGED_IN | UIN_AWAITING_CONN_ACK | UIN_AWAITING_UIN_REPLY

datatype socket_state = SOCK_NOT_CONNECTED | SOCK_NONBLOCKING_CONNECT | SOCK_CONNECTED

datatype disconnect_reason =
    REQUESTED | FAILED_LOWLEVEL | FAILED_BADUSERNAME | FAILED_TURBOING | FAILED_BADPASSWORD
  | FAILED_MISMATCH_PASSWD | FAILED_DUALLOGIN | FAILED_UNKNOWN

datatype search_type = ShortWhitepage | FullWhitepage | UIN_Search | Keyword | RandomChat

record search_event =
  sv_type :: search_type
  sv_list :: contact_list
  sv_last :: "contact_ref option"
  sv_more :: u32
  sv_finished :: bool
  sv_expired :: bool

definition new_search_event :: "search_type \<Rightarrow> search_event" where
  "new_search_event t =
     \<lparr>sv_type = t, sv_list = new_contact_list, sv_last = None, sv_more = 0, sv_finished = False,
      sv_expired = False\<rparr>"

text \<open>The values of the cache of request ids.\<close>

datatype request_value = UserInfoValue contact_ref | SMSValue message_event | SearchValue search_event

text \<open>
  A direct connection with its socket, as the cache of direct connections holds it; \<open>di_busy\<close> is set while
  one of its member functions, the destructor included, is running.
\<close>

record direct =
  di_fd :: int
  di_sock :: socket_state
  di_recv :: buffer
  di_busy :: bool
  di_dc :: dc

datatype socket_mode = READ | WRITE

datatype client_output =
    ToServer "u8 list"
  | ToPeer int "u8 list"
  | ConnectTo string u16
  | AddSocketHandle int socket_mode
  | RemoveSocketHandle int
  | ConnectingEv
  | ConnectedEv
  | DisconnectedEv disconnect_reason
  | HandlerEv handler_signal
  | NewUINEv u32 bool
  | RateInfoChangeEv rate_info_change
  | SearchResultEv search_event
  | ContactListEv contactlist_event
  | SmtpSend message_event

record client =
  cl_state :: client_state
  cl_mh :: handler
  cl_password :: string
  cl_status_wanted :: status
  cl_invisible_wanted :: bool
  cl_web_aware :: bool
  cl_random_group :: "u16 option"
  cl_authorizerHostname :: string
  cl_authorizerPort :: u16
  cl_bosHostname :: string
  cl_bosPort :: "u16 option"
  cl_bosOverridePort :: bool
  cl_client_bind_host :: string
  cl_in_dc :: bool
  cl_out_dc :: bool
  cl_client_seq_num :: "u16 option"
  cl_requestid :: "u32 option"
  cl_visible_list :: contact_list
  cl_invisible_list :: contact_list
  cl_fetch_sbl :: bool
  cl_cookie_data :: "u8 list"
  cl_ext_ip :: u32
  cl_use_portrange :: bool
  cl_use_typing_notif :: bool
  cl_upper_port :: u16
  cl_lower_port :: u16
  cl_socket :: socket_state
  cl_socket_fd :: int
  cl_listening :: bool
  cl_listen_fd :: "int option"
  cl_listen_port :: "u16 option"
  cl_dccache :: "(int, direct) cache"
  cl_last_server_ping :: "int option"
  cl_reqidcache :: "(u32, request_value) cache"
  cl_cookiecache :: "(icbm_cookie, message_event) cache"
  cl_recv :: buffer
  cl_tick :: nat
  cl_out :: "client_output list"

datatype connect_result = ConnectFails int | ConnectPending int | ConnectDone int

datatype listen_result = ListenFails int | BindFails int | Listens int u16

text \<open>
  The numbers given with the results are file descriptors. \<open>ce_resolves\<close> tells for which host names
  the name server has an address, \<open>ce_seq_seeds\<close> and \<open>ce_request_seeds\<close> are the scaled results of
  \<^verbatim>\<open>rand()\<close> from which the client starts to count, \<open>ce_peer_sends\<close> and \<open>ce_peer_draws\<close> are the results for the
  direct connection with a descriptor, \<open>ce_accepts\<close> the sockets of incoming connections with the
  address of the other end, \<open>ce_peer_ip\<close> the local address of a socket.
\<close>

record client_env =
  ce_now :: u32
  ce_c2s :: translation
  ce_s2c :: translation
  ce_on_message :: "message_event \<Rightarrow> message_event"
  ce_on_auto :: "message_event \<Rightarrow> message_event"
  ce_indet :: bool
  ce_resolves :: "string \<Rightarrow> bool"
  ce_connects :: "nat \<Rightarrow> connect_result"
  ce_finishes :: "nat \<Rightarrow> bool"
  ce_sends :: "nat \<Rightarrow> bool"
  ce_listens :: "nat \<Rightarrow> u16 \<Rightarrow> u16 \<Rightarrow> listen_result"
  ce_local_ip :: u32
  ce_seq_seeds :: "nat \<Rightarrow> u16"
  ce_request_seeds :: "nat \<Rightarrow> u32"
  ce_cookies :: "nat \<Rightarrow> u32 \<times> u32"
  ce_timestr :: string
  ce_snac :: snac_env
  ce_accepts :: "nat \<Rightarrow> (int \<times> u32) option"
  ce_peer_ip :: "int \<Rightarrow> u32"
  ce_peer_sends :: "int \<Rightarrow> nat \<Rightarrow> bool"
  ce_peer_draws :: "int \<Rightarrow> nat \<Rightarrow> u32"

type_synonym 'a cm = "(client, 'a) effect"

definition emit_out :: "client_output list \<Rightarrow> unit cm" where
  "emit_out os = modify (\<lambda>s. s\<lparr>cl_out := cl_out s @ os\<rparr>)"

definition query :: "(nat \<Rightarrow> 'a) \<Rightarrow> 'a cm" where
  "query f = (\<lambda>s. (Inr (f (cl_tick s)), s\<lparr>cl_tick := Suc (cl_tick s)\<rparr>))"

definition to_state :: "client_state \<Rightarrow> unit cm" where
  "to_state st = modify (\<lambda>s. s\<lparr>cl_state := st\<rparr>)"

definition m_self :: "client \<Rightarrow> contact" where
  "m_self s = mh_store (cl_mh s) (mh_self (cl_mh s))"

definition contact_at :: "contact_ref \<Rightarrow> client \<Rightarrow> contact" where
  "contact_at r s = mh_store (cl_mh s) r"

text \<open>A setter called through a reference, with the signals of the contact.\<close>

definition on_contact :: "contact_ref \<Rightarrow> (contact \<Rightarrow> changed) \<Rightarrow> unit cm" where
  "on_contact r f =
     thenM (gets (\<lambda>s. upd_contact r (f (contact_at r s)) (cl_mh s))) (\<lambda>(mh, sigs).
     thenM (modify (\<lambda>s. s\<lparr>cl_mh := mh\<rparr>)) (\<lambda>_. emit_out (map HandlerEv sigs)))"

definition set_contact_status :: "client_env \<Rightarrow> contact_ref \<Rightarrow> status \<Rightarrow> bool \<Rightarrow> unit cm" where
  "set_contact_status E r st invis =
     thenM (gets (contact_at r)) (\<lambda>c.
     thenM (liftR (setStatus (ce_now E) st invis c)) (\<lambda>ch. on_contact r (\<lambda>_. ch)))"

section \<open>Sockets\<close>

text \<open>The socket to the server and the listening socket (\<^verbatim>\<open>src/socket.cpp\<close>).\<close>

definition set_socket :: "socket_state \<Rightarrow> unit cm" where
  "set_socket st = modify (\<lambda>s. s\<lparr>cl_socket := st\<rparr>)"

definition TCPSocket_Connect :: "client_env \<Rightarrow> string \<Rightarrow> u16 \<Rightarrow> unit cm" where
  "TCPSocket_Connect E host port =
     thenM (gets cl_socket) (\<lambda>st.
     if st \<noteq> SOCK_NOT_CONNECTED then raise SocketError
     else
       thenM (emit_out [ConnectTo host port]) (\<lambda>_.
       thenM (query (ce_connects E)) (\<lambda>r.
       case r of
         ConnectFails fd \<Rightarrow> thenM (modify (\<lambda>s. s\<lparr>cl_socket_fd := fd\<rparr>)) (\<lambda>_. raise SocketError)
       | ConnectPending fd \<Rightarrow> modify (\<lambda>s. s\<lparr>cl_socket_fd := fd, cl_socket := SOCK_NONBLOCKING_CONNECT\<rparr>)
       | ConnectDone fd \<Rightarrow> modify (\<lambda>s. s\<lparr>cl_socket_fd := fd, cl_socket := SOCK_CONNECTED\<rparr>))))"

definition TCPSocket_FinishNonBlockingConnect :: "client_env \<Rightarrow> unit cm" where
  "TCPSocket_FinishNonBlockingConnect E =
     thenM (query (ce_finishes E)) (\<lambda>ok.
     if ok then set_socket SOCK_CONNECTED
     else thenM (set_socket SOCK_NOT_CONNECTED) (\<lambda>_. raise SocketError))"

definition TCPSocket_Send :: "client_env \<Rightarrow> buffer \<Rightarrow> unit cm" where
  "TCPSocket_Send E b =
     thenM (gets cl_socket) (\<lambda>st.
     if st \<noteq> SOCK_CONNECTED then raise SocketError
     else
       thenM (query (ce_sends E)) (\<lambda>ok.
       if ok then emit_out [ToServer (m_data b)]
       else thenM (set_socket SOCK_NOT_CONNECTED) (\<lambda>_. raise SocketError)))"

text \<open>Looking a host up, for the remote end or to bind the local one.\<close>

definition look_up :: "client_env \<Rightarrow> string \<Rightarrow> unit cm" where
  "look_up E host = (if ce_resolves E host then ret () else raise SocketError)"

definition bind_host :: "client_env \<Rightarrow> string \<Rightarrow> unit cm" where
  "bind_host E host = (if host = '''' then ret () else look_up E host)"

definition TCPServer_StartServer :: "client_env \<Rightarrow> u16 \<Rightarrow> u16 \<Rightarrow> unit cm" where
  "TCPServer_StartServer E lower upper =
     thenM (gets cl_listening) (\<lambda>started.
     if started then raise SocketError
     else
       thenM (query (\<lambda>n. ce_listens E n lower upper)) (\<lambda>r.
       case r of
         ListenFails fd \<Rightarrow> thenM (modify (\<lambda>s. s\<lparr>cl_listen_fd := Some fd\<rparr>)) (\<lambda>_. raise SocketError)
       | BindFails fd \<Rightarrow>
           thenM (modify (\<lambda>s. s\<lparr>cl_listen_fd := Some fd, cl_listening := True, cl_listen_port := Some 0\<rparr>))
             (\<lambda>_. raise SocketError)
       | Listens fd port \<Rightarrow>
           modify (\<lambda>s. s\<lparr>cl_listen_fd := Some fd, cl_listening := True, cl_listen_port := Some port\<rparr>)))"

definition TCPServer_setBindHost :: "client_env \<Rightarrow> string \<Rightarrow> unit cm" where
  "TCPServer_setBindHost E host =
     thenM (modify (\<lambda>s. s\<lparr>cl_listen_port := Some 0\<rparr>)) (\<lambda>_. bind_host E host)"

definition TCPServer_Disconnect :: "unit cm" where
  "TCPServer_Disconnect =
     modify (\<lambda>s. if cl_listening s then s\<lparr>cl_listen_fd := Some 0, cl_listening := False\<rparr> else s)"

definition remove_server_socket :: "unit cm" where
  "remove_server_socket =
     thenM (gets cl_socket_fd) (\<lambda>fd.
     thenM (emit_out [RemoveSocketHandle fd]) (\<lambda>_. set_socket SOCK_NOT_CONNECTED))"

definition remove_listen_socket :: "unit cm" where
  "remove_listen_socket =
     thenM (gets cl_listening) (\<lambda>started.
     if started then
       thenM (read cl_listen_fd) (\<lambda>fd.
       thenM (emit_out [RemoveSocketHandle fd]) (\<lambda>_. TCPServer_Disconnect))
     else ret ())"

section \<open>SNACs to the server\<close>

definition SNAC_GEN_ClientReady :: u16 where "SNAC_GEN_ClientReady = 0x0002"
definition SNAC_GEN_RequestRateInfo :: u16 where "SNAC_GEN_RequestRateInfo = 0x0006"
definition SNAC_GEN_RateInfoAck :: u16 where "SNAC_GEN_RateInfoAck = 0x0008"
definition SNAC_GEN_UserInfoRequest :: u16 where "SNAC_GEN_UserInfoRequest = 0x000e"
definition SNAC_GEN_Capabilities :: u16 where "SNAC_GEN_Capabilities = 0x0017"
definition SNAC_GEN_SetStatus :: u16 where "SNAC_GEN_SetStatus = 0x001e"
definition SNAC_LOC_SetUserInfo :: u16 where "SNAC_LOC_SetUserInfo = 0x0004"
definition SNAC_BUD_AddBuddy :: u16 where "SNAC_BUD_AddBuddy = 0x0004"
definition SNAC_BUD_RemoveBuddy :: u16 where "SNAC_BUD_RemoveBuddy = 0x0005"
definition SNAC_BOS_Add_Visible :: u16 where "SNAC_BOS_Add_Visible = 0x0005"
definition SNAC_BOS_Remove_Visible :: u16 where "SNAC_BOS_Remove_Visible = 0x0006"
definition SNAC_BOS_Add_Invisible :: u16 where "SNAC_BOS_Add_Invisible = 0x0007"
definition SNAC_BOS_Remove_Invisible :: u16 where "SNAC_BOS_Remove_Invisible = 0x0008"
definition SNAC_MSG_AddICBMParameter :: u16 where "SNAC_MSG_AddICBMParameter = 0x0002"
definition SNAC_MSG_Send :: u16 where "SNAC_MSG_Send = 0x0006"
definition SNAC_SRV_Send :: u16 where "SNAC_SRV_Send = 0x0002"
definition SNAC_UIN_Request :: u16 where "SNAC_UIN_Request = 0x0004"
definition SNAC_SBL_Req_Rights :: u16 where "SNAC_SBL_Req_Rights = 0x0002"
definition SNAC_SBL_Request_List :: u16 where "SNAC_SBL_Request_List = 0x0004"
definition SNAC_SBL_List_ACK :: u16 where "SNAC_SBL_List_ACK = 0x0007"
definition SNAC_SBL_Begin_Edit :: u16 where "SNAC_SBL_Begin_Edit = 0x0011"
definition SNAC_SBL_Commit_Edit :: u16 where "SNAC_SBL_Commit_Edit = 0x0012"

text \<open>
  The objects the client sends, with what their constructors were given; those made from a contact
  or a list of contacts hold its screen names.
\<close>

datatype out_snac =
    ClientReady_Out | RequestRateInfo_Out | RateInfoAck_Out | PersonalInfoRequest_Out | Capabilities_Out
  | SetStatus_Out set_status | SetUserInfo_Out | AddBuddy_Out "string list" | RemoveBuddy_Out "string list"
  | AddVisible_Out "string list" | RemoveVisible_Out "string list"
  | AddInvisible_Out "string list" | RemoveInvisible_Out "string list"
  | MsgAddICBMParameter_Out bool | MsgSend_Out msg_send | MessageACK_Out icbm_cookie icq_subtype u16
  | Srv_Out srv_request u32 | UINRequest_Out string
  | SBLRequestRights_Out | SBLRequestList_Out | SBLListACK_Out | SBLBeginEdit_Out | SBLCommitEdit_Out

text \<open>\<^verbatim>\<open>Family()\<close>, \<^verbatim>\<open>Subtype()\<close> and the request id; the flags are always 0.\<close>

fun out_snac_type :: "out_snac \<Rightarrow> u16 \<times> u16" where
  "out_snac_type ClientReady_Out = (SNAC_FAM_GEN, SNAC_GEN_ClientReady)"
| "out_snac_type RequestRateInfo_Out = (SNAC_FAM_GEN, SNAC_GEN_RequestRateInfo)"
| "out_snac_type RateInfoAck_Out = (SNAC_FAM_GEN, SNAC_GEN_RateInfoAck)"
| "out_snac_type PersonalInfoRequest_Out = (SNAC_FAM_GEN, SNAC_GEN_UserInfoRequest)"
| "out_snac_type Capabilities_Out = (SNAC_FAM_GEN, SNAC_GEN_Capabilities)"
| "out_snac_type (SetStatus_Out s) = (SNAC_FAM_GEN, SNAC_GEN_SetStatus)"
| "out_snac_type SetUserInfo_Out = (SNAC_FAM_LOC, SNAC_LOC_SetUserInfo)"
| "out_snac_type (AddBuddy_Out bs) = (SNAC_FAM_BUD, SNAC_BUD_AddBuddy)"
| "out_snac_type (RemoveBuddy_Out bs) = (SNAC_FAM_BUD, SNAC_BUD_RemoveBuddy)"
| "out_snac_type (AddVisible_Out bs) = (SNAC_FAM_BOS, SNAC_BOS_Add_Visible)"
| "out_snac_type (RemoveVisible_Out bs) = (SNAC_FAM_BOS, SNAC_BOS_Remove_Visible)"
| "out_snac_type (AddInvisible_Out bs) = (SNAC_FAM_BOS, SNAC_BOS_Add_Invisible)"
| "out_snac_type (RemoveInvisible_Out bs) = (SNAC_FAM_BOS, SNAC_BOS_Remove_Invisible)"
| "out_snac_type (MsgAddICBMParameter_Out typing) = (SNAC_FAM_MSG, SNAC_MSG_AddICBMParameter)"
| "out_snac_type (MsgSend_Out m) = (SNAC_FAM_MSG, SNAC_MSG_Send)"
| "out_snac_type (MessageACK_Out c st seq) = (SNAC_FAM_MSG, SNAC_MSG_MessageACK)"
| "out_snac_type (Srv_Out r rid) = (SNAC_FAM_SRV, SNAC_SRV_Send)"
| "out_snac_type (UINRequest_Out p) = (SNAC_FAM_UIN, SNAC_UIN_Request)"
| "out_snac_type SBLRequestRights_Out = (SNAC_FAM_SBL, SNAC_SBL_Req_Rights)"
| "out_snac_type SBLRequestList_Out = (SNAC_FAM_SBL, SNAC_SBL_Request_List)"
| "out_snac_type SBLListACK_Out = (SNAC_FAM_SBL, SNAC_SBL_List_ACK)"
| "out_snac_type SBLBeginEdit_Out = (SNAC_FAM_SBL, SNAC_SBL_Begin_Edit)"
| "out_snac_type SBLCommitEdit_Out = (SNAC_FAM_SBL, SNAC_SBL_Commit_Edit)"

definition out_requestID :: "out_snac \<Rightarrow> u32" where
  "out_requestID x = (case x of Srv_Out r rid \<Rightarrow> rid | _ \<Rightarrow> 0)"

definition out_header :: "out_snac \<Rightarrow> snac_header" where
  "out_header x =
     (case out_snac_type x of (fam, sub) \<Rightarrow>
        \<lparr>h_family = fam, h_subtype = sub, h_flags = 0, h_requestID = out_requestID x\<rparr>)"

text \<open>The virtual \<^verbatim>\<open>OutputBody\<close>; \<open>None\<close> is the endless loop of writing some XML.\<close>

fun out_snac_body :: "string \<Rightarrow> out_snac \<Rightarrow> buffer \<Rightarrow> buffer result option" where
  "out_snac_body timestr ClientReady_Out b = Some (Inr (ClientReadySNAC_OutputBody b))"
| "out_snac_body timestr RequestRateInfo_Out b = Some (Inr b)"
| "out_snac_body timestr RateInfoAck_Out b = Some (Inr (RateInfoAckSNAC_OutputBody b))"
| "out_snac_body timestr PersonalInfoRequest_Out b = Some (Inr b)"
| "out_snac_body timestr Capabilities_Out b = Some (Inr (CapabilitiesSNAC_OutputBody b))"
| "out_snac_body timestr (SetStatus_Out s) b = Some (SetStatusSNAC_OutputBody s b)"
| "out_snac_body timestr SetUserInfo_Out b = Some (Inr (SetUserInfoSNAC_OutputBody b))"
| "out_snac_body timestr (AddBuddy_Out bs) b = Some (Inr (BuddyList_OutputBody bs b))"
| "out_snac_body timestr (RemoveBuddy_Out bs) b = Some (Inr (BuddyList_OutputBody bs b))"
| "out_snac_body timestr (AddVisible_Out bs) b = Some (Inr (BuddyList_OutputBody bs b))"
| "out_snac_body timestr (RemoveVisible_Out bs) b = Some (Inr (BuddyList_OutputBody bs b))"
| "out_snac_body timestr (AddInvisible_Out bs) b = Some (Inr (BuddyList_OutputBody bs b))"
| "out_snac_body timestr (RemoveInvisible_Out bs) b = Some (Inr (BuddyList_OutputBody bs b))"
| "out_snac_body timestr (MsgAddICBMParameter_Out typing) b = Some (Inr (MsgAddICBMParameterSNAC_OutputBody typing b))"
| "out_snac_body timestr (MsgSend_Out m) b = Some (MsgSendSNAC_OutputBody m b)"
| "out_snac_body timestr (MessageACK_Out c st seq) b = Some (MessageACKSNAC_OutputBody c st seq b)"
| "out_snac_body timestr (Srv_Out r rid) b = SrvRequest_OutputBody r timestr rid b"
| "out_snac_body timestr (UINRequest_Out p) b = Some (Inr (UINRequestSNAC_OutputBody p b))"
| "out_snac_body timestr SBLRequestRights_Out b = Some (Inr b)"
| "out_snac_body timestr SBLRequestList_Out b = Some (Inr b)"
| "out_snac_body timestr SBLListACK_Out b = Some (Inr b)"
| "out_snac_body timestr SBLBeginEdit_Out b = Some (Inr b)"
| "out_snac_body timestr SBLCommitEdit_Out b = Some (Inr b)"

definition out_snac_Output :: "string \<Rightarrow> out_snac \<Rightarrow> buffer \<Rightarrow> buffer result option" where
  "out_snac_Output timestr x = OutSNAC_Output (out_header x) (out_snac_body timestr x)"

section \<open>The FLAP frame\<close>

definition Client_NextSeqNum :: "u16 cm" where
  "Client_NextSeqNum =
     thenM (read cl_client_seq_num) (\<lambda>n.
     let n = (n + 1) AND 0x7fff in
     thenM (modify (\<lambda>s. s\<lparr>cl_client_seq_num := Some n\<rparr>)) (\<lambda>_. ret n))"

definition NextRequestID :: "u32 cm" where
  "NextRequestID =
     thenM (read cl_requestid) (\<lambda>n.
     let n = (n + 1) AND 0x7fffffff in
     thenM (modify (\<lambda>s. s\<lparr>cl_requestid := Some n\<rparr>)) (\<lambda>_. ret n))"

definition FLAPHeader :: "u8 \<Rightarrow> u16 \<Rightarrow> buffer \<Rightarrow> marker \<times> buffer" where
  "FLAPHeader channel seq b =
     (let b = setBigEndian b;
          b = put_u8 42 b;
          b = put_u8 channel b;
          b = put_u16 seq b
      in getAutoSizeShortMarker b)"

definition FLAPFooter :: "marker \<Rightarrow> buffer \<Rightarrow> buffer result" where
  "FLAPFooter mk b = setAutoSizeMarker mk b"

text \<open>A frame on a channel around what \<open>fill\<close> writes.\<close>

definition flap_frame :: "u8 \<Rightarrow> u16 \<Rightarrow> (buffer \<Rightarrow> buffer result option) \<Rightarrow> buffer \<Rightarrow> buffer result option" where
  "flap_frame channel seq fill b =
     (case FLAPHeader channel seq b of (mk, b) \<Rightarrow>
        andThenO (fill b) (\<lambda>b. Some (FLAPFooter mk b)))"

definition put_flap :: "u8 \<Rightarrow> (buffer \<Rightarrow> buffer result option) \<Rightarrow> buffer \<Rightarrow> buffer cm" where
  "put_flap channel fill b =
     thenM Client_NextSeqNum (\<lambda>seq. liftO (flap_frame channel seq fill b))"

definition FLAPwrapSNAC :: "client_env \<Rightarrow> out_snac \<Rightarrow> buffer \<Rightarrow> buffer cm" where
  "FLAPwrapSNAC E x b = put_flap 0x02 (out_snac_Output (ce_timestr E) x) b"

text \<open>
  Functions that send take the function \<open>send\<close> that sends a buffer as an argument: the client's
  \<^verbatim>\<open>Send\<close> disconnects on failure, which is defined below with the help of such functions.
\<close>

definition wrap_and_send :: "client_env \<Rightarrow> (buffer \<Rightarrow> unit cm) \<Rightarrow> out_snac \<Rightarrow> unit cm" where
  "wrap_and_send E send x = thenM (FLAPwrapSNAC E x new_buffer) send"

section \<open>Messages through the server\<close>

definition message_ack_cb :: "message_event \<Rightarrow> unit cm" where
  "message_ack_cb ev = emit_out [HandlerEv (MessageAck ev)]"

definition failed_event :: "delivery_failure \<Rightarrow> message_event \<Rightarrow> message_event" where
  "failed_event r ev =
     ev\<lparr>m_finished := Some True, m_delivered := Some False, m_isdirect := Some False,
        m_failure_reason := Some r\<rparr>"

definition outgoing_part :: "client_env \<Rightarrow> message_event \<Rightarrow> (uin_part \<times> uin_body) cm" where
  "outgoing_part E ev =
     thenM (gets cl_mh) (\<lambda>mh. liftR (handleOutgoing (ce_c2s E) (ce_indet E) ev mh))"

definition next_contact_seq :: "contact_ref \<Rightarrow> u16 cm" where
  "next_contact_seq r =
     thenM (gets (\<lambda>s. nextSeqNum (contact_at r s))) (\<lambda>(seq, c).
     thenM (modify (\<lambda>s. s\<lparr>cl_mh := (cl_mh s)\<lparr>mh_store := (mh_store (cl_mh s))(r := c)\<rparr>\<rparr>)) (\<lambda>_. ret seq))"

definition unique_cookie :: "client_env \<Rightarrow> icbm_cookie cm" where
  "unique_cookie E = (\<lambda>s.
     case generateUnique (cl_cookiecache s) (ce_cookies E) (cl_tick s) of
       None \<Rightarrow> (Inl Diverges, s)
     | Some (ck, n) \<Rightarrow> (Inr ck, s\<lparr>cl_tick := n\<rparr>))"

definition cache_event :: "client_env \<Rightarrow> icbm_cookie \<Rightarrow> message_event \<Rightarrow> unit cm" where
  "cache_event E ck ev =
     modify (\<lambda>s. s\<lparr>cl_cookiecache := cache_insert ck ev (uint (ce_now E)) (cl_cookiecache s)\<rparr>)"

definition cache_request :: "client_env \<Rightarrow> u32 \<Rightarrow> request_value \<Rightarrow> unit cm" where
  "cache_request E reqid v =
     modify (\<lambda>s. s\<lparr>cl_reqidcache := cache_insert reqid v (uint (ce_now E)) (cl_reqidcache s)\<rparr>)"

definition SendViaServerAdvanced :: "client_env \<Rightarrow> (buffer \<Rightarrow> unit cm) \<Rightarrow> message_event \<Rightarrow> unit cm" where
  "SendViaServerAdvanced E send ev =
     thenM (gets cl_state) (\<lambda>st.
     if st = CL_NOT_CONNECTED then message_ack_cb (failed_event Failed_NotConnected ev)
     else
       thenM (outgoing_part E ev) (\<lambda>(u, ub).
       thenM (next_contact_seq (ev_contact ev)) (\<lambda>seq.
       thenM (unique_cookie E) (\<lambda>ck.
       thenM (cache_event E ck ev) (\<lambda>_.
       thenM (gets (contact_at (ev_contact ev))) (\<lambda>c.
       thenM (liftR (contact_capabilities c)) (\<lambda>caps.
       wrap_and_send E send (MsgSend_Out
         \<lparr>ms_icqsubtype = \<lparr>m_flags8 = 0, body = UINSubType (u\<lparr>u_advanced := True\<rparr>) ub\<rparr>,
          ms_advanced = True, ms_seqnum = Some seq, ms_cookie = ck, ms_dest_capabilities = caps\<rparr>))))))))"

definition SendViaServerNormal :: "client_env \<Rightarrow> (buffer \<Rightarrow> unit cm) \<Rightarrow> message_event \<Rightarrow> unit cm" where
  "SendViaServerNormal E send ev =
     thenM (gets cl_state) (\<lambda>st.
     if st = CL_NOT_CONNECTED then message_ack_cb (failed_event Failed_NotConnected ev)
     else
       thenM (outgoing_part E ev) (\<lambda>(u, ub).
       thenM (wrap_and_send E send (MsgSend_Out
         \<lparr>ms_icqsubtype = \<lparr>m_flags8 = 0, body = UINSubType (u\<lparr>u_advanced := False\<rparr>) ub\<rparr>,
          ms_advanced = False, ms_seqnum = None, ms_cookie = new_cookie,
          ms_dest_capabilities = new_capabilities\<rparr>)) (\<lambda>_.
       thenM (if ev_type (ev_body ev) = AuthReq then on_contact (ev_contact ev) (setAuthAwait True) else ret ()) (\<lambda>_.
       message_ack_cb (upd_icq (\<lambda>i. i\<lparr>m_offline := True\<rparr>)
         (ev\<lparr>m_finished := Some True, m_delivered := Some True, m_isdirect := Some False\<rparr>))))))"

text \<open>A message to a mobile phone is a request to the server.\<close>

definition send_sms :: "client_env \<Rightarrow> (buffer \<Rightarrow> unit cm) \<Rightarrow> message_event \<Rightarrow> sms_event \<Rightarrow> unit cm" where
  "send_sms E send ev m =
     thenM (read (\<lambda>_. se_rcpt m)) (\<lambda>rcpt.
     thenM NextRequestID (\<lambda>reqid.
     thenM (cache_request E reqid (SMSValue ev)) (\<lambda>_.
     thenM (gets id) (\<lambda>s.
     wrap_and_send E send (Srv_Out (SrvSend (se_message m)
       (getNormalisedMobileNo (contact_at (ev_contact ev) s)) (m_uin (m_self s)) '''' rcpt) reqid)))))"

definition SendViaServer :: "client_env \<Rightarrow> (buffer \<Rightarrow> unit cm) \<Rightarrow> message_event \<Rightarrow> unit cm" where
  "SendViaServer E send ev =
     thenM (gets (contact_at (ev_contact ev))) (\<lambda>c.
     let t = ev_type (ev_body ev) in
     if t = Normal \<or> t = URL \<or> t = Contacts then
       thenM (liftR (contact_accept_adv_msgs c)) (\<lambda>adv.
       if adv then SendViaServerAdvanced E send ev else SendViaServerNormal E send ev)
     else if t = AwayMessage then
       thenM (liftR (contact_accept_adv_msgs c)) (\<lambda>adv.
       if adv then SendViaServerAdvanced E send ev
       else message_ack_cb (failed_event Failed_ClientNotCapable ev))
     else if t = AuthReq \<or> t = AuthAck \<or> t = UserAdd then SendViaServerNormal E send ev
     else
       case ev_body ev of
         SMSMessageEvent m \<Rightarrow> send_sms E send ev m
       | FileTransferEvent f \<Rightarrow> SendViaServerAdvanced E send ev
       | _ \<Rightarrow> ret ())"

section \<open>Callbacks of the direct connections\<close>

text \<open>The environment of the direct connection with a descriptor.\<close>

definition peer_env :: "client_env \<Rightarrow> direct \<Rightarrow> bool \<Rightarrow> dc_env" where
  "peer_env E d connects =
     \<lparr>send_ok = (\<lambda>n. di_sock d = SOCK_CONNECTED \<and> ce_peer_sends E (di_fd d) n), connect_ok = connects,
      draws = ce_peer_draws E (di_fd d), c2s = ce_c2s E, s2c = ce_s2c E, on_message = ce_on_message E,
      on_auto = ce_on_auto E, indet = ce_indet E, now = ce_now E\<rparr>"

definition dc_connected_cb :: "int \<Rightarrow> unit cm" where
  "dc_connected_cb fd = modify (\<lambda>s. s\<lparr>cl_dccache := cache_setTimeout fd 600 (cl_dccache s)\<rparr>)"

definition upd_ft :: "(ft_event \<Rightarrow> ft_event) \<Rightarrow> message_event \<Rightarrow> message_event" where
  "upd_ft f ev =
     (case ev_body ev of
        FileTransferEvent fe \<Rightarrow> ev\<lparr>ev_body := FileTransferEvent (f fe)\<rparr>
      | _ \<Rightarrow> ev)"

definition ft_update :: "message_event \<Rightarrow> unit cm" where
  "ft_update ev = emit_out [HandlerEv (FiletransferUpdate ev)]"

definition dc_messageack_cb :: "client_env \<Rightarrow> (buffer \<Rightarrow> unit cm) \<Rightarrow> message_event \<Rightarrow> unit cm" where
  "dc_messageack_cb E send ev =
     (if ev_type (ev_body ev) = FileTransfer then
        ft_update (upd_ft (\<lambda>fe. fe\<lparr>fe_state := FT_TIMEOUT\<rparr>) (ev\<lparr>m_finished := Some True\<rparr>))
      else
        thenM (message_ack_cb ev) (\<lambda>_.
        thenM (liftR (the_set (m_finished ev))) (\<lambda>fin.
        if fin then ret ()
        else thenM (on_contact (ev_contact ev) (setDirect False)) (\<lambda>_. SendViaServer E send ev))))"

text \<open>What the client does with what a direct connection puts out.\<close>

fun peer_output :: "client_env \<Rightarrow> (buffer \<Rightarrow> unit cm) \<Rightarrow> int \<Rightarrow> dc_output \<Rightarrow> unit cm" where
  "peer_output E send fd (Sent bs) = emit_out [ToPeer fd bs]"
| "peer_output E send fd (HandlerSignal h) = emit_out [HandlerEv h]"
| "peer_output E send fd (ExpiredAck ev) = dc_messageack_cb E send ev"
| "peer_output E send fd ConnectedSignal = dc_connected_cb fd"
| "peer_output E send fd AddSocket = emit_out [AddSocketHandle fd WRITE]"
| "peer_output E send fd RemoveSocket = emit_out [RemoveSocketHandle fd]"

text \<open>
  Running an operation of a direct connection on the handler they share. Its outputs are passed on when
  it has ended; none of its steps after an output depends on what the client does with it. The
  result is the outcome of the operation and the connection afterwards. A failed system call on its socket
  closes the socket.
\<close>

definition socket_failed :: "exn \<Rightarrow> bool" where
  "socket_failed e \<longleftrightarrow> e = Disconnected ''Failed to send: '' \<or> e = Disconnected ''Failed on recv: ''"

definition run_peer ::
  "client_env \<Rightarrow> (buffer \<Rightarrow> unit cm) \<Rightarrow> direct \<Rightarrow> 'a dcm \<Rightarrow> ((exn + 'a) \<times> direct) cm" where
  "run_peer E send d m =
     thenM (gets cl_mh) (\<lambda>mh.
     let d0 = (di_dc d)\<lparr>dc_mh := mh\<rparr>; (r, d1) = m d0;
         d' = d\<lparr>di_dc := d1, di_sock := (case r of Inl e \<Rightarrow> if socket_failed e then SOCK_NOT_CONNECTED
                                              else di_sock d | Inr _ \<Rightarrow> di_sock d)\<rparr> in
     thenM (modify (\<lambda>s. s\<lparr>cl_mh := dc_mh d1\<rparr>)) (\<lambda>_.
     thenM (eachM (peer_output E send (di_fd d)) (drop (length (dc_out d0)) (dc_out d1))) (\<lambda>_. ret (r, d'))))"

definition rethrow :: "(exn + 'a) \<Rightarrow> 'a cm" where
  "rethrow r = (case r of Inl e \<Rightarrow> raise e | Inr x \<Rightarrow> ret x)"

text \<open>A change of the object a cache points to.\<close>

definition cache_update :: "'k \<Rightarrow> ('v \<Rightarrow> 'v) \<Rightarrow> ('k, 'v) cache \<Rightarrow> ('k, 'v) cache" where
  "cache_update k f c =
     (case cache_lookup k c of
        None \<Rightarrow> c
      | Some i \<Rightarrow> (let t = m_list c ! i in c\<lparr>m_list := (m_list c)[i := t\<lparr>m_value := f (m_value t)\<rparr>]\<rparr>))"

text \<open>Changes of the connection in the cache.\<close>

definition upd_peer :: "int \<Rightarrow> (direct \<Rightarrow> direct) \<Rightarrow> unit cm" where
  "upd_peer fd f = modify (\<lambda>s. s\<lparr>cl_dccache := cache_update fd f (cl_dccache s)\<rparr>)"

definition erase_peer :: "int \<Rightarrow> unit cm" where
  "erase_peer fd = modify (\<lambda>s. s\<lparr>cl_dccache := ft_remove_and_not_delete fd (cl_dccache s)\<rparr>)"

definition with_peer :: "client_env \<Rightarrow> (buffer \<Rightarrow> unit cm) \<Rightarrow> direct \<Rightarrow> 'a dcm \<Rightarrow> (exn + 'a) cm" where
  "with_peer E send d m =
     thenM (upd_peer (di_fd d) (di_busy_update (\<lambda>_. True))) (\<lambda>_.
     thenM (run_peer E send d m) (\<lambda>(r, d).
     thenM (upd_peer (di_fd d) (\<lambda>_. d)) (\<lambda>_. ret r)))"

text \<open>
  \<^verbatim>\<open>DCCache::removeItem\<close>: the connection is destroyed while it is still in the cache, then its entry is
  erased. Destroying a connection one of whose functions is still running is a fault.
\<close>

definition destroy_peer :: "client_env \<Rightarrow> (buffer \<Rightarrow> unit cm) \<Rightarrow> direct \<Rightarrow> unit cm" where
  "destroy_peer E send d =
     (if di_busy d then raise UseAfterFree
      else
        thenM (upd_peer (di_fd d) (di_busy_update (\<lambda>_. True))) (\<lambda>_.
        thenM (run_peer E send d (delete_dc (di_fd d > - 1))) (\<lambda>(r, d).
        thenM (erase_peer (di_fd d)) (\<lambda>_. rethrow r))))"

text \<open>\<^verbatim>\<open>m_dccache->removeAll()\<close>\<close>

definition DisconnectDirectConns :: "client_env \<Rightarrow> (buffer \<Rightarrow> unit cm) \<Rightarrow> unit cm" where
  "DisconnectDirectConns E send =
     thenM (gets (\<lambda>s. map m_value (m_list (cl_dccache s)))) (eachM (destroy_peer E send))"

section \<open>Connecting and disconnecting\<close>

definition tree_refs :: "contact_tree \<Rightarrow> contact_ref list" where
  "tree_refs t = concat (map (\<lambda>g. map snd (m_crefs g)) (m_groups t))"

definition set_offline :: "client_env \<Rightarrow> contact_ref \<Rightarrow> unit cm" where
  "set_offline E r =
     thenM (gets (contact_at r)) (\<lambda>c.
     if m_status c \<noteq> STATUS_OFFLINE then set_contact_status E r STATUS_OFFLINE False else ret ())"

definition SignalDisconnect :: "client_env \<Rightarrow> disconnect_reason \<Rightarrow> unit cm" where
  "SignalDisconnect E r =
     thenM (emit_out [DisconnectedEv r]) (\<lambda>_.
     thenM (gets (\<lambda>s. mh_self (cl_mh s))) (\<lambda>self.
     thenM (set_offline E self) (\<lambda>_.
     thenM (gets (\<lambda>s. tree_refs (mh_tree (cl_mh s)))) (eachM (set_offline E)))))"

definition connect_server :: "client_env \<Rightarrow> string \<Rightarrow> u16 \<Rightarrow> unit cm" where
  "connect_server E host port =
     thenM (look_up E host) (\<lambda>_.
     thenM (gets cl_client_bind_host) (\<lambda>bind.
     thenM (bind_host E bind) (\<lambda>_. TCPSocket_Connect E host port)))"

text \<open>The result tells whether the \<^verbatim>\<open>try\<close> block was left normally.\<close>

definition try_connect :: "client_env \<Rightarrow> string \<Rightarrow> u16 \<Rightarrow> bool cm" where
  "try_connect E host port =
     catchM (thenM (connect_server E host port) (\<lambda>_. ret True))
       (\<lambda>e. if e = SocketError then thenM (SignalDisconnect E FAILED_LOWLEVEL) (\<lambda>_. ret False) else raise e)"

definition add_server_socket :: "unit cm" where
  "add_server_socket =
     thenM (gets cl_socket_fd) (\<lambda>fd. emit_out [AddSocketHandle fd WRITE])"

definition ConnectAuthorizer :: "client_env \<Rightarrow> client_state \<Rightarrow> unit cm" where
  "ConnectAuthorizer E st =
     thenM (gets cl_authorizerHostname) (\<lambda>host.
     thenM (gets cl_authorizerPort) (\<lambda>port.
     thenM (try_connect E host port) (\<lambda>ok.
     if \<not> ok then ret ()
     else
       thenM add_server_socket (\<lambda>_.
       thenM (query (ce_seq_seeds E)) (\<lambda>seq.
       thenM (query (ce_request_seeds E)) (\<lambda>rid.
       thenM (modify (\<lambda>s. s\<lparr>cl_client_seq_num := Some seq, cl_requestid := Some rid\<rparr>)) (\<lambda>_.
       to_state st)))))))"

definition DisconnectAuthorizer :: "unit cm" where
  "DisconnectAuthorizer = thenM remove_server_socket (\<lambda>_. to_state CL_NOT_CONNECTED)"

definition ConnectBOS :: "client_env \<Rightarrow> unit cm" where
  "ConnectBOS E =
     thenM (gets cl_bosHostname) (\<lambda>host.
     thenM (read cl_bosPort) (\<lambda>port.
     thenM (try_connect E host port) (\<lambda>ok.
     if \<not> ok then ret ()
     else thenM add_server_socket (\<lambda>_. to_state BOS_AWAITING_CONN_ACK))))"

text \<open>\<^verbatim>\<open>Client::Send\<close>, with what is done when the socket fails.\<close>

definition Send_or :: "client_env \<Rightarrow> unit cm \<Rightarrow> buffer \<Rightarrow> unit cm" where
  "Send_or E failed b = catchM (TCPSocket_Send E b) (\<lambda>e. if e = SocketError then failed else raise e)"

text \<open>
  While the direct connections are destroyed the state is already \<open>CL_NOT_CONNECTED\<close>, in which
  \<open>Disconnect\<close> returns at once: a failing send has no further effect.
\<close>

definition DisconnectBOS :: "client_env \<Rightarrow> unit cm" where
  "DisconnectBOS E =
     thenM (to_state CL_NOT_CONNECTED) (\<lambda>_.
     thenM remove_server_socket (\<lambda>_.
     thenM remove_listen_socket (\<lambda>_.
     DisconnectDirectConns E (Send_or E (ret ())))))"

definition authorizing :: "client_state \<Rightarrow> bool" where
  "authorizing st \<longleftrightarrow> st \<in> {AUTH_AWAITING_CONN_ACK, AUTH_AWAITING_AUTH_REPLY, UIN_AWAITING_CONN_ACK,
     UIN_AWAITING_UIN_REPLY}"

definition Client_Disconnect :: "client_env \<Rightarrow> disconnect_reason \<Rightarrow> unit cm" where
  "Client_Disconnect E r =
     thenM (gets cl_state) (\<lambda>st.
     if st = CL_NOT_CONNECTED then ret ()
     else
       thenM (if authorizing st then DisconnectAuthorizer else DisconnectBOS E) (\<lambda>_.
       SignalDisconnect E r))"

definition Client_Send :: "client_env \<Rightarrow> buffer \<Rightarrow> unit cm" where
  "Client_Send E = Send_or E (Client_Disconnect E FAILED_LOWLEVEL)"

definition FLAPwrapSNACandSend :: "client_env \<Rightarrow> out_snac \<Rightarrow> unit cm" where
  "FLAPwrapSNACandSend E = wrap_and_send E (Client_Send E)"

definition send_snacs :: "client_env \<Rightarrow> out_snac list \<Rightarrow> buffer \<Rightarrow> buffer cm" where
  "send_snacs E xs b = fold (\<lambda>x m. thenM m (FLAPwrapSNAC E x)) xs (ret b)"

end
