(* ===== verification/ServerSession.thy ===== *)
theory ServerSession
  imports ServerConn
begin

text \<open>
  The session with the server (\<^verbatim>\<open>src/Client.cpp\<close>): the packets the client sends to log in, what it does with
  the packets on the four channels and with every kind of SNAC, and the loop that takes frames from
  the stream. A packet is handled by a function of its body; the receive buffer is only touched by the loop.
\<close>

section \<open>Packets of the login\<close>

definition send_flap :: "client_env \<Rightarrow> u8 \<Rightarrow> (buffer \<Rightarrow> buffer) \<Rightarrow> unit cm" where
  "send_flap E channel fill =
     thenM (put_flap channel (\<lambda>b. Some (Inr (fill b))) new_buffer) (Client_Send E)"

definition auth_req_body :: "string \<Rightarrow> string \<Rightarrow> buffer \<Rightarrow> buffer" where
  "auth_req_body uin password b =
     fold TLV_Output
       [OutScreenName uin, OutPassword password,
        OutClientProfile ''ICQ Inc. - Product of ICQ (TM).2000b.4.63.1.3279.85'', OutClientType 266,
        OutClientVersionMajor 4, OutClientVersionMinor 63, OutClientICQNumber 1, OutClientBuildMajor 3279,
        OutClientBuildMinor 85, OutLanguage ''en'', OutCountryCode ''us'']
       (put_u32 0x00000001 b)"

definition SendAuthReq :: "client_env \<Rightarrow> unit cm" where
  "SendAuthReq E =
     thenM (gets id) (\<lambda>s.
     send_flap E 0x01 (auth_req_body (getStringUIN (m_self s)) (cl_password s)))"

definition SendNewUINReq :: "client_env \<Rightarrow> unit cm" where
  "SendNewUINReq E =
     thenM (send_flap E 0x01 (put_u32 0x00000001)) (\<lambda>_.
     thenM (gets cl_password) (\<lambda>pw. FLAPwrapSNACandSend E (UINRequest_Out pw)))"

definition cookie_body :: "u8 list \<Rightarrow> buffer \<Rightarrow> buffer" where
  "cookie_body cookie b = TLV_Output (OutCookie cookie) (put_u32 0x00000001 b)"

definition SendCookie :: "client_env \<Rightarrow> unit cm" where
  "SendCookie E = thenM (gets cl_cookie_data) (\<lambda>c. send_flap E 0x01 (cookie_body c))"

definition SendCapabilities :: "client_env \<Rightarrow> unit cm" where
  "SendCapabilities E = FLAPwrapSNACandSend E Capabilities_Out"

definition SendSetUserInfo :: "client_env \<Rightarrow> unit cm" where
  "SendSetUserInfo E = FLAPwrapSNACandSend E SetUserInfo_Out"

definition SendRateInfoRequest :: "client_env \<Rightarrow> unit cm" where
  "SendRateInfoRequest E = FLAPwrapSNACandSend E RequestRateInfo_Out"

definition SendRateInfoAck :: "client_env \<Rightarrow> unit cm" where
  "SendRateInfoAck E = FLAPwrapSNACandSend E RateInfoAck_Out"

definition SendPersonalInfoRequest :: "client_env \<Rightarrow> unit cm" where
  "SendPersonalInfoRequest E = FLAPwrapSNACandSend E PersonalInfoRequest_Out"

definition SendAddICBMParameter :: "client_env \<Rightarrow> unit cm" where
  "SendAddICBMParameter E =
     thenM (gets cl_use_typing_notif) (\<lambda>t. FLAPwrapSNACandSend E (MsgAddICBMParameter_Out t))"

definition SendRequestSBL :: "client_env \<Rightarrow> unit cm" where
  "SendRequestSBL E =
     thenM (send_snacs E [SBLRequestRights_Out, SBLRequestList_Out] new_buffer) (Client_Send E)"

definition SendSBLReceivedACK :: "client_env \<Rightarrow> unit cm" where
  "SendSBLReceivedACK E = FLAPwrapSNACandSend E SBLListACK_Out"

definition SendOfflineMessagesACK :: "client_env \<Rightarrow> unit cm" where
  "SendOfflineMessagesACK E =
     thenM (gets (\<lambda>s. m_uin (m_self s))) (\<lambda>uin. FLAPwrapSNACandSend E (Srv_Out (SrvAckOffline uin) 0))"

definition SignalConnect :: "unit cm" where
  "SignalConnect = thenM (to_state BOS_LOGGED_IN) (\<lambda>_. emit_out [ConnectedEv])"

definition start_listening :: "client_env \<Rightarrow> unit cm" where
  "start_listening E =
     thenM (gets id) (\<lambda>s.
     if \<not> cl_in_dc s then ret ()
     else
       thenM (TCPServer_setBindHost E (cl_client_bind_host s)) (\<lambda>_.
       thenM (if cl_use_portrange s then TCPServer_StartServer E (cl_lower_port s) (cl_upper_port s)
              else TCPServer_StartServer E 0 0) (\<lambda>_.
       thenM (read cl_listen_fd) (\<lambda>fd. emit_out [AddSocketHandle fd READ]))))"

text \<open>The SNACs of the login, all in one buffer.\<close>

definition login_snacs :: "client_env \<Rightarrow> u16 \<Rightarrow> client \<Rightarrow> out_snac list" where
  "login_snacs E port s =
     (let store = mh_store (cl_mh s);
          sss = (new_set_status (MapStatusToICQStatus (cl_status_wanted s) (cl_invisible_wanted s))
                   (cl_web_aware s))
                 \<lparr>ss_sendextra := True, ss_ip := Some (ce_local_ip E), ss_port := Some port\<rparr>
      in (if tree_empty (mh_tree (cl_mh s)) then []
          else [AddBuddy_Out (buddies_of_tree store (mh_tree (cl_mh s)))]) @
         (if cl_invisible_wanted s then [AddVisible_Out (buddies_of_list store (cl_visible_list s))] else []) @
         [SetStatus_Out sss] @
         (if cl_invisible_wanted s then []
          else [AddInvisible_Out (buddies_of_list store (cl_invisible_list s))]) @
         [ClientReady_Out, Srv_Out (SrvRequestOffline (m_uin (m_self s))) 0])"

definition SendLogin :: "client_env \<Rightarrow> unit cm" where
  "SendLogin E =
     thenM (start_listening E) (\<lambda>_.
     thenM (gets id) (\<lambda>s.
     thenM (if cl_in_dc s then read cl_listen_port else ret 0) (\<lambda>port.
     thenM (send_snacs E (login_snacs E port s) new_buffer) (\<lambda>b.
     thenM (Client_Send E b) (\<lambda>_.
     thenM SignalConnect (\<lambda>_.
     modify (\<lambda>s. s\<lparr>cl_last_server_ping := Some (uint (ce_now E))\<rparr>)))))))"

section \<open>Contacts\<close>

definition on_contactR :: "contact_ref \<Rightarrow> (contact \<Rightarrow> changed result) \<Rightarrow> unit cm" where
  "on_contactR r f =
     thenM (gets (contact_at r)) (\<lambda>c. thenM (liftR (f c)) (\<lambda>ch. on_contact r (\<lambda>_. ch)))"

definition on_contact_if :: "bool \<Rightarrow> contact_ref \<Rightarrow> (contact \<Rightarrow> changed) \<Rightarrow> unit cm" where
  "on_contact_if ok r f = (if ok then on_contact r f else ret ())"

definition tree_contact :: "u32 \<Rightarrow> client \<Rightarrow> contact_ref option" where
  "tree_contact uin s =
     (if tree_exists uin (mh_tree (cl_mh s)) then tree_lookup_uin uin (mh_tree (cl_mh s)) else None)"

definition apply_setters :: "contact_ref \<Rightarrow> (contact \<Rightarrow> changed) list \<Rightarrow> unit cm" where
  "apply_setters r fs = eachM (on_contact r) fs"

text \<open>
  The flag for the birthday and the cookie of a user information block are read although a block
  without status or LAN details does not set them.
\<close>

definition SignalUserOnline :: "client_env \<Rightarrow> user_info_block \<Rightarrow> unit cm" where
  "SignalUserOnline E u =
     thenM (gets (tree_contact (ui_getUIN u))) (\<lambda>found.
     case found of
       None \<Rightarrow> ret ()
     | Some r \<Rightarrow>
         thenM (read (\<lambda>_. ui_birthday u)) (\<lambda>bday.
         thenM (on_contact_if bday r (setBirthday True)) (\<lambda>_.
         thenM (on_contact r (setDirect True)) (\<lambda>_.
         thenM (set_contact_status E r (MapICQStatusToStatus (ui_status u))
           (MapICQStatusToInvisible (ui_status u))) (\<lambda>_.
         thenM (on_contact_if (ui_ext_ip u \<noteq> 0) r (setExtIP (ui_ext_ip u))) (\<lambda>_.
         thenM (read (\<lambda>_. ui_lan_ip u)) (\<lambda>ip.
         thenM (on_contact_if (ip \<noteq> 0) r (setLanIP ip)) (\<lambda>_.
         thenM (read (\<lambda>_. ui_lan_port u)) (\<lambda>port.
         thenM (on_contact_if (port \<noteq> 0) r (setLanPort port)) (\<lambda>_.
         thenM (on_contact_if (ui_tcp_version u \<noteq> 0) r (setTCPVersion (ui_tcp_version u))) (\<lambda>_.
         thenM (read (\<lambda>_. ui_dc_cookie u)) (\<lambda>cookie.
         thenM (on_contact_if (cookie \<noteq> 0) r (setDCCookie cookie)) (\<lambda>_.
         thenM (on_contact r (set_signon_time (ui_signonDate u))) (\<lambda>_.
         if ui_contains_capabilities u then
           on_contactR r (\<lambda>c. andThen (set_contact_capabilities (ui_capabilities u) c) (\<lambda>c. Inr (c, [])))
         else ret ()))))))))))))))"

definition SignalUserOffline :: "client_env \<Rightarrow> user_info_block \<Rightarrow> unit cm" where
  "SignalUserOffline E u =
     thenM (gets (tree_contact (ui_getUIN u))) (\<lambda>found.
     case found of None \<Rightarrow> ret () | Some r \<Rightarrow> set_contact_status E r STATUS_OFFLINE False)"

definition HandleUserInfoSNAC :: "client_env \<Rightarrow> user_info_block \<Rightarrow> unit cm" where
  "HandleUserInfoSNAC E ub =
     thenM (gets id) (\<lambda>s.
     if ui_getUIN ub = m_uin (m_self s) then
       thenM (if ui_ext_ip ub \<noteq> 0 then modify (\<lambda>s. s\<lparr>cl_ext_ip := ui_ext_ip ub\<rparr>) else ret ()) (\<lambda>_.
       set_contact_status E (mh_self (cl_mh s)) (MapICQStatusToStatus (ui_status ub))
         (MapICQStatusToInvisible (ui_status ub)))
     else ret ())"

section \<open>Messages\<close>

definition handler_result :: "handler \<Rightarrow> handler_signal list \<Rightarrow> unit cm" where
  "handler_result mh sigs =
     thenM (modify (\<lambda>s. s\<lparr>cl_mh := mh\<rparr>)) (\<lambda>_. emit_out (map HandlerEv sigs))"

definition incoming :: "client_env \<Rightarrow> u32 \<Rightarrow> subtype_body \<Rightarrow> (bool \<times> subtype_body) cm" where
  "incoming E t st =
     thenM (gets cl_mh) (\<lambda>mh.
     thenM (liftR (handleIncoming (ce_c2s E) (ce_s2c E) (ce_on_message E) (ce_on_auto E) (ce_indet E)
       (ce_now E) t st mh)) (\<lambda>(ack, st, mh, sigs).
     thenM (handler_result mh sigs) (\<lambda>_. ret (ack, st))))"

definition cached_event :: "icbm_cookie \<Rightarrow> client \<Rightarrow> message_event option" where
  "cached_event ck s = cache_map (cl_cookiecache s) ck"

definition remove_event :: "icbm_cookie \<Rightarrow> unit cm" where
  "remove_event ck =
     modify (\<lambda>s. s\<lparr>cl_cookiecache := snd (cache_remove (icbm_cookie_policy (\<lambda>ev.
       ev_type (ev_body ev) = FileTransfer)) ck (cl_cookiecache s))\<rparr>)"

text \<open>The acknowledgement of a message in the cache.\<close>

definition acknowledged :: "client_env \<Rightarrow> icbm_cookie \<Rightarrow> message_event \<Rightarrow> uin_part \<Rightarrow> uin_body \<Rightarrow> unit cm" where
  "acknowledged E ck ev u ub =
     thenM (liftR (handleIncomingACK (ce_s2c E) (ev\<lparr>m_isdirect := Some False\<rparr>) u ub)) (\<lambda>(ev, sigs).
     thenM (emit_out (map HandlerEv sigs)) (\<lambda>_. remove_event ck))"

definition SendAdvancedACK :: "client_env \<Rightarrow> icbm_cookie \<Rightarrow> icq_subtype \<Rightarrow> u16 option \<Rightarrow> unit cm" where
  "SendAdvancedACK E ck st seqnum =
     (case body st of
        UINSubType u ub \<Rightarrow>
          thenM (read (\<lambda>_. seqnum)) (\<lambda>seq. FLAPwrapSNACandSend E (MessageACK_Out ck st seq))
      | _ \<Rightarrow> ret ())"

definition SignalFTMessage :: "client_env \<Rightarrow> message_snac \<Rightarrow> uin_part \<Rightarrow> ft_part \<Rightarrow> unit cm" where
  "SignalFTMessage E m u f =
     thenM (gets (cached_event (mg_cookie m))) (\<lambda>found.
     case found of
       Some ev \<Rightarrow>
         if ev_type (ev_body ev) = FileTransfer then acknowledged E (mg_cookie m) ev u (FTBody f)
         else raise (Fault BadCast)
     | None \<Rightarrow>
         thenM (read (\<lambda>_. mg_seqnum m)) (\<lambda>seq.
         thenM (gets (\<lambda>s. handleIncomingFT (ce_indet E) (ce_now E) u f seq False (cl_mh s))) (\<lambda>(ev, mh, sigs).
         thenM (handler_result mh sigs) (\<lambda>_. cache_event E (mg_cookie m) ev))))"

definition SignalMessage :: "client_env \<Rightarrow> message_snac \<Rightarrow> unit cm" where
  "SignalMessage E m =
     (case mg_icqsubtype m of
        None \<Rightarrow> ret ()
      | Some st \<Rightarrow>
          (case body st of
             UINSubType u (FTBody f) \<Rightarrow> SignalFTMessage E m u f
           | bd \<Rightarrow>
               thenM (incoming E 0 bd) (\<lambda>(ack, bd).
               if ack then SendAdvancedACK E (mg_cookie m) (st\<lparr>body := bd\<rparr>) (mg_seqnum m) else ret ())))"

definition acked_types :: "u8 list" where
  "acked_types = [MSG_Type_Normal, MSG_Type_URL, MSG_Type_FT, MSG_Type_AutoReq_Away, MSG_Type_AutoReq_Occ,
     MSG_Type_AutoReq_NA, MSG_Type_AutoReq_DND, MSG_Type_AutoReq_FFC]"

definition SignalMessageACK :: "client_env \<Rightarrow> message_ack \<Rightarrow> unit cm" where
  "SignalMessageACK E a =
     (case ma_icqsubtype a of
        None \<Rightarrow> ret ()
      | Some (st, seq) \<Rightarrow>
          (case body st of
             UINSubType u ub \<Rightarrow>
               if getType (body st) \<in> set acked_types then
                 thenM (gets (cached_event (ma_cookie a))) (\<lambda>found.
                 case found of None \<Rightarrow> ret () | Some ev \<Rightarrow> acknowledged E (ma_cookie a) ev u ub)
               else ret ()
           | _ \<Rightarrow> ret ()))"

definition SignalMessageOfflineUser :: "message_offline_user \<Rightarrow> unit cm" where
  "SignalMessageOfflineUser m =
     thenM (gets (cached_event (mo_cookie m))) (\<lambda>found.
     case found of
       None \<Rightarrow> ret ()
     | Some ev \<Rightarrow>
         let f = (\<lambda>ev. ev\<lparr>m_finished := Some False, m_delivered := Some False, m_isdirect := Some False\<rparr>) in
         thenM (modify (\<lambda>s. s\<lparr>cl_cookiecache := cache_update (mo_cookie m) f (cl_cookiecache s)\<rparr>)) (\<lambda>_.
         message_ack_cb (f ev)))"

section \<open>Responses of the ICQ server\<close>

definition cached_request :: "u32 \<Rightarrow> client \<Rightarrow> request_value option" where
  "cached_request reqid s = cache_map (cl_reqidcache s) reqid"

definition remove_request :: "u32 \<Rightarrow> unit cm" where
  "remove_request reqid =
     modify (\<lambda>s. s\<lparr>cl_reqidcache := snd (cache_remove requestid_policy reqid (cl_reqidcache s))\<rparr>)"

definition update_request :: "u32 \<Rightarrow> request_value \<Rightarrow> unit cm" where
  "update_request reqid v =
     modify (\<lambda>s. s\<lparr>cl_reqidcache := cache_update reqid (\<lambda>_. v) (cl_reqidcache s)\<rparr>)"

definition set_ack :: "bool \<Rightarrow> message_event \<Rightarrow> message_event" where
  "set_ack d ev = ev\<lparr>m_finished := Some True, m_delivered := Some d, m_isdirect := Some False\<rparr>"

definition upd_sms :: "(sms_event \<Rightarrow> sms_event) \<Rightarrow> message_event \<Rightarrow> message_event" where
  "upd_sms f ev =
     (case ev_body ev of SMSMessageEvent m \<Rightarrow> ev\<lparr>ev_body := SMSMessageEvent (f m)\<rparr> | _ \<Rightarrow> ev)"

definition SignalSMSResponse :: "u32 \<Rightarrow> srv_response \<Rightarrow> unit cm" where
  "SignalSMSResponse reqid r =
     thenM (gets (cached_request reqid)) (\<lambda>found.
     case found of
       None \<Rightarrow> raise (Fault (ParseException ''Received an SMS response for unknown request id''))
     | Some (SMSValue ev) \<Rightarrow>
         thenM (read (\<lambda>_. sr_deliverable r)) (\<lambda>deliverable.
         if deliverable then thenM (message_ack_cb (set_ack True ev)) (\<lambda>_. remove_request reqid)
         else
           thenM (read (\<lambda>_. sr_smtp_deliverable r)) (\<lambda>smtp.
           if smtp then
             let ev = upd_sms (\<lambda>m. m\<lparr>se_smtp_from := sr_smtp_from r, se_smtp_to := sr_smtp_to r,
                                    se_smtp_subject := sr_smtp_subject r\<rparr>) ev in
             thenM (update_request reqid (SMSValue ev)) (\<lambda>_. emit_out [SmtpSend ev])
           else if sr_error_param r \<noteq> ''DUPLEX RESPONSE'' then
             thenM (message_ack_cb (failed_event Failed ev)) (\<lambda>_. remove_request reqid)
           else ret ()))
     | Some _ \<Rightarrow> raise (Fault (ParseException ''Request ID cached value is not for an SMS Message'')))"

text \<open>The contact made from a search result; nothing is connected to its signals.\<close>

definition found_contact :: "client_env \<Rightarrow> srv_response \<Rightarrow> contact cm" where
  "found_contact E r =
     thenM (read (\<lambda>_. sr_uin r)) (\<lambda>uin.
     thenM (read (\<lambda>_. sr_status r)) (\<lambda>st.
     thenM (read (\<lambda>_. sr_authreq r)) (\<lambda>auth.
     let c = fst (setEmail (sr_email r) (fst (setLastName (sr_lastname r) (fst (setFirstName (sr_firstname r)
               (fst (setAlias (sr_alias r) (uin_contact (ce_indet E) uin)))))))) in
     thenM (liftR (setStatus (ce_now E) st False c)) (\<lambda>ch. ret (fst (setAuthReq auth (fst ch)))))))"

text \<open>\<^verbatim>\<open>ev->setLastContactAdded(cl.add(c))\<close> for a new contact.\<close>

definition add_result :: "contact \<Rightarrow> search_event \<Rightarrow> search_event cm" where
  "add_result c ev =
     thenM (gets (\<lambda>s. alloc c (cl_mh s))) (\<lambda>(r, mh).
     thenM (modify (\<lambda>s. s\<lparr>cl_mh := mh\<rparr>)) (\<lambda>_.
     case cl_add (mh_store mh) r (sv_list ev) of
       (r, l) \<Rightarrow> ret (ev\<lparr>sv_list := l, sv_last := Some r\<rparr>)))"

definition search_step :: "client_env \<Rightarrow> srv_response \<Rightarrow> search_event \<Rightarrow> search_event cm" where
  "search_step E r ev =
     thenM (read (\<lambda>_. sr_empty_contact r)) (\<lambda>empty.
     thenM (read (\<lambda>_. sr_last_in_search r)) (\<lambda>final.
     thenM (if empty then ret (ev\<lparr>sv_last := None\<rparr>)
            else
              thenM (found_contact E r) (\<lambda>c.
              thenM (add_result c ev) (\<lambda>ev.
              if final then thenM (read (\<lambda>_. sr_more_results r)) (\<lambda>more. ret (ev\<lparr>sv_more := more\<rparr>))
              else ret ev))) (\<lambda>ev.
     ret (if final then ev\<lparr>sv_finished := True\<rparr> else ev))))"

definition SignalSearchResult :: "client_env \<Rightarrow> u32 \<Rightarrow> srv_response \<Rightarrow> search_event \<Rightarrow> unit cm" where
  "SignalSearchResult E reqid r ev =
     thenM (search_step E r ev) (\<lambda>ev.
     thenM (emit_out [SearchResultEv ev]) (\<lambda>_.
     if sv_finished ev then remove_request reqid else update_request reqid (SearchValue ev)))"

definition SignalSimpleUserInfo :: "client_env \<Rightarrow> u32 \<Rightarrow> srv_response \<Rightarrow> unit cm" where
  "SignalSimpleUserInfo E reqid r =
     thenM (gets (cached_request reqid)) (\<lambda>found.
     case found of
       Some (SearchValue ev) \<Rightarrow> SignalSearchResult E reqid r ev
     | Some _ \<Rightarrow> ret ()
     | None \<Rightarrow>
         thenM (read (\<lambda>_. sr_uin r)) (\<lambda>uin.
         thenM (gets (tree_contact uin)) (\<lambda>c.
         case c of
           None \<Rightarrow> ret ()
         | Some c \<Rightarrow>
             thenM (apply_setters c [setAlias (sr_alias r), setEmail (sr_email r), setFirstName (sr_firstname r),
               setLastName (sr_lastname r)]) (\<lambda>_.
             thenM (read (\<lambda>_. sr_authreq r)) (\<lambda>auth. on_contact c (setAuthReq auth))))))"

definition SignalSearchUserInfo :: "client_env \<Rightarrow> u32 \<Rightarrow> srv_response \<Rightarrow> unit cm" where
  "SignalSearchUserInfo E reqid r =
     thenM (gets (cached_request reqid)) (\<lambda>found.
     case found of Some (SearchValue ev) \<Rightarrow> SignalSearchResult E reqid r ev | _ \<Rightarrow> ret ())"

definition SignalRandomChatFound :: "client_env \<Rightarrow> u32 \<Rightarrow> srv_response \<Rightarrow> unit cm" where
  "SignalRandomChatFound E reqid r =
     thenM (gets (cached_request reqid)) (\<lambda>found.
     case found of
       Some (SearchValue ev) \<Rightarrow>
         thenM (read (\<lambda>_. sr_uin r)) (\<lambda>uin.
         thenM (add_result (uin_contact (ce_indet E) uin) ev) (\<lambda>ev.
         thenM (emit_out [SearchResultEv (ev\<lparr>sv_finished := True\<rparr>)]) (\<lambda>_. remove_request reqid)))
     | _ \<Rightarrow> ret ())"

definition getUserInfoCacheContact :: "u32 \<Rightarrow> contact_ref cm" where
  "getUserInfoCacheContact reqid =
     thenM (gets (cached_request reqid)) (\<lambda>found.
     case found of
       Some (UserInfoValue r) \<Rightarrow> ret r
     | Some _ \<Rightarrow> raise (Fault (ParseException ''Request ID cached value is not for a User Info request''))
     | None \<Rightarrow> raise (Fault (ParseException ''Received a UserInfo response for unknown request id'')))"

definition catch_parse :: "unit cm \<Rightarrow> unit cm" where
  "catch_parse m = catchM m (\<lambda>e. case e of Fault (ParseException _) \<Rightarrow> ret () | _ \<Rightarrow> raise e)"

text \<open>Details of a contact that were asked for; the mobile number is not translated.\<close>

definition user_info_reply :: "client_env \<Rightarrow> u32 \<Rightarrow> ((string \<Rightarrow> string) \<Rightarrow> contact \<Rightarrow> changed) \<Rightarrow> unit cm" where
  "user_info_reply E reqid f =
     catch_parse (thenM (getUserInfoCacheContact reqid) (\<lambda>r.
       on_contact r (f (ce_s2c E ENCODING_CONTACT_LOCALE (Some r)))))"

definition translate_home_info :: "(string \<Rightarrow> string) \<Rightarrow> main_home_info \<Rightarrow> main_home_info" where
  "translate_home_info tr i =
     (info_setMobileNo (cellular i)
       (new_MainHomeInfo\<lparr>home_alias := tr (home_alias i), firstname := tr (firstname i),
          lastname := tr (lastname i), email := tr (email i), home_city := tr (home_city i),
          home_state := tr (home_state i), phone := tr (phone i), fax := tr (fax i),
          home_street := tr (home_street i), home_zip := tr (home_zip i)\<rparr>))
       \<lparr>home_country := home_country i, timezone := timezone i\<rparr>"

text \<open>The country of the work place is not copied.\<close>

definition translate_work_info :: "(string \<Rightarrow> string) \<Rightarrow> work_info \<Rightarrow> work_info" where
  "translate_work_info tr i =
     new_WorkInfo\<lparr>work_city := tr (work_city i), work_state := tr (work_state i),
       work_street := tr (work_street i), work_zip := tr (work_zip i), company_name := tr (company_name i),
       company_dept := tr (company_dept i), company_position := tr (company_position i),
       company_web := tr (company_web i)\<rparr>"

definition translate_second :: "(string \<Rightarrow> string) \<Rightarrow> (u16 \<times> string) list \<Rightarrow> (u16 \<times> string) list" where
  "translate_second tr = map (\<lambda>(k, v). (k, tr v))"

definition SignalUserInfoReply :: "client_env \<Rightarrow> u32 \<Rightarrow> srv_response \<Rightarrow> response_type \<Rightarrow> unit cm" where
  "SignalUserInfoReply E reqid r t =
     (case t of
        RMainHomeInfo \<Rightarrow>
          user_info_reply E reqid (\<lambda>tr. setMainHomeInfo (translate_home_info tr (sr_main_home_info r)))
      | RHomepageInfo \<Rightarrow>
          user_info_reply E reqid (\<lambda>tr. setHomepageInfo
            ((sr_homepage_info r)\<lparr>homepage := tr (homepage (sr_homepage_info r))\<rparr>))
      | RWorkInfo \<Rightarrow>
          user_info_reply E reqid (\<lambda>tr. setWorkInfo (translate_work_info tr (sr_work_info r)))
      | RBackgroundInfo \<Rightarrow>
          user_info_reply E reqid (\<lambda>tr. setBackgroundInfo
            ((sr_background_info r)\<lparr>schools := translate_second tr (schools (sr_background_info r))\<rparr>))
      | RInterestInfo \<Rightarrow>
          user_info_reply E reqid (\<lambda>tr. setInterestInfo
            ((sr_personal_interest_info r)
               \<lparr>interests := translate_second tr (interests (sr_personal_interest_info r))\<rparr>))
      | REmailInfo \<Rightarrow>
          user_info_reply E reqid (\<lambda>tr c.
            (case setEmailInfo ((sr_email_info r)\<lparr>emails := map tr (emails (sr_email_info r))\<rparr>) c of
               (c, sigs) \<Rightarrow> (c, sigs @ snd (userinfo_change_emit False c))))
      | RAboutInfo \<Rightarrow> user_info_reply E reqid (\<lambda>tr. setAboutInfo (tr (sr_about r)))
      | _ \<Rightarrow> ret ())"

definition SignalSrvResponse :: "client_env \<Rightarrow> u32 \<Rightarrow> srv_response \<Rightarrow> unit cm" where
  "SignalSrvResponse E reqid r =
     thenM (read (\<lambda>_. sr_type r)) (\<lambda>t.
     case t of
       OfflineMessagesComplete \<Rightarrow> SendOfflineMessagesACK E
     | OfflineMessage \<Rightarrow>
         thenM (read (\<lambda>_. sr_time r)) (\<lambda>time.
         case sr_icqsubtype r of
           None \<Rightarrow> raise (Fault NullPointer)
         | Some st \<Rightarrow> thenM (incoming E (word_of_int time) (body st)) (\<lambda>_. ret ()))
     | SMS_Response \<Rightarrow> SignalSMSResponse reqid r
     | SimpleUserInfo \<Rightarrow> SignalSimpleUserInfo E reqid r
     | SearchSimpleUserInfo \<Rightarrow> SignalSearchUserInfo E reqid r
     | RandomChatFound \<Rightarrow> SignalRandomChatFound E reqid r
     | _ \<Rightarrow> SignalUserInfoReply E reqid r t)"

section \<open>The channels\<close>

definition SignalUINResponse :: "u32 \<Rightarrow> unit cm" where
  "SignalUINResponse uin = emit_out [NewUINEv uin True]"

definition SignalUINRequestError :: "unit cm" where
  "SignalUINRequestError = emit_out [NewUINEv 0 False]"

definition SignalRateInfoChange :: "rate_info_change \<Rightarrow> unit cm" where
  "SignalRateInfoChange r = emit_out [RateInfoChangeEv r]"

definition ParseCh1 :: "client_env \<Rightarrow> buffer \<Rightarrow> unit cm" where
  "ParseCh1 E b =
     thenM (gets cl_state) (\<lambda>st.
     if remains b = 4 \<and> (st = AUTH_AWAITING_CONN_ACK \<or> st = UIN_AWAITING_CONN_ACK) then
       (if st = AUTH_AWAITING_CONN_ACK then thenM (SendAuthReq E) (\<lambda>_. to_state AUTH_AWAITING_AUTH_REPLY)
        else thenM (SendNewUINReq E) (\<lambda>_. to_state UIN_AWAITING_UIN_REPLY))
     else if remains b = 4 \<and> st = BOS_AWAITING_CONN_ACK then
       thenM (SendCookie E) (\<lambda>_. to_state BOS_AWAITING_LOGIN_REPLY)
     else ret ())"

text \<open>The steps after the rate information, the last before the client is on line.\<close>

definition HandleRateInfo :: "client_env \<Rightarrow> unit cm" where
  "HandleRateInfo E =
     thenM (SendRateInfoAck E) (\<lambda>_.
     thenM (SendPersonalInfoRequest E) (\<lambda>_.
     thenM (SendAddICBMParameter E) (\<lambda>_.
     thenM (SendSetUserInfo E) (\<lambda>_.
     thenM (gets cl_fetch_sbl) (\<lambda>sbl.
     thenM (if sbl then SendRequestSBL E else ret ()) (\<lambda>_. SendLogin E))))))"

fun HandleSnac :: "client_env \<Rightarrow> u32 \<Rightarrow> snac_body \<Rightarrow> unit cm" where
  "HandleSnac E reqid ServerReady = SendCapabilities E"
| "HandleSnac E reqid RateInfo = HandleRateInfo E"
| "HandleSnac E reqid CapAck = SendRateInfoRequest E"
| "HandleSnac E reqid (UserInfo u) = HandleUserInfoSNAC E u"
| "HandleSnac E reqid (RateInfoChange r) = SignalRateInfoChange r"
| "HandleSnac E reqid (BuddyOnline u) = SignalUserOnline E u"
| "HandleSnac E reqid (BuddyOffline u) = SignalUserOffline E u"
| "HandleSnac E reqid (Message m) = SignalMessage E m"
| "HandleSnac E reqid (MessageACK a) = SignalMessageACK E a"
| "HandleSnac E reqid (MessageOfflineUser m) = SignalMessageOfflineUser m"
| "HandleSnac E reqid (SrvResponse r) = SignalSrvResponse E reqid r"
| "HandleSnac E reqid (UINResponse uin) = SignalUINResponse uin"
| "HandleSnac E reqid UINRequestError = SignalUINRequestError"
| "HandleSnac E reqid (SBLList l) = SendSBLReceivedACK E"
| "HandleSnac E reqid _ = ret ()"

text \<open>Only exceptions of \<^verbatim>\<open>ParseSNAC\<close> itself are caught.\<close>

definition ParseCh2 :: "client_env \<Rightarrow> buffer \<Rightarrow> unit cm" where
  "ParseCh2 E b =
     (case ParseSNAC (ce_snac E) b of
        None \<Rightarrow> raise Diverges
      | Some (Inl (ParseException msg)) \<Rightarrow> ret ()
      | Some (Inl e) \<Rightarrow> raise (Fault e)
      | Some (Inr (x, b)) \<Rightarrow> HandleSnac E (sn_requestID x) (sn_body x))"

definition ParseCh3 :: "client_env \<Rightarrow> buffer \<Rightarrow> unit cm" where
  "ParseCh3 E b = ret ()"

definition as_Redirect :: "in_tlv \<Rightarrow> (string \<times> u16) option" where
  "as_Redirect t = (case t of RedirectTLV h p \<Rightarrow> Some (h, p) | _ \<Rightarrow> None)"

definition as_Cookie :: "in_tlv \<Rightarrow> u8 list option" where
  "as_Cookie t = (case t of CookieTLV len v \<Rightarrow> Some (take (unat len) v) | _ \<Rightarrow> None)"

definition as_ErrorCode :: "in_tlv \<Rightarrow> u16 option" where
  "as_ErrorCode t = (case t of ErrorCodeTLV c \<Rightarrow> Some c | _ \<Rightarrow> None)"

definition as_DisconnectReason :: "in_tlv \<Rightarrow> u16 option" where
  "as_DisconnectReason t = (case t of DisconnectReasonTLV c \<Rightarrow> Some c | _ \<Rightarrow> None)"

lemmas client_tlv_casts = as_Redirect_def as_Cookie_def as_ErrorCode_def as_DisconnectReason_def

definition login_error :: "u16 \<Rightarrow> disconnect_reason" where
  "login_error c =
     (if c = 0x01 then FAILED_BADUSERNAME else if c = 0x02 then FAILED_TURBOING
      else if c = 0x03 then FAILED_BADPASSWORD else if c = 0x05 then FAILED_MISMATCH_PASSWD
      else if c = 0x18 then FAILED_TURBOING else FAILED_UNKNOWN)"

definition redirected :: "client_env \<Rightarrow> tlv_list \<Rightarrow> unit cm" where
  "redirected E m =
     thenM (liftR (tlv_cast as_Redirect TLV_Redirect m)) (\<lambda>(host, port).
     thenM (modify (\<lambda>s. s\<lparr>cl_bosHostname := host,
       cl_bosPort := (if cl_bosOverridePort s then cl_bosPort s
                      else Some (if port \<noteq> 0 then port else cl_authorizerPort s))\<rparr>)) (\<lambda>_.
     thenM (liftR (tlv_cast as_Cookie TLV_Cookie m)) (\<lambda>cookie.
     thenM (modify (\<lambda>s. s\<lparr>cl_cookie_data := cookie\<rparr>)) (\<lambda>_.
     thenM DisconnectAuthorizer (\<lambda>_. ConnectBOS E)))))"

definition ParseCh4 :: "client_env \<Rightarrow> buffer \<Rightarrow> unit cm" where
  "ParseCh4 E b =
     thenM (gets cl_state) (\<lambda>st.
     thenM (liftR (TLVList_Parse (env_cap0 (ce_snac E)) TLV_ParseMode_Channel04 0xffff (\<lambda>_. None) b)) (\<lambda>(m, b).
     if st = AUTH_AWAITING_AUTH_REPLY \<or> st = UIN_AWAITING_UIN_REPLY then
       (if tlv_exists TLV_Cookie m \<and> tlv_exists TLV_Redirect m then redirected E m
        else
          thenM (if tlv_exists TLV_ErrorCode m then
                   thenM (liftR (tlv_cast as_ErrorCode TLV_ErrorCode m)) (\<lambda>c. ret (login_error c))
                 else ret (if st = AUTH_AWAITING_AUTH_REPLY then FAILED_UNKNOWN else REQUESTED)) (\<lambda>reason.
          thenM DisconnectAuthorizer (\<lambda>_. SignalDisconnect E reason)))
     else
       thenM (if tlv_exists TLV_DisconnectReason m then
                thenM (liftR (tlv_cast as_DisconnectReason TLV_DisconnectReason m)) (\<lambda>c.
                ret (if c = 0x0001 then FAILED_DUALLOGIN else FAILED_UNKNOWN))
              else ret FAILED_UNKNOWN) (\<lambda>reason.
       thenM (DisconnectBOS E) (\<lambda>_. SignalDisconnect E reason))))"

section \<open>The stream\<close>

definition handle_flap :: "client_env \<Rightarrow> u8 \<Rightarrow> buffer \<Rightarrow> unit cm" where
  "handle_flap E channel b =
     (if channel = 1 then ParseCh1 E b
      else if channel = 2 then ParseCh2 E b
      else if channel = 3 then ParseCh3 E b
      else if channel = 4 then ParseCh4 E b
      else ret ())"

datatype next_flap = BadStart | Incomplete | Flap u8 buffer

definition next_flap :: "buffer \<Rightarrow> (next_flap \<times> buffer) result" where
  "next_flap recv =
     andThen (get_u8 (setPos 0 recv)) (\<lambda>(start_byte, b).
     if start_byte \<noteq> 42 then Inr (BadStart, buf_clear b)
     else if remains b < 5 then Inr (Incomplete, b)
     else
       andThen (get_u8 b) (\<lambda>(channel, b).
       andThen (get_u16 b) (\<lambda>(seq_num, b).
       andThen (get_u16 b) (\<lambda>(data_len, b).
       if remains b < ucast data_len then Inr (Incomplete, b)
       else andThen (chopOffBuffer b new_buffer (ucast data_len + 6)) (\<lambda>(b, sb).
         Inr (Flap channel (advance 6 sb), b))))))"

lemma get_data:
  "get_u8 b = Inr (x, c) \<Longrightarrow> m_data c = m_data b" "get_u16 b = Inr (y, c) \<Longrightarrow> m_data c = m_data b"
  by (auto simp: get_u8_def get_u16_def andThen_eq_Inr split: if_splits)

lemma next_flap_shorter:
  assumes "next_flap recv = Inr (Flap c sb, recv')"
  shows "length (m_data recv') < length (m_data recv)"
proof -
  obtain b len d where "m_data b = m_data recv" "chopOffBuffer b new_buffer (ucast (len :: u16) + 6) = Inr (recv', d)"
    using assms by (fastforce simp: next_flap_def andThen_eq_Inr setPos_def dest!: get_data split: if_splits)
  moreover have "unat (ucast len + 6 :: u32) = unat len + 6"
    using unat_u16_le [of len] by (subst unat_plus_u32) auto
  ultimately show ?thesis
    by (auto simp: chopOffBuffer_def split: if_splits)
qed

text \<open>
  The loop of \<open>Parse\<close>. The receive buffer is returned in every case: it keeps what follows the packet
  whose handling ended in an exception. Only the loop reads and writes it; while packets are handled it
  is the argument \<open>recv\<close>, and \<open>Client_Parse\<close> takes it out of the state and puts it back.
\<close>

function parse_flaps :: "client_env \<Rightarrow> buffer \<Rightarrow> client \<Rightarrow> (exn + unit) \<times> buffer \<times> client" where
  "parse_flaps E recv s =
     (if buf_empty recv then (Inr (), recv, s)
      else case next_flap recv of
             Inl e \<Rightarrow> (Inl (Fault e), recv, s)
           | Inr (BadStart, recv) \<Rightarrow> (Inr (), recv, s)
           | Inr (Incomplete, recv) \<Rightarrow> (Inr (), recv, s)
           | Inr (Flap channel sb, recv) \<Rightarrow>
               (case handle_flap E channel sb s of
                  (Inl e, s) \<Rightarrow> (Inl e, recv, s)
                | (Inr _, s) \<Rightarrow> parse_flaps E recv s))"
  by pat_completeness auto
termination
  by (relation "measure (\<lambda>(E, recv, s). length (m_data recv))") (auto dest: next_flap_shorter)

declare parse_flaps.simps [simp del]

definition Client_Parse :: "client_env \<Rightarrow> unit cm" where
  "Client_Parse E = (\<lambda>s.
     case parse_flaps E (cl_recv s) (s\<lparr>cl_recv := new_buffer\<rparr>) of (r, recv, s) \<Rightarrow> (r, s\<lparr>cl_recv := recv\<rparr>))"

text \<open>
  \<open>RecvFromServer\<close> over what the socket delivers: pieces of the stream, \<open>None\<close> when it fails; at the end
  of the list there is nothing to read for now.
\<close>

fun recv_loop :: "client_env \<Rightarrow> u8 list option list \<Rightarrow> unit cm" where
  "recv_loop E cs =
     thenM (gets cl_socket) (\<lambda>sock.
     if sock \<noteq> SOCK_CONNECTED then ret ()
     else
       case cs of
         [] \<Rightarrow> ret ()
       | None # cs \<Rightarrow> thenM (set_socket SOCK_NOT_CONNECTED) (\<lambda>_. raise SocketError)
       | Some c # cs \<Rightarrow>
           thenM (modify (\<lambda>s. s\<lparr>cl_recv := pack_bytes c (cl_recv s)\<rparr>)) (\<lambda>_.
           thenM (Client_Parse E) (\<lambda>_. recv_loop E cs)))"

definition RecvFromServer :: "client_env \<Rightarrow> u8 list option list \<Rightarrow> unit cm" where
  "RecvFromServer E cs =
     catchM (recv_loop E cs)
       (\<lambda>e. if e = SocketError then Client_Disconnect E FAILED_LOWLEVEL else raise e)"

end
