(* ===== verification/ClientApi.thy ===== *)
theory ClientApi
  imports ServerSession
begin

text \<open>
  The rest of the client (\<^verbatim>\<open>src/Client.cpp\<close>): what the application calls, the direct connections it opens and
  accepts, the callbacks of the contact list and of the caches, and the dispatch of socket events. The parts
  that belong to mail and to the transfer of files are arguments.
\<close>

section \<open>Construction\<close>

text \<open>\<open>mh\<close> is the message handler made for the contact of the user and the empty contact tree.\<close>

definition new_client :: "client_env \<Rightarrow> handler \<Rightarrow> string \<Rightarrow> client" where
  "new_client E mh password =
     \<lparr>cl_state = CL_NOT_CONNECTED, cl_mh = mh, cl_password = password, cl_status_wanted = STATUS_OFFLINE,
      cl_invisible_wanted = False, cl_web_aware = False, cl_random_group = None,
      cl_authorizerHostname = ''login.icq.com'', cl_authorizerPort = 5190, cl_bosHostname = '''',
      cl_bosPort = None, cl_bosOverridePort = False, cl_client_bind_host = '''', cl_in_dc = True,
      cl_out_dc = True, cl_client_seq_num = None, cl_requestid = None, cl_visible_list = new_contact_list,
      cl_invisible_list = new_contact_list, cl_fetch_sbl = False, cl_cookie_data = [], cl_ext_ip = 0,
      cl_use_portrange = False, cl_use_typing_notif = False, cl_upper_port = 0, cl_lower_port = 0,
      cl_socket = SOCK_NOT_CONNECTED, cl_socket_fd = - 1, cl_listening = False, cl_listen_fd = None,
      cl_listen_port = None, cl_dccache = setDefaultTimeout 30 new_cache, cl_last_server_ping = None,
      cl_reqidcache = new_cache, cl_cookiecache = setDefaultTimeout 30 new_cache, cl_recv = new_buffer,
      cl_tick = 0, cl_out = []\<rparr>"

section \<open>Status\<close>

text \<open>The SNACs that change status and visibility, in the order the server expects.\<close>

definition status_snacs :: "status \<Rightarrow> bool \<Rightarrow> client \<Rightarrow> out_snac list" where
  "status_snacs st invis s =
     (let store = mh_store (cl_mh s); was = m_invisible (m_self s) in
      (if \<not> was \<and> invis then [AddVisible_Out (buddies_of_list store (cl_visible_list s))] else []) @
      [SetStatus_Out (new_set_status (MapStatusToICQStatus st invis) (cl_web_aware s))] @
      (if was \<and> \<not> invis then [AddInvisible_Out (buddies_of_list store (cl_invisible_list s))] else []))"

definition Client_setStatus :: "client_env \<Rightarrow> status \<Rightarrow> bool \<Rightarrow> unit cm" where
  "Client_setStatus E st invis =
     thenM (modify (\<lambda>s. s\<lparr>cl_status_wanted := st, cl_invisible_wanted := invis\<rparr>)) (\<lambda>_.
     thenM (gets id) (\<lambda>s.
     if st = STATUS_OFFLINE then Client_Disconnect E REQUESTED
     else if cl_state s = BOS_LOGGED_IN then
       thenM (send_snacs E (status_snacs st invis s) new_buffer) (Client_Send E)
     else if cl_state s = CL_NOT_CONNECTED then
       thenM (emit_out [ConnectingEv]) (\<lambda>_. ConnectAuthorizer E AUTH_AWAITING_CONN_ACK)
     else ret ()))"

definition Client_setStatus_only :: "client_env \<Rightarrow> status \<Rightarrow> unit cm" where
  "Client_setStatus_only E st = thenM (gets cl_invisible_wanted) (Client_setStatus E st)"

definition Client_setInvisible :: "client_env \<Rightarrow> bool \<Rightarrow> unit cm" where
  "Client_setInvisible E invis = thenM (gets cl_status_wanted) (\<lambda>st. Client_setStatus E st invis)"

definition setWebAware :: "client_env \<Rightarrow> bool \<Rightarrow> unit cm" where
  "setWebAware E wa =
     thenM (gets id) (\<lambda>s.
     if cl_web_aware s = wa then ret ()
     else
       thenM (modify (\<lambda>s. s\<lparr>cl_web_aware := wa\<rparr>)) (\<lambda>_.
       if m_status (m_self s) \<noteq> STATUS_OFFLINE
       then Client_setStatus E (cl_status_wanted s) (cl_invisible_wanted s) else ret ()))"

text \<open>The request id drawn is not given to the request.\<close>

definition setRandomChatGroup :: "client_env \<Rightarrow> u16 \<Rightarrow> unit cm" where
  "setRandomChatGroup E grp =
     thenM (read cl_random_group) (\<lambda>g.
     thenM (gets cl_state) (\<lambda>st.
     if g \<noteq> grp \<and> st \<noteq> CL_NOT_CONNECTED then
       thenM (modify (\<lambda>s. s\<lparr>cl_random_group := Some grp\<rparr>)) (\<lambda>_.
       thenM NextRequestID (\<lambda>reqid.
       thenM (gets (\<lambda>s. m_uin (m_self s))) (\<lambda>uin.
       FLAPwrapSNACandSend E (Srv_Out (SrvSetRandomChatGroup uin grp) 0))))
     else ret ()))"

definition RegisterUIN :: "client_env \<Rightarrow> unit cm" where
  "RegisterUIN E =
     thenM (gets cl_state) (\<lambda>st.
     if st = CL_NOT_CONNECTED then ConnectAuthorizer E UIN_AWAITING_CONN_ACK else ret ())"

definition isConnected :: "client \<Rightarrow> bool" where
  "isConnected s = (cl_state s = BOS_LOGGED_IN)"

section \<open>Requests\<close>

definition request :: "client_env \<Rightarrow> srv_request \<Rightarrow> request_value \<Rightarrow> unit cm" where
  "request E r v =
     thenM NextRequestID (\<lambda>reqid.
     thenM (cache_request E reqid v) (\<lambda>_. FLAPwrapSNACandSend E (Srv_Out r reqid)))"

definition fetchSimpleContactInfo :: "client_env \<Rightarrow> contact_ref \<Rightarrow> unit cm" where
  "fetchSimpleContactInfo E r =
     thenM (gets id) (\<lambda>s.
     if \<not> isICQContact (contact_at r s) then ret ()
     else FLAPwrapSNACandSend E (Srv_Out (SrvRequestSimpleUserInfo (m_uin (m_self s)) (m_uin (contact_at r s))) 0))"

definition fetchDetailContactInfo :: "client_env \<Rightarrow> contact_ref \<Rightarrow> unit cm" where
  "fetchDetailContactInfo E r =
     thenM (gets id) (\<lambda>s.
     if \<not> isICQContact (contact_at r s) then ret ()
     else request E (SrvRequestDetailUserInfo (m_uin (m_self s)) (m_uin (contact_at r s))) (UserInfoValue r))"

definition fetchSelfSimpleContactInfo :: "client_env \<Rightarrow> unit cm" where
  "fetchSelfSimpleContactInfo E = thenM (gets (\<lambda>s. mh_self (cl_mh s))) (fetchSimpleContactInfo E)"

definition fetchSelfDetailContactInfo :: "client_env \<Rightarrow> unit cm" where
  "fetchSelfDetailContactInfo E = thenM (gets (\<lambda>s. mh_self (cl_mh s))) (fetchDetailContactInfo E)"

definition search :: "client_env \<Rightarrow> search_type \<Rightarrow> (u32 \<Rightarrow> srv_request) \<Rightarrow> search_event cm" where
  "search E t r =
     thenM (gets (\<lambda>s. m_uin (m_self s))) (\<lambda>uin.
     thenM (request E (r uin) (SearchValue (new_search_event t))) (\<lambda>_. ret (new_search_event t)))"

definition search_short :: "client_env \<Rightarrow> string \<Rightarrow> string \<Rightarrow> string \<Rightarrow> search_event cm" where
  "search_short E nick first_name last_name =
     search E ShortWhitepage (\<lambda>uin. SrvRequestShortWP uin nick first_name last_name)"

datatype age_range =
    RANGE_NORANGE | RANGE_18_22 | RANGE_23_29 | RANGE_30_39 | RANGE_40_49 | RANGE_50_59 | RANGE_60_ABOVE

definition ages :: "age_range \<Rightarrow> u16 \<times> u16" where
  "ages a =
     (case a of
        RANGE_18_22 \<Rightarrow> (18, 22)
      | RANGE_23_29 \<Rightarrow> (23, 29)
      | RANGE_30_39 \<Rightarrow> (30, 39)
      | RANGE_40_49 \<Rightarrow> (40, 49)
      | RANGE_50_59 \<Rightarrow> (50, 59)
      | RANGE_60_ABOVE \<Rightarrow> (60, 0x2710)
      | RANGE_NORANGE \<Rightarrow> (0, 0))"

text \<open>The white pages request with the ages filled in.\<close>

definition search_full :: "client_env \<Rightarrow> age_range \<Rightarrow> (u16 \<Rightarrow> u16 \<Rightarrow> white_pages) \<Rightarrow> search_event cm" where
  "search_full E a w =
     (case ages a of (min_age, max_age) \<Rightarrow>
        search E FullWhitepage (\<lambda>uin. SrvRequestFullWP uin (w min_age max_age)))"

definition search_uin :: "client_env \<Rightarrow> u32 \<Rightarrow> search_event cm" where
  "search_uin E u = search E UIN_Search (\<lambda>uin. SrvRequestSimpleUserInfo uin u)"

definition search_keyword :: "client_env \<Rightarrow> string \<Rightarrow> search_event cm" where
  "search_keyword E k = search E Keyword (\<lambda>uin. SrvRequestKeywordSearch uin k)"

definition search_random :: "client_env \<Rightarrow> u16 \<Rightarrow> search_event cm" where
  "search_random E grp = search E RandomChat (\<lambda>uin. SrvRequestRandomChat uin grp)"

definition uploadSelfDetails :: "client_env \<Rightarrow> unit cm" where
  "uploadSelfDetails E =
     thenM (gets id) (\<lambda>s.
     let c = m_self s; uin = m_uin c;
         tr = ce_c2s E ENCODING_CONTACT_LOCALE (Some (mh_self (cl_mh s)));
         ohp = (m_homepage_info c)\<lparr>homepage := tr (homepage (m_homepage_info c))\<rparr> in
     thenM (send_snacs E
       [Srv_Out (SrvUpdateMainHomeInfo uin (translate_home_info tr (m_main_home_info c))) 0,
        Srv_Out (SrvUpdateWorkInfo uin (translate_work_info tr (m_work_info c))) 0,
        Srv_Out (SrvUpdateHomepageInfo uin ohp) 0,
        Srv_Out (SrvUpdateAboutInfo uin (tr (m_about c))) 0] new_buffer) (Client_Send E))"

definition fetchServerBasedContactList :: "client_env \<Rightarrow> unit cm" where
  "fetchServerBasedContactList E =
     thenM (modify (\<lambda>s. s\<lparr>cl_fetch_sbl := True\<rparr>)) (\<lambda>_.
     thenM (gets cl_state) (\<lambda>st. if st = BOS_LOGGED_IN then SendRequestSBL E else ret ()))"

text \<open>Only the brackets of a change are sent.\<close>

definition uploadServerBasedContact :: "client_env \<Rightarrow> unit cm" where
  "uploadServerBasedContact E = thenM (send_snacs E [SBLBeginEdit_Out] new_buffer) (Client_Send E)"

definition uploadServerBasedContactList :: "client_env \<Rightarrow> unit cm" where
  "uploadServerBasedContactList E =
     thenM (send_snacs E [SBLBeginEdit_Out, SBLCommitEdit_Out] new_buffer) (Client_Send E)"

definition removeServerBasedContactList :: "client_env \<Rightarrow> unit cm" where
  "removeServerBasedContactList E =
     thenM (send_snacs E [SBLBeginEdit_Out, SBLCommitEdit_Out] new_buffer) (Client_Send E)"

section \<open>Direct connections\<close>

definition peer_uin :: "client \<Rightarrow> direct \<Rightarrow> u32 option" where
  "peer_uin s d = map_option (\<lambda>r. m_uin (contact_at r s)) (dc_contact (di_dc d))"

definition peer_of_contact :: "u32 \<Rightarrow> client \<Rightarrow> direct option" where
  "peer_of_contact uin s = getByContact (peer_uin s) uin (cl_dccache s)"

definition peer_of_fd :: "int \<Rightarrow> client \<Rightarrow> direct option" where
  "peer_of_fd fd s = cache_map (cl_dccache s) fd"

text \<open>\<^verbatim>\<open>(*m_dccache)[fd] = dc\<close>\<close>

definition put_peer :: "client_env \<Rightarrow> direct \<Rightarrow> unit cm" where
  "put_peer E d =
     modify (\<lambda>s. s\<lparr>cl_dccache :=
       (if cache_exists (di_fd d) (cl_dccache s) then cache_update (di_fd d) (\<lambda>_. d) (cl_dccache s)
        else cache_insert (di_fd d) d (uint (ce_now E)) (cl_dccache s))\<rparr>)"

definition connected_fd :: "connect_result \<Rightarrow> int \<times> socket_state" where
  "connected_fd r =
     (case r of
        ConnectFails fd \<Rightarrow> (fd, SOCK_NOT_CONNECTED)
      | ConnectPending fd \<Rightarrow> (fd, SOCK_NONBLOCKING_CONNECT)
      | ConnectDone fd \<Rightarrow> (fd, SOCK_CONNECTED))"

text \<open>Whether a contact can be reached directly.\<close>

definition reachable_peer :: "client \<Rightarrow> contact \<Rightarrow> bool" where
  "reachable_peer s c \<longleftrightarrow>
     cl_out_dc s \<and> (contact.m_ext_ip c = contact.m_lan_ip c \<or> cl_ext_ip s = contact.m_ext_ip c) \<and> contact.m_lan_ip c \<noteq> 0"

definition is_disconnected :: "exn \<Rightarrow> bool" where
  "is_disconnected e = (case e of Disconnected msg \<Rightarrow> True | _ \<Rightarrow> False)"

text \<open>
  A contact with a too old version is given up before a socket is opened; then, and if the socket
  does not connect, the object is deleted.
\<close>

definition ConnectDirect :: "client_env \<Rightarrow> contact_ref \<Rightarrow> direct option cm" where
  "ConnectDirect E r =
     thenM (gets id) (\<lambda>s.
     let c = contact_at r s in
     case peer_of_contact (m_uin c) s of
       Some d \<Rightarrow> ret (Some d)
     | None \<Rightarrow>
         if \<not> reachable_peer s c then ret None
         else
           thenM (if cl_in_dc s then read cl_listen_port else ret 0) (\<lambda>port.
           thenM (query (ce_connects E)) (\<lambda>res.
           let (fd, sock) = connected_fd res;
               d = \<lparr>di_fd = fd, di_sock = sock, di_recv = new_buffer, di_busy = False,
                    di_dc = new_dc_to (cl_mh s) r (cl_ext_ip s) port (ce_peer_ip E fd)\<rparr> in
           thenM (run_peer E (Client_Send E) d (dc_Connect (peer_env E d (sock \<noteq> SOCK_NOT_CONNECTED)))) (\<lambda>(res, d).
           case res of
             Inr _ \<Rightarrow> thenM (put_peer E d) (\<lambda>_. ret (Some d))
           | Inl e \<Rightarrow>
               if e = SocketError \<or> is_disconnected e then
                 thenM (run_peer E (Client_Send E) d (delete_dc (e = SocketError \<and> fd > - 1))) (\<lambda>(res, d).
                 thenM (rethrow res) (\<lambda>_. ret None))
               else raise e))))"

definition SendDirect :: "client_env \<Rightarrow> message_event \<Rightarrow> bool cm" where
  "SendDirect E ev =
     thenM (gets (contact_at (ev_contact ev))) (\<lambda>c.
     if \<not> getDirect c then ret False
     else
       thenM (ConnectDirect E (ev_contact ev)) (\<lambda>d.
       case d of
         None \<Rightarrow> ret False
       | Some d \<Rightarrow>
           thenM (with_peer E (Client_Send E) d (SendEvent (peer_env E d True) ev)) (\<lambda>r.
           thenM (rethrow r) (\<lambda>_. ret True))))"

definition Client_SendEvent :: "client_env \<Rightarrow> message_event \<Rightarrow> unit cm" where
  "Client_SendEvent E ev =
     (if ev_type (ev_body ev) \<in> {Normal, URL, AwayMessage, FileTransfer, Contacts} then
        thenM (SendDirect E ev) (\<lambda>sent. if sent then ret () else SendViaServer E (Client_Send E) ev)
      else if ev_type (ev_body ev) = Email then emit_out [SmtpSend ev]
      else SendViaServer E (Client_Send E) ev)"

text \<open>\<open>other\<close> stands for the connections of file transfers and mail.\<close>

definition DisconnectDirectConn :: "client_env \<Rightarrow> (int \<Rightarrow> unit cm) \<Rightarrow> int \<Rightarrow> unit cm" where
  "DisconnectDirectConn E other fd =
     thenM (gets (peer_of_fd fd)) (\<lambda>found.
     case found of Some d \<Rightarrow> destroy_peer E (Client_Send E) d | None \<Rightarrow> other fd)"

section \<open>Callbacks of the lists\<close>

text \<open>\<^verbatim>\<open>m_dccache->removeContact(c)\<close>\<close>

definition remove_peers_of :: "client_env \<Rightarrow> contact_ref \<Rightarrow> unit cm" where
  "remove_peers_of E r =
     thenM (gets (\<lambda>s. filter (\<lambda>d. peer_uin s d = Some (m_uin (contact_at r s)))
       (map m_value (m_list (cl_dccache s))))) (eachM (destroy_peer E (Client_Send E)))"

definition contactlist_cb :: "client_env \<Rightarrow> contactlist_event \<Rightarrow> unit cm" where
  "contactlist_cb E ev =
     thenM (gets id) (\<lambda>s.
     thenM (case ev of
         UserAdded r gid \<Rightarrow>
           if isICQContact (contact_at r s) \<and> cl_state s = BOS_LOGGED_IN then
             thenM (FLAPwrapSNACandSend E (AddBuddy_Out (buddies_of_contact (mh_store (cl_mh s)) r))) (\<lambda>_.
             fetchDetailContactInfo E r)
           else ret ()
       | UserRemoved r gid \<Rightarrow>
           thenM (if isICQContact (contact_at r s) \<and> cl_state s = BOS_LOGGED_IN then
                    FLAPwrapSNACandSend E (RemoveBuddy_Out (buddies_of_contact (mh_store (cl_mh s)) r))
                  else ret ()) (\<lambda>_. remove_peers_of E r)
       | _ \<Rightarrow> ret ()) (\<lambda>_. emit_out [ContactListEv ev]))"

text \<open>The callbacks of the visible and the invisible list; all events but an addition are taken for a removal.\<close>

definition list_snac :: "client_env \<Rightarrow> bool \<Rightarrow> contact_ref \<Rightarrow> out_snac \<Rightarrow> unit cm" where
  "list_snac E invis r x =
     thenM (gets id) (\<lambda>s.
     if isICQContact (contact_at r s) \<and> cl_state s = BOS_LOGGED_IN \<and> m_invisible (m_self s) = invis
     then FLAPwrapSNACandSend E x else ret ())"

definition visiblelist_cb :: "client_env \<Rightarrow> bool \<Rightarrow> contact_ref \<Rightarrow> unit cm" where
  "visiblelist_cb E added r =
     thenM (gets (\<lambda>s. buddies_of_contact (mh_store (cl_mh s)) r)) (\<lambda>bs.
     list_snac E True r (if added then AddVisible_Out bs else RemoveVisible_Out bs))"

definition invisiblelist_cb :: "client_env \<Rightarrow> bool \<Rightarrow> contact_ref \<Rightarrow> unit cm" where
  "invisiblelist_cb E added r =
     thenM (gets (\<lambda>s. buddies_of_contact (mh_store (cl_mh s)) r)) (\<lambda>bs.
     list_snac E False r (if added then AddInvisible_Out bs else RemoveInvisible_Out bs))"

definition list_add :: "contact_store \<Rightarrow> contact_ref \<Rightarrow> contact_list \<Rightarrow> contact_list" where
  "list_add store r l = (if cl_exists (m_uin (store r)) l then l else snd (cl_add store r l))"

definition list_remove :: "u32 \<Rightarrow> contact_list \<Rightarrow> contact_list" where
  "list_remove uin l = (if cl_exists uin l then cl_remove uin l else l)"

definition addVisible :: "contact_ref \<Rightarrow> unit cm" where
  "addVisible r = modify (\<lambda>s. s\<lparr>cl_visible_list := list_add (mh_store (cl_mh s)) r (cl_visible_list s)\<rparr>)"

definition removeVisible :: "u32 \<Rightarrow> unit cm" where
  "removeVisible uin = modify (\<lambda>s. s\<lparr>cl_visible_list := list_remove uin (cl_visible_list s)\<rparr>)"

definition addInvisible :: "contact_ref \<Rightarrow> unit cm" where
  "addInvisible r = modify (\<lambda>s. s\<lparr>cl_invisible_list := list_add (mh_store (cl_mh s)) r (cl_invisible_list s)\<rparr>)"

definition removeInvisible :: "u32 \<Rightarrow> unit cm" where
  "removeInvisible uin = modify (\<lambda>s. s\<lparr>cl_invisible_list := list_remove uin (cl_invisible_list s)\<rparr>)"

section \<open>Time\<close>

definition PingServer :: "client_env \<Rightarrow> unit cm" where
  "PingServer E = send_flap E 0x05 id"

definition ICBMCookieCache_expired_cb :: "client_env \<Rightarrow> message_event \<Rightarrow> unit cm" where
  "ICBMCookieCache_expired_cb E ev =
     (if ev_type (ev_body ev) = FileTransfer then ft_update (upd_ft (\<lambda>fe. fe\<lparr>fe_state := FT_TIMEOUT\<rparr>) ev)
      else
        thenM (SendViaServerNormal E (Client_Send E) ev) (\<lambda>_.
        on_contactR (ev_contact ev) (\<lambda>c. andThen (set_contact_capabilities new_capabilities c) (\<lambda>c. Inr (c, [])))))"

definition reqidcache_expired_cb :: "request_value \<Rightarrow> unit cm" where
  "reqidcache_expired_cb v =
     (case v of
        SearchValue ev \<Rightarrow> emit_out [SearchResultEv (ev\<lparr>sv_last := None, sv_expired := True, sv_finished := True\<rparr>)]
      | _ \<Rightarrow> ret ())"

definition expiry_cb :: "('v \<Rightarrow> unit cm) \<Rightarrow> 'v event list \<Rightarrow> unit cm" where
  "expiry_cb cb = eachM (\<lambda>e. case e of Expired v \<Rightarrow> cb v | Deleted v \<Rightarrow> ret ())"

text \<open>The callbacks of these two caches do not change the cache they are called from.\<close>

definition poll_requests :: "client_env \<Rightarrow> unit cm" where
  "poll_requests E =
     thenM (gets (\<lambda>s. clearoutPoll requestid_policy (uint (ce_now E)) (cl_reqidcache s) [])) (\<lambda>r.
     case r of
       None \<Rightarrow> raise Diverges
     | Some (evs, c) \<Rightarrow>
         thenM (modify (\<lambda>s. s\<lparr>cl_reqidcache := c\<rparr>)) (\<lambda>_. expiry_cb reqidcache_expired_cb evs))"

definition poll_cookies :: "client_env \<Rightarrow> unit cm" where
  "poll_cookies E =
     thenM (gets (\<lambda>s. clearoutPoll (icbm_cookie_policy (\<lambda>ev. ev_type (ev_body ev) = FileTransfer))
       (uint (ce_now E)) (cl_cookiecache s) [])) (\<lambda>r.
     case r of
       None \<Rightarrow> raise Diverges
     | Some (evs, c) \<Rightarrow>
         thenM (modify (\<lambda>s. s\<lparr>cl_cookiecache := c\<rparr>)) (\<lambda>_. expiry_cb (ICBMCookieCache_expired_cb E) evs))"

text \<open>
  The connections that are due are at the front of the list; each is destroyed before the next is
  looked at.
\<close>

definition due_peers :: "client_env \<Rightarrow> client \<Rightarrow> direct list" where
  "due_peers E s =
     map m_value (takeWhile (\<lambda>i. getExpiryTime i < uint (ce_now E)) (m_list (cl_dccache s)))"

definition poll_peers :: "client_env \<Rightarrow> unit cm" where
  "poll_peers E = thenM (gets (due_peers E)) (eachM (destroy_peer E (Client_Send E)))"

definition poll_peer_messages :: "client_env \<Rightarrow> unit cm" where
  "poll_peer_messages E =
     thenM (gets (\<lambda>s. map m_value (m_list (cl_dccache s))))
       (eachM (\<lambda>d. thenM (with_peer E (Client_Send E) d (dc_clearoutMessagesPoll (peer_env E d True))) rethrow))"

definition ping_if_due :: "client_env \<Rightarrow> unit cm" where
  "ping_if_due E =
     thenM (read cl_last_server_ping) (\<lambda>t.
     if uint (ce_now E) > t + 60 then
       thenM (PingServer E) (\<lambda>_. modify (\<lambda>s. s\<lparr>cl_last_server_ping := Some (uint (ce_now E))\<rparr>))
     else ret ())"

text \<open>Without the polls of the file transfers and of mail.\<close>

definition Poll :: "client_env \<Rightarrow> unit cm" where
  "Poll E =
     thenM (ping_if_due E) (\<lambda>_.
     thenM (poll_requests E) (\<lambda>_.
     thenM (poll_cookies E) (\<lambda>_.
     thenM (poll_peers E) (\<lambda>_. poll_peer_messages E))))"

section \<open>Sockets that are ready\<close>

definition server_socket_cb :: "client_env \<Rightarrow> u8 list option list \<Rightarrow> int \<Rightarrow> socket_mode set \<Rightarrow> unit cm" where
  "server_socket_cb E cs fd modes =
     thenM (gets cl_socket) (\<lambda>sock.
     if sock = SOCK_NONBLOCKING_CONNECT \<and> WRITE \<in> modes then
       thenM (catchM (thenM (TCPSocket_FinishNonBlockingConnect E) (\<lambda>_. ret True))
         (\<lambda>e. if e = SocketError then thenM (Client_Disconnect E FAILED_LOWLEVEL) (\<lambda>_. ret False)
              else raise e)) (\<lambda>ok.
       if ok then emit_out [RemoveSocketHandle fd, AddSocketHandle fd READ] else ret ())
     else if sock = SOCK_CONNECTED \<and> READ \<in> modes then RecvFromServer E cs
     else Client_Disconnect E FAILED_LOWLEVEL)"

text \<open>A failing \<^verbatim>\<open>accept\<close> closes the listening socket; the exception is not caught.\<close>

definition listen_socket_cb :: "client_env \<Rightarrow> unit cm" where
  "listen_socket_cb E =
     thenM (gets cl_listening) (\<lambda>started.
     if \<not> started then raise SocketError
     else
       thenM (query (ce_accepts E)) (\<lambda>a.
       case a of
         None \<Rightarrow> thenM (modify (\<lambda>s. s\<lparr>cl_listening := False\<rparr>)) (\<lambda>_. raise SocketError)
       | Some (fd, remote_ip) \<Rightarrow>
           thenM (gets id) (\<lambda>s.
           thenM (read cl_listen_port) (\<lambda>port.
           thenM (put_peer E \<lparr>di_fd = fd, di_sock = SOCK_CONNECTED, di_recv = new_buffer, di_busy = False,
             di_dc = new_dc (cl_mh s) (cl_ext_ip s) port remote_ip (ce_peer_ip E fd)\<rparr>) (\<lambda>_.
           emit_out [AddSocketHandle fd READ])))))"

text \<open>\<^verbatim>\<open>catch(DisconnectedException e) { DisconnectDirectConn( fd ); }\<close>\<close>

definition drop_on_disconnect :: "client_env \<Rightarrow> (int \<Rightarrow> unit cm) \<Rightarrow> int \<Rightarrow> (exn + unit) \<Rightarrow> unit cm" where
  "drop_on_disconnect E other fd r =
     (case r of
        Inl (Disconnected msg) \<Rightarrow> DisconnectDirectConn E other fd
      | _ \<Rightarrow> rethrow r)"

definition peer_recv :: "client_env \<Rightarrow> u8 list option list \<Rightarrow> direct \<Rightarrow> (exn + unit) cm" where
  "peer_recv E cs d =
     thenM (with_peer E (Client_Send E) d (dc_Recv (peer_env E d True) cs (di_recv d))) (\<lambda>r.
     case r of
       Inl e \<Rightarrow> ret (Inl e)
     | Inr recv \<Rightarrow> thenM (upd_peer (di_fd d) (di_recv_update (\<lambda>_. recv))) (\<lambda>_. ret (Inr ())))"

text \<open>
  For a connected socket that is only ready for writing (one that was connected at once has been registered for that)
  the library sends the null event. A direct connection goes through that pointer, at once if the handshake
  is over and otherwise when its queue is flushed or destroyed; the model lets the fault happen at once. After
  \<^verbatim>\<open>FinishNonBlockingConnect\<close> the library asks for the class of the connection by a \<^verbatim>\<open>dynamic_cast\<close>, also when its
  first send has failed and the connection was just destroyed.
\<close>

definition peer_socket_cb ::
  "client_env \<Rightarrow> (int \<Rightarrow> unit cm) \<Rightarrow> u8 list option list \<Rightarrow> direct \<Rightarrow> socket_mode set \<Rightarrow> unit cm" where
  "peer_socket_cb E other cs d modes =
     (let fd = di_fd d in
      if di_sock d = SOCK_NONBLOCKING_CONNECT \<and> WRITE \<in> modes then
        thenM (query (ce_finishes E)) (\<lambda>ok.
        if \<not> ok then
          thenM (upd_peer fd (di_sock_update (\<lambda>_. SOCK_NOT_CONNECTED))) (\<lambda>_. DisconnectDirectConn E other fd)
        else
          let d = d\<lparr>di_sock := SOCK_CONNECTED\<rparr> in
          thenM (upd_peer fd (\<lambda>_. d)) (\<lambda>_.
          thenM (emit_out [RemoveSocketHandle fd, AddSocketHandle fd READ]) (\<lambda>_.
          thenM (with_peer E (Client_Send E) d (FinishNonBlockingConnect (peer_env E d True)))
            (\<lambda>r. thenM (drop_on_disconnect E other fd r)
              (\<lambda>_. if r = Inr () then ret () else raise UseAfterFree)))))
      else if di_sock d = SOCK_CONNECTED \<and> READ \<in> modes then
        thenM (peer_recv E cs d) (drop_on_disconnect E other fd)
      else if di_sock d = SOCK_CONNECTED \<and> WRITE \<in> modes then
        thenM (peer_recv E cs d) (\<lambda>r.
        if r = Inr () then raise (Fault NullPointer) else drop_on_disconnect E other fd r)
      else DisconnectDirectConn E other fd)"

text \<open>
  \<open>ft_listen\<close> tells which descriptors are those a file is waited for on, \<open>ft_cb\<close> what is done then.
\<close>

definition socket_cb ::
  "client_env \<Rightarrow> (int \<Rightarrow> bool) \<Rightarrow> (int \<Rightarrow> unit cm) \<Rightarrow> (int \<Rightarrow> unit cm) \<Rightarrow> u8 list option list \<Rightarrow> int \<Rightarrow>
    socket_mode set \<Rightarrow> unit cm" where
  "socket_cb E ft_listen ft_cb other cs fd modes =
     thenM (gets id) (\<lambda>s.
     if fd = cl_socket_fd s then server_socket_cb E cs fd modes
     else
       thenM (if cl_in_dc s then read cl_listen_fd else ret (fd - 1)) (\<lambda>listen_fd.
       if fd = listen_fd then listen_socket_cb E
       else if ft_listen fd then ft_cb fd
       else
         case peer_of_fd fd s of
           Some d \<Rightarrow> peer_socket_cb E other cs d modes
         | None \<Rightarrow> other fd))"

section \<open>Settings\<close>

definition Client_setUIN :: "u32 \<Rightarrow> unit cm" where
  "Client_setUIN uin = thenM (gets (\<lambda>s. mh_self (cl_mh s))) (\<lambda>r. on_contact r (setUIN uin))"

definition getUIN :: "client \<Rightarrow> u32" where
  "getUIN s = m_uin (m_self s)"

definition setPassword :: "string \<Rightarrow> unit cm" where
  "setPassword pw = modify (\<lambda>s. s\<lparr>cl_password := pw\<rparr>)"

definition getStatus :: "client \<Rightarrow> status" where
  "getStatus s = m_status (m_self s)"

definition getInvisible :: "client \<Rightarrow> bool" where
  "getInvisible s = m_invisible (m_self s)"

definition getContact :: "u32 \<Rightarrow> client \<Rightarrow> contact_ref option" where
  "getContact uin s = tree_contact uin s"

definition setLoginServerHost :: "string \<Rightarrow> unit cm" where
  "setLoginServerHost host = modify (\<lambda>s. s\<lparr>cl_authorizerHostname := host\<rparr>)"

definition setLoginServerPort :: "u16 \<Rightarrow> unit cm" where
  "setLoginServerPort port = modify (\<lambda>s. s\<lparr>cl_authorizerPort := port\<rparr>)"

definition setBOSServerOverridePort :: "bool \<Rightarrow> unit cm" where
  "setBOSServerOverridePort b = modify (\<lambda>s. s\<lparr>cl_bosOverridePort := b\<rparr>)"

definition setBOSServerPort :: "u16 \<Rightarrow> unit cm" where
  "setBOSServerPort port = modify (\<lambda>s. s\<lparr>cl_bosPort := Some port\<rparr>)"

definition setAcceptInDC :: "bool \<Rightarrow> unit cm" where
  "setAcceptInDC d =
     thenM (modify (\<lambda>s. s\<lparr>cl_in_dc := d\<rparr>)) (\<lambda>_. if d then ret () else remove_listen_socket)"

definition setUseOutDC :: "bool \<Rightarrow> unit cm" where
  "setUseOutDC d = modify (\<lambda>s. s\<lparr>cl_out_dc := d\<rparr>)"

definition setPortRangeUpperBound :: "u16 \<Rightarrow> unit cm" where
  "setPortRangeUpperBound upper = modify (\<lambda>s. s\<lparr>cl_upper_port := upper\<rparr>)"

definition setPortRangeLowerBound :: "u16 \<Rightarrow> unit cm" where
  "setPortRangeLowerBound lower = modify (\<lambda>s. s\<lparr>cl_lower_port := lower\<rparr>)"

definition setUsePortRange :: "bool \<Rightarrow> unit cm" where
  "setUsePortRange b = modify (\<lambda>s. s\<lparr>cl_use_portrange := b\<rparr>)"

definition setClientBindHost :: "string \<Rightarrow> unit cm" where
  "setClientBindHost host = modify (\<lambda>s. s\<lparr>cl_client_bind_host := host\<rparr>)"

definition setTypingNotifications :: "bool \<Rightarrow> unit cm" where
  "setTypingNotifications b = modify (\<lambda>s. s\<lparr>cl_use_typing_notif := b\<rparr>)"

end
