(* ===== verification/ClientInv.thy ===== *)
theory ClientInv
  imports ClientApi
begin

text \<open>
  Invariants of the client: what holds in every state that calls of the application, events of the
  sockets and the passing of time can lead to, whatever the server and other clients send and whatever
  system calls return.
\<close>

section \<open>The invariant\<close>

definition numbered :: "client \<Rightarrow> bool" where
  "numbered s \<longleftrightarrow> cl_client_seq_num s \<noteq> None \<and> cl_requestid s \<noteq> None"

definition in_bounds :: "client \<Rightarrow> bool" where
  "in_bounds s \<longleftrightarrow> (\<forall>n. cl_client_seq_num s = Some n \<longrightarrow> n \<le> 0x7fff) \<and>
     (\<forall>n. cl_requestid s = Some n \<longrightarrow> n \<le> 0x7fffffff)"

text \<open>
  A client that is not connected has no open socket to the server; one that is has drawn its sequence
  numbers. With \<open>k\<close> they are known to be drawn.
\<close>

definition cl_ok :: "bool \<Rightarrow> client \<Rightarrow> bool" where
  "cl_ok k s \<longleftrightarrow> (cl_state s = CL_NOT_CONNECTED \<longrightarrow> cl_socket s = SOCK_NOT_CONNECTED) \<and> in_bounds s \<and>
     (cl_state s \<noteq> CL_NOT_CONNECTED \<or> k \<longrightarrow> numbered s)"

lemmas cl_ok_defs = cl_ok_def in_bounds_def numbered_def

definition seeds_ok :: "client_env \<Rightarrow> bool" where
  "seeds_ok E \<longleftrightarrow> (\<forall>n. ce_seq_seeds E n \<le> 0x7fff \<and> ce_request_seeds E n \<le> 0x7fffffff)"

lemma cl_ok_weaken: "cl_ok True s \<Longrightarrow> cl_ok k s"
  by (auto simp: cl_ok_def)

lemma cl_ok_connected: "cl_ok k s \<Longrightarrow> cl_socket s \<noteq> SOCK_NOT_CONNECTED \<Longrightarrow> cl_ok True s"
  by (auto simp: cl_ok_def)

lemma and_mask_le16: "(x :: u16) AND 0x7fff \<le> 0x7fff"
  by (simp add: word_and_le1)

lemma and_mask_le32: "(x :: u32) AND 0x7fffffff \<le> 0x7fffffff"
  by (simp add: word_and_le1)

section \<open>Operations that only touch the link in passing\<close>

named_theorems ok_rules \<open>operations that keep an invariant of the client\<close>

definition link :: "client \<Rightarrow> client_state \<times> socket_state \<times> bool \<times> u16 option \<times> u32 option \<times> buffer" where
  "link s = (cl_state s, cl_socket s, cl_listening s, cl_client_seq_num s, cl_requestid s, cl_recv s)"

text \<open>\<open>passing s t\<close>: from \<open>s\<close> to \<open>t\<close> the link is as it was, and what has left the library stays.\<close>

definition passing :: "client \<Rightarrow> client \<Rightarrow> bool" where
  "passing s t \<longleftrightarrow> link t = link s \<and> (\<exists>os. cl_out t = cl_out s @ os)"

lemmas passing_defs = passing_def link_def

text \<open>
  An invariant of the link to the server and of the growing output that survives counting and a closing
  socket is kept by everything that sends.
\<close>

locale client_invariant =
  fixes I :: "client \<Rightarrow> bool"
  assumes link_only: "passing s t \<Longrightarrow> I s \<Longrightarrow> I t"
    and counts: "I s \<Longrightarrow> I (s\<lparr>cl_client_seq_num := Some (n AND 0x7fff)\<rparr>)"
      "I s \<Longrightarrow> I (s\<lparr>cl_requestid := Some (r AND 0x7fffffff)\<rparr>)"
    and closes: "I s \<Longrightarrow> I (s\<lparr>cl_socket := SOCK_NOT_CONNECTED\<rparr>)"
begin

lemma passes: "(\<And>s. passing s (f s)) \<Longrightarrow> stable I (modify f)"
  by (rule stable_modify) (rule link_only)

lemma ok_emit_out [ok_rules]: "stable I (emit_out os)"
  unfolding emit_out_def by (rule passes) (simp add: passing_defs)

lemma ok_query [ok_rules]: "stable I (query f)"
  unfolding stable_def query_def by (auto elim!: link_only [rotated] simp: passing_defs)

lemma ok_closed [ok_rules]: "stable I (set_socket SOCK_NOT_CONNECTED)"
  unfolding set_socket_def by (rule stable_modify) (rule closes)

lemma ok_on_contact [ok_rules]: "stable I (on_contact r f)"
  unfolding on_contact_def by (intro passes stable_rules ok_rules) (simp add: passing_defs)

lemma ok_set_contact_status [ok_rules]: "stable I (set_contact_status E r st invis)"
  unfolding set_contact_status_def by (intro stable_rules ok_rules)

lemma ok_Send [ok_rules]: "stable I (TCPSocket_Send E b)"
  unfolding TCPSocket_Send_def by (intro stable_rules ok_rules)

lemma ok_NextSeqNum [ok_rules]: "stable I Client_NextSeqNum"
  unfolding Client_NextSeqNum_def Let_def
  by (intro stable_rules) (rule counts)

lemma ok_NextRequestID [ok_rules]: "stable I NextRequestID"
  unfolding NextRequestID_def Let_def
  by (intro stable_rules) (rule counts)

lemma ok_flap [ok_rules]: "stable I (put_flap c fill b)" "stable I (FLAPwrapSNAC E x b)"
  unfolding FLAPwrapSNAC_def put_flap_def by (intro stable_rules ok_rules)+

lemma ok_send_snacs [ok_rules]: "stable I (send_snacs E xs b)"
proof -
  have "stable I m \<Longrightarrow> stable I (fold (\<lambda>x m. thenM m (FLAPwrapSNAC E x)) xs m)" for m
    by (induction xs arbitrary: m) (simp_all add: stable_thenM ok_flap)
  then show ?thesis
    unfolding send_snacs_def by (simp add: stable_pure)
qed

lemma ok_assign [ok_rules]:
  "stable I (cache_event E ck ev)" "stable I (cache_request E rid v)"
  "stable I (upd_peer fd f)" "stable I (erase_peer fd)" "stable I (dc_connected_cb fd)"
  "stable I (remove_event ck)" "stable I (remove_request rid)"
  "stable I (update_request rid v)" "stable I (put_peer E d)"
  unfolding cache_event_def cache_request_def upd_peer_def erase_peer_def dc_connected_cb_def
    remove_event_def remove_request_def update_request_def put_peer_def
  by (rule passes, simp add: passing_defs)+

lemma ok_next_contact_seq [ok_rules]: "stable I (next_contact_seq r)"
  unfolding next_contact_seq_def by (intro passes stable_rules) (simp add: passing_defs)

lemma ok_unique_cookie [ok_rules]: "stable I (unique_cookie E)"
  unfolding stable_def unique_cookie_def by (auto elim!: link_only [rotated] simp: passing_defs split: option.splits)

lemma ok_small [ok_rules]:
  "stable I (message_ack_cb ev)" "stable I (ft_update ev)" "stable I (rethrow r)"
  "stable I (outgoing_part E ev)"
  unfolding message_ack_cb_def ft_update_def rethrow_def outgoing_part_def by (intro stable_rules ok_rules)+

text \<open>Operations that send, with any way of sending that keeps the invariant.\<close>

lemma ok_wrap_and_send [ok_rules]:
  "(\<And>b. stable I (send b)) \<Longrightarrow> stable I (wrap_and_send E send x)"
  unfolding wrap_and_send_def by (intro stable_rules ok_rules)

lemma ok_SendViaServerAdvanced [ok_rules]:
  "(\<And>b. stable I (send b)) \<Longrightarrow> stable I (SendViaServerAdvanced E send ev)"
  unfolding SendViaServerAdvanced_def by (intro stable_rules ok_rules)

lemma ok_SendViaServerNormal [ok_rules]:
  "(\<And>b. stable I (send b)) \<Longrightarrow> stable I (SendViaServerNormal E send ev)"
  unfolding SendViaServerNormal_def by (intro stable_rules ok_rules)

lemma ok_send_sms [ok_rules]:
  "(\<And>b. stable I (send b)) \<Longrightarrow> stable I (send_sms E send ev m)"
  unfolding send_sms_def by (intro stable_rules ok_rules)

lemma stable_event_body:
  "(\<And>m. stable I (f m)) \<Longrightarrow> (\<And>x. stable I (g x)) \<Longrightarrow> stable I h \<Longrightarrow>
    stable I (case e of SMSMessageEvent m \<Rightarrow> f m | FileTransferEvent x \<Rightarrow> g x | _ \<Rightarrow> h)"
  by (cases e) simp_all

lemma ok_SendViaServer [ok_rules]:
  "(\<And>b. stable I (send b)) \<Longrightarrow> stable I (SendViaServer E send ev)"
  unfolding SendViaServer_def by (intro stable_rules stable_event_body ok_rules)

lemma ok_dc_messageack_cb [ok_rules]:
  "(\<And>b. stable I (send b)) \<Longrightarrow> stable I (dc_messageack_cb E send ev)"
  unfolding dc_messageack_cb_def by (intro stable_rules ok_rules)

lemma ok_peer_output [ok_rules]:
  "(\<And>b. stable I (send b)) \<Longrightarrow> stable I (peer_output E send fd x)"
  by (cases x) (auto intro!: stable_rules ok_rules)

lemma ok_run_peer [ok_rules]:
  "(\<And>b. stable I (send b)) \<Longrightarrow> stable I (run_peer E send d m)"
  unfolding run_peer_def by (intro passes stable_rules ok_rules) (simp_all add: passing_defs)

lemma ok_with_peer [ok_rules]:
  "(\<And>b. stable I (send b)) \<Longrightarrow> stable I (with_peer E send d m)"
  unfolding with_peer_def by (intro stable_rules ok_rules)

lemma ok_destroy_peer [ok_rules]:
  "(\<And>b. stable I (send b)) \<Longrightarrow> stable I (destroy_peer E send d)"
  unfolding destroy_peer_def by (intro stable_rules ok_rules)

lemma ok_DisconnectDirectConns [ok_rules]:
  "(\<And>b. stable I (send b)) \<Longrightarrow> stable I (DisconnectDirectConns E send)"
  unfolding DisconnectDirectConns_def by (intro stable_rules ok_rules)

lemma ok_set_offline [ok_rules]: "stable I (set_offline E r)"
  unfolding set_offline_def by (intro stable_rules ok_rules)

lemma ok_SignalDisconnect [ok_rules]: "stable I (SignalDisconnect E r)"
  unfolding SignalDisconnect_def by (intro stable_rules ok_rules)

end

section \<open>The invariant is one of the link\<close>

interpretation ok: client_invariant "cl_ok k" for k
  by unfold_locales (auto simp: passing_defs cl_ok_defs and_mask_le16 and_mask_le32)

lemma ok_to_state: "st \<noteq> CL_NOT_CONNECTED \<Longrightarrow> stable (cl_ok True) (to_state st)"
  unfolding to_state_def by (rule stable_modify) (simp add: cl_ok_defs)

lemma ok_look_up [ok_rules]: "stable (cl_ok k) (look_up E host)" "stable (cl_ok k) (bind_host E host)"
  unfolding look_up_def bind_host_def by (intro stable_rules)+

lemma ok_StartServer [ok_rules]: "stable (cl_ok k) (TCPServer_StartServer E lower upper)"
  unfolding TCPServer_StartServer_def
  by (intro stable_rules ok_rules, split listen_result.split)
    (intro allI impI conjI stable_rules; simp add: cl_ok_defs)+

lemma ok_setBindHost [ok_rules]: "stable (cl_ok k) (TCPServer_setBindHost E host)"
  unfolding TCPServer_setBindHost_def by (intro stable_rules ok_rules) (simp add: cl_ok_defs)

lemma ok_Disconnect_server [ok_rules]: "stable (cl_ok k) TCPServer_Disconnect"
  unfolding TCPServer_Disconnect_def by (rule stable_modify) (simp add: cl_ok_defs)

lemma ok_remove_sockets [ok_rules]: "stable (cl_ok k) remove_server_socket" "stable (cl_ok k) remove_listen_socket"
  unfolding remove_server_socket_def remove_listen_socket_def by (intro stable_rules ok_rules)+

section \<open>Connecting and disconnecting\<close>

lemma ok_DisconnectAuthorizer [ok_rules]: "stable (cl_ok k) DisconnectAuthorizer"
  by (simp add: stable_def DisconnectAuthorizer_def remove_server_socket_def to_state_def set_socket_def
      emit_out_def cl_ok_defs thenM_def gets_def modify_def)

lemma ok_to_not_connected: "stable (cl_ok k) (thenM (to_state CL_NOT_CONNECTED) (\<lambda>_. remove_server_socket))"
  by (simp add: stable_def remove_server_socket_def to_state_def set_socket_def emit_out_def cl_ok_defs
      thenM_def gets_def modify_def)

lemma ok_Send_or [ok_rules]: "stable (cl_ok k) m \<Longrightarrow> stable (cl_ok k) (Send_or E m b)"
  unfolding Send_or_def by (intro stable_rules ok_rules)

lemma ok_DisconnectBOS [ok_rules]: "stable (cl_ok k) (DisconnectBOS E)"
proof -
  have "DisconnectBOS E = thenM (thenM (to_state CL_NOT_CONNECTED) (\<lambda>_. remove_server_socket))
      (\<lambda>_. thenM remove_listen_socket (\<lambda>_. DisconnectDirectConns E (Send_or E (ret ()))))"
    by (simp only: DisconnectBOS_def thenM_assoc)
  then show ?thesis
    by (simp only:) (intro stable_thenM ok_to_not_connected ok_rules stable_rules)
qed

lemma ok_Client_Disconnect [ok_rules]: "stable (cl_ok k) (Client_Disconnect E r)"
  unfolding Client_Disconnect_def by (intro stable_rules ok_rules)

lemma ok_Client_Send [ok_rules]: "stable (cl_ok k) (Client_Send E b)"
  unfolding Client_Send_def by (intro ok_rules)

lemma ok_FLAPwrapSNACandSend [ok_rules]: "stable (cl_ok k) (FLAPwrapSNACandSend E x)"
  unfolding FLAPwrapSNACandSend_def by (intro ok_rules)

text \<open>A connection attempt either opens the socket and changes nothing else, or keeps the invariant.\<close>

definition socket_opened :: "client \<Rightarrow> client \<Rightarrow> bool" where
  "socket_opened s t \<longleftrightarrow> cl_state t = cl_state s \<and> cl_client_seq_num t = cl_client_seq_num s \<and>
     cl_requestid t = cl_requestid s"

lemma connect_server_cases:
  assumes "connect_server E host port s = (r, t)"
  shows "r = Inr () \<and> socket_opened s t \<or> (\<exists>e. r = Inl e) \<and> (cl_ok k s \<longrightarrow> cl_ok k t)"
  using assms
  by (auto simp: connect_server_def look_up_def bind_host_def TCPSocket_Connect_def thenM_def gets_def ret_def
      raise_def emit_out_def modify_def query_def socket_opened_def cl_ok_defs
      split: if_splits connect_result.splits prod.splits sum.splits)

lemma try_connect_cases:
  assumes "try_connect E host port s = (r, t)"
  shows "r = Inr True \<and> socket_opened s t \<or> r \<noteq> Inr True \<and> (cl_ok k s \<longrightarrow> cl_ok k t)"
proof (cases "connect_server E host port s")
  case (Pair q u)
  show ?thesis
  proof (cases q)
    case (Inl e)
    then have u: "cl_ok k s \<longrightarrow> cl_ok k u"
      using connect_server_cases [OF Pair, of k] by simp
    show ?thesis
    proof (cases "e = SocketError")
      case True
      obtain v x where v: "SignalDisconnect E FAILED_LOWLEVEL u = (x, v)"
        by fastforce
      then have "cl_ok k u \<longrightarrow> cl_ok k v"
        using stableD [OF ok.ok_SignalDisconnect] by blast
      then show ?thesis
        using assms Pair Inl True v u
        by (auto simp: try_connect_def catchM_def thenM_def split: sum.splits)
    next
      case False
      then show ?thesis
        using assms Pair Inl u by (auto simp: try_connect_def catchM_def)
    qed
  next
    case (Inr y)
    then show ?thesis
      using assms Pair connect_server_cases [OF Pair, of k] by (simp add: try_connect_def)
  qed
qed

lemma ok_try_connect:
  assumes "\<And>t. socket_opened s t \<Longrightarrow> cl_ok k (snd (m t))" and "cl_ok k s"
  shows "cl_ok k (snd (thenM (try_connect E host port) (\<lambda>ok. if \<not> ok then ret () else m) s))"
proof (cases "try_connect E host port s")
  case (Pair r t)
  show ?thesis
    using try_connect_cases [OF Pair, of k] assms Pair by (cases r) auto
qed

lemmas opened_simps = socket_opened_def add_server_socket_def emit_out_def query_def to_state_def cl_ok_defs
  thenM_def gets_def modify_def

lemma ok_ConnectAuthorizer [ok_rules]:
  assumes "seeds_ok E" and "st \<noteq> CL_NOT_CONNECTED"
  shows "stable (cl_ok k) (ConnectAuthorizer E st)"
  unfolding stable_def
proof (intro allI impI)
  fix s assume s: "cl_ok k s"
  have eq: "ConnectAuthorizer E st s =
      thenM (try_connect E (cl_authorizerHostname s) (cl_authorizerPort s)) (\<lambda>ok. if \<not> ok then ret ()
        else thenM add_server_socket (\<lambda>_. thenM (query (ce_seq_seeds E)) (\<lambda>seq.
          thenM (query (ce_request_seeds E)) (\<lambda>rid.
          thenM (modify (\<lambda>s. s\<lparr>cl_client_seq_num := Some seq, cl_requestid := Some rid\<rparr>)) (\<lambda>_.
          to_state st))))) s"
    by (simp add: ConnectAuthorizer_def)
  show "cl_ok k (snd (ConnectAuthorizer E st s))"
    unfolding eq using assms by (intro ok_try_connect s) (simp add: opened_simps seeds_ok_def)
qed

lemma ok_ConnectBOS [ok_rules]: "stable (cl_ok True) (ConnectBOS E)"
  unfolding stable_def
proof (intro allI impI)
  fix s assume s: "cl_ok True s"
  show "cl_ok True (snd (ConnectBOS E s))"
  proof (cases "cl_bosPort s")
    case (Some p)
    have eq: "ConnectBOS E s = thenM (try_connect E (cl_bosHostname s) p) (\<lambda>ok. if \<not> ok then ret ()
        else thenM add_server_socket (\<lambda>_. to_state BOS_AWAITING_CONN_ACK)) s"
      using Some by (simp add: ConnectBOS_def)
    show ?thesis
      unfolding eq using s by (intro ok_try_connect s) (simp add: opened_simps)
  qed (use s in \<open>simp add: ConnectBOS_def\<close>)
qed

section \<open>The session\<close>

lemma ok_send_flap [ok_rules]: "stable (cl_ok k) (send_flap E c fill)"
  unfolding send_flap_def by (intro stable_rules ok_rules)

lemma ok_login_packets [ok_rules]:
  "stable (cl_ok k) (SendAuthReq E)" "stable (cl_ok k) (SendNewUINReq E)" "stable (cl_ok k) (SendCookie E)"
  "stable (cl_ok k) (SendCapabilities E)" "stable (cl_ok k) (SendSetUserInfo E)"
  "stable (cl_ok k) (SendRateInfoRequest E)" "stable (cl_ok k) (SendRateInfoAck E)"
  "stable (cl_ok k) (SendPersonalInfoRequest E)" "stable (cl_ok k) (SendAddICBMParameter E)"
  "stable (cl_ok k) (SendRequestSBL E)" "stable (cl_ok k) (SendSBLReceivedACK E)"
  "stable (cl_ok k) (SendOfflineMessagesACK E)" "stable (cl_ok k) (start_listening E)"
  unfolding SendAuthReq_def SendNewUINReq_def SendCookie_def SendCapabilities_def SendSetUserInfo_def
    SendRateInfoRequest_def SendRateInfoAck_def SendPersonalInfoRequest_def SendAddICBMParameter_def
    SendRequestSBL_def SendSBLReceivedACK_def SendOfflineMessagesACK_def start_listening_def
  by (intro stable_rules ok_rules)+

lemma ok_SendLogin [ok_rules]: "stable (cl_ok True) (SendLogin E)"
  unfolding SendLogin_def SignalConnect_def
  by (intro stable_rules ok_rules ok_to_state) (simp_all add: cl_ok_defs)

lemma ok_contacts [ok_rules]:
  "stable (cl_ok k) (on_contactR r f)" "stable (cl_ok k) (on_contact_if b r g)"
  "stable (cl_ok k) (apply_setters r fs)"
  unfolding on_contactR_def on_contact_if_def apply_setters_def by (intro stable_rules ok_rules)+

lemma ok_user_info [ok_rules]:
  "stable (cl_ok k) (SignalUserOnline E u)" "stable (cl_ok k) (SignalUserOffline E u)"
  "stable (cl_ok k) (HandleUserInfoSNAC E u)"
  unfolding SignalUserOnline_def SignalUserOffline_def HandleUserInfoSNAC_def
  by (intro stable_rules ok_rules; simp add: cl_ok_defs)+

lemma ok_messages [ok_rules]:
  "stable (cl_ok k) (handler_result mh sigs)" "stable (cl_ok k) (incoming E t st)"
  "stable (cl_ok k) (acknowledged E ck ev u ub)"
  unfolding handler_result_def incoming_def acknowledged_def
  by (intro stable_rules ok_rules; simp add: cl_ok_defs)+

lemma ok_SendAdvancedACK [ok_rules]: "stable (cl_ok k) (SendAdvancedACK E ck st seq)"
  unfolding SendAdvancedACK_def by (cases "body st") (auto intro!: stable_rules ok_rules)

lemma ok_SignalFTMessage [ok_rules]: "stable (cl_ok k) (SignalFTMessage E m u f)"
  unfolding SignalFTMessage_def by (intro stable_rules ok_rules)

lemma ok_SignalMessage [ok_rules]: "stable (cl_ok k) (SignalMessage E m)"
  unfolding SignalMessage_def
  by (cases "mg_icqsubtype m") (auto intro!: stable_rules ok_rules split: subtype_body.split uin_body.split)

lemma ok_SignalMessageACK [ok_rules]: "stable (cl_ok k) (SignalMessageACK E a)"
  unfolding SignalMessageACK_def
  by (cases "ma_icqsubtype a") (auto intro!: stable_rules ok_rules split: subtype_body.split)

lemma ok_SignalMessageOfflineUser [ok_rules]: "stable (cl_ok k) (SignalMessageOfflineUser m)"
  unfolding SignalMessageOfflineUser_def Let_def by (intro stable_rules ok_rules) (simp add: cl_ok_defs)

lemma stable_request_value [stable_rules]:
  "(\<And>r. stable I (f r)) \<Longrightarrow> (\<And>ev. stable I (g ev)) \<Longrightarrow> (\<And>v. stable I (h v)) \<Longrightarrow>
    stable I (case v of UserInfoValue r \<Rightarrow> f r | SMSValue ev \<Rightarrow> g ev | SearchValue v \<Rightarrow> h v)"
  by (cases v) simp_all

lemma ok_search [ok_rules]:
  "stable (cl_ok k) (found_contact E r)" "stable (cl_ok k) (add_result c ev)"
  "stable (cl_ok k) (search_step E r ev)" "stable (cl_ok k) (SignalSearchResult E rid r ev)"
  unfolding search_step_def SignalSearchResult_def found_contact_def add_result_def Let_def
  by (intro stable_rules ok_rules; simp add: cl_ok_defs)+

lemma ok_responses [ok_rules]:
  "stable (cl_ok k) (SignalSMSResponse rid r)" "stable (cl_ok k) (SignalSimpleUserInfo E rid r)"
  "stable (cl_ok k) (SignalSearchUserInfo E rid r)" "stable (cl_ok k) (SignalRandomChatFound E rid r)"
  "stable (cl_ok k) (getUserInfoCacheContact rid)"
  unfolding SignalSMSResponse_def SignalSimpleUserInfo_def SignalSearchUserInfo_def SignalRandomChatFound_def
    getUserInfoCacheContact_def
  by (intro stable_rules ok_rules)+

lemma ok_catch_parse [ok_rules]: "stable (cl_ok k) m \<Longrightarrow> stable (cl_ok k) (catch_parse m)"
  unfolding catch_parse_def
  by (intro stable_rules) (auto intro!: stable_rules split: exn.split fault.split)

lemma ok_user_info_reply [ok_rules]: "stable (cl_ok k) (user_info_reply E rid f)"
  unfolding user_info_reply_def by (intro stable_rules ok_rules)

lemma ok_SignalUserInfoReply [ok_rules]: "stable (cl_ok k) (SignalUserInfoReply E rid r t)"
  unfolding SignalUserInfoReply_def by (cases t) (auto intro!: stable_rules ok_rules)

lemma ok_SignalSrvResponse [ok_rules]: "stable (cl_ok k) (SignalSrvResponse E rid r)"
  unfolding SignalSrvResponse_def
  by (intro stable_rules ok_rules) (auto intro!: stable_rules ok_rules split: response_type.split)

lemma ok_HandleRateInfo [ok_rules]: "stable (cl_ok True) (HandleRateInfo E)"
  unfolding HandleRateInfo_def by (intro stable_rules ok_rules)

lemma ok_HandleSnac [ok_rules]: "stable (cl_ok True) (HandleSnac E rid x)"
  by (cases x) (auto intro!: stable_rules ok_rules simp: SignalUINResponse_def SignalUINRequestError_def
      SignalRateInfoChange_def)

lemma ok_redirected [ok_rules]: "stable (cl_ok True) (redirected E m)"
  unfolding redirected_def by (intro stable_rules ok_rules; simp add: cl_ok_defs)

lemma ok_channels [ok_rules]:
  "stable (cl_ok True) (ParseCh1 E b)" "stable (cl_ok True) (ParseCh2 E b)" "stable (cl_ok True) (ParseCh4 E b)"
proof -
  show "stable (cl_ok True) (ParseCh1 E b)"
    unfolding ParseCh1_def by (intro stable_rules ok_rules ok_to_state) simp_all
  show "stable (cl_ok True) (ParseCh2 E b)"
    unfolding ParseCh2_def
    by (intro stable_rules) (auto intro!: stable_rules ok_rules split: fault.split)
  show "stable (cl_ok True) (ParseCh4 E b)"
    unfolding ParseCh4_def by (intro stable_rules ok_rules)
qed

lemma ok_handle_flap [ok_rules]: "stable (cl_ok True) (handle_flap E c b)"
  unfolding handle_flap_def ParseCh3_def by (intro stable_rules ok_rules)

lemma ok_parse_flaps: "cl_ok True s \<Longrightarrow> cl_ok True (snd (snd (parse_flaps E recv s)))"
proof (induction "length (m_data recv)" arbitrary: recv s rule: less_induct)
  case less
  show ?case
  proof (cases "next_flap recv")
    case (Inr x)
    obtain f recv' where x: "x = (f, recv')"
      by (cases x)
    show ?thesis
    proof (cases f)
      case (Flap c sb)
      obtain r s' where h: "handle_flap E c sb s = (r, s')"
        by fastforce
      then have "cl_ok True s'"
        using less.prems stableD [OF ok_handle_flap] by blast
      moreover have "length (m_data recv') < length (m_data recv)"
        using Inr x Flap by (simp add: next_flap_shorter)
      ultimately have "cl_ok True (snd (snd (parse_flaps E recv' s')))"
        by (simp add: less.hyps)
      then show ?thesis
        using less.prems \<open>cl_ok True s'\<close> Inr x Flap h
        by (subst parse_flaps.simps) (auto split: sum.splits)
    qed (use less.prems Inr x in \<open>subst parse_flaps.simps, simp\<close>)+
  qed (use less.prems in \<open>subst parse_flaps.simps, simp\<close>)
qed

lemma ok_Client_Parse: "stable (cl_ok True) (Client_Parse E)"
  unfolding stable_def Client_Parse_def
proof (intro allI impI)
  fix s assume "cl_ok True s"
  then have "cl_ok True (s\<lparr>cl_recv := new_buffer\<rparr>)"
    by (simp add: cl_ok_defs)
  then have "cl_ok True (snd (snd (parse_flaps E (cl_recv s) (s\<lparr>cl_recv := new_buffer\<rparr>))))"
    by (rule ok_parse_flaps)
  then show "cl_ok True (snd (case parse_flaps E (cl_recv s) (s\<lparr>cl_recv := new_buffer\<rparr>) of
      (r, recv, s) \<Rightarrow> (r, s\<lparr>cl_recv := recv\<rparr>)))"
    by (auto simp: cl_ok_defs split: prod.splits)
qed

text \<open>With an open socket the numbers are drawn.\<close>

lemma recv_loop_step:
  assumes "cl_ok k s" and "stable (cl_ok True) m"
  shows "cl_ok k (snd (thenM (gets cl_socket) (\<lambda>sock. if sock \<noteq> SOCK_CONNECTED then ret () else m) s))"
proof (cases "cl_socket s = SOCK_CONNECTED")
  case True
  then have "cl_ok True (snd (m s))"
    using assms by (auto simp: stable_def dest: cl_ok_connected)
  then show ?thesis
    using True by (simp add: cl_ok_weaken)
qed (use assms in simp)

lemma ok_recv_loop: "stable (cl_ok k) (recv_loop E cs)"
proof (induction cs arbitrary: k)
  case Nil
  show ?case
    unfolding stable_def
    by (subst recv_loop.simps) (intro allI impI recv_loop_step, simp_all add: stable_pure)
next
  case (Cons c cs)
  have "stable (cl_ok True) (case c of
      None \<Rightarrow> thenM (set_socket SOCK_NOT_CONNECTED) (\<lambda>_. raise SocketError)
    | Some b \<Rightarrow> thenM (modify (\<lambda>s. s\<lparr>cl_recv := pack_bytes b (cl_recv s)\<rparr>)) (\<lambda>_.
        thenM (Client_Parse E) (\<lambda>_. recv_loop E cs)))"
    by (intro stable_rules ok_rules ok_Client_Parse Cons.IH) (simp add: cl_ok_defs)
  then show ?case
    unfolding stable_def [of "cl_ok k"]
    by (subst recv_loop.simps) (intro allI impI recv_loop_step; cases c; simp)
qed

lemma ok_RecvFromServer [ok_rules]: "stable (cl_ok k) (RecvFromServer E cs)"
  unfolding RecvFromServer_def by (intro stable_rules ok_recv_loop ok_rules)

section \<open>What the application calls\<close>

lemma ok_Client_setStatus [ok_rules]: "seeds_ok E \<Longrightarrow> stable (cl_ok k) (Client_setStatus E st invis)"
  unfolding Client_setStatus_def by (intro stable_rules ok_rules) (simp_all add: cl_ok_defs)

lemma ok_setWebAware [ok_rules]: "seeds_ok E \<Longrightarrow> stable (cl_ok k) (setWebAware E wa)"
  unfolding setWebAware_def by (intro stable_rules ok_rules) (simp_all add: cl_ok_defs)

lemma ok_setRandomChatGroup [ok_rules]: "stable (cl_ok k) (setRandomChatGroup E g)"
  unfolding setRandomChatGroup_def by (intro stable_rules ok_rules) (simp_all add: cl_ok_defs)

lemma ok_RegisterUIN [ok_rules]: "seeds_ok E \<Longrightarrow> stable (cl_ok k) (RegisterUIN E)"
  unfolding RegisterUIN_def by (intro stable_rules ok_rules) simp_all

lemma ok_requests [ok_rules]:
  "stable (cl_ok k) (request E r v)" "stable (cl_ok k) (fetchSimpleContactInfo E c)"
  "stable (cl_ok k) (fetchDetailContactInfo E c)" "stable (cl_ok k) (search E t f)"
  "stable (cl_ok k) (uploadSelfDetails E)" "stable (cl_ok k) (uploadServerBasedContactList E)"
  unfolding request_def fetchSimpleContactInfo_def fetchDetailContactInfo_def search_def
    uploadSelfDetails_def uploadServerBasedContactList_def
  by (intro stable_rules ok_rules)+

lemma ok_fetchServerBasedContactList [ok_rules]: "stable (cl_ok k) (fetchServerBasedContactList E)"
  unfolding fetchServerBasedContactList_def by (intro stable_rules ok_rules) (simp add: cl_ok_defs)

lemma ok_ConnectDirect [ok_rules]: "stable (cl_ok k) (ConnectDirect E r)"
  unfolding ConnectDirect_def by (intro stable_rules ok_rules)

lemma ok_SendEvent [ok_rules]: "stable (cl_ok k) (SendDirect E ev)" "stable (cl_ok k) (Client_SendEvent E ev)"
  unfolding Client_SendEvent_def SendDirect_def by (intro stable_rules ok_rules)+

lemma ok_lists [ok_rules]:
  "stable (cl_ok k) (remove_peers_of E r)" "stable (cl_ok k) (list_snac E invis r x)"
  unfolding remove_peers_of_def list_snac_def by (intro stable_rules ok_rules)+

lemma ok_contactlist_cb [ok_rules]: "stable (cl_ok k) (contactlist_cb E ev)"
  unfolding contactlist_cb_def
  by (cases ev) (auto intro!: stable_rules ok_rules)

lemma ok_DisconnectDirectConn [ok_rules]: "stable (cl_ok k) (DisconnectDirectConn E (\<lambda>_. ret ()) fd)"
  unfolding DisconnectDirectConn_def by (intro stable_rules ok_rules)

lemma ok_expiry [ok_rules]:
  "stable (cl_ok k) (ICBMCookieCache_expired_cb E ev)" "stable (cl_ok k) (reqidcache_expired_cb v)"
  "(\<And>v. stable (cl_ok k) (cb v)) \<Longrightarrow> stable (cl_ok k) (expiry_cb cb evs)"
  unfolding ICBMCookieCache_expired_cb_def reqidcache_expired_cb_def expiry_cb_def
  by (intro stable_rules ok_rules | split event.split, auto intro!: stable_rules)+

lemma ok_Poll [ok_rules]: "stable (cl_ok k) (Poll E)"
  unfolding Poll_def ping_if_due_def PingServer_def poll_requests_def poll_cookies_def poll_peers_def
    poll_peer_messages_def
  by (intro stable_rules ok_rules) (simp_all add: cl_ok_defs)

section \<open>Sockets and settings\<close>

lemma ok_Finish:
  assumes "cl_ok k s" and "cl_socket s = SOCK_NONBLOCKING_CONNECT"
  shows "cl_ok k (snd (TCPSocket_FinishNonBlockingConnect E s))"
  using assms
  by (auto simp: TCPSocket_FinishNonBlockingConnect_def set_socket_def query_def thenM_def modify_def raise_def
      cl_ok_defs split: if_splits)

lemma stable_after:
  assumes "stable I m" and "\<And>x. stable I (f x)" shows "I s \<Longrightarrow> I (snd (thenM m f s))"
  using stable_thenM [OF assms] by (simp add: stable_def)

lemma ok_server_socket_cb [ok_rules]: "stable (cl_ok k) (server_socket_cb E cs fd modes)"
  unfolding stable_def
proof (intro allI impI)
  fix s assume s: "cl_ok k s"
  define sent where "sent = (\<lambda>ok. if ok
    then emit_out [RemoveSocketHandle fd, AddSocketHandle fd READ] else ret ())"
  define failed where "failed = (\<lambda>e. if e = SocketError
    then thenM (Client_Disconnect E FAILED_LOWLEVEL) (\<lambda>_. ret False) else raise e)"
  have st: "stable (cl_ok k) (sent ok)" "stable (cl_ok k) (failed e)" for ok e
    unfolding sent_def failed_def by (intro stable_rules ok_rules)+
  show "cl_ok k (snd (server_socket_cb E cs fd modes s))"
  proof (cases "cl_socket s = SOCK_NONBLOCKING_CONNECT \<and> WRITE \<in> modes")
    case True
    obtain r t where f: "TCPSocket_FinishNonBlockingConnect E s = (r, t)"
      by fastforce
    then have t: "cl_ok k t"
      using ok_Finish [OF s] True by (metis snd_conv)
    have eq: "server_socket_cb E cs fd modes s = thenM (catchM (thenM (TCPSocket_FinishNonBlockingConnect E)
        (\<lambda>_. ret True)) failed) sent s"
      using True by (simp add: server_socket_cb_def sent_def failed_def)
    show ?thesis
      unfolding eq
    proof (cases r)
      case (Inl e)
      have "thenM (catchM (thenM (TCPSocket_FinishNonBlockingConnect E) (\<lambda>_. ret True)) failed) sent s =
          thenM (failed e) sent t"
        using f Inl by (simp add: thenM_def catchM_def)
      then show "cl_ok k (snd (thenM (catchM (thenM (TCPSocket_FinishNonBlockingConnect E) (\<lambda>_. ret True)) failed) sent s))"
        using t st by (simp add: stable_after)
    next
      case (Inr x)
      then show "cl_ok k (snd (thenM (catchM (thenM (TCPSocket_FinishNonBlockingConnect E) (\<lambda>_. ret True)) failed) sent s))"
        using f t st(1) [of True] by (simp add: thenM_def catchM_def ret_def stable_def)
    qed
  next
    case False
    have "stable (cl_ok k) (if cl_socket s = SOCK_CONNECTED \<and> READ \<in> modes then RecvFromServer E cs
        else Client_Disconnect E FAILED_LOWLEVEL)"
      by (intro stable_rules ok_rules)
    then show ?thesis
      using False s by (auto simp: server_socket_cb_def stable_def)
  qed
qed

lemma ok_listen_socket_cb [ok_rules]: "stable (cl_ok k) (listen_socket_cb E)"
  unfolding listen_socket_cb_def by (intro stable_rules ok_rules) (simp add: cl_ok_defs)

lemma ok_peer_recv [ok_rules]: "stable (cl_ok k) (peer_recv E cs d)"
  unfolding peer_recv_def by (intro stable_rules ok_rules)

lemma ok_drop_on_disconnect [ok_rules]: "stable (cl_ok k) (drop_on_disconnect E (\<lambda>_. ret ()) fd r)"
  unfolding drop_on_disconnect_def
  by (intro stable_rules ok_rules) (auto intro!: stable_rules ok_rules split: exn.split)

lemma ok_peer_socket_cb [ok_rules]: "stable (cl_ok k) (peer_socket_cb E (\<lambda>_. ret ()) cs d modes)"
  unfolding peer_socket_cb_def by (intro stable_rules ok_rules)

lemma ok_socket_cb [ok_rules]:
  "stable (cl_ok k) (socket_cb E (\<lambda>_. False) ft_cb (\<lambda>_. ret ()) cs fd modes)"
  unfolding socket_cb_def if_False by (intro stable_rules ok_rules)

lemma ok_settings [ok_rules]:
  "stable (cl_ok k) (Client_setUIN uin)" "stable (cl_ok k) (setPassword pw)"
  "stable (cl_ok k) (setLoginServerHost host)" "stable (cl_ok k) (setLoginServerPort port)"
  "stable (cl_ok k) (setBOSServerOverridePort b)" "stable (cl_ok k) (setBOSServerPort port)"
  "stable (cl_ok k) (setAcceptInDC b)" "stable (cl_ok k) (setUseOutDC b)"
  "stable (cl_ok k) (setPortRangeUpperBound port)" "stable (cl_ok k) (setPortRangeLowerBound port)"
  "stable (cl_ok k) (setUsePortRange b)" "stable (cl_ok k) (setClientBindHost host)"
  "stable (cl_ok k) (setTypingNotifications b)"
  unfolding Client_setUIN_def setPassword_def setLoginServerHost_def setLoginServerPort_def
    setBOSServerOverridePort_def setBOSServerPort_def setAcceptInDC_def setUseOutDC_def
    setPortRangeUpperBound_def setPortRangeLowerBound_def setUsePortRange_def setClientBindHost_def
    setTypingNotifications_def
  by (intro stable_rules ok_rules; simp add: cl_ok_defs)+

lemma ok_list_changes [ok_rules]:
  "stable (cl_ok k) (addVisible r)" "stable (cl_ok k) (removeVisible uin)"
  "stable (cl_ok k) (addInvisible r)" "stable (cl_ok k) (removeInvisible uin)"
  unfolding addVisible_def removeVisible_def addInvisible_def removeInvisible_def
  by (rule stable_modify, simp add: cl_ok_defs)+

lemma ok_list_cbs [ok_rules]:
  "stable (cl_ok k) (visiblelist_cb E b r)" "stable (cl_ok k) (invisiblelist_cb E b r)"
  "stable (cl_ok k) (uploadServerBasedContact E)" "stable (cl_ok k) (removeServerBasedContactList E)"
  unfolding visiblelist_cb_def invisiblelist_cb_def uploadServerBasedContact_def removeServerBasedContactList_def
  by (intro stable_rules ok_rules)+

section \<open>Everything that can happen to a client\<close>

datatype client_op =
    SetStatus status bool | SetWebAware bool | SetRandomChatGroup u16 | Register
  | FetchSimple contact_ref | FetchDetail contact_ref | Search search_type "u32 \<Rightarrow> srv_request"
  | UploadSelf | FetchList | UploadList | SendEv message_event | ListChanged contactlist_event
  | VisibleChanged bool contact_ref | InvisibleChanged bool contact_ref | AddVisibleOp contact_ref
  | RemoveVisibleOp u32 | AddInvisibleOp contact_ref | RemoveInvisibleOp u32
  | SocketReady "u8 list option list" int "socket_mode set" | PollOp
  | SetUIN u32 | SetPassword string | SetLoginHost string | SetLoginPort u16 | SetOverridePort bool
  | SetBOSPort u16 | SetAcceptInDC bool | SetUseOutDC bool | SetUpper u16 | SetLower u16
  | SetUsePortRange bool | SetBindHost string | SetTyping bool

text \<open>File transfers and mail take no part.\<close>

fun run_op :: "client_env \<Rightarrow> client_op \<Rightarrow> unit cm" where
  "run_op E (SetStatus st invis) = Client_setStatus E st invis"
| "run_op E (SetWebAware wa) = setWebAware E wa"
| "run_op E (SetRandomChatGroup g) = setRandomChatGroup E g"
| "run_op E Register = RegisterUIN E"
| "run_op E (FetchSimple r) = fetchSimpleContactInfo E r"
| "run_op E (FetchDetail r) = fetchDetailContactInfo E r"
| "run_op E (Search t r) = thenM (search E t r) (\<lambda>_. ret ())"
| "run_op E UploadSelf = uploadSelfDetails E"
| "run_op E FetchList = fetchServerBasedContactList E"
| "run_op E UploadList = uploadServerBasedContactList E"
| "run_op E (SendEv ev) = Client_SendEvent E ev"
| "run_op E (ListChanged ev) = contactlist_cb E ev"
| "run_op E (VisibleChanged b r) = visiblelist_cb E b r"
| "run_op E (InvisibleChanged b r) = invisiblelist_cb E b r"
| "run_op E (AddVisibleOp r) = addVisible r"
| "run_op E (RemoveVisibleOp uin) = removeVisible uin"
| "run_op E (AddInvisibleOp r) = addInvisible r"
| "run_op E (RemoveInvisibleOp uin) = removeInvisible uin"
| "run_op E (SocketReady cs fd modes) = socket_cb E (\<lambda>_. False) (\<lambda>_. ret ()) (\<lambda>_. ret ()) cs fd modes"
| "run_op E PollOp = Poll E"
| "run_op E (SetUIN uin) = Client_setUIN uin"
| "run_op E (SetPassword pw) = setPassword pw"
| "run_op E (SetLoginHost host) = setLoginServerHost host"
| "run_op E (SetLoginPort port) = setLoginServerPort port"
| "run_op E (SetOverridePort b) = setBOSServerOverridePort b"
| "run_op E (SetBOSPort port) = setBOSServerPort port"
| "run_op E (SetAcceptInDC b) = setAcceptInDC b"
| "run_op E (SetUseOutDC b) = setUseOutDC b"
| "run_op E (SetUpper port) = setPortRangeUpperBound port"
| "run_op E (SetLower port) = setPortRangeLowerBound port"
| "run_op E (SetUsePortRange b) = setUsePortRange b"
| "run_op E (SetBindHost host) = setClientBindHost host"
| "run_op E (SetTyping b) = setTypingNotifications b"

lemma ok_run_op: "seeds_ok E \<Longrightarrow> stable (cl_ok k) (run_op E op)"
  by (cases op; simp only: run_op.simps; (intro stable_rules ok_rules; assumption)?)

text \<open>
  The states a new client can get to. Each operation has an environment of its own, and one that ends
  in an exception leaves the state it had got to.
\<close>

inductive client_reach :: "client \<Rightarrow> bool" where
  start: "client_reach (new_client E mh password)"
| step: "client_reach s \<Longrightarrow> seeds_ok E \<Longrightarrow> client_reach (snd (run_op E op s))"

lemma reach_ok: "client_reach s \<Longrightarrow> cl_ok False s"
proof (induction rule: client_reach.induct)
  case (start E mh password)
  then show ?case
    by (simp add: new_client_def cl_ok_defs)
next
  case (step s E op)
  then show ?case
    using ok_run_op [of E False op] by (simp add: stable_def)
qed

section \<open>Properties\<close>

text \<open>
  An environment in which sockets connect later, no system call fails and nothing is translated.
\<close>

definition demo_env :: client_env where
  "demo_env =
     \<lparr>ce_now = 1000, ce_c2s = (\<lambda>_ _ x. x), ce_s2c = (\<lambda>_ _ x. x), ce_on_message = id, ce_on_auto = id,
      ce_indet = False, ce_resolves = (\<lambda>_. True), ce_connects = (\<lambda>_. ConnectPending 5), ce_finishes = (\<lambda>_. True),
      ce_sends = (\<lambda>_. True), ce_listens = (\<lambda>_ _ _. Listens 6 4000), ce_local_ip = 0x7f000001,
      ce_seq_seeds = (\<lambda>_. 0x7fff), ce_request_seeds = (\<lambda>_. 7), ce_cookies = (\<lambda>n. (word_of_nat n, 1)),
      ce_timestr = [], ce_snac = \<lparr>env_cap0 = [], env_rnd = (\<lambda>_. 0), env_indet = (\<lambda>_. False), env_list = no_list\<rparr>,
      ce_accepts = (\<lambda>_. None), ce_peer_ip = (\<lambda>_. 0), ce_peer_sends = (\<lambda>_ _. True), ce_peer_draws = (\<lambda>_ _. 1)\<rparr>"

definition demo_client :: "handler \<Rightarrow> client" where
  "demo_client mh = snd (run_op demo_env (SetStatus STATUS_ONLINE False) (new_client demo_env mh ''secret''))"

lemma demo_reach: "client_reach (demo_client mh)"
  unfolding demo_client_def by (intro client_reach.intros) (simp add: seeds_ok_def demo_env_def)

lemma demo_client_eval:
  "cl_state (demo_client mh) = AUTH_AWAITING_CONN_ACK" "cl_socket (demo_client mh) = SOCK_NONBLOCKING_CONNECT"
  "cl_client_seq_num (demo_client mh) = Some 0x7fff" "cl_requestid (demo_client mh) = Some 7"
  by (simp_all add: demo_client_def new_client_def Client_setStatus_def ConnectAuthorizer_def try_connect_def
      connect_server_def look_up_def bind_host_def TCPSocket_Connect_def add_server_socket_def emit_out_def
      query_def to_state_def thenM_def catchM_def gets_def modify_def ret_def demo_env_def)

text \<open>C6: Whatever the application, the server and other clients do and however system calls end, a client that
  is not connected has no open socket to the server.\<close>

theorem disconnected_is_closed:
  assumes "client_reach s" and "cl_state s = CL_NOT_CONNECTED"
  shows "cl_socket s = SOCK_NOT_CONNECTED"
  using reach_ok [OF assms(1)] assms(2) by (simp add: cl_ok_def)

theorem disconnected_is_closed_witness:
  "\<forall>mh. cl_socket (new_client demo_env mh ''secret'') = SOCK_NOT_CONNECTED"
proof
  fix mh
  show "cl_socket (new_client demo_env mh ''secret'') = SOCK_NOT_CONNECTED"
    by (rule disconnected_is_closed [OF client_reach.start]) (simp add: new_client_def)
qed

lemma next_masked:
  assumes "m \<le> LENGTH('a)"
  shows "(n + 1 :: 'a::len word) AND mask m = word_of_nat ((unat n + 1) mod 2 ^ m)"
proof -
  have "unat ((n + 1) AND mask m) = take_bit m (unat (n + 1))"
    by (simp add: take_bit_eq_mask [symmetric] unsigned_take_bit_eq)
  also have "\<dots> = (unat n + 1) mod 2 ^ m"
    using assms by (simp add: take_bit_eq_mod unat_word_ariths mod_mod_cancel le_imp_power_dvd)
  finally show ?thesis
    by (metis of_nat_unat ucast_id)
qed

lemma next_counters:
  "((n :: u16) + 1) AND 0x7fff = word_of_nat ((unat n + 1) mod 0x8000)"
  "((r :: u32) + 1) AND 0x7fffffff = word_of_nat ((unat r + 1) mod 0x80000000)"
  using next_masked [of 15 n] next_masked [of 31 r] by (simp_all add: mask_eq_exp_minus_1)

text \<open>C15: In every reachable state a counter that has been drawn is below its bound, \<open>2 ^ 15\<close> for the sequence
  numbers and \<open>2 ^ 31\<close> for the request ids, and the next number handed out is its successor modulo that
  bound; a counter that has not been drawn belongs to a client that is not connected.\<close>

theorem counters_bounded:
  assumes "client_reach s"
  shows
    "(case cl_client_seq_num s of
      None \<Rightarrow> cl_state s = CL_NOT_CONNECTED
    | Some n \<Rightarrow> n < 0x8000 \<and> fst (Client_NextSeqNum s) = Inr (word_of_nat ((unat n + 1) mod 0x8000))) \<and>
    (case cl_requestid s of
      None \<Rightarrow> cl_state s = CL_NOT_CONNECTED
    | Some r \<Rightarrow> r < 0x80000000 \<and> fst (NextRequestID s) = Inr (word_of_nat ((unat r + 1) mod 0x80000000)))"
  using reach_ok [OF assms]
  by (auto simp: cl_ok_defs word_less_nat_alt word_le_nat_alt Client_NextSeqNum_def NextRequestID_def Let_def
      next_counters split: option.split)

theorem counters_bounded_witness:
  "\<forall>mh. fst (Client_NextSeqNum (demo_client mh)) = Inr 0 \<and> fst (NextRequestID (demo_client mh)) = Inr 8"
  using counters_bounded [OF demo_reach] by (auto simp: demo_client_eval)

end
