(* ===== verification/SessionOutput.thy ===== *)
theory SessionOutput
  imports ClientInv
begin

text \<open>
  What the handling of packets does with the receive buffer and with what leaves the library: it never
  touches the one, and only adds to the other. The operations are those of \<open>ServerConn\<close> and
  \<open>ServerSession\<close>.
\<close>

section \<open>The buffer stays, the output grows\<close>

definition kept :: "buffer \<Rightarrow> client_output list \<Rightarrow> client \<Rightarrow> bool" where
  "kept b os s \<longleftrightarrow> cl_recv s = b \<and> (\<exists>os'. cl_out s = os @ os')"

interpretation kept: client_invariant "kept b os" for b os
  by unfold_locales (auto simp: passing_defs kept_def)

lemma kept_start: "kept (cl_recv s) (cl_out s) s"
  by (simp add: kept_def)

lemma kept_assigns:
  "kept b os s \<Longrightarrow> cl_recv t = cl_recv s \<Longrightarrow> cl_out t = cl_out s \<Longrightarrow> kept b os t"
  by (simp add: kept_def)

lemma kept_modify:
  "(\<And>s. cl_recv (f s) = cl_recv s) \<Longrightarrow> (\<And>s. cl_out (f s) = cl_out s) \<Longrightarrow> stable (kept b os) (modify f)"
  by (rule stable_modify) (simp add: kept_def)

lemma kept_sockets [ok_rules]:
  "stable (kept b os) (to_state st)" "stable (kept b os) (set_socket q)"
  "stable (kept b os) (look_up E host)" "stable (kept b os) (bind_host E host)"
  "stable (kept b os) (TCPServer_setBindHost E host)" "stable (kept b os) TCPServer_Disconnect"
  "stable (kept b os) remove_server_socket" "stable (kept b os) remove_listen_socket"
  "stable (kept b os) add_server_socket"
  unfolding to_state_def set_socket_def look_up_def bind_host_def TCPServer_setBindHost_def
    TCPServer_Disconnect_def remove_server_socket_def remove_listen_socket_def add_server_socket_def
  by (intro stable_rules ok_rules; simp add: kept_def)+

lemma kept_StartServer [ok_rules]: "stable (kept b os) (TCPServer_StartServer E lower upper)"
  unfolding TCPServer_StartServer_def
  by (intro stable_rules ok_rules, split listen_result.split)
    (intro allI impI conjI stable_rules; simp add: kept_def)+

lemma kept_Connect [ok_rules]: "stable (kept b os) (TCPSocket_Connect E host port)"
  unfolding TCPSocket_Connect_def
  by (intro stable_rules ok_rules, split connect_result.split)
    (intro allI impI conjI stable_rules; simp add: kept_def)+

section \<open>Connecting and disconnecting\<close>

lemma kept_Send_or [ok_rules]: "stable (kept b os) m \<Longrightarrow> stable (kept b os) (Send_or E m buf)"
  unfolding Send_or_def by (intro stable_rules ok_rules)

lemma kept_disconnects [ok_rules]:
  "stable (kept b os) DisconnectAuthorizer" "stable (kept b os) (DisconnectBOS E)"
  unfolding DisconnectAuthorizer_def DisconnectBOS_def by (intro stable_rules ok_rules)+

lemma kept_Client_Disconnect [ok_rules]: "stable (kept b os) (Client_Disconnect E r)"
  unfolding Client_Disconnect_def by (intro stable_rules ok_rules)

lemma kept_Client_Send [ok_rules]: "stable (kept b os) (Client_Send E buf)"
  unfolding Client_Send_def by (intro ok_rules)

lemma kept_FLAPwrapSNACandSend [ok_rules]: "stable (kept b os) (FLAPwrapSNACandSend E x)"
  unfolding FLAPwrapSNACandSend_def by (intro ok_rules)

lemma kept_connects [ok_rules]:
  "stable (kept b os) (connect_server E host port)" "stable (kept b os) (try_connect E host port)"
  "stable (kept b os) (ConnectAuthorizer E st)" "stable (kept b os) (ConnectBOS E)"
  unfolding connect_server_def try_connect_def ConnectAuthorizer_def ConnectBOS_def
  by (intro stable_rules ok_rules; simp add: kept_def)+

section \<open>The session\<close>

lemma kept_send_flap [ok_rules]: "stable (kept b os) (send_flap E c fill)"
  unfolding send_flap_def by (intro stable_rules ok_rules)

lemma kept_login_packets [ok_rules]:
  "stable (kept b os) (SendAuthReq E)" "stable (kept b os) (SendNewUINReq E)" "stable (kept b os) (SendCookie E)"
  "stable (kept b os) (SendCapabilities E)" "stable (kept b os) (SendSetUserInfo E)"
  "stable (kept b os) (SendRateInfoRequest E)" "stable (kept b os) (SendRateInfoAck E)"
  "stable (kept b os) (SendPersonalInfoRequest E)" "stable (kept b os) (SendAddICBMParameter E)"
  "stable (kept b os) (SendRequestSBL E)" "stable (kept b os) (SendSBLReceivedACK E)"
  "stable (kept b os) (SendOfflineMessagesACK E)" "stable (kept b os) (start_listening E)"
  unfolding SendAuthReq_def SendNewUINReq_def SendCookie_def SendCapabilities_def SendSetUserInfo_def
    SendRateInfoRequest_def SendRateInfoAck_def SendPersonalInfoRequest_def SendAddICBMParameter_def
    SendRequestSBL_def SendSBLReceivedACK_def SendOfflineMessagesACK_def start_listening_def
  by (intro stable_rules ok_rules)+

lemma kept_SendLogin [ok_rules]: "stable (kept b os) (SendLogin E)"
  unfolding SendLogin_def SignalConnect_def
  by (intro stable_rules ok_rules) (simp_all add: kept_def)

lemma kept_contacts [ok_rules]:
  "stable (kept b os) (on_contactR r f)" "stable (kept b os) (on_contact_if c r g)"
  "stable (kept b os) (apply_setters r fs)"
  unfolding on_contactR_def on_contact_if_def apply_setters_def by (intro stable_rules ok_rules)+

lemma kept_user_info [ok_rules]:
  "stable (kept b os) (SignalUserOnline E u)" "stable (kept b os) (SignalUserOffline E u)"
  "stable (kept b os) (HandleUserInfoSNAC E u)"
  unfolding SignalUserOnline_def SignalUserOffline_def HandleUserInfoSNAC_def
  by (intro stable_rules ok_rules; simp add: kept_def)+

lemma kept_messages [ok_rules]:
  "stable (kept b os) (handler_result mh sigs)" "stable (kept b os) (incoming E t st)"
  "stable (kept b os) (acknowledged E ck ev u ub)"
  unfolding handler_result_def incoming_def acknowledged_def
  by (intro stable_rules ok_rules; simp add: kept_def)+

lemma kept_message_snacs [ok_rules]:
  "stable (kept b os) (SendAdvancedACK E ck st seq)" "stable (kept b os) (SignalFTMessage E m u f)"
  unfolding SendAdvancedACK_def SignalFTMessage_def
  by (cases "body st") (auto intro!: stable_rules ok_rules)

lemma kept_SignalMessage [ok_rules]: "stable (kept b os) (SignalMessage E m)"
  unfolding SignalMessage_def
  by (cases "mg_icqsubtype m") (auto intro!: stable_rules ok_rules split: subtype_body.split uin_body.split)

lemma kept_SignalMessageACK [ok_rules]: "stable (kept b os) (SignalMessageACK E a)"
  unfolding SignalMessageACK_def
  by (cases "ma_icqsubtype a") (auto intro!: stable_rules ok_rules split: subtype_body.split)

lemma kept_SignalMessageOfflineUser [ok_rules]: "stable (kept b os) (SignalMessageOfflineUser m)"
  unfolding SignalMessageOfflineUser_def Let_def by (intro stable_rules ok_rules) (simp add: kept_def)

lemma kept_search [ok_rules]:
  "stable (kept b os) (found_contact E r)" "stable (kept b os) (add_result c ev)"
  "stable (kept b os) (search_step E r ev)" "stable (kept b os) (SignalSearchResult E rid r ev)"
  unfolding search_step_def SignalSearchResult_def found_contact_def add_result_def Let_def
  by (intro stable_rules ok_rules; simp add: kept_def)+

lemma kept_responses [ok_rules]:
  "stable (kept b os) (SignalSMSResponse rid r)" "stable (kept b os) (SignalSimpleUserInfo E rid r)"
  "stable (kept b os) (SignalSearchUserInfo E rid r)" "stable (kept b os) (SignalRandomChatFound E rid r)"
  "stable (kept b os) (getUserInfoCacheContact rid)"
  unfolding SignalSMSResponse_def SignalSimpleUserInfo_def SignalSearchUserInfo_def SignalRandomChatFound_def
    getUserInfoCacheContact_def
  by (intro stable_rules ok_rules)+

lemma kept_catch_parse [ok_rules]: "stable (kept b os) m \<Longrightarrow> stable (kept b os) (catch_parse m)"
  unfolding catch_parse_def
  by (intro stable_rules) (auto intro!: stable_rules split: exn.split fault.split)

lemma kept_user_info_reply [ok_rules]: "stable (kept b os) (user_info_reply E rid f)"
  unfolding user_info_reply_def by (intro stable_rules ok_rules)

lemma kept_SignalSrvResponse [ok_rules]:
  "stable (kept b os) (SignalUserInfoReply E rid r t)" "stable (kept b os) (SignalSrvResponse E rid r)"
proof -
  show *: "stable (kept b os) (SignalUserInfoReply E rid r t)" for t
    unfolding SignalUserInfoReply_def by (cases t) (auto intro!: stable_rules ok_rules)
  show "stable (kept b os) (SignalSrvResponse E rid r)"
    unfolding SignalSrvResponse_def
    by (intro stable_rules ok_rules) (auto intro!: stable_rules ok_rules * split: response_type.split)
qed

lemma kept_HandleSnac [ok_rules]:
  "stable (kept b os) (HandleRateInfo E)" "stable (kept b os) (HandleSnac E rid x)"
proof -
  show *: "stable (kept b os) (HandleRateInfo E)"
    unfolding HandleRateInfo_def by (intro stable_rules ok_rules)
  show "stable (kept b os) (HandleSnac E rid x)"
    by (cases x) (auto intro!: stable_rules ok_rules * simp: SignalUINResponse_def SignalUINRequestError_def
        SignalRateInfoChange_def)
qed

lemma kept_redirected [ok_rules]: "stable (kept b os) (redirected E m)"
  unfolding redirected_def by (intro stable_rules ok_rules; simp add: kept_def)

lemma kept_channels [ok_rules]:
  "stable (kept b os) (ParseCh1 E d)" "stable (kept b os) (ParseCh2 E d)" "stable (kept b os) (ParseCh4 E d)"
proof -
  show "stable (kept b os) (ParseCh1 E d)"
    unfolding ParseCh1_def by (intro stable_rules ok_rules)
  show "stable (kept b os) (ParseCh2 E d)"
    unfolding ParseCh2_def
    by (intro stable_rules) (auto intro!: stable_rules ok_rules split: fault.split)
  show "stable (kept b os) (ParseCh4 E d)"
    unfolding ParseCh4_def by (intro stable_rules ok_rules)
qed

lemma kept_handle_flap [ok_rules]: "stable (kept b os) (handle_flap E c d)"
  unfolding handle_flap_def ParseCh3_def by (intro stable_rules ok_rules)

end
