(* ===== verification/ServerStream.thy ===== *)
theory ServerStream
  imports SessionOutput
begin

text \<open>
  The stream of frames between the client and the server: a frame that was written is read back, and the
  receive loop hands over frame after frame, whatever the pieces in which the stream arrives, until a frame
  makes the client leave the server.
\<close>

section \<open>Frames\<close>

type_synonym flap = "u8 \<times> u16 \<times> u8 list"

definition flap_bytes :: "flap \<Rightarrow> u8 list" where
  "flap_bytes p = (case p of (c, seq, bdy) \<Rightarrow>
     42 # c # enc16 BIG seq @ enc16 BIG (word_of_nat (length bdy)) @ bdy)"

text \<open>The buffer the handling of a packet gets, positioned behind the header.\<close>

definition flap_packet :: "flap \<Rightarrow> buffer" where
  "flap_packet p = advance 6 (buffer_of_bytes (flap_bytes p))"

definition flap_ok :: "flap \<Rightarrow> bool" where
  "flap_ok p \<longleftrightarrow> length (snd (snd p)) < 2 ^ 16"

lemma flap_bytes_ne [simp]: "flap_bytes p \<noteq> []"
  by (simp add: flap_bytes_def split: prod.splits)

lemma length_flap_bytes: "length (flap_bytes p) = length (snd (snd p)) + 6"
  by (simp add: flap_bytes_def split: prod.splits)

lemma unat_remains:
  assumes "wfb b"
  shows "unat (remains b) = length (unread b)"
proof -
  have "unat (word_of_nat (length (m_data b)) :: u32) = length (m_data b)"
    using assms by (simp add: wfb_def unat_of_nat_u32)
  moreover from this have "m_out_pos b \<le> word_of_nat (length (m_data b))"
    using assms by (simp add: wfb_def word_le_nat_alt)
  ultimately show ?thesis
    by (simp add: remains_def unread_def unat_sub)
qed

lemma start_of_frame:
  assumes "m_data recv \<noteq> []" and "length (m_data recv) < 2 ^ 31"
  shows "wfb (setPos 0 recv)" and "unread (setPos 0 recv) = m_data recv"
    and "m_endn (setPos 0 recv) = m_endn recv" and "m_data (setPos 0 recv) = m_data recv"
  using assms by (simp_all add: wfb_def unread_def setPos_def)

text \<open>What is left of the function once the start byte and the first six bytes are there.\<close>

lemma next_flap_header:
  assumes "m_data recv = 42 # c # enc16 BIG seq @ enc16 BIG len @ d" and "m_endn recv = BIG"
    and "length (m_data recv) < 2 ^ 31"
  shows "next_flap recv =
    (if length d < unat len then Inr (Incomplete, recv\<lparr>m_out_pos := 6\<rparr>)
     else andThen (chopOffBuffer (recv\<lparr>m_out_pos := 6\<rparr>) new_buffer (ucast len + 6)) (\<lambda>(b, sb).
         Inr (Flap c (advance 6 sb), b)))"
proof -
  let ?b = "setPos 0 recv"
  note s = start_of_frame [of recv]
  have b: "wfb ?b" "unread ?b = 42 # c # enc16 BIG seq @ enc16 BIG len @ d" "m_endn ?b = BIG"
    using s assms by simp_all
  have b1: "wfb (advance 1 ?b)" "unread (advance 1 ?b) = c # enc16 BIG seq @ enc16 BIG len @ d"
    using b by (simp_all add: codec_simps)
  have b2: "wfb (advance 2 ?b)" "unread (advance 2 ?b) = enc16 BIG seq @ enc16 BIG len @ d"
    using b by (simp_all add: codec_simps)
  have b4: "wfb (advance 4 ?b)" "unread (advance 4 ?b) = enc16 BIG len @ d"
    using b by (simp_all add: codec_simps)
  have b6: "wfb (advance 6 ?b)" "unread (advance 6 ?b) = d"
    using b by (simp_all add: codec_simps)
  have pos: "advance 6 ?b = recv\<lparr>m_out_pos := 6\<rparr>"
    by (simp add: advance_def setPos_def)
  have r5: "\<not> remains (advance 1 ?b) < 5"
    using unat_remains [OF b1(1)] b1(2) by (simp add: word_less_nat_alt)
  have rd: "remains (recv\<lparr>m_out_pos := 6\<rparr>) < ucast len \<longleftrightarrow> length d < unat len"
    using unat_remains [OF b6(1)] b6(2) pos by (simp add: word_less_nat_alt)
  have g1: "get_u8 ?b = Inr (42, advance 1 ?b)"
    by (rule get_u8_unread [OF b(1,2)])
  have g2: "get_u8 (advance 1 ?b) = Inr (c, advance 2 ?b)"
    using get_u8_unread [OF b1] by simp
  have g3: "get_u16 (advance 2 ?b) = Inr (seq, advance 4 ?b)"
    using get_u16_enc [of "advance 2 ?b" seq "enc16 BIG len @ d"] b(3) b2 by simp
  have g4: "get_u16 (advance 4 ?b) = Inr (len, recv\<lparr>m_out_pos := 6\<rparr>)"
    using get_u16_enc [of "advance 4 ?b" len d] b(3) b4 by (simp add: advance_def setPos_def)
  show ?thesis
    by (simp add: next_flap_def g1 g2 g3 g4 r5 rd)
qed

lemma next_flap_frame:
  assumes "m_data recv = flap_bytes p @ d" and "flap_ok p" and "m_endn recv = BIG"
    and "length (m_data recv) < 2 ^ 31"
  shows "next_flap recv = Inr (Flap (fst p) (flap_packet p), recv\<lparr>m_data := d, m_out_pos := 0\<rparr>)"
proof -
  obtain c seq bdy where p: "p = (c, seq, bdy)"
    by (cases p)
  have l: "unat (word_of_nat (length bdy) :: u16) = length bdy"
    using assms(2) p by (simp add: flap_ok_def unat_of_nat_u16)
  then have l6: "unat (ucast (word_of_nat (length bdy) :: u16) + 6 :: u32) = length bdy + 6"
    by (subst unat_plus_u32) (use assms(2) p in \<open>auto simp: flap_ok_def\<close>)
  have "next_flap recv = andThen (chopOffBuffer (recv\<lparr>m_out_pos := 6\<rparr>) new_buffer
      (ucast (word_of_nat (length bdy) :: u16) + 6)) (\<lambda>(b, sb). Inr (Flap c (advance 6 sb), b))"
    using assms p l by (subst next_flap_header [of recv c seq "word_of_nat (length bdy)" "bdy @ d"])
      (simp_all add: flap_bytes_def)
  also have "\<dots> = Inr (Flap c (flap_packet p), recv\<lparr>m_data := d, m_out_pos := 0\<rparr>)"
    using assms(1) p l6 length_flap_bytes [of p]
    by (simp add: chopOffBuffer_def flap_packet_def new_buffer_def buffer_of_bytes_def)
  finally show ?thesis
    using p by simp
qed

lemma next_flap_partial:
  assumes "flap_bytes p = m_data recv @ t" and "t \<noteq> []" and "m_data recv \<noteq> []" and "flap_ok p"
    and "m_endn recv = BIG"
  shows "\<exists>n. next_flap recv = Inr (Incomplete, recv\<lparr>m_out_pos := n\<rparr>)"
proof -
  obtain c seq bdy where p: "p = (c, seq, bdy)"
    by (cases p)
  let ?l = "word_of_nat (length bdy) :: u16"
  have l: "unat ?l = length bdy" and len: "length (m_data recv) < 2 ^ 31"
    using assms(4) arg_cong [OF assms(1), of length] p
    by (simp_all add: flap_ok_def unat_of_nat_u16 length_flap_bytes)
  show ?thesis
  proof (cases "length (m_data recv) < 6")
    case True
    obtain xs where x: "m_data recv = 42 # xs"
      using assms(1,3) p by (cases "m_data recv") (auto simp: flap_bytes_def)
    let ?b = "setPos 0 recv"
    have b: "wfb ?b" "unread ?b = 42 # xs"
      using start_of_frame [of recv] x len by simp_all
    have "wfb (advance 1 ?b)" "unread (advance 1 ?b) = xs"
      using b by (simp_all add: codec_simps)
    then have "remains (advance 1 ?b) < 5"
      using unat_remains True x by (simp add: word_less_nat_alt)
    moreover have "get_u8 ?b = Inr (42, advance 1 ?b)"
      by (rule get_u8_unread [OF b])
    ultimately show ?thesis
      by (auto simp: next_flap_def advance_def setPos_def)
  next
    case False
    have h: "flap_bytes p = (42 # c # enc16 BIG seq @ enc16 BIG ?l) @ bdy"
      by (simp add: p flap_bytes_def)
    obtain d where d: "m_data recv = (42 # c # enc16 BIG seq @ enc16 BIG ?l) @ d" "bdy = d @ t"
    proof
      show "m_data recv = (42 # c # enc16 BIG seq @ enc16 BIG ?l) @ drop 6 (m_data recv)"
        using False arg_cong [OF assms(1), of "take 6"]
        by (subst append_take_drop_id [of 6, symmetric]) (simp add: h)
      show "bdy = drop 6 (m_data recv) @ t"
        using False arg_cong [OF assms(1), of "drop 6"] by (simp add: h)
    qed
    then show ?thesis
      using next_flap_header [of recv c seq ?l d] assms(2,5) l len by auto
  qed
qed

section \<open>A frame that was written\<close>

text \<open>\<open>flap_frame\<close> around a function that appends.\<close>

lemma flap_frame_appends:
  assumes "\<And>b. fill b = Some (Inr (app bs b))" and "length (m_data b) + length bs + 6 < 2 ^ 32"
  shows "flap_frame c seq fill b =
    Some (Inr (app (flap_bytes (c, seq, bs)) (setBigEndian b)))"
proof -
  let ?b = "app [42, c] (setBigEndian b)"
  have "FLAPHeader c seq b = getAutoSizeShortMarker (app (enc16 BIG seq) ?b)"
    by (simp add: FLAPHeader_def Let_def put_app)
  also have "\<dots> = (marker_at (length (m_data b) + 4) BIG, app (enc16 BIG 0) (app (enc16 BIG seq) ?b))"
    by (simp add: short_marker_app eval_nat_numeral)
  finally have "flap_frame c seq fill b =
      Some (setAutoSizeMarker (marker_at (length (m_data b) + 4) BIG)
        (app bs (app (enc16 BIG 0) (app (enc16 BIG seq) ?b))))"
    by (simp add: flap_frame_def assms(1) FLAPFooter_def andThenO_def)
  also have "\<dots> = Some (Inr (app (flap_bytes (c, seq, bs)) (setBigEndian b)))"
    using assms(2) by (subst fill_marker) (simp_all add: flap_bytes_def app_def)
  finally show ?thesis .
qed

section \<open>The stream as a sequence of packets\<close>

definition handle_frames :: "client_env \<Rightarrow> flap list \<Rightarrow> unit cm" where
  "handle_frames E ps = eachM (\<lambda>p. handle_flap E (fst p) (flap_packet p)) ps"

definition part_of_frame :: "u8 list \<Rightarrow> bool" where
  "part_of_frame d \<longleftrightarrow> d = [] \<or> (\<exists>p t. flap_ok p \<and> flap_bytes p = d @ t \<and> t \<noteq> [])"

lemma parse_frames:
  assumes "m_data recv = concat (map flap_bytes ps) @ d" and "part_of_frame d" and "\<forall>p\<in>set ps. flap_ok p"
    and "length (m_data recv) < 2 ^ 31" and "m_endn recv = BIG"
  shows "\<exists>n rest. parse_flaps E recv s =
    (case handle_frames E ps s of
       (Inl e, s') \<Rightarrow> (Inl e, rest, s') | (Inr _, s') \<Rightarrow> (Inr (), recv\<lparr>m_data := d, m_out_pos := n\<rparr>, s'))"
  using assms(1,3,4,5)
proof (induction ps arbitrary: recv s)
  case Nil
  show ?case
  proof (cases "d = []")
    case True
    then show ?thesis
      using Nil by (intro exI [of _ "m_out_pos recv"])
        (simp add: parse_flaps.simps [of E recv s] buf_empty_def handle_frames_def)
  next
    case False
    then obtain q t where "flap_ok q" "flap_bytes q = m_data recv @ t" "t \<noteq> []"
      using assms(2) Nil by (auto simp: part_of_frame_def)
    then obtain n where "next_flap recv = Inr (Incomplete, recv\<lparr>m_out_pos := n\<rparr>)"
      using next_flap_partial [of q recv t] False Nil by auto
    then show ?thesis
      using Nil False by (intro exI [of _ n])
        (simp add: parse_flaps.simps [of E recv s] buf_empty_def handle_frames_def)
  qed
next
  case (Cons p ps)
  let ?r = "recv\<lparr>m_data := concat (map flap_bytes ps) @ d, m_out_pos := 0\<rparr>"
  have n: "next_flap recv = Inr (Flap (fst p) (flap_packet p), ?r)"
    using Cons.prems by (intro next_flap_frame) auto
  have ne: "\<not> buf_empty recv"
    using Cons.prems(1) by (simp add: buf_empty_def)
  obtain r1 s1 where h: "handle_flap E (fst p) (flap_packet p) s = (r1, s1)" by fastforce
  obtain m rest where ih: "parse_flaps E ?r s1 = (case handle_frames E ps s1 of
       (Inl e, s') \<Rightarrow> (Inl e, rest, s') | (Inr _, s') \<Rightarrow> (Inr (), ?r\<lparr>m_data := d, m_out_pos := m\<rparr>, s'))"
    using Cons.IH [of ?r s1] Cons.prems by auto
  show ?case
  proof (cases r1)
    case (Inl e)
    then show ?thesis
      using n ne h by (auto simp: parse_flaps.simps [of E recv s] handle_frames_def)
  next
    case (Inr x)
    then have "parse_flaps E recv s = parse_flaps E ?r s1"
      using n ne h by (simp add: parse_flaps.simps [of E recv s])
    moreover have "handle_frames E (p # ps) s = handle_frames E ps s1"
      using Inr h by (simp add: handle_frames_def)
    ultimately show ?thesis
      using ih by (intro exI [of _ m] exI [of _ rest]) (simp split: prod.splits sum.splits)
  qed
qed

section \<open>The receive loop\<close>

lemma kept_handle_frames: "stable (kept b os) (handle_frames E ps)"
  unfolding handle_frames_def by (intro stable_rules ok_rules)

text \<open>How many frames are complete after \<open>n\<close> bytes of the stream.\<close>

fun whole_frames :: "flap list \<Rightarrow> nat \<Rightarrow> nat" where
  "whole_frames [] n = 0"
| "whole_frames (p # ps) n =
     (if length (flap_bytes p) \<le> n then Suc (whole_frames ps (n - length (flap_bytes p))) else 0)"

text \<open>\<open>cut d ps\<close>: the bytes \<open>d\<close> are the beginning of the first frame, not all of it.\<close>

definition cut :: "u8 list \<Rightarrow> flap list \<Rightarrow> bool" where
  "cut d ps \<longleftrightarrow> d = [] \<or> (\<exists>p t ps'. ps = p # ps' \<and> flap_bytes p = d @ t \<and> t \<noteq> [])"

lemma cut_part: "cut d ps \<Longrightarrow> \<forall>p\<in>set ps. flap_ok p \<Longrightarrow> part_of_frame d"
  by (auto simp: cut_def part_of_frame_def)

lemma whole_frames_cut: "cut d ps \<Longrightarrow> whole_frames ps (length d) = 0"
proof -
  have "length (flap_bytes p) > 0" for p
    by simp
  then show "cut d ps \<Longrightarrow> whole_frames ps (length d) = 0"
    by (cases ps) (auto simp: cut_def simp del: flap_bytes_ne)
qed

lemma whole_frames_append:
  "whole_frames (qs @ ps) (length (concat (map flap_bytes qs)) + n) = length qs + whole_frames ps n"
  by (induction qs) (simp_all add: add.assoc)

lemma cut_all:
  assumes "d = concat (map flap_bytes ps)" and "cut d ps"
  shows "ps = []"
proof (cases ps)
  case (Cons p ps')
  then obtain t where "flap_bytes p = d @ t" "t \<noteq> []"
    using assms by (auto simp: cut_def)
  then show ?thesis
    using arg_cong [OF assms(1), of length] Cons by simp
qed

text \<open>
  After the first \<open>i\<close> pieces the loop has handled the frames that were complete then. It stops at an exception,
  when the socket is not connected, or when everything has been read.
\<close>

definition reads_up_to :: "client_env \<Rightarrow> flap list \<Rightarrow> (nat \<Rightarrow> nat) \<Rightarrow> nat \<Rightarrow> client \<Rightarrow> (exn + unit) \<Rightarrow> client \<Rightarrow> bool" where
  "reads_up_to E ps arrived i s r s' \<longleftrightarrow>
     handle_frames E (take (arrived i) ps) s = (r, s') \<and>
     (\<forall>j<i. \<exists>t. handle_frames E (take (arrived j) ps) s = (Inr (), t) \<and> cl_socket t = SOCK_CONNECTED)"

lemma reads_more:
  assumes "handle_frames E qs s = (Inr (), t)" and "reads_up_to E ps arr i t r s'"
    and "cl_socket s = SOCK_CONNECTED" and "arr' 0 = 0" and "\<And>j. arr' (Suc j) = length qs + arr j"
  shows "reads_up_to E (qs @ ps) arr' (Suc i) s r s'"
proof -
  have more: "handle_frames E (take (arr' (Suc j)) (qs @ ps)) s = handle_frames E (take (arr j) ps) t" for j
    using assms(1,5) by (simp add: handle_frames_def eachM_append)
  have "\<exists>t. handle_frames E (take (arr' j) (qs @ ps)) s = (Inr (), t) \<and> cl_socket t = SOCK_CONNECTED" if "j < Suc i" for j
  proof (cases j)
    case 0
    then show ?thesis
      using assms(3,4) by (simp add: handle_frames_def)
  next
    case (Suc k)
    then show ?thesis
      using that assms(2) more by (simp add: reads_up_to_def)
  qed
  then show ?thesis
    using assms(2) more by (simp add: reads_up_to_def)
qed

lemma recv_loop_frames:
  assumes "m_data (cl_recv s) = d" and "m_endn (cl_recv s) = BIG" and "cut d ps"
    and "d @ concat cs = concat (map flap_bytes ps)" and "\<forall>p\<in>set ps. flap_ok p" and "length (d @ concat cs) < 2 ^ 31"
  shows "\<exists>i r s' rest. i \<le> length cs \<and>
    reads_up_to E ps (\<lambda>j. whole_frames ps (length d + length (concat (take j cs)))) i (s\<lparr>cl_recv := new_buffer\<rparr>) r s' \<and>
    recv_loop E (map Some cs) s = (r, s'\<lparr>cl_recv := rest\<rparr>) \<and>
    (r = Inr () \<and> cl_socket s' = SOCK_CONNECTED \<longrightarrow> i = length cs \<and> take (whole_frames ps (length d + length (concat cs))) ps = ps \<and>
      m_data rest = [])"
  using assms
proof (induction cs arbitrary: s d ps)
  case Nil
  then have ps: "ps = []" "d = []"
    using cut_all [of d ps] by auto
  have "recv_loop E [] s = (Inr (), s\<lparr>cl_recv := new_buffer, cl_recv := cl_recv s\<rparr>)"
    by (cases "cl_socket s = SOCK_CONNECTED") simp_all
  then show ?case
    using Nil ps by (intro exI [of _ "0 :: nat"] exI [of _ "Inr ()"] exI [of _ "s\<lparr>cl_recv := new_buffer\<rparr>"] exI [of _ "cl_recv s"])
      (simp add: reads_up_to_def handle_frames_def del: recv_loop.simps)
next
  case (Cons c cs)
  let ?s0 = "s\<lparr>cl_recv := new_buffer\<rparr>" and ?arr = "\<lambda>j. whole_frames ps (length d + length (concat (take j (c # cs))))"
  have arr0: "?arr 0 = 0"
    using whole_frames_cut [OF Cons.prems(3)] by simp
  show ?case
  proof (cases "cl_socket s = SOCK_CONNECTED")
    case False
    then have "recv_loop E (map Some (c # cs)) s = (Inr (), ?s0\<lparr>cl_recv := cl_recv s\<rparr>)"
      by simp
    moreover have "reads_up_to E ps ?arr 0 ?s0 (Inr ()) ?s0"
      using arr0 by (simp add: reads_up_to_def handle_frames_def)
    ultimately show ?thesis
      using False by (intro exI [of _ "0 :: nat"] exI [of _ "Inr ()"] exI [of _ ?s0] exI [of _ "cl_recv s"])
        (simp del: recv_loop.simps)
  next
    case conn: True
    have "(d @ c) @ concat cs = concat (map flap_bytes ps)"
      using Cons.prems(4) by simp
    then obtain qs ps' d' where s: "ps = qs @ ps'" "d @ c = concat (map flap_bytes qs) @ d'"
      "d' = [] \<or> (\<exists>p t ps''. ps' = p # ps'' \<and> flap_bytes p = d' @ t \<and> t \<noteq> [])"
      by (rule split_frames)
    then have cut': "cut d' ps'" and ok: "\<forall>p\<in>set qs. flap_ok p" "\<forall>p\<in>set ps'. flap_ok p"
      using Cons.prems(5) by (auto simp: cut_def)
    have rest: "d' @ concat cs = concat (map flap_bytes ps')"
      using Cons.prems(4) s(1) arg_cong [OF s(2), of "\<lambda>x. x @ concat cs"] by simp
    have lens: "length d + length c = length (concat (map flap_bytes qs)) + length d'"
      using arg_cong [OF s(2), of length] by simp
    have arr: "?arr (Suc j) = length qs + whole_frames ps' (length d' + length (concat (take j cs)))" for j
    proof -
      have e: "length d + (length c + length (concat (take j cs))) =
          length (concat (map flap_bytes qs)) + (length d' + length (concat (take j cs)))"
        using lens by simp
      show ?thesis
        by (simp add: s(1) e whole_frames_append)
    qed
    let ?b = "pack_bytes c (cl_recv s)"
    have "length (d @ c) < 2 ^ 31"
      using Cons.prems(6) by simp
    then have "m_data ?b = concat (map flap_bytes qs) @ d'" "m_endn ?b = BIG" "length (m_data ?b) < 2 ^ 31"
      using Cons.prems(1,2) s(2) by (simp_all add: pack_bytes_def)
    then obtain n rest1 where P: "parse_flaps E ?b ?s0 = (case handle_frames E qs ?s0 of
        (Inl e, s') \<Rightarrow> (Inl e, rest1, s') | (Inr _, s') \<Rightarrow> (Inr (), ?b\<lparr>m_data := d', m_out_pos := n\<rparr>, s'))"
      using parse_frames [of ?b qs d' E ?s0] cut_part [OF cut' ok(2)] ok(1) by blast
    obtain r1 s1 where h: "handle_frames E qs ?s0 = (r1, s1)"
      by fastforce
    have loop: "recv_loop E (map Some (c # cs)) s = thenM (Client_Parse E) (\<lambda>_. recv_loop E (map Some cs)) (s\<lparr>cl_recv := ?b\<rparr>)"
      using conn by simp
    show ?thesis
    proof (cases r1)
      case (Inl e)
      have "recv_loop E (map Some (c # cs)) s = (Inl e, s1\<lparr>cl_recv := rest1\<rparr>)"
        unfolding loop using P h Inl by (simp add: Client_Parse_def thenM_def)
      moreover have "reads_up_to E ps ?arr 1 ?s0 (Inl e) s1"
        using arr [of 0] arr0 whole_frames_cut [OF cut'] h Inl conn s(1) by (simp add: reads_up_to_def) (simp add: handle_frames_def)
      ultimately show ?thesis
        by (intro exI [of _ "1 :: nat"] exI [of _ "Inl e"] exI [of _ s1] exI [of _ rest1]) (simp del: recv_loop.simps)
    next
      case (Inr x)
      let ?r = "?b\<lparr>m_data := d', m_out_pos := n\<rparr>"
      have "cl_recv s1 = new_buffer"
        using stableD [OF kept_handle_frames [of new_buffer "cl_out s"] _ h] by (simp add: kept_def)
      then have again: "s1\<lparr>cl_recv := ?r, cl_recv := new_buffer\<rparr> = s1"
        by (cases s1) simp
      have loop': "recv_loop E (map Some (c # cs)) s = recv_loop E (map Some cs) (s1\<lparr>cl_recv := ?r\<rparr>)"
        unfolding loop using P h Inr by (simp add: Client_Parse_def thenM_def del: recv_loop.simps)
      obtain i r s' rst where ih: "i \<le> length cs"
        "reads_up_to E ps' (\<lambda>j. whole_frames ps' (length d' + length (concat (take j cs)))) i s1 r s'"
        "recv_loop E (map Some cs) (s1\<lparr>cl_recv := ?r\<rparr>) = (r, s'\<lparr>cl_recv := rst\<rparr>)"
        "r = Inr () \<and> cl_socket s' = SOCK_CONNECTED \<longrightarrow> i = length cs \<and>
          take (whole_frames ps' (length d' + length (concat cs))) ps' = ps' \<and> m_data rst = []"
      proof -
        have "m_data (cl_recv (s1\<lparr>cl_recv := ?r\<rparr>)) = d'" "m_endn (cl_recv (s1\<lparr>cl_recv := ?r\<rparr>)) = BIG"
          "length (d' @ concat cs) < 2 ^ 31"
          using Cons.prems(2,6) lens by (simp_all add: pack_bytes_def)
        from Cons.IH [OF this(1,2) cut' rest ok(2) this(3)] show ?thesis
          unfolding again using that by blast
      qed
      have h': "handle_frames E qs ?s0 = (Inr (), s1)"
        using h Inr by simp
      have "reads_up_to E ps ?arr (Suc i) ?s0 r s'"
        unfolding s(1) by (rule reads_more [OF h' ih(2)]) (use conn arr arr0 s(1) in simp_all)
      then show ?thesis
        using ih(1,3,4) loop' arr [of "length cs"] s(1)
        by (intro exI [of _ "Suc i"] exI [of _ r] exI [of _ s'] exI [of _ rst]) (simp del: recv_loop.simps)
    qed
  qed
qed

section \<open>Properties\<close>

text \<open>C7: The frame the client puts around what is appended to a buffer is taken from the stream again: the
  receive loop gets the channel and the bytes, positioned behind the header, and keeps what follows.\<close>

theorem flap_roundtrip:
  assumes "\<And>b. fill b = Some (Inr (app bs b))" and "length bs < 2 ^ 16" and "length xs < 2 ^ 30"
  shows "\<exists>b. flap_frame c seq fill new_buffer = Some (Inr b) \<and>
    next_flap (pack_bytes xs b) = Inr (Flap c (flap_packet (c, seq, bs)), buffer_of_bytes xs)"
proof (intro exI conjI)
  let ?b = "app (flap_bytes (c, seq, bs)) (setBigEndian new_buffer)"
  show "flap_frame c seq fill new_buffer = Some (Inr ?b)"
    using assms by (intro flap_frame_appends) (simp_all add: new_buffer_def)
  have "next_flap (pack_bytes xs ?b) =
      Inr (Flap (fst (c, seq, bs)) (flap_packet (c, seq, bs)), (pack_bytes xs ?b)\<lparr>m_data := xs, m_out_pos := 0\<rparr>)"
    using assms(2,3) by (intro next_flap_frame) (simp_all add: pack_bytes_def flap_ok_def length_flap_bytes)
  then show "next_flap (pack_bytes xs ?b) = Inr (Flap c (flap_packet (c, seq, bs)), buffer_of_bytes xs)"
    by (simp add: pack_bytes_def app_def setBigEndian_def new_buffer_def buffer_of_bytes_def)
qed

theorem flap_roundtrip_witness:
  "\<exists>b. flap_frame 2 7 (\<lambda>b. Some (Inr (app [1, 2] b))) new_buffer = Some (Inr b) \<and>
    next_flap (pack_bytes [42] b) = Inr (Flap 2 (flap_packet (2, 7, [1, 2])), buffer_of_bytes [42])"
  using flap_roundtrip [of "\<lambda>b. Some (Inr (app [1, 2] b))" "[1, 2]" "[42]" 2 7] by simp

text \<open>C4: However the stream from the server is cut into pieces, receiving handles its packets one after the other in
  their order, each when its last byte is there: after the first \<open>i\<close> pieces the client is in the state in which
  handling the packets complete by then leaves it. It goes on to the next piece as long as there was no
  exception and the socket is connected. If it gets to the end with the socket connected every packet has
  been handled and nothing is left in the receive buffer; an exception of the socket disconnects the client, any
  other is passed on.\<close>

theorem server_stream_as_packets:
  assumes "concat cs = concat (map flap_bytes ps)" and "\<forall>p\<in>set ps. flap_ok p" and "length (concat cs) < 2 ^ 31"
    and "cl_recv s = new_buffer"
  shows "\<exists>i r s' rest. i \<le> length cs \<and>
    handle_frames E (take (whole_frames ps (length (concat (take i cs)))) ps) s = (r, s') \<and>
    (\<forall>j<i. \<exists>t. handle_frames E (take (whole_frames ps (length (concat (take j cs)))) ps) s = (Inr (), t) \<and>
       cl_socket t = SOCK_CONNECTED) \<and>
    RecvFromServer E (map Some cs) s =
      (if r = Inl SocketError then Client_Disconnect E FAILED_LOWLEVEL (s'\<lparr>cl_recv := rest\<rparr>) else (r, s'\<lparr>cl_recv := rest\<rparr>)) \<and>
    (r = Inr () \<and> cl_socket s' = SOCK_CONNECTED \<longrightarrow> handle_frames E ps s = (Inr (), s') \<and> m_data rest = [])"
proof -
  have s: "s\<lparr>cl_recv := new_buffer\<rparr> = s"
    using assms(4) by (cases s) simp
  obtain i r s' rest where l: "i \<le> length cs"
    "reads_up_to E ps (\<lambda>j. whole_frames ps (length (concat (take j cs)))) i s r s'"
    "recv_loop E (map Some cs) s = (r, s'\<lparr>cl_recv := rest\<rparr>)"
    "r = Inr () \<and> cl_socket s' = SOCK_CONNECTED \<longrightarrow> i = length cs \<and>
      take (whole_frames ps (length (concat cs))) ps = ps \<and> m_data rest = []"
  proof -
    have "m_data (cl_recv s) = []" "m_endn (cl_recv s) = BIG" "cut [] ps" "[] @ concat cs = concat (map flap_bytes ps)"
      "length ([] @ concat cs) < 2 ^ 31"
      using assms by (simp_all add: new_buffer_def cut_def)
    from recv_loop_frames [OF this(1-4) assms(2) this(5), of E] show ?thesis
      unfolding s list.size(3) add_0 using that by blast
  qed
  have "RecvFromServer E (map Some cs) s =
      (if r = Inl SocketError then Client_Disconnect E FAILED_LOWLEVEL (s'\<lparr>cl_recv := rest\<rparr>) else (r, s'\<lparr>cl_recv := rest\<rparr>))"
    using l(3) by (cases r) (simp_all add: RecvFromServer_def)
  then show ?thesis
    using l unfolding reads_up_to_def by (intro exI [of _ i] exI [of _ r] exI [of _ s'] exI [of _ rest]) auto
qed

theorem server_stream_as_packets_witness:
  "\<forall>mh. \<exists>rest. RecvFromServer demo_env [Some [42, 3], Some [0, 9, 0, 1, 5, 42, 3], Some [0, 10, 0, 0]]
      ((new_client demo_env mh ''secret'')\<lparr>cl_socket := SOCK_CONNECTED\<rparr>) =
    (Inr (), (new_client demo_env mh ''secret'')\<lparr>cl_socket := SOCK_CONNECTED, cl_recv := rest\<rparr>) \<and> m_data rest = []"
proof
  fix mh
  let ?s = "(new_client demo_env mh ''secret'')\<lparr>cl_socket := SOCK_CONNECTED\<rparr>" and ?ps = "[(3, 9, [5]), (3, 10, [])] :: flap list"
  have c: "concat [[42, 3], [0, 9, 0, 1, 5, 42, 3], [0, 10, 0, 0]] = concat (map flap_bytes ?ps)"
    by (simp add: flap_bytes_def octet_def)
  have h: "handle_frames E (take n ?ps) t = (Inr (), t)" for E n t
  proof -
    have "handle_frames E ps t = (Inr (), t)" if "\<forall>p\<in>set ps. fst p = 3" for ps
      using that by (induction ps) (simp_all add: handle_frames_def handle_flap_def ParseCh3_def)
    moreover have "\<forall>p\<in>set (take n ?ps). fst p = 3"
      by (auto dest: in_set_takeD)
    ultimately show ?thesis
      by blast
  qed
  from server_stream_as_packets [OF c, of ?s demo_env]
  obtain rest where "RecvFromServer demo_env (map Some [[42, 3], [0, 9, 0, 1, 5, 42, 3], [0, 10, 0, 0]]) ?s = (Inr (), ?s\<lparr>cl_recv := rest\<rparr>)"
    "m_data rest = []"
    unfolding h by (auto simp: flap_ok_def new_client_def)
  then show "\<exists>rest. RecvFromServer demo_env [Some [42, 3], Some [0, 9, 0, 1, 5, 42, 3], Some [0, 10, 0, 0]] ?s =
      (Inr (), ?s\<lparr>cl_recv := rest\<rparr>) \<and> m_data rest = []"
    by auto
qed

end
