(* ===== verification/ServerLogin.thy ===== *)
theory ServerLogin
  imports SessionOutput
begin

text \<open>
  How much the packets of the login write, that they are sent when the connection holds, and that the
  answers of the server then lead to a client that is on line.
\<close>

section \<open>Bounds on what is written\<close>

text \<open>\<open>adds n f\<close>: the function appends at most \<open>n\<close> bytes.\<close>

definition adds :: "nat \<Rightarrow> (buffer \<Rightarrow> buffer) \<Rightarrow> bool" where
  "adds n f \<longleftrightarrow> (\<forall>b. \<exists>bs. m_data (f b) = m_data b @ bs \<and> length bs \<le> n)"

lemma adds_mono: "adds n f \<Longrightarrow> n \<le> m \<Longrightarrow> adds m f"
  unfolding adds_def by (meson order_trans)

lemma adds_then: "adds n f \<Longrightarrow> adds m g \<Longrightarrow> adds (n + m) (\<lambda>b. g (f b))"
  unfolding adds_def by (metis add_mono append_assoc length_append)

lemma adds_id: "adds n (\<lambda>b. b)"
  by (simp add: adds_def)

lemma adds_fold: "\<forall>x\<in>set xs. adds n (f x) \<Longrightarrow> adds (length xs * n) (fold f xs)"
proof (induction xs)
  case (Cons x xs)
  then have "adds (n + length xs * n) (\<lambda>b. fold f xs (f x b))"
    by (intro adds_then) simp_all
  then show ?case
    by (simp add: comp_def)
qed (simp add: adds_def)

lemma adds_words: "adds (2 * length ws) (fold put_u16 ws)" "adds (4 * length vs) (fold put_u32 vs)"
  using adds_fold [of ws 2 put_u16] adds_fold [of vs 4 put_u32]
  by (simp_all add: adds_def put_app mult.commute)

lemma default_flags: "flag_list (default_icq2000_capabilities new_capabilities) = [Cap_ICQ, Cap_ICQServerRelay]"
proof -
  have "m_flags (default_icq2000_capabilities new_capabilities) = {Cap_ICQ, Cap_ICQServerRelay}"
    by (auto simp: default_icq2000_capabilities_def set_capability_flag_def caps_clear_def)
  then show ?thesis
    by (simp add: flag_list_def all_flags_def)
qed

lemma adds_tlvs:
  "adds 64 (TLV_Output (OutStatus x))" "adds 64 (TLV_Output (OutUnknown v))"
  "adds 64 (TLV_Output (OutLANDetails (lan_details_of ip port)))" "adds 64 (TLV_Output new_UserInfoCapabilitiesTLV)"
  unfolding adds_def
  by (simp_all add: TLV_Output_def OutputValue_def StatusTLV_OutputValue_def ShortTLV_OutputValue_def
      LANDetailsTLV_OutputValue_def lan_details_of_def new_lan_details_def put_app new_buffer_def
      new_UserInfoCapabilitiesTLV_def UserInfoCapabilitiesTLV_OutputValue_def caps_output_emit default_flags)

definition buddies_size :: "string list \<Rightarrow> nat" where
  "buddies_size bs = sum_list (map (\<lambda>s. length s + 1) bs)"

lemma adds_buddies: "adds (buddies_size bs) (BuddyList_OutputBody bs)"
proof (induction bs)
  case (Cons s bs)
  have "adds (length s + 1) (put_buddy s)"
    by (simp add: adds_def put_buddy_def put_app put_string_app)
  then have "adds (length s + 1 + buddies_size bs) (\<lambda>b. BuddyList_OutputBody bs (put_buddy s b))"
    using Cons by (rule adds_then)
  then show ?case
    by (simp add: BuddyList_OutputBody_def buddies_size_def)
qed (simp add: adds_def BuddyList_OutputBody_def buddies_size_def)

section \<open>SNACs that are written\<close>

text \<open>\<open>writes n x\<close>: the SNAC is written, in at most \<open>n\<close> bytes.\<close>

definition writes :: "string \<Rightarrow> nat \<Rightarrow> out_snac \<Rightarrow> bool" where
  "writes timestr n x \<longleftrightarrow>
     (\<forall>b. length (m_data b) + n < 2 ^ 30 \<longrightarrow>
        (\<exists>b' bs. out_snac_Output timestr x b = Some (Inr b') \<and> m_data b' = m_data b @ bs \<and> length bs \<le> n))"

lemma header_adds: "adds 10 (OutSNAC_OutputHeader h)"
  by (simp add: adds_def OutSNAC_OutputHeader_def put_app)

lemma writesI:
  assumes "\<And>b. out_snac_body timestr x b = Some (Inr (f b))" and "adds m f" and "10 + m \<le> n"
  shows "writes timestr n x"
  unfolding writes_def
proof (intro allI impI)
  fix b
  obtain bs where "m_data (f (OutSNAC_OutputHeader (out_header x) b)) = m_data b @ bs" "length bs \<le> 10 + m"
    using adds_then [OF header_adds assms(2)] unfolding adds_def by blast
  then show "\<exists>b' bs. out_snac_Output timestr x b = Some (Inr b') \<and> m_data b' = m_data b @ bs \<and> length bs \<le> n"
    using assms(1,3) by (auto simp: out_snac_Output_def OutSNAC_Output_def)
qed

lemma adds_bodies:
  "adds 246 ClientReadySNAC_OutputBody" "adds 246 RateInfoAckSNAC_OutputBody"
  "adds 246 CapabilitiesSNAC_OutputBody" "adds 246 SetUserInfoSNAC_OutputBody"
  "adds 246 (MsgAddICBMParameterSNAC_OutputBody typing)" "adds 246 (\<lambda>b. b)"
  unfolding ClientReadySNAC_OutputBody_def [abs_def] RateInfoAckSNAC_OutputBody_def [abs_def]
    CapabilitiesSNAC_OutputBody_def [abs_def] SetUserInfoSNAC_OutputBody_def [abs_def] Let_def
    MsgAddICBMParameterSNAC_OutputBody_def [abs_def]
  by (rule adds_mono [OF adds_words(2)] adds_mono [OF adds_words(1)] adds_mono [OF adds_tlvs(4)] adds_id, simp)+
    (simp add: adds_def put_app, rule adds_id)

lemma writes_fixed:
  "writes ts 256 ClientReady_Out" "writes ts 256 RequestRateInfo_Out" "writes ts 256 RateInfoAck_Out"
  "writes ts 256 PersonalInfoRequest_Out" "writes ts 256 Capabilities_Out" "writes ts 256 SetUserInfo_Out"
  "writes ts 256 (MsgAddICBMParameter_Out typing)" "writes ts 256 SBLRequestRights_Out"
  "writes ts 256 SBLRequestList_Out"
  by (rule writesI, rule out_snac_body.simps, rule adds_bodies, simp)+

lemma writes_buddies:
  assumes "buddies_size bs + 10 \<le> n"
  shows "writes ts n (AddBuddy_Out bs)" "writes ts n (AddVisible_Out bs)" "writes ts n (AddInvisible_Out bs)"
  using assms by (auto intro!: writesI adds_buddies)

lemma writes_status:
  "writes ts 256 (SetStatus_Out ((new_set_status st wa)\<lparr>ss_sendextra := True, ss_ip := Some ip, ss_port := Some port\<rparr>))"
proof (rule writesI)
  let ?ts = "[OutStatus \<lparr>m_allowDirect = ALLOWDIRECT_EVERYONE,
      m_webAware = (if wa then WEBAWARE_WEBAWARE else WEBAWARE_NORMAL), st_status = st\<rparr>, OutUnknown 0,
    OutLANDetails (lan_details_of ip port)]"
  show "out_snac_body ts (SetStatus_Out ((new_set_status st wa)\<lparr>ss_sendextra := True, ss_ip := Some ip,
      ss_port := Some port\<rparr>)) b = Some (Inr (fold TLV_Output ?ts b))" for b
    by (simp add: SetStatusSNAC_OutputBody_def SetStatusSNAC_tlvs_def new_set_status_def)
  show "adds (length ?ts * 64) (fold TLV_Output ?ts)"
    using adds_tlvs by (intro adds_fold) auto
qed simp

lemma writes_offline: "writes ts 256 (Srv_Out (SrvRequestOffline uin) rid)"
proof (rule writesI)
  show "out_snac_body ts (Srv_Out (SrvRequestOffline uin) rid) b = Some (Inr (SrvRequestOfflineSNAC_OutputBody uin rid b))" for b
    by simp
  show "adds 64 (SrvRequestOfflineSNAC_OutputBody uin rid)"
    by (simp add: adds_def SrvRequestOfflineSNAC_OutputBody_def SrvOffline_OutputBody_def put_app Let_def)
qed simp

section \<open>Sending\<close>

text \<open>The sequence number after \<open>q\<close>.\<close>

definition next_seq :: "u16 \<Rightarrow> u16" where
  "next_seq q = (q + 1) AND 0x7fff"

text \<open>
  \<open>frames E q xs b\<close>: the frames of the SNACs, numbered on from \<open>q\<close>, behind what is in the buffer. \<open>packets\<close> are
  the outputs when every list of SNACs is sent as one buffer. The results start with the last number used.
\<close>

primrec frames :: "client_env \<Rightarrow> u16 \<Rightarrow> out_snac list \<Rightarrow> buffer \<Rightarrow> (u16 \<times> buffer) option" where
  "frames E q [] b = Some (q, b)"
| "frames E q (x # xs) b =
     (case flap_frame 2 (next_seq q) (out_snac_Output (ce_timestr E) x) b of
        Some (Inr b) \<Rightarrow> frames E (next_seq q) xs b
      | _ \<Rightarrow> None)"



text \<open>A frame is put into the buffer and the sequence number counts on; nothing else changes.\<close>

lemma FLAPwrapSNAC_writes:
  assumes "writes (ce_timestr E) n x" and "length (m_data b) + n + 6 < 2 ^ 30" and "cl_client_seq_num s = Some q"
  obtains b' where "FLAPwrapSNAC E x b s = (Inr b', s\<lparr>cl_client_seq_num := Some ((q + 1) AND 0x7fff)\<rparr>)"
    and "length (m_data b') \<le> length (m_data b) + n + 6"
    and "flap_frame 2 (next_seq q) (out_snac_Output (ce_timestr E) x) b = Some (Inr b')"
proof -
  let ?q = "(q + 1) AND 0x7fff" and ?l = "length (m_data b)"
  let ?b = "app (enc16 BIG 0) (app (enc16 BIG ?q) (app [42, 2] (setBigEndian b)))"
  have h: "FLAPHeader 2 ?q b = (marker_at (?l + 4) BIG, ?b)"
    by (simp add: FLAPHeader_def Let_def put_app short_marker_app eval_nat_numeral)
  have "length (m_data ?b) + n < 2 ^ 30"
    using assms(2) by simp
  then obtain b1 bs where b1: "out_snac_Output (ce_timestr E) x ?b = Some (Inr b1)" "m_data b1 = m_data ?b @ bs"
    "length bs \<le> n"
    using assms(1) unfolding writes_def by blast
  have "\<exists>b2. setAutoSizeMarker (marker_at (?l + 4) BIG) b1 = Inr b2 \<and> length (m_data b2) = length (m_data b1)"
    using assms(2) b1(2,3) fill_marker [of "?l + 4" b1 BIG] by simp
  then obtain b2 where b2: "FLAPFooter (marker_at (?l + 4) BIG) b1 = Inr b2" "length (m_data b2) = length (m_data b1)"
    by (auto simp: FLAPFooter_def)
  have f: "flap_frame 2 ?q (out_snac_Output (ce_timestr E) x) b = Some (Inr b2)"
    unfolding flap_frame_def h prod.case b1(1) by (simp add: b2(1) andThenO_def)
  then have "FLAPwrapSNAC E x b s = (Inr b2, s\<lparr>cl_client_seq_num := Some ?q\<rparr>)"
    using assms(3) by (simp add: FLAPwrapSNAC_def put_flap_def Client_NextSeqNum_def Let_def)
  moreover have "length (m_data b2) \<le> ?l + n + 6"
    using b1(2,3) b2(2) by simp
  moreover have "flap_frame 2 (next_seq q) (out_snac_Output (ce_timestr E) x) b = Some (Inr b2)"
    using f by (simp only: next_seq_def)
  ultimately show ?thesis
    by (rule that)
qed

lemma send_snacs_writes:
  assumes "\<forall>x\<in>set xs. writes (ce_timestr E) n x" and "length (m_data b) + length xs * (n + 6) < 2 ^ 30"
    and "cl_client_seq_num s = Some q"
  shows "\<exists>b' q'. send_snacs E xs b s = (Inr b', s\<lparr>cl_client_seq_num := Some q'\<rparr>) \<and> frames E q xs b = Some (q', b')"
proof -
  have wraps: "\<exists>b' q'. fold (\<lambda>x m. thenM m (FLAPwrapSNAC E x)) xs m s0 = (Inr b', s\<lparr>cl_client_seq_num := Some q'\<rparr>) \<and>
      frames E q xs b = Some (q', b')"
    if "m s0 = (Inr b, s\<lparr>cl_client_seq_num := Some q\<rparr>)" "length (m_data b) + length xs * (n + 6) < 2 ^ 30"
      "\<forall>x\<in>set xs. writes (ce_timestr E) n x" for m s0 b q
    using that
  proof (induction xs arbitrary: m b q)
    case Nil
    then show ?case
      by (intro exI [of _ b] exI [of _ q]) simp
  next
    case (Cons x xs)
    have "writes (ce_timestr E) n x" "length (m_data b) + n + 6 < 2 ^ 30"
      "cl_client_seq_num (s\<lparr>cl_client_seq_num := Some q\<rparr>) = Some q"
      using Cons.prems by simp_all
    then obtain b' where b': "FLAPwrapSNAC E x b (s\<lparr>cl_client_seq_num := Some q\<rparr>) =
        (Inr b', s\<lparr>cl_client_seq_num := Some q, cl_client_seq_num := Some ((q + 1) AND 0x7fff)\<rparr>)"
      "length (m_data b') \<le> length (m_data b) + n + 6"
      "flap_frame 2 (next_seq q) (out_snac_Output (ce_timestr E) x) b = Some (Inr b')"
      by (rule FLAPwrapSNAC_writes)
    have m: "thenM m (FLAPwrapSNAC E x) s0 = (Inr b', s\<lparr>cl_client_seq_num := Some (next_seq q)\<rparr>)"
      using Cons.prems(1) b'(1) by (simp add: next_seq_def)
    have "\<exists>c q'. fold (\<lambda>x m. thenM m (FLAPwrapSNAC E x)) xs (thenM m (FLAPwrapSNAC E x)) s0 =
        (Inr c, s\<lparr>cl_client_seq_num := Some q'\<rparr>) \<and> frames E (next_seq q) xs b' = Some (q', c)"
      using Cons.prems(2,3) b'(2) by (intro Cons.IH [of "thenM m (FLAPwrapSNAC E x)" b' "next_seq q"] m) simp_all
    then show ?case
      by (simp add: b'(3))
  qed
  have "s\<lparr>cl_client_seq_num := Some q\<rparr> = s"
    using assms(3) by (cases s) simp
  then show ?thesis
    using wraps [of "ret b" s b q] assms(1,2) by (simp add: send_snacs_def)
qed













section \<open>The last step of the login\<close>

definition small_lists :: "client \<Rightarrow> bool" where
  "small_lists s \<longleftrightarrow>
     (let store = mh_store (cl_mh s) in
      buddies_size (buddies_of_tree store (mh_tree (cl_mh s))) < 2 ^ 20 \<and>
      buddies_size (buddies_of_list store (cl_visible_list s)) < 2 ^ 20 \<and>
      buddies_size (buddies_of_list store (cl_invisible_list s)) < 2 ^ 20)"

lemma writes_mono: "writes ts n x \<Longrightarrow> n \<le> m \<Longrightarrow> writes ts m x"
  unfolding writes_def by (meson add_left_mono le_less_trans order_trans)

lemma login_snacs_written:
  assumes "small_lists s"
  shows "\<forall>x\<in>set (login_snacs E port s). writes ts (2 ^ 20 + 256) x" and "length (login_snacs E port s) \<le> 6"
proof -
  note w = writes_mono [OF writes_fixed(1)] writes_mono [OF writes_status] writes_mono [OF writes_offline]
  show "\<forall>x\<in>set (login_snacs E port s). writes ts (2 ^ 20 + 256) x"
    using assms by (auto simp: login_snacs_def small_lists_def Let_def intro!: w writes_buddies)
  show "length (login_snacs E port s) \<le> 6"
    by (simp add: login_snacs_def Let_def)
qed









text \<open>A session with a client that knows nobody.\<close>

definition demo_session :: client where
  "demo_session = (new_client demo_env sample_handler ''secret'')\<lparr>cl_state := BOS_AWAITING_LOGIN_REPLY,
     cl_socket := SOCK_CONNECTED, cl_socket_fd := 5, cl_client_seq_num := Some 9, cl_requestid := Some 3\<rparr>"

lemma demo_session_eval:
  "cl_state demo_session = BOS_AWAITING_LOGIN_REPLY" "cl_socket demo_session = SOCK_CONNECTED"
  "cl_client_seq_num demo_session = Some 9" "\<not> cl_listening demo_session" "small_lists demo_session"
  by (simp_all add: demo_session_def new_client_def small_lists_def buddies_of_tree_def buddies_of_list_def
      icq_uins_def buddies_size_def sample_handler_def new_contact_tree_def new_contact_list_def Let_def)



section \<open>When the connection fails\<close>

interpretation broken: client_invariant "\<lambda>s. cl_socket s \<noteq> SOCK_CONNECTED"
  by unfold_locales (auto simp: passing_defs)

lemma broken_Client_Disconnect: "stable (\<lambda>s. cl_socket s \<noteq> SOCK_CONNECTED) (Client_Disconnect E r)"
  unfolding Client_Disconnect_def DisconnectAuthorizer_def DisconnectBOS_def remove_server_socket_def
    remove_listen_socket_def TCPServer_Disconnect_def to_state_def Send_or_def
  by (intro stable_rules ok_rules; simp)

lemma query_eval: "query f s = (Inr (f (cl_tick s)), s\<lparr>cl_tick := Suc (cl_tick s)\<rparr>)"
  by (simp add: query_def)

text \<open>After a send that fails the socket is not connected.\<close>

lemma TCPSocket_Send_fails:
  assumes "\<forall>n. \<not> ce_sends E n"
  shows "\<exists>t. TCPSocket_Send E b s = (Inl SocketError, t) \<and> cl_socket t \<noteq> SOCK_CONNECTED"
  using assms by (cases "cl_socket s = SOCK_CONNECTED") (simp_all add: TCPSocket_Send_def query_eval set_socket_def thenM_def)

lemma Client_Send_fails:
  assumes "\<forall>n. \<not> ce_sends E n" and "Client_Send E b s = (r, s')"
  shows "cl_socket s' \<noteq> SOCK_CONNECTED"
proof -
  obtain t where t: "TCPSocket_Send E b s = (Inl SocketError, t)" "cl_socket t \<noteq> SOCK_CONNECTED"
    using TCPSocket_Send_fails [OF assms(1)] by blast
  then have "Client_Disconnect E FAILED_LOWLEVEL t = (r, s')"
    using assms(2) by (simp add: Client_Send_def Send_or_def)
  then show ?thesis
    using t(2) stableD [OF broken_Client_Disconnect] by blast
qed

text \<open>The disconnection that follows is announced, if there was a connection in the eyes of the client.\<close>

lemma Client_Disconnect_announces:
  assumes "Client_Disconnect E r s = (Inr (), s')" and "cl_state s \<noteq> CL_NOT_CONNECTED"
  shows "\<exists>os os'. cl_out s' = cl_out s @ os @ DisconnectedEv r # os'"
proof -
  obtain t where t: "(if authorizing (cl_state s) then DisconnectAuthorizer else DisconnectBOS E) s = (Inr (), t)"
    "SignalDisconnect E r t = (Inr (), s')"
    using assms by (auto simp: Client_Disconnect_def thenM_eq_Inr)
  have "kept (cl_recv s) (cl_out s) t"
    using t(1) kept_start stableD [OF kept_disconnects(1)] stableD [OF kept_disconnects(2)]
    by (metis (full_types))
  moreover have "kept (cl_recv t) (cl_out t @ [DisconnectedEv r]) s'"
  proof -
    let ?rest = "thenM (gets (\<lambda>s. mh_self (cl_mh s))) (\<lambda>self. thenM (set_offline E self) (\<lambda>_.
      thenM (gets (\<lambda>s. tree_refs (mh_tree (cl_mh s)))) (eachM (set_offline E))))"
    have "?rest (t\<lparr>cl_out := cl_out t @ [DisconnectedEv r]\<rparr>) = (Inr (), s')"
      using t(2) by (simp add: SignalDisconnect_def emit_out_def)
    moreover have "stable (kept (cl_recv t) (cl_out t @ [DisconnectedEv r])) ?rest"
      by (intro stable_rules ok_rules)
    ultimately show ?thesis
      by (rule stableD [rotated 2]) (simp add: kept_def)
  qed
  ultimately obtain os os' where "cl_out t = cl_out s @ os" "cl_out s' = (cl_out t @ [DisconnectedEv r]) @ os'"
    by (auto simp only: kept_def)
  then have "cl_out s' = cl_out s @ os @ DisconnectedEv r # os'"
    by simp
  then show ?thesis
    by blast
qed

lemma Client_Send_announces:
  assumes "\<forall>n. \<not> ce_sends E n" and "Client_Send E b s = (Inr (), s')" and "cl_state s \<noteq> CL_NOT_CONNECTED"
  shows "\<exists>os os'. cl_out s' = cl_out s @ os @ DisconnectedEv FAILED_LOWLEVEL # os'"
proof -
  obtain t where t: "TCPSocket_Send E b s = (Inl SocketError, t)" "cl_state t = cl_state s" "cl_out t = cl_out s"
    using assms(1) by (cases "cl_socket s = SOCK_CONNECTED")
      (simp_all add: TCPSocket_Send_def query_eval set_socket_def thenM_def)
  then show ?thesis
    using Client_Disconnect_announces [of E FAILED_LOWLEVEL t s'] assms(2,3)
    by (simp add: Client_Send_def Send_or_def)
qed

interpretation same_state: client_invariant "\<lambda>s. cl_state s = st" for st
  by unfold_locales (auto simp: passing_defs)

lemma start_listening_state: "stable (\<lambda>s. cl_state s = st) (start_listening E)"
  unfolding start_listening_def TCPServer_setBindHost_def TCPServer_StartServer_def bind_host_def look_up_def
  by (intro stable_rules ok_rules; (split listen_result.split, intro allI impI conjI stable_rules)?; simp)

text \<open>C17: When the connection breaks while the client sends the last packets of the login, it disconnects and tells
  the application so, and then declares itself on line all the same: the state is that of a session, the
  last event, after that of the disconnection, is that of success, and the socket is not connected.\<close>

theorem failed_login_reported_as_connected:
  assumes "\<forall>n. \<not> ce_sends E n" and "SendLogin E s = (Inr (), s')" and "cl_state s \<noteq> CL_NOT_CONNECTED"
  shows "cl_state s' = BOS_LOGGED_IN \<and> cl_socket s' \<noteq> SOCK_CONNECTED \<and>
    (\<exists>os os'. cl_out s' = cl_out s @ os @ DisconnectedEv FAILED_LOWLEVEL # os' @ [ConnectedEv])"
proof -
  obtain b t t0 port u where u: "start_listening E s = (Inr (), t0)"
    "send_snacs E (login_snacs E port t0) new_buffer t0 = (Inr b, t)"
    "Client_Send E b t = (Inr (), u)" "cl_state s' = BOS_LOGGED_IN"
    "cl_out s' = cl_out u @ [ConnectedEv]" "cl_socket s' = cl_socket u"
    using assms(2) by (auto simp: SendLogin_def SignalConnect_def to_state_def emit_out_def thenM_eq_Inr read_def
        split: if_splits option.splits)
  have t0: "kept (cl_recv s) (cl_out s) t0" "cl_state t0 = cl_state s"
    using u(1) kept_start stableD [OF kept_login_packets(13)] stableD [OF start_listening_state] by blast+
  have t: "kept (cl_recv s) (cl_out s) t" "cl_state t = cl_state s"
    using u(2) t0 stableD [OF kept.ok_send_snacs] stableD [OF same_state.ok_send_snacs] by blast+
  obtain os os' where "cl_out u = cl_out t @ os @ DisconnectedEv FAILED_LOWLEVEL # os'"
    using Client_Send_announces [OF assms(1) u(3)] t(2) assms(3) by auto
  moreover obtain os'' where "cl_out t = cl_out s @ os''"
    using t(1) by (auto simp: kept_def)
  ultimately have "cl_out s' = cl_out s @ (os'' @ os) @ DisconnectedEv FAILED_LOWLEVEL # os' @ [ConnectedEv]"
    using u(5) by simp
  then show ?thesis
    using Client_Send_fails [OF assms(1) u(3)] u(4,6) by (intro conjI exI [of _ "os'' @ os"] exI [of _ os']) simp_all
qed

text \<open>Disconnecting a client that has no direct connections and knows nobody.\<close>

lemma lonely_disconnect:
  assumes "cl_state s = BOS_AWAITING_LOGIN_REPLY \<or> cl_state s = BOS_LOGGED_IN" and "cl_listening s \<longrightarrow> cl_listen_fd s \<noteq> None"
    and "cl_mh s = sample_handler" and "m_list (cl_dccache s) = []"
  shows "\<exists>s'. Client_Disconnect E r s = (Inr (), s')"
  using assms
  by (auto simp: Client_Disconnect_def authorizing_def DisconnectBOS_def remove_server_socket_def
      remove_listen_socket_def TCPServer_Disconnect_def to_state_def set_socket_def DisconnectDirectConns_def
      SignalDisconnect_def set_offline_def contact_at_def emit_out_def tree_refs_def sample_handler_def
      new_contact_tree_def uin_contact_def Init_def thenM_def)

theorem failed_login_reported_as_connected_witness:
  "\<exists>s'. SendLogin (demo_env\<lparr>ce_sends := \<lambda>_. False\<rparr>) demo_session = (Inr (), s') \<and>
    cl_state s' = BOS_LOGGED_IN \<and> cl_socket s' \<noteq> SOCK_CONNECTED \<and>
    (\<exists>os os'. cl_out s' = os @ DisconnectedEv FAILED_LOWLEVEL # os' @ [ConnectedEv])"
proof -
  let ?E = "demo_env\<lparr>ce_sends := \<lambda>_. False\<rparr>"
  let ?t = "demo_session\<lparr>cl_listen_port := Some 4000, cl_tick := 1, cl_listen_fd := Some 6, cl_listening := True,
    cl_out := [AddSocketHandle 6 READ]\<rparr>"
  have t: "start_listening ?E demo_session = (Inr (), ?t)"
    by (simp add: start_listening_def demo_session_def new_client_def demo_env_def TCPServer_setBindHost_def
        bind_host_def TCPServer_StartServer_def query_eval emit_out_def thenM_def)
  have "small_lists ?t"
    using demo_session_eval(5) by (simp add: small_lists_def)
  note w = login_snacs_written [OF this, of ?E 4000]
  have l: "length (m_data new_buffer) + length (login_snacs ?E 4000 ?t) * (2 ^ 20 + 256 + 6) < 2 ^ 30"
    using w(2) by simp
  have "cl_client_seq_num ?t = Some 9"
    using demo_session_eval(3) by simp
  from send_snacs_writes [OF w(1) l this] obtain b q
    where b: "send_snacs ?E (login_snacs ?E 4000 ?t) new_buffer ?t = (Inr b, ?t\<lparr>cl_client_seq_num := Some q\<rparr>)"
    by blast
  let ?d = "?t\<lparr>cl_client_seq_num := Some q, cl_tick := 2, cl_socket := SOCK_NOT_CONNECTED\<rparr>"
  have d: "TCPSocket_Send ?E b (?t\<lparr>cl_client_seq_num := Some q\<rparr>) = (Inl SocketError, ?d)"
    using demo_session_eval(2) by (simp add: TCPSocket_Send_def query_eval set_socket_def thenM_def)
  have "\<exists>u. Client_Disconnect ?E FAILED_LOWLEVEL ?d = (Inr (), u)"
    by (rule lonely_disconnect) (simp_all add: demo_session_def new_client_def new_cache_def setDefaultTimeout_def)
  then obtain u where u: "Client_Send ?E b (?t\<lparr>cl_client_seq_num := Some q\<rparr>) = (Inr (), u)"
    using d by (auto simp: Client_Send_def Send_or_def)
  have "(if cl_in_dc ?t then read cl_listen_port else ret 0) ?t = (Inr 4000, ?t)"
    by (simp add: demo_session_def new_client_def)
  then have "\<exists>s'. SendLogin ?E demo_session = (Inr (), s')"
    using t b u by (simp add: SendLogin_def SignalConnect_def to_state_def emit_out_def)
  then obtain s' where s': "SendLogin ?E demo_session = (Inr (), s')"
    by blast
  have "cl_out demo_session = []" "cl_state demo_session \<noteq> CL_NOT_CONNECTED" "\<forall>n. \<not> ce_sends ?E n"
    by (simp_all add: demo_session_def new_client_def)
  with failed_login_reported_as_connected [OF _ s'] s' show ?thesis
    by (intro exI [of _ s']) simp
qed

end
