(* ===== verification/ClientProps.thy ===== *)
theory ClientProps
  imports ServerLogin
begin

text \<open>
  What calls and packets do to the client: leaving the server, logging in, and what becomes of a message
  when the connection fails.
\<close>

section \<open>Disconnecting\<close>

definition is_off :: "bool \<Rightarrow> client \<Rightarrow> bool" where
  "is_off b s \<longleftrightarrow> cl_state s = CL_NOT_CONNECTED \<and> cl_socket s = SOCK_NOT_CONNECTED \<and> (b \<longrightarrow> \<not> cl_listening s)"

interpretation off: client_invariant "is_off b" for b
  by unfold_locales (auto simp: passing_defs is_off_def)

text \<open>What \<open>SignalDisconnect\<close> does to the contacts.\<close>

definition status_at :: "contact_ref \<Rightarrow> client \<Rightarrow> status" where
  "status_at r s = m_status (contact_at r s)"

lemma setStatus_status: "setStatus t st i c = Inr (c', sigs) \<Longrightarrow> m_status c' = st"
  by (auto simp: setStatus_def Let_def andThen_eq_Inr split: if_splits)

lemma set_offline_effect:
  assumes "set_offline E r s = (Inr (), s')"
  shows "status_at r s' = STATUS_OFFLINE" and "status_at q s = STATUS_OFFLINE \<Longrightarrow> status_at q s' = STATUS_OFFLINE"
    and "mh_tree (cl_mh s') = mh_tree (cl_mh s)" and "mh_self (cl_mh s') = mh_self (cl_mh s)"
    and "set (cl_out s) \<subseteq> set (cl_out s')"
proof -
  have "status_at r s' = STATUS_OFFLINE \<and> (status_at q s = STATUS_OFFLINE \<longrightarrow> status_at q s' = STATUS_OFFLINE) \<and>
      mh_tree (cl_mh s') = mh_tree (cl_mh s) \<and> mh_self (cl_mh s') = mh_self (cl_mh s) \<and>
      set (cl_out s) \<subseteq> set (cl_out s')"
  proof (cases "status_at r s = STATUS_OFFLINE")
    case True
    then show ?thesis
      using assms by (auto simp: set_offline_def status_at_def)
  next
    case False
    then obtain ch where "setStatus (ce_now E) STATUS_OFFLINE False (contact_at r s) = Inr ch"
      "on_contact r (\<lambda>_. ch) s = (Inr (), s')"
      using assms by (auto simp: set_offline_def set_contact_status_def status_at_def liftR_def raise_def
          thenM_def ret_def gets_def split: sum.splits if_splits)
    then show ?thesis
      by (cases ch) (auto simp: on_contact_def upd_contact_def status_at_def contact_at_def emit_out_def thenM_def
          gets_def modify_def dest: setStatus_status)
  qed
  then show "status_at r s' = STATUS_OFFLINE" and "status_at q s = STATUS_OFFLINE \<Longrightarrow> status_at q s' = STATUS_OFFLINE"
    and "mh_tree (cl_mh s') = mh_tree (cl_mh s)" and "mh_self (cl_mh s') = mh_self (cl_mh s)"
    and "set (cl_out s) \<subseteq> set (cl_out s')"
    by blast+
qed

lemma all_offline_effect:
  assumes "eachM (set_offline E) rs s = (Inr (), s')"
  shows "\<forall>r\<in>set rs. status_at r s' = STATUS_OFFLINE"
    and "status_at q s = STATUS_OFFLINE \<Longrightarrow> status_at q s' = STATUS_OFFLINE"
    and "mh_tree (cl_mh s') = mh_tree (cl_mh s)" and "mh_self (cl_mh s') = mh_self (cl_mh s)"
    and "set (cl_out s) \<subseteq> set (cl_out s')"
proof -
  have "(\<forall>r\<in>set rs. status_at r s' = STATUS_OFFLINE) \<and>
      (\<forall>q. status_at q s = STATUS_OFFLINE \<longrightarrow> status_at q s' = STATUS_OFFLINE) \<and>
      mh_tree (cl_mh s') = mh_tree (cl_mh s) \<and> mh_self (cl_mh s') = mh_self (cl_mh s) \<and>
      set (cl_out s) \<subseteq> set (cl_out s')"
    using assms
  proof (induction rs arbitrary: s)
    case (Cons r rs)
    then obtain t where t: "set_offline E r s = (Inr (), t)" "eachM (set_offline E) rs t = (Inr (), s')"
      by (auto simp: thenM_eq_Inr)
    show ?case
      using Cons.IH [OF t(2)] set_offline_effect [OF t(1)] by auto
  qed simp
  then show "\<forall>r\<in>set rs. status_at r s' = STATUS_OFFLINE"
    and "status_at q s = STATUS_OFFLINE \<Longrightarrow> status_at q s' = STATUS_OFFLINE"
    and "mh_tree (cl_mh s') = mh_tree (cl_mh s)" and "mh_self (cl_mh s') = mh_self (cl_mh s)"
    and "set (cl_out s) \<subseteq> set (cl_out s')"
    by blast+
qed

lemma SignalDisconnect_effect:
  assumes "SignalDisconnect E r s = (Inr (), s')"
  shows "status_at (mh_self (cl_mh s')) s' = STATUS_OFFLINE"
    and "\<forall>q\<in>set (tree_refs (mh_tree (cl_mh s'))). status_at q s' = STATUS_OFFLINE"
    and "DisconnectedEv r \<in> set (cl_out s')"
    and "mh_tree (cl_mh s') = mh_tree (cl_mh s)"
proof -
  let ?s = "s\<lparr>cl_out := cl_out s @ [DisconnectedEv r]\<rparr>"
  obtain t where t: "set_offline E (mh_self (cl_mh s)) ?s = (Inr (), t)"
    "eachM (set_offline E) (tree_refs (mh_tree (cl_mh t))) t = (Inr (), s')"
    using assms by (auto simp: SignalDisconnect_def thenM_eq_Inr emit_out_def)
  note a = set_offline_effect [OF t(1)] and b = all_offline_effect [OF t(2)]
  show "status_at (mh_self (cl_mh s')) s' = STATUS_OFFLINE"
    using a b by simp
  show "\<forall>q\<in>set (tree_refs (mh_tree (cl_mh s'))). status_at q s' = STATUS_OFFLINE"
    using b by simp
  show "DisconnectedEv r \<in> set (cl_out s')"
    using a(5) b(5) by auto
  show "mh_tree (cl_mh s') = mh_tree (cl_mh s)"
    using a(3) b(3) by simp
qed

lemma off_DisconnectAuthorizer: "is_off False (snd (DisconnectAuthorizer s))"
  by (simp add: DisconnectAuthorizer_def remove_server_socket_def to_state_def set_socket_def emit_out_def
      is_off_def thenM_def gets_def modify_def)

lemma off_listen:
  assumes "is_off False s" and "remove_listen_socket s = (Inr x, s')"
  shows "is_off True s'"
proof (cases "cl_listening s")
  case True
  then obtain fd where "cl_listen_fd s = Some fd"
    using assms(2) by (cases "cl_listen_fd s") (simp_all add: remove_listen_socket_def thenM_def read_def)
  then show ?thesis
    using assms True
    by (simp add: is_off_def remove_listen_socket_def TCPServer_Disconnect_def emit_out_def thenM_def) fastforce
qed (use assms in \<open>simp add: is_off_def remove_listen_socket_def\<close>)

lemma off_Send_or: "stable (is_off b) (Send_or E (ret ()) x)"
  unfolding Send_or_def by (intro stable_rules ok_rules)

lemma off_DisconnectBOS:
  assumes "DisconnectBOS E s = (Inr x, s')"
  shows "is_off True s'"
proof -
  obtain t u where t: "thenM (to_state CL_NOT_CONNECTED) (\<lambda>_. remove_server_socket) s = (Inr (), t)"
    "remove_listen_socket t = (Inr (), u)" "DisconnectDirectConns E (Send_or E (ret ())) u = (Inr x, s')"
    using assms by (auto simp: DisconnectBOS_def thenM_eq_Inr)
  then have "is_off False t"
    by (auto simp: remove_server_socket_def to_state_def set_socket_def emit_out_def is_off_def thenM_def)
  then have "is_off True u"
    using t(2) by (rule off_listen)
  then show ?thesis
    using t(3) stableD [OF off.ok_DisconnectDirectConns] off_Send_or by blast
qed

lemma demo_mh: "cl_mh (demo_client mh) = mh"
  by (simp add: demo_client_def new_client_def Client_setStatus_def ConnectAuthorizer_def try_connect_def
      connect_server_def look_up_def bind_host_def TCPSocket_Connect_def add_server_socket_def emit_out_def
      query_def to_state_def thenM_def catchM_def gets_def modify_def ret_def demo_env_def)

lemma lonely_authorizer:
  assumes "cl_state s = AUTH_AWAITING_CONN_ACK" and "cl_mh s = sample_handler"
  shows "\<exists>s'. Client_Disconnect E r s = (Inr (), s') \<and> cl_requestid s' = cl_requestid s \<and>
    cl_client_seq_num s' = cl_client_seq_num s \<and> cl_mh s' = sample_handler \<and> cl_state s' = CL_NOT_CONNECTED"
  using assms
  by (simp add: Client_Disconnect_def authorizing_def DisconnectAuthorizer_def remove_server_socket_def
      to_state_def set_socket_def SignalDisconnect_def set_offline_def contact_at_def emit_out_def tree_refs_def
      sample_handler_def new_contact_tree_def uin_contact_def Init_def thenM_def)

lemma demo_disconnects:
  "\<exists>s'. Client_Disconnect E r (demo_client sample_handler) = (Inr (), s') \<and> cl_requestid s' = Some 7 \<and>
    cl_client_seq_num s' = Some 0x7fff \<and> cl_mh s' = sample_handler \<and> cl_state s' = CL_NOT_CONNECTED"
  using lonely_authorizer [of "demo_client sample_handler" E r]
  by (simp add: demo_client_eval demo_mh)

text \<open>C5: When a disconnect of a connected client returns, the client is in the state of not being connected,
  its socket is closed, and the listening socket too unless it was still talking to the authorizer; the
  application has been told the reason, and the user and every contact of the tree are off line.\<close>

theorem disconnect_puts_all_offline:
  assumes "Client_Disconnect E r s = (Inr (), s')" and "cl_state s \<noteq> CL_NOT_CONNECTED"
  shows "cl_state s' = CL_NOT_CONNECTED \<and> cl_socket s' = SOCK_NOT_CONNECTED \<and>
    (authorizing (cl_state s) \<or> \<not> cl_listening s') \<and> DisconnectedEv r \<in> set (cl_out s') \<and>
    m_status (m_self s') = STATUS_OFFLINE \<and>
    (\<forall>q\<in>set (tree_refs (mh_tree (cl_mh s'))). m_status (contact_at q s') = STATUS_OFFLINE)"
proof -
  obtain t where t: "(if authorizing (cl_state s) then DisconnectAuthorizer else DisconnectBOS E) s = (Inr (), t)"
    "SignalDisconnect E r t = (Inr (), s')"
    using assms by (auto simp: Client_Disconnect_def thenM_eq_Inr)
  have "is_off (\<not> authorizing (cl_state s)) t"
    using t(1) off_DisconnectBOS off_DisconnectAuthorizer [of s] by (auto split: if_splits)
  then have "is_off (\<not> authorizing (cl_state s)) s'"
    using t(2) stableD [OF off.ok_SignalDisconnect] by blast
  then show ?thesis
    using SignalDisconnect_effect [OF t(2)] by (auto simp: is_off_def status_at_def m_self_def contact_at_def)
qed

theorem disconnect_puts_all_offline_witness:
  "\<exists>s'. Client_Disconnect demo_env REQUESTED (demo_client sample_handler) = (Inr (), s') \<and>
    cl_state s' = CL_NOT_CONNECTED \<and> cl_socket s' = SOCK_NOT_CONNECTED \<and> DisconnectedEv REQUESTED \<in> set (cl_out s') \<and>
    m_status (m_self s') = STATUS_OFFLINE"
proof -
  obtain s' where "Client_Disconnect demo_env REQUESTED (demo_client sample_handler) = (Inr (), s')"
    using demo_disconnects by blast
  from disconnect_puts_all_offline [OF this] this show ?thesis
    by (auto simp: demo_client_eval)
qed

lemma liftR_eq_Inr: "liftR r s = (Inr x, t) \<longleftrightarrow> r = Inr x \<and> t = s"
  by (cases r) auto

lemma thenM_read: "thenM (read (\<lambda>_. Some x)) g = g x"
  by (simp add: thenM_def fun_eq_iff)

section \<open>Messages without a connection\<close>

text \<open>C36: A message sent as plain text over a connection that breaks is reported as delivered: the send fails and
  the client disconnects, and then the event is marked delivered and handed to the application, last of all.\<close>

theorem lost_message_reported_delivered:
  assumes "\<forall>n. \<not> ce_sends E n" and "cl_state s \<noteq> CL_NOT_CONNECTED"
    and "SendViaServerNormal E (Client_Send E) ev s = (Inr (), s')"
  shows "cl_socket s' \<noteq> SOCK_CONNECTED \<and>
    (\<exists>ev'. last (cl_out s') = HandlerEv (MessageAck ev') \<and> m_finished ev' = Some True \<and>
       m_delivered ev' = Some True \<and> ev_contact ev' = ev_contact ev \<and> ev_body ev' = ev_body ev)"
proof -
  obtain b t u v where u: "Client_Send E b t = (Inr (), u)"
    and v: "(if ev_type (ev_body ev) = AuthReq then on_contact (ev_contact ev) (setAuthAwait True) else ret ()) u = (Inr (), v)"
    and s': "message_ack_cb (upd_icq (\<lambda>i. i\<lparr>m_offline := True\<rparr>)
         (ev\<lparr>m_finished := Some True, m_delivered := Some True, m_isdirect := Some False\<rparr>)) v = (Inr (), s')"
    using assms(2,3) by (auto simp: SendViaServerNormal_def wrap_and_send_def thenM_eq_Inr split: prod.splits)
  have "cl_socket v \<noteq> SOCK_CONNECTED"
    using Client_Send_fails [OF assms(1) u] v stableD [OF broken.ok_on_contact] by (auto split: if_splits)
  then show ?thesis
    using s' by (auto simp: message_ack_cb_def emit_out_def upd_icq_def)
qed

lemma writes_text:
  assumes "body (ms_icqsubtype m) = UINSubType u (NormalBody txt multi fg bg)" and "\<not> ms_advanced m"
  shows "writes ts (length txt + 60) (MsgSend_Out m)"
  unfolding writes_def
proof (intro allI impI)
  fix b :: buffer assume l: "length (m_data b) + (length txt + 60) < 2 ^ 30"
  let ?h = "OutSNAC_OutputHeader (out_header (MsgSend_Out m)) b"
  let ?c = "app (enc_cookie (ms_cookie m)) (setBigEndian ?h)"
  obtain hs where h: "m_data ?h = m_data b @ hs" "length hs \<le> 10"
    using header_adds unfolding adds_def by blast
  have "out_snac_Output ts (MsgSend_Out m) b = Some (Inr (app (enc16 BIG 1 @ enc_name (u_destination u) @
      enc_normal_block txt) (setBigEndian ?c)))"
    using MsgSend_normal_app [of ?c "txt" u] assms h l
    by (simp add: out_snac_Output_def OutSNAC_Output_def MsgSendSNAC_OutputBody_def cookie_output_app getType_def
        length_enc_cookie)
  then show "\<exists>b' bs. out_snac_Output ts (MsgSend_Out m) b = Some (Inr b') \<and> m_data b' = m_data b @ bs \<and>
      length bs \<le> length txt + 60"
    using h length_enc_name [of "u_destination u"] by (simp add: length_enc_cookie length_normal_block)
qed

text \<open>A send that fails on a lonely client.\<close>

lemma lonely_failed_send:
  assumes "\<forall>n. \<not> ce_sends E n" and "cl_state s = BOS_LOGGED_IN" and "\<not> cl_listening s"
    and "cl_mh s = sample_handler" and "m_list (cl_dccache s) = []" and "cl_socket s = SOCK_CONNECTED"
  shows "\<exists>s'. Client_Send E b s = (Inr (), s')"
proof -
  let ?d = "s\<lparr>cl_tick := Suc (cl_tick s), cl_socket := SOCK_NOT_CONNECTED\<rparr>"
  have "TCPSocket_Send E b s = (Inl SocketError, ?d)"
    using assms by (simp add: TCPSocket_Send_def query_eval set_socket_def thenM_def)
  moreover have "\<exists>u. Client_Disconnect E FAILED_LOWLEVEL ?d = (Inr (), u)"
    by (rule lonely_disconnect) (use assms in simp_all)
  ultimately show ?thesis
    by (auto simp: Client_Send_def Send_or_def)
qed

theorem lost_message_reported_delivered_witness:
  "\<exists>s'. SendViaServerNormal (demo_env\<lparr>ce_sends := \<lambda>_. False, ce_indet := True\<rparr>) (Client_Send (demo_env\<lparr>ce_sends := \<lambda>_. False, ce_indet := True\<rparr>))
      (new_normal_event 0 7 ''hi'' True) (demo_session\<lparr>cl_state := BOS_LOGGED_IN\<rparr>) = (Inr (), s') \<and>
    cl_socket s' \<noteq> SOCK_CONNECTED \<and> (\<exists>ev'. last (cl_out s') = HandlerEv (MessageAck ev') \<and> m_delivered ev' = Some True)"
proof -
  let ?E = "demo_env\<lparr>ce_sends := \<lambda>_. False, ce_indet := True\<rparr>" and ?s = "demo_session\<lparr>cl_state := BOS_LOGGED_IN\<rparr>"
  let ?ev = "new_normal_event 0 7 ''hi'' True"
  have out: "handleOutgoing (ce_c2s ?E) (ce_indet ?E) ?ev sample_handler =
      Inr (new_uin_part\<lparr>u_source := 1, u_destination := 7\<rparr>, NormalBody ''hi'' True 0 0x00ffffff)"
    by (simp add: handleOutgoing_def EventToUINICQSubType_def new_normal_event_def new_event_def is_icq_def
        new_icq_part_def sample_handler_def uin_contact_def Init_def MapStatusToICQStatus_def Let_def
        new_uin_part_def demo_env_def)
  let ?m = "\<lparr>ms_icqsubtype = \<lparr>m_flags8 = 0, body = UINSubType (new_uin_part\<lparr>u_source := 1, u_destination := 7,
      u_advanced := False\<rparr>) (NormalBody ''hi'' True 0 0x00ffffff)\<rparr>, ms_advanced = False, ms_seqnum = None,
      ms_cookie = new_cookie, ms_dest_capabilities = new_capabilities\<rparr>"
  obtain b where b: "FLAPwrapSNAC ?E (MsgSend_Out ?m) new_buffer ?s = (Inr b, ?s\<lparr>cl_client_seq_num := Some ((9 + 1) AND 0x7fff)\<rparr>)"
    by (rule FLAPwrapSNAC_writes [of ?E 62 "MsgSend_Out ?m" new_buffer ?s 9])
      (use writes_text [of ?m] demo_session_eval(3) in \<open>simp_all add: new_uin_part_def\<close>)
  obtain u where u: "Client_Send ?E b (?s\<lparr>cl_client_seq_num := Some ((9 + 1) AND 0x7fff)\<rparr>) = (Inr (), u)"
    using lonely_failed_send [of ?E "?s\<lparr>cl_client_seq_num := Some ((9 + 1) AND 0x7fff)\<rparr>" b]
    by (auto simp: demo_session_def new_client_def new_cache_def setDefaultTimeout_def)
  have "ev_type (ev_body ?ev) = Normal" "cl_mh ?s = sample_handler" "cl_state ?s \<noteq> CL_NOT_CONNECTED"
    by (simp_all add: new_normal_event_def new_event_def ev_type_def demo_session_def new_client_def)
  then have "\<exists>s'. SendViaServerNormal ?E (Client_Send ?E) ?ev ?s = (Inr (), s')"
    using out b u by (simp add: SendViaServerNormal_def outgoing_part_def wrap_and_send_def message_ack_cb_def
        emit_out_def new_uin_part_def)
  then obtain s' where s': "SendViaServerNormal ?E (Client_Send ?E) ?ev ?s = (Inr (), s')"
    by blast
  from lost_message_reported_delivered [OF _ _ this] s' show ?thesis
    by auto
qed

lemma FLAPwrapSNAC_state:
  assumes "FLAPwrapSNAC E x b s = (Inr c, t)"
  shows "\<exists>q. t = s\<lparr>cl_client_seq_num := Some q\<rparr>"
proof -
  obtain q where "t = s\<lparr>cl_client_seq_num := Some q\<rparr>"
    using assms
    by (auto simp: FLAPwrapSNAC_def put_flap_def Client_NextSeqNum_def Let_def thenM_eq_Inr read_def liftO_def liftR_eq_Inr
        raise_def split: option.splits)
  then show ?thesis ..
qed

text \<open>A message to a mobile phone that is sent while the client is not connected disappears: nothing is sent,
  the application is told nothing, not even when the request expires from the cache it was put into.\<close>

theorem sms_without_connection_lost:
  assumes "client_reach s" and "cl_state s = CL_NOT_CONNECTED" and "ev_body ev = SMSMessageEvent m"
    and "SendViaServer E (Client_Send E) ev s = (Inr (), s')"
  shows "cl_out s' = cl_out s \<and>
    (\<exists>rid. cl_reqidcache s' = cache_insert rid (SMSValue ev) (uint (ce_now E)) (cl_reqidcache s)) \<and>
    reqidcache_expired_cb (SMSValue ev) s' = (Inr (), s')"
proof -
  have off: "cl_socket s = SOCK_NOT_CONNECTED"
    using reach_ok [OF assms(1)] assms(2) by (simp add: cl_ok_def)
  have ty: "ev_type (ev_body ev) = SMS_Type"
    by (simp add: assms(3) ev_type_def)
  have snd: "Client_Send E b t = (Inr (), t)" if "cl_socket t = SOCK_NOT_CONNECTED" "cl_state t = CL_NOT_CONNECTED" for b t
    using that by (simp add: Client_Send_def Send_or_def TCPSocket_Send_def Client_Disconnect_def)
  have "send_sms E (Client_Send E) ev m s = (Inr (), s')"
    using assms(4) ty by (simp add: SendViaServer_def assms(3) ev_type_def)
  then obtain rid x b t u where "NextRequestID s = (Inr rid, t)" "Client_Send E b u = (Inr (), s')"
    and f: "FLAPwrapSNAC E x new_buffer (t\<lparr>cl_reqidcache := cache_insert rid (SMSValue ev) (uint (ce_now E)) (cl_reqidcache t)\<rparr>) =
      (Inr b, u)"
    by (auto simp: send_sms_def wrap_and_send_def cache_request_def thenM_eq_Inr read_def split: option.splits)
  moreover obtain q where "u = t\<lparr>cl_reqidcache := cache_insert rid (SMSValue ev) (uint (ce_now E)) (cl_reqidcache t),
      cl_client_seq_num := Some q\<rparr>"
    using FLAPwrapSNAC_state [OF f] by blast
  moreover from calculation(1) obtain n where "t = s\<lparr>cl_requestid := Some n\<rparr>"
    by (auto simp: NextRequestID_def Let_def thenM_eq_Inr read_def split: option.splits)
  ultimately show ?thesis
    using off assms(2) snd by (auto simp: reqidcache_expired_cb_def)
qed

lemma demo_now: "uint (ce_now demo_env) = 1000"
  by (simp add: demo_env_def)

lemma demo_sms_xml: "\<exists>x. toString 0 (srv_send_xml ''hi'' '''' 1 '''' False '''') = Some x \<and> length x < 1000"
  by (simp add: srv_send_xml_tree attr_loop.simps del: append.simps) code_simp

lemma zeros_app: "(put_u8 0 ^^ n) b = app (replicate n 0) b"
  by (induction n) (simp_all add: put_app replicate_append_same, simp add: app_def)

lemma writes_demo_sms: "writes '''' 1100 (Srv_Out (SrvSend ''hi'' '''' 1 '''' False) rid)"
proof -
  obtain x where x: "toString 0 (srv_send_xml ''hi'' '''' 1 '''' False '''') = Some x" "length x < 1000"
    using demo_sms_xml by blast
  let ?f = "\<lambda>b. the (SrvSendSNAC_OutputBody ''hi'' '''' 1 '''' False '''' rid b)"
  show ?thesis
  proof (rule writesI)
    show "out_snac_body '''' (Srv_Out (SrvSend ''hi'' '''' 1 '''' False) rid) b = Some (Inr (?f b))" for b
      using x by (simp add: SrvSendSNAC_OutputBody_def)
    show "adds 1060 ?f"
      unfolding adds_def using x
      by (simp add: SrvSendSNAC_OutputBody_def srv_app zeros_app Let_def enc_stringnull_def)
  qed simp
qed

lemma demo_gone:
  "\<exists>s. client_reach s \<and> cl_state s = CL_NOT_CONNECTED \<and> cl_requestid s = Some 7 \<and> cl_client_seq_num s = Some 0x7fff \<and>
    cl_mh s = sample_handler"
proof -
  let ?d = "(demo_client sample_handler)\<lparr>cl_status_wanted := STATUS_OFFLINE, cl_invisible_wanted := False\<rparr>"
  obtain s where s: "Client_Disconnect demo_env REQUESTED ?d = (Inr (), s)" "cl_requestid s = Some 7"
    "cl_client_seq_num s = Some 0x7fff" "cl_mh s = sample_handler" "cl_state s = CL_NOT_CONNECTED"
    using lonely_authorizer [of ?d demo_env REQUESTED] by (auto simp: demo_client_eval demo_mh)
  have "run_op demo_env (SetStatus STATUS_OFFLINE False) (demo_client sample_handler) = (Inr (), s)"
    using s(1) by (simp add: Client_setStatus_def)
  moreover have "client_reach (snd (run_op demo_env (SetStatus STATUS_OFFLINE False) (demo_client sample_handler)))"
    by (rule client_reach.step [OF demo_reach]) (simp add: seeds_ok_def demo_env_def)
  ultimately have "client_reach s"
    by simp
  then show ?thesis
    using s by blast
qed

definition demo_sms :: message_event where
  "demo_sms = new_event 0 7 (SMSMessageEvent \<lparr>se_message = ''hi'', se_source = '''', se_senders_network = '''',
     se_smtp_from = '''', se_smtp_to = '''', se_smtp_subject = '''', se_rcpt = Some False\<rparr>)"

lemma demo_sms_parts:
  "ev_contact demo_sms = 7" "ev_body demo_sms = SMSMessageEvent \<lparr>se_message = ''hi'', se_source = '''',
     se_senders_network = '''', se_smtp_from = '''', se_smtp_to = '''', se_smtp_subject = '''', se_rcpt = Some False\<rparr>"
  by (simp_all add: demo_sms_def new_event_def)

theorem sms_without_connection_lost_witness:
  "\<exists>s s'. client_reach s \<and> SendViaServer demo_env (Client_Send demo_env) demo_sms s = (Inr (), s') \<and>
    cl_out s' = cl_out s \<and> reqidcache_expired_cb (SMSValue demo_sms) s' = (Inr (), s')"
proof -
  obtain s where s: "client_reach s" "cl_state s = CL_NOT_CONNECTED" "cl_requestid s = Some 7"
    "cl_client_seq_num s = Some 0x7fff" "cl_mh s = sample_handler"
    using demo_gone by blast
  have off: "cl_socket s = SOCK_NOT_CONNECTED"
    using reach_ok [OF s(1)] s(2) by (simp add: cl_ok_def)
  let ?t = "s\<lparr>cl_requestid := Some 8, cl_reqidcache := cache_insert 8 (SMSValue demo_sms) 1000 (cl_reqidcache s)\<rparr>"
  let ?x = "Srv_Out (SrvSend ''hi'' '''' 1 '''' False) 8"
  obtain b where b: "FLAPwrapSNAC demo_env ?x new_buffer ?t = (Inr b, ?t\<lparr>cl_client_seq_num := Some ((0x7fff + 1) AND 0x7fff)\<rparr>)"
    by (rule FLAPwrapSNAC_writes [of demo_env 1100 ?x new_buffer ?t "0x7fff"])
      (use writes_demo_sms s(4) in \<open>simp_all add: demo_env_def\<close>)
  have "Client_Send demo_env b (?t\<lparr>cl_client_seq_num := Some ((0x7fff + 1) AND 0x7fff)\<rparr>) =
      (Inr (), ?t\<lparr>cl_client_seq_num := Some ((0x7fff + 1) AND 0x7fff)\<rparr>)"
    using off s(2) by (simp add: Client_Send_def Send_or_def TCPSocket_Send_def Client_Disconnect_def)
  moreover have "NextRequestID s = (Inr 8, s\<lparr>cl_requestid := Some 8\<rparr>)"
    using s(3) by (simp add: NextRequestID_def Let_def)
  moreover have "getNormalisedMobileNo (contact_at 7 t) = ''''" "m_uin (m_self t) = 1" if "cl_mh t = sample_handler" for t
    using that by (simp_all add: contact_at_def m_self_def sample_handler_def uin_contact_def Init_def
        getNormalisedMobileNo_def new_MainHomeInfo_def)
  ultimately have "SendViaServer demo_env (Client_Send demo_env) demo_sms s =
      (Inr (), ?t\<lparr>cl_client_seq_num := Some ((0x7fff + 1) AND 0x7fff)\<rparr>)"
    using b s(5) demo_now demo_sms_parts
    by (simp add: SendViaServer_def ev_type_def send_sms_def cache_request_def wrap_and_send_def thenM_read)
  then show ?thesis
    using sms_without_connection_lost [OF s(1,2), of demo_sms _ demo_env] s(1)
    using demo_sms_parts by fastforce
qed

section \<open>The redirect\<close>

text \<open>C14: When the authorizer accepts the login the client leaves it and connects to the server of the redirect,
  at the port given there or, if that is 0, at the port of the authorizer; it keeps the cookie to show there,
  and waits for the server.\<close>

theorem redirect_followed:
  assumes "TLVList_Parse (env_cap0 (ce_snac E)) TLV_ParseMode_Channel04 0xffff (\<lambda>_. None) b = Inr (m, b')"
    and "m TLV_Redirect = Some (Some (RedirectTLV host port))" and "m TLV_Cookie = Some (Some (CookieTLV len cookie))"
    and "cl_state s = AUTH_AWAITING_AUTH_REPLY" and "\<not> cl_bosOverridePort s"
    and "ce_resolves E host" and "cl_client_bind_host s = ''''" and "ce_connects E (cl_tick s) = ConnectPending fd"
  shows "\<exists>s'. ParseCh4 E b s = (Inr (), s') \<and> cl_state s' = BOS_AWAITING_CONN_ACK \<and>
    cl_socket s' = SOCK_NONBLOCKING_CONNECT \<and> cl_bosHostname s' = host \<and> cl_cookie_data s' = take (unat len) cookie \<and>
    cl_out s' = cl_out s @ [RemoveSocketHandle (cl_socket_fd s),
      ConnectTo host (if port \<noteq> 0 then port else cl_authorizerPort s), AddSocketHandle fd WRITE]"
proof -
  have casts: "tlv_cast as_Redirect TLV_Redirect m = Inr (host, port)"
    "tlv_cast as_Cookie TLV_Cookie m = Inr (take (unat len) cookie)"
    using assms(2,3) by (simp_all add: tlv_cast_def tlv_index_def client_tlv_casts)
  let ?p = "if port \<noteq> 0 then port else cl_authorizerPort s"
  let ?s = "s\<lparr>cl_bosHostname := host, cl_bosPort := Some ?p, cl_cookie_data := take (unat len) cookie,
    cl_out := cl_out s @ [RemoveSocketHandle (cl_socket_fd s)], cl_socket := SOCK_NOT_CONNECTED, cl_state := CL_NOT_CONNECTED\<rparr>"
  have "ParseCh4 E b s = ConnectBOS E ?s"
    using assms casts
    by (simp add: ParseCh4_def tlv_exists_def redirected_def DisconnectAuthorizer_def remove_server_socket_def
        emit_out_def set_socket_def to_state_def thenM_assoc)
  then show ?thesis
    using assms(6-8)
    by (simp add: ConnectBOS_def try_connect_def connect_server_def look_up_def bind_host_def TCPSocket_Connect_def
        query_eval emit_out_def add_server_socket_def to_state_def thenM_def catchM_def)
qed

definition demo_redirect :: "u8 list" where
  "demo_redirect = [0, 5, 0, 6] @ bytes_of_string ''a.b:99'' @ [0, 6, 0, 2, 7, 8]"

lemma demo_redirect_loop:
  "case TLVList_Parse_with (ParseValue []) TLV_ParseMode_Channel04 (Suc (Suc (Suc n))) (\<lambda>_. None) (buffer_of_bytes demo_redirect) of
     Inl e \<Rightarrow> False
   | Inr (m, b) \<Rightarrow> m TLV_Redirect = Some (Some (RedirectTLV ''a.b'' 99)) \<and> m TLV_Cookie = Some (Some (CookieTLV 2 [7, 8]))"
  by code_simp

lemma demo_redirect_parsed:
  obtains m b' where "TLVList_Parse [] TLV_ParseMode_Channel04 0xffff (\<lambda>_. None) (buffer_of_bytes demo_redirect) = Inr (m, b')"
    and "m TLV_Redirect = Some (Some (RedirectTLV ''a.b'' 99))" and "m TLV_Cookie = Some (Some (CookieTLV 2 [7, 8]))"
proof -
  have "unat (0xffff :: u16) = Suc (Suc (Suc 65532))"
    by simp
  then show ?thesis
    using that demo_redirect_loop [of 65532] by (auto simp: TLVList_Parse_def split: sum.splits)
qed

theorem redirect_followed_witness:
  "\<exists>s'. ParseCh4 demo_env (buffer_of_bytes demo_redirect) (demo_session\<lparr>cl_state := AUTH_AWAITING_AUTH_REPLY\<rparr>) = (Inr (), s') \<and>
    cl_state s' = BOS_AWAITING_CONN_ACK \<and> cl_cookie_data s' = [7, 8] \<and>
    cl_out s' = [RemoveSocketHandle 5, ConnectTo ''a.b'' 99, AddSocketHandle 5 WRITE]"
proof -
  obtain m b' where m: "TLVList_Parse [] TLV_ParseMode_Channel04 0xffff (\<lambda>_. None) (buffer_of_bytes demo_redirect) = Inr (m, b')"
    "m TLV_Redirect = Some (Some (RedirectTLV ''a.b'' 99))" "m TLV_Cookie = Some (Some (CookieTLV 2 [7, 8]))"
    using demo_redirect_parsed .
  let ?s = "demo_session\<lparr>cl_state := AUTH_AWAITING_AUTH_REPLY\<rparr>"
  have e: "env_cap0 (ce_snac demo_env) = []" "ce_resolves demo_env h" "ce_connects demo_env n = ConnectPending 5" for h n
    by (simp_all add: demo_env_def)
  have s: "cl_state ?s = AUTH_AWAITING_AUTH_REPLY" "\<not> cl_bosOverridePort ?s" "cl_client_bind_host ?s = ''''"
    "cl_out ?s = []" "cl_socket_fd ?s = 5"
    by (simp_all add: demo_session_def new_client_def)
  have "(99 :: u16) \<noteq> 0" "take (unat (2 :: u16)) [7, 8 :: u8] = [7, 8]"
    by simp_all
  then show ?thesis
    using redirect_followed [OF m(1) [folded e(1)] m(2,3) s(1,2) e(2) s(3) e(3)] unfolding s(4,5) by auto
qed

section \<open>A send that fails inside a direct connection\<close>

text \<open>C37: A send to the server that fails while a member function of a direct connection is running (its destructor
  returning messages that were not sent, say) destroys that connection a second time: disconnecting empties
  the cache, in which the connection still is.\<close>

theorem failed_send_destroys_running_connection:
  assumes "\<forall>n. \<not> ce_sends E n" and "cl_state s = BOS_LOGGED_IN" and "cl_listening s \<longrightarrow> cl_listen_fd s \<noteq> None"
    and "m_list (cl_dccache s) = i # is" and "di_busy (m_value i)"
  shows "fst (Client_Send E b s) = Inl UseAfterFree"
proof -
  obtain t where t: "TCPSocket_Send E b s = (Inl SocketError, t)" "cl_state t = BOS_LOGGED_IN"
    "cl_listening t = cl_listening s" "cl_listen_fd t = cl_listen_fd s" "cl_dccache t = cl_dccache s"
    using assms(1,2) by (cases "cl_socket s = SOCK_CONNECTED")
      (simp_all add: TCPSocket_Send_def query_eval set_socket_def thenM_def)
  have "fst (Client_Disconnect E FAILED_LOWLEVEL t) = Inl UseAfterFree"
    using t assms(3-5)
    by (auto simp: Client_Disconnect_def authorizing_def DisconnectBOS_def remove_server_socket_def remove_listen_socket_def
        TCPServer_Disconnect_def to_state_def set_socket_def DisconnectDirectConns_def destroy_peer_def emit_out_def
        thenM_def read_def split: option.splits)
  then show ?thesis
    using t(1) by (simp add: Client_Send_def Send_or_def)
qed

theorem failed_send_destroys_running_connection_witness:
  "fst (Client_Send (demo_env\<lparr>ce_sends := \<lambda>_. False\<rparr>) new_buffer (demo_session\<lparr>cl_state := BOS_LOGGED_IN,
     cl_dccache := cache_insert 8 \<lparr>di_fd = 8, di_sock = SOCK_CONNECTED, di_recv = new_buffer, di_busy = True,
       di_dc = new_dc sample_handler 1 2 3 4\<rparr> 0 new_cache\<rparr>)) = Inl UseAfterFree"
  by (rule failed_send_destroys_running_connection)
    ((simp add: demo_session_def new_client_def cache_insert_def insert_item_def new_cache_def new_item_def)+)

section \<open>Acknowledgements\<close>

lemma acknowledged_effect:
  assumes "acknowledged E ck ev u ub s = (Inr (), s')" and "cache_inv (cl_cookiecache s)"
  shows "cached_event ck' s' = (if ck' = ck then None else cached_event ck' s)" and "cache_inv (cl_cookiecache s')"
  using assms cache_store.lookup_rem [OF assms(2), of "icbm_cookie_policy (\<lambda>ev. ev_type (ev_body ev) = FileTransfer)" ck]
    cache_store.inv_rem [OF assms(2), of "icbm_cookie_policy (\<lambda>ev. ev_type (ev_body ev) = FileTransfer)" ck]
  by (auto simp: acknowledged_def thenM_eq_Inr emit_out_def remove_event_def cached_event_def liftR_eq_Inr)

lemma delivery_of_status_keeps:
  "ev_body (delivery_of_status a ev) = ev_body ev" "m_finished (delivery_of_status a ev) = m_finished ev"
  "ev_contact (delivery_of_status a ev) = ev_contact ev" "m_isdirect (delivery_of_status a ev) = m_isdirect ev"
  by (simp_all add: delivery_of_status_def set_delivery_def)

definition took_it :: "u16 \<Rightarrow> bool" where
  "took_it a \<longleftrightarrow> a \<in> {AcceptStatus_Online, AcceptStatus_Away, AcceptStatus_Occ_Accept, AcceptStatus_NA}"

definition refused_it :: "u16 \<Rightarrow> bool" where
  "refused_it a \<longleftrightarrow> a \<in> {AcceptStatus_Denied, AcceptStatus_Occupied, AcceptStatus_DND}"

lemma delivery_of_status_delivered:
  "took_it a \<Longrightarrow> m_delivered (delivery_of_status a ev) = Some True"
  "refused_it a \<Longrightarrow> m_delivered (delivery_of_status a ev) = Some False"
  by (auto simp: took_it_def refused_it_def delivery_of_status_def accept_statuses)

text \<open>What the application is told of an event when its acknowledgement arrives.\<close>

definition settled :: "message_event \<Rightarrow> u16 \<Rightarrow> message_event \<Rightarrow> bool" where
  "settled ev a e \<longleftrightarrow> m_finished e = Some True \<and> m_isdirect e = m_isdirect ev \<and> ev_contact e = ev_contact ev \<and>
     (ev_type (ev_body ev) \<noteq> FileTransfer \<longrightarrow> ev_body e = ev_body ev) \<and>
     (took_it a \<longrightarrow> m_delivered e = Some True) \<and>
     (refused_it a \<and> ev_type (ev_body ev) \<notin> {AwayMessage, FileTransfer} \<longrightarrow> m_delivered e = Some False)"

lemma handleIncomingACK_settles:
  assumes "icq ev \<noteq> None" and "ev_type (ev_body ev) = FileTransfer \<longrightarrow> (\<exists>f. ub = FTBody f)"
  obtains sigs e where "handleIncomingACK tr ev u ub = Inr (e, sigs @ [MessageAck e])"
    and "settled ev (u_status u) e" and "ev_type (ev_body ev) \<noteq> FileTransfer \<longrightarrow> sigs = []"
proof -
  obtain i where i: "icq ev = Some i"
    using assms(1) by blast
  define d where "d = delivery_of_status (u_status u) (ev\<lparr>icq := Some (i\<lparr>m_away_message :=
    tr ENCODING_CONTACT_LOCALE (Some (ev_contact ev)) (u_away_message u)\<rparr>), m_finished := Some True\<rparr>)"
  have d: "ev_body d = ev_body ev" "m_finished d = Some True" "ev_contact d = ev_contact ev" "m_isdirect d = m_isdirect ev"
    by (simp_all add: d_def delivery_of_status_keeps)
  have dl: "took_it (u_status u) \<Longrightarrow> m_delivered d = Some True" "refused_it (u_status u) \<Longrightarrow> m_delivered d = Some False"
    by (simp_all add: d_def delivery_of_status_delivered)
  have eq: "handleIncomingACK tr ev u ub =
      (if ev_type (ev_body d) = AwayMessage then
         (let ev = d\<lparr>m_delivered := Some True\<rparr> in Inr (ev, [MessageAck ev]))
       else if ev_type (ev_body d) = FileTransfer then
         (case ub of
            FTBody f \<Rightarrow>
              (case handleIncomingFTACK d u f of (ev, sigs) \<Rightarrow>
               (let ev = ev\<lparr>m_delivered := Some True\<rparr> in Inr (ev, sigs @ [MessageAck ev])))
          | _ \<Rightarrow> Inl BadCast)
       else Inr (d, [MessageAck d]))"
    unfolding handleIncomingACK_def i option.case Let_def [of _ "\<lambda>ev. Let (delivery_of_status (u_status u) ev) _"] d_def
    by (simp add: Let_def)
  consider "ev_type (ev_body ev) = AwayMessage" | "ev_type (ev_body ev) = FileTransfer"
    | "ev_type (ev_body ev) \<notin> {AwayMessage, FileTransfer}"
    by blast
  then show thesis
  proof cases
    case 1
    then show ?thesis
      using d by (intro that [of "d\<lparr>m_delivered := Some True\<rparr>" "[]"]) (simp_all add: eq settled_def Let_def)
  next
    case 2
    then obtain f fe where f: "ub = FTBody f" "ev_body ev = FileTransferEvent fe"
      using assms(2) by (auto simp: ev_type_def split: event_body.splits)
    obtain ev' sigs where h: "handleIncomingFTACK d u f = (ev', sigs)"
      by fastforce
    then have "m_finished ev' = Some True" "ev_contact ev' = ev_contact ev" "m_isdirect ev' = m_isdirect ev"
      using d f by (auto simp: handleIncomingFTACK_def Let_def)
    then show ?thesis
      using 2 d f h
      by (intro that [of "ev'\<lparr>m_delivered := Some True\<rparr>" sigs]) (simp_all add: eq [unfolded f(1)] settled_def Let_def)
  next
    case 3
    then show ?thesis
      using d dl by (intro that [of d "[]"]) (simp_all add: eq settled_def)
  qed
qed

text \<open>C16: An acknowledgement settles the message that waits for it: the application is told that it is finished, with
  the receiver's decision, as the last thing (of a file transfer it first sees the update); the message leaves
  the cache, the other messages keep waiting for their acknowledgements, and nothing else changes. The same
  acknowledgement once more has no effect at all.\<close>

theorem ack_settles_message:
  assumes "cache_inv (cl_cookiecache s)" and "cached_event (ma_cookie a) s = Some ev" and "icq ev \<noteq> None"
    and "ma_icqsubtype a = Some (st, seq)" and "body st = UINSubType u ub" and "getType (body st) \<in> set acked_types"
    and "ev_type (ev_body ev) = FileTransfer \<longrightarrow> (\<exists>f. ub = FTBody f)"
  shows "\<exists>s' sigs e. SignalMessageACK E a s = (Inr (), s') \<and>
    cl_out s' = cl_out s @ map HandlerEv sigs @ [HandlerEv (MessageAck e)] \<and>
    (ev_type (ev_body ev) \<noteq> FileTransfer \<longrightarrow> sigs = []) \<and>
    settled (ev\<lparr>m_isdirect := Some False\<rparr>) (u_status u) e \<and>
    cached_event (ma_cookie a) s' = None \<and>
    (\<forall>ck. ck \<noteq> ma_cookie a \<longrightarrow> cached_event ck s' = cached_event ck s) \<and>
    s' = s\<lparr>cl_out := cl_out s', cl_cookiecache := cl_cookiecache s'\<rparr> \<and>
    cache_inv (cl_cookiecache s') \<and> SignalMessageACK E a s' = (Inr (), s')"
proof -
  let ?ev = "ev\<lparr>m_isdirect := Some False\<rparr>"
  have "icq ?ev \<noteq> None" "ev_type (ev_body ?ev) = FileTransfer \<longrightarrow> (\<exists>f. ub = FTBody f)"
    using assms(3,7) by simp_all
  then obtain sigs e where h: "handleIncomingACK (ce_s2c E) ?ev u ub = Inr (e, sigs @ [MessageAck e])"
    "settled ?ev (u_status u) e" "ev_type (ev_body ?ev) \<noteq> FileTransfer \<longrightarrow> sigs = []"
    by (rule handleIncomingACK_settles [where tr = "ce_s2c E"])
  let ?s = "s\<lparr>cl_out := cl_out s @ map HandlerEv (sigs @ [MessageAck e]), cl_cookiecache := snd (cache_remove
    (icbm_cookie_policy (\<lambda>ev. ev_type (ev_body ev) = FileTransfer)) (ma_cookie a) (cl_cookiecache s))\<rparr>"
  have ack: "acknowledged E (ma_cookie a) ev u ub s = (Inr (), ?s)"
    by (simp add: acknowledged_def h(1) emit_out_def remove_event_def)
  note e = acknowledged_effect [OF ack assms(1)]
  have run: "SignalMessageACK E a s = (Inr (), ?s)"
    using ack assms(2,4-6) by (simp add: SignalMessageACK_def)
  have again: "SignalMessageACK E a ?s = (Inr (), ?s)"
    using e(1) [of "ma_cookie a"] assms(4-6) by (simp add: SignalMessageACK_def)
  show ?thesis
    using run again e h(2,3) by (intro exI [of _ ?s] exI [of _ sigs] exI [of _ e]) simp
qed

theorem ack_settles_message_witness:
  "\<exists>s' e. SignalMessageACK demo_env
      \<lparr>ma_cookie = new_cookie, ma_icqsubtype = Some (\<lparr>m_flags8 = 0, body = UINSubType new_uin_part (NormalBody ''hi'' False 0 0)\<rparr>, 1)\<rparr>
      (demo_session\<lparr>cl_cookiecache := cache_insert new_cookie (new_normal_event 0 7 ''hi'' True) 0 new_cache\<rparr>) = (Inr (), s') \<and>
    cl_out s' = [HandlerEv (MessageAck e)] \<and> m_delivered e = Some True \<and> cached_event new_cookie s' = None \<and>
    SignalMessageACK demo_env
      \<lparr>ma_cookie = new_cookie, ma_icqsubtype = Some (\<lparr>m_flags8 = 0, body = UINSubType new_uin_part (NormalBody ''hi'' False 0 0)\<rparr>, 1)\<rparr>
      s' = (Inr (), s')"
proof -
  let ?ev = "new_normal_event 0 7 ''hi'' True"
  let ?a = "\<lparr>ma_cookie = new_cookie, ma_icqsubtype = Some (\<lparr>m_flags8 = 0, body = UINSubType new_uin_part (NormalBody ''hi'' False 0 0)\<rparr>, 1)\<rparr>"
  let ?s = "demo_session\<lparr>cl_cookiecache := cache_insert new_cookie ?ev 0 new_cache\<rparr>"
  have new: "cache_inv (new_cache :: (icbm_cookie, message_event) cache)"
    "cache_map (new_cache :: (icbm_cookie, message_event) cache) new_cookie = None"
    by (simp_all add: cache_inv_def new_cache_def cache_map_entries entries_def by_expiry_def)
  have ci: "cache_inv (cl_cookiecache ?s)" and ce: "cached_event (ma_cookie ?a) ?s = Some ?ev"
    using cache_store.inv_ins [where now = "0 :: int" and v = ?ev, OF new]
      cache_store.lookup_ins [where now = "0 :: int" and v = ?ev, OF new]
    by (simp_all add: cached_event_def)
  have ev: "icq ?ev \<noteq> None" "ev_type (ev_body ?ev) = FileTransfer \<longrightarrow> (\<exists>f. NormalBody ''hi'' False 0 0 = FTBody f)"
    "ev_type (ev_body ?ev) \<noteq> FileTransfer"
    by (simp_all add: new_normal_event_def new_event_def is_icq_def ev_type_def)
  have ty: "getType (UINSubType new_uin_part (NormalBody ''hi'' False 0 0)) \<in> set acked_types"
    by (simp add: getType_def acked_types_def)
  have "took_it (u_status new_uin_part)" "cl_out ?s = []"
    by (simp_all add: took_it_def new_uin_part_def AcceptStatus_Online_def demo_session_def new_client_def)
  then show ?thesis
    using ack_settles_message [OF ci ce ev(1), of "\<lparr>m_flags8 = 0, body = UINSubType new_uin_part (NormalBody ''hi'' False 0 0)\<rparr>" 1
        new_uin_part "NormalBody ''hi'' False 0 0" demo_env] ev(2,3) ty
    by (auto simp: settled_def)
qed

end
