(* ===== verification/FileTransfer.thy ===== *)
theory FileTransfer
  imports ServerConn
begin

text \<open>
  The connection over which files are sent: \<^verbatim>\<open>src/FileTransferClient.h\<close> and \<^verbatim>\<open>src/FileTransferClient.cpp\<close>. The
  class repeats the handshake of \<^verbatim>\<open>DirectClient\<close> word for word; the members it shares with that class, among them
  the state, are the component \<open>fc_dc\<close>, on which the operations of \<open>DirectClient\<close> run. The event of the transfer is
  split into \<open>fc_event\<close> and its body \<open>fc_fe\<close>. The receive buffer is an argument, as for direct connections.

  What the connection sends and signals, the sockets it registers and what it does to the file system are
  appended to \<open>fc_out\<close> in their order. The files that are there, whether files can be created, the results of
  the socket and the time are the record \<open>ft_env\<close>. Opening a stream that is closed clears its flags, and writing to
  a file that is open succeeds.
\<close>

section \<open>State\<close>

datatype file_kind = Directory | RegularFile u32 | OtherFile

datatype ft_output =
    Shared dc_output
  | Update message_event
  | ExpiredTransfer message_event
  | FtAddSocket int socket_mode
  | FtRemoveSocket int
  | MakeDir string
  | CreateFile string
  | WriteFile "u8 list"
  | OpenFile string

text \<open>\<^verbatim>\<open>std::ifstream\<close>\<close>

record in_file =
  if_open :: bool
  if_good :: bool
  if_data :: "u8 list"
  if_pos :: nat

record ftc =
  fc_dc :: dc
  fc_event :: message_event
  fc_fe :: ft_event
  fc_path :: string
  fc_base_dir :: "string option"
  fc_more :: bool
  fc_continue :: bool
  fc_senddir :: bool
  fc_msgqueue :: bool
  fc_out_open :: bool
  fc_out_good :: bool
  fc_in :: in_file
  fc_socket :: "(socket_state \<times> int) option"
  fc_listen :: "(int \<times> u16) option"
  fc_timestamp :: int
  fc_timeout :: int
  fc_out :: "ft_output list"

record ft_env =
  te_sends :: "nat \<Rightarrow> bool"
  te_connect :: connect_result
  te_local_ip :: u32
  te_draw :: u32
  te_now :: int
  te_stat :: "string \<Rightarrow> file_kind"
  te_content :: "string \<Rightarrow> u8 list option"
  te_creates :: "string \<Rightarrow> bool"

type_synonym 'a ftm = "(ftc, 'a) effect"

section \<open>Operations on the state\<close>

definition put_ft :: "ft_output list \<Rightarrow> unit ftm" where
  "put_ft os = modify (\<lambda>s. s\<lparr>fc_out := fc_out s @ os\<rparr>)"

definition upd_fe :: "(ft_event \<Rightarrow> ft_event) \<Rightarrow> unit ftm" where
  "upd_fe f = modify (\<lambda>s. s\<lparr>fc_fe := f (fc_fe s)\<rparr>)"

definition whole_event :: "ftc \<Rightarrow> message_event" where
  "whole_event s = (fc_event s)\<lparr>ev_body := FileTransferEvent (fc_fe s)\<rparr>"

definition ft_connected :: "ftc \<Rightarrow> bool" where
  "ft_connected s = (case fc_socket s of Some (st, fd) \<Rightarrow> st = SOCK_CONNECTED | None \<Rightarrow> False)"

text \<open>The environment of the shared operations; they use the socket only.\<close>

definition shared_env :: "ft_env \<Rightarrow> ftc \<Rightarrow> dc_env" where
  "shared_env E s =
     \<lparr>send_ok = (\<lambda>n. ft_connected s \<and> te_sends E (length (fc_out s) + n)), connect_ok = True,
      draws = (\<lambda>_. te_draw E), c2s = (\<lambda>_ _ t. t), s2c = (\<lambda>_ _ t. t), on_message = id, on_auto = id,
      indet = False, now = 0\<rparr>"

definition shared :: "ft_env \<Rightarrow> (dc_env \<Rightarrow> 'a dcm) \<Rightarrow> 'a ftm" where
  "shared E m = (\<lambda>s.
     case m (shared_env E s) ((fc_dc s)\<lparr>dc_out := []\<rparr>) of
       (r, d) \<Rightarrow> (r, s\<lparr>fc_dc := d\<lparr>dc_out := []\<rparr>, fc_out := fc_out s @ map Shared (dc_out d)\<rparr>))"

definition fail_transfer :: "string \<Rightarrow> string \<Rightarrow> 'a ftm" where
  "fail_transfer err msg =
     thenM (upd_fe (\<lambda>fe. fe\<lparr>fe_state := FT_ERROR, fe_error := err\<rparr>)) (\<lambda>_. raise (Disconnected msg))"

section \<open>Streams\<close>

definition open_out :: "ft_env \<Rightarrow> string \<Rightarrow> unit ftm" where
  "open_out E p =
     thenM (gets fc_out_open) (\<lambda>opened.
     if opened \<or> \<not> te_creates E p then modify (\<lambda>s. s\<lparr>fc_out_good := False\<rparr>)
     else thenM (modify (\<lambda>s. s\<lparr>fc_out_open := True, fc_out_good := True\<rparr>)) (\<lambda>_. put_ft [CreateFile p]))"

definition close_out :: "unit ftm" where
  "close_out = modify (\<lambda>s. s\<lparr>fc_out_open := False\<rparr>)"

definition write_out :: "u8 list \<Rightarrow> unit ftm" where
  "write_out bs =
     thenM (gets id) (\<lambda>s.
     if fc_out_open s \<and> fc_out_good s then put_ft [WriteFile bs]
     else modify (\<lambda>s. s\<lparr>fc_out_good := False\<rparr>))"

text \<open>\<^verbatim>\<open>m_fin.clear(); m_fin.close(); m_fin.open(...)\<close>\<close>

definition open_in :: "ft_env \<Rightarrow> string \<Rightarrow> unit ftm" where
  "open_in E p =
     (case te_content E p of
        None \<Rightarrow> modify (\<lambda>s. s\<lparr>fc_in := \<lparr>if_open = False, if_good = False, if_data = [], if_pos = 0\<rparr>\<rparr>)
      | Some bs \<Rightarrow>
          thenM (modify (\<lambda>s. s\<lparr>fc_in := \<lparr>if_open = True, if_good = True, if_data = bs, if_pos = 0\<rparr>\<rparr>))
            (\<lambda>_. put_ft [OpenFile p]))"

definition seek_in :: "nat \<Rightarrow> unit ftm" where
  "seek_in n = modify (\<lambda>s. s\<lparr>fc_in :=
     (if if_open (fc_in s) \<and> if_good (fc_in s) then (fc_in s)\<lparr>if_pos := n\<rparr> else (fc_in s)\<lparr>if_good := False\<rparr>)\<rparr>)"

text \<open>\<^verbatim>\<open>m_fin.read(buf, n)\<close> and what \<^verbatim>\<open>gcount()\<close> then tells; a short read sets the flags.\<close>

definition read_in :: "nat \<Rightarrow> u8 list ftm" where
  "read_in n =
     thenM (gets fc_in) (\<lambda>f.
     let bs = (if if_open f \<and> if_good f then take n (drop (if_pos f) (if_data f)) else []) in
     thenM (modify (\<lambda>s. s\<lparr>fc_in := f\<lparr>if_pos := if_pos f + length bs, if_good := if_good f \<and> length bs = n\<rparr>\<rparr>))
       (\<lambda>_. ret bs))"

section \<open>Construction, connecting and destruction\<close>

definition closed_file :: in_file where
  "closed_file = \<lparr>if_open = False, if_good = True, if_data = [], if_pos = 0\<rparr>"

text \<open>
  The two constructors; the port of the own listening socket that the handshake sends, \<open>port\<close>, is a member nothing
  ever sets, and the one for an incoming connection does not set the pointer to the socket.
\<close>

definition new_ftc :: "ft_env \<Rightarrow> handler \<Rightarrow> u32 \<Rightarrow> u16 \<Rightarrow> message_event \<Rightarrow> ft_event \<Rightarrow> int \<times> u16 \<Rightarrow> ftc" where
  "new_ftc E mh ext_ip port ev fe listening =
     \<lparr>fc_dc = new_dc mh ext_ip port 0 0, fc_event = ev, fc_fe = fe, fc_path = '''', fc_base_dir = None,
      fc_more = False, fc_continue = False, fc_senddir = False, fc_msgqueue = False, fc_out_open = False,
      fc_out_good = True, fc_in = closed_file, fc_socket = None, fc_listen = Some listening,
      fc_timestamp = te_now E, fc_timeout = 60, fc_out = []\<rparr>"

definition new_ftc_to :: "ft_env \<Rightarrow> handler \<Rightarrow> contact_ref \<Rightarrow> u32 \<Rightarrow> u16 \<Rightarrow> message_event \<Rightarrow> ft_event \<Rightarrow> ftc" where
  "new_ftc_to E mh c ext_ip port ev fe =
     (new_ftc E mh ext_ip port ev fe (- 1, 0))
       \<lparr>fc_dc := new_dc_to mh c ext_ip port 0, fc_socket := Some (SOCK_NOT_CONNECTED, - 1), fc_listen := None\<rparr>"

definition upd_dc :: "(dc \<Rightarrow> dc) \<Rightarrow> unit ftm" where
  "upd_dc f = modify (\<lambda>s. s\<lparr>fc_dc := f (fc_dc s)\<rparr>)"

definition ft_open_socket :: "ft_env \<Rightarrow> int ftm" where
  "ft_open_socket E =
     (case te_connect E of
        ConnectFails fd \<Rightarrow>
          thenM (modify (\<lambda>s. s\<lparr>fc_socket := Some (SOCK_NOT_CONNECTED, fd)\<rparr>)) (\<lambda>_. raise SocketError)
      | ConnectPending fd \<Rightarrow>
          thenM (modify (\<lambda>s. s\<lparr>fc_socket := Some (SOCK_NONBLOCKING_CONNECT, fd)\<rparr>)) (\<lambda>_. ret fd)
      | ConnectDone fd \<Rightarrow>
          thenM (modify (\<lambda>s. s\<lparr>fc_socket := Some (SOCK_CONNECTED, fd)\<rparr>)) (\<lambda>_. ret fd))"

text \<open>
  The packets of the handshake are those of direct connections; the functions are repeated in the class.
\<close>

definition ft_SendInitPacket :: "ft_env \<Rightarrow> unit ftm" where
  "ft_SendInitPacket E = shared E SendInitPacket"

definition ft_SendInitAck :: "ft_env \<Rightarrow> unit ftm" where
  "ft_SendInitAck E = shared E SendInitAck"

definition ft_SendInit2 :: "ft_env \<Rightarrow> unit ftm" where
  "ft_SendInit2 E = shared E SendInit2"

definition ft_ParseInitPacket :: "ft_env \<Rightarrow> buffer \<Rightarrow> buffer ftm" where
  "ft_ParseInitPacket E b = shared E (\<lambda>_. ParseInitPacket b)"

definition ft_ParseInitAck :: "ft_env \<Rightarrow> buffer \<Rightarrow> buffer ftm" where
  "ft_ParseInitAck E b = shared E (\<lambda>_. ParseInitAck b)"

definition ft_ConfirmUIN :: "ft_env \<Rightarrow> unit ftm" where
  "ft_ConfirmUIN E = shared E (\<lambda>_. ConfirmUIN)"

lemmas ft_handshake_defs = ft_SendInitPacket_def ft_SendInitAck_def ft_SendInit2_def ft_ParseInitPacket_def
  ft_ParseInitAck_def ft_ConfirmUIN_def

definition ft_Connect :: "ft_env \<Rightarrow> unit ftm" where
  "ft_Connect E =
     thenM (shared E (\<lambda>_. contact_of)) (\<lambda>r.
     thenM (gets (\<lambda>s. mh_store (dc_mh (fc_dc s)) r)) (\<lambda>c.
     thenM (upd_dc (\<lambda>d. d\<lparr>dc_remote_tcp_version := Some (ucast (contact.m_tcp_version c))\<rparr>)) (\<lambda>_.
     thenM (if contact.m_tcp_version c \<ge> 7 then upd_dc (\<lambda>d. d\<lparr>dc_eff_tcp_version := Some 7\<rparr>)
            else if contact.m_tcp_version c = 6 then upd_dc (\<lambda>d. d\<lparr>dc_eff_tcp_version := Some 6\<rparr>)
            else raise (Disconnected ''Cannot direct connect to client with too old TCP version'')) (\<lambda>_.
     thenM (upd_dc (\<lambda>d. d\<lparr>dc_remote_ip := contact.m_lan_ip c\<rparr>)) (\<lambda>_.
     thenM (read (\<lambda>s. fe_port (fc_fe s))) (\<lambda>port.
     thenM (ft_open_socket E) (\<lambda>fd.
     thenM (put_ft [FtAddSocket fd WRITE]) (\<lambda>_.
     upd_dc (\<lambda>d. d\<lparr>dc_local_ip := te_local_ip E,
       dc_session_id := Some (if contact.m_dc_cookie c \<noteq> 0 then contact.m_dc_cookie c else te_draw E),
       dc_state := WAITING_FOR_INIT_ACK\<rparr>)))))))))"

definition ft_FinishNonBlockingConnect :: "ft_env \<Rightarrow> unit ftm" where
  "ft_FinishNonBlockingConnect E = ft_SendInitPacket E"

text \<open>Accepting the connection of the peer, with its descriptor and the addresses of both ends.\<close>

definition ft_setSocket :: "int \<Rightarrow> u32 \<Rightarrow> u32 \<Rightarrow> unit ftm" where
  "ft_setSocket fd remote_ip local_ip =
     thenM (upd_dc (\<lambda>d. d\<lparr>dc_remote_ip := remote_ip, dc_local_ip := local_ip\<rparr>)) (\<lambda>_.
     modify (\<lambda>s. s\<lparr>fc_socket := Some (SOCK_CONNECTED, fd)\<rparr>))"

definition delete_ftc :: "unit ftm" where
  "delete_ftc =
     thenM (gets fc_listen) (\<lambda>l.
     thenM (case l of
              None \<Rightarrow> ret ()
            | Some (fd, port) \<Rightarrow>
                thenM (put_ft [FtRemoveSocket fd]) (\<lambda>_. modify (\<lambda>s. s\<lparr>fc_listen := None\<rparr>))) (\<lambda>_.
     thenM (read fc_socket) (\<lambda>(st, fd).
     thenM (if fd > - 1 then put_ft [FtRemoveSocket fd] else ret ()) (\<lambda>_.
     modify (\<lambda>s. s\<lparr>fc_out_open := False, fc_in := closed_file\<rparr>)))))"

section \<open>Sending packets\<close>

definition ft_Send :: "ft_env \<Rightarrow> buffer result \<Rightarrow> unit ftm" where
  "ft_Send E b = thenM (liftR b) (\<lambda>b. shared E (\<lambda>P. dc_Send P b))"

text \<open>A packet of the given type around what \<open>fill\<close> writes.\<close>

definition ft_packet :: "u8 \<Rightarrow> (buffer \<Rightarrow> buffer) \<Rightarrow> buffer result" where
  "ft_packet t fill =
     (case getAutoSizeShortMarker (setLittleEndian new_buffer) of (m1, b) \<Rightarrow>
        setAutoSizeMarker m1 (fill (put_u8 t b)))"

definition ft_alias :: "ftc \<Rightarrow> string" where
  "ft_alias s = getAlias (self_contact (fc_dc s))"

definition SendPacket0x00 :: "ft_env \<Rightarrow> unit ftm" where
  "SendPacket0x00 E =
     thenM (read (\<lambda>s. fe_totfiles (fc_fe s))) (\<lambda>files.
     thenM (gets id) (\<lambda>s.
     ft_Send E (ft_packet 0x00 (\<lambda>b. PackUint16StringNull (ft_alias s)
       (put_u32 (fe_speed (fc_fe s)) (put_u32 (fe_totsize (fc_fe s)) (put_u32 files (put_u32 0x00000000 b))))))))"

definition SendPacket0x01 :: "ft_env \<Rightarrow> unit ftm" where
  "SendPacket0x01 E =
     thenM (gets id) (\<lambda>s.
     ft_Send E (ft_packet 0x01 (\<lambda>b. PackUint16StringNull (ft_alias s) (put_u32 (fe_speed (fc_fe s)) b))))"

definition SendPacket0x03 :: "ft_env \<Rightarrow> u32 \<Rightarrow> u32 \<Rightarrow> unit ftm" where
  "SendPacket0x03 E npos nfiles =
     thenM (gets (\<lambda>s. fe_speed (fc_fe s))) (\<lambda>speed.
     ft_Send E (ft_packet 0x03 (\<lambda>b. put_u32 nfiles (put_u32 speed (put_u32 0x00000000 (put_u32 npos b))))))"

definition SendPacket0x05 :: "ft_env \<Rightarrow> unit ftm" where
  "SendPacket0x05 E =
     thenM (gets (\<lambda>s. fe_speed (fc_fe s))) (\<lambda>speed. ft_Send E (ft_packet 0x05 (put_u32 speed)))"

definition complete_transfer :: "'a ftm" where
  "complete_transfer =
     thenM (upd_fe (\<lambda>fe. fe\<lparr>fe_state := FT_COMPLETE\<rparr>)) (\<lambda>_. raise (Disconnected ''FileTransfer is Complete''))"

definition advance_pos :: "u32 \<Rightarrow> ft_event \<Rightarrow> ft_event" where
  "advance_pos n fe = fe\<lparr>fe_pos := fe_pos fe + n, fe_totpos := fe_totpos fe + n\<rparr>"

definition SendPacket0x06 :: "ft_env \<Rightarrow> unit ftm" where
  "SendPacket0x06 E =
     thenM (gets (\<lambda>s. if_good (fc_in s))) (\<lambda>good.
     thenM (if good then ret () else fail_transfer ''I/O error while sending data'' ''I/O error in SendPacket0x06'') (\<lambda>_.
     thenM (read_in 2048) (\<lambda>bs.
     thenM (upd_fe (advance_pos (word_of_nat (length bs)))) (\<lambda>_.
     thenM (ft_Send E (ft_packet 0x06 (pack_bytes bs))) (\<lambda>_.
     thenM (read (\<lambda>s. fe_size (fc_fe s))) (\<lambda>sz.
     thenM (gets id) (\<lambda>s.
     if fe_pos (fc_fe s) < sz then modify (\<lambda>s. s\<lparr>fc_more := True\<rparr>)
     else
       thenM (modify (\<lambda>s. s\<lparr>fc_more := False\<rparr>)) (\<lambda>_.
       if getFilesInQueue (fc_fe s) = 0 then complete_transfer else ret ()))))))))"

section \<open>Names of files\<close>

text \<open>\<^verbatim>\<open>find_last_of\<close> and \<^verbatim>\<open>find_last_not_of\<close> for a predicate on characters.\<close>

fun find_last :: "(char \<Rightarrow> bool) \<Rightarrow> string \<Rightarrow> nat option" where
  "find_last P [] = None"
| "find_last P (c # cs) =
     (case find_last P cs of Some i \<Rightarrow> Some (Suc i) | None \<Rightarrow> if P c then Some 0 else None)"

text \<open>\<^verbatim>\<open>name.find_last_of('/', name.find_last_not_of('/'))\<close>\<close>

definition last_slash :: "string \<Rightarrow> nat option" where
  "last_slash name =
     find_last (\<lambda>c. c = CHR ''/'')
       (case find_last (\<lambda>c. c \<noteq> CHR ''/'') name of None \<Rightarrow> name | Some i \<Rightarrow> take (Suc i) name)"

definition base_of :: "string \<Rightarrow> string" where
  "base_of name = (case last_slash name of None \<Rightarrow> '''' | Some i \<Rightarrow> take (Suc i) name)"

definition swap_char :: "char \<Rightarrow> char \<Rightarrow> string \<Rightarrow> string" where
  "swap_char c d = map (\<lambda>x. if x = c then d else x)"

definition after_slash :: "string \<Rightarrow> string" where
  "after_slash name =
     (case find_last (\<lambda>c. c = CHR ''/'') name of None \<Rightarrow> name | Some i \<Rightarrow> drop (Suc i) name)"

definition file_name :: "string \<Rightarrow> string" where
  "file_name name =
     (case find_last (\<lambda>c. c = CHR ''/'') name of
        None \<Rightarrow> name
      | Some i \<Rightarrow> if i = length name - 1 then after_slash (take i name) else drop (Suc i) name)"

text \<open>The directory that is sent with a name; \<^verbatim>\<open>substr\<close> behind the end of the name throws.\<close>

definition sent_subdir :: "string \<Rightarrow> string \<Rightarrow> bool \<Rightarrow> string result" where
  "sent_subdir base name dir =
     (if length base > length name then Inl OutOfRange
      else
        let rest = (case last_slash name of None \<Rightarrow> drop (length base) name
                    | Some i \<Rightarrow> take i (drop (length base) name));
            sub = (if base = '''' then '''' else swap_char (CHR ''/'') (CHR 0x5C) rest);
            sub = (if base = '''' \<or> length sub < Suc (length (file_name name)) then sub
                   else take (length sub - length (file_name name) - 1) sub)
        in Inr (if dir \<and> sub \<noteq> '''' \<and> List.last sub = CHR 0x5C then butlast sub else sub))"

definition next_file_packet :: "bool \<Rightarrow> string \<Rightarrow> string \<Rightarrow> u32 \<Rightarrow> u32 \<Rightarrow> buffer result" where
  "next_file_packet dir name subdir sz speed =
     ft_packet 0x02 (\<lambda>b. put_u32 speed (put_u8 0x00 (put_u8 0x00 (put_u8 0x00 (put_u8 0x00 (put_u32 sz
       (PackUint16StringNull subdir (PackUint16StringNull name (put_u8 (if dir then 1 else 0) b)))))))))"

definition announce_file :: "ft_env \<Rightarrow> string \<Rightarrow> bool \<Rightarrow> u32 \<Rightarrow> unit ftm" where
  "announce_file E name dir sz =
     thenM (read fc_base_dir) (\<lambda>base.
     thenM (liftR (sent_subdir base name dir)) (\<lambda>subdir.
     thenM (read (\<lambda>s. fe_currfile (fc_fe s))) (\<lambda>n.
     thenM (upd_fe (\<lambda>fe. fe\<lparr>fe_currfile := Some (n + 1), fe_pos := 0, fe_size := Some sz\<rparr>)) (\<lambda>_.
     thenM (gets (\<lambda>s. fe_speed (fc_fe s))) (\<lambda>speed.
     ft_Send E (next_file_packet dir (file_name name) subdir sz speed))))))"

definition set_base :: "string \<Rightarrow> unit ftm" where
  "set_base d = modify (\<lambda>s. if fc_base_dir s = None then s\<lparr>fc_base_dir := Some d\<rparr> else s)"

definition SendPacket0x02 :: "ft_env \<Rightarrow> unit ftm" where
  "SendPacket0x02 E =
     thenM (gets (\<lambda>s. getFile (fc_fe s))) (\<lambda>(name, fe).
     thenM (modify (\<lambda>s. s\<lparr>fc_fe := fe\<rparr>)) (\<lambda>_.
     case te_stat E name of
       Directory \<Rightarrow>
         thenM (modify (\<lambda>s. s\<lparr>fc_senddir := True\<rparr>)) (\<lambda>_.
         thenM (set_base (base_of name)) (\<lambda>_. announce_file E name True 0))
     | RegularFile sz \<Rightarrow>
         thenM (set_base '''') (\<lambda>_.
         thenM (modify (\<lambda>s. s\<lparr>fc_senddir := False\<rparr>)) (\<lambda>_.
         thenM (open_in E name) (\<lambda>_.
         thenM (gets (\<lambda>s. if_good (fc_in s))) (\<lambda>good.
         if good then announce_file E name False sz
         else fail_transfer (''Opening '' @ name @ '' for Reading.'') ''I/O error''))))
     | OtherFile \<Rightarrow> ret ()))"

section \<open>The transfer\<close>

definition SendFile :: "ft_env \<Rightarrow> unit ftm" where
  "SendFile E =
     thenM (gets id) (\<lambda>s.
     thenM (if dc_state (fc_dc s) = CONNECTED \<and> fc_msgqueue s then
              thenM (SendPacket0x00 E) (\<lambda>_. modify (\<lambda>s. s\<lparr>fc_msgqueue := False\<rparr>))
            else if fc_continue s then
              (if fc_more s then SendPacket0x06 E
               else
                 thenM (read (\<lambda>s. fe_currfile (fc_fe s))) (\<lambda>n.
                 thenM (read (\<lambda>s. fe_totfiles (fc_fe s))) (\<lambda>m.
                 if n < m then
                   thenM (SendPacket0x02 E) (\<lambda>_. modify (\<lambda>s. s\<lparr>fc_continue := False, fc_more := False\<rparr>))
                 else complete_transfer)))
            else ret ()) (\<lambda>_.
     thenM (gets whole_event) (\<lambda>ev. put_ft [Update ev])))"

definition ft_flush_queue :: "ft_env \<Rightarrow> unit ftm" where
  "ft_flush_queue E = thenM (gets fc_msgqueue) (\<lambda>q. if q then SendFile E else ret ())"

text \<open>\<open>SendEvent\<close> does not look at its argument.\<close>

definition ft_SendEvent :: "ft_env \<Rightarrow> unit ftm" where
  "ft_SendEvent E =
     thenM (gets (\<lambda>s. dc_state (fc_dc s))) (\<lambda>st.
     if st = CONNECTED then SendFile E else modify (\<lambda>s. s\<lparr>fc_msgqueue := True\<rparr>))"

definition ParsePacket0x00 :: "buffer \<Rightarrow> buffer ftm" where
  "ParsePacket0x00 b =
     thenM (liftR (get_u32 b)) (\<lambda>(x1, b).
     thenM (liftR (get_u32 b)) (\<lambda>(files, b).
     thenM (liftR (get_u32 b)) (\<lambda>(sz, b).
     thenM (liftR (get_u32 b)) (\<lambda>(speed, b).
     thenM (liftR (UnpackUint16StringNull '''' b)) (\<lambda>(nick, b).
     thenM (upd_fe (\<lambda>fe. fe\<lparr>fe_totsize := sz, fe_totfiles := Some files, fe_currfile := Some 0,
                             fe_speed := speed\<rparr>)) (\<lambda>_.
     thenM (modify (\<lambda>s. s\<lparr>fc_path := fe_save_path (fc_fe s)\<rparr>)) (\<lambda>_. ret b)))))))"

definition ParsePacket0x01 :: "buffer \<Rightarrow> buffer ftm" where
  "ParsePacket0x01 b =
     thenM (liftR (get_u32 b)) (\<lambda>(speed, b).
     thenM (liftR (UnpackUint16StringNull '''' b)) (\<lambda>(nick, b).
     thenM (upd_fe (\<lambda>fe. fe\<lparr>fe_speed := speed\<rparr>)) (\<lambda>_. ret b)))"

definition add_slash :: "string \<Rightarrow> string" where
  "add_slash p = (if p = '''' \<or> List.last p = CHR ''/'' then p else p @ ''/'')"

definition received_dir :: "string \<Rightarrow> string \<Rightarrow> string" where
  "received_dir save_path subdir =
     add_slash (add_slash save_path @ swap_char (CHR 0x5C) (CHR ''/'') subdir)"

definition create_received :: "ft_env \<Rightarrow> string \<Rightarrow> unit ftm" where
  "create_received E p =
     thenM (gets id) (\<lambda>s.
     thenM (if the (fe_currfile (fc_fe s)) > 1 \<and> fc_out_open s then close_out else ret ()) (\<lambda>_.
     thenM (open_out E p) (\<lambda>_.
     thenM (gets fc_out_good) (\<lambda>good.
     if good then ret () else fail_transfer (''Opening '' @ p @ '' for writing.'') ''I/O error''))))"

definition ParsePacket0x02 :: "ft_env \<Rightarrow> buffer \<Rightarrow> buffer ftm" where
  "ParsePacket0x02 E b =
     thenM (liftR (get_u8 b)) (\<lambda>(file_or_dir, b).
     thenM (liftR (UnpackUint16StringNull '''' b)) (\<lambda>(filename, b).
     thenM (liftR (UnpackUint16StringNull '''' b)) (\<lambda>(subdir, b).
     thenM (liftR (get_u32 b)) (\<lambda>(sz, b).
     thenM (liftR (get_u8 b)) (\<lambda>(tmp1, b).
     thenM (liftR (get_u8 b)) (\<lambda>(tmp1, b).
     thenM (liftR (get_u8 b)) (\<lambda>(tmp1, b).
     thenM (liftR (get_u8 b)) (\<lambda>(tmp1, b).
     thenM (liftR (get_u32 b)) (\<lambda>(speed, b).
     thenM (read (\<lambda>s. fe_currfile (fc_fe s))) (\<lambda>n.
     thenM (upd_fe (\<lambda>fe. fe\<lparr>fe_size := Some sz, fe_pos := 0, fe_currfile := Some (n + 1), fe_speed := speed\<rparr>)) (\<lambda>_.
     thenM (modify (\<lambda>s. s\<lparr>fc_path := received_dir (fe_save_path (fc_fe s)) subdir\<rparr>)) (\<lambda>_.
     thenM (gets fc_path) (\<lambda>path.
     thenM (if file_or_dir = 1 then
              thenM (modify (\<lambda>s. s\<lparr>fc_path := path @ filename @ ''/''\<rparr>)) (\<lambda>_.
              put_ft [MakeDir (path @ filename @ ''/'')])
            else create_received E (path @ filename)) (\<lambda>_.
     thenM (gets whole_event) (\<lambda>ev. thenM (put_ft [Update ev]) (\<lambda>_. ret b))))))))))))))))"

definition ParsePacket0x03 :: "buffer \<Rightarrow> buffer ftm" where
  "ParsePacket0x03 b =
     thenM (liftR (get_u32 b)) (\<lambda>(npos, b).
     thenM (liftR (get_u32 b)) (\<lambda>(x1, b).
     thenM (liftR (get_u32 b)) (\<lambda>(x2, b).
     thenM (liftR (get_u32 b)) (\<lambda>(nfiles, b).
     thenM (upd_fe (\<lambda>fe. fe\<lparr>fe_pos := npos, fe_totpos := fe_totpos fe + npos, fe_currfile := Some nfiles\<rparr>)) (\<lambda>_.
     thenM (read (\<lambda>s. fe_size (fc_fe s))) (\<lambda>sz.
     thenM (if npos > sz then
              fail_transfer (''FileTransfer resume request got wrong offset: '' @ show_nat (unat npos) @
                '' when file only is '' @ show_nat (unat sz)) ''I/O error''
            else seek_in (unat npos)) (\<lambda>_.
     thenM (modify (\<lambda>s. if fc_senddir s then s else s\<lparr>fc_more := True\<rparr>)) (\<lambda>_. ret b))))))))"

definition ParsePacket0x05 :: "buffer \<Rightarrow> buffer ftm" where
  "ParsePacket0x05 b =
     thenM (liftR (get_u32 b)) (\<lambda>(speed, b).
     thenM (upd_fe (\<lambda>fe. fe\<lparr>fe_speed := speed\<rparr>)) (\<lambda>_. ret b))"

definition MAX_FileChunk :: u16 where
  "MAX_FileChunk = 4096"

function write_chunks :: "u16 \<Rightarrow> buffer \<Rightarrow> buffer ftm" where
  "write_chunks len b =
     (if len = 0 then ret b
      else
        thenM (liftR (Unpack_bytes (ucast (min len MAX_FileChunk)) b)) (\<lambda>(bs, b).
        thenM (write_out bs) (\<lambda>_.
        write_chunks (if len > MAX_FileChunk then len - MAX_FileChunk else 0) b)))"
  by pat_completeness auto
termination
proof (relation "measure (\<lambda>(len, b). unat len)")
  fix len :: u16 and b :: "u8 list" and c :: buffer
  assume "len \<noteq> 0"
  then have "unat (if len > MAX_FileChunk then len - MAX_FileChunk else 0) < unat len"
    by (auto simp: MAX_FileChunk_def unat_sub word_less_nat_alt order_less_imp_le unat_gt_0)
  then show "((if len > MAX_FileChunk then len - MAX_FileChunk else 0, c), len, d) \<in> measure (\<lambda>(len, b). unat len)" for d
    by simp
qed simp

declare write_chunks.simps [simp del]

definition ParsePacket0x06 :: "buffer \<Rightarrow> buffer ftm" where
  "ParsePacket0x06 b =
     (let len = ucast (remains b) in
      thenM (upd_fe (advance_pos (ucast len))) (\<lambda>_.
      thenM (write_chunks len b) (\<lambda>b.
      thenM (gets fc_fe) (\<lambda>fe.
      if fe_totpos fe \<ge> fe_totsize fe then complete_transfer else ret b))))"

definition ft_ParsePacket :: "ft_env \<Rightarrow> buffer \<Rightarrow> buffer ftm" where
  "ft_ParsePacket E b =
     thenM (liftR (get_u16 (setLittleEndian b))) (\<lambda>(len, b).
     thenM (liftR (get_u8 b)) (\<lambda>(t, b).
     if t = 0 then
       thenM (ParsePacket0x00 b) (\<lambda>b. thenM (SendPacket0x05 E) (\<lambda>_. thenM (SendPacket0x01 E) (\<lambda>_. ret b)))
     else if t = 1 then thenM (ParsePacket0x01 b) (\<lambda>b. thenM (SendPacket0x02 E) (\<lambda>_. ret b))
     else if t = 2 then
       thenM (ParsePacket0x02 E b) (\<lambda>b.
       thenM (read (\<lambda>s. fe_currfile (fc_fe s))) (\<lambda>n. thenM (SendPacket0x03 E 0 n) (\<lambda>_. ret b)))
     else if t = 3 then
       thenM (ParsePacket0x03 b) (\<lambda>b.
       thenM (modify (\<lambda>s. s\<lparr>fc_continue := True\<rparr>)) (\<lambda>_. thenM (SendFile E) (\<lambda>_. ret b)))
     else if t = 5 then ParsePacket0x05 b
     else if t = 6 then ParsePacket0x06 b
     else ret b))"

section \<open>Receiving\<close>

definition ft_ParseInit2 :: "buffer \<Rightarrow> buffer dcm" where
  "ft_ParseInit2 b =
     thenM (liftR (get_u16 (setLittleEndian b))) (\<lambda>(len, b).
     thenM (unless (len = 0x0021) ''V7 final handshake packet incorrect length'') (\<lambda>_.
     thenM (liftR (get_u8 b)) (\<lambda>(t, b).
     thenM (unless (t = 0x03) ''Expecting V7 final handshake packet, received something else'') (\<lambda>_.
     thenM (liftR (get_u32 b)) (\<lambda>(unknown, b).
     thenM (liftR (get_u32 b)) (\<lambda>(unknown, b).
     thenM (if unknown = 0x00000001 then ret () else raise (Disconnected ''Ignoring weird direct connection'')) (\<lambda>_.
     ret (advance 24 b))))))))"

definition ft_to :: "dc_phase \<Rightarrow> unit ftm" where
  "ft_to p = upd_dc (\<lambda>d. d\<lparr>dc_state := p\<rparr>)"

definition ft_enter_connected :: "ft_env \<Rightarrow> unit ftm" where
  "ft_enter_connected E =
     thenM (ft_to CONNECTED) (\<lambda>_. thenM (ft_flush_queue E) (\<lambda>_. put_ft [Shared ConnectedSignal]))"

text \<open>What is done with one packet.\<close>

definition ft_handle_packet :: "ft_env \<Rightarrow> buffer \<Rightarrow> unit ftm" where
  "ft_handle_packet E sb =
     thenM (gets (\<lambda>s. (dc_state (fc_dc s), dc_incoming (fc_dc s)))) (\<lambda>(st, incoming).
     case st of
       WAITING_FOR_INIT \<Rightarrow>
         thenM (ft_ParseInitPacket E sb) (\<lambda>_.
         thenM (ft_SendInitAck E) (\<lambda>_.
         if incoming then thenM (ft_SendInitPacket E) (\<lambda>_. ft_to WAITING_FOR_INIT_ACK)
         else ft_enter_connected E))
     | WAITING_FOR_INIT_ACK \<Rightarrow>
         thenM (ft_ParseInitAck E sb) (\<lambda>_.
         if incoming then thenM (ft_ConfirmUIN E) (\<lambda>_. ft_enter_connected E)
         else ft_to WAITING_FOR_INIT)
     | WAITING_FOR_INIT2 \<Rightarrow>
         thenM (shared E (\<lambda>_. ft_ParseInit2 sb)) (\<lambda>_.
         thenM (if incoming then thenM (ft_SendInit2 E) (\<lambda>_. ft_ConfirmUIN E) else ret ()) (\<lambda>_.
         ft_enter_connected E))
     | CONNECTED \<Rightarrow> thenM (ft_ParsePacket E sb) (\<lambda>_. ret ())
     | NOT_CONNECTED \<Rightarrow> ret ())"

text \<open>As for direct connections, except that an empty packet ends the loop and stays in the buffer.\<close>

definition ft_next_packet :: "buffer \<Rightarrow> (buffer option \<times> buffer) result" where
  "ft_next_packet recv =
     andThen (get_u16 (setLittleEndian (setPos 0 recv))) (\<lambda>(len, recv).
     if unat len > Incoming_Packet_Limit then Inl (ParseException ''Received too long incoming packet'')
     else if len = 0 then Inr (None, recv)
     else if remains recv < ucast len then Inr (None, recv)
     else andThen (chopOffBuffer recv new_buffer (ucast len + 2)) (\<lambda>(recv, sb). Inr (Some sb, recv)))"

lemma ft_next_packet_eq: "ft_next_packet recv = Inr (Some sb, recv') \<Longrightarrow> next_packet recv = Inr (Some sb, recv')"
  by (auto simp: ft_next_packet_def next_packet_def andThen_eq_Inr split: if_splits)

function ft_Parse :: "ft_env \<Rightarrow> buffer \<Rightarrow> ftc \<Rightarrow> (exn + buffer) \<times> ftc" where
  "ft_Parse E recv s =
     (if buf_empty recv then (Inr recv, s)
      else case ft_next_packet recv of
             Inl e \<Rightarrow> (Inl (Fault e), s)
           | Inr (None, recv) \<Rightarrow> (Inr recv, s)
           | Inr (Some sb, recv) \<Rightarrow>
               (case ft_handle_packet E sb s of
                  (Inl e, s) \<Rightarrow> (Inl e, s)
                | (Inr _, s) \<Rightarrow> ft_Parse E recv s))"
  by pat_completeness auto
termination
  by (relation "measure (\<lambda>(E, recv, s). length (m_data recv))") (auto dest: ft_next_packet_eq next_packet_shorter)

declare ft_Parse.simps [simp del]

fun ft_Recv :: "ft_env \<Rightarrow> u8 list option list \<Rightarrow> buffer \<Rightarrow> ftc \<Rightarrow> (exn + buffer) \<times> ftc" where
  "ft_Recv E [] recv s = (Inr recv, s)"
| "ft_Recv E (None # cs) recv s = (Inl (as_disconnected SocketError), s)"
| "ft_Recv E (Some c # cs) recv s =
     (case ft_Parse E (pack_bytes c recv) s of
        (Inl e, s) \<Rightarrow> (Inl (as_disconnected e), s)
      | (Inr recv, s) \<Rightarrow> ft_Recv E cs recv s)"

section \<open>Expiry\<close>

definition ft_expired :: "unit ftm" where
  "ft_expired =
     thenM (modify (\<lambda>s. s\<lparr>fc_event := (fc_event s)\<lparr>m_finished := Some False, m_delivered := Some False,
                           m_isdirect := Some True\<rparr>\<rparr>)) (\<lambda>_.
     thenM (upd_fe (\<lambda>fe. fe\<lparr>fe_state := FT_TIMEOUT\<rparr>)) (\<lambda>_.
     thenM (gets whole_event) (\<lambda>ev. put_ft [ExpiredTransfer ev])))"

definition ft_clearoutMessagesPoll :: "ft_env \<Rightarrow> unit ftm" where
  "ft_clearoutMessagesPoll E =
     thenM (gets id) (\<lambda>s.
     if dc_state (fc_dc s) \<noteq> CONNECTED \<and> te_now E > fc_timestamp s + fc_timeout s then ft_expired else ret ())"

text \<open>\<open>SetupFileTransfer\<close> only counts the files; the look at the directory is disabled in the code.\<close>

definition SetupFileTransfer :: "ft_event \<Rightarrow> ft_event" where
  "SetupFileTransfer fe = fe\<lparr>fe_totfiles := Some (getFilesInQueue fe), fe_currfile := Some 0\<rparr>"

end
