(* ===== verification/Transfers.thy ===== *)
theory Transfers
  imports FileTransfer ClientApi
begin

text \<open>
  What the client does with file transfers: \<^verbatim>\<open>SendFileTransfer\<close>, \<^verbatim>\<open>SendFileTransferACK\<close>, \<^verbatim>\<open>CancelFileTransfer\<close>, the
  parts of \<^verbatim>\<open>socket_cb\<close>, \<^verbatim>\<open>DisconnectDirectConn\<close> and \<^verbatim>\<open>Poll\<close> that serve them (\<^verbatim>\<open>src/Client.cpp\<close>), over the cache
  \<^verbatim>\<open>src/FTCache.h\<close>. An entry of the cache is a pointer, \<open>None\<close> the null pointer. The events belong to the
  application and are shared: they are kept in a store, and an operation of a transfer works on the one in the store.

  What these functions ask of the rest of the client (sending an event, an acknowledgement or a cancellation,
  giving up a direct connection) is an output, and what comes back is a component of \<open>transfer_env\<close>. A member that was
  never set is read as some value of the environment: the pointer to the socket of an incoming transfer
  (\<open>xe_null\<close>) and the descriptor of a server that was not started (\<open>xe_unset_fd\<close>).
\<close>

section \<open>State\<close>

datatype transfer_output =
    FileOutput ft_output
  | UpdateSignal message_event
  | AddFd int socket_mode
  | RemoveFd int
  | AskSendEvent message_event
  | AskFTACK message_event
  | AskFTCancel message_event
  | AskAckThroughServer icbm_cookie ft_part
  | AskDropPeer

text \<open>A transfer, with whether the client listens to its signals \<^verbatim>\<open>socket\<close> and \<^verbatim>\<open>messageack\<close>.\<close>

record transfer =
  tr_event :: nat
  tr_ftc :: ftc
  tr_recv :: buffer
  tr_socket :: bool
  tr_messageack :: bool

record transfers =
  tx_cache :: "(int, transfer option) cache"
  tx_events :: "nat \<Rightarrow> message_event \<times> ft_event"
  tx_out :: "transfer_output list"

record transfer_env =
  xe_ft :: ft_env
  xe_mh :: handler
  xe_ext_ip :: u32
  xe_port :: u16
  xe_listens :: "(int \<times> u16) option"
  xe_accept :: "(int \<times> u32 \<times> u32) option"
  xe_finishes :: bool
  xe_peer :: bool
  xe_peer_sends :: bool
  xe_cookie :: icbm_cookie
  xe_null :: bool
  xe_unset_fd :: int

type_synonym 'a tm = "(transfers, 'a) effect"

definition new_transfers :: "(nat \<Rightarrow> message_event \<times> ft_event) \<Rightarrow> transfers" where
  "new_transfers evs = \<lparr>tx_cache = setDefaultTimeout 30 new_cache, tx_events = evs, tx_out = []\<rparr>"

definition put_tx :: "transfer_output list \<Rightarrow> unit tm" where
  "put_tx os = modify (\<lambda>s. s\<lparr>tx_out := tx_out s @ os\<rparr>)"

definition shared_event :: "nat \<Rightarrow> transfers \<Rightarrow> message_event" where
  "shared_event i s = (case tx_events s i of (ev, fe) \<Rightarrow> ev\<lparr>ev_body := FileTransferEvent fe\<rparr>)"

definition upd_shared :: "nat \<Rightarrow> (message_event \<Rightarrow> message_event) \<Rightarrow> (ft_event \<Rightarrow> ft_event) \<Rightarrow> unit tm" where
  "upd_shared i f g = modify (\<lambda>s. s\<lparr>tx_events := (tx_events s)(i := map_prod f g (tx_events s i))\<rparr>)"

definition transfer_state :: "nat \<Rightarrow> transfers \<Rightarrow> ft_state" where
  "transfer_state i s = fe_state (snd (tx_events s i))"

definition set_transfer_state :: "nat \<Rightarrow> ft_state \<Rightarrow> unit tm" where
  "set_transfer_state i st = upd_shared i id (\<lambda>fe. fe\<lparr>fe_state := st\<rparr>)"

text \<open>\<^verbatim>\<open>filetransfer_update_signal.emit(ev)\<close>\<close>

definition signal_update :: "nat \<Rightarrow> unit tm" where
  "signal_update i = thenM (gets (shared_event i)) (\<lambda>ev. put_tx [UpdateSignal ev])"

definition transfer_failed :: "nat \<Rightarrow> string \<Rightarrow> unit tm" where
  "transfer_failed i msg =
     thenM (upd_shared i id (\<lambda>fe. fe\<lparr>fe_state := FT_ERROR, fe_error := msg\<rparr>)) (\<lambda>_. signal_update i)"

section \<open>Running a transfer\<close>

text \<open>What becomes of an output of a transfer; \<^verbatim>\<open>ftc_messageack_cb\<close> and \<^verbatim>\<open>dc_socket_cb\<close> pass signals on.\<close>

fun transfer_signal :: "transfer \<Rightarrow> ft_output \<Rightarrow> transfer_output list" where
  "transfer_signal t (Update ev) = [UpdateSignal ev]"
| "transfer_signal t (ExpiredTransfer ev) = (if tr_messageack t then [UpdateSignal ev] else [])"
| "transfer_signal t (FtAddSocket fd m) = (if tr_socket t then [AddFd fd m] else [])"
| "transfer_signal t (FtRemoveSocket fd) = (if tr_socket t then [RemoveFd fd] else [])"
| "transfer_signal t x = [FileOutput x]"

definition run_transfer :: "transfer \<Rightarrow> 'a ftm \<Rightarrow> ((exn + 'a) \<times> transfer) tm" where
  "run_transfer t m = (\<lambda>s.
     case tx_events s (tr_event t) of (ev, fe) \<Rightarrow>
       case m ((tr_ftc t)\<lparr>fc_event := ev, fc_fe := fe, fc_out := []\<rparr>) of (r, f) \<Rightarrow>
         (Inr (r, t\<lparr>tr_ftc := f\<lparr>fc_out := []\<rparr>\<rparr>),
          s\<lparr>tx_events := (tx_events s)(tr_event t := (fc_event f, fc_fe f)),
            tx_out := tx_out s @ concat (map (transfer_signal t) (fc_out f))\<rparr>))"

text \<open>\<^verbatim>\<open>(*m_ftcache)[fd]\<close>, as a value and as the left of an assignment.\<close>

definition entry_at :: "transfer_env \<Rightarrow> int \<Rightarrow> transfer option tm" where
  "entry_at E fd = (\<lambda>s.
     case cache_index None fd (te_now (xe_ft E)) (tx_cache s) of (v, c) \<Rightarrow> (Inr v, s\<lparr>tx_cache := c\<rparr>))"

definition transfer_at :: "transfer_env \<Rightarrow> int \<Rightarrow> transfer tm" where
  "transfer_at E fd =
     thenM (entry_at E fd) (\<lambda>v. case v of None \<Rightarrow> raise (Fault NullPointer) | Some t \<Rightarrow> ret t)"

definition upd_entry :: "int \<Rightarrow> transfer \<Rightarrow> unit tm" where
  "upd_entry fd t = modify (\<lambda>s. s\<lparr>tx_cache := cache_update fd (\<lambda>_. Some t) (tx_cache s)\<rparr>)"

definition put_transfer :: "transfer_env \<Rightarrow> int \<Rightarrow> transfer \<Rightarrow> unit tm" where
  "put_transfer E fd t = thenM (entry_at E fd) (\<lambda>_. upd_entry fd t)"

definition with_transfer :: "int \<Rightarrow> transfer \<Rightarrow> 'a ftm \<Rightarrow> (exn + 'a) tm" where
  "with_transfer fd t m =
     thenM (run_transfer t m) (\<lambda>(r, t). thenM (upd_entry fd t) (\<lambda>_. ret r))"

definition socket_fd :: "transfer \<Rightarrow> int option" where
  "socket_fd t = map_option snd (fc_socket (tr_ftc t))"

text \<open>\<^verbatim>\<open>FTCache::removeItem\<close>\<close>

definition delete_transfer :: "transfer option \<Rightarrow> unit tm" where
  "delete_transfer v =
     (case v of
        None \<Rightarrow> ret ()
      | Some t \<Rightarrow>
          thenM (run_transfer t delete_ftc) (\<lambda>(r, t). case r of Inl e \<Rightarrow> raise e | Inr _ \<Rightarrow> ret ()))"

definition erase_transfer :: "int \<Rightarrow> unit tm" where
  "erase_transfer fd = modify (\<lambda>s. s\<lparr>tx_cache := ft_remove_and_not_delete fd (tx_cache s)\<rparr>)"

definition remove_transfer :: "int \<Rightarrow> transfer option \<Rightarrow> unit tm" where
  "remove_transfer fd v = thenM (delete_transfer v) (\<lambda>_. erase_transfer fd)"

definition settled :: "ft_state \<Rightarrow> bool" where
  "settled st \<longleftrightarrow> st \<in> {FT_COMPLETE, FT_CLOSE, FT_ERROR}"

text \<open>\<^verbatim>\<open>DisconnectDirectConn(fd)\<close> for the descriptor of a transfer.\<close>

definition drop_transfer :: "transfer_env \<Rightarrow> int \<Rightarrow> unit tm" where
  "drop_transfer E fd =
     thenM (gets (\<lambda>s. cache_exists fd (tx_cache s))) (\<lambda>found.
     if \<not> found then ret ()
     else
       thenM (transfer_at E fd) (\<lambda>t.
       thenM (remove_transfer fd (Some t)) (\<lambda>_.
       thenM (gets (transfer_state (tr_event t))) (\<lambda>st.
       thenM (if settled st then ret () else set_transfer_state (tr_event t) FT_CANCELLED) (\<lambda>_.
       signal_update (tr_event t))))))"

text \<open>\<^verbatim>\<open>m_ftcache->removeAll()\<close>, when the connection to the server ends.\<close>

definition drop_transfers :: "unit tm" where
  "drop_transfers =
     thenM (gets (\<lambda>s. map (\<lambda>i. (m_key i, m_value i)) (m_list (tx_cache s))))
       (eachM (\<lambda>(fd, v). remove_transfer fd v))"

section \<open>Starting\<close>

text \<open>The exceptions that \<^verbatim>\<open>Connect\<close> throws; any other would be logged and swallowed.\<close>

definition connect_failure :: "exn \<Rightarrow> bool" where
  "connect_failure e \<longleftrightarrow> e = SocketError \<or> (\<exists>msg. e = Disconnected msg)"

definition new_outgoing :: "transfer_env \<Rightarrow> nat \<Rightarrow> transfers \<Rightarrow> transfer" where
  "new_outgoing E i s =
     (case tx_events s i of (ev, fe) \<Rightarrow>
        \<lparr>tr_event = i, tr_ftc = new_ftc_to (xe_ft E) (xe_mh E) (ev_contact ev) (xe_ext_ip E) (xe_port E) ev fe,
         tr_recv = new_buffer, tr_socket = True, tr_messageack = False\<rparr>)"

definition start_transfer :: "transfer_env \<Rightarrow> int \<Rightarrow> transfer \<Rightarrow> unit tm" where
  "start_transfer E fd t =
     thenM (put_transfer E fd t) (\<lambda>_.
     thenM (with_transfer fd t (ft_SendEvent (xe_ft E))) (\<lambda>r.
     case r of
       Inr _ \<Rightarrow> thenM (set_transfer_state (tr_event t) FT_SEND) (\<lambda>_. signal_update (tr_event t))
     | Inl (Disconnected msg) \<Rightarrow> drop_transfer E fd
     | Inl e \<Rightarrow> raise e))"

definition SendFileTransfer :: "transfer_env \<Rightarrow> nat \<Rightarrow> unit tm" where
  "SendFileTransfer E i =
     thenM (gets id) (\<lambda>s.
     if transfer_state i s = FT_NOT_CONNECTED then
       thenM (upd_shared i id SetupFileTransfer) (\<lambda>_.
       thenM (set_transfer_state i FT_WAIT_RESPONS) (\<lambda>_.
       thenM (signal_update i) (\<lambda>_.
       thenM (upd_shared i (\<lambda>ev. ev\<lparr>m_isdirect := Some (getDirect (mh_store (xe_mh E) (ev_contact ev)))\<rparr>) id) (\<lambda>_.
       thenM (gets (shared_event i)) (\<lambda>ev. put_tx [AskSendEvent ev])))))
     else
       thenM (run_transfer (new_outgoing E i s) (ft_Connect (xe_ft E))) (\<lambda>(r, t).
       case r of
         Inr _ \<Rightarrow> thenM (read (\<lambda>_. socket_fd t)) (\<lambda>fd. start_transfer E fd t)
       | Inl e \<Rightarrow>
           if connect_failure e then
             thenM (transfer_failed i ''ERROR while trying to connect'') (\<lambda>_. delete_transfer (Some t))
           else ret ()))"

section \<open>Answering\<close>

text \<open>The transfer that waits for the other side; a server that cannot be started throws.\<close>

definition open_incoming :: "transfer_env \<Rightarrow> nat \<Rightarrow> unit tm" where
  "open_incoming E i =
     (case xe_listens E of
        None \<Rightarrow> raise SocketError
      | Some (fd, port) \<Rightarrow>
          thenM (put_tx [AddFd fd READ]) (\<lambda>_.
          thenM (upd_shared i id (\<lambda>fe. fe\<lparr>fe_port := Some port\<rparr>)) (\<lambda>_.
          thenM (gets (\<lambda>s. tx_events s i)) (\<lambda>(ev, fe).
          put_transfer E fd
            \<lparr>tr_event = i, tr_ftc = new_ftc (xe_ft E) (xe_mh E) (xe_ext_ip E) (xe_port E) ev fe (fd, port),
             tr_recv = new_buffer, tr_socket = False, tr_messageack = False\<rparr>))))"

text \<open>\<^verbatim>\<open>FTICQSubType(message, description, size)\<close>\<close>

definition ft_answer :: "ft_event \<Rightarrow> ft_part" where
  "ft_answer fe =
     new_FTICQSubType\<lparr>ft_message := fe_message fe, ft_description := fe_description fe, ft_size := fe_totsize fe\<rparr>"

definition answer_direct :: "transfer_env \<Rightarrow> nat \<Rightarrow> unit tm" where
  "answer_direct E i =
     thenM (gets (transfer_state i)) (\<lambda>st.
     thenM (if st = FT_ACCEPTED then open_incoming E i else ret ()) (\<lambda>_.
     thenM (gets (shared_event i)) (\<lambda>ev.
     thenM (put_tx (AskFTACK ev # (if xe_peer_sends E then [] else [AskDropPeer]))) (\<lambda>_.
     set_transfer_state i (if st = FT_ACCEPTED then FT_RECEIVE else FT_NOT_CONNECTED)))))"

definition answer_through_server :: "transfer_env \<Rightarrow> nat \<Rightarrow> unit tm" where
  "answer_through_server E i =
     thenM (gets (\<lambda>s. ft_answer (snd (tx_events s i)))) (\<lambda>f.
     thenM (gets (transfer_state i)) (\<lambda>st.
     if st = FT_ACCEPTED then
       thenM (open_incoming E i) (\<lambda>_.
       thenM (read (\<lambda>s. fe_port (snd (tx_events s i)))) (\<lambda>port.
       thenM (set_transfer_state i FT_RECEIVE) (\<lambda>_.
       put_tx [AskAckThroughServer (xe_cookie E) (setRevPort port (f\<lparr>ft_port := port\<rparr>))])))
     else
       thenM (set_transfer_state i FT_NOT_CONNECTED) (\<lambda>_. put_tx [AskAckThroughServer (xe_cookie E) f])))"

definition SendFileTransferACK :: "transfer_env \<Rightarrow> nat \<Rightarrow> unit tm" where
  "SendFileTransferACK E i =
     thenM (read (\<lambda>s. m_isdirect (fst (tx_events s i)))) (\<lambda>direct.
     if direct \<and> \<not> xe_peer E then transfer_failed i ''Couldn't open an Direct connection to target''
     else
       thenM (if direct then answer_direct E i else answer_through_server E i) (\<lambda>_. signal_update i))"

section \<open>Cancelling\<close>

text \<open>\<^verbatim>\<open>m_ftcache->getByEvent(ev)\<close>, which goes through the entries up to the first that fits.\<close>

fun find_by_event :: "nat \<Rightarrow> transfer option list \<Rightarrow> transfer option tm" where
  "find_by_event i [] = ret None"
| "find_by_event i (None # vs) = raise (Fault NullPointer)"
| "find_by_event i (Some t # vs) = (if tr_event t = i then ret (Some t) else find_by_event i vs)"

definition transfer_by_event :: "nat \<Rightarrow> transfer option tm" where
  "transfer_by_event i = thenM (gets (\<lambda>s. map m_value (m_list (tx_cache s)))) (find_by_event i)"

definition cancel_request :: "transfer_env \<Rightarrow> nat \<Rightarrow> unit tm" where
  "cancel_request E i =
     thenM (gets (shared_event i)) (\<lambda>ev. put_tx (AskFTCancel ev # (if xe_peer_sends E then [] else [AskDropPeer])))"

definition cancel_connection :: "transfer_env \<Rightarrow> nat \<Rightarrow> unit tm" where
  "cancel_connection E i =
     thenM (transfer_by_event i) (\<lambda>v.
     case v of
       None \<Rightarrow> ret ()
     | Some t \<Rightarrow> thenM (read (\<lambda>_. socket_fd t)) (drop_transfer E))"

definition CancelFileTransfer :: "transfer_env \<Rightarrow> nat option \<Rightarrow> unit tm" where
  "CancelFileTransfer E ev =
     (case ev of
        None \<Rightarrow> raise (Fault NullPointer)
      | Some i \<Rightarrow>
          thenM (gets (transfer_state i)) (\<lambda>st.
          let finish = thenM (set_transfer_state i FT_NOT_CONNECTED) (\<lambda>_. signal_update i) in
          if st = FT_WAIT_RESPONS then
            thenM (read (\<lambda>s. m_isdirect (fst (tx_events s i)))) (\<lambda>direct.
            if direct \<and> \<not> xe_peer E then transfer_failed i ''Couldn't send filetransfer cancel to target direct''
            else thenM (if direct then cancel_request E i else ret ()) (\<lambda>_. finish))
          else if st \<in> {FT_CLOSE, FT_ACCEPTED, FT_TIMEOUT} then thenM (cancel_connection E i) (\<lambda>_. finish)
          else finish))"

section \<open>Sockets and polls\<close>

definition listen_fd_of :: "transfer_env \<Rightarrow> transfer \<Rightarrow> int" where
  "listen_fd_of E t = (case fc_listen (tr_ftc t) of None \<Rightarrow> xe_unset_fd E | Some (fd, port) \<Rightarrow> fd)"

text \<open>\<^verbatim>\<open>m_ftcache->exists_listenfd(fd)\<close>, which goes through the entries up to the first that fits.\<close>

fun find_listening :: "transfer_env \<Rightarrow> int \<Rightarrow> transfer option list \<Rightarrow> bool tm" where
  "find_listening E fd [] = ret False"
| "find_listening E fd (None # vs) = raise (Fault NullPointer)"
| "find_listening E fd (Some t # vs) = (if listen_fd_of E t = fd then ret True else find_listening E fd vs)"

definition exists_listenfd :: "transfer_env \<Rightarrow> int \<Rightarrow> bool tm" where
  "exists_listenfd E fd =
     thenM (gets (\<lambda>s. map m_value (m_list (tx_cache s)))) (find_listening E fd)"

definition no_socket :: "transfer_env \<Rightarrow> transfer \<Rightarrow> bool" where
  "no_socket E t = (case fc_socket (tr_ftc t) of None \<Rightarrow> xe_null E | Some _ \<Rightarrow> False)"

definition accept_transfer :: "transfer_env \<Rightarrow> int \<Rightarrow> transfer \<Rightarrow> unit tm" where
  "accept_transfer E listen_fd t =
     (case xe_accept E of
        None \<Rightarrow> raise SocketError
      | Some (fd, ip, local_ip) \<Rightarrow>
          thenM (run_transfer t (ft_setSocket fd ip local_ip)) (\<lambda>(r, t).
          thenM (erase_transfer listen_fd) (\<lambda>_.
          thenM (put_transfer E fd (t\<lparr>tr_socket := True, tr_messageack := True\<rparr>)) (\<lambda>_.
          put_tx [AddFd fd READ]))))"

text \<open>The part of \<^verbatim>\<open>socket_cb\<close> for a socket on which a transfer listens.\<close>

definition transfer_listen_cb :: "transfer_env \<Rightarrow> int \<Rightarrow> unit tm" where
  "transfer_listen_cb E fd =
     thenM (transfer_at E fd) (\<lambda>t. if no_socket E t then accept_transfer E fd t else ret ())"

definition drop_disconnected :: "transfer_env \<Rightarrow> int \<Rightarrow> (exn + 'a) \<Rightarrow> unit tm" where
  "drop_disconnected E fd r =
     (case r of Inr _ \<Rightarrow> ret () | Inl (Disconnected msg) \<Rightarrow> drop_transfer E fd | Inl e \<Rightarrow> raise e)"

definition transfer_recv :: "transfer_env \<Rightarrow> u8 list option list \<Rightarrow> int \<Rightarrow> transfer \<Rightarrow> (exn + transfer) tm" where
  "transfer_recv E cs fd t =
     thenM (run_transfer t (ft_Recv (xe_ft E) cs (tr_recv t))) (\<lambda>(r, t).
     case r of
       Inl e \<Rightarrow> thenM (upd_entry fd t) (\<lambda>_. ret (Inl e))
     | Inr recv \<Rightarrow>
         (let t = t\<lparr>tr_recv := recv\<rparr> in thenM (upd_entry fd t) (\<lambda>_. ret (Inr t))))"

definition set_socket_state :: "socket_state \<Rightarrow> transfer \<Rightarrow> transfer" where
  "set_socket_state st t =
     t\<lparr>tr_ftc := (tr_ftc t)\<lparr>fc_socket := map_option (\<lambda>(_, fd). (st, fd)) (fc_socket (tr_ftc t))\<rparr>\<rparr>"

definition connected_cb :: "transfer_env \<Rightarrow> int \<Rightarrow> transfer \<Rightarrow> unit tm" where
  "connected_cb E fd t =
     (if \<not> xe_finishes E then
        thenM (upd_entry fd (set_socket_state SOCK_NOT_CONNECTED t)) (\<lambda>_. drop_transfer E fd)
      else
        thenM (put_tx [RemoveFd fd, AddFd fd READ]) (\<lambda>_.
        thenM (with_transfer fd (set_socket_state SOCK_CONNECTED t) (ft_FinishNonBlockingConnect (xe_ft E))) (\<lambda>r.
        thenM (drop_disconnected E fd r) (\<lambda>_.
        if r = Inr () then put_tx [RemoveFd fd, AddFd fd WRITE] else raise UseAfterFree))))"

text \<open>The part for the socket of a transfer.\<close>

definition transfer_socket_cb :: "transfer_env \<Rightarrow> u8 list option list \<Rightarrow> int \<Rightarrow> socket_mode set \<Rightarrow> unit tm" where
  "transfer_socket_cb E cs fd modes =
     thenM (transfer_at E fd) (\<lambda>t.
     thenM (read (\<lambda>_. map_option fst (fc_socket (tr_ftc t)))) (\<lambda>st.
     if st = SOCK_NONBLOCKING_CONNECT \<and> WRITE \<in> modes then connected_cb E fd t
     else if st = SOCK_CONNECTED \<and> READ \<in> modes then
       thenM (transfer_recv E cs fd t) (drop_disconnected E fd)
     else if st = SOCK_CONNECTED \<and> WRITE \<in> modes then
       thenM (transfer_recv E cs fd t) (\<lambda>r.
       case r of
         Inl e \<Rightarrow> drop_disconnected E fd r
       | Inr t \<Rightarrow> thenM (with_transfer fd t (ft_SendEvent (xe_ft E))) (drop_disconnected E fd))
     else drop_transfer E fd))"

text \<open>
  What \<^verbatim>\<open>socket_cb\<close> does for a descriptor that is neither one of the server connection nor the socket on which the
  client listens, nor that of a direct connection or of the mail client.
\<close>

definition transfers_cb :: "transfer_env \<Rightarrow> u8 list option list \<Rightarrow> int \<Rightarrow> socket_mode set \<Rightarrow> unit tm" where
  "transfers_cb E cs fd modes =
     thenM (exists_listenfd E fd) (\<lambda>listening.
     if listening then transfer_listen_cb E fd
     else
       thenM (gets (\<lambda>s. cache_exists fd (tx_cache s))) (\<lambda>found.
       if found then transfer_socket_cb E cs fd modes else ret ()))"

text \<open>\<^verbatim>\<open>m_ftcache->clearoutMessagesPoll()\<close>; no signal is made of an expiry the client does not listen to.\<close>

definition poll_transfer :: "transfer_env \<Rightarrow> int \<times> transfer option \<Rightarrow> unit tm" where
  "poll_transfer E x =
     (case x of
        (fd, None) \<Rightarrow> raise (Fault NullPointer)
      | (fd, Some t) \<Rightarrow>
          thenM (with_transfer fd t (ft_clearoutMessagesPoll (xe_ft E))) (\<lambda>r.
          case r of Inl e \<Rightarrow> raise e | Inr _ \<Rightarrow> ret ()))"

definition poll_transfers :: "transfer_env \<Rightarrow> unit tm" where
  "poll_transfers E =
     thenM (gets (\<lambda>s. map (\<lambda>i. (m_key i, m_value i)) (m_list (tx_cache s)))) (eachM (poll_transfer E))"

end
