(* ===== verification/FileTransferProps.thy ===== *)
theory FileTransferProps
  imports FileTransfer DirectConnection
begin

text \<open>
  What a file transfer does (\<open>FileTransfer\<close>): the data of a file arrives as it was read, the names the sender
  writes are the names the receiver uses, whatever they are, and an empty packet stops a connection for good.
\<close>

declare enc16.simps [simp del] enc32.simps [simp del]

section \<open>Sending the data of a file\<close>

definition written :: "ft_output list \<Rightarrow> u8 list" where
  "written os = concat (map (\<lambda>x. case x of WriteFile bs \<Rightarrow> bs | _ \<Rightarrow> []) os)"

definition sent_packets :: "ft_output list \<Rightarrow> u8 list list" where
  "sent_packets os = concat (map (\<lambda>x. case x of Shared (Sent f) \<Rightarrow> [f] | _ \<Rightarrow> []) os)"

lemma output_simps [simp]:
  "written (os @ os') = written os @ written os'" "written [] = []" "written [WriteFile bs] = bs"
  "sent_packets (os @ os') = sent_packets os @ sent_packets os'" "sent_packets [] = []"
  "sent_packets (Shared (Sent f) # os) = f # sent_packets os" "sent_packets (Update ev # os) = sent_packets os"
  by (simp_all add: written_def sent_packets_def)

text \<open>The packet with the given piece of a file.\<close>

definition piece :: "u8 list \<Rightarrow> u8 list" where
  "piece bs = frame (6 # bs)"

text \<open>The file with these contents is being sent, from the given position on.\<close>

definition sending :: "ft_env \<Rightarrow> u8 list \<Rightarrow> nat \<Rightarrow> ftc \<Rightarrow> bool" where
  "sending E bs p s \<longleftrightarrow>
     (\<forall>n. te_sends E n) \<and> ft_connected s \<and> \<not> fc_msgqueue s \<and> fc_continue s \<and> fc_more s \<and>
     fc_in s = \<lparr>if_open = True, if_good = True, if_data = bs, if_pos = p\<rparr> \<and> p \<le> length bs \<and> length bs < 2 ^ 32 \<and>
     fe_size (fc_fe s) = Some (word_of_nat (length bs)) \<and> fe_pos (fc_fe s) = word_of_nat p"

fun send_rounds :: "nat \<Rightarrow> ft_env \<Rightarrow> unit ftm" where
  "send_rounds 0 E = ret ()"
| "send_rounds (Suc n) E = thenM (SendFile E) (\<lambda>_. send_rounds n E)"

definition rounds :: "nat \<Rightarrow> nat" where
  "rounds n = (n - 1) div 2048 + 1"

lemma ft_packet_app:
  assumes "fill (app (enc16 LITTLE 0 @ [t]) (setLittleEndian new_buffer)) =
      app (enc16 LITTLE 0 @ t # bs) (setLittleEndian new_buffer)" and "length bs < 2 ^ 31"
  shows "ft_packet t fill = Inr (app (frame (t # bs)) (setLittleEndian new_buffer))"
  using assms fill_app0 [of 0 "setLittleEndian new_buffer" "t # bs" LITTLE LITTLE 0]
  by (simp add: ft_packet_def short_marker_app put_app frame_def)

lemma ft_Send_works:
  assumes "\<forall>n. te_sends E n" and "ft_connected s" and "b = Inr (app f (setLittleEndian new_buffer))"
  shows "ft_Send E b s = (Inr (), s\<lparr>fc_dc := (fc_dc s)\<lparr>dc_out := []\<rparr>, fc_out := fc_out s @ [Shared (Sent f)]\<rparr>)"
  using assms by (simp add: ft_Send_def shared_def dc_Send_def shared_env_def)

lemma SendPacket0x06_works:
  assumes "sending E bs p s" and "xs = take 2048 (drop p bs)"
  shows "\<exists>u. snd (SendPacket0x06 E s) = u \<and> fc_out u = fc_out s @ [Shared (Sent (piece xs))] \<and>
    fe_pos (fc_fe u) = word_of_nat (p + length xs) \<and>
    (p + 2048 < length bs \<longrightarrow> fst (SendPacket0x06 E s) = Inr () \<and> sending E bs (p + 2048) u)"
proof -
  have s: "fc_in s = \<lparr>if_open = True, if_good = True, if_data = bs, if_pos = p\<rparr>" "\<forall>n. te_sends E n"
    "ft_connected s" "\<not> fc_msgqueue s" "fc_continue s" "fc_more s" "p \<le> length bs" "length bs < 2 ^ 32"
    "fe_size (fc_fe s) = Some (word_of_nat (length bs))" "fe_pos (fc_fe s) = word_of_nat p"
    using assms(1) by (simp_all add: sending_def)
  let ?f = "\<lparr>if_open = True, if_good = length xs = 2048, if_data = bs, if_pos = p + length xs\<rparr>"
  let ?t = "s\<lparr>fc_in := ?f, fc_fe := advance_pos (word_of_nat (length xs)) (fc_fe s)\<rparr>"
  let ?u = "?t\<lparr>fc_dc := (fc_dc s)\<lparr>dc_out := []\<rparr>, fc_out := fc_out s @ [Shared (Sent (piece xs))]\<rparr>"
  have con: "ft_connected ?t"
    using s(3) by (simp add: ft_connected_def)
  have "ft_packet 6 (pack_bytes xs) = Inr (app (piece xs) (setLittleEndian new_buffer))"
    unfolding piece_def using assms(2) by (intro ft_packet_app) (simp_all add: put_string_app)
  then have send: "ft_Send E (ft_packet 6 (pack_bytes xs)) ?t = (Inr (), ?u)"
    using ft_Send_works [OF s(2) con] by simp
  have run: "SendPacket0x06 E s =
    (if fe_pos (fc_fe ?u) < word_of_nat (length bs) then (Inr (), ?u\<lparr>fc_more := True\<rparr>)
     else (if getFilesInQueue (fc_fe s) = 0 then complete_transfer else ret ()) (?u\<lparr>fc_more := False\<rparr>))"
    using s(1,9) send assms(2)
    by (simp add: SendPacket0x06_def read_in_def upd_fe_def thenM_def getFilesInQueue_def advance_pos_def Let_def)
  have pos: "fe_pos (fc_fe ?u) = word_of_nat (p + length xs)"
    using s(10) by (simp add: advance_pos_def)
  have len: "p + 2048 < length bs \<Longrightarrow> length xs = 2048"
    using assms(2) by simp
  have lt: "p + 2048 < length bs \<Longrightarrow> (word_of_nat (p + 2048) :: u32) < word_of_nat (length bs)"
    using s(8) by (simp add: word_less_nat_alt unat_of_nat_u32 del: of_nat_add)
  show ?thesis
    unfolding run using pos len lt s
    by (auto simp: sending_def complete_transfer_def upd_fe_def ft_connected_def advance_pos_def simp del: of_nat_add)
qed

lemma SendFile_step:
  assumes "sending E bs p s" and "xs = take 2048 (drop p bs)"
  shows "\<exists>u. snd (SendFile E s) = u \<and> sent_packets (fc_out u) = sent_packets (fc_out s) @ [piece xs] \<and>
    fe_pos (fc_fe u) = word_of_nat (p + length xs) \<and>
    (p + 2048 < length bs \<longrightarrow> fst (SendFile E s) = Inr () \<and> sending E bs (p + 2048) u)"
proof -
  obtain r t where t: "SendPacket0x06 E s = (r, t)" by (cases "SendPacket0x06 E s")
  have "SendFile E s = thenM (SendPacket0x06 E) (\<lambda>_. thenM (gets whole_event) (\<lambda>ev. put_ft [Update ev])) s"
    using assms(1) by (simp add: SendFile_def sending_def thenM_def)
  then show ?thesis
    using SendPacket0x06_works [OF assms] t
    by (cases r) (auto simp: put_ft_def sending_def ft_connected_def thenM_def)
qed

lemma rounds_Suc: "n > 2048 \<Longrightarrow> rounds n = Suc (rounds (n - 2048))"
proof -
  assume "n > 2048"
  then have "(n - 1) div 2048 = Suc ((n - 2048 - 1) div 2048)"
    using le_div_geq [of 2048 "n - 1"] by (simp add: diff_commute)
  then show ?thesis
    unfolding rounds_def by linarith
qed

lemma rounds_one: "n \<le> 2048 \<Longrightarrow> rounds n = 1"
  by (simp add: rounds_def)

text \<open>All pieces, in order.\<close>

lemma send_rounds_pieces:
  "sending E bs p s \<Longrightarrow> \<exists>u ps. snd (send_rounds (rounds (length bs - p)) E s) = u \<and>
     sent_packets (fc_out u) = sent_packets (fc_out s) @ map piece ps \<and> concat ps = drop p bs \<and> ps \<noteq> [] \<and>
     (\<forall>xs\<in>set ps. length xs \<le> 2048) \<and> fe_pos (fc_fe u) = word_of_nat (length bs)"
proof (induction "length bs - p" arbitrary: p s rule: less_induct)
  case less
  let ?xs = "take 2048 (drop p bs)"
  obtain u where u: "snd (SendFile E s) = u" "sent_packets (fc_out u) = sent_packets (fc_out s) @ [piece ?xs]"
    "fe_pos (fc_fe u) = word_of_nat (p + length ?xs)"
    "p + 2048 < length bs \<Longrightarrow> fst (SendFile E s) = Inr () \<and> sending E bs (p + 2048) u"
    using SendFile_step [OF less.prems refl] by blast
  have p: "p \<le> length bs" using less.prems by (simp add: sending_def)
  show ?case
  proof (cases "p + 2048 < length bs")
    case True
    have less: "length bs - (p + 2048) < length bs - p" and next_one: "sending E bs (p + 2048) u"
      using True u(4) by auto
    obtain v ps where v: "snd (send_rounds (rounds (length bs - (p + 2048))) E u) = v"
      "sent_packets (fc_out v) = sent_packets (fc_out u) @ map piece ps" "concat ps = drop (p + 2048) bs" "ps \<noteq> []"
      "\<forall>xs\<in>set ps. length xs \<le> 2048" "fe_pos (fc_fe v) = word_of_nat (length bs)"
      using less.hyps [OF less next_one] by blast
    have "SendFile E s = (Inr (), u)"
      using u(1,4) True by (cases "SendFile E s") simp
    moreover have "rounds (length bs - p) = Suc (rounds (length bs - (p + 2048)))"
      using True rounds_Suc [of "length bs - p"] by (simp add: diff_diff_left)
    ultimately have "snd (send_rounds (rounds (length bs - p)) E s) = v"
      using v(1) by simp
    moreover have "concat (?xs # ps) = drop p bs"
      using append_take_drop_id [of 2048 "drop p bs"] v(3) by (simp add: add.commute)
    moreover have "sent_packets (fc_out v) = sent_packets (fc_out s) @ map piece (?xs # ps)"
      using v(2) u(2) by simp
    moreover have "\<forall>xs\<in>set (?xs # ps). length xs \<le> 2048"
      using v(5) by simp
    ultimately show ?thesis
      using v(6) by blast
  next
    case False
    obtain r t where t: "SendFile E s = (r, t)" by (cases "SendFile E s")
    have "rounds (length bs - p) = Suc 0"
      using False by (simp add: rounds_one)
    then have "snd (send_rounds (rounds (length bs - p)) E s) = u"
      using u(1) t by (cases r) simp_all
    moreover have "concat [?xs] = drop p bs" "p + length ?xs = length bs"
      using False p by simp_all
    moreover have "sent_packets (fc_out u) = sent_packets (fc_out s) @ map piece [?xs]"
      using u(2) by simp
    ultimately show ?thesis
      using u(3) by (intro exI [of _ u] exI [of _ "[?xs]"]) (simp del: of_nat_add)
  qed
qed

section \<open>Receiving the data of a file\<close>

definition receiving :: "ftc \<Rightarrow> bool" where
  "receiving r \<longleftrightarrow> dc_state (fc_dc r) = CONNECTED \<and> fc_out_open r \<and> fc_out_good r"

lemma unread_remains: "wfb b \<Longrightarrow> remains b = word_of_nat (length (unread b))"
  by (simp add: wfb_def remains_def unread_def of_nat_diff)

lemma write_chunks_one:
  assumes "wfb b" and "length (unread b) \<le> 4096" and "receiving r"
  shows "\<exists>c os. write_chunks (word_of_nat (length (unread b))) b r = (Inr c, r\<lparr>fc_out := fc_out r @ os\<rparr>) \<and>
    written os = unread b"
proof (cases "unread b = []")
  case True
  then show ?thesis
    by (intro exI [of _ b] exI [of _ "[]"]) (simp add: write_chunks.simps)
next
  case False
  let ?n = "word_of_nat (length (unread b)) :: u16"
  have n: "unat ?n = length (unread b)"
    using assms(2) by (simp add: unat_of_nat)
  have le: "?n \<le> MAX_FileChunk"
    using n assms(2) by (simp add: MAX_FileChunk_def word_le_nat_alt)
  have nz: "?n \<noteq> 0"
    using n False by auto
  have u: "unat (ucast ?n :: u32) = length (unread b)"
    using n by simp
  have "Unpack_bytes (ucast (min ?n MAX_FileChunk)) b = Inr (unread b, advance (ucast ?n) b)"
    using Unpack_bytes_unread [OF assms(1), of "ucast ?n"] u le by (simp add: min_def)
  then show ?thesis
    using nz le assms(3)
    by (intro exI [of _ "advance (ucast ?n) b"] exI [of _ "[WriteFile (unread b)]"])
      (subst write_chunks.simps, simp add: write_out_def put_ft_def receiving_def thenM_def write_chunks.simps [of 0] leD)
qed

text \<open>The number of bytes received so far, all of them in the file.\<close>

definition complete :: "ftc \<Rightarrow> bool" where
  "complete r \<longleftrightarrow> fe_totpos (fc_fe r) \<ge> fe_totsize (fc_fe r)"

lemma receive_piece:
  assumes "receiving r" and "length xs \<le> 2048"
  shows "\<exists>u. ft_handle_packet E (buffer_of_bytes (piece xs)) r =
      ((if complete u then Inl (Disconnected ''FileTransfer is Complete'') else Inr ()), u) \<and>
    written (fc_out u) = written (fc_out r) @ xs \<and> fe_totpos (fc_fe u) = fe_totpos (fc_fe r) + word_of_nat (length xs) \<and>
    fe_totsize (fc_fe u) = fe_totsize (fc_fe r) \<and> (complete u \<longrightarrow> fe_state (fc_fe u) = FT_COMPLETE) \<and> receiving u"
proof -
  have "at (setLittleEndian (buffer_of_bytes (piece xs))) LITTLE (piece xs)"
    using assms(2) by (intro at_little) (simp add: piece_def)
  then have a: "at (setLittleEndian (buffer_of_bytes (piece xs))) LITTLE (enc16 LITTLE (word_of_nat (length xs + 1)) @ 6 # xs)"
    by (simp add: piece_def frame_def)
  let ?b = "advance 1 (advance 2 (setLittleEndian (buffer_of_bytes (piece xs))))"
  note h = rd_u16(1) [OF a] rd_u8 [OF rd_u16(2) [OF a]]
  have b: "wfb ?b" "unread ?b = xs"
    using h(3) by (simp_all add: at_def)
  let ?r = "r\<lparr>fc_fe := advance_pos (ucast (word_of_nat (length xs) :: u16)) (fc_fe r)\<rparr>"
  have len: "ucast (remains ?b) = (word_of_nat (length xs) :: u16)" "ucast (word_of_nat (length xs) :: u16) = (word_of_nat (length xs) :: u32)"
    using assms(2) unread_remains [OF b(1)] b(2)
    by (simp_all add: unsigned_of_nat take_bit_nat_eq_self)
  obtain c os where w: "write_chunks (word_of_nat (length xs)) ?b ?r = (Inr c, ?r\<lparr>fc_out := fc_out ?r @ os\<rparr>)" "written os = xs"
    using write_chunks_one [OF b(1), of ?r] b(2) assms by (auto simp: receiving_def)
  show ?thesis
    using assms(1) h w len
    by (simp add: ft_handle_packet_def ft_ParsePacket_def ParsePacket0x06_def receiving_def upd_fe_def complete_def
        complete_transfer_def advance_pos_def thenM_def Let_def)
qed

lemma ft_next_packet_frame:
  assumes "m_data recv = frame p" and "frame_ok p" and "p \<noteq> []"
  shows "ft_next_packet recv = Inr (Some (buffer_of_bytes (frame p)), \<lparr>m_data = [], m_endn = LITTLE, m_out_pos = 0\<rparr>)"
proof -
  have len: "length (m_data recv) < 2 ^ 31"
    using assms(1,2) by (simp add: frame_ok_def)
  have "get_u16 (setLittleEndian (setPos 0 recv)) =
      Inr (word_of_nat (length p), advance 2 (setLittleEndian (setPos 0 recv)))"
    using assms len by (intro get_u16_enc [of _ _ p])
      (simp_all add: wfb_def unread_def setPos_def setLittleEndian_def frame_def)
  moreover have "(word_of_nat (length p) :: u16) \<noteq> 0"
    using assms(2,3) by (simp add: frame_ok_def word_of_nat_eq_0_iff nat_dvd_not_less)
  ultimately show ?thesis
    using next_packet_frame [of recv p "[]"] assms(1,2) len by (auto simp: ft_next_packet_def next_packet_def split: if_splits)
qed

lemma ft_Parse_frame:
  assumes "m_data recv = []" and "frame_ok p" and "p \<noteq> []"
  shows "ft_Parse E (pack_bytes (frame p) recv) r =
    (case ft_handle_packet E (buffer_of_bytes (frame p)) r of
       (Inl e, r) \<Rightarrow> (Inl e, r) | (Inr _, r) \<Rightarrow> (Inr \<lparr>m_data = [], m_endn = LITTLE, m_out_pos = 0\<rparr>, r))"
proof -
  have "m_data (pack_bytes (frame p) recv) = frame p"
    using assms(1) by (simp add: pack_bytes_def)
  moreover have "frame p \<noteq> []"
    by (simp add: frame_def)
  ultimately show ?thesis
    using ft_next_packet_frame [OF _ assms(2,3)]
    by (subst ft_Parse.simps)
      (simp add: buf_empty_def ft_Parse.simps [of _ "\<lparr>m_data = [], m_endn = LITTLE, m_out_pos = 0\<rparr>"] split: prod.splits sum.splits)
qed

lemma frame_ok_piece: "length xs \<le> 2048 \<Longrightarrow> frame_ok (6 # xs)"
  by (simp add: frame_ok_def)

lemma ft_Recv_pieces:
  "\<forall>xs\<in>set ps. length xs \<le> 2048 \<Longrightarrow> receiving r \<Longrightarrow> m_data recv = [] \<Longrightarrow> ps \<noteq> [] \<Longrightarrow>
   unat (fe_totpos (fc_fe r)) + length (concat ps) \<le> unat (fe_totsize (fc_fe r)) \<Longrightarrow>
   \<exists>x u. ft_Recv E (map Some (map piece ps)) recv r = (x, u) \<and> written (fc_out u) = written (fc_out r) @ concat ps \<and>
     (unat (fe_totpos (fc_fe r)) + length (concat ps) = unat (fe_totsize (fc_fe r)) \<longrightarrow>
       x = Inl (Disconnected ''FileTransfer is Complete'') \<and> fe_state (fc_fe u) = FT_COMPLETE)"
proof (induction ps arbitrary: r recv)
  case (Cons xs ps)
  let ?E = "\<lparr>m_data = [], m_endn = LITTLE, m_out_pos = 0\<rparr>"
  have xs: "length xs \<le> 2048" using Cons.prems(1) by simp
  obtain u where u: "ft_handle_packet E (buffer_of_bytes (piece xs)) r =
      ((if complete u then Inl (Disconnected ''FileTransfer is Complete'') else Inr ()), u)"
    "written (fc_out u) = written (fc_out r) @ xs" "fe_totpos (fc_fe u) = fe_totpos (fc_fe r) + word_of_nat (length xs)"
    "fe_totsize (fc_fe u) = fe_totsize (fc_fe r)" "complete u \<longrightarrow> fe_state (fc_fe u) = FT_COMPLETE" "receiving u"
    using receive_piece [OF Cons.prems(2) xs] by blast
  have room: "unat (fe_totpos (fc_fe r)) + length xs < 2 ^ 32"
    using Cons.prems(5) unsigned_less [of "fe_totsize (fc_fe r)", where ?'a = nat] by simp
  then have pos: "unat (fe_totpos (fc_fe u)) = unat (fe_totpos (fc_fe r)) + length xs"
    unfolding u(3) using unat_of_nat_u32 [of "length xs"] by (subst unat_plus_u32) simp_all
  have run: "ft_Recv E (map Some (map piece (xs # ps))) recv r =
      (if complete u then (Inl (Disconnected ''FileTransfer is Complete''), u)
       else ft_Recv E (map Some (map piece ps)) ?E u)"
    using ft_Parse_frame [OF Cons.prems(3) frame_ok_piece [OF xs]] u(1) by (simp add: piece_def as_disconnected_def)
  show ?case
  proof (cases "complete u")
    case True
    then have "length (concat ps) = 0"
      using pos u(4) Cons.prems(5) unfolding complete_def word_le_nat_alt by (simp only: concat.simps length_append)
    then have "concat ps = []"
      by (simp only: length_0_conv)
    then show ?thesis
      using True run u(2,5) by auto
  next
    case False
    then have short: "unat (fe_totpos (fc_fe u)) < unat (fe_totsize (fc_fe u))"
      by (simp add: complete_def word_le_nat_alt)
    show ?thesis
    proof (cases "ps = []")
      case True
      then show ?thesis
        using False run u(2,4) pos short by auto
    next
      case nonempty: False
      then show ?thesis
        using Cons.IH [of u ?E] Cons.prems(1,5) False run u(2,4,6) pos by (auto simp: add.assoc)
    qed
  qed
qed simp

section \<open>The properties\<close>

text \<open>C8: A file whose data is being sent from some position on arrives: after as many rounds of \<open>SendFile\<close> as
  there are pieces of 2048 bytes the position is the end of the file, the receiver of the packets has written
  exactly the bytes from that position on, and it reports the transfer as complete when they are the last ones it was
  promised.\<close>

theorem file_data_transferred:
  assumes "sending E bs p s" and "receiving r" and "m_data recv = []"
    and "unat (fe_totpos (fc_fe r)) + (length bs - p) \<le> unat (fe_totsize (fc_fe r))"
    and "sent_packets (fc_out s) = []"
  shows "let s' = snd (send_rounds (rounds (length bs - p)) E s);
             (x, r') = ft_Recv D (map Some (sent_packets (fc_out s'))) recv r
         in fe_pos (fc_fe s') = word_of_nat (length bs) \<and> written (fc_out r') = written (fc_out r) @ drop p bs \<and>
            (unat (fe_totpos (fc_fe r)) + (length bs - p) = unat (fe_totsize (fc_fe r)) \<longrightarrow>
              x = Inl (Disconnected ''FileTransfer is Complete'') \<and> fe_state (fc_fe r') = FT_COMPLETE)"
proof -
  obtain u ps where u: "snd (send_rounds (rounds (length bs - p)) E s) = u" "sent_packets (fc_out u) = map piece ps"
    "concat ps = drop p bs" "ps \<noteq> []" "\<forall>xs\<in>set ps. length xs \<le> 2048" "fe_pos (fc_fe u) = word_of_nat (length bs)"
    using send_rounds_pieces [OF assms(1)] assms(5) by auto
  have "unat (fe_totpos (fc_fe r)) + length (concat ps) \<le> unat (fe_totsize (fc_fe r))"
    using u(3) assms(4) by simp
  then obtain x v where "ft_Recv D (map Some (map piece ps)) recv r = (x, v)"
    "written (fc_out v) = written (fc_out r) @ concat ps"
    "unat (fe_totpos (fc_fe r)) + length (concat ps) = unat (fe_totsize (fc_fe r)) \<longrightarrow>
       x = Inl (Disconnected ''FileTransfer is Complete'') \<and> fe_state (fc_fe v) = FT_COMPLETE"
    using ft_Recv_pieces [OF u(5) assms(2,3) u(4), of D] by blast
  then show ?thesis
    using u(1,2,3,6) by (simp add: Let_def)
qed

text \<open>A connection in the middle of a transfer.\<close>

definition demo_files :: ft_env where
  "demo_files =
     \<lparr>te_sends = (\<lambda>_. True), te_connect = ConnectDone 5, te_local_ip = 1, te_draw = 3, te_now = 0,
      te_stat = (\<lambda>_. RegularFile 3), te_content = (\<lambda>_. Some [1, 2, 3]), te_creates = (\<lambda>_. True)\<rparr>"

definition demo_transfer :: ftc where
  "demo_transfer =
     (new_ftc demo_files sample_handler 7 0 (new_event 0 7 AwayMessageEvent)
       ((new_ft_event [] [] 3 1)\<lparr>fe_save_path := ''/home/me/in'', fe_currfile := Some 0\<rparr>) (4, 2000))
       \<lparr>fc_dc := (new_dc sample_handler 7 0 0 0)\<lparr>dc_state := CONNECTED\<rparr>, fc_socket := Some (SOCK_CONNECTED, 5)\<rparr>"

lemmas demo_transfer_defs = demo_transfer_def demo_files_def new_ftc_def new_dc_def new_ft_event_def

lemma demo_transfer_fields [simp]:
  "fc_out demo_transfer = []" "fe_totpos (fc_fe demo_transfer) = 0" "fe_totsize (fc_fe demo_transfer) = 3"
  "fe_save_path (fc_fe demo_transfer) = ''/home/me/in''" "fe_currfile (fc_fe demo_transfer) = Some 0"
  "dc_state (fc_dc demo_transfer) = CONNECTED" "\<not> fc_out_open demo_transfer" "te_creates demo_files path"
  by (simp_all add: demo_transfer_defs)

theorem file_data_transferred_witness:
  "let s = demo_transfer\<lparr>fc_continue := True, fc_more := True,
             fc_in := \<lparr>if_open = True, if_good = True, if_data = [1, 2, 3], if_pos = 0\<rparr>,
             fc_fe := (fc_fe demo_transfer)\<lparr>fe_size := Some 3\<rparr>\<rparr>;
       s' = snd (send_rounds (rounds 3) demo_files s);
       (x, r') = ft_Recv demo_files (map Some (sent_packets (fc_out s'))) new_buffer
         (demo_transfer\<lparr>fc_out_open := True\<rparr>)
   in written (fc_out r') = [1, 2, 3] \<and> fe_state (fc_fe r') = FT_COMPLETE"
proof -
  let ?s = "demo_transfer\<lparr>fc_continue := True, fc_more := True,
      fc_in := \<lparr>if_open = True, if_good = True, if_data = [1, 2, 3], if_pos = 0\<rparr>,
      fc_fe := (fc_fe demo_transfer)\<lparr>fe_size := Some 3\<rparr>\<rparr>"
  have len: "length [1, 2, 3 :: u8] = 3" by simp
  have "sending demo_files [1, 2, 3] 0 ?s" "receiving (demo_transfer\<lparr>fc_out_open := True\<rparr>)"
    by (simp_all add: sending_def receiving_def ft_connected_def demo_transfer_defs)
  from file_data_transferred [OF this, of new_buffer demo_files] show ?thesis
    by (simp add: len Let_def del: list.size split: prod.splits)
qed

section \<open>The names of files\<close>

lemma rd_stringnull:
  assumes "at b e (enc_stringnull e t @ r)" and "length t < 65535"
  shows "UnpackUint16StringNull [] b = Inr (t, advance (word_of_nat (length t + 3)) b)"
    and "at (advance (word_of_nat (length t + 3)) b) e r"
proof -
  show "UnpackUint16StringNull [] b = Inr (t, advance (word_of_nat (length t + 3)) b)"
    using UnpackUint16StringNull_enc [OF assms(2), of b r "[]"] assms(1) by (simp add: at_def)
  show "at (advance (word_of_nat (length t + 3)) b) e r"
    using assms by (intro at_skip [of b e "enc_stringnull e t"]) 
      (simp_all add: enc_stringnull_def unat_of_nat_u32 del: of_nat_add)
qed

definition next_file_bytes :: "bool \<Rightarrow> string \<Rightarrow> string \<Rightarrow> u32 \<Rightarrow> u32 \<Rightarrow> u8 list" where
  "next_file_bytes dir name sub sz speed =
     (if dir then 1 else 0) # enc_stringnull LITTLE name @ enc_stringnull LITTLE sub @ enc32 LITTLE sz @
     [0, 0, 0, 0] @ enc32 LITTLE speed"

lemma next_file_packet_eq:
  assumes "length name + length sub < 65000"
  shows "next_file_packet dir name sub sz speed =
    Inr (app (frame (2 # next_file_bytes dir name sub sz speed)) (setLittleEndian new_buffer))"
  unfolding next_file_packet_def next_file_bytes_def using assms
  by (intro ft_packet_app) (simp_all add: put_app put_string_app enc_stringnull_def)

text \<open>Reading the announcement of a file, up to the speed.\<close>

lemma ParsePacket0x02_reads:
  assumes "at b LITTLE (next_file_bytes False name sub sz speed)" and "length name + length sub < 65000"
    and "fe_currfile (fc_fe s) = Some n" and "p = received_dir (fe_save_path (fc_fe s)) sub"
  shows "\<exists>c. ParsePacket0x02 E b s = thenM (create_received E (p @ name)) (\<lambda>_.
      thenM (gets whole_event) (\<lambda>ev. thenM (put_ft [Update ev]) (\<lambda>_. ret c)))
        (s\<lparr>fc_fe := (fc_fe s)\<lparr>fe_size := Some sz, fe_pos := 0, fe_currfile := Some (n + 1), fe_speed := speed\<rparr>,
           fc_path := p\<rparr>)"
proof -
  note a = assms(1) [unfolded next_file_bytes_def, simplified]
  note 1 = rd_u8 [OF a]
  note 2 = rd_stringnull [OF 1(2)]
  have l: "length name < 65535" "length sub < 65535" using assms(2) by simp_all
  note 3 = rd_stringnull [OF 2(2) [OF l(1)]]
  note 4 = rd_u32 [OF 3(2) [OF l(2)]]
  note 5 = rd_u8 [OF 4(2)]
  note 6 = rd_u8 [OF 5(2)]
  note 7 = rd_u8 [OF 6(2)]
  note 8 = rd_u8 [OF 7(2)]
  have 9: "at (advance 1 (advance 1 (advance 1 (advance 1 (advance 4 (advance (word_of_nat (length sub + 3))
      (advance (word_of_nat (length name + 3)) (advance 1 b)))))))) LITTLE (enc32 LITTLE speed @ [])"
    using 8(2) by simp
  show ?thesis
    using 1(1) 2(1) [OF l(1)] 3(1) [OF l(2)] 4(1) 5(1) 6(1) 7(1) 8(1) rd_u32(1) [OF 9] assms(3,4)
    by (intro exI) (simp add: ParsePacket0x02_def upd_fe_def thenM_def del: of_nat_add)
qed

lemma SendPacket0x03_out: "set (fc_out s) \<subseteq> set (fc_out (snd (SendPacket0x03 E p n s))) \<and>
  fc_out_open (snd (SendPacket0x03 E p n s)) = fc_out_open s \<and> fc_out_good (snd (SendPacket0x03 E p n s)) = fc_out_good s"
  by (cases "ft_packet 0x03 (\<lambda>b. put_u32 n (put_u32 (fe_speed (fc_fe s)) (put_u32 0x00000000 (put_u32 p b))))")
    (auto simp: SendPacket0x03_def ft_Send_def shared_def dc_Send_def thenM_def)

text \<open>C11: The receiver creates each file under the name and the directory that the other side sends, whatever they
  are: the path is the directory of the user, a slash, the directory sent with its backslashes turned into slashes, a
  slash and the name. A name that starts with \<^verbatim>\<open>../\<close> leaves the directory of the user.\<close>

theorem received_name_unfiltered:
  assumes "dc_state (fc_dc r) = CONNECTED" and "\<not> fc_out_open r" and "fe_currfile (fc_fe r) = Some n"
    and "length name + length sub < 65000"
    and "path = received_dir (fe_save_path (fc_fe r)) sub @ name" and "te_creates E path"
  shows "\<exists>b r'. next_file_packet False name sub sz speed = Inr b \<and>
    snd (ft_handle_packet E (buffer_of_bytes (m_data b)) r) = r' \<and> CreateFile path \<in> set (fc_out r') \<and>
    fc_out_open r' \<and> fc_out_good r'"
proof -
  let ?p = "2 # next_file_bytes False name sub sz speed" and ?b = "setLittleEndian (buffer_of_bytes (frame (2 # next_file_bytes False name sub sz speed)))"
  have "at ?b LITTLE (frame ?p)"
    using assms(4) by (intro at_little) (simp add: next_file_bytes_def enc_stringnull_def)
  then have a: "at ?b LITTLE (enc16 LITTLE (word_of_nat (length ?p)) @ 2 # next_file_bytes False name sub sz speed)"
    by (simp only: frame_def)
  note h = rd_u16(1) [OF a] rd_u8 [OF rd_u16(2) [OF a]]
  obtain c where c: "ParsePacket0x02 E (advance 1 (advance 2 ?b)) r = thenM (create_received E path) (\<lambda>_.
      thenM (gets whole_event) (\<lambda>ev. thenM (put_ft [Update ev]) (\<lambda>_. ret c)))
        (r\<lparr>fc_fe := (fc_fe r)\<lparr>fe_size := Some sz, fe_pos := 0, fe_currfile := Some (n + 1), fe_speed := speed\<rparr>,
           fc_path := received_dir (fe_save_path (fc_fe r)) sub\<rparr>)"
    using ParsePacket0x02_reads [OF h(3) assms(4,3) refl] unfolding assms(5) by blast
  then obtain u where u: "ParsePacket0x02 E (advance 1 (advance 2 ?b)) r = (Inr c, u)" "CreateFile path \<in> set (fc_out u)"
    "fc_out_open u" "fc_out_good u" "fe_currfile (fc_fe u) = Some (n + 1)"
    using assms(2,6) by (auto simp: create_received_def open_out_def put_ft_def thenM_def)
  have run: "ft_handle_packet E (buffer_of_bytes (frame ?p)) r =
      thenM (thenM (SendPacket0x03 E 0 (n + 1)) (\<lambda>_. ret c)) (\<lambda>_. ret ()) u"
    using assms(1) h u(1,5) by (simp add: ft_handle_packet_def ft_ParsePacket_def thenM_def del: of_nat_add)
  have "snd (thenM (thenM m (\<lambda>_. ret c)) (\<lambda>_. ret ()) u) = snd (m u)" for m :: "unit ftm"
    by (simp add: thenM_def split: prod.split sum.split)
  then have "snd (ft_handle_packet E (buffer_of_bytes (frame ?p)) r) = snd (SendPacket0x03 E 0 (n + 1) u)"
    unfolding run .
  then show ?thesis
    using u(2-4) next_file_packet_eq [OF assms(4)] SendPacket0x03_out [of u E 0 "n + 1"] by auto
qed

theorem received_name_unfiltered_witness:
  "\<exists>b r'. next_file_packet False ''../../.profile'' [] 3 100 = Inr b \<and>
    snd (ft_handle_packet demo_files (buffer_of_bytes (m_data b)) demo_transfer) = r' \<and>
    CreateFile ''/home/me/in/../../.profile'' \<in> set (fc_out r') \<and> fc_out_open r'"
  using received_name_unfiltered [of demo_transfer 0 "''../../.profile''" "[]" "''/home/me/in/../../.profile''" demo_files 3 100]
  by (simp add: received_dir_def add_slash_def swap_char_def) blast

section \<open>Empty packets\<close>

lemma empty_packet:
  assumes "m_data recv = 0 # 0 # bs" and "length (m_data recv) < 2 ^ 31"
  shows "ft_Parse E recv r = (Inr (recv\<lparr>m_endn := LITTLE, m_out_pos := 2\<rparr>), r)"
proof -
  have "get_u16 (setLittleEndian (setPos 0 recv)) = Inr (0, advance 2 (setLittleEndian (setPos 0 recv)))"
    using assms by (intro get_u16_enc [of _ _ bs])
      (simp_all add: wfb_def unread_def setPos_def setLittleEndian_def enc16.simps octet_def)
  then show ?thesis
    using assms(1) by (subst ft_Parse.simps)
      (simp add: buf_empty_def ft_next_packet_def advance_def setPos_def setLittleEndian_def)
qed

text \<open>C38: Once a packet of length 0 is at the front of the receive buffer nothing that arrives is ever handled:
  whatever follows it, in whatever pieces, piles up in the buffer and changes nothing else.\<close>

theorem empty_packet_stalls:
  assumes "m_data recv = 0 # 0 # bs" and "length (m_data recv @ concat cs) < 2 ^ 31"
  shows "\<exists>recv'. ft_Recv E (map Some cs) recv r = (Inr recv', r) \<and> m_data recv' = m_data recv @ concat cs"
  using assms
proof (induction cs arbitrary: recv bs)
  case (Cons c cs)
  let ?r = "pack_bytes c recv"
  have d: "m_data ?r = 0 # 0 # bs @ c" "m_data ?r = m_data recv @ c"
    using Cons.prems(1) by (simp_all add: pack_bytes_def)
  have "ft_Parse E ?r r = (Inr (?r\<lparr>m_endn := LITTLE, m_out_pos := 2\<rparr>), r)"
    using d Cons.prems by (intro empty_packet) simp_all
  moreover obtain v where "ft_Recv E (map Some cs) (?r\<lparr>m_endn := LITTLE, m_out_pos := 2\<rparr>) r = (Inr v, r)"
    "m_data v = m_data ?r @ concat cs"
    using Cons.IH [of "?r\<lparr>m_endn := LITTLE, m_out_pos := 2\<rparr>" "bs @ c"] d Cons.prems(2) by auto
  ultimately show ?case
    using d(2) by simp
qed simp

theorem empty_packet_stalls_witness:
  "\<exists>recv'. ft_Recv demo_files (map Some [[3, 0, 6, 8, 9]]) (buffer_of_bytes [0, 0]) demo_transfer = (Inr recv', demo_transfer) \<and>
    m_data recv' = [0, 0, 3, 0, 6, 8, 9]"
  using empty_packet_stalls [of "buffer_of_bytes [0, 0]" "[]" "[[3, 0, 6, 8, 9]]" demo_files demo_transfer]
  by (simp add: buffer_of_bytes_def)

end
