(* ===== verification/FileTransferAuth.thy ===== *)
theory FileTransferAuth
  imports FileTransferProps
begin

text \<open>
  Who an incoming file transfer is with: whatever bytes arrive at the listening socket, files are only created and
  written for a peer whose UIN is on the contact list and whose address is the one of that contact. The handshake is
  the one of \<open>DirectConnection\<close>, whose lemmas are lifted to the state of the transfer.
\<close>

section \<open>The invariant\<close>

definition on_files :: "ft_output \<Rightarrow> bool" where
  "on_files x \<longleftrightarrow> (case x of MakeDir p \<Rightarrow> True | CreateFile p \<Rightarrow> True | WriteFile bs \<Rightarrow> True | OpenFile p \<Rightarrow> True | _ \<Rightarrow> False)"

definition ft_inv :: "handler \<Rightarrow> ftc \<Rightarrow> bool" where
  "ft_inv mh s \<longleftrightarrow>
     incoming_inv mh (fc_dc s) \<and> (dc_state (fc_dc s) \<noteq> CONNECTED \<longrightarrow> (\<forall>x\<in>set (fc_out s). \<not> on_files x))"

definition ft_secure :: "handler \<Rightarrow> (dc \<Rightarrow> bool) \<Rightarrow> 'a ftm \<Rightarrow> (dc \<Rightarrow> bool) \<Rightarrow> bool" where
  "ft_secure mh P m Q \<longleftrightarrow> (\<forall>s r s'. ft_inv mh s \<longrightarrow> P (fc_dc s) \<longrightarrow> m s = (r, s') \<longrightarrow>
     ft_inv mh s' \<and> (\<forall>x. r = Inr x \<longrightarrow> Q (fc_dc s')))"

lemma ft_secureI:
  assumes "\<And>s r s'. ft_inv mh s \<Longrightarrow> P (fc_dc s) \<Longrightarrow> m s = (r, s') \<Longrightarrow>
    ft_inv mh s' \<and> (\<forall>x. r = Inr x \<longrightarrow> Q (fc_dc s'))"
  shows "ft_secure mh P m Q"
  unfolding ft_secure_def using assms by blast

lemma ft_secureD:
  assumes "ft_secure mh P m Q" and "ft_inv mh s" and "P (fc_dc s)" and "m s = (r, s')"
  shows "ft_inv mh s'" and "\<And>x. r = Inr x \<Longrightarrow> Q (fc_dc s')"
  using assms unfolding ft_secure_def by blast+

lemma ft_secure_thenM:
  assumes m: "ft_secure mh P m R" and f: "\<And>x. ft_secure mh R (f x) Q"
  shows "ft_secure mh P (thenM m f) Q"
proof (rule ft_secureI)
  fix s r s''
  assume s: "ft_inv mh s" "P (fc_dc s)" "thenM m f s = (r, s'')"
  obtain r1 s' where m1: "m s = (r1, s')" by fastforce
  note 1 = ft_secureD [OF m s(1,2) m1]
  show "ft_inv mh s'' \<and> (\<forall>x. r = Inr x \<longrightarrow> Q (fc_dc s''))"
  proof (cases r1)
    case (Inl e)
    then show ?thesis using s(3) m1 1 by auto
  next
    case (Inr x)
    then have "f x s' = (r, s'')" using s(3) m1 by simp
    then show ?thesis using ft_secureD [OF f 1(1) 1(2) [OF Inr]] by blast
  qed
qed

lemma ft_secure_weaken:
  assumes "ft_secure mh P m Q" and "\<And>d. Q d \<Longrightarrow> Q' d"
  shows "ft_secure mh P m Q'"
  by (rule ft_secureI) (use ft_secureD [OF assms(1)] assms(2) in blast)

text \<open>What holds of the shared members whatever was sent.\<close>

definition silent :: "(dc \<Rightarrow> bool) \<Rightarrow> bool" where
  "silent P \<longleftrightarrow> (\<forall>d os. P (d\<lparr>dc_out := os\<rparr>) = P d)"

lemma ft_secure_shared:
  assumes "\<And>D. secure mh P (m D) (\<lambda>_. Q)" and "silent P" and "silent Q" and "\<And>d. Q d \<Longrightarrow> dc_state d \<noteq> CONNECTED"
    and "\<And>d. P d \<Longrightarrow> dc_state d \<noteq> CONNECTED"
    and "\<And>D d r d'. m D d = (r, d') \<Longrightarrow> dc_state d' = dc_state d"
  shows "ft_secure mh P (shared E m) Q"
proof (rule ft_secureI)
  fix s r s'
  assume s: "ft_inv mh s" "P (fc_dc s)" "shared E m s = (r, s')"
  let ?d = "(fc_dc s)\<lparr>dc_out := []\<rparr>"
  obtain d' where m: "m (shared_env E s) ?d = (r, d')"
    and s': "s' = s\<lparr>fc_dc := d'\<lparr>dc_out := []\<rparr>, fc_out := fc_out s @ map Shared (dc_out d')\<rparr>"
    using s(3) by (auto simp: shared_def split: prod.splits)
  have d: "incoming_inv mh ?d" "P ?d"
    using s(1,2) assms(2) by (auto simp: ft_inv_def incoming_inv_def accepted_def versions_set_def silent_def)
  note 1 = secureD [OF assms(1) d m]
  have st: "dc_state d' \<noteq> CONNECTED"
    using assms(5) [OF d(2)] assms(6) [OF m] by simp
  have "incoming_inv mh (d'\<lparr>dc_out := []\<rparr>)"
    using 1(1) st by (auto simp: incoming_inv_def versions_set_def)
  moreover have "\<forall>x\<in>set (fc_out s'). \<not> on_files x"
    using s(1) assms(5) [OF s(2)] s' by (auto simp: ft_inv_def on_files_def)
  ultimately show "ft_inv mh s' \<and> (\<forall>x. r = Inr x \<longrightarrow> Q (fc_dc s'))"
    using 1(3) assms(3) s' by (auto simp: ft_inv_def silent_def)
qed

section \<open>After the handshake\<close>

text \<open>
  What a transfer does once it is connected leaves most of its state alone. The locale carries a predicate that
  depends on the shared members, the socket and the server only, and is kept by sending, through all of it.
\<close>

locale transfer_view =
  fixes I :: "ftc \<Rightarrow> bool"
  assumes view_modify: "(\<And>s. fc_dc (f s) = fc_dc s \<and> fc_socket (f s) = fc_socket s \<and> fc_listen (f s) = fc_listen s) \<Longrightarrow>
      stable I (modify f)"
    and view_send: "stable I (shared E (\<lambda>P. dc_Send P b))"
begin

lemma view_assign:
  "stable I (put_ft os)" "stable I (upd_fe f)" "stable I (set_base p)" "stable I (seek_in n)" "stable I close_out"
  unfolding put_ft_def upd_fe_def set_base_def seek_in_def close_out_def by (rule view_modify; simp)+

lemmas view_rules = stable_rules view_send view_assign

lemma view_file_kind:
  "stable I m \<Longrightarrow> (\<And>n. stable I (f n)) \<Longrightarrow> stable I k \<Longrightarrow>
   stable I (case x of Directory \<Rightarrow> m | RegularFile n \<Rightarrow> f n | OtherFile \<Rightarrow> k)"
  by (cases x) simp_all

lemma view_ft_Send: "stable I (ft_Send E b)"
  unfolding ft_Send_def by (intro view_rules)

lemma view_endings: "stable I (fail_transfer e m)" "stable I complete_transfer"
  unfolding fail_transfer_def complete_transfer_def by (intro view_rules)+

lemma view_streams: "stable I (open_out E p)" "stable I (write_out bs)" "stable I (open_in E p)" "stable I (read_in n)"
  unfolding open_out_def write_out_def open_in_def read_in_def Let_def by ((intro stable_rules view_send view_assign view_modify; simp)+)

lemmas view_steps = view_rules view_ft_Send view_endings view_streams view_file_kind

lemma view_SendFile: "stable I (SendFile E)"
  unfolding SendFile_def SendPacket0x00_def SendPacket0x02_def SendPacket0x06_def announce_file_def
  by ((intro view_steps view_modify; simp)+)

lemma view_write_chunks: "stable I (write_chunks len b)"
proof (induction len b rule: write_chunks.induct)
  case (1 len b)
  then show ?case
    by (subst write_chunks.simps) (intro view_steps; simp)
qed

lemma view_ft_ParsePacket: "stable I (ft_ParsePacket E b)"
  unfolding ft_ParsePacket_def ParsePacket0x00_def ParsePacket0x01_def ParsePacket0x02_def ParsePacket0x03_def
    ParsePacket0x05_def ParsePacket0x06_def create_received_def SendPacket0x01_def SendPacket0x02_def SendPacket0x03_def
    SendPacket0x05_def announce_file_def Let_def
  by ((intro view_steps view_SendFile view_write_chunks view_modify; simp)+)

lemma view_flush: "stable I (thenM (ft_flush_queue E) (\<lambda>_. put_ft os))"
  unfolding ft_flush_queue_def by (intro view_steps view_SendFile)

end

text \<open>The shared members but their outputs.\<close>

definition same_dc :: "dc \<Rightarrow> ftc \<Rightarrow> bool" where
  "same_dc d s \<longleftrightarrow> (fc_dc s)\<lparr>dc_out := []\<rparr> = d"

interpretation shared_view: transfer_view "same_dc d" for d
  by unfold_locales (auto simp: stable_def same_dc_def shared_def dc_Send_def)

text \<open>The two ends at which a transfer is reached.\<close>

definition same_ends :: "(socket_state \<times> int) option \<times> (int \<times> u16) option \<Rightarrow> ftc \<Rightarrow> bool" where
  "same_ends e s \<longleftrightarrow> (fc_socket s, fc_listen s) = e"

interpretation ends_view: transfer_view "same_ends e" for e
  by unfold_locales (auto simp: stable_def same_ends_def shared_def split: prod.splits)

lemma same_dc_fields:
  assumes "same_dc d s" and "same_dc d s'"
  shows "dc_state (fc_dc s') = dc_state (fc_dc s)" and "incoming_inv mh (fc_dc s) \<Longrightarrow> dc_state (fc_dc s) = CONNECTED \<Longrightarrow> incoming_inv mh (fc_dc s')"
proof -
  have "(fc_dc s')\<lparr>dc_out := []\<rparr> = (fc_dc s)\<lparr>dc_out := []\<rparr>"
    using assms by (simp add: same_dc_def)
  then have "(fc_dc s')\<lparr>dc_out := []\<rparr>\<lparr>dc_out := dc_out (fc_dc s')\<rparr> = (fc_dc s)\<lparr>dc_out := []\<rparr>\<lparr>dc_out := dc_out (fc_dc s')\<rparr>"
    by (rule arg_cong)
  then obtain os where "fc_dc s' = (fc_dc s)\<lparr>dc_out := os\<rparr>"
    by simp
  then show "dc_state (fc_dc s') = dc_state (fc_dc s)"
    "incoming_inv mh (fc_dc s) \<Longrightarrow> dc_state (fc_dc s) = CONNECTED \<Longrightarrow> incoming_inv mh (fc_dc s')"
    by (auto simp: incoming_inv_def accepted_def versions_set_def)
qed

lemma ft_secure_connected:
  assumes "\<And>d. stable (same_dc d) m"
  shows "ft_secure mh (\<lambda>d. dc_state d = CONNECTED) m (\<lambda>d. dc_state d = CONNECTED)"
proof (rule ft_secureI)
  fix s r s'
  assume s: "ft_inv mh s" "dc_state (fc_dc s) = CONNECTED" "m s = (r, s')"
  have "same_dc ((fc_dc s)\<lparr>dc_out := []\<rparr>) s" by (simp add: same_dc_def)
  note f = same_dc_fields [OF this stableD [OF assms this s(3)]]
  show "ft_inv mh s' \<and> (\<forall>x. r = Inr x \<longrightarrow> dc_state (fc_dc s') = CONNECTED)"
    using f s(1,2) by (simp add: ft_inv_def)
qed

section \<open>The handshake\<close>

lemma silent_predicates:
  "silent (\<lambda>d. dc_state d = st)" "silent shaking" "silent (\<lambda>d. shaking d \<and> accepted mh d)"
  by (simp_all add: silent_def versions_set_def accepted_def)

lemma ft_secure_ret: "ft_secure mh P (ret x) P"
  by (rule ft_secureI) simp

lemma keeps_state: "keeps m \<Longrightarrow> m d = (r, d') \<Longrightarrow> dc_state d' = dc_state d"
  by (erule (1) tameD) (auto dest: ident_fields)

lemma ft_secure_shaking:
  assumes "\<And>D. keeps (m D)"
  shows "ft_secure mh shaking (shared E m) shaking"
proof (rule ft_secure_shared)
  show "secure mh shaking (m D) (\<lambda>_. shaking)" for D
    by (rule secure_shaking [OF assms])
  show "dc_state d' = dc_state d" if "m D d = (r, d')" for D d r d'
    using keeps_state [OF assms that] .
qed (auto simp: silent_predicates)

lemma state_steps: "stable (\<lambda>d. dc_state d = st) (ParseInitPacket b)" "stable (\<lambda>d. dc_state d = st) ConfirmUIN"
  unfolding ParseInitPacket_def ConfirmUIN_def Let_def by ((intro stable_rules; simp)+)

lemma ft_secure_ParseInitPacket:
  "ft_secure mh (\<lambda>d. dc_state d = WAITING_FOR_INIT) (shared E (\<lambda>_. ParseInitPacket b)) shaking"
proof (rule ft_secure_shared)
  show "dc_state d' = dc_state d" if "ParseInitPacket b d = (r, d')" for D :: dc_env and d r d'
    using stableD [OF state_steps(1) refl that] by simp
qed (auto simp: silent_predicates secure_ParseInitPacket)

lemma ft_secure_ConfirmUIN:
  "ft_secure mh shaking (shared E (\<lambda>_. ConfirmUIN)) (\<lambda>d. shaking d \<and> accepted mh d)"
proof (rule ft_secure_shared)
  show "secure mh shaking ConfirmUIN (\<lambda>_ d. shaking d \<and> accepted mh d)"
    by (rule secure_weaken [OF secure_ConfirmUIN]) simp_all
  show "dc_state d' = dc_state d" if "ConfirmUIN d = (r, d')" for D :: dc_env and d r d'
    using stableD [OF state_steps(2) refl that] by simp
qed (auto simp: silent_def versions_set_def accepted_def)

lemma ft_secure_to:
  "p \<noteq> CONNECTED \<Longrightarrow> p \<noteq> NOT_CONNECTED \<Longrightarrow> ft_secure mh shaking (ft_to p) (\<lambda>_. True)"
  by (rule ft_secureI) (auto simp: ft_to_def upd_dc_def ft_inv_def incoming_inv_def versions_set_def)

lemma ft_secure_enter:
  "ft_secure mh (\<lambda>d. shaking d \<and> accepted mh d) (ft_enter_connected E) (\<lambda>_. True)"
  unfolding ft_enter_connected_def
proof (rule ft_secure_thenM)
  show "ft_secure mh (\<lambda>d. shaking d \<and> accepted mh d) (ft_to CONNECTED) (\<lambda>d. dc_state d = CONNECTED)"
    by (rule ft_secureI) (auto simp: ft_to_def upd_dc_def ft_inv_def incoming_inv_def versions_set_def accepted_def)
  from ft_secure_connected [OF shared_view.view_flush]
  show "ft_secure mh (\<lambda>d. dc_state d = CONNECTED) (thenM (ft_flush_queue E) (\<lambda>_. put_ft [Shared ConnectedSignal])) (\<lambda>_. True)"
    by (rule ft_secure_weaken) simp
qed

lemma keeps_ft_ParseInit2: "keeps (ft_ParseInit2 b)"
  unfolding ft_ParseInit2_def
  by (intro sending.tame_rules keeps_read sending.tame_raise; simp add: unset_fault_def)

text \<open>The three steps of the handshake of an incoming connection.\<close>

lemma ft_secure_init:
  "ft_secure mh (\<lambda>d. dc_state d = WAITING_FOR_INIT) (thenM (shared E (\<lambda>_. ParseInitPacket b)) (\<lambda>_.
     thenM (shared E SendInitAck) (\<lambda>_. thenM (shared E SendInitPacket) (\<lambda>_. ft_to WAITING_FOR_INIT_ACK)))) (\<lambda>_. True)"
  by (intro ft_secure_thenM [OF ft_secure_ParseInitPacket] ft_secure_thenM [OF ft_secure_shaking] keeps_init_packets
      ft_secure_to) simp_all

lemma ft_secure_confirm:
  "ft_secure mh shaking (thenM (shared E (\<lambda>_. ConfirmUIN)) (\<lambda>_. ft_enter_connected E)) (\<lambda>_. True)"
  by (rule ft_secure_thenM [OF ft_secure_ConfirmUIN ft_secure_enter])

lemma ft_secure_init_ack:
  "ft_secure mh shaking (thenM (shared E (\<lambda>_. ParseInitAck b)) (\<lambda>_.
     thenM (shared E (\<lambda>_. ConfirmUIN)) (\<lambda>_. ft_enter_connected E))) (\<lambda>_. True)"
  by (intro ft_secure_thenM [OF ft_secure_shaking] keeps_init_packets ft_secure_confirm)

lemma ft_secure_init2:
  "ft_secure mh shaking (thenM (shared E (\<lambda>_. ft_ParseInit2 b)) (\<lambda>_.
     thenM (thenM (shared E SendInit2) (\<lambda>_. shared E (\<lambda>_. ConfirmUIN))) (\<lambda>_. ft_enter_connected E))) (\<lambda>_. True)"
  unfolding thenM_assoc
  by (intro ft_secure_thenM [OF ft_secure_shaking] keeps_init_packets keeps_ft_ParseInit2 ft_secure_confirm)

lemma ft_inv_handle_packet:
  assumes "ft_inv mh s" and "ft_handle_packet E sb s = (r, s')"
  shows "ft_inv mh s'"
proof -
  have inc: "dc_incoming (fc_dc s)" "dc_state (fc_dc s) \<noteq> NOT_CONNECTED"
    "dc_state (fc_dc s) \<noteq> WAITING_FOR_INIT \<Longrightarrow> versions_set (fc_dc s)"
    using assms(1) by (auto simp: ft_inv_def incoming_inv_def)
  have branch: "ft_inv mh s'" if "ft_secure mh P m (\<lambda>_. True)" and "P (fc_dc s)" and "ft_handle_packet E sb s = m s"
    for P and m :: "unit ftm"
    using ft_secureD(1) [OF that(1) assms(1) that(2)] assms(2) that(3) by simp
  show ?thesis
  proof (cases "dc_state (fc_dc s)")
    case NOT_CONNECTED
    then show ?thesis using inc(2) by simp
  next
    case WAITING_FOR_INIT
    then show ?thesis using branch [OF ft_secure_init] inc by (simp add: ft_handle_packet_def ft_handshake_defs)
  next
    case WAITING_FOR_INIT_ACK
    then show ?thesis using branch [OF ft_secure_init_ack] inc by (simp add: ft_handle_packet_def ft_handshake_defs)
  next
    case WAITING_FOR_INIT2
    then show ?thesis using branch [OF ft_secure_init2] inc by (simp add: ft_handle_packet_def ft_handshake_defs)
  next
    case CONNECTED
    have "stable (same_dc d) (thenM (ft_ParsePacket E sb) (\<lambda>_. ret ()))" for d
      by (intro stable_rules shared_view.view_ft_ParsePacket)
    from ft_secure_weaken [OF ft_secure_connected [OF this]]
    have "ft_secure mh (\<lambda>d. dc_state d = CONNECTED) (thenM (ft_ParsePacket E sb) (\<lambda>_. ret ())) (\<lambda>_. True)"
      by simp
    from branch [OF this] show ?thesis using CONNECTED by (simp add: ft_handle_packet_def ft_handshake_defs)
  qed
qed

lemma ft_inv_Parse: "ft_inv mh s \<Longrightarrow> ft_Parse E recv s = (r, s') \<Longrightarrow> ft_inv mh s'"
proof (induction E recv s arbitrary: r s' rule: ft_Parse.induct)
  case (1 E recv s)
  show ?case
  proof (cases "buf_empty recv \<or> (\<forall>sb recv'. ft_next_packet recv \<noteq> Inr (Some sb, recv'))")
    case True
    then show ?thesis
      using "1.prems" by (auto simp: ft_Parse.simps [of E recv s] split: if_splits sum.splits option.splits)
  next
    case False
    then obtain sb recv' where n: "\<not> buf_empty recv" "ft_next_packet recv = Inr (Some sb, recv')"
      by blast
    obtain r1 s1 where h: "ft_handle_packet E sb s = (r1, s1)" by fastforce
    note h1 = ft_inv_handle_packet [OF "1.prems"(1) h]
    show ?thesis
    proof (cases r1)
      case (Inl e)
      then show ?thesis using "1.prems"(2) n h h1 by (auto simp: ft_Parse.simps [of E recv s])
    next
      case (Inr x)
      then have "ft_Parse E recv' s1 = (r, s')"
        using "1.prems"(2) n h by (simp add: ft_Parse.simps [of E recv s])
      then show ?thesis using "1.IH" [OF n(1,2) refl refl h [symmetric] Inr h1] by simp
    qed
  qed
qed

lemma ft_inv_Recv: "ft_inv mh s \<Longrightarrow> ft_Recv E cs recv s = (r, s') \<Longrightarrow> ft_inv mh s'"
proof (induction E cs recv s arbitrary: r s' rule: ft_Recv.induct)
  case (3 E c cs recv s)
  obtain r1 s1 where p: "ft_Parse E (pack_bytes c recv) s = (r1, s1)" by fastforce
  note p1 = ft_inv_Parse [OF "3.prems"(1) p]
  show ?case
    using "3.IH" [OF p [symmetric]] "3.prems" p p1 by (cases r1) auto
qed auto

section \<open>The life of a transfer\<close>

text \<open>What the owner of an accepted connection can do with it, as long as no exception ends it.\<close>

inductive ft_life :: "ftc \<Rightarrow> buffer \<Rightarrow> ftc \<Rightarrow> bool" for s0 where
  ft_start: "ft_life s0 new_buffer s0"
| ft_received: "ft_life s0 recv s \<Longrightarrow> ft_Recv E cs recv s = (Inr recv', s') \<Longrightarrow> ft_life s0 recv' s'"
| ft_sent: "ft_life s0 recv s \<Longrightarrow> ft_SendEvent E s = (Inr (), s') \<Longrightarrow> ft_life s0 recv s'"
| ft_polled: "ft_life s0 recv s \<Longrightarrow> ft_clearoutMessagesPoll E s = (Inr (), s') \<Longrightarrow> ft_life s0 recv s'"

text \<open>An incoming transfer once its connection was accepted.\<close>

definition accepted_ftc ::
    "ft_env \<Rightarrow> handler \<Rightarrow> u32 \<Rightarrow> u16 \<Rightarrow> message_event \<Rightarrow> ft_event \<Rightarrow> int \<times> u16 \<Rightarrow> int \<Rightarrow> u32 \<Rightarrow> u32 \<Rightarrow> ftc" where
  "accepted_ftc E mh ext_ip port ev fe l fd remote_ip local_ip =
     snd (ft_setSocket fd remote_ip local_ip (new_ftc E mh ext_ip port ev fe l))"

lemma ft_inv_poll: "ft_inv mh s \<Longrightarrow> ft_clearoutMessagesPoll E s = (r, s') \<Longrightarrow> ft_inv mh s'"
  by (auto simp: ft_clearoutMessagesPoll_def ft_expired_def upd_fe_def put_ft_def ft_inv_def on_files_def thenM_def
      split: if_splits)

lemma ft_inv_SendEvent: "ft_inv mh s \<Longrightarrow> ft_SendEvent E s = (r, s') \<Longrightarrow> ft_inv mh s'"
  using ft_secureD(1) [OF ft_secure_connected [OF shared_view.view_SendFile]]
  by (auto simp: ft_SendEvent_def ft_inv_def split: if_splits)

lemma ft_inv_life: "ft_life (accepted_ftc E mh ext_ip port ev fe l fd rip lip) recv s \<Longrightarrow> ft_inv mh s"
proof (induction rule: ft_life.induct)
  case ft_start
  show ?case
    by (simp add: accepted_ftc_def ft_setSocket_def upd_dc_def new_ftc_def new_dc_def ft_inv_def incoming_inv_def)
qed (blast intro: ft_inv_Recv ft_inv_SendEvent ft_inv_poll)+

text \<open>C9: Whatever bytes arrive at the listening socket of a file transfer, in whatever pieces: the transfer is
  connected, and a file or a directory is created, written or opened, only if the UIN that the peer gives is on the
  contact list and its address is that of the contact, or the contact's address in the network both share.\<close>

theorem incoming_transfer_authenticated:
  assumes "ft_life (accepted_ftc E mh ext_ip port ev fe l fd remote_ip local_ip) recv s"
    and "ft_Recv D cs recv s = (r, s')"
  shows "dc_state (fc_dc s') = CONNECTED \<or> (\<exists>x\<in>set (fc_out s'). on_files x) \<longrightarrow>
    (\<exists>uin c. dc_remote_uin (fc_dc s') = Some uin \<and> tree_lookup_uin uin (mh_tree mh) = Some c \<and>
       (contact.m_ext_ip (mh_store mh c) = dc_remote_ip (fc_dc s') \<or>
        contact.m_ext_ip (mh_store mh c) = dc_local_ext_ip (fc_dc s') \<and> contact.m_lan_ip (mh_store mh c) = dc_remote_ip (fc_dc s')))"
  using ft_inv_Recv [OF ft_inv_life [OF assms(1)] assms(2)]
  by (auto simp: ft_inv_def incoming_inv_def accepted_def)

text \<open>A packet of file data before the handshake, in two pieces.\<close>

theorem incoming_transfer_authenticated_witness:
  "\<exists>r s'. ft_Recv demo_files [Some [4, 0, 6], Some [1, 2, 3]] new_buffer
      (accepted_ftc demo_files sample_handler 7 0 (new_event 0 7 AwayMessageEvent) (new_ft_event [] [] 3 1) (4, 2000) 5 8 9) =
      (r, s') \<and>
    (dc_state (fc_dc s') = CONNECTED \<or> (\<exists>x\<in>set (fc_out s'). on_files x) \<longrightarrow>
      (\<exists>uin c. dc_remote_uin (fc_dc s') = Some uin \<and> tree_lookup_uin uin (mh_tree sample_handler) = Some c))"
proof -
  obtain r s' where "ft_Recv demo_files [Some [4, 0, 6], Some [1, 2, 3]] new_buffer
      (accepted_ftc demo_files sample_handler 7 0 (new_event 0 7 AwayMessageEvent) (new_ft_event [] [] 3 1) (4, 2000) 5 8 9) =
      (r, s')"
    by fastforce
  with incoming_transfer_authenticated [OF ft_start this] show ?thesis
    by blast
qed

end
