(* ===== verification/TransferProps.thy ===== *)
theory TransferProps
  imports Transfers FileTransferAuth
begin

text \<open>
  The table of the client's file transfers (\<open>Transfers\<close>): in every state that is reached without an exception each
  transfer is found under the descriptor it is reached at, and a second connection to the socket of a running
  transfer makes the client use a null pointer.
\<close>

section \<open>The ends of a transfer\<close>

lemma ends_shared: "stable (same_ends e) (shared E m)"
  by (auto simp: stable_def same_ends_def shared_def split: prod.splits)

lemma ends_to: "stable (same_ends e) (ft_to p)"
  unfolding ft_to_def upd_dc_def by (simp add: stable_def same_ends_def)

lemma ends_enter: "stable (same_ends e) (ft_enter_connected E)"
  unfolding ft_enter_connected_def by (intro stable_rules ends_to ends_view.view_flush)

lemma stable_phase:
  "stable I a \<Longrightarrow> stable I b \<Longrightarrow> stable I c \<Longrightarrow> stable I d \<Longrightarrow> stable I e \<Longrightarrow>
   stable I (case st of NOT_CONNECTED \<Rightarrow> a | WAITING_FOR_INIT \<Rightarrow> b | WAITING_FOR_INIT_ACK \<Rightarrow> c | WAITING_FOR_INIT2 \<Rightarrow> d |
     CONNECTED \<Rightarrow> e)"
  by (cases st) simp_all

lemma ends_handle_packet: "stable (same_ends e) (ft_handle_packet E sb)"
  unfolding ft_handle_packet_def ft_handshake_defs
  by (intro stable_rules stable_phase ends_shared ends_to ends_enter ends_view.view_ft_ParsePacket)

lemma ends_Parse: "same_ends e s \<Longrightarrow> ft_Parse E recv s = (r, s') \<Longrightarrow> same_ends e s'"
proof (induction E recv s arbitrary: r s' rule: ft_Parse.induct)
  case (1 E recv s)
  show ?case
  proof (cases "buf_empty recv \<or> (\<forall>sb recv'. ft_next_packet recv \<noteq> Inr (Some sb, recv'))")
    case True
    then show ?thesis
      using "1.prems" by (auto simp: ft_Parse.simps [of E recv s] split: if_splits sum.splits option.splits)
  next
    case False
    then obtain sb recv' where n: "\<not> buf_empty recv" "ft_next_packet recv = Inr (Some sb, recv')"
      by blast
    obtain r1 s1 where h: "ft_handle_packet E sb s = (r1, s1)" by fastforce
    note h1 = stableD [OF ends_handle_packet "1.prems"(1) h]
    show ?thesis
    proof (cases r1)
      case (Inl x)
      then show ?thesis using "1.prems"(2) n h h1 by (auto simp: ft_Parse.simps [of E recv s])
    next
      case (Inr x)
      then have "ft_Parse E recv' s1 = (r, s')"
        using "1.prems"(2) n h by (simp add: ft_Parse.simps [of E recv s])
      then show ?thesis using "1.IH" [OF n(1,2) refl refl h [symmetric] Inr h1] by simp
    qed
  qed
qed

lemma ends_Recv: "stable (same_ends e) (ft_Recv E cs recv)"
proof -
  have "same_ends e s \<Longrightarrow> ft_Recv E cs recv s = (r, s') \<Longrightarrow> same_ends e s'" for r s s'
  proof (induction E cs recv s arbitrary: r s' rule: ft_Recv.induct)
    case (3 E c cs recv s)
    obtain r1 s1 where p: "ft_Parse E (pack_bytes c recv) s = (r1, s1)" by fastforce
    note p1 = ends_Parse [OF "3.prems"(1) p]
    show ?case
      using "3.IH" [OF p [symmetric]] "3.prems" p p1 by (cases r1) auto
  qed auto
  then show ?thesis
    unfolding stable_def by (metis prod.collapse)
qed

lemma ends_calls:
  "stable (same_ends e) (ft_SendEvent E)" "stable (same_ends e) (ft_FinishNonBlockingConnect E)"
  "stable (same_ends e) (ft_clearoutMessagesPoll E)"
proof -
  show "stable (same_ends e) (ft_SendEvent E)"
    unfolding ft_SendEvent_def by (intro stable_rules ends_view.view_SendFile ends_view.view_modify; simp)
  show "stable (same_ends e) (ft_FinishNonBlockingConnect E)"
    unfolding ft_FinishNonBlockingConnect_def ft_SendInitPacket_def by (rule ends_shared)
  show "stable (same_ends e) (ft_clearoutMessagesPoll E)"
    unfolding ft_clearoutMessagesPoll_def ft_expired_def
    by (intro stable_rules ends_view.view_assign ends_view.view_modify; simp)
qed

section \<open>Every transfer under its descriptor\<close>

definition own :: "int \<Rightarrow> transfer \<Rightarrow> bool" where
  "own fd t \<longleftrightarrow>
     (case fc_socket (tr_ftc t) of
        Some (st, k) \<Rightarrow> k = fd
      | None \<Rightarrow> (case fc_listen (tr_ftc t) of Some (k, port) \<Rightarrow> k = fd | None \<Rightarrow> False))"

definition keyed :: "transfers \<Rightarrow> bool" where
  "keyed s \<longleftrightarrow> cache_inv (tx_cache s) \<and> (\<forall>fd t. cache_map (tx_cache s) fd = Some (Some t) \<longrightarrow> own fd t)"

lemma own_ends: "same_ends (fc_socket (tr_ftc t), fc_listen (tr_ftc t)) f \<Longrightarrow> own fd (t\<lparr>tr_ftc := f\<rparr>) = own fd t"
  by (auto simp: own_def same_ends_def split: option.split)

lemma cache_update_map:
  "cache_map (cache_update k f c) = (case cache_map c k of None \<Rightarrow> cache_map c | Some v \<Rightarrow> (cache_map c)(k \<mapsto> f v))"
  if "cache_inv c"
proof (cases "cache_lookup k c")
  case None
  then show ?thesis by (simp add: cache_update_def cache_map_def)
next
  case (Some i)
  obtain ys zs where s: "m_list c = ys @ m_list c ! i # zs" "m_key (m_list c ! i) = k"
    using Some by (rule lookupE)
  let ?x = "m_list c ! i"
  have i: "i = length ys"
  proof -
    have "i < length (m_list c)" using Some lookup_index_Some [of k "m_list c" i] by (simp add: cache_lookup_def)
    moreover have "distinct (map m_key (m_list c))" using that by (simp add: cache_inv_def)
    moreover have "m_list c ! length ys = ?x" "length ys < length (m_list c)"
      using s(1) by (metis nth_append_length, metis length_append length_Cons less_add_Suc1 add_Suc_right)
    ultimately show ?thesis
      by (metis distinct_map nth_eq_iff_index_eq)
  qed
  have k: "map_of (entries ys) k = None"
    using that s by (metis (no_types, lifting) cache_inv_def distinct_append disjoint_iff keys_entries list.set_intros(1)
        list.simps(9) map_append map_of_eq_None_iff list.set_map)
  have "(m_list c)[i := ?x\<lparr>m_value := f (m_value ?x)\<rparr>] = ys @ ?x\<lparr>m_value := f (m_value ?x)\<rparr> # zs"
    using i s(1) by (metis list_update_length)
  moreover have "cache_map c = map_of (entries (ys @ ?x # zs))"
    using s(1) by (simp add: cache_map_entries)
  ultimately show ?thesis
    using Some s(2) k by (auto simp: cache_update_def cache_map_entries Let_def entries_def map_add_def fun_eq_iff split: option.split)
qed

lemma cache_update_inv: "cache_inv c \<Longrightarrow> cache_inv (cache_update k f c)" for c :: "('a, 'b) cache"
proof (cases "cache_lookup k c")
  case (Some i)
  assume c: "cache_inv c"
  have "(map g xs)[i := g (xs ! i)] = map g xs" for g :: "('a, 'b) cache_item \<Rightarrow> 'c" and xs
    by (metis list_update_id map_update)
  note same = this [of m_key] this [of getExpiryTime]
  have "map m_key (m_list (cache_update k f c)) = map m_key (m_list c)"
    using Some same(1) [of "m_list c"] by (simp add: cache_update_def Let_def map_update)
  moreover have "map getExpiryTime (m_list (cache_update k f c)) = map getExpiryTime (m_list c)"
    using Some same(2) [of "m_list c"] by (simp add: cache_update_def Let_def map_update getExpiryTime_def)
  ultimately show ?thesis
    using c by (simp add: cache_inv_def by_expiry_def)
qed (simp add: cache_update_def)

lemma keyed_put_tx: "stable keyed (put_tx os)"
  and keyed_upd_shared: "stable keyed (upd_shared i f g)"
  by (simp_all add: stable_def keyed_def put_tx_def upd_shared_def)

lemma keyed_run_transfer: "stable keyed (run_transfer t m)"
  by (auto simp: stable_def keyed_def run_transfer_def split: prod.splits)

lemma keyed_entry_at: "stable keyed (entry_at E fd)"
proof -
  have "cache_map (cache_insert fd None n c) = (cache_map c)(fd \<mapsto> None) \<and> cache_inv (cache_insert fd None n c)"
    if "cache_inv c" "cache_lookup fd c = None" for c :: "(int, transfer option) cache" and n
    using that cache_map_insert_item [of c "new_item fd None (m_default_timeout c) n"]
    by (simp add: cache_insert_def new_item_def cache_map_def)
  then show ?thesis
    by (auto simp: stable_def entry_at_def cache_index_def keyed_def split: option.splits if_splits prod.splits)
qed

lemma keyed_upd_entry: "own fd t \<Longrightarrow> stable keyed (upd_entry fd t)"
  by (auto simp: stable_def upd_entry_def keyed_def cache_update_map cache_update_inv split: option.splits if_splits)

lemma keyed_erase: "stable keyed (erase_transfer fd)"
  using cache_erase [of "tx_cache s" fd for s]
  by (auto simp: stable_def erase_transfer_def keyed_def ft_remove_and_not_delete_def split: option.splits if_splits)

lemma keyed_transfer_at:
  assumes "\<And>t. own fd t \<Longrightarrow> stable keyed (f t)"
  shows "stable keyed (thenM (transfer_at E fd) f)"
proof -
  have "keyed u" if s: "keyed s" and r: "thenM (transfer_at E fd) f s = (r, u)" for s r u
  proof -
    obtain v c where i: "cache_index None fd (te_now (xe_ft E)) (tx_cache s) = (v, c)" by fastforce
    let ?w = "s\<lparr>tx_cache := c\<rparr>"
    have e: "entry_at E fd s = (Inr v, ?w)"
      using i by (simp add: entry_at_def)
    have w: "keyed ?w" using stableD [OF keyed_entry_at s e] .
    show ?thesis
    proof (cases v)
      case None
      then show ?thesis using e r w by (simp add: transfer_at_def thenM_def)
    next
      case (Some t)
      have "cache_map (tx_cache s) fd = Some (Some t)"
        using i Some by (auto simp: cache_index_def cache_map_def split: option.splits)
      then have "own fd t" using s by (simp add: keyed_def)
      moreover have "f t ?w = (r, u)" using e r Some by (simp add: transfer_at_def thenM_def)
      ultimately show ?thesis using stableD [OF assms w] by blast
    qed
  qed
  then show ?thesis unfolding stable_def by (metis prod.collapse)
qed

text \<open>Running an operation that leaves the ends of the transfer alone.\<close>

lemma keyed_run:
  assumes "own fd t" and "\<And>e. stable (same_ends e) m" and "\<And>r t'. own fd t' \<Longrightarrow> stable keyed (f (r, t'))"
  shows "stable keyed (thenM (run_transfer t m) f)"
proof -
  have "keyed u" if s: "keyed s" and r: "thenM (run_transfer t m) f s = (r, u)" for s r u
  proof -
    obtain ev fe where e: "tx_events s (tr_event t) = (ev, fe)" by fastforce
    let ?f = "(tr_ftc t)\<lparr>fc_event := ev, fc_fe := fe, fc_out := []\<rparr>"
    obtain x g where m: "m ?f = (x, g)" by fastforce
    have "same_ends (fc_socket (tr_ftc t), fc_listen (tr_ftc t)) ?f" by (simp add: same_ends_def)
    from stableD [OF assms(2) this m] have "own fd (t\<lparr>tr_ftc := g\<lparr>fc_out := []\<rparr>\<rparr>)"
      using assms(1) own_ends [of t "g\<lparr>fc_out := []\<rparr>"] by (simp add: same_ends_def)
    moreover obtain w where w: "run_transfer t m s = (Inr (x, t\<lparr>tr_ftc := g\<lparr>fc_out := []\<rparr>\<rparr>), w)"
      using e m by (simp add: run_transfer_def)
    moreover have "keyed w" using stableD [OF keyed_run_transfer s w] .
    ultimately show ?thesis
      using stableD [OF assms(3)] r by (metis thenM_Inr)
  qed
  then show ?thesis unfolding stable_def by (metis prod.collapse)
qed

lemma keyed_with_transfer:
  "own fd t \<Longrightarrow> (\<And>e. stable (same_ends e) m) \<Longrightarrow> stable keyed (with_transfer fd t m)"
  unfolding with_transfer_def by (rule keyed_run) (auto intro!: stable_rules keyed_upd_entry)

section \<open>The operations\<close>

lemmas keyed_rules = stable_rules keyed_put_tx keyed_upd_shared keyed_run_transfer keyed_entry_at keyed_erase

lemma keyed_states: "stable keyed (set_transfer_state i st)" "stable keyed (signal_update i)" "stable keyed (transfer_failed i msg)"
  unfolding set_transfer_state_def signal_update_def transfer_failed_def by (intro keyed_rules)+

lemma keyed_put_transfer: "own fd t \<Longrightarrow> stable keyed (put_transfer E fd t)"
  unfolding put_transfer_def by (intro keyed_rules keyed_upd_entry)

lemma keyed_delete: "stable keyed (delete_transfer v)"
  unfolding delete_transfer_def by (intro keyed_rules)

lemma keyed_drop: "stable keyed (drop_transfer E fd)"
  unfolding drop_transfer_def remove_transfer_def
  by (intro keyed_rules keyed_transfer_at keyed_states keyed_delete)

lemma keyed_drop_transfers: "stable keyed drop_transfers"
  unfolding drop_transfers_def remove_transfer_def by (intro keyed_rules keyed_delete)

lemma keyed_start: "own fd t \<Longrightarrow> stable keyed (start_transfer E fd t)"
proof -
  assume own: "own fd t"
  have "stable keyed (case r of
       Inr _ \<Rightarrow> thenM (set_transfer_state (tr_event t) FT_SEND) (\<lambda>_. signal_update (tr_event t))
     | Inl (Disconnected msg) \<Rightarrow> drop_transfer E fd
     | Inl e \<Rightarrow> raise e)" for r :: "exn + unit"
    by (auto split: sum.split exn.split intro!: keyed_rules keyed_states keyed_drop)
  then show ?thesis
    unfolding start_transfer_def using own
    by (intro stable_thenM keyed_put_transfer keyed_with_transfer ends_calls)
qed

lemma socket_fd_own: "socket_fd t = Some fd \<Longrightarrow> own fd t"
  by (auto simp: socket_fd_def own_def)

lemma keyed_read_fd:
  "(\<And>fd. own fd t \<Longrightarrow> stable keyed (f fd)) \<Longrightarrow> stable keyed (thenM (read (\<lambda>_. socket_fd t)) f)"
  by (cases "socket_fd t") (auto simp: stable_def thenM_def read_def socket_fd_own)

lemma keyed_SendFileTransfer: "stable keyed (SendFileTransfer E i)"
  unfolding SendFileTransfer_def
  by (intro keyed_rules keyed_states keyed_read_fd keyed_start keyed_delete)

lemma keyed_open_incoming: "stable keyed (open_incoming E i)"
  unfolding open_incoming_def
  by (intro keyed_rules keyed_put_transfer) (simp add: own_def new_ftc_def)

lemma keyed_SendFileTransferACK: "stable keyed (SendFileTransferACK E i)"
  unfolding SendFileTransferACK_def answer_direct_def answer_through_server_def
  by (intro keyed_rules keyed_states keyed_open_incoming)

lemma keyed_find: "stable keyed (find_by_event i vs)"
  by (induction i vs rule: find_by_event.induct) (simp_all add: stable_def)

lemma keyed_find_listening: "stable keyed (find_listening E fd vs)"
  by (induction E fd vs rule: find_listening.induct) (simp_all add: stable_def)

lemma keyed_Cancel: "stable keyed (CancelFileTransfer E ev)"
  unfolding CancelFileTransfer_def cancel_request_def cancel_connection_def transfer_by_event_def Let_def
  by (intro keyed_rules keyed_states keyed_find keyed_drop)

lemma keyed_accept: "stable keyed (accept_transfer E l t)"
proof -
  have "stable keyed (thenM (erase_transfer l) (\<lambda>_.
      thenM (put_transfer E fd (t'\<lparr>tr_socket := True, tr_messageack := True\<rparr>)) (\<lambda>_. put_tx [AddFd fd READ])))"
    if "own fd t'" for fd t'
    using that by (intro keyed_rules keyed_put_transfer) (auto simp: own_def split: option.splits)
  note put = this
  have "keyed u" if s: "keyed s" and r: "thenM (run_transfer t (ft_setSocket fd ip local_ip)) (\<lambda>(r, t).
      thenM (erase_transfer l) (\<lambda>_.
      thenM (put_transfer E fd (t\<lparr>tr_socket := True, tr_messageack := True\<rparr>)) (\<lambda>_. put_tx [AddFd fd READ]))) s = (r, u)" for fd ip local_ip s r u
  proof -
    obtain ev fe where e: "tx_events s (tr_event t) = (ev, fe)" by fastforce
    let ?t = "t\<lparr>tr_ftc := (tr_ftc t)\<lparr>fc_event := ev, fc_fe := fe,
        fc_dc := (fc_dc (tr_ftc t))\<lparr>dc_remote_ip := ip, dc_local_ip := local_ip\<rparr>,
        fc_socket := Some (SOCK_CONNECTED, fd), fc_out := []\<rparr>\<rparr>"
    obtain w where w: "run_transfer t (ft_setSocket fd ip local_ip) s = (Inr (Inr (), ?t), w)"
      using e by (simp add: run_transfer_def ft_setSocket_def upd_dc_def)
    have "keyed w" using stableD [OF keyed_run_transfer s w] .
    moreover have "own fd ?t" by (simp add: own_def)
    moreover have "thenM (erase_transfer l) (\<lambda>_. thenM (put_transfer E fd (?t\<lparr>tr_socket := True, tr_messageack := True\<rparr>))
        (\<lambda>_. put_tx [AddFd fd READ])) w = (r, u)"
      using r w by (simp add: thenM_def)
    ultimately show ?thesis using stableD [OF put] by blast
  qed
  then have "stable keyed (thenM (run_transfer t (ft_setSocket fd ip local_ip)) (\<lambda>(r, t).
      thenM (erase_transfer l) (\<lambda>_.
      thenM (put_transfer E fd (t\<lparr>tr_socket := True, tr_messageack := True\<rparr>)) (\<lambda>_. put_tx [AddFd fd READ]))))" for fd ip local_ip
    unfolding stable_def by (metis prod.collapse)
  then show ?thesis
    unfolding accept_transfer_def by (auto intro: stable_pure split: option.split)
qed

lemma keyed_listen_cb: "stable keyed (transfer_listen_cb E fd)"
  unfolding transfer_listen_cb_def by (intro keyed_transfer_at stable_rules keyed_accept)

lemma own_socket_state: "own fd (set_socket_state st t) = own fd t"
  by (auto simp: own_def set_socket_state_def split: option.split)

lemma keyed_drop_disconnected: "stable keyed (drop_disconnected E fd r)"
  unfolding drop_disconnected_def by (auto split: sum.split exn.split intro!: keyed_rules keyed_drop)

lemma keyed_connected_cb: "own fd t \<Longrightarrow> stable keyed (connected_cb E fd t)"
  unfolding connected_cb_def
  by (intro keyed_rules keyed_upd_entry keyed_drop keyed_with_transfer keyed_drop_disconnected ends_calls)
    (simp_all add: own_socket_state)

lemma keyed_recv:
  assumes "own fd t" and "\<And>r. (\<And>t'. r = Inr t' \<Longrightarrow> own fd t') \<Longrightarrow> stable keyed (f r)"
  shows "stable keyed (thenM (transfer_recv E cs fd t) f)"
proof -
  have own_recv: "own fd (t\<lparr>tr_recv := b\<rparr>) = own fd t" for t b
    by (simp add: own_def cong: option.case_cong)
  have "stable keyed (thenM (case r of
       Inl e \<Rightarrow> thenM (upd_entry fd t') (\<lambda>_. ret (Inl e))
     | Inr recv \<Rightarrow> (let t = t'\<lparr>tr_recv := recv\<rparr> in thenM (upd_entry fd t) (\<lambda>_. ret (Inr t)))) f)"
    if "own fd t'" for r t'
    using that
    by (cases r) (auto simp: thenM_assoc Let_def own_recv intro!: keyed_rules keyed_upd_entry assms(2))
  then show ?thesis
    unfolding transfer_recv_def thenM_assoc by (intro keyed_run [OF assms(1)] ends_Recv) simp
qed

lemma keyed_socket_cb: "stable keyed (transfer_socket_cb E cs fd modes)"
proof -
  have sock: "stable keyed (case r of Inl e \<Rightarrow> drop_disconnected E fd r
      | Inr t \<Rightarrow> thenM (with_transfer fd t (ft_SendEvent (xe_ft E))) (drop_disconnected E fd))"
    if "\<And>t. r = Inr t \<Longrightarrow> own fd t" for r :: "exn + transfer"
    using that by (cases r) (auto intro!: stable_thenM keyed_with_transfer keyed_drop_disconnected ends_calls)
  show ?thesis
    unfolding transfer_socket_cb_def
    by (intro keyed_transfer_at stable_thenM [OF stable_pure(6)] stable_if keyed_connected_cb keyed_recv
        keyed_drop_disconnected keyed_drop sock; simp)
qed

lemma keyed_transfers_cb: "stable keyed (transfers_cb E cs fd modes)"
  unfolding transfers_cb_def exists_listenfd_def
  by (intro keyed_rules keyed_find_listening keyed_listen_cb keyed_socket_cb)

lemma stable_eachM_on: "(\<And>x. x \<in> set xs \<Longrightarrow> stable I (f x)) \<Longrightarrow> stable I (eachM f xs)"
  by (induction xs) (auto intro!: stable_rules)

lemma stable_gets_each:
  "(\<And>s x. I s \<Longrightarrow> x \<in> set (g s) \<Longrightarrow> stable I (f x)) \<Longrightarrow> stable I (thenM (gets g) (eachM f))"
  using stable_eachM_on [of "g s" I f for s] by (auto simp: stable_def [of I "thenM _ _"] thenM_def) (auto simp: stable_def)

lemma keyed_poll: "stable keyed (poll_transfers E)"
proof -
  have "stable keyed (poll_transfer E (fd, v))" if "\<And>t. v = Some t \<Longrightarrow> own fd t" for fd v
    using that unfolding poll_transfer_def
    by (cases v) (auto intro!: keyed_rules keyed_with_transfer ends_calls)
  moreover have "own (m_key i) t" if "keyed s" "i \<in> set (m_list (tx_cache s))" "m_value i = Some t" for s i t
  proof -
    have "map_of (entries (m_list (tx_cache s))) (m_key i) = Some (Some t)"
      using that by (intro map_of_is_SomeI) (force simp: keyed_def cache_inv_def entries_def o_def)+
    then show ?thesis using that(1) by (simp add: keyed_def cache_map_entries)
  qed
  ultimately show ?thesis
    unfolding poll_transfers_def by (intro stable_gets_each) auto
qed

section \<open>All reachable states\<close>

text \<open>
  What happens to the table: calls of the application, sockets that are ready, polls, the end of a connection, and
  changes of an event by the application and the rest of the client.
\<close>

datatype transfer_call =
    CallSend nat | CallAnswer nat | CallCancel "nat option" | Ready "u8 list option list" int "socket_mode set"
  | CallPoll | Drop int | DropAll | Touch nat "message_event \<Rightarrow> message_event" "ft_event \<Rightarrow> ft_event"

fun run_call :: "transfer_env \<Rightarrow> transfer_call \<Rightarrow> unit tm" where
  "run_call E (CallSend i) = SendFileTransfer E i"
| "run_call E (CallAnswer i) = SendFileTransferACK E i"
| "run_call E (CallCancel ev) = CancelFileTransfer E ev"
| "run_call E (Ready cs fd modes) = transfers_cb E cs fd modes"
| "run_call E CallPoll = poll_transfers E"
| "run_call E (Drop fd) = drop_transfer E fd"
| "run_call E DropAll = drop_transfers"
| "run_call E (Touch i f g) = upd_shared i f g"

inductive tx_reach :: "transfers \<Rightarrow> bool" where
  tx_start: "tx_reach (new_transfers evs)"
| tx_step: "tx_reach s \<Longrightarrow> tx_reach (snd (run_call E c s))"

lemma keyed_call: "stable keyed (run_call E c)"
  by (cases c) (simp_all add: keyed_SendFileTransfer keyed_SendFileTransferACK keyed_Cancel keyed_transfers_cb keyed_poll
      keyed_drop keyed_drop_transfers keyed_upd_shared)

lemma keyed_reach: "tx_reach s \<Longrightarrow> keyed s"
proof (induction rule: tx_reach.induct)
  case (tx_start evs)
  show ?case
    by (simp add: keyed_def new_transfers_def setDefaultTimeout_def new_cache_def cache_inv_def by_expiry_def
        cache_map_entries entries_def)
next
  case (tx_step s E c)
  then show ?case using keyed_call [of E c] by (simp add: stable_def)
qed

text \<open>C13: In every reachable state, also after exceptions, the descriptors in the cache of transfers are distinct and each
  transfer stands under its own: that of its connection, or before there is one the one it listens on.\<close>

theorem transfers_keyed:
  assumes "tx_reach s"
  shows "distinct (map m_key (m_list (tx_cache s))) \<and>
    (\<forall>fd t. cache_map (tx_cache s) fd = Some (Some t) \<longrightarrow>
      (case fc_socket (tr_ftc t) of
         Some (st, k) \<Rightarrow> k = fd
       | None \<Rightarrow> (case fc_listen (tr_ftc t) of Some (k, port) \<Rightarrow> k = fd | None \<Rightarrow> False)))"
  using keyed_reach [OF assms] by (simp add: keyed_def cache_inv_def own_def)

section \<open>A second connection\<close>

lemma find_listening_hits:
  "Some t \<in> set vs \<Longrightarrow> listen_fd_of E t = fd \<Longrightarrow>
    find_listening E fd vs s \<in> {(Inr True, s), (Inl (Fault NullPointer), s)}"
  by (induction E fd vs rule: find_listening.induct) auto

lemma find_listening_True:
  "Some t \<in> set vs \<Longrightarrow> None \<notin> set vs \<Longrightarrow> listen_fd_of E t = fd \<Longrightarrow> find_listening E fd vs s = (Inr True, s)"
  by (induction E fd vs rule: find_listening.induct) auto

lemma cached_value: "cache_map c fd = Some v \<Longrightarrow> v \<in> set (map m_value (m_list c))"
  by (auto simp: cache_map_entries entries_def dest!: map_of_SomeD)

lemma put_transfer_map:
  assumes "cache_inv (tx_cache s)"
  shows "\<exists>c. put_transfer E fd t s = (Inr (), s\<lparr>tx_cache := c\<rparr>) \<and> cache_map c = (cache_map (tx_cache s))(fd \<mapsto> Some t)"
proof (cases "cache_lookup fd (tx_cache s)")
  case None
  then have "cache_map (cache_insert fd None n (tx_cache s)) = (cache_map (tx_cache s))(fd \<mapsto> None) \<and>
      cache_inv (cache_insert fd None n (tx_cache s))" for n
    using assms cache_map_insert_item [of "tx_cache s" "new_item fd None (m_default_timeout (tx_cache s)) n"]
    by (simp add: cache_insert_def new_item_def cache_map_def)
  then show ?thesis
    using None by (intro exI) (auto simp: put_transfer_def entry_at_def upd_entry_def cache_index_def cache_update_map thenM_def)
next
  case (Some i)
  then show ?thesis
    using assms by (intro exI) (auto simp: put_transfer_def entry_at_def upd_entry_def cache_index_def cache_update_map
        cache_map_def thenM_def)
qed

lemma accept_transfer_map:
  assumes "keyed s" and "cache_map (tx_cache s) l = Some (Some t)" and "xe_accept E = Some (fd, ip, local_ip)"
    and "fc_listen (tr_ftc t) = Some (l, port)"
  shows "\<exists>t' s'. accept_transfer E l t s = (Inr (), s') \<and> fc_listen (tr_ftc t') = Some (l, port) \<and>
    cache_map (tx_cache s') = (cache_map (tx_cache s))(l := None, fd \<mapsto> Some t')"
proof -
  obtain ev fe where e: "tx_events s (tr_event t) = (ev, fe)" by fastforce
  obtain t1 w where w: "run_transfer t (ft_setSocket fd ip local_ip) s = (Inr (Inr (), t1), w)" "tx_cache w = tx_cache s"
    "fc_listen (tr_ftc t1) = Some (l, port)"
    using e assms(4) by (simp add: run_transfer_def ft_setSocket_def upd_dc_def)
  obtain i where i: "cache_lookup l (tx_cache w) = Some i"
    using assms(2) w(2) by (auto simp: cache_map_def)
  define c where "c = (tx_cache w)\<lparr>m_list := erase_at i (m_list (tx_cache w))\<rparr>"
  have c: "cache_map c = (cache_map (tx_cache s))(l := None)" "cache_inv c"
    using cache_erase [OF _ i] assms(1) w(2) by (simp_all add: keyed_def c_def)
  have er: "erase_transfer l w = (Inr (), w\<lparr>tx_cache := c\<rparr>)"
    using i by (simp add: erase_transfer_def ft_remove_and_not_delete_def c_def)
  let ?t = "t1\<lparr>tr_socket := True, tr_messageack := True\<rparr>"
  obtain d where d: "put_transfer E fd ?t (w\<lparr>tx_cache := c\<rparr>) = (Inr (), w\<lparr>tx_cache := d\<rparr>)"
    "cache_map d = (cache_map c)(fd \<mapsto> Some ?t)"
    using put_transfer_map [of "w\<lparr>tx_cache := c\<rparr>" E fd ?t] c(2) by auto
  have "accept_transfer E l t s = put_tx [AddFd fd READ] (w\<lparr>tx_cache := d\<rparr>)"
    using w(1) er d(1) assms(3) by (simp add: accept_transfer_def thenM_def)
  then show ?thesis
    using d(2) c(1) w(3) by (intro exI [of _ ?t] exI) (auto simp: put_tx_def)
qed

text \<open>C12: A transfer waits on a socket. The first connection to it is accepted; when a second one arrives, whatever
  happened to the event, the client looks the transfer up under the descriptor it no longer stands under and uses
  the null pointer it gets: anyone who can reach the port ends the program.\<close>

theorem second_connection_crashes:
  assumes "tx_reach s" and "cache_map (tx_cache s) l = Some (Some t)" and "fc_listen (tr_ftc t) = Some (l, port)"
    and "fc_socket (tr_ftc t) = None" and "None \<notin> set (map m_value (m_list (tx_cache s)))"
    and "xe_null E" and "xe_accept E = Some (fd, ip, local_ip)" and "fd \<noteq> l"
  shows "\<exists>s'. transfers_cb E cs l modes s = (Inr (), s') \<and>
    fst (transfers_cb D ds l modes' s') = Inl (Fault NullPointer)"
proof -
  have k: "keyed s" using keyed_reach [OF assms(1)] .
  have "listen_fd_of F t' = l" if "fc_listen (tr_ftc t') = Some (l, port)" for F t'
    using that by (simp add: listen_fd_of_def)
  note fd_of = this
  obtain t' s' where s': "accept_transfer E l t s = (Inr (), s')" "fc_listen (tr_ftc t') = Some (l, port)"
    "cache_map (tx_cache s') = (cache_map (tx_cache s))(l := None, fd \<mapsto> Some t')"
    using accept_transfer_map [OF k assms(2,7,3)] by blast
  obtain i where i: "cache_lookup l (tx_cache s) = Some i" "m_value (m_list (tx_cache s) ! i) = Some t"
    using assms(2) by (auto simp: cache_map_def)
  have "transfer_at E l s = (Inr t, s)"
    using i by (simp add: transfer_at_def entry_at_def cache_index_def thenM_def)
  then have "transfers_cb E cs l modes s = (Inr (), s')"
    using find_listening_True [OF cached_value [OF assms(2)] assms(5) fd_of [OF assms(3)]] s'(1) assms(4,6)
    by (simp add: transfers_cb_def exists_listenfd_def transfer_listen_cb_def no_socket_def thenM_def)
  moreover have "fst (transfers_cb D ds l modes' s') = Inl (Fault NullPointer)"
  proof -
    have "cache_map (tx_cache s') fd = Some (Some t')" "cache_lookup l (tx_cache s') = None"
      using s'(3) assms(8) cache_map_None [of "tx_cache s'" l] by simp_all
    then show ?thesis
      using find_listening_hits [OF cached_value fd_of [OF s'(2)], of "tx_cache s'" fd D s']
      by (auto simp: transfers_cb_def exists_listenfd_def transfer_listen_cb_def transfer_at_def entry_at_def
          cache_index_def thenM_def)
  qed
  ultimately show ?thesis by blast
qed

text \<open>A transfer that was accepted by the user and waits on the socket 4.\<close>

definition demo_table :: transfer_env where
  "demo_table =
     \<lparr>xe_ft = demo_files, xe_mh = sample_handler, xe_ext_ip = 7, xe_port = 0, xe_listens = Some (4, 2000),
      xe_accept = Some (5, 8, 9), xe_finishes = True, xe_peer = True, xe_peer_sends = True, xe_cookie = new_cookie,
      xe_null = True, xe_unset_fd = - 1\<rparr>"

definition demo_waiting_transfers :: transfers where
  "demo_waiting_transfers = snd (run_call demo_table (CallAnswer 0) (new_transfers (\<lambda>_.
     ((new_event 0 7 AwayMessageEvent)\<lparr>m_isdirect := Some True\<rparr>, (new_ft_event [] [] 3 1)\<lparr>fe_state := FT_ACCEPTED\<rparr>))))"

lemma demo_waiting_reach: "tx_reach demo_waiting_transfers"
  unfolding demo_waiting_transfers_def by (intro tx_step tx_start)

lemma demo_waiting_entry:
  obtains t n where "m_list (tx_cache demo_waiting_transfers) = [\<lparr>m_timeout = 30, m_timestamp = n, m_key = 4, m_value = Some t\<rparr>]"
    and "fc_listen (tr_ftc t) = Some (4, 2000)" and "fc_socket (tr_ftc t) = None"
  by (simp add: demo_waiting_transfers_def demo_table_def SendFileTransferACK_def answer_direct_def open_incoming_def
      set_transfer_state_def signal_update_def put_tx_def upd_shared_def shared_event_def put_transfer_def upd_entry_def
      entry_at_def cache_index_def cache_lookup_def cache_update_def cache_insert_def insert_item_def new_item_def
      new_transfers_def setDefaultTimeout_def new_cache_def transfer_state_def new_ftc_def thenM_def)

theorem transfers_keyed_witness:
  "distinct (map m_key (m_list (tx_cache demo_waiting_transfers))) \<and> m_list (tx_cache demo_waiting_transfers) \<noteq> []"
  using transfers_keyed [OF demo_waiting_reach] demo_waiting_entry by (metis list.distinct(1))

theorem second_connection_crashes_witness:
  "\<exists>s'. transfers_cb demo_table [] 4 {READ} demo_waiting_transfers = (Inr (), s') \<and>
     fst (transfers_cb demo_table [] 4 {READ} s') = Inl (Fault NullPointer)"
proof -
  obtain t n where t: "m_list (tx_cache demo_waiting_transfers) = [\<lparr>m_timeout = 30, m_timestamp = n, m_key = 4, m_value = Some t\<rparr>]"
    "fc_listen (tr_ftc t) = Some (4, 2000)" "fc_socket (tr_ftc t) = None"
    by (rule demo_waiting_entry)
  have "cache_map (tx_cache demo_waiting_transfers) 4 = Some (Some t)"
    using t(1) by (simp add: cache_map_def cache_lookup_def)
  moreover have "None \<notin> set (map m_value (m_list (tx_cache demo_waiting_transfers)))"
    using t(1) by simp
  moreover have "xe_null demo_table" "xe_accept demo_table = Some (5, 8, 9)" "(5 :: int) \<noteq> 4"
    by (simp_all add: demo_table_def)
  ultimately show ?thesis
    using second_connection_crashes [OF demo_waiting_reach _ t(2,3)] by blast
qed

section \<open>What is not reported\<close>

text \<open>Cancelling a transfer that is running only changes the state of the event: the connection stays, and goes on.\<close>

lemma cancel_keeps_running:
  assumes "transfer_state i s \<in> {FT_SEND, FT_RECEIVE}"
  shows "\<exists>ev. CancelFileTransfer E (Some i) s = (Inr (), s\<lparr>tx_events := (tx_events s)
      (i := map_prod id (\<lambda>fe. fe\<lparr>fe_state := FT_NOT_CONNECTED\<rparr>) (tx_events s i)), tx_out := tx_out s @ [UpdateSignal ev]\<rparr>)"
  using assms by (auto simp: CancelFileTransfer_def set_transfer_state_def signal_update_def upd_shared_def put_tx_def
      thenM_def Let_def id_def)

end
