(* ===== verification/MailClient.thy ===== *)
theory MailClient
  imports ServerConn
begin

text \<open>
  The client of a mail server, through which mails and messages to mobile phones are sent:
  \<^verbatim>\<open>src/SMTPClient.h\<close> and \<^verbatim>\<open>src/SMTPClient.cpp\<close>, and the part of \<^verbatim>\<open>Client::socket_cb\<close> that serves it. The
  members and the socket are the record \<open>smtp\<close>; the queue holds pointers, of which \<open>None\<close> is the null
  pointer. The contacts, which are only read, and what comes from outside are the
  record \<open>smtp_env\<close>. What the object sends, signals and asks of the socket is appended to \<open>sm_out\<close>.
\<close>

section \<open>State\<close>

datatype smtp_phase =
    SMTP_NOT_CONNECTED | WAITING_FOR_CONNECT | WAITING_FOR_INVITATION | WAITING_FOR_HELO_ACK
  | WAITING_FOR_MAIL_ACK | WAITING_FOR_RCPT_ACK | WAITING_FOR_DATA_ACK | WAITING_FOR_TEXT_ACK | DISCONNECTING

datatype smtp_output =
    SmtpSent "u8 list"
  | SmtpAck message_event
  | SmtpConnect string u16
  | SmtpAddSocket int socket_mode
  | SmtpRemoveSocket int

record smtp =
  sm_state :: smtp_phase
  sm_msgqueue :: "message_event option list"
  sm_recv :: buffer
  sm_server_name :: string
  sm_server_port :: u16
  sm_bindhost :: string
  sm_last_operation :: "int option"
  sm_timeout :: int
  sm_socket :: socket_state
  sm_fd :: int
  sm_tick :: nat
  sm_out :: "smtp_output list"

record smtp_env =
  me_now :: int
  me_contact :: "contact_ref \<Rightarrow> contact"
  me_self :: contact_ref
  me_resolves :: "string \<Rightarrow> bool"
  me_connects :: "nat \<Rightarrow> connect_result"
  me_finishes :: "nat \<Rightarrow> bool"
  me_sends :: "nat \<Rightarrow> bool"

type_synonym 'a sm = "(smtp, 'a) effect"

definition new_smtp :: "string \<Rightarrow> u16 \<Rightarrow> smtp" where
  "new_smtp name port =
     \<lparr>sm_state = SMTP_NOT_CONNECTED, sm_msgqueue = [], sm_recv = new_buffer, sm_server_name = name,
      sm_server_port = port, sm_bindhost = '''', sm_last_operation = None, sm_timeout = 30,
      sm_socket = SOCK_NOT_CONNECTED, sm_fd = - 1, sm_tick = 0, sm_out = []\<rparr>"

definition smtp_put :: "smtp_output list \<Rightarrow> unit sm" where
  "smtp_put os = modify (\<lambda>s. s\<lparr>sm_out := sm_out s @ os\<rparr>)"

definition smtp_query :: "(nat \<Rightarrow> 'a) \<Rightarrow> 'a sm" where
  "smtp_query f = (\<lambda>s. (Inr (f (sm_tick s)), s\<lparr>sm_tick := Suc (sm_tick s)\<rparr>))"

definition smtp_to :: "smtp_phase \<Rightarrow> unit sm" where
  "smtp_to p = modify (\<lambda>s. s\<lparr>sm_state := p\<rparr>)"

section \<open>Connecting\<close>

definition smtp_socket :: "socket_state \<Rightarrow> unit sm" where
  "smtp_socket st = modify (\<lambda>s. s\<lparr>sm_socket := st\<rparr>)"

definition smtp_lookup :: "smtp_env \<Rightarrow> string \<Rightarrow> unit sm" where
  "smtp_lookup E host = (if me_resolves E host then ret () else raise SocketError)"

text \<open>\<^verbatim>\<open>m_socket->Connect()\<close> with the settings before it.\<close>

definition smtp_open :: "smtp_env \<Rightarrow> unit sm" where
  "smtp_open E =
     thenM (gets id) (\<lambda>s.
     thenM (smtp_lookup E (sm_server_name s)) (\<lambda>_.
     thenM (if sm_bindhost s = '''' then ret () else smtp_lookup E (sm_bindhost s)) (\<lambda>_.
     if sm_socket s \<noteq> SOCK_NOT_CONNECTED then raise SocketError
     else
       thenM (smtp_put [SmtpConnect (sm_server_name s) (sm_server_port s)]) (\<lambda>_.
       thenM (smtp_query (me_connects E)) (\<lambda>r.
       case r of
         ConnectFails fd \<Rightarrow> thenM (modify (\<lambda>s. s\<lparr>sm_fd := fd\<rparr>)) (\<lambda>_. raise SocketError)
       | ConnectPending fd \<Rightarrow> modify (\<lambda>s. s\<lparr>sm_fd := fd, sm_socket := SOCK_NONBLOCKING_CONNECT\<rparr>)
       | ConnectDone fd \<Rightarrow> modify (\<lambda>s. s\<lparr>sm_fd := fd, sm_socket := SOCK_CONNECTED\<rparr>))))))"

definition smtp_remove_socket :: "unit sm" where
  "smtp_remove_socket = thenM (gets sm_fd) (\<lambda>fd. if fd > - 1 then smtp_put [SmtpRemoveSocket fd] else ret ())"

definition smtp_Disconnect :: "unit sm" where
  "smtp_Disconnect =
     thenM (smtp_socket SOCK_NOT_CONNECTED) (\<lambda>_.
     thenM (smtp_to SMTP_NOT_CONNECTED) (\<lambda>_. smtp_remove_socket))"

definition smtp_Connect :: "smtp_env \<Rightarrow> unit sm" where
  "smtp_Connect E =
     catchM
       (thenM (smtp_open E) (\<lambda>_.
        thenM (gets sm_fd) (\<lambda>fd.
        thenM (smtp_put [SmtpAddSocket fd WRITE]) (\<lambda>_.
        thenM (modify (\<lambda>s. s\<lparr>sm_last_operation := Some (me_now E)\<rparr>)) (\<lambda>_. smtp_to WAITING_FOR_CONNECT)))))
       (\<lambda>e. if e = SocketError then smtp_Disconnect else raise e)"

definition smtp_FinishNonBlockingConnect :: "unit sm" where
  "smtp_FinishNonBlockingConnect = smtp_to WAITING_FOR_INVITATION"

section \<open>Commands\<close>

text \<open>A send on a socket that is not connected throws, one that fails closes the socket too.\<close>

definition smtp_send_failed :: "unit sm" where
  "smtp_send_failed =
     thenM (smtp_to SMTP_NOT_CONNECTED) (\<lambda>_. raise (Disconnected ''Failed to send: ''))"

definition smtp_Send :: "smtp_env \<Rightarrow> string \<Rightarrow> unit sm" where
  "smtp_Send E cmd =
     thenM (gets sm_socket) (\<lambda>st.
     if st \<noteq> SOCK_CONNECTED then smtp_send_failed
     else
       thenM (smtp_query (me_sends E)) (\<lambda>ok.
       if ok then smtp_put [SmtpSent (bytes_of_string cmd)]
       else thenM (smtp_socket SOCK_NOT_CONNECTED) (\<lambda>_. smtp_send_failed)))"

text \<open>The event \<^verbatim>\<open>*m_msgqueue.begin()\<close> points to; every user goes through the pointer at once.\<close>

definition first_event :: "message_event sm" where
  "first_event = (\<lambda>s.
     case sm_msgqueue s of Some ev # q \<Rightarrow> (Inr ev, s) | _ \<Rightarrow> (Inl (Fault NullPointer), s))"

definition getContactEmail :: "contact \<Rightarrow> string" where
  "getContactEmail c =
     (if email (m_main_home_info c) = '''' then show_nat (unat (m_uin c)) @ ''@pager.icq.com''
      else email (m_main_home_info c))"

definition SayHello :: "smtp_env \<Rightarrow> unit sm" where
  "SayHello E = thenM (smtp_Send E (''HELO localhost'' @ newline)) (\<lambda>_. smtp_to WAITING_FOR_HELO_ACK)"

definition mail_from :: "smtp_env \<Rightarrow> message_event \<Rightarrow> string" where
  "mail_from E ev =
     ''MAIL FROM:'' @
     (case ev_body ev of
        SMSMessageEvent m \<Rightarrow> se_smtp_from m
      | EmailMessageEvent msg \<Rightarrow> getContactEmail (me_contact E (me_self E))
      | _ \<Rightarrow> '''') @ newline"

definition SayFrom :: "smtp_env \<Rightarrow> unit sm" where
  "SayFrom E =
     thenM first_event (\<lambda>ev.
     thenM (smtp_Send E (mail_from E ev)) (\<lambda>_. smtp_to WAITING_FOR_MAIL_ACK))"

definition rcpt_to :: "smtp_env \<Rightarrow> message_event \<Rightarrow> string" where
  "rcpt_to E ev =
     ''RCPT TO:'' @
     (case ev_body ev of
        SMSMessageEvent m \<Rightarrow> se_smtp_to m
      | EmailMessageEvent msg \<Rightarrow> getContactEmail (me_contact E (ev_contact ev))
      | _ \<Rightarrow> '''') @ newline"

definition SayTo :: "smtp_env \<Rightarrow> unit sm" where
  "SayTo E =
     thenM first_event (\<lambda>ev.
     thenM (smtp_Send E (rcpt_to E ev)) (\<lambda>_. smtp_to WAITING_FOR_RCPT_ACK))"

definition SayData :: "smtp_env \<Rightarrow> unit sm" where
  "SayData E = thenM (smtp_Send E (''DATA'' @ newline)) (\<lambda>_. smtp_to WAITING_FOR_DATA_ACK)"

text \<open>An event that is neither an SMS nor a mail is taken for a mail.\<close>

definition mail_text :: "message_event \<Rightarrow> string result" where
  "mail_text ev =
     (case ev_body ev of
        SMSMessageEvent m \<Rightarrow>
          Inr ((if se_smtp_subject m \<noteq> '''' then ''Subject: '' @ se_smtp_subject m @ newline @ newline else '''') @
            se_message m @ newline @ ''.'' @ newline)
      | EmailMessageEvent msg \<Rightarrow> Inr (msg @ newline @ ''.'' @ newline)
      | _ \<Rightarrow> Inl BadCast)"

definition SendText :: "smtp_env \<Rightarrow> unit sm" where
  "SendText E =
     thenM first_event (\<lambda>ev.
     thenM (liftR (mail_text ev)) (\<lambda>t.
     thenM (smtp_Send E t) (\<lambda>_.
     thenM (modify (\<lambda>s. s\<lparr>sm_last_operation := Some (me_now E)\<rparr>)) (\<lambda>_. smtp_to WAITING_FOR_TEXT_ACK))))"

definition SayQuit :: "smtp_env \<Rightarrow> unit sm" where
  "SayQuit E = thenM (smtp_Send E (''QUIT'' @ newline)) (\<lambda>_. smtp_to DISCONNECTING)"

section \<open>Replies\<close>

text \<open>\<^verbatim>\<open>strtoul(s, 0, 0)\<close>, stored in an \<^verbatim>\<open>int\<close>: hexadecimal after \<^verbatim>\<open>0x\<close>, octal after \<^verbatim>\<open>0\<close>.\<close>

definition char_digit :: "char \<Rightarrow> nat" where
  "char_digit c =
     (if isdigit c then digit_value c
      else if CHR ''a'' \<le> c \<and> c \<le> CHR ''z'' then of_char c - of_char (CHR ''a'') + 10
      else if CHR ''A'' \<le> c \<and> c \<le> CHR ''Z'' then of_char c - of_char (CHR ''A'') + 10
      else 36)"

fun read_base :: "nat \<Rightarrow> nat \<Rightarrow> string \<Rightarrow> nat" where
  "read_base base n [] = n"
| "read_base base n (c # cs) =
     (if char_digit c < base then read_base base (base * n + char_digit c) cs else n)"

definition read_auto :: "string \<Rightarrow> nat" where
  "read_auto s =
     (if (starts_with ''0x'' s \<or> starts_with ''0X'' s) \<and> drop 2 s \<noteq> [] \<and> char_digit (hd (drop 2 s)) < 16
      then read_base 16 0 (drop 2 s)
      else if starts_with ''0'' s then read_base 8 0 s
      else read_base 10 0 s)"

definition strtoul :: "string \<Rightarrow> u32" where
  "strtoul s =
     (let sat = (\<lambda>n. if n < 2 ^ 64 then word_of_nat n else - 1) in
      case dropWhile isspace s of
        [] \<Rightarrow> 0
      | c # cs \<Rightarrow>
          if c = CHR ''-'' then (if read_auto cs < 2 ^ 64 then - word_of_nat (read_auto cs) else - 1)
          else if c = CHR ''+'' then sat (read_auto cs)
          else sat (read_auto (c # cs)))"

definition reply_code :: "string \<Rightarrow> u32" where
  "reply_code response =
     (case find_char (CHR '' '') response of None \<Rightarrow> 0 | Some i \<Rightarrow> strtoul (take i response))"

definition mail_sent :: "smtp_env \<Rightarrow> unit sm" where
  "mail_sent E =
     thenM first_event (\<lambda>ev.
     thenM (smtp_put [SmtpAck (ev\<lparr>m_delivered := Some True, m_finished := Some True\<rparr>)]) (\<lambda>_.
     thenM (modify (\<lambda>s. s\<lparr>sm_msgqueue := tl (sm_msgqueue s)\<rparr>)) (\<lambda>_.
     thenM (gets sm_msgqueue) (\<lambda>q. if q = [] then SayQuit E else SayFrom E))))"

text \<open>The result of handling a reply is the text of the \<^verbatim>\<open>SMTPException\<close> that was thrown, if one was.\<close>

definition parse_unless :: "bool \<Rightarrow> string \<Rightarrow> unit sm \<Rightarrow> string option sm" where
  "parse_unless ok msg m =
     (if ok then thenM m (\<lambda>_. ret None) else raise (Fault (ParseException msg)))"

definition smtp_unless :: "bool \<Rightarrow> string \<Rightarrow> unit sm \<Rightarrow> string option sm" where
  "smtp_unless ok msg m = (if ok then thenM m (\<lambda>_. ret None) else ret (Some msg))"

definition handle_reply :: "smtp_env \<Rightarrow> u32 \<Rightarrow> string option sm" where
  "handle_reply E code =
     thenM (gets sm_state) (\<lambda>st.
     case st of
       WAITING_FOR_INVITATION \<Rightarrow> parse_unless (code = 220) ''Didn't receive 220 response'' (SayHello E)
     | WAITING_FOR_HELO_ACK \<Rightarrow> parse_unless (code = 250) ''HELO command wasn't accepted'' (SayFrom E)
     | WAITING_FOR_MAIL_ACK \<Rightarrow> smtp_unless (code = 250) ''MAIL command wasn't accepted'' (SayTo E)
     | WAITING_FOR_RCPT_ACK \<Rightarrow> smtp_unless (code = 250) ''RCPT command wasn't accepted'' (SayData E)
     | WAITING_FOR_DATA_ACK \<Rightarrow> smtp_unless (code = 354) ''DATA command wasn't accepted'' (SendText E)
     | WAITING_FOR_TEXT_ACK \<Rightarrow> smtp_unless (code = 250) ''The message text wasn't accepted'' (mail_sent E)
     | _ \<Rightarrow> ret None)"

definition smtp_Parse :: "smtp_env \<Rightarrow> string option sm" where
  "smtp_Parse E =
     thenM (gets sm_recv) (\<lambda>b.
     if buf_empty b then ret None
     else
       thenM (liftR (UnpackCRLFString '''' b)) (\<lambda>(response, b).
       thenM (modify (\<lambda>s. s\<lparr>sm_recv := b, sm_last_operation := Some (me_now E)\<rparr>)) (\<lambda>_.
       handle_reply E (reply_code response))))"

fun smtp_recv_loop :: "smtp_env \<Rightarrow> u8 list option list \<Rightarrow> string option sm" where
  "smtp_recv_loop E cs =
     thenM (gets sm_socket) (\<lambda>sock.
     if sock \<noteq> SOCK_CONNECTED then ret None
     else
       case cs of
         [] \<Rightarrow> ret None
       | None # cs \<Rightarrow> thenM (smtp_socket SOCK_NOT_CONNECTED) (\<lambda>_. raise SocketError)
       | Some c # cs \<Rightarrow>
           thenM (modify (\<lambda>s. s\<lparr>sm_recv := pack_bytes c (sm_recv s)\<rparr>)) (\<lambda>_.
           thenM (smtp_Parse E) (\<lambda>r.
           case r of Some msg \<Rightarrow> ret (Some msg) | None \<Rightarrow> smtp_recv_loop E cs)))"

declare smtp_recv_loop.simps [simp del]

text \<open>\<^verbatim>\<open>catch(SMTPException e)\<close>: the first message has failed.\<close>

definition mail_failed :: "smtp_env \<Rightarrow> string \<Rightarrow> unit sm" where
  "mail_failed E msg =
     thenM first_event (\<lambda>ev.
     thenM (smtp_put [SmtpAck (ev\<lparr>m_delivered := Some False, m_finished := Some True,
                                   m_failure_reason := Some Failed_SMTP\<rparr>)]) (\<lambda>_.
     thenM (modify (\<lambda>s. s\<lparr>sm_msgqueue := tl (sm_msgqueue s)\<rparr>)) (\<lambda>_.
     thenM (gets sm_msgqueue) (\<lambda>q.
     if q \<noteq> [] then SayFrom E
     else thenM (smtp_to SMTP_NOT_CONNECTED) (\<lambda>_. raise (Disconnected (''SMTP failed: '' @ msg)))))))"

definition smtp_Recv :: "smtp_env \<Rightarrow> u8 list option list \<Rightarrow> unit sm" where
  "smtp_Recv E cs =
     thenM (catchM (smtp_recv_loop E cs)
       (\<lambda>e. case e of
              SocketError \<Rightarrow> thenM smtp_Disconnect (\<lambda>_. raise (Disconnected ''Failed on recv: ''))
            | Fault (ParseException msg) \<Rightarrow>
                thenM (smtp_to SMTP_NOT_CONNECTED) (\<lambda>_. raise (Disconnected (''Failed parsing: '' @ msg)))
            | _ \<Rightarrow> raise e)) (\<lambda>r.
     case r of None \<Rightarrow> ret () | Some msg \<Rightarrow> mail_failed E msg)"

section \<open>Calls and polls\<close>

definition smtp_check_timeout :: "smtp_env \<Rightarrow> unit sm" where
  "smtp_check_timeout E =
     thenM (read sm_last_operation) (\<lambda>t.
     thenM (gets sm_timeout) (\<lambda>d. if me_now E - t > d then smtp_Disconnect else ret ()))"

definition smtp_clearoutMessagesPoll :: "smtp_env \<Rightarrow> unit sm" where
  "smtp_clearoutMessagesPoll E =
     thenM (gets id) (\<lambda>s.
     if sm_msgqueue s = [] then ret ()
     else if sm_state s = SMTP_NOT_CONNECTED then smtp_Connect E
     else smtp_check_timeout E)"

definition smtp_SendEvent :: "smtp_env \<Rightarrow> message_event option \<Rightarrow> unit sm" where
  "smtp_SendEvent E ev =
     thenM (modify (\<lambda>s. s\<lparr>sm_msgqueue := sm_msgqueue s @ [ev]\<rparr>)) (\<lambda>_.
     thenM (gets sm_state) (\<lambda>st. if st = SMTP_NOT_CONNECTED then smtp_Connect E else ret ()))"

definition setServerHost :: "string \<Rightarrow> unit sm" where
  "setServerHost host = modify (\<lambda>s. s\<lparr>sm_server_name := host\<rparr>)"

definition setServerPort :: "u16 \<Rightarrow> unit sm" where
  "setServerPort port = modify (\<lambda>s. s\<lparr>sm_server_port := port\<rparr>)"

definition setTimeout :: "int \<Rightarrow> unit sm" where
  "setTimeout t = modify (\<lambda>s. s\<lparr>sm_timeout := t\<rparr>)"

text \<open>
  The client's part: what \<^verbatim>\<open>socket_cb\<close> does when the socket of this object is ready. A \<^verbatim>\<open>DisconnectedException\<close> and
  a connection that was not established only unregister the socket. A connected socket that is only ready for
  writing is treated as that of a file transfer: what is there is received and a null event is sent.
\<close>

definition smtp_drop :: "unit sm" where
  "smtp_drop = thenM (gets sm_fd) (\<lambda>fd. smtp_put [SmtpRemoveSocket fd])"

definition smtp_or_drop :: "unit sm \<Rightarrow> unit sm" where
  "smtp_or_drop m = catchM m (\<lambda>e. case e of Disconnected msg \<Rightarrow> smtp_drop | _ \<Rightarrow> raise e)"

definition smtp_socket_cb :: "smtp_env \<Rightarrow> u8 list option list \<Rightarrow> socket_mode set \<Rightarrow> unit sm" where
  "smtp_socket_cb E cs modes =
     thenM (gets id) (\<lambda>s.
     if sm_socket s = SOCK_NONBLOCKING_CONNECT \<and> WRITE \<in> modes then
       thenM (smtp_query (me_finishes E)) (\<lambda>ok.
       if \<not> ok then thenM (smtp_socket SOCK_NOT_CONNECTED) (\<lambda>_. smtp_drop)
       else
         thenM (smtp_socket SOCK_CONNECTED) (\<lambda>_.
         thenM (smtp_put [SmtpRemoveSocket (sm_fd s), SmtpAddSocket (sm_fd s) READ]) (\<lambda>_.
         smtp_FinishNonBlockingConnect)))
     else if sm_socket s = SOCK_CONNECTED \<and> READ \<in> modes then smtp_or_drop (smtp_Recv E cs)
     else if sm_socket s = SOCK_CONNECTED \<and> WRITE \<in> modes then
       smtp_or_drop (thenM (smtp_Recv E cs) (\<lambda>_. smtp_SendEvent E None))
     else smtp_drop)"

end
