(* ===== verification/MailProps.thy ===== *)
theory MailProps
  imports MailClient
begin

text \<open>
  What the client of the mail server does with the messages it is given (\<open>MailClient\<close>): a dialogue in which
  the server accepts everything delivers all of them in order, no reachable state lets it look for a message
  that is not there, and a reply that arrives in two pieces fails.
\<close>

lemmas smtp_step_defs = smtp_put_def smtp_query_def smtp_to_def smtp_socket_def first_event_def

section \<open>One reply\<close>

definition is_reply :: "u32 \<Rightarrow> u8 list \<Rightarrow> bool" where
  "is_reply code bs \<longleftrightarrow> (\<exists>t. bs = bytes_of_string (t @ newline) \<and> CHR 0x0A \<notin> set t \<and> reply_code (t @ newline) = code)"

text \<open>Everything received so far was handled, and \<open>n\<close> more bytes fit into the receive buffer.\<close>

definition ready :: "smtp \<Rightarrow> nat \<Rightarrow> bool" where
  "ready s n \<longleftrightarrow>
     sm_socket s = SOCK_CONNECTED \<and> unat (m_out_pos (sm_recv s)) = length (m_data (sm_recv s)) \<and>
     length (m_data (sm_recv s)) + n < 2 ^ 31"

lemma byte_newline: "byte_of_char c = 10 \<longleftrightarrow> c = CHR 0x0A"
proof
  assume "byte_of_char c = 10"
  then have "char_of_byte (byte_of_char c) = char_of_byte 10" by (rule arg_cong)
  moreover have "char_of_byte 10 = CHR 0x0A" by code_simp
  ultimately show "c = CHR 0x0A" by (simp only: char_of_byte_of_char)
qed (simp add: byte_of_char_def)

lemma find_newline:
  "find_byte 10 (bytes_of_string (t @ newline)) = Some (length t)" if "CHR 0x0A \<notin> set t"
  using that by (induction t) (auto simp: bytes_of_string_def newline_def byte_newline)

lemma find_no_newline: "10 \<notin> set bs \<Longrightarrow> find_byte 10 bs = None"
  by (induction bs) auto

lemma unpack_reply:
  assumes "unat (m_out_pos b) = length (m_data b)" and "length (m_data b) + length bs < 2 ^ 31"
    and "bs = bytes_of_string (t @ newline)" and "CHR 0x0A \<notin> set t"
  shows "UnpackCRLFString '''' (pack_bytes bs b) =
    Inr (t @ newline, b\<lparr>m_data := m_data b @ bs, m_out_pos := word_of_nat (length (m_data b) + length bs)\<rparr>)"
proof -
  let ?n = "word_of_nat (length t + 1) :: u32"
  have len: "length bs = length t + 1"
    using assms(3) by (simp add: newline_def)
  have n: "unat ?n = length bs"
    unfolding len using assms(2) len by (intro unat_of_nat_u32) simp
  have p: "unat (m_out_pos b + ?n) = length (m_data b) + length bs"
    using assms(1,2) n by (simp add: unat_word_ariths)
  then have q: "m_out_pos b + ?n = word_of_nat (length (m_data b) + length bs)"
    by (simp only: p [symmetric] of_nat_unat ucast_id)
  have "find_byte 10 (drop (unat (m_out_pos b)) (m_data b @ bs)) = Some (length t)"
    using assms(1) find_newline [OF assms(4)] assms(3) by simp
  then show ?thesis
    using assms(1,3) n p q len
    by (simp add: UnpackCRLFString_def Unpack_def pack_bytes_def advance_def Let_def)
qed

lemma recv_reply:
  assumes "ready s (length bs + n)" and "is_reply code bs"
  obtains b where "ready (s\<lparr>sm_recv := b, sm_last_operation := Some (me_now E)\<rparr>) n"
    and "smtp_recv_loop E (Some bs # cs) s =
      thenM (handle_reply E code) (\<lambda>r. case r of Some m \<Rightarrow> ret (Some m) | None \<Rightarrow> smtp_recv_loop E cs)
        (s\<lparr>sm_recv := b, sm_last_operation := Some (me_now E)\<rparr>)"
proof -
  obtain t where t: "bs = bytes_of_string (t @ newline)" "CHR 0x0A \<notin> set t" "reply_code (t @ newline) = code"
    using assms(2) by (auto simp: is_reply_def)
  let ?r = "sm_recv s"
  let ?b = "?r\<lparr>m_data := m_data ?r @ bs, m_out_pos := word_of_nat (length (m_data ?r) + length bs)\<rparr>"
  have r: "sm_socket s = SOCK_CONNECTED" "unat (m_out_pos ?r) = length (m_data ?r)"
    "length (m_data ?r) + (length bs + n) < 2 ^ 31"
    using assms(1) by (simp_all add: ready_def)
  have ne: "\<not> buf_empty (pack_bytes bs ?r)"
    using t(1) by (simp add: buf_empty_def pack_bytes_def newline_def bytes_of_string_def)
  have u: "UnpackCRLFString '''' (pack_bytes bs ?r) = Inr (t @ newline, ?b)"
    using r by (intro unpack_reply t) simp_all
  show thesis
  proof
    have "unat (word_of_nat (length (m_data ?r) + length bs) :: u32) = length (m_data ?r) + length bs"
      using r(3) by (intro unat_of_nat_u32) simp
    then show "ready (s\<lparr>sm_recv := ?b, sm_last_operation := Some (me_now E)\<rparr>) n"
      using r by (simp add: ready_def del: of_nat_add)
    show "smtp_recv_loop E (Some bs # cs) s =
        thenM (handle_reply E code) (\<lambda>r. case r of Some m \<Rightarrow> ret (Some m) | None \<Rightarrow> smtp_recv_loop E cs)
          (s\<lparr>sm_recv := ?b, sm_last_operation := Some (me_now E)\<rparr>)"
      using r(1) ne u t(3)
      by (subst smtp_recv_loop.simps) (simp add: smtp_Parse_def thenM_def del: of_nat_add)
  qed
qed

section \<open>A dialogue\<close>

definition works_smtp :: "smtp_env \<Rightarrow> bool" where
  "works_smtp E \<longleftrightarrow> (\<forall>n. me_sends E n)"

lemma smtp_Send_works:
  "works_smtp E \<Longrightarrow> sm_socket s = SOCK_CONNECTED \<Longrightarrow>
    smtp_Send E cmd s = (Inr (), s\<lparr>sm_tick := Suc (sm_tick s), sm_out := sm_out s @ [SmtpSent (bytes_of_string cmd)]\<rparr>)"
  by (simp add: smtp_Send_def works_smtp_def smtp_step_defs thenM_def)

lemma handle_works:
  assumes "works_smtp E" and "sm_socket s = SOCK_CONNECTED"
  shows "sm_state s = WAITING_FOR_INVITATION \<Longrightarrow> handle_reply E 220 s =
      (Inr None, s\<lparr>sm_tick := Suc (sm_tick s), sm_state := WAITING_FOR_HELO_ACK,
        sm_out := sm_out s @ [SmtpSent (bytes_of_string (''HELO localhost'' @ newline))]\<rparr>)"
    and "sm_state s = WAITING_FOR_HELO_ACK \<Longrightarrow> sm_msgqueue s = Some ev # q \<Longrightarrow> handle_reply E 250 s =
      (Inr None, s\<lparr>sm_tick := Suc (sm_tick s), sm_state := WAITING_FOR_MAIL_ACK,
        sm_out := sm_out s @ [SmtpSent (bytes_of_string (mail_from E ev))]\<rparr>)"
    and "sm_state s = WAITING_FOR_MAIL_ACK \<Longrightarrow> sm_msgqueue s = Some ev # q \<Longrightarrow> handle_reply E 250 s =
      (Inr None, s\<lparr>sm_tick := Suc (sm_tick s), sm_state := WAITING_FOR_RCPT_ACK,
        sm_out := sm_out s @ [SmtpSent (bytes_of_string (rcpt_to E ev))]\<rparr>)"
    and "sm_state s = WAITING_FOR_RCPT_ACK \<Longrightarrow> handle_reply E 250 s =
      (Inr None, s\<lparr>sm_tick := Suc (sm_tick s), sm_state := WAITING_FOR_DATA_ACK,
        sm_out := sm_out s @ [SmtpSent (bytes_of_string (''DATA'' @ newline))]\<rparr>)"
    and "sm_state s = WAITING_FOR_DATA_ACK \<Longrightarrow> sm_msgqueue s = Some ev # q \<Longrightarrow> mail_text ev = Inr t \<Longrightarrow>
      handle_reply E 354 s =
      (Inr None, s\<lparr>sm_tick := Suc (sm_tick s), sm_state := WAITING_FOR_TEXT_ACK,
        sm_last_operation := Some (me_now E), sm_out := sm_out s @ [SmtpSent (bytes_of_string t)]\<rparr>)"
    and "sm_state s = WAITING_FOR_TEXT_ACK \<Longrightarrow> sm_msgqueue s = Some ev # q \<Longrightarrow> None \<notin> set q \<Longrightarrow> handle_reply E 250 s =
      (Inr None, s\<lparr>sm_tick := Suc (sm_tick s), sm_msgqueue := q,
        sm_state := (if q = [] then DISCONNECTING else WAITING_FOR_MAIL_ACK),
        sm_out := sm_out s @ [SmtpAck (ev\<lparr>m_delivered := Some True, m_finished := Some True\<rparr>),
          SmtpSent (bytes_of_string (if q = [] then ''QUIT'' @ newline else mail_from E (the (hd q))))]\<rparr>)"
  using assms
  by (simp_all add: handle_reply_def parse_unless_def smtp_unless_def SayHello_def SayFrom_def SayTo_def
      SayData_def SendText_def SayQuit_def mail_sent_def smtp_Send_works smtp_step_defs thenM_def split: list.split option.split)
    auto


definition stage :: "smtp_phase \<Rightarrow> message_event list \<Rightarrow> smtp_output list \<Rightarrow> smtp \<Rightarrow> bool" where
  "stage st q os s \<longleftrightarrow> sm_state s = st \<and> sm_msgqueue s = map Some q \<and> sm_out s = os"

definition moves :: "smtp_env \<Rightarrow> u32 \<Rightarrow> smtp_phase \<Rightarrow> message_event list \<Rightarrow> smtp_phase \<Rightarrow> message_event list \<Rightarrow>
    smtp_output list \<Rightarrow> bool" where
  "moves E code st q st' q' new \<longleftrightarrow> (\<forall>s os. sm_socket s = SOCK_CONNECTED \<longrightarrow> stage st q os s \<longrightarrow>
     (\<exists>u. handle_reply E code s = (Inr None, u) \<and> stage st' q' (os @ new) u \<and> sm_recv u = sm_recv s \<and>
       sm_socket u = sm_socket s))"

lemma recv_step:
  assumes "moves E code st q st' q' new" and "is_reply code bs" and "stage st q os s" and "ready s (length bs + n)"
  obtains u where "stage st' q' (os @ new) u" and "ready u n"
    and "smtp_recv_loop E (Some bs # cs) s = smtp_recv_loop E cs u"
proof -
  obtain b where b: "ready (s\<lparr>sm_recv := b, sm_last_operation := Some (me_now E)\<rparr>) n"
    "smtp_recv_loop E (Some bs # cs) s =
      thenM (handle_reply E code) (\<lambda>r. case r of Some m \<Rightarrow> ret (Some m) | None \<Rightarrow> smtp_recv_loop E cs)
        (s\<lparr>sm_recv := b, sm_last_operation := Some (me_now E)\<rparr>)"
    using recv_reply [OF assms(4,2)] by blast
  let ?t = "s\<lparr>sm_recv := b, sm_last_operation := Some (me_now E)\<rparr>"
  have "stage st q os ?t" "sm_socket ?t = SOCK_CONNECTED"
    using assms(3) b(1) by (simp_all add: stage_def ready_def)
  then obtain u where "handle_reply E code ?t = (Inr None, u)" "stage st' q' (os @ new) u" "sm_recv u = sm_recv ?t"
    "sm_socket u = sm_socket ?t"
    using assms(1) unfolding moves_def by blast
  then show thesis
    using b by (intro that [of u]) (simp_all add: ready_def)
qed

definition delivered :: "message_event \<Rightarrow> message_event" where
  "delivered ev = ev\<lparr>m_delivered := Some True, m_finished := Some True\<rparr>"

definition said :: "string \<Rightarrow> smtp_output" where
  "said cmd = SmtpSent (bytes_of_string cmd)"

lemma reply_moves:
  assumes "works_smtp E"
  shows "moves E 220 WAITING_FOR_INVITATION q WAITING_FOR_HELO_ACK q [said (''HELO localhost'' @ newline)]"
    and "moves E 250 WAITING_FOR_HELO_ACK (ev # q) WAITING_FOR_MAIL_ACK (ev # q) [said (mail_from E ev)]"
    and "moves E 250 WAITING_FOR_MAIL_ACK (ev # q) WAITING_FOR_RCPT_ACK (ev # q) [said (rcpt_to E ev)]"
    and "moves E 250 WAITING_FOR_RCPT_ACK q WAITING_FOR_DATA_ACK q [said (''DATA'' @ newline)]"
    and "mail_text ev = Inr m \<Longrightarrow>
      moves E 354 WAITING_FOR_DATA_ACK (ev # q) WAITING_FOR_TEXT_ACK (ev # q) [said m]"
    and "moves E 250 WAITING_FOR_TEXT_ACK (ev # q) (if q = [] then DISCONNECTING else WAITING_FOR_MAIL_ACK) q
      [SmtpAck (delivered ev), said (if q = [] then ''QUIT'' @ newline else mail_from E (hd q))]"
  using assms by (auto simp: moves_def stage_def handle_works delivered_def said_def hd_map)

text \<open>What is sent and reported for messages with the given texts, up to the end of the connection.\<close>

fun dialogue :: "smtp_env \<Rightarrow> (message_event \<times> string) list \<Rightarrow> smtp_output list" where
  "dialogue E [] = [said (''QUIT'' @ newline)]"
| "dialogue E ((ev, m) # ms) =
     [said (mail_from E ev), said (rcpt_to E ev), said (''DATA'' @ newline), said m, SmtpAck (delivered ev)] @
     dialogue E ms"

definition total :: "u8 list list \<Rightarrow> nat" where
  "total cs = length (concat cs)"

lemma deliver_one:
  assumes E: "works_smtp E" and t: "mail_text ev = Inr t"
    and s: "stage WAITING_FOR_MAIL_ACK (ev # q) os s" "ready s (length a + (length b + (length c + (length d + n))))"
    and rs: "is_reply 250 a" "is_reply 250 b" "is_reply 354 c" "is_reply 250 d"
  shows "\<exists>u. stage (if q = [] then DISCONNECTING else WAITING_FOR_MAIL_ACK) q
      (os @ [said (rcpt_to E ev), said (''DATA'' @ newline), said t, SmtpAck (delivered ev),
        said (if q = [] then ''QUIT'' @ newline else mail_from E (hd q))]) u \<and> ready u n \<and>
    smtp_recv_loop E (Some a # Some b # Some c # Some d # cs) s = smtp_recv_loop E cs u"
proof -
  note m = reply_moves [OF E]
  obtain s1 where 1: "stage WAITING_FOR_RCPT_ACK (ev # q) (os @ [said (rcpt_to E ev)]) s1"
    "ready s1 (length b + (length c + (length d + n)))"
    "smtp_recv_loop E (Some a # Some b # Some c # Some d # cs) s = smtp_recv_loop E (Some b # Some c # Some d # cs) s1"
    by (rule recv_step [OF m(3) rs(1) s])
  obtain s2 where 2: "stage WAITING_FOR_DATA_ACK (ev # q) ((os @ [said (rcpt_to E ev)]) @ [said (''DATA'' @ newline)]) s2"
    "ready s2 (length c + (length d + n))"
    "smtp_recv_loop E (Some b # Some c # Some d # cs) s1 = smtp_recv_loop E (Some c # Some d # cs) s2"
    by (rule recv_step [OF m(4) rs(2) 1(1,2)])
  obtain s3 where 3: "stage WAITING_FOR_TEXT_ACK (ev # q)
      (((os @ [said (rcpt_to E ev)]) @ [said (''DATA'' @ newline)]) @ [said t]) s3"
    "ready s3 (length d + n)" "smtp_recv_loop E (Some c # Some d # cs) s2 = smtp_recv_loop E (Some d # cs) s3"
    by (rule recv_step [OF m(5) [OF t] rs(3) 2(1,2)])
  show ?thesis
    by (rule recv_step [OF m(6) rs(4) 3(1,2), of cs]) (use 1(3) 2(3) 3(3) in \<open>auto split: if_splits\<close>)
qed

lemma deliver_queue:
  assumes "works_smtp E"
  shows "\<forall>(ev, m)\<in>set ((ev, m) # ms). mail_text ev = Inr m \<Longrightarrow>
    stage WAITING_FOR_MAIL_ACK (ev # map fst ms) (os @ [said (mail_from E ev)]) s \<Longrightarrow>
    list_all2 is_reply (concat (map (\<lambda>_. [250, 250, 354, 250]) ((ev, m) # ms))) cs \<Longrightarrow> ready s (total cs) \<Longrightarrow>
    \<exists>u. stage DISCONNECTING [] (os @ dialogue E ((ev, m) # ms)) u \<and> ready u 0 \<and>
      smtp_recv_loop E (map Some cs) s = smtp_recv_loop E [] u"
proof (induction ms arbitrary: ev m os s cs)
  case Nil
  then obtain a b c d where cs: "cs = [a, b, c, d]" "is_reply 250 a" "is_reply 250 b" "is_reply 354 c" "is_reply 250 d"
    by (auto simp: list_all2_Cons1)
  show ?case
    using deliver_one [OF assms _ Nil.prems(2), where n = 0 and cs = "[]", OF _ _ cs(2-5), of m] Nil.prems cs(1)
    by (auto simp: total_def add.assoc)
next
  case (Cons x ms)
  obtain ev' m' where x: "x = (ev', m')" by (cases x)
  from Cons.prems(3) obtain a b c d ds where cs: "cs = a # b # c # d # ds" "is_reply 250 a" "is_reply 250 b"
    "is_reply 354 c" "is_reply 250 d" "list_all2 is_reply (concat (map (\<lambda>_. [250, 250, 354, 250]) (x # ms))) ds"
    by (auto simp: list_all2_Cons1)
  let ?os = "os @ [said (mail_from E ev), said (rcpt_to E ev), said (''DATA'' @ newline), said m, SmtpAck (delivered ev)]"
  obtain u where u: "stage WAITING_FOR_MAIL_ACK (ev' # map fst ms) (?os @ [said (mail_from E ev')]) u" "ready u (total ds)"
    "smtp_recv_loop E (map Some cs) s = smtp_recv_loop E (map Some ds) u"
    using deliver_one [OF assms _ Cons.prems(2), where n = "total ds" and cs = "map Some ds", OF _ _ cs(2-5), of m]
      Cons.prems(1,4) cs(1)
    by (auto simp: total_def add.assoc x)
  show ?case
    using Cons.IH [OF _ u(1)] Cons.prems(1) cs(6) u(2,3) x by auto
qed

text \<open>C10: When the mail server greets and accepts every command, one reply line at a time, and no send fails,
  the queued messages are delivered in order: each is announced, its text sent and its event reported as
  delivered, and after the last the client takes its leave.\<close>

theorem mail_queue_delivered:
  assumes "works_smtp E" and "ready s (total cs)" and "sm_state s = WAITING_FOR_INVITATION"
    and "sm_msgqueue s = map (Some \<circ> fst) ms" and "ms \<noteq> []" and "\<forall>(ev, m)\<in>set ms. mail_text ev = Inr m"
    and "list_all2 is_reply ([220, 250] @ concat (map (\<lambda>_. [250, 250, 354, 250]) ms)) cs"
  shows "\<exists>s'. smtp_Recv E (map Some cs) s = (Inr (), s') \<and> sm_state s' = DISCONNECTING \<and> sm_msgqueue s' = [] \<and>
    sm_out s' = sm_out s @ [said (''HELO localhost'' @ newline)] @ dialogue E ms"
proof -
  obtain ev m r where ms: "ms = (ev, m) # r"
    using assms(5) by (cases ms) auto
  obtain a b ds where cs: "cs = a # b # ds" "is_reply 220 a" "is_reply 250 b"
    "list_all2 is_reply (concat (map (\<lambda>_. [250, 250, 354, 250]) ms)) ds"
    using assms(7) by (auto simp: list_all2_Cons1)
  have s: "stage WAITING_FOR_INVITATION (ev # map fst r) (sm_out s) s" "ready s (length a + (length b + total ds))"
    using assms(2-4) ms cs(1) by (simp_all add: stage_def total_def)
  note m = reply_moves [OF assms(1)]
  obtain t where t: "stage WAITING_FOR_HELO_ACK (ev # map fst r) (sm_out s @ [said (''HELO localhost'' @ newline)]) t"
    "ready t (length b + total ds)"
    "smtp_recv_loop E (Some a # Some b # map Some ds) s = smtp_recv_loop E (Some b # map Some ds) t"
    by (rule recv_step [OF m(1) cs(2) s])
  obtain u where u: "stage WAITING_FOR_MAIL_ACK (ev # map fst r)
      ((sm_out s @ [said (''HELO localhost'' @ newline)]) @ [said (mail_from E ev)]) u" "ready u (total ds)"
    "smtp_recv_loop E (Some b # map Some ds) t = smtp_recv_loop E (map Some ds) u"
    by (rule recv_step [OF m(2) cs(3) t(1,2)])
  obtain v where v: "stage DISCONNECTING [] ((sm_out s @ [said (''HELO localhost'' @ newline)]) @ dialogue E ms) v"
    "ready v 0" "smtp_recv_loop E (map Some ds) u = smtp_recv_loop E [] v"
    using deliver_queue [OF assms(1) _ u(1) _ u(2), of m] assms(6) cs(4) ms by auto
  have "smtp_recv_loop E (map Some cs) s = (Inr None, v)"
    using t(3) u(3) v(2,3) cs(1) by (simp add: smtp_recv_loop.simps [of E "[]"] ready_def)
  then show ?thesis
    using v(1) by (simp add: smtp_Recv_def stage_def)
qed

definition demo_mail :: message_event where
  "demo_mail = new_event 0 1 (EmailMessageEvent ''hi'')"

definition demo_smtp_env :: smtp_env where
  "demo_smtp_env = \<lparr>me_now = 0, me_contact = (\<lambda>_. uin_contact False 7), me_self = 0, me_resolves = (\<lambda>_. True),
     me_connects = (\<lambda>_. ConnectPending 5), me_finishes = (\<lambda>_. True), me_sends = (\<lambda>_. True)\<rparr>"

definition line :: "string \<Rightarrow> u8 list" where
  "line t = bytes_of_string (t @ newline)"

lemma is_reply_line: "list_all (\<lambda>(c, t). CHR 0x0A \<notin> set t \<and> reply_code (t @ newline) = c) xs \<Longrightarrow>
    list_all2 is_reply (map fst xs) (map (line \<circ> snd) xs)"
  by (induction xs) (auto simp: is_reply_def line_def)

definition demo_replies :: "(u32 \<times> string) list" where
  "demo_replies = [(220, ''220 hello''), (250, ''250 ok''), (250, ''250 ok''), (250, ''250 ok''), (354, ''354 go''), (250, ''250 ok'')]"

lemma demo_digits:
  "char_digit (CHR ''0'') = 0" "char_digit (CHR ''2'') = 2" "char_digit (CHR ''3'') = 3" "char_digit (CHR ''4'') = 4"
  "char_digit (CHR ''5'') = 5"
  by code_simp+

lemma demo_replies_ok:
  "list_all (\<lambda>(c, t). CHR 0x0A \<notin> set t \<and> reply_code (t @ newline) = c) demo_replies"
  "total (map (line \<circ> snd) demo_replies) < 100"
  by (simp_all add: demo_replies_def reply_code_def strtoul_def read_auto_def isspace_def demo_digits newline_def
      starts_with_def total_def line_def)

definition demo_waiting :: "smtp_phase \<Rightarrow> smtp" where
  "demo_waiting st =
     (new_smtp ''mx'' 25)\<lparr>sm_socket := SOCK_CONNECTED, sm_state := st, sm_msgqueue := [Some demo_mail]\<rparr>"

lemma demo_ready: "n < 2 ^ 31 \<Longrightarrow> ready (demo_waiting st) n"
  by (simp add: ready_def demo_waiting_def new_smtp_def new_buffer_def)

theorem mail_queue_delivered_witness:
  "\<exists>s'. smtp_Recv demo_smtp_env (map Some (map (line \<circ> snd) demo_replies)) (demo_waiting WAITING_FOR_INVITATION) =
      (Inr (), s') \<and> sm_state s' = DISCONNECTING \<and> sm_msgqueue s' = [] \<and> SmtpAck (delivered demo_mail) \<in> set (sm_out s')"
proof -
  let ?ms = "[(demo_mail, ''hi'' @ newline @ ''.'' @ newline)]"
  have "works_smtp demo_smtp_env" "\<forall>(ev, m)\<in>set ?ms. mail_text ev = Inr m"
    "[220, 250] @ concat (map (\<lambda>_. [250, 250, 354, 250]) ?ms) = map fst demo_replies"
    "sm_state (demo_waiting st) = st" "sm_msgqueue (demo_waiting st) = map (Some \<circ> fst) ?ms" for st
    by (simp_all add: works_smtp_def demo_smtp_env_def mail_text_def demo_mail_def new_event_def demo_replies_def
        demo_waiting_def new_smtp_def)
  moreover have "ready (demo_waiting WAITING_FOR_INVITATION) (total (map (line \<circ> snd) demo_replies))"
    using demo_replies_ok(2) by (intro demo_ready) simp
  ultimately obtain s' where "smtp_Recv demo_smtp_env (map Some (map (line \<circ> snd) demo_replies))
      (demo_waiting WAITING_FOR_INVITATION) = (Inr (), s')" "sm_state s' = DISCONNECTING" "sm_msgqueue s' = []"
    "sm_out s' = sm_out (demo_waiting WAITING_FOR_INVITATION) @ [said (''HELO localhost'' @ newline)] @
      dialogue demo_smtp_env ?ms"
    using mail_queue_delivered [of demo_smtp_env "demo_waiting WAITING_FOR_INVITATION" "map (line \<circ> snd) demo_replies" ?ms]
      is_reply_line [OF demo_replies_ok(1)] by auto
  then show ?thesis
    by auto
qed

section \<open>A reply in two pieces\<close>

definition failed_mail :: "message_event \<Rightarrow> message_event" where
  "failed_mail ev = ev\<lparr>m_delivered := Some False, m_finished := Some True, m_failure_reason := Some Failed_SMTP\<rparr>"

lemma recv_part:
  assumes "ready s (length bs)" and "bs \<noteq> []" and "10 \<notin> set bs"
  shows "smtp_recv_loop E [Some bs] s =
    thenM (handle_reply E 0) (\<lambda>r. case r of Some m \<Rightarrow> ret (Some m) | None \<Rightarrow> smtp_recv_loop E [])
      (s\<lparr>sm_recv := pack_bytes bs (sm_recv s), sm_last_operation := Some (me_now E)\<rparr>)"
proof -
  have "UnpackCRLFString '''' (pack_bytes bs (sm_recv s)) = Inr ('''', pack_bytes bs (sm_recv s))"
    using assms find_no_newline [of bs] by (simp add: UnpackCRLFString_def pack_bytes_def ready_def)
  moreover have "reply_code '''' = 0"
    by (simp add: reply_code_def)
  ultimately show ?thesis
    using assms
    by (subst smtp_recv_loop.simps) (simp add: smtp_Parse_def thenM_def buf_empty_def pack_bytes_def ready_def)
qed

lemma mail_failed_reports:
  "sm_msgqueue s = Some ev # q \<Longrightarrow> SmtpAck (failed_mail ev) \<in> set (sm_out (snd (mail_failed E msg s)))"
  by (cases q) (auto simp: mail_failed_def failed_mail_def smtp_step_defs SayFrom_def smtp_Send_def
      smtp_send_failed_def thenM_def split: prod.splits sum.splits option.splits)

text \<open>C39: A reply of the mail server whose first piece arrives alone is taken for a refusal: before the first command
  the connection is given up, later the message it belongs to is reported as failed, even if the server has accepted it.\<close>

theorem split_reply_fails:
  assumes "ready s (length bs)" and "bs \<noteq> []" and "10 \<notin> set bs"
  shows "(sm_state s \<in> {WAITING_FOR_INVITATION, WAITING_FOR_HELO_ACK} \<longrightarrow>
      (\<exists>msg. fst (smtp_Recv E [Some bs] s) = Inl (Disconnected msg)) \<and>
      sm_state (snd (smtp_Recv E [Some bs] s)) = SMTP_NOT_CONNECTED) \<and>
    (sm_state s \<in> {WAITING_FOR_MAIL_ACK, WAITING_FOR_RCPT_ACK, WAITING_FOR_DATA_ACK, WAITING_FOR_TEXT_ACK} \<longrightarrow>
      (\<forall>ev q. sm_msgqueue s = Some ev # q \<longrightarrow>
        SmtpAck (failed_mail ev) \<in> set (sm_out (snd (smtp_Recv E [Some bs] s)))))"
  using recv_part [OF assms, of E] mail_failed_reports
  by (auto simp: smtp_Recv_def handle_reply_def parse_unless_def smtp_unless_def smtp_to_def catchM_def thenM_def)

theorem split_reply_fails_witness:
  "SmtpAck (failed_mail demo_mail) \<in>
     set (sm_out (snd (smtp_Recv demo_smtp_env [Some [50, 53]] (demo_waiting WAITING_FOR_TEXT_ACK))))"
  using split_reply_fails [of "demo_waiting WAITING_FOR_TEXT_ACK" "[50, 53]" demo_smtp_env]
  by (simp add: demo_ready) (simp add: demo_waiting_def new_smtp_def)

section \<open>No missing message\<close>

text \<open>What the application has been asked to watch a descriptor for.\<close>

definition watch :: "int \<Rightarrow> smtp_output \<Rightarrow> socket_mode set \<Rightarrow> socket_mode set" where
  "watch fd x ms =
     (case x of
        SmtpAddSocket f m \<Rightarrow> if f = fd then insert m ms else ms
      | SmtpRemoveSocket f \<Rightarrow> if f = fd then {} else ms
      | _ \<Rightarrow> ms)"

definition watched :: "int \<Rightarrow> smtp_output list \<Rightarrow> socket_mode set" where
  "watched fd os = fold (watch fd) os {}"

lemma watched_simps [simp]:
  "watched fd [] = {}"
  "watched fd (os @ [SmtpSent bs]) = watched fd os" "watched fd (os @ [SmtpAck ev]) = watched fd os"
  "watched fd (os @ [SmtpAck ev, SmtpSent bs]) = watched fd os"
  "watched fd (os @ [SmtpRemoveSocket f]) = (if f = fd then {} else watched fd os)"
  "watched fd (os @ [SmtpRemoveSocket fd, SmtpAddSocket fd m]) = {m}"
  by (simp_all add: watched_def watch_def)

definition waiting :: "smtp_phase \<Rightarrow> bool" where
  "waiting p \<longleftrightarrow> p \<notin> {SMTP_NOT_CONNECTED, DISCONNECTING}"

definition sm_inv :: "smtp \<Rightarrow> bool" where
  "sm_inv s \<longleftrightarrow>
     None \<notin> set (sm_msgqueue s) \<and>
     (waiting (sm_state s) \<or> sm_socket s = SOCK_NONBLOCKING_CONNECT \<longrightarrow> sm_msgqueue s \<noteq> []) \<and>
     (sm_state s \<noteq> SMTP_NOT_CONNECTED \<or> sm_socket s = SOCK_NONBLOCKING_CONNECT \<longrightarrow> sm_last_operation s \<noteq> None) \<and>
     (sm_socket s = SOCK_CONNECTED \<longrightarrow> WRITE \<notin> watched (sm_fd s) (sm_out s))"

definition fine :: "(exn + 'a) \<times> smtp \<Rightarrow> bool" where
  "fine r \<longleftrightarrow> sm_inv (snd r) \<and> fst r \<noteq> Inl (Fault NullPointer) \<and> fst r \<noteq> Inl UnsetMember"

lemma fine_thenM: "fine (m s) \<Longrightarrow> (\<And>x t. m s = (Inr x, t) \<Longrightarrow> sm_inv t \<Longrightarrow> fine (f x t)) \<Longrightarrow> fine (thenM m f s)"
  by (auto simp: fine_def thenM_def split: prod.splits sum.splits)

lemmas fine_defs = fine_def sm_inv_def waiting_def smtp_step_defs thenM_def catchM_def smtp_Send_def smtp_send_failed_def

text \<open>The pointer at the head of the queue is that of a message.\<close>

lemma inv_head:
  assumes "sm_inv s" and "sm_msgqueue s \<noteq> []"
  obtains ev q where "sm_msgqueue s = Some ev # q"
  using assms that unfolding sm_inv_def by (cases "sm_msgqueue s"; cases "hd (sm_msgqueue s)") auto

lemma fine_Say:
  assumes "sm_inv s" and "sm_msgqueue s = Some ev # q" and "sm_last_operation s \<noteq> None"
  shows "fine (SayHello E s)" "fine (SayFrom E s)" "fine (SayTo E s)" "fine (SayData E s)" "fine (SendText E s)"
  using assms
  by (auto simp: SayHello_def SayFrom_def SayTo_def SayData_def SendText_def fine_defs
      liftR_def raise_def mail_text_def split: sum.splits event_body.splits)

lemma inv_settled: "sm_inv s \<Longrightarrow> waiting (sm_state s) \<Longrightarrow> sm_msgqueue s \<noteq> [] \<and> sm_last_operation s \<noteq> None"
  by (auto simp: sm_inv_def waiting_def)

lemma fine_mail_sent:
  assumes "sm_inv s" and "sm_msgqueue s = Some ev # q" and "sm_last_operation s \<noteq> None" and "sm_socket s = SOCK_CONNECTED"
  shows "fine (mail_sent E s)"
proof (cases q)
  case (Cons e q')
  then obtain ev' where "e = Some ev'"
    using assms(1,2) by (cases e) (auto simp: sm_inv_def)
  then show ?thesis
    using assms Cons by (auto simp: mail_sent_def SayFrom_def fine_defs)
qed (use assms in \<open>auto simp: mail_sent_def SayQuit_def fine_defs\<close>)

lemma fine_mail_failed:
  assumes "sm_inv s" and "sm_msgqueue s = Some ev # q" and "sm_last_operation s \<noteq> None" and "sm_socket s = SOCK_CONNECTED"
  shows "fine (mail_failed E msg s)"
proof (cases q)
  case (Cons e q')
  then obtain ev' where "e = Some ev'"
    using assms(1,2) by (cases e) (auto simp: sm_inv_def)
  then show ?thesis
    using assms Cons by (auto simp: mail_failed_def SayFrom_def fine_defs)
qed (use assms in \<open>auto simp: mail_failed_def fine_defs\<close>)

text \<open>A thrown exception leaves the message it is about at the head of the queue.\<close>

definition answered :: "(exn + string option) \<times> smtp \<Rightarrow> bool" where
  "answered r \<longleftrightarrow> fine r \<and> (\<forall>msg. fst r = Inr (Some msg) \<longrightarrow>
     sm_msgqueue (snd r) \<noteq> [] \<and> sm_last_operation (snd r) \<noteq> None \<and> sm_socket (snd r) = SOCK_CONNECTED)"

lemma answered_then_None: "fine (m s) \<Longrightarrow> answered (thenM m (\<lambda>_. ret None) s)"
  by (auto simp: answered_def fine_def thenM_def split: prod.splits sum.splits)

lemma answered_reply:
  assumes "sm_inv s" and "sm_socket s = SOCK_CONNECTED"
  shows "answered (handle_reply E code s)"
proof (cases "waiting (sm_state s) \<and> sm_state s \<noteq> WAITING_FOR_CONNECT")
  case True
  then obtain ev q where q: "sm_msgqueue s = Some ev # q" "sm_last_operation s \<noteq> None"
    using inv_settled [OF assms(1)] inv_head [OF assms(1)] by metis
  have "answered (Inl (Fault (ParseException m)), s)" "answered (Inr (Some m), s)" for m
    using assms q by (auto simp: answered_def fine_def)
  moreover have "answered (thenM (SayHello E) (\<lambda>_. ret None) s)" "answered (thenM (SayFrom E) (\<lambda>_. ret None) s)"
    "answered (thenM (SayTo E) (\<lambda>_. ret None) s)" "answered (thenM (SayData E) (\<lambda>_. ret None) s)"
    "answered (thenM (SendText E) (\<lambda>_. ret None) s)" "answered (thenM (mail_sent E) (\<lambda>_. ret None) s)"
    by (intro answered_then_None fine_Say [OF assms(1) q] fine_mail_sent [OF assms(1) q assms(2)])+
  ultimately show ?thesis
    using True by (auto simp: handle_reply_def parse_unless_def smtp_unless_def waiting_def split: smtp_phase.splits)
next
  case False
  then show ?thesis
    using assms by (auto simp: handle_reply_def waiting_def answered_def fine_def split: smtp_phase.splits)
qed

lemma answered_parse:
  assumes "sm_inv s" and "sm_socket s = SOCK_CONNECTED"
  shows "answered (smtp_Parse E s)"
proof (cases "buf_empty (sm_recv s)")
  case False
  show ?thesis
  proof (cases "UnpackCRLFString '''' (sm_recv s)")
    case (Inl e)
    then have "e = OutOfRange"
      by (auto simp: UnpackCRLFString_def Unpack_def Let_def split: if_splits option.splits)
    then show ?thesis
      using False Inl assms by (simp add: smtp_Parse_def answered_def fine_def thenM_def)
  next
    case (Inr p)
    obtain t b where p: "p = (t, b)" by (cases p)
    have "sm_inv (s\<lparr>sm_recv := b, sm_last_operation := Some (me_now E)\<rparr>)"
      using assms(1) by (simp add: sm_inv_def)
    from answered_reply [OF this] show ?thesis
      using False Inr p assms(2) by (simp add: smtp_Parse_def thenM_def)
  qed
qed (use assms in \<open>simp add: smtp_Parse_def answered_def fine_def thenM_def\<close>)

lemma answered_loop: "sm_inv s \<Longrightarrow> answered (smtp_recv_loop E cs s)"
proof (induction cs arbitrary: s)
  case Nil
  then show ?case by (simp add: smtp_recv_loop.simps answered_def fine_def thenM_def)
next
  case (Cons c cs)
  show ?case
  proof (cases "sm_socket s = SOCK_CONNECTED")
    case True
    show ?thesis
    proof (cases c)
      case None
      then show ?thesis
        using True Cons.prems by (simp add: smtp_recv_loop.simps answered_def fine_defs)
    next
      case (Some bs)
      let ?s = "s\<lparr>sm_recv := pack_bytes bs (sm_recv s)\<rparr>"
      have "sm_inv ?s" "sm_socket ?s = SOCK_CONNECTED"
        using Cons.prems True by (simp_all add: sm_inv_def)
      from answered_parse [OF this, of E] show ?thesis
        using True Some Cons.IH
        by (subst smtp_recv_loop.simps)
          (auto simp: thenM_def answered_def fine_def split: prod.splits sum.splits option.splits)
    qed
  next
    case False
    then show ?thesis
      using Cons.prems by (simp add: smtp_recv_loop.simps answered_def fine_def thenM_def)
  qed
qed

lemma fine_Recv:
  assumes "sm_inv s"
  shows "fine (smtp_Recv E cs s)"
proof -
  obtain r t where r: "smtp_recv_loop E cs s = (r, t)" by fastforce
  then have t: "answered (r, t)"
    using answered_loop [OF assms, of E cs] by simp
  have a: "fine (mail_failed E msg t)" if "r = Inr (Some msg)" for msg
  proof -
    have i: "sm_inv t" "sm_msgqueue t \<noteq> []" "sm_last_operation t \<noteq> None" "sm_socket t = SOCK_CONNECTED"
      using t that by (simp_all add: answered_def fine_def)
    obtain ev q where "sm_msgqueue t = Some ev # q"
      using inv_head [OF i(1,2)] .
    from fine_mail_failed [OF i(1) this i(3,4)] show ?thesis .
  qed
  have f: "fine (r, t)"
    using t by (simp add: answered_def)
  show ?thesis
  proof (cases r)
    case (Inl e)
    then show ?thesis
      using f r
      by (auto simp: smtp_Recv_def smtp_Disconnect_def smtp_remove_socket_def fine_defs split: exn.splits fault.splits)
  next
    case (Inr q)
    then show ?thesis
      using a f r by (cases q) (auto simp: smtp_Recv_def thenM_def fine_def)
  qed
qed

text \<open>An environment in which a connection is never there at once.\<close>

definition connects_later :: "smtp_env \<Rightarrow> bool" where
  "connects_later E \<longleftrightarrow> (\<forall>n fd. me_connects E n \<noteq> ConnectDone fd)"

lemma fine_Connect:
  assumes "sm_inv s" and "sm_msgqueue s \<noteq> []" and "connects_later E"
  shows "fine (smtp_Connect E s)"
  using assms
  by (auto simp: smtp_Connect_def smtp_open_def smtp_lookup_def smtp_Disconnect_def smtp_remove_socket_def connects_later_def
      fine_defs split: connect_result.splits)

text \<open>
  Everything that happens to the object: messages are queued, time passes, the socket is ready. The
  application reports a socket only for what it has been asked to watch it for.
\<close>

datatype smtp_op = QueueMessage message_event | PollMessages | SocketReady "u8 list option list" "socket_mode set"

fun run_smtp :: "smtp_env \<Rightarrow> smtp_op \<Rightarrow> unit sm" where
  "run_smtp E (QueueMessage ev) = smtp_SendEvent E (Some ev)"
| "run_smtp E PollMessages = smtp_clearoutMessagesPoll E"
| "run_smtp E (SocketReady cs modes) = smtp_socket_cb E cs modes"

fun reported :: "smtp_op \<Rightarrow> smtp \<Rightarrow> bool" where
  "reported (SocketReady cs modes) s \<longleftrightarrow> modes \<subseteq> watched (sm_fd s) (sm_out s)"
| "reported _ s \<longleftrightarrow> True"

inductive smtp_reach :: "smtp \<Rightarrow> bool" where
  start: "smtp_reach (new_smtp host port)"
| step: "smtp_reach s \<Longrightarrow> connects_later E \<Longrightarrow> reported op s \<Longrightarrow> smtp_reach (snd (run_smtp E op s))"

lemma fine_smtp_drop: "sm_inv s \<Longrightarrow> fine (smtp_drop s)"
  by (auto simp: smtp_drop_def fine_defs)

lemma fine_or_drop:
  assumes "fine (m s)"
  shows "fine (smtp_or_drop m s)"
proof -
  obtain r t where m: "m s = (r, t)" by fastforce
  show ?thesis
  proof (cases r)
    case (Inl e)
    then show ?thesis
      using assms m fine_smtp_drop [of t] by (cases e) (auto simp: smtp_or_drop_def fine_def)
  next
    case (Inr x)
    then show ?thesis
      using assms m by (simp add: smtp_or_drop_def)
  qed
qed

lemma fine_run:
  assumes "sm_inv s" and "connects_later E" and "reported op s"
  shows "fine (run_smtp E op s)"
proof (cases op)
  case (QueueMessage ev)
  have "sm_inv (s\<lparr>sm_msgqueue := sm_msgqueue s @ [Some ev]\<rparr>)"
    using assms by (simp add: sm_inv_def)
  then show ?thesis
    using QueueMessage fine_Connect [of "s\<lparr>sm_msgqueue := sm_msgqueue s @ [Some ev]\<rparr>" E] assms(2)
    by (simp add: smtp_SendEvent_def thenM_def fine_def)
next
  case PollMessages
  have "fine (smtp_Disconnect s)"
    using assms(1) by (auto simp: smtp_Disconnect_def smtp_remove_socket_def fine_defs)
  then have "sm_last_operation s \<noteq> None \<Longrightarrow> fine (smtp_check_timeout E s)" "fine (ret () s)"
    using assms by (auto simp: smtp_check_timeout_def thenM_def fine_def split: if_splits)
  then show ?thesis
    using PollMessages assms fine_Connect [of s E]
    by (cases "sm_state s = SMTP_NOT_CONNECTED") (auto simp: smtp_clearoutMessagesPoll_def thenM_def sm_inv_def)
next
  case (SocketReady cs modes)
  have "fine (smtp_or_drop (smtp_Recv E cs) s)"
    by (intro fine_or_drop fine_Recv assms(1))
  moreover have "\<not> (sm_socket s = SOCK_CONNECTED \<and> WRITE \<in> modes)"
    using assms(1,3) SocketReady by (auto simp: sm_inv_def)
  moreover have "fine (smtp_drop s)" "fine (smtp_drop (s\<lparr>sm_socket := SOCK_NOT_CONNECTED, sm_tick := n\<rparr>))" for n
    using assms(1) by (auto simp: smtp_drop_def fine_defs)
  ultimately show ?thesis
    using SocketReady assms(1)
    by (auto simp: smtp_socket_cb_def smtp_FinishNonBlockingConnect_def smtp_drop_def fine_defs)
qed

lemma reach_inv: "smtp_reach s \<Longrightarrow> sm_inv s"
proof (induction rule: smtp_reach.induct)
  case (start host port)
  then show ?case by (simp add: sm_inv_def new_smtp_def waiting_def)
next
  case (step s E op)
  then show ?case using fine_run [of s E op] by (simp add: fine_def)
qed

text \<open>C40: As long as no connection is there at once and the application reports the socket only for what it was asked
  to watch, whatever else mail servers, the application and time do, a dialogue is about a message: the queue is
  not empty while a command or a text is to be sent or acknowledged, it holds no null pointer, and no call uses
  a message or a time that is not there.\<close>

theorem mail_never_missing:
  assumes "smtp_reach s"
  shows "(sm_state s \<notin> {SMTP_NOT_CONNECTED, DISCONNECTING} \<longrightarrow> sm_msgqueue s \<noteq> []) \<and> None \<notin> set (sm_msgqueue s) \<and>
    (connects_later E \<and> reported op s \<longrightarrow>
      fst (run_smtp E op s) \<noteq> Inl (Fault NullPointer) \<and> fst (run_smtp E op s) \<noteq> Inl UnsetMember)"
  using reach_inv [OF assms] fine_run [OF reach_inv [OF assms], of E op]
  by (auto simp: sm_inv_def waiting_def fine_def)

lemma demo_connected:
  "smtp_reach (snd (run_smtp demo_smtp_env (QueueMessage demo_mail) (new_smtp ''mx'' 25)))"
  "snd (run_smtp demo_smtp_env (SocketReady [] {WRITE})
     (snd (run_smtp demo_smtp_env (QueueMessage demo_mail) (new_smtp ''mx'' 25)))) =
   (demo_waiting WAITING_FOR_INVITATION)\<lparr>sm_last_operation := Some 0, sm_fd := 5, sm_tick := 2,
     sm_out := [SmtpConnect ''mx'' 25, SmtpAddSocket 5 WRITE, SmtpRemoveSocket 5, SmtpAddSocket 5 READ]\<rparr>"
proof -
  show "smtp_reach (snd (run_smtp demo_smtp_env (QueueMessage demo_mail) (new_smtp ''mx'' 25)))"
    by (intro smtp_reach.intros) (simp_all add: connects_later_def demo_smtp_env_def)
  show "snd (run_smtp demo_smtp_env (SocketReady [] {WRITE})
     (snd (run_smtp demo_smtp_env (QueueMessage demo_mail) (new_smtp ''mx'' 25)))) =
   (demo_waiting WAITING_FOR_INVITATION)\<lparr>sm_last_operation := Some 0, sm_fd := 5, sm_tick := 2,
     sm_out := [SmtpConnect ''mx'' 25, SmtpAddSocket 5 WRITE, SmtpRemoveSocket 5, SmtpAddSocket 5 READ]\<rparr>"
    by (simp add: smtp_SendEvent_def smtp_Connect_def smtp_open_def smtp_lookup_def smtp_socket_cb_def
        smtp_FinishNonBlockingConnect_def smtp_step_defs thenM_def catchM_def new_smtp_def demo_smtp_env_def demo_waiting_def)
qed

theorem mail_never_missing_witness:
  "\<exists>s. smtp_reach s \<and> sm_state s = WAITING_FOR_INVITATION \<and> sm_msgqueue s \<noteq> [] \<and>
    fst (run_smtp demo_smtp_env (SocketReady [Some (line ''220 hello'')] {READ}) s) \<noteq> Inl (Fault NullPointer)"
proof -
  let ?q = "snd (run_smtp demo_smtp_env (QueueMessage demo_mail) (new_smtp ''mx'' 25))"
  let ?s = "snd (run_smtp demo_smtp_env (SocketReady [] {WRITE}) ?q)"
  have later: "connects_later demo_smtp_env"
    by (simp add: connects_later_def demo_smtp_env_def)
  have s: "smtp_reach ?s"
    using demo_connected(1) later by (rule smtp_reach.step)
      (simp add: watched_def watch_def smtp_SendEvent_def smtp_Connect_def smtp_open_def smtp_lookup_def smtp_step_defs
        thenM_def catchM_def new_smtp_def demo_smtp_env_def)
  have "reported (SocketReady [Some (line ''220 hello'')] {READ}) ?s" "sm_state ?s = WAITING_FOR_INVITATION"
    unfolding demo_connected(2) by (simp_all add: watched_def watch_def demo_waiting_def)
  then show ?thesis
    using mail_never_missing [OF s, of demo_smtp_env "SocketReady [Some (line ''220 hello'')] {READ}"] s later
    by (intro exI [of _ ?s]) simp
qed

section \<open>A connection that is there at once\<close>

text \<open>
  When the connection is there at once the socket is registered for writing although nothing waits for that. Each
  time it is ready the client queues a null pointer, and a dialogue that gets to one goes through it.
\<close>

theorem instant_connection_queues_null:
  assumes "me_connects E (sm_tick s) = ConnectDone fd" and "me_resolves E (sm_server_name s)" and "sm_bindhost s = ''''"
    and "sm_socket s = SOCK_NOT_CONNECTED" and "sm_state s = SMTP_NOT_CONNECTED"
  shows "\<exists>s'. smtp_SendEvent E (Some ev) s = (Inr (), s') \<and> WRITE \<in> watched fd (sm_out s') \<and> sm_fd s' = fd \<and>
    smtp_socket_cb E [] {WRITE} s' = (Inr (), s'\<lparr>sm_msgqueue := sm_msgqueue s @ [Some ev, None]\<rparr>)"
  using assms
  by (simp add: smtp_SendEvent_def smtp_Connect_def smtp_open_def smtp_lookup_def smtp_socket_cb_def smtp_or_drop_def
      smtp_Recv_def smtp_recv_loop.simps smtp_step_defs thenM_def catchM_def)
    (simp add: watched_def watch_def)

theorem null_event_used:
  assumes "sm_state s = WAITING_FOR_HELO_ACK" and "sm_msgqueue s = None # q"
  shows "fst (handle_reply E 250 s) = Inl (Fault NullPointer)"
  using assms by (simp add: handle_reply_def parse_unless_def SayFrom_def first_event_def thenM_def)

end
