(* ===== verification/Spec2Isabelle.thy ===== *)
theory Spec2Isabelle
  imports Xml Capabilities Translator Cache ContactTree TLV DirectExchange SnacMsg ParserReturns ServerStream ClientProps
    TransferProps MailProps
begin

text \<open>
  A model of \<^verbatim>\<open>libicq2000\<close>, a C++ library for the protocol of ICQ 2000, and what it is shown to do. File
  names are relative to the sources; a definition has the name of the function it translates, with the
  class in front where two would clash (\<open>dc_\<close> for \<^verbatim>\<open>DirectClient\<close>, \<open>cl_\<close> for \<^verbatim>\<open>ContactList\<close> and for the
  members of \<^verbatim>\<open>Client\<close>).

  \<^bold>\<open>The program.\<close> An application owns one \<^verbatim>\<open>Client\<close>. It tells the application by signals which sockets to
  watch, and is told by \<^verbatim>\<open>socket_cb\<close> when one is ready and by \<^verbatim>\<open>Poll\<close> that time has passed. The client logs in
  at an authorizer, is redirected to a second server, and exchanges frames (FLAP) with it; a frame on channel
  2 holds a packet (SNAC) of some family and subtype, whose body is made of blocks (TLV). A message is
  an \<^verbatim>\<open>ICQSubType\<close>, carried by a SNAC or, encrypted, by a packet of a direct connection between two clients;
  \<^verbatim>\<open>MessageHandler\<close> converts it from and to the event the application sees. Contacts live in a tree of
  groups. Messages that wait for an acknowledgement, requests that wait for a reply and open direct
  connections are kept in caches whose items expire.

  \<^bold>\<open>The model.\<close> C++ integers are words of their width, with wrap-around; strings are lists of characters, packets
  lists of octets. A member no constructor sets is an \<open>option\<close> that is \<open>None\<close> until it is set, and reading
  it before is a fault. A reference to a contact (\<^verbatim>\<open>ContactRef\<close>) is a key of a store of contacts, so that
  sharing is explicit. Signals are elements of a list of outputs, in their order; log messages are left out. An
  exception and a fault (reading outside a buffer, a null pointer, a bad cast, use after \<^verbatim>\<open>delete\<close>) is the left
  of a sum; \<open>None\<close> or \<open>Diverges\<close> is a loop that does not end. What the library gets from outside is a parameter:
  results of system calls, random numbers, the time, the name server, the translation of characters, and what
  the application does to an event it is shown.

  \<^bold>\<open>Foundations.\<close>
    \<^item> \<open>Prelude\<close>: word types, faults, \<open>andThen\<close>; streams that are split into frames (\<open>split_frames\<close>).
    \<^item> \<open>Effects\<close>: operations on a state that can end in an exception and keep what they did, the rules by which
      an invariant passes through them (\<open>stable_rules\<close>), and loops (\<open>eachM\<close>).
    \<^item> \<open>CxxString\<close>, \<open>OrdMap\<close>: \<^verbatim>\<open>std::string\<close>, streams, \<^verbatim>\<open>std::map\<close>.
    \<^item> \<open>KeyedStore\<close>: the interface of the caches, contact lists and maps, a locale that is interpreted on
      all of them.
    \<^item> \<open>Packet\<close>: what output appends and what a length field that is filled in later does to it.

  \<^bold>\<open>Data on the wire.\<close>
    \<^item> \<open>Buffer\<close> (\<^verbatim>\<open>src/buffer.cpp\<close>): reading, writing, length markers; the locale \<open>codec\<close> states that
      what is written is read back and is interpreted on every integer and string format.
    \<^item> \<open>Xml\<close> (\<^verbatim>\<open>src/Xml.cpp\<close>), \<open>Capabilities\<close>, \<open>Translator\<close>, \<open>ICBMCookie\<close>: the files of these names.
    \<^item> \<open>TLV\<close> (\<^verbatim>\<open>src/TLV.cpp\<close>): the classes and the list parsers. \<open>ICQSubType\<close> (\<^verbatim>\<open>src/ICQ.cpp\<close>): the messages.
    \<^item> \<open>SnacBase\<close>, \<open>SnacMsg\<close>, \<open>SnacSbl\<close>, \<open>SnacSrv\<close>, \<open>SnacParse\<close> (\<^verbatim>\<open>src/SNAC-*.cpp\<close>, \<^verbatim>\<open>src/UserInfoBlock.cpp\<close>): the
      families, the header and \<^verbatim>\<open>ParseSNAC\<close>. \<open>ParserReturns\<close>: it comes back for every packet, and not because
      fuel of the model was used up.
    Their theorems are round trips through writer and reader, and that readers end and stay inside the
    packet whatever it holds; where they do not, the exact inputs.

  \<^bold>\<open>Contacts, events and caches.\<close>
    \<^item> \<open>Contact\<close>, \<open>ContactTree\<close> (\<^verbatim>\<open>src/Contact.cpp\<close>, \<^verbatim>\<open>src/ContactList.cpp\<close>, \<^verbatim>\<open>src/ContactTree.cpp\<close>): invariants of
      the containers; moving a contact between groups refines moving it between maps.
    \<^item> \<open>Cache\<close> (\<^verbatim>\<open>src/Cache.h\<close> and the five caches): order of expiry, exactly what a poll expires.
    \<^item> \<open>Events\<close>, \<open>MessageHandler\<close>: events, and delivery of a message and of its acknowledgement from one handler to
      another.

  \<^bold>\<open>Direct connections\<close> (\<^verbatim>\<open>src/DirectClient.cpp\<close>).
    \<^item> \<open>DirectCrypt\<close>: encryption and its inverse. \<open>DirectClient\<close>: the state machine, one definition per function.
    \<^item> \<open>DirectConnection\<close>: which peers get to talk, by invariants over a locale of views of the state; receiving in
      pieces. \<open>DirectExchange\<close>: two connections at the ends of a line; the handshake completes.

  \<^bold>\<open>The client\<close> (\<^verbatim>\<open>src/Client.cpp\<close>, \<^verbatim>\<open>src/socket.cpp\<close>).
    \<^item> \<open>ServerConn\<close>: the record \<open>client\<close> of the members, sockets, FLAP frames, connecting, disconnecting, sending
      messages through the server, the callbacks of direct connections. \<open>ServerSession\<close>: login, the four
      channels, every SNAC, the receive loop. \<open>ClientApi\<close>: what the application calls, opening and accepting
      direct connections, list callbacks, \<^verbatim>\<open>Poll\<close>, \<^verbatim>\<open>socket_cb\<close>, settings.
    \<^item> \<open>ClientInv\<close>: the locale \<open>client_invariant\<close> carries a predicate that three facts support (it passes to states
      with the same link to the server and more output, counting keeps it, closing gives it) through every function that sends. It is
      interpreted for the invariant of all reachable states (\<open>client_reach\<close>: any sequence of calls, socket events
      and polls, with any results from outside), for a closed socket and for being off line.
    \<^item> \<open>SessionOutput\<close>: no function of a session takes back what was output or reads the receive buffer.
    \<^item> \<open>ServerStream\<close>: frames survive the stream, and the receive loop (\<^verbatim>\<open>RecvFromServer\<close>) handles them in order
      however it is cut into pieces. \<open>Client_Parse\<close> takes the receive buffer out of the state for the frames it
      handles. \<open>ServerLogin\<close>: the packets with which a login completes, and what a failed send makes of it.
      \<open>ClientProps\<close>: disconnecting, the redirect, acknowledgements, and what is lost when a send fails.

  \<^bold>\<open>Files and mail.\<close>
    \<^item> \<open>FileTransfer\<close> (\<^verbatim>\<open>src/FileTransferClient.cpp\<close>): the handshake, run by the definitions of \<open>DirectClient\<close> on the
      component \<open>fc_dc\<close> of the state, the seven packets, the two file streams, the names of files and directories.
      The file system is a parameter. \<open>FileTransferProps\<close>: the data of a file arrives byte for byte; names are
      taken from the peer as they are; an empty packet stops a connection. \<open>FileTransferAuth\<close>: the invariant of
      \<open>DirectConnection\<close> lifted to transfers: no file is touched for a peer that the contact list does not know.
      The locale \<open>transfer_view\<close> carries a view of the state through every function of a transfer.
    \<^item> \<open>Transfers\<close> (the functions of \<^verbatim>\<open>src/Client.cpp\<close> for files, \<^verbatim>\<open>src/FTCache.h\<close>): the client's table of transfers,
      how one is started, answered and cancelled, how its connection is accepted and served, expiry. The events
      are a store, shared with the application. \<open>TransferProps\<close>: every transfer stands under its own
      descriptor in all reachable states (\<open>tx_reach\<close>: any sequence of calls, socket events and polls); a second
      connection to the socket of a transfer ends in a null pointer.
    \<^item> \<open>MailClient\<close> (\<^verbatim>\<open>src/SMTPClient.cpp\<close>): the dialogue with a mail server, its timeouts and failures.
      The queue holds pointers to messages, which may be null. \<open>MailProps\<close>: a server that accepts everything gets
      every message, in order; an invariant over all reachable states (\<open>smtp_reach\<close>) in which connections take
      time; a connection that is there at once puts null pointers into the queue; what becomes of a reply
      that arrives in two pieces.

  \<^bold>\<open>Bounds and fuel.\<close> The XML parser has fuel one above twice the length of its input, and \<open>xml_parse_total\<close> shows
  that it is enough; loops whose end is not structural are \<open>function\<close>s with a measure, mostly the bytes that remain, and
  loops that may not end (drawing a free cookie or group id, polling a cache, decrypting a short packet)
  return an \<open>option\<close>. Sizes assumed in theorems are those at which the 16-bit and 32-bit counts of the
  code do not wrap around.

  \<^bold>\<open>Not modelled.\<close> The table of transfers is not a member of the record \<open>client\<close>: what passes between the two are
  the outputs and parameters of \<open>Transfers\<close>. \<^verbatim>\<open>FileTransferClient::listDirectory\<close> and \<^verbatim>\<open>SendPacketAck\<close>, which
  nothing calls. \<^verbatim>\<open>mergeSBL\<close> prints, and the debugging dumps print. Signals and slots
  (\<^verbatim>\<open>sigslot.h\<close>), reference counting and the tables of \<^verbatim>\<open>userinfoconstants.h\<close>, which the library does not use,
  are left out. The objects the client's caches point to are values of the cache; the code's \<^verbatim>\<open>delete\<close> of
  an event has no counterpart, that of a direct connection has.
\<close>

end
